(* ===== verification/Prelude.thy ===== *)
theory Prelude
  imports Main
begin

text \<open>
  Shared vocabulary of the development: the types that name times, identifiers and
  results, the collections of simplification facts, and the generic lemmas on lists,
  options and maps that several components use.  Times are Unix nanoseconds or seconds
  as the source has them, read as unbounded integers; every operation that calls
  \<open>time.Now()\<close> takes the current time as an argument.
\<close>

type_synonym time = int

named_theorems wf_intros "facts that establish the well-formedness of a component's state"
named_theorems step_simps "unfolding rules of the operations of a component"

section \<open>Results\<close>

text \<open>Go's \<open>(value, error)\<close> pairs are sums: \<open>Inl\<close> is the error.\<close>

definition bind_res :: "'e + 'a \<Rightarrow> ('a \<Rightarrow> 'e + 'b) \<Rightarrow> 'e + 'b" where
  "bind_res r f = (case r of Inl e \<Rightarrow> Inl e | Inr x \<Rightarrow> f x)"

lemma bind_res_simps [simp]:
  "bind_res (Inl e) f = Inl e"
  "bind_res (Inr x) f = f x"
  by (simp_all add: bind_res_def)

lemma bind_res_Inr_iff: "bind_res r f = Inr y \<longleftrightarrow> (\<exists>x. r = Inr x \<and> f x = Inr y)"
  by (cases r) auto

section \<open>Lists\<close>

lemma takeWhile_append_stop:
  "\<forall>x\<in>set xs. P x \<Longrightarrow> \<not> P y \<Longrightarrow> takeWhile P (xs @ y # ys) = xs"
  by (induction xs) auto

lemma find_Some_in: "find P xs = Some x \<Longrightarrow> x \<in> set xs \<and> P x"
  by (auto simp: find_Some_iff)

lemma find_None_all: "find P xs = None \<longleftrightarrow> (\<forall>x\<in>set xs. \<not> P x)"
  by (auto simp: find_None_iff)

lemma filter_upt_first:
  assumes "filter P [a..<b] = i # is"
  shows "a \<le> i \<and> i < b \<and> P i \<and> (\<forall>j. a \<le> j \<and> j < i \<longrightarrow> \<not> P j)"
  using assms
proof (induction "b - a" arbitrary: a)
  case 0
  then show ?case by simp
next
  case (Suc n)
  then have ab: "a < b" by simp
  show ?case
  proof (cases "P a")
    case True
    with Suc.prems have "i = a" by (simp add: upt_conv_Cons [OF ab])
    with True ab show ?thesis by auto
  next
    case False
    have IH: "Suc a \<le> i \<and> i < b \<and> P i \<and> (\<forall>j. Suc a \<le> j \<and> j < i \<longrightarrow> \<not> P j)"
    proof (rule Suc.hyps(1))
      show "n = b - Suc a" using Suc.hyps(2) by simp
      show "filter P [Suc a..<b] = i # is"
        using Suc.prems False by (simp add: upt_conv_Cons [OF ab])
    qed
    have nP: "\<forall>j. a \<le> j \<and> j < i \<longrightarrow> \<not> P j"
    proof (intro allI impI)
      fix j assume "a \<le> j \<and> j < i"
      then show "\<not> P j" using IH False by (cases "j = a") simp_all
    qed
    from IH have "a \<le> i" "i < b" "P i" by simp_all
    with nP show ?thesis by simp
  qed
qed

lemma filter_upt_Nil: "filter P [a..<b] = [] \<longleftrightarrow> (\<forall>j. a \<le> j \<and> j < b \<longrightarrow> \<not> P j)"
  unfolding filter_empty_conv by (simp add: Ball_def)

lemma find_upt_Some:
  "find P [a..<b] = Some i \<longleftrightarrow> a \<le> i \<and> i < b \<and> P i \<and> (\<forall>j. a \<le> j \<and> j < i \<longrightarrow> \<not> P j)"
proof
  assume "find P [a..<b] = Some i"
  then obtain k where k: "k < b - a" "P (a + k)" "i = a + k" "\<forall>j<k. \<not> P ([a..<b] ! j)"
    by (auto simp: find_Some_iff)
  have "\<not> P j" if "a \<le> j" "j < i" for j
  proof -
    have "j - a < k" using that k(3) by simp
    with k(4) have "\<not> P ([a..<b] ! (j - a))" by blast
    with that k(1,3) show ?thesis by simp
  qed
  with k show "a \<le> i \<and> i < b \<and> P i \<and> (\<forall>j. a \<le> j \<and> j < i \<longrightarrow> \<not> P j)" by simp
next
  assume i: "a \<le> i \<and> i < b \<and> P i \<and> (\<forall>j. a \<le> j \<and> j < i \<longrightarrow> \<not> P j)"
  show "find P [a..<b] = Some i"
    unfolding find_Some_iff
    by (rule exI [of _ "i - a"]) (use i in auto)
qed

lemma find_upt_None: "find P [a..<b] = None \<longleftrightarrow> (\<forall>j. a \<le> j \<and> j < b \<longrightarrow> \<not> P j)"
  unfolding find_None_iff by auto

section \<open>Maps\<close>

text \<open>
  Go's \<open>for k, v := range m { if p(v) { delete(m, k) } }\<close>: the entries that satisfy
  the predicate are gone, the others are untouched, whatever the iteration order.
\<close>

definition map_delete_if :: "('v \<Rightarrow> bool) \<Rightarrow> ('k \<rightharpoonup> 'v) \<Rightarrow> ('k \<rightharpoonup> 'v)" where
  "map_delete_if p m = (\<lambda>k. case m k of None \<Rightarrow> None | Some v \<Rightarrow> if p v then None else Some v)"

lemma map_delete_if_Some [simp]:
  "map_delete_if p m k = Some v \<longleftrightarrow> m k = Some v \<and> \<not> p v"
  by (auto simp: map_delete_if_def split: option.splits)

lemma map_delete_if_None:
  "map_delete_if p m k = None \<longleftrightarrow> (\<forall>v. m k = Some v \<longrightarrow> p v)"
  by (auto simp: map_delete_if_def split: option.splits)

lemma dom_map_delete_if: "dom (map_delete_if p m) \<subseteq> dom m"
  by (auto simp: map_delete_if_def split: option.splits)

lemma finite_dom_delete_if: "finite (dom m) \<Longrightarrow> finite (dom (map_delete_if p m))"
  by (rule finite_subset [OF dom_map_delete_if])

lemma card_dom_upd_fresh:
  "finite (dom m) \<Longrightarrow> m k = None \<Longrightarrow> card (dom (m(k \<mapsto> v))) = Suc (card (dom m))"
  by (simp add: domIff)

lemma card_dom_del:
  "finite (dom m) \<Longrightarrow> m k = Some v \<Longrightarrow> card (dom m) = Suc (card (dom (m(k := None))))"
  by (metis card.remove domI dom_fun_upd)

section \<open>Table rows\<close>

text \<open>\<open>UPDATE ... WHERE\<close>: the rows a predicate selects are changed in place.\<close>

definition update_rows :: "('r \<Rightarrow> bool) \<Rightarrow> ('r \<Rightarrow> 'r) \<Rightarrow> 'r list \<Rightarrow> 'r list" where
  "update_rows P f rs = map (\<lambda>r. if P r then f r else r) rs"

lemma update_rows_Nil [simp]: "update_rows P f [] = []"
  by (simp add: update_rows_def)

lemma update_rows_Cons [simp]:
  "update_rows P f (r # rs) = (if P r then f r else r) # update_rows P f rs"
  by (simp add: update_rows_def)

lemma set_update_rows: "set (update_rows P f rs) = (\<lambda>r. if P r then f r else r) ` set rs"
  by (simp add: update_rows_def)

lemma length_update_rows [simp]: "length (update_rows P f rs) = length rs"
  by (simp add: update_rows_def)

lemma map_update_rows: "(\<And>r. P r \<Longrightarrow> g (f r) = g r) \<Longrightarrow> map g (update_rows P f rs) = map g rs"
  by (simp add: update_rows_def)

lemma filter_update_rows:
  "(\<And>r. P r \<Longrightarrow> Q (f r) = Q r) \<Longrightarrow> filter Q (update_rows P f rs) = update_rows P f (filter Q rs)"
  by (induction rs) auto

lemma update_rows_none: "(\<And>r. r \<in> set rs \<Longrightarrow> \<not> P r) \<Longrightarrow> update_rows P f rs = rs"
  by (induction rs) auto

lemma find_update_rows:
  "(\<And>r. P r \<Longrightarrow> Q (f r) = Q r) \<Longrightarrow>
     find Q (update_rows P f rs) = map_option (\<lambda>r. if P r then f r else r) (find Q rs)"
  by (induction rs) auto

lemma find_key_unique:
  "distinct (map k rs) \<Longrightarrow> r \<in> set rs \<Longrightarrow> find (\<lambda>x. k x = k r) rs = Some r"
  by (induction rs) (auto simp: image_iff)

lemma distinct_map_inj_on: "distinct (map k rs) \<Longrightarrow> a \<in> set rs \<Longrightarrow> b \<in> set rs \<Longrightarrow> k a = k b \<Longrightarrow> a = b"
  by (auto simp: distinct_map inj_on_def)

lemma find_append: "find P (xs @ ys) = (case find P xs of Some x \<Rightarrow> Some x | None \<Rightarrow> find P ys)"
  by (induction xs) auto

lemma find_filter_key:
  "find (\<lambda>r. k r = c) (filter (\<lambda>r. k r \<noteq> x) rs) = (if c = x then None else find (\<lambda>r. k r = c) rs)"
  by (induction rs) auto

section \<open>Machine integers\<close>

text \<open>A sum or product of type \<open>int64\<close> wraps around.\<close>

definition int64 :: "int \<Rightarrow> int" where
  "int64 n = (n + 2 ^ 63) mod 2 ^ 64 - 2 ^ 63"

lemma int64_le: "0 \<le> n \<Longrightarrow> int64 n \<le> n"
  using zmod_le_nonneg_dividend [of "n + 2 ^ 63" "2 ^ 64"] by (simp add: int64_def)

lemma int64_small: "0 \<le> n \<Longrightarrow> n < 2 ^ 63 \<Longrightarrow> int64 n = n"
  by (simp add: int64_def)

end
