(* ===== verification/Go_Strings.thy ===== *)
theory Go_Strings
  imports Prelude
begin

text \<open>
  The functions of Go's \<open>strings\<close> and \<open>strconv\<close> packages that the modelled code uses.
  A Go string is its list of bytes, so a \<open>char\<close> is a byte and a code point beyond ASCII
  is several of them.
\<close>

section \<open>Prefixes and suffixes\<close>

definition HasPrefix :: "string \<Rightarrow> string \<Rightarrow> bool" where
  "HasPrefix s p \<longleftrightarrow> take (length p) s = p"

definition TrimPrefix :: "string \<Rightarrow> string \<Rightarrow> string" where
  "TrimPrefix s p = (if HasPrefix s p then drop (length p) s else s)"

definition HasSuffix :: "string \<Rightarrow> string \<Rightarrow> bool" where
  "HasSuffix s p \<longleftrightarrow> HasPrefix (rev s) (rev p)"

lemma HasPrefix_iff: "HasPrefix s p \<longleftrightarrow> (\<exists>t. s = p @ t)"
  by (metis HasPrefix_def append_eq_conv_conj append_take_drop_id)

lemma HasPrefix_append [simp]: "HasPrefix (p @ t) p"
  by (simp add: HasPrefix_def)

lemma HasPrefix_Nil [simp]: "HasPrefix s []"
  by (simp add: HasPrefix_def)

lemma HasPrefix_Nil_left [simp]: "HasPrefix [] p \<longleftrightarrow> p = []"
  by (auto simp: HasPrefix_def)

lemma HasPrefix_Cons [simp]: "HasPrefix (a # s) (b # p) \<longleftrightarrow> a = b \<and> HasPrefix s p"
  by (auto simp: HasPrefix_def)

lemma TrimPrefix_append [simp]: "TrimPrefix (p @ t) p = t"
  by (simp add: TrimPrefix_def)

lemma HasSuffix_iff: "HasSuffix s p \<longleftrightarrow> (\<exists>t. s = t @ p)"
  by (metis HasPrefix_iff HasSuffix_def rev_append rev_rev_ident)

section \<open>Trimming\<close>

text \<open>\<open>strings.TrimRight(s, cutset)\<close> for a cutset of ASCII characters.\<close>

definition TrimRight :: "string \<Rightarrow> string \<Rightarrow> string" where
  "TrimRight s cs = rev (dropWhile (\<lambda>c. c \<in> set cs) (rev s))"

lemma TrimRight_Nil [simp]: "TrimRight [] cs = []"
  by (simp add: TrimRight_def)

lemma TrimRight_last: "s = [] \<or> last s \<notin> set cs \<Longrightarrow> TrimRight s cs = s"
  by (cases s rule: rev_cases) (auto simp: TrimRight_def)

text \<open>
  \<open>strings.TrimSpace\<close> removes the code points of \<open>unicode.IsSpace\<close> at both ends.  They
  are listed here as their UTF-8 encodings: a sequence found at an end of a string is
  exactly what Go's decoder reads there as that code point.
\<close>

definition go_spaces :: "string list" where
  "go_spaces =
     [[CHR 0x09], [CHR 0x0A], [CHR 0x0B], [CHR 0x0C], [CHR 0x0D], [CHR 0x20],
      [CHR 0xC2, CHR 0x85], [CHR 0xC2, CHR 0xA0],
      [CHR 0xE1, CHR 0x9A, CHR 0x80],
      [CHR 0xE2, CHR 0x80, CHR 0x80], [CHR 0xE2, CHR 0x80, CHR 0x81],
      [CHR 0xE2, CHR 0x80, CHR 0x82], [CHR 0xE2, CHR 0x80, CHR 0x83],
      [CHR 0xE2, CHR 0x80, CHR 0x84], [CHR 0xE2, CHR 0x80, CHR 0x85],
      [CHR 0xE2, CHR 0x80, CHR 0x86], [CHR 0xE2, CHR 0x80, CHR 0x87],
      [CHR 0xE2, CHR 0x80, CHR 0x88], [CHR 0xE2, CHR 0x80, CHR 0x89],
      [CHR 0xE2, CHR 0x80, CHR 0x8A], [CHR 0xE2, CHR 0x80, CHR 0xA8],
      [CHR 0xE2, CHR 0x80, CHR 0xA9], [CHR 0xE2, CHR 0x80, CHR 0xAF],
      [CHR 0xE2, CHR 0x81, CHR 0x9F], [CHR 0xE3, CHR 0x80, CHR 0x80]]"

function strip_front :: "string list \<Rightarrow> string \<Rightarrow> string" where
  "strip_front ps s =
     (case find (\<lambda>p. p \<noteq> [] \<and> HasPrefix s p) ps of
        None \<Rightarrow> s
      | Some p \<Rightarrow> strip_front ps (drop (length p) s))"
  by pat_completeness auto
termination
proof (relation "measure (\<lambda>(ps, s). length s)", goal_cases)
  case 1
  show ?case by simp
next
  case (2 ps s p)
  then have "p \<noteq> []" "HasPrefix s p" by (auto dest: find_Some_in)
  then show ?case by (auto simp: HasPrefix_iff)
qed

declare strip_front.simps [simp del]

definition TrimSpace :: "string \<Rightarrow> string" where
  "TrimSpace s = rev (strip_front (map rev go_spaces) (rev (strip_front go_spaces s)))"

text \<open>A character that starts no space sequence is never stripped, at either end.\<close>

lemma strip_front_Nil [simp]: "strip_front ps [] = []"
proof -
  have "find (\<lambda>p. p \<noteq> [] \<and> HasPrefix [] p) ps = None"
    by (auto simp: find_None_all)
  then show ?thesis by (subst strip_front.simps) simp
qed

lemma strip_front_keep:
  assumes "\<forall>p\<in>set ps. \<not> HasPrefix (c # s) p \<or> p = []"
  shows "strip_front ps (c # s) = c # s"
proof -
  have "find (\<lambda>p. p \<noteq> [] \<and> HasPrefix (c # s) p) ps = None"
    using assms by (auto simp: find_None_all)
  then show ?thesis by (subst strip_front.simps) simp
qed

lemma HasPrefix_snoc_notin:
  assumes "HasPrefix (s @ [c]) p" and "c \<notin> set p"
  shows "HasPrefix s p"
proof -
  from assms(1) obtain t where t: "s @ [c] = p @ t" by (auto simp: HasPrefix_iff)
  with assms(2) have "t \<noteq> []" by (metis append.right_neutral in_set_conv_decomp)
  then obtain t' d where "t = t' @ [d]" by (metis rev_exhaust)
  with t show ?thesis by (auto simp: HasPrefix_iff)
qed

lemma HasPrefix_appendI: "HasPrefix s p \<Longrightarrow> HasPrefix (s @ t) p"
  by (auto simp: HasPrefix_iff)

lemma strip_front_snoc:
  assumes "\<forall>p\<in>set ps. c \<notin> set p"
  shows "strip_front ps (s @ [c]) = strip_front ps s @ [c]"
  using assms
proof (induction ps s rule: strip_front.induct)
  case (1 ps s)
  let ?f = "\<lambda>s. find (\<lambda>p. p \<noteq> [] \<and> HasPrefix s p) ps"
  have same: "?f (s @ [c]) = ?f s"
    by (rule find_cong) (use 1(2) in \<open>auto intro: HasPrefix_snoc_notin HasPrefix_appendI\<close>)
  show ?case
  proof (cases "?f s")
    case None
    with same show ?thesis
      by (simp add: strip_front.simps[of ps "s @ [c]"] strip_front.simps[of ps s])
  next
    case (Some p)
    then have "p \<noteq> []" "HasPrefix s p" by (auto dest: find_Some_in)
    then have "length p \<le> length s" by (auto simp: HasPrefix_iff)
    with Some same 1(1)[OF Some 1(2)] show ?thesis
      by (simp add: strip_front.simps[of ps "s @ [c]"] strip_front.simps[of ps s])
  qed
qed

definition solid :: "char \<Rightarrow> bool" where
  "solid c \<longleftrightarrow> (\<forall>p\<in>set go_spaces. c \<notin> set p)"

lemma strip_front_solid: "solid c \<Longrightarrow> strip_front go_spaces (c # s) = c # s"
proof (rule strip_front_keep)
  assume c: "solid c"
  have "p = []" if "p \<in> set go_spaces" "HasPrefix (c # s) p" for p
  proof (cases p)
    case (Cons d q)
    with that c show ?thesis by (auto simp: solid_def)
  qed simp
  then show "\<forall>p\<in>set go_spaces. \<not> HasPrefix (c # s) p \<or> p = []" by blast
qed

lemma TrimSpace_solid: "solid c \<Longrightarrow> \<exists>t. TrimSpace (c # s) = c # t"
proof -
  assume c: "solid c"
  then have "strip_front (map rev go_spaces) (rev s @ [c]) =
      strip_front (map rev go_spaces) (rev s) @ [c]"
    by (intro strip_front_snoc) (auto simp: solid_def)
  with c show ?thesis by (simp add: TrimSpace_def strip_front_solid)
qed

lemma TrimSpace_solid_ne: "solid c \<Longrightarrow> TrimSpace (c # s) \<noteq> []"
  by (auto dest: TrimSpace_solid [of c s])

lemma TrimSpace_Nil [simp]: "TrimSpace [] = []"
  by (simp add: TrimSpace_def)

section \<open>Splitting and joining\<close>

text \<open>\<open>strings.Split(s, sep)\<close> and \<open>strings.Join\<close> for a one-byte separator.\<close>

fun Split :: "char \<Rightarrow> string \<Rightarrow> string list" where
  "Split c [] = [[]]"
| "Split c (x # xs) =
     (if x = c then [] # Split c xs
      else (case Split c xs of [] \<Rightarrow> [[x]] | y # ys \<Rightarrow> (x # y) # ys))"

fun Join :: "string list \<Rightarrow> string \<Rightarrow> string" where
  "Join [] sep = []"
| "Join [x] sep = x"
| "Join (x # y # ys) sep = x @ sep @ Join (y # ys) sep"

lemma Split_ne [simp]: "Split c s \<noteq> []"
  by (cases s) (auto split: list.splits)

lemma Split_no_sep: "c \<notin> set s \<Longrightarrow> Split c s = [s]"
  by (induction s) auto

lemma Split_append: "c \<notin> set s \<Longrightarrow> Split c (s @ c # t) = s # Split c t"
  by (induction s) auto

lemma Join_Split: "Join (Split c s) [c] = s"
proof (induction s)
  case Nil
  then show ?case by simp
next
  case (Cons x xs)
  then show ?case by (cases "Split c xs" rule: remdups_adj.cases) auto
qed

lemma Split_parts: "p \<in> set (Split c s) \<Longrightarrow> c \<notin> set p"
  by (induction s arbitrary: p) (auto split: list.splits if_splits)

lemma Split_Join:
  "ls \<noteq> [] \<Longrightarrow> \<forall>l\<in>set ls. c \<notin> set l \<Longrightarrow> Split c (Join ls [c]) = ls"
  by (induction ls "[c]" rule: Join.induct) (auto simp: Split_no_sep Split_append)

text \<open>\<open>strings.Contains\<close>.\<close>

fun Contains :: "string \<Rightarrow> string \<Rightarrow> bool" where
  "Contains [] p \<longleftrightarrow> p = []"
| "Contains (x # xs) p \<longleftrightarrow> HasPrefix (x # xs) p \<or> Contains xs p"

lemma Contains_iff: "Contains s p \<longleftrightarrow> (\<exists>a b. s = a @ p @ b)"
proof (induction s)
  case Nil
  then show ?case by auto
next
  case (Cons x xs)
  show ?case
  proof
    assume "Contains (x # xs) p"
    then consider b where "x # xs = [] @ p @ b" | a b where "x # xs = (x # a) @ p @ b"
      using Cons by (auto simp: HasPrefix_iff)
    then show "\<exists>a b. x # xs = a @ p @ b" by cases blast+
  next
    assume "\<exists>a b. x # xs = a @ p @ b"
    then obtain a b where "x # xs = a @ p @ b" by blast
    then show "Contains (x # xs) p"
    proof (cases a)
      case Nil
      with \<open>x # xs = a @ p @ b\<close> have "HasPrefix (x # xs) p" by (simp add: HasPrefix_def)
      then show ?thesis by simp
    next
      case (Cons y a')
      with \<open>x # xs = a @ p @ b\<close> have "xs = a' @ p @ b" by simp
      with Cons.IH show ?thesis by auto
    qed
  qed
qed

end
