(* ===== verification/Apply_Patch.thy ===== *)
theory Apply_Patch
  imports Go_Strings
begin

text \<open>
  The patch engine of the env tools: \<open>internal/envtools/tools/apply_patch_core.go\<close>
  (grammar, parser and hunk application) and the file operations of
  \<open>internal/envtools/tools/apply_patch.go\<close>.

  The parser of the source walks an index \<open>i\<close> over the slice \<open>lines[start:end]\<close>.  Here each
  routine takes the part of the slice that is left together with the index of its first
  line (the index is what the error messages print), and returns what it parsed with the
  number of lines it consumed, as the source does.
\<close>

section \<open>Grammar and data\<close>

definition beginPatchMarker :: string where "beginPatchMarker = ''*** Begin Patch''"
definition endPatchMarker :: string where "endPatchMarker = ''*** End Patch''"
definition addFileMarker :: string where "addFileMarker = ''*** Add File: ''"
definition deleteFileMarker :: string where "deleteFileMarker = ''*** Delete File: ''"
definition updateFileMarker :: string where "updateFileMarker = ''*** Update File: ''"
definition moveToMarker :: string where "moveToMarker = ''*** Move to: ''"
definition eofMarker :: string where "eofMarker = ''*** End of File''"
definition changeContextMarker :: string where "changeContextMarker = ''@@ ''"
definition emptyChangeContext :: string where "emptyChangeContext = ''@@''"

lemmas marker_defs = beginPatchMarker_def endPatchMarker_def addFileMarker_def
  deleteFileMarker_def updateFileMarker_def moveToMarker_def eofMarker_def
  changeContextMarker_def emptyChangeContext_def

datatype FileOpKind = OpAdd | OpUpdate | OpDelete | OpMove

datatype HunkLineKind = HunkContext | HunkAdd | HunkRemove

record HunkLine =
  hl_kind :: HunkLineKind
  hl_text :: string

record PatchHunk =
  ph_context :: string
  ph_lines :: "HunkLine list"

record FileOp =
  fo_kind :: FileOpKind
  fo_path :: string
  fo_newpath :: string
  fo_content :: string
  fo_hunks :: "PatchHunk list"

text \<open>The errors of \<open>parseErr\<close>, with the line number they print first.\<close>

datatype patch_err =
    EmptyPatch
  | MissingHeader nat
  | MissingFooter nat
  | DeleteNeedsPath nat
  | UnknownHeader nat string
  | AddNeedsPath nat
  | AddNoLines nat string
  | UpdateNeedsPath nat
  | MoveNeedsPath nat
  | UpdateEmpty nat string
  | ExpectedMarker nat string
  | HunkNoBody nat
  | UnexpectedLine nat string
  | AnchorNotFound nat string nat
  | ContextMismatch nat string nat

section \<open>Parser\<close>

definition nl :: char where "nl = CHR 0x0A"
definition cr :: string where "cr = [CHR 0x0D]"

definition splitLines :: "string \<Rightarrow> string list" where
  "splitLines s =
     (if s = [] then []
      else (let out = Split nl s in if last out = [] then butlast out else out))"

definition nonblank :: "string list \<Rightarrow> nat \<Rightarrow> bool" where
  "nonblank lines i \<longleftrightarrow> TrimSpace (lines ! i) \<noteq> []"

definition findPatchBoundaries :: "string list \<Rightarrow> patch_err + nat \<times> nat" where
  "findPatchBoundaries lines =
     (case filter (nonblank lines) [0..<length lines] of
        [] \<Rightarrow> Inl (MissingHeader 1)
      | start # _ \<Rightarrow>
          if TrimSpace (lines ! start) \<noteq> beginPatchMarker then Inl (MissingHeader 1)
          else (case rev (filter (nonblank lines) [Suc start..<length lines]) of
                  [] \<Rightarrow> Inl (MissingFooter (length lines))
                | e # _ \<Rightarrow>
                    if TrimSpace (lines ! e) \<noteq> endPatchMarker
                    then Inl (MissingFooter (length lines))
                    else Inr (start, e)))"

fun addBody :: "string list \<Rightarrow> string \<times> nat" where
  "addBody [] = ([], 0)"
| "addBody (l # ls) =
     (let line = TrimRight l cr in
      if \<not> HasPrefix line ''+'' then ([], 0)
      else (let (b, n) = addBody ls in (drop 1 line @ [nl] @ b, Suc n)))"

definition parseAddFile :: "nat \<Rightarrow> string \<Rightarrow> string list \<Rightarrow> patch_err + FileOp \<times> nat" where
  "parseAddFile start l ls =
     (let path = TrimSpace (TrimPrefix (TrimRight l cr) addFileMarker) in
      if path = [] then Inl (AddNeedsPath (start + 1))
      else (let (b, n) = addBody ls in
            if n = 0 then Inl (AddNoLines (start + 1) path)
            else Inr (\<lparr>fo_kind = OpAdd, fo_path = path, fo_newpath = [],
                       fo_content = b, fo_hunks = []\<rparr>, Suc n)))"

fun chunkBody :: "nat \<Rightarrow> string list \<Rightarrow> HunkLine list \<Rightarrow> patch_err + HunkLine list \<times> nat" where
  "chunkBody i [] hl = Inr (hl, 0)"
| "chunkBody i (l # ls) hl =
     (let raw = TrimRight l cr;
          more = (\<lambda>h. map_sum id (\<lambda>(r, n). (r, Suc n)) (chunkBody (Suc i) ls (hl @ [h]))) in
      if raw = eofMarker then Inr (hl, 1)
      else if HasPrefix raw ''***'' then Inr (hl, 0)
      else if raw = emptyChangeContext \<or> HasPrefix raw changeContextMarker then Inr (hl, 0)
      else if raw = [] then more \<lparr>hl_kind = HunkContext, hl_text = []\<rparr>
      else if hd raw = CHR '' '' then more \<lparr>hl_kind = HunkContext, hl_text = tl raw\<rparr>
      else if hd raw = CHR ''+'' then more \<lparr>hl_kind = HunkAdd, hl_text = tl raw\<rparr>
      else if hd raw = CHR ''-'' then more \<lparr>hl_kind = HunkRemove, hl_text = tl raw\<rparr>
      else if hl = [] then Inl (UnexpectedLine (i + 1) raw)
      else Inr (hl, 0))"

definition parseUpdateChunk ::
  "nat \<Rightarrow> string \<Rightarrow> string list \<Rightarrow> bool \<Rightarrow> patch_err + PatchHunk \<times> nat" where
  "parseUpdateChunk start l ls allowMissingContext =
     (let first = TrimRight l cr;
          body = (\<lambda>anchor skip rest.
            if rest = [] then Inl (HunkNoBody (start + skip))
            else (case chunkBody (start + skip) rest [] of
                    Inl e \<Rightarrow> Inl e
                  | Inr (hl, n) \<Rightarrow>
                      if hl = [] then Inl (HunkNoBody (start + 1))
                      else Inr (\<lparr>ph_context = anchor, ph_lines = hl\<rparr>, skip + n))) in
      if first = emptyChangeContext then body [] 1 ls
      else if HasPrefix first changeContextMarker
           then body (TrimSpace (TrimPrefix first changeContextMarker)) 1 ls
      else if \<not> allowMissingContext then Inl (ExpectedMarker (start + 1) first)
      else body [] 0 (l # ls))"

text \<open>A chunk always consumes at least one line: the reason the loops below stop.\<close>

lemma chunkBody_length: "chunkBody i ls hl = Inr (hl', n) \<Longrightarrow> length hl' \<le> length hl + n"
proof (induction ls arbitrary: i hl hl' n)
  case Nil
  then show ?case by simp
next
  case (Cons l ls)
  from Cons.prems consider "hl' = hl" |
    h n' where "chunkBody (Suc i) ls (hl @ [h]) = Inr (hl', n')" "n = Suc n'"
    by (auto simp: Let_def map_sum_def split: if_splits sum.splits)
  then show ?case
  proof cases
    case 2
    with Cons.IH show ?thesis by fastforce
  qed simp
qed

lemma chunkBody_pos: "chunkBody i ls [] = Inr (hl, n) \<Longrightarrow> hl \<noteq> [] \<Longrightarrow> 0 < n"
  by (drule chunkBody_length) (cases n, simp_all)

lemma parseUpdateChunk_consumed:
  "parseUpdateChunk start l ls a = Inr (h, n) \<Longrightarrow> 0 < n \<and> ph_lines h \<noteq> []"
  by (auto simp: parseUpdateChunk_def Let_def simp del: chunkBody.simps
      split: if_splits sum.splits dest: chunkBody_pos)

text \<open>The hunk loop of \<open>parseUpdateFile\<close>: the hunks and the number of lines consumed.\<close>

function updateHunks ::
  "nat \<Rightarrow> string list \<Rightarrow> bool \<Rightarrow> patch_err + PatchHunk list \<times> nat" where
  "updateHunks i [] first = Inr ([], 0)"
| "updateHunks i (l # ls) first =
     (if TrimSpace l = [] then map_sum id (\<lambda>(hs, n). (hs, Suc n)) (updateHunks (Suc i) ls first)
      else if HasPrefix (TrimRight l cr) ''***'' then Inr ([], 0)
      else (case parseUpdateChunk i l ls first of
              Inl e \<Rightarrow> Inl e
            | Inr (h, n) \<Rightarrow>
                map_sum id (\<lambda>(hs, m). (h # hs, n + m))
                  (updateHunks (i + n) (drop n (l # ls)) False)))"
  by pat_completeness auto
termination
  by (relation "measure (\<lambda>(i, ls, first). length ls)")
     (auto dest!: parseUpdateChunk_consumed)

definition parseUpdateFile :: "nat \<Rightarrow> string \<Rightarrow> string list \<Rightarrow> patch_err + FileOp \<times> nat" where
  "parseUpdateFile start l ls =
     (let path = TrimSpace (TrimPrefix (TrimRight l cr) updateFileMarker);
          finish = (\<lambda>movePath skip rest.
            case updateHunks (start + 1 + skip) rest True of
              Inl e \<Rightarrow> Inl e
            | Inr (hunks, n) \<Rightarrow>
                if hunks = [] then Inl (UpdateEmpty (start + 1) path)
                else Inr (\<lparr>fo_kind = (if movePath = [] then OpUpdate else OpMove),
                           fo_path = path, fo_newpath = movePath, fo_content = [],
                           fo_hunks = hunks\<rparr>, 1 + skip + n)) in
      if path = [] then Inl (UpdateNeedsPath (start + 1))
      else (case ls of
              [] \<Rightarrow> finish [] 0 []
            | m # ms \<Rightarrow>
                if HasPrefix (TrimRight m cr) moveToMarker
                then (let movePath = TrimSpace (TrimPrefix (TrimRight m cr) moveToMarker) in
                      if movePath = [] then Inl (MoveNeedsPath (start + 2))
                      else finish movePath 1 ms)
                else finish [] 0 (m # ms)))"

lemma parseAddFile_consumed: "parseAddFile start l ls = Inr (op, n) \<Longrightarrow> 0 < n"
  by (auto simp: parseAddFile_def Let_def split: if_splits prod.splits)

lemma parseUpdateFile_consumed: "parseUpdateFile start l ls = Inr (op, n) \<Longrightarrow> 0 < n"
  by (auto simp: parseUpdateFile_def Let_def split: if_splits sum.splits list.splits)

text \<open>
  The dispatch of \<open>ParsePatch\<close> on one header line, and its loop over the lines between the
  two markers.
\<close>

definition parseOp :: "nat \<Rightarrow> string \<Rightarrow> string list \<Rightarrow> patch_err + FileOp \<times> nat" where
  "parseOp i l ls =
     (let line = TrimRight l cr; lineNum = i + 1 in
      if HasPrefix line addFileMarker then parseAddFile i l ls
      else if HasPrefix line deleteFileMarker
           then (let path = TrimSpace (TrimPrefix line deleteFileMarker) in
                 if path = [] then Inl (DeleteNeedsPath lineNum)
                 else Inr (\<lparr>fo_kind = OpDelete, fo_path = path, fo_newpath = [],
                            fo_content = [], fo_hunks = []\<rparr>, 1))
      else if HasPrefix line updateFileMarker then parseUpdateFile i l ls
      else Inl (UnknownHeader lineNum line))"

lemma parseOp_consumed: "parseOp i l ls = Inr (op, n) \<Longrightarrow> 0 < n"
  by (auto simp: parseOp_def Let_def split: if_splits
      dest: parseAddFile_consumed parseUpdateFile_consumed)

function parseOps :: "nat \<Rightarrow> string list \<Rightarrow> patch_err + FileOp list" where
  "parseOps i [] = Inr []"
| "parseOps i (l # ls) =
     (if TrimSpace l = [] then parseOps (Suc i) ls
      else (case parseOp i l ls of
              Inl e \<Rightarrow> Inl e
            | Inr (op, n) \<Rightarrow> map_sum id ((#) op) (parseOps (i + n) (drop n (l # ls)))))"
  by pat_completeness auto
termination
  by (relation "measure (\<lambda>(i, ls). length ls)") (auto dest!: parseOp_consumed)

definition ParsePatch :: "string \<Rightarrow> patch_err + FileOp list" where
  "ParsePatch input =
     (if input = [] then Inl EmptyPatch
      else (let rawLines = splitLines input in
            case findPatchBoundaries rawLines of
              Inl e \<Rightarrow> Inl e
            | Inr (startIdx, endIdx) \<Rightarrow>
                parseOps (startIdx + 1) (drop (startIdx + 1) (take endIdx rawLines))))"

section \<open>Applying hunks\<close>

definition oldSeq :: "PatchHunk \<Rightarrow> string list" where
  "oldSeq h = [hl_text x. x \<leftarrow> ph_lines h, hl_kind x \<noteq> HunkAdd]"

definition newSeq :: "PatchHunk \<Rightarrow> string list" where
  "newSeq h = [hl_text x. x \<leftarrow> ph_lines h, hl_kind x \<noteq> HunkRemove]"

definition anchorAt :: "string \<Rightarrow> string \<Rightarrow> bool" where
  "anchorAt ctx line \<longleftrightarrow> TrimSpace line = ctx \<or> Contains line ctx"

definition findAnchor :: "string list \<Rightarrow> nat \<Rightarrow> string \<Rightarrow> nat option" where
  "findAnchor src pos ctx = find (\<lambda>j. anchorAt ctx (src ! j)) [pos..<length src]"

definition matchAt :: "string list \<Rightarrow> string list \<Rightarrow> nat \<Rightarrow> bool" where
  "matchAt src old j \<longleftrightarrow> take (length old) (drop j src) = old"

definition findMatch :: "string list \<Rightarrow> nat \<Rightarrow> string list \<Rightarrow> nat option" where
  "findMatch src pos old =
     find (matchAt src old) [pos..<Suc (length src) - length old]"

definition slice :: "'a list \<Rightarrow> nat \<Rightarrow> nat \<Rightarrow> 'a list" where
  "slice xs a b = drop a (take b xs)"

text \<open>
  The body of the loop of \<open>ApplyHunks\<close>: from the cursor \<open>pos\<close> and the output so far to the
  next cursor and output; \<open>hi\<close> is the hunk's index, which the errors print.
\<close>

definition applyBody ::
  "string list \<Rightarrow> nat \<Rightarrow> PatchHunk \<Rightarrow> nat \<times> string list \<Rightarrow> patch_err + nat \<times> string list" where
  "applyBody src hi h st =
     (let (pos, out) = st in
      if oldSeq h = [] then Inr (length src, out @ drop pos src @ newSeq h)
      else (case findMatch src pos (oldSeq h) of
              None \<Rightarrow> Inl (ContextMismatch (hi + 1) (hd (oldSeq h)) (pos + 1))
            | Some m \<Rightarrow> Inr (m + length (oldSeq h), out @ slice src pos m @ newSeq h)))"

definition applyHunk ::
  "string list \<Rightarrow> nat \<Rightarrow> PatchHunk \<Rightarrow> nat \<times> string list \<Rightarrow> patch_err + nat \<times> string list" where
  "applyHunk src hi h st =
     (let (pos, out) = st in
      if ph_context h \<noteq> []
      then (case findAnchor src pos (ph_context h) of
              None \<Rightarrow> Inl (AnchorNotFound (hi + 1) (ph_context h) (pos + 1))
            | Some a \<Rightarrow> applyBody src hi h (Suc a, out @ slice src pos (Suc a)))
      else applyBody src hi h (pos, out))"

fun applyLoop ::
  "string list \<Rightarrow> nat \<Rightarrow> PatchHunk list \<Rightarrow> nat \<times> string list \<Rightarrow> patch_err + nat \<times> string list"
where
  "applyLoop src hi [] st = Inr st"
| "applyLoop src hi (h # hs) st =
     bind_res (applyHunk src hi h st) (applyLoop src (Suc hi) hs)"

definition ApplyHunks :: "string \<Rightarrow> PatchHunk list \<Rightarrow> patch_err + string" where
  "ApplyHunks source hunks =
     (let srcLines = splitLines source;
          trailingNL = HasSuffix source [nl] \<or> source = [] in
      bind_res (applyLoop srcLines 0 hunks (0, []))
        (\<lambda>(pos, out).
           let res = Join (out @ drop pos srcLines) [nl] in
           Inr (if trailingNL \<and> res \<noteq> [] then res @ [nl] else res)))"

section \<open>What applying hunks means\<close>

text \<open>
  The contract of \<open>ApplyHunks\<close>, stated without cursors: the hunks edit the source from left
  to right; each one keeps a block of lines, replaces its context and removed lines (which
  stand there in the source, literally) by its context and added lines, and leaves the
  rest to the next.  The block it keeps reaches through the first line at or after the
  cursor that fits its anchor, and from there to the first place where its old lines
  occur.
\<close>

definition occurs_first :: "string list \<Rightarrow> string list \<Rightarrow> string list \<Rightarrow> bool" where
  "occurs_first src keep old \<longleftrightarrow>
     take (length old) (drop (length keep) src) = old \<and>
     (\<forall>j<length keep. take (length old) (drop j src) \<noteq> old)"

definition skips_anchor :: "string \<Rightarrow> string list \<Rightarrow> bool" where
  "skips_anchor ctx pre \<longleftrightarrow>
     (if ctx = [] then pre = []
      else (\<exists>us a. pre = us @ [a] \<and> anchorAt ctx a \<and> (\<forall>u\<in>set us. \<not> anchorAt ctx u)))"

inductive edits :: "PatchHunk list \<Rightarrow> string list \<Rightarrow> string list \<Rightarrow> bool" where
  stop: "edits [] src src"
| replace: "skips_anchor (ph_context h) pre \<Longrightarrow> oldSeq h \<noteq> [] \<Longrightarrow>
     src = pre @ keep @ oldSeq h @ rest \<Longrightarrow>
     occurs_first (keep @ oldSeq h @ rest) keep (oldSeq h) \<Longrightarrow>
     edits hs rest res \<Longrightarrow>
     edits (h # hs) src (pre @ keep @ newSeq h @ res)"
| append: "skips_anchor (ph_context h) pre \<Longrightarrow> oldSeq h = [] \<Longrightarrow>
     src = pre @ rest \<Longrightarrow> edits hs [] res \<Longrightarrow>
     edits (h # hs) src (pre @ rest @ newSeq h @ res)"

inductive_cases edits_NilE: "edits [] src res"
inductive_cases edits_ConsE: "edits (h # hs) src res"

lemma slice_Suc: "a \<le> b \<Longrightarrow> b < length xs \<Longrightarrow> slice xs a (Suc b) = slice xs a b @ [xs ! b]"
  by (simp add: slice_def take_Suc_conv_app_nth)

lemma slice_nth: "x \<in> set (slice xs a b) \<Longrightarrow> \<exists>j. a \<le> j \<and> j < b \<and> x = xs ! j"
proof -
  assume "x \<in> set (slice xs a b)"
  then obtain k where k: "k < min (length xs) b - a" "x = drop a (take b xs) ! k"
    by (auto simp: slice_def in_set_conv_nth)
  moreover from k(1) have "a \<le> length (take b xs)" by (simp add: less_diff_conv)
  ultimately have "x = xs ! (a + k)" by simp
  with k(1) show ?thesis by (intro exI [of _ "a + k"]) simp
qed

lemma slice_split: "a \<le> b \<Longrightarrow> drop a xs = slice xs a b @ drop b xs"
proof -
  assume "a \<le> b"
  then have "drop (b - a) (drop a xs) = drop b xs" by simp
  then show ?thesis
    using append_take_drop_id [of "b - a" "drop a xs"] by (simp add: slice_def drop_take)
qed

lemma slice_prefix: "drop a xs = ys @ zs \<Longrightarrow> slice xs a (a + length ys) = ys"
  by (simp add: slice_def drop_take)

lemma drop_append_length: "drop a xs = ys @ zs \<Longrightarrow> drop (a + length ys) xs = zs"
  by (metis add.commute append_eq_conv_conj drop_drop)

lemma findAnchor_skips:
  assumes "findAnchor src pos ctx = Some a" and "ctx \<noteq> []"
  shows "pos \<le> a \<and> a < length src \<and> skips_anchor ctx (slice src pos (a + 1))"
proof -
  from assms(1) have a: "pos \<le> a" "a < length src" "anchorAt ctx (src ! a)"
    "\<forall>j. pos \<le> j \<and> j < a \<longrightarrow> \<not> anchorAt ctx (src ! j)"
    by (simp_all add: findAnchor_def find_upt_Some)
  have "\<forall>u\<in>set (slice src pos a). \<not> anchorAt ctx u"
    using a(4) by (auto dest!: slice_nth)
  with a assms(2) show ?thesis
    by (auto simp: skips_anchor_def slice_Suc)
qed

lemma skips_findAnchor:
  assumes "skips_anchor ctx pre" and "ctx \<noteq> []" and "pos \<le> length src"
    and dr: "drop pos src = pre @ rest"
  shows "findAnchor src pos ctx = Some (pos + length pre - 1) \<and> 0 < length pre"
proof -
  from assms(1,2) obtain us x where pre: "pre = us @ [x]" and x: "anchorAt ctx x"
    and us: "\<forall>u\<in>set us. \<not> anchorAt ctx u"
    by (auto simp: skips_anchor_def)
  have nth: "src ! (pos + j) = (pre @ rest) ! j" for j
    using assms(3) by (simp flip: dr)
  have len: "length src = pos + length (pre @ rest)"
    using assms(3) by (simp flip: dr)
  have "findAnchor src pos ctx = Some (pos + length us)"
    unfolding findAnchor_def find_upt_Some
  proof (intro conjI allI impI)
    show "pos \<le> pos + length us" by simp
    show "pos + length us < length src" by (simp add: len pre)
    show "anchorAt ctx (src ! (pos + length us))" by (simp add: nth pre x)
    fix j assume "pos \<le> j \<and> j < pos + length us"
    then obtain k where k: "j = pos + k" "k < length us"
      by (metis add_less_cancel_left le_Suc_ex)
    then show "\<not> anchorAt ctx (src ! j)" using us by (simp add: nth pre nth_append)
  qed
  then show ?thesis by (simp add: pre)
qed

lemma matchAt_drop: "matchAt src old (pos + j) \<longleftrightarrow> take (length old) (drop j (drop pos src)) = old"
  by (simp add: matchAt_def add.commute)

lemma findMatch_occurs:
  assumes "findMatch src pos old = Some m" and "old \<noteq> []"
  shows "pos \<le> m \<and> drop pos src = slice src pos m @ old @ drop (m + length old) src \<and>
    m + length old \<le> length src \<and> occurs_first (drop pos src) (slice src pos m) old"
proof -
  from assms(1) have m: "pos \<le> m" "m < Suc (length src) - length old" "matchAt src old m"
    "\<forall>j. pos \<le> j \<and> j < m \<longrightarrow> \<not> matchAt src old j"
    by (simp_all add: findMatch_def find_upt_Some)
  have bnd: "m + length old \<le> length src" using m(2) by simp
  have "drop m src = old @ drop (m + length old) src"
    using m(3) append_take_drop_id [of "length old" "drop m src"]
    by (simp add: matchAt_def add.commute)
  then have dr: "drop pos src = slice src pos m @ old @ drop (m + length old) src"
    using slice_split [OF m(1), of src] by simp
  have len: "length (slice src pos m) = m - pos"
    using bnd by (simp add: slice_def)
  have "\<forall>j<m - pos. take (length old) (drop j (drop pos src)) \<noteq> old"
  proof (intro allI impI)
    fix j assume "j < m - pos"
    then have "\<not> matchAt src old (pos + j)" using m(4) by simp
    then show "take (length old) (drop j (drop pos src)) \<noteq> old" by (simp add: matchAt_drop)
  qed
  moreover have "take (length old) (drop (m - pos) (drop pos src)) = old"
    using m(1,3) by (simp add: matchAt_def)
  ultimately show ?thesis using m(1) bnd dr len by (simp add: occurs_first_def)
qed

lemma occurs_findMatch:
  assumes dr: "drop pos src = keep @ old @ rest" and "old \<noteq> []" and le: "pos \<le> length src"
    and occ: "occurs_first (keep @ old @ rest) keep old"
  shows "findMatch src pos old = Some (pos + length keep)"
  unfolding findMatch_def find_upt_Some
proof (intro conjI allI impI)
  have len: "length src = pos + length (keep @ old @ rest)"
    using le by (simp flip: dr)
  show "pos \<le> pos + length keep" by simp
  show "pos + length keep < Suc (length src) - length old" by (simp add: len)
  show "matchAt src old (pos + length keep)"
    by (simp only: matchAt_drop dr) simp
  fix j assume "pos \<le> j \<and> j < pos + length keep"
  then obtain k where k: "j = pos + k" "k < length keep"
    by (metis add_less_cancel_left le_Suc_ex)
  then show "\<not> matchAt src old j"
    using occ by (simp only: matchAt_drop dr) (simp add: occurs_first_def)
qed

text \<open>One hunk: what the loop body emits is the block of the contract, and conversely.\<close>

lemma applyHunk_sound:
  assumes "applyHunk src hi h (pos, out) = Inr (pos', out')" and "pos \<le> length src"
  shows "pos' \<le> length src \<and> (\<exists>blk. out' = out @ blk \<and>
    (\<forall>hs res. edits hs (drop pos' src) res \<longrightarrow> edits (h # hs) (drop pos src) (blk @ res)))"
proof -
  obtain p0 pre where p0: "p0 \<le> length src" "skips_anchor (ph_context h) pre"
    "drop pos src = pre @ drop p0 src"
    and body: "applyBody src hi h (p0, out @ pre) = Inr (pos', out')"
  proof (cases "ph_context h = []")
    case True
    with assms show thesis
      by (intro that [of pos "[]"]) (simp_all add: applyHunk_def skips_anchor_def)
  next
    case False
    with assms(1) obtain a where a: "findAnchor src pos (ph_context h) = Some a"
      by (auto simp: applyHunk_def Let_def split: option.splits)
    from findAnchor_skips [OF a False] have *: "pos \<le> a" "a < length src"
      "skips_anchor (ph_context h) (slice src pos (Suc a))" by simp_all
    show thesis
      by (rule that [of "Suc a" "slice src pos (Suc a)"])
        (use * False a assms(1) slice_split [of pos "Suc a" src] in
          \<open>simp_all add: applyHunk_def Let_def\<close>)
  qed
  show ?thesis
  proof (cases "oldSeq h = []")
    case True
    with body have "pos' = length src" "out' = out @ pre @ drop p0 src @ newSeq h"
      by (auto simp: applyBody_def)
    with True p0 show ?thesis by (auto intro: edits.append)
  next
    case False
    with body obtain m where m: "findMatch src p0 (oldSeq h) = Some m"
      "pos' = m + length (oldSeq h)" "out' = out @ pre @ slice src p0 m @ newSeq h"
      by (auto simp: applyBody_def split: option.splits)
    from findMatch_occurs [OF m(1) False] p0 m False show ?thesis
      by (auto intro: edits.replace)
  qed
qed

lemma applyHunk_complete:
  assumes "edits (h # hs) (drop pos src) r" and "pos \<le> length src"
  shows "\<exists>pos' blk res. applyHunk src hi h (pos, out) = Inr (pos', out @ blk) \<and>
    r = blk @ res \<and> edits hs (drop pos' src) res \<and> pos' \<le> length src"
proof -
  have anchor: "applyHunk src hi h (pos, out) = applyBody src hi h (pos + length pre, out @ pre)"
    if "skips_anchor (ph_context h) pre" "drop pos src = pre @ rest" for pre rest
  proof (cases "ph_context h = []")
    case True
    with that show ?thesis by (simp add: applyHunk_def skips_anchor_def)
  next
    case False
    have sp: "Suc (pos + length pre - 1) = pos + length pre"
      "slice src pos (pos + length pre) = pre" "drop (pos + length pre) src = rest"
      using skips_findAnchor [OF that(1) False assms(2) that(2)] slice_prefix [OF that(2)]
        drop_append_length [OF that(2)] by simp_all
    show ?thesis
      using skips_findAnchor [OF that(1) False assms(2) that(2)] False
      by (simp add: applyHunk_def Let_def sp)
  qed
  from assms(1) show ?thesis
  proof (cases rule: edits.cases)
    case (replace pre keep rest res)
    note 1 = this
    then have dr: "drop (pos + length pre) src = keep @ oldSeq h @ rest"
      by (simp add: drop_append_length)
    have le: "pos + length pre \<le> length src"
      using 1(4) assms(2) by (metis add_le_cancel_left le_add1 le_add_diff_inverse
          length_append length_drop)
    have "findMatch src (pos + length pre) (oldSeq h) = Some (pos + length pre + length keep)"
      by (rule occurs_findMatch [OF dr]) (use 1 le in simp_all)
    moreover have "slice src (pos + length pre) (pos + length pre + length keep) = keep"
      by (rule slice_prefix [OF dr])
    moreover have "drop (pos + length pre + length keep + length (oldSeq h)) src = rest"
      using drop_append_length [of "pos + length pre" src "keep @ oldSeq h" rest] dr
      by (simp add: add.assoc)
    moreover have "length src = pos + length pre + length keep + length (oldSeq h) + length rest"
      using arg_cong [OF dr, of length] le by simp
    ultimately show ?thesis using anchor [OF 1(2) 1(4)] 1 by (auto simp: applyBody_def)
  next
    case (append pre rest res)
    note 2 = this
    with anchor [OF 2(2) 2(4)] drop_append_length [OF 2(4)] show ?thesis
      by (auto simp: applyBody_def)
  qed
qed

lemma applyLoop_sound:
  "applyLoop src hi hs (pos, out) = Inr (pos', out') \<Longrightarrow> pos \<le> length src \<Longrightarrow>
   \<exists>res. edits hs (drop pos src) res \<and> out' @ drop pos' src = out @ res"
proof (induction hs arbitrary: hi pos out)
  case Nil
  then show ?case by (auto intro: edits.stop)
next
  case (Cons h hs)
  then obtain p1 o1 where h: "applyHunk src hi h (pos, out) = Inr (p1, o1)"
    and rest: "applyLoop src (Suc hi) hs (p1, o1) = Inr (pos', out')"
    by (auto simp: bind_res_Inr_iff)
  from applyHunk_sound [OF h Cons.prems(2)] obtain blk where "p1 \<le> length src"
    "o1 = out @ blk"
    "\<And>hs res. edits hs (drop p1 src) res \<Longrightarrow> edits (h # hs) (drop pos src) (blk @ res)"
    by blast
  with Cons.IH [OF rest] show ?case by fastforce
qed

lemma applyLoop_complete:
  "edits hs (drop pos src) r \<Longrightarrow> pos \<le> length src \<Longrightarrow>
   \<exists>pos' out'. applyLoop src hi hs (pos, out) = Inr (pos', out') \<and> out' @ drop pos' src = out @ r"
proof (induction hs arbitrary: hi pos out r)
  case Nil
  then show ?case by (auto elim: edits_NilE)
next
  case (Cons h hs)
  from applyHunk_complete [OF Cons.prems] obtain p1 blk res where
    "applyHunk src hi h (pos, out) = Inr (p1, out @ blk)" "r = blk @ res"
    "edits hs (drop p1 src) res" "p1 \<le> length src" by blast
  with Cons.IH [of p1 res "Suc hi" "out @ blk"] show ?case by auto
qed

definition joinBody :: "string \<Rightarrow> string list \<Rightarrow> string" where
  "joinBody source ls =
     (let res = Join ls [nl] in
      if (HasSuffix source [nl] \<or> source = []) \<and> res \<noteq> [] then res @ [nl] else res)"

lemma ApplyHunks_edits:
  "ApplyHunks source hunks = Inr r \<longleftrightarrow>
     (\<exists>ls. edits hunks (splitLines source) ls \<and> r = joinBody source ls)"
proof
  assume "ApplyHunks source hunks = Inr r"
  then obtain pos out where loop: "applyLoop (splitLines source) 0 hunks (0, []) = Inr (pos, out)"
    and r: "r = joinBody source (out @ drop pos (splitLines source))"
    by (auto simp: ApplyHunks_def joinBody_def Let_def bind_res_Inr_iff)
  from applyLoop_sound [OF loop] r
  show "\<exists>ls. edits hunks (splitLines source) ls \<and> r = joinBody source ls" by auto
next
  assume "\<exists>ls. edits hunks (splitLines source) ls \<and> r = joinBody source ls"
  then obtain ls where "edits hunks (drop 0 (splitLines source)) ls"
    and r: "r = joinBody source ls" by auto
  from applyLoop_complete [OF this(1), of 0 "[]"] obtain pos' out' where
    "applyLoop (splitLines source) 0 hunks (0, []) = Inr (pos', out')"
    "out' @ drop pos' (splitLines source) = ls" by auto
  with r show "ApplyHunks source hunks = Inr r"
    by (auto simp: ApplyHunks_def joinBody_def Let_def)
qed

text \<open>C1: \<open>ApplyHunks\<close> succeeds exactly when the hunks edit the source's lines in the sense of
  the contract (first fitting anchor, first occurrence of the old lines, everything else
  kept in order), and then returns the edited lines with the trailing newline of the
  source.\<close>

theorem ApplyHunks_correct:
  "ApplyHunks source hunks = Inr r \<longleftrightarrow>
     (\<exists>ls. edits hunks (splitLines source) ls \<and> r = joinBody source ls)"
  by (rule ApplyHunks_edits)

section \<open>The printed form of a patch\<close>

text \<open>
  The grammar as a printer: what a well-behaved author of a patch writes for a list of
  operations.  \<open>canonical\<close> says which operations can be written this way: paths and anchors
  survive trimming, no text contains a line break or ends in a carriage return.
\<close>

definition plain :: "string \<Rightarrow> bool" where
  "plain s \<longleftrightarrow> nl \<notin> set s \<and> (s = [] \<or> last s \<noteq> CHR 0x0D)"

definition clean :: "string \<Rightarrow> bool" where
  "clean s \<longleftrightarrow> s \<noteq> [] \<and> plain s \<and> TrimSpace s = s"

definition renderLine :: "HunkLine \<Rightarrow> string" where
  "renderLine x = (case hl_kind x of HunkContext \<Rightarrow> CHR '' '' | HunkAdd \<Rightarrow> CHR ''+''
     | HunkRemove \<Rightarrow> CHR ''-'') # hl_text x"

definition renderHunk :: "PatchHunk \<Rightarrow> string list" where
  "renderHunk h =
     (if ph_context h = [] then emptyChangeContext else changeContextMarker @ ph_context h)
     # map renderLine (ph_lines h)"

definition renderOp :: "FileOp \<Rightarrow> string list" where
  "renderOp op =
     (case fo_kind op of
        OpAdd \<Rightarrow> (addFileMarker @ fo_path op) # map ((#) CHR ''+'') (splitLines (fo_content op))
      | OpDelete \<Rightarrow> [deleteFileMarker @ fo_path op]
      | OpUpdate \<Rightarrow> (updateFileMarker @ fo_path op) # concat (map renderHunk (fo_hunks op))
      | OpMove \<Rightarrow> (updateFileMarker @ fo_path op) # (moveToMarker @ fo_newpath op)
                 # concat (map renderHunk (fo_hunks op)))"

definition renderPatch :: "FileOp list \<Rightarrow> string" where
  "renderPatch ops =
     Join ([beginPatchMarker] @ concat (map renderOp ops) @ [endPatchMarker]) [nl] @ [nl]"

definition canonicalHunk :: "PatchHunk \<Rightarrow> bool" where
  "canonicalHunk h \<longleftrightarrow> ph_lines h \<noteq> [] \<and> (\<forall>x\<in>set (ph_lines h). plain (hl_text x)) \<and>
     (ph_context h = [] \<or> clean (ph_context h))"

definition canonical :: "FileOp \<Rightarrow> bool" where
  "canonical op \<longleftrightarrow> clean (fo_path op) \<and>
     (case fo_kind op of
        OpAdd \<Rightarrow> fo_newpath op = [] \<and> fo_hunks op = [] \<and> HasSuffix (fo_content op) [nl] \<and>
          (\<forall>l\<in>set (splitLines (fo_content op)). plain l)
      | OpDelete \<Rightarrow> fo_newpath op = [] \<and> fo_hunks op = [] \<and> fo_content op = []
      | OpUpdate \<Rightarrow> fo_newpath op = [] \<and> fo_content op = [] \<and> fo_hunks op \<noteq> [] \<and>
          (\<forall>h\<in>set (fo_hunks op). canonicalHunk h)
      | OpMove \<Rightarrow> clean (fo_newpath op) \<and> fo_content op = [] \<and> fo_hunks op \<noteq> [] \<and>
          (\<forall>h\<in>set (fo_hunks op). canonicalHunk h))"

lemma TrimRight_plain_append: "plain s \<Longrightarrow> s \<noteq> [] \<Longrightarrow> TrimRight (p @ s) cr = p @ s"
  by (rule TrimRight_last) (simp add: plain_def cr_def)

lemma TrimRight_plain_Cons: "plain s \<Longrightarrow> c \<noteq> CHR 0x0D \<Longrightarrow> TrimRight (c # s) cr = c # s"
  by (rule TrimRight_last) (auto simp: plain_def cr_def)

lemma TrimRight_emptyContext [simp]: "TrimRight emptyChangeContext cr = emptyChangeContext"
  by (simp add: emptyChangeContext_def TrimRight_def cr_def)

lemma renderLine_kinds:
  "hl_kind x = HunkContext \<Longrightarrow> renderLine x = CHR '' '' # hl_text x"
  "hl_kind x = HunkAdd \<Longrightarrow> renderLine x = CHR ''+'' # hl_text x"
  "hl_kind x = HunkRemove \<Longrightarrow> renderLine x = CHR ''-'' # hl_text x"
  by (simp_all add: renderLine_def)

lemma clean_facts:
  "clean s \<Longrightarrow> s \<noteq> []" "clean s \<Longrightarrow> plain s" "clean s \<Longrightarrow> TrimSpace s = s"
  by (simp_all add: clean_def)

text \<open>Lines at which a hunk body stops without consuming them.\<close>

definition stops :: "string list \<Rightarrow> bool" where
  "stops ls \<longleftrightarrow> ls = [] \<or>
     (let raw = TrimRight (hd ls) cr in raw \<noteq> eofMarker \<and>
        (HasPrefix raw ''***'' \<or> raw = emptyChangeContext \<or> HasPrefix raw changeContextMarker))"

definition stars :: "string list \<Rightarrow> bool" where
  "stars ls \<longleftrightarrow> ls = [] \<or>
     (let raw = TrimRight (hd ls) cr in raw \<noteq> eofMarker \<and> HasPrefix raw ''***'' \<and>
        \<not> HasPrefix raw moveToMarker \<and> TrimSpace (hd ls) \<noteq> [])"

lemma stars_stops: "stars ls \<Longrightarrow> stops ls"
  by (auto simp: stars_def stops_def Let_def)

lemma chunkBody_stop: "stops ls \<Longrightarrow> chunkBody i ls hl = Inr (hl, 0)"
  by (cases ls) (auto simp: stops_def Let_def)

lemma chunkBody_render:
  "\<forall>x\<in>set xs. plain (hl_text x) \<Longrightarrow> stops rest \<Longrightarrow>
   chunkBody i (map renderLine xs @ rest) hl = Inr (hl @ xs, length xs)"
proof (induction xs arbitrary: i hl)
  case Nil
  then show ?case by (simp add: chunkBody_stop)
next
  case (Cons x xs)
  have t: "TrimRight (renderLine x) cr = renderLine x"
    using Cons.prems(1) by (auto simp: renderLine_def TrimRight_plain_Cons split: HunkLineKind.split)
  have rec: "chunkBody (Suc i) (map renderLine xs @ rest) (hl @ [x]) =
      Inr ((hl @ [x]) @ xs, length xs)"
    using Cons.prems by (intro Cons.IH) simp_all
  have eta: "\<lparr>hl_kind = k, hl_text = hl_text x\<rparr> = x" if "hl_kind x = k" for k
    using that by (cases x) simp
  show ?case
  proof (cases "hl_kind x")
    case HunkContext
    with t have "TrimRight (CHR '' '' # hl_text x) cr = CHR '' '' # hl_text x"
      by (simp add: renderLine_kinds)
    with rec HunkContext show ?thesis
      by (simp add: renderLine_kinds marker_defs eta [OF HunkContext])
  next
    case HunkAdd
    with t have "TrimRight (CHR ''+'' # hl_text x) cr = CHR ''+'' # hl_text x"
      by (simp add: renderLine_kinds)
    with rec HunkAdd show ?thesis
      by (simp add: renderLine_kinds marker_defs eta [OF HunkAdd])
  next
    case HunkRemove
    with t have "TrimRight (CHR ''-'' # hl_text x) cr = CHR ''-'' # hl_text x"
      by (simp add: renderLine_kinds)
    with rec HunkRemove show ?thesis
      by (simp add: renderLine_kinds marker_defs eta [OF HunkRemove])
  qed
qed

lemma parseUpdateChunk_render:
  assumes "canonicalHunk h" and "stops rest" and "renderHunk h @ rest = l # ls"
  shows "parseUpdateChunk i l ls a = Inr (h, length (renderHunk h))"
proof -
  from assms(3) have ls: "ls = map renderLine (ph_lines h) @ rest"
    and l: "l = (if ph_context h = [] then emptyChangeContext
                 else changeContextMarker @ ph_context h)"
    by (auto simp: renderHunk_def)
  have body: "chunkBody (Suc i) ls [] = Inr (ph_lines h, length (ph_lines h))"
    unfolding ls using assms(1,2) by (subst chunkBody_render) (auto simp: canonicalHunk_def)
  have ne: "ls \<noteq> []" using assms(1) by (simp add: ls canonicalHunk_def)
  show ?thesis
  proof (cases "ph_context h = []")
    case True
    then have "TrimRight l cr = emptyChangeContext" by (simp add: l)
    with True body ne assms(1) show ?thesis
      by (simp add: parseUpdateChunk_def canonicalHunk_def renderHunk_def)
  next
    case False
    with assms(1) have c: "clean (ph_context h)" by (simp add: canonicalHunk_def)
    then have t: "TrimRight l cr = changeContextMarker @ ph_context h"
      using False by (simp add: l TrimRight_plain_append clean_facts)
    have "changeContextMarker @ ph_context h \<noteq> emptyChangeContext"
      by (simp add: marker_defs)
    with c False body ne assms(1) show ?thesis
      by (simp add: parseUpdateChunk_def t canonicalHunk_def renderHunk_def clean_facts)
  qed
qed

lemma renderHunk_header:
  "\<exists>l ls. renderHunk h = l # ls \<and> TrimSpace l \<noteq> [] \<and>
     (canonicalHunk h \<longrightarrow> \<not> HasPrefix (TrimRight l cr) ''***'' \<and>
        (\<forall>rest. stops (renderHunk h @ rest)) \<and> \<not> HasPrefix (TrimRight l cr) moveToMarker)"
proof -
  have sp: "solid CHR ''@''" by (simp add: solid_def go_spaces_def)
  define l where "l = (if ph_context h = [] then emptyChangeContext
                       else changeContextMarker @ ph_context h)"
  have "\<exists>t. l = CHR ''@'' # t" by (simp add: l_def marker_defs)
  then have "TrimSpace l \<noteq> []" using TrimSpace_solid_ne [OF sp] by auto
  moreover have "TrimRight l cr = l" if "canonicalHunk h"
    using that by (auto simp: l_def canonicalHunk_def TrimRight_plain_append clean_facts)
  ultimately show ?thesis
    by (intro exI [of _ l]) (auto simp: renderHunk_def stops_def Let_def l_def marker_defs)
qed

lemma updateHunks_render:
  "\<forall>h\<in>set hs. canonicalHunk h \<Longrightarrow> stars rest \<Longrightarrow>
   updateHunks i (concat (map renderHunk hs) @ rest) first =
     Inr (hs, length (concat (map renderHunk hs)))"
proof (induction hs arbitrary: i first)
  case Nil
  then show ?case by (cases rest) (auto simp: stars_def Let_def)
next
  case (Cons h hs)
  let ?r = "concat (map renderHunk hs) @ rest"
  from renderHunk_header [of h] Cons.prems(1) obtain l ls where
    l: "renderHunk h = l # ls" "TrimSpace l \<noteq> []" "\<not> HasPrefix (TrimRight l cr) ''***''"
    by auto
  have st: "stops ?r"
  proof (cases hs)
    case Nil
    with Cons.prems(2) show ?thesis by (simp add: stars_stops)
  next
    case (Cons h' hs')
    with renderHunk_header [of h'] \<open>\<forall>h\<in>set (h # hs). canonicalHunk h\<close> show ?thesis by auto
  qed
  have "parseUpdateChunk i l (ls @ ?r) first = Inr (h, length (renderHunk h))"
    by (rule parseUpdateChunk_render) (use Cons.prems st l in auto)
  moreover have "updateHunks (i + length (renderHunk h)) ?r False =
      Inr (hs, length (concat (map renderHunk hs)))"
    using Cons.prems by (intro Cons.IH) auto
  ultimately show ?case using l by simp
qed

text \<open>One operation, then the list of them.\<close>

lemma addBody_render:
  "\<forall>l\<in>set ls. plain l \<Longrightarrow> stars rest \<Longrightarrow>
   addBody (map ((#) CHR ''+'') ls @ rest) = (concat (map (\<lambda>l. l @ [nl]) ls), length ls)"
proof (induction ls)
  case Nil
  then show ?case
    by (cases rest) (auto simp: stars_def Let_def HasPrefix_iff)
next
  case (Cons l ls)
  then show ?case by (simp add: TrimRight_plain_Cons Let_def)
qed

lemma splitLines_content:
  "HasSuffix s [nl] \<Longrightarrow> s = concat (map (\<lambda>l. l @ [nl]) (splitLines s)) \<and> splitLines s \<noteq> []"
proof -
  assume "HasSuffix s [nl]"
  then obtain t where s: "s = t @ [nl]" by (auto simp: HasSuffix_iff)
  have sp: "Split nl (t @ [nl]) = Split nl t @ [[]]"
    by (induction t) (auto split: list.splits)
  have "concat (map (\<lambda>l. l @ [c]) ls) = Join ls [c] @ [c]" if "ls \<noteq> []" for c :: char and ls
    using that by (induction ls "[c]" rule: Join.induct) auto
  then have "concat (map (\<lambda>l. l @ [nl]) (Split nl t)) = t @ [nl]"
    by (simp add: Join_Split)
  then show ?thesis by (simp add: s splitLines_def sp)
qed

lemma header_stars:
  assumes "clean p" and "m \<in> {addFileMarker, deleteFileMarker, updateFileMarker}"
  shows "stars ((m @ p) # ls)" and "TrimRight (m @ p) cr = m @ p" and "TrimSpace (m @ p) \<noteq> []"
proof -
  have sp: "solid CHR ''*''" by (simp add: solid_def go_spaces_def)
  show t: "TrimRight (m @ p) cr = m @ p"
    using assms(1) by (simp add: TrimRight_plain_append clean_facts)
  have "\<exists>r. m @ p = CHR ''*'' # r" using assms(2) by (auto simp: marker_defs)
  then show ts: "TrimSpace (m @ p) \<noteq> []" using TrimSpace_solid_ne [OF sp] by auto
  show "stars ((m @ p) # ls)"
    using assms(2) ts t by (auto simp: stars_def Let_def) (auto simp: marker_defs)
qed

lemma parseUpdateFile_plain:
  assumes "clean p" and "\<forall>h\<in>set hs. canonicalHunk h" and "hs \<noteq> []" and "stars rest"
  shows "parseUpdateFile i (updateFileMarker @ p) (concat (map renderHunk hs) @ rest) =
    Inr (\<lparr>fo_kind = OpUpdate, fo_path = p, fo_newpath = [], fo_content = [], fo_hunks = hs\<rparr>,
         Suc (length (concat (map renderHunk hs))))"
proof -
  obtain h hs' where hs: "hs = h # hs'" using assms(3) by (cases hs) auto
  from renderHunk_header [of h] assms(2) hs obtain l ls where
    l: "renderHunk h = l # ls" "\<not> HasPrefix (TrimRight l cr) moveToMarker" by auto
  have "updateHunks (Suc i) (concat (map renderHunk hs) @ rest) True =
      Inr (hs, length (concat (map renderHunk hs)))"
    using assms by (intro updateHunks_render)
  with assms(1,3) l hs show ?thesis
    by (simp add: parseUpdateFile_def header_stars clean_facts Let_def)
qed

lemma parseUpdateFile_move:
  assumes "clean p" and "clean q" and "\<forall>h\<in>set hs. canonicalHunk h" and "hs \<noteq> []"
    and "stars rest"
  shows "parseUpdateFile i (updateFileMarker @ p)
      ((moveToMarker @ q) # concat (map renderHunk hs) @ rest) =
    Inr (\<lparr>fo_kind = OpMove, fo_path = p, fo_newpath = q, fo_content = [], fo_hunks = hs\<rparr>,
         Suc (Suc (length (concat (map renderHunk hs)))))"
proof -
  have "updateHunks (Suc (Suc i)) (concat (map renderHunk hs) @ rest) True =
      Inr (hs, length (concat (map renderHunk hs)))"
    using assms by (intro updateHunks_render)
  moreover have "TrimRight (moveToMarker @ q) cr = moveToMarker @ q"
    using assms(2) by (simp add: TrimRight_plain_append clean_facts)
  ultimately show ?thesis using assms
    by (simp add: parseUpdateFile_def header_stars clean_facts Let_def)
qed

lemma marker_distinct:
  "\<not> HasPrefix (deleteFileMarker @ p) addFileMarker"
  "\<not> HasPrefix (updateFileMarker @ p) addFileMarker"
  "\<not> HasPrefix (updateFileMarker @ p) deleteFileMarker"
  by (simp_all add: marker_defs)

lemma parseOp_render:
  assumes "canonical op" and "stars rest"
  shows "\<exists>l ls. renderOp op = l # ls \<and> TrimSpace l \<noteq> [] \<and> stars (l # ls @ rest) \<and>
    parseOp i l (ls @ rest) = Inr (op, Suc (length ls))"
proof -
  from assms(1) have p: "clean (fo_path op)" by (simp add: canonical_def)
  note hd = header_stars [OF p] clean_facts [OF p]
  show ?thesis
  proof (cases "fo_kind op")
    case OpAdd
    with assms(1) have c: "HasSuffix (fo_content op) [nl]"
      "\<forall>l\<in>set (splitLines (fo_content op)). plain l" and e: "fo_newpath op = []" "fo_hunks op = []"
      by (simp_all add: canonical_def)
    from addBody_render [OF c(2) assms(2)] splitLines_content [OF c(1)]
    have "addBody (map ((#) CHR ''+'') (splitLines (fo_content op)) @ rest) =
      (fo_content op, length (splitLines (fo_content op)))" by simp
    with OpAdd e hd splitLines_content [OF c(1)] show ?thesis
      by (simp add: renderOp_def parseOp_def parseAddFile_def Let_def)
  next
    case OpDelete
    with assms(1) hd show ?thesis
      by (simp add: canonical_def renderOp_def parseOp_def Let_def marker_distinct)
  next
    case OpUpdate
    with assms hd parseUpdateFile_plain [OF p, of "fo_hunks op" rest i] show ?thesis
      by (simp add: canonical_def renderOp_def parseOp_def Let_def marker_distinct)
  next
    case OpMove
    with assms hd parseUpdateFile_move [OF p, of "fo_newpath op" "fo_hunks op" rest i]
    show ?thesis
      by (simp add: canonical_def renderOp_def parseOp_def Let_def marker_distinct)
  qed
qed

lemma parseOps_render:
  "\<forall>op\<in>set ops. canonical op \<Longrightarrow>
   stars (concat (map renderOp ops)) \<and> parseOps i (concat (map renderOp ops)) = Inr ops"
proof (induction ops arbitrary: i)
  case Nil
  then show ?case by (simp add: stars_def)
next
  case (Cons op ops)
  let ?r = "concat (map renderOp ops)"
  from Cons have r: "stars ?r" "\<And>i. parseOps i ?r = Inr ops" by auto
  from Cons.prems have c: "canonical op" by simp
  from parseOp_render [OF c r(1), of i] r show ?case by auto
qed

lemma boundaries_frame:
  "findPatchBoundaries (beginPatchMarker # body @ [endPatchMarker]) = Inr (0, Suc (length body))"
proof -
  let ?l = "beginPatchMarker # body @ [endPatchMarker]"
  have b: "TrimSpace beginPatchMarker = beginPatchMarker"
    and e: "TrimSpace endPatchMarker = endPatchMarker"
    by (simp_all add: marker_defs TrimSpace_def go_spaces_def strip_front.simps)
  have nb: "nonblank ?l 0" "nonblank ?l (Suc (length body))"
    by (simp_all add: nonblank_def b e) (simp_all add: marker_defs)
  have "[0..<length ?l] = 0 # [Suc 0..<length ?l]" by (rule upt_conv_Cons) simp
  with nb(1) have f1: "\<exists>zs. filter (nonblank ?l) [0..<length ?l] = 0 # zs" by simp
  have "[Suc 0..<length ?l] = [Suc 0..<Suc (length body)] @ [Suc (length body)]" by simp
  with nb(2) have f2: "\<exists>zs. rev (filter (nonblank ?l) [Suc 0..<length ?l]) = Suc (length body) # zs"
    by simp
  from f1 f2 b e show ?thesis by (auto simp: findPatchBoundaries_def)
qed

lemma nl_ne [simp]: "nl \<noteq> CHR '' ''" "nl \<noteq> CHR ''+''" "nl \<noteq> CHR ''-''"
  by (simp_all add: nl_def)

lemma marker_no_nl [simp]:
  "nl \<notin> set addFileMarker" "nl \<notin> set deleteFileMarker" "nl \<notin> set updateFileMarker"
  "nl \<notin> set moveToMarker" "nl \<notin> set changeContextMarker" "nl \<notin> set emptyChangeContext"
  "nl \<notin> set beginPatchMarker" "nl \<notin> set endPatchMarker"
  by (simp_all add: nl_def marker_defs)

lemma renderHunk_no_nl: "canonicalHunk h \<Longrightarrow> l \<in> set (renderHunk h) \<Longrightarrow> nl \<notin> set l"
  by (auto simp: canonicalHunk_def renderHunk_def renderLine_def clean_def plain_def
      split: if_splits HunkLineKind.splits)

lemma renderOp_no_nl: "canonical op \<Longrightarrow> l \<in> set (renderOp op) \<Longrightarrow> nl \<notin> set l"
  by (auto simp: canonical_def renderOp_def clean_def plain_def dest: renderHunk_no_nl
      split: FileOpKind.splits)

lemma splitLines_render:
  assumes "\<forall>op\<in>set ops. canonical op"
  shows "splitLines (renderPatch ops) =
    [beginPatchMarker] @ concat (map renderOp ops) @ [endPatchMarker]"
proof -
  let ?ls = "[beginPatchMarker] @ concat (map renderOp ops) @ [endPatchMarker]"
  have "\<forall>l\<in>set ?ls. nl \<notin> set l" using assms by (auto dest: renderOp_no_nl)
  then have sp: "Split nl (Join ?ls [nl]) = ?ls" by (intro Split_Join) auto
  have "Split nl (t @ [nl]) = Split nl t @ [[]]" for t
    by (induction t) (auto split: list.splits)
  then show ?thesis using sp by (simp add: renderPatch_def splitLines_def Let_def butlast_append)
qed

text \<open>C2: parsing what the printer writes for canonical operations gives them back.\<close>

theorem ParsePatch_render:
  assumes "\<forall>op\<in>set ops. canonical op"
  shows "ParsePatch (renderPatch ops) = Inr ops"
proof -
  have "renderPatch ops \<noteq> []" by (simp add: renderPatch_def)
  moreover have "drop 1 (take (Suc (length (concat (map renderOp ops))))
      ([beginPatchMarker] @ concat (map renderOp ops) @ [endPatchMarker])) =
      concat (map renderOp ops)" by simp
  ultimately show ?thesis
    using parseOps_render [OF assms] boundaries_frame
    by (simp add: ParsePatch_def splitLines_render [OF assms])
qed

text \<open>
  What every operation the parser returns satisfies: the fields that its kind uses are
  there, the others are empty.
\<close>

definition wellFormedOp :: "FileOp \<Rightarrow> bool" where
  "wellFormedOp op \<longleftrightarrow> fo_path op \<noteq> [] \<and>
     (case fo_kind op of
        OpAdd \<Rightarrow> HasSuffix (fo_content op) [nl] \<and> fo_newpath op = [] \<and> fo_hunks op = []
      | OpDelete \<Rightarrow> fo_content op = [] \<and> fo_newpath op = [] \<and> fo_hunks op = []
      | OpUpdate \<Rightarrow> fo_content op = [] \<and> fo_newpath op = [] \<and> fo_hunks op \<noteq> [] \<and>
          (\<forall>h\<in>set (fo_hunks op). ph_lines h \<noteq> [])
      | OpMove \<Rightarrow> fo_content op = [] \<and> fo_newpath op \<noteq> [] \<and> fo_hunks op \<noteq> [] \<and>
          (\<forall>h\<in>set (fo_hunks op). ph_lines h \<noteq> []))"

lemma addBody_suffix: "addBody ls = (b, n) \<Longrightarrow> n \<noteq> 0 \<Longrightarrow> HasSuffix b [nl]"
proof (induction ls arbitrary: b n)
  case Nil
  then show ?case by simp
next
  case (Cons l ls)
  then obtain b' n' where r: "addBody ls = (b', n')" by fastforce
  show ?case
  proof (cases "n' = 0")
    case True
    with r have "b' = []" by (cases ls) (auto simp: Let_def split: if_splits prod.splits)
    with Cons.prems r show ?thesis
      by (auto simp: Let_def HasSuffix_iff split: if_splits)
  next
    case False
    from Cons.IH [OF r False] Cons.prems r show ?thesis
      by (auto simp: Let_def HasSuffix_iff split: if_splits)
  qed
qed

lemma updateHunks_lines:
  "updateHunks i ls first = Inr (hs, n) \<Longrightarrow> \<forall>h\<in>set hs. ph_lines h \<noteq> []"
proof (induction i ls first arbitrary: hs n rule: updateHunks.induct)
  case (1 i first)
  then show ?case by simp
next
  case (2 i l ls first)
  then show ?case
    by (auto split: if_splits sum.splits dest!: parseUpdateChunk_consumed simp: map_sum_def)
qed

lemma parseOp_wf: "parseOp i l ls = Inr (op, n) \<Longrightarrow> wellFormedOp op"
  by (auto simp: parseOp_def parseAddFile_def parseUpdateFile_def Let_def wellFormedOp_def
      split: if_splits sum.splits prod.splits list.splits
      dest!: addBody_suffix updateHunks_lines simp del: updateHunks.simps)

lemma parseOps_wf: "parseOps i ls = Inr ops \<Longrightarrow> \<forall>op\<in>set ops. wellFormedOp op"
proof (induction i ls arbitrary: ops rule: parseOps.induct)
  case (1 i)
  then show ?case by simp
next
  case (2 i l ls)
  then show ?case
    by (auto split: if_splits sum.splits dest!: parseOp_wf simp: map_sum_def)
qed

text \<open>C29: Whatever the input, every operation the parser returns is well-formed: it names a
  path, an added file has content that ends in a line break, an update or a move has
  hunks and every hunk has lines, and the fields the kind does not use are empty.\<close>

theorem ParsePatch_wellFormed:
  "ParsePatch input = Inr ops \<Longrightarrow> op \<in> set ops \<Longrightarrow> wellFormedOp op"
  by (auto simp: ParsePatch_def Let_def split: if_splits sum.splits dest: parseOps_wf)

theorem ParsePatch_wellFormed_witness:
  "wellFormedOp \<lparr>fo_kind = OpDelete, fo_path = ''a'', fo_newpath = [], fo_content = [],
     fo_hunks = []\<rparr>"
proof -
  let ?op = "\<lparr>fo_kind = OpDelete, fo_path = ''a'', fo_newpath = [], fo_content = [], fo_hunks = []\<rparr>"
  have "ParsePatch (renderPatch [?op]) = Inr [?op]"
    by code_simp
  from ParsePatch_wellFormed [OF this] show ?thesis by simp
qed

theorem ParsePatch_render_witness:
  "ParsePatch (renderPatch
     [\<lparr>fo_kind = OpMove, fo_path = ''a'', fo_newpath = ''b'', fo_content = [],
       fo_hunks = [\<lparr>ph_context = ''f'', ph_lines = [\<lparr>hl_kind = HunkRemove, hl_text = ''x''\<rparr>]\<rparr>]\<rparr>])
   = Inr [\<lparr>fo_kind = OpMove, fo_path = ''a'', fo_newpath = ''b'', fo_content = [],
       fo_hunks = [\<lparr>ph_context = ''f'', ph_lines = [\<lparr>hl_kind = HunkRemove, hl_text = ''x''\<rparr>]\<rparr>]\<rparr>]"
  by (rule ParsePatch_render) code_simp

section \<open>The apply\_patch tool\<close>

text \<open>
  \<open>ApplyPatchTool\<close> drives the file system of a remote executor through four RPCs.  The
  executor is not part of the repository: its state is a type \<open>'fs\<close> and its RPCs are a
  record of functions, a parameter of the model.  An RPC error is \<open>Inl\<close>/\<open>Some\<close> of its
  message; a response that fails to decode counts as an RPC error, as in \<open>readFile\<close>.
\<close>

record 'fs exec_fs =
  fsRead :: "'fs \<Rightarrow> string \<Rightarrow> string + string"
  fsWrite :: "'fs \<Rightarrow> string \<Rightarrow> string \<Rightarrow> string option \<times> 'fs"
  fsRemove :: "'fs \<Rightarrow> string \<Rightarrow> string option \<times> 'fs"
  fsCopy :: "'fs \<Rightarrow> string \<Rightarrow> string \<Rightarrow> string option \<times> 'fs"

datatype apply_err = ReadFailed string | PatchFailed patch_err | CopyFailed string | RpcFailed string

definition applyOp :: "'fs exec_fs \<Rightarrow> 'fs \<Rightarrow> FileOp \<Rightarrow> apply_err option \<times> 'fs" where
  "applyOp R fs op =
     (case fo_kind op of
        OpAdd \<Rightarrow> map_prod (map_option RpcFailed) id (fsWrite R fs (fo_path op) (fo_content op))
      | OpUpdate \<Rightarrow>
          (case fsRead R fs (fo_path op) of
             Inl e \<Rightarrow> (Some (ReadFailed e), fs)
           | Inr raw \<Rightarrow>
               (case ApplyHunks raw (fo_hunks op) of
                  Inl e \<Rightarrow> (Some (PatchFailed e), fs)
                | Inr patched \<Rightarrow>
                    map_prod (map_option RpcFailed) id (fsWrite R fs (fo_path op) patched)))
      | OpDelete \<Rightarrow> map_prod (map_option RpcFailed) id (fsRemove R fs (fo_path op))
      | OpMove \<Rightarrow>
          (case fsCopy R fs (fo_path op) (fo_newpath op) of
             (Some e, fs') \<Rightarrow> (Some (CopyFailed e), fs')
           | (None, fs') \<Rightarrow> map_prod (map_option RpcFailed) id (fsRemove R fs' (fo_path op))))"

text \<open>The loop of \<open>Call\<close>: every operation is tried, in order, and its outcome reported.\<close>

fun applyOps :: "'fs exec_fs \<Rightarrow> 'fs \<Rightarrow> FileOp list \<Rightarrow> (string \<times> apply_err option) list \<times> 'fs" where
  "applyOps R fs [] = ([], fs)"
| "applyOps R fs (op # ops) =
     (let (e, fs1) = applyOp R fs op; (rep, fs2) = applyOps R fs1 ops in
      ((fo_path op, e) # rep, fs2))"

datatype patch_tool_result =
    ToolRefused
  | ToolParse patch_err
  | ToolResolve string
  | ToolUnavailable string
  | ToolReport "(string \<times> apply_err option) list" bool

text \<open>
  \<open>ApplyPatchTool.Call\<close> on its two decoded arguments.  \<open>resolve\<close> and \<open>connect\<close> are the
  name resolver and the connection pool of the tool; the result's flag is \<open>IsError\<close>.
\<close>

definition applyPatchCall ::
  "(string \<Rightarrow> string + string) \<Rightarrow> (string \<Rightarrow> string + 'fs exec_fs) \<Rightarrow> 'fs \<Rightarrow> string \<Rightarrow> string \<Rightarrow>
   patch_tool_result \<times> 'fs" where
  "applyPatchCall resolve connect fs env patch =
     (if env = [] \<or> patch = [] then (ToolRefused, fs)
      else (case ParsePatch patch of
              Inl e \<Rightarrow> (ToolParse e, fs)
            | Inr ops \<Rightarrow>
                (case resolve env of
                   Inl e \<Rightarrow> (ToolResolve e, fs)
                 | Inr exe \<Rightarrow>
                     (case connect exe of
                        Inl e \<Rightarrow> (ToolUnavailable e, fs)
                      | Inr R \<Rightarrow>
                          (let (rep, fs') = applyOps R fs ops in
                           (ToolReport rep (\<exists>x\<in>set rep. snd x \<noteq> None), fs'))))))"

text \<open>
  What the code relies on of the executor: it is a map from paths to contents, and an RPC
  that reports success did what it says.
\<close>

definition fs_contract :: "'fs exec_fs \<Rightarrow> ('fs \<Rightarrow> string \<Rightarrow> string option) \<Rightarrow> bool" where
  "fs_contract R view \<longleftrightarrow>
     (\<forall>fs p s. fsRead R fs p = Inr s \<longrightarrow> view fs p = Some s) \<and>
     (\<forall>fs p d fs'. fsWrite R fs p d = (None, fs') \<longrightarrow> view fs' = (view fs)(p \<mapsto> d)) \<and>
     (\<forall>fs p fs'. fsRemove R fs p = (None, fs') \<longrightarrow> view fs' = (view fs)(p := None)) \<and>
     (\<forall>fs p q fs'. fsCopy R fs p q = (None, fs') \<longrightarrow> view fs' = (view fs)(q := view fs p))"

text \<open>An update that reports success replaced exactly the named file, by the edited
  content of what stood there; an update whose hunks do not fit leaves the executor's
  files as they were.\<close>

theorem applyOp_update:
  assumes "fs_contract R view" and "fo_kind op = OpUpdate" and "applyOp R fs op = (e, fs')"
  shows "(e = None \<longrightarrow> (\<exists>s ls. view fs (fo_path op) = Some s \<and>
             edits (fo_hunks op) (splitLines s) ls \<and>
             view fs' = (view fs)(fo_path op \<mapsto> joinBody s ls))) \<and>
         ((\<exists>d. e = Some (PatchFailed d)) \<longrightarrow> fs' = fs)"
proof (cases "fsRead R fs (fo_path op)")
  case (Inl x)
  with assms show ?thesis by (auto simp: applyOp_def)
next
  case (Inr s)
  with assms(1) have s: "view fs (fo_path op) = Some s" by (simp add: fs_contract_def)
  show ?thesis
  proof (cases "ApplyHunks s (fo_hunks op)")
    case (Inl d)
    with Inr assms show ?thesis by (auto simp: applyOp_def)
  next
    case ok: (Inr r)
    then obtain ls where "edits (fo_hunks op) (splitLines s) ls" "r = joinBody s ls"
      by (auto simp: ApplyHunks_edits)
    moreover obtain w fs1 where "fsWrite R fs (fo_path op) r = (w, fs1)" by fastforce
    ultimately show ?thesis using ok Inr s assms by (auto simp: applyOp_def fs_contract_def)
  qed
qed

text \<open>A concrete executor: a map of files whose RPCs fail on absent sources.\<close>

definition map_fs :: "(string \<Rightarrow> string option) exec_fs" where
  "map_fs = \<lparr>fsRead = (\<lambda>m p. case m p of None \<Rightarrow> Inl ''not found'' | Some s \<Rightarrow> Inr s),
     fsWrite = (\<lambda>m p d. (None, m(p \<mapsto> d))),
     fsRemove = (\<lambda>m p. if m p = None then (Some ''not found'', m) else (None, m(p := None))),
     fsCopy = (\<lambda>m p q. if m p = None then (Some ''not found'', m) else (None, m(q := m p)))\<rparr>"

lemma map_fs_contract: "fs_contract map_fs id"
  by (auto simp: fs_contract_def map_fs_def split: option.splits if_splits)

abbreviation sample_hunk :: PatchHunk where
  "sample_hunk \<equiv> \<lparr>ph_context = [], ph_lines =
     [\<lparr>hl_kind = HunkRemove, hl_text = ''x''\<rparr>, \<lparr>hl_kind = HunkAdd, hl_text = ''y''\<rparr>]\<rparr>"

abbreviation sample_update :: FileOp where
  "sample_update \<equiv> \<lparr>fo_kind = OpUpdate, fo_path = ''a'', fo_newpath = [], fo_content = [],
     fo_hunks = [sample_hunk]\<rparr>"

theorem applyOp_update_witness:
  "\<exists>s ls. [''a'' \<mapsto> ''x''] ''a'' = Some s \<and> edits [sample_hunk] (splitLines s) ls \<and>
     [''a'' \<mapsto> ''y''] = [''a'' \<mapsto> ''x''](''a'' \<mapsto> joinBody s ls)"
proof -
  have "ApplyHunks ''x'' [sample_hunk] = Inr ''y''" by code_simp
  then have "applyOp map_fs [''a'' \<mapsto> ''x''] sample_update = (None, [''a'' \<mapsto> ''y''])"
    by (simp add: applyOp_def map_fs_def)
  from applyOp_update [OF map_fs_contract _ this] show ?thesis by simp
qed

text \<open>A move that reports success leaves the source's content, unedited, at the
  destination and removes the source; the hunks of the move are never applied, so two
  moves that differ in their hunks only have the same outcome.\<close>

theorem applyOp_move_ignores_hunks:
  assumes "fs_contract R view" and "fo_kind op = OpMove" and "applyOp R fs op = (e, fs')"
  shows "(e = None \<longrightarrow> view fs' = (view fs)(fo_newpath op := view fs (fo_path op),
             fo_path op := None)) \<and>
         applyOp R fs (op\<lparr>fo_hunks := hs\<rparr>) = (e, fs')"
proof -
  obtain c fs1 where cp: "fsCopy R fs (fo_path op) (fo_newpath op) = (c, fs1)" by fastforce
  obtain d fs2 where "fsRemove R fs1 (fo_path op) = (d, fs2)" by fastforce
  with cp assms show ?thesis
    by (cases c) (auto simp: applyOp_def fs_contract_def)
qed

theorem applyOp_move_ignores_hunks_witness:
  "applyOp map_fs [''a'' \<mapsto> ''x''] (sample_update\<lparr>fo_kind := OpMove, fo_newpath := ''b'',
     fo_hunks := []\<rparr>) = (None, [''b'' \<mapsto> ''x''])"
proof -
  have r: "applyOp map_fs [''a'' \<mapsto> ''x''] (sample_update\<lparr>fo_kind := OpMove, fo_newpath := ''b''\<rparr>) =
      (None, [''b'' \<mapsto> ''x''])"
    by (auto simp: applyOp_def map_fs_def)
  from applyOp_move_ignores_hunks [OF map_fs_contract _ r, of "[]"] show ?thesis by simp
qed

end
