(* ===== verification/Registries.thy ===== *)
theory Registries
  imports Prelude
begin

text \<open>
  The three registries of live connections: \<open>ConnRegistry\<close> of
  \<open>internal/codexexecgateway/registry.go\<close> (executor to inbound connection), the route
  table of an inbound connection in \<open>multiplex.go\<close> (stream to bridge session) and the
  \<open>Registry\<close> of \<open>internal/tunnel/registry.go\<close> (sandbox to tunnel).  Each is a map under a
  mutex, so each operation is one atomic step on the map.  A connection is an object of
  the heap, compared by address: the model is polymorphic in it.

  All three promise the same: a registration replaces what was there and hands it back,
  and a connection can only take itself out of the table.  The locale states that
  contract and proves what it gives for any interleaving of registrations and removals.
\<close>

section \<open>The operations\<close>

type_synonym 'c conn_table = "string \<rightharpoonup> 'c"

subsection \<open>ConnRegistry\<close>

definition NewConnRegistry :: "'c conn_table" where
  "NewConnRegistry = Map.empty"

definition Register :: "'c conn_table \<Rightarrow> string \<Rightarrow> 'c \<Rightarrow> 'c conn_table \<times> 'c option" where
  "Register r exeID ic =
     (r(exeID \<mapsto> ic),
      case r exeID of
        None \<Rightarrow> None
      | Some prev \<Rightarrow> if prev \<noteq> ic then Some prev else None)"

definition Lookup :: "'c conn_table \<Rightarrow> string \<Rightarrow> 'c option" where
  "Lookup r exeID = r exeID"

definition Unregister :: "'c conn_table \<Rightarrow> string \<Rightarrow> 'c \<Rightarrow> 'c conn_table" where
  "Unregister r exeID ic = (if r exeID = Some ic then r(exeID := None) else r)"

definition ConnectedIDs :: "'c conn_table \<Rightarrow> string set" where
  "ConnectedIDs r = dom r"

subsection \<open>Routes of an inbound connection\<close>

definition addRoute :: "'c conn_table \<Rightarrow> string \<Rightarrow> 'c \<Rightarrow> 'c conn_table \<times> 'c option" where
  "addRoute routes streamID b = (routes(streamID \<mapsto> b), routes streamID)"

definition removeRoute :: "'c conn_table \<Rightarrow> string \<Rightarrow> 'c \<Rightarrow> 'c conn_table" where
  "removeRoute routes streamID b =
     (if routes streamID = Some b then routes(streamID := None) else routes)"

definition lookupRoute :: "'c conn_table \<Rightarrow> string \<Rightarrow> 'c option" where
  "lookupRoute routes streamID = routes streamID"

subsection \<open>Tunnels\<close>

text \<open>
  \<open>Register\<close> of the tunnel registry closes the tunnel it replaces under the same lock; the
  closed tunnel is the second component.  \<open>Unregister\<close> reports whether it removed anything.
\<close>

definition tunnelRegister :: "'c conn_table \<Rightarrow> string \<Rightarrow> 'c \<Rightarrow> 'c conn_table \<times> 'c option" where
  "tunnelRegister r sandboxID t = (r(sandboxID \<mapsto> t), r sandboxID)"

definition tunnelUnregister :: "'c conn_table \<Rightarrow> string \<Rightarrow> 'c \<Rightarrow> 'c conn_table \<times> bool" where
  "tunnelUnregister r sandboxID t =
     (case r sandboxID of
        None \<Rightarrow> (r, False)
      | Some existing \<Rightarrow> if existing = t then (r(sandboxID := None), True) else (r, False))"

definition tunnelGet :: "'c conn_table \<Rightarrow> string \<Rightarrow> 'c option" where
  "tunnelGet r sandboxID = r sandboxID"

section \<open>The contract\<close>

datatype ('k, 'c) reg_event = Reg 'k 'c | Unreg 'k 'c

text \<open>
  A history of a registry run on its operations, oldest event first: the final table and
  every connection that a registration handed back.
\<close>

fun run_events ::
  "('s \<Rightarrow> 'k \<Rightarrow> 'c \<Rightarrow> 's \<times> 'c option) \<Rightarrow> ('s \<Rightarrow> 'k \<Rightarrow> 'c \<Rightarrow> 's) \<Rightarrow> 's \<Rightarrow>
   ('k, 'c) reg_event list \<Rightarrow> 's \<times> 'c list"
where
  "run_events reg unreg s [] = (s, [])"
| "run_events reg unreg s (Reg k c # es) =
     (let (s1, ev) = reg s k c; (s2, evs) = run_events reg unreg s1 es in
      (s2, (case ev of None \<Rightarrow> evs | Some e \<Rightarrow> e # evs)))"
| "run_events reg unreg s (Unreg k c # es) = run_events reg unreg (unreg s k c) es"

text \<open>
  What a history means: \<open>c\<close> is the connection of \<open>k\<close> when its registration is the last
  one of \<open>k\<close> and it has not been removed since.
\<close>

definition registered :: "('k, 'c) reg_event list \<Rightarrow> 'k \<Rightarrow> 'c \<Rightarrow> bool" where
  "registered es k c \<longleftrightarrow>
     (\<exists>pre post. es = pre @ Reg k c # post \<and> Unreg k c \<notin> set post \<and>
        (\<forall>c'. Reg k c' \<notin> set post))"

lemma registeredI:
  "es = pre @ Reg k c # post \<Longrightarrow> Unreg k c \<notin> set post \<Longrightarrow> \<forall>c'. Reg k c' \<notin> set post \<Longrightarrow>
   registered es k c"
  unfolding registered_def by blast

lemma registered_Nil [simp]: "\<not> registered [] k c"
  by (simp add: registered_def)

lemma registered_snoc_Reg [simp]:
  "registered (es @ [Reg k' c']) k c \<longleftrightarrow> (if k' = k then c' = c else registered es k c)"
proof (cases "k' = k")
  case True
  show ?thesis
  proof
    assume "registered (es @ [Reg k' c']) k c"
    then obtain pre post where p: "es @ [Reg k' c'] = pre @ Reg k c # post"
      "\<forall>c'. Reg k c' \<notin> set post" by (auto simp: registered_def)
    with True show "if k' = k then c' = c else registered es k c"
      by (cases post rule: rev_cases) auto
  next
    assume "if k' = k then c' = c else registered es k c"
    with True show "registered (es @ [Reg k' c']) k c"
      by (intro registeredI [of _ es _ _ "[]"]) simp_all
  qed
next
  case False
  show ?thesis
  proof
    assume "registered (es @ [Reg k' c']) k c"
    then obtain pre post where p: "es @ [Reg k' c'] = pre @ Reg k c # post"
      "Unreg k c \<notin> set post" "\<forall>c'. Reg k c' \<notin> set post" by (auto simp: registered_def)
    with False show "if k' = k then c' = c else registered es k c"
      by (cases post rule: rev_cases) (auto simp: registered_def)
  next
    assume "if k' = k then c' = c else registered es k c"
    with False obtain pre post where "es = pre @ Reg k c # post"
      "Unreg k c \<notin> set post" "\<forall>c'. Reg k c' \<notin> set post" by (auto simp: registered_def)
    with False show "registered (es @ [Reg k' c']) k c"
      by (intro registeredI [of _ pre _ _ "post @ [Reg k' c']"]) simp_all
  qed
qed

lemma registered_snoc_Unreg [simp]:
  "registered (es @ [Unreg k' c']) k c \<longleftrightarrow> registered es k c \<and> (k', c') \<noteq> (k, c)"
proof
  assume "registered (es @ [Unreg k' c']) k c"
  then obtain pre post where p: "es @ [Unreg k' c'] = pre @ Reg k c # post"
    "Unreg k c \<notin> set post" "\<forall>c'. Reg k c' \<notin> set post" by (auto simp: registered_def)
  then show "registered es k c \<and> (k', c') \<noteq> (k, c)"
    by (cases post rule: rev_cases) (auto simp: registered_def)
next
  assume a: "registered es k c \<and> (k', c') \<noteq> (k, c)"
  then obtain pre post where "es = pre @ Reg k c # post"
    "Unreg k c \<notin> set post" "\<forall>c'. Reg k c' \<notin> set post" by (auto simp: registered_def)
  with a show "registered (es @ [Unreg k' c']) k c"
    by (intro registeredI [of _ pre _ _ "post @ [Unreg k' c']"]) auto
qed

lemma run_events_append:
  "run_events reg unreg s (es @ es') =
     (let (s1, ev1) = run_events reg unreg s es; (s2, ev2) = run_events reg unreg s1 es' in
      (s2, ev1 @ ev2))"
  by (induction reg unreg s es rule: run_events.induct)
     (auto split: prod.splits option.splits)

locale guarded_registry =
  fixes empty :: 's
    and look :: "'s \<Rightarrow> 'k \<Rightarrow> 'c option"
    and reg :: "'s \<Rightarrow> 'k \<Rightarrow> 'c \<Rightarrow> 's \<times> 'c option"
    and unreg :: "'s \<Rightarrow> 'k \<Rightarrow> 'c \<Rightarrow> 's"
  assumes look_empty: "look empty k = None"
    and look_reg: "look (fst (reg s k c)) k' = (if k' = k then Some c else look s k')"
    and reg_evicts: "look s k = Some e \<Longrightarrow> e \<noteq> c \<Longrightarrow> snd (reg s k c) = Some e"
    and reg_hands_back: "snd (reg s k c) = Some e \<Longrightarrow> look s k = Some e"
    and look_unreg: "look (unreg s k c) k' =
      (if k' = k \<and> look s k = Some c then None else look s k')"
begin

lemma look_run:
  "look (fst (run_events reg unreg empty es)) k = Some c \<longleftrightarrow> registered es k c"
proof (induction es arbitrary: k c rule: rev_induct)
  case Nil
  then show ?case by (simp add: look_empty)
next
  case (snoc e es)
  obtain s ev where r: "run_events reg unreg empty es = (s, ev)" by fastforce
  with snoc have IH: "look s k = Some c \<longleftrightarrow> registered es k c" for k c by simp
  show ?case
  proof (cases e)
    case (Reg k' c')
    obtain s' v where "reg s k' c' = (s', v)" by fastforce
    with look_reg [of s k' c' k] Reg r show ?thesis
      by (auto simp: run_events_append IH)
  next
    case (Unreg k' c')
    have "registered es k c \<Longrightarrow> registered es k c' \<Longrightarrow> c = c'"
      using IH [of k c] IH [of k c'] by simp
    with Unreg r IH show ?thesis by (auto simp: run_events_append look_unreg)
  qed
qed

text \<open>No connection is lost: it is current, it was handed back, or it was taken out.\<close>

lemma run_accounts:
  assumes "Reg k c \<in> set es"
  shows "look (fst (run_events reg unreg empty es)) k = Some c \<or>
         c \<in> set (snd (run_events reg unreg empty es)) \<or> Unreg k c \<in> set es"
  using assms
proof (induction es rule: rev_induct)
  case Nil
  then show ?case by simp
next
  case (snoc e es)
  obtain s ev where r: "run_events reg unreg empty es = (s, ev)" by fastforce
  show ?case
  proof (cases "e = Reg k c")
    case True
    then show ?thesis
      using look_reg [of s k c k]
      by (auto simp: run_events_append r split: prod.splits)
  next
    case False
    with snoc.prems snoc.IH have IH: "look s k = Some c \<or> c \<in> set ev \<or> Unreg k c \<in> set es"
      by (simp add: r)
    show ?thesis
    proof (cases e)
      case (Reg k' c')
      obtain s' v where g: "reg s k' c' = (s', v)" by fastforce
      have "look s' k = Some c \<or> v = Some c" if "look s k = Some c"
        using look_reg [of s k' c' k] reg_evicts [of s k c c'] g that False Reg
        by (cases "k' = k") auto
      with IH Reg g show ?thesis by (auto simp: run_events_append r split: option.splits)
    next
      case (Unreg k' c')
      with IH show ?thesis by (auto simp: run_events_append r look_unreg)
    qed
  qed
qed

end

interpretation conn: guarded_registry NewConnRegistry Lookup Register Unregister
  by unfold_locales
     (auto simp: NewConnRegistry_def Lookup_def Register_def Unregister_def
       split: option.splits if_splits)

interpretation route: guarded_registry Map.empty lookupRoute addRoute removeRoute
  by unfold_locales (auto simp: lookupRoute_def addRoute_def removeRoute_def)

interpretation tun: guarded_registry Map.empty tunnelGet tunnelRegister
  "\<lambda>s k c. fst (tunnelUnregister s k c)"
  by unfold_locales
     (auto simp: tunnelGet_def tunnelRegister_def tunnelUnregister_def split: option.splits)

section \<open>Properties\<close>

text \<open>After any history of registrations and removals, in any order and by any
  connections, the registry of inbound connections holds for an executor exactly the
  connection that registered last, unless that very connection has been removed since: a
  removal by an evicted connection has no effect.\<close>

theorem ConnRegistry_history:
  "Lookup (fst (run_events Register Unregister NewConnRegistry es)) exe = Some ic \<longleftrightarrow>
   registered es exe ic"
  by (rule conn.look_run)

text \<open>A tunnel that was ever registered is the sandbox's current tunnel, or has been
  closed by the registration that replaced it, or was taken out by its own removal, which
  reports true exactly when the tunnel was the current one.\<close>

theorem tunnel_accounted:
  assumes "Reg sb t \<in> set es"
  defines "run \<equiv> run_events tunnelRegister (\<lambda>s k c. fst (tunnelUnregister s k c)) Map.empty es"
  shows "(tunnelGet (fst run) sb = Some t \<or> t \<in> set (snd run) \<or> Unreg sb t \<in> set es) \<and>
         (snd (tunnelUnregister (fst run) sb t) \<longleftrightarrow> registered es sb t)"
proof
  show "tunnelGet (fst run) sb = Some t \<or> t \<in> set (snd run) \<or> Unreg sb t \<in> set es"
    unfolding run_def using assms(1) by (rule tun.run_accounts)
  have "snd (tunnelUnregister (fst run) sb t) \<longleftrightarrow> tunnelGet (fst run) sb = Some t"
    by (auto simp: tunnelUnregister_def tunnelGet_def split: option.splits)
  then show "snd (tunnelUnregister (fst run) sb t) \<longleftrightarrow> registered es sb t"
    unfolding run_def by (simp add: tun.look_run)
qed

theorem tunnel_accounted_witness:
  "\<not> snd (tunnelUnregister (fst (run_events tunnelRegister
        (\<lambda>s k c. fst (tunnelUnregister s k c)) Map.empty [Reg ''s'' (1::nat), Reg ''s'' 2]))
        ''s'' 1)"
proof -
  have "\<not> registered [Reg ''s'' (1::nat), Reg ''s'' 2] ''s'' 1"
    using registered_snoc_Reg [of "[Reg ''s'' (1::nat)]" "''s''" 2 "''s''" 1] by simp
  with tunnel_accounted [of "''s''" "1::nat" "[Reg ''s'' 1, Reg ''s'' 2]"] show ?thesis by simp
qed

end
