(* ===== verification/Revoked_Set.thy ===== *)
theory Revoked_Set
  imports Prelude
begin

text \<open>
  The bounded set of revoked turns of \<open>internal/codexexecgateway/revocation.go\<close>.  The source
  keeps a doubly linked list (\<open>container/list\<close>) in insertion order and a map from a turn to
  its list element.  An element is a heap object, so the model gives it an address: the
  list holds addresses with their values, the map holds addresses, and a counter hands out
  fresh ones.  The abstract specification is the list of entries alone.
\<close>

section \<open>State and operations\<close>

record revokedEntry =
  re_turnID :: string
  re_exp :: time

record RevokedSet =
  rs_cap :: int
  rs_order :: "(nat \<times> revokedEntry) list"
  rs_items :: "string \<rightharpoonup> nat"
  rs_next :: nat

definition NewRevokedSet :: "int \<Rightarrow> RevokedSet" where
  "NewRevokedSet cap =
     \<lparr>rs_cap = (if cap \<le> 0 then 10000 else cap), rs_order = [], rs_items = Map.empty,
      rs_next = 0\<rparr>"

text \<open>
  The eviction loop of \<open>Add\<close> on the list and the map: it removes from the front while the
  list has at least \<open>cap\<close> elements, and remembers whether an entry it removed was live.
\<close>

fun evictLoop ::
  "int \<Rightarrow> time \<Rightarrow> (nat \<times> revokedEntry) list \<Rightarrow> (string \<rightharpoonup> nat) \<Rightarrow> bool \<Rightarrow>
   (nat \<times> revokedEntry) list \<times> (string \<rightharpoonup> nat) \<times> bool"
where
  "evictLoop cap now [] items live = ([], items, live)"
| "evictLoop cap now ((el, entry) # order) items live =
     (if int (length ((el, entry) # order)) \<ge> cap
      then evictLoop cap now order (items(re_turnID entry := None))
             (if re_exp entry > now then True else live)
      else ((el, entry) # order, items, live))"

definition Add :: "RevokedSet \<Rightarrow> string \<Rightarrow> time \<Rightarrow> time \<Rightarrow> RevokedSet \<times> bool" where
  "Add r turnID exp now =
     (let entry = \<lparr>re_turnID = turnID, re_exp = exp\<rparr> in
      case rs_items r turnID of
        Some el \<Rightarrow>
          (r\<lparr>rs_order := filter (\<lambda>(e, _). e \<noteq> el) (rs_order r) @ [(el, entry)]\<rparr>, False)
      | None \<Rightarrow>
          (let (order, items, live) = evictLoop (rs_cap r) now (rs_order r) (rs_items r) False;
               el = rs_next r in
           (r\<lparr>rs_order := order @ [(el, entry)], rs_items := items(turnID \<mapsto> el),
              rs_next := Suc el\<rparr>, live)))"

definition Contains_turn :: "RevokedSet \<Rightarrow> string \<Rightarrow> bool" where
  "Contains_turn r turnID = (rs_items r turnID \<noteq> None)"

text \<open>The walk of \<open>Prune\<close> over the elements, from the front.\<close>

fun pruneLoop ::
  "time \<Rightarrow> (nat \<times> revokedEntry) list \<Rightarrow> (string \<rightharpoonup> nat) \<Rightarrow>
   (nat \<times> revokedEntry) list \<times> (string \<rightharpoonup> nat)"
where
  "pruneLoop now [] items = ([], items)"
| "pruneLoop now ((el, entry) # order) items =
     (if re_exp entry < now
      then pruneLoop now order (items(re_turnID entry := None))
      else (let (order', items') = pruneLoop now order items in ((el, entry) # order', items')))"

definition Prune :: "RevokedSet \<Rightarrow> time \<Rightarrow> RevokedSet" where
  "Prune r now =
     (let (order, items) = pruneLoop now (rs_order r) (rs_items r) in
      r\<lparr>rs_order := order, rs_items := items\<rparr>)"

definition Size :: "RevokedSet \<Rightarrow> nat" where
  "Size r = length (rs_order r)"

section \<open>Specification and invariant\<close>

text \<open>The abstract value: the entries, oldest first.\<close>

definition entries :: "RevokedSet \<Rightarrow> (string \<times> time) list" where
  "entries r = map (\<lambda>(_, e). (re_turnID e, re_exp e)) (rs_order r)"

definition spec_add ::
  "nat \<Rightarrow> (string \<times> time) list \<Rightarrow> string \<Rightarrow> time \<Rightarrow> (string \<times> time) list" where
  "spec_add cap l t x =
     (if t \<in> fst ` set l then filter (\<lambda>e. fst e \<noteq> t) l @ [(t, x)]
      else drop (Suc (length l) - cap) l @ [(t, x)])"

definition spec_evicted :: "nat \<Rightarrow> (string \<times> time) list \<Rightarrow> string \<Rightarrow> (string \<times> time) list" where
  "spec_evicted cap l t = (if t \<in> fst ` set l then [] else take (Suc (length l) - cap) l)"

definition index_ok :: "(nat \<times> revokedEntry) list \<Rightarrow> (string \<rightharpoonup> nat) \<Rightarrow> bool" where
  "index_ok order items \<longleftrightarrow>
     distinct (map fst order) \<and> distinct (map (re_turnID \<circ> snd) order) \<and>
     items = map_of (map (\<lambda>(el, e). (re_turnID e, el)) order)"

definition revoked_inv :: "RevokedSet \<Rightarrow> bool" where
  "revoked_inv r \<longleftrightarrow>
     0 < rs_cap r \<and> int (length (rs_order r)) \<le> rs_cap r \<and>
     index_ok (rs_order r) (rs_items r) \<and> (\<forall>x\<in>set (rs_order r). fst x < rs_next r)"

lemma index_ok_Cons:
  "index_ok ((el, e) # order) items \<longleftrightarrow>
     index_ok order (items(re_turnID e := None)) \<and> items (re_turnID e) = Some el \<and>
     el \<notin> fst ` set order \<and> re_turnID e \<notin> (re_turnID \<circ> snd) ` set order"
proof -
  let ?m = "map_of (map (\<lambda>(el, e). (re_turnID e, el)) order)"
  have n: "re_turnID e \<notin> (re_turnID \<circ> snd) ` set order \<Longrightarrow> ?m (re_turnID e) = None"
    by (force simp: map_of_eq_None_iff)
  show ?thesis
    using n by (auto simp: index_ok_def fun_eq_iff)
qed

lemma index_ok_snoc:
  assumes "index_ok order items" and "el \<notin> fst ` set order" and "items t = None"
  shows "index_ok (order @ [(el, \<lparr>re_turnID = t, re_exp = x\<rparr>)]) (items(t \<mapsto> el))"
proof -
  have "t \<notin> (re_turnID \<circ> snd) ` set order"
    using assms(1,3) by (auto simp: index_ok_def map_of_eq_None_iff split_beta image_iff)
  with assms show ?thesis
    by (auto simp: index_ok_def fun_eq_iff map_add_def split: option.splits)
qed

lemma index_ok_dom: "index_ok order items \<Longrightarrow> dom items = (re_turnID \<circ> snd) ` set order"
  by (force simp: index_ok_def dom_map_of_conv_image_fst image_iff)

lemma index_ok_lookup:
  assumes "index_ok order items"
  shows "items t = Some el \<longleftrightarrow> (\<exists>e. (el, e) \<in> set order \<and> re_turnID e = t)"
proof -
  let ?l = "map (\<lambda>(el, e). (re_turnID e, el)) order"
  from assms have "distinct (map fst ?l)" by (simp add: index_ok_def comp_def split_beta)
  then have "map_of ?l t = Some el \<longleftrightarrow> (t, el) \<in> set ?l" by simp
  with assms show ?thesis by (force simp: index_ok_def)
qed

lemma option_eqI: "(\<And>x. a = Some x \<longleftrightarrow> b = Some x) \<Longrightarrow> a = b"
  by (cases b) auto

lemma index_ok_alt:
  "index_ok order items \<longleftrightarrow>
     distinct (map fst order) \<and> distinct (map (re_turnID \<circ> snd) order) \<and>
     (\<forall>t el. items t = Some el \<longleftrightarrow> (\<exists>e. (el, e) \<in> set order \<and> re_turnID e = t))"
  (is "?l \<longleftrightarrow> ?r")
proof
  assume l: ?l
  with index_ok_lookup [OF l] show ?r by (simp add: index_ok_def)
next
  let ?m = "map_of (map (\<lambda>(el, e). (re_turnID e, el)) order)"
  assume r: ?r
  then have m: "index_ok order ?m" by (simp add: index_ok_def)
  have "items t = ?m t" for t
    by (rule option_eqI) (simp only: index_ok_lookup [OF m] r)
  then have "items = ?m" by (rule ext)
  with m show ?l by simp
qed

lemma entries_dom:
  "index_ok (rs_order r) (rs_items r) \<Longrightarrow> fst ` set (entries r) = dom (rs_items r)"
  by (force simp: index_ok_dom entries_def)

lemma evictLoop_drop:
  assumes "0 < cap" and "index_ok order items"
  defines "n \<equiv> Suc (length order) - nat cap"
  shows "\<exists>items'. evictLoop cap now order items live =
      (drop n order, items', live \<or> (\<exists>x\<in>set (take n order). now < re_exp (snd x))) \<and>
      index_ok (drop n order) items' \<and> dom items' \<subseteq> dom items"
  using assms(2) unfolding n_def
proof (induction order arbitrary: items live)
  case Nil
  with assms(1) show ?case by simp
next
  case (Cons x order)
  obtain el e where x: "x = (el, e)" by fastforce
  let ?k = "Suc (length order) - nat cap"
  from Cons.prems x have ok: "index_ok order (items(re_turnID e := None))"
    by (simp add: index_ok_Cons)
  show ?case
  proof (cases "int (length (x # order)) \<ge> cap")
    case True
    with assms(1) have k: "Suc (Suc (length order)) - nat cap = Suc ?k" by simp
    from Cons.IH [OF ok, of "if re_exp e > now then True else live"]
    obtain items' where "evictLoop cap now order (items(re_turnID e := None))
        (if re_exp e > now then True else live) =
        (drop ?k order, items', (if re_exp e > now then True else live) \<or>
           (\<exists>x\<in>set (take ?k order). now < re_exp (snd x)))"
      and "index_ok (drop ?k order) items'" and "dom items' \<subseteq> dom (items(re_turnID e := None))"
      by blast
    moreover from this(3) have "dom items' \<subseteq> dom items" by auto
    ultimately show ?thesis using True x by (auto simp: k)
  next
    case False
    with assms(1) have "Suc (length (x # order)) - nat cap = 0" by simp
    with False x Cons.prems show ?thesis by auto
  qed
qed

lemma pruneLoop_filter:
  "pruneLoop now order items =
     (filter (\<lambda>x. \<not> re_exp (snd x) < now) order,
      \<lambda>t. if \<exists>x\<in>set order. re_exp (snd x) < now \<and> re_turnID (snd x) = t then None else items t)"
proof (induction now order items rule: pruneLoop.induct)
  case (2 now el entry order items)
  show ?case
  proof (cases "re_exp entry < now")
    case True
    from 2(1) [OF True] True show ?thesis
      by (simp del: fun_upd_apply) (auto simp: fun_eq_iff)
  next
    case False
    from 2(2) [OF False] False show ?thesis by simp
  qed
qed simp

lemma index_ok_prune:
  assumes "index_ok order items"
  shows "index_ok (filter (\<lambda>x. \<not> re_exp (snd x) < now) order)
     (\<lambda>t. if \<exists>x\<in>set order. re_exp (snd x) < now \<and> re_turnID (snd x) = t then None else items t)"
  unfolding index_ok_alt
proof (intro conjI allI)
  let ?P = "\<lambda>x. \<not> re_exp (snd x) < now"
  show "distinct (map fst (filter ?P order))" "distinct (map (re_turnID \<circ> snd) (filter ?P order))"
    using assms by (simp_all add: index_ok_def distinct_map_filter)
  have inj: "inj_on (re_turnID \<circ> snd) (set order)"
    using assms by (simp add: index_ok_def distinct_map)
  fix t el
  show "(if \<exists>x\<in>set order. re_exp (snd x) < now \<and> re_turnID (snd x) = t then None else items t) = Some el
      \<longleftrightarrow> (\<exists>e. (el, e) \<in> set (filter ?P order) \<and> re_turnID e = t)"
  proof (cases "\<exists>x\<in>set order. re_exp (snd x) < now \<and> re_turnID (snd x) = t")
    case True
    then obtain x where x: "x \<in> set order" "re_exp (snd x) < now" "re_turnID (snd x) = t" by blast
    have "False" if "(el, e) \<in> set order" "\<not> re_exp e < now" "re_turnID e = t" for e
      using inj_onD [OF inj _ x(1) that(1)] x that by simp
    with True show ?thesis by auto
  next
    case False
    have "(el, e) \<in> set order \<Longrightarrow> re_turnID e = t \<Longrightarrow> \<not> re_exp e < now" for e
      using False by force
    with False index_ok_lookup [OF assms, of t el] show ?thesis by auto
  qed
qed

lemma inv_New: "revoked_inv (NewRevokedSet cap)"
  by (simp add: revoked_inv_def NewRevokedSet_def index_ok_def)

lemma length_entries [simp]: "length (entries r) = length (rs_order r)"
  by (simp add: entries_def)

lemma Add_refresh:
  assumes inv: "revoked_inv r" and el: "rs_items r t = Some el"
  shows "revoked_inv (fst (Add r t x now)) \<and>
         entries (fst (Add r t x now)) = filter (\<lambda>e. fst e \<noteq> t) (entries r) @ [(t, x)]"
proof -
  let ?e = "\<lparr>re_turnID = t, re_exp = x\<rparr>"
  let ?f = "filter (\<lambda>(e, _). e \<noteq> el) (rs_order r)"
  from inv have ok: "index_ok (rs_order r) (rs_items r)" by (simp add: revoked_inv_def)
  obtain e0 where e0: "(el, e0) \<in> set (rs_order r)" "re_turnID e0 = t"
    using index_ok_lookup [OF ok] el by blast
  have iff: "fst y = el \<longleftrightarrow> re_turnID (snd y) = t" if "y \<in> set (rs_order r)" for y
  proof -
    obtain a b where y: "y = (a, b)" by fastforce
    have i: "inj_on fst (set (rs_order r))" "inj_on (re_turnID \<circ> snd) (set (rs_order r))"
      using ok by (simp_all add: index_ok_def distinct_map)
    have "a = el \<Longrightarrow> (a, b) = (el, e0)" "re_turnID b = t \<Longrightarrow> (a, b) = (el, e0)"
      using inj_onD [OF i(1), of "(a, b)" "(el, e0)"] inj_onD [OF i(2), of "(a, b)" "(el, e0)"]
        that e0 y by simp_all
    with e0 y show ?thesis by auto
  qed
  have iff1: "(el, b) \<in> set (rs_order r) \<Longrightarrow> re_turnID b = t"
    and iff2: "(a, b) \<in> set (rs_order r) \<Longrightarrow> re_turnID b = t \<Longrightarrow> a = el" for a b
    using iff by fastforce+
  have "int (length (?f @ [(el, ?e)])) \<le> int (length (rs_order r))"
    using e0(1) length_filter_less [of "(el, e0)" "rs_order r" "\<lambda>(e, _). e \<noteq> el"] by simp
  moreover have "index_ok (?f @ [(el, ?e)]) (rs_items r)"
    unfolding index_ok_alt
  proof (intro conjI allI)
    show "distinct (map fst (?f @ [(el, ?e)]))"
      using ok by (auto simp: index_ok_def distinct_map_filter)
    show "distinct (map (re_turnID \<circ> snd) (?f @ [(el, ?e)]))"
      using ok iff by (auto simp: index_ok_def distinct_map_filter)
    show "rs_items r s = Some k \<longleftrightarrow>
        (\<exists>e. (k, e) \<in> set (?f @ [(el, ?e)]) \<and> re_turnID e = s)" for s k
      using index_ok_lookup [OF ok, of s k] e0 el by (cases "k = el") (auto dest: iff1 iff2)
  qed
  moreover have "map (\<lambda>(_, e). (re_turnID e, re_exp e)) ?f =
      filter (\<lambda>e. fst e \<noteq> t) (entries r)"
  proof -
    have "?f = filter ((\<lambda>e. fst e \<noteq> t) \<circ> (\<lambda>(_, e). (re_turnID e, re_exp e))) (rs_order r)"
      by (rule filter_cong [OF refl]) (simp add: iff split_beta)
    then show ?thesis by (simp add: entries_def filter_map)
  qed
  ultimately show ?thesis
    using inv el e0 by (auto simp: Add_def revoked_inv_def entries_def)
qed

lemma Add_fresh:
  assumes inv: "revoked_inv r" and fresh: "rs_items r t = None"
  defines "n \<equiv> Suc (length (entries r)) - nat (rs_cap r)"
  shows "revoked_inv (fst (Add r t x now)) \<and>
         entries (fst (Add r t x now)) = drop n (entries r) @ [(t, x)] \<and>
         (snd (Add r t x now) \<longleftrightarrow> (\<exists>e\<in>set (take n (entries r)). now < snd e))"
proof -
  from inv have cap: "0 < rs_cap r" and ok: "index_ok (rs_order r) (rs_items r)"
    and nx: "\<forall>x\<in>set (rs_order r). fst x < rs_next r"
    by (simp_all add: revoked_inv_def)
  from evictLoop_drop [OF cap ok, of now False] obtain items' where
    ev: "evictLoop (rs_cap r) now (rs_order r) (rs_items r) False =
      (drop n (rs_order r), items', \<exists>x\<in>set (take n (rs_order r)). now < re_exp (snd x))"
    and ok': "index_ok (drop n (rs_order r)) items'" and d: "dom items' \<subseteq> dom (rs_items r)"
    by (auto simp: n_def)
  have nx': "\<forall>x\<in>set (drop n (rs_order r)). fst x < rs_next r"
    using nx by (blast dest: in_set_dropD)
  then have "rs_next r \<notin> fst ` set (drop n (rs_order r))" by auto
  then have "index_ok (drop n (rs_order r) @ [(rs_next r, \<lparr>re_turnID = t, re_exp = x\<rparr>)])
      (items'(t \<mapsto> rs_next r))"
    using ok' d fresh by (intro index_ok_snoc) auto
  moreover have "int (length (drop n (rs_order r))) < rs_cap r"
    using cap inv by (simp add: n_def revoked_inv_def)
  moreover have "drop n (entries r) = map (\<lambda>(_, e). (re_turnID e, re_exp e)) (drop n (rs_order r))"
    "(\<exists>e\<in>set (take n (entries r)). now < snd e) \<longleftrightarrow>
     (\<exists>x\<in>set (take n (rs_order r)). now < re_exp (snd x))"
    by (force simp: entries_def drop_map take_map)+
  ultimately show ?thesis
    using cap nx' fresh by (auto simp: Add_def Let_def ev revoked_inv_def entries_def less_Suc_eq)
qed

lemma Prune_entries:
  assumes inv: "revoked_inv r"
  shows "revoked_inv (Prune r now) \<and> rs_cap (Prune r now) = rs_cap r \<and>
         entries (Prune r now) = filter (\<lambda>e. \<not> snd e < now) (entries r)"
proof -
  let ?P = "\<lambda>x. \<not> re_exp (snd x) < now"
  from inv have ok: "index_ok (rs_order r) (rs_items r)" and c: "int (length (rs_order r)) \<le> rs_cap r"
    by (simp_all add: revoked_inv_def)
  have "int (length (filter ?P (rs_order r))) \<le> int (length (rs_order r))" by simp
  also note c
  finally show ?thesis
    using index_ok_prune [OF ok, of now] inv
    by (auto simp: Prune_def pruneLoop_filter revoked_inv_def entries_def filter_map comp_def
        split_beta)
qed

lemma Add_cap [simp]: "rs_cap (fst (Add r t x now)) = rs_cap r"
  by (auto simp: Add_def Let_def split: option.splits prod.splits)

lemma Contains_entries: "revoked_inv r \<Longrightarrow> Contains_turn r t \<longleftrightarrow> t \<in> fst ` set (entries r)"
  using entries_dom [of r] by (simp add: revoked_inv_def Contains_turn_def domIff)

lemma entries_distinct: "revoked_inv r \<Longrightarrow> distinct (map fst (entries r))"
  by (simp add: revoked_inv_def index_ok_def entries_def comp_def split_beta)

lemma Add_entries:
  assumes inv: "revoked_inv r"
  shows "revoked_inv (fst (Add r t x now)) \<and>
         entries (fst (Add r t x now)) = spec_add (nat (rs_cap r)) (entries r) t x \<and>
         (snd (Add r t x now) \<longleftrightarrow>
            (\<exists>e\<in>set (spec_evicted (nat (rs_cap r)) (entries r) t). now < snd e))"
proof (cases "rs_items r t")
  case None
  with Contains_entries [OF inv, of t] have "t \<notin> fst ` set (entries r)"
    by (simp add: Contains_turn_def)
  with Add_fresh [OF inv None, of x now] show ?thesis
    by (simp add: spec_add_def spec_evicted_def)
next
  case (Some el)
  with Contains_entries [OF inv, of t] have "t \<in> fst ` set (entries r)"
    by (simp add: Contains_turn_def)
  with Add_refresh [OF inv Some, of x now] Some show ?thesis
    by (simp add: spec_add_def spec_evicted_def Add_def Let_def)
qed

section \<open>Histories\<close>

datatype rs_event = EvAdd string time time | EvPrune time

fun rs_step :: "RevokedSet \<Rightarrow> rs_event \<Rightarrow> RevokedSet" where
  "rs_step r (EvAdd t x now) = fst (Add r t x now)"
| "rs_step r (EvPrune now) = Prune r now"

lemma rs_step_inv: "revoked_inv r \<Longrightarrow> revoked_inv (rs_step r e) \<and> rs_cap (rs_step r e) = rs_cap r"
  by (cases e) (simp_all add: Add_entries Prune_entries)

lemma rs_run_inv:
  "revoked_inv r \<Longrightarrow> revoked_inv (fold (\<lambda>e r. rs_step r e) es r) \<and>
     rs_cap (fold (\<lambda>e r. rs_step r e) es r) = rs_cap r"
  by (induction es arbitrary: r) (auto simp: rs_step_inv)

text \<open>
  A revocation stays behind at most the turns added after it: the position invariant that
  bounds when it can be evicted.
\<close>

definition behind :: "string \<Rightarrow> time \<Rightarrow> string set \<Rightarrow> (string \<times> time) list \<Rightarrow> bool" where
  "behind t x A l \<longleftrightarrow> (\<exists>l1 l2. l = l1 @ (t, x) # l2 \<and> fst ` set l2 \<subseteq> A)"

lemma behind_add:
  assumes b: "behind t x A l" and d: "distinct (map fst l)" and A: "finite A"
    and cap: "card (insert t' A) < cap" and len: "length l \<le> cap" and ne: "t' \<noteq> t"
  shows "behind t x (insert t' A) (spec_add cap l t' x')"
proof -
  from b obtain l1 l2 where l: "l = l1 @ (t, x) # l2" "fst ` set l2 \<subseteq> A"
    by (auto simp: behind_def)
  show ?thesis
  proof (cases "t' \<in> fst ` set l")
    case True
    then have "spec_add cap l t' x' = filter (\<lambda>e. fst e \<noteq> t') l1 @ (t, x) #
        (filter (\<lambda>e. fst e \<noteq> t') l2 @ [(t', x')])"
      using ne by (simp add: spec_add_def l(1))
    with l(2) show ?thesis unfolding behind_def by fastforce
  next
    case False
    have "length l2 = card (fst ` set l2)"
      using d l(1) distinct_card [of "map fst l2"] by simp
    moreover have "card (insert t' (fst ` set l2)) \<le> card (insert t' A)"
      using A l(2) by (intro card_mono) auto
    moreover have "t' \<notin> fst ` set l2" using False l(1) by auto
    ultimately have "Suc (length l2) < cap" using cap by simp
    then have k: "Suc (length l) - cap \<le> length l1" using l(1) by simp
    then have "spec_add cap l t' x' = drop (Suc (length l) - cap) l1 @ (t, x) # (l2 @ [(t', x')])"
      using False by (simp add: spec_add_def) (simp add: l(1))
    with l(2) show ?thesis unfolding behind_def by fastforce
  qed
qed

lemma behind_prune: "behind t x A l \<Longrightarrow> now \<le> x \<Longrightarrow> behind t x A (filter (\<lambda>e. \<not> snd e < now) l)"
  unfolding behind_def by fastforce

definition added :: "rs_event list \<Rightarrow> string set" where
  "added es = {t. \<exists>x now. EvAdd t x now \<in> set es}"

lemma added_simps [simp]:
  "added [] = {}" "added (EvAdd t x now # es) = insert t (added es)"
  "added (EvPrune now # es) = added es"
  by (auto simp: added_def)

lemma finite_added: "finite (added es)"
  by (induction es) (auto, metis added_simps(2,3) finite_insert rs_event.exhaust)

lemma behind_run:
  assumes "revoked_inv r" and "behind t x A (entries r)" and "finite A"
    and "t \<notin> added es" and "\<forall>now. EvPrune now \<in> set es \<longrightarrow> now \<le> x"
    and "int (card (A \<union> added es)) < rs_cap r"
  shows "behind t x (A \<union> added es) (entries (fold (\<lambda>e r. rs_step r e) es r))"
  using assms
proof (induction es arbitrary: r A)
  case Nil
  then show ?case by simp
next
  case (Cons e es)
  have inv: "revoked_inv (rs_step r e)" "rs_cap (rs_step r e) = rs_cap r"
    using rs_step_inv [OF Cons.prems(1)] by simp_all
  show ?case
  proof (cases e)
    case (EvAdd t' x' now)
    have "card (insert t' A) \<le> card (A \<union> added (e # es))"
      using EvAdd Cons.prems(3) by (intro card_mono) (auto simp: finite_added)
    then have "card (insert t' A) < nat (rs_cap r)" using Cons.prems(6) by simp
    moreover have "length (entries r) \<le> nat (rs_cap r)"
      using Cons.prems(1) by (auto simp: revoked_inv_def)
    ultimately have "behind t x (insert t' A) (entries (rs_step r e))"
      using behind_add [OF Cons.prems(2) entries_distinct [OF Cons.prems(1)] Cons.prems(3)]
        Cons.prems(4) EvAdd Add_entries [OF Cons.prems(1)] by auto
    then show ?thesis
      using Cons.IH [OF inv(1), of "insert t' A"] Cons.prems EvAdd inv(2) by simp
  next
    case (EvPrune now)
    then have "behind t x A (entries (rs_step r e))"
      using behind_prune [OF Cons.prems(2)] Cons.prems(5) Prune_entries [OF Cons.prems(1)] by simp
    then show ?thesis
      using Cons.IH [OF inv(1)] Cons.prems EvPrune inv(2) by simp
  qed
qed

section \<open>Properties\<close>

text \<open>C7: the linked list and the index of the revoked set implement a plain list of entries:
  every operation keeps the two consistent and the size within the capacity, adding
  refreshes or appends and drops only the oldest entries, and the reported flag says
  exactly whether a dropped entry was still live.\<close>

theorem RevokedSet_refines:
  assumes "revoked_inv r"
  shows "revoked_inv (fst (Add r t x now)) \<and>
         entries (fst (Add r t x now)) = spec_add (nat (rs_cap r)) (entries r) t x \<and>
         (snd (Add r t x now) \<longleftrightarrow>
            (\<exists>e\<in>set (spec_evicted (nat (rs_cap r)) (entries r) t). now < snd e)) \<and>
         revoked_inv (Prune r now) \<and>
         entries (Prune r now) = filter (\<lambda>e. \<not> snd e < now) (entries r) \<and>
         (Contains_turn r t \<longleftrightarrow> t \<in> fst ` set (entries r)) \<and>
         int (Size r) \<le> rs_cap r"
proof -
  have "int (Size r) \<le> rs_cap r" using assms by (simp add: Size_def revoked_inv_def)
  then show ?thesis
    using Add_entries [OF assms] Prune_entries [OF assms] Contains_entries [OF assms] by blast
qed

theorem RevokedSet_refines_witness:
  "snd (Add (fst (Add (NewRevokedSet 1) ''a'' 9 5)) ''b'' 9 5)"
proof -
  have i: "revoked_inv (fst (Add (NewRevokedSet 1) ''a'' 9 5))"
    by (simp add: Add_entries inv_New)
  have "entries (fst (Add (NewRevokedSet 1) ''a'' 9 5)) = [(''a'', 9)]" by code_simp
  with RevokedSet_refines [OF i, of "''b''" 9 5] show ?thesis
    by (simp add: spec_evicted_def NewRevokedSet_def)
qed

lemma revoked_stays:
  assumes "t \<notin> added es" and "\<forall>now. EvPrune now \<in> set es \<longrightarrow> now \<le> x"
    and "int (card (added es)) < rs_cap (NewRevokedSet cap)"
  shows "Contains_turn (fold (\<lambda>e r. rs_step r e) (before @ EvAdd t x now # es) (NewRevokedSet cap)) t"
proof -
  let ?s = "fold (\<lambda>e r. rs_step r e) before (NewRevokedSet cap)"
  let ?r = "fst (Add ?s t x now)"
  have inv0: "revoked_inv ?s" "rs_cap ?s = rs_cap (NewRevokedSet cap)"
    using rs_run_inv [OF inv_New, of before cap] by blast+
  then have inv: "revoked_inv ?r" and c: "rs_cap ?r = rs_cap (NewRevokedSet cap)"
    by (simp_all add: Add_entries)
  have "behind t x {} (entries ?r)"
    using Add_entries [OF inv0(1)] by (auto simp: behind_def spec_add_def)
  from behind_run [OF inv this] assms c
  have "behind t x (added es) (entries (fold (\<lambda>e r. rs_step r e) es ?r))" by simp
  then have "t \<in> fst ` set (entries (fold (\<lambda>e r. rs_step r e) es ?r))"
    by (auto simp: behind_def)
  then show ?thesis
    using Contains_entries [of "fold (\<lambda>e r. rs_step r e) es ?r" t] rs_run_inv [OF inv] by simp
qed

text \<open>A revoked turn stays revoked through any later history, as long as no prune runs
  after its expiry and fewer than the capacity of other turns are revoked meanwhile.\<close>

theorem revoked_until_exp:
  assumes "t \<notin> added es" and "\<forall>now. EvPrune now \<in> set es \<longrightarrow> now \<le> x"
    and "int (card (added es)) < rs_cap (NewRevokedSet cap)"
  shows "Contains_turn (fold (\<lambda>e r. rs_step r e) (before @ EvAdd t x now # es) (NewRevokedSet cap)) t"
  using assms by (rule revoked_stays)

theorem revoked_until_exp_witness:
  "Contains_turn (fold (\<lambda>e r. rs_step r e)
     ([] @ EvAdd ''a'' 9 1 # [EvAdd ''b'' 3 2, EvPrune 9]) (NewRevokedSet 2)) ''a''"
  by (rule revoked_until_exp) (auto simp: NewRevokedSet_def)

end
