(* ===== verification/Go_Encoding.thy ===== *)
theory Go_Encoding
  imports Go_Strings
begin

text \<open>
  The encodings of Go's standard library that the modelled code relies on: the unpadded
  URL alphabet of \<open>encoding/base64\<close> (\<open>RawURLEncoding\<close>, not strict), and decimal integers
  of 64 bits (\<open>strconv.FormatInt\<close>, \<open>strconv.ParseInt\<close> with base 10).
\<close>

section \<open>Base 64\<close>

definition b64_alphabet :: string where
  "b64_alphabet = ''ABCDEFGHIJKLMNOPQRSTUVWXYZabcdefghijklmnopqrstuvwxyz0123456789-_''"

definition b64_char :: "nat \<Rightarrow> char" where
  "b64_char n = b64_alphabet ! n"

definition b64_digit :: "char \<Rightarrow> nat option" where
  "b64_digit c = find (\<lambda>i. b64_alphabet ! i = c) [0..<64]"

definition byte :: "char \<Rightarrow> nat" where
  "byte c = of_char c"

lemma byte_less [simp]: "byte c < 256"
  unfolding byte_def by (metis mod_less_divisor of_char_mod_256 zero_less_numeral)

lemma byte_le: "byte c \<le> 255"
  using byte_less [of c] by linarith

lemma char_of_byte [simp]: "char_of (byte c) = c"
  by (simp add: byte_def)

fun b64_encode :: "string \<Rightarrow> string" where
  "b64_encode [] = []"
| "b64_encode [a] = (let n = byte a * 16 in [b64_char (n div 64), b64_char (n mod 64)])"
| "b64_encode [a, b] =
     (let n = (byte a * 256 + byte b) * 4 in
      [b64_char (n div 4096), b64_char (n div 64 mod 64), b64_char (n mod 64)])"
| "b64_encode (a # b # c # s) =
     (let n = (byte a * 256 + byte b) * 256 + byte c in
      [b64_char (n div 262144), b64_char (n div 4096 mod 64), b64_char (n div 64 mod 64),
       b64_char (n mod 64)] @ b64_encode s)"

text \<open>The quanta of the decoder on the values of its characters; a single one left is an error.\<close>

fun b64_quanta :: "nat list \<Rightarrow> string option" where
  "b64_quanta [] = Some []"
| "b64_quanta [p] = None"
| "b64_quanta [p, q] = Some [char_of ((p * 64 + q) div 16)]"
| "b64_quanta [p, q, r] =
     (let n = ((p * 64 + q) * 64 + r) div 4 in Some [char_of (n div 256), char_of (n mod 256)])"
| "b64_quanta (p # q # r # t # ds) =
     (let n = ((p * 64 + q) * 64 + r) * 64 + t in
      map_option (\<lambda>s. [char_of (n div 65536), char_of (n div 256 mod 256), char_of (n mod 256)] @ s)
        (b64_quanta ds))"

text \<open>The decoder skips carriage returns and line feeds, and does not check trailing bits.\<close>

definition b64_decode :: "string \<Rightarrow> string option" where
  "b64_decode s =
     (let ds = map b64_digit (filter (\<lambda>c. c \<noteq> CHR 0x0A \<and> c \<noteq> CHR 0x0D) s) in
      if None \<in> set ds then None else b64_quanta (map the ds))"

lemma b64_alphabet_distinct: "distinct b64_alphabet" "length b64_alphabet = 64"
  "CHR 0x0A \<notin> set b64_alphabet" "CHR 0x0D \<notin> set b64_alphabet" "CHR ''.'' \<notin> set b64_alphabet"
  by (simp_all add: b64_alphabet_def)

lemma b64_digit_char: "i < 64 \<Longrightarrow> b64_digit (b64_char i) = Some i"
  unfolding b64_digit_def b64_char_def find_upt_Some
  using b64_alphabet_distinct(1,2) by (simp add: nth_eq_iff_index_eq)

lemma b64_char_in: "i < 64 \<Longrightarrow> b64_char i \<in> set b64_alphabet"
  by (simp add: b64_char_def b64_alphabet_distinct(2))

lemma b64_char_plain:
  "i < 64 \<Longrightarrow> b64_char i \<noteq> CHR 0x0A" "i < 64 \<Longrightarrow> b64_char i \<noteq> CHR 0x0D"
  "i < 64 \<Longrightarrow> b64_char i \<noteq> CHR ''.''"
  using b64_alphabet_distinct(3-5) b64_char_in [of i] by metis+

definition sextets :: "string \<Rightarrow> nat list \<Rightarrow> bool" where
  "sextets s ds \<longleftrightarrow> s = map b64_char ds \<and> (\<forall>d\<in>set ds. d < 64)"

lemma b64_decode_sextets: "sextets s ds \<Longrightarrow> b64_decode s = b64_quanta ds"
proof -
  assume s: "sextets s ds"
  then have "filter (\<lambda>c. c \<noteq> CHR 0x0A \<and> c \<noteq> CHR 0x0D) s = s"
    by (auto simp: sextets_def b64_char_plain filter_id_conv)
  moreover have "map b64_digit s = map Some ds"
    using s by (auto simp: sextets_def b64_digit_char)
  ultimately show ?thesis by (auto simp: b64_decode_def comp_def)
qed

lemma sextet_glue: "(n div (64 * k)) * 64 + n div k mod 64 = n div (k::nat)"
  by (metis div_mult2_eq div_mult_mod_eq mult.commute)

lemma char_of_glue [simp]: "char_of (n * 256 + byte b) = b"
  by (metis add.commute char_of_byte char_of_mod_256 mod_mult_self1)

lemma div_glue: "c < 256 \<Longrightarrow> (m * 256 + c) div 256 = (m::nat)"
  by (metis add.commute div_less div_mult_self1 add_0 zero_neq_numeral)

lemma quantum2:
  "a \<le> 255 \<Longrightarrow> b \<le> 255 \<Longrightarrow> (a * 256 + b) * 4 div 4096 < (64::nat)"
  "(m div 4096 * 64 + m div 64 mod 64) * 64 + m mod 64 = (m::nat)"
  using sextet_glue [of m 64] by (simp_all add: less_mult_imp_div_less)

lemma quantum3:
  "a \<le> 255 \<Longrightarrow> b \<le> 255 \<Longrightarrow> c \<le> 255 \<Longrightarrow>
   ((a * 256 + b) * 256 + c) div 262144 < (64::nat)"
  "((n div 262144 * 64 + n div 4096 mod 64) * 64 + n div 64 mod 64) * 64 + n mod 64 = (n::nat)"
  using sextet_glue [of n 4096] sextet_glue [of n 64] by (simp_all add: less_mult_imp_div_less)

lemma b64_encode_sextets:
  "\<exists>ds. sextets (b64_encode s) ds \<and> b64_quanta ds = Some s"
proof (induction s rule: b64_encode.induct)
  case 1
  then show ?case by (auto simp: sextets_def)
next
  case (2 a)
  let ?n = "byte a * 16"
  have "?n div 64 < 64" using byte_less [of a] by linarith
  moreover have "(?n div 64 * 64 + ?n mod 64) div 16 = byte a" by presburger
  ultimately show ?case
    by (intro exI [of _ "[?n div 64, ?n mod 64]"]) (simp add: sextets_def Let_def)
next
  case (3 a b)
  let ?n = "(byte a * 256 + byte b) * 4"
  let ?ds = "[?n div 4096, ?n div 64 mod 64, ?n mod 64]"
  have "?n div 4096 < 64"
    using quantum2(1) [OF byte_le byte_le] .
  moreover have "((?n div 4096 * 64 + ?n div 64 mod 64) * 64 + ?n mod 64) div 4 = byte a * 256 + byte b"
    by (simp only: quantum2(2)) simp
  ultimately show ?case
    using byte_less [of b]
    by (intro exI [of _ ?ds]) (simp add: sextets_def Let_def)
next
  case (4 a b c s)
  then obtain ds where ds: "sextets (b64_encode s) ds" "b64_quanta ds = Some s" by blast
  define n where "n = (byte a * 256 + byte b) * 256 + byte c"
  let ?ds = "[n div 262144, n div 4096 mod 64, n div 64 mod 64, n mod 64]"
  have n: "((n div 262144 * 64 + n div 4096 mod 64) * 64 + n div 64 mod 64) * 64 + n mod 64 = n"
    by (rule quantum3(2))
  have "n div 256 = byte a * 256 + byte b" unfolding n_def by (rule div_glue) simp
  moreover from this have "n div 65536 = byte a"
    using div_mult2_eq [of n 256 256] by simp
  moreover have "char_of n = c" unfolding n_def by (rule char_of_glue)
  ultimately have "char_of (n div 65536) = a" "char_of (n div 256 mod 256) = b" "char_of (n mod 256) = c"
    by simp_all
  then have "b64_quanta (?ds @ ds) = Some (a # b # c # s)"
    by (simp only: append_Cons append_Nil b64_quanta.simps Let_def n ds(2)) simp
  moreover have "n div 262144 < 64"
    using quantum3(1) [OF byte_le byte_le byte_le] by (simp add: n_def)
  then have "sextets (b64_encode (a # b # c # s)) (?ds @ ds)"
    using ds(1) by (simp add: sextets_def Let_def n_def)
  ultimately show ?case by blast
qed

lemma b64_roundtrip [simp]: "b64_decode (b64_encode s) = Some s"
  using b64_encode_sextets [of s] b64_decode_sextets by metis

lemma b64_no_dot [simp]: "CHR ''.'' \<notin> set (b64_encode s)"
  using b64_encode_sextets [of s] b64_char_plain(3) by (fastforce simp: sextets_def)

lemma b64_encode_Nil [simp]: "b64_encode s = [] \<longleftrightarrow> s = []"
  by (cases s rule: b64_encode.cases) (simp_all add: Let_def)

section \<open>Decimal integers\<close>

definition digit_char :: "nat \<Rightarrow> char" where
  "digit_char d = char_of (48 + d)"

fun format_nat :: "nat \<Rightarrow> string" where
  "format_nat n = (if n < 10 then [digit_char n] else format_nat (n div 10) @ [digit_char (n mod 10)])"

declare format_nat.simps [simp del]

definition FormatInt :: "int \<Rightarrow> string" where
  "FormatInt i = (if i < 0 then CHR ''-'' # format_nat (nat (- i)) else format_nat (nat i))"

definition is_digit :: "char \<Rightarrow> bool" where
  "is_digit c \<longleftrightarrow> 48 \<le> byte c \<and> byte c \<le> 57"

definition digits_value :: "string \<Rightarrow> nat" where
  "digits_value s = fold (\<lambda>c n. n * 10 + (byte c - 48)) s 0"

text \<open>\<open>strconv.ParseInt(s, 10, 64)\<close>; every error is \<open>None\<close>.\<close>

definition ParseInt :: "string \<Rightarrow> int option" where
  "ParseInt s =
     (let (neg, ds) = (if s \<noteq> [] \<and> hd s = CHR ''-'' then (True, tl s)
                       else if s \<noteq> [] \<and> hd s = CHR ''+'' then (False, tl s) else (False, s)) in
      if ds = [] \<or> (\<exists>c\<in>set ds. \<not> is_digit c) then None
      else (let v = (if neg then - int (digits_value ds) else int (digits_value ds)) in
            if - (2 ^ 63) \<le> v \<and> v < 2 ^ 63 then Some v else None))"

lemma byte_digit_char [simp]: "d < 10 \<Longrightarrow> byte (digit_char d) = 48 + d"
  by (simp add: byte_def digit_char_def)

lemma format_nat_digits: "c \<in> set (format_nat n) \<Longrightarrow> is_digit c"
proof (induction n rule: format_nat.induct)
  case (1 n)
  then show ?case
    by (cases "n < 10") (auto simp: format_nat.simps [of n] is_digit_def)
qed

lemma format_nat_value: "digits_value (format_nat n) = n"
proof (induction n rule: format_nat.induct)
  case (1 n)
  then show ?case
    by (cases "n < 10") (auto simp: format_nat.simps [of n] digits_value_def)
qed

lemma format_nat_not_Nil [simp]: "format_nat n \<noteq> []"
  by (simp add: format_nat.simps [of n])

lemma format_nat_hd: "is_digit (hd (format_nat n))"
  using format_nat_digits [of "hd (format_nat n)" n] by simp

lemma ParseInt_FormatInt:
  assumes "- (2 ^ 63) \<le> i" and "i < 2 ^ 63"
  shows "ParseInt (FormatInt i) = Some i"
proof -
  have h: "hd (format_nat n) \<noteq> CHR ''-''" "hd (format_nat n) \<noteq> CHR ''+''" for n
    using format_nat_hd [of n] by (auto simp: is_digit_def byte_def)
  show ?thesis
    using assms h format_nat_digits
    by (auto simp: ParseInt_def FormatInt_def format_nat_value Let_def)
qed

lemma FormatInt_no_dot [simp]: "CHR ''.'' \<notin> set (FormatInt i)"
  by (auto simp: FormatInt_def is_digit_def byte_def dest!: format_nat_digits)

end
