(* ===== verification/Exec_Store.thy ===== *)
theory Exec_Store
  imports Registries
begin

text \<open>
  The executors and their workspace bindings: \<open>internal/codexexecgateway/store.go\<close> with
  the row types of \<open>execmodel/types.go\<close>, and the HTTP handlers over it,
  \<open>handlers/register.go\<close>, \<open>handlers/workspace_binding.go\<close> and
  \<open>handlers/internal_api.go\<close>.

  A table is its set of rows: \<open>executors\<close> a map from its primary key, \<open>workspace_executors\<close>
  a list.  Each operation is its SQL statement on the tables, constraints of
  \<open>migrations/*.sql\<close> included; a nullable column is an option.  The argument \<open>up\<close> says whether
  the database answers: when it does not, every operation reports an error and changes
  nothing.  \<open>NOW()\<close> is an argument.
\<close>

section \<open>Tables\<close>

record exec_row =
  ex_user :: string
  ex_display :: "string option"
  ex_desc :: "string option"
  ex_cwd :: "string option"
  ex_registered :: time
  ex_last_seen :: "time option"
  ex_ip :: "string option"
  ex_ua :: "string option"
  ex_version :: "string option"
  ex_os :: "string option"
  ex_connected :: "time option"
  ex_disconnected :: "time option"

record bind_row =
  we_workspace :: string
  we_exe :: string
  we_name :: string
  we_desc :: string
  we_default :: bool
  we_created :: time

record exec_db =
  executors :: "string \<rightharpoonup> exec_row"
  bindings :: "bind_row list"

datatype db_err = DbDown | DuplicateKey | ForeignKey | NameTaken

record Executor =
  ExeID :: string
  UserID :: string
  DisplayName :: string
  Description :: string
  DefaultCwd :: string
  RegisteredAt :: time
  LastSeenAt :: "time option"
  ClientIP :: string
  ClientUA :: string
  CodexVersion :: string
  OS :: string
  ConnectedAt :: "time option"
  DisconnectedAt :: "time option"

record ConnectedExecutor =
  c_exe :: string
  c_name :: string
  c_desc :: string
  c_default :: bool
  c_last_seen :: "time option"
  c_ip :: string
  c_ua :: string
  c_version :: string
  c_os :: string
  c_connected :: "time option"
  c_disconnected :: "time option"
  c_online :: bool

definition nullif_empty :: "string \<Rightarrow> string option" where
  "nullif_empty s = (if s = [] then None else Some s)"

definition coalesce :: "string option \<Rightarrow> string" where
  "coalesce v = (case v of None \<Rightarrow> [] | Some s \<Rightarrow> s)"

text \<open>\<open>COALESCE(NULLIF($n, ''), column)\<close>.\<close>

definition keep_if_empty :: "string \<Rightarrow> string option \<Rightarrow> string option" where
  "keep_if_empty new old = (if new = [] then old else Some new)"

section \<open>Operations of the store\<close>

definition CreateExecutor :: "bool \<Rightarrow> exec_db \<Rightarrow> Executor \<Rightarrow> db_err option \<times> exec_db" where
  "CreateExecutor up db e =
     (if \<not> up then (Some DbDown, db)
      else if executors db (ExeID e) \<noteq> None then (Some DuplicateKey, db)
      else (None, db\<lparr>executors := (executors db)(ExeID e \<mapsto>
              \<lparr>ex_user = UserID e, ex_display = nullif_empty (DisplayName e),
               ex_desc = nullif_empty (Description e), ex_cwd = nullif_empty (DefaultCwd e),
               ex_registered = RegisteredAt e, ex_last_seen = None, ex_ip = None, ex_ua = None,
               ex_version = None, ex_os = None, ex_connected = None, ex_disconnected = None\<rparr>)\<rparr>))"

definition GetExecutor :: "bool \<Rightarrow> exec_db \<Rightarrow> string \<Rightarrow> db_err + Executor option" where
  "GetExecutor up db exeID =
     (if \<not> up then Inl DbDown
      else Inr (map_option (\<lambda>r.
        \<lparr>ExeID = exeID, UserID = ex_user r, DisplayName = coalesce (ex_display r),
         Description = coalesce (ex_desc r), DefaultCwd = coalesce (ex_cwd r),
         RegisteredAt = ex_registered r, LastSeenAt = ex_last_seen r,
         ClientIP = coalesce (ex_ip r), ClientUA = coalesce (ex_ua r),
         CodexVersion = coalesce (ex_version r), OS = coalesce (ex_os r),
         ConnectedAt = ex_connected r, DisconnectedAt = ex_disconnected r\<rparr>) (executors db exeID)))"

definition update_exec :: "exec_db \<Rightarrow> string \<Rightarrow> (exec_row \<Rightarrow> exec_row) \<Rightarrow> exec_db" where
  "update_exec db exeID f =
     (case executors db exeID of
        None \<Rightarrow> db
      | Some r \<Rightarrow> db\<lparr>executors := (executors db)(exeID \<mapsto> f r)\<rparr>)"

definition set_client_meta :: "string \<Rightarrow> string \<Rightarrow> string \<Rightarrow> string \<Rightarrow> exec_row \<Rightarrow> exec_row" where
  "set_client_meta ip ua ver os r =
     r\<lparr>ex_ip := keep_if_empty ip (ex_ip r), ex_ua := keep_if_empty ua (ex_ua r),
       ex_version := keep_if_empty ver (ex_version r), ex_os := keep_if_empty os (ex_os r)\<rparr>"

definition UpdateClientMetaFromRegister ::
  "bool \<Rightarrow> exec_db \<Rightarrow> string \<Rightarrow> string \<Rightarrow> string \<Rightarrow> string \<Rightarrow> string \<Rightarrow> db_err option \<times> exec_db" where
  "UpdateClientMetaFromRegister up db exeID ip ua ver os =
     (if \<not> up then (Some DbDown, db)
      else (None, update_exec db exeID (set_client_meta ip ua ver os)))"

definition UpdateLastSeen :: "bool \<Rightarrow> time \<Rightarrow> exec_db \<Rightarrow> string \<Rightarrow> db_err option \<times> exec_db" where
  "UpdateLastSeen up now db exeID =
     (if \<not> up then (Some DbDown, db)
      else (None, update_exec db exeID (\<lambda>r. r\<lparr>ex_last_seen := Some now\<rparr>)))"

definition MarkConnected ::
  "bool \<Rightarrow> time \<Rightarrow> exec_db \<Rightarrow> string \<Rightarrow> string \<Rightarrow> string \<Rightarrow> string \<Rightarrow> string \<Rightarrow> db_err option \<times> exec_db"
where
  "MarkConnected up now db exeID ip ua ver os =
     (if \<not> up then (Some DbDown, db)
      else (None, update_exec db exeID (\<lambda>r. (set_client_meta ip ua ver os r)
              \<lparr>ex_last_seen := Some now, ex_connected := Some now, ex_disconnected := None\<rparr>)))"

definition MarkDisconnected :: "bool \<Rightarrow> time \<Rightarrow> exec_db \<Rightarrow> string \<Rightarrow> db_err option \<times> exec_db" where
  "MarkDisconnected up now db exeID =
     (if \<not> up then (Some DbDown, db)
      else (None, update_exec db exeID (\<lambda>r. r\<lparr>ex_disconnected := Some now\<rparr>)))"

definition upsert_row :: "string \<Rightarrow> string \<Rightarrow> string \<Rightarrow> string \<Rightarrow> bool \<Rightarrow> bind_row \<Rightarrow> bind_row" where
  "upsert_row ws exe name desc dflt r =
     (if we_workspace r = ws \<and> we_exe r = exe
      then r\<lparr>we_name := name, we_desc := desc, we_default := dflt\<rparr> else r)"

text \<open>
  The upsert of \<open>BindWorkspaceExecutor\<close>: a row of the same key is updated in place, else a
  row is appended; the name is unique among the rows of the workspace, and the executor
  must exist.
\<close>

definition BindWorkspaceExecutor ::
  "bool \<Rightarrow> time \<Rightarrow> exec_db \<Rightarrow> string \<Rightarrow> string \<Rightarrow> string \<Rightarrow> string \<Rightarrow> bool \<Rightarrow> db_err option \<times> exec_db"
where
  "BindWorkspaceExecutor up now db ws exe name desc dflt =
     (let same = (\<lambda>r. we_workspace r = ws \<and> we_exe r = exe) in
      if \<not> up then (Some DbDown, db)
      else if list_ex (\<lambda>r. we_workspace r = ws \<and> we_exe r \<noteq> exe \<and> we_name r = name) (bindings db)
           then (Some NameTaken, db)
      else if list_ex same (bindings db)
           then (None, db\<lparr>bindings := map (upsert_row ws exe name desc dflt) (bindings db)\<rparr>)
      else if executors db exe = None then (Some ForeignKey, db)
      else (None, db\<lparr>bindings := bindings db @
              [\<lparr>we_workspace = ws, we_exe = exe, we_name = name, we_desc = desc,
                we_default = dflt, we_created = now\<rparr>]\<rparr>))"

definition OwnsExecutor :: "bool \<Rightarrow> exec_db \<Rightarrow> string \<Rightarrow> string \<Rightarrow> db_err + bool" where
  "OwnsExecutor up db ws exe =
     (if \<not> up then Inl DbDown
      else Inr (0 < length (filter (\<lambda>r. we_workspace r = ws \<and> we_exe r = exe) (bindings db))))"

definition db_DeleteExecutor :: "bool \<Rightarrow> exec_db \<Rightarrow> string \<Rightarrow> db_err option \<times> exec_db" where
  "db_DeleteExecutor up db exe =
     (if \<not> up then (Some DbDown, db)
      else (None, \<lparr>executors = (executors db)(exe := None),
                   bindings = filter (\<lambda>r. we_exe r \<noteq> exe) (bindings db)\<rparr>))"

definition UnbindWorkspaceExecutor ::
  "bool \<Rightarrow> exec_db \<Rightarrow> string \<Rightarrow> string \<Rightarrow> db_err option \<times> exec_db" where
  "UnbindWorkspaceExecutor up db ws exe =
     (if \<not> up then (Some DbDown, db)
      else (None, db\<lparr>bindings := filter (\<lambda>r. \<not> (we_workspace r = ws \<and> we_exe r = exe)) (bindings db)\<rparr>))"

definition join_row :: "bind_row \<Rightarrow> exec_row \<Rightarrow> ConnectedExecutor" where
  "join_row we e =
     \<lparr>c_exe = we_exe we, c_name = we_name we, c_desc = we_desc we, c_default = we_default we,
      c_last_seen = ex_last_seen e, c_ip = coalesce (ex_ip e), c_ua = coalesce (ex_ua e),
      c_version = coalesce (ex_version e), c_os = coalesce (ex_os e),
      c_connected = ex_connected e, c_disconnected = ex_disconnected e, c_online = False\<rparr>"

definition ListWorkspaceExecutors :: "bool \<Rightarrow> exec_db \<Rightarrow> string \<Rightarrow> db_err + ConnectedExecutor list" where
  "ListWorkspaceExecutors up db ws =
     (if \<not> up then Inl DbDown
      else Inr (List.map_filter
        (\<lambda>we. map_option (join_row we) (executors db (we_exe we)))
        (sort_key we_created (filter (\<lambda>we. we_workspace we = ws) (bindings db)))))"

definition UserIDForExecutor :: "bool \<Rightarrow> exec_db \<Rightarrow> string \<Rightarrow> db_err + string" where
  "UserIDForExecutor up db exe =
     (if \<not> up then Inl DbDown
      else Inr (case executors db exe of None \<Rightarrow> [] | Some r \<Rightarrow> ex_user r))"

definition ConnectedExecutorsForWorkspace ::
  "bool \<Rightarrow> exec_db \<Rightarrow> string \<Rightarrow> string set \<Rightarrow> db_err + ConnectedExecutor list" where
  "ConnectedExecutorsForWorkspace up db ws connectedIDs =
     map_sum id (filter (\<lambda>c. c_exe c \<in> connectedIDs)) (ListWorkspaceExecutors up db ws)"

section \<open>HTTP handlers\<close>

text \<open>A reply is its status and, where the code writes one, its body.\<close>

datatype 'b reply = Reply nat 'b | ErrorReply nat string

fun status :: "'b reply \<Rightarrow> nat" where
  "status (Reply n _) = n"
| "status (ErrorReply n _) = n"

text \<open>
  \<open>Register\<close>: \<open>uid\<close> is the value of \<open>uuid.NewString()\<close>; the body is its decoded
  \<open>display_name\<close>, or \<open>None\<close> when it is not valid JSON.
\<close>

definition RegisterHandler ::
  "bool \<Rightarrow> time \<Rightarrow> string \<Rightarrow> exec_db \<Rightarrow> string \<Rightarrow> string option \<Rightarrow> string reply \<times> exec_db" where
  "RegisterHandler up now uid db userID body =
     (if userID = [] then (ErrorReply 401 ''missing user'', db)
      else (case body of
              None \<Rightarrow> (ErrorReply 400 ''invalid JSON'', db)
            | Some display \<Rightarrow>
                (let exe = \<lparr>ExeID = ''exe_'' @ uid, UserID = userID, DisplayName = display,
                            Description = [], DefaultCwd = [], RegisteredAt = now,
                            LastSeenAt = None, ClientIP = [], ClientUA = [], CodexVersion = [],
                            OS = [], ConnectedAt = None, DisconnectedAt = None\<rparr> in
                 case CreateExecutor up db exe of
                   (Some e, db') \<Rightarrow> (ErrorReply 500 ''create executor'', db')
                 | (None, db') \<Rightarrow> (Reply 201 (ExeID exe), db'))))"

definition DeleteExecutorHandler :: "bool \<Rightarrow> exec_db \<Rightarrow> string \<Rightarrow> unit reply \<times> exec_db" where
  "DeleteExecutorHandler up db exeID =
     (if exeID = [] then (ErrorReply 400 ''exe_id required'', db)
      else (case db_DeleteExecutor up db exeID of
              (Some e, db') \<Rightarrow> (ErrorReply 500 ''delete'', db')
            | (None, db') \<Rightarrow> (Reply 204 (), db')))"

record bindRequest =
  br_exe :: string
  br_name :: string
  br_desc :: string
  br_default :: bool

definition PostBinding ::
  "bool \<Rightarrow> time \<Rightarrow> exec_db \<Rightarrow> string \<Rightarrow> bindRequest option \<Rightarrow> unit reply \<times> exec_db" where
  "PostBinding up now db wid body =
     (case body of
        None \<Rightarrow> (ErrorReply 400 ''invalid JSON'', db)
      | Some req \<Rightarrow>
          if br_exe req = [] then (ErrorReply 400 ''exe_id required'', db)
          else if br_name req = [] then (ErrorReply 400 ''name required'', db)
          else (case BindWorkspaceExecutor up now db wid (br_exe req) (br_name req) (br_desc req)
                       (br_default req) of
                  (Some e, db') \<Rightarrow>
                    (ErrorReply 409 ''bind failed (name may already be taken in this workspace)'', db')
                | (None, db') \<Rightarrow> (Reply 201 (), db')))"

definition DeleteBinding :: "bool \<Rightarrow> exec_db \<Rightarrow> string \<Rightarrow> string \<Rightarrow> unit reply \<times> exec_db" where
  "DeleteBinding up db wid exeID =
     (case UnbindWorkspaceExecutor up db wid exeID of
        (Some e, db') \<Rightarrow> (ErrorReply 500 ''unbind'', db')
      | (None, db') \<Rightarrow> (Reply 204 (), db'))"

definition ListBinding ::
  "bool \<Rightarrow> exec_db \<Rightarrow> string set option \<Rightarrow> string \<Rightarrow> ConnectedExecutor list reply" where
  "ListBinding up db online wid =
     (case ListWorkspaceExecutors up db wid of
        Inl e \<Rightarrow> ErrorReply 500 ''list''
      | Inr rows \<Rightarrow> Reply 200 (case online of
            None \<Rightarrow> rows
          | Some ids \<Rightarrow> map (\<lambda>c. c\<lparr>c_online := c_exe c \<in> ids\<rparr>) rows))"

definition Connected :: "bool \<Rightarrow> exec_db \<Rightarrow> 'c conn_table \<Rightarrow> string \<Rightarrow> ConnectedExecutor list reply" where
  "Connected up db reg wid =
     (if wid = [] then ErrorReply 400 ''workspace_id required''
      else (case ConnectedExecutorsForWorkspace up db wid (ConnectedIDs reg) of
              Inl e \<Rightarrow> ErrorReply 500 ''list''
            | Inr rows \<Rightarrow> Reply 200 rows))"

section \<open>Invariant\<close>

text \<open>The constraints the schema declares: the two unique keys and the foreign key.\<close>

definition db_inv :: "exec_db \<Rightarrow> bool" where
  "db_inv db \<longleftrightarrow>
     distinct (map (\<lambda>r. (we_workspace r, we_exe r)) (bindings db)) \<and>
     distinct (map (\<lambda>r. (we_workspace r, we_name r)) (bindings db)) \<and>
     (\<forall>r\<in>set (bindings db). executors db (we_exe r) \<noteq> None)"

definition bound :: "exec_db \<Rightarrow> (string \<times> string) set" where
  "bound db = (\<lambda>r. (we_workspace r, we_exe r)) ` set (bindings db)"

definition empty_db :: exec_db where
  "empty_db = \<lparr>executors = Map.empty, bindings = []\<rparr>"

lemma update_exec_simps [simp]:
  "bindings (update_exec db e f) = bindings db"
  "executors (update_exec db e f) x =
     (if x = e then map_option f (executors db e) else executors db x)"
  by (auto simp: update_exec_def split: option.splits)

lemma inv_update: "db_inv db \<Longrightarrow> db_inv (update_exec db e f)"
  by (auto simp: db_inv_def)

lemma inv_create: "db_inv db \<Longrightarrow> db_inv (snd (CreateExecutor up db e))"
  by (auto simp: db_inv_def CreateExecutor_def)

lemma inv_delete: "db_inv db \<Longrightarrow> db_inv (snd (db_DeleteExecutor up db e))"
  by (auto simp: db_inv_def db_DeleteExecutor_def distinct_map_filter)

lemma inv_unbind: "db_inv db \<Longrightarrow> db_inv (snd (UnbindWorkspaceExecutor up db ws e))"
  by (auto simp: db_inv_def UnbindWorkspaceExecutor_def distinct_map_filter)

lemma upsert_row_simps [simp]:
  "we_workspace (upsert_row ws exe n d f r) = we_workspace r"
  "we_exe (upsert_row ws exe n d f r) = we_exe r"
  "we_name (upsert_row ws exe n d f r) =
     (if we_workspace r = ws \<and> we_exe r = exe then n else we_name r)"
  by (simp_all add: upsert_row_def)

lemma inv_upsert:
  assumes inv: "db_inv db"
    and fresh: "\<forall>r\<in>set (bindings db). we_workspace r = ws \<longrightarrow> we_exe r \<noteq> exe \<longrightarrow> we_name r \<noteq> name"
  shows "db_inv (db\<lparr>bindings := map (upsert_row ws exe name desc d) (bindings db)\<rparr>)"
proof -
  have k: "inj_on (\<lambda>r. (we_workspace r, we_exe r)) (set (bindings db))"
    and n: "inj_on (\<lambda>r. (we_workspace r, we_name r)) (set (bindings db))"
    using inv by (simp_all add: db_inv_def distinct_map)
  have "inj_on (\<lambda>r. (we_workspace r, if we_workspace r = ws \<and> we_exe r = exe then name else we_name r))
      (set (bindings db))"
  proof (rule inj_onI)
    fix x y assume xy: "x \<in> set (bindings db)" "y \<in> set (bindings db)"
      "(we_workspace x, if we_workspace x = ws \<and> we_exe x = exe then name else we_name x) =
       (we_workspace y, if we_workspace y = ws \<and> we_exe y = exe then name else we_name y)"
    then have "we_exe x = we_exe y \<or> we_name x = we_name y"
      using fresh by (auto split: if_splits)
    then show "x = y"
      using inj_onD [OF k _ xy(1,2)] inj_onD [OF n _ xy(1,2)] xy(3) by auto
  qed
  then show ?thesis using inv by (simp add: db_inv_def comp_def distinct_map)
qed

lemma inv_bind:
  "db_inv db \<Longrightarrow> db_inv (snd (BindWorkspaceExecutor up now db ws exe name desc d))"
  using inv_upsert [of db ws exe name desc d]
  by (force simp: BindWorkspaceExecutor_def Let_def db_inv_def list_ex_iff)

lemma bound_bind:
  assumes "fst (BindWorkspaceExecutor up now db ws exe name desc d) = None"
  shows "bound (snd (BindWorkspaceExecutor up now db ws exe name desc d)) = insert (ws, exe) (bound db)"
proof (cases "\<exists>r\<in>set (bindings db). we_workspace r = ws \<and> we_exe r = exe")
  case True
  then have "(ws, exe) \<in> bound db" by (force simp: bound_def)
  with True assms show ?thesis
    by (auto simp: BindWorkspaceExecutor_def Let_def list_ex_iff bound_def image_image
        split: if_splits)
next
  case False
  with assms show ?thesis
    by (auto simp: BindWorkspaceExecutor_def Let_def list_ex_iff bound_def split: if_splits)
qed

lemma bind_error_same:
  "fst (BindWorkspaceExecutor up now db ws exe name desc d) \<noteq> None \<Longrightarrow>
   snd (BindWorkspaceExecutor up now db ws exe name desc d) = db"
  by (auto simp: BindWorkspaceExecutor_def Let_def split: if_splits)

lemma OwnsExecutor_bound: "OwnsExecutor True db ws exe = Inr ((ws, exe) \<in> bound db)"
  by (force simp: OwnsExecutor_def bound_def filter_empty_conv)

section \<open>Histories\<close>

datatype store_op =
    SRegister bool time string string "string option"
  | SDeleteExec bool string
  | SBind bool time string "bindRequest option"
  | SUnbind bool string string
  | SMeta bool string string string string string
  | SConnected bool time string string string string string
  | SDisconnected bool time string
  | SLastSeen bool time string

fun store_step :: "store_op \<Rightarrow> exec_db \<Rightarrow> exec_db" where
  "store_step (SRegister up now uid user body) db = snd (RegisterHandler up now uid db user body)"
| "store_step (SDeleteExec up exe) db = snd (DeleteExecutorHandler up db exe)"
| "store_step (SBind up now wid body) db = snd (PostBinding up now db wid body)"
| "store_step (SUnbind up wid exe) db = snd (DeleteBinding up db wid exe)"
| "store_step (SMeta up exe ip ua ver os) db =
     snd (UpdateClientMetaFromRegister up db exe ip ua ver os)"
| "store_step (SConnected up now exe ip ua ver os) db = snd (MarkConnected up now db exe ip ua ver os)"
| "store_step (SDisconnected up now exe) db = snd (MarkDisconnected up now db exe)"
| "store_step (SLastSeen up now exe) db = snd (UpdateLastSeen up now db exe)"

lemma snd_handlers:
  "snd (PostBinding up now db wid (Some req)) =
     (if br_exe req = [] \<or> br_name req = [] then db
      else snd (BindWorkspaceExecutor up now db wid (br_exe req) (br_name req) (br_desc req)
             (br_default req)))"
  "snd (DeleteBinding up db wid exe) = snd (UnbindWorkspaceExecutor up db wid exe)"
  "snd (DeleteExecutorHandler up db exe) =
     (if exe = [] then db else snd (db_DeleteExecutor up db exe))"
  by (auto simp: PostBinding_def DeleteBinding_def DeleteExecutorHandler_def
      split: prod.splits option.splits)

lemma snd_register:
  "snd (RegisterHandler up now uid db user body) = db \<or>
   (\<exists>e. snd (RegisterHandler up now uid db user body) = snd (CreateExecutor up db e))"
proof (cases body)
  case (Some d)
  have "snd (case CreateExecutor up db e of (Some _, db') \<Rightarrow> (ErrorReply 500 ''create executor'', db')
      | (None, db') \<Rightarrow> (Reply 201 (ExeID e), db')) = snd (CreateExecutor up db e)" for e
    by (auto split: prod.splits option.splits)
  with Some show ?thesis by (auto simp: RegisterHandler_def Let_def)
qed (simp add: RegisterHandler_def)

lemma store_step_inv: "db_inv db \<Longrightarrow> db_inv (store_step op db)"
proof (cases op)
  case (SRegister up now uid user body)
  assume "db_inv db"
  with snd_register [of up now uid db user body] SRegister show ?thesis
    by (auto intro: inv_create)
next
  case (SBind up now wid body)
  assume "db_inv db"
  with SBind show ?thesis
    by (cases body) (auto simp: snd_handlers inv_bind, simp add: PostBinding_def)
qed (auto simp: snd_handlers inv_delete inv_unbind inv_update UpdateClientMetaFromRegister_def
    MarkConnected_def MarkDisconnected_def UpdateLastSeen_def)

lemma store_run_inv: "db_inv db \<Longrightarrow> db_inv (fold store_step ops db)"
  by (induction ops arbitrary: db) (simp_all add: store_step_inv)

lemma empty_db_inv: "db_inv empty_db"
  by (simp add: db_inv_def empty_db_def)

section \<open>Properties\<close>

lemma list_rows:
  assumes inv: "db_inv db"
  shows "ListWorkspaceExecutors True db ws =
    Inr (map (\<lambda>we. join_row we (the (executors db (we_exe we))))
      (sort_key we_created (filter (\<lambda>we. we_workspace we = ws) (bindings db))))"
proof -
  have "List.map_filter (\<lambda>we. map_option (join_row we) (executors db (we_exe we))) rows =
      map (\<lambda>we. join_row we (the (executors db (we_exe we)))) rows"
    if "set rows \<subseteq> set (bindings db)" for rows
    using that inv by (induction rows) (auto simp: map_filter_simps db_inv_def)
  then show ?thesis by (auto simp: ListWorkspaceExecutors_def)
qed

lemma map_join_row:
  "map c_exe (map (\<lambda>we. join_row we (f we)) rows) = map we_exe rows"
  "map c_name (map (\<lambda>we. join_row we (f we)) rows) = map we_name rows"
  by (simp_all add: join_row_def)

lemma distinct_of_workspace:
  assumes "distinct (map (\<lambda>r. (we_workspace r, f r)) rows)"
  shows "distinct (map f (sort_key we_created (filter (\<lambda>r. we_workspace r = ws) rows)))"
proof -
  have "inj_on f (set (filter (\<lambda>r. we_workspace r = ws) rows))"
    using assms by (auto simp: distinct_map inj_on_def)
  moreover have "distinct rows" using assms by (simp add: distinct_map)
  ultimately show ?thesis by (simp add: distinct_map)
qed

text \<open>After any history of registrations, bindings, removals and metadata updates, with
  the database failing at any point, the listing of a workspace's connected executors names
  every bound and connected executor exactly once, and no two of them by the same name.\<close>

theorem connected_listing:
  "\<exists>rows. ConnectedExecutorsForWorkspace True (fold store_step ops empty_db) ws ids = Inr rows \<and>
     set (map c_exe rows) = {exe. (ws, exe) \<in> bound (fold store_step ops empty_db) \<and> exe \<in> ids} \<and>
     distinct (map c_exe rows) \<and> distinct (map c_name rows)"
proof -
  let ?db = "fold store_step ops empty_db"
  let ?rows = "map (\<lambda>we. join_row we (the (executors ?db (we_exe we))))
      (sort_key we_created (filter (\<lambda>we. we_workspace we = ws) (bindings ?db)))"
  have inv: "db_inv ?db" by (rule store_run_inv [OF empty_db_inv])
  have "distinct (map c_exe ?rows)" "distinct (map c_name ?rows)"
    using inv distinct_of_workspace [of we_exe] distinct_of_workspace [of we_name]
    unfolding map_join_row db_inv_def by blast+
  moreover have "set (map c_exe (filter (\<lambda>c. c_exe c \<in> ids) ?rows)) =
      {exe. (ws, exe) \<in> bound ?db \<and> exe \<in> ids}"
    by (force simp: bound_def join_row_def)
  ultimately show ?thesis
    by (auto simp: ConnectedExecutorsForWorkspace_def list_rows [OF inv] distinct_map_filter)
qed

text \<open>The ownership specification: the bindings after an operation, from those before it.\<close>

fun bound_after :: "store_op \<Rightarrow> exec_db \<Rightarrow> (string \<times> string) set" where
  "bound_after (SBind up now wid (Some req)) db =
     (if status (fst (PostBinding up now db wid (Some req))) = 201
      then insert (wid, br_exe req) (bound db) else bound db)"
| "bound_after (SUnbind up wid exe) db = (if up then bound db - {(wid, exe)} else bound db)"
| "bound_after (SDeleteExec up exe) db =
     (if up \<and> exe \<noteq> [] then {p \<in> bound db. snd p \<noteq> exe} else bound db)"
| "bound_after _ db = bound db"

lemma bound_post_binding:
  "bound (snd (PostBinding up now db wid (Some req))) = bound_after (SBind up now wid (Some req)) db"
proof (cases "br_exe req = [] \<or> br_name req = []")
  case True
  then show ?thesis by (auto simp: PostBinding_def)
next
  case False
  let ?b = "BindWorkspaceExecutor up now db wid (br_exe req) (br_name req) (br_desc req) (br_default req)"
  have "status (fst (PostBinding up now db wid (Some req))) = 201 \<longleftrightarrow> fst ?b = None"
    using False by (auto simp: PostBinding_def split: prod.splits option.splits)
  with False show ?thesis
    using bound_bind [of up now db wid "br_exe req"] bind_error_same [of up now db wid "br_exe req"]
    by (auto simp: snd_handlers)
qed

text \<open>Who owns an executor is decided by the bindings alone.  Binding adds exactly the
  one pair when it succeeds and changes nothing when it fails, unbinding removes exactly the
  one pair, deleting an executor takes it out of every workspace, and no other operation of
  the store touches ownership.\<close>

theorem ownership_step:
  "bound (store_step op db) = bound_after op db \<and>
   OwnsExecutor True db ws exe = Inr ((ws, exe) \<in> bound db)"
proof (rule conjI [OF _ OwnsExecutor_bound], cases op)
  case (SRegister up now uid user body)
  have "bound (snd (CreateExecutor up db e)) = bound db" for e
    by (auto simp: CreateExecutor_def bound_def)
  with snd_register [of up now uid db user body] SRegister
  show "bound (store_step op db) = bound_after op db" by auto
next
  case (SBind up now wid body)
  show "bound (store_step op db) = bound_after op db"
  proof (cases body)
    case None
    with SBind show ?thesis by (simp add: PostBinding_def)
  next
    case (Some req)
    with SBind show ?thesis using bound_post_binding [of up now db wid req] by simp
  qed
qed (auto simp: snd_handlers bound_def UpdateClientMetaFromRegister_def
    MarkConnected_def MarkDisconnected_def UpdateLastSeen_def UnbindWorkspaceExecutor_def
    db_DeleteExecutor_def)

text \<open>The client metadata captured when an executor registers survives its later
  connections: a connect without a user agent keeps every column it has no value for, marks
  the executor connected, and the following disconnect changes only the disconnect time.\<close>

theorem client_meta_survives:
  fixes ip ipc :: string and tc td :: time
  assumes "executors db exe \<noteq> None" and "ua \<noteq> []" and "ver \<noteq> []" and "os \<noteq> []"
  defines "db1 \<equiv> snd (UpdateClientMetaFromRegister True db exe ip ua ver os)"
  defines "db2 \<equiv> snd (MarkConnected True tc db1 exe ipc [] [] [])"
  defines "db3 \<equiv> snd (MarkDisconnected True td db2 exe)"
  shows "\<exists>e. GetExecutor True db3 exe = Inr (Some e) \<and> ClientUA e = ua \<and> CodexVersion e = ver \<and>
     OS e = os \<and> LastSeenAt e = Some tc \<and> ConnectedAt e = Some tc \<and> DisconnectedAt e = Some td \<and>
     (ipc \<noteq> [] \<longrightarrow> ClientIP e = ipc) \<and>
     GetExecutor True db2 exe = Inr (Some (e\<lparr>DisconnectedAt := None\<rparr>))"
proof -
  obtain r where r: "executors db exe = Some r" using assms(1) by auto
  define r1 where "r1 = set_client_meta ip ua ver os r"
  define r2 where "r2 = (set_client_meta ipc [] [] [] r1)
    \<lparr>ex_last_seen := Some tc, ex_connected := Some tc, ex_disconnected := None\<rparr>"
  have "executors db1 exe = Some r1"
    by (simp add: db1_def r r1_def UpdateClientMetaFromRegister_def)
  then have e2: "executors db2 exe = Some r2"
    by (simp add: db2_def r2_def MarkConnected_def)
  then have e3: "executors db3 exe = Some (r2\<lparr>ex_disconnected := Some td\<rparr>)"
    by (simp add: db3_def MarkDisconnected_def)
  show ?thesis
    using assms(2-4)
    by (simp add: GetExecutor_def e2 e3)
       (simp add: r2_def r1_def set_client_meta_def keep_if_empty_def coalesce_def)
qed

theorem client_meta_survives_witness:
  "\<exists>e db2. GetExecutor True db2 ''exe_1'' = Inr (Some (e\<lparr>DisconnectedAt := None\<rparr>)) \<and>
     ClientUA e = ''ua'' \<and> DisconnectedAt e = Some 7"
proof -
  let ?db = "snd (RegisterHandler True 1 ''1'' empty_db ''u'' (Some ''d''))"
  have "executors ?db ''exe_1'' \<noteq> None"
    by (simp add: RegisterHandler_def CreateExecutor_def empty_db_def Let_def)
  from client_meta_survives [OF this, where ua = "''ua''" and ver = "''v''" and os = "''l''"
      and ip = "''i''" and ipc = "[]" and tc = 5 and td = 7]
  show ?thesis by simp blast
qed

end
