(* ===== verification/Exec_Auth.thy ===== *)
theory Exec_Auth
  imports Go_Encoding Revoked_Set Exec_Store
begin

text \<open>
  Who may use an executor: the capability tokens of \<open>internal/codexappgateway/captoken.go\<close>,
  \<open>internal/codexexecgateway/sdk/captoken.go\<close> and \<open>codexexecgateway/auth.go\<close>, the tickets of
  \<open>handlers/ws_ticket.go\<close>, the revocation endpoint, the registration endpoint of
  \<open>handlers/cloud_register.go\<close> and the admission checks of \<open>bridge.go\<close> and \<open>inbound.go\<close>.

  The message authentication code (HMAC-SHA256) is a function \<open>mac\<close> of secret and message,
  and the JSON codec of the token payload a pair of functions; what a property needs of
  them it states.  Base 64 and decimal numbers are the ones of \<open>Go_Encoding\<close>.
\<close>

section \<open>Capability tokens\<close>

record CapPayload =
  cp_turn :: string
  cp_workspace :: string
  cp_iat :: time
  cp_exp :: time

datatype cap_err = ErrMalformed | ErrBadSignature | ErrExpired

datatype mint_err = EmptySecret | MissingArgument

type_synonym hmac = "string \<Rightarrow> string \<Rightarrow> string"

definition dot :: char where "dot = CHR ''.''"

definition cap_header :: string where
  "cap_header = [CHR 0x7B, CHR 0x22] @ ''alg'' @ [CHR 0x22, CHR '':'', CHR 0x22] @ ''HS256'' @
     [CHR 0x22, CHR '','', CHR 0x22] @ ''typ'' @ [CHR 0x22, CHR '':'', CHR 0x22] @ ''CXG'' @
     [CHR 0x22, CHR 0x7D]"

definition sign_cap :: "hmac \<Rightarrow> (CapPayload \<Rightarrow> string) \<Rightarrow> string \<Rightarrow> CapPayload \<Rightarrow> string" where
  "sign_cap mac marshal secret p =
     (let headerB64 = b64_encode cap_header; payloadB64 = b64_encode (marshal p) in
      headerB64 @ [dot] @ payloadB64 @ [dot] @
      b64_encode (mac secret (headerB64 @ [dot] @ payloadB64)))"

text \<open>\<open>ttl\<close> is the value of \<open>int64(ttl.Seconds())\<close>.\<close>

definition MintCapToken ::
  "hmac \<Rightarrow> (CapPayload \<Rightarrow> string) \<Rightarrow> time \<Rightarrow> string \<Rightarrow> string \<Rightarrow> string \<Rightarrow> time \<Rightarrow> mint_err + string" where
  "MintCapToken mac marshal now secret turnID workspaceID ttl =
     (if secret = [] then Inl EmptySecret
      else if turnID = [] \<or> workspaceID = [] then Inl MissingArgument
      else Inr (sign_cap mac marshal secret
             \<lparr>cp_turn = turnID, cp_workspace = workspaceID, cp_iat = now, cp_exp = now + ttl\<rparr>))"

definition sdkCapTokenTTL :: time where
  "sdkCapTokenTTL = 86400"

definition mintWorkspaceToken ::
  "hmac \<Rightarrow> (CapPayload \<Rightarrow> string) \<Rightarrow> time \<Rightarrow> string \<Rightarrow> string \<Rightarrow> mint_err + string" where
  "mintWorkspaceToken mac marshal now secret workspaceID =
     (if secret = [] then Inl EmptySecret
      else if workspaceID = [] then Inl MissingArgument
      else Inr (sign_cap mac marshal secret
             \<lparr>cp_turn = ''sdk'', cp_workspace = workspaceID, cp_iat = now,
              cp_exp = now + sdkCapTokenTTL\<rparr>))"

text \<open>
  \<open>parseHeader\<close> yields the \<open>alg\<close> and \<open>typ\<close> fields of a JSON header, \<open>unmarshal\<close> the payload;
  \<open>None\<close> is a decoding error.
\<close>

definition VerifyCapabilityToken ::
  "hmac \<Rightarrow> (string \<Rightarrow> (string \<times> string) option) \<Rightarrow> (string \<Rightarrow> CapPayload option) \<Rightarrow> time \<Rightarrow>
   string \<Rightarrow> string \<Rightarrow> cap_err + CapPayload"
where
  "VerifyCapabilityToken mac parseHeader unmarshal now token secret =
     (case Split dot token of
        [headerB64, payloadB64, sigB64] \<Rightarrow>
          if headerB64 = [] \<or> payloadB64 = [] \<or> sigB64 = [] then Inl ErrMalformed
          else (case b64_decode headerB64 of
            None \<Rightarrow> Inl ErrMalformed
          | Some headerBytes \<Rightarrow>
              (case parseHeader headerBytes of
                 None \<Rightarrow> Inl ErrMalformed
               | Some (alg, typ) \<Rightarrow>
                   if alg \<noteq> ''HS256'' \<or> typ \<noteq> ''CXG'' then Inl ErrMalformed
                   else (case b64_decode sigB64 of
                     None \<Rightarrow> Inl ErrMalformed
                   | Some gotSig \<Rightarrow>
                       if gotSig \<noteq> mac secret (headerB64 @ [dot] @ payloadB64)
                       then Inl ErrBadSignature
                       else (case b64_decode payloadB64 of
                         None \<Rightarrow> Inl ErrMalformed
                       | Some payloadBytes \<Rightarrow>
                           (case unmarshal payloadBytes of
                              None \<Rightarrow> Inl ErrMalformed
                            | Some payload \<Rightarrow>
                                if now > cp_exp payload then Inl ErrExpired
                                else Inr payload)))))
      | _ \<Rightarrow> Inl ErrMalformed)"

section \<open>Tickets of the inbound connection\<close>

definition wsTicketTTL :: time where
  "wsTicketTTL = 300"

datatype ticket_err =
    SecretNotConfigured | MalformedTicket | ExeMismatch | BadExpiry | TicketExpired
  | BadSigEncoding | BadTicketSignature

definition MintWSTicket :: "hmac \<Rightarrow> time \<Rightarrow> string \<Rightarrow> string \<Rightarrow> ticket_err + string" where
  "MintWSTicket mac now exeID secret =
     (if secret = [] then Inl SecretNotConfigured
      else (let payload = exeID @ [dot] @ FormatInt (now + wsTicketTTL) in
            Inr (payload @ [dot] @ b64_encode (mac secret payload))))"

definition VerifyWSTicket ::
  "hmac \<Rightarrow> time \<Rightarrow> string \<Rightarrow> string \<Rightarrow> string \<Rightarrow> ticket_err option" where
  "VerifyWSTicket mac now ticket expectedExeID secret =
     (if secret = [] then Some SecretNotConfigured
      else (case Split dot ticket of
        [exeID, expStr, sigB64] \<Rightarrow>
          if exeID \<noteq> expectedExeID then Some ExeMismatch
          else (case ParseInt expStr of
            None \<Rightarrow> Some BadExpiry
          | Some exp \<Rightarrow>
              if now \<ge> exp then Some TicketExpired
              else (case b64_decode sigB64 of
                None \<Rightarrow> Some BadSigEncoding
              | Some gotSig \<Rightarrow>
                  if mac secret (exeID @ [dot] @ expStr) \<noteq> gotSig then Some BadTicketSignature
                  else None))
      | _ \<Rightarrow> Some MalformedTicket))"

lemma Split_three:
  "Split c s = [x, y, z] \<longleftrightarrow>
     s = x @ [c] @ y @ [c] @ z \<and> c \<notin> set x \<and> c \<notin> set y \<and> c \<notin> set z"
proof
  assume l: "Split c s = [x, y, z]"
  then have "s = Join [x, y, z] [c]" using Join_Split [of c s] by simp
  moreover have "c \<notin> set p" if "p \<in> set [x, y, z]" for p
    using Split_parts [of p c s] that l by simp
  ultimately show "s = x @ [c] @ y @ [c] @ z \<and> c \<notin> set x \<and> c \<notin> set y \<and> c \<notin> set z" by simp
next
  assume "s = x @ [c] @ y @ [c] @ z \<and> c \<notin> set x \<and> c \<notin> set y \<and> c \<notin> set z"
  then show "Split c s = [x, y, z]" by (simp add: Split_append Split_no_sep)
qed

section \<open>Properties of tokens and tickets\<close>

text \<open>A token is accepted exactly when it has three parts, its header names the
  algorithm and type, its signature is the code of header and payload under the secret,
  its payload decodes and its expiry has not passed; the payload returned is the one
  that was signed.\<close>

theorem VerifyCapabilityToken_iff:
  "VerifyCapabilityToken mac ph um now token secret = Inr p \<longleftrightarrow>
     (\<exists>h b s hb bb. token = h @ [dot] @ b @ [dot] @ s \<and>
        dot \<notin> set h \<and> dot \<notin> set b \<and> dot \<notin> set s \<and> h \<noteq> [] \<and> b \<noteq> [] \<and> s \<noteq> [] \<and>
        b64_decode h = Some hb \<and> ph hb = Some (''HS256'', ''CXG'') \<and>
        b64_decode s = Some (mac secret (h @ [dot] @ b)) \<and>
        b64_decode b = Some bb \<and> um bb = Some p \<and> now \<le> cp_exp p)"
  (is "?l \<longleftrightarrow> ?r")
proof
  assume l: ?l
  then obtain h b s where sp: "Split dot token = [h, b, s]"
    by (auto simp: VerifyCapabilityToken_def split: list.splits)
  from l have "h \<noteq> [] \<and> b \<noteq> [] \<and> s \<noteq> [] \<and> (\<exists>hb bb. b64_decode h = Some hb \<and>
      ph hb = Some (''HS256'', ''CXG'') \<and> b64_decode s = Some (mac secret (h @ [dot] @ b)) \<and>
      b64_decode b = Some bb \<and> um bb = Some p \<and> now \<le> cp_exp p)"
    by (simp add: VerifyCapabilityToken_def sp split: if_splits option.splits prod.splits)
  with sp show ?r unfolding Split_three by blast
next
  assume ?r
  then obtain h b s hb bb where "Split dot token = [h, b, s]" "h \<noteq> []" "b \<noteq> []" "s \<noteq> []"
    "b64_decode h = Some hb" "ph hb = Some (''HS256'', ''CXG'')"
    "b64_decode s = Some (mac secret (h @ [dot] @ b))"
    "b64_decode b = Some bb" "um bb = Some p" "now \<le> cp_exp p"
    unfolding Split_three by blast
  then show ?l by (simp add: VerifyCapabilityToken_def)
qed

lemma dot_b64 [simp]: "dot \<notin> set (b64_encode s)" and dot_int [simp]: "dot \<notin> set (FormatInt i)"
  by (simp_all add: dot_def)

lemma cap_header_ne: "cap_header \<noteq> []"
  by (simp add: cap_header_def)

lemma verify_signed:
  assumes "ph cap_header = Some (''HS256'', ''CXG'')" and "um (marshal p) = Some p"
    and "marshal p \<noteq> []" and "\<And>s m. mac s m \<noteq> []"
  shows "VerifyCapabilityToken mac ph um now (sign_cap mac marshal secret p) secret =
     (if now > cp_exp p then Inl ErrExpired else Inr p)"
proof -
  let ?h = "b64_encode cap_header" and ?b = "b64_encode (marshal p)"
  have "Split dot (sign_cap mac marshal secret p) = [?h, ?b, b64_encode (mac secret (?h @ [dot] @ ?b))]"
    unfolding Split_three by (simp add: sign_cap_def Let_def)
  then show ?thesis
    using assms cap_header_ne by (simp add: VerifyCapabilityToken_def)
qed

text \<open>A token that either minter produces is accepted by the verifier under the same
  secret until its expiry, with the workspace and turn it was minted for, and reported as
  expired afterwards: the minters and the verifier agree on the format.  The hypotheses say
  that the JSON codec reads the header and gives this payload back, and that a code is
  never empty.\<close>

theorem MintCapToken_verifies:
  fixes turn ws :: string and now ttl :: time
  defines "p \<equiv> \<lparr>cp_turn = turn, cp_workspace = ws, cp_iat = now, cp_exp = now + ttl\<rparr>"
  assumes "MintCapToken mac marshal now secret turn ws ttl = Inr tok \<or>
      (turn = ''sdk'' \<and> ttl = 86400 \<and> mintWorkspaceToken mac marshal now secret ws = Inr tok)"
    and "ph cap_header = Some (''HS256'', ''CXG'')" and "um (marshal p) = Some p"
    and "marshal p \<noteq> []" and "\<And>s m. mac s m \<noteq> []"
  shows "VerifyCapabilityToken mac ph um later tok secret =
           (if later > now + ttl then Inl ErrExpired else Inr p)"
proof -
  have "tok = sign_cap mac marshal secret p"
    using assms(2)
    by (auto simp: MintCapToken_def mintWorkspaceToken_def sdkCapTokenTTL_def p_def split: if_splits)
  with verify_signed [of ph um marshal p mac later secret] assms(3-6) show ?thesis
    by (simp add: p_def)
qed

theorem MintCapToken_verifies_witness:
  "\<exists>tok. MintCapToken (\<lambda>s m. s @ m) (\<lambda>p. ''x'') 5 ''k'' ''t'' ''w'' 9 = Inr tok \<and>
     VerifyCapabilityToken (\<lambda>s m. if s @ m = [] then ''z'' else s @ m)
       (\<lambda>_. Some (''HS256'', ''CXG''))
       (\<lambda>_. Some \<lparr>cp_turn = ''t'', cp_workspace = ''w'', cp_iat = 5, cp_exp = 14\<rparr>) 20 tok ''k'' =
     Inl ErrExpired"
proof -
  obtain tok where t: "MintCapToken (\<lambda>s m. if s @ m = [] then ''z'' else s @ m) (\<lambda>p. ''x'')
      5 ''k'' ''t'' ''w'' 9 = Inr tok"
    by (simp add: MintCapToken_def)
  then have t2: "MintCapToken (\<lambda>s m. s @ m) (\<lambda>p. ''x'') 5 ''k'' ''t'' ''w'' 9 = Inr tok"
    by (simp add: MintCapToken_def sign_cap_def)
  have "VerifyCapabilityToken (\<lambda>s m. if s @ m = [] then ''z'' else s @ m)
       (\<lambda>_. Some (''HS256'', ''CXG''))
       (\<lambda>_. Some \<lparr>cp_turn = ''t'', cp_workspace = ''w'', cp_iat = 5, cp_exp = 14\<rparr>) 20 tok ''k'' =
     (if (20::int) > 5 + 9 then Inl ErrExpired
      else Inr \<lparr>cp_turn = ''t'', cp_workspace = ''w'', cp_iat = 5, cp_exp = 5 + 9\<rparr>)"
    by (rule MintCapToken_verifies [OF disjI1 [OF t]]) simp_all
  with t2 show ?thesis by auto
qed

lemma filter_no_dot: "c \<notin> set x \<Longrightarrow> filter ((=) c) x = []"
  by (auto simp: filter_empty_conv)

lemma ticket_verifies:
  assumes "secret \<noteq> []" and "0 \<le> now" and "now < 2 ^ 62"
    and "MintWSTicket mac now exeID secret = Inr ticket"
  shows "VerifyWSTicket mac later ticket expected secret = None \<longleftrightarrow>
     dot \<notin> set exeID \<and> expected = exeID \<and> later < now + 300"
proof -
  let ?e = "FormatInt (now + 300)"
  let ?s = "b64_encode (mac secret (exeID @ [dot] @ ?e))"
  have t: "ticket = exeID @ [dot] @ ?e @ [dot] @ ?s"
    using assms(1,4) by (simp add: MintWSTicket_def wsTicketTTL_def Let_def)
  have pe: "ParseInt ?e = Some (now + 300)"
    using assms(2,3) by (intro ParseInt_FormatInt) simp_all
  show ?thesis
  proof (cases "dot \<in> set exeID")
    case False
    then have "Split dot ticket = [exeID, ?e, ?s]" unfolding Split_three by (simp add: t)
    with False pe assms(1) show ?thesis by (auto simp: VerifyWSTicket_def)
  next
    case True
    have "Split dot ticket \<noteq> [x, y, z]" for x y z
    proof
      assume "Split dot ticket = [x, y, z]"
      then have "filter ((=) dot) ticket = [dot, dot]"
        unfolding Split_three by (simp add: filter_no_dot)
      moreover have "length (filter ((=) dot) ticket) \<ge> 3"
        using True by (cases "filter ((=) dot) exeID") (auto simp: t filter_empty_conv)
      ultimately show False by simp
    qed
    with True assms(1) show ?thesis
      by (auto simp: VerifyWSTicket_def split: list.splits)
  qed
qed

text \<open>The ticket minted for an executor opens exactly that executor's connection, under
  the same secret, strictly before its expiry five minutes later; an executor identifier
  with a dot could never connect.\<close>

theorem MintWSTicket_verifies:
  assumes "secret \<noteq> []" and "0 \<le> now" and "now < 2 ^ 62"
    and "MintWSTicket mac now exeID secret = Inr ticket"
  shows "VerifyWSTicket mac later ticket expected secret = None \<longleftrightarrow>
     dot \<notin> set exeID \<and> expected = exeID \<and> later < now + 300"
  using assms by (rule ticket_verifies)

theorem MintWSTicket_verifies_witness:
  "\<exists>ticket. MintWSTicket (\<lambda>s m. s @ m) 5 ''exe_1'' ''k'' = Inr ticket \<and>
     VerifyWSTicket (\<lambda>s m. s @ m) 304 ticket ''exe_1'' ''k'' = None"
proof -
  obtain ticket where t: "MintWSTicket (\<lambda>s m. s @ m) 5 ''exe_1'' ''k'' = Inr ticket"
    by (simp add: MintWSTicket_def Let_def)
  from MintWSTicket_verifies [OF _ _ _ t, of 304 "''exe_1''"] t show ?thesis
    by (simp add: dot_def)
qed

end
