(* ===== verification/Exec_Admission.thy ===== *)
theory Exec_Admission
  imports Exec_Auth
begin

text \<open>
  The admission decisions of the exec gateway: \<open>RequireAgentserverSecret\<close> and
  \<open>RequireSharedSecret\<close> (\<open>handlers/middleware.go\<close>), \<open>RevokeTurn\<close>
  (\<open>handlers/internal_api.go\<close>), \<open>CloudRegister\<close> (\<open>handlers/cloud_register.go\<close>), and the
  checks \<open>handleBridge\<close> (\<open>bridge.go\<close>) and \<open>handleInbound\<close> (\<open>inbound.go\<close>) run before a
  connection is routed.  What happens to the connection afterwards is in \<open>Exec_Gateway\<close>.
\<close>

section \<open>Middleware\<close>

definition RequireAgentserverSecret :: "string \<Rightarrow> string \<Rightarrow> bool" where
  "RequireAgentserverSecret secret got \<longleftrightarrow> secret = [] \<or> got = secret"

definition bearer :: string where "bearer = ''Bearer ''"

definition RequireSharedSecret :: "string \<Rightarrow> string \<Rightarrow> bool" where
  "RequireSharedSecret secret h \<longleftrightarrow> HasPrefix h bearer \<and> drop (length bearer) h = secret"

section \<open>Revocation endpoint\<close>

text \<open>The decoded body is the turn and the expiry, \<open>None\<close> when it is not valid JSON.\<close>

definition RevokeTurn ::
  "time \<Rightarrow> RevokedSet \<Rightarrow> (string \<times> time) option \<Rightarrow> unit reply \<times> RevokedSet" where
  "RevokeTurn now rset body =
     (case body of
        None \<Rightarrow> (ErrorReply 400 ''invalid JSON'', rset)
      | Some (turnID, exp) \<Rightarrow>
          if turnID = [] then (ErrorReply 400 ''turn_id required'', rset)
          else (let exp' = (if exp = 0 then now + 3600 else exp) in
                (Reply 204 (), fst (Add rset turnID exp' now))))"

section \<open>Registration of an executor's connection\<close>

text \<open>
  The request to the agent server, with its scheme, credential and account; the server is a
  parameter that answers with a user or an error.
\<close>

datatype auth_request = BearerAuth string string | AgentAssertion string string

definition classifyAndValidate ::
  "(auth_request \<Rightarrow> unit + string) \<Rightarrow> string \<Rightarrow> string \<Rightarrow> string option" where
  "classifyAndValidate validate authHeader accountID =
     (let accept = (\<lambda>r. case r of Inr uid \<Rightarrow> if uid \<noteq> [] then Some uid else None | Inl _ \<Rightarrow> None) in
      if HasPrefix authHeader bearer
      then accept (validate (BearerAuth (TrimPrefix authHeader bearer) accountID))
      else if HasPrefix authHeader ''AgentAssertion ''
      then accept (validate (AgentAssertion (TrimPrefix authHeader ''AgentAssertion '') accountID))
      else None)"

datatype owner_err = OwnerLookup db_err | ExeNotRegistered string | ExeNotOwned string string

definition assertExeOwnedByUser ::
  "bool \<Rightarrow> exec_db \<Rightarrow> string \<Rightarrow> string \<Rightarrow> owner_err option" where
  "assertExeOwnedByUser up db exeID userID =
     (case UserIDForExecutor up db exeID of
        Inl e \<Rightarrow> Some (OwnerLookup e)
      | Inr owner \<Rightarrow>
          if owner = [] then Some (ExeNotRegistered exeID)
          else if owner \<noteq> userID then Some (ExeNotOwned exeID userID)
          else None)"

record register_request =
  rr_exe_id :: string
  rr_env_id :: string
  rr_auth :: string
  rr_account :: string
  rr_ua :: string
  rr_ip :: string

datatype register_reply =
    RegBadRequest | RegUnauthorized | RegForbidden owner_err | RegMintFailed ticket_err
  | RegTicket string string

text \<open>
  \<open>CloudRegister\<close> on the request's two path parameters and headers; \<open>parseUA\<close> is
  \<open>clientmeta.ParseCodexUA\<close>.  A failed metadata update is ignored, as in the code.
\<close>

definition CloudRegister ::
  "hmac \<Rightarrow> (auth_request \<Rightarrow> unit + string) \<Rightarrow> (string \<Rightarrow> string \<times> string) \<Rightarrow> string \<Rightarrow> time \<Rightarrow>
   bool \<Rightarrow> exec_db \<Rightarrow> register_request \<Rightarrow> register_reply \<times> exec_db"
where
  "CloudRegister mac validate parseUA secret now up db r =
     (let exeID = (if rr_exe_id r = [] then rr_env_id r else rr_exe_id r) in
      if exeID = [] then (RegBadRequest, db)
      else (case classifyAndValidate validate (rr_auth r) (rr_account r) of
        None \<Rightarrow> (RegUnauthorized, db)
      | Some userID \<Rightarrow>
          (case assertExeOwnedByUser up db exeID userID of
            Some e \<Rightarrow> (RegForbidden e, db)
          | None \<Rightarrow>
              (let (version, os) = parseUA (rr_ua r);
                   db' = snd (UpdateClientMetaFromRegister up db exeID (rr_ip r) (rr_ua r) version os)
               in case MintWSTicket mac now exeID secret of
                    Inl e \<Rightarrow> (RegMintFailed e, db')
                  | Inr ticket \<Rightarrow> (RegTicket exeID ticket, db')))))"

definition inboundAdmit :: "hmac \<Rightarrow> time \<Rightarrow> string \<Rightarrow> string \<Rightarrow> string \<Rightarrow> nat option" where
  "inboundAdmit mac now secret exeID token =
     (if exeID = [] \<or> token = [] then Some 400
      else if VerifyWSTicket mac now token exeID secret \<noteq> None then Some 401
      else None)"

section \<open>Bridge admission\<close>

text \<open>The frames of the relay protocol, as far as the gateway looks at them.\<close>

datatype frame_body = BodyData | BodyAck | BodyResume | BodyReset | BodyHeartbeat | BodyNone

record relay_frame =
  fr_stream :: string
  fr_body :: frame_body

record 'c gateway =
  g_mac :: hmac
  g_parse_header :: "string \<Rightarrow> (string \<times> string) option"
  g_unmarshal :: "string \<Rightarrow> CapPayload option"
  g_frame :: "string \<Rightarrow> relay_frame option"
  g_secret :: string
  g_revoked :: RevokedSet
  g_store :: "exec_db option"
  g_registry :: "'c conn_table"

datatype bridge_check = CheckErr nat string | CheckOk CapPayload

text \<open>Steps 1 to 3 of \<open>handleBridge\<close>: the token, the revocation, the ownership.\<close>

definition bridgeCheck ::
  "'c gateway \<Rightarrow> time \<Rightarrow> bool \<Rightarrow> string \<Rightarrow> string \<Rightarrow> bridge_check" where
  "bridgeCheck g now up exeID authz =
     (if \<not> HasPrefix authz bearer then CheckErr 401 ''missing Bearer''
      else (let token = TrimPrefix authz bearer in
        if exeID = [] \<or> token = [] then CheckErr 400 ''missing parameters''
        else (case VerifyCapabilityToken (g_mac g) (g_parse_header g) (g_unmarshal g) now token
                     (g_secret g) of
            Inl ErrExpired \<Rightarrow> CheckErr 401 ''token expired''
          | Inl _ \<Rightarrow> CheckErr 401 ''unauthorized''
          | Inr payload \<Rightarrow>
              if Contains_turn (g_revoked g) (cp_turn payload) then CheckErr 401 ''turn revoked''
              else (case g_store g of
                  None \<Rightarrow> CheckOk payload
                | Some db \<Rightarrow>
                    (case OwnsExecutor up db (cp_workspace payload) exeID of
                       Inl _ \<Rightarrow> CheckErr 500 ''ownership check failed''
                     | Inr owns \<Rightarrow>
                         if \<not> owns then CheckErr 403 ''exe_id not in workspace''
                         else CheckOk payload)))))"

datatype 'c bridge_decision =
    BridgeHttp nat string
  | BridgeAcceptFailed
  | BridgeClose string
  | BridgeAttach 'c string string

text \<open>
  Steps 4 to 6: the inbound connection, the upgrade (\<open>accept\<close>), and the first frame.  \<open>first\<close>
  is what the first read returns: \<open>None\<close> an error, else whether the message is binary and
  its bytes.
\<close>

definition firstFrame ::
  "(string \<Rightarrow> relay_frame option) \<Rightarrow> (bool \<times> string) option \<Rightarrow> string + string \<times> string" where
  "firstFrame unmarshal first =
     (case first of
        None \<Rightarrow> Inl ''first frame read failed''
      | Some (binary, bytes) \<Rightarrow>
          if \<not> binary then Inl ''first frame must be binary Resume''
          else (case unmarshal bytes of
              None \<Rightarrow> Inl ''malformed first frame''
            | Some f \<Rightarrow>
                if fr_body f \<noteq> BodyResume then Inl ''first frame must be Resume''
                else if fr_stream f = [] then Inl ''Resume missing stream_id''
                else Inr (fr_stream f, bytes)))"

definition handleBridge ::
  "'c gateway \<Rightarrow> time \<Rightarrow> bool \<Rightarrow> string \<Rightarrow> string \<Rightarrow> bool \<Rightarrow> (bool \<times> string) option \<Rightarrow>
   'c bridge_decision"
where
  "handleBridge g now up exeID authz accept first =
     (case bridgeCheck g now up exeID authz of
        CheckErr code msg \<Rightarrow> BridgeHttp code msg
      | CheckOk payload \<Rightarrow>
          (case Lookup (g_registry g) exeID of
             None \<Rightarrow> BridgeHttp 503 ''executor not connected''
           | Some inbound \<Rightarrow>
               if \<not> accept then BridgeAcceptFailed
               else (case firstFrame (g_frame g) first of
                   Inl msg \<Rightarrow> BridgeClose msg
                 | Inr (streamID, bytes) \<Rightarrow> BridgeAttach inbound streamID bytes)))"

section \<open>Properties\<close>

lemma bridgeCheck_ok:
  "bridgeCheck g now up exeID authz = CheckOk p \<longleftrightarrow>
     (\<exists>token. authz = bearer @ token \<and> exeID \<noteq> [] \<and> token \<noteq> [] \<and>
        VerifyCapabilityToken (g_mac g) (g_parse_header g) (g_unmarshal g) now token (g_secret g) = Inr p \<and>
        \<not> Contains_turn (g_revoked g) (cp_turn p) \<and>
        (\<forall>db. g_store g = Some db \<longrightarrow> OwnsExecutor up db (cp_workspace p) exeID = Inr True))"
proof (cases "HasPrefix authz bearer")
  case True
  then obtain token where "authz = bearer @ token" by (auto simp: HasPrefix_iff)
  then show ?thesis
    by (auto simp: bridgeCheck_def Let_def split: sum.splits cap_err.splits option.splits)
next
  case False
  then show ?thesis by (auto simp: bridgeCheck_def)
qed

lemma VerifyCapabilityToken_now:
  "VerifyCapabilityToken mac ph um now token secret = Inr p \<Longrightarrow> now \<le> cp_exp p"
  by (auto simp: VerifyCapabilityToken_def split: list.splits option.splits if_splits)

text \<open>A dial of \<open>/bridge\<close> is attached exactly when every check passes: a bearer token that
  verifies, a turn that is not revoked, an executor that the token's workspace owns, a live
  inbound connection of that executor, and a first frame that is a resume of a named
  stream; it is attached to the connection and stream those name.\<close>

theorem handleBridge_attach_iff:
  "handleBridge g now up exeID authz accept first = BridgeAttach ic sid bytes \<longleftrightarrow>
     (\<exists>token p. authz = bearer @ token \<and> exeID \<noteq> [] \<and> token \<noteq> [] \<and>
        VerifyCapabilityToken (g_mac g) (g_parse_header g) (g_unmarshal g) now token (g_secret g) = Inr p \<and>
        \<not> Contains_turn (g_revoked g) (cp_turn p) \<and>
        (\<forall>db. g_store g = Some db \<longrightarrow> up \<and> (cp_workspace p, exeID) \<in> bound db)) \<and>
     Lookup (g_registry g) exeID = Some ic \<and> accept \<and> first = Some (True, bytes) \<and>
     (\<exists>f. g_frame g bytes = Some f \<and> fr_body f = BodyResume \<and> fr_stream f = sid \<and> sid \<noteq> [])"
proof -
  have owns: "OwnsExecutor up db ws exeID = Inr True \<longleftrightarrow> up \<and> (ws, exeID) \<in> bound db" for db ws
    using OwnsExecutor_bound [of db ws exeID] by (cases up) (auto simp: OwnsExecutor_def)
  have first: "firstFrame (g_frame g) first = Inr (sid, bytes) \<longleftrightarrow> first = Some (True, bytes) \<and>
      (\<exists>f. g_frame g bytes = Some f \<and> fr_body f = BodyResume \<and> fr_stream f = sid \<and> sid \<noteq> [])"
    by (auto simp: firstFrame_def split: option.splits if_splits)
  have "handleBridge g now up exeID authz accept first = BridgeAttach ic sid bytes \<longleftrightarrow>
      (\<exists>p. bridgeCheck g now up exeID authz = CheckOk p) \<and> Lookup (g_registry g) exeID = Some ic \<and>
      accept \<and> firstFrame (g_frame g) first = Inr (sid, bytes)"
    by (auto simp: handleBridge_def split: bridge_check.splits option.splits sum.splits if_splits)
  then show ?thesis unfolding bridgeCheck_ok owns first by blast
qed

definition sample_payload :: CapPayload where
  "sample_payload = \<lparr>cp_turn = ''t'', cp_workspace = ''w'', cp_iat = 0, cp_exp = 9\<rparr>"

definition sample_gateway :: "nat gateway" where
  "sample_gateway = \<lparr>g_mac = (\<lambda>_ _. ''x''), g_parse_header = (\<lambda>_. Some (''HS256'', ''CXG'')),
     g_unmarshal = (\<lambda>_. Some sample_payload),
     g_frame = (\<lambda>_. Some \<lparr>fr_stream = ''s'', fr_body = BodyResume\<rparr>), g_secret = ''k'',
     g_revoked = NewRevokedSet 2, g_store = None, g_registry = [''e'' \<mapsto> 1]\<rparr>"

theorem handleBridge_attach_iff_witness:
  "handleBridge sample_gateway 5 True ''e'' (bearer @ ''YQ.YQ.eA'') True (Some (True, ''r'')) =
     BridgeAttach 1 ''s'' ''r''"
proof (rule iffD2 [OF handleBridge_attach_iff])
  have v: "VerifyCapabilityToken (\<lambda>_ _. ''x'') (\<lambda>_. Some (''HS256'', ''CXG''))
      (\<lambda>_. Some sample_payload) 5 ''YQ.YQ.eA'' ''k'' = Inr sample_payload" by code_simp
  show "(\<exists>token p. bearer @ ''YQ.YQ.eA'' = bearer @ token \<and> ''e'' \<noteq> [] \<and> token \<noteq> [] \<and>
      VerifyCapabilityToken (g_mac sample_gateway) (g_parse_header sample_gateway)
        (g_unmarshal sample_gateway) 5 token (g_secret sample_gateway) = Inr p \<and>
      \<not> Contains_turn (g_revoked sample_gateway) (cp_turn p) \<and>
      (\<forall>db. g_store sample_gateway = Some db \<longrightarrow> True \<and> (cp_workspace p, ''e'') \<in> bound db)) \<and>
    Lookup (g_registry sample_gateway) ''e'' = Some 1 \<and> True \<and>
    Some (True, ''r'') = Some (True, ''r'') \<and>
    (\<exists>f. g_frame sample_gateway ''r'' = Some f \<and> fr_body f = BodyResume \<and> fr_stream f = ''s'' \<and> ''s'' \<noteq> [])"
    using v by (simp add: sample_gateway_def Lookup_def Contains_turn_def NewRevokedSet_def)
qed

lemma revoked_stays_readded:
  assumes "\<And>y n. EvAdd t y n \<in> set es \<Longrightarrow> x \<le> y" and "\<And>n. EvPrune n \<in> set es \<Longrightarrow> n \<le> x"
    and "int (card (added es - {t})) < rs_cap (NewRevokedSet cap)" and "x \<le> y"
  shows "Contains_turn (fold (\<lambda>e r. rs_step r e) (before @ EvAdd t y now # es) (NewRevokedSet cap)) t"
  using assms
proof (induction es arbitrary: before y now rule: length_induct)
  case (1 es)
  show ?case
  proof (cases "t \<in> added es")
    case False
    then have "added es - {t} = added es" by blast
    with 1(4) have "int (card (added es)) < rs_cap (NewRevokedSet cap)" by simp
    moreover have "\<forall>n. EvPrune n \<in> set es \<longrightarrow> n \<le> y" using 1(3,5) by (meson order_trans)
    ultimately show ?thesis using False revoked_stays [of t es y cap before now] by blast
  next
    case True
    then obtain y' n' where "EvAdd t y' n' \<in> set es" by (auto simp: added_def)
    then obtain es1 es2 where es: "es = es1 @ EvAdd t y' n' # es2" by (meson split_list)
    have "added es2 - {t} \<subseteq> added es - {t}" by (auto simp: es added_def)
    then have "card (added es2 - {t}) \<le> card (added es - {t})"
      by (rule card_mono [rotated]) (simp add: finite_added)
    with 1(4) have "int (card (added es2 - {t})) < rs_cap (NewRevokedSet cap)" by linarith
    moreover have "length es2 < length es" "x \<le> y'" using 1(2) by (auto simp: es)
    moreover have "EvAdd t u n \<in> set es2 \<Longrightarrow> x \<le> u" "EvPrune n \<in> set es2 \<Longrightarrow> n \<le> x" for u n
      using 1(2,3) by (auto simp: es)
    ultimately show ?thesis
      using 1(1) [rule_format, of es2 y' "before @ EvAdd t y now # es1" n'] by (simp add: es)
  qed
qed

text \<open>C6: A token of a revoked turn is refused.  Let a request revoke a turn up to an expiry that covers the token's
  (none given: an hour).  Whatever is revoked and pruned after it and before the token is presented, the token is not
  admitted, as long as later revocations of the same turn cover the token too and fewer other turns than the capacity of
  the set are revoked in between; beyond that the set evicts the oldest turn and its tokens are admitted again.\<close>

theorem revoked_turn_refused:
  assumes "turn \<noteq> []"
    and "g_revoked g = fold (\<lambda>e r. rs_step r e) es
           (snd (RevokeTurn now (fold (\<lambda>e r. rs_step r e) before (NewRevokedSet cap)) (Some (turn, x))))"
    and "\<forall>n. EvPrune n \<in> set es \<longrightarrow> n \<le> later"
    and "int (card (added es - {turn})) < rs_cap (NewRevokedSet cap)"
    and "cp_turn p = turn" and "cp_exp p \<le> (if x = 0 then now + 3600 else x)"
    and "\<forall>y n. EvAdd turn y n \<in> set es \<longrightarrow> cp_exp p \<le> y"
  shows "bridgeCheck g later up exeID authz \<noteq> CheckOk p"
proof
  assume ok: "bridgeCheck g later up exeID authz = CheckOk p"
  then have "later \<le> cp_exp p" and nc: "\<not> Contains_turn (g_revoked g) turn"
    unfolding bridgeCheck_ok using VerifyCapabilityToken_now assms(5) by blast+
  with assms(3) have "EvPrune n \<in> set es \<Longrightarrow> n \<le> cp_exp p" for n by fastforce
  from revoked_stays_readded [where x = "cp_exp p", OF _ this assms(4,6), of before now] nc assms(1,2,7)
  show False by (simp add: RevokeTurn_def Let_def)
qed

text \<open>The same request is admitted without the revocation.\<close>

theorem revoked_turn_refused_witness:
  "bridgeCheck sample_gateway 5 True ''e'' (bearer @ ''YQ.YQ.eA'') = CheckOk sample_payload \<and>
   bridgeCheck (sample_gateway\<lparr>g_revoked := fold (\<lambda>e r. rs_step r e) [EvPrune 4, EvAdd ''u'' 20 5]
     (snd (RevokeTurn 1 (fold (\<lambda>e r. rs_step r e) [] (NewRevokedSet 2)) (Some (''t'', 9))))\<rparr>)
     5 True ''e'' (bearer @ ''YQ.YQ.eA'') \<noteq> CheckOk sample_payload"
proof
  have v: "VerifyCapabilityToken (\<lambda>_ _. ''x'') (\<lambda>_. Some (''HS256'', ''CXG''))
      (\<lambda>_. Some sample_payload) 5 ''YQ.YQ.eA'' ''k'' = Inr sample_payload" by code_simp
  then show "bridgeCheck sample_gateway 5 True ''e'' (bearer @ ''YQ.YQ.eA'') = CheckOk sample_payload"
    unfolding bridgeCheck_ok by (intro exI [of _ "''YQ.YQ.eA''"])
      (simp add: sample_gateway_def Contains_turn_def NewRevokedSet_def)
qed (rule revoked_turn_refused [where turn = "''t''" and x = 9 and es = "[EvPrune 4, EvAdd ''u'' 20 5]" and cap = 2
        and now = 1 and before = "[]"]; simp add: NewRevokedSet_def sample_payload_def added_def)

text \<open>A ticket that the registration endpoint hands out belongs to an executor of the
  user whose credential was validated, and opens the inbound connection of that executor
  only, and only for five minutes.\<close>

theorem CloudRegister_ticket:
  assumes "CloudRegister mac validate parseUA secret now up db r = (RegTicket exe ticket, db')"
    and "0 \<le> now" and "now < 2 ^ 62" and "dot \<notin> set exe"
  shows "(\<exists>user row. classifyAndValidate validate (rr_auth r) (rr_account r) = Some user \<and>
            executors db exe = Some row \<and> ex_user row = user \<and> user \<noteq> []) \<and>
         (inboundAdmit mac later secret expected ticket = None \<longleftrightarrow>
            expected = exe \<and> later < now + 300)"
proof -
  let ?id = "if rr_exe_id r = [] then rr_env_id r else rr_exe_id r"
  from assms(1) obtain user where u: "classifyAndValidate validate (rr_auth r) (rr_account r) = Some user"
      and own: "assertExeOwnedByUser up db ?id user = None" and id: "exe = ?id" "exe \<noteq> []"
      and t: "MintWSTicket mac now exe secret = Inr ticket"
    by (auto simp: CloudRegister_def Let_def split: if_splits option.splits prod.splits sum.splits)
  have o: "\<exists>row. executors db exe = Some row \<and> ex_user row = user \<and> user \<noteq> []"
    using own id(1) by (auto simp: assertExeOwnedByUser_def UserIDForExecutor_def
        split: sum.splits if_splits option.splits)
  have sec: "secret \<noteq> []" and ne: "ticket \<noteq> []"
    using t id(2) by (auto simp: MintWSTicket_def Let_def split: if_splits)
  have "VerifyWSTicket mac later ticket expected secret = None \<longleftrightarrow>
      expected = exe \<and> later < now + 300"
    using ticket_verifies [OF sec assms(2,3) t, of later expected] assms(4) by simp
  then have "inboundAdmit mac later secret expected ticket = None \<longleftrightarrow>
      expected = exe \<and> later < now + 300"
    using ne id(2) by (auto simp only: inboundAdmit_def split: if_splits)
  with u o show ?thesis by blast
qed

theorem CloudRegister_ticket_witness:
  "\<exists>ticket. fst (CloudRegister (\<lambda>s m. s @ m) (\<lambda>_. Inr ''u'') (\<lambda>_. ([], [])) ''k'' 5 True
       (snd (RegisterHandler True 1 ''1'' empty_db ''u'' (Some ''d'')))
       \<lparr>rr_exe_id = ''exe_1'', rr_env_id = [], rr_auth = ''Bearer x'', rr_account = [], rr_ua = [],
        rr_ip = []\<rparr>) = RegTicket ''exe_1'' ticket \<and>
     inboundAdmit (\<lambda>s m. s @ m) 304 ''k'' ''exe_1'' ticket = None"
proof -
  let ?db = "snd (RegisterHandler True 1 ''1'' empty_db ''u'' (Some ''d''))"
  let ?r = "\<lparr>rr_exe_id = ''exe_1'', rr_env_id = [], rr_auth = ''Bearer x'', rr_account = [],
    rr_ua = [], rr_ip = []\<rparr>"
  obtain ticket where m: "MintWSTicket (\<lambda>s m. s @ m) 5 ''exe_1'' ''k'' = Inr ticket"
    by (simp add: MintWSTicket_def Let_def)
  have o: "assertExeOwnedByUser True ?db ''exe_1'' ''u'' = None"
    by (simp add: assertExeOwnedByUser_def UserIDForExecutor_def RegisterHandler_def
        CreateExecutor_def empty_db_def Let_def)
  have "\<exists>db'. CloudRegister (\<lambda>s m. s @ m) (\<lambda>_. Inr ''u'') (\<lambda>_. ([], [])) ''k'' 5 True ?db ?r =
      (RegTicket ''exe_1'' ticket, db')"
    by (simp add: CloudRegister_def classifyAndValidate_def bearer_def Let_def o m)
  then obtain db' where c: "CloudRegister (\<lambda>s m. s @ m) (\<lambda>_. Inr ''u'') (\<lambda>_. ([], [])) ''k'' 5 True
      ?db ?r = (RegTicket ''exe_1'' ticket, db')" by blast
  from CloudRegister_ticket [OF c, of 304 "''exe_1''"] c show ?thesis by (simp add: dot_def)
qed

end
