(* ===== verification/Exec_Gateway.thy ===== *)
theory Exec_Gateway
  imports Exec_Admission
begin

text \<open>
  The multiplexed connections of the exec gateway: \<open>inboundConn\<close> and \<open>bridgeSession\<close> of
  \<open>internal/codexexecgateway/multiplex.go\<close>, the reader of \<open>inbound.go\<close> and the pump of
  \<open>bridge.go\<close>, run by concurrent goroutines.

  The state is the heap of the two kinds of connection objects, addressed by number, with
  the connection registry.  A step is what one goroutine does between two points at which
  another can interfere: one critical section, one read, one write.  What a peer sends, how
  long it takes and whether a write succeeds is the environment's choice.  Two fields record
  history only: \<open>b_reset\<close> (the reader dropped the session's route at a reset frame) and the
  writer in \<open>ic_out\<close>.
\<close>

section \<open>State\<close>

datatype close_phase = Open | Marked | Swapped

datatype reader_pc = Running | Ended | Unregistered

record inboundConn =
  ic_exe :: string
  ic_routes :: "nat conn_table"
  ic_phase :: close_phase
  ic_pc :: reader_pc
  ic_out :: "(nat \<times> string) list"

datatype bridge_pc = Peeked | Routed | Polling | Reading | Leaving | Unrouted | Finished

record bridgeSession =
  b_stream :: string
  b_inbound :: nat
  b_first :: string
  b_closed :: bool
  b_pc :: bridge_pc
  b_out :: "string list"
  b_reset :: bool

record gw =
  registry :: "nat conn_table"
  inb :: "nat \<Rightarrow> inboundConn"
  n_inb :: nat
  br :: "nat \<Rightarrow> bridgeSession"
  n_br :: nat
  evicted :: "nat set"
  toclose :: "nat set"

definition newInboundConn :: "string \<Rightarrow> inboundConn" where
  "newInboundConn exeID =
     \<lparr>ic_exe = exeID, ic_routes = Map.empty, ic_phase = Open, ic_pc = Running, ic_out = []\<rparr>"

definition newBridgeSession :: "string \<Rightarrow> nat \<Rightarrow> string \<Rightarrow> bridgeSession" where
  "newBridgeSession streamID i first =
     \<lparr>b_stream = streamID, b_inbound = i, b_first = first, b_closed = False, b_pc = Peeked,
      b_out = [], b_reset = False\<rparr>"

definition gw_init :: gw where
  "gw_init = \<lparr>registry = NewConnRegistry, inb = (\<lambda>_. newInboundConn []), n_inb = 0,
     br = (\<lambda>_. newBridgeSession [] 0 []), n_br = 0, evicted = {}, toclose = {}\<rparr>"

definition upd_inb :: "nat \<Rightarrow> (inboundConn \<Rightarrow> inboundConn) \<Rightarrow> gw \<Rightarrow> gw" where
  "upd_inb i f g = g\<lparr>inb := (inb g)(i := f (inb g i))\<rparr>"

definition upd_br :: "nat \<Rightarrow> (bridgeSession \<Rightarrow> bridgeSession) \<Rightarrow> gw \<Rightarrow> gw" where
  "upd_br b f g = g\<lparr>br := (br g)(b := f (br g b))\<rparr>"

section \<open>Inbound connections\<close>

text \<open>\<open>handleInbound\<close>, after the ticket check: register; an evicted connection is to be closed.\<close>

definition acceptInbound :: "string \<Rightarrow> gw \<Rightarrow> gw" where
  "acceptInbound exeID g =
     (let i = n_inb g; (reg, ev) = Register (registry g) exeID i in
      g\<lparr>registry := reg, inb := (inb g)(i := newInboundConn exeID), n_inb := Suc i,
        evicted := (case ev of None \<Rightarrow> evicted g | Some p \<Rightarrow> insert p (evicted g))\<rparr>)"

text \<open>
  The end of a handler: its reader returns; then, in a step of its own, \<open>Unregister\<close>; the \<open>close\<close> comes after that.
\<close>

definition readerExit :: "nat \<Rightarrow> gw \<Rightarrow> gw" where
  "readerExit i = upd_inb i (\<lambda>c. c\<lparr>ic_pc := Ended\<rparr>)"

definition readerEnd :: "nat \<Rightarrow> gw \<Rightarrow> gw" where
  "readerEnd i g =
     upd_inb i (\<lambda>c. c\<lparr>ic_pc := Unregistered\<rparr>)
       (g\<lparr>registry := Unregister (registry g) (ic_exe (inb g i)) i\<rparr>)"

text \<open>
  \<open>inboundConn.close\<close>: the closed channel, then the swap of the route table, whose sessions
  are closed one at a time afterwards.
\<close>

definition closeMark :: "nat \<Rightarrow> gw \<Rightarrow> gw" where
  "closeMark i = upd_inb i (\<lambda>c. c\<lparr>ic_phase := Marked\<rparr>)"

definition closeSwap :: "nat \<Rightarrow> gw \<Rightarrow> gw" where
  "closeSwap i g =
     upd_inb i (\<lambda>c. c\<lparr>ic_phase := Swapped, ic_routes := Map.empty\<rparr>)
       (g\<lparr>toclose := toclose g \<union> ran (ic_routes (inb g i))\<rparr>)"

definition closeBridge :: "nat \<Rightarrow> gw \<Rightarrow> gw" where
  "closeBridge b g = upd_br b (\<lambda>s. s\<lparr>b_closed := True\<rparr>) (g\<lparr>toclose := toclose g - {b}\<rparr>)"

definition dropRoute :: "nat \<Rightarrow> string \<Rightarrow> nat \<Rightarrow> gw \<Rightarrow> gw" where
  "dropRoute i sid b = upd_inb i (\<lambda>c. c\<lparr>ic_routes := removeRoute (ic_routes c) sid b\<rparr>)"

text \<open>
  One iteration of \<open>runInboundReader\<close> on a message; \<open>ok\<close> says whether the write to the
  bridge succeeds.
\<close>

definition readerFrame ::
  "(string \<Rightarrow> relay_frame option) \<Rightarrow> nat \<Rightarrow> bool \<Rightarrow> string \<Rightarrow> bool \<Rightarrow> gw \<Rightarrow> gw" where
  "readerFrame unmarshal i binary data ok g =
     (if \<not> binary then g
      else (case unmarshal data of
          None \<Rightarrow> g
        | Some frame \<Rightarrow>
            if fr_stream frame = [] then g
            else (case lookupRoute (ic_routes (inb g i)) (fr_stream frame) of
                None \<Rightarrow> g
              | Some b \<Rightarrow>
                  if \<not> ok then dropRoute i (fr_stream frame) b (upd_br b (\<lambda>s. s\<lparr>b_closed := True\<rparr>) g)
                  else (let g' = upd_br b (\<lambda>s. s\<lparr>b_out := b_out s @ [data]\<rparr>) g in
                    if fr_body frame = BodyReset
                    then dropRoute i (fr_stream frame) b (upd_br b (\<lambda>s. s\<lparr>b_reset := True\<rparr>) g')
                    else g'))))"

section \<open>Bridge sessions\<close>

text \<open>\<open>handleBridge\<close> from step 7 on; \<open>attach\<close> is the session made at the end of step 6.\<close>

definition attach :: "nat \<Rightarrow> string \<Rightarrow> string \<Rightarrow> gw \<Rightarrow> gw" where
  "attach i streamID first g =
     g\<lparr>br := (br g)(n_br g := newBridgeSession streamID i first), n_br := Suc (n_br g)\<rparr>"

definition routeBridge :: "nat \<Rightarrow> gw \<Rightarrow> gw" where
  "routeBridge b g =
     (let s = br g b; i = b_inbound s;
          (routes, old) = addRoute (ic_routes (inb g i)) (b_stream s) b in
      upd_br b (\<lambda>s. s\<lparr>b_pc := Routed\<rparr>)
        (upd_inb i (\<lambda>c. c\<lparr>ic_routes := routes\<rparr>)
          (g\<lparr>toclose := (case old of None \<Rightarrow> toclose g | Some e \<Rightarrow> insert e (toclose g))\<rparr>)))"

text \<open>The write to the inbound connection; it fails once the connection is closed.\<close>

definition writeInbound :: "nat \<Rightarrow> nat \<Rightarrow> string \<Rightarrow> gw \<Rightarrow> gw" where
  "writeInbound b i data = upd_inb i (\<lambda>c. c\<lparr>ic_out := ic_out c @ [(b, data)]\<rparr>)"

definition set_pc :: "nat \<Rightarrow> bridge_pc \<Rightarrow> gw \<Rightarrow> gw" where
  "set_pc b p = upd_br b (\<lambda>s. s\<lparr>b_pc := p\<rparr>)"

definition forwardResume :: "nat \<Rightarrow> bool \<Rightarrow> gw \<Rightarrow> gw" where
  "forwardResume b ok g =
     (if ok then set_pc b Polling (writeInbound b (b_inbound (br g b)) (b_first (br g b)) g)
      else set_pc b Leaving g)"

text \<open>The select at the head of \<open>runBridgePump\<close>; \<open>ctx_done\<close> is the request's context.\<close>

definition pumpPoll :: "nat \<Rightarrow> bool \<Rightarrow> gw \<Rightarrow> gw" where
  "pumpPoll b ctx_done g =
     (if b_closed (br g b) \<or> ic_phase (inb g (b_inbound (br g b))) \<noteq> Open \<or> ctx_done
      then set_pc b Leaving g else set_pc b Reading g)"

text \<open>The rest of the loop: the read (\<open>None\<close> an error), the stream check, the write.\<close>

definition pumpRead ::
  "(string \<Rightarrow> relay_frame option) \<Rightarrow> nat \<Rightarrow> (bool \<times> string) option \<Rightarrow> bool \<Rightarrow> gw \<Rightarrow> gw" where
  "pumpRead unmarshal b msg ok g =
     (case msg of
        None \<Rightarrow> set_pc b Leaving g
      | Some (binary, data) \<Rightarrow>
          if \<not> binary then set_pc b Polling g
          else if (case unmarshal data of None \<Rightarrow> False
                   | Some f \<Rightarrow> fr_stream f \<noteq> b_stream (br g b)) then set_pc b Polling g
          else if ok then set_pc b Polling (writeInbound b (b_inbound (br g b)) data g)
          else set_pc b Leaving g)"

definition leaveRoute :: "nat \<Rightarrow> gw \<Rightarrow> gw" where
  "leaveRoute b g =
     set_pc b Unrouted (dropRoute (b_inbound (br g b)) (b_stream (br g b)) b g)"

definition finishBridge :: "nat \<Rightarrow> gw \<Rightarrow> gw" where
  "finishBridge b = upd_br b (\<lambda>s. s\<lparr>b_closed := True, b_pc := Finished\<rparr>)"

section \<open>Steps\<close>

inductive gw_step :: "(string \<Rightarrow> relay_frame option) \<Rightarrow> gw \<Rightarrow> gw \<Rightarrow> bool"
  for U :: "string \<Rightarrow> relay_frame option"
where
  accept: "gw_step U g (acceptInbound exeID g)"
| reader: "i < n_inb g \<Longrightarrow> ic_pc (inb g i) = Running \<Longrightarrow>
     gw_step U g (readerFrame U i binary data ok g)"
| reader_exit: "i < n_inb g \<Longrightarrow> ic_pc (inb g i) = Running \<Longrightarrow> gw_step U g (readerExit i g)"
| reader_end: "i < n_inb g \<Longrightarrow> ic_pc (inb g i) = Ended \<Longrightarrow> gw_step U g (readerEnd i g)"
| mark: "i \<in> evicted g \<or> (i < n_inb g \<and> ic_pc (inb g i) = Unregistered) \<Longrightarrow>
     ic_phase (inb g i) = Open \<Longrightarrow> gw_step U g (closeMark i g)"
| swap: "ic_phase (inb g i) = Marked \<Longrightarrow> gw_step U g (closeSwap i g)"
| close_session: "b \<in> toclose g \<Longrightarrow> gw_step U g (closeBridge b g)"
| attach: "Lookup (registry g) exeID = Some i \<Longrightarrow> firstFrame U msg = Inr (sid, first) \<Longrightarrow>
     gw_step U g (attach i sid first g)"
| route: "b < n_br g \<Longrightarrow> b_pc (br g b) = Peeked \<Longrightarrow> gw_step U g (routeBridge b g)"
| resume: "b < n_br g \<Longrightarrow> b_pc (br g b) = Routed \<Longrightarrow> gw_step U g (forwardResume b ok g)"
| poll: "b < n_br g \<Longrightarrow> b_pc (br g b) = Polling \<Longrightarrow> gw_step U g (pumpPoll b ctx_done g)"
| pump: "b < n_br g \<Longrightarrow> b_pc (br g b) = Reading \<Longrightarrow> gw_step U g (pumpRead U b msg ok g)"
| leave: "b < n_br g \<Longrightarrow> b_pc (br g b) = Leaving \<Longrightarrow> gw_step U g (leaveRoute b g)"
| finish: "b < n_br g \<Longrightarrow> b_pc (br g b) = Unrouted \<Longrightarrow> gw_step U g (finishBridge b g)"

definition gw_reachable :: "(string \<Rightarrow> relay_frame option) \<Rightarrow> gw \<Rightarrow> bool" where
  "gw_reachable U g \<longleftrightarrow> (gw_step U)\<^sup>*\<^sup>* gw_init g"

lemma gw_reachable_induct [consumes 1, case_names init step]:
  assumes "gw_reachable U g" and "P gw_init"
    and "\<And>g g'. gw_reachable U g \<Longrightarrow> P g \<Longrightarrow> gw_step U g g' \<Longrightarrow> P g'"
  shows "P g"
proof -
  from assms(1) have "(gw_step U)\<^sup>*\<^sup>* gw_init g" by (simp add: gw_reachable_def)
  then have "P g \<and> gw_reachable U g"
  proof (induction rule: rtranclp_induct)
    case base
    show ?case using assms(2) by (simp add: gw_reachable_def)
  next
    case (step y z)
    then show ?case using assms(3) by (auto simp: gw_reachable_def)
  qed
  then show ?thesis by simp
qed

section \<open>Invariants\<close>

lemma upd_sel [simp]:
  "registry (upd_inb i f g) = registry g" "registry (upd_br b h g) = registry g"
  "n_inb (upd_inb i f g) = n_inb g" "n_inb (upd_br b h g) = n_inb g"
  "n_br (upd_inb i f g) = n_br g" "n_br (upd_br b h g) = n_br g"
  "evicted (upd_inb i f g) = evicted g" "evicted (upd_br b h g) = evicted g"
  "toclose (upd_inb i f g) = toclose g" "toclose (upd_br b h g) = toclose g"
  "br (upd_inb i f g) = br g" "inb (upd_br b h g) = inb g"
  "inb (upd_inb i f g) j = (if j = i then f (inb g i) else inb g j)"
  "br (upd_br b h g) c = (if c = b then h (br g b) else br g c)"
  by (simp_all add: upd_inb_def upd_br_def)

lemmas gw_ops = acceptInbound_def readerExit_def readerEnd_def closeMark_def closeSwap_def closeBridge_def
  dropRoute_def readerFrame_def attach_def routeBridge_def writeInbound_def set_pc_def
  forwardResume_def pumpPoll_def pumpRead_def leaveRoute_def finishBridge_def newInboundConn_def
  newBridgeSession_def Register_def Unregister_def Lookup_def addRoute_def removeRoute_def
  lookupRoute_def Let_def

text \<open>
  What a step does to the heap, with the branches of the reader and the pump told apart: the
  case analysis that the invariants share.
\<close>

definition deliver :: "nat \<Rightarrow> string \<Rightarrow> bool \<Rightarrow> gw \<Rightarrow> gw" where
  "deliver b data r = upd_br b (\<lambda>s. s\<lparr>b_out := b_out s @ [data], b_reset := b_reset s \<or> r\<rparr>)"

lemma gw_step_cases [consumes 1, case_names accept same dead deliver reset reader_exit reader_end mark swap
    close_session attach route pc forward leave finish]:
  assumes "gw_step U g g'"
  obtains (accept) exeID where "g' = acceptInbound exeID g"
  | (same) "g' = g"
  | (dead) i and f :: relay_frame and b where "ic_routes (inb g i) (fr_stream f) = Some b"
      "g' = dropRoute i (fr_stream f) b (upd_br b (\<lambda>s. s\<lparr>b_closed := True\<rparr>) g)"
  | (deliver) i f b data where "ic_routes (inb g i) (fr_stream f) = Some b" "U data = Some f"
      "g' = deliver b data False g"
  | (reset) i f b data where "ic_routes (inb g i) (fr_stream f) = Some b" "U data = Some f"
      "g' = dropRoute i (fr_stream f) b (deliver b data True g)"
  | (reader_exit) i where "i < n_inb g" "ic_pc (inb g i) = Running" "g' = readerExit i g"
  | (reader_end) i where "i < n_inb g" "ic_pc (inb g i) = Ended" "g' = readerEnd i g"
  | (mark) i where "i \<in> evicted g \<or> (i < n_inb g \<and> ic_pc (inb g i) = Unregistered)"
      "ic_phase (inb g i) = Open" "g' = closeMark i g"
  | (swap) i where "ic_phase (inb g i) = Marked" "g' = closeSwap i g"
  | (close_session) b where "b \<in> toclose g" "g' = closeBridge b g"
  | (attach) exeID i sid first f where "registry g exeID = Some i" "U first = Some f"
      "fr_stream f = sid" "g' = attach i sid first g"
  | (route) b where "b < n_br g" "b_pc (br g b) = Peeked" "g' = routeBridge b g"
  | (pc) b p where "b < n_br g" "b_pc (br g b) \<in> {Routed, Polling, Reading}" "g' = set_pc b p g"
      "p = Leaving \<or> p = Polling \<or>
       (p = Reading \<and> b_pc (br g b) = Polling \<and> ic_phase (inb g (b_inbound (br g b))) = Open)"
  | (forward) b data where "b < n_br g" "b_pc (br g b) \<in> {Routed, Reading}"
      "g' = set_pc b Polling (writeInbound b (b_inbound (br g b)) data g)"
      "data = b_first (br g b) \<or> (\<forall>f. U data = Some f \<longrightarrow> fr_stream f = b_stream (br g b))"
  | (leave) b where "b < n_br g" "b_pc (br g b) = Leaving" "g' = leaveRoute b g"
  | (finish) b where "b < n_br g" "b_pc (br g b) = Unrouted" "g' = finishBridge b g"
  using assms
proof (cases rule: gw_step.cases)
  case (reader i binary data ok)
  show ?thesis
  proof (cases "binary \<and> (\<exists>f b. U data = Some f \<and> fr_stream f \<noteq> [] \<and> ic_routes (inb g i) (fr_stream f) = Some b)")
    case False
    then have "g' = g" using reader(1)
      by (auto simp: readerFrame_def lookupRoute_def split: option.splits)
    then show ?thesis by (rule same)
  next
    case True
    then obtain f b where f: "binary" "U data = Some f" "fr_stream f \<noteq> []"
      "ic_routes (inb g i) (fr_stream f) = Some b" by blast
    have r: "upd_br b (\<lambda>s. s\<lparr>b_reset := True\<rparr>) (upd_br b (\<lambda>s. s\<lparr>b_out := b_out s @ [data]\<rparr>) g) =
        deliver b data True g"
      "upd_br b (\<lambda>s. s\<lparr>b_reset := True\<rparr>) (deliver b data False g) = deliver b data True g"
      "upd_br b (\<lambda>s. s\<lparr>b_out := b_out s @ [data]\<rparr>) g = deliver b data False g"
      by (simp_all add: upd_br_def deliver_def)
    show ?thesis
    proof (cases "ok")
      case False
      with f reader(1) show ?thesis
        by (intro dead [OF f(4)]) (simp add: readerFrame_def lookupRoute_def)
    next
      case ok: True
      show ?thesis
      proof (cases "fr_body f = BodyReset")
        case True
        with f reader(1) ok show ?thesis
          by (intro reset [OF f(4) f(2)]) (simp add: readerFrame_def lookupRoute_def r)
      next
        case False
        with f reader(1) ok show ?thesis
          by (intro deliver [OF f(4) f(2)]) (simp add: readerFrame_def lookupRoute_def r)
      qed
    qed
  qed
next
  case (attach exeID i msg sid first)
  then obtain f where "U first = Some f" "fr_stream f = sid"
    by (auto simp: firstFrame_def split: option.splits if_splits)
  with attach that(11) show ?thesis by (simp add: Lookup_def)
next
  case (resume b ok)
  with that(13) [of b Leaving] that(14) [of b "b_first (br g b)"] show ?thesis
    by (auto simp: forwardResume_def split: if_splits)
next
  case (poll b ctx_done)
  with that(13) [of b Leaving] that(13) [of b Reading] show ?thesis
    by (auto simp: pumpPoll_def split: if_splits)
next
  case (pump b msg ok)
  show ?thesis
  proof (cases "g' = set_pc b Leaving g \<or> g' = set_pc b Polling g")
    case True
    with that(13) [of b Leaving] that(13) [of b Polling] pump show ?thesis by auto
  next
    case False
    with pump(1) obtain data where
      "g' = set_pc b Polling (writeInbound b (b_inbound (br g b)) data g)"
      "\<forall>f. U data = Some f \<longrightarrow> fr_stream f = b_stream (br g b)"
      by (auto simp: pumpRead_def split: option.splits if_splits)
    with that(14) [of b data] pump show ?thesis by auto
  qed
qed (use that in \<open>auto\<close>)

lemmas gw_effects = acceptInbound_def readerExit_def readerEnd_def closeMark_def closeSwap_def closeBridge_def
  dropRoute_def deliver_def attach_def routeBridge_def writeInbound_def set_pc_def leaveRoute_def
  finishBridge_def newInboundConn_def newBridgeSession_def Register_def Unregister_def
  addRoute_def removeRoute_def Let_def

subsection \<open>What a step leaves alone\<close>

lemma step_br_kept:
  assumes "gw_step U g g'" and "c < n_br g"
  shows "c < n_br g'" "b_stream (br g' c) = b_stream (br g c)"
    "b_inbound (br g' c) = b_inbound (br g c)" "b_first (br g' c) = b_first (br g c)"
  using assms by (cases rule: gw_step_cases; simp add: gw_effects)+

lemma step_routes:
  assumes "gw_step U g g'" and "ic_routes (inb g' i) s = Some b"
  shows "ic_routes (inb g i) s = Some b \<or>
     (b < n_br g \<and> b_pc (br g b) = Peeked \<and> b_stream (br g b) = s \<and> b_inbound (br g b) = i)"
  using assms by (cases rule: gw_step_cases) (auto simp: gw_effects split: if_splits)

subsection \<open>Routes\<close>

text \<open>A route leads to a session of that stream and that connection.\<close>

definition route_ok :: "gw \<Rightarrow> bool" where
  "route_ok g \<longleftrightarrow> (\<forall>i s b. ic_routes (inb g i) s = Some b \<longrightarrow>
     b < n_br g \<and> b_stream (br g b) = s \<and> b_inbound (br g b) = i)"

lemma route_okD:
  "route_ok g \<Longrightarrow> ic_routes (inb g i) s = Some b \<Longrightarrow>
     b < n_br g \<and> b_stream (br g b) = s \<and> b_inbound (br g b) = i"
  by (simp add: route_ok_def)

lemma route_ok_step:
  assumes "gw_step U g g'" and "route_ok g"
  shows "route_ok g'"
  unfolding route_ok_def
proof (intro allI impI)
  fix i s b assume "ic_routes (inb g' i) s = Some b"
  from step_routes [OF assms(1) this] route_okD [OF assms(2)]
  have "b < n_br g" "b_stream (br g b) = s" "b_inbound (br g b) = i" by blast+
  with step_br_kept [OF assms(1), of b]
  show "b < n_br g' \<and> b_stream (br g' b) = s \<and> b_inbound (br g' b) = i" by simp
qed

subsection \<open>Frames\<close>

lemma step_delivered:
  assumes "gw_step U g g'" and "data \<in> set (b_out (br g' b))"
  shows "data \<in> set (b_out (br g b)) \<or>
     (\<exists>i f. U data = Some f \<and> ic_routes (inb g i) (fr_stream f) = Some b)"
  using assms by (cases rule: gw_step_cases) (auto simp: gw_effects split: if_splits)

lemma step_forwarded:
  assumes "gw_step U g g'" and "(b, data) \<in> set (ic_out (inb g' i))"
  shows "(b, data) \<in> set (ic_out (inb g i)) \<or>
     (b < n_br g \<and> b_inbound (br g b) = i \<and>
      (data = b_first (br g b) \<or> (\<forall>f. U data = Some f \<longrightarrow> fr_stream f = b_stream (br g b))))"
  using assms by (cases rule: gw_step_cases) (auto simp: gw_effects split: if_splits)

lemma step_first:
  assumes "gw_step U g g'" and "b < n_br g'"
  shows "b < n_br g \<or> (\<exists>f. U (b_first (br g' b)) = Some f \<and> fr_stream f = b_stream (br g' b))"
  using assms by (cases rule: gw_step_cases) (auto simp: gw_effects split: if_splits)

text \<open>The frames a session received are of its stream; the frames it sent are its own.\<close>

definition frames_ok :: "(string \<Rightarrow> relay_frame option) \<Rightarrow> gw \<Rightarrow> bool" where
  "frames_ok U g \<longleftrightarrow>
     (\<forall>b data. data \<in> set (b_out (br g b)) \<longrightarrow> b < n_br g \<and>
        (\<exists>f. U data = Some f \<and> fr_stream f = b_stream (br g b))) \<and>
     (\<forall>i b data. (b, data) \<in> set (ic_out (inb g i)) \<longrightarrow> b < n_br g \<and> b_inbound (br g b) = i \<and>
        (\<forall>f. U data = Some f \<longrightarrow> fr_stream f = b_stream (br g b))) \<and>
     (\<forall>b<n_br g. \<exists>f. U (b_first (br g b)) = Some f \<and> fr_stream f = b_stream (br g b))"

lemma frames_okD:
  assumes "frames_ok U g"
  shows "data \<in> set (b_out (br g b)) \<Longrightarrow>
      b < n_br g \<and> (\<exists>f. U data = Some f \<and> fr_stream f = b_stream (br g b))"
    and "(b, data) \<in> set (ic_out (inb g i)) \<Longrightarrow> b < n_br g \<and> b_inbound (br g b) = i \<and>
      (\<forall>f. U data = Some f \<longrightarrow> fr_stream f = b_stream (br g b))"
    and "b < n_br g \<Longrightarrow> \<exists>f. U (b_first (br g b)) = Some f \<and> fr_stream f = b_stream (br g b)"
  using assms by (simp_all add: frames_ok_def)

lemma frames_ok_step:
  assumes st: "gw_step U g g'" and r: "route_ok g" and ok: "frames_ok U g"
  shows "frames_ok U g'"
  unfolding frames_ok_def
proof (intro conjI allI impI)
  fix b data assume "data \<in> set (b_out (br g' b))"
  from step_delivered [OF st this]
  have "b < n_br g \<and> (\<exists>f. U data = Some f \<and> fr_stream f = b_stream (br g b))"
  proof (elim disjE exE conjE)
    fix i f assume "U data = Some f" "ic_routes (inb g i) (fr_stream f) = Some b"
    with route_okD [OF r] show ?thesis by auto
  qed (rule frames_okD(1) [OF ok])
  with step_br_kept [OF st, of b]
  show "b < n_br g'" "\<exists>f. U data = Some f \<and> fr_stream f = b_stream (br g' b)" by simp_all
next
  fix i b data assume "(b, data) \<in> set (ic_out (inb g' i))"
  from step_forwarded [OF st this] have b: "b < n_br g \<and> b_inbound (br g b) = i \<and>
    (\<forall>f. U data = Some f \<longrightarrow> fr_stream f = b_stream (br g b))"
    using frames_okD(2) [OF ok, of b data i] frames_okD(3) [OF ok, of b] by auto
  with step_br_kept [OF st, of b]
  show "b < n_br g'" "b_inbound (br g' b) = i"
    "\<And>f. U data = Some f \<Longrightarrow> fr_stream f = b_stream (br g' b)" by simp_all
next
  fix b assume "b < n_br g'"
  from step_first [OF st this] show "\<exists>f. U (b_first (br g' b)) = Some f \<and> fr_stream f = b_stream (br g' b)"
    using frames_okD(3) [OF ok, of b] step_br_kept [OF st, of b] by auto
qed

subsection \<open>Registry\<close>

text \<open>
  The registry holds exactly the connections whose handler has not yet unregistered them and that no later one
  replaced; none of them is marked closed.
\<close>

definition registered :: "gw \<Rightarrow> nat \<Rightarrow> bool" where
  "registered g i \<longleftrightarrow> i < n_inb g \<and> ic_pc (inb g i) \<noteq> Unregistered \<and> i \<notin> evicted g"

definition registry_ok :: "gw \<Rightarrow> bool" where
  "registry_ok g \<longleftrightarrow>
     (\<forall>exe i. registry g exe = Some i \<longleftrightarrow> registered g i \<and> ic_exe (inb g i) = exe) \<and>
     (\<forall>i. registered g i \<longrightarrow> ic_phase (inb g i) = Open) \<and> (\<forall>i\<in>evicted g. i < n_inb g)"

lemma registry_ok_cong:
  assumes "registry_ok g" and "registry g' = registry g" and "n_inb g' = n_inb g"
    and "evicted g' = evicted g"
    and "\<And>i. ic_exe (inb g' i) = ic_exe (inb g i) \<and> ic_phase (inb g' i) = ic_phase (inb g i) \<and>
      (ic_pc (inb g' i) = Unregistered \<longleftrightarrow> ic_pc (inb g i) = Unregistered)"
  shows "registry_ok g'"
proof -
  have "registered g' i = registered g i" for i using assms(3-5) by (simp add: registered_def)
  with assms show ?thesis by (simp add: registry_ok_def)
qed

lemma registry_okD:
  assumes "registry_ok g"
  shows "registry g exe = Some i \<longleftrightarrow> registered g i \<and> ic_exe (inb g i) = exe"
    and "registered g i \<Longrightarrow> ic_phase (inb g i) = Open" and "i \<in> evicted g \<Longrightarrow> i < n_inb g"
  using assms by (auto simp: registry_ok_def)

lemma registry_ok_step:
  assumes "gw_step U g g'" and ok: "registry_ok g"
  shows "registry_ok g'"
  using assms(1)
proof (cases rule: gw_step_cases)
  case (accept exeID)
  let ?n = "n_inb g"
  have f: "registry g' = (registry g)(exeID \<mapsto> ?n)" "n_inb g' = Suc ?n" "inb g' ?n = newInboundConn exeID"
    "\<And>j. j \<noteq> ?n \<Longrightarrow> inb g' j = inb g j"
    by (simp_all add: accept acceptInbound_def Register_def Let_def)
  have ev: "i \<in> evicted g' \<longleftrightarrow> i \<in> evicted g \<or> registry g exeID = Some i" for i
    using registry_okD(1) [OF ok, of exeID ?n]
    by (auto simp: registered_def accept acceptInbound_def Register_def Let_def split: option.splits)
  have lt: "i \<in> evicted g' \<Longrightarrow> i < ?n" for i
    using ev [of i] registry_okD(1,3) [OF ok] by (auto simp: registered_def)
  have reg: "registered g' i \<longleftrightarrow> i = ?n \<or> registered g i \<and> ic_exe (inb g i) \<noteq> exeID" for i
    using lt [of i] ev [of i] registry_okD(1) [OF ok, of exeID i] f(3) f(4) [of i]
    by (cases "i = ?n") (auto simp: registered_def f(2) newInboundConn_def)
  have not_new: "\<not> registered g ?n" by (simp add: registered_def)
  have "registry g' exe = Some i \<longleftrightarrow> registered g' i \<and> ic_exe (inb g' i) = exe" for exe i
    using registry_okD(1) [OF ok, of exe i] not_new f(3) f(4) [of i]
    by (cases "i = ?n") (auto simp: reg f(1) newInboundConn_def)
  moreover have "registered g' i \<Longrightarrow> ic_phase (inb g' i) = Open" for i
    using registry_okD(2) [OF ok, of i] f(3) f(4) [of i] by (cases "i = ?n") (auto simp: reg newInboundConn_def)
  ultimately show ?thesis using lt unfolding registry_ok_def f(2) by (simp add: less_SucI)
next
  case (reader_end i)
  have f: "registry g' = Unregister (registry g) (ic_exe (inb g i)) i" "evicted g' = evicted g" "n_inb g' = n_inb g"
    "\<And>j. ic_exe (inb g' j) = ic_exe (inb g j)" "\<And>j. ic_phase (inb g' j) = ic_phase (inb g j)"
    by (simp_all add: reader_end(3) readerEnd_def)
  have reg: "registered g' j \<longleftrightarrow> registered g j \<and> j \<noteq> i" for j
    by (simp add: registered_def reader_end(3) readerEnd_def)
  have "registry g' exe = Some j \<longleftrightarrow> registry g exe = Some j \<and> j \<noteq> i" for exe j
    using registry_okD(1) [OF ok, of exe i] by (auto simp: f(1) Unregister_def)
  with ok show ?thesis by (auto simp: registry_ok_def reg f)
next
  case (mark i)
  have "\<not> registered g i" using mark(1) by (auto simp: registered_def)
  moreover have "registered g' j \<longleftrightarrow> registered g j" for j by (simp add: mark(3) registered_def gw_effects)
  ultimately show ?thesis using ok mark(3) by (auto simp: registry_ok_def gw_effects)
next
  case (swap i)
  have "\<not> registered g i" using swap(1) registry_okD(2) [OF ok, of i] by auto
  moreover have "registered g' j \<longleftrightarrow> registered g j" for j by (simp add: swap(2) registered_def gw_effects)
  ultimately show ?thesis using ok swap(2) by (auto simp: registry_ok_def gw_effects)
qed (rule registry_ok_cong [OF ok]; simp add: gw_effects)+

subsection \<open>No session is forgotten\<close>

text \<open>
  A session in the loop of its pump is known to someone who will end it: its route leads to
  it, or it has been handed to be closed, or is closed, or its stream was reset.  Once the
  connection's routes have been swapped away, a session still blocked in its read is past
  the check of the closed connection, so the swap found it.
\<close>

abbreviation settled :: "gw \<Rightarrow> nat \<Rightarrow> bool" where
  "settled g b \<equiv> b_closed (br g b) \<or> b \<in> toclose g \<or> b_reset (br g b)"

definition tracked :: "gw \<Rightarrow> nat \<Rightarrow> bool" where
  "tracked g b \<longleftrightarrow>
     (let i = b_inbound (br g b) in
      (b_pc (br g b) \<in> {Routed, Polling, Reading} \<longrightarrow> ic_phase (inb g i) \<noteq> Swapped \<longrightarrow>
         settled g b \<or> ic_routes (inb g i) (b_stream (br g b)) = Some b) \<and>
      (b_pc (br g b) = Reading \<longrightarrow> ic_phase (inb g i) = Swapped \<longrightarrow> settled g b))"

definition sessions_ok :: "gw \<Rightarrow> bool" where
  "sessions_ok g \<longleftrightarrow> (\<forall>b<n_br g. b_inbound (br g b) < n_inb g \<and> tracked g b)"

lemma settled_step:
  assumes "gw_step U g g'" and "b < n_br g" and "settled g b"
  shows "settled g' b"
  using assms by (cases rule: gw_step_cases) (auto simp: gw_effects split: option.splits)

lemma step_n_inb: "gw_step U g g' \<Longrightarrow> n_inb g \<le> n_inb g'"
  by (cases rule: gw_step_cases) (auto simp: gw_effects split: option.splits)

lemma tracked_keep:
  assumes "tracked g b" and "b_pc (br g' b) \<in> {Routed, Polling, Reading} \<Longrightarrow> b_pc (br g' b) = b_pc (br g b)"
    and "b_inbound (br g' b) = b_inbound (br g b)" and "b_stream (br g' b) = b_stream (br g b)"
    and "ic_phase (inb g' (b_inbound (br g b))) = ic_phase (inb g (b_inbound (br g b)))"
    and "settled g b \<Longrightarrow> settled g' b"
    and "b_pc (br g b) \<in> {Routed, Polling, Reading} \<Longrightarrow>
      ic_routes (inb g (b_inbound (br g b))) (b_stream (br g b)) = Some b \<Longrightarrow>
      settled g' b \<or> ic_routes (inb g' (b_inbound (br g b))) (b_stream (br g b)) = Some b"
  shows "tracked g' b"
proof (cases "b_pc (br g' b) \<in> {Routed, Polling, Reading}")
  case True
  then have p: "b_pc (br g' b) = b_pc (br g b)" by (rule assms(2))
  with True have "b_pc (br g b) \<in> {Routed, Polling, Reading}" by simp
  with assms(1,6,7) show ?thesis unfolding tracked_def Let_def p assms(3-5) by blast
next
  case False
  then show ?thesis by (simp add: tracked_def)
qed

lemma tracked_step:
  assumes st: "gw_step U g g'" and r: "route_ok g" and ok: "sessions_ok g" and b: "b < n_br g"
  shows "tracked g' b"
proof -
  have t: "tracked g b" and bi: "b_inbound (br g b) < n_inb g"
    using ok b by (simp_all add: sessions_ok_def)
  note kept = step_br_kept [OF st b] and settled = settled_step [OF st b]
  from st show ?thesis
  proof (cases rule: gw_step_cases)
    case (accept exeID)
    show ?thesis
      by (rule tracked_keep [OF t _ kept(3,2) _ settled])
         (use accept bi in \<open>simp_all add: acceptInbound_def Let_def split: prod.splits\<close>)
  next
    case same
    with t show ?thesis by simp
  next
    case (dead i f c)
    show ?thesis
      by (rule tracked_keep [OF t _ kept(3,2) _ settled])
         (use dead in \<open>auto simp: dropRoute_def removeRoute_def\<close>)
  next
    case (deliver i f c data)
    show ?thesis
      by (rule tracked_keep [OF t _ kept(3,2) _ settled])
         (use deliver in \<open>auto simp: deliver_def\<close>)
  next
    case (reset i f c data)
    show ?thesis
      by (rule tracked_keep [OF t _ kept(3,2) _ settled])
         (use reset in \<open>auto simp: deliver_def dropRoute_def removeRoute_def\<close>)
  next
    case (reader_exit i)
    show ?thesis
      by (rule tracked_keep [OF t _ kept(3,2) _ settled])
         (use reader_exit in \<open>auto simp: readerExit_def\<close>)
  next
    case (reader_end i)
    show ?thesis
      by (rule tracked_keep [OF t _ kept(3,2) _ settled])
         (use reader_end in \<open>auto simp: readerEnd_def\<close>)
  next
    case (mark i)
    with t show ?thesis by (auto simp: tracked_def closeMark_def Let_def)
  next
    case (swap i)
    show ?thesis
    proof (cases "b_inbound (br g b) = i")
      case True
      with t swap show ?thesis
        by (auto simp: tracked_def closeSwap_def Let_def ran_def)
    next
      case False
      show ?thesis
        by (rule tracked_keep [OF t _ kept(3,2) _ settled])
           (use swap False in \<open>auto simp: closeSwap_def\<close>)
    qed
  next
    case (close_session c)
    show ?thesis
      by (rule tracked_keep [OF t _ kept(3,2) _ settled])
         (use close_session in \<open>auto simp: closeBridge_def\<close>)
  next
    case (attach exeID i sid first f)
    show ?thesis
      by (rule tracked_keep [OF t _ kept(3,2) _ settled])
         (use attach b in \<open>auto simp: attach_def\<close>)
  next
    case (route c)
    show ?thesis
    proof (cases "c = b")
      case True
      with route show ?thesis
        by (auto simp: tracked_def routeBridge_def addRoute_def Let_def)
    next
      case False
      show ?thesis
        by (rule tracked_keep [OF t _ kept(3,2) _ settled])
           (use route False in \<open>auto simp: routeBridge_def addRoute_def Let_def split: option.splits\<close>)
    qed
  next
    case (pc c p)
    with t show ?thesis by (auto simp: tracked_def set_pc_def Let_def)
  next
    case (forward c data)
    with t show ?thesis by (auto simp: tracked_def set_pc_def writeInbound_def Let_def)
  next
    case (leave c)
    show ?thesis
      by (rule tracked_keep [OF t _ kept(3,2) _ settled])
         (use leave in \<open>auto simp: leaveRoute_def set_pc_def dropRoute_def removeRoute_def\<close>)
  next
    case (finish c)
    show ?thesis
      by (rule tracked_keep [OF t _ kept(3,2) _ settled])
         (use finish in \<open>auto simp: finishBridge_def\<close>)
  qed
qed

lemma sessions_ok_step:
  assumes st: "gw_step U g g'" and r: "route_ok g" and reg: "registry_ok g" and ok: "sessions_ok g"
  shows "sessions_ok g'"
  unfolding sessions_ok_def
proof (intro allI impI)
  fix b assume b: "b < n_br g'"
  show "b_inbound (br g' b) < n_inb g' \<and> tracked g' b"
  proof (cases "b < n_br g")
    case True
    with ok step_br_kept [OF st True] tracked_step [OF st r ok True] step_n_inb [OF st]
    show ?thesis by (auto simp: sessions_ok_def intro: less_le_trans)
  next
    case False
    with st b obtain exeID i sid first where "registry g exeID = Some i" "g' = attach i sid first g"
      by (cases rule: gw_step_cases) (auto simp: gw_effects split: option.splits)
    with False b registry_okD(1) [OF reg, of exeID i] show ?thesis
      by (auto simp: registered_def attach_def newBridgeSession_def tracked_def less_Suc_eq)
  qed
qed

lemma gw_invariants:
  "gw_reachable U g \<Longrightarrow> route_ok g \<and> frames_ok U g \<and> registry_ok g \<and> sessions_ok g"
proof (induction rule: gw_reachable_induct)
  case init
  show ?case
    by (simp add: gw_init_def route_ok_def frames_ok_def registry_ok_def sessions_ok_def
        registered_def newInboundConn_def newBridgeSession_def NewConnRegistry_def)
next
  case (step g g')
  then show ?case
    by (blast intro: route_ok_step frames_ok_step registry_ok_step sessions_ok_step)
qed

section \<open>Properties\<close>

text \<open>C3: streams are isolated.  However the sessions of an executor's connection interleave,
  a session only ever receives frames of its own stream, and what it puts on the executor's
  connection is either of its own stream or not a frame at all; the connection is the one
  it was attached to.\<close>

theorem gateway_isolation:
  assumes "gw_reachable U g"
  shows "(data \<in> set (b_out (br g b)) \<longrightarrow> (\<exists>f. U data = Some f \<and> fr_stream f = b_stream (br g b))) \<and>
         ((b, data) \<in> set (ic_out (inb g i)) \<longrightarrow> b_inbound (br g b) = i \<and>
            (\<forall>f. U data = Some f \<longrightarrow> fr_stream f = b_stream (br g b)))"
  using frames_okD [of U g] gw_invariants [OF assms] by blast

text \<open>C5: a dial reaches the current connection of its executor.  What the registry returns for an executor is, at
  any time, the connection of that executor that no later registration has evicted and whose handler has not yet taken
  it out, if there is one; the gateway has not marked it closed.  (Between the end of its reader and \<open>Unregister\<close> a
  connection is still returned: \<open>lookup_after_exit\<close>.)\<close>

theorem gateway_registry_live:
  assumes "gw_reachable U g"
  shows "(Lookup (registry g) exe = Some i \<longleftrightarrow>
           i < n_inb g \<and> ic_exe (inb g i) = exe \<and> i \<notin> evicted g \<and> ic_pc (inb g i) \<noteq> Unregistered) \<and>
         (Lookup (registry g) exe = Some i \<longrightarrow> ic_phase (inb g i) = Open)"
  using registry_okD(1,2) [of g] gw_invariants [OF assms] by (auto simp: Lookup_def registered_def)

text \<open>C4: closing a connection forgets no session, even one whose route is added while the
  close runs.  Once the route table has been swapped away and every session handed over has
  been closed, a session still blocked in its read is closed, or its stream was reset.\<close>

theorem gateway_close_complete:
  assumes "gw_reachable U g" and "b < n_br g" and "b_pc (br g b) = Reading"
    and "ic_phase (inb g (b_inbound (br g b))) = Swapped" and "toclose g = {}"
  shows "b_closed (br g b) \<or> b_reset (br g b)"
  using gw_invariants [OF assms(1)] assms(2-5)
  by (auto simp: sessions_ok_def tracked_def Let_def)

text \<open>A run for the witnesses: a connection, a session on it, and the close.\<close>

abbreviation wU :: "string \<Rightarrow> relay_frame option" where
  "wU \<equiv> (\<lambda>d. Some \<lparr>fr_stream = ''s'', fr_body = (if d = ''r'' then BodyResume else BodyData)\<rparr>)"

definition run1 :: gw where
  "run1 = pumpPoll 0 False (forwardResume 0 True (routeBridge 0 (attach 0 ''s'' ''r''
     (acceptInbound ''e'' gw_init))))"

definition run2 :: gw where
  "run2 = readerFrame wU 0 True ''d'' True run1"

definition run3 :: gw where
  "run3 = closeBridge 0 (closeSwap 0 (closeMark 0 (readerEnd 0 (readerExit 0 run2))))"

lemma run_step: "gw_reachable U g \<Longrightarrow> gw_step U g g' \<Longrightarrow> gw_reachable U g'"
  unfolding gw_reachable_def by (rule rtranclp.rtrancl_into_rtrancl)

lemmas run_defs = run1_def run2_def run3_def gw_init_def gw_effects NewConnRegistry_def Lookup_def
  forwardResume_def pumpPoll_def pumpRead_def readerFrame_def lookupRoute_def firstFrame_def

lemma run1_reachable: "gw_reachable wU run1"
  unfolding run1_def
  by (rule run_step [OF run_step [OF run_step [OF run_step [OF run_step
        [of _ gw_init, OF _ accept] attach [where exeID = "''e''" and msg = "Some (True, ''r'')"]] route] resume] poll])
     (simp_all add: gw_reachable_def run_defs)

lemma run2_reachable: "gw_reachable wU run2"
  unfolding run2_def by (rule run_step [OF run1_reachable reader]) (simp_all add: run_defs)

lemma run3_reachable: "gw_reachable wU run3"
  unfolding run3_def
  by (rule run_step [OF run_step [OF run_step [OF run_step [OF run_step [OF run2_reachable reader_exit] reader_end] mark]
        swap] close_session]) (simp_all add: run_defs)

text \<open>A dial that comes after the reader has ended and before \<open>Unregister\<close> gets the dying connection.\<close>

lemma lookup_after_exit:
  "gw_reachable wU (readerExit 0 run2)" "ic_pc (inb (readerExit 0 run2) 0) = Ended"
  "Lookup (registry (readerExit 0 run2)) ''e'' = Some 0"
  by (rule run_step [OF run2_reachable reader_exit]; simp add: run_defs)
    (simp_all add: run_defs)

theorem gateway_isolation_witness:
  "(\<exists>f. wU ''d'' = Some f \<and> fr_stream f = b_stream (br run2 0)) \<and> b_inbound (br run2 0) = 0"
proof -
  have "''d'' \<in> set (b_out (br run2 0))" "(0, ''r'') \<in> set (ic_out (inb run2 0))"
    by (simp_all add: run_defs)
  with gateway_isolation [OF run2_reachable] show ?thesis by blast
qed

theorem gateway_registry_live_witness:
  "Lookup (registry run2) ''e'' = Some 0 \<and> ic_phase (inb run2 0) = Open \<and> Lookup (registry run3) ''e'' \<noteq> Some 0"
  using gateway_registry_live [OF run2_reachable, of "''e''" 0] gateway_registry_live [OF run3_reachable, of "''e''" 0]
  by (simp add: run_defs)

theorem gateway_close_complete_witness:
  "ic_phase (inb run3 0) = Swapped \<and> (b_closed (br run3 0) \<or> b_reset (br run3 0))"
proof -
  have "ic_phase (inb run3 (b_inbound (br run3 0))) = Swapped" by (simp add: run_defs)
  moreover have "0 < n_br run3" "b_pc (br run3 0) = Reading" "toclose run3 = {}"
    by (simp_all add: run_defs ran_def)
  ultimately show ?thesis
    using gateway_close_complete [OF run3_reachable, of 0] by (simp add: run_defs)
qed

end
