(* ===== verification/Sessions.thy ===== *)
theory Sessions
  imports Prelude
begin

text \<open>
  The sessions of long-running processes: the output ring of
  \<open>internal/envtools/processes/session.go\<close>, its table in \<open>manager.go\<close>, and the
  \<open>SessionStore\<close> of \<open>internal/envtools/tools/unified_exec.go\<close>.  Both tables drop what is
  too old; the locale \<open>expiring_store\<close> is that contract.
\<close>

section \<open>The output ring\<close>

definition MaxBufferBytes :: nat where
  "MaxBufferBytes = 1048576"

record Chunk =
  ck_stream :: string
  ck_data :: string
  ck_seq :: nat

record Session =
  s_ID :: string
  s_workspace :: string
  s_chunks :: "Chunk list"
  s_seq :: nat
  s_bytesBuf :: nat
  s_lostBytes :: nat
  s_exitCode :: "int option"
  s_lastActivity :: time

definition newSession :: "string \<Rightarrow> string \<Rightarrow> Session" where
  "newSession sid ws = \<lparr>s_ID = sid, s_workspace = ws, s_chunks = [], s_seq = 0, s_bytesBuf = 0,
     s_lostBytes = 0, s_exitCode = None, s_lastActivity = 0\<rparr>"

text \<open>The loop of \<open>Append\<close> that drops chunks from the head, on chunks, bytes held and bytes lost.\<close>

fun dropLoop :: "Chunk list \<Rightarrow> nat \<Rightarrow> nat \<Rightarrow> Chunk list \<times> nat \<times> nat" where
  "dropLoop (c # d # cs) bytesBuf lost =
     (if bytesBuf > MaxBufferBytes
      then dropLoop (d # cs) (bytesBuf - length (ck_data c)) (lost + length (ck_data c))
      else (c # d # cs, bytesBuf, lost))"
| "dropLoop cs bytesBuf lost = (cs, bytesBuf, lost)"

definition Append :: "time \<Rightarrow> Session \<Rightarrow> string \<Rightarrow> string \<Rightarrow> Session" where
  "Append now s stream data =
     (let seq = s_seq s + 1;
          chunks = s_chunks s @ [\<lparr>ck_stream = stream, ck_data = data, ck_seq = seq\<rparr>];
          (chunks', bytesBuf, lost) = dropLoop chunks (s_bytesBuf s + length data) (s_lostBytes s) in
      s\<lparr>s_seq := seq, s_chunks := chunks', s_bytesBuf := bytesBuf, s_lostBytes := lost,
        s_lastActivity := now\<rparr>)"

definition OutputSince :: "Session \<Rightarrow> int \<Rightarrow> Chunk list \<times> int option \<times> bool" where
  "OutputSince s since =
     (filter (\<lambda>c. int (ck_seq c) > since) (s_chunks s), s_exitCode s, s_exitCode s = None)"

definition SetExit :: "time \<Rightarrow> Session \<Rightarrow> int \<Rightarrow> Session" where
  "SetExit now s code = s\<lparr>s_exitCode := Some code, s_lastActivity := now\<rparr>"

subsection \<open>Specification\<close>

text \<open>The whole output of a session, every chunk with its number, whatever the ring still holds.\<close>

definition numbered :: "(string \<times> string) list \<Rightarrow> Chunk list" where
  "numbered out = map (\<lambda>(i, st, d). \<lparr>ck_stream = st, ck_data = d, ck_seq = Suc i\<rparr>)
     (zip [0..<length out] out)"

definition total :: "Chunk list \<Rightarrow> nat" where
  "total cs = sum_list (map (length \<circ> ck_data) cs)"

text \<open>
  How many chunks the ring has dropped: the fewest such that the rest fits or is a single
  chunk.
\<close>

definition fits :: "Chunk list \<Rightarrow> bool" where
  "fits cs \<longleftrightarrow> total cs \<le> MaxBufferBytes \<or> length cs \<le> 1"

definition ring_ok :: "(string \<times> string) list \<Rightarrow> Session \<Rightarrow> bool" where
  "ring_ok out s \<longleftrightarrow> s_seq s = length out \<and>
     (\<exists>k\<le>length out. s_chunks s = drop k (numbered out) \<and> s_bytesBuf s = total (s_chunks s) \<and>
        s_lostBytes s = total (take k (numbered out)) \<and> fits (s_chunks s) \<and>
        (\<forall>j<k. \<not> fits (drop j (numbered out))))"

lemma total_simps [simp]:
  "total [] = 0" "total (c # cs) = length (ck_data c) + total cs" "total (xs @ ys) = total xs + total ys"
  by (simp_all add: total_def)

lemma length_numbered [simp]: "length (numbered out) = length out"
  by (simp add: numbered_def)

lemma numbered_snoc:
  "numbered (out @ [(st, d)]) =
     numbered out @ [\<lparr>ck_stream = st, ck_data = d, ck_seq = Suc (length out)\<rparr>]"
  by (simp add: numbered_def)

lemma nth_numbered:
  "i < length out \<Longrightarrow> ck_seq (numbered out ! i) = Suc i \<and>
     (ck_stream (numbered out ! i), ck_data (numbered out ! i)) = out ! i"
  by (simp add: numbered_def split_beta)

lemma dropLoop_spec:
  assumes "bytes = total cs"
  shows "\<exists>k\<le>length cs. dropLoop cs bytes lost = (drop k cs, total (drop k cs), lost + total (take k cs)) \<and>
     fits (drop k cs) \<and> (\<forall>j<k. \<not> fits (drop j cs))"
  using assms
proof (induction cs bytes lost rule: dropLoop.induct)
  case (1 c d cs bytesBuf lost)
  show ?case
  proof (cases "bytesBuf > MaxBufferBytes")
    case True
    from 1(1) [OF True] 1(2) obtain k where k: "k \<le> length (d # cs)"
      "dropLoop (d # cs) (bytesBuf - length (ck_data c)) (lost + length (ck_data c)) =
        (drop k (d # cs), total (drop k (d # cs)), lost + length (ck_data c) + total (take k (d # cs)))"
      "fits (drop k (d # cs))" "\<forall>j<k. \<not> fits (drop j (d # cs))" by auto
    have "\<not> fits (c # d # cs)" using True 1(2) by (simp add: fits_def)
    then have "\<forall>j<Suc k. \<not> fits (drop j (c # d # cs))"
      using k(4) by (auto simp: less_Suc_eq_0_disj)
    with k True show ?thesis by (intro exI [of _ "Suc k"]) simp
  next
    case False
    with 1(2) show ?thesis by (intro exI [of _ 0]) (simp add: fits_def)
  qed
qed (auto simp: fits_def intro!: exI [of _ 0])

lemma not_fits_snoc: "\<not> fits cs \<Longrightarrow> \<not> fits (cs @ [c])"
  by (auto simp: fits_def)

lemma ring_ok_Append:
  assumes "ring_ok out s"
  shows "ring_ok (out @ [(st, d)]) (Append now s st d)"
proof -
  let ?c = "\<lparr>ck_stream = st, ck_data = d, ck_seq = Suc (length out)\<rparr>"
  from assms obtain k where k: "k \<le> length out" "s_chunks s = drop k (numbered out)"
    "s_bytesBuf s = total (s_chunks s)" "s_lostBytes s = total (take k (numbered out))"
    "\<forall>j<k. \<not> fits (drop j (numbered out))" and seq: "s_seq s = length out"
    by (auto simp: ring_ok_def)
  let ?n = "numbered (out @ [(st, d)])"
  have n: "s_chunks s @ [?c] = drop k ?n" using k(1,2) by (simp add: numbered_snoc)
  have "s_bytesBuf s + length d = total (drop k ?n)" using k(3) by (simp flip: n)
  from dropLoop_spec [OF this, of "s_lostBytes s"] obtain m where m: "m \<le> length (drop k ?n)"
    "dropLoop (drop k ?n) (s_bytesBuf s + length d) (s_lostBytes s) =
      (drop m (drop k ?n), total (drop m (drop k ?n)), s_lostBytes s + total (take m (drop k ?n)))"
    "fits (drop m (drop k ?n))" "\<forall>j<m. \<not> fits (drop j (drop k ?n))" by blast
  have "total (take (k + m) ?n) = s_lostBytes s + total (take m (drop k ?n))"
  proof -
    have "take k ?n = take k (numbered out)" using k(1) by (simp add: numbered_snoc)
    then show ?thesis by (simp only: take_add total_simps k(4))
  qed
  moreover have "\<not> fits (drop j ?n)" if "j < k + m" for j
  proof (cases "j < k")
    case True
    with k(1,5) not_fits_snoc [of "drop j (numbered out)"] show ?thesis by (simp add: numbered_snoc)
  next
    case False
    then have "\<not> fits (drop (j - k) (drop k ?n))" using that by (intro m(4) [rule_format]) simp
    with False show ?thesis by simp
  qed
  ultimately show ?thesis
    using m k(1) seq by (auto simp: ring_ok_def Append_def n Let_def add.commute intro!: exI [of _ "k + m"])
qed

lemma ring_ok_new: "ring_ok [] (newSession sid ws)"
  by (simp add: ring_ok_def newSession_def numbered_def fits_def)

definition feed :: "Session \<Rightarrow> (time \<times> string \<times> string) list \<Rightarrow> Session" where
  "feed s evs = fold (\<lambda>(now, st, d) s. Append now s st d) evs s"

lemma ring_ok_feed: "ring_ok out s \<Longrightarrow> ring_ok (out @ map snd evs) (feed s evs)"
proof (induction evs arbitrary: out s)
  case Nil
  then show ?case by (simp add: feed_def)
next
  case (Cons e evs)
  obtain now st d where e: "e = (now, st, d)" by (cases e)
  from Cons.IH [OF ring_ok_Append [OF Cons.prems, of st d now]] show ?case
    by (simp add: feed_def e)
qed

lemma filter_seq_drop:
  "filter (\<lambda>c. int (ck_seq c) > since) (drop k (numbered out)) = drop (max k (nat since)) (numbered out)"
proof (induction out rule: rev_induct)
  case Nil
  then show ?case by (simp add: numbered_def)
next
  case (snoc x out)
  obtain st d where x: "x = (st, d)" by fastforce
  show ?case
  proof (cases "k \<le> length out")
    case True
    with snoc show ?thesis by (auto simp: x numbered_snoc max_def)
  next
    case False
    then show ?thesis by (simp add: x numbered_snoc max_def) arith
  qed
qed

section \<open>Properties of the ring\<close>

text \<open>C11: whatever output a process produces, its session numbers the chunks from one, drops
  only from the head and only as many as needed to hold at most a mebibyte or a single
  chunk, counts every dropped byte, and a poll returns exactly the chunks after the given
  number that are still held, in order.\<close>

theorem session_ring:
  "\<exists>k\<le>length evs. let s = feed (newSession sid ws) evs; out = numbered (map snd evs) in
     (\<forall>since. fst (OutputSince s since) = drop (max k (nat since)) out) \<and>
     s_lostBytes s = total (take k out) \<and> s_bytesBuf s = total (drop k out) \<and>
     fits (drop k out) \<and> (\<forall>j<k. \<not> fits (drop j out))"
  using ring_ok_feed [OF ring_ok_new [of sid ws], of evs]
  by (auto simp: ring_ok_def OutputSince_def filter_seq_drop Let_def)

theorem session_ring_witness:
  "\<exists>k\<le>1. s_lostBytes (feed (newSession ''s'' ''w'') [(1, ''stdout'', ''ab'')]) =
     total (take k (numbered [(''stdout'', ''ab'')]))"
  using session_ring [of "[(1, ''stdout'', ''ab'')]" "''s''" "''w''"] by (auto simp: Let_def)

section \<open>Tables whose entries expire\<close>

record Manager =
  m_IdleTimeout :: time
  m_sessions :: "string \<rightharpoonup> Session"

definition NewManager :: "time \<Rightarrow> Manager" where
  "NewManager idle = \<lparr>m_IdleTimeout = idle, m_sessions = Map.empty\<rparr>"

definition mgrRegister :: "time \<Rightarrow> Manager \<Rightarrow> Session \<Rightarrow> Manager" where
  "mgrRegister now m s =
     m\<lparr>m_sessions := (m_sessions m)(s_ID s \<mapsto> s\<lparr>s_lastActivity := now\<rparr>)\<rparr>"

definition mgrGet :: "Manager \<Rightarrow> string \<Rightarrow> Session option" where
  "mgrGet m sid = m_sessions m sid"

definition Forget :: "Manager \<Rightarrow> string \<Rightarrow> Manager" where
  "Forget m sid = m\<lparr>m_sessions := (m_sessions m)(sid := None)\<rparr>"

definition Sweep :: "time \<Rightarrow> Manager \<Rightarrow> Manager" where
  "Sweep now m =
     m\<lparr>m_sessions := map_delete_if (\<lambda>s. s_lastActivity s < now - m_IdleTimeout m) (m_sessions m)\<rparr>"

text \<open>The table holds pointers: activity of a registered session is seen through it.\<close>

definition mgrUpdate :: "Manager \<Rightarrow> string \<Rightarrow> (Session \<Rightarrow> Session) \<Rightarrow> Manager" where
  "mgrUpdate m sid f =
     (case m_sessions m sid of
        None \<Rightarrow> m
      | Some s \<Rightarrow> m\<lparr>m_sessions := (m_sessions m)(sid \<mapsto> f s)\<rparr>)"

record unifiedSession =
  u_exeID :: string
  u_processID :: string
  u_createdAt :: time

type_synonym SessionStore = "string \<rightharpoonup> unifiedSession"

text \<open>Thirty minutes, in nanoseconds as every duration here.\<close>

definition sessionMaxAge :: time where
  "sessionMaxAge = 30 * 60 * 1000000000"

definition gcLocked :: "time \<Rightarrow> SessionStore \<Rightarrow> SessionStore" where
  "gcLocked now s = map_delete_if (\<lambda>v. u_createdAt v < now - sessionMaxAge) s"

text \<open>\<open>sid\<close> is the value of \<open>uuid.NewString()\<close>.\<close>

definition ss_add :: "time \<Rightarrow> string \<Rightarrow> SessionStore \<Rightarrow> string \<Rightarrow> string \<Rightarrow> SessionStore" where
  "ss_add now sid s exeID processID =
     (gcLocked now s)(sid \<mapsto> \<lparr>u_exeID = exeID, u_processID = processID, u_createdAt = now\<rparr>)"

definition ss_lookup :: "time \<Rightarrow> SessionStore \<Rightarrow> string \<Rightarrow> unifiedSession option \<times> SessionStore" where
  "ss_lookup now s sid = (let s' = gcLocked now s in (s' sid, s'))"

definition ss_drop :: "SessionStore \<Rightarrow> string \<Rightarrow> SessionStore" where
  "ss_drop s sid = s(sid := None)"

text \<open>
  The contract of both tables: storing an entry leaves the others, or sweeps them first, and a
  sweep removes exactly the entries that are older than the limit.
\<close>

datatype ('k, 'v) expiry_event = Put 'k 'v | Swept

fun run_expiry ::
  "(time \<Rightarrow> 's \<Rightarrow> 'k \<Rightarrow> 'v \<Rightarrow> 's) \<Rightarrow> (time \<Rightarrow> 's \<Rightarrow> 's) \<Rightarrow> 's \<Rightarrow>
   (time \<times> ('k, 'v) expiry_event) list \<Rightarrow> 's"
where
  "run_expiry put swp s [] = s"
| "run_expiry put swp s ((now, Put k v) # es) = run_expiry put swp (put now s k v) es"
| "run_expiry put swp s ((now, Swept) # es) = run_expiry put swp (swp now s) es"

locale expiring_store =
  fixes look :: "'s \<Rightarrow> 'k \<Rightarrow> 'v option"
    and put :: "time \<Rightarrow> 's \<Rightarrow> 'k \<Rightarrow> 'v \<Rightarrow> 's"
    and swp :: "time \<Rightarrow> 's \<Rightarrow> 's"
    and born :: "'v \<Rightarrow> time"
    and limit :: "'s \<Rightarrow> time"
  assumes look_put_other: "k' \<noteq> k \<Longrightarrow>
      look (put now s k v) k' = look s k' \<or> look (put now s k v) k' = look (swp now s) k'"
    and look_swp: "look (swp now s) k = Some v \<longleftrightarrow> look s k = Some v \<and> \<not> born v < now - limit s"
    and limit_kept: "limit (put now s k v) = limit s" "limit (swp now s) = limit s"
begin

lemma survives:
  assumes "look s k = Some v" and "\<forall>(now, e)\<in>set es. now \<le> born v + limit s \<and> (\<forall>w. e \<noteq> Put k w)"
  shows "look (run_expiry put swp s es) k = Some v"
  using assms
proof (induction es arbitrary: s)
  case Nil
  then show ?case by simp
next
  case (Cons x es)
  obtain now e where x: "x = (now, e)" by fastforce
  with Cons.prems(2) have now: "now \<le> born v + limit s" by simp
  then have swept: "look (swp now s) k = Some v"
    using look_swp [of now s k v] Cons.prems(1) by simp
  show ?case
  proof (cases e)
    case (Put k' v')
    with x Cons.prems(2) have "k' \<noteq> k" by auto
    then have "look (put now s k' v') k = Some v"
      using look_put_other [of k k' now s v'] swept Cons.prems(1) by auto
    with Cons Put x show ?thesis by (simp add: limit_kept)
  next
    case Swept
    with Cons swept x show ?thesis by (simp add: limit_kept)
  qed
qed

lemma expires:
  assumes "born v + limit s < now"
  shows "look (swp now s) k \<noteq> Some v"
  using assms look_swp [of now s k v] by auto

end

interpretation mgr: expiring_store mgrGet
  "\<lambda>now m k s. mgrRegister now m (s\<lparr>s_ID := k\<rparr>)" Sweep s_lastActivity m_IdleTimeout
  by unfold_locales (auto simp: mgrGet_def mgrRegister_def Sweep_def)

interpretation store: expiring_store "\<lambda>s k. s k"
  "\<lambda>now s k v. ss_add now k s (u_exeID v) (u_processID v)" gcLocked u_createdAt "\<lambda>_. sessionMaxAge"
  by unfold_locales (auto simp: ss_add_def gcLocked_def)

text \<open>A process session stays available to polls for a full idle timeout after its last
  activity, whatever sessions are registered and however often the table is swept in the
  meantime, and is gone at the first sweep after that.\<close>

theorem manager_keeps_active:
  assumes "mgrGet m sid = Some s"
    and "\<forall>(now, e)\<in>set es. now \<le> s_lastActivity s + m_IdleTimeout m \<and> (\<forall>w. e \<noteq> Put sid w)"
    and "s_lastActivity s + m_IdleTimeout m < late"
  shows "mgrGet (run_expiry (\<lambda>now m k s. mgrRegister now m (s\<lparr>s_ID := k\<rparr>)) Sweep m es) sid = Some s \<and>
         mgrGet (Sweep late m) sid = None"
  using mgr.survives [OF assms(1,2)] mgr.expires [OF assms(3), of sid] assms(1,3)
  by (auto simp: mgrGet_def Sweep_def map_delete_if_def)

theorem manager_keeps_active_witness:
  "mgrGet (Sweep 20 (mgrRegister 5 (NewManager 10) (newSession ''a'' ''w''))) ''a'' = None"
proof -
  let ?m = "mgrRegister 5 (NewManager 10) (newSession ''a'' ''w'')"
  have "mgrGet ?m ''a'' = Some ((newSession ''a'' ''w'')\<lparr>s_lastActivity := 5\<rparr>)"
    by (simp add: mgrGet_def mgrRegister_def newSession_def NewManager_def)
  from manager_keeps_active [OF this, of "[(9, Swept)]" 20] show ?thesis
    by (simp add: mgrRegister_def NewManager_def)
qed

end
