(* ===== verification/Env_Tools.thy ===== *)
theory Env_Tools
  imports Go_Encoding Sessions
begin

text \<open>
  The tools that run processes on an executor: the name resolver
  (\<open>internal/envtools/nameresolver/resolver.go\<close>), the connection pool
  (\<open>internal/envtools/bridge/pool.go\<close>), the \<open>shell\<close> tool (\<open>tools/shell.go\<close>) and the
  \<open>exec_command\<close> family (\<open>tools/unified_exec.go\<close>).

  The executor is not part of the repository.  Its state is a type \<open>'x\<close>, its RPCs are a
  record of functions on it, and what the code relies on is the predicate \<open>read_contract\<close>.
\<close>

section \<open>Name resolver\<close>

record ConnectedEntry =
  ce_ExeID :: string
  ce_Name :: string

record Resolver =
  r_cache :: "string \<rightharpoonup> string"
  r_cachedAt :: "time option"

definition nameResolverCacheTTL :: time where
  "nameResolverCacheTTL = 10 * 1000000000"

definition NewResolver :: Resolver where
  "NewResolver = \<lparr>r_cache = Map.empty, r_cachedAt = None\<rparr>"

text \<open>The loop that fills the fresh cache: a later entry of the same name wins.\<close>

definition freshCache :: "ConnectedEntry list \<Rightarrow> (string \<rightharpoonup> string)" where
  "freshCache es =
     fold (\<lambda>e c. if ce_Name e \<noteq> [] then c(ce_Name e \<mapsto> ce_ExeID e) else c) es Map.empty"

text \<open>\<open>refresh\<close> at time \<open>now\<close>, with what the fetch answers.\<close>

definition refresh ::
  "time \<Rightarrow> string + ConnectedEntry list \<Rightarrow> Resolver \<Rightarrow> (string + ConnectedEntry list) \<times> Resolver" where
  "refresh now answer r =
     (case answer of
        Inl e \<Rightarrow> (Inl e, r\<lparr>r_cachedAt := Some now\<rparr>)
      | Inr es \<Rightarrow> (Inr es, r\<lparr>r_cachedAt := Some now, r_cache := freshCache es\<rparr>))"

definition stale :: "time \<Rightarrow> Resolver \<Rightarrow> bool" where
  "stale now r = (case r_cachedAt r of None \<Rightarrow> True | Some t \<Rightarrow> now - t > nameResolverCacheTTL)"

datatype resolve_err = NameRequired | RefreshFailed string | NoSuchEnvironment string

definition Resolve ::
  "time \<Rightarrow> string + ConnectedEntry list \<Rightarrow> Resolver \<Rightarrow> string \<Rightarrow> (resolve_err + string) \<times> Resolver" where
  "Resolve now answer r name =
     (if name = [] then (Inl NameRequired, r)
      else (case (r_cache r name, stale now r) of
          (Some exeID, False) \<Rightarrow> (Inr exeID, r)
        | (cached, _) \<Rightarrow>
            (case refresh now answer r of
               (Inl e, r') \<Rightarrow>
                 (case cached of Some exeID \<Rightarrow> (Inr exeID, r') | None \<Rightarrow> (Inl (RefreshFailed e), r'))
             | (Inr _, r') \<Rightarrow>
                 (case r_cache r' name of
                    Some exeID \<Rightarrow> (Inr exeID, r')
                  | None \<Rightarrow> (Inl (NoSuchEnvironment name), r')))))"

lemma freshCache_snoc:
  "freshCache (es @ [e]) = (if ce_Name e \<noteq> [] then (freshCache es)(ce_Name e \<mapsto> ce_ExeID e) else freshCache es)"
  by (simp add: freshCache_def)

lemma freshCache_last:
  "freshCache es name = Some exe \<longleftrightarrow>
     name \<noteq> [] \<and> (\<exists>pre e post. es = pre @ e # post \<and> ce_Name e = name \<and> ce_ExeID e = exe \<and>
        (\<forall>x\<in>set post. ce_Name x \<noteq> name))"
proof (induction es rule: rev_induct)
  case Nil
  then show ?case by (simp add: freshCache_def)
next
  case (snoc x es)
  note IH = snoc.IH
  show ?case (is "?l \<longleftrightarrow> ?r")
  proof
    assume ?l
    show ?r
    proof (cases "ce_Name x = name")
      case True
      with \<open>?l\<close> have "name \<noteq> []" "ce_ExeID x = exe"
        using IH by (auto simp: freshCache_snoc split: if_splits)
      with True have "es @ [x] = es @ x # [] \<and> ce_Name x = name \<and> ce_ExeID x = exe \<and>
          (\<forall>y\<in>set []. ce_Name y \<noteq> name)" by simp
      with \<open>name \<noteq> []\<close> show ?thesis by blast
    next
      case False
      with \<open>?l\<close> have "freshCache es name = Some exe" by (simp add: freshCache_snoc split: if_splits)
      with IH obtain pre e post where "es = pre @ e # post" "ce_Name e = name"
        "ce_ExeID e = exe" "\<forall>x\<in>set post. ce_Name x \<noteq> name" "name \<noteq> []" by blast
      with False have "es @ [x] = pre @ e # (post @ [x]) \<and> ce_Name e = name \<and> ce_ExeID e = exe \<and>
          (\<forall>y\<in>set (post @ [x]). ce_Name y \<noteq> name)" by auto
      with \<open>name \<noteq> []\<close> show ?thesis by blast
    qed
  next
    assume ?r
    then obtain pre e post where r: "es @ [x] = pre @ e # post" "ce_Name e = name"
      "ce_ExeID e = exe" "\<forall>x\<in>set post. ce_Name x \<noteq> name" "name \<noteq> []" by blast
    show ?l
    proof (cases post rule: rev_cases)
      case Nil
      with r show ?thesis by (simp add: freshCache_snoc)
    next
      case (snoc post' y)
      with r have y: "x = y" "ce_Name y \<noteq> name" and es: "es = pre @ e # post'" by simp_all
      have "freshCache es name = Some exe"
        unfolding IH using r(2-5) es \<open>post = post' @ [y]\<close> by auto
      with y show ?thesis by (simp add: freshCache_snoc)
    qed
  qed
qed

text \<open>What a name resolves to is never made up.  It is the binding the cache holds, or the
  last binding of that name in the list the gateway just returned; the cache alone decides
  only while it is at most ten seconds old or the gateway does not answer, and a name that
  is not in the cache always asks the gateway, however recent the last refresh was.\<close>

theorem Resolve_sound:
  "(case Resolve now answer r name of
      (Inr exe, r') \<Rightarrow>
        (r_cache r name = Some exe \<and> (\<not> stale now r \<or> (\<exists>e. answer = Inl e))) \<or>
        (\<exists>pre e post. answer = Inr (pre @ e # post) \<and> ce_Name e = name \<and> ce_ExeID e = exe \<and>
           (\<forall>x\<in>set post. ce_Name x \<noteq> name))
    | (Inl err, r') \<Rightarrow> name = [] \<or> (r_cache r' name = None \<and> r_cachedAt r' = Some now)) \<and>
   (name \<noteq> [] \<and> r_cache r name = None \<longrightarrow> r_cachedAt (snd (Resolve now answer r name)) = Some now)"
proof (cases answer)
  case (Inl e)
  then show ?thesis
    by (cases "r_cache r name"; cases "stale now r") (auto simp: Resolve_def refresh_def)
next
  case (Inr es)
  have "\<exists>pre e post. es = pre @ e # post \<and> ce_Name e = name \<and> ce_ExeID e = exe \<and>
      (\<forall>x\<in>set post. ce_Name x \<noteq> name)" if "freshCache es name = Some exe" for exe
    using that freshCache_last [of es name exe] by blast
  with Inr show ?thesis
    by (cases "r_cache r name"; cases "stale now r")
       (auto simp: Resolve_def refresh_def split: option.splits)
qed

theorem Resolve_sound_witness:
  "r_cachedAt (snd (Resolve 5 (Inr []) NewResolver ''lab'')) = Some 5 \<and>
   (\<exists>err. fst (Resolve 5 (Inr []) NewResolver ''lab'') = Inl err)"
  using Resolve_sound [where now = 5 and answer = "Inr []" and r = NewResolver and name = "''lab''"]
  by (auto simp: NewResolver_def Resolve_def refresh_def freshCache_def stale_def)

section \<open>Connection pool\<close>

text \<open>
  The pool of one workspace, with the clients it has dialed.  A client is a number; \<open>Get\<close>
  works in two critical sections with the dial and the handshake between them, so a client
  in that window is \<open>in flight\<close>.
\<close>

record pool =
  p_conns :: "string \<rightharpoonup> nat"
  p_closed :: "nat set"
  p_inflight :: "(nat \<times> string) set"
  p_next :: nat

definition NewPool :: pool where
  "NewPool = \<lparr>p_conns = Map.empty, p_closed = {}, p_inflight = {}, p_next = 0\<rparr>"

text \<open>The first section of \<open>Get\<close>: a live client, or the cleaned table and a dial to make.\<close>

definition poolLookup :: "pool \<Rightarrow> string \<Rightarrow> nat option \<times> pool" where
  "poolLookup p exeID =
     (case p_conns p exeID of
        None \<Rightarrow> (None, p)
      | Some c \<Rightarrow>
          if c \<in> p_closed p then (None, p\<lparr>p_conns := (p_conns p)(exeID := None)\<rparr>)
          else (Some c, p))"

text \<open>A dial that succeeds; its client is new.\<close>

definition poolDial :: "pool \<Rightarrow> string \<Rightarrow> pool" where
  "poolDial p exeID = p\<lparr>p_inflight := insert (p_next p, exeID) (p_inflight p), p_next := Suc (p_next p)\<rparr>"

text \<open>A handshake that fails closes the client.\<close>

definition poolHandshakeFail :: "pool \<Rightarrow> nat \<Rightarrow> string \<Rightarrow> pool" where
  "poolHandshakeFail p c exeID =
     p\<lparr>p_inflight := p_inflight p - {(c, exeID)}, p_closed := insert c (p_closed p)\<rparr>"

text \<open>The second section: the client enters the table, unless it lost the race.\<close>

definition poolCommit :: "pool \<Rightarrow> nat \<Rightarrow> string \<Rightarrow> nat \<times> pool" where
  "poolCommit p c exeID =
     (let p' = p\<lparr>p_inflight := p_inflight p - {(c, exeID)}\<rparr> in
      case p_conns p exeID of
        Some existing \<Rightarrow>
          if existing \<in> p_closed p then (c, p'\<lparr>p_conns := (p_conns p)(exeID \<mapsto> c)\<rparr>)
          else (existing, p'\<lparr>p_closed := insert c (p_closed p)\<rparr>)
      | None \<Rightarrow> (c, p'\<lparr>p_conns := (p_conns p)(exeID \<mapsto> c)\<rparr>))"

definition poolClose :: "pool \<Rightarrow> pool" where
  "poolClose p = p\<lparr>p_conns := Map.empty, p_closed := p_closed p \<union> ran (p_conns p)\<rparr>"

inductive pool_step :: "pool \<Rightarrow> pool \<Rightarrow> bool" where
  get: "pool_step p (snd (poolLookup p exeID))"
| dial: "pool_step p (poolDial p exeID)"
| fail: "(c, exeID) \<in> p_inflight p \<Longrightarrow> pool_step p (poolHandshakeFail p c exeID)"
| commit: "(c, exeID) \<in> p_inflight p \<Longrightarrow> pool_step p (snd (poolCommit p c exeID))"
| remote: "c < p_next p \<Longrightarrow> pool_step p (p\<lparr>p_closed := insert c (p_closed p)\<rparr>)"
| shutdown: "pool_step p (poolClose p)"

definition pool_inv :: "pool \<Rightarrow> bool" where
  "pool_inv p \<longleftrightarrow>
     (\<forall>c<p_next p. c \<in> p_closed p \<or> (\<exists>e. (c, e) \<in> p_inflight p) \<or> c \<in> ran (p_conns p)) \<and>
     (\<forall>(c, e)\<in>p_inflight p. c < p_next p) \<and>
     (\<forall>c\<in>ran (p_conns p). c < p_next p)"

lemma ran_upd_keep: "c \<in> ran m \<Longrightarrow> m k \<noteq> Some c \<Longrightarrow> c \<in> ran (m(k := v))"
  by (auto simp: ran_def)

lemma ran_upd_in: "c \<in> ran (m(k := v)) \<Longrightarrow> c \<in> ran m \<or> v = Some c"
  by (auto simp: ran_def split: if_splits)

lemma pool_invD:
  assumes "pool_inv p"
  shows "c < p_next p \<Longrightarrow> c \<in> p_closed p \<or> (\<exists>e. (c, e) \<in> p_inflight p) \<or> c \<in> ran (p_conns p)"
    and "(c, e) \<in> p_inflight p \<Longrightarrow> c < p_next p" and "p_conns p k = Some c \<Longrightarrow> c < p_next p"
  using assms by (auto simp: pool_inv_def ran_def)

lemma pool_inv_upd:
  assumes inv: "pool_inv p" and n: "p_next p' = p_next p" and cl: "p_closed p \<subseteq> p_closed p'"
    and fl: "p_inflight p' \<subseteq> p_inflight p" and cn: "p_conns p' = (p_conns p)(k := v)"
    and old: "\<And>c. p_conns p k = Some c \<Longrightarrow> c \<in> p_closed p' \<or> v = Some c"
    and v: "\<And>c. v = Some c \<Longrightarrow> c < p_next p"
    and gone: "\<And>c e. (c, e) \<in> p_inflight p \<Longrightarrow> (c, e) \<in> p_inflight p' \<or> c \<in> p_closed p' \<or> v = Some c"
  shows "pool_inv p'"
  unfolding pool_inv_def n
proof (intro conjI allI impI ballI)
  fix c assume "c < p_next p"
  from pool_invD(1) [OF inv this]
  show "c \<in> p_closed p' \<or> (\<exists>e. (c, e) \<in> p_inflight p') \<or> c \<in> ran (p_conns p')"
  proof (elim disjE exE)
    assume "c \<in> p_closed p" then show ?thesis using cl by blast
  next
    fix e assume "(c, e) \<in> p_inflight p"
    from gone [OF this] show ?thesis by (auto simp: cn ran_def)
  next
    assume "c \<in> ran (p_conns p)"
    with old [of c] ran_upd_keep [of c "p_conns p" k v] show ?thesis
      by (cases "p_conns p k = Some c") (auto simp: cn ran_def)
  qed
next
  fix x assume "x \<in> p_inflight p'"
  with fl pool_invD(2) [OF inv] show "case x of (c, e) \<Rightarrow> c < p_next p" by (cases x) auto
next
  fix c assume "c \<in> ran (p_conns p')"
  with ran_upd_in [of c "p_conns p" k v] v pool_invD(3) [OF inv]
  show "c < p_next p" unfolding cn by (auto simp: ran_def)
qed

lemma pool_inv_step: "pool_step p p' \<Longrightarrow> pool_inv p \<Longrightarrow> pool_inv p'"
proof (induction rule: pool_step.induct)
  case (get p exeID)
  then show ?case
  proof (cases "snd (poolLookup p exeID) = p")
    case False
    then obtain c where "p_conns p exeID = Some c" "c \<in> p_closed p"
      by (auto simp: poolLookup_def split: option.splits if_splits)
    then show ?thesis
      by (intro pool_inv_upd [OF get, of _ exeID None]) (auto simp: poolLookup_def)
  qed simp
next
  case (dial p exeID)
  then show ?case
    by (fastforce simp: pool_inv_def poolDial_def less_Suc_eq)
next
  case (fail c exeID p)
  show ?case
    by (rule pool_inv_upd [OF fail(2), of _ undefined "p_conns p undefined"])
       (use pool_invD(3) [OF fail(2)] in \<open>auto simp: poolHandshakeFail_def\<close>)
next
  case (commit c exeID p)
  have lt: "c < p_next p" using pool_invD(2) [OF commit(2) commit(1)] .
  show ?case
  proof (cases "\<exists>e. p_conns p exeID = Some e \<and> e \<notin> p_closed p")
    case True
    then obtain e where "p_conns p exeID = Some e" "e \<notin> p_closed p" by blast
    then show ?thesis
      by (intro pool_inv_upd [OF commit(2), of _ exeID "Some e"])
         (use pool_invD(3) [OF commit(2)] in \<open>auto simp: poolCommit_def Let_def\<close>)
  next
    case False
    then have "snd (poolCommit p c exeID) = p\<lparr>p_inflight := p_inflight p - {(c, exeID)},
        p_conns := (p_conns p)(exeID \<mapsto> c)\<rparr>"
      by (auto simp: poolCommit_def Let_def split: option.splits)
    then show ?thesis
      using False lt by (intro pool_inv_upd [OF commit(2), of _ exeID "Some c"]) auto
  qed
next
  case (remote c p)
  show ?case
    by (rule pool_inv_upd [OF remote(2), of _ undefined "p_conns p undefined"])
       (use pool_invD(3) [OF remote(2)] in auto)
next
  case (shutdown p)
  then show ?case by (auto simp: pool_inv_def poolClose_def)
qed

text \<open>The pool leaks no connection.  However concurrent gets race to dial the same executor,
  and whenever peers close or the pool is shut down, every client that was ever dialed is
  closed, still being set up by its own get, or in the table; and a get that commits hands
  out the client that is in the table.\<close>

theorem pool_no_leak:
  assumes "pool_step\<^sup>*\<^sup>* NewPool p"
  shows "(c < p_next p \<longrightarrow> c \<in> p_closed p \<or> (\<exists>e. (c, e) \<in> p_inflight p) \<or>
            (\<exists>exe. p_conns p exe = Some c)) \<and>
         (case poolCommit p d exeID of (got, p') \<Rightarrow> p_conns p' exeID = Some got \<and>
            (got \<noteq> d \<longrightarrow> d \<in> p_closed p' \<and> got \<notin> p_closed p))"
proof -
  have "pool_inv p"
    using assms
  proof (induction rule: rtranclp_induct)
    case base
    show ?case by (simp add: pool_inv_def NewPool_def)
  next
    case (step y z)
    show ?case by (rule pool_inv_step [OF step(2,3)])
  qed
  from pool_invD(1) [OF this, of c] show ?thesis
    by (auto simp: poolCommit_def Let_def ran_def split: option.splits)
qed

theorem pool_no_leak_witness:
  "\<exists>p :: pool. p_next p = 1 \<and> (0 \<in> p_closed p \<or> (\<exists>e. (0, e) \<in> p_inflight p) \<or> (\<exists>exe. p_conns p exe = Some 0))"
proof -
  have "pool_step\<^sup>*\<^sup>* NewPool (poolDial NewPool ''e'')"
    by (rule r_into_rtranclp) (rule dial)
  from pool_no_leak [OF this, where c = 0 and d = 0 and exeID = "''e''"]
  have "p_next (poolDial NewPool ''e'') = 1 \<and> (0 \<in> p_closed (poolDial NewPool ''e'') \<or>
      (\<exists>e. (0, e) \<in> p_inflight (poolDial NewPool ''e'')) \<or>
      (\<exists>exe. p_conns (poolDial NewPool ''e'') exe = Some 0))"
    by (simp add: poolDial_def NewPool_def)
  then show ?thesis by blast
qed

section \<open>Processes of an executor\<close>

record ProcessStartParams =
  ps_id :: string
  ps_argv :: "string list"
  ps_cwd :: string
  ps_tty :: bool
  ps_pipe :: bool

record ProcessReadParams =
  pr_id :: string
  pr_after :: nat
  pr_max :: int
  pr_wait :: int

text \<open>A chunk's base-64 payload is given decoded; \<open>None\<close> when it does not decode.\<close>

record ProcessOutputChunk =
  oc_stream :: string
  oc_data :: "string option"

record ProcessReadResult =
  rr_chunks :: "ProcessOutputChunk list"
  rr_next :: nat
  rr_exited :: bool
  rr_code :: "int option"
  rr_closed :: bool
  rr_failure :: "string option"

datatype read_reply = ReadError string | ReadUndecodable string | ReadOk ProcessReadResult

record 'x proc_rpc =
  procStart :: "'x \<Rightarrow> ProcessStartParams \<Rightarrow> string option \<times> 'x"
  procRead :: "'x \<Rightarrow> ProcessReadParams \<Rightarrow> read_reply \<times> 'x"
  procWrite :: "'x \<Rightarrow> string \<Rightarrow> string \<Rightarrow> string option \<times> 'x"
  procTerminate :: "'x \<Rightarrow> string \<Rightarrow> string option \<times> 'x"

definition defaultMaxBytes :: int where "defaultMaxBytes = 65536"

section \<open>The shell tool\<close>






definition pidOf :: "string \<Rightarrow> nat \<Rightarrow> string" where
  "pidOf prefix n = prefix @ FormatInt (int n)"

datatype shell_result =
    EnvironmentRequired
  | CommandRequired
  | NotResolved resolve_err
  | Unavailable string
  | StartFailed string
  | ReadFailed string string
  | DecodeFailed string
  | ShellDone string string "int option" "string option"


definition shellIsError :: "shell_result \<Rightarrow> bool" where
  "shellIsError r = (case r of ShellDone _ _ code failure \<Rightarrow> failure \<noteq> None \<or> code = None | _ \<Rightarrow> True)"

definition shellText :: "string \<Rightarrow> string \<Rightarrow> int option \<Rightarrow> string option \<Rightarrow> string" where
  "shellText out err code failure =
     out @
     (if err = [] then [] else (if out = [] then [] else [CHR 0x0A] @ ''--- stderr ---'' @ [CHR 0x0A]) @ err) @
     (case failure of None \<Rightarrow> [] | Some f \<Rightarrow> [CHR 0x0A] @ ''[exec failure: '' @ f @ '']'') @
     (case code of
        Some c \<Rightarrow> [CHR 0x0A] @ ''[exit_code='' @ FormatInt c @ '']''
      | None \<Rightarrow> [CHR 0x0A] @ ''[exec timed out without exit signal]'')"

subsection \<open>What a shell call returns\<close>


definition errPart :: "(string \<times> string) list \<Rightarrow> string" where
  "errPart l = concat (map snd (filter (\<lambda>(st, _). st = ''stderr'') l))"

definition outPart :: "(string \<times> string) list \<Rightarrow> string" where
  "outPart l = concat (map snd (filter (\<lambda>(st, _). st \<noteq> ''stderr'') l))"


lemma parts_Nil [simp]: "errPart [] = []" "outPart [] = []"
  by (simp_all add: errPart_def outPart_def)









text \<open>An executor whose state is what its process has written and what it will write: each read brings one more chunk.\<close>

definition sample_rpc :: "((string \<times> string) list \<times> (string \<times> string) list) proc_rpc" where
  "sample_rpc = \<lparr>procStart = (\<lambda>x p. (None, x)),
     procRead = (\<lambda>(l, f) p. if pr_after p > Suc (length l) then (ReadError ''seq'', l, f)
        else (let l' = l @ take 1 f in
          (ReadOk \<lparr>rr_chunks = map (\<lambda>(st, d). \<lparr>oc_stream = st, oc_data = Some d\<rparr>) (drop (pr_after p - 1) l'),
                   rr_next = Suc (length l'), rr_exited = (f = []), rr_code = (if f = [] then Some 0 else None),
                   rr_closed = (f = []), rr_failure = None\<rparr>, l', drop 1 f))),
     procWrite = (\<lambda>x _ _. (None, x)), procTerminate = (\<lambda>x _. (None, x))\<rparr>"



section \<open>The exec\_command family\<close>

datatype exec_reply =
    ArgumentsRequired
  | ExecNotResolved resolve_err
  | ExecUnavailable string
  | ExecStartFailed string
  | SessionStarted string
  | NoSuchSession
  | SessionUnavailable string
  | CallFailed string
  | CallOk
  | OutputRead ProcessReadResult
  | OutputUndecoded

record 'x exec_state =
  x_seq :: nat
  x_store :: SessionStore
  x_world :: 'x

text \<open>
  \<open>UnifiedExecTool.Call\<close>; \<open>sid\<close> is the identifier \<open>uuid.NewString()\<close> yields.  An empty working
  directory becomes \<open>/tmp\<close>, so the later test for an empty one never fires.
\<close>

definition execCommand ::
  "(string \<Rightarrow> resolve_err + string) \<Rightarrow> (string \<Rightarrow> string + 'x proc_rpc) \<Rightarrow> time \<Rightarrow> string \<Rightarrow>
   'x exec_state \<Rightarrow> string \<Rightarrow> string list \<Rightarrow> string \<Rightarrow> bool \<Rightarrow> bool \<Rightarrow> exec_reply \<times> 'x exec_state"
where
  "execCommand resolve connect now sid st env command cwd tty pipe =
     (if env = [] \<or> command = [] then (ArgumentsRequired, st)
      else (let cwd1 = (if cwd = [] then ''/tmp'' else cwd) in
        case resolve env of
          Inl e \<Rightarrow> (ExecNotResolved e, st)
        | Inr exeID \<Rightarrow>
            (case connect exeID of
               Inl e \<Rightarrow> (ExecUnavailable e, st)
             | Inr R \<Rightarrow>
                 (let seq' = Suc (x_seq st); pid = pidOf ''uexec-'' seq';
                      cwd2 = (if cwd1 = [] then ''.'' else cwd1) in
                  case procStart R (x_world st) \<lparr>ps_id = pid, ps_argv = command, ps_cwd = cwd2,
                         ps_tty = tty, ps_pipe = pipe\<rparr> of
                    (Some e, x1) \<Rightarrow> (ExecStartFailed e, st\<lparr>x_seq := seq', x_world := x1\<rparr>)
                  | (None, x1) \<Rightarrow>
                      (SessionStarted sid,
                       st\<lparr>x_seq := seq', x_world := x1,
                          x_store := ss_add now sid (x_store st) exeID pid\<rparr>)))))"

text \<open>
  The common head of the three follow-up tools: the session of that environment.  \<open>read_output\<close>
  hands the executor's reply on as text, whether or not it decodes.
\<close>

definition sessionFor ::
  "time \<Rightarrow> 'x exec_state \<Rightarrow> string \<Rightarrow> string \<Rightarrow> unifiedSession option \<times> 'x exec_state" where
  "sessionFor now st env sid =
     (let (s, store) = ss_lookup now (x_store st) sid; st' = st\<lparr>x_store := store\<rparr> in
      case s of
        None \<Rightarrow> (None, st')
      | Some sess \<Rightarrow> if u_exeID sess \<noteq> env then (None, st') else (Some sess, st'))"

definition writeStdin ::
  "(string \<Rightarrow> string + 'x proc_rpc) \<Rightarrow> time \<Rightarrow> 'x exec_state \<Rightarrow> string \<Rightarrow> string \<Rightarrow> string \<Rightarrow>
   exec_reply \<times> 'x exec_state" where
  "writeStdin connect now st env sid chars =
     (case sessionFor now st env sid of
        (None, st') \<Rightarrow> (NoSuchSession, st')
      | (Some sess, st') \<Rightarrow>
          (case connect (u_exeID sess) of
             Inl e \<Rightarrow> (SessionUnavailable e, st')
           | Inr R \<Rightarrow>
               (case procWrite R (x_world st') (u_processID sess) chars of
                  (Some e, x1) \<Rightarrow> (CallFailed e, st'\<lparr>x_world := x1\<rparr>)
                | (None, x1) \<Rightarrow> (CallOk, st'\<lparr>x_world := x1\<rparr>))))"

definition readOutput ::
  "(string \<Rightarrow> string + 'x proc_rpc) \<Rightarrow> time \<Rightarrow> 'x exec_state \<Rightarrow> string \<Rightarrow> string \<Rightarrow> nat \<Rightarrow> int \<Rightarrow>
   exec_reply \<times> 'x exec_state" where
  "readOutput connect now st env sid after yieldMs =
     (case sessionFor now st env sid of
        (None, st') \<Rightarrow> (NoSuchSession, st')
      | (Some sess, st') \<Rightarrow>
          (case connect (u_exeID sess) of
             Inl e \<Rightarrow> (SessionUnavailable e, st')
           | Inr R \<Rightarrow>
               (case procRead R (x_world st') \<lparr>pr_id = u_processID sess, pr_after = after,
                       pr_max = defaultMaxBytes, pr_wait = (if yieldMs \<le> 0 then 1000 else yieldMs)\<rparr> of
                  (ReadOk r, x1) \<Rightarrow> (OutputRead r, st'\<lparr>x_world := x1\<rparr>)
                | (ReadUndecodable e, x1) \<Rightarrow> (OutputUndecoded, st'\<lparr>x_world := x1\<rparr>)
                | (ReadError e, x1) \<Rightarrow> (CallFailed e, st'\<lparr>x_world := x1\<rparr>))))"

definition terminate ::
  "(string \<Rightarrow> string + 'x proc_rpc) \<Rightarrow> time \<Rightarrow> 'x exec_state \<Rightarrow> string \<Rightarrow> string \<Rightarrow>
   exec_reply \<times> 'x exec_state" where
  "terminate connect now st env sid =
     (case sessionFor now st env sid of
        (None, st') \<Rightarrow> (NoSuchSession, st')
      | (Some sess, st') \<Rightarrow>
          (let st2 = st'\<lparr>x_store := ss_drop (x_store st') sid\<rparr> in
           case connect (u_exeID sess) of
             Inl e \<Rightarrow> (CallOk, st2)
           | Inr R \<Rightarrow>
               (case procTerminate R (x_world st2) (u_processID sess) of
                  (Some e, x1) \<Rightarrow> (CallFailed e, st2\<lparr>x_world := x1\<rparr>)
                | (None, x1) \<Rightarrow> (CallOk, st2\<lparr>x_world := x1\<rparr>))))"

lemma execCommand_session:
  assumes "execCommand resolve connect now sid st env command cwd tty pipe = (SessionStarted sid', st')"
  shows "\<exists>exe. resolve env = Inr exe \<and> sid' = sid \<and>
     x_store st' sid = Some \<lparr>u_exeID = exe, u_processID = pidOf ''uexec-'' (Suc (x_seq st)), u_createdAt = now\<rparr>"
  using assms
  by (auto simp: execCommand_def Let_def ss_add_def split: if_splits sum.splits prod.splits option.splits)

text \<open>The follow-up tools of a session started by name never find it under that name.  A
  session is stored under the executor's identifier, and the other tools compare the
  environment they are given with it: given the environment the command was started with,
  they report that there is no such session, unless the name is the identifier itself.\<close>

theorem followup_by_name_fails:
  assumes "execCommand resolve connect now sid st env command cwd tty pipe = (SessionStarted sid, st')"
    and "resolve env \<noteq> Inr env"
  shows "fst (writeStdin connect later st' env sid chars) = NoSuchSession \<and>
         fst (readOutput connect later st' env sid after yieldMs) = NoSuchSession \<and>
         fst (terminate connect later st' env sid) = NoSuchSession"
proof -
  from execCommand_session [OF assms(1)] assms(2) obtain exe where "exe \<noteq> env"
    "x_store st' sid = Some \<lparr>u_exeID = exe, u_processID = pidOf ''uexec-'' (Suc (x_seq st)), u_createdAt = now\<rparr>"
    by auto
  then have "fst (sessionFor later st' env sid) = None"
    by (auto simp: sessionFor_def ss_lookup_def gcLocked_def map_delete_if_def Let_def
        split: option.splits)
  then show ?thesis
    by (auto simp: writeStdin_def readOutput_def terminate_def split: prod.splits option.splits)
qed

theorem followup_by_name_fails_witness:
  "fst (readOutput (\<lambda>_. Inr sample_rpc) 6
     (snd (execCommand (\<lambda>_. Inr ''exe_1'') (\<lambda>_. Inr sample_rpc) 5 ''sid''
        \<lparr>x_seq = 0, x_store = Map.empty, x_world = ([], [])\<rparr> ''lab'' [''ls''] [] False False))
     ''lab'' ''sid'' 0 0) = NoSuchSession"
proof -
  obtain st' where e: "execCommand (\<lambda>_. Inr ''exe_1'') (\<lambda>_. Inr sample_rpc) 5 ''sid''
      \<lparr>x_seq = 0, x_store = Map.empty, x_world = ([], [])\<rparr> ''lab'' [''ls''] [] False False =
      (SessionStarted ''sid'', st')"
    by (simp add: execCommand_def sample_rpc_def Let_def)
  from followup_by_name_fails [OF e] e show ?thesis by simp
qed

text \<open>Under the executor's identifier the tools do reach the process, until half an hour after
  the start: the session survives whatever other sessions are opened meanwhile, and is
  gone afterwards however recently it was used.\<close>

theorem followup_by_id_works:
  fixes es :: "(time \<times> (string, unifiedSession) expiry_event) list"
  assumes "execCommand resolve connect now sid st env command cwd tty pipe = (SessionStarted sid, st')"
    and "resolve env = Inr exe" and "connect exe = Inr R"
    and "\<forall>(t, e)\<in>set es. t \<le> now + sessionMaxAge \<and> (\<forall>w. e \<noteq> Put sid w)"
  defines "st2 \<equiv> st'\<lparr>x_store := run_expiry
      (\<lambda>t s k v. ss_add t k s (u_exeID v) (u_processID v)) gcLocked (x_store st') es\<rparr>"
  shows "(later \<le> now + sessionMaxAge \<longrightarrow> fst (writeStdin connect later st2 exe sid chars) =
            (case procWrite R (x_world st2) (pidOf ''uexec-'' (Suc (x_seq st))) chars of
               (Some e, _) \<Rightarrow> CallFailed e | (None, _) \<Rightarrow> CallOk)) \<and>
         (later > now + sessionMaxAge \<longrightarrow> fst (writeStdin connect later st2 exe sid chars) = NoSuchSession)"
proof -
  let ?u = "\<lparr>u_exeID = exe, u_processID = pidOf ''uexec-'' (Suc (x_seq st)), u_createdAt = now\<rparr>"
  from execCommand_session [OF assms(1)] assms(2) have "x_store st' sid = Some ?u" by auto
  from store.survives [where s = "x_store st'" and k = sid and v = ?u and es = es, OF this] assms(4) have u: "x_store st2 sid = Some ?u"
    by (simp add: st2_def)
  have s: "sessionFor later st2 exe sid =
      (if later > now + sessionMaxAge then None else Some ?u,
       st2\<lparr>x_store := gcLocked later (x_store st2)\<rparr>)"
    by (auto simp: sessionFor_def ss_lookup_def gcLocked_def map_delete_if_def Let_def u)
  show ?thesis
    by (auto simp: writeStdin_def s assms(3) split: prod.splits option.splits)
qed

theorem followup_by_id_works_witness:
  "\<exists>st' :: ((string \<times> string) list \<times> (string \<times> string) list) exec_state.
     fst (writeStdin (\<lambda>_. Inr sample_rpc) 6 st' ''exe_1'' ''sid'' ''y'') = CallOk"
proof -
  obtain st' where e: "execCommand (\<lambda>_. Inr ''exe_1'') (\<lambda>_. Inr sample_rpc) 5 ''sid''
      \<lparr>x_seq = 0, x_store = Map.empty, x_world = ([], [])\<rparr> ''lab'' [''ls''] [] False False =
      (SessionStarted ''sid'', st')"
    by (simp add: execCommand_def sample_rpc_def Let_def)
  from followup_by_id_works [OF e refl refl, of "[]" 6 "''y''"] show ?thesis
    by (auto simp: sessionMaxAge_def sample_rpc_def)
qed

end
