(* ===== verification/Relay.thy ===== *)
theory Relay
  imports Exec_Admission
begin

text \<open>
  The byte relay of \<open>internal/codexexecgateway/relay/relay.go\<close> and its HTTP handlers in
  \<open>handlers_relay.go\<close>: a ticket pairs one upload with one download, and a goroutine per
  ticket copies the bytes.

  The state is the registry, the heap of relays and the heap of the handler goroutines that
  run \<open>AcceptPut\<close> or \<open>AcceptGet\<close>, addressed by number.  A step is one critical section, one
  rendezvous on an unbuffered channel, the copy, or one deferred call of the pairing
  goroutine.  What the uploader sends and how much the downloader takes is the environment's
  choice, fixed when its handler arrives.
\<close>

section \<open>Integers\<close>

section \<open>State\<close>

datatype run_pc = Pairing | Ended | Cleaned | DoneClosed

datatype relay_err = RelayTimeout | ReadFailure | WriteFailure | Exceeded

record relay =
  rl_ticket :: string
  rl_ws :: string
  rl_src :: string
  rl_dst :: string
  rl_max :: int
  rl_expires :: time
  rl_putClaim :: bool
  rl_getClaim :: bool
  rl_put :: "nat option"
  rl_get :: "nat option"
  rl_pc :: run_pc
  rl_bytes :: nat
  rl_err :: "relay_err option"

datatype handler_pc = HStart | HClaimed | HSending | HParked | HDone

datatype side = PutSide | GetSide

text \<open>
  A handler: for an upload the bytes its body yields and whether it then fails, for a
  download how many bytes it accepts (\<open>None\<close> for all) and what it received.
\<close>

record handler =
  h_relay :: nat
  h_side :: side
  h_pc :: handler_pc
  h_status :: int
  h_data :: string
  h_srcErr :: bool
  h_room :: "nat option"
  h_got :: string

record relay_registry =
  tickets :: "string \<rightharpoonup> nat"
  workspaceCount :: "string \<rightharpoonup> int"
  maxPerWorkspace :: int
  defaultTTL :: time

record relays =
  reg :: relay_registry
  rel :: "nat \<Rightarrow> relay"
  n_rel :: nat
  hnd :: "nat \<Rightarrow> handler"
  n_hnd :: nat

definition DefaultRelayMaxPerWorkspace :: int where "DefaultRelayMaxPerWorkspace = 16"
definition DefaultRelayTTL :: time where "DefaultRelayTTL = 300 * 1000000000"

definition NewRegistry :: "int \<Rightarrow> time \<Rightarrow> relay_registry" where
  "NewRegistry maxPer ttl =
     \<lparr>tickets = Map.empty, workspaceCount = Map.empty,
      maxPerWorkspace = (if maxPer \<le> 0 then DefaultRelayMaxPerWorkspace else maxPer),
      defaultTTL = (if ttl \<le> 0 then DefaultRelayTTL else ttl)\<rparr>"

definition count_of :: "relay_registry \<Rightarrow> string \<Rightarrow> int" where
  "count_of r ws = (case workspaceCount r ws of None \<Rightarrow> 0 | Some n \<Rightarrow> n)"

section \<open>Registry\<close>

datatype create_err = OptionsRequired | ErrWorkspaceCapReached

record CreateOptions =
  o_ws :: string
  o_src :: string
  o_dst :: string
  o_ttl :: time
  o_max :: int

definition mintTicket :: "string \<Rightarrow> string" where
  "mintTicket random = ''rly_'' @ b64_encode random"

definition newRelay :: "string \<Rightarrow> time \<Rightarrow> CreateOptions \<Rightarrow> relay" where
  "newRelay ticket expires opt =
     \<lparr>rl_ticket = ticket, rl_ws = o_ws opt, rl_src = o_src opt, rl_dst = o_dst opt,
      rl_max = o_max opt, rl_expires = expires, rl_putClaim = False, rl_getClaim = False, rl_put = None, rl_get = None,
      rl_pc = Pairing, rl_bytes = 0, rl_err = None\<rparr>"

text \<open>\<open>Create\<close>: \<open>random\<close> are the 32 bytes of \<open>rand.Read\<close>; the new relay's address is \<open>n_rel\<close>.\<close>

definition Create :: "time \<Rightarrow> string \<Rightarrow> CreateOptions \<Rightarrow> relays \<Rightarrow> create_err + relays" where
  "Create now random opt st =
     (if o_ws opt = [] \<or> o_src opt = [] \<or> o_dst opt = [] then Inl OptionsRequired
      else if count_of (reg st) (o_ws opt) \<ge> maxPerWorkspace (reg st) then Inl ErrWorkspaceCapReached
      else (let ticket = mintTicket random; i = n_rel st; r = reg st;
                ttl = (if o_ttl opt \<le> 0 then defaultTTL r else o_ttl opt) in
            Inr (st\<lparr>reg := r\<lparr>tickets := (tickets r)(ticket \<mapsto> i),
                            workspaceCount := (workspaceCount r)(o_ws opt \<mapsto> count_of r (o_ws opt) + 1)\<rparr>,
                    rel := (rel st)(i := newRelay ticket (now + ttl) opt), n_rel := Suc i\<rparr>)))"

definition LookupTicket :: "relay_registry \<Rightarrow> string \<Rightarrow> nat option" where
  "LookupTicket r ticket = tickets r ticket"

definition cleanup :: "string \<Rightarrow> relays \<Rightarrow> relays" where
  "cleanup ticket st =
     (let r = reg st in
      case tickets r ticket of
        None \<Rightarrow> st
      | Some i \<Rightarrow>
          (let ws = rl_ws (rel st i); n = count_of r ws - 1 in
           st\<lparr>reg := r\<lparr>tickets := (tickets r)(ticket := None),
                       workspaceCount := (if ws = [] then workspaceCount r
                          else if n \<le> 0 then (workspaceCount r)(ws := None)
                          else (workspaceCount r)(ws \<mapsto> n))\<rparr>\<rparr>))"

definition ActiveCount :: "relay_registry \<Rightarrow> nat" where
  "ActiveCount r = card (dom (tickets r))"

definition ExtractBearerTicket :: "string \<Rightarrow> string option" where
  "ExtractBearerTicket authz =
     (if \<not> HasPrefix authz bearer then None
      else (let tok = TrimPrefix authz bearer in if tok = [] then None else Some tok))"

section \<open>Handlers of the two sides\<close>

definition upd_rel :: "nat \<Rightarrow> (relay \<Rightarrow> relay) \<Rightarrow> relays \<Rightarrow> relays" where
  "upd_rel i f st = st\<lparr>rel := (rel st)(i := f (rel st i))\<rparr>"

definition upd_hnd :: "nat \<Rightarrow> (handler \<Rightarrow> handler) \<Rightarrow> relays \<Rightarrow> relays" where
  "upd_hnd h f st = st\<lparr>hnd := (hnd st)(h := f (hnd st h))\<rparr>"

definition reply_hnd :: "int \<Rightarrow> handler \<Rightarrow> handler" where
  "reply_hnd code h = h\<lparr>h_status := code, h_pc := HDone\<rparr>"

text \<open>The request's checks before \<open>AcceptPut\<close> and \<open>AcceptGet\<close>: the reply's status, or the relay.\<close>

definition relayAdmit :: "relay_registry option \<Rightarrow> string \<Rightarrow> string \<Rightarrow> nat + nat" where
  "relayAdmit registry urlTicket authz =
     (case registry of
        None \<Rightarrow> Inl 404
      | Some r \<Rightarrow>
          if ExtractBearerTicket authz \<noteq> Some urlTicket then Inl 401
          else (case LookupTicket r urlTicket of None \<Rightarrow> Inl 410 | Some i \<Rightarrow> Inr i))"

definition arrive :: "side \<Rightarrow> nat \<Rightarrow> string \<Rightarrow> bool \<Rightarrow> nat option \<Rightarrow> relays \<Rightarrow> relays" where
  "arrive sd i data srcErr room st =
     st\<lparr>hnd := (hnd st)(n_hnd st := \<lparr>h_relay = i, h_side = sd, h_pc = HStart, h_status = 0,
          h_data = data, h_srcErr = srcErr, h_room = room, h_got = []\<rparr>), n_hnd := Suc (n_hnd st)\<rparr>"

definition claimed :: "side \<Rightarrow> relay \<Rightarrow> bool" where
  "claimed sd r = (case sd of PutSide \<Rightarrow> rl_putClaim r | GetSide \<Rightarrow> rl_getClaim r)"

definition set_claim :: "side \<Rightarrow> relay \<Rightarrow> relay" where
  "set_claim sd r = (case sd of PutSide \<Rightarrow> r\<lparr>rl_putClaim := True\<rparr> | GetSide \<Rightarrow> r\<lparr>rl_getClaim := True\<rparr>)"

definition slot :: "side \<Rightarrow> relay \<Rightarrow> nat option" where
  "slot sd r = (case sd of PutSide \<Rightarrow> rl_put r | GetSide \<Rightarrow> rl_get r)"

definition set_slot :: "side \<Rightarrow> nat \<Rightarrow> relay \<Rightarrow> relay" where
  "set_slot sd h r = (case sd of PutSide \<Rightarrow> r\<lparr>rl_put := Some h\<rparr> | GetSide \<Rightarrow> r\<lparr>rl_get := Some h\<rparr>)"

text \<open>The critical section of \<open>AcceptPut\<close> and \<open>AcceptGet\<close>: 423 for a second claim.\<close>

definition claim :: "nat \<Rightarrow> relays \<Rightarrow> relays" where
  "claim h st =
     (let x = hnd st h; i = h_relay x in
      if claimed (h_side x) (rel st i) then upd_hnd h (reply_hnd 423) st
      else upd_hnd h (\<lambda>x. x\<lparr>h_pc := HClaimed\<rparr>) (upd_rel i (set_claim (h_side x)) st))"

text \<open>The fast-fail select, and the select that offers the request to the pairing goroutine.\<close>

definition fastFail :: "nat \<Rightarrow> relays \<Rightarrow> relays" where
  "fastFail h st =
     (if rl_pc (rel st (h_relay (hnd st h))) = DoneClosed then upd_hnd h (reply_hnd 410) st
      else upd_hnd h (\<lambda>x. x\<lparr>h_pc := HSending\<rparr>) st)"

definition meet :: "nat \<Rightarrow> relays \<Rightarrow> relays" where
  "meet h st =
     upd_hnd h (\<lambda>x. x\<lparr>h_pc := HParked\<rparr>)
       (upd_rel (h_relay (hnd st h)) (set_slot (h_side (hnd st h)) h) st)"

section \<open>The pairing goroutine\<close>

definition reply_opt :: "int \<Rightarrow> nat option \<Rightarrow> relays \<Rightarrow> relays" where
  "reply_opt code ho st = (case ho of None \<Rightarrow> st | Some h \<Rightarrow> upd_hnd h (reply_hnd code) st)"

definition timeoutRelay :: "nat \<Rightarrow> relays \<Rightarrow> relays" where
  "timeoutRelay i st =
     (let r = rel st i in
      upd_rel i (\<lambda>r. r\<lparr>rl_err := Some RelayTimeout, rl_pc := Ended\<rparr>)
        (reply_opt 408 (rl_get r) (reply_opt 408 (rl_put r) st)))"

text \<open>
  \<open>io.Copy\<close> through the limit reader: the bytes written, and the error.  \<open>MaxBytes + 1\<close> is an
  \<open>int64\<close> sum and wraps; the limit reader ends after that many bytes without asking the source
  again, at once when the limit is not positive.  A source that fails does so on a read of its
  own, after its last bytes.
\<close>

definition copyBytes :: "int \<Rightarrow> string \<Rightarrow> bool \<Rightarrow> nat option \<Rightarrow> string \<times> relay_err option" where
  "copyBytes maxBytes data srcErr room =
     (let limited = (maxBytes > 0);
          limit = nat (int64 (maxBytes + 1));
          avail = (if limited then take limit data else data);
          cut = (limited \<and> length data \<ge> limit) in
      case room of
        Some k \<Rightarrow> if k < length avail then (take k avail, Some WriteFailure)
                  else (avail, if srcErr \<and> \<not> cut then Some ReadFailure
                               else if limited \<and> int (length avail) > maxBytes then Some Exceeded
                               else None)
      | None \<Rightarrow> (avail, if srcErr \<and> \<not> cut then Some ReadFailure
                        else if limited \<and> int (length avail) > maxBytes then Some Exceeded
                        else None))"

definition streamRelay :: "nat \<Rightarrow> nat \<Rightarrow> nat \<Rightarrow> relays \<Rightarrow> relays" where
  "streamRelay i p g st =
     (let (out, err) = copyBytes (rl_max (rel st i)) (h_data (hnd st p)) (h_srcErr (hnd st p))
            (h_room (hnd st g)) in
      upd_rel i (\<lambda>r. r\<lparr>rl_bytes := length out, rl_err := err, rl_pc := Ended\<rparr>)
        (upd_hnd p (reply_hnd (if err = None then 200 else 500))
          (upd_hnd g (\<lambda>x. reply_hnd 0 (x\<lparr>h_got := out\<rparr>)) st)))"

definition runCleanup :: "nat \<Rightarrow> relays \<Rightarrow> relays" where
  "runCleanup i st = upd_rel i (\<lambda>r. r\<lparr>rl_pc := Cleaned\<rparr>) (cleanup (rl_ticket (rel st i)) st)"

definition closeDone :: "nat \<Rightarrow> relays \<Rightarrow> relays" where
  "closeDone i = upd_rel i (\<lambda>r. r\<lparr>rl_pc := DoneClosed\<rparr>)"

section \<open>HTTP handlers\<close>

text \<open>
  What the client of \<open>handleRelayPut\<close> and \<open>handleRelayGet\<close> sees once its handler is done: a
  download that \<open>AcceptGet\<close> answers with 0 writes nothing itself, and the server sends 200.
\<close>

definition response :: "handler \<Rightarrow> int" where
  "response x = (case h_side x of PutSide \<Rightarrow> h_status x
                 | GetSide \<Rightarrow> if h_status x \<noteq> 0 then h_status x else 200)"

record relayCreateRequest =
  rq_ws :: string
  rq_src :: string
  rq_dst :: string
  rq_ttl :: int
  rq_max :: int

record relayCreateResponse =
  rc_ticket :: string
  rc_upload :: string
  rc_download :: string
  rc_expires :: time

fun relayOwners :: "bool \<Rightarrow> exec_db \<Rightarrow> string \<Rightarrow> string list \<Rightarrow> (nat \<times> string) option" where
  "relayOwners up db ws [] = None"
| "relayOwners up db ws (e # es) =
     (case OwnsExecutor up db ws e of
        Inl _ \<Rightarrow> Some (500, ''ownership check failed'')
      | Inr owns \<Rightarrow> if \<not> owns then Some (403, ''executor not in workspace: '' @ e)
                    else relayOwners up db ws es)"

text \<open>
  \<open>st\<close> is \<open>None\<close> when the registry is, \<open>store\<close> when the server has no database, and \<open>body\<close>
  when the request is not valid JSON.
\<close>

definition handleRelayCreate ::
  "(bool \<times> exec_db) option \<Rightarrow> string \<Rightarrow> time \<Rightarrow> string \<Rightarrow> relayCreateRequest option \<Rightarrow> relays option \<Rightarrow>
     relayCreateResponse reply \<times> relays option" where
  "handleRelayCreate store base now random body sto =
     (case sto of
        None \<Rightarrow> (ErrorReply 503 ''relay not enabled (PublicHTTPSBaseURL unset)'', sto)
      | Some st \<Rightarrow>
     if base = [] then (ErrorReply 503 ''relay not enabled (PublicHTTPSBaseURL unset)'', sto)
     else case body of
        None \<Rightarrow> (ErrorReply 400 ''invalid JSON'', sto)
      | Some req \<Rightarrow>
     if rq_ws req = [] \<or> rq_src req = [] \<or> rq_dst req = []
     then (ErrorReply 400 ''workspace_id, source_exe_id, dest_exe_id required'', sto)
     else case (case store of None \<Rightarrow> None
                | Some (up, db) \<Rightarrow> relayOwners up db (rq_ws req) [rq_src req, rq_dst req]) of
        Some (code, msg) \<Rightarrow> (ErrorReply code msg, sto)
      | None \<Rightarrow>
     (case Create now random \<lparr>o_ws = rq_ws req, o_src = rq_src req, o_dst = rq_dst req,
             o_ttl = int64 (rq_ttl req * 1000000000), o_max = rq_max req\<rparr> st of
        Inl ErrWorkspaceCapReached \<Rightarrow>
          (ErrorReply 429 ''relay: workspace concurrent relay cap reached'', sto)
      | Inl OptionsRequired \<Rightarrow>
          (ErrorReply 500 ''relay: workspace_id, source_exe_id, dest_exe_id required'', sto)
      | Inr st' \<Rightarrow>
          (let r = rel st' (n_rel st);
               url = TrimRight base ''/'' @ ''/relay/'' @ rl_ticket r in
           (Reply 201 \<lparr>rc_ticket = rl_ticket r, rc_upload = url, rc_download = url,
                       rc_expires = rl_expires r\<rparr>, Some st'))))"

section \<open>Steps\<close>

text \<open>
  A ticket is 32 random bytes: a step that creates a relay draws one that is not live, which is
  the only thing assumed of the random source.
\<close>

inductive relay_step :: "relays \<Rightarrow> relays \<Rightarrow> bool" where
  create: "Create now random opt st = Inr st' \<Longrightarrow> tickets (reg st) (mintTicket random) = None \<Longrightarrow>
     relay_step st st'"
| arrive: "relayAdmit (Some (reg st)) ticket authz = Inr i \<Longrightarrow>
     relay_step st (arrive sd i data srcErr room st)"
| claim: "h < n_hnd st \<Longrightarrow> h_pc (hnd st h) = HStart \<Longrightarrow> relay_step st (claim h st)"
| fast_fail: "h < n_hnd st \<Longrightarrow> h_pc (hnd st h) = HClaimed \<Longrightarrow> relay_step st (fastFail h st)"
| gone: "h < n_hnd st \<Longrightarrow> h_pc (hnd st h) = HSending \<Longrightarrow>
     rl_pc (rel st (h_relay (hnd st h))) = DoneClosed \<Longrightarrow> relay_step st (upd_hnd h (reply_hnd 410) st)"
| meet: "h < n_hnd st \<Longrightarrow> h_pc (hnd st h) = HSending \<Longrightarrow>
     rl_pc (rel st (h_relay (hnd st h))) = Pairing \<Longrightarrow>
     rl_put (rel st (h_relay (hnd st h))) = None \<or> rl_get (rel st (h_relay (hnd st h))) = None \<Longrightarrow>
     relay_step st (meet h st)"
| timeout: "i < n_rel st \<Longrightarrow> rl_pc (rel st i) = Pairing \<Longrightarrow>
     rl_put (rel st i) = None \<or> rl_get (rel st i) = None \<Longrightarrow> relay_step st (timeoutRelay i st)"
| stream: "i < n_rel st \<Longrightarrow> rl_pc (rel st i) = Pairing \<Longrightarrow> rl_put (rel st i) = Some p \<Longrightarrow>
     rl_get (rel st i) = Some g \<Longrightarrow> relay_step st (streamRelay i p g st)"
| cleanup: "i < n_rel st \<Longrightarrow> rl_pc (rel st i) = Ended \<Longrightarrow> relay_step st (runCleanup i st)"
| close_done: "i < n_rel st \<Longrightarrow> rl_pc (rel st i) = Cleaned \<Longrightarrow> relay_step st (closeDone i st)"

definition relay_init :: "int \<Rightarrow> time \<Rightarrow> relays" where
  "relay_init maxPer ttl =
     \<lparr>reg = NewRegistry maxPer ttl,
      rel = (\<lambda>_. newRelay [] 0 \<lparr>o_ws = [], o_src = [], o_dst = [], o_ttl = 0, o_max = 0\<rparr>), n_rel = 0,
      hnd = (\<lambda>_. \<lparr>h_relay = 0, h_side = PutSide, h_pc = HDone, h_status = 0, h_data = [],
                 h_srcErr = False, h_room = None, h_got = []\<rparr>), n_hnd = 0\<rparr>"

section \<open>Invariants\<close>

lemma upd_simps [simp]:
  "reg (upd_rel i f st) = reg st" "reg (upd_hnd h k st) = reg st"
  "n_rel (upd_rel i f st) = n_rel st" "n_rel (upd_hnd h k st) = n_rel st"
  "n_hnd (upd_rel i f st) = n_hnd st" "n_hnd (upd_hnd h k st) = n_hnd st"
  "hnd (upd_rel i f st) = hnd st" "rel (upd_hnd h k st) = rel st"
  "rel (upd_rel i f st) j = (if j = i then f (rel st i) else rel st j)"
  "hnd (upd_hnd h k st) g = (if g = h then k (hnd st h) else hnd st g)"
  by (simp_all add: upd_rel_def upd_hnd_def)

lemma reply_simps [simp]:
  "h_pc (reply_hnd c x) = HDone" "h_status (reply_hnd c x) = c" "h_relay (reply_hnd c x) = h_relay x"
  "h_side (reply_hnd c x) = h_side x" "h_data (reply_hnd c x) = h_data x" "h_got (reply_hnd c x) = h_got x"
  "h_srcErr (reply_hnd c x) = h_srcErr x"
  by (simp_all add: reply_hnd_def)

lemma reply_opt_simps [simp]:
  "reg (reply_opt c ho st) = reg st" "rel (reply_opt c ho st) = rel st"
  "n_rel (reply_opt c ho st) = n_rel st" "n_hnd (reply_opt c ho st) = n_hnd st"
  "hnd (reply_opt c ho st) g = (if ho = Some g then reply_hnd c (hnd st g) else hnd st g)"
  by (auto simp: reply_opt_def split: option.splits)

lemma claim_simps [simp]:
  "rl_ticket (set_claim sd r) = rl_ticket r" "rl_ws (set_claim sd r) = rl_ws r"
  "rl_pc (set_claim sd r) = rl_pc r" "rl_max (set_claim sd r) = rl_max r"
  "slot sd' (set_claim sd r) = slot sd' r"
  "claimed sd' (set_claim sd r) = (sd' = sd \<or> claimed sd' r)"
  "rl_ticket (set_slot sd h r) = rl_ticket r" "rl_ws (set_slot sd h r) = rl_ws r"
  "rl_pc (set_slot sd h r) = rl_pc r" "rl_max (set_slot sd h r) = rl_max r"
  "slot sd' (set_slot sd h r) = (if sd' = sd then Some h else slot sd' r)"
  "claimed sd' (set_slot sd h r) = claimed sd' r"
  by (cases sd; cases sd'; simp add: set_claim_def set_slot_def slot_def claimed_def)+

lemma slot_put: "rl_put r = slot PutSide r" and slot_get: "rl_get r = slot GetSide r"
  by (simp_all add: slot_def)

lemma slot_upd [simp]:
  "slot sd (r\<lparr>rl_err := e\<rparr>) = slot sd r" "slot sd (r\<lparr>rl_bytes := b\<rparr>) = slot sd r"
  "slot sd (r\<lparr>rl_pc := p\<rparr>) = slot sd r" "claimed sd (r\<lparr>rl_err := e\<rparr>) = claimed sd r"
  "claimed sd (r\<lparr>rl_bytes := b\<rparr>) = claimed sd r" "claimed sd (r\<lparr>rl_pc := p\<rparr>) = claimed sd r"
  by (cases sd; simp add: slot_def claimed_def)+

lemma cleanup_simps [simp]:
  "rel (cleanup t st) = rel st" "n_rel (cleanup t st) = n_rel st" "hnd (cleanup t st) = hnd st"
  "n_hnd (cleanup t st) = n_hnd st"
  by (auto simp: cleanup_def Let_def split: option.splits)

lemmas relay_ops = arrive_def claim_def fastFail_def meet_def timeoutRelay_def streamRelay_def
  runCleanup_def closeDone_def Let_def

lemma Create_effect:
  assumes "Create now random opt st = Inr st'"
  shows "o_ws opt \<noteq> []" "count_of (reg st) (o_ws opt) < maxPerWorkspace (reg st)"
    "n_rel st' = Suc (n_rel st)" "hnd st' = hnd st" "n_hnd st' = n_hnd st"
    "rel st' = (rel st)(n_rel st := newRelay (mintTicket random)
       (now + (if o_ttl opt \<le> 0 then defaultTTL (reg st) else o_ttl opt)) opt)"
    "tickets (reg st') = (tickets (reg st))(mintTicket random \<mapsto> n_rel st)"
    "workspaceCount (reg st') = (workspaceCount (reg st))(o_ws opt \<mapsto> count_of (reg st) (o_ws opt) + 1)"
    "maxPerWorkspace (reg st') = maxPerWorkspace (reg st)"
  using assms by (auto simp: Create_def Let_def split: if_splits)

subsection \<open>The registry\<close>

abbreviation live :: "relays \<Rightarrow> nat \<Rightarrow> bool" where
  "live st i \<equiv> rl_pc (rel st i) = Pairing \<or> rl_pc (rel st i) = Ended"

definition live_in :: "relays \<Rightarrow> string \<Rightarrow> nat set" where
  "live_in st ws = {i. i < n_rel st \<and> live st i \<and> rl_ws (rel st i) = ws}"

definition reg_ok :: "relays \<Rightarrow> bool" where
  "reg_ok st \<longleftrightarrow>
     (\<forall>t i. tickets (reg st) t = Some i \<longleftrightarrow> i < n_rel st \<and> live st i \<and> rl_ticket (rel st i) = t) \<and>
     (\<forall>i<n_rel st. rl_ws (rel st i) \<noteq> []) \<and>
     (\<forall>ws. count_of (reg st) ws = int (card (live_in st ws))) \<and>
     (\<forall>ws. count_of (reg st) ws \<le> maxPerWorkspace (reg st)) \<and> 0 < maxPerWorkspace (reg st)"

lemma reg_okD:
  assumes "reg_ok st"
  shows "tickets (reg st) t = Some i \<longleftrightarrow> i < n_rel st \<and> live st i \<and> rl_ticket (rel st i) = t"
    and "i < n_rel st \<Longrightarrow> rl_ws (rel st i) \<noteq> []"
    and "count_of (reg st) ws = int (card (live_in st ws))"
    and "count_of (reg st) ws \<le> maxPerWorkspace (reg st)" and "0 < maxPerWorkspace (reg st)"
  using assms unfolding reg_ok_def by blast+

lemma reg_ok_cong:
  assumes "reg_ok st" and "reg st' = reg st" and "n_rel st' = n_rel st"
    and "\<And>i. i < n_rel st \<Longrightarrow> rl_ticket (rel st' i) = rl_ticket (rel st i) \<and>
      rl_ws (rel st' i) = rl_ws (rel st i) \<and> live st' i = live st i"
  shows "reg_ok st'"
proof -
  have "live_in st' ws = live_in st ws" for ws
    using assms(3,4) by (auto simp: live_in_def)
  with assms show ?thesis by (auto simp: reg_ok_def)
qed

lemma finite_live [simp]: "finite (live_in st ws)"
  by (simp add: live_in_def)

lemma reg_ok_create:
  assumes ok: "reg_ok st" and c: "Create now random opt st = Inr st'"
    and fresh: "tickets (reg st) (mintTicket random) = None"
  shows "reg_ok st'"
proof -
  note e = Create_effect [OF c]
  have l: "live_in st' ws = (if ws = o_ws opt then insert (n_rel st) (live_in st ws) else live_in st ws)" for ws
    by (auto simp: live_in_def e less_Suc_eq newRelay_def)
  have n: "n_rel st \<notin> live_in st ws" for ws by (simp add: live_in_def)
  have cnt: "count_of (reg st') ws = (if ws = o_ws opt then count_of (reg st) ws + 1 else count_of (reg st) ws)" for ws
    by (simp add: count_of_def e)
  have "tickets (reg st') t = Some i \<longleftrightarrow> i < n_rel st' \<and> live st' i \<and> rl_ticket (rel st' i) = t" for t i
  proof (cases "i = n_rel st")
    case True
    then have "tickets (reg st) t \<noteq> Some i" using ok by (auto simp: reg_ok_def)
    with True show ?thesis by (auto simp: e newRelay_def)
  next
    case False
    with reg_okD(1) [OF ok, of t i] fresh show ?thesis
      by (cases "t = mintTicket random") (auto simp: e less_Suc_eq)
  qed
  moreover have "\<forall>i<n_rel st'. rl_ws (rel st' i) \<noteq> []"
    using ok e(1) by (auto simp: e less_Suc_eq newRelay_def reg_ok_def)
  ultimately show ?thesis
    using ok e(2) n by (auto simp: reg_ok_def l cnt e(9))
qed

lemma reg_ok_cleanup:
  assumes ok: "reg_ok st" and i: "i < n_rel st" "rl_pc (rel st i) = Ended"
  shows "reg_ok (runCleanup i st)"
proof -
  let ?t = "rl_ticket (rel st i)" and ?ws = "rl_ws (rel st i)" and ?st = "runCleanup i st"
  have t: "tickets (reg st) ?t = Some i" and ws: "?ws \<noteq> []" using ok i by (auto simp: reg_ok_def)
  have uniq: "j = i" if "rl_ticket (rel st j) = ?t" "j < n_rel st" "live st j" for j
  proof -
    have "tickets (reg st) ?t = Some j" unfolding reg_okD(1) [OF ok] using that by blast
    with t show ?thesis by simp
  qed
  have r: "tickets (reg ?st) = (tickets (reg st))(?t := None)"
    "maxPerWorkspace (reg ?st) = maxPerWorkspace (reg st)"
    by (simp_all add: runCleanup_def cleanup_def t Let_def)
  have n: "n_rel ?st = n_rel st"
    "\<And>j. rel ?st j = (if j = i then (rel st i)\<lparr>rl_pc := Cleaned\<rparr> else rel st j)"
    by (simp_all add: runCleanup_def)
  have l: "live_in ?st w = live_in st w - {i}" for w
    by (auto simp: live_in_def runCleanup_def)
  have "i \<in> live_in st ?ws" using i by (simp add: live_in_def)
  then have card: "card (live_in st ?ws) = Suc (card (live_in st ?ws - {i}))"
    by (intro card.remove) simp_all
  have "i \<notin> live_in st w" if "w \<noteq> ?ws" for w using that by (simp add: live_in_def)
  then have other: "live_in st w - {i} = live_in st w" if "w \<noteq> ?ws" for w using that by simp
  have c0: "count_of (reg st) w = int (card (live_in st w))" for w using ok by (simp add: reg_ok_def)
  have cnt: "count_of (reg ?st) w = int (card (live_in st w - {i}))" for w
    using card other [of w] c0 [of w] c0 [of ?ws] ws
    by (cases "w = ?ws") (auto simp: runCleanup_def cleanup_def t Let_def count_of_def)
  have "tickets (reg ?st) u = Some j \<longleftrightarrow> j < n_rel ?st \<and> live ?st j \<and> rl_ticket (rel ?st j) = u" for u j
  proof (cases "u = ?t")
    case True
    then show ?thesis using uniq [of j] by (auto simp: r n)
  next
    case False
    then show ?thesis
      using reg_okD(1) [OF ok, of u j] by (auto simp: r n)
  qed
  moreover have "int (card (live_in st w - {i})) \<le> maxPerWorkspace (reg st)" for w
  proof -
    have "card (live_in st w - {i}) \<le> card (live_in st w)" by (rule card_mono) auto
    then show ?thesis using reg_okD(4) [OF ok, of w] c0 [of w] by simp
  qed
  moreover have "\<forall>j<n_rel ?st. rl_ws (rel ?st j) \<noteq> []"
    using reg_okD(2) [OF ok] by (auto simp: runCleanup_def)
  ultimately show ?thesis
    unfolding reg_ok_def l cnt r(2) using reg_okD(5) [OF ok] by blast
qed

lemma reg_ok_step: "relay_step st st' \<Longrightarrow> reg_ok st \<Longrightarrow> reg_ok st'"
proof (induction rule: relay_step.induct)
  case (create now random opt st st')
  then show ?case by (blast intro: reg_ok_create)
next
  case (cleanup i st)
  then show ?case by (blast intro: reg_ok_cleanup)
qed (erule reg_ok_cong; auto simp: relay_ops split: prod.splits)+

subsection \<open>Claims and pairing\<close>

definition holder :: "relays \<Rightarrow> nat \<Rightarrow> bool" where
  "holder st h \<longleftrightarrow> h_pc (hnd st h) \<in> {HClaimed, HSending, HParked} \<or>
     (h_pc (hnd st h) = HDone \<and> h_status (hnd st h) \<noteq> 423)"

abbreviation rel_of :: "relays \<Rightarrow> nat \<Rightarrow> relay" where
  "rel_of st h \<equiv> rel st (h_relay (hnd st h))"

definition handlers_ok :: "relays \<Rightarrow> bool" where
  "handlers_ok st \<longleftrightarrow> (\<forall>h<n_hnd st. h_relay (hnd st h) < n_rel st \<and>
     (holder st h \<longrightarrow> claimed (h_side (hnd st h)) (rel_of st h)) \<and>
     (h_pc (hnd st h) = HParked \<longrightarrow>
        slot (h_side (hnd st h)) (rel_of st h) = Some h \<and> rl_pc (rel_of st h) = Pairing))"

definition claims_ok :: "relays \<Rightarrow> bool" where
  "claims_ok st \<longleftrightarrow> (\<forall>h<n_hnd st. \<forall>g<n_hnd st. holder st h \<longrightarrow> holder st g \<longrightarrow>
     h_relay (hnd st h) = h_relay (hnd st g) \<longrightarrow> h_side (hnd st h) = h_side (hnd st g) \<longrightarrow> h = g)"

definition slots_ok :: "relays \<Rightarrow> bool" where
  "slots_ok st \<longleftrightarrow> (\<forall>i<n_rel st. \<forall>sd h. slot sd (rel st i) = Some h \<longrightarrow>
     h < n_hnd st \<and> h_relay (hnd st h) = i \<and> h_side (hnd st h) = sd \<and>
     h_pc (hnd st h) = (if rl_pc (rel st i) = Pairing then HParked else HDone))"

lemma step_counts: "relay_step st st' \<Longrightarrow> n_rel st \<le> n_rel st' \<and> n_hnd st \<le> n_hnd st'"
  by (induction rule: relay_step.induct)
     (auto simp: relay_ops dest: Create_effect split: prod.splits)

lemma step_hnd_kept:
  assumes "relay_step st st'" and "h < n_hnd st"
  shows "h_relay (hnd st' h) = h_relay (hnd st h) \<and> h_side (hnd st' h) = h_side (hnd st h) \<and>
     h_data (hnd st' h) = h_data (hnd st h) \<and> h_srcErr (hnd st' h) = h_srcErr (hnd st h)"
  using assms
  by (induction rule: relay_step.induct)
     (auto simp: relay_ops Create_effect split: prod.splits)

lemma slots_parked:
  assumes "slots_ok st" and "i < n_rel st" and "rl_pc (rel st i) = Pairing"
  shows "rl_put (rel st i) = Some h \<Longrightarrow> h < n_hnd st \<and> h_pc (hnd st h) = HParked \<and>
      h_relay (hnd st h) = i \<and> h_side (hnd st h) = PutSide"
    and "rl_get (rel st i) = Some h \<Longrightarrow> h < n_hnd st \<and> h_pc (hnd st h) = HParked \<and>
      h_relay (hnd st h) = i \<and> h_side (hnd st h) = GetSide"
  using assms by (auto simp: slots_ok_def slot_put slot_get)

lemma step_holder:
  assumes "relay_step st st'" and "slots_ok st" and "h < n_hnd st'" and "holder st' h"
  shows "h < n_hnd st \<and> (holder st h \<or>
     (\<not> claimed (h_side (hnd st h)) (rel_of st h) \<and> st' = claim h st))"
  using assms
proof (induction rule: relay_step.induct)
  case (claim k st)
  then show ?case
    by (cases "k = h") (auto simp: relay_ops holder_def split: if_splits)
next
  case (timeout i st)
  then show ?case using slots_parked [OF timeout(4,1,2), of h]
    by (auto simp: relay_ops holder_def split: if_splits)
next
  case (stream i st p g)
  then show ?case using slots_parked [OF stream(5,1,2), of h]
    by (auto simp: relay_ops holder_def split: if_splits prod.splits)
qed (auto simp: relay_ops holder_def Create_effect split: prod.splits if_splits)

lemma step_claimed:
  assumes "relay_step st st'" and "i < n_rel st" and "claimed sd (rel st i)"
  shows "claimed sd (rel st' i)"
  using assms
  by (induction rule: relay_step.induct)
     (auto simp: relay_ops Create_effect split: prod.splits)

lemma claims_ok_step:
  assumes st: "relay_step st st'" and h: "handlers_ok st" and sl: "slots_ok st" and c: "claims_ok st"
  shows "claims_ok st'"
  unfolding claims_ok_def
proof (intro allI impI)
  fix x y assume x: "x < n_hnd st'" "holder st' x" and y: "y < n_hnd st'" "holder st' y"
    and same: "h_relay (hnd st' x) = h_relay (hnd st' y)" "h_side (hnd st' x) = h_side (hnd st' y)"
  note hx = step_holder [OF st sl x] and hy = step_holder [OF st sl y]
  have same': "h_relay (hnd st x) = h_relay (hnd st y)" "h_side (hnd st x) = h_side (hnd st y)"
    using same step_hnd_kept [OF st, of x] step_hnd_kept [OF st, of y] hx hy by simp_all
  have nc: "holder st z \<Longrightarrow> z < n_hnd st \<Longrightarrow> claimed (h_side (hnd st z)) (rel_of st z)" for z
    using h by (simp add: handlers_ok_def)
  show "x = y"
  proof (cases "holder st x \<longleftrightarrow> holder st y")
    case True
    show ?thesis
    proof (cases "holder st x")
      case True
      with \<open>holder st x \<longleftrightarrow> holder st y\<close> hx hy c same' show ?thesis by (auto simp: claims_ok_def)
    next
      case False
      with hx \<open>holder st x \<longleftrightarrow> holder st y\<close> have e: "st' = claim x st"
        and ncl: "\<not> claimed (h_side (hnd st x)) (rel_of st x)" by blast+
      show ?thesis
      proof (rule ccontr)
        assume "x \<noteq> y"
        then have "hnd st' y = hnd st y" using ncl by (simp add: e claim_def Let_def)
        with y(2) False \<open>holder st x \<longleftrightarrow> holder st y\<close> show False by (simp add: holder_def)
      qed
    qed
  next
    case False
    with hx hy nc [of x] nc [of y] same' show ?thesis by auto
  qed
qed

lemma step_pairing:
  assumes "relay_step st st'" and "i < n_rel st" and "rl_pc (rel st i) = Pairing"
    and "slot sd (rel st i) = Some h" and "slots_ok st" and "claims_ok st"
    and "h_pc (hnd st' h) = HParked"
  shows "slot sd (rel st' i) = Some h \<and> rl_pc (rel st' i) = Pairing"
  using assms(1)
proof (cases rule: relay_step.cases)
  case (meet k)
  have h: "h < n_hnd st" "h_relay (hnd st h) = i" "h_side (hnd st h) = sd" "h_pc (hnd st h) = HParked"
    using assms(2-5) by (auto simp: slots_ok_def)
  have "k = h" if "h_relay (hnd st k) = i" "h_side (hnd st k) = sd"
    using assms(6) h that meet(2,3) by (auto simp: claims_ok_def holder_def)
  with meet assms(3,4) show ?thesis by (auto simp: meet_def)
next
  case (timeout j)
  have "j \<noteq> i \<or> False" using assms(4,7) timeout(1)
    by (cases sd) (auto simp: timeoutRelay_def Let_def slot_def split: if_splits)
  with timeout assms(3,4) show ?thesis by (auto simp: timeoutRelay_def Let_def)
next
  case (stream j p g)
  have "j \<noteq> i" using assms(4,7) stream
    by (cases sd) (auto simp: streamRelay_def slot_def split: prod.splits if_splits)
  with stream assms(3,4) show ?thesis by (auto simp: streamRelay_def split: prod.splits)
qed (use assms(2-4) in \<open>auto simp: relay_ops Create_effect newRelay_def\<close>)

lemma handlers_ok_step:
  assumes st: "relay_step st st'" and h: "handlers_ok st" and sl: "slots_ok st" and c: "claims_ok st"
    and r: "reg_ok st"
  shows "handlers_ok st'"
  unfolding handlers_ok_def
proof (intro allI impI)
  fix x assume x: "x < n_hnd st'"
  show "h_relay (hnd st' x) < n_rel st' \<and>
     (holder st' x \<longrightarrow> claimed (h_side (hnd st' x)) (rel_of st' x)) \<and>
     (h_pc (hnd st' x) = HParked \<longrightarrow>
        slot (h_side (hnd st' x)) (rel_of st' x) = Some x \<and> rl_pc (rel_of st' x) = Pairing)"
  proof (cases "x < n_hnd st")
    case True
    note k = step_hnd_kept [OF st True]
    from h True have i: "h_relay (hnd st x) < n_rel st" by (simp add: handlers_ok_def)
    with step_counts [OF st] k have "h_relay (hnd st' x) < n_rel st'" by simp
    moreover have "claimed (h_side (hnd st' x)) (rel_of st' x)" if "holder st' x"
    proof -
      from step_holder [OF st sl x that] show ?thesis
      proof (elim conjE disjE)
        assume "holder st x"
        with h True have "claimed (h_side (hnd st x)) (rel_of st x)" by (simp add: handlers_ok_def)
        from step_claimed [OF st i this] show ?thesis using k by simp
      next
        assume "\<not> claimed (h_side (hnd st x)) (rel_of st x)" "st' = claim x st"
        then show ?thesis by (simp add: claim_def Let_def)
      qed
    qed
    moreover have "slot (h_side (hnd st' x)) (rel_of st' x) = Some x \<and> rl_pc (rel_of st' x) = Pairing"
      if "h_pc (hnd st' x) = HParked"
    proof (cases "h_pc (hnd st x) = HParked")
      case True
      with h \<open>x < n_hnd st\<close> have "slot (h_side (hnd st x)) (rel_of st x) = Some x"
        "rl_pc (rel_of st x) = Pairing" by (auto simp: handlers_ok_def)
      from step_pairing [OF st i this(2,1) sl c that] k show ?thesis by simp
    next
      case False
      from st that False have "st' = meet x st \<and> rl_pc (rel_of st x) = Pairing"
        by (cases rule: relay_step.cases)
           (auto simp: relay_ops Create_effect split: if_splits prod.splits)
      then show ?thesis by (simp add: meet_def)
    qed
    ultimately show ?thesis by blast
  next
    case False
    from st x False obtain sd i data e room t a where a: "st' = arrive sd i data e room st" "x = n_hnd st"
      "relayAdmit (Some (reg st)) t a = Inr i"
      by (cases rule: relay_step.cases)
         (auto simp: relay_ops Create_effect less_Suc_eq split: if_splits prod.splits)
    then have "tickets (reg st) t = Some i"
      by (auto simp: relayAdmit_def LookupTicket_def split: if_splits option.splits)
    then have "i < n_rel st" using reg_okD(1) [OF r] by blast
    with a show ?thesis by (simp add: arrive_def holder_def)
  qed
qed

lemma slots_ok_keep:
  assumes "slots_ok st" and "n_rel st' = n_rel st" and "n_hnd st \<le> n_hnd st'"
    and "\<And>j sd. slot sd (rel st' j) = slot sd (rel st j)"
    and "\<And>j. rl_pc (rel st' j) = Pairing \<longleftrightarrow> rl_pc (rel st j) = Pairing"
    and "\<And>h. h < n_hnd st \<Longrightarrow> h_pc (hnd st h) = HParked \<or> h_pc (hnd st h) = HDone \<Longrightarrow> hnd st' h = hnd st h"
  shows "slots_ok st'"
  unfolding slots_ok_def assms(2,4)
proof (intro allI impI)
  fix i sd h assume "i < n_rel st" "slot sd (rel st i) = Some h"
  with assms(1) have h: "h < n_hnd st" "h_relay (hnd st h) = i" "h_side (hnd st h) = sd"
    "h_pc (hnd st h) = (if rl_pc (rel st i) = Pairing then HParked else HDone)"
    by (auto simp: slots_ok_def)
  moreover from this have "hnd st' h = hnd st h" by (intro assms(6)) auto
  ultimately show "h < n_hnd st' \<and> h_relay (hnd st' h) = i \<and> h_side (hnd st' h) = sd \<and>
      h_pc (hnd st' h) = (if rl_pc (rel st' i) = Pairing then HParked else HDone)"
    using assms(3,5) by simp
qed

lemma slots_ok_step:
  assumes st: "relay_step st st'" and h: "handlers_ok st" and sl: "slots_ok st" and c: "claims_ok st"
  shows "slots_ok st'"
  using st
proof (cases rule: relay_step.cases)
  case (create now random opt)
  with sl Create_effect [OF create(1)] show ?thesis
    by (auto simp: slots_ok_def less_Suc_eq newRelay_def slot_def split: side.splits)
next
  case (arrive ticket authz i sd data srcErr room)
  show ?thesis by (rule slots_ok_keep [OF sl]) (use arrive in \<open>auto simp: arrive_def\<close>)
next
  case (claim k)
  show ?thesis by (rule slots_ok_keep [OF sl]) (use claim in \<open>auto simp: claim_def Let_def\<close>)
next
  case (fast_fail k)
  show ?thesis by (rule slots_ok_keep [OF sl]) (use fast_fail in \<open>auto simp: fastFail_def\<close>)
next
  case (gone k)
  show ?thesis by (rule slots_ok_keep [OF sl]) (use gone in auto)
next
  case (meet k)
  let ?i = "h_relay (hnd st k)"
  show ?thesis unfolding slots_ok_def
  proof (intro allI impI)
    fix j sd h assume j: "j < n_rel st'" and s: "slot sd (rel st' j) = Some h"
    show "h < n_hnd st' \<and> h_relay (hnd st' h) = j \<and> h_side (hnd st' h) = sd \<and>
        h_pc (hnd st' h) = (if rl_pc (rel st' j) = Pairing then HParked else HDone)"
    proof (cases "j = ?i \<and> sd = h_side (hnd st k)")
      case True
      with s meet show ?thesis by (simp add: meet_def)
    next
      case False
      with s meet(1) have "slot sd (rel st j) = Some h" "rl_pc (rel st' j) = rl_pc (rel st j)"
        by (auto simp: meet_def split: if_splits)
      moreover have "j < n_rel st" using j meet(1) by (simp add: meet_def)
      ultimately have h: "h < n_hnd st" "h_relay (hnd st h) = j" "h_side (hnd st h) = sd"
        "h_pc (hnd st h) = (if rl_pc (rel st j) = Pairing then HParked else HDone)"
        "rl_pc (rel st' j) = rl_pc (rel st j)"
        using sl by (auto simp: slots_ok_def)
      then have "h \<noteq> k" using meet(3) by (auto split: if_splits)
      with h meet(1) show ?thesis by (simp add: meet_def)
    qed
  qed
next
  case (timeout i)
  show ?thesis unfolding slots_ok_def
  proof (intro allI impI)
    fix j sd h assume j: "j < n_rel st'" and s: "slot sd (rel st' j) = Some h"
    from j timeout(1) have j': "j < n_rel st" by (simp add: timeoutRelay_def Let_def)
    from s timeout(1) have s': "slot sd (rel st j) = Some h"
      by (auto simp: timeoutRelay_def Let_def split: if_splits)
    with sl j' have h: "h < n_hnd st" "h_relay (hnd st h) = j" "h_side (hnd st h) = sd"
      "h_pc (hnd st h) = (if rl_pc (rel st j) = Pairing then HParked else HDone)"
      by (auto simp: slots_ok_def)
    show "h < n_hnd st' \<and> h_relay (hnd st' h) = j \<and> h_side (hnd st' h) = sd \<and>
        h_pc (hnd st' h) = (if rl_pc (rel st' j) = Pairing then HParked else HDone)"
    proof (cases "j = i")
      case True
      with s' have "rl_put (rel st i) = Some h \<or> rl_get (rel st i) = Some h"
        by (cases sd) (auto simp: slot_def)
      with True h timeout(1) show ?thesis by (auto simp: timeoutRelay_def Let_def)
    next
      case False
      with h slots_parked [OF sl timeout(2,3), of h]
      have "rl_put (rel st i) \<noteq> Some h" "rl_get (rel st i) \<noteq> Some h" by auto
      with False h timeout(1) show ?thesis by (simp add: timeoutRelay_def Let_def)
    qed
  qed
next
  case (stream i p g)
  note p = slots_parked(1) [OF sl stream(2,3,4)] and g = slots_parked(2) [OF sl stream(2,3,5)]
  show ?thesis unfolding slots_ok_def
  proof (intro allI impI)
    fix j sd h assume j: "j < n_rel st'" and s: "slot sd (rel st' j) = Some h"
    from j stream(1) have j': "j < n_rel st" by (simp add: streamRelay_def split: prod.splits)
    from s stream(1) have s': "slot sd (rel st j) = Some h"
      by (auto simp: streamRelay_def split: prod.splits if_splits)
    with sl j' have h: "h < n_hnd st" "h_relay (hnd st h) = j" "h_side (hnd st h) = sd"
      "h_pc (hnd st h) = (if rl_pc (rel st j) = Pairing then HParked else HDone)"
      by (auto simp: slots_ok_def)
    show "h < n_hnd st' \<and> h_relay (hnd st' h) = j \<and> h_side (hnd st' h) = sd \<and>
        h_pc (hnd st' h) = (if rl_pc (rel st' j) = Pairing then HParked else HDone)"
    proof (cases "j = i")
      case True
      with s' stream(4,5) have "h = p \<or> h = g" by (cases sd) (auto simp: slot_def)
      with True h stream(1) show ?thesis by (auto simp: streamRelay_def split: prod.splits)
    next
      case False
      with h p g have "h \<noteq> p" "h \<noteq> g" by auto
      with False h stream(1) show ?thesis by (auto simp: streamRelay_def split: prod.splits)
    qed
  qed
next
  case (cleanup i)
  show ?thesis by (rule slots_ok_keep [OF sl]) (use cleanup in \<open>auto simp: runCleanup_def\<close>)
next
  case (close_done i)
  show ?thesis by (rule slots_ok_keep [OF sl]) (use close_done in \<open>auto simp: closeDone_def\<close>)
qed

subsection \<open>What was transferred\<close>

definition fully_copied :: "relay \<Rightarrow> handler \<Rightarrow> handler \<Rightarrow> bool" where
  "fully_copied r p g \<longleftrightarrow> (rl_max r < 2 ^ 63 - 1 \<longrightarrow> h_got g = h_data p \<and> \<not> h_srcErr p \<and>
     (rl_max r > 0 \<longrightarrow> int (length (h_data p)) \<le> rl_max r)) \<and> (rl_max r = 2 ^ 63 - 1 \<longrightarrow> h_got g = [])"

definition transfer_ok :: "relays \<Rightarrow> bool" where
  "transfer_ok st \<longleftrightarrow> (\<forall>h<n_hnd st.
     (h_side (hnd st h) = PutSide \<longrightarrow> h_pc (hnd st h) = HDone \<longrightarrow> h_status (hnd st h) = 200 \<longrightarrow>
        (\<exists>g. rl_get (rel_of st h) = Some g \<and> rl_pc (rel_of st h) \<noteq> Pairing \<and>
           fully_copied (rel_of st h) (hnd st h) (hnd st g))) \<and>
     (h_got (hnd st h) \<noteq> [] \<longrightarrow> (\<exists>p k. rl_put (rel_of st h) = Some p \<and> rl_pc (rel_of st h) \<noteq> Pairing \<and>
        h_got (hnd st h) = take k (h_data (hnd st p)) \<and>
        (rl_max (rel_of st h) > 0 \<longrightarrow> int (length (h_got (hnd st h))) \<le> rl_max (rel_of st h) + 1))))"

lemma copyBytes_prefix:
  "copyBytes m data e room = (out, err) \<Longrightarrow>
     (\<exists>k. out = take k data) \<and> (m > 0 \<longrightarrow> int (length out) \<le> m + 1)"
proof -
  assume c: "copyBytes m data e room = (out, err)"
  let ?avail = "if m > 0 then take (nat (int64 (m + 1))) data else data"
  from c have "out = ?avail \<or> (\<exists>k. out = take k ?avail)"
    by (simp add: copyBytes_def Let_def del: take_take split: option.splits if_splits) metis+
  then obtain k where o: "out = take k ?avail" by (metis order_refl take_all)
  then have "\<exists>k. out = take k data" by (auto simp: take_take)
  moreover have "int (length out) \<le> m + 1" if "m > 0"
    using o that int64_le [of "m + 1"] by auto
  ultimately show ?thesis by blast
qed

lemma copyBytes_ok:
  "copyBytes m data e room = (out, None) \<Longrightarrow> m < 2 ^ 63 - 1 \<Longrightarrow>
     out = data \<and> \<not> e \<and> (m > 0 \<longrightarrow> int (length data) \<le> m)"
  using int64_small [of "m + 1"]
  by (auto simp: copyBytes_def Let_def split: option.splits if_splits)

lemma copyBytes_overflow: "copyBytes 9223372036854775807 data e room = (out, None) \<Longrightarrow> out = []"
  by (auto simp: copyBytes_def Let_def int64_def split: option.splits if_splits)

lemma step_slot_kept:
  assumes "relay_step st st'" and "i < n_rel st" and "rl_pc (rel st i) \<noteq> Pairing"
  shows "rl_pc (rel st' i) \<noteq> Pairing \<and> slot sd (rel st' i) = slot sd (rel st i)"
  using assms
  by (induction rule: relay_step.induct)
     (auto simp: relay_ops Create_effect split: prod.splits)

lemma step_max: "relay_step st st' \<Longrightarrow> i < n_rel st \<Longrightarrow> rl_max (rel st' i) = rl_max (rel st i)"
  by (induction rule: relay_step.induct)
     (auto simp: relay_ops Create_effect split: prod.splits)

lemma step_done_kept:
  assumes "relay_step st st'" and "slots_ok st" and "h < n_hnd st" and "h_pc (hnd st h) = HDone"
  shows "hnd st' h = hnd st h"
  using assms
proof (cases rule: relay_step.cases)
  case (timeout i)
  then show ?thesis using slots_parked [OF assms(2) timeout(2,3), of h] assms(4)
    by (auto simp: timeoutRelay_def Let_def)
next
  case (stream i p g)
  then show ?thesis using slots_parked [OF assms(2) stream(2,3), of h] assms(4)
    by (auto simp: streamRelay_def split: prod.splits)
qed (use assms(3,4) in \<open>auto simp: relay_ops Create_effect\<close>)

lemma step_got:
  assumes "relay_step st st'" and "h < n_hnd st'" and "h_got (hnd st' h) \<noteq> []"
  shows "(h < n_hnd st \<and> h_got (hnd st' h) = h_got (hnd st h)) \<or>
     (\<exists>i p. st' = streamRelay i p h st \<and> i < n_rel st \<and> rl_pc (rel st i) = Pairing \<and>
        rl_put (rel st i) = Some p \<and> rl_get (rel st i) = Some h)"
  using assms(1)
proof (cases rule: relay_step.cases)
  case (stream i p g)
  show ?thesis
  proof (cases "h = g")
    case True
    with stream show ?thesis by blast
  next
    case False
    with stream(1) assms(2) show ?thesis by (simp add: streamRelay_def split: prod.splits)
  qed
next
  case (timeout i)
  with assms(2) show ?thesis by (simp add: timeoutRelay_def Let_def)
next
  case (arrive t a i sd data e room)
  with assms(2,3) show ?thesis by (auto simp: arrive_def less_Suc_eq)
qed (use assms(2) in \<open>simp_all add: claim_def fastFail_def meet_def runCleanup_def closeDone_def
  Let_def Create_effect split: if_splits\<close>)

lemma step_status200:
  assumes "relay_step st st'" and "h < n_hnd st'" and "h_pc (hnd st' h) = HDone"
    and "h_status (hnd st' h) = 200" and "h_side (hnd st' h) = PutSide"
  shows "(h < n_hnd st \<and> h_pc (hnd st h) = HDone \<and> h_status (hnd st h) = 200) \<or>
     (\<exists>i g. st' = streamRelay i h g st \<and> i < n_rel st \<and> rl_pc (rel st i) = Pairing \<and>
        rl_put (rel st i) = Some h \<and> rl_get (rel st i) = Some g)"
  using assms(1)
proof (cases rule: relay_step.cases)
  case (stream i p g)
  show ?thesis
  proof (cases "h = p")
    case True
    with stream show ?thesis by blast
  next
    case False
    with stream(1) assms(2-4) show ?thesis by (auto simp: streamRelay_def split: prod.splits if_splits)
  qed
next
  case (timeout i)
  with assms(2-4) show ?thesis by (auto simp: timeoutRelay_def Let_def split: if_splits)
next
  case (arrive t a i sd data e room)
  with assms(2-4) show ?thesis by (auto simp: arrive_def less_Suc_eq split: if_splits)
qed (use assms(2-4) in \<open>auto simp: claim_def fastFail_def meet_def runCleanup_def closeDone_def
  Let_def Create_effect split: if_splits\<close>)

lemma transfer_ok_step:
  assumes st: "relay_step st st'" and h: "handlers_ok st" and sl: "slots_ok st" and t: "transfer_ok st"
  shows "transfer_ok st'"
  unfolding transfer_ok_def
proof (intro allI impI conjI)
  fix x assume x: "x < n_hnd st'" "h_side (hnd st' x) = PutSide" "h_pc (hnd st' x) = HDone"
    "h_status (hnd st' x) = 200"
  from step_status200 [OF st x(1,3,4,2)]
  show "\<exists>g. rl_get (rel_of st' x) = Some g \<and> rl_pc (rel_of st' x) \<noteq> Pairing \<and>
      fully_copied (rel_of st' x) (hnd st' x) (hnd st' g)"
  proof (elim disjE exE conjE)
    assume o: "x < n_hnd st" "h_pc (hnd st x) = HDone" "h_status (hnd st x) = 200"
    have same: "hnd st' x = hnd st x" by (rule step_done_kept [OF st sl o(1,2)])
    from h o(1) have i: "h_relay (hnd st x) < n_rel st" by (simp add: handlers_ok_def)
    from t o x(2) same obtain g where g: "rl_get (rel_of st x) = Some g" "rl_pc (rel_of st x) \<noteq> Pairing"
      "fully_copied (rel_of st x) (hnd st x) (hnd st g)" by (auto simp: transfer_ok_def)
    have "g < n_hnd st" "h_pc (hnd st g) = HDone"
      using sl i g(1,2) by (auto simp: slots_ok_def slot_get)
    then have "hnd st' g = hnd st g" by (rule step_done_kept [OF st sl])
    with g same step_slot_kept [OF st i g(2), of GetSide] step_max [OF st i] show ?thesis
      by (auto simp: fully_copied_def slot_get)
  next
    fix i g assume s: "st' = streamRelay i x g st" "i < n_rel st" "rl_pc (rel st i) = Pairing"
      "rl_put (rel st i) = Some x" "rl_get (rel st i) = Some g"
    note p = slots_parked(1) [OF sl s(2,3,4)] and g = slots_parked(2) [OF sl s(2,3,5)]
    then have "x \<noteq> g" by auto
    then show ?thesis using s p g x(4)
      by (auto simp: streamRelay_def fully_copied_def dest: copyBytes_ok copyBytes_overflow split: prod.splits if_splits)
  qed
next
  fix x assume x: "x < n_hnd st'" "h_got (hnd st' x) \<noteq> []"
  from step_got [OF st x]
  show "\<exists>p k. rl_put (rel_of st' x) = Some p \<and> rl_pc (rel_of st' x) \<noteq> Pairing \<and>
      h_got (hnd st' x) = take k (h_data (hnd st' p)) \<and>
      (rl_max (rel_of st' x) > 0 \<longrightarrow> int (length (h_got (hnd st' x))) \<le> rl_max (rel_of st' x) + 1)"
  proof (elim disjE exE conjE)
    assume o: "x < n_hnd st" "h_got (hnd st' x) = h_got (hnd st x)"
    from h o(1) have i: "h_relay (hnd st x) < n_rel st" by (simp add: handlers_ok_def)
    from t o x(2) obtain p k where p: "rl_put (rel_of st x) = Some p" "rl_pc (rel_of st x) \<noteq> Pairing"
      "h_got (hnd st x) = take k (h_data (hnd st p))"
      "rl_max (rel_of st x) > 0 \<longrightarrow> int (length (h_got (hnd st x))) \<le> rl_max (rel_of st x) + 1"
      unfolding transfer_ok_def by metis
    have "p < n_hnd st" using sl i p(1) by (auto simp: slots_ok_def slot_put)
    with step_hnd_kept [OF st this] step_hnd_kept [OF st o(1)] p o(2)
      step_slot_kept [OF st i p(2), of PutSide] step_max [OF st i]
    show ?thesis by (auto simp: slot_put)
  next
    fix i p assume s: "st' = streamRelay i p x st" "i < n_rel st" "rl_pc (rel st i) = Pairing"
      "rl_put (rel st i) = Some p" "rl_get (rel st i) = Some x"
    note p = slots_parked(1) [OF sl s(2,3,4)] and g = slots_parked(2) [OF sl s(2,3,5)]
    then have "x \<noteq> p" by auto
    obtain out err where c: "copyBytes (rl_max (rel st i)) (h_data (hnd st p)) (h_srcErr (hnd st p))
        (h_room (hnd st x)) = (out, err)" by fastforce
    from copyBytes_prefix [OF c] \<open>x \<noteq> p\<close> s p g c show ?thesis
      by (auto simp: streamRelay_def)
  qed
qed

section \<open>Reachable states\<close>

definition relay_reachable :: "relays \<Rightarrow> bool" where
  "relay_reachable st \<longleftrightarrow> (\<exists>maxPer ttl. relay_step\<^sup>*\<^sup>* (relay_init maxPer ttl) st)"

lemma relay_reachable_step: "relay_reachable st \<Longrightarrow> relay_step st st' \<Longrightarrow> relay_reachable st'"
  unfolding relay_reachable_def by (meson rtranclp.rtrancl_into_rtrancl)

lemma relay_init_ok:
  "reg_ok (relay_init m t) \<and> handlers_ok (relay_init m t) \<and> slots_ok (relay_init m t) \<and>
     claims_ok (relay_init m t) \<and> transfer_ok (relay_init m t)"
  by (simp add: reg_ok_def handlers_ok_def slots_ok_def claims_ok_def transfer_ok_def relay_init_def
      NewRegistry_def count_of_def live_in_def DefaultRelayMaxPerWorkspace_def)

lemma relay_invariants:
  assumes "relay_reachable st"
  shows "reg_ok st \<and> handlers_ok st \<and> slots_ok st \<and> claims_ok st \<and> transfer_ok st"
proof -
  from assms obtain m t where "relay_step\<^sup>*\<^sup>* (relay_init m t) st"
    by (auto simp: relay_reachable_def)
  then show ?thesis
  proof (induction rule: rtranclp_induct)
    case base
    show ?case by (rule relay_init_ok)
  next
    case (step y z)
    then show ?case
      using reg_ok_step handlers_ok_step slots_ok_step claims_ok_step transfer_ok_step by simp
  qed
qed

subsection \<open>No handler waits for ever\<close>

definition can_finish :: "relays \<Rightarrow> nat \<Rightarrow> bool" where
  "can_finish st h \<longleftrightarrow> (\<exists>st'. relay_step\<^sup>*\<^sup>* st st' \<and> h_pc (hnd st' h) = HDone)"

lemma finish_now: "h_pc (hnd st h) = HDone \<Longrightarrow> can_finish st h"
  unfolding can_finish_def by blast

lemma finish_later: "relay_step st st' \<Longrightarrow> can_finish st' h \<Longrightarrow> can_finish st h"
  unfolding can_finish_def by (meson converse_rtranclp_into_rtranclp)

lemma finish_parked:
  assumes ok: "handlers_ok st" and h: "h < n_hnd st" "h_pc (hnd st h) = HParked"
  shows "can_finish st h"
proof -
  let ?i = "h_relay (hnd st h)"
  from ok h have i: "?i < n_rel st" "rl_pc (rel st ?i) = Pairing"
    "slot (h_side (hnd st h)) (rel st ?i) = Some h" by (auto simp: handlers_ok_def)
  then have mine: "rl_put (rel st ?i) = Some h \<or> rl_get (rel st ?i) = Some h"
    by (cases "h_side (hnd st h)") (auto simp: slot_def)
  show ?thesis
  proof (cases "rl_put (rel st ?i) = None \<or> rl_get (rel st ?i) = None")
    case True
    have "h_pc (hnd (timeoutRelay ?i st) h) = HDone"
      using mine by (auto simp: timeoutRelay_def Let_def)
    then show ?thesis
      by (rule finish_later [OF timeout [OF i(1,2) True] finish_now])
  next
    case False
    then obtain p g where pg: "rl_put (rel st ?i) = Some p" "rl_get (rel st ?i) = Some g" by auto
    have "h_pc (hnd (streamRelay ?i p g st) h) = HDone"
      using mine pg by (auto simp: streamRelay_def split: prod.splits)
    then show ?thesis
      by (rule finish_later [OF stream [OF i(1,2) pg] finish_now])
  qed
qed

lemma finish_sending:
  assumes ok: "handlers_ok st" and sl: "slots_ok st" and c: "claims_ok st" and r: "reg_ok st"
    and h: "h < n_hnd st" "h_pc (hnd st h) = HSending"
  shows "can_finish st h"
proof -
  let ?i = "h_relay (hnd st h)"
  from ok h have i: "?i < n_rel st" by (simp add: handlers_ok_def)
  have closed: "can_finish s h" if "rl_pc (rel s ?i) = DoneClosed" "hnd s = hnd st" "n_hnd s = n_hnd st" for s
  proof (rule finish_later [OF gone [of h] finish_now])
    show "h < n_hnd s" "h_pc (hnd s h) = HSending" "rl_pc (rel s (h_relay (hnd s h))) = DoneClosed"
      using that h by simp_all
  qed simp
  have cleaned: "can_finish s h"
    if "rl_pc (rel s ?i) = Cleaned" "hnd s = hnd st" "n_hnd s = n_hnd st" "n_rel s = n_rel st" for s
    by (rule finish_later [OF close_done [of ?i] closed]) (use that i in \<open>simp_all add: closeDone_def\<close>)
  have ended: "can_finish s h"
    if "rl_pc (rel s ?i) = Ended" "hnd s = hnd st" "n_hnd s = n_hnd st" "n_rel s = n_rel st" for s
    by (rule finish_later [OF cleanup [of ?i] cleaned]) (use that i in \<open>simp_all add: runCleanup_def\<close>)
  show ?thesis
  proof (cases "rl_pc (rel st ?i)")
    case Pairing
    show ?thesis
    proof (cases "rl_put (rel st ?i) = None \<or> rl_get (rel st ?i) = None")
      case True
      note m = relay_step.meet [OF h Pairing True]
      have "handlers_ok (meet h st)" by (rule handlers_ok_step [OF m ok sl c r])
      then show ?thesis
        by (rule finish_later [OF m finish_parked]) (use h in \<open>simp_all add: meet_def\<close>)
    next
      case False
      then have "slot (h_side (hnd st h)) (rel st ?i) \<noteq> None"
        by (cases "h_side (hnd st h)") (auto simp: slot_def)
      then obtain k where k: "slot (h_side (hnd st h)) (rel st ?i) = Some k" by blast
      with sl i Pairing have "k < n_hnd st" "h_relay (hnd st k) = ?i"
        "h_side (hnd st k) = h_side (hnd st h)" "h_pc (hnd st k) = HParked" by (auto simp: slots_ok_def)
      with c h have "k = h" by (auto simp: claims_ok_def holder_def)
      with \<open>h_pc (hnd st k) = HParked\<close> h show ?thesis by simp
    qed
  qed (use ended cleaned closed in auto)
qed

lemma finish_any:
  assumes inv: "handlers_ok st" "slots_ok st" "claims_ok st" "reg_ok st" and h: "h < n_hnd st"
  shows "can_finish st h"
proof -
  have fresh: "can_finish s h" if s: "handlers_ok s" "slots_ok s" "claims_ok s" "reg_ok s" "h < n_hnd s"
    "h_pc (hnd s h) = HClaimed" for s
  proof -
    note f = fast_fail [OF s(5,6)]
    have keep: "handlers_ok (fastFail h s)" "slots_ok (fastFail h s)" "claims_ok (fastFail h s)"
      "reg_ok (fastFail h s)" "h < n_hnd (fastFail h s)"
      using handlers_ok_step [OF f s(1-4)] slots_ok_step [OF f s(1-3)] claims_ok_step [OF f s(1-3)]
        reg_ok_step [OF f s(4)] s(5) by (simp_all add: fastFail_def)
    have "h_pc (hnd (fastFail h s) h) = HDone \<or> h_pc (hnd (fastFail h s) h) = HSending"
      by (simp add: fastFail_def)
    with keep have "can_finish (fastFail h s) h" by (blast intro: finish_now finish_sending)
    with f show ?thesis by (rule finish_later)
  qed
  show ?thesis
  proof (cases "h_pc (hnd st h)")
    case HStart
    note k = relay_step.claim [OF h HStart]
    have keep: "handlers_ok (claim h st)" "slots_ok (claim h st)" "claims_ok (claim h st)"
      "reg_ok (claim h st)" "h < n_hnd (claim h st)"
      using handlers_ok_step [OF k inv] slots_ok_step [OF k inv(1-3)] claims_ok_step [OF k inv(1-3)]
        reg_ok_step [OF k inv(4)] h by (simp_all add: claim_def Let_def)
    have "h_pc (hnd (claim h st) h) = HDone \<or> h_pc (hnd (claim h st) h) = HClaimed"
      by (simp add: claim_def Let_def)
    with keep have "can_finish (claim h st) h" by (blast intro: finish_now fresh)
    with k show ?thesis by (rule finish_later)
  qed (use inv h finish_now finish_parked finish_sending fresh in auto)
qed

section \<open>Properties\<close>

text \<open>C10: the ticket table and the per-workspace counter agree with the relays that have not been
  cleaned up, and no workspace ever has more of them than the cap.  A ticket is found exactly
  while its relay is pairing, copying or about to be cleaned up.\<close>

theorem relay_cap:
  assumes "relay_reachable st"
  shows "(LookupTicket (reg st) t = Some i \<longleftrightarrow> i < n_rel st \<and> live st i \<and> rl_ticket (rel st i) = t) \<and>
         count_of (reg st) ws = int (card (live_in st ws)) \<and>
         int (card (live_in st ws)) \<le> maxPerWorkspace (reg st)"
proof -
  from relay_invariants [OF assms] have ok: "reg_ok st" by blast
  from reg_okD(1) [OF ok, of t i] reg_okD(3,4) [OF ok, of ws] show ?thesis
    by (simp add: LookupTicket_def)
qed

text \<open>C8: what an upload answered 200 has transferred.  The relay then has a download.  With any limit below the
  largest \<open>int64\<close> that download received the whole body, the body's reader did not fail, and the body is within the
  limit.  With the largest one the bound of the reader overflows: the download received nothing.\<close>

theorem relay_upload_complete:
  assumes "relay_reachable st" and "p < n_hnd st" and "h_side (hnd st p) = PutSide"
    and "h_pc (hnd st p) = HDone" and "response (hnd st p) = 200"
  shows "\<exists>g. g < n_hnd st \<and> h_side (hnd st g) = GetSide \<and> h_relay (hnd st g) = h_relay (hnd st p) \<and>
     (rl_max (rel_of st p) < 2 ^ 63 - 1 \<longrightarrow> h_got (hnd st g) = h_data (hnd st p) \<and> \<not> h_srcErr (hnd st p) \<and>
        (rl_max (rel_of st p) > 0 \<longrightarrow> int (length (h_data (hnd st p))) \<le> rl_max (rel_of st p))) \<and>
     (rl_max (rel_of st p) = 2 ^ 63 - 1 \<longrightarrow> h_got (hnd st g) = [])"
proof -
  from relay_invariants [OF assms(1)] have h: "handlers_ok st" and sl: "slots_ok st" and t: "transfer_ok st"
    by blast+
  from assms(3,5) have "h_status (hnd st p) = 200" by (simp add: response_def)
  with t assms(2-4) obtain g where g: "rl_get (rel_of st p) = Some g"
    "fully_copied (rel_of st p) (hnd st p) (hnd st g)" unfolding transfer_ok_def by blast
  from h assms(2) have "h_relay (hnd st p) < n_rel st" by (simp add: handlers_ok_def)
  with sl g(1) have "g < n_hnd st \<and> h_side (hnd st g) = GetSide \<and> h_relay (hnd st g) = h_relay (hnd st p)"
    by (auto simp: slots_ok_def slot_get)
  with g(2) show ?thesis unfolding fully_copied_def by blast
qed

text \<open>A download only ever carries a prefix of the body of the one upload of its own ticket,
  and never more than one byte beyond the limit.\<close>

theorem relay_download_bounded:
  assumes "relay_reachable st" and "g < n_hnd st" and "h_got (hnd st g) \<noteq> []"
  shows "\<exists>p k. p < n_hnd st \<and> h_side (hnd st p) = PutSide \<and> h_relay (hnd st p) = h_relay (hnd st g) \<and>
     h_got (hnd st g) = take k (h_data (hnd st p)) \<and>
     (rl_max (rel_of st g) > 0 \<longrightarrow> int (length (h_got (hnd st g))) \<le> rl_max (rel_of st g) + 1)"
proof -
  from relay_invariants [OF assms(1)] have h: "handlers_ok st" and sl: "slots_ok st" and t: "transfer_ok st"
    by blast+
  from t assms(2,3) obtain p k where p: "rl_put (rel_of st g) = Some p"
    "h_got (hnd st g) = take k (h_data (hnd st p))"
    "rl_max (rel_of st g) > 0 \<longrightarrow> int (length (h_got (hnd st g))) \<le> rl_max (rel_of st g) + 1"
    unfolding transfer_ok_def by metis
  from h assms(2) have "h_relay (hnd st g) < n_rel st" by (simp add: handlers_ok_def)
  with sl p(1) have "p < n_hnd st \<and> h_side (hnd st p) = PutSide \<and> h_relay (hnd st p) = h_relay (hnd st g)"
    by (auto simp: slots_ok_def slot_put)
  with p(2,3) show ?thesis by blast
qed

text \<open>C9: no upload or download is left waiting.  From every reachable state and for every handler
  there is a run in which it is answered: whatever the other side does, the pairing goroutine's
  own steps, its timer included, release it.\<close>

theorem relay_never_stuck:
  assumes "relay_reachable st" and "h < n_hnd st"
  shows "\<exists>st'. relay_step\<^sup>*\<^sup>* st st' \<and> h_pc (hnd st' h) = HDone"
  using relay_invariants [OF assms(1)] finish_any [of st h] assms(2) by (simp add: can_finish_def)

text \<open>The download does not learn of a failed copy.  When the copy fails or exceeds the limit
  the upload is answered 500, but the download, which may be truncated, gets a regular 200.\<close>

theorem relay_get_hides_errors:
  assumes "relay_reachable st" and "i < n_rel st" and "rl_pc (rel st i) = Pairing"
    and "rl_put (rel st i) = Some p" and "rl_get (rel st i) = Some g"
    and "copyBytes (rl_max (rel st i)) (h_data (hnd st p)) (h_srcErr (hnd st p)) (h_room (hnd st g)) =
           (out, Some e)"
  shows "response (hnd (streamRelay i p g st) p) = 500 \<and> response (hnd (streamRelay i p g st) g) = 200"
proof -
  from relay_invariants [OF assms(1)] have "slots_ok st" by blast
  from slots_parked(1) [OF this assms(2,3,4)] slots_parked(2) [OF this assms(2,3,5)] assms(6)
  show ?thesis by (auto simp: streamRelay_def response_def)
qed

text \<open>With the largest \<open>int64\<close> as limit the sum wraps and nothing is copied, without an error.\<close>

lemma copyBytes_max_int64: "copyBytes (2 ^ 63 - 1) data False None = ([], None)"
  by (simp add: copyBytes_def Let_def int64_def)

lemma OwnsExecutor_True: "OwnsExecutor up db ws e = Inr True \<longleftrightarrow> up \<and> (ws, e) \<in> bound db"
  using OwnsExecutor_bound [of db ws e] by (cases up) (auto simp: OwnsExecutor_def)

lemma relayOwners_None:
  "relayOwners up db ws es = None \<longleftrightarrow> (\<forall>e\<in>set es. up \<and> (ws, e) \<in> bound db)"
proof (induction es)
  case (Cons e es)
  then show ?case
    using OwnsExecutor_True [of up db ws e] by (cases "OwnsExecutor up db ws e") auto
qed simp

text \<open>A ticket is only issued to a workspace that owns both executors and is below its cap.
  The ticket then finds the new relay, whose expiry the reply states, and the workspace's count
  is one higher; every other reply leaves the registry and the relays as they were.\<close>

theorem handleRelayCreate_issues:
  assumes "handleRelayCreate (Some (up, db)) base now random (Some req) (Some st) = (res, Some st')"
  shows "(case res of
      ErrorReply _ _ \<Rightarrow> st' = st
    | Reply code r \<Rightarrow> code = 201 \<and> (rq_ws req, rq_src req) \<in> bound db \<and> (rq_ws req, rq_dst req) \<in> bound db \<and>
        count_of (reg st) (rq_ws req) < maxPerWorkspace (reg st) \<and>
        count_of (reg st') (rq_ws req) = count_of (reg st) (rq_ws req) + 1 \<and>
        LookupTicket (reg st') (rc_ticket r) = Some (n_rel st) \<and> rl_ws (rel st' (n_rel st)) = rq_ws req \<and>
        rl_expires (rel st' (n_rel st)) = rc_expires r \<and>
        (0 < defaultTTL (reg st) \<longrightarrow> now < rc_expires r))"
proof (cases res)
  case (ErrorReply c m)
  with assms show ?thesis
    by (auto simp: handleRelayCreate_def Let_def split: if_splits option.splits sum.splits create_err.splits)
next
  case (Reply code r)
  let ?opt = "\<lparr>o_ws = rq_ws req, o_src = rq_src req, o_dst = rq_dst req,
      o_ttl = int64 (rq_ttl req * 1000000000), o_max = rq_max req\<rparr>"
  from assms Reply have c: "Create now random ?opt st = Inr st'"
    and own: "relayOwners up db (rq_ws req) [rq_src req, rq_dst req] = None"
    and code: "code = 201" "rc_ticket r = rl_ticket (rel st' (n_rel st))"
      "rc_expires r = rl_expires (rel st' (n_rel st))"
    by (auto simp: handleRelayCreate_def Let_def split: if_splits option.splits sum.splits create_err.splits)
  note e = Create_effect [OF c]
  from own have "(rq_ws req, rq_src req) \<in> bound db" "(rq_ws req, rq_dst req) \<in> bound db"
    unfolding relayOwners_None by simp_all
  with Reply code e show ?thesis
    by (auto simp: LookupTicket_def count_of_def newRelay_def)
qed

text \<open>A run for the witnesses: a ticket, an upload of two bytes and a download.\<close>

definition wopt :: CreateOptions where
  "wopt = \<lparr>o_ws = ''w'', o_src = ''a'', o_dst = ''b'', o_ttl = 0, o_max = 5\<rparr>"

definition wrun1 :: relays where
  "wrun1 = projr (Create 0 [] wopt (relay_init 1 1))"

definition wrun2 :: "nat option \<Rightarrow> relays" where
  "wrun2 room = arrive GetSide 0 [] False room (arrive PutSide 0 ''xy'' False None wrun1)"

definition wrun3 :: "nat option \<Rightarrow> relays" where
  "wrun3 room = meet 1 (fastFail 1 (claim 1 (meet 0 (fastFail 0 (claim 0 (wrun2 room))))))"

definition wrun4 :: relays where
  "wrun4 = streamRelay 0 0 1 (wrun3 None)"

lemma wrun1_eval: "Create 0 [] wopt (relay_init 1 1) = Inr wrun1"
  "n_rel wrun1 = 1" "n_hnd wrun1 = 0" "reg wrun1 = \<lparr>tickets = [''rly_'' \<mapsto> 0], workspaceCount = [''w'' \<mapsto> 1],
     maxPerWorkspace = 1, defaultTTL = 1\<rparr>" "rel wrun1 0 = newRelay ''rly_'' 1 wopt"
  by (simp_all add: wrun1_def Create_def wopt_def relay_init_def NewRegistry_def count_of_def Let_def
      mintTicket_def)

lemma wrun2_eval: "n_rel (wrun2 k) = 1" "n_hnd (wrun2 k) = 2" "reg (wrun2 k) = reg wrun1"
  "rel (wrun2 k) 0 = newRelay ''rly_'' 1 wopt"
  "hnd (wrun2 k) 0 = \<lparr>h_relay = 0, h_side = PutSide, h_pc = HStart, h_status = 0, h_data = ''xy'',
     h_srcErr = False, h_room = None, h_got = []\<rparr>"
  "hnd (wrun2 k) 1 = \<lparr>h_relay = 0, h_side = GetSide, h_pc = HStart, h_status = 0, h_data = [],
     h_srcErr = False, h_room = k, h_got = []\<rparr>"
  by (simp_all add: wrun2_def arrive_def wrun1_eval)

lemmas side_ops = claim_def fastFail_def meet_def Let_def newRelay_def claimed_def set_claim_def
  set_slot_def

lemma wrun_reachable: "relay_reachable (wrun2 k)" "relay_reachable (wrun3 k)" "relay_reachable wrun4"
proof -
  have init: "relay_reachable (relay_init 1 1)" unfolding relay_reachable_def by blast
  have one: "relay_reachable wrun1"
    by (rule relay_reachable_step [OF init relay_step.create [OF wrun1_eval(1)]])
       (simp add: relay_init_def NewRegistry_def)
  have adm: "relayAdmit (Some (reg st)) ''rly_'' ''Bearer rly_'' = Inr 0" if "reg st = reg wrun1" for st
    using that by (simp add: relayAdmit_def ExtractBearerTicket_def bearer_def HasPrefix_def TrimPrefix_def
        LookupTicket_def wrun1_eval)
  show two: "relay_reachable (wrun2 k)" for k
    unfolding wrun2_def
    by (rule relay_reachable_step [OF relay_reachable_step [OF one relay_step.arrive [OF adm]]
          relay_step.arrive [OF adm]]) (simp_all add: arrive_def)
  show three: "relay_reachable (wrun3 k)" for k
    unfolding wrun3_def
    by (intro relay_reachable_step [OF _ relay_step.meet] relay_reachable_step [OF _ relay_step.fast_fail]
          relay_reachable_step [OF _ relay_step.claim] two)
       (simp_all add: wrun2_eval side_ops del: One_nat_def)
  show "relay_reachable wrun4"
    unfolding wrun4_def
    by (rule relay_reachable_step [OF three relay_step.stream])
       (simp_all add: wrun3_def wrun2_eval side_ops del: One_nat_def)
qed

lemma wrun3_eval: "n_hnd (wrun3 k) = 2" "n_rel (wrun3 k) = 1" "rl_pc (rel (wrun3 k) 0) = Pairing"
  "rl_put (rel (wrun3 k) 0) = Some 0" "rl_get (rel (wrun3 k) 0) = Some 1" "rl_max (rel (wrun3 k) 0) = 5"
  "h_data (hnd (wrun3 k) 0) = ''xy''" "h_side (hnd (wrun3 k) 0) = PutSide" "h_relay (hnd (wrun3 k) 0) = 0"
  "h_srcErr (hnd (wrun3 k) 0) = False" "h_room (hnd (wrun3 k) 1) = k" "h_side (hnd (wrun3 k) 1) = GetSide"
  "h_relay (hnd (wrun3 k) 1) = 0" "reg (wrun3 k) = reg wrun1" "h_pc (hnd (wrun3 k) 1) = HParked"
  by (simp_all add: wrun3_def wrun2_eval side_ops wopt_def del: One_nat_def)

lemma take_two: "take 1 [c, d] = [c]"
  by simp

lemma wrun4_eval: "n_hnd wrun4 = 2" "hnd wrun4 0 = reply_hnd 200 (hnd (wrun3 None) 0)"
  "h_got (hnd wrun4 1) = ''xy''" "h_side (hnd wrun4 1) = GetSide" "h_relay (hnd wrun4 1) = 0"
  "rl_max (rel wrun4 0) = 5"
  by (simp_all add: wrun4_def streamRelay_def copyBytes_def wrun3_eval int64_def del: One_nat_def)

theorem relay_cap_witness:
  "LookupTicket (reg (wrun3 None)) ''rly_'' = Some 0 \<and> int (card (live_in (wrun3 None) ''w'')) = 1"
  using relay_cap [OF wrun_reachable(2) [of None], of "''rly_''" 0 "''w''"]
  by (simp add: wrun3_eval wrun1_eval LookupTicket_def count_of_def)

theorem relay_upload_complete_witness:
  "response (hnd wrun4 0) = 200 \<and> (\<exists>g. h_side (hnd wrun4 g) = GetSide \<and> h_got (hnd wrun4 g) = ''xy'')"
  using relay_upload_complete [OF wrun_reachable(3), of 0]
  by (auto simp: wrun4_eval wrun3_eval response_def)

theorem relay_download_bounded_witness:
  "h_got (hnd wrun4 1) = ''xy'' \<and> (\<exists>p k. h_side (hnd wrun4 p) = PutSide \<and> ''xy'' = take k (h_data (hnd wrun4 p)))"
  using relay_download_bounded [OF wrun_reachable(3), of 1] by (auto simp: wrun4_eval simp del: One_nat_def)

theorem relay_never_stuck_witness:
  "h_pc (hnd (wrun3 None) 1) = HParked \<and> (\<exists>st'. relay_step\<^sup>*\<^sup>* (wrun3 None) st' \<and> h_pc (hnd st' 1) = HDone)"
  using relay_never_stuck [OF wrun_reachable(2) [of None], of 1] by (simp add: wrun3_eval del: One_nat_def)

theorem relay_get_hides_errors_witness:
  "response (hnd (streamRelay 0 0 1 (wrun3 (Some 1))) 0) = 500 \<and>
   response (hnd (streamRelay 0 0 1 (wrun3 (Some 1))) 1) = 200"
  by (rule relay_get_hides_errors [OF wrun_reachable(2), where out = "''x''" and e = WriteFailure])
     (simp_all add: wrun3_eval take_two copyBytes_def int64_def del: One_nat_def)

abbreviation wbound :: "string \<Rightarrow> bind_row" where
  "wbound e \<equiv> \<lparr>we_workspace = ''w'', we_exe = e, we_name = e, we_desc = [], we_default = False,
     we_created = 0\<rparr>"

abbreviation wdb :: exec_db where
  "wdb \<equiv> \<lparr>executors = Map.empty, bindings = [wbound ''a'', wbound ''b'']\<rparr>"

theorem handleRelayCreate_issues_witness:
  "\<exists>r st'. handleRelayCreate (Some (True, wdb)) ''https://h/'' 0 []
     (Some \<lparr>rq_ws = ''w'', rq_src = ''a'', rq_dst = ''b'', rq_ttl = 0, rq_max = 5\<rparr>)
     (Some (relay_init 1 1)) = (Reply 201 r, Some st') \<and> LookupTicket (reg st') (rc_ticket r) = Some 0 \<and>
     rc_upload r = ''https://h/relay/rly_''"
proof -
  let ?req = "\<lparr>rq_ws = ''w'', rq_src = ''a'', rq_dst = ''b'', rq_ttl = 0, rq_max = 5\<rparr>"
  have c: "Create 0 [] \<lparr>o_ws = ''w'', o_src = ''a'', o_dst = ''b'', o_ttl = int64 0, o_max = 5\<rparr>
      (relay_init 1 1) = Inr wrun1" using wrun1_eval(1) by (simp add: wopt_def int64_def)
  have h: "handleRelayCreate (Some (True, wdb)) ''https://h/'' 0 [] (Some ?req) (Some (relay_init 1 1)) =
     (Reply 201 \<lparr>rc_ticket = ''rly_'', rc_upload = ''https://h/relay/rly_'',
        rc_download = ''https://h/relay/rly_'', rc_expires = 1\<rparr>, Some wrun1)"
    using c by (simp add: handleRelayCreate_def OwnsExecutor_def TrimRight_def Let_def relay_init_def
        wrun1_eval(5) newRelay_def)
  from handleRelayCreate_issues [OF h] h show ?thesis by (auto simp: relay_init_def)
qed

end
