(* ===== verification/Auth_Store.thy ===== *)
theory Auth_Store
  imports Go_Encoding Exec_Store
begin

text \<open>
  The tables of the login service and the statements of
  \<open>internal/codexauth/store.go\<close> on them, with the constraints of
  \<open>db/migrations/025_codex_auth.sql\<close>: primary keys, the unique user code, the one active
  signing key, and the references to users, keys and identities.

  A statement takes a flag that tells whether it reaches the database, and the time \<open>NOW()\<close>.
  A token's hash is \<open>sha256\<close> of it, a parameter of the operations that compute it.
\<close>

section \<open>Tables\<close>

record JwksKey =
  k_kid :: string
  k_n :: string
  k_e :: string
  k_private :: string
  k_active :: bool

record PkceRequest =
  pk_code :: string
  pk_challenge :: string
  pk_state :: string
  pk_user :: string
  pk_expires :: time

record access_row =
  at_user :: string
  at_expires :: time
  at_revoked :: "time option"

record refresh_row =
  rt_family :: string
  rt_user :: string
  rt_expires :: time
  rt_revoked :: "time option"

record AgentIdentity =
  ai_runtime :: string
  ai_user :: string
  ai_key :: string
  ai_signed :: string
  ai_issued :: time
  ai_expires :: time
  ai_revoked :: "time option"

record AgentTask =
  ta_id :: string
  ta_runtime :: string
  ta_user :: string
  ta_issued :: time
  ta_expires :: time

datatype device_status = DevPending | DevApproved | DevExchanged | DevDenied

record DeviceCode =
  dc_auth :: string
  dc_user_code :: string
  dc_challenge :: string
  dc_verifier :: string
  dc_authcode :: string
  dc_status :: device_status
  dc_user :: "string option"
  dc_expires :: time
  dc_approved :: "time option"

text \<open>Keys are listed newest first; \<open>users\<close> maps a user to an e-mail address.\<close>

record auth_db =
  users :: "string \<rightharpoonup> string"
  jwks :: "JwksKey list"
  pkce :: "string \<rightharpoonup> PkceRequest"
  access :: "string \<rightharpoonup> access_row"
  refreshes :: "string \<rightharpoonup> refresh_row"
  identities :: "string \<rightharpoonup> AgentIdentity"
  agent_tasks :: "string \<rightharpoonup> AgentTask"
  devices :: "DeviceCode list"

section \<open>Signing keys\<close>

definition InsertJwksKey :: "bool \<Rightarrow> auth_db \<Rightarrow> JwksKey \<Rightarrow> db_err option \<times> auth_db" where
  "InsertJwksKey up db k =
     (if \<not> up then (Some DbDown, db)
      else if list_ex (\<lambda>x. k_kid x = k_kid k \<or> (k_active x \<and> k_active k)) (jwks db)
           then (Some DuplicateKey, db)
      else (None, db\<lparr>jwks := k # jwks db\<rparr>))"

definition GetActiveJwksKey :: "bool \<Rightarrow> auth_db \<Rightarrow> db_err + JwksKey option" where
  "GetActiveJwksKey up db = (if \<not> up then Inl DbDown else Inr (find k_active (jwks db)))"

definition ListAllJwksKeys :: "bool \<Rightarrow> auth_db \<Rightarrow> db_err + JwksKey list" where
  "ListAllJwksKeys up db = (if \<not> up then Inl DbDown else Inr (jwks db))"

text \<open>\<open>EnsureActiveKey\<close> (\<open>keys.go\<close>); the fresh key comes from \<open>GenerateRSAKey\<close>, which may fail.\<close>

datatype ensure_err = EnsureDb db_err | KeyGeneration

definition EnsureActiveKey ::
  "(nat \<Rightarrow> bool) \<Rightarrow> JwksKey option \<Rightarrow> auth_db \<Rightarrow> (ensure_err + JwksKey option) \<times> auth_db" where
  "EnsureActiveKey up fresh db =
     (case GetActiveJwksKey (up 0) db of
        Inl e \<Rightarrow> (Inl (EnsureDb e), db)
      | Inr (Some k) \<Rightarrow> (Inr (Some k), db)
      | Inr None \<Rightarrow>
          (case fresh of
             None \<Rightarrow> (Inl KeyGeneration, db)
           | Some k \<Rightarrow>
               (case InsertJwksKey (up 1) db (k\<lparr>k_active := True\<rparr>) of
                  (Some e, db1) \<Rightarrow> (Inl (EnsureDb e), db1)
                | (None, db1) \<Rightarrow>
                    (case GetActiveJwksKey (up 2) db1 of
                       Inl e \<Rightarrow> (Inl (EnsureDb e), db1)
                     | Inr r \<Rightarrow> (Inr r, db1)))))"

section \<open>Authorization codes\<close>

definition InsertPkceRequest :: "bool \<Rightarrow> auth_db \<Rightarrow> PkceRequest \<Rightarrow> db_err option \<times> auth_db" where
  "InsertPkceRequest up db r =
     (if \<not> up then (Some DbDown, db)
      else if pkce db (pk_code r) \<noteq> None then (Some DuplicateKey, db)
      else if users db (pk_user r) = None then (Some ForeignKey, db)
      else (None, db\<lparr>pkce := (pkce db)(pk_code r \<mapsto> r)\<rparr>))"

definition ConsumePkceRequest ::
  "bool \<Rightarrow> time \<Rightarrow> auth_db \<Rightarrow> string \<Rightarrow> (db_err + PkceRequest option) \<times> auth_db" where
  "ConsumePkceRequest up now db code =
     (if \<not> up then (Inl DbDown, db)
      else (case pkce db code of
          Some r \<Rightarrow> if now < pk_expires r then (Inr (Some r), db\<lparr>pkce := (pkce db)(code := None)\<rparr>)
                    else (Inr None, db)
        | None \<Rightarrow> (Inr None, db)))"

section \<open>Tokens\<close>

definition InsertAccessToken ::
  "bool \<Rightarrow> auth_db \<Rightarrow> string \<Rightarrow> string \<Rightarrow> time \<Rightarrow> db_err option \<times> auth_db" where
  "InsertAccessToken up db hash user expires =
     (if \<not> up then (Some DbDown, db)
      else if access db hash \<noteq> None then (Some DuplicateKey, db)
      else if users db user = None then (Some ForeignKey, db)
      else (None, db\<lparr>access := (access db)
              (hash \<mapsto> \<lparr>at_user = user, at_expires = expires, at_revoked = None\<rparr>)\<rparr>))"

text \<open>\<open>Inr []\<close> is the empty user of a token that is unknown, expired or revoked.\<close>

definition LookupAccessToken ::
  "(string \<Rightarrow> string) \<Rightarrow> bool \<Rightarrow> time \<Rightarrow> auth_db \<Rightarrow> string \<Rightarrow> db_err + string" where
  "LookupAccessToken sha up now db raw =
     (if \<not> up then Inl DbDown
      else Inr (case access db (sha raw) of
          Some r \<Rightarrow> if now < at_expires r \<and> at_revoked r = None then at_user r else []
        | None \<Rightarrow> []))"

definition InsertRefreshToken ::
  "bool \<Rightarrow> auth_db \<Rightarrow> string \<Rightarrow> string \<Rightarrow> string \<Rightarrow> time \<Rightarrow> db_err option \<times> auth_db" where
  "InsertRefreshToken up db hash family user expires =
     (if \<not> up then (Some DbDown, db)
      else if refreshes db hash \<noteq> None then (Some DuplicateKey, db)
      else if users db user = None then (Some ForeignKey, db)
      else (None, db\<lparr>refreshes := (refreshes db)
              (hash \<mapsto> \<lparr>rt_family = family, rt_user = user, rt_expires = expires, rt_revoked = None\<rparr>)\<rparr>))"

text \<open>
  \<open>RotateRefreshToken\<close> is one transaction; its statements, in order, are 0 the begin, 1 the
  update of the old row, 2 the lookup or the insert that follows, 3 the update of the family, 4
  the commit.  A statement that fails rolls everything back.
\<close>

datatype rotate_err = RotateDb db_err | ErrRefreshTokenReuse

definition revoke_family :: "time \<Rightarrow> string \<Rightarrow> (string \<rightharpoonup> refresh_row) \<Rightarrow> (string \<rightharpoonup> refresh_row)" where
  "revoke_family now family m =
     (\<lambda>h. case m h of
        None \<Rightarrow> None
      | Some r \<Rightarrow> Some (if rt_family r = family \<and> rt_revoked r = None
                        then r\<lparr>rt_revoked := Some now\<rparr> else r))"

definition RotateRefreshToken ::
  "(string \<Rightarrow> string) \<Rightarrow> (nat \<Rightarrow> bool) \<Rightarrow> time \<Rightarrow> auth_db \<Rightarrow> string \<Rightarrow> string \<Rightarrow> time \<Rightarrow>
     (rotate_err + string) \<times> auth_db" where
  "RotateRefreshToken sha up now db oldRaw newHash newExpiry =
     (let old = sha oldRaw in
      if \<not> up 0 \<or> \<not> up 1 then (Inl (RotateDb DbDown), db)
      else (case refreshes db old of
          None \<Rightarrow> if up 2 then (Inl ErrRefreshTokenReuse, db) else (Inl (RotateDb DbDown), db)
        | Some r \<Rightarrow>
            if rt_revoked r = None \<and> now < rt_expires r
            then (let db1 = db\<lparr>refreshes := (refreshes db)(old \<mapsto> r\<lparr>rt_revoked := Some now\<rparr>)\<rparr> in
                  case InsertRefreshToken (up 2) db1 newHash (rt_family r) (rt_user r) newExpiry of
                    (Some e, _) \<Rightarrow> (Inl (RotateDb e), db)
                  | (None, db2) \<Rightarrow> if up 4 then (Inr (rt_user r), db2) else (Inl (RotateDb DbDown), db))
            else if \<not> up 2 \<or> \<not> up 3 \<or> \<not> up 4 then (Inl (RotateDb DbDown), db)
            else (Inl ErrRefreshTokenReuse,
                  db\<lparr>refreshes := revoke_family now (rt_family r) (refreshes db)\<rparr>)))"

section \<open>Agent identities and tasks\<close>

definition InsertAgentIdentity :: "bool \<Rightarrow> auth_db \<Rightarrow> AgentIdentity \<Rightarrow> db_err option \<times> auth_db" where
  "InsertAgentIdentity up db a =
     (if \<not> up then (Some DbDown, db)
      else if identities db (ai_runtime a) \<noteq> None then (Some DuplicateKey, db)
      else if users db (ai_user a) = None \<or> \<not> list_ex (\<lambda>k. k_kid k = ai_signed a) (jwks db)
           then (Some ForeignKey, db)
      else (None, db\<lparr>identities := (identities db)(ai_runtime a \<mapsto> a)\<rparr>))"

definition GetAgentIdentity :: "bool \<Rightarrow> time \<Rightarrow> auth_db \<Rightarrow> string \<Rightarrow> db_err + AgentIdentity option" where
  "GetAgentIdentity up now db rid =
     (if \<not> up then Inl DbDown
      else Inr (case identities db rid of
          Some a \<Rightarrow> if ai_revoked a = None \<and> now < ai_expires a then Some a else None
        | None \<Rightarrow> None))"

definition InsertAgentTask ::
  "bool \<Rightarrow> time \<Rightarrow> auth_db \<Rightarrow> string \<Rightarrow> string \<Rightarrow> string \<Rightarrow> time \<Rightarrow> db_err option \<times> auth_db" where
  "InsertAgentTask up now db taskID rid user expires =
     (if \<not> up then (Some DbDown, db)
      else if agent_tasks db taskID \<noteq> None then (Some DuplicateKey, db)
      else if identities db rid = None then (Some ForeignKey, db)
      else (None, db\<lparr>agent_tasks := (agent_tasks db)(taskID \<mapsto>
              \<lparr>ta_id = taskID, ta_runtime = rid, ta_user = user, ta_issued = now, ta_expires = expires\<rparr>)\<rparr>))"

definition GetAgentTask :: "bool \<Rightarrow> time \<Rightarrow> auth_db \<Rightarrow> string \<Rightarrow> db_err + AgentTask option" where
  "GetAgentTask up now db taskID =
     (if \<not> up then Inl DbDown
      else Inr (case agent_tasks db taskID of
          Some t \<Rightarrow> if now < ta_expires t then Some t else None
        | None \<Rightarrow> None))"

section \<open>Device codes\<close>

definition InsertDeviceCode :: "bool \<Rightarrow> auth_db \<Rightarrow> DeviceCode \<Rightarrow> db_err option \<times> auth_db" where
  "InsertDeviceCode up db dc =
     (if \<not> up then (Some DbDown, db)
      else if list_ex (\<lambda>d. dc_auth d = dc_auth dc \<or> dc_user_code d = dc_user_code dc) (devices db)
           then (Some DuplicateKey, db)
      else (None, db\<lparr>devices := devices db @ [dc]\<rparr>))"

definition GetDeviceCodeByUserCode ::
  "bool \<Rightarrow> time \<Rightarrow> auth_db \<Rightarrow> string \<Rightarrow> db_err + DeviceCode option" where
  "GetDeviceCodeByUserCode up now db code =
     (if \<not> up then Inl DbDown
      else Inr (find (\<lambda>d. dc_user_code d = code \<and> now < dc_expires d) (devices db)))"

text \<open>The device row updates: the rows a predicate selects are changed in place.\<close>

definition update_devices :: "(DeviceCode \<Rightarrow> bool) \<Rightarrow> (DeviceCode \<Rightarrow> DeviceCode) \<Rightarrow> auth_db \<Rightarrow> auth_db" where
  "update_devices P f db = db\<lparr>devices := map (\<lambda>d. if P d then f d else d) (devices db)\<rparr>"

datatype approve_err = ApproveDb db_err | NotPending

definition ApproveDeviceCode ::
  "bool \<Rightarrow> time \<Rightarrow> auth_db \<Rightarrow> string \<Rightarrow> string \<Rightarrow> approve_err option \<times> auth_db" where
  "ApproveDeviceCode up now db userCode user =
     (let P = (\<lambda>d. dc_user_code d = userCode \<and> dc_status d = DevPending \<and> now < dc_expires d) in
      if \<not> up then (Some (ApproveDb DbDown), db)
      else if \<not> list_ex P (devices db) then (Some NotPending, db)
      else if users db user = None then (Some (ApproveDb ForeignKey), db)
      else (None, update_devices P
              (\<lambda>d. d\<lparr>dc_status := DevApproved, dc_user := Some user, dc_approved := Some now\<rparr>) db))"

text \<open>The refusal of \<open>handleDeviceVerifySubmit\<close> (\<open>device.go\<close>); its error is ignored.\<close>

definition DenyDeviceCode :: "bool \<Rightarrow> auth_db \<Rightarrow> string \<Rightarrow> auth_db" where
  "DenyDeviceCode up db userCode =
     (if \<not> up then db
      else update_devices (\<lambda>d. dc_user_code d = userCode \<and> dc_status d = DevPending)
             (\<lambda>d. d\<lparr>dc_status := DevDenied\<rparr>) db)"

definition ExchangeDeviceCode ::
  "bool \<Rightarrow> time \<Rightarrow> auth_db \<Rightarrow> string \<Rightarrow> string \<Rightarrow> (db_err + DeviceCode option) \<times> auth_db" where
  "ExchangeDeviceCode up now db deviceAuthID userCode =
     (let P = (\<lambda>d. dc_auth d = deviceAuthID \<and> dc_user_code d = userCode \<and> dc_status d = DevApproved \<and>
                   now < dc_expires d) in
      if \<not> up then (Inl DbDown, db)
      else (Inr (map_option (\<lambda>d. d\<lparr>dc_status := DevExchanged\<rparr>) (find P (devices db))),
            update_devices P (\<lambda>d. d\<lparr>dc_status := DevExchanged\<rparr>) db))"

end
