(* ===== verification/Code_Auth.thy ===== *)
theory Code_Auth
  imports Auth_Store Exec_Admission
begin

text \<open>
  The login service of \<open>internal/codexauth\<close>: the authorization code grant with its challenge
  (\<open>pkce.go\<close>), the device login (\<open>device.go\<close>), agent identities (\<open>agent_identity.go\<close>) and the
  validation endpoint the exec gateway calls (\<open>validate.go\<close>).

  The hash, the signatures and the JSON codec are parameters.  A handler reads the clock once;
  its statements are numbered in the order of the code, and \<open>up k\<close> tells whether the statement
  \<open>k\<close> reaches the database.  Random identifiers are arguments.
\<close>

section \<open>Constants and helpers\<close>

definition sec :: time where "sec = 1000000000"
definition pkceCodeTTL :: time where "pkceCodeTTL = 10 * 60 * sec"
definition accessTokenTTL :: time where "accessTokenTTL = 3600 * sec"
definition refreshTokenTTL :: time where "refreshTokenTTL = 365 * 24 * 3600 * sec"
definition deviceCodeTTL :: time where "deviceCodeTTL = 15 * 60 * sec"
definition agentIdentityJWTTTL :: time where "agentIdentityJWTTTL = 30 * 24 * 3600 * sec"
definition agentTaskTTL :: time where "agentTaskTTL = 24 * 3600 * sec"
definition taskRegisterClockSkew :: time where "taskRegisterClockSkew = 5 * 60 * sec"

definition unix :: "time \<Rightarrow> int" where "unix t = t div sec"

definition hex_digit :: "nat \<Rightarrow> char" where
  "hex_digit n = ''0123456789abcdef'' ! n"

definition hexEncode :: "string \<Rightarrow> string" where
  "hexEncode s = concat (map (\<lambda>c. [hex_digit (byte c div 16), hex_digit (byte c mod 16)]) s)"

definition userCodeAlphabet :: string where
  "userCodeAlphabet = ''ABCDEFGHJKLMNPQRSTUVWXYZ23456789''"

definition userCodeOf :: "string \<Rightarrow> string" where
  "userCodeOf b =
     (let pick = (\<lambda>c. userCodeAlphabet ! (byte c mod length userCodeAlphabet)) in
      map pick (take 4 b) @ ''-'' @ map pick (take 4 (drop 4 b)))"

definition base64URLNoPad :: "string \<Rightarrow> string" where
  "base64URLNoPad b = b64_encode b"

definition pkceVerifierMatches :: "(string \<Rightarrow> string) \<Rightarrow> string \<Rightarrow> string \<Rightarrow> bool" where
  "pkceVerifierMatches sha verifier challenge \<longleftrightarrow>
     base64URLNoPad (sha verifier) = TrimRight challenge ''=''"

definition lookupEmail :: "bool \<Rightarrow> auth_db \<Rightarrow> string \<Rightarrow> string" where
  "lookupEmail up db userID =
     (let email = (if up then (case users db userID of Some e \<Rightarrow> e | None \<Rightarrow> []) else []) in
      if email = [] then userID @ ''@agent.cs.ac.cn'' else email)"

section \<open>Claims\<close>

record IDTokenClaims =
  c_iss :: string
  c_sub :: string
  c_email :: string
  c_exp :: time

text \<open>
  The payloads \<open>signRS256\<close> signs: the claims that vary, with the times in seconds.  The
  signature is deterministic, so equal payloads give equal tokens.
\<close>

datatype payload =
    IDPayload string string int int string
  | AccessPayload string string int int
  | IdentityPayload int int string string string string string string

definition BuildIDToken :: "(payload \<Rightarrow> string option) \<Rightarrow> time \<Rightarrow> IDTokenClaims \<Rightarrow> string option" where
  "BuildIDToken sign now c = sign (IDPayload (c_iss c) (c_sub c) (unix now) (unix (c_exp c)) (c_email c))"

definition BuildAccessToken :: "(payload \<Rightarrow> string option) \<Rightarrow> time \<Rightarrow> IDTokenClaims \<Rightarrow> string option" where
  "BuildAccessToken sign now c = sign (AccessPayload (c_iss c) (c_sub c) (unix now) (unix (c_exp c)))"

definition BuildAgentIdentityJWT ::
  "(payload \<Rightarrow> string option) \<Rightarrow> time \<Rightarrow> string \<Rightarrow> string \<Rightarrow> string \<Rightarrow> string \<Rightarrow> string \<Rightarrow> string \<Rightarrow> time \<Rightarrow>
     string option" where
  "BuildAgentIdentityJWT sign now rid key account chatgpt email plan expires =
     sign (IdentityPayload (unix now) (unix expires) rid key account chatgpt email plan)"

section \<open>Authorization code grant\<close>

datatype authorize_reply = AuthorizeError nat | ToLogin | ToClient string string

text \<open>
  \<open>handleAuthorize\<close>.  \<open>session\<close> is the session's user, \<open>[]\<close> without one; \<open>dest_ok\<close> tells
  whether the redirect URI parses, which the code tests after the insertion.
\<close>

definition handleAuthorize ::
  "bool \<Rightarrow> time \<Rightarrow> string \<Rightarrow> string \<Rightarrow> string \<Rightarrow> string \<Rightarrow> string \<Rightarrow> bool \<Rightarrow> auth_db \<Rightarrow>
     authorize_reply \<times> auth_db" where
  "handleAuthorize up now random session state challenge redirectURI dest_ok db =
     (if state = [] \<or> challenge = [] \<or> redirectURI = [] then (AuthorizeError 400, db)
      else if session = [] then (ToLogin, db)
      else (let code = hexEncode random in
        case InsertPkceRequest up db \<lparr>pk_code = code, pk_challenge = challenge, pk_state = state,
               pk_user = session, pk_expires = now + pkceCodeTTL\<rparr> of
          (Some _, db1) \<Rightarrow> (AuthorizeError 500, db1)
        | (None, db1) \<Rightarrow> if dest_ok then (ToClient code state, db1) else (AuthorizeError 400, db1)))"

record tokens =
  t_id :: string
  t_access :: string
  t_refresh :: string

text \<open>\<open>mintTokensFor\<close>: statements 0 e-mail, 1 access token, 2 refresh token.\<close>

definition mintTokensFor ::
  "(string \<Rightarrow> string) \<Rightarrow> (payload \<Rightarrow> string option) \<Rightarrow> string \<Rightarrow> (nat \<Rightarrow> bool) \<Rightarrow> time \<Rightarrow> string \<Rightarrow> string \<Rightarrow>
     string \<Rightarrow> auth_db \<Rightarrow> tokens reply \<times> auth_db" where
  "mintTokensFor sha sign iss up now random familyID userID db =
     (let accessExp = now + accessTokenTTL;
          claims = \<lparr>c_iss = iss, c_sub = userID, c_email = lookupEmail (up 0) db userID, c_exp = accessExp\<rparr> in
      case BuildAccessToken sign now claims of
        None \<Rightarrow> (ErrorReply 500 ''server_error'', db)
      | Some acc \<Rightarrow>
          (let refresh = hexEncode random in
           case InsertAccessToken (up 1) db (sha acc) userID accessExp of
             (Some _, db1) \<Rightarrow> (ErrorReply 500 ''server_error'', db1)
           | (None, db1) \<Rightarrow>
               (case InsertRefreshToken (up 2) db1 (sha refresh) familyID userID (now + refreshTokenTTL) of
                  (Some _, db2) \<Rightarrow> (ErrorReply 500 ''server_error'', db2)
                | (None, db2) \<Rightarrow>
                    (case BuildIDToken sign now claims of
                       None \<Rightarrow> (ErrorReply 500 ''server_error'', db2)
                     | Some idTok \<Rightarrow>
                         (Reply 200 \<lparr>t_id = idTok, t_access = acc, t_refresh = refresh\<rparr>, db2)))))"

text \<open>Statement 0 of the grant consumes the code; those of \<open>mintTokensFor\<close> follow.\<close>

definition handleTokenAuthorizationCode ::
  "(string \<Rightarrow> string) \<Rightarrow> (payload \<Rightarrow> string option) \<Rightarrow> string \<Rightarrow> (nat \<Rightarrow> bool) \<Rightarrow> time \<Rightarrow> string \<Rightarrow> string \<Rightarrow>
     string \<Rightarrow> string \<Rightarrow> auth_db \<Rightarrow> tokens reply \<times> auth_db" where
  "handleTokenAuthorizationCode sha sign iss up now random familyID code verifier db =
     (if code = [] \<or> verifier = [] then (ErrorReply 400 ''invalid_request'', db)
      else (case ConsumePkceRequest (up 0) now db code of
          (Inl _, db1) \<Rightarrow> (ErrorReply 500 ''server_error'', db1)
        | (Inr None, db1) \<Rightarrow> (ErrorReply 400 ''invalid_grant'', db1)
        | (Inr (Some req), db1) \<Rightarrow>
            if \<not> pkceVerifierMatches sha verifier (pk_challenge req)
            then (ErrorReply 400 ''invalid_grant'', db1)
            else mintTokensFor sha sign iss (\<lambda>k. up (Suc k)) now random familyID (pk_user req) db1))"

section \<open>Refresh token grant\<close>

text \<open>\<open>handleTokenRefresh\<close>: statements 0 to 4 rotate, 5 e-mail, 6 access token.\<close>

definition handleTokenRefresh ::
  "(string \<Rightarrow> string) \<Rightarrow> (payload \<Rightarrow> string option) \<Rightarrow> string \<Rightarrow> (nat \<Rightarrow> bool) \<Rightarrow> time \<Rightarrow> string \<Rightarrow> string \<Rightarrow>
     auth_db \<Rightarrow> tokens reply \<times> auth_db" where
  "handleTokenRefresh sha sign iss up now random raw db =
     (if raw = [] then (ErrorReply 400 ''invalid_request'', db)
      else (let newRefresh = hexEncode random in
        case RotateRefreshToken sha up now db raw (sha newRefresh) (now + refreshTokenTTL) of
          (Inl _, db1) \<Rightarrow> (ErrorReply 401 ''refresh_token_expired'', db1)
        | (Inr userID, db1) \<Rightarrow>
            (let accessExp = now + accessTokenTTL;
                 claims = \<lparr>c_iss = iss, c_sub = userID, c_email = lookupEmail (up 5) db1 userID,
                           c_exp = accessExp\<rparr> in
             case BuildAccessToken sign now claims of
               None \<Rightarrow> (ErrorReply 500 ''server_error'', db1)
             | Some acc \<Rightarrow>
                 (case InsertAccessToken (up 6) db1 (sha acc) userID accessExp of
                    (Some _, db2) \<Rightarrow> (ErrorReply 500 ''server_error'', db2)
                  | (None, db2) \<Rightarrow>
                      (case BuildIDToken sign now claims of
                         None \<Rightarrow> (ErrorReply 500 ''server_error'', db2)
                       | Some idTok \<Rightarrow>
                           (Reply 200 \<lparr>t_id = idTok, t_access = acc, t_refresh = newRefresh\<rparr>, db2))))))"

datatype grant = AuthorizationCode string string | RefreshToken string | TokenExchange | OtherGrant string

definition handleToken ::
  "(string \<Rightarrow> string) \<Rightarrow> (payload \<Rightarrow> string option) \<Rightarrow> string \<Rightarrow> (nat \<Rightarrow> bool) \<Rightarrow> time \<Rightarrow> string \<Rightarrow> string \<Rightarrow>
     grant option \<Rightarrow> auth_db \<Rightarrow> tokens reply \<times> auth_db" where
  "handleToken sha sign iss up now random familyID form db =
     (case form of
        None \<Rightarrow> (ErrorReply 400 ''invalid_request'', db)
      | Some (AuthorizationCode code verifier) \<Rightarrow>
          handleTokenAuthorizationCode sha sign iss up now random familyID code verifier db
      | Some (RefreshToken raw) \<Rightarrow> handleTokenRefresh sha sign iss up now random raw db
      | Some TokenExchange \<Rightarrow> (ErrorReply 400 ''unsupported_grant_type'', db)
      | Some (OtherGrant g) \<Rightarrow> (ErrorReply 400 ''unsupported_grant_type'', db))"

section \<open>Device login\<close>

record device_reply =
  dr_auth :: string
  dr_user_code :: string

definition handleDeviceUserCode ::
  "(string \<Rightarrow> string) \<Rightarrow> bool \<Rightarrow> time \<Rightarrow> string \<Rightarrow> string \<Rightarrow> string \<Rightarrow> string \<Rightarrow> auth_db \<Rightarrow>
     device_reply reply \<times> auth_db" where
  "handleDeviceUserCode sha up now authBytes codeBytes verifierBytes acBytes db =
     (let auth = hexEncode authBytes; userCode = userCodeOf codeBytes; verifier = hexEncode verifierBytes in
      case InsertDeviceCode up db \<lparr>dc_auth = auth, dc_user_code = userCode,
             dc_challenge = base64URLNoPad (sha verifier), dc_verifier = verifier,
             dc_authcode = hexEncode acBytes, dc_status = DevPending, dc_user = None,
             dc_expires = now + deviceCodeTTL, dc_approved = None\<rparr> of
        (Some _, db1) \<Rightarrow> (ErrorReply 500 ''store'', db1)
      | (None, db1) \<Rightarrow> (Reply 200 \<lparr>dr_auth = auth, dr_user_code = userCode\<rparr>, db1))"

record device_token =
  dt_code :: string
  dt_challenge :: string
  dt_verifier :: string

text \<open>
  \<open>handleDeviceToken\<close>: statements 0 lookup, 1 exchange, 2 insertion of the authorization code.
  A row without a user has the empty user, as the statement's \<open>COALESCE\<close> yields it.
\<close>

definition handleDeviceToken ::
  "(nat \<Rightarrow> bool) \<Rightarrow> time \<Rightarrow> (string \<times> string) option \<Rightarrow> auth_db \<Rightarrow> device_token reply \<times> auth_db" where
  "handleDeviceToken up now body db =
     (case body of
        None \<Rightarrow> (ErrorReply 400 ''bad body'', db)
      | Some (auth, userCode) \<Rightarrow>
     if auth = [] \<or> userCode = [] then (ErrorReply 400 ''device_auth_id and user_code required'', db)
     else case GetDeviceCodeByUserCode (up 0) now db userCode of
        Inl _ \<Rightarrow> (ErrorReply 500 ''store'', db)
      | Inr None \<Rightarrow> (ErrorReply 404 ''not found'', db)
      | Inr (Some row) \<Rightarrow>
     if dc_auth row \<noteq> auth then (ErrorReply 404 ''not found'', db)
     else (case dc_status row of
        DevPending \<Rightarrow> (ErrorReply 403 ''authorization pending'', db)
      | DevDenied \<Rightarrow> (ErrorReply 404 ''not found'', db)
      | DevExchanged \<Rightarrow> (ErrorReply 404 ''not found'', db)
      | DevApproved \<Rightarrow>
          (case ExchangeDeviceCode (up 1) now db auth userCode of
             (Inl _, db1) \<Rightarrow> (ErrorReply 404 ''not found'', db1)
           | (Inr None, db1) \<Rightarrow> (ErrorReply 404 ''not found'', db1)
           | (Inr (Some dc), db1) \<Rightarrow>
               (case InsertPkceRequest (up 2) db1 \<lparr>pk_code = dc_authcode dc,
                       pk_challenge = dc_challenge dc, pk_state = ''device-flow'',
                       pk_user = (case dc_user dc of Some u \<Rightarrow> u | None \<Rightarrow> []),
                       pk_expires = now + pkceCodeTTL\<rparr> of
                  (Some _, db2) \<Rightarrow> (ErrorReply 500 ''store'', db2)
                | (None, db2) \<Rightarrow>
                    (Reply 200 \<lparr>dt_code = dc_authcode dc, dt_challenge = dc_challenge dc,
                                dt_verifier = dc_verifier dc\<rparr>, db2)))))"

text \<open>
  \<open>handleDeviceVerifySubmit\<close>: \<open>session\<close> is \<open>None\<close> when no resolver is configured; \<open>form\<close> is
  the normalised user code and the action, \<open>None\<close> when the form does not parse.
\<close>

definition handleDeviceVerifySubmit ::
  "bool \<Rightarrow> time \<Rightarrow> string option \<Rightarrow> (string \<times> string) option \<Rightarrow> auth_db \<Rightarrow> string reply \<times> auth_db" where
  "handleDeviceVerifySubmit up now session form db =
     (case session of
        None \<Rightarrow> (ErrorReply 500 ''session resolver not configured'', db)
      | Some uid \<Rightarrow>
     if uid = [] then (ErrorReply 401 ''session required'', db)
     else case form of
        None \<Rightarrow> (ErrorReply 400 ''parse form'', db)
      | Some (userCode, action) \<Rightarrow>
     if action = ''approve''
     then (case ApproveDeviceCode up now db userCode uid of
             (Some _, db1) \<Rightarrow> (ErrorReply 400 ''code not found or already used'', db1)
           | (None, db1) \<Rightarrow> (Reply 200 ''Approved'', db1))
     else if action = ''deny'' then (Reply 200 ''Denied'', DenyDeviceCode up db userCode)
     else (ErrorReply 400 ''action must be approve|deny'', db))"

section \<open>Agent identities\<close>

datatype mint_identity_err = ArgsRequired | KeyGenFailed | JWTFailed | IdentityStore db_err

text \<open>\<open>kid\<close> is the signing key's identifier and \<open>key\<close> the generated pair, private then public.\<close>

definition MintAgentIdentity ::
  "(payload \<Rightarrow> string option) \<Rightarrow> string \<Rightarrow> bool \<Rightarrow> time \<Rightarrow> (string \<times> string) option \<Rightarrow> string \<Rightarrow> string \<Rightarrow> string \<Rightarrow>
     auth_db \<Rightarrow> (mint_identity_err + string) \<times> auth_db" where
  "MintAgentIdentity sign kid up now key rid userID email db =
     (if rid = [] \<or> userID = [] then (Inl ArgsRequired, db)
      else (case key of
          None \<Rightarrow> (Inl KeyGenFailed, db)
        | Some (pkcs8, pub) \<Rightarrow>
            (let expires = now + agentIdentityJWTTTL in
             case BuildAgentIdentityJWT sign now rid pkcs8 userID userID email ''pro'' expires of
               None \<Rightarrow> (Inl JWTFailed, db)
             | Some jwt \<Rightarrow>
                 (case InsertAgentIdentity up db \<lparr>ai_runtime = rid, ai_user = userID, ai_key = pub,
                         ai_signed = kid, ai_issued = now, ai_expires = expires, ai_revoked = None\<rparr> of
                    (Some e, db1) \<Rightarrow> (Inl (IdentityStore e), db1)
                  | (None, db1) \<Rightarrow> (Inr jwt, db1)))))"

text \<open>
  The decoded registration request: the timestamp's text and what it parses to, and the
  signature, each \<open>None\<close> when it does not decode.
\<close>

record task_request =
  tr_text :: string
  tr_time :: "time option"
  tr_sig :: "string option"

definition skewed :: "time \<Rightarrow> time \<Rightarrow> bool" where
  "skewed now ts \<longleftrightarrow> now - ts > taskRegisterClockSkew \<or> now - ts < - taskRegisterClockSkew"

definition handleTaskRegister ::
  "(string \<Rightarrow> string \<Rightarrow> string \<Rightarrow> bool) \<Rightarrow> (nat \<Rightarrow> bool) \<Rightarrow> time \<Rightarrow> string \<Rightarrow> string \<Rightarrow> task_request option \<Rightarrow>
     auth_db \<Rightarrow> string reply \<times> auth_db" where
  "handleTaskRegister verify up now random rid body db =
     (if rid = [] then (ErrorReply 400 ''rid required'', db)
      else case body of
        None \<Rightarrow> (ErrorReply 400 ''bad body'', db)
      | Some req \<Rightarrow>
     (case tr_time req of
        None \<Rightarrow> (ErrorReply 400 ''bad timestamp'', db)
      | Some ts \<Rightarrow>
     if skewed now ts then (ErrorReply 401 ''timestamp stale'', db)
     else case GetAgentIdentity (up 0) now db rid of
        Inl _ \<Rightarrow> (ErrorReply 500 ''store'', db)
      | Inr None \<Rightarrow> (ErrorReply 404 ''unknown agent'', db)
      | Inr (Some identity) \<Rightarrow>
     (case tr_sig req of
        None \<Rightarrow> (ErrorReply 400 ''bad signature base64'', db)
      | Some sg \<Rightarrow>
     if \<not> verify (ai_key identity) (rid @ '':'' @ tr_text req) sg then (ErrorReply 401 ''signature invalid'', db)
     else (let taskID = ''task_'' @ hexEncode random in
           case InsertAgentTask (up 1) now db taskID rid (ai_user identity) (now + agentTaskTTL) of
             (Some _, db1) \<Rightarrow> (ErrorReply 500 ''store'', db1)
           | (None, db1) \<Rightarrow> (Reply 200 taskID, db1)))))"

section \<open>Validation\<close>

datatype validate_err =
    ValidateDb db_err | TokenUnknown | AccountMismatch | UnknownScheme string | BadEncoding | BadJSON
  | MissingFields | UnknownAgent | TaskMismatch | BadTimestamp | OutsideWindow | BadSignature

record validateRequest =
  v_scheme :: string
  v_token :: string
  v_assertion :: string
  v_account :: string

record assertion =
  as_runtime :: string
  as_task :: string
  as_text :: string
  as_time :: "time option"
  as_sigtext :: string
  as_sig :: "string option"

definition validateAgentAssertion ::
  "(string \<Rightarrow> assertion option) \<Rightarrow> (string \<Rightarrow> string \<Rightarrow> string \<Rightarrow> bool) \<Rightarrow> (nat \<Rightarrow> bool) \<Rightarrow> time \<Rightarrow> auth_db \<Rightarrow>
     validateRequest \<Rightarrow> validate_err + string" where
  "validateAgentAssertion parse verify up now db req =
     (case b64_decode (v_assertion req) of
        None \<Rightarrow> Inl BadEncoding
      | Some raw \<Rightarrow>
     (case parse raw of
        None \<Rightarrow> Inl BadJSON
      | Some a \<Rightarrow>
     if as_runtime a = [] \<or> as_task a = [] \<or> as_text a = [] \<or> as_sigtext a = [] then Inl MissingFields
     else case GetAgentIdentity (up 0) now db (as_runtime a) of
        Inl e \<Rightarrow> Inl (ValidateDb e)
      | Inr None \<Rightarrow> Inl UnknownAgent
      | Inr (Some identity) \<Rightarrow>
     if v_account req \<noteq> [] \<and> v_account req \<noteq> ai_user identity then Inl AccountMismatch
     else (case GetAgentTask (up 1) now db (as_task a) of
        Inl e \<Rightarrow> Inl (ValidateDb e)
      | Inr None \<Rightarrow> Inl TaskMismatch
      | Inr (Some task) \<Rightarrow>
     if ta_runtime task \<noteq> as_runtime a then Inl TaskMismatch
     else (case as_time a of
        None \<Rightarrow> Inl BadTimestamp
      | Some ts \<Rightarrow>
     if skewed now ts then Inl OutsideWindow
     else (case as_sig a of
        None \<Rightarrow> Inl BadEncoding
      | Some sg \<Rightarrow>
     if \<not> verify (ai_key identity) (as_runtime a @ '':'' @ as_task a @ '':'' @ as_text a) sg
     then Inl BadSignature
     else Inr (ai_user identity))))))"

definition validate ::
  "(string \<Rightarrow> string) \<Rightarrow> (string \<Rightarrow> assertion option) \<Rightarrow> (string \<Rightarrow> string \<Rightarrow> string \<Rightarrow> bool) \<Rightarrow> (nat \<Rightarrow> bool) \<Rightarrow>
     time \<Rightarrow> auth_db \<Rightarrow> validateRequest \<Rightarrow> validate_err + string" where
  "validate sha parse verify up now db req =
     (if v_scheme req = ''bearer''
      then (case LookupAccessToken sha (up 0) now db (v_token req) of
              Inl e \<Rightarrow> Inl (ValidateDb e)
            | Inr uid \<Rightarrow>
                if uid = [] then Inl TokenUnknown
                else if v_account req \<noteq> [] \<and> v_account req \<noteq> uid then Inl AccountMismatch
                else Inr uid)
      else if v_scheme req = ''agent_assertion'' then validateAgentAssertion parse verify up now db req
      else Inl (UnknownScheme (v_scheme req)))"

definition HandleValidate ::
  "(string \<Rightarrow> string) \<Rightarrow> (string \<Rightarrow> assertion option) \<Rightarrow> (string \<Rightarrow> string \<Rightarrow> string \<Rightarrow> bool) \<Rightarrow> (nat \<Rightarrow> bool) \<Rightarrow>
     time \<Rightarrow> auth_db \<Rightarrow> validateRequest option \<Rightarrow> string reply" where
  "HandleValidate sha parse verify up now db body =
     (case body of
        None \<Rightarrow> ErrorReply 400 ''bad body''
      | Some req \<Rightarrow>
          (case validate sha parse verify up now db req of
             Inl _ \<Rightarrow> ErrorReply 401 ''error''
           | Inr uid \<Rightarrow> Reply 200 uid))"

section \<open>Histories\<close>

text \<open>
  What can happen to the tables: any handler on any request at any time, users that are added,
  and the signing key of a server start.  The only thing assumed of the random source is that
  the identifier of a new family of refresh tokens is not in use.
\<close>

definition fresh_family :: "auth_db \<Rightarrow> string \<Rightarrow> bool" where
  "fresh_family db f \<longleftrightarrow> (\<forall>h r. refreshes db h = Some r \<longrightarrow> rt_family r \<noteq> f)"

inductive auth_step ::
  "(string \<Rightarrow> string) \<Rightarrow> (payload \<Rightarrow> string option) \<Rightarrow> string \<Rightarrow> auth_db \<Rightarrow> auth_db \<Rightarrow> bool"
  for sha sign iss where
  add_user: "users db u = None \<Longrightarrow> auth_step sha sign iss db (db\<lparr>users := (users db)(u \<mapsto> email)\<rparr>)"
| ensure_key: "auth_step sha sign iss db (snd (EnsureActiveKey up fresh db))"
| authorize: "auth_step sha sign iss db
     (snd (handleAuthorize upc now random session state challenge redirectURI dest_ok db))"
| token: "fresh_family db familyID \<Longrightarrow>
     auth_step sha sign iss db (snd (handleToken sha sign iss up now random familyID form db))"
| device_start: "auth_step sha sign iss db
     (snd (handleDeviceUserCode sha upc now ab cb vb acb db))"
| device_poll: "auth_step sha sign iss db (snd (handleDeviceToken up now body db))"
| device_submit: "auth_step sha sign iss db (snd (handleDeviceVerifySubmit upc now sess dform db))"
| mint_identity: "auth_step sha sign iss db (snd (MintAgentIdentity sign kid upc now key rid u email db))"
| task_register: "auth_step sha sign iss db (snd (handleTaskRegister verify up now random rid req db))"

definition auth_init :: auth_db where
  "auth_init = \<lparr>users = Map.empty, jwks = [], pkce = Map.empty, access = Map.empty,
     refreshes = Map.empty, identities = Map.empty, agent_tasks = Map.empty, devices = []\<rparr>"

abbreviation auth_reachable :: "(string \<Rightarrow> string) \<Rightarrow> (payload \<Rightarrow> string option) \<Rightarrow> string \<Rightarrow> auth_db \<Rightarrow> bool" where
  "auth_reachable sha sign iss \<equiv> (auth_step sha sign iss)\<^sup>*\<^sup>* auth_init"

subsection \<open>What each handler leaves alone\<close>

lemmas auth_stmts = InsertJwksKey_def GetActiveJwksKey_def InsertPkceRequest_def ConsumePkceRequest_def
  InsertAccessToken_def InsertRefreshToken_def InsertAgentIdentity_def InsertAgentTask_def
  InsertDeviceCode_def ApproveDeviceCode_def DenyDeviceCode_def ExchangeDeviceCode_def
  update_devices_def

lemmas auth_splits = if_splits option.splits sum.splits prod.splits

lemma ensure_frame:
  "refreshes (snd (EnsureActiveKey up fresh db)) = refreshes db"
  "access (snd (EnsureActiveKey up fresh db)) = access db"
  "devices (snd (EnsureActiveKey up fresh db)) = devices db"
  "users (snd (EnsureActiveKey up fresh db)) = users db"
  by (auto simp: EnsureActiveKey_def auth_stmts split: auth_splits)

lemma authorize_frame:
  "refreshes (snd (handleAuthorize up now rn se st ch ru ok db)) = refreshes db"
  "access (snd (handleAuthorize up now rn se st ch ru ok db)) = access db"
  "devices (snd (handleAuthorize up now rn se st ch ru ok db)) = devices db"
  "users (snd (handleAuthorize up now rn se st ch ru ok db)) = users db"
  by (auto simp: handleAuthorize_def auth_stmts Let_def split: auth_splits)

lemma device_start_frame:
  "refreshes (snd (handleDeviceUserCode sha up now a c v b db)) = refreshes db"
  "access (snd (handleDeviceUserCode sha up now a c v b db)) = access db"
  "users (snd (handleDeviceUserCode sha up now a c v b db)) = users db"
  by (auto simp: handleDeviceUserCode_def auth_stmts Let_def split: auth_splits)

lemma device_poll_frame:
  "refreshes (snd (handleDeviceToken up now body db)) = refreshes db"
  "access (snd (handleDeviceToken up now body db)) = access db"
  "users (snd (handleDeviceToken up now body db)) = users db"
  by (auto simp: handleDeviceToken_def auth_stmts Let_def split: auth_splits device_status.splits)

lemma device_submit_frame:
  "refreshes (snd (handleDeviceVerifySubmit up now se f db)) = refreshes db"
  "access (snd (handleDeviceVerifySubmit up now se f db)) = access db"
  "users (snd (handleDeviceVerifySubmit up now se f db)) = users db"
  by (auto simp: handleDeviceVerifySubmit_def auth_stmts Let_def split: auth_splits)

lemma identity_frame:
  "refreshes (snd (MintAgentIdentity sign kid up now key rid u email db)) = refreshes db"
  "access (snd (MintAgentIdentity sign kid up now key rid u email db)) = access db"
  "devices (snd (MintAgentIdentity sign kid up now key rid u email db)) = devices db"
  "users (snd (MintAgentIdentity sign kid up now key rid u email db)) = users db"
  by (auto simp: MintAgentIdentity_def auth_stmts Let_def split: auth_splits)

lemma task_frame:
  "refreshes (snd (handleTaskRegister verify up n rn rid req db)) = refreshes db"
  "access (snd (handleTaskRegister verify up n rn rid req db)) = access db"
  "devices (snd (handleTaskRegister verify up n rn rid req db)) = devices db"
  "users (snd (handleTaskRegister verify up n rn rid req db)) = users db"
  by (auto simp: handleTaskRegister_def auth_stmts Let_def split: auth_splits)

lemmas auth_frames = ensure_frame authorize_frame device_start_frame device_poll_frame
  device_submit_frame identity_frame task_frame

subsection \<open>The tables of tokens\<close>

text \<open>
  The table of refresh tokens only changes in three ways: a token of a new family, a rotation,
  and the revocation of a family.
\<close>

inductive rt_step :: "(string \<rightharpoonup> refresh_row) \<Rightarrow> (string \<rightharpoonup> refresh_row) \<Rightarrow> bool" where
  stay: "rt_step m m"
| issue: "m h = None \<Longrightarrow> (\<And>g r. m g = Some r \<Longrightarrow> rt_family r \<noteq> rt_family row) \<Longrightarrow> rt_revoked row = None \<Longrightarrow>
     rt_step m (m(h \<mapsto> row))"
| rotate: "m old = Some r \<Longrightarrow> rt_revoked r = None \<Longrightarrow> m h = None \<Longrightarrow> rt_family row = rt_family r \<Longrightarrow>
     rt_user row = rt_user r \<Longrightarrow> rt_revoked row = None \<Longrightarrow>
     rt_step m (m(old \<mapsto> r\<lparr>rt_revoked := Some now\<rparr>, h \<mapsto> row))"
| burn: "rt_step m (revoke_family now f m)"

lemma mint_refreshes:
  "fresh_family db familyID \<Longrightarrow>
     rt_step (refreshes db) (refreshes (snd (mintTokensFor sha sign iss up now rn familyID u db)))"
  by (auto simp: mintTokensFor_def fresh_family_def auth_stmts Let_def intro!: rt_step.intros split: auth_splits)

lemma rotate_refreshes:
  "rt_step (refreshes db) (refreshes (snd (RotateRefreshToken sha up now db raw newHash expiry)))"
  by (auto simp: RotateRefreshToken_def auth_stmts Let_def intro!: rt_step.intros split: auth_splits)

lemma consume_frame:
  "refreshes (snd (ConsumePkceRequest up now db code)) = refreshes db"
  "access (snd (ConsumePkceRequest up now db code)) = access db"
  "devices (snd (ConsumePkceRequest up now db code)) = devices db"
  "users (snd (ConsumePkceRequest up now db code)) = users db"
  by (auto simp: auth_stmts split: auth_splits)

lemma code_refreshes:
  assumes "fresh_family db familyID"
  shows "rt_step (refreshes db)
     (refreshes (snd (handleTokenAuthorizationCode sha sign iss up now rn familyID code verifier db)))"
proof -
  let ?db = "snd (ConsumePkceRequest (up 0) now db code)"
  have f: "fresh_family ?db familyID" using assms by (simp add: fresh_family_def consume_frame)
  show ?thesis
    using mint_refreshes [OF f, of sha sign iss "\<lambda>k. up (Suc k)" now rn] consume_frame(1) [of "up 0" now db code]
    by (cases "ConsumePkceRequest (up 0) now db code")
       (auto simp: handleTokenAuthorizationCode_def rt_step.stay split: sum.splits option.splits)
qed

lemma insert_access_frame:
  "refreshes (snd (InsertAccessToken up db h u e)) = refreshes db"
  "devices (snd (InsertAccessToken up db h u e)) = devices db"
  "users (snd (InsertAccessToken up db h u e)) = users db"
  by (auto simp: auth_stmts split: auth_splits)

lemma refresh_snd:
  "raw \<noteq> [] \<Longrightarrow> \<exists>up' h u e.
     snd (handleTokenRefresh sha sign iss up now rn raw db) =
       (let db1 = snd (RotateRefreshToken sha up now db raw (sha (hexEncode rn)) (now + refreshTokenTTL)) in
        snd (InsertAccessToken up' db1 h u e)) \<or>
     snd (handleTokenRefresh sha sign iss up now rn raw db) =
       snd (RotateRefreshToken sha up now db raw (sha (hexEncode rn)) (now + refreshTokenTTL))"
  unfolding handleTokenRefresh_def Let_def
  by (auto split: prod.splits sum.splits option.splits) (metis snd_conv)+

lemma refresh_refreshes:
  "rt_step (refreshes db) (refreshes (snd (handleTokenRefresh sha sign iss up now rn raw db)))"
proof (cases "raw = []")
  case True
  then show ?thesis by (simp add: handleTokenRefresh_def rt_step.stay)
next
  case False
  from refresh_snd [OF this, of sha sign iss up now rn db] rotate_refreshes show ?thesis
    by (auto simp: Let_def insert_access_frame)
qed

lemma token_refreshes:
  "fresh_family db familyID \<Longrightarrow>
     rt_step (refreshes db) (refreshes (snd (handleToken sha sign iss up now rn familyID form db)))"
  by (auto simp: handleToken_def code_refreshes refresh_refreshes rt_step.stay
      split: option.splits grant.splits)

lemma auth_step_refreshes: "auth_step sha sign iss db db' \<Longrightarrow> rt_step (refreshes db) (refreshes db')"
  by (induction rule: auth_step.induct) (auto simp: auth_frames rt_step.stay token_refreshes)

text \<open>Access tokens are only ever added.\<close>

definition acc_mono :: "(string \<rightharpoonup> access_row) \<Rightarrow> (string \<rightharpoonup> access_row) \<Rightarrow> bool" where
  "acc_mono m m' \<longleftrightarrow> (\<forall>h r. m h = Some r \<longrightarrow> m' h = Some r)"

lemma mint_access: "acc_mono (access db) (access (snd (mintTokensFor sha sign iss up now rn f u db)))"
  by (auto simp: mintTokensFor_def acc_mono_def auth_stmts Let_def split: auth_splits)

lemma rotate_frame:
  "access (snd (RotateRefreshToken sha up now db raw newHash expiry)) = access db"
  "devices (snd (RotateRefreshToken sha up now db raw newHash expiry)) = devices db"
  "users (snd (RotateRefreshToken sha up now db raw newHash expiry)) = users db"
  by (auto simp: RotateRefreshToken_def auth_stmts Let_def split: auth_splits)

lemma token_access: "acc_mono (access db) (access (snd (handleToken sha sign iss up now rn f form db)))"
proof -
  have c: "acc_mono (access db) (access (snd (handleTokenAuthorizationCode sha sign iss up now rn f code v db)))" for code v
    using mint_access consume_frame(2) [of "up 0" now db code]
    by (cases "ConsumePkceRequest (up 0) now db code")
       (auto simp: handleTokenAuthorizationCode_def acc_mono_def split: sum.splits option.splits)
  have r: "acc_mono (access db) (access (snd (handleTokenRefresh sha sign iss up now rn raw db)))" for raw
  proof (cases "raw = []")
    case False
    have "acc_mono (access d) (access (snd (InsertAccessToken up' d h u e)))" for up' d h u e
      by (auto simp: acc_mono_def auth_stmts split: if_splits)
    with refresh_snd [OF False, of sha sign iss up now rn db] show ?thesis
      by (metis acc_mono_def rotate_frame(1))
  qed (simp add: handleTokenRefresh_def acc_mono_def)
  show ?thesis
    using c r by (auto simp: handleToken_def acc_mono_def split: option.splits grant.splits)
qed

lemma auth_step_access: "auth_step sha sign iss db db' \<Longrightarrow> acc_mono (access db) (access db')"
  by (induction rule: auth_step.induct) (auto simp: auth_frames token_access acc_mono_def [of m m for m])

lemma auth_steps_access: "(auth_step sha sign iss)\<^sup>*\<^sup>* db db' \<Longrightarrow> access db h = Some r \<Longrightarrow> access db' h = Some r"
  by (induction rule: rtranclp_induct) (auto dest: auth_step_access simp: acc_mono_def)

subsection \<open>Families of refresh tokens\<close>

definition families_ok :: "(string \<rightharpoonup> refresh_row) \<Rightarrow> bool" where
  "families_ok m \<longleftrightarrow> (\<forall>h r g s. m h = Some r \<longrightarrow> m g = Some s \<longrightarrow> rt_family r = rt_family s \<longrightarrow>
     rt_user r = rt_user s \<and> (rt_revoked r = None \<longrightarrow> rt_revoked s = None \<longrightarrow> h = g))"

definition dead_family :: "string \<Rightarrow> (string \<rightharpoonup> refresh_row) \<Rightarrow> bool" where
  "dead_family f m \<longleftrightarrow> (\<exists>h r. m h = Some r \<and> rt_family r = f) \<and>
     (\<forall>h r. m h = Some r \<longrightarrow> rt_family r = f \<longrightarrow> rt_revoked r \<noteq> None)"

lemma revoke_family_Some:
  "revoke_family now f m h = Some r' \<longleftrightarrow>
     (\<exists>r. m h = Some r \<and> r' = (if rt_family r = f \<and> rt_revoked r = None then r\<lparr>rt_revoked := Some now\<rparr> else r))"
  by (auto simp: revoke_family_def split: option.splits)

lemma revoke_family_old:
  assumes "revoke_family now f m h = Some x"
  obtains r where "m h = Some r" "rt_family x = rt_family r" "rt_user x = rt_user r"
    "rt_revoked x = None \<longrightarrow> rt_revoked r = None"
proof (cases "m h")
  case (Some r)
  with assms have "x = (if rt_family r = f \<and> rt_revoked r = None then r\<lparr>rt_revoked := Some now\<rparr> else r)"
    by (simp add: revoke_family_def)
  with Some show ?thesis by (intro that [of r]) simp_all
qed (use assms in \<open>simp add: revoke_family_def\<close>)

lemma families_okD:
  assumes "families_ok m" "m h = Some r" "m g = Some s" "rt_family r = rt_family s"
  shows "rt_user r = rt_user s" and "rt_revoked r = None \<Longrightarrow> rt_revoked s = None \<Longrightarrow> h = g"
  using assms unfolding families_ok_def by blast+

lemma rt_step_families: "rt_step m m' \<Longrightarrow> families_ok m \<Longrightarrow> families_ok m'"
proof (induction rule: rt_step.induct)
  case (issue m h row)
  have new: "rt_family r \<noteq> rt_family row" if "m g = Some r" for g r using issue(2) that .
  show ?case unfolding families_ok_def
  proof (intro allI impI)
    fix a r b s assume "(m(h \<mapsto> row)) a = Some r" "(m(h \<mapsto> row)) b = Some s" "rt_family r = rt_family s"
    then show "rt_user r = rt_user s \<and> (rt_revoked r = None \<longrightarrow> rt_revoked s = None \<longrightarrow> a = b)"
      using families_okD [OF issue(4), of a r b s] new by (auto split: if_splits dest: new)
  qed
next
  case (rotate m old r h row now)
  let ?m = "m(old \<mapsto> r\<lparr>rt_revoked := Some now\<rparr>, h \<mapsto> row)"
  define g where "g = (\<lambda>x. if x = h then old else x)"
  have *: "\<exists>x'. m (g x) = Some x' \<and> rt_family x' = rt_family y \<and> rt_user x' = rt_user y \<and>
      (rt_revoked y = None \<longrightarrow> rt_revoked x' = None \<and> x \<noteq> old)" if "?m x = Some y" for x y
    using that rotate(1-6) by (auto simp: g_def split: if_splits)
  show ?case unfolding families_ok_def
  proof (intro allI impI)
    fix a x b y assume ab: "?m a = Some x" "?m b = Some y" "rt_family x = rt_family y"
    from * [OF ab(1)] obtain x' where x: "m (g a) = Some x' \<and> rt_family x' = rt_family x \<and>
      rt_user x' = rt_user x \<and> (rt_revoked x = None \<longrightarrow> rt_revoked x' = None \<and> a \<noteq> old)" ..
    from * [OF ab(2)] obtain y' where y: "m (g b) = Some y' \<and> rt_family y' = rt_family y \<and>
      rt_user y' = rt_user y \<and> (rt_revoked y = None \<longrightarrow> rt_revoked y' = None \<and> b \<noteq> old)" ..
    have gx: "m (g a) = Some x'" and gy: "m (g b) = Some y'" using x y by simp_all
    have fam: "rt_family x' = rt_family y'" using x y ab(3) by simp
    have "rt_user x = rt_user y" using families_okD(1) [OF rotate(7) gx gy fam] x y by simp
    moreover have "a = b" if "rt_revoked x = None" "rt_revoked y = None"
    proof -
      from that x y have "rt_revoked x' = None" "rt_revoked y' = None" "a \<noteq> old" "b \<noteq> old" by simp_all
      with families_okD(2) [OF rotate(7) gx gy fam] have "g a = g b" "a \<noteq> old" "b \<noteq> old" by simp_all
      then show ?thesis by (simp add: g_def split: if_splits)
    qed
    ultimately show "rt_user x = rt_user y \<and> (rt_revoked x = None \<longrightarrow> rt_revoked y = None \<longrightarrow> a = b)"
      by blast
  qed
next
  case (burn m now f)
  show ?case unfolding families_ok_def
  proof (intro allI impI)
    fix a x b y assume ab: "revoke_family now f m a = Some x" "revoke_family now f m b = Some y"
      "rt_family x = rt_family y"
    from ab(1) obtain x0 where x0: "m a = Some x0" "rt_family x = rt_family x0" "rt_user x = rt_user x0"
      "rt_revoked x = None \<longrightarrow> rt_revoked x0 = None" by (rule revoke_family_old)
    from ab(2) obtain y0 where y0: "m b = Some y0" "rt_family y = rt_family y0" "rt_user y = rt_user y0"
      "rt_revoked y = None \<longrightarrow> rt_revoked y0 = None" by (rule revoke_family_old)
    have fam: "rt_family x0 = rt_family y0" using ab(3) x0(2) y0(2) by simp
    from families_okD [OF burn(1) x0(1) y0(1) fam] x0(3,4) y0(3,4)
    show "rt_user x = rt_user y \<and> (rt_revoked x = None \<longrightarrow> rt_revoked y = None \<longrightarrow> a = b)" by simp
  qed
qed

lemma rt_step_dead: "rt_step m m' \<Longrightarrow> dead_family f m \<Longrightarrow> dead_family f m'"
proof (induction rule: rt_step.induct)
  case (issue m h row)
  then obtain k x where k: "m k = Some x" "rt_family x = f" unfolding dead_family_def by blast
  have "rt_family row \<noteq> f" using issue(2) [OF k(1)] k(2) by simp
  moreover have "k \<noteq> h" using issue(1) k(1) by auto
  ultimately have nf: "rt_family row \<noteq> f" and kh: "k \<noteq> h" by simp_all
  then have "(m(h \<mapsto> row)) k = Some x" using k by simp
  moreover have "rt_revoked y \<noteq> None" if "(m(h \<mapsto> row)) z = Some y" "rt_family y = f" for z y
  proof -
    from that nf have "m z = Some y" by (auto split: if_splits)
    with issue(4) that(2) show ?thesis unfolding dead_family_def by blast
  qed
  ultimately show ?case using k(2) unfolding dead_family_def by blast
next
  case (rotate m old r h row now)
  then have nf: "rt_family r \<noteq> f" unfolding dead_family_def by blast
  from rotate(7) obtain k x where k: "m k = Some x" "rt_family x = f" unfolding dead_family_def by blast
  with rotate(1,3) nf have "k \<noteq> old" "k \<noteq> h" by auto
  with k have "(m(old \<mapsto> r\<lparr>rt_revoked := Some now\<rparr>, h \<mapsto> row)) k = Some x" by simp
  moreover have "rt_revoked y \<noteq> None"
    if "(m(old \<mapsto> r\<lparr>rt_revoked := Some now\<rparr>, h \<mapsto> row)) z = Some y" "rt_family y = f" for z y
  proof -
    from that rotate(4) nf have "m z = Some y" by (auto split: if_splits)
    with rotate(7) that(2) show ?thesis unfolding dead_family_def by blast
  qed
  ultimately show ?case using k(2) unfolding dead_family_def by blast
next
  case (burn m now f')
  then obtain k x where k: "m k = Some x" "rt_family x = f" unfolding dead_family_def by blast
  then have "\<exists>x'. revoke_family now f' m k = Some x' \<and> rt_family x' = f"
    by (auto simp: revoke_family_Some)
  moreover have "rt_revoked y \<noteq> None" if y: "revoke_family now f' m z = Some y" "rt_family y = f" for z y
  proof -
    from y(1) obtain y0 where y0: "m z = Some y0"
      "y = (if rt_family y0 = f' \<and> rt_revoked y0 = None then y0\<lparr>rt_revoked := Some now\<rparr> else y0)"
      by (auto simp: revoke_family_Some)
    with y(2) have "rt_family y0 = f" by (simp split: if_splits)
    with burn y0(1) have "rt_revoked y0 \<noteq> None" unfolding dead_family_def by blast
    with y0(2) show ?thesis by simp
  qed
  ultimately show ?case unfolding dead_family_def by blast
qed

lemma reachable_families: "auth_reachable sha sign iss db \<Longrightarrow> families_ok (refreshes db)"
  by (induction rule: rtranclp_induct)
     (auto simp: auth_init_def families_ok_def [of Map.empty] dest: auth_step_refreshes rt_step_families)

lemma later_dead:
  "(auth_step sha sign iss)\<^sup>*\<^sup>* db db' \<Longrightarrow> dead_family f (refreshes db) \<Longrightarrow> dead_family f (refreshes db')"
  by (induction rule: rtranclp_induct) (auto dest: auth_step_refreshes rt_step_dead)

subsection \<open>Device rows\<close>

text \<open>A row keeps its codes and only moves from pending to approved or denied, and on to exchanged.\<close>

definition dev_next :: "DeviceCode \<Rightarrow> DeviceCode \<Rightarrow> bool" where
  "dev_next d d' \<longleftrightarrow> dc_auth d' = dc_auth d \<and> dc_user_code d' = dc_user_code d \<and>
     (d' = d \<or> (dc_status d = DevPending \<and> dc_status d' \<in> {DevApproved, DevDenied}) \<or>
      (dc_status d = DevApproved \<and> dc_status d' = DevExchanged))"

definition dev_step :: "DeviceCode list \<Rightarrow> DeviceCode list \<Rightarrow> bool" where
  "dev_step ds ds' \<longleftrightarrow> list_all2 dev_next ds ds' \<or>
     (\<exists>d. ds' = ds @ [d] \<and> (\<forall>x\<in>set ds. dc_auth x \<noteq> dc_auth d \<and> dc_user_code x \<noteq> dc_user_code d))"

lemma dev_step_refl [simp]: "dev_step ds ds"
  by (simp add: dev_step_def dev_next_def list_all2_same)

lemma update_devices_step:
  "(\<And>d. P d \<Longrightarrow> dev_next d (f d)) \<Longrightarrow> dev_step (devices db) (devices (update_devices P f db))"
  by (auto simp: dev_step_def update_devices_def list_all2_conv_all_nth dev_next_def)

lemma device_stmts_step:
  "dev_step (devices db) (devices (snd (InsertDeviceCode up db dc)))"
  "dev_step (devices db) (devices (snd (ApproveDeviceCode up now db code user)))"
  "dev_step (devices db) (devices (DenyDeviceCode up db code))"
  "dev_step (devices db) (devices (snd (ExchangeDeviceCode up now db auth code)))"
     apply (auto simp: InsertDeviceCode_def list_ex_iff dev_step_def dev_next_def list_all2_same) [1]
    apply (auto simp: ApproveDeviceCode_def Let_def intro!: update_devices_step) [1]
    apply (simp add: dev_next_def)
   apply (auto simp: DenyDeviceCode_def intro!: update_devices_step simp: dev_next_def) [1]
  apply (auto simp: ExchangeDeviceCode_def Let_def intro!: update_devices_step simp: dev_next_def) [1]
  done

lemma token_frame:
  "devices (snd (handleToken sha sign iss up now rn f form db)) = devices db"
  "users (snd (handleToken sha sign iss up now rn f form db)) = users db"
proof -
  have m: "devices (snd (mintTokensFor sha sign iss up' now rn f u d)) = devices d"
    "users (snd (mintTokensFor sha sign iss up' now rn f u d)) = users d" for up' u d
    by (auto simp: mintTokensFor_def auth_stmts Let_def split: auth_splits)
  have c: "devices (snd (handleTokenAuthorizationCode sha sign iss up now rn f code v db)) = devices db"
    "users (snd (handleTokenAuthorizationCode sha sign iss up now rn f code v db)) = users db" for code v
    using consume_frame(3,4) [of "up 0" now db code] m
    by (cases "ConsumePkceRequest (up 0) now db code";
        auto simp: handleTokenAuthorizationCode_def split: sum.splits option.splits)+
  have r: "devices (snd (handleTokenRefresh sha sign iss up now rn raw db)) = devices db \<and>
      users (snd (handleTokenRefresh sha sign iss up now rn raw db)) = users db" for raw
  proof (cases "raw = []")
    case False
    from refresh_snd [OF this, of sha sign iss up now rn db] show ?thesis
      by (metis insert_access_frame(2,3) rotate_frame(2,3))
  qed (simp add: handleTokenRefresh_def)
  show "devices (snd (handleToken sha sign iss up now rn f form db)) = devices db"
    "users (snd (handleToken sha sign iss up now rn f form db)) = users db"
    using c r by (auto simp: handleToken_def split: option.splits grant.splits)
qed

lemma pkce_insert_frame: "devices (snd (InsertPkceRequest up db r)) = devices db"
  by (auto simp: auth_stmts)

lemma poll_devices:
  "devices (snd (handleDeviceToken up now body db)) = devices db \<or>
   (\<exists>auth code. devices (snd (handleDeviceToken up now body db)) =
      devices (snd (ExchangeDeviceCode (up 1) now db auth code)))"
  unfolding handleDeviceToken_def
  by (auto split: option.splits sum.splits device_status.splits prod.splits)
     (metis pkce_insert_frame snd_conv)+

lemma auth_step_devices: "auth_step sha sign iss db db' \<Longrightarrow> dev_step (devices db) (devices db')"
proof (induction rule: auth_step.induct)
  case (device_start db upc now ab cb vb acb)
  have "devices (snd (handleDeviceUserCode sha upc now ab cb vb acb db)) = devices db \<or>
    (\<exists>dc. devices (snd (handleDeviceUserCode sha upc now ab cb vb acb db)) =
       devices (snd (InsertDeviceCode upc db dc)))"
    unfolding handleDeviceUserCode_def Let_def by (auto split: prod.splits option.splits) (metis snd_conv)+
  then show ?case using device_stmts_step(1) by fastforce
next
  case (device_poll db up now body)
  from poll_devices [of up now body db] show ?case using device_stmts_step(4) by fastforce
next
  case (device_submit db upc now sess dform)
  have "devices (snd (handleDeviceVerifySubmit upc now sess dform db)) = devices db \<or>
    (\<exists>c u. devices (snd (handleDeviceVerifySubmit upc now sess dform db)) =
       devices (snd (ApproveDeviceCode upc now db c u))) \<or>
    (\<exists>c. devices (snd (handleDeviceVerifySubmit upc now sess dform db)) = devices (DenyDeviceCode upc db c))"
    unfolding handleDeviceVerifySubmit_def by (auto split: prod.splits option.splits) (metis snd_conv)+
  then show ?case using device_stmts_step(2,3) by fastforce
qed (simp_all add: auth_frames token_frame)

definition dev_ok :: "DeviceCode list \<Rightarrow> bool" where
  "dev_ok ds \<longleftrightarrow> distinct (map dc_auth ds) \<and> distinct (map dc_user_code ds)"

lemma dev_next_maps: "list_all2 dev_next ds ds' \<Longrightarrow> map dc_auth ds' = map dc_auth ds \<and> map dc_user_code ds' = map dc_user_code ds"
  by (induction rule: list_all2_induct) (auto simp: dev_next_def)

lemma dev_step_ok: "dev_step ds ds' \<Longrightarrow> dev_ok ds \<Longrightarrow> dev_ok ds'"
  unfolding dev_step_def
proof (elim disjE exE conjE)
  assume "list_all2 dev_next ds ds'" "dev_ok ds"
  then show "dev_ok ds'" using dev_next_maps [of ds ds'] by (simp add: dev_ok_def)
qed (auto simp: dev_ok_def)

lemma reachable_dev_ok: "auth_reachable sha sign iss db \<Longrightarrow> dev_ok (devices db)"
  by (induction rule: rtranclp_induct)
     (auto simp: auth_init_def dev_ok_def [of "[]"] dest: auth_step_devices dev_step_ok)

lemma dev_step_exchanged:
  assumes "dev_step ds ds'" and "d \<in> set ds" and "dc_status d = DevExchanged"
  shows "d \<in> set ds'"
  using assms(1) unfolding dev_step_def
proof (elim disjE exE conjE)
  assume a: "list_all2 dev_next ds ds'"
  from assms(2) obtain i where i: "i < length ds" "ds ! i = d" by (auto simp: in_set_conv_nth)
  with a have "dev_next d (ds' ! i)" "i < length ds'" by (auto simp: list_all2_conv_all_nth)
  with assms(3) show ?thesis by (auto simp: dev_next_def)
qed (use assms(2) in auto)

lemma later_exchanged:
  "(auth_step sha sign iss)\<^sup>*\<^sup>* db db' \<Longrightarrow> d \<in> set (devices db) \<Longrightarrow> dc_status d = DevExchanged \<Longrightarrow>
     d \<in> set (devices db')"
  by (induction rule: rtranclp_induct) (auto dest: auth_step_devices dev_step_exchanged)

lemma later_reachable:
  "auth_reachable sha sign iss db \<Longrightarrow> (auth_step sha sign iss)\<^sup>*\<^sup>* db db' \<Longrightarrow> auth_reachable sha sign iss db'"
  by (rule rtranclp_trans)

end
