(* ===== verification/Login.thy ===== *)
theory Login
  imports Code_Auth
begin

text \<open>
  What the login service guarantees, and how it reaches the exec gateway: the gateway's
  \<open>AgentserverValidator.Validate\<close> (\<open>handlers/cloud_register.go\<close>) calls \<open>HandleValidate\<close> over the
  internal route of \<open>internal/server/server.go\<close>.
\<close>

section \<open>The gateway's validator\<close>

definition internalRoute :: "string \<Rightarrow> string \<Rightarrow> string reply \<Rightarrow> string reply" where
  "internalRoute serverSecret got handled =
     (if serverSecret \<noteq> [] \<and> got \<noteq> serverSecret then ErrorReply 401 ''unauthorized'' else handled)"

definition validate_request :: "auth_request \<Rightarrow> validateRequest" where
  "validate_request r =
     (case r of
        BearerAuth tok account \<Rightarrow>
          \<lparr>v_scheme = ''bearer'', v_token = tok, v_assertion = [], v_account = account\<rparr>
      | AgentAssertion a account \<Rightarrow>
          \<lparr>v_scheme = ''agent_assertion'', v_token = [], v_assertion = a, v_account = account\<rparr>)"

text \<open>\<open>answer\<close> is what the request to the agent server yields, \<open>None\<close> when it fails.\<close>

definition Validate :: "string \<Rightarrow> (validateRequest \<Rightarrow> string reply option) \<Rightarrow> auth_request \<Rightarrow> unit + string" where
  "Validate baseURL answer r =
     (if baseURL = [] then Inl ()
      else (case answer (validate_request r) of
          None \<Rightarrow> Inl ()
        | Some resp \<Rightarrow>
            if status resp \<noteq> 200 then Inl ()
            else Inr (case resp of Reply _ uid \<Rightarrow> uid | ErrorReply _ _ \<Rightarrow> [])))"

section \<open>Grants\<close>

lemma mint_ok:
  assumes "mintTokensFor sha sign iss up now rn f u db = (Reply c ts, db')"
  shows "c = 200" "access db' (sha (t_access ts)) = Some \<lparr>at_user = u, at_expires = now + accessTokenTTL, at_revoked = None\<rparr>"
    "refreshes db' (sha (t_refresh ts)) = Some \<lparr>rt_family = f, rt_user = u,
       rt_expires = now + refreshTokenTTL, rt_revoked = None\<rparr>"
    "pkce db' = pkce db" "sign (AccessPayload iss u (unix now) (unix (now + accessTokenTTL))) = Some (t_access ts)"
    "users db' u \<noteq> None" "t_refresh ts = hexEncode rn" "users db' = users db" "devices db' = devices db"
  using assms
  by (auto simp: mintTokensFor_def BuildAccessToken_def auth_stmts Let_def split: auth_splits)

lemma code_ok:
  assumes "handleTokenAuthorizationCode sha sign iss up now rn f code verifier db = (Reply c ts, db')"
  obtains req where "pkce db code = Some req" "now < pk_expires req"
     "pkceVerifierMatches sha verifier (pk_challenge req)"
     "mintTokensFor sha sign iss (\<lambda>k. up (Suc k)) now rn f (pk_user req)
        (db\<lparr>pkce := (pkce db)(code := None)\<rparr>) = (Reply c ts, db')"
proof (cases "pkce db code")
  case (Some req)
  with assms show ?thesis
    by (intro that [of req])
       (auto simp: handleTokenAuthorizationCode_def ConsumePkceRequest_def split: if_splits)
qed (use assms in \<open>auto simp: handleTokenAuthorizationCode_def ConsumePkceRequest_def split: if_splits\<close>)

lemma refresh_ok:
  assumes "handleTokenRefresh sha sign iss up now rn raw db = (Reply c ts, db')"
  shows "c = 200 \<and> (\<exists>u. access db' (sha (t_access ts)) =
     Some \<lparr>at_user = u, at_expires = now + accessTokenTTL, at_revoked = None\<rparr>)"
  using assms
  by (auto simp: handleTokenRefresh_def InsertAccessToken_def Let_def split: auth_splits)

lemma grant_ok:
  assumes "handleToken sha sign iss up now rn f form db = (Reply c ts, db')"
  shows "c = 200 \<and> (\<exists>u. access db' (sha (t_access ts)) =
     Some \<lparr>at_user = u, at_expires = now + accessTokenTTL, at_revoked = None\<rparr>)"
proof -
  from assms consider code verifier where
      "handleTokenAuthorizationCode sha sign iss up now rn f code verifier db = (Reply c ts, db')"
    | raw where "handleTokenRefresh sha sign iss up now rn raw db = (Reply c ts, db')"
    by (auto simp: handleToken_def split: option.splits grant.splits)
  then show ?thesis
  proof cases
    case 1
    then obtain req where "pkce db code = Some req" "now < pk_expires req"
      "pkceVerifierMatches sha verifier (pk_challenge req)" and m: "mintTokensFor sha sign iss (\<lambda>k. up (Suc k)) now rn f (pk_user req)
        (db\<lparr>pkce := (pkce db)(code := None)\<rparr>) = (Reply c ts, db')" by (rule code_ok)
    from mint_ok(1,2) [OF m] show ?thesis by blast
  qed (rule refresh_ok)
qed

section \<open>Properties\<close>

text \<open>C14: refresh tokens rotate.  However requests interleave, a family of refresh tokens has at
  most one that is not revoked, and all of them belong to one user.\<close>

theorem refresh_single_live:
  assumes "auth_reachable sha sign iss db"
    and "refreshes db h = Some r" and "refreshes db g = Some s" and "rt_family r = rt_family s"
  shows "rt_user r = rt_user s \<and> (rt_revoked r = None \<and> rt_revoked s = None \<longrightarrow> h = g)"
  using families_okD [OF reachable_families [OF assms(1)] assms(2-4)] by blast

text \<open>C15: reuse burns the family.  When a refresh token that has been used or has expired is
  presented, the request is refused with 401, and from then on no token of its family is ever
  accepted again, whatever else happens.\<close>

theorem refresh_reuse_burns:
  assumes "refreshes db (sha raw) = Some r" and "rt_revoked r \<noteq> None \<or> rt_expires r \<le> now"
    and "raw \<noteq> []" and "\<forall>k. up k"
    and "handleTokenRefresh sha sign iss up now rn raw db = (res, db1)"
    and "(auth_step sha sign iss)\<^sup>*\<^sup>* db1 db2"
  shows "status res = 401 \<and>
     (\<forall>h s. refreshes db2 h = Some s \<longrightarrow> rt_family s = rt_family r \<longrightarrow> rt_revoked s \<noteq> None)"
proof -
  have c: "\<not> (rt_revoked r = None \<and> now < rt_expires r)" using assms(2) by auto
  have rot: "RotateRefreshToken sha up now db raw (sha (hexEncode rn)) (now + refreshTokenTTL) =
      (Inl ErrRefreshTokenReuse, db\<lparr>refreshes := revoke_family now (rt_family r) (refreshes db)\<rparr>)"
    unfolding RotateRefreshToken_def Let_def assms(1) using c assms(4) by auto
  from assms(5) have res: "res = ErrorReply 401 ''refresh_token_expired''"
    and db1: "refreshes db1 = revoke_family now (rt_family r) (refreshes db)"
    using assms(3) rot by (auto simp: handleTokenRefresh_def Let_def)
  have "dead_family (rt_family r) (refreshes db1)"
    unfolding dead_family_def
  proof (intro conjI allI impI)
    show "\<exists>h x. refreshes db1 h = Some x \<and> rt_family x = rt_family r"
      by (intro exI [of _ "sha raw"]) (simp add: db1 revoke_family_def assms(1))
  next
    fix h x assume "refreshes db1 h = Some x" "rt_family x = rt_family r"
    then show "rt_revoked x \<noteq> None"
      by (auto simp: db1 revoke_family_def split: option.splits if_splits)
  qed
  from later_dead [OF assms(6) this] res show ?thesis by (simp add: dead_family_def)
qed

text \<open>C16: an authorization code is good for one attempt.  Tokens are granted only for a code that
  was registered, has not expired and whose challenge is the hash of the verifier, and for the
  user who registered it; and every attempt that reaches the code's row uses it up, whether or
  not the verifier fits.\<close>

theorem auth_code_once:
  assumes "handleTokenAuthorizationCode sha sign iss up now rn f code verifier db = (res, db')"
  shows "(case res of ErrorReply _ _ \<Rightarrow> True
      | Reply c ts \<Rightarrow> c = 200 \<and> (\<exists>req. pkce db code = Some req \<and> now < pk_expires req \<and>
          b64_encode (sha verifier) = TrimRight (pk_challenge req) ''='' \<and>
          access db' (sha (t_access ts)) =
            Some \<lparr>at_user = pk_user req, at_expires = now + accessTokenTTL, at_revoked = None\<rparr>)) \<and>
     (code \<noteq> [] \<and> verifier \<noteq> [] \<and> up 0 \<longrightarrow>
        (\<forall>req. pkce db' code = Some req \<longrightarrow> pk_expires req \<le> now))"
proof
  show "case res of ErrorReply _ _ \<Rightarrow> True
      | Reply c ts \<Rightarrow> c = 200 \<and> (\<exists>req. pkce db code = Some req \<and> now < pk_expires req \<and>
          b64_encode (sha verifier) = TrimRight (pk_challenge req) ''='' \<and>
          access db' (sha (t_access ts)) =
            Some \<lparr>at_user = pk_user req, at_expires = now + accessTokenTTL, at_revoked = None\<rparr>)"
  proof (cases res)
    case (Reply c ts)
    from assms [unfolded Reply] obtain req where r: "pkce db code = Some req" "now < pk_expires req"
      "pkceVerifierMatches sha verifier (pk_challenge req)"
      "mintTokensFor sha sign iss (\<lambda>k. up (Suc k)) now rn f (pk_user req)
        (db\<lparr>pkce := (pkce db)(code := None)\<rparr>) = (Reply c ts, db')" by (rule code_ok)
    from mint_ok(1,2) [OF r(4)] r(1-3) Reply show ?thesis
      by (simp add: pkceVerifierMatches_def base64URLNoPad_def)
  qed simp
next
  have m: "pkce (snd (mintTokensFor sha sign iss up' now rn f u d)) = pkce d" for up' u d
    by (auto simp: mintTokensFor_def auth_stmts Let_def split: auth_splits)
  show "code \<noteq> [] \<and> verifier \<noteq> [] \<and> up 0 \<longrightarrow> (\<forall>req. pkce db' code = Some req \<longrightarrow> pk_expires req \<le> now)"
  proof (intro impI allI)
    fix req assume h: "code \<noteq> [] \<and> verifier \<noteq> [] \<and> up 0" "pkce db' code = Some req"
    have "pkce db' = pkce (snd (ConsumePkceRequest True now db code))"
      using assms h(1) m
      by (auto simp: handleTokenAuthorizationCode_def split: sum.splits option.splits prod.splits if_splits)
         (metis snd_conv)+
    with h(2) show "pk_expires req \<le> now"
      by (auto simp: ConsumePkceRequest_def split: option.splits if_splits)
  qed
qed

lemma poll_ok:
  assumes "handleDeviceToken up now (Some (auth, code)) db = (Reply c t, db1)"
  obtains d where "d \<in> set (devices db)" "dc_auth d = auth" "dc_user_code d = code"
    "dc_status d = DevApproved" "now < dc_expires d" "c = 200"
    "t = \<lparr>dt_code = dc_authcode d, dt_challenge = dc_challenge d, dt_verifier = dc_verifier d\<rparr>"
    "pkce db1 (dc_authcode d) = Some \<lparr>pk_code = dc_authcode d, pk_challenge = dc_challenge d,
       pk_state = ''device-flow'', pk_user = (case dc_user d of Some u \<Rightarrow> u | None \<Rightarrow> []),
       pk_expires = now + pkceCodeTTL\<rparr>"
    "d\<lparr>dc_status := DevExchanged\<rparr> \<in> set (devices db1)"
proof -
  let ?P = "\<lambda>d. dc_auth d = auth \<and> dc_user_code d = code \<and> dc_status d = DevApproved \<and> now < dc_expires d"
  let ?db = "update_devices ?P (\<lambda>d. d\<lparr>dc_status := DevExchanged\<rparr>) db"
  have ne: "\<not> (auth = [] \<or> code = [])" using assms by (auto simp: handleDeviceToken_def)
  note h = assms [unfolded handleDeviceToken_def option.case prod.case if_not_P [OF ne]]
  obtain row where g: "GetDeviceCodeByUserCode (up 0) now db code = Inr (Some row)"
    using h by (cases "GetDeviceCodeByUserCode (up 0) now db code") (auto split: option.splits)
  have row: "\<not> dc_auth row \<noteq> auth" "dc_status row = DevApproved"
    using h g by (auto split: if_splits device_status.splits)
  note h1 = h [unfolded g sum.case option.case if_not_P [OF row(1)] row(2) device_status.case]
  obtain res dbx where x0: "ExchangeDeviceCode (up 1) now db auth code = (res, dbx)"
    by (rule prod.exhaust)
  have "\<exists>dc. res = Inr (Some dc)"
  proof (cases res)
    case (Inr o')
    then show ?thesis using h1 [unfolded x0 prod.case] by (cases o') simp_all
  qed (use h1 [unfolded x0 prod.case] in simp)
  then obtain dc where x: "ExchangeDeviceCode (up 1) now db auth code = (Inr (Some dc), dbx)"
    using x0 by blast
  note h2 = h1 [unfolded x prod.case sum.case option.case]
  let ?new = "\<lparr>pk_code = dc_authcode dc, pk_challenge = dc_challenge dc,
       pk_state = ''device-flow'', pk_user = (case dc_user dc of Some u \<Rightarrow> u | None \<Rightarrow> []),
       pk_expires = now + pkceCodeTTL\<rparr>"
  have i0: "InsertPkceRequest (up 2) dbx ?new = (None, db1)" and c: "c = 200"
      "t = \<lparr>dt_code = dc_authcode dc, dt_challenge = dc_challenge dc, dt_verifier = dc_verifier dc\<rparr>"
    using h2 by (cases "InsertPkceRequest (up 2) dbx ?new"; cases "fst (InsertPkceRequest (up 2) dbx ?new)"; simp)+
  from x obtain d where d: "find ?P (devices db) = Some d" and dc: "dc = d\<lparr>dc_status := DevExchanged\<rparr>"
    and dbx: "dbx = ?db"
    by (auto simp: ExchangeDeviceCode_def Let_def split: if_splits)
  from find_Some_in [OF d] have in_db: "d \<in> set (devices db)" "?P d" by simp_all
  then have "d\<lparr>dc_status := DevExchanged\<rparr> \<in> set (devices ?db)"
    by (force simp: update_devices_def image_iff)
  moreover have "devices db1 = devices ?db"
    using pkce_insert_frame [of "up 2" dbx ?new] i0 dbx by simp
  moreover have "pkce db1 (dc_authcode dc) = Some ?new"
    using i0 by (auto simp: InsertPkceRequest_def split: if_splits)
  ultimately show ?thesis
    using in_db c dc by (intro that [of d]) simp_all
qed

text \<open>A row is approved only by a signed-in user who submits its code.\<close>

definition approved_by :: "(string \<Rightarrow> string) \<Rightarrow> (payload \<Rightarrow> string option) \<Rightarrow> string \<Rightarrow> auth_db \<Rightarrow> string \<Rightarrow> string \<Rightarrow> bool" where
  "approved_by sha sign iss db code u \<longleftrightarrow> u \<noteq> [] \<and>
     (\<exists>up t dbA dbB. auth_reachable sha sign iss dbA \<and>
        handleDeviceVerifySubmit up t (Some u) (Some (code, ''approve'')) dbA = (Reply 200 ''Approved'', dbB) \<and>
        (auth_step sha sign iss)\<^sup>*\<^sup>* dbB db)"

lemma approve_step:
  assumes "auth_step sha sign iss db db'" and "d \<in> set (devices db')" and "dc_status d = DevApproved"
  shows "d \<in> set (devices db) \<or> (\<exists>up t u. u \<noteq> [] \<and> dc_user d = Some u \<and>
    handleDeviceVerifySubmit up t (Some u) (Some (dc_user_code d, ''approve'')) db = (Reply 200 ''Approved'', db'))"
  using assms
proof (induction rule: auth_step.induct)
  case (device_start db upc now ab cb vb acb)
  then show ?case
    by (auto simp: handleDeviceUserCode_def InsertDeviceCode_def Let_def split: if_splits)
next
  case (device_poll db up now body)
  from poll_devices [of up now body db] device_poll show ?case
    by (auto simp: ExchangeDeviceCode_def update_devices_def Let_def split: if_splits option.splits)
next
  case (device_submit db upc now sess dform)
  let ?new = "d \<in> set (devices db)"
  show ?case
  proof (cases "\<exists>u code. sess = Some u \<and> u \<noteq> [] \<and> dform = Some (code, ''approve'')")
    case False
    with device_submit show ?thesis
      by (auto simp: handleDeviceVerifySubmit_def DenyDeviceCode_def update_devices_def
          split: option.splits prod.splits if_splits)
  next
    case True
    then obtain u code where u: "sess = Some u" "u \<noteq> []" "dform = Some (code, ''approve'')" by blast
    obtain e db1 where a: "ApproveDeviceCode upc now db code u = (e, db1)" by (cases "ApproveDeviceCode upc now db code u")
    show ?thesis
    proof (cases e)
      case (Some x)
      with a have "db1 = db" by (auto simp: ApproveDeviceCode_def Let_def split: if_splits)
      with device_submit u a Some show ?thesis by (simp add: handleDeviceVerifySubmit_def)
    next
      case None
      with u a have r: "handleDeviceVerifySubmit upc now sess dform db = (Reply 200 ''Approved'', db1)"
        by (simp add: handleDeviceVerifySubmit_def)
      with device_submit(1) have "d \<in> set (devices db1)" by simp
      with a None have "d \<in> set (devices db) \<or> dc_user d = Some u \<and> dc_user_code d = code"
        by (auto simp: ApproveDeviceCode_def update_devices_def Let_def split: if_splits)
      with r u show ?thesis by auto
    qed
  qed
qed (simp_all add: auth_frames token_frame)

lemma approved_traced:
  assumes "auth_reachable sha sign iss db" and "d \<in> set (devices db)" and "dc_status d = DevApproved"
  shows "\<exists>u. dc_user d = Some u \<and> approved_by sha sign iss db (dc_user_code d) u"
  using assms
proof (induction rule: rtranclp_induct)
  case base
  then show ?case by (simp add: auth_init_def)
next
  case (step db db')
  from approve_step [OF step.hyps(2) step.prems] show ?case
  proof (elim disjE exE conjE)
    assume "d \<in> set (devices db)"
    with step.IH step.prems(2) obtain u where "dc_user d = Some u" "approved_by sha sign iss db (dc_user_code d) u" by blast
    with step.hyps(2) show ?thesis unfolding approved_by_def by (meson rtranclp.rtrancl_into_rtrancl)
  next
    fix up t u assume "u \<noteq> []" "dc_user d = Some u"
      "handleDeviceVerifySubmit up t (Some u) (Some (dc_user_code d, ''approve'')) db = (Reply 200 ''Approved'', db')"
    with step.hyps(1) show ?thesis unfolding approved_by_def by blast
  qed
qed

text \<open>C17: a device login is granted once, and only when it was approved.  When the poll hands out an authorization
  code, it is that of an approved, unexpired row with both codes of the poll; a signed-in user has submitted the approval
  of this user code before, was told so, and the code is registered for that user; and no later poll for the same device
  is answered again.\<close>

theorem device_login_once:
  assumes "auth_reachable sha sign iss db"
    and "handleDeviceToken up now (Some (auth, code)) db = (Reply c t, db1)"
    and "(auth_step sha sign iss)\<^sup>*\<^sup>* db1 db2"
  shows "(\<exists>d\<in>set (devices db). \<exists>u. dc_auth d = auth \<and> dc_user_code d = code \<and> dc_status d = DevApproved \<and>
            now < dc_expires d \<and> dt_code t = dc_authcode d \<and> approved_by sha sign iss db code u \<and>
            map_option pk_user (pkce db1 (dc_authcode d)) = Some u) \<and>
         (\<forall>c' t' db3. handleDeviceToken up' now' (Some (auth, code')) db2 \<noteq> (Reply c' t', db3))"
proof -
  from assms(2) obtain d where d: "d \<in> set (devices db)" "dc_auth d = auth" "dc_user_code d = code"
    "dc_status d = DevApproved" "now < dc_expires d" "c = 200"
    "t = \<lparr>dt_code = dc_authcode d, dt_challenge = dc_challenge d, dt_verifier = dc_verifier d\<rparr>"
    "pkce db1 (dc_authcode d) = Some \<lparr>pk_code = dc_authcode d, pk_challenge = dc_challenge d,
       pk_state = ''device-flow'', pk_user = (case dc_user d of Some u \<Rightarrow> u | None \<Rightarrow> []),
       pk_expires = now + pkceCodeTTL\<rparr>"
    "d\<lparr>dc_status := DevExchanged\<rparr> \<in> set (devices db1)" by (rule poll_ok)
  have "auth_step sha sign iss db db1"
    using device_poll [of sha sign iss db up now "Some (auth, code)"] assms(2) by simp
  then have "auth_reachable sha sign iss db1" using assms(1) by (rule rtranclp.rtrancl_into_rtrancl [rotated])
  from later_reachable [OF this assms(3)] have ok: "dev_ok (devices db2)" by (rule reachable_dev_ok)
  have e: "d\<lparr>dc_status := DevExchanged\<rparr> \<in> set (devices db2)"
    by (rule later_exchanged [OF assms(3) d(9)]) simp
  have "False" if "handleDeviceToken up' now' (Some (auth, code')) db2 = (Reply c' t', db3)" for c' t' db3
  proof -
    from that obtain d2 where d2: "d2 \<in> set (devices db2)" "dc_auth d2 = auth" "dc_status d2 = DevApproved"
      by (rule poll_ok)
    from ok have "inj_on dc_auth (set (devices db2))" by (simp add: dev_ok_def distinct_map)
    from inj_onD [OF this _ d2(1) e] d2(2) d(2) have "d2 = d\<lparr>dc_status := DevExchanged\<rparr>" by simp
    with d2(3) show False by simp
  qed
  moreover obtain u where "dc_user d = Some u" "approved_by sha sign iss db code u"
    using approved_traced [OF assms(1) d(1,4)] d(3) by blast
  ultimately show ?thesis using d by auto
qed

lemma unix_add: "unix (t + accessTokenTTL) = unix t + 3600"
  by (simp add: unix_def accessTokenTTL_def sec_def)

text \<open>C18: a refresh in the second of the login destroys the session.  The access token of the
  refresh has the claims of the first one, hence the same text and hash; its insertion fails,
  the reply is 500, but the refresh token has already been used up and its successor was not
  delivered.\<close>

theorem same_second_refresh_lost:
  assumes "handleTokenAuthorizationCode sha sign iss up now rn f code verifier db = (Reply c ts, db1)"
    and "unix later = unix now" and "rn \<noteq> []" and "refreshes db1 (sha (hexEncode rn2)) = None"
  shows "\<exists>db2 r. handleTokenRefresh sha sign iss (\<lambda>_. True) later rn2 (t_refresh ts) db1 =
           (ErrorReply 500 ''server_error'', db2) \<and>
         refreshes db2 (sha (t_refresh ts)) = Some r \<and> rt_revoked r \<noteq> None"
proof -
  from assms(1) obtain req where m: "pkce db code = Some req" "now < pk_expires req"
    "pkceVerifierMatches sha verifier (pk_challenge req)"
    "mintTokensFor sha sign iss (\<lambda>k. up (Suc k)) now rn f (pk_user req)
       (db\<lparr>pkce := (pkce db)(code := None)\<rparr>) = (Reply c ts, db1)" by (rule code_ok)
  note ok = mint_ok [OF m(4)]
  let ?u = "pk_user req" and ?h = "sha (t_refresh ts)"
  have raw: "t_refresh ts \<noteq> []" using ok(7) assms(3) by (cases rn) (simp_all add: hexEncode_def)
  have "later < now + sec" using assms(2) by (auto simp: unix_def sec_def)
  then have live: "later < now + refreshTokenTTL" by (simp add: sec_def refreshTokenTTL_def)
  have ne: "sha (hexEncode rn2) \<noteq> ?h" using ok(3) assms(4) by auto
  let ?row = "\<lparr>rt_family = f, rt_user = ?u, rt_expires = now + refreshTokenTTL, rt_revoked = Some later\<rparr>"
  let ?new = "\<lparr>rt_family = f, rt_user = ?u, rt_expires = later + refreshTokenTTL, rt_revoked = None\<rparr>"
  let ?db = "db1\<lparr>refreshes := (refreshes db1)(?h \<mapsto> ?row, sha (hexEncode rn2) \<mapsto> ?new)\<rparr>"
  have rot: "RotateRefreshToken sha (\<lambda>_. True) later db1 (t_refresh ts) (sha (hexEncode rn2))
      (later + refreshTokenTTL) = (Inr ?u, ?db)"
    using ok(3,6) live ne assms(4)
    by (auto simp: RotateRefreshToken_def InsertRefreshToken_def Let_def split: option.splits)
  have tok: "BuildAccessToken sign later
      \<lparr>c_iss = iss, c_sub = ?u, c_email = e, c_exp = later + accessTokenTTL\<rparr> = Some (t_access ts)" for e
    using ok(5) assms(2) by (simp add: BuildAccessToken_def unix_add)
  have "handleTokenRefresh sha sign iss (\<lambda>_. True) later rn2 (t_refresh ts) db1 =
      (ErrorReply 500 ''server_error'', ?db)"
    using raw rot tok ok(2) by (simp add: handleTokenRefresh_def InsertAccessToken_def Let_def)
  then show ?thesis using ne by auto
qed

text \<open>C19: what an access token opens.  A token granted for a user's code registers the user's
  executor at the gateway until the hour is over, and is refused afterwards, whatever happened
  in between: no request revokes it, not even the detected reuse of its refresh token.\<close>

theorem login_opens_executor:
  assumes "handleTokenAuthorizationCode sha sign iss up now rn f code verifier db = (Reply c ts, db1)"
    and "pkce db code = Some req" and "(auth_step sha sign iss)\<^sup>*\<^sup>* db1 db2"
    and "UserIDForExecutor True edb exe = Inr (pk_user req)" and "pk_user req \<noteq> []"
    and "rr_exe_id r = exe" and "exe \<noteq> []" and "rr_auth r = bearer @ t_access ts"
    and "rr_account r = pk_user req" and "secret \<noteq> []" and "base \<noteq> []"
  shows "\<exists>ticket. fst (CloudRegister mac
      (Validate base (\<lambda>q. Some (internalRoute s s (HandleValidate sha parse verify (\<lambda>_. True) t db2 (Some q)))))
      parseUA secret t True edb r) =
        (if t < now + accessTokenTTL then RegTicket exe ticket else RegUnauthorized)"
proof -
  let ?a = "\<lambda>q. Some (internalRoute s s (HandleValidate sha parse verify (\<lambda>_. True) t db2 (Some q)))"
  from assms(1) obtain req' where m: "pkce db code = Some req'" "now < pk_expires req'"
    "pkceVerifierMatches sha verifier (pk_challenge req')"
    "mintTokensFor sha sign iss (\<lambda>k. up (Suc k)) now rn f (pk_user req')
       (db\<lparr>pkce := (pkce db)(code := None)\<rparr>) = (Reply c ts, db1)" by (rule code_ok)
  with assms(2) have "access db1 (sha (t_access ts)) =
      Some \<lparr>at_user = pk_user req, at_expires = now + accessTokenTTL, at_revoked = None\<rparr>"
    using mint_ok(2) [OF m(4)] by simp
  from auth_steps_access [OF assms(3) this] have "LookupAccessToken sha True t db2 (t_access ts) =
      Inr (if t < now + accessTokenTTL then pk_user req else [])"
    by (simp add: LookupAccessToken_def)
  then have "classifyAndValidate (Validate base ?a) (rr_auth r) (rr_account r) =
      (if t < now + accessTokenTTL then Some (pk_user req) else None)"
    using assms(5,8,9,11)
    by (simp add: classifyAndValidate_def Validate_def validate_request_def internalRoute_def
        HandleValidate_def validate_def)
  moreover have "assertExeOwnedByUser True edb exe (pk_user req) = None"
    using assms(4,5) by (simp add: assertExeOwnedByUser_def)
  ultimately show ?thesis
    using assms(6,7,10)
    by (cases "parseUA (rr_ua r)") (simp add: CloudRegister_def MintWSTicket_def Let_def)
qed

text \<open>An agent's assertion is accepted exactly when it is complete, its identity is known and
  live, its task is live and of the same agent, the account header, if any, names the owner,
  the time stamp is within five minutes, and the signature over agent, task and time stamp
  verifies under the key registered for the agent; the answer is the identity's owner.\<close>

theorem validateAgentAssertion_iff:
  "validateAgentAssertion parse verify (\<lambda>_. True) now db req = Inr uid \<longleftrightarrow>
     (\<exists>raw a i t ts sg. b64_decode (v_assertion req) = Some raw \<and> parse raw = Some a \<and>
        as_runtime a \<noteq> [] \<and> as_task a \<noteq> [] \<and> as_text a \<noteq> [] \<and> as_sigtext a \<noteq> [] \<and>
        identities db (as_runtime a) = Some i \<and> ai_revoked i = None \<and> now < ai_expires i \<and>
        v_account req \<in> {[], ai_user i} \<and>
        agent_tasks db (as_task a) = Some t \<and> now < ta_expires t \<and> ta_runtime t = as_runtime a \<and>
        as_time a = Some ts \<and> \<bar>now - ts\<bar> \<le> taskRegisterClockSkew \<and> as_sig a = Some sg \<and>
        verify (ai_key i) (as_runtime a @ '':'' @ as_task a @ '':'' @ as_text a) sg \<and> uid = ai_user i)"
proof -
  have sk: "skewed now ts \<longleftrightarrow> \<not> \<bar>now - ts\<bar> \<le> taskRegisterClockSkew" for ts
    by (auto simp: skewed_def)
  show ?thesis
    unfolding validateAgentAssertion_def GetAgentIdentity_def GetAgentTask_def sk
    by (cases "b64_decode (v_assertion req)"; simp; cases "parse (the (b64_decode (v_assertion req)))")
       (auto split: option.splits if_splits sum.splits)
qed

section \<open>A run\<close>

text \<open>A user logs in with a code and with a device; the hash is the identity.\<close>

definition wsign :: "payload \<Rightarrow> string option" where
  "wsign p = Some (case p of AccessPayload i u t e \<Rightarrow> FormatInt t | _ \<Rightarrow> ''id'')"

definition wid :: "string \<Rightarrow> string" where "wid s = s"

definition wusers :: auth_db where
  "wusers = auth_init\<lparr>users := [''u'' \<mapsto> ''u@x'']\<rparr>"

definition wch :: string where "wch = b64_encode ''v''"

definition wcode :: auth_db where
  "wcode = snd (handleAuthorize True 0 ''r'' ''u'' ''s'' wch ''x'' True wusers)"

definition wlogin :: auth_db where
  "wlogin = snd (handleToken wid wsign ''i'' (\<lambda>_. True) 5 ''q'' ''f''
     (Some (AuthorizationCode ''72'' ''v'')) wcode)"

definition wts :: tokens where
  "wts = \<lparr>t_id = ''id'', t_access = ''0'', t_refresh = ''71''\<rparr>"

lemma whex: "hexEncode ''r'' = ''72''" "hexEncode ''q'' = ''71''" "hexEncode ''z'' = ''7a''"
  by (simp_all add: hexEncode_def hex_digit_def byte_def)

lemma wformat: "FormatInt 0 = ''0''"
  by code_simp

lemma wsign_eval: "BuildAccessToken wsign 5 c = Some ''0''" "BuildIDToken wsign 5 c = Some ''id''"
  by (simp_all add: BuildAccessToken_def BuildIDToken_def wsign_def unix_def sec_def wformat)

lemma wmatch: "pkceVerifierMatches wid ''v'' wch"
  by code_simp

lemma wcode_eval: "wcode = auth_init\<lparr>users := [''u'' \<mapsto> ''u@x''],
    pkce := [''72'' \<mapsto> \<lparr>pk_code = ''72'', pk_challenge = wch, pk_state = ''s'', pk_user = ''u'',
      pk_expires = pkceCodeTTL\<rparr>]\<rparr>"
proof -
  have "wch \<noteq> []" by code_simp
  then show ?thesis
    by (simp add: wcode_def wusers_def auth_init_def handleAuthorize_def InsertPkceRequest_def Let_def whex)
qed

lemma wlogin_grant: "handleTokenAuthorizationCode wid wsign ''i'' (\<lambda>_. True) 5 ''q'' ''f'' ''72'' ''v'' wcode =
    (Reply 200 wts, auth_init\<lparr>users := [''u'' \<mapsto> ''u@x''],
       access := [''0'' \<mapsto> \<lparr>at_user = ''u'', at_expires = 5 + accessTokenTTL, at_revoked = None\<rparr>],
       refreshes := [''71'' \<mapsto> \<lparr>rt_family = ''f'', rt_user = ''u'',
         rt_expires = 5 + refreshTokenTTL, rt_revoked = None\<rparr>]\<rparr>)"
proof -
  have "5 < pkceCodeTTL" by (simp add: pkceCodeTTL_def sec_def)
  then show ?thesis
    by (simp add: handleTokenAuthorizationCode_def ConsumePkceRequest_def wcode_eval auth_init_def wmatch
        mintTokensFor_def InsertAccessToken_def InsertRefreshToken_def wsign_eval whex wts_def wid_def Let_def)
qed

lemma wlogin_eval: "wlogin = auth_init\<lparr>users := [''u'' \<mapsto> ''u@x''],
       access := [''0'' \<mapsto> \<lparr>at_user = ''u'', at_expires = 5 + accessTokenTTL, at_revoked = None\<rparr>],
       refreshes := [''71'' \<mapsto> \<lparr>rt_family = ''f'', rt_user = ''u'',
         rt_expires = 5 + refreshTokenTTL, rt_revoked = None\<rparr>]\<rparr>"
  by (simp add: wlogin_def handleToken_def wlogin_grant)

lemma wreach: "auth_reachable wid wsign ''i'' wcode" "auth_reachable wid wsign ''i'' wlogin"
proof -
  have u: "auth_reachable wid wsign ''i'' wusers"
    using add_user [of auth_init "''u''" wid wsign "''i''" "''u@x''"]
    by (simp add: wusers_def auth_init_def r_into_rtranclp)
  show c: "auth_reachable wid wsign ''i'' wcode"
    unfolding wcode_def by (rule rtranclp.rtrancl_into_rtrancl [OF u authorize])
  show "auth_reachable wid wsign ''i'' wlogin"
    unfolding wlogin_def
    by (rule rtranclp.rtrancl_into_rtrancl [OF c token]) (simp add: fresh_family_def wcode_eval auth_init_def)
qed

theorem refresh_single_live_witness:
  "\<exists>r. refreshes wlogin ''71'' = Some r \<and> rt_revoked r = None"
  using refresh_single_live [OF wreach(2), of "''71''" _ "''71''"]
  by (simp add: wlogin_eval)

theorem refresh_reuse_burns_witness:
  "\<exists>res db1. handleTokenRefresh wid wsign ''i'' (\<lambda>_. True) (5 + refreshTokenTTL) ''z'' ''71'' wlogin = (res, db1) \<and>
     status res = 401"
proof -
  obtain res db1 where e: "handleTokenRefresh wid wsign ''i'' (\<lambda>_. True) (5 + refreshTokenTTL) ''z'' ''71'' wlogin =
      (res, db1)" by fastforce
  from refresh_reuse_burns [OF _ _ _ _ e rtranclp.rtrancl_refl, of
      "\<lparr>rt_family = ''f'', rt_user = ''u'', rt_expires = 5 + refreshTokenTTL, rt_revoked = None\<rparr>"] e
  show ?thesis by (simp add: wlogin_eval wid_def)
qed

theorem auth_code_once_witness:
  "\<exists>c ts. fst (handleTokenAuthorizationCode wid wsign ''i'' (\<lambda>_. True) 5 ''q'' ''f'' ''72'' ''v'' wcode) =
       Reply c ts \<and> c = 200 \<and> pkce wlogin ''72'' = None"
  using auth_code_once [OF wlogin_grant] wlogin_grant by (simp add: wlogin_eval auth_init_def)

theorem same_second_refresh_lost_witness:
  "\<exists>db2. handleTokenRefresh wid wsign ''i'' (\<lambda>_. True) 6 ''z'' ''71'' wlogin = (ErrorReply 500 ''server_error'', db2)"
  using same_second_refresh_lost [OF wlogin_grant, of 6 "''z''"]
  by (auto simp: unix_def sec_def whex wts_def wlogin_eval wid_def)

theorem login_opens_executor_witness:
  "\<exists>ticket. fst (CloudRegister (\<lambda>s m. s @ m)
      (Validate ''http'' (\<lambda>q. Some (internalRoute [] [] (HandleValidate wid (\<lambda>_. None) (\<lambda>_ _ _. False) (\<lambda>_. True)
         7 wlogin (Some q)))))
      (\<lambda>_. ([], [])) ''k'' 7 True (snd (RegisterHandler True 1 ''1'' empty_db ''u'' (Some ''d'')))
      \<lparr>rr_exe_id = ''exe_1'', rr_env_id = [], rr_auth = ''Bearer 0'', rr_account = ''u'', rr_ua = [], rr_ip = []\<rparr>) =
    RegTicket ''exe_1'' ticket"
proof -
  let ?e = "snd (RegisterHandler True 1 ''1'' empty_db ''u'' (Some ''d''))"
  have o: "UserIDForExecutor True ?e ''exe_1'' = Inr ''u''"
    by (simp add: UserIDForExecutor_def RegisterHandler_def CreateExecutor_def empty_db_def Let_def)
  from login_opens_executor [OF wlogin_grant, of
      "\<lparr>pk_code = ''72'', pk_challenge = wch, pk_state = ''s'', pk_user = ''u'', pk_expires = pkceCodeTTL\<rparr>"
      wlogin ?e "''exe_1''" "\<lparr>rr_exe_id = ''exe_1'', rr_env_id = [], rr_auth = ''Bearer 0'', rr_account = ''u'',
         rr_ua = [], rr_ip = []\<rparr>" "''k''" "''http''" "\<lambda>s m. s @ m" "[]" "\<lambda>_. None" "\<lambda>_ _ _. False" 7 "\<lambda>_. ([], [])"]
  show ?thesis using o
    by (simp add: wcode_eval wlogin_eval bearer_def wts_def accessTokenTTL_def sec_def)
qed

text \<open>The same user approves a device.\<close>

definition wdev1 :: auth_db where
  "wdev1 = snd (handleDeviceUserCode wid True 0 ''r'' ''abcdefgh'' ''q'' ''z'' wusers)"

definition wdev2 :: auth_db where
  "wdev2 = snd (handleDeviceVerifySubmit True 1 (Some ''u'') (Some (userCodeOf ''abcdefgh'', ''approve'')) wdev1)"

lemma wdev_reach: "auth_reachable wid wsign ''i'' wdev2"
proof -
  have u: "auth_reachable wid wsign ''i'' wusers"
    using add_user [of auth_init "''u''" wid wsign "''i''" "''u@x''"]
    by (simp add: wusers_def auth_init_def r_into_rtranclp)
  show ?thesis
    unfolding wdev2_def wdev1_def
    by (rule rtranclp.rtrancl_into_rtrancl [OF rtranclp.rtrancl_into_rtrancl [OF u device_start] device_submit])
qed

theorem device_login_once_witness:
  "\<exists>c t db1 u. handleDeviceToken (\<lambda>_. True) 2 (Some (''72'', userCodeOf ''abcdefgh'')) wdev2 = (Reply c t, db1) \<and>
     dt_code t = ''7a'' \<and> approved_by wid wsign ''i'' wdev2 (userCodeOf ''abcdefgh'') u"
proof -
  have uc: "userCodeOf ''abcdefgh'' \<noteq> []" by (simp add: userCodeOf_def)
  have d: "devices wdev2 = [\<lparr>dc_auth = ''72'', dc_user_code = userCodeOf ''abcdefgh'',
      dc_challenge = b64_encode ''71'', dc_verifier = ''71'', dc_authcode = ''7a'', dc_status = DevApproved,
      dc_user = Some ''u'', dc_expires = deviceCodeTTL, dc_approved = Some 1\<rparr>]"
    "users wdev2 ''u'' \<noteq> None" "pkce wdev2 = Map.empty"
    by (simp_all add: wdev2_def wdev1_def wusers_def auth_init_def handleDeviceUserCode_def InsertDeviceCode_def
        handleDeviceVerifySubmit_def ApproveDeviceCode_def update_devices_def base64URLNoPad_def whex wid_def Let_def
        deviceCodeTTL_def sec_def)
  obtain t db1 where e: "handleDeviceToken (\<lambda>_. True) 2 (Some (''72'', userCodeOf ''abcdefgh'')) wdev2 =
      (Reply 200 t, db1)"
    using uc d by (auto simp: handleDeviceToken_def GetDeviceCodeByUserCode_def ExchangeDeviceCode_def
        InsertPkceRequest_def update_devices_def Let_def deviceCodeTTL_def sec_def)
  from device_login_once [OF wdev_reach e rtranclp.rtrancl_refl, THEN conjunct1] obtain x u where
    x: "x \<in> set (devices wdev2)" "dt_code t = dc_authcode x" and
    u: "approved_by wid wsign ''i'' wdev2 (userCodeOf ''abcdefgh'') u" by blast
  from x d(1) have "dt_code t = ''7a''" by simp
  with e u show ?thesis by blast
qed

end
