(* ===== verification/Server_Store.thy ===== *)
theory Server_Store
  imports Exec_Store
begin

text \<open>
  The tables of the agent server and the statements of \<open>internal/db\<close> on them: workspaces and
  their members (\<open>workspaces.go\<close>), sandboxes and registration codes (\<open>sandboxes.go\<close>), proxy
  tokens (\<open>proxy_tokens.go\<close>), quotas (\<open>quotas.go\<close>), delegated tasks (\<open>agent_tasks.go\<close>), the
  mailbox (\<open>agent_mailbox.go\<close>) and the audit trail (\<open>agent_interactions.go\<close>), with the primary
  keys, unique indexes, references and cascades of \<open>db/migrations\<close>.

  A table is the list of its rows in the order of insertion.  A statement takes a flag that
  tells whether it reaches the database, and the time \<open>NOW()\<close> where it reads it.
\<close>

section \<open>Tables\<close>

record workspace_row =
  ws_id :: string
  ws_name :: string
  ws_slug :: string
  ws_namespace :: "string option"
  ws_routing :: "string option"
  ws_created :: time
  ws_updated :: time
  ws_deleted :: "time option"

record WorkspaceMember =
  me_ws :: string
  me_user :: string
  me_role :: string
  me_created :: time

datatype sbx_status =
    StatusCreating | StatusRunning | StatusPausing | StatusPaused | StatusResuming | StatusDeleting
  | StatusOffline

record sbx_row =
  sb_id :: string
  sb_ws :: string
  sb_name :: string
  sb_type :: string
  sb_status :: sbx_status
  sb_local :: bool
  sb_short :: "string option"
  sb_sandbox :: "string option"
  sb_pod :: "string option"
  sb_proxy :: "string option"
  sb_opencode :: "string option"
  sb_openclaw :: "string option"
  sb_tunnel :: "string option"
  sb_nanoclaw :: "string option"
  sb_active :: "time option"
  sb_created :: time
  sb_paused :: "time option"
  sb_beat :: "time option"
  sb_cpu :: "int option"
  sb_memory :: "int option"
  sb_idle :: "int option"
  sb_meta :: string

datatype proxy_scope = ProxyTokenSandbox string | ProxyTokenWorkspace

record ProxyToken =
  pt_token :: string
  pt_scope :: proxy_scope
  pt_ws :: string

record AgentRegistrationCode =
  rc_code :: string
  rc_user :: string
  rc_ws :: string
  rc_made :: time
  rc_expiry :: time
  rc_used :: bool

record WorkspaceQuota =
  q_sandboxes :: "int option"
  q_cpu :: "int option"
  q_memory :: "int option"
  q_idle :: "int option"
  q_totalCPU :: "int option"
  q_totalMemory :: "int option"
  q_drive :: "int option"

datatype task_status = TaskPending | TaskAssigned | TaskRunning | TaskCompleted | TaskFailed | TaskCancelled

text \<open>The cost of a task is kept as the text it arrived as.\<close>

record task_row =
  tk_id :: string
  tk_ws :: string
  tk_requester :: "string option"
  tk_target :: string
  tk_session :: "string option"
  tk_skill :: "string option"
  tk_prompt :: string
  tk_context :: "string option"
  tk_status :: task_status
  tk_result :: "string option"
  tk_failure :: "string option"
  tk_timeout :: int
  tk_chain :: "string list"
  tk_cost :: "string option"
  tk_turns :: int
  tk_created :: time
  tk_accepted :: "time option"
  tk_completed :: "time option"

record AgentMessage =
  ms_id :: string
  ms_ws :: string
  ms_from :: string
  ms_to :: string
  ms_text :: string
  ms_type :: string
  ms_created :: time
  ms_read :: "time option"

record AgentInteraction =
  in_ws :: string
  in_actor :: "string option"
  in_action :: string
  in_target :: string
  in_type :: string
  in_created :: time

record SandboxComposition =
  co_soul :: "string option"
  co_skills :: "string list"
  co_config :: string
  co_track :: bool

record auth_token =
  tn_token :: string
  tn_user :: string
  tn_expires :: time
  tn_active :: "string option"

text \<open>
  Users are pairs of identifier and e-mail address; a draft is the pair of its identifier and
  its workspace.
\<close>

record srv_db =
  sv_users :: "(string \<times> string) list"
  sv_auth :: "auth_token list"
  sv_skill_drafts :: "(string \<times> string) list"
  sv_soul_drafts :: "(string \<times> string) list"
  sv_workspaces :: "workspace_row list"
  sv_members :: "WorkspaceMember list"
  sv_sandboxes :: "sbx_row list"
  sv_tokens :: "ProxyToken list"
  sv_codes :: "AgentRegistrationCode list"
  sv_settings :: "string \<rightharpoonup> string"
  sv_user_quotas :: "string \<rightharpoonup> int option"
  sv_quotas :: "string \<rightharpoonup> WorkspaceQuota"
  sv_tasks :: "task_row list"
  sv_mail :: "AgentMessage list"
  sv_log :: "AgentInteraction list"
  sv_compositions :: "string \<rightharpoonup> SandboxComposition"

definition has_workspace :: "srv_db \<Rightarrow> string \<Rightarrow> bool" where
  "has_workspace db w \<longleftrightarrow> list_ex (\<lambda>r. ws_id r = w) (sv_workspaces db)"

definition has_user :: "srv_db \<Rightarrow> string \<Rightarrow> bool" where
  "has_user db u \<longleftrightarrow> list_ex (\<lambda>p. fst p = u) (sv_users db)"

definition has_sandbox :: "srv_db \<Rightarrow> string \<Rightarrow> bool" where
  "has_sandbox db i \<longleftrightarrow> list_ex (\<lambda>r. sb_id r = i) (sv_sandboxes db)"

text \<open>
  Deleting sandboxes: the rows that refer to one go with it (\<open>ON DELETE CASCADE\<close>), and the
  requester of a task and the actor of an audit entry become empty (\<open>ON DELETE SET NULL\<close>).
\<close>

definition drop_sandboxes :: "(sbx_row \<Rightarrow> bool) \<Rightarrow> srv_db \<Rightarrow> srv_db" where
  "drop_sandboxes P db =
     (let gone = (\<lambda>i. list_ex (\<lambda>r. sb_id r = i \<and> P r) (sv_sandboxes db));
          goneo = (\<lambda>i. case i of Some j \<Rightarrow> gone j | None \<Rightarrow> False) in
      db\<lparr>sv_sandboxes := filter (\<lambda>r. \<not> P r) (sv_sandboxes db),
         sv_tokens := filter (\<lambda>t. case pt_scope t of ProxyTokenSandbox i \<Rightarrow> \<not> gone i
                                  | ProxyTokenWorkspace \<Rightarrow> True) (sv_tokens db),
         sv_tasks := update_rows (\<lambda>t. goneo (tk_requester t)) (\<lambda>t. t\<lparr>tk_requester := None\<rparr>)
                       (filter (\<lambda>t. \<not> gone (tk_target t)) (sv_tasks db)),
         sv_mail := filter (\<lambda>m. \<not> gone (ms_from m) \<and> \<not> gone (ms_to m)) (sv_mail db),
         sv_log := update_rows (\<lambda>i. goneo (in_actor i)) (\<lambda>i. i\<lparr>in_actor := None\<rparr>) (sv_log db),
         sv_compositions := (\<lambda>i. if gone i then None else sv_compositions db i)\<rparr>)"

section \<open>Workspaces (\<open>workspaces.go\<close>)\<close>

record Workspace =
  w_id :: string
  w_name :: string
  w_slug :: string
  w_namespace :: "string option"
  w_routing :: string
  w_created :: time
  w_updated :: time

definition scan_workspace :: "workspace_row \<Rightarrow> Workspace" where
  "scan_workspace r =
     \<lparr>w_id = ws_id r, w_name = ws_name r, w_slug = ws_slug r, w_namespace = ws_namespace r,
      w_routing = (case ws_routing r of Some s \<Rightarrow> s | None \<Rightarrow> ''shared''),
      w_created = ws_created r, w_updated = ws_updated r\<rparr>"

definition insert_workspace ::
  "bool \<Rightarrow> time \<Rightarrow> srv_db \<Rightarrow> string \<Rightarrow> string \<Rightarrow> string \<Rightarrow> string \<Rightarrow> db_err option \<times> srv_db" where
  "insert_workspace up now db i name slug namespace =
     (if \<not> up then (Some DbDown, db)
      else if list_ex (\<lambda>r. ws_id r = i \<or> ws_slug r = slug) (sv_workspaces db) then (Some DuplicateKey, db)
      else (None, db\<lparr>sv_workspaces := sv_workspaces db @
              [\<lparr>ws_id = i, ws_name = name, ws_slug = slug, ws_namespace = nullif_empty namespace,
                ws_routing = None, ws_created = now, ws_updated = now, ws_deleted = None\<rparr>]\<rparr>))"

definition SlugExists :: "bool \<Rightarrow> srv_db \<Rightarrow> string \<Rightarrow> db_err + bool" where
  "SlugExists up db slug =
     (if \<not> up then Inl DbDown else Inr (list_ex (\<lambda>r. ws_slug r = slug) (sv_workspaces db)))"

definition GetWorkspaceBySlug :: "bool \<Rightarrow> srv_db \<Rightarrow> string \<Rightarrow> db_err + Workspace option" where
  "GetWorkspaceBySlug up db slug =
     (if slug = [] then Inr None
      else if \<not> up then Inl DbDown
      else Inr (map_option scan_workspace
             (find (\<lambda>r. ws_slug r = slug \<and> ws_deleted r = None) (sv_workspaces db))))"

definition GetWorkspace :: "bool \<Rightarrow> srv_db \<Rightarrow> string \<Rightarrow> db_err + Workspace option" where
  "GetWorkspace up db i =
     (if \<not> up then Inl DbDown
      else Inr (map_option scan_workspace
             (find (\<lambda>r. ws_id r = i \<and> ws_deleted r = None) (sv_workspaces db))))"

text \<open>A hard deletion cascades to everything of the workspace.\<close>

definition DeleteWorkspace :: "bool \<Rightarrow> srv_db \<Rightarrow> string \<Rightarrow> db_err option \<times> srv_db" where
  "DeleteWorkspace up db i =
     (if \<not> up then (Some DbDown, db)
      else (let db1 = drop_sandboxes (\<lambda>r. sb_ws r = i) db in
        (None, db1\<lparr>sv_workspaces := filter (\<lambda>r. ws_id r \<noteq> i) (sv_workspaces db1),
                  sv_members := filter (\<lambda>m. me_ws m \<noteq> i) (sv_members db1),
                  sv_tokens := filter (\<lambda>t. pt_ws t \<noteq> i) (sv_tokens db1),
                  sv_codes := filter (\<lambda>c. rc_ws c \<noteq> i) (sv_codes db1),
                  sv_quotas := (sv_quotas db1)(i := None),
                  sv_tasks := filter (\<lambda>t. tk_ws t \<noteq> i) (sv_tasks db1),
                  sv_mail := filter (\<lambda>m. ms_ws m \<noteq> i) (sv_mail db1),
                  sv_skill_drafts := filter (\<lambda>d. snd d \<noteq> i) (sv_skill_drafts db1),
                  sv_soul_drafts := filter (\<lambda>d. snd d \<noteq> i) (sv_soul_drafts db1),
                  sv_auth := update_rows (\<lambda>t. tn_active t = Some i) (\<lambda>t. t\<lparr>tn_active := None\<rparr>) (sv_auth db1),
                  sv_log := filter (\<lambda>e. in_ws e \<noteq> i) (sv_log db1)\<rparr>)))"

datatype soft_err = SoftDb db_err | NoRows

definition SoftDeleteWorkspace :: "bool \<Rightarrow> time \<Rightarrow> srv_db \<Rightarrow> string \<Rightarrow> soft_err option \<times> srv_db" where
  "SoftDeleteWorkspace up now db i =
     (let P = (\<lambda>r. ws_id r = i \<and> ws_deleted r = None) in
      if \<not> up then (Some (SoftDb DbDown), db)
      else if \<not> list_ex P (sv_workspaces db) then (Some NoRows, db)
      else (None, db\<lparr>sv_workspaces := update_rows P
              (\<lambda>r. r\<lparr>ws_deleted := Some now, ws_updated := now\<rparr>) (sv_workspaces db)\<rparr>))"

definition UpdateWorkspaceName :: "bool \<Rightarrow> time \<Rightarrow> srv_db \<Rightarrow> string \<Rightarrow> string \<Rightarrow> db_err option \<times> srv_db" where
  "UpdateWorkspaceName up now db i name =
     (if \<not> up then (Some DbDown, db)
      else (None, db\<lparr>sv_workspaces := update_rows (\<lambda>r. ws_id r = i \<and> ws_deleted r = None)
              (\<lambda>r. r\<lparr>ws_name := name, ws_updated := now\<rparr>) (sv_workspaces db)\<rparr>))"

definition SetWorkspaceNamespace :: "bool \<Rightarrow> time \<Rightarrow> srv_db \<Rightarrow> string \<Rightarrow> string \<Rightarrow> db_err option \<times> srv_db" where
  "SetWorkspaceNamespace up now db i ns =
     (if \<not> up then (Some DbDown, db)
      else (None, db\<lparr>sv_workspaces := update_rows (\<lambda>r. ws_id r = i \<and> ws_deleted r = None)
              (\<lambda>r. r\<lparr>ws_namespace := Some ns, ws_updated := now\<rparr>) (sv_workspaces db)\<rparr>))"

definition ValidRoutingStrategies :: "string list" where
  "ValidRoutingStrategies = [''shared'', ''per_agent'', ''hybrid'']"

datatype routing_err = RoutingDb db_err | InvalidStrategy string

definition UpdateWorkspaceRoutingStrategy ::
  "bool \<Rightarrow> time \<Rightarrow> srv_db \<Rightarrow> string \<Rightarrow> string \<Rightarrow> routing_err option \<times> srv_db" where
  "UpdateWorkspaceRoutingStrategy up now db i strategy =
     (if strategy \<notin> set ValidRoutingStrategies then (Some (InvalidStrategy strategy), db)
      else if \<not> up then (Some (RoutingDb DbDown), db)
      else (None, db\<lparr>sv_workspaces := update_rows (\<lambda>r. ws_id r = i \<and> ws_deleted r = None)
              (\<lambda>r. r\<lparr>ws_routing := Some strategy, ws_updated := now\<rparr>) (sv_workspaces db)\<rparr>))"

definition ListAllWorkspaces :: "bool \<Rightarrow> srv_db \<Rightarrow> db_err + Workspace list" where
  "ListAllWorkspaces up db =
     (if \<not> up then Inl DbDown
      else Inr (map scan_workspace
             (sort_key ws_created (filter (\<lambda>r. ws_deleted r = None) (sv_workspaces db)))))"

definition ListWorkspacesWithoutNamespace :: "bool \<Rightarrow> srv_db \<Rightarrow> db_err + Workspace list" where
  "ListWorkspacesWithoutNamespace up db =
     (if \<not> up then Inl DbDown
      else Inr (map scan_workspace
             (filter (\<lambda>r. ws_namespace r \<in> {None, Some []} \<and> ws_deleted r = None) (sv_workspaces db))))"

definition GetAllWorkspaceNamespaces :: "bool \<Rightarrow> srv_db \<Rightarrow> db_err + string list" where
  "GetAllWorkspaceNamespaces up db =
     (if \<not> up then Inl DbDown
      else Inr (remdups (map (\<lambda>r. the (ws_namespace r))
             (filter (\<lambda>r. ws_namespace r \<notin> {None, Some []} \<and> ws_deleted r = None) (sv_workspaces db)))))"

text \<open>\<open>DeleteWorkspaceDrafts\<close>: statements 0 the skill drafts, 1 the soul drafts.\<close>

definition DeleteWorkspaceDrafts :: "(nat \<Rightarrow> bool) \<Rightarrow> srv_db \<Rightarrow> string \<Rightarrow> db_err option \<times> srv_db" where
  "DeleteWorkspaceDrafts up db w =
     (if \<not> up 0 then (Some DbDown, db)
      else (let db1 = db\<lparr>sv_skill_drafts := filter (\<lambda>d. snd d \<noteq> w) (sv_skill_drafts db)\<rparr> in
        if \<not> up 1 then (Some DbDown, db1)
        else (None, db1\<lparr>sv_soul_drafts := filter (\<lambda>d. snd d \<noteq> w) (sv_soul_drafts db1)\<rparr>)))"

text \<open>\<open>ClearActiveWorkspace\<close> (\<open>tokens.go\<close>).\<close>

definition ClearActiveWorkspace :: "bool \<Rightarrow> srv_db \<Rightarrow> string \<Rightarrow> db_err option \<times> srv_db" where
  "ClearActiveWorkspace up db w =
     (if \<not> up then (Some DbDown, db)
      else (None, db\<lparr>sv_auth := update_rows (\<lambda>t. tn_active t = Some w) (\<lambda>t. t\<lparr>tn_active := None\<rparr>) (sv_auth db)\<rparr>))"

section \<open>Members\<close>

definition AddWorkspaceMember ::
  "bool \<Rightarrow> time \<Rightarrow> srv_db \<Rightarrow> string \<Rightarrow> string \<Rightarrow> string \<Rightarrow> db_err option \<times> srv_db" where
  "AddWorkspaceMember up now db w user role =
     (if \<not> up then (Some DbDown, db)
      else if list_ex (\<lambda>m. me_ws m = w \<and> me_user m = user) (sv_members db) then (Some DuplicateKey, db)
      else if \<not> has_workspace db w \<or> \<not> has_user db user then (Some ForeignKey, db)
      else (None, db\<lparr>sv_members := sv_members db @
              [\<lparr>me_ws = w, me_user = user, me_role = role, me_created = now\<rparr>]\<rparr>))"

definition RemoveWorkspaceMember :: "bool \<Rightarrow> srv_db \<Rightarrow> string \<Rightarrow> string \<Rightarrow> db_err option \<times> srv_db" where
  "RemoveWorkspaceMember up db w user =
     (if \<not> up then (Some DbDown, db)
      else (None, db\<lparr>sv_members := filter (\<lambda>m. \<not> (me_ws m = w \<and> me_user m = user)) (sv_members db)\<rparr>))"

definition UpdateWorkspaceMemberRole ::
  "bool \<Rightarrow> srv_db \<Rightarrow> string \<Rightarrow> string \<Rightarrow> string \<Rightarrow> db_err option \<times> srv_db" where
  "UpdateWorkspaceMemberRole up db w user role =
     (if \<not> up then (Some DbDown, db)
      else (None, db\<lparr>sv_members := update_rows (\<lambda>m. me_ws m = w \<and> me_user m = user)
              (\<lambda>m. m\<lparr>me_role := role\<rparr>) (sv_members db)\<rparr>))"

definition GetWorkspaceMember :: "bool \<Rightarrow> srv_db \<Rightarrow> string \<Rightarrow> string \<Rightarrow> db_err + WorkspaceMember option" where
  "GetWorkspaceMember up db w user =
     (if \<not> up then Inl DbDown
      else Inr (find (\<lambda>m. me_ws m = w \<and> me_user m = user) (sv_members db)))"

definition ListWorkspaceMembers :: "bool \<Rightarrow> srv_db \<Rightarrow> string \<Rightarrow> db_err + WorkspaceMember list" where
  "ListWorkspaceMembers up db w =
     (if \<not> up then Inl DbDown
      else Inr (sort_key me_created (filter (\<lambda>m. me_ws m = w) (sv_members db))))"

definition IsWorkspaceMember :: "bool \<Rightarrow> srv_db \<Rightarrow> string \<Rightarrow> string \<Rightarrow> db_err + bool" where
  "IsWorkspaceMember up db w user =
     (if \<not> up then Inl DbDown
      else Inr (list_ex (\<lambda>m. me_ws m = w \<and> me_user m = user) (sv_members db)))"

text \<open>\<open>Inr []\<close> is the empty role of a user who is not a member.\<close>

definition GetWorkspaceMemberRole :: "bool \<Rightarrow> srv_db \<Rightarrow> string \<Rightarrow> string \<Rightarrow> db_err + string" where
  "GetWorkspaceMemberRole up db w user =
     (if \<not> up then Inl DbDown
      else Inr (case find (\<lambda>m. me_ws m = w \<and> me_user m = user) (sv_members db) of
                  Some m \<Rightarrow> me_role m | None \<Rightarrow> []))"

definition ListWorkspacesByUser :: "bool \<Rightarrow> srv_db \<Rightarrow> string \<Rightarrow> db_err + Workspace list" where
  "ListWorkspacesByUser up db user =
     (if \<not> up then Inl DbDown
      else Inr (map scan_workspace (sort_key ws_created
             (filter (\<lambda>r. ws_deleted r = None \<and>
                list_ex (\<lambda>m. me_ws m = ws_id r \<and> me_user m = user) (sv_members db)) (sv_workspaces db)))))"

end
