(* ===== verification/Sandbox_Store.thy ===== *)
theory Sandbox_Store
  imports Server_Store Go_Encoding
begin

text \<open>
  The statements on sandboxes, registration codes, proxy tokens and quotas
  (\<open>internal/db/sandboxes.go\<close>, \<open>proxy_tokens.go\<close>, \<open>quotas.go\<close>), the store the handlers use
  (\<open>internal/sbxstore/store.go\<close>), and the status graph (\<open>state.go\<close>).
\<close>

section \<open>Creating sandboxes\<close>

text \<open>\<open>LOWER\<close> on the ASCII letters; short identifiers have no others.\<close>

definition lower :: "string \<Rightarrow> string" where
  "lower s = map (\<lambda>c. if 65 \<le> byte c \<and> byte c \<le> 90 then char_of (byte c + 32) else c) s"

text \<open>The primary key, and the unique index on the short identifier.\<close>

definition sandbox_clash :: "srv_db \<Rightarrow> string \<Rightarrow> string option \<Rightarrow> bool" where
  "sandbox_clash db i short \<longleftrightarrow>
     list_ex (\<lambda>r. sb_id r = i \<or> (case (sb_short r, short) of
        (Some a, Some b) \<Rightarrow> lower a = lower b | _ \<Rightarrow> False)) (sv_sandboxes db)"

definition insert_sandbox :: "srv_db \<Rightarrow> sbx_row \<Rightarrow> db_err + srv_db" where
  "insert_sandbox db r =
     (if sandbox_clash db (sb_id r) (sb_short r) then Inl DuplicateKey
      else if \<not> has_workspace db (sb_ws r) then Inl ForeignKey
      else Inr (db\<lparr>sv_sandboxes := sv_sandboxes db @ [r]\<rparr>))"

text \<open>\<open>ON CONFLICT (token) DO NOTHING\<close>, skipped for the empty token.\<close>

definition insert_sandbox_token :: "srv_db \<Rightarrow> string \<Rightarrow> string \<Rightarrow> string \<Rightarrow> srv_db" where
  "insert_sandbox_token db tok sandboxID w =
     (if tok = [] \<or> list_ex (\<lambda>t. pt_token t = tok) (sv_tokens db) then db
      else db\<lparr>sv_tokens := sv_tokens db @
             [\<lparr>pt_token = tok, pt_scope = ProxyTokenSandbox sandboxID, pt_ws = w\<rparr>]\<rparr>)"

record new_sandbox =
  ns_id :: string
  ns_ws :: string
  ns_name :: string
  ns_type :: string
  ns_sandbox :: string
  ns_opencode :: string
  ns_proxy :: string
  ns_openclaw :: string
  ns_short :: string
  ns_cpu :: int
  ns_memory :: int
  ns_idle :: "int option"
  ns_meta :: string

text \<open>
  \<open>CreateSandbox\<close> is one transaction; its statements are 0 the begin, 1 the insertion of the
  row, 2 that of the token, 3 the commit.
\<close>

definition CreateSandbox ::
  "(nat \<Rightarrow> bool) \<Rightarrow> time \<Rightarrow> srv_db \<Rightarrow> new_sandbox \<Rightarrow> db_err option \<times> srv_db" where
  "CreateSandbox up now db n =
     (let metadata = (if ns_meta n = [] then ''{}'' else ns_meta n) in
      if \<not> up 0 \<or> \<not> up 1 then (Some DbDown, db)
      else (case insert_sandbox db
               \<lparr>sb_id = ns_id n, sb_ws = ns_ws n, sb_name = ns_name n, sb_type = ns_type n,
                sb_status = StatusCreating, sb_local = False, sb_short = nullif_empty (ns_short n),
                sb_sandbox = Some (ns_sandbox n), sb_pod = None, sb_proxy = Some (ns_proxy n),
                sb_opencode = nullif_empty (ns_opencode n), sb_openclaw = nullif_empty (ns_openclaw n),
                sb_tunnel = None, sb_nanoclaw = None, sb_active = Some now, sb_created = now,
                sb_paused = None, sb_beat = None, sb_cpu = Some (ns_cpu n),
                sb_memory = Some (ns_memory n), sb_idle = ns_idle n, sb_meta = metadata\<rparr> of
          Inl e \<Rightarrow> (Some e, db)
        | Inr db1 \<Rightarrow>
            if (ns_proxy n \<noteq> [] \<and> \<not> up 2) \<or> \<not> up 3 then (Some DbDown, db)
            else (None, insert_sandbox_token db1 (ns_proxy n) (ns_id n) (ns_ws n))))"

definition CreateLocalSandbox ::
  "(nat \<Rightarrow> bool) \<Rightarrow> time \<Rightarrow> srv_db \<Rightarrow> string \<Rightarrow> string \<Rightarrow> string \<Rightarrow> string \<Rightarrow> string \<Rightarrow> string \<Rightarrow> string \<Rightarrow>
     string \<Rightarrow> db_err option \<times> srv_db" where
  "CreateLocalSandbox up now db i w name ty opencode proxy tunnel short =
     (if \<not> up 0 \<or> \<not> up 1 then (Some DbDown, db)
      else (case insert_sandbox db
               \<lparr>sb_id = i, sb_ws = w, sb_name = name, sb_type = ty, sb_status = StatusRunning,
                sb_local = True, sb_short = nullif_empty short, sb_sandbox = None, sb_pod = None,
                sb_proxy = Some proxy, sb_opencode = Some opencode, sb_openclaw = None,
                sb_tunnel = Some tunnel, sb_nanoclaw = None, sb_active = Some now,
                sb_created = now, sb_paused = None, sb_beat = Some now, sb_cpu = None,
                sb_memory = None, sb_idle = None, sb_meta = ''{}''\<rparr> of
          Inl e \<Rightarrow> (Some e, db)
        | Inr db1 \<Rightarrow>
            if (proxy \<noteq> [] \<and> \<not> up 2) \<or> \<not> up 3 then (Some DbDown, db)
            else (None, insert_sandbox_token db1 proxy i w)))"

section \<open>Reading sandboxes\<close>

definition GetSandbox :: "bool \<Rightarrow> srv_db \<Rightarrow> string \<Rightarrow> db_err + sbx_row option" where
  "GetSandbox up db i =
     (if \<not> up then Inl DbDown else Inr (find (\<lambda>r. sb_id r = i) (sv_sandboxes db)))"

definition GetSandboxByShortID :: "bool \<Rightarrow> srv_db \<Rightarrow> string \<Rightarrow> db_err + sbx_row option" where
  "GetSandboxByShortID up db short =
     (if \<not> up then Inl DbDown
      else Inr (find (\<lambda>r. case sb_short r of Some s \<Rightarrow> lower s = lower short | None \<Rightarrow> False)
                  (sv_sandboxes db)))"

definition ListSandboxesByWorkspace :: "bool \<Rightarrow> srv_db \<Rightarrow> string \<Rightarrow> db_err + sbx_row list" where
  "ListSandboxesByWorkspace up db w =
     (if \<not> up then Inl DbDown
      else Inr (sort_key sb_created (filter (\<lambda>r. sb_ws r = w) (sv_sandboxes db))))"

definition ListAllSandboxes :: "bool \<Rightarrow> srv_db \<Rightarrow> db_err + sbx_row list" where
  "ListAllSandboxes up db =
     (if \<not> up then Inl DbDown else Inr (sort_key sb_created (sv_sandboxes db)))"

definition ListAllActiveSandboxNames :: "bool \<Rightarrow> srv_db \<Rightarrow> db_err + string list" where
  "ListAllActiveSandboxNames up db =
     (if \<not> up then Inl DbDown
      else Inr (List.map_filter (\<lambda>r. if sb_status r = StatusDeleting then None else sb_sandbox r)
                  (sv_sandboxes db)))"

text \<open>\<open>ListIdleSandboxes\<close>; a row without a last activity is never idle.\<close>

definition idle_row :: "time \<Rightarrow> int \<Rightarrow> sbx_row \<Rightarrow> bool" where
  "idle_row now deflt r \<longleftrightarrow>
     (let t = (case sb_idle r of Some n \<Rightarrow> n | None \<Rightarrow> deflt) in
      sb_status r = StatusRunning \<and> \<not> sb_local r \<and> t > 0 \<and>
      (case sb_active r of Some a \<Rightarrow> a < now - t * 1000000000 | None \<Rightarrow> False))"

definition ListIdleSandboxes :: "bool \<Rightarrow> time \<Rightarrow> srv_db \<Rightarrow> int \<Rightarrow> db_err + sbx_row list" where
  "ListIdleSandboxes up now db deflt =
     (if \<not> up then Inl DbDown else Inr (filter (idle_row now deflt) (sv_sandboxes db)))"

definition GetSandboxByProxyToken :: "bool \<Rightarrow> srv_db \<Rightarrow> string \<Rightarrow> db_err + sbx_row option" where
  "GetSandboxByProxyToken up db tok =
     (if \<not> up then Inl DbDown else Inr (find (\<lambda>r. sb_proxy r = Some tok) (sv_sandboxes db)))"

definition GetSandboxByAnyToken :: "(nat \<Rightarrow> bool) \<Rightarrow> srv_db \<Rightarrow> string \<Rightarrow> db_err + sbx_row option" where
  "GetSandboxByAnyToken up db tok =
     (case GetSandboxByProxyToken (up 0) db tok of
        Inl e \<Rightarrow> Inl e
      | Inr (Some s) \<Rightarrow> Inr (Some s)
      | Inr None \<Rightarrow>
          if \<not> up 1 then Inl DbDown
          else Inr (find (\<lambda>r. sb_tunnel r = Some tok) (sv_sandboxes db)))"

definition GetSandboxByTunnelToken :: "bool \<Rightarrow> srv_db \<Rightarrow> string \<Rightarrow> string \<Rightarrow> db_err + sbx_row option" where
  "GetSandboxByTunnelToken up db i tok =
     (if \<not> up then Inl DbDown
      else Inr (find (\<lambda>r. sb_id r = i \<and> sb_tunnel r = Some tok \<and> sb_local r) (sv_sandboxes db)))"

section \<open>Changing sandboxes\<close>

definition update_sandbox :: "bool \<Rightarrow> srv_db \<Rightarrow> string \<Rightarrow> (sbx_row \<Rightarrow> sbx_row) \<Rightarrow> db_err option \<times> srv_db" where
  "update_sandbox up db i f =
     (if \<not> up then (Some DbDown, db)
      else (None, db\<lparr>sv_sandboxes := update_rows (\<lambda>r. sb_id r = i) f (sv_sandboxes db)\<rparr>))"

definition DeleteSandbox :: "bool \<Rightarrow> srv_db \<Rightarrow> string \<Rightarrow> db_err option \<times> srv_db" where
  "DeleteSandbox up db i =
     (if \<not> up then (Some DbDown, db) else (None, drop_sandboxes (\<lambda>r. sb_id r = i) db))"

definition UpdateSandboxName :: "bool \<Rightarrow> srv_db \<Rightarrow> string \<Rightarrow> string \<Rightarrow> db_err option \<times> srv_db" where
  "UpdateSandboxName up db i name = update_sandbox up db i (\<lambda>r. r\<lparr>sb_name := name\<rparr>)"

definition UpdateSandboxStatus ::
  "bool \<Rightarrow> time \<Rightarrow> srv_db \<Rightarrow> string \<Rightarrow> sbx_status \<Rightarrow> db_err option \<times> srv_db" where
  "UpdateSandboxStatus up now db i st =
     update_sandbox up db i
       (\<lambda>r. case st of
          StatusPaused \<Rightarrow> r\<lparr>sb_status := st, sb_paused := Some now\<rparr>
        | StatusRunning \<Rightarrow> r\<lparr>sb_status := st, sb_paused := None\<rparr>
        | _ \<Rightarrow> r\<lparr>sb_status := st\<rparr>)"

definition UpdateSandboxActivity :: "bool \<Rightarrow> time \<Rightarrow> srv_db \<Rightarrow> string \<Rightarrow> db_err option \<times> srv_db" where
  "UpdateSandboxActivity up now db i = update_sandbox up db i (\<lambda>r. r\<lparr>sb_active := Some now\<rparr>)"

definition UpdateSandboxPodIP :: "bool \<Rightarrow> srv_db \<Rightarrow> string \<Rightarrow> string \<Rightarrow> db_err option \<times> srv_db" where
  "UpdateSandboxPodIP up db i podIP =
     (if podIP = [] then update_sandbox up db i (\<lambda>r. r\<lparr>sb_pod := None\<rparr>)
      else update_sandbox up db i (\<lambda>r. r\<lparr>sb_pod := Some podIP\<rparr>))"

definition UpdateSandboxSandboxName :: "bool \<Rightarrow> srv_db \<Rightarrow> string \<Rightarrow> string \<Rightarrow> db_err option \<times> srv_db" where
  "UpdateSandboxSandboxName up db i name = update_sandbox up db i (\<lambda>r. r\<lparr>sb_sandbox := Some name\<rparr>)"

definition UpdateSandboxHeartbeat :: "bool \<Rightarrow> time \<Rightarrow> srv_db \<Rightarrow> string \<Rightarrow> db_err option \<times> srv_db" where
  "UpdateSandboxHeartbeat up now db i = update_sandbox up db i (\<lambda>r. r\<lparr>sb_beat := Some now\<rparr>)"

definition UpdateSandboxNanoclawBridgeSecret ::
  "bool \<Rightarrow> srv_db \<Rightarrow> string \<Rightarrow> string \<Rightarrow> db_err option \<times> srv_db" where
  "UpdateSandboxNanoclawBridgeSecret up db i secret =
     update_sandbox up db i (\<lambda>r. r\<lparr>sb_nanoclaw := Some secret\<rparr>)"

text \<open>\<open>CreateSandboxComposition\<close> (\<open>playground.go\<close>).\<close>

definition CreateSandboxComposition ::
  "bool \<Rightarrow> srv_db \<Rightarrow> string \<Rightarrow> string \<Rightarrow> string list \<Rightarrow> string \<Rightarrow> bool \<Rightarrow> db_err option \<times> srv_db" where
  "CreateSandboxComposition up db i soul skills config track =
     (if \<not> up then (Some DbDown, db)
      else if sv_compositions db i \<noteq> None then (Some DuplicateKey, db)
      else if \<not> has_sandbox db i then (Some ForeignKey, db)
      else (None, db\<lparr>sv_compositions := (sv_compositions db)(i \<mapsto>
              \<lparr>co_soul = nullif_empty soul, co_skills = skills, co_config = config, co_track = track\<rparr>)\<rparr>))"

section \<open>Registration codes\<close>

definition CreateAgentRegistrationCode ::
  "bool \<Rightarrow> time \<Rightarrow> srv_db \<Rightarrow> string \<Rightarrow> string \<Rightarrow> string \<Rightarrow> time \<Rightarrow> db_err option \<times> srv_db" where
  "CreateAgentRegistrationCode up now db code user w expiresAt =
     (if \<not> up then (Some DbDown, db)
      else if list_ex (\<lambda>c. rc_code c = code) (sv_codes db) then (Some DuplicateKey, db)
      else if \<not> has_workspace db w \<or> \<not> has_user db user then (Some ForeignKey, db)
      else (None, db\<lparr>sv_codes := sv_codes db @
              [\<lparr>rc_code = code, rc_user = user, rc_ws = w, rc_made = now, rc_expiry = expiresAt,
                rc_used = False\<rparr>]\<rparr>))"

definition ConsumeAgentRegistrationCode ::
  "bool \<Rightarrow> time \<Rightarrow> srv_db \<Rightarrow> string \<Rightarrow> (db_err + AgentRegistrationCode option) \<times> srv_db" where
  "ConsumeAgentRegistrationCode up now db code =
     (let P = (\<lambda>c. rc_code c = code \<and> \<not> rc_used c \<and> now < rc_expiry c);
          f = (\<lambda>c. c\<lparr>rc_used := True\<rparr>) in
      if \<not> up then (Inl DbDown, db)
      else (Inr (map_option f (find P (sv_codes db))), db\<lparr>sv_codes := update_rows P f (sv_codes db)\<rparr>))"

section \<open>Proxy tokens (\<open>proxy_tokens.go\<close>)\<close>

definition GetProxyToken :: "bool \<Rightarrow> srv_db \<Rightarrow> string \<Rightarrow> db_err + ProxyToken option" where
  "GetProxyToken up db tok =
     (if \<not> up then Inl DbDown else Inr (find (\<lambda>t. pt_token t = tok) (sv_tokens db)))"

definition CreateSandboxProxyToken ::
  "bool \<Rightarrow> srv_db \<Rightarrow> string \<Rightarrow> string \<Rightarrow> string \<Rightarrow> db_err option \<times> srv_db" where
  "CreateSandboxProxyToken up db tok sandboxID w =
     (if tok = [] then (None, db)
      else if \<not> up then (Some DbDown, db)
      else if list_ex (\<lambda>t. pt_token t = tok) (sv_tokens db) then (None, db)
      else if \<not> has_sandbox db sandboxID \<or> \<not> has_workspace db w then (Some ForeignKey, db)
      else (None, insert_sandbox_token db tok sandboxID w))"

definition workspace_token :: "srv_db \<Rightarrow> string \<Rightarrow> ProxyToken option" where
  "workspace_token db w = find (\<lambda>t. pt_ws t = w \<and> pt_scope t = ProxyTokenWorkspace) (sv_tokens db)"

text \<open>
  \<open>GetOrCreateWorkspaceToken\<close>: statements 0 lookup, 1 insertion, 2 second lookup.  Between
  the first two another caller may act: \<open>other\<close> is what it does to the database.  The
  conflict clause names the unique index on workspaces only, so a token that is already in
  the table violates the primary key.
\<close>

datatype token_err = TokenDb db_err | RandomFailed | TokenVanished

definition GetOrCreateWorkspaceToken ::
  "(nat \<Rightarrow> bool) \<Rightarrow> (srv_db \<Rightarrow> srv_db) \<Rightarrow> string option \<Rightarrow> srv_db \<Rightarrow> string \<Rightarrow> (token_err + string) \<times> srv_db" where
  "GetOrCreateWorkspaceToken up other fresh db w =
     (if \<not> up 0 then (Inl (TokenDb DbDown), db)
      else (case workspace_token db w of
          Some t \<Rightarrow> (Inr (pt_token t), db)
        | None \<Rightarrow>
            (case fresh of
               None \<Rightarrow> (Inl RandomFailed, db)
             | Some tok \<Rightarrow>
                 (let db1 = other db in
                  if \<not> up 1 then (Inl (TokenDb DbDown), db1)
                  else if workspace_token db1 w = None \<and> list_ex (\<lambda>t. pt_token t = tok) (sv_tokens db1)
                  then (Inl (TokenDb DuplicateKey), db1)
                  else if workspace_token db1 w = None \<and> \<not> has_workspace db1 w
                  then (Inl (TokenDb ForeignKey), db1)
                  else (let db2 = (if workspace_token db1 w \<noteq> None then db1
                             else db1\<lparr>sv_tokens := sv_tokens db1 @
                               [\<lparr>pt_token = tok, pt_scope = ProxyTokenWorkspace, pt_ws = w\<rparr>]\<rparr>) in
                    if \<not> up 2 then (Inl (TokenDb DbDown), db2)
                    else (case workspace_token db2 w of
                        Some t \<Rightarrow> (Inr (pt_token t), db2)
                      | None \<Rightarrow> (Inl TokenVanished, db2)))))))"

section \<open>Settings and quotas (\<open>quotas.go\<close>)\<close>

definition GetSystemSetting :: "bool \<Rightarrow> srv_db \<Rightarrow> string \<Rightarrow> db_err + string" where
  "GetSystemSetting up db k =
     (if \<not> up then Inl DbDown else Inr (case sv_settings db k of Some v \<Rightarrow> v | None \<Rightarrow> []))"

definition SetSystemSetting :: "bool \<Rightarrow> srv_db \<Rightarrow> string \<Rightarrow> string \<Rightarrow> db_err option \<times> srv_db" where
  "SetSystemSetting up db k v =
     (if \<not> up then (Some DbDown, db) else (None, db\<lparr>sv_settings := (sv_settings db)(k \<mapsto> v)\<rparr>))"

definition GetUserQuota :: "bool \<Rightarrow> srv_db \<Rightarrow> string \<Rightarrow> db_err + int option option" where
  "GetUserQuota up db user = (if \<not> up then Inl DbDown else Inr (sv_user_quotas db user))"

definition SetUserQuota :: "bool \<Rightarrow> srv_db \<Rightarrow> string \<Rightarrow> int option \<Rightarrow> db_err option \<times> srv_db" where
  "SetUserQuota up db user n =
     (if \<not> up then (Some DbDown, db)
      else if \<not> has_user db user then (Some ForeignKey, db)
      else (None, db\<lparr>sv_user_quotas := (sv_user_quotas db)(user \<mapsto> n)\<rparr>))"

definition DeleteUserQuota :: "bool \<Rightarrow> srv_db \<Rightarrow> string \<Rightarrow> db_err option \<times> srv_db" where
  "DeleteUserQuota up db user =
     (if \<not> up then (Some DbDown, db)
      else (None, db\<lparr>sv_user_quotas := (sv_user_quotas db)(user := None)\<rparr>))"

definition CountWorkspacesOwnedByUser :: "bool \<Rightarrow> srv_db \<Rightarrow> string \<Rightarrow> db_err + int" where
  "CountWorkspacesOwnedByUser up db user =
     (if \<not> up then Inl DbDown
      else Inr (int (length (filter (\<lambda>m. me_user m = user \<and> me_role m = ''owner'') (sv_members db)))))"

definition CountSandboxesByWorkspace :: "bool \<Rightarrow> srv_db \<Rightarrow> string \<Rightarrow> db_err + int" where
  "CountSandboxesByWorkspace up db w =
     (if \<not> up then Inl DbDown
      else Inr (int (length (filter (\<lambda>r. sb_ws r = w) (sv_sandboxes db)))))"

definition SumWorkspaceSandboxResources :: "bool \<Rightarrow> srv_db \<Rightarrow> string \<Rightarrow> db_err + int \<times> int" where
  "SumWorkspaceSandboxResources up db w =
     (let rs = filter (\<lambda>r. sb_ws r = w \<and> sb_status r \<noteq> StatusOffline) (sv_sandboxes db);
          total = (\<lambda>f. sum_list (map (\<lambda>r. case f r of Some n \<Rightarrow> n | None \<Rightarrow> 0) rs)) in
      if \<not> up then Inl DbDown else Inr (total sb_cpu, total sb_memory))"

definition GetWorkspaceQuota :: "bool \<Rightarrow> srv_db \<Rightarrow> string \<Rightarrow> db_err + WorkspaceQuota option" where
  "GetWorkspaceQuota up db w = (if \<not> up then Inl DbDown else Inr (sv_quotas db w))"

definition SetWorkspaceQuota :: "bool \<Rightarrow> srv_db \<Rightarrow> string \<Rightarrow> WorkspaceQuota \<Rightarrow> db_err option \<times> srv_db" where
  "SetWorkspaceQuota up db w q =
     (if \<not> up then (Some DbDown, db)
      else if \<not> has_workspace db w then (Some ForeignKey, db)
      else (None, db\<lparr>sv_quotas := (sv_quotas db)(w \<mapsto> q)\<rparr>))"

definition DeleteWorkspaceQuota :: "bool \<Rightarrow> srv_db \<Rightarrow> string \<Rightarrow> db_err option \<times> srv_db" where
  "DeleteWorkspaceQuota up db w =
     (if \<not> up then (Some DbDown, db) else (None, db\<lparr>sv_quotas := (sv_quotas db)(w := None)\<rparr>))"

section \<open>The sandbox store (\<open>sbxstore\<close>)\<close>

text \<open>\<open>ValidTransition\<close>, the graph of \<open>state.go\<close>.\<close>

definition ValidTransition :: "sbx_status \<Rightarrow> sbx_status \<Rightarrow> bool" where
  "ValidTransition from_st to_st =
     (case from_st of
        StatusCreating \<Rightarrow> to_st = StatusRunning \<or> to_st = StatusDeleting
      | StatusRunning \<Rightarrow> to_st = StatusPausing \<or> to_st = StatusDeleting \<or> to_st = StatusOffline
      | StatusPausing \<Rightarrow> to_st = StatusPaused
      | StatusPaused \<Rightarrow> to_st = StatusResuming \<or> to_st = StatusDeleting
      | StatusResuming \<Rightarrow> to_st = StatusRunning
      | StatusOffline \<Rightarrow> to_st = StatusRunning \<or> to_st = StatusDeleting
      | StatusDeleting \<Rightarrow> False)"

record Sandbox =
  x_id :: string
  x_short :: string
  x_ws :: string
  x_name :: string
  x_type :: string
  x_status :: sbx_status
  x_sandbox :: string
  x_pod :: string
  x_proxy :: string
  x_opencode :: string
  x_openclaw :: string
  x_nanoclaw :: string
  x_tunnel :: string
  x_created :: time
  x_active :: "time option"
  x_paused :: "time option"
  x_local :: bool
  x_beat :: "time option"
  x_cpu :: int
  x_memory :: int
  x_idle :: "int option"
  x_meta :: string

text \<open>The metadata stay the JSON text of the row; decoding them is the codec's.\<close>

definition dbSandboxToSandbox :: "sbx_row \<Rightarrow> Sandbox" where
  "dbSandboxToSandbox r =
     \<lparr>x_id = sb_id r, x_short = coalesce (sb_short r), x_ws = sb_ws r, x_name = sb_name r,
      x_type = sb_type r, x_status = sb_status r, x_sandbox = coalesce (sb_sandbox r),
      x_pod = coalesce (sb_pod r), x_proxy = coalesce (sb_proxy r),
      x_opencode = coalesce (sb_opencode r), x_openclaw = coalesce (sb_openclaw r),
      x_nanoclaw = coalesce (sb_nanoclaw r), x_tunnel = coalesce (sb_tunnel r),
      x_created = sb_created r, x_active = sb_active r, x_paused = sb_paused r,
      x_local = sb_local r, x_beat = sb_beat r,
      x_cpu = (case sb_cpu r of Some n \<Rightarrow> n | None \<Rightarrow> 0),
      x_memory = (case sb_memory r of Some n \<Rightarrow> n | None \<Rightarrow> 0), x_idle = sb_idle r,
      x_meta = sb_meta r\<rparr>"

definition store_Create ::
  "(nat \<Rightarrow> bool) \<Rightarrow> time \<Rightarrow> srv_db \<Rightarrow> new_sandbox \<Rightarrow> (db_err + Sandbox) \<times> srv_db" where
  "store_Create up now db n =
     (case CreateSandbox up now db n of
        (Some e, db1) \<Rightarrow> (Inl e, db1)
      | (None, db1) \<Rightarrow>
          (Inr \<lparr>x_id = ns_id n, x_short = ns_short n, x_ws = ns_ws n, x_name = ns_name n,
                x_type = ns_type n, x_status = StatusCreating, x_sandbox = ns_sandbox n, x_pod = [],
                x_proxy = ns_proxy n, x_opencode = ns_opencode n, x_openclaw = ns_openclaw n,
                x_nanoclaw = [], x_tunnel = [], x_created = now, x_active = Some now,
                x_paused = None, x_local = False, x_beat = None, x_cpu = ns_cpu n,
                x_memory = ns_memory n, x_idle = ns_idle n, x_meta = ns_meta n\<rparr>, db1))"

definition sbx_Get :: "bool \<Rightarrow> srv_db \<Rightarrow> string \<Rightarrow> Sandbox option" where
  "sbx_Get up db i =
     (case GetSandbox up db i of Inr (Some r) \<Rightarrow> Some (dbSandboxToSandbox r) | _ \<Rightarrow> None)"

definition GetPodIP :: "bool \<Rightarrow> srv_db \<Rightarrow> string \<Rightarrow> string" where
  "GetPodIP up db i = (case sbx_Get up db i of Some s \<Rightarrow> x_pod s | None \<Rightarrow> [])"

definition GetByShortID :: "bool \<Rightarrow> srv_db \<Rightarrow> string \<Rightarrow> Sandbox option" where
  "GetByShortID up db short =
     (case GetSandboxByShortID up db short of Inr (Some r) \<Rightarrow> Some (dbSandboxToSandbox r) | _ \<Rightarrow> None)"

definition sbx_Resolve :: "(nat \<Rightarrow> bool) \<Rightarrow> srv_db \<Rightarrow> string \<Rightarrow> Sandbox option" where
  "sbx_Resolve up db k =
     (if length k \<le> 20
      then (case GetByShortID (up 0) db k of Some s \<Rightarrow> Some s | None \<Rightarrow> sbx_Get (up 1) db k)
      else (case sbx_Get (up 0) db k of Some s \<Rightarrow> Some s | None \<Rightarrow> GetByShortID (up 1) db k))"

definition ListByWorkspace :: "bool \<Rightarrow> srv_db \<Rightarrow> string \<Rightarrow> Sandbox list" where
  "ListByWorkspace up db w =
     (case ListSandboxesByWorkspace up db w of Inl _ \<Rightarrow> [] | Inr rs \<Rightarrow> map dbSandboxToSandbox rs)"

end
