(* ===== verification/Quotas.thy ===== *)
theory Quotas
  imports Sandbox_Store
begin

text \<open>
  Limits and their enforcement (\<open>internal/server/quota.go\<close>): the three layers that resolve a
  limit, the overrides per workspace and per user, and the checks on the number of
  workspaces, the number of sandboxes and the resources of a workspace.

  Two parsers of the standard library are parameters: \<open>flt s k\<close> is \<open>strconv.ParseFloat\<close> followed
  by the multiplication with \<open>k\<close> and the truncation to an integer, \<open>dur s\<close> is
  \<open>time.ParseDuration\<close> in whole seconds; \<open>None\<close> is the error.  \<open>env\<close> is \<open>os.Getenv\<close>.
\<close>

section \<open>Parsers\<close>

definition parseResourceInt :: "string \<Rightarrow> int \<Rightarrow> (string \<Rightarrow> int) \<Rightarrow> int" where
  "parseResourceInt s fallback legacy =
     (case ParseInt s of
        Some n \<Rightarrow> n
      | None \<Rightarrow> (let n = legacy s in if n \<noteq> 0 then n else fallback))"

definition parseCPUMillicores :: "(string \<Rightarrow> int \<Rightarrow> int option) \<Rightarrow> string \<Rightarrow> int" where
  "parseCPUMillicores flt s0 =
     (let s = TrimSpace s0 in
      if s = [] \<or> s = ''0'' then 0
      else if HasSuffix s ''m''
      then (case ParseInt (take (length s - 1) s) of Some n \<Rightarrow> n | None \<Rightarrow> 0)
      else (case flt s 1000 of Some n \<Rightarrow> n | None \<Rightarrow> 0))"

definition memory_unit :: "string \<Rightarrow> int \<times> string" where
  "memory_unit s =
     (if HasSuffix s ''Gi'' then (1024 * 1024 * 1024, take (length s - 2) s)
      else if HasSuffix s ''Mi'' then (1024 * 1024, take (length s - 2) s)
      else if HasSuffix s ''Ki'' then (1024, take (length s - 2) s)
      else if HasSuffix s ''G'' then (1000 * 1000 * 1000, take (length s - 1) s)
      else if HasSuffix s ''M'' then (1000 * 1000, take (length s - 1) s)
      else if HasSuffix s ''K'' then (1000, take (length s - 1) s)
      else (1, s))"

definition parseMemoryBytes :: "(string \<Rightarrow> int \<Rightarrow> int option) \<Rightarrow> string \<Rightarrow> int" where
  "parseMemoryBytes flt s0 =
     (let s = TrimSpace s0 in
      if s = [] \<or> s = ''0'' then 0
      else (case memory_unit s of (multiplier, numStr) \<Rightarrow>
        (case flt numStr multiplier of Some n \<Rightarrow> n | None \<Rightarrow> 0)))"

definition parseDurationSeconds :: "(string \<Rightarrow> int option) \<Rightarrow> string \<Rightarrow> int" where
  "parseDurationSeconds dur s0 =
     (let s = TrimSpace s0 in
      if s = [] \<or> s = ''0'' then 0 else (case dur s of Some n \<Rightarrow> n | None \<Rightarrow> 0))"

section \<open>Defaults of the system\<close>

record ResourceDefaults =
  rd_workspaces :: int
  rd_sandboxes :: int
  rd_drive :: int
  rd_cpu :: int
  rd_memory :: int
  rd_idle :: int
  rd_totalCPU :: int
  rd_totalMemory :: int
  rd_wsIdle :: int

definition hard_defaults :: ResourceDefaults where
  "hard_defaults =
     \<lparr>rd_workspaces = 10, rd_sandboxes = 20, rd_drive = 10 * 1024 * 1024 * 1024, rd_cpu = 2000,
      rd_memory = 2 * 1024 * 1024 * 1024, rd_idle = 1800, rd_totalCPU = 0, rd_totalMemory = 0,
      rd_wsIdle = 0\<rparr>"

text \<open>The three ways a text overrides a value; the empty text does not.\<close>

definition atoi_over :: "string \<Rightarrow> int \<Rightarrow> int" where
  "atoi_over v d = (if v = [] then d else (case ParseInt v of Some n \<Rightarrow> n | None \<Rightarrow> d))"

definition res_over :: "(string \<Rightarrow> int) \<Rightarrow> string \<Rightarrow> int \<Rightarrow> int" where
  "res_over legacy v d = (if v = [] then d else parseResourceInt v d legacy)"

definition setting :: "bool \<Rightarrow> srv_db \<Rightarrow> string \<Rightarrow> string" where
  "setting up db k = (case GetSystemSetting up db k of Inl _ \<Rightarrow> [] | Inr v \<Rightarrow> v)"

text \<open>
  \<open>getResourceDefaults\<close>; statement \<open>k\<close> reads the setting of the field number \<open>k\<close>.  A setting
  that cannot be read is skipped.
\<close>

definition getResourceDefaults ::
  "(string \<Rightarrow> int \<Rightarrow> int option) \<Rightarrow> (string \<Rightarrow> int option) \<Rightarrow> (string \<Rightarrow> string) \<Rightarrow> (nat \<Rightarrow> bool) \<Rightarrow> srv_db \<Rightarrow>
     ResourceDefaults" where
  "getResourceDefaults flt dur env up db =
     (let cpu = res_over (parseCPUMillicores flt); mem = res_over (parseMemoryBytes flt);
          tim = res_over (parseDurationSeconds dur);
          a = hard_defaults;
          b = \<lparr>rd_workspaces = atoi_over (env ''QUOTA_MAX_WORKSPACES_PER_USER'') (rd_workspaces a),
               rd_sandboxes = atoi_over (env ''QUOTA_MAX_SANDBOXES_PER_WORKSPACE'') (rd_sandboxes a),
               rd_drive = mem (env ''USER_DRIVE_SIZE'') (rd_drive a),
               rd_cpu = cpu (env ''QUOTA_DEFAULT_SANDBOX_CPU'') (rd_cpu a),
               rd_memory = mem (env ''QUOTA_DEFAULT_SANDBOX_MEMORY'') (rd_memory a),
               rd_idle = tim (env ''IDLE_TIMEOUT'') (rd_idle a),
               rd_totalCPU = cpu (env ''QUOTA_WS_MAX_TOTAL_CPU'') (rd_totalCPU a),
               rd_totalMemory = mem (env ''QUOTA_WS_MAX_TOTAL_MEMORY'') (rd_totalMemory a),
               rd_wsIdle = tim (env ''QUOTA_WS_MAX_IDLE_TIMEOUT'') (rd_wsIdle a)\<rparr> in
      \<lparr>rd_workspaces = atoi_over (setting (up 0) db ''quota_max_workspaces_per_user'') (rd_workspaces b),
       rd_sandboxes = atoi_over (setting (up 1) db ''quota_max_sandboxes_per_workspace'') (rd_sandboxes b),
       rd_drive = mem (setting (up 2) db ''default_max_workspace_drive_size'') (rd_drive b),
       rd_cpu = cpu (setting (up 3) db ''default_max_sandbox_cpu'') (rd_cpu b),
       rd_memory = mem (setting (up 4) db ''default_max_sandbox_memory'') (rd_memory b),
       rd_idle = tim (setting (up 5) db ''default_max_idle_timeout'') (rd_idle b),
       rd_totalCPU = cpu (setting (up 6) db ''default_ws_max_total_cpu'') (rd_totalCPU b),
       rd_totalMemory = mem (setting (up 7) db ''default_ws_max_total_memory'') (rd_totalMemory b),
       rd_wsIdle = tim (setting (up 8) db ''default_ws_max_idle_timeout'') (rd_wsIdle b)\<rparr>)"

section \<open>Limits of a workspace and of a user\<close>

record WorkspaceDefaults =
  wd_sandboxes :: int
  wd_cpu :: int
  wd_memory :: int
  wd_idle :: int
  wd_totalCPU :: int
  wd_totalMemory :: int
  wd_drive :: int

definition over :: "int option \<Rightarrow> int \<Rightarrow> int" where
  "over q d = (case q of Some n \<Rightarrow> n | None \<Rightarrow> d)"

text \<open>Statements 0 to 8 are those of \<open>getResourceDefaults\<close>, 9 reads the override.\<close>

definition effectiveWorkspaceDefaults ::
  "(string \<Rightarrow> int \<Rightarrow> int option) \<Rightarrow> (string \<Rightarrow> int option) \<Rightarrow> (string \<Rightarrow> string) \<Rightarrow> (nat \<Rightarrow> bool) \<Rightarrow> srv_db \<Rightarrow>
     string \<Rightarrow> db_err + WorkspaceDefaults" where
  "effectiveWorkspaceDefaults flt dur env up db w =
     (let rd = getResourceDefaults flt dur env up db;
          wd = \<lparr>wd_sandboxes = rd_sandboxes rd, wd_cpu = rd_cpu rd, wd_memory = rd_memory rd,
                wd_idle = rd_idle rd, wd_totalCPU = rd_totalCPU rd,
                wd_totalMemory = rd_totalMemory rd, wd_drive = rd_drive rd\<rparr> in
      case GetWorkspaceQuota (up 9) db w of
        Inl e \<Rightarrow> Inl e
      | Inr None \<Rightarrow> Inr wd
      | Inr (Some q) \<Rightarrow>
          Inr \<lparr>wd_sandboxes = over (q_sandboxes q) (wd_sandboxes wd), wd_cpu = over (q_cpu q) (wd_cpu wd),
               wd_memory = over (q_memory q) (wd_memory wd), wd_idle = over (q_idle q) (wd_idle wd),
               wd_totalCPU = over (q_totalCPU q) (wd_totalCPU wd),
               wd_totalMemory = over (q_totalMemory q) (wd_totalMemory wd),
               wd_drive = over (q_drive q) (wd_drive wd)\<rparr>)"

definition effectiveQuota ::
  "(string \<Rightarrow> int \<Rightarrow> int option) \<Rightarrow> (string \<Rightarrow> int option) \<Rightarrow> (string \<Rightarrow> string) \<Rightarrow> (nat \<Rightarrow> bool) \<Rightarrow> srv_db \<Rightarrow>
     string \<Rightarrow> db_err + int" where
  "effectiveQuota flt dur env up db user =
     (let rd = getResourceDefaults flt dur env up db in
      case GetUserQuota (up 9) db user of
        Inl e \<Rightarrow> Inl e
      | Inr (Some (Some n)) \<Rightarrow> Inr n
      | Inr _ \<Rightarrow> Inr (rd_workspaces rd))"

text \<open>Whether one more is allowed, how many there are, and the limit, 0 for none.\<close>

definition checkWorkspaceQuota ::
  "(string \<Rightarrow> int \<Rightarrow> int option) \<Rightarrow> (string \<Rightarrow> int option) \<Rightarrow> (string \<Rightarrow> string) \<Rightarrow> (nat \<Rightarrow> bool) \<Rightarrow> srv_db \<Rightarrow>
     string \<Rightarrow> db_err + bool \<times> int \<times> int" where
  "checkWorkspaceQuota flt dur env up db user =
     (case effectiveQuota flt dur env up db user of
        Inl e \<Rightarrow> Inl e
      | Inr maxWs \<Rightarrow>
          (case CountWorkspacesOwnedByUser (up 10) db user of
             Inl e \<Rightarrow> Inl e
           | Inr current \<Rightarrow>
               if maxWs = 0 then Inr (True, current, 0) else Inr (current < maxWs, current, maxWs)))"

definition checkSandboxQuota ::
  "(string \<Rightarrow> int \<Rightarrow> int option) \<Rightarrow> (string \<Rightarrow> int option) \<Rightarrow> (string \<Rightarrow> string) \<Rightarrow> (nat \<Rightarrow> bool) \<Rightarrow> srv_db \<Rightarrow>
     string \<Rightarrow> db_err + bool \<times> int \<times> int" where
  "checkSandboxQuota flt dur env up db w =
     (case effectiveWorkspaceDefaults flt dur env up db w of
        Inl e \<Rightarrow> Inl e
      | Inr wd \<Rightarrow>
          (case CountSandboxesByWorkspace (up 10) db w of
             Inl e \<Rightarrow> Inl e
           | Inr current \<Rightarrow>
               if wd_sandboxes wd = 0 then Inr (True, current, 0)
               else Inr (current < wd_sandboxes wd, current, wd_sandboxes wd)))"

definition checkWorkspaceResourceBudget ::
  "(string \<Rightarrow> int \<Rightarrow> int option) \<Rightarrow> (string \<Rightarrow> int option) \<Rightarrow> (string \<Rightarrow> string) \<Rightarrow> (nat \<Rightarrow> bool) \<Rightarrow> srv_db \<Rightarrow>
     string \<Rightarrow> int \<Rightarrow> int \<Rightarrow> db_err + bool" where
  "checkWorkspaceResourceBudget flt dur env up db w cpuMillis memBytes =
     (case effectiveWorkspaceDefaults flt dur env up db w of
        Inl e \<Rightarrow> Inl e
      | Inr wd \<Rightarrow>
          if wd_totalCPU wd = 0 \<and> wd_totalMemory wd = 0 then Inr True
          else (case SumWorkspaceSandboxResources (up 10) db w of
              Inl e \<Rightarrow> Inl e
            | Inr (currentCPU, currentMem) \<Rightarrow>
                if wd_totalCPU wd > 0 \<and> int64 (currentCPU + cpuMillis) > wd_totalCPU wd then Inr False
                else if wd_totalMemory wd > 0 \<and> int64 (currentMem + memBytes) > wd_totalMemory wd
                then Inr False
                else Inr True))"

text \<open>A duration is an \<open>int64\<close> of nanoseconds.\<close>

definition getEffectiveIdleTimeout ::
  "(string \<Rightarrow> int \<Rightarrow> int option) \<Rightarrow> (string \<Rightarrow> int option) \<Rightarrow> (string \<Rightarrow> string) \<Rightarrow> (nat \<Rightarrow> bool) \<Rightarrow> srv_db \<Rightarrow> time" where
  "getEffectiveIdleTimeout flt dur env up db =
     (let rd = getResourceDefaults flt dur env up db in
      if rd_idle rd = 0 then 0 else int64 (rd_idle rd * 1000000000))"

section \<open>How a limit is resolved\<close>

text \<open>What a text says: nothing, when it is empty or does not parse.\<close>

definition says_atoi :: "string \<Rightarrow> int option" where
  "says_atoi v = (if v = [] then None else ParseInt v)"

definition says_res :: "(string \<Rightarrow> int) \<Rightarrow> string \<Rightarrow> int option" where
  "says_res legacy v =
     (if v = [] then None
      else (case ParseInt v of
          Some n \<Rightarrow> Some n
        | None \<Rightarrow> if legacy v = 0 then None else Some (legacy v)))"

text \<open>The first layer that says something wins.\<close>

fun first_of :: "'a option list \<Rightarrow> 'a \<Rightarrow> 'a" where
  "first_of [] d = d"
| "first_of (Some x # _) d = x"
| "first_of (None # xs) d = first_of xs d"

lemma atoi_over_says: "atoi_over v d = first_of [says_atoi v] d"
  by (auto simp: atoi_over_def says_atoi_def split: option.splits)

lemma res_over_says: "res_over legacy v d = first_of [says_res legacy v] d"
  by (auto simp: res_over_def says_res_def parseResourceInt_def Let_def split: option.splits)

lemma first_of_append: "first_of (xs @ ys) d = first_of xs (first_of ys d)"
  by (induction xs d rule: first_of.induct) auto

lemma first_of_two: "first_of [a] (first_of [b] d) = first_of [a, b] d"
  by (cases a) auto

lemmas over_says = atoi_over_says res_over_says first_of_two

text \<open>The layers resolve as documented: what the settings table says, else what the environment
  says, else the built-in value; a text that does not parse says nothing.\<close>

theorem resource_defaults_layers:
  "getResourceDefaults flt dur env up db =
     (let cpu = says_res (parseCPUMillicores flt); mem = says_res (parseMemoryBytes flt);
          tim = says_res (parseDurationSeconds dur); st = (\<lambda>k. setting (up k) db) in
      \<lparr>rd_workspaces = first_of [says_atoi (st 0 ''quota_max_workspaces_per_user''),
         says_atoi (env ''QUOTA_MAX_WORKSPACES_PER_USER'')] 10,
       rd_sandboxes = first_of [says_atoi (st 1 ''quota_max_sandboxes_per_workspace''),
         says_atoi (env ''QUOTA_MAX_SANDBOXES_PER_WORKSPACE'')] 20,
       rd_drive = first_of [mem (st 2 ''default_max_workspace_drive_size''),
         mem (env ''USER_DRIVE_SIZE'')] 10737418240,
       rd_cpu = first_of [cpu (st 3 ''default_max_sandbox_cpu''), cpu (env ''QUOTA_DEFAULT_SANDBOX_CPU'')] 2000,
       rd_memory = first_of [mem (st 4 ''default_max_sandbox_memory''),
         mem (env ''QUOTA_DEFAULT_SANDBOX_MEMORY'')] 2147483648,
       rd_idle = first_of [tim (st 5 ''default_max_idle_timeout''), tim (env ''IDLE_TIMEOUT'')] 1800,
       rd_totalCPU = first_of [cpu (st 6 ''default_ws_max_total_cpu''), cpu (env ''QUOTA_WS_MAX_TOTAL_CPU'')] 0,
       rd_totalMemory = first_of [mem (st 7 ''default_ws_max_total_memory''),
         mem (env ''QUOTA_WS_MAX_TOTAL_MEMORY'')] 0,
       rd_wsIdle = first_of [tim (st 8 ''default_ws_max_idle_timeout''),
         tim (env ''QUOTA_WS_MAX_IDLE_TIMEOUT'')] 0\<rparr>)"
  unfolding getResourceDefaults_def hard_defaults_def Let_def ResourceDefaults.simps over_says
  by simp

end
