(* ===== verification/Workspaces.thy ===== *)
theory Workspaces
  imports Quotas
begin

text \<open>
  Workspaces: their slugs (\<open>internal/db/slug.go\<close>, \<open>workspaces.go\<close>), and the handlers that create,
  rename and delete them and manage their members (\<open>internal/server/server.go\<close>).

  Statements are numbered in the order of a handler; \<open>up k\<close> tells whether statement \<open>k\<close> reaches
  the database.  New identifiers are arguments.
\<close>

section \<open>Slugs\<close>

definition alnum :: "char \<Rightarrow> bool" where
  "alnum c \<longleftrightarrow> (97 \<le> byte c \<and> byte c \<le> 122) \<or> (48 \<le> byte c \<and> byte c \<le> 57)"

definition minSlugLen :: nat where "minSlugLen = 2"
definition maxSlugLen :: nat where "maxSlugLen = 63"

definition reservedSlugs :: "string list" where
  "reservedSlugs =
     [''www'', ''api'', ''admin'', ''app'', ''root'', ''auth'', ''login'', ''register'', ''static'',
      ''assets'', ''agentserver'', ''openclaw'', ''hermes'', ''mail'', ''email'', ''mailbox'', ''mx'',
      ''smtp'', ''imap'', ''pop'', ''support'', ''help'', ''helpdesk'', ''kb'', ''faq'', ''contact'',
      ''status'', ''health'', ''metrics'', ''dashboard'', ''grafana'', ''prometheus'', ''docs'',
      ''documentation'', ''wiki'', ''blog'', ''news'', ''cdn'', ''proxy'', ''ingress'', ''lb'',
      ''node'', ''pod'', ''k8s'', ''billing'', ''pay'', ''payments'', ''pricing'', ''enterprise'',
      ''sales'', ''signup'', ''trial'', ''demo'', ''marketing'', ''landing'', ''legal'', ''terms'',
      ''privacy'', ''tos'', ''gdpr'', ''lgpd'', ''compliance'', ''media'', ''images'', ''files'',
      ''download'', ''upload'', ''localhost'', ''internal'', ''external'', ''public'', ''private'']"

definition reservedPrefixes :: "string list" where
  "reservedPrefixes = [''claw-'', ''hermes-'']"

text \<open>
  The automaton of \<open>^[a-z0-9]+(-[a-z0-9]+)*$\<close>: the flag tells that a letter or a digit must come
  next.
\<close>

fun slugRe :: "bool \<Rightarrow> string \<Rightarrow> bool" where
  "slugRe need [] = (\<not> need)"
| "slugRe need (c # s) = (if alnum c then slugRe False s else c = CHR ''-'' \<and> \<not> need \<and> slugRe True s)"

datatype slug_err = SlugLength | SlugShape | SlugReserved | SlugPrefix string

definition ValidateSlug :: "string \<Rightarrow> slug_err option" where
  "ValidateSlug s =
     (if length s < minSlugLen \<or> length s > maxSlugLen then Some SlugLength
      else if \<not> slugRe True s then Some SlugShape
      else if s \<in> set reservedSlugs then Some SlugReserved
      else map_option SlugPrefix (find (\<lambda>p. HasPrefix s p) reservedPrefixes))"

text \<open>
  \<open>nonAlnumRe.ReplaceAllString(s, "-")\<close>: a maximal run of other bytes becomes one hyphen.
\<close>

fun hyphens :: "string \<Rightarrow> string" where
  "hyphens [] = []"
| "hyphens (c # s) =
     (if alnum c then c # hyphens s
      else (case s of
          [] \<Rightarrow> [CHR ''-'']
        | d # _ \<Rightarrow> if alnum d then CHR ''-'' # hyphens s else hyphens s))"

text \<open>
  \<open>strings.ToLower\<close> as far as the hyphens can tell: the ASCII letters, and the two other
  characters whose lower case is an ASCII letter, the Kelvin sign and the dotted capital I.
\<close>

fun slug_lower :: "string \<Rightarrow> string" where
  "slug_lower (a # b # c # s) =
     (if byte a = 226 \<and> byte b = 132 \<and> byte c = 170 then CHR ''k'' # slug_lower s
      else if byte a = 196 \<and> byte b = 176 then CHR ''i'' # slug_lower (c # s)
      else lower [a] @ slug_lower (b # c # s))"
| "slug_lower [a, b] = (if byte a = 196 \<and> byte b = 176 then ''i'' else lower [a, b])"
| "slug_lower [a] = lower [a]"
| "slug_lower [] = []"

definition Slugify :: "string \<Rightarrow> string" where
  "Slugify name =
     (let s = TrimRight (dropWhile (\<lambda>c. c = CHR ''-'') (hyphens (slug_lower (TrimSpace name)))) ''-'' in
      if s = [] then ''workspace'' else s)"

section \<open>Creating workspaces\<close>

datatype ws_err = WsDb db_err | SlugInvalid slug_err | ErrSlugTaken | NoUniqueSlug

text \<open>The rounds of \<open>CreateWorkspaceWithSlug\<close>; the lookup of round \<open>i\<close> is statement \<open>i\<close>.\<close>

function slugLoop :: "(nat \<Rightarrow> bool) \<Rightarrow> srv_db \<Rightarrow> string \<Rightarrow> string \<Rightarrow> nat \<Rightarrow> ws_err + string" where
  "slugLoop up db base slug i =
     (case SlugExists (up i) db slug of
        Inl e \<Rightarrow> Inl (WsDb e)
      | Inr taken \<Rightarrow>
          if \<not> taken then Inr slug
          else if i > 1000 then Inl NoUniqueSlug
          else slugLoop up db base (base @ ''-'' @ FormatInt (int i)) (i + 1))"
  by pat_completeness auto
termination by (relation "measure (\<lambda>(up, db, base, slug, i). 1001 - i)") auto

declare slugLoop.simps [simp del]

definition slugBase :: "string \<Rightarrow> string" where
  "slugBase name =
     (let base = Slugify name in
      if ValidateSlug base \<noteq> None then base @ ''-1'' else base)"

definition CreateWorkspaceWithSlug ::
  "(nat \<Rightarrow> bool) \<Rightarrow> time \<Rightarrow> srv_db \<Rightarrow> string \<Rightarrow> string \<Rightarrow> string \<Rightarrow> (ws_err + string) \<times> srv_db" where
  "CreateWorkspaceWithSlug up now db i name namespace =
     (let base = slugBase name in
      case slugLoop up db base base 2 of
        Inl e \<Rightarrow> (Inl e, db)
      | Inr slug \<Rightarrow>
          (case insert_workspace (up 0) now db i name slug namespace of
             (Some e, db1) \<Rightarrow> (Inl (WsDb e), db1)
           | (None, db1) \<Rightarrow> (Inr slug, db1)))"

definition CreateWorkspace ::
  "(nat \<Rightarrow> bool) \<Rightarrow> time \<Rightarrow> srv_db \<Rightarrow> string \<Rightarrow> string \<Rightarrow> ws_err option \<times> srv_db" where
  "CreateWorkspace up now db i name =
     (case CreateWorkspaceWithSlug up now db i name [] of
        (Inl e, db1) \<Rightarrow> (Some e, db1) | (Inr _, db1) \<Rightarrow> (None, db1))"

definition EnsureWorkspace ::
  "(nat \<Rightarrow> bool) \<Rightarrow> time \<Rightarrow> srv_db \<Rightarrow> string \<Rightarrow> string \<Rightarrow> ws_err option \<times> srv_db" where
  "EnsureWorkspace up now db i name =
     (case GetWorkspace (up 1) db i of
        Inl e \<Rightarrow> (Some (WsDb e), db)
      | Inr (Some _) \<Rightarrow> (None, db)
      | Inr None \<Rightarrow> CreateWorkspace up now db i name)"

definition CreateWorkspaceExplicit ::
  "(nat \<Rightarrow> bool) \<Rightarrow> time \<Rightarrow> srv_db \<Rightarrow> string \<Rightarrow> string \<Rightarrow> string \<Rightarrow> string \<Rightarrow> ws_err option \<times> srv_db" where
  "CreateWorkspaceExplicit up now db i name slug namespace =
     (case ValidateSlug slug of
        Some e \<Rightarrow> (Some (SlugInvalid e), db)
      | None \<Rightarrow>
          (case SlugExists (up 1) db slug of
             Inl e \<Rightarrow> (Some (WsDb e), db)
           | Inr True \<Rightarrow> (Some ErrSlugTaken, db)
           | Inr False \<Rightarrow>
               (case insert_workspace (up 0) now db i name slug namespace of
                  (Some e, db1) \<Rightarrow> (Some (WsDb e), db1)
                | (None, db1) \<Rightarrow> (None, db1))))"

section \<open>Authorization\<close>

text \<open>The error reply, or the caller's role.\<close>

definition requireWorkspaceMember :: "bool \<Rightarrow> srv_db \<Rightarrow> string \<Rightarrow> string \<Rightarrow> (nat \<times> string) + string" where
  "requireWorkspaceMember up db user w =
     (case GetWorkspaceMemberRole up db w user of
        Inl _ \<Rightarrow> Inl (500, ''internal error'')
      | Inr role \<Rightarrow> if role = [] then Inl (403, ''not a workspace member'') else Inr role)"

definition requireWorkspaceRole ::
  "bool \<Rightarrow> srv_db \<Rightarrow> string \<Rightarrow> string \<Rightarrow> string list \<Rightarrow> (nat \<times> string) option" where
  "requireWorkspaceRole up db user w allowed =
     (case requireWorkspaceMember up db user w of
        Inl e \<Rightarrow> Some e
      | Inr role \<Rightarrow> if role \<in> set allowed then None else Some (403, ''insufficient permissions''))"

section \<open>Workspace handlers\<close>

text \<open>
  \<open>handleCreateWorkspace\<close>, in three parts: the row, its owner and namespace, the final read.
  \<open>nsm\<close> is the namespace manager: \<open>None\<close> when there is none, else what its \<open>EnsureNamespace\<close>
  yields.  \<open>req\<close> is the decoded name and slug.  Statements: 0 to 10 the quota, from 100 on the
  creation, 11 the owner, 12 the deletion after a failure, 13 the namespace, 14 the final
  read.
\<close>

definition newWorkspace ::
  "(nat \<Rightarrow> bool) \<Rightarrow> time \<Rightarrow> string \<Rightarrow> string \<Rightarrow> string \<Rightarrow> srv_db \<Rightarrow> ws_err option \<times> srv_db" where
  "newWorkspace up now i name slug db =
     (if slug \<noteq> [] then CreateWorkspaceExplicit up now db i name slug []
      else CreateWorkspace up now db i name)"

definition readBack :: "bool \<Rightarrow> string \<Rightarrow> srv_db \<Rightarrow> Workspace reply \<times> srv_db" where
  "readBack up i db =
     (case GetWorkspace up db i of
        Inr (Some ws) \<Rightarrow> (Reply 201 ws, db)
      | _ \<Rightarrow> (ErrorReply 500 ''failed to get workspace'', db))"

definition ownWorkspace ::
  "(nat \<Rightarrow> bool) \<Rightarrow> time \<Rightarrow> string option option \<Rightarrow> string \<Rightarrow> string \<Rightarrow> srv_db \<Rightarrow> Workspace reply \<times> srv_db" where
  "ownWorkspace up now nsm user i db1 =
     (let undo = (\<lambda>msg db. (ErrorReply 500 msg, snd (DeleteWorkspace (up 12) db i))) in
      case AddWorkspaceMember (up 11) now db1 i user ''owner'' of
        (Some _, db2) \<Rightarrow> undo ''failed to create workspace'' db2
      | (None, db2) \<Rightarrow>
          (case nsm of
             None \<Rightarrow> readBack (up 14) i db2
           | Some None \<Rightarrow> undo ''failed to create workspace namespace'' db2
           | Some (Some ns) \<Rightarrow>
               (case SetWorkspaceNamespace (up 13) now db2 i ns of
                  (Some _, db3) \<Rightarrow> undo ''failed to create workspace'' db3
                | (None, db3) \<Rightarrow> readBack (up 14) i db3)))"

definition handleCreateWorkspace ::
  "(string \<Rightarrow> int \<Rightarrow> int option) \<Rightarrow> (string \<Rightarrow> int option) \<Rightarrow> (string \<Rightarrow> string) \<Rightarrow> (nat \<Rightarrow> bool) \<Rightarrow> time \<Rightarrow>
     string option option \<Rightarrow> string \<Rightarrow> string \<Rightarrow> (string \<times> string) option \<Rightarrow> srv_db \<Rightarrow>
     Workspace reply \<times> srv_db" where
  "handleCreateWorkspace flt dur env up now nsm user i req db =
     (case checkWorkspaceQuota flt dur env up db user of
        Inl _ \<Rightarrow> (ErrorReply 500 ''internal error'', db)
      | Inr (allowed, _, _) \<Rightarrow>
     if \<not> allowed then (ErrorReply 403 ''quota_exceeded'', db)
     else (let (name0, slug0) = (case req of None \<Rightarrow> (''New Workspace'', []) | Some p \<Rightarrow> p);
               name = (if name0 = [] then ''New Workspace'' else name0);
               slug = TrimSpace slug0 in
       if slug \<noteq> [] \<and> ValidateSlug slug \<noteq> None then (ErrorReply 400 ''slug'', db)
       else (case newWorkspace (\<lambda>k. up (100 + k)) now i name slug db of
          (Some e, db1) \<Rightarrow>
            (if e = ErrSlugTaken then (ErrorReply 409 ''slug already taken'', db1)
             else (ErrorReply 500 ''failed to create workspace'', db1))
        | (None, db1) \<Rightarrow> ownWorkspace up now nsm user i db1)))"

definition handleGetWorkspace :: "(nat \<Rightarrow> bool) \<Rightarrow> string \<Rightarrow> string \<Rightarrow> srv_db \<Rightarrow> Workspace reply" where
  "handleGetWorkspace up user i db =
     (case requireWorkspaceMember (up 0) db user i of
        Inl (c, msg) \<Rightarrow> ErrorReply c msg
      | Inr _ \<Rightarrow>
          (case GetWorkspace (up 1) db i of
             Inr (Some ws) \<Rightarrow> Reply 200 ws
           | _ \<Rightarrow> ErrorReply 404 ''workspace not found''))"

definition handleListWorkspaces :: "bool \<Rightarrow> string \<Rightarrow> srv_db \<Rightarrow> Workspace list reply" where
  "handleListWorkspaces up user db =
     (case ListWorkspacesByUser up db user of
        Inl _ \<Rightarrow> ErrorReply 500 ''failed to list workspaces''
      | Inr ws \<Rightarrow> Reply 200 ws)"

definition handleGetWorkspacesQuota ::
  "(string \<Rightarrow> int \<Rightarrow> int option) \<Rightarrow> (string \<Rightarrow> int option) \<Rightarrow> (string \<Rightarrow> string) \<Rightarrow> (nat \<Rightarrow> bool) \<Rightarrow> string \<Rightarrow>
     srv_db \<Rightarrow> (int \<times> int) reply" where
  "handleGetWorkspacesQuota flt dur env up user db =
     (case effectiveQuota flt dur env up db user of
        Inl _ \<Rightarrow> ErrorReply 500 ''internal error''
      | Inr maxWs \<Rightarrow>
          (case CountWorkspacesOwnedByUser (up 10) db user of
             Inl _ \<Rightarrow> ErrorReply 500 ''internal error''
           | Inr current \<Rightarrow> Reply 200 (current, maxWs)))"

definition handleRenameWorkspace ::
  "(nat \<Rightarrow> bool) \<Rightarrow> time \<Rightarrow> string \<Rightarrow> string \<Rightarrow> string option \<Rightarrow> srv_db \<Rightarrow> Workspace reply \<times> srv_db" where
  "handleRenameWorkspace up now user i req db =
     (case requireWorkspaceRole (up 0) db user i [''owner'', ''maintainer''] of
        Some (c, msg) \<Rightarrow> (ErrorReply c msg, db)
      | None \<Rightarrow>
     if req \<in> {None, Some []} then (ErrorReply 400 ''name is required'', db)
     else (case UpdateWorkspaceName (up 1) now db i (the req) of
        (Some _, db1) \<Rightarrow> (ErrorReply 500 ''failed to rename workspace'', db1)
      | (None, db1) \<Rightarrow>
          (case GetWorkspace (up 2) db1 i of
             Inr (Some ws) \<Rightarrow> (Reply 200 ws, db1)
           | _ \<Rightarrow> (ErrorReply 500 ''failed to get workspace'', db1))))"

text \<open>What a deletion stops on the way, in order.\<close>

datatype stop = CloseTunnel string | StopProcess string | StopByName string string

definition stop_of :: "string \<Rightarrow> (string \<Rightarrow> bool) \<Rightarrow> Sandbox \<Rightarrow> stop list" where
  "stop_of namespace tunnels s =
     (if x_local s then (if tunnels (x_id s) then [CloseTunnel (x_id s)] else [])
      else (case x_status s of
          StatusRunning \<Rightarrow> [StopProcess (x_id s)]
        | StatusPaused \<Rightarrow> if x_sandbox s = [] then [] else [StopByName namespace (x_sandbox s)]
        | _ \<Rightarrow> []))"

text \<open>
  \<open>handleDeleteWorkspace\<close>.  The loop over the sandboxes leaves a local one in the table: its
  \<open>continue\<close> skips the deletion.  Statements: 0 role, 1 and 2 the reads, 3 the soft deletion,
  4 and 5 the drafts, 6 the sessions, \<open>7 + n\<close> the deletion of the sandbox number \<open>n\<close>.
\<close>

fun deleteSandboxes ::
  "(nat \<Rightarrow> bool) \<Rightarrow> string \<Rightarrow> (string \<Rightarrow> bool) \<Rightarrow> nat \<Rightarrow> Sandbox list \<Rightarrow> srv_db \<Rightarrow> stop list \<times> srv_db" where
  "deleteSandboxes up namespace tunnels n [] db = ([], db)"
| "deleteSandboxes up namespace tunnels n (s # ss) db =
     (let db1 = (if x_local s then db else snd (DeleteSandbox (up n) db (x_id s)));
          (stops, db2) = deleteSandboxes up namespace tunnels (Suc n) ss db1 in
      (stop_of namespace tunnels s @ stops, db2))"

definition handleDeleteWorkspace ::
  "(nat \<Rightarrow> bool) \<Rightarrow> time \<Rightarrow> (string \<Rightarrow> bool) \<Rightarrow> string \<Rightarrow> string \<Rightarrow> srv_db \<Rightarrow> unit reply \<times> stop list \<times> srv_db" where
  "handleDeleteWorkspace up now tunnels user i db =
     (case requireWorkspaceRole (up 0) db user i [''owner''] of
        Some (c, msg) \<Rightarrow> (ErrorReply c msg, [], db)
      | None \<Rightarrow>
     (case GetWorkspace (up 1) db i of
        Inl _ \<Rightarrow> (ErrorReply 500 ''failed to delete workspace'', [], db)
      | Inr None \<Rightarrow> (ErrorReply 404 ''workspace not found'', [], db)
      | Inr (Some ws) \<Rightarrow>
          (let (stops, db1) = deleteSandboxes (\<lambda>n. up (7 + n)) (coalesce (w_namespace ws)) tunnels 0
                                (ListByWorkspace (up 2) db i) db in
           case SoftDeleteWorkspace (up 3) now db1 i of
             (Some NoRows, db2) \<Rightarrow> (ErrorReply 404 ''workspace not found'', stops, db2)
           | (Some _, db2) \<Rightarrow> (ErrorReply 500 ''failed to delete workspace'', stops, db2)
           | (None, db2) \<Rightarrow>
               (case DeleteWorkspaceDrafts (\<lambda>k. up (4 + k)) db2 i of
                  (Some _, db3) \<Rightarrow> (ErrorReply 500 ''failed to delete workspace'', stops, db3)
                | (None, db3) \<Rightarrow> (Reply 204 (), stops, snd (ClearActiveWorkspace (up 6) db3 i))))))"

section \<open>Member handlers\<close>

definition GetUserByEmail :: "bool \<Rightarrow> srv_db \<Rightarrow> string \<Rightarrow> db_err + string option" where
  "GetUserByEmail up db email =
     (if \<not> up then Inl DbDown else Inr (map_option fst (find (\<lambda>p. snd p = email) (sv_users db))))"

definition handleListMembers ::
  "(nat \<Rightarrow> bool) \<Rightarrow> string \<Rightarrow> string \<Rightarrow> srv_db \<Rightarrow> (string \<times> string \<times> string) list reply" where
  "handleListMembers up user w db =
     (case requireWorkspaceMember (up 0) db user w of
        Inl (c, msg) \<Rightarrow> ErrorReply c msg
      | Inr _ \<Rightarrow>
          (case ListWorkspaceMembers (up 1) db w of
             Inl _ \<Rightarrow> ErrorReply 500 ''failed to list members''
           | Inr ms \<Rightarrow>
               Reply 200 (map (\<lambda>(n, m).
                 (me_user m,
                  (if up (2 + n)
                   then (case find (\<lambda>p. fst p = me_user m) (sv_users db) of
                           Some p \<Rightarrow> snd p | None \<Rightarrow> me_user m)
                   else me_user m),
                  me_role m)) (zip [0..<length ms] ms))))"

definition handleAddMember ::
  "(nat \<Rightarrow> bool) \<Rightarrow> time \<Rightarrow> string \<Rightarrow> string \<Rightarrow> (string \<times> string) option \<Rightarrow> srv_db \<Rightarrow>
     (string \<times> string) reply \<times> srv_db" where
  "handleAddMember up now user w req db =
     (case requireWorkspaceRole (up 0) db user w [''owner'', ''maintainer''] of
        Some (c, msg) \<Rightarrow> (ErrorReply c msg, db)
      | None \<Rightarrow>
     (case req of
        None \<Rightarrow> (ErrorReply 400 ''bad request'', db)
      | Some (email, role0) \<Rightarrow>
          (let role = (if role0 = [] then ''developer'' else role0) in
           case GetUserByEmail (up 1) db email of
             Inr (Some u) \<Rightarrow>
               (case AddWorkspaceMember (up 2) now db w u role of
                  (Some _, db1) \<Rightarrow> (ErrorReply 500 ''failed to add member'', db1)
                | (None, db1) \<Rightarrow> (Reply 201 (u, role), db1))
           | _ \<Rightarrow> (ErrorReply 404 ''user not found'', db))))"

definition handleUpdateMemberRole ::
  "(nat \<Rightarrow> bool) \<Rightarrow> string \<Rightarrow> string \<Rightarrow> string \<Rightarrow> string option \<Rightarrow> srv_db \<Rightarrow> unit reply \<times> srv_db" where
  "handleUpdateMemberRole up user w target req db =
     (case requireWorkspaceRole (up 0) db user w [''owner''] of
        Some (c, msg) \<Rightarrow> (ErrorReply c msg, db)
      | None \<Rightarrow>
     if req \<in> {None, Some []} then (ErrorReply 400 ''bad request'', db)
     else (case UpdateWorkspaceMemberRole (up 1) db w target (the req) of
        (Some _, db1) \<Rightarrow> (ErrorReply 500 ''failed to update member role'', db1)
      | (None, db1) \<Rightarrow> (Reply 204 (), db1)))"

definition handleRemoveMember ::
  "(nat \<Rightarrow> bool) \<Rightarrow> string \<Rightarrow> string \<Rightarrow> string \<Rightarrow> srv_db \<Rightarrow> unit reply \<times> srv_db" where
  "handleRemoveMember up user w target db =
     (case requireWorkspaceRole (up 0) db user w [''owner''] of
        Some (c, msg) \<Rightarrow> (ErrorReply c msg, db)
      | None \<Rightarrow>
     (case RemoveWorkspaceMember (up 1) db w target of
        (Some _, db1) \<Rightarrow> (ErrorReply 500 ''failed to remove member'', db1)
      | (None, db1) \<Rightarrow> (Reply 204 (), db1)))"

end
