(* ===== verification/Tenancy.thy ===== *)
theory Tenancy
  imports Workspaces
begin

text \<open>
  What the workspace handlers guarantee: which slugs workspaces get, who may change a
  workspace's members, and how the number of workspaces is limited.
\<close>

section \<open>Slugs\<close>

definition join :: "string list \<Rightarrow> string" where
  "join ws = (case ws of [] \<Rightarrow> [] | w # vs \<Rightarrow> w @ concat (map ((#) (CHR ''-'')) vs))"

definition word :: "string \<Rightarrow> bool" where
  "word w \<longleftrightarrow> w \<noteq> [] \<and> list_all alnum w"

lemma not_alnum_hyphen [simp]: "\<not> alnum (CHR ''-'')"
  by (simp add: alnum_def byte_def)

lemma join_simps [simp]:
  "join [] = []" "join [w] = w" "join (w # v # vs) = w @ CHR ''-'' # join (v # vs)"
  by (simp_all add: join_def)

lemma join_Cons_char: "join ((c # w) # vs) = c # join (w # vs)"
  by (simp add: join_def)

lemma slugRe_words:
  "slugRe False s \<longleftrightarrow> (\<exists>w vs. list_all alnum w \<and> list_all word vs \<and> s = join (w # vs))"
  "slugRe True s \<longleftrightarrow> (\<exists>w vs. word w \<and> list_all word vs \<and> s = join (w # vs))"
proof (induction s)
  case Nil
  have "slugRe False []" by simp
  moreover have "\<exists>w vs. list_all alnum w \<and> list_all word vs \<and> [] = join (w # vs)"
    by (intro exI [of _ "[]"] exI [of _ "[] :: string list"]) simp
  ultimately show "slugRe False [] \<longleftrightarrow> (\<exists>w vs. list_all alnum w \<and> list_all word vs \<and> [] = join (w # vs))"
    by blast
  have "join (w # vs) \<noteq> []" if "word w" for w vs using that by (simp add: join_def word_def)
  then show "slugRe True [] \<longleftrightarrow> (\<exists>w vs. word w \<and> list_all word vs \<and> [] = join (w # vs))"
    by (metis slugRe.simps(1))
next
  case (Cons c s)
  have T: "slugRe True (c # s) \<longleftrightarrow> (\<exists>w vs. word w \<and> list_all word vs \<and> c # s = join (w # vs))"
  proof
    assume "slugRe True (c # s)"
    then have a: "alnum c" "slugRe False s" by (auto split: if_splits)
    from Cons.IH(1) a(2) obtain w vs where "list_all alnum w" "list_all word vs" "s = join (w # vs)" by blast
    with a(1) show "\<exists>w vs. word w \<and> list_all word vs \<and> c # s = join (w # vs)"
      by (intro exI [of _ "c # w"] exI [of _ vs]) (simp add: word_def join_Cons_char)
  next
    assume "\<exists>w vs. word w \<and> list_all word vs \<and> c # s = join (w # vs)"
    then obtain w vs where w: "word w" "list_all word vs" "c # s = join (w # vs)" by blast
    then obtain w' where "w = c # w'" by (cases w) (auto simp: word_def join_Cons_char)
    with w have "alnum c" "list_all alnum w'" "s = join (w' # vs)"
      by (auto simp: word_def join_Cons_char)
    with w(2) Cons.IH(1) show "slugRe True (c # s)" by auto
  qed
  have F: "slugRe False (c # s) \<longleftrightarrow> (\<exists>w vs. list_all alnum w \<and> list_all word vs \<and> c # s = join (w # vs))"
  proof
    assume F: "slugRe False (c # s)"
    show "\<exists>w vs. list_all alnum w \<and> list_all word vs \<and> c # s = join (w # vs)"
    proof (cases "alnum c")
      case True
      with F have "slugRe True (c # s)" by simp
      with T show ?thesis by (auto simp: word_def)
    next
      case False
      with F have "c = CHR ''-''" "slugRe True s" by simp_all
      with Cons.IH(2) obtain w vs where "word w" "list_all word vs" "s = join (w # vs)" by blast
      with \<open>c = CHR ''-''\<close> show ?thesis
        by (intro exI [of _ "[]"] exI [of _ "w # vs"]) simp
    qed
  next
    assume "\<exists>w vs. list_all alnum w \<and> list_all word vs \<and> c # s = join (w # vs)"
    then obtain w vs where w: "list_all alnum w" "list_all word vs" "c # s = join (w # vs)" by blast
    show "slugRe False (c # s)"
    proof (cases w)
      case Nil
      with w(3) obtain v us where v: "vs = v # us" "c = CHR ''-''" "s = join (v # us)"
        by (cases vs) (auto simp: join_def)
      with w(2) Cons.IH(2) have "slugRe True s" by auto
      with v show ?thesis by simp
    next
      case (Cons d w')
      with w T have "slugRe True (c # s)" by (auto simp: word_def)
      then show ?thesis by (auto split: if_splits)
    qed
  qed
  show "slugRe False (c # s) \<longleftrightarrow> (\<exists>w vs. list_all alnum w \<and> list_all word vs \<and> c # s = join (w # vs))"
    "slugRe True (c # s) \<longleftrightarrow> (\<exists>w vs. word w \<and> list_all word vs \<and> c # s = join (w # vs))"
    using F T by blast+
qed

text \<open>C22: The slugs that are accepted are the words of lower-case letters and digits joined by
  single hyphens, of 2 to 63 characters, that are not reserved and do not start like the
  subdomain of a sandbox.\<close>

theorem ValidateSlug_iff:
  "ValidateSlug s = None \<longleftrightarrow>
     2 \<le> length s \<and> length s \<le> 63 \<and> (\<exists>w vs. list_all word (w # vs) \<and> s = join (w # vs)) \<and>
     s \<notin> set reservedSlugs \<and> \<not> HasPrefix s ''claw-'' \<and> \<not> HasPrefix s ''hermes-''"
proof -
  have "slugRe True s \<longleftrightarrow> (\<exists>w vs. list_all word (w # vs) \<and> s = join (w # vs))"
    unfolding slugRe_words(2) by simp
  then show ?thesis
    unfolding ValidateSlug_def minSlugLen_def maxSlugLen_def
    by (auto simp: reservedPrefixes_def find_None_all simp del: slugRe.simps split: if_splits)
qed

section \<open>The slug of a new workspace\<close>

definition slug_candidates :: "string \<Rightarrow> string list" where
  "slug_candidates base = base # map (\<lambda>k. base @ ''-'' @ FormatInt (int k)) [2..<1001]"

definition slug_taken :: "srv_db \<Rightarrow> string \<Rightarrow> bool" where
  "slug_taken db s \<longleftrightarrow> list_ex (\<lambda>r. ws_slug r = s) (sv_workspaces db)"

lemma slugLoop_find:
  assumes "\<forall>k. up k" and "2 \<le> i" and "i \<le> 1001"
  shows "slugLoop up db base slug i =
     (case find (\<lambda>s. \<not> slug_taken db s) (slug # map (\<lambda>k. base @ ''-'' @ FormatInt (int k)) [i..<1001]) of
        Some s \<Rightarrow> Inr s | None \<Rightarrow> Inl NoUniqueSlug)"
  using assms(2,3)
proof (induction "1001 - i" arbitrary: i slug)
  case 0
  then have i: "i = 1001" by simp
  show ?case unfolding i
    by (subst slugLoop.simps) (simp add: SlugExists_def slug_taken_def assms(1))
next
  case (Suc n)
  then have i: "i < 1001" by simp
  have IH: "slugLoop up db base t (Suc i) =
     (case find (\<lambda>s. \<not> slug_taken db s) (t # map (\<lambda>k. base @ ''-'' @ FormatInt (int k)) [Suc i..<1001]) of
        Some s \<Rightarrow> Inr s | None \<Rightarrow> Inl NoUniqueSlug)" for t
    by (rule Suc.hyps(1)) (use Suc.hyps(2) Suc.prems in auto)
  show ?case
    by (subst slugLoop.simps)
       (use i in \<open>simp add: SlugExists_def slug_taken_def [symmetric] assms(1) upt_conv_Cons IH\<close>)
qed

lemma create_with_slug:
  "CreateWorkspaceWithSlug (\<lambda>_. True) now db i name namespace =
     (case find (\<lambda>s. \<not> slug_taken db s) (slug_candidates (slugBase name)) of
        None \<Rightarrow> (Inl NoUniqueSlug, db)
      | Some s \<Rightarrow>
          if has_workspace db i then (Inl (WsDb DuplicateKey), db)
          else (Inr s, db\<lparr>sv_workspaces := sv_workspaces db @
                 [\<lparr>ws_id = i, ws_name = name, ws_slug = s, ws_namespace = nullif_empty namespace,
                   ws_routing = None, ws_created = now, ws_updated = now, ws_deleted = None\<rparr>]\<rparr>))"
proof -
  have L: "slugLoop (\<lambda>_. True) db (slugBase name) (slugBase name) 2 =
     (case find (\<lambda>s. \<not> slug_taken db s) (slug_candidates (slugBase name)) of
        Some s \<Rightarrow> Inr s | None \<Rightarrow> Inl NoUniqueSlug)"
    unfolding slug_candidates_def by (rule slugLoop_find) simp_all
  show ?thesis
  proof (cases "find (\<lambda>s. \<not> slug_taken db s) (slug_candidates (slugBase name))")
    case None
    with L show ?thesis by (simp add: CreateWorkspaceWithSlug_def Let_def)
  next
    case (Some s)
    then have "\<not> slug_taken db s" by (auto dest: find_Some_in)
    then have "list_ex (\<lambda>r. ws_id r = i \<or> ws_slug r = s) (sv_workspaces db) \<longleftrightarrow> has_workspace db i"
      by (auto simp: slug_taken_def has_workspace_def list_ex_iff)
    with Some L show ?thesis
      by (simp add: CreateWorkspaceWithSlug_def insert_workspace_def Let_def)
  qed
qed

text \<open>C21: A workspace without an explicit slug gets the first slug that is free of the one made
  from its name and that with the suffixes 2 to 1000; only when all thousand are taken does
  the creation give up, and then nothing is changed.\<close>

theorem CreateWorkspaceWithSlug_first_free:
  "CreateWorkspaceWithSlug (\<lambda>_. True) now db i name namespace =
     (case find (\<lambda>s. \<not> slug_taken db s) (slug_candidates (slugBase name)) of
        None \<Rightarrow> (Inl NoUniqueSlug, db)
      | Some s \<Rightarrow>
          if has_workspace db i then (Inl (WsDb DuplicateKey), db)
          else (Inr s, db\<lparr>sv_workspaces := sv_workspaces db @
                 [\<lparr>ws_id = i, ws_name = name, ws_slug = s, ws_namespace = nullif_empty namespace,
                   ws_routing = None, ws_created = now, ws_updated = now, ws_deleted = None\<rparr>]\<rparr>))"
  by (rule create_with_slug)

lemma extends_base: "s \<in> set (base # map (\<lambda>k. base @ f k) ks) \<Longrightarrow> \<exists>t. s = base @ t"
  by auto

lemma candidates_extend: "s \<in> set (slug_candidates base) \<Longrightarrow> \<exists>t. s = base @ t"
  unfolding slug_candidates_def by (rule extends_base)

text \<open>The automatic slug is not validated.  A name that starts like a sandbox subdomain, or
  that is longer than a domain label, gets a slug that the validation of an explicit slug
  refuses: the suffix that is meant to repair it leaves the prefix and the length as they are.\<close>

theorem auto_slug_invalid:
  assumes "CreateWorkspaceWithSlug (\<lambda>_. True) now db i name namespace = (Inr s, db')"
    and "HasPrefix (Slugify name) ''claw-'' \<or> HasPrefix (Slugify name) ''hermes-'' \<or> 63 < length (Slugify name)"
  shows "ValidateSlug s \<noteq> None"
proof -
  from assms(1) have "s \<in> set (slug_candidates (slugBase name))"
    unfolding create_with_slug by (auto dest: find_Some_in split: option.splits if_splits)
  then obtain t where "s = slugBase name @ t" using candidates_extend by blast
  moreover have "\<exists>u. slugBase name = Slugify name @ u" by (simp add: slugBase_def Let_def)
  then obtain u where "slugBase name = Slugify name @ u" ..
  ultimately have s: "s = Slugify name @ (u @ t)" by simp
  from assms(2) have "HasPrefix s ''claw-'' \<or> HasPrefix s ''hermes-'' \<or> 63 < length s"
    unfolding s using HasPrefix_appendI by auto
  then show ?thesis
    unfolding ValidateSlug_def minSlugLen_def maxSlugLen_def
    by (auto simp: reservedPrefixes_def find_None_all)
qed

declare One_nat_def [simp del]

section \<open>Who changes the members\<close>

definition role_of :: "srv_db \<Rightarrow> string \<Rightarrow> string \<Rightarrow> string" where
  "role_of db w user =
     (case find (\<lambda>m. me_ws m = w \<and> me_user m = user) (sv_members db) of
        Some m \<Rightarrow> me_role m | None \<Rightarrow> [])"

lemma role_of_cong: "sv_members db = sv_members db' \<Longrightarrow> role_of db w v = role_of db' w v"
  by (simp add: role_of_def)

lemma requireWorkspaceRole_None:
  "requireWorkspaceRole up db user w allowed = None \<Longrightarrow> role_of db w user \<in> set allowed \<and> role_of db w user \<noteq> []"
  by (auto simp: requireWorkspaceRole_def requireWorkspaceMember_def GetWorkspaceMemberRole_def role_of_def
      split: sum.splits if_splits)

lemma requireWorkspaceRole_ok:
  "role_of db w user \<in> set allowed \<Longrightarrow> role_of db w user \<noteq> [] \<Longrightarrow>
     requireWorkspaceRole True db user w allowed = None"
  by (simp add: requireWorkspaceRole_def requireWorkspaceMember_def GetWorkspaceMemberRole_def role_of_def)

lemma find_filter_and: "find P (filter Q xs) = find (\<lambda>x. Q x \<and> P x) xs"
  by (induction xs) auto

lemma find_ext: "(\<And>x. P x = Q x) \<Longrightarrow> find P xs = find Q xs"
  by (rule arg_cong [where f = "\<lambda>P. find P xs"]) auto

lemma role_add:
  assumes "AddWorkspaceMember up now db w u r = (e, db1)"
  shows "role_of db1 v x = (if e = None \<and> v = w \<and> x = u then r else role_of db v x)"
    and "e = None \<Longrightarrow> role_of db w u = []"
proof -
  have none: "find (\<lambda>m. me_ws m = w \<and> me_user m = u) (sv_members db) = None" if "e = None"
    using assms that by (auto simp: AddWorkspaceMember_def find_None_iff list_ex_iff split: if_splits)
  then show "e = None \<Longrightarrow> role_of db w u = []" by (simp add: role_of_def)
  show "role_of db1 v x = (if e = None \<and> v = w \<and> x = u then r else role_of db v x)"
  proof (cases "e = None")
    case True
    with assms have "sv_members db1 =
        sv_members db @ [\<lparr>me_ws = w, me_user = u, me_role = r, me_created = now\<rparr>]"
      by (auto simp: AddWorkspaceMember_def split: if_splits)
    with True none show ?thesis by (auto simp: role_of_def find_append split: option.splits)
  next
    case False
    with assms have "db1 = db" by (auto simp: AddWorkspaceMember_def split: if_splits)
    moreover from False have "\<not> (e = None \<and> v = w \<and> x = u)" by simp
    ultimately show ?thesis by (simp only: if_False)
  qed
qed

lemma role_update:
  assumes "UpdateWorkspaceMemberRole up db w u r = (e, db1)" and "(v, x) \<noteq> (w, u)"
  shows "role_of db1 v x = role_of db v x"
proof (cases up)
  case True
  with assms have m: "sv_members db1 =
      update_rows (\<lambda>m. me_ws m = w \<and> me_user m = u) (\<lambda>m. m\<lparr>me_role := r\<rparr>) (sv_members db)"
    by (auto simp: UpdateWorkspaceMemberRole_def)
  have "find (\<lambda>m. me_ws m = v \<and> me_user m = x) (sv_members db1) =
      map_option (\<lambda>m. if me_ws m = w \<and> me_user m = u then m\<lparr>me_role := r\<rparr> else m)
        (find (\<lambda>m. me_ws m = v \<and> me_user m = x) (sv_members db))"
    unfolding m by (rule find_update_rows) simp
  with assms(2) show ?thesis
    by (auto simp: role_of_def split: option.splits dest!: find_Some_in)
qed (use assms in \<open>simp add: UpdateWorkspaceMemberRole_def\<close>)

lemma role_remove:
  assumes "RemoveWorkspaceMember up db w u = (e, db1)"
  shows "role_of db1 v x = (if e = None \<and> v = w \<and> x = u then [] else role_of db v x)"
proof (cases up)
  case True
  with assms have m: "e = None"
    "sv_members db1 = filter (\<lambda>m. \<not> (me_ws m = w \<and> me_user m = u)) (sv_members db)"
    by (auto simp: RemoveWorkspaceMember_def)
  show ?thesis
  proof (cases "v = w \<and> x = u")
    case True
    then show ?thesis by (auto simp: role_of_def m find_filter_and find_None_iff split: option.splits dest!: find_Some_in)
  next
    case False
    have "find (\<lambda>y. me_ws y = v \<and> me_user y = x) (sv_members db1) =
        find (\<lambda>y. me_ws y = v \<and> me_user y = x) (sv_members db)"
      unfolding m(2) find_filter_and by (rule find_ext) (use False in auto)
    then have "role_of db1 v x = role_of db v x" by (simp add: role_of_def)
    moreover from False have "\<not> (e = None \<and> v = w \<and> x = u)" by simp
    ultimately show ?thesis by (simp only: if_False)
  qed
qed (use assms in \<open>auto simp: RemoveWorkspaceMember_def\<close>)

lemma role_delete_workspace:
  "v \<noteq> i \<Longrightarrow> role_of (snd (DeleteWorkspace up db i)) v x = role_of db v x"
proof -
  assume v: "v \<noteq> i"
  have *: "find (\<lambda>y. me_ws y = v \<and> me_user y = x) (filter (\<lambda>m. me_ws m \<noteq> i) ms) =
      find (\<lambda>y. me_ws y = v \<and> me_user y = x) ms" for ms
    unfolding find_filter_and by (rule find_ext) (use v in auto)
  show ?thesis
    by (simp add: DeleteWorkspace_def role_of_def Let_def drop_sandboxes_def *)
qed

lemma members_kept [simp]:
  "sv_members (snd (insert_workspace up now db i n s ns)) = sv_members db"
  "sv_members (snd (SetWorkspaceNamespace up now db i ns)) = sv_members db"
  "sv_members (snd (UpdateWorkspaceName up now db i n)) = sv_members db"
  "sv_members (snd (SoftDeleteWorkspace up now db i)) = sv_members db"
  "sv_members (snd (DeleteWorkspaceDrafts ups db i)) = sv_members db"
  "sv_members (snd (ClearActiveWorkspace up db i)) = sv_members db"
  "sv_members (snd (DeleteSandbox up db j)) = sv_members db"
  by (simp_all add: insert_workspace_def SetWorkspaceNamespace_def UpdateWorkspaceName_def
      SoftDeleteWorkspace_def DeleteWorkspaceDrafts_def ClearActiveWorkspace_def DeleteSandbox_def
      drop_sandboxes_def Let_def)

lemma members_create [simp]:
  "sv_members (snd (CreateWorkspaceWithSlug up' now db i n ns)) = sv_members db"
  "sv_members (snd (CreateWorkspace up' now db i n)) = sv_members db"
  "sv_members (snd (CreateWorkspaceExplicit up' now db i n s ns)) = sv_members db"
proof -
  have *: "sv_members (snd (CreateWorkspaceWithSlug up' now db i n ns)) = sv_members db" for ns
    by (simp add: CreateWorkspaceWithSlug_def Let_def insert_workspace_def split: sum.split prod.split)
  then show "sv_members (snd (CreateWorkspaceWithSlug up' now db i n ns)) = sv_members db" .
  show "sv_members (snd (CreateWorkspace up' now db i n)) = sv_members db"
    using * [of "[]"] by (auto simp: CreateWorkspace_def split: sum.split prod.split)
  show "sv_members (snd (CreateWorkspaceExplicit up' now db i n s ns)) = sv_members db"
    by (simp add: CreateWorkspaceExplicit_def insert_workspace_def split: option.split sum.split bool.split)
qed

lemma members_deleteSandboxes [simp]:
  "sv_members (snd (deleteSandboxes up' namespace tunnels n ss db)) = sv_members db"
proof (induction ss arbitrary: n db)
  case (Cons s ss)
  show ?case by (simp add: Let_def case_prod_beta Cons.IH)
qed simp


lemma snd_eq: "f = (a, b) \<Longrightarrow> snd f = b"
  by simp

text \<open>The requests that reach the members table; a new workspace has an unused identifier.\<close>

definition unused_workspace :: "srv_db \<Rightarrow> string \<Rightarrow> bool" where
  "unused_workspace db i \<longleftrightarrow> \<not> has_workspace db i \<and> (\<forall>m\<in>set (sv_members db). me_ws m \<noteq> i)"

inductive tenant_step :: "string \<Rightarrow> srv_db \<Rightarrow> srv_db \<Rightarrow> bool" for user where
  create: "unused_workspace db i \<Longrightarrow>
    tenant_step user db (snd (handleCreateWorkspace flt dur env up now nsm user i req db))"
| rename: "tenant_step user db (snd (handleRenameWorkspace up now user i req1 db))"
| delete: "tenant_step user db (snd (snd (handleDeleteWorkspace up now tunnels user i db)))"
| add: "tenant_step user db (snd (handleAddMember up now user w req db))"
| set_role: "tenant_step user db (snd (handleUpdateMemberRole up user w target req1 db))"
| remove: "tenant_step user db (snd (handleRemoveMember up user w target db))"

lemma unused_role: "unused_workspace db i \<Longrightarrow> role_of db i v = []"
  by (auto simp: unused_workspace_def role_of_def split: option.splits dest!: find_Some_in)

lemma readBack_db [simp]: "snd (readBack up i db) = db"
  by (simp add: readBack_def split: sum.split option.split)

lemma role_delete_empty: "role_of db i x = [] \<Longrightarrow> role_of (snd (DeleteWorkspace up db i)) v x = role_of db v x"
proof (cases "v = i")
  case True
  assume "role_of db i x = []"
  moreover have *: "find (\<lambda>m. me_ws m = i \<and> me_user m = x) (filter (\<lambda>m. me_ws m \<noteq> i) ms) = None" for ms
    by (auto simp: find_None_iff)
  ultimately show ?thesis using True
    by (simp add: DeleteWorkspace_def role_of_def Let_def drop_sandboxes_def *)
qed (rule role_delete_workspace)

lemma own_role:
  assumes "v \<noteq> i \<or> (x \<noteq> user \<and> role_of db i x = [])"
  shows "role_of (snd (ownWorkspace up now nsm user i db)) v x = role_of db v x"
proof -
  obtain e db2 where a: "AddWorkspaceMember (up 11) now db i user ''owner'' = (e, db2)" by (meson surj_pair)
  have r: "role_of db2 v x = role_of db v x" using role_add(1) [OF a] assms by auto
  have n: "role_of (snd (SetWorkspaceNamespace u now db2 i ns)) v' x = role_of db2 v' x" for u ns v'
    by (rule role_of_cong) simp
  have d: "role_of (snd (DeleteWorkspace u d i)) v x = role_of d v x"
    if "\<And>v. role_of d v x = role_of db2 v x" for u d
  proof (cases "v = i")
    case True
    with assms have "x \<noteq> user" "role_of db i x = []" by auto
    with role_add(1) [OF a] that have "role_of d i x = []" by simp
    then show ?thesis by (rule role_delete_empty)
  qed (rule role_delete_workspace)
  show ?thesis
    using a r n d
    by (auto simp: ownWorkspace_def Let_def split: option.splits prod.splits dest!: snd_eq)
qed

lemma newWorkspace_members [simp]: "sv_members (snd (newWorkspace up now i n s db)) = sv_members db"
  by (simp add: newWorkspace_def)

lemma create_cases:
  obtains "snd (handleCreateWorkspace flt dur env up now nsm user i req db) = db"
  | up' n s e db1 where "newWorkspace up' now i n s db = (e, db1)"
      "snd (handleCreateWorkspace flt dur env up now nsm user i req db) \<in>
        {db1, snd (ownWorkspace up now nsm user i db1)}"
proof (cases "checkWorkspaceQuota flt dur env up db user")
  case (Inl e)
  then show ?thesis by (intro that(1)) (simp add: handleCreateWorkspace_def)
next
  case (Inr r)
  obtain allowed c m where r: "r = (allowed, c, m)" by (metis surj_pair)
  obtain n0 s0 where p: "(case req of None \<Rightarrow> (''New Workspace'', []) | Some p \<Rightarrow> p) = (n0, s0)"
    by (metis surj_pair)
  let ?n = "if n0 = [] then ''New Workspace'' else n0" and ?s = "TrimSpace s0"
  obtain e db1 where n: "newWorkspace (\<lambda>k. up (100 + k)) now i ?n ?s db = (e, db1)" by (metis surj_pair)
  have "snd (handleCreateWorkspace flt dur env up now nsm user i req db) = db \<or>
      snd (handleCreateWorkspace flt dur env up now nsm user i req db) \<in>
        {db1, snd (ownWorkspace up now nsm user i db1)}"
    unfolding handleCreateWorkspace_def Inr r sum.case prod.case p Let_def n
    by (cases e) simp_all
  with n show ?thesis using that by blast
qed

lemma create_role:
  assumes "unused_workspace db i" and "v \<noteq> i \<or> x \<noteq> user"
  shows "role_of (snd (handleCreateWorkspace flt dur env up now nsm user i req db)) v x = role_of db v x"
proof (rule create_cases [of flt dur env up now nsm user i req db])
  fix up' n s e db1
  assume n: "newWorkspace up' now i n s db = (e, db1)"
    and h: "snd (handleCreateWorkspace flt dur env up now nsm user i req db) \<in>
        {db1, snd (ownWorkspace up now nsm user i db1)}"
  have m: "role_of db1 w y = role_of db w y" for w y
    using newWorkspace_members [of up' now i n s db] n by (intro role_of_cong) simp
  have "role_of (snd (ownWorkspace up now nsm user i db1)) v x = role_of db1 v x"
    by (rule own_role) (use assms unused_role [OF assms(1)] in \<open>auto simp: m\<close>)
  with h m [of v x] show ?thesis by auto
qed simp

lemma rename_members [simp]: "sv_members (snd (handleRenameWorkspace up now user i req1 db)) = sv_members db"
proof -
  obtain e db1 where u: "UpdateWorkspaceName (up 1) now db i (the req1) = (e, db1)" by (metis surj_pair)
  with members_kept(3) [of "up 1" now db i "the req1"] have "sv_members db1 = sv_members db" by simp
  then show ?thesis unfolding handleRenameWorkspace_def u
    by (cases e) (simp_all split: option.split sum.split)
qed

lemma delete_members [simp]:
  "sv_members (snd (snd (handleDeleteWorkspace up now tunnels user i db))) = sv_members db"
proof (cases "GetWorkspace (up 1) db i")
  case (Inr wo)
  show ?thesis
  proof (cases wo)
    case (Some ws)
    obtain stops db1 where a: "deleteSandboxes (\<lambda>n. up (7 + n)) (coalesce (w_namespace ws)) tunnels 0
        (ListByWorkspace (up 2) db i) db = (stops, db1)" by (metis surj_pair)
    obtain e2 db2 where b: "SoftDeleteWorkspace (up 3) now db1 i = (e2, db2)" by (metis surj_pair)
    obtain e3 db3 where c: "DeleteWorkspaceDrafts (\<lambda>k. up (4 + k)) db2 i = (e3, db3)" by (metis surj_pair)
    have m: "sv_members db1 = sv_members db" "sv_members db2 = sv_members db1" "sv_members db3 = sv_members db2"
      using members_deleteSandboxes [of "\<lambda>n. up (7 + n)" "coalesce (w_namespace ws)" tunnels 0
          "ListByWorkspace (up 2) db i" db] members_kept(4) [of "up 3" now db1 i]
        members_kept(5) [of "\<lambda>k. up (4 + k)" db2 i] a b c by simp_all
    show ?thesis
      unfolding handleDeleteWorkspace_def Inr Some sum.case option.case a prod.case Let_def b c
      using m by (cases "requireWorkspaceRole (up 0) db user i [''owner'']"; cases e2; cases "the e2"; cases e3)
        (auto split: prod.splits)
  qed (simp add: handleDeleteWorkspace_def Inr split: option.split prod.split)
qed (simp add: handleDeleteWorkspace_def split: option.split prod.split)

lemma add_member_role:
  assumes "role_of (snd (handleAddMember up now user w' req db)) w v \<noteq> role_of db w v"
  shows "role_of db w v = [] \<and> role_of db w user \<in> {''owner'', ''maintainer''}"
proof (cases "requireWorkspaceRole (up 0) db user w' [''owner'', ''maintainer'']")
  case None
  show ?thesis
  proof (cases req)
    case (Some p)
    obtain email r0 where p: "p = (email, r0)" by (metis surj_pair)
    show ?thesis
    proof (cases "GetUserByEmail (up 1) db email")
      case (Inr uo)
      show ?thesis
      proof (cases uo)
        case (Some u)
        define r where "r = (if r0 = [] then ''developer'' else r0)"
        obtain e db1 where a: "AddWorkspaceMember (up 2) now db w' u r = (e, db1)" by (metis surj_pair)
        have "snd (handleAddMember up now user w' req db) = db1"
          unfolding handleAddMember_def None \<open>req = Some p\<close> p option.case prod.case Inr Some sum.case Let_def
            r_def [symmetric] a
          by (cases e) simp_all
        with assms role_add [OF a] requireWorkspaceRole_None [OF None] show ?thesis
          by (auto split: if_splits)
      qed (use assms p \<open>req = Some p\<close> None Inr in \<open>simp add: handleAddMember_def\<close>)
    qed (use assms p Some None in \<open>simp add: handleAddMember_def\<close>)
  qed (use assms None in \<open>simp add: handleAddMember_def\<close>)
qed (use assms in \<open>simp add: handleAddMember_def split: prod.splits\<close>)

lemma set_member_role:
  assumes "role_of (snd (handleUpdateMemberRole up user w' target req1 db)) w v \<noteq> role_of db w v"
  shows "role_of db w user = ''owner''"
proof (cases "requireWorkspaceRole (up 0) db user w' [''owner'']")
  case None
  obtain e db1 where a: "UpdateWorkspaceMemberRole (up 1) db w' target (the req1) = (e, db1)" by (metis surj_pair)
  have s: "snd (handleUpdateMemberRole up user w' target req1 db) \<in> {db, db1}"
    unfolding handleUpdateMemberRole_def None option.case a by (cases e) simp_all
  have "w = w'"
  proof (rule ccontr)
    assume "w \<noteq> w'"
    then have "role_of db1 w v = role_of db w v" using role_update [OF a, of w v] by simp
    with s assms show False by auto
  qed
  with requireWorkspaceRole_None [OF None] show ?thesis by simp
qed (use assms in \<open>simp add: handleUpdateMemberRole_def split: prod.splits\<close>)

lemma remove_member_role:
  assumes "role_of (snd (handleRemoveMember up user w' target db)) w v \<noteq> role_of db w v"
  shows "role_of db w user = ''owner''"
proof (cases "requireWorkspaceRole (up 0) db user w' [''owner'']")
  case None
  obtain e db1 where a: "RemoveWorkspaceMember (up 1) db w' target = (e, db1)" by (metis surj_pair)
  have "snd (handleRemoveMember up user w' target db) = db1"
    unfolding handleRemoveMember_def None option.case a by (cases e) simp_all
  with assms role_remove [OF a] requireWorkspaceRole_None [OF None] show ?thesis by (auto split: if_splits)
qed (use assms in \<open>simp add: handleRemoveMember_def split: prod.splits\<close>)

text \<open>The roles that such a request changes; \<open>Memberships\<close> adds invitations, sign-ups and deletions.\<close>

lemma tenant_step_role:
  assumes "tenant_step user db db'" and "role_of db' w v \<noteq> role_of db w v"
  shows "role_of db w user = ''owner'' \<or>
     (role_of db w v = [] \<and> (role_of db w user = ''maintainer'' \<or> (unused_workspace db w \<and> v = user)))"
  using assms
proof (induction rule: tenant_step.cases)
  case (create d i flt dur env up now nsm req)
  then have "w = i \<and> v = user" using create_role by metis
  with create unused_role show ?case by blast
next
  case (rename d up now i req1)
  then show ?case using role_of_cong [OF rename_members [of up now user i req1 d]] by simp
next
  case (delete d up now tunnels i)
  then show ?case using role_of_cong [OF delete_members [of up now tunnels user i d]] by simp
next
  case (add d up now w' req)
  then show ?case using add_member_role [of up now user w' req d w v] by auto
next
  case (set_role d up w' target req1)
  then show ?case using set_member_role [of up user w' target req1 d w v] by simp
next
  case (remove d up w' target)
  then show ?case using remove_member_role [of up user w' target d w v] by simp
qed

text \<open>A maintainer can take a workspace over.  Adding a member accepts any role, so a maintainer
  can add a second account as an owner, and that one can remove the first owner; changing a
  role, in contrast, is refused to maintainers.\<close>

theorem maintainer_takeover:
  assumes "role_of db w m = ''maintainer''" and "has_workspace db w"
    and "GetUserByEmail True db email = Inr (Some v)" and "\<not> list_ex (\<lambda>x. me_ws x = w \<and> me_user x = v) (sv_members db)"
    and "role_of db w ow \<noteq> []" and "ow \<noteq> v"
    and "handleAddMember (\<lambda>_. True) now m w (Some (email, ''owner'')) db = (res, db1)"
    and "handleRemoveMember (\<lambda>_. True) v w ow db1 = (res2, db2)"
  shows "res = Reply 201 (v, ''owner'') \<and> res2 = Reply 204 () \<and> role_of db2 w v = ''owner'' \<and>
     role_of db2 w ow = [] \<and>
     fst (handleUpdateMemberRole (\<lambda>_. True) m w v (Some ''owner'') db) = ErrorReply 403 ''insufficient permissions''"
proof -
  have u: "has_user db v"
    using assms(3) by (force simp: GetUserByEmail_def has_user_def list_ex_iff dest!: find_Some_in)
  obtain e d1 where a: "AddWorkspaceMember True now db w v ''owner'' = (e, d1)" by (metis surj_pair)
  have e: "e = None" using a assms(2,4) u by (auto simp: AddWorkspaceMember_def split: if_splits)
  have r: "requireWorkspaceRole True db m w [''owner'', ''maintainer''] = None"
    using assms(1) by (intro requireWorkspaceRole_ok) simp_all
  have add: "res = Reply 201 (v, ''owner'')" "db1 = d1"
    using assms(7) by (simp_all add: handleAddMember_def r assms(3) a e)
  have ov: "role_of db1 w v = ''owner''" using role_add(1) [OF a] e add(2) by simp
  then have r2: "requireWorkspaceRole True db1 v w [''owner''] = None"
    by (intro requireWorkspaceRole_ok) simp_all
  obtain e2 d2 where b: "RemoveWorkspaceMember True db1 w ow = (e2, d2)" by (metis surj_pair)
  have e2: "e2 = None" using b by (auto simp: RemoveWorkspaceMember_def)
  have rem: "res2 = Reply 204 ()" "db2 = d2"
    using assms(8) by (simp_all add: handleRemoveMember_def r2 b e2)
  have "requireWorkspaceRole True db m w [''owner''] = Some (403, ''insufficient permissions'')"
    using assms(1)
    by (auto simp: requireWorkspaceRole_def requireWorkspaceMember_def GetWorkspaceMemberRole_def role_of_def
        split: option.splits)
  then show ?thesis
    using add rem role_remove [OF b] ov e2 assms(6) by (simp add: handleUpdateMemberRole_def)
qed

section \<open>Deleted workspaces\<close>

lemma delete_ok:
  assumes "handleDeleteWorkspace up now tunnels user i db = (Reply 204 (), stops, db')"
  obtains ws :: Workspace and db1 db2 db3 where
    "deleteSandboxes (\<lambda>n. up (7 + n)) (coalesce (w_namespace ws)) tunnels 0 (ListByWorkspace (up 2) db i) db =
       (stops, db1)"
    "SoftDeleteWorkspace (up 3) now db1 i = (None, db2)"
    "DeleteWorkspaceDrafts (\<lambda>k. up (4 + k)) db2 i = (None, db3)"
    "db' = snd (ClearActiveWorkspace (up 6) db3 i)"
proof (cases "GetWorkspace (up 1) db i")
  case (Inr wo)
  show ?thesis
  proof (cases wo)
    case (Some ws)
    obtain st db1 where a: "deleteSandboxes (\<lambda>n. up (7 + n)) (coalesce (w_namespace ws)) tunnels 0
        (ListByWorkspace (up 2) db i) db = (st, db1)" by (metis surj_pair)
    obtain e2 db2 where b: "SoftDeleteWorkspace (up 3) now db1 i = (e2, db2)" by (metis surj_pair)
    obtain e3 db3 where c: "DeleteWorkspaceDrafts (\<lambda>k. up (4 + k)) db2 i = (e3, db3)" by (metis surj_pair)
    have "e2 = None \<and> e3 = None \<and> st = stops \<and> db' = snd (ClearActiveWorkspace (up 6) db3 i)"
      using assms
      unfolding handleDeleteWorkspace_def Inr Some sum.case option.case a prod.case Let_def b c
      by (auto split: option.splits prod.splits soft_err.splits)
    with a b c show ?thesis by (intro that [of ws db1 db2 db3]) simp_all
  qed (use assms in \<open>simp add: handleDeleteWorkspace_def Inr split: option.splits prod.splits\<close>)
qed (use assms in \<open>simp add: handleDeleteWorkspace_def split: option.splits prod.splits\<close>)

lemma drop_sandboxes_frame [simp]:
  "sv_settings (drop_sandboxes P db) = sv_settings db"
  "sv_user_quotas (drop_sandboxes P db) = sv_user_quotas db"
  "sv_workspaces (drop_sandboxes P db) = sv_workspaces db"
  "sv_members (drop_sandboxes P db) = sv_members db"
  "sv_sandboxes (drop_sandboxes P db) = filter (\<lambda>r. \<not> P r) (sv_sandboxes db)"
  by (simp_all add: drop_sandboxes_def Let_def)

lemma deleteSandboxes_frame:
  "deleteSandboxes up namespace tunnels n ss db = (stops, db1) \<Longrightarrow>
     sv_settings db1 = sv_settings db \<and> sv_user_quotas db1 = sv_user_quotas db \<and>
     sv_workspaces db1 = sv_workspaces db \<and> sv_members db1 = sv_members db"
proof (induction ss arbitrary: n db stops db1)
  case (Cons s ss)
  let ?d = "if x_local s then db else snd (DeleteSandbox (up n) db (x_id s))"
  obtain st d1 where d: "deleteSandboxes up namespace tunnels (Suc n) ss ?d = (st, d1)" by (metis surj_pair)
  with Cons.prems have "db1 = d1" by (simp add: Let_def)
  with Cons.IH [OF d] show ?case by (simp add: DeleteSandbox_def split: if_splits)
qed simp

lemma deleteSandboxes_keeps:
  assumes "r \<in> set (sv_sandboxes db)" and "\<forall>s\<in>set ss. x_local s \<or> x_id s \<noteq> sb_id r"
    and "deleteSandboxes up namespace tunnels n ss db = (stops, db1)"
  shows "r \<in> set (sv_sandboxes db1)"
  using assms
proof (induction ss arbitrary: n db stops db1)
  case (Cons s ss)
  let ?d = "if x_local s then db else snd (DeleteSandbox (up n) db (x_id s))"
  obtain st d1 where d: "deleteSandboxes up namespace tunnels (Suc n) ss ?d = (st, d1)" by (metis surj_pair)
  with Cons.prems(3) have "db1 = d1" by (simp add: Let_def)
  moreover have "r \<in> set (sv_sandboxes ?d)" using Cons.prems(1,2) by (auto simp: DeleteSandbox_def)
  ultimately show ?case using Cons.IH [OF _ _ d] Cons.prems(2) by auto
qed simp

lemma delete_frame:
  assumes "handleDeleteWorkspace up now tunnels user i db = (Reply 204 (), stops, db')"
  shows "sv_settings db' = sv_settings db" "sv_user_quotas db' = sv_user_quotas db"
    "sv_members db' = sv_members db"
    "sv_workspaces db' = update_rows (\<lambda>r. ws_id r = i \<and> ws_deleted r = None)
       (\<lambda>r. r\<lparr>ws_deleted := Some now, ws_updated := now\<rparr>) (sv_workspaces db)"
proof -
  from assms obtain ws :: Workspace and db1 db2 db3 where d:
    "deleteSandboxes (\<lambda>n. up (7 + n)) (coalesce (w_namespace ws)) tunnels 0 (ListByWorkspace (up 2) db i) db =
       (stops, db1)" "SoftDeleteWorkspace (up 3) now db1 i = (None, db2)"
    "DeleteWorkspaceDrafts (\<lambda>k. up (4 + k)) db2 i = (None, db3)" "db' = snd (ClearActiveWorkspace (up 6) db3 i)"
    by (rule delete_ok)
  note f = deleteSandboxes_frame [OF d(1)]
  have s: "sv_settings db2 = sv_settings db1" "sv_user_quotas db2 = sv_user_quotas db1"
    "sv_members db2 = sv_members db1" "sv_workspaces db2 = update_rows (\<lambda>r. ws_id r = i \<and> ws_deleted r = None)
       (\<lambda>r. r\<lparr>ws_deleted := Some now, ws_updated := now\<rparr>) (sv_workspaces db1)"
    using d(2) by (auto simp: SoftDeleteWorkspace_def Let_def split: if_splits)
  have t: "sv_settings db3 = sv_settings db2" "sv_user_quotas db3 = sv_user_quotas db2"
    "sv_members db3 = sv_members db2" "sv_workspaces db3 = sv_workspaces db2"
    using d(3) by (auto simp: DeleteWorkspaceDrafts_def Let_def split: if_splits)
  show "sv_settings db' = sv_settings db" "sv_user_quotas db' = sv_user_quotas db"
    "sv_members db' = sv_members db"
    "sv_workspaces db' = update_rows (\<lambda>r. ws_id r = i \<and> ws_deleted r = None)
       (\<lambda>r. r\<lparr>ws_deleted := Some now, ws_updated := now\<rparr>) (sv_workspaces db)"
    using f s t d(4) by (simp_all add: ClearActiveWorkspace_def)
qed

lemma quota_cong:
  assumes "sv_settings db' = sv_settings db" "sv_user_quotas db' = sv_user_quotas db"
    "sv_members db' = sv_members db"
  shows "checkWorkspaceQuota flt dur env up db' user = checkWorkspaceQuota flt dur env up db user"
proof -
  have s: "setting u db' k = setting u db k" for u k
    by (simp add: setting_def GetSystemSetting_def assms(1))
  have r: "getResourceDefaults flt dur env up db' = getResourceDefaults flt dur env up db"
    unfolding getResourceDefaults_def s ..
  show ?thesis
    unfolding checkWorkspaceQuota_def effectiveQuota_def GetUserQuota_def CountWorkspacesOwnedByUser_def
      assms(2,3) r ..
qed

lemma soft_deleted:
  "r \<in> set (update_rows (\<lambda>r. ws_id r = i \<and> ws_deleted r = None)
     (\<lambda>r. r\<lparr>ws_deleted := Some now, ws_updated := now\<rparr>) rs) \<Longrightarrow> ws_id r = i \<Longrightarrow> ws_deleted r \<noteq> None"
  unfolding set_update_rows by (erule imageE) (simp split: if_splits)

text \<open>A deleted workspace still counts.  Deleting one takes it off its owner's list, but its
  membership stays, so an owner at the limit is refused a new workspace as before.\<close>

theorem deleted_workspace_counts:
  assumes "handleDeleteWorkspace up now tunnels user i db = (Reply 204 (), stops, db1)"
    and "checkWorkspaceQuota flt dur env (\<lambda>_. True) db user = Inr (False, c, m)"
  shows "(\<exists>l. ListWorkspacesByUser True db1 user = Inr l \<and> i \<notin> w_id ` set l) \<and>
     handleCreateWorkspace flt dur env (\<lambda>_. True) later nsm user j req db1 = (ErrorReply 403 ''quota_exceeded'', db1)"
proof
  note f = delete_frame [OF assms(1)]
  show "\<exists>l. ListWorkspacesByUser True db1 user = Inr l \<and> i \<notin> w_id ` set l"
    using soft_deleted by (fastforce simp: ListWorkspacesByUser_def f(4) scan_workspace_def)
  show "handleCreateWorkspace flt dur env (\<lambda>_. True) later nsm user j req db1 = (ErrorReply 403 ''quota_exceeded'', db1)"
    unfolding handleCreateWorkspace_def quota_cong [OF f(1-3)] assms(2) by simp
qed

text \<open>A deleted workspace keeps its local agents.  The loop of the deletion skips them, so
  their tokens still identify a sandbox of the deleted workspace.\<close>

theorem deleted_workspace_keeps_agents:
  assumes "handleDeleteWorkspace up now tunnels user i db = (Reply 204 (), stops, db1)"
    and "r \<in> set (sv_sandboxes db)" and "sb_local r" and "sb_ws r = i" and "sb_tunnel r = Some tok"
    and "distinct (map sb_id (sv_sandboxes db))"
  shows "r \<in> set (sv_sandboxes db1) \<and> GetWorkspace True db1 i = Inr None \<and>
     (\<exists>s. GetSandboxByAnyToken (\<lambda>_. True) db1 tok = Inr (Some s))"
proof -
  from assms(1) obtain ws :: Workspace and d1 d2 d3 where d:
    "deleteSandboxes (\<lambda>n. up (7 + n)) (coalesce (w_namespace ws)) tunnels 0 (ListByWorkspace (up 2) db i) db =
       (stops, d1)" "SoftDeleteWorkspace (up 3) now d1 i = (None, d2)"
    "DeleteWorkspaceDrafts (\<lambda>k. up (4 + k)) d2 i = (None, d3)" "db1 = snd (ClearActiveWorkspace (up 6) d3 i)"
    by (rule delete_ok)
  have "x_local s \<or> x_id s \<noteq> sb_id r" if "s \<in> set (ListByWorkspace (up 2) db i)" for s
  proof -
    from that obtain x where "x \<in> set (sv_sandboxes db)" "x_id s = sb_id x" "x_local s = sb_local x"
      by (auto simp: ListByWorkspace_def ListSandboxesByWorkspace_def dbSandboxToSandbox_def split: if_splits)
    then show ?thesis using distinct_map_inj_on [OF assms(6) _ assms(2), of x] assms(3) by auto
  qed
  then have "r \<in> set (sv_sandboxes d1)" using deleteSandboxes_keeps [OF assms(2) _ d(1)] by blast
  then have "r \<in> set (sv_sandboxes db1)"
    using d(2-4) by (auto simp: SoftDeleteWorkspace_def DeleteWorkspaceDrafts_def ClearActiveWorkspace_def
        Let_def split: if_splits)
  moreover from this have "find (\<lambda>r. sb_tunnel r = Some tok) (sv_sandboxes db1) \<noteq> None"
    using assms(5) by (auto simp: find_None_iff)
  then have "\<exists>s. GetSandboxByAnyToken (\<lambda>_. True) db1 tok = Inr (Some s)"
    by (auto simp: GetSandboxByAnyToken_def GetSandboxByProxyToken_def split: option.splits)
  moreover have "GetWorkspace True db1 i = Inr None"
    using soft_deleted by (fastforce simp: GetWorkspace_def delete_frame(4) [OF assms(1)] find_None_iff)
  ultimately show ?thesis by blast
qed

section \<open>The limit on workspaces\<close>

lemma own_ok:
  assumes "ownWorkspace up now nsm user i db = (Reply 201 ws, db')"
  shows "sv_members db' = sv_members db @ [\<lparr>me_ws = i, me_user = user, me_role = ''owner'', me_created = now\<rparr>]"
proof -
  obtain e d where a: "AddWorkspaceMember (up 11) now db i user ''owner'' = (e, d)" by (metis surj_pair)
  have e: "e = None" using assms unfolding ownWorkspace_def a Let_def by (cases e) simp_all
  with a have d: "sv_members d = sv_members db @
      [\<lparr>me_ws = i, me_user = user, me_role = ''owner'', me_created = now\<rparr>]"
    by (auto simp: AddWorkspaceMember_def split: if_splits)
  have "sv_members db' = sv_members d"
  proof (cases "nsm")
    case None
    then have "readBack (up 14) i d = (Reply 201 ws, db')" using assms by (simp add: ownWorkspace_def a e)
    then show ?thesis using readBack_db [of "up 14" i d] by simp
  next
    case (Some r)
    show ?thesis
    proof (cases r)
      case None
      with assms \<open>nsm = Some r\<close> show ?thesis by (simp add: ownWorkspace_def a e)
    next
      case (Some ns)
      obtain e2 d2 where b: "SetWorkspaceNamespace (up 13) now d i ns = (e2, d2)" by (metis surj_pair)
      have "e2 = None" using assms \<open>nsm = Some r\<close> Some by (cases e2) (simp_all add: ownWorkspace_def a e b)
      then have "readBack (up 14) i d2 = (Reply 201 ws, db')"
        using assms \<open>nsm = Some r\<close> Some by (simp add: ownWorkspace_def a e b)
      then have "db' = d2" using readBack_db [of "up 14" i d2] by simp
      with b members_kept(2) [of "up 13" now d i ns] show ?thesis by simp
    qed
  qed
  with d show ?thesis by simp
qed

text \<open>A created workspace is owned by its creator, counts, and stays within the limit.\<close>

theorem create_workspace_within_limit:
  assumes "handleCreateWorkspace flt dur env (\<lambda>_. True) now nsm user i req db = (Reply 201 ws, db')"
    and "unused_workspace db i"
  shows "\<exists>limit n. effectiveQuota flt dur env (\<lambda>_. True) db user = Inr limit \<and>
     CountWorkspacesOwnedByUser True db user = Inr n \<and>
     CountWorkspacesOwnedByUser True db' user = Inr (n + 1) \<and> (limit = 0 \<or> n + 1 \<le> limit) \<and>
     role_of db' i user = ''owner''"
proof -
  have r0: "role_of db i user = []" using unused_role [OF assms(2)] .
  show ?thesis
  proof (cases "effectiveQuota flt dur env (\<lambda>_. True) db user")
    case (Inr limit)
    let ?n = "int (length (filter (\<lambda>m. me_user m = user \<and> me_role m = ''owner'') (sv_members db)))"
    obtain n0 s0 where p: "(case req of None \<Rightarrow> (''New Workspace'', []) | Some p \<Rightarrow> p) = (n0, s0)"
      by (metis surj_pair)
    define nm where "nm = (if n0 = [] then ''New Workspace'' else n0)"
    obtain e d1 where w: "newWorkspace (\<lambda>k. True) now i nm (TrimSpace s0) db = (e, d1)" by (metis surj_pair)
    have q: "checkWorkspaceQuota flt dur env (\<lambda>_. True) db user =
        (if limit = 0 then Inr (True, ?n, 0) else Inr (?n < limit, ?n, limit))"
      by (simp add: checkWorkspaceQuota_def Inr CountWorkspacesOwnedByUser_def)
    have ok: "limit = 0 \<or> ?n < limit"
      using assms(1) unfolding handleCreateWorkspace_def q by (auto split: if_splits)
    then have "e = None \<and> ownWorkspace (\<lambda>_. True) now nsm user i d1 = (Reply 201 ws, db')"
      using assms(1) unfolding handleCreateWorkspace_def q p prod.case Let_def nm_def [symmetric] w
      by (cases e) (auto split: if_splits)
    then have "sv_members db' = sv_members d1 @
        [\<lparr>me_ws = i, me_user = user, me_role = ''owner'', me_created = now\<rparr>]"
      using own_ok by blast
    moreover have "sv_members d1 = sv_members db"
      using newWorkspace_members [of "\<lambda>_. True" now i nm "TrimSpace s0" db] w by simp
    ultimately have m: "sv_members db' = sv_members db @
        [\<lparr>me_ws = i, me_user = user, me_role = ''owner'', me_created = now\<rparr>]" by simp
    have "find (\<lambda>m. me_ws m = i \<and> me_user m = user) (sv_members db) = None"
      using assms(2) by (auto simp: unused_workspace_def find_None_iff)
    with m ok show ?thesis
      by (auto simp: Inr CountWorkspacesOwnedByUser_def role_of_def find_append)
  qed (use assms(1) in \<open>simp add: handleCreateWorkspace_def checkWorkspaceQuota_def\<close>)
qed

section \<open>A run\<close>

text \<open>One workspace of Ann's with Bob as a maintainer and one local agent; Ann may own one
  workspace only.\<close>

definition tdb :: srv_db where
  "tdb = \<lparr>sv_users = [(''ann'', ''a@x''), (''bob'', ''b@x''), (''cat'', ''c@x'')], sv_auth = [],
     sv_skill_drafts = [], sv_soul_drafts = [],
     sv_workspaces = [\<lparr>ws_id = ''w'', ws_name = ''W'', ws_slug = ''w1'', ws_namespace = None, ws_routing = None,
       ws_created = 0, ws_updated = 0, ws_deleted = None\<rparr>],
     sv_members = [\<lparr>me_ws = ''w'', me_user = ''ann'', me_role = ''owner'', me_created = 0\<rparr>,
       \<lparr>me_ws = ''w'', me_user = ''bob'', me_role = ''maintainer'', me_created = 0\<rparr>],
     sv_sandboxes = [\<lparr>sb_id = ''s'', sb_ws = ''w'', sb_name = [], sb_type = ''custom'', sb_status = StatusRunning,
       sb_local = True, sb_short = None, sb_sandbox = None, sb_pod = None, sb_proxy = Some ''pp'',
       sb_opencode = None, sb_openclaw = None, sb_tunnel = Some ''tt'', sb_nanoclaw = None, sb_active = None,
       sb_created = 0, sb_paused = None, sb_beat = None, sb_cpu = None, sb_memory = None, sb_idle = None,
       sb_meta = ''{}''\<rparr>],
     sv_tokens = [], sv_codes = [], sv_settings = (\<lambda>_. None),
     sv_user_quotas = [''ann'' \<mapsto> Some 1], sv_quotas = (\<lambda>_. None), sv_tasks = [], sv_mail = [], sv_log = [],
     sv_compositions = (\<lambda>_. None)\<rparr>"

lemmas tdb_simps = tdb_def role_of_def has_workspace_def has_user_def GetUserByEmail_def

lemma tdb_names:
  "slugBase ''New Workspace'' = ''new-workspace''" "Slugify ''Claw One'' = ''claw-one''"
  "slugBase ''Claw One'' = ''claw-one-1''"
  by code_simp+

lemma first_candidate:
  "\<not> slug_taken db b \<Longrightarrow> find (\<lambda>s. \<not> slug_taken db s) (slug_candidates b) = Some b"
  by (simp add: slug_candidates_def)

lemma tdb_quota:
  "effectiveQuota (\<lambda>_ _. None) (\<lambda>_. None) (\<lambda>_. []) (\<lambda>_. True) tdb ''ann'' = Inr 1"
  "effectiveQuota (\<lambda>_ _. None) (\<lambda>_. None) (\<lambda>_. []) (\<lambda>_. True) tdb ''cat'' = Inr 10"
  by (simp_all add: effectiveQuota_def GetUserQuota_def tdb_def getResourceDefaults_def hard_defaults_def
      atoi_over_def setting_def GetSystemSetting_def Let_def)

lemma tdb_delete:
  "handleDeleteWorkspace (\<lambda>_. True) 7 (\<lambda>_. False) ''ann'' ''w'' tdb =
     (Reply 204 (), [], tdb\<lparr>sv_workspaces :=
        [\<lparr>ws_id = ''w'', ws_name = ''W'', ws_slug = ''w1'', ws_namespace = None, ws_routing = None,
          ws_created = 0, ws_updated = 7, ws_deleted = Some 7\<rparr>]\<rparr>)"
  by (simp add: handleDeleteWorkspace_def requireWorkspaceRole_def requireWorkspaceMember_def
      GetWorkspaceMemberRole_def tdb_def GetWorkspace_def scan_workspace_def ListByWorkspace_def
      ListSandboxesByWorkspace_def dbSandboxToSandbox_def stop_of_def SoftDeleteWorkspace_def
      DeleteWorkspaceDrafts_def ClearActiveWorkspace_def Let_def)

theorem auto_slug_invalid_witness:
  "\<exists>db'. CreateWorkspaceWithSlug (\<lambda>_. True) 0 tdb ''x'' ''Claw One'' [] = (Inr ''claw-one-1'', db') \<and>
     ValidateSlug ''claw-one-1'' \<noteq> None"
proof -
  have "\<not> slug_taken tdb ''claw-one-1''" by (simp add: slug_taken_def tdb_def)
  then obtain db' where c: "CreateWorkspaceWithSlug (\<lambda>_. True) 0 tdb ''x'' ''Claw One'' [] = (Inr ''claw-one-1'', db')"
    by (simp add: create_with_slug tdb_names first_candidate has_workspace_def tdb_def)
  from auto_slug_invalid [OF c] have "ValidateSlug ''claw-one-1'' \<noteq> None"
    by (simp add: tdb_names HasPrefix_iff)
  with c show ?thesis by blast
qed

theorem maintainer_takeover_witness:
  "role_of (snd (handleRemoveMember (\<lambda>_. True) ''cat'' ''w'' ''ann''
     (snd (handleAddMember (\<lambda>_. True) 5 ''bob'' ''w'' (Some (''c@x'', ''owner'')) tdb)))) ''w'' ''ann'' = []"
  using maintainer_takeover [of tdb "''w''" "''bob''" "''c@x''" "''cat''" "''ann''" 5]
  by (simp add: tdb_simps prod_eq_iff)

theorem deleted_workspace_counts_witness:
  "fst (handleCreateWorkspace (\<lambda>_ _. None) (\<lambda>_. None) (\<lambda>_. []) (\<lambda>_. True) 9 None ''ann'' ''w2'' None
     (snd (snd (handleDeleteWorkspace (\<lambda>_. True) 7 (\<lambda>_. False) ''ann'' ''w'' tdb)))) =
     ErrorReply 403 ''quota_exceeded''"
proof -
  have "checkWorkspaceQuota (\<lambda>_ _. None) (\<lambda>_. None) (\<lambda>_. []) (\<lambda>_. True) tdb ''ann'' = Inr (False, 1, 1)"
    by (simp add: checkWorkspaceQuota_def tdb_quota CountWorkspacesOwnedByUser_def) (simp add: tdb_def)
  from deleted_workspace_counts [OF tdb_delete this] show ?thesis by (simp add: tdb_delete)
qed

theorem deleted_workspace_keeps_agents_witness:
  "\<exists>s. GetSandboxByAnyToken (\<lambda>_. True)
     (snd (snd (handleDeleteWorkspace (\<lambda>_. True) 7 (\<lambda>_. False) ''ann'' ''w'' tdb))) ''tt'' = Inr (Some s)"
  using deleted_workspace_keeps_agents [OF tdb_delete, of "hd (sv_sandboxes tdb)" "''tt''"]
  unfolding tdb_delete by (simp add: tdb_def)

theorem create_workspace_within_limit_witness:
  "\<exists>ws db'. handleCreateWorkspace (\<lambda>_ _. None) (\<lambda>_. None) (\<lambda>_. []) (\<lambda>_. True) 9 None ''cat'' ''w2'' None tdb =
     (Reply 201 ws, db') \<and> role_of db' ''w2'' ''cat'' = ''owner''"
proof -
  have "\<not> slug_taken tdb ''new-workspace''" by (simp add: slug_taken_def tdb_def)
  then have "\<exists>ws db'. handleCreateWorkspace (\<lambda>_ _. None) (\<lambda>_. None) (\<lambda>_. []) (\<lambda>_. True) 9 None ''cat'' ''w2'' None tdb =
     (Reply 201 ws, db')"
    by (simp add: handleCreateWorkspace_def checkWorkspaceQuota_def tdb_quota CountWorkspacesOwnedByUser_def
        newWorkspace_def CreateWorkspace_def create_with_slug tdb_names first_candidate has_workspace_def
        ownWorkspace_def AddWorkspaceMember_def readBack_def GetWorkspace_def TrimSpace_def)
       (simp add: tdb_def has_user_def has_workspace_def AddWorkspaceMember_def)
  then obtain ws db' where c: "handleCreateWorkspace (\<lambda>_ _. None) (\<lambda>_. None) (\<lambda>_. []) (\<lambda>_. True) 9 None ''cat'' ''w2''
      None tdb = (Reply 201 ws, db')" by blast
  have "unused_workspace tdb ''w2''" by (simp add: unused_workspace_def has_workspace_def tdb_def)
  with create_workspace_within_limit [OF c] have "role_of db' ''w2'' ''cat'' = ''owner''" by blast
  with c show ?thesis by blast
qed

end
