(* ===== verification/Secrets.thy ===== *)
theory Secrets
  imports Go_Encoding "HOL-Library.Word"
begin

unbundle bit_operations_syntax

text \<open>
  Credentials of the form prefix, identifier, secret, checksum (\<open>internal/secrets/secrets.go\<close>).

  Random draws are arguments, \<open>None\<close> where the random source fails; a draw below 62 picks a
  character.  The storage hash (HMAC-SHA256 with the pepper, or SHA-256) is a parameter.
\<close>

section \<open>Base 62 and the checksum\<close>

definition base62Alphabet :: string where
  "base62Alphabet = ''0123456789abcdefghijklmnopqrstuvwxyzABCDEFGHIJKLMNOPQRSTUVWXYZ''"

definition crc32Len :: nat where "crc32Len = 6"

definition isBase62 :: "string \<Rightarrow> bool" where
  "isBase62 s \<longleftrightarrow> list_all (\<lambda>c. (48 \<le> byte c \<and> byte c \<le> 57) \<or> (97 \<le> byte c \<and> byte c \<le> 122) \<or>
     (65 \<le> byte c \<and> byte c \<le> 90)) s"

text \<open>\<open>crc32.ChecksumIEEE\<close> of the standard library, bit by bit.\<close>

definition crc_bit :: "32 word \<Rightarrow> 32 word" where
  "crc_bit c = (if bit c 0 then drop_bit 1 c XOR 0xEDB88320 else drop_bit 1 c)"

definition crc_byte :: "char \<Rightarrow> 32 word \<Rightarrow> 32 word" where
  "crc_byte b c = (crc_bit ^^ 8) (c XOR of_nat (byte b))"

definition ChecksumIEEE :: "string \<Rightarrow> 32 word" where
  "ChecksumIEEE s = fold crc_byte s (NOT 0) XOR NOT 0"

text \<open>The loop fills the characters from the right.\<close>

fun base62_digits :: "nat \<Rightarrow> nat \<Rightarrow> string \<Rightarrow> string" where
  "base62_digits 0 v out = out"
| "base62_digits (Suc k) v out = base62_digits k (v div 62) (base62Alphabet ! (v mod 62) # out)"

definition crc32Base62 :: "string \<Rightarrow> string" where
  "crc32Base62 s = base62_digits crc32Len (unat (ChecksumIEEE s)) []"

section \<open>Minting and parsing\<close>

record Spec =
  se_prefix :: string
  se_idLen :: int
  se_secretLen :: int

definition APIKeySpec :: Spec where
  "APIKeySpec = \<lparr>se_prefix = ''ask_'', se_idLen = 16, se_secretLen = 48\<rparr>"

definition AgentserverTokenSpec :: Spec where
  "AgentserverTokenSpec = \<lparr>se_prefix = ''ast_'', se_idLen = 16, se_secretLen = 48\<rparr>"

definition bodyLen :: "Spec \<Rightarrow> int" where
  "bodyLen sp = int (length (se_prefix sp)) + se_idLen sp + 1 + se_secretLen sp"

datatype secret_err = BadPrefix | BadLength | NoRandom | ErrInvalidFormat

definition validateSpec :: "Spec \<Rightarrow> secret_err option" where
  "validateSpec sp =
     (if \<not> HasSuffix (se_prefix sp) ''_'' then Some BadPrefix
      else if se_idLen sp \<le> 0 \<or> se_secretLen sp \<le> 0 then Some BadLength
      else None)"

definition randomBase62 :: "int \<Rightarrow> (nat \<Rightarrow> nat option) \<Rightarrow> string option" where
  "randomBase62 n draw =
     (if list_all (\<lambda>k. draw k \<noteq> None) [0..<nat n]
      then Some (map (\<lambda>k. base62Alphabet ! the (draw k)) [0..<nat n])
      else None)"

record SecretToken =
  to_full :: string
  to_id :: string
  to_secret :: string
  to_hash :: string

definition MintSecret ::
  "(string \<Rightarrow> string) \<Rightarrow> Spec \<Rightarrow> (nat \<Rightarrow> nat option) \<Rightarrow> (nat \<Rightarrow> nat option) \<Rightarrow> secret_err + SecretToken" where
  "MintSecret hash sp draw1 draw2 =
     (case validateSpec sp of
        Some e \<Rightarrow> Inl e
      | None \<Rightarrow>
     (case randomBase62 (se_idLen sp) draw1 of
        None \<Rightarrow> Inl NoRandom
      | Some idPart \<Rightarrow>
     (case randomBase62 (se_secretLen sp) draw2 of
        None \<Rightarrow> Inl NoRandom
      | Some secret \<Rightarrow>
          (let i = se_prefix sp @ idPart; body = i @ ''_'' @ secret; full = body @ crc32Base62 body in
           Inr \<lparr>to_full = full, to_id = i, to_secret = secret, to_hash = hash full\<rparr>))))"

text \<open>\<open>strings.IndexByte\<close>, \<open>-1\<close> when the byte does not occur.\<close>

definition IndexByte :: "string \<Rightarrow> char \<Rightarrow> int" where
  "IndexByte s c = (case find (\<lambda>i. s ! i = c) [0..<length s] of Some i \<Rightarrow> int i | None \<Rightarrow> -1)"

definition ParseSecret :: "Spec \<Rightarrow> string \<Rightarrow> secret_err + (string \<times> string)" where
  "ParseSecret sp full =
     (case validateSpec sp of
        Some e \<Rightarrow> Inl e
      | None \<Rightarrow>
     if int (length full) \<noteq> bodyLen sp + int crc32Len then Inl ErrInvalidFormat
     else (let n = nat (bodyLen sp); body = take n full; presentedCRC = drop n full in
       if presentedCRC \<noteq> crc32Base62 body then Inl ErrInvalidFormat
       else if \<not> HasPrefix body (se_prefix sp) then Inl ErrInvalidFormat
       else (let rest = drop (length (se_prefix sp)) body; sep = IndexByte rest (CHR ''_'') in
         if sep \<noteq> se_idLen sp then Inl ErrInvalidFormat
         else if int (length rest) - sep - 1 \<noteq> se_secretLen sp then Inl ErrInvalidFormat
         else (let idPart = take (nat sep) rest; secretPart = drop (nat sep + 1) rest in
           if \<not> isBase62 idPart \<or> \<not> isBase62 secretPart then Inl ErrInvalidFormat
           else Inr (se_prefix sp @ idPart, secretPart)))))"

definition ConstantTimeMatch :: "(string \<Rightarrow> string) \<Rightarrow> string \<Rightarrow> string \<Rightarrow> bool" where
  "ConstantTimeMatch hash presented storedHash \<longleftrightarrow> hash presented = storedHash"

text \<open>\<open>RandomHex n\<close>: the hexadecimal form of \<open>n\<close> random bytes.\<close>

definition hex_digits :: string where "hex_digits = ''0123456789abcdef''"

definition hex_of :: "string \<Rightarrow> string" where
  "hex_of s = concat (map (\<lambda>c. [hex_digits ! (byte c div 16), hex_digits ! (byte c mod 16)]) s)"

definition RandomHex :: "int \<Rightarrow> string option \<Rightarrow> string option" where
  "RandomHex n bytes = (if n \<le> 0 then None else map_option hex_of bytes)"

text \<open>
  \<open>SetPepper\<close>: the key in use and the key that is set; the outer \<open>None\<close> is the panic. An
  empty key leaves no key in use, since appending nothing to a nil slice is nil.
\<close>

definition SetPepper :: "string option \<Rightarrow> string \<Rightarrow> string option option" where
  "SetPepper pepper b =
     (let after = (if b = [] then None else Some b) in
      case pepper of
        Some p \<Rightarrow> if p \<noteq> b then None else Some after
      | None \<Rightarrow> Some after)"

definition secret_Hash :: "(string \<Rightarrow> string \<Rightarrow> string) \<Rightarrow> (string \<Rightarrow> string) \<Rightarrow> string option \<Rightarrow> string \<Rightarrow> string" where
  "secret_Hash hmac sha pepper full =
     (case pepper of None \<Rightarrow> hex_of (sha full) | Some p \<Rightarrow> hex_of (hmac p full))"

section \<open>What the parser accepts\<close>

lemma length_base62_digits [simp]: "length (base62_digits k v out) = k + length out"
  by (induction k v out rule: base62_digits.induct) simp_all

lemma length_crc [simp]: "length (crc32Base62 s) = 6"
  by (simp add: crc32Base62_def crc32Len_def)

lemma IndexByte_append:
  "c \<notin> set a \<Longrightarrow> IndexByte (a @ c # b) c = int (length a)"
proof -
  assume c: "c \<notin> set a"
  have "find (\<lambda>i. (a @ c # b) ! i = c) [0..<length (a @ c # b)] = Some (length a)"
    unfolding find_upt_Some using c by (auto simp: nth_append)
  then show ?thesis by (simp add: IndexByte_def)
qed

lemma IndexByte_split:
  assumes "IndexByte s c = int n"
  shows "s = take n s @ c # drop (n + 1) s \<and> c \<notin> set (take n s) \<and> n < length s"
proof -
  from assms have f: "find (\<lambda>i. s ! i = c) [0..<length s] = Some n"
    by (auto simp: IndexByte_def split: option.splits)
  then have n: "n < length s" "s ! n = c" "\<forall>j<n. s ! j \<noteq> c" unfolding find_upt_Some by auto
  from n(1,2) have "s = take n s @ c # drop (n + 1) s" by (metis Suc_eq_plus1 id_take_nth_drop)
  moreover have "c \<notin> set (take n s)" using n(1,3) by (auto simp: in_set_conv_nth)
  ultimately show ?thesis using n(1) by simp
qed

lemma base62_alphabet: "c \<in> set base62Alphabet \<longleftrightarrow> isBase62 [c]"
proof
  have "list_all (\<lambda>c. isBase62 [c]) base62Alphabet" by code_simp
  then show "c \<in> set base62Alphabet \<Longrightarrow> isBase62 [c]" by (simp add: list_all_iff)
next
  have l: "list_all (\<lambda>n. char_of n \<in> set base62Alphabet) ([48..<58] @ [97..<123] @ [65..<91])" by code_simp
  assume "isBase62 [c]"
  then have "byte c \<in> {48..<58} \<union> ({97..<123} \<union> {65..<91})" by (auto simp: isBase62_def)
  then have "byte c \<in> set ([48..<58] @ [97..<123] @ [65..<91])" unfolding set_append set_upt .
  with l have "char_of (byte c) \<in> set base62Alphabet" unfolding list_all_iff by blast
  then show "c \<in> set base62Alphabet" by simp
qed

lemma isBase62_set: "isBase62 s \<longleftrightarrow> set s \<subseteq> set base62Alphabet"
proof -
  have "isBase62 s \<longleftrightarrow> (\<forall>c \<in> set s. isBase62 [c])" by (simp add: isBase62_def list_all_iff)
  then show ?thesis by (auto simp: base62_alphabet)
qed

lemma base62_no_underscore: "isBase62 s \<Longrightarrow> CHR ''_'' \<notin> set s"
  by (auto simp: isBase62_def list_all_iff byte_def)

lemma base62_nth: "k < 62 \<Longrightarrow> base62Alphabet ! k \<in> set base62Alphabet"
  by (rule nth_mem) (simp add: base62Alphabet_def)

text \<open>What the random draws can give: any text of the length in the alphabet.\<close>

lemma randomBase62_shape:
  assumes "randomBase62 n draw = Some s" and "\<And>k j. draw k = Some j \<Longrightarrow> j < 62"
  shows "length s = nat n \<and> isBase62 s"
proof -
  have s: "s = map (\<lambda>k. base62Alphabet ! the (draw k)) [0..<nat n]"
    and d: "\<forall>k<nat n. draw k \<noteq> None"
    using assms(1) by (auto simp: randomBase62_def list_all_iff split: if_splits)
  have "base62Alphabet ! the (draw k) \<in> set base62Alphabet" if "k < nat n" for k
    using d that assms(2) by (intro base62_nth) force
  then show ?thesis unfolding isBase62_set s by auto
qed

lemma randomBase62_any:
  assumes "isBase62 s" and "length s = nat n"
  obtains draw where "randomBase62 n draw = Some s" "\<And>k j. draw k = Some j \<Longrightarrow> j < 62"
proof -
  have "\<exists>j<62. base62Alphabet ! j = s ! k" if "k < length s" for k
  proof -
    have "s ! k \<in> set base62Alphabet" using assms(1) that unfolding isBase62_set by (meson nth_mem subsetD)
    then obtain j where "j < length base62Alphabet" "base62Alphabet ! j = s ! k" by (auto simp only: in_set_conv_nth)
    then show ?thesis by (intro exI [of _ j]) (simp add: base62Alphabet_def)
  qed
  then obtain f where f: "\<And>k. k < length s \<Longrightarrow> f k < 62 \<and> base62Alphabet ! f k = s ! k" by metis
  let ?d = "\<lambda>k. if k < length s then Some (f k) else None"
  have "map (\<lambda>k. base62Alphabet ! the (?d k)) [0..<nat n] = s"
    using f assms(2) by (intro nth_equalityI) simp_all
  then have "randomBase62 n ?d = Some s" using assms(2) by (simp add: randomBase62_def list_all_iff)
  moreover have "?d k = Some j \<Longrightarrow> j < 62" for k j using f [of k] by (cases "k < length s") simp_all
  ultimately show thesis by (rule that)
qed

lemma ParseSecret_built:
  assumes "validateSpec sp = None" and "isBase62 a" "isBase62 b"
    and "int (length a) = se_idLen sp" "int (length b) = se_secretLen sp"
  shows "ParseSecret sp ((se_prefix sp @ a @ ''_'' @ b) @ crc32Base62 (se_prefix sp @ a @ ''_'' @ b)) =
     Inr (se_prefix sp @ a, b)"
proof -
  let ?body = "se_prefix sp @ a @ ''_'' @ b"
  have n: "bodyLen sp = int (length ?body)" using assms(4,5) by (simp add: bodyLen_def)
  have i: "IndexByte (a @ CHR ''_'' # b) (CHR ''_'') = int (length a)"
    by (rule IndexByte_append) (rule base62_no_underscore [OF assms(2)])
  have nb: "nat (bodyLen sp) = length ?body" unfolding n by (rule nat_int)
  have app: "take (length xs) (xs @ ys) = xs" "drop (length xs) (xs @ ys) = ys" for xs ys :: string by simp_all
  have t: "take (nat (bodyLen sp)) (?body @ crc32Base62 ?body) = ?body"
    "drop (nat (bodyLen sp)) (?body @ crc32Base62 ?body) = crc32Base62 ?body" unfolding nb by (rule app)+
  show ?thesis
    unfolding ParseSecret_def assms(1) option.case Let_def t
    using assms(2,3) i by (simp add: n crc32Len_def flip: assms(4,5))
qed

lemma ParseSecret_shape:
  assumes "ParseSecret sp full = Inr (i, b)"
  obtains a where "validateSpec sp = None" "i = se_prefix sp @ a" "isBase62 a" "isBase62 b"
    "int (length a) = se_idLen sp" "int (length b) = se_secretLen sp"
    "full = (se_prefix sp @ a @ ''_'' @ b) @ crc32Base62 (se_prefix sp @ a @ ''_'' @ b)"
proof -
  let ?body = "take (nat (bodyLen sp)) full" let ?rest = "drop (length (se_prefix sp)) ?body"
  have v: "validateSpec sp = None" using assms by (auto simp: ParseSecret_def split: option.splits)
  note p = assms [unfolded ParseSecret_def v option.case Let_def]
  have crc: "drop (nat (bodyLen sp)) full = crc32Base62 ?body" and pre: "HasPrefix ?body (se_prefix sp)"
    and sep: "IndexByte ?rest (CHR ''_'') = se_idLen sp"
    and len: "int (length ?rest) - se_idLen sp - 1 = se_secretLen sp"
    and parts: "i = se_prefix sp @ take (nat (se_idLen sp)) ?rest" "b = drop (nat (se_idLen sp) + 1) ?rest"
      "isBase62 (take (nat (se_idLen sp)) ?rest)" "isBase62 (drop (nat (se_idLen sp) + 1) ?rest)"
    using p by (auto split: if_splits)
  have pos: "0 < se_idLen sp" using v by (auto simp: validateSpec_def split: if_splits)
  then obtain n where n: "se_idLen sp = int n" by (metis zero_le_imp_eq_int less_imp_le)
  note s = IndexByte_split [OF sep [unfolded n]]
  have body: "?body = se_prefix sp @ ?rest" using pre by (metis HasPrefix_def append_take_drop_id)
  have r: "?rest = take n ?rest @ ''_'' @ b" using s parts(2) n by simp
  have f: "full = ?body @ crc32Base62 ?body" using crc by (metis append_take_drop_id)
  show thesis
  proof (rule that [of "take n ?rest"])
    show "i = se_prefix sp @ take n ?rest" "isBase62 (take n ?rest)" "isBase62 b" using parts n by simp_all
    show "int (length (take n ?rest)) = se_idLen sp" using s n by simp
    have "length ?rest = n + (1 + length b)"
      using arg_cong [OF r, of length] s by (simp only: length_append length_take list.size)
    then show "int (length b) = se_secretLen sp" using len n by linarith
    have "?body = se_prefix sp @ take n ?rest @ ''_'' @ b" using body r by simp
    with f show "full = (se_prefix sp @ take n ?rest @ ''_'' @ b) @ crc32Base62 (se_prefix sp @ take n ?rest @ ''_'' @ b)"
      by simp
  qed (rule v)
qed

text \<open>C34: C0: The parser of credentials accepts exactly the texts that minting can produce, and returns the
  identifier and the secret of the minted credential.
\<close>

theorem ParseSecret_minted:
  "ParseSecret sp full = Inr (i, b) \<longleftrightarrow>
     (\<exists>d1 d2 tok. (\<forall>k j. d1 k = Some j \<or> d2 k = Some j \<longrightarrow> j < 62) \<and> MintSecret hash sp d1 d2 = Inr tok \<and>
        to_full tok = full \<and> to_id tok = i \<and> to_secret tok = b)"
proof
  assume "ParseSecret sp full = Inr (i, b)"
  then obtain a where a: "validateSpec sp = None" "i = se_prefix sp @ a" "isBase62 a" "isBase62 b"
    "int (length a) = se_idLen sp" "int (length b) = se_secretLen sp"
    "full = (se_prefix sp @ a @ ''_'' @ b) @ crc32Base62 (se_prefix sp @ a @ ''_'' @ b)" by (rule ParseSecret_shape)
  obtain d1 where d1: "randomBase62 (se_idLen sp) d1 = Some a" "\<And>k j. d1 k = Some j \<Longrightarrow> j < 62"
    by (rule randomBase62_any [OF a(3), of "se_idLen sp"]) (use a(5) in simp_all)
  obtain d2 where d2: "randomBase62 (se_secretLen sp) d2 = Some b" "\<And>k j. d2 k = Some j \<Longrightarrow> j < 62"
    by (rule randomBase62_any [OF a(4), of "se_secretLen sp"]) (use a(6) in simp_all)
  show "\<exists>d1 d2 tok. (\<forall>k j. d1 k = Some j \<or> d2 k = Some j \<longrightarrow> j < 62) \<and> MintSecret hash sp d1 d2 = Inr tok \<and>
      to_full tok = full \<and> to_id tok = i \<and> to_secret tok = b"
    using d1 d2 a by (intro exI [of _ d1] exI [of _ d2]) (auto simp: MintSecret_def Let_def)
next
  assume "\<exists>d1 d2 tok. (\<forall>k j. d1 k = Some j \<or> d2 k = Some j \<longrightarrow> j < 62) \<and> MintSecret hash sp d1 d2 = Inr tok \<and>
      to_full tok = full \<and> to_id tok = i \<and> to_secret tok = b"
  then obtain d1 d2 tok where m: "\<And>k j. d1 k = Some j \<Longrightarrow> j < 62" "\<And>k j. d2 k = Some j \<Longrightarrow> j < 62"
    "MintSecret hash sp d1 d2 = Inr tok" "to_full tok = full" "to_id tok = i" "to_secret tok = b" by blast
  from m(3) obtain a where a: "validateSpec sp = None" "randomBase62 (se_idLen sp) d1 = Some a"
    "randomBase62 (se_secretLen sp) d2 = Some b" "i = se_prefix sp @ a"
    "full = (se_prefix sp @ a @ ''_'' @ b) @ crc32Base62 (se_prefix sp @ a @ ''_'' @ b)"
    using m(4-6) by (auto simp: MintSecret_def Let_def split: option.splits)
  have pos: "0 < se_idLen sp" "0 < se_secretLen sp" using a(1) by (auto simp: validateSpec_def split: if_splits)
  have "length a = nat (se_idLen sp) \<and> isBase62 a" "length b = nat (se_secretLen sp) \<and> isBase62 b"
    using randomBase62_shape a(2,3) m(1,2) by blast+
  then show "ParseSecret sp full = Inr (i, b)"
    unfolding a(4,5) using ParseSecret_built [OF a(1)] pos by simp
qed

theorem ParseSecret_minted_witness:
  "\<exists>tok. MintSecret id APIKeySpec (\<lambda>k. Some 1) (\<lambda>k. Some 2) = Inr tok \<and>
     ParseSecret APIKeySpec (to_full tok) = Inr (to_id tok, to_secret tok)"
proof -
  have v: "validateSpec APIKeySpec = None" by code_simp
  have "isl (MintSecret id APIKeySpec (\<lambda>k. Some 1) (\<lambda>k. Some 2)) = False"
    by (simp add: MintSecret_def v randomBase62_def Let_def list_all_iff)
  then obtain tok where t: "MintSecret id APIKeySpec (\<lambda>k. Some 1) (\<lambda>k. Some 2) = Inr tok"
    by (cases "MintSecret id APIKeySpec (\<lambda>k. Some 1) (\<lambda>k. Some 2)") auto
  moreover have "ParseSecret APIKeySpec (to_full tok) = Inr (to_id tok, to_secret tok)"
    unfolding ParseSecret_minted [where hash = id] using t
    by (intro exI [of _ "\<lambda>k. Some 1"] exI [of _ "\<lambda>k. Some 2"] exI [of _ tok]) simp
  ultimately show ?thesis by blast
qed

end
