(* ===== verification/Accounts_Store.thy ===== *)
theory Accounts_Store
  imports Workspaces Secrets
begin

text \<open>
  The tables behind sign-in: the remaining columns of users, credentials, web sessions, linked
  identities, invites, API keys, Codex tokens and their connections, with the statements of
  \<open>users.go\<close>, \<open>users_anonymize.go\<close>, \<open>tokens.go\<close>, \<open>oidc.go\<close>, \<open>invites.go\<close>, \<open>workspace_api_keys.go\<close>,
  \<open>codex_tokens.go\<close> and \<open>codex_browser_sessions.go\<close> in \<open>internal/db\<close>.  Times are nanoseconds.

  The users and web sessions themselves are tables of \<open>srv_db\<close>; \<open>si_profiles\<close> has the other columns of
  a user.
\<close>

section \<open>Tables\<close>

record UserProfile =
  pf_name :: "string option"
  pf_picture :: "string option"
  pf_role :: string
  pf_created :: time
  pf_emailHash :: "string option"
  pf_anonymized :: "time option"

record User =
  us_id :: string
  us_email :: string
  us_name :: "string option"
  us_picture :: "string option"
  us_role :: string
  us_created :: time

record OIDCIdentity =
  oi_provider :: string
  oi_subject :: string
  oi_user :: string
  oi_email :: "string option"

record Invite =
  iv_id :: string
  iv_ws :: string
  iv_email :: string
  iv_role :: string
  iv_hash :: string
  iv_expires :: time
  iv_accepted :: "time option"
  iv_by :: string
  iv_created :: time

record WorkspaceAPIKey =
  ak_id :: string
  ak_ws :: string
  ak_user :: string
  ak_name :: string
  ak_prefix :: string
  ak_hash :: string
  ak_scopes :: "string list"
  ak_created :: time
  ak_expires :: time
  ak_used :: "time option"
  ak_revoked :: "time option"

record CodexToken =
  ct_id :: string
  ct_user :: string
  ct_ws :: string
  ct_name :: string
  ct_hash :: string
  ct_created :: time
  ct_expires :: time
  ct_used :: "time option"
  ct_revoked :: "time option"

record CodexBrowserSession =
  cb_id :: string
  cb_token :: string
  cb_ip :: string
  cb_ua :: string
  cb_version :: string
  cb_os :: string
  cb_connected :: time
  cb_disconnected :: "time option"

record site =
  si_db :: srv_db
  si_profiles :: "string \<rightharpoonup> UserProfile"
  si_creds :: "string \<rightharpoonup> string"
  si_oidc :: "OIDCIdentity list"
  si_invites :: "Invite list"
  si_keys :: "WorkspaceAPIKey list"
  si_codex :: "CodexToken list"
  si_browsers :: "CodexBrowserSession list"

definition on_db :: "(srv_db \<Rightarrow> 'e \<times> srv_db) \<Rightarrow> site \<Rightarrow> 'e \<times> site" where
  "on_db f s = (case f (si_db s) of (e, db) \<Rightarrow> (e, s\<lparr>si_db := db\<rparr>))"

section \<open>Users (\<open>users.go\<close>)\<close>

definition new_profile :: "time \<Rightarrow> UserProfile" where
  "new_profile now = \<lparr>pf_name = None, pf_picture = None, pf_role = ''user'', pf_created = now,
     pf_emailHash = None, pf_anonymized = None\<rparr>"

definition insert_user :: "time \<Rightarrow> site \<Rightarrow> string \<Rightarrow> string \<Rightarrow> db_err + site" where
  "insert_user now s i email =
     (if list_ex (\<lambda>p. fst p = i \<or> snd p = email) (sv_users (si_db s)) then Inl DuplicateKey
      else Inr (s\<lparr>si_db := (si_db s)\<lparr>sv_users := sv_users (si_db s) @ [(i, email)]\<rparr>,
                  si_profiles := (si_profiles s)(i \<mapsto> new_profile now)\<rparr>))"

text \<open>One transaction: 0 the begin, 1 the user, 2 the credentials, 3 the commit.\<close>

definition CreateUserWithEmail ::
  "(nat \<Rightarrow> bool) \<Rightarrow> time \<Rightarrow> site \<Rightarrow> string \<Rightarrow> string option \<Rightarrow> string \<Rightarrow> db_err option \<times> site" where
  "CreateUserWithEmail up now s i passwordHash email =
     (if \<not> up 0 \<or> \<not> up 1 then (Some DbDown, s)
      else (case insert_user now s i email of
          Inl e \<Rightarrow> (Some e, s)
        | Inr s1 \<Rightarrow>
            (case passwordHash of
               None \<Rightarrow> if \<not> up 3 then (Some DbDown, s) else (None, s1)
             | Some h \<Rightarrow>
                 if \<not> up 2 \<or> \<not> up 3 then (Some DbDown, s)
                 else (None, s1\<lparr>si_creds := (si_creds s1)(i \<mapsto> h)\<rparr>))))"

definition CreateUser ::
  "(nat \<Rightarrow> bool) \<Rightarrow> time \<Rightarrow> site \<Rightarrow> string \<Rightarrow> string \<Rightarrow> string \<Rightarrow> db_err option \<times> site" where
  "CreateUser up now s i email passwordHash = CreateUserWithEmail up now s i (Some passwordHash) email"

definition scan_user :: "site \<Rightarrow> string \<times> string \<Rightarrow> User" where
  "scan_user s p =
     (case si_profiles s (fst p) of
        Some f \<Rightarrow> \<lparr>us_id = fst p, us_email = snd p, us_name = pf_name f, us_picture = pf_picture f,
                   us_role = pf_role f, us_created = pf_created f\<rparr>
      | None \<Rightarrow> \<lparr>us_id = fst p, us_email = snd p, us_name = None, us_picture = None, us_role = ''user'',
                 us_created = 0\<rparr>)"

definition db_GetUserByID :: "bool \<Rightarrow> site \<Rightarrow> string \<Rightarrow> db_err + User option" where
  "db_GetUserByID up s i =
     (if \<not> up then Inl DbDown
      else Inr (map_option (scan_user s) (find (\<lambda>p. fst p = i) (sv_users (si_db s)))))"

definition db_GetUserByEmail :: "bool \<Rightarrow> site \<Rightarrow> string \<Rightarrow> db_err + User option" where
  "db_GetUserByEmail up s email =
     (if \<not> up then Inl DbDown
      else Inr (map_option (scan_user s) (find (\<lambda>p. snd p = email) (sv_users (si_db s)))))"

definition GetPasswordHash :: "bool \<Rightarrow> site \<Rightarrow> string \<Rightarrow> db_err + string option" where
  "GetPasswordHash up s i = (if \<not> up then Inl DbDown else Inr (si_creds s i))"

definition UpdateUserEmail :: "bool \<Rightarrow> site \<Rightarrow> string \<Rightarrow> string \<Rightarrow> db_err option \<times> site" where
  "UpdateUserEmail up s i email =
     (if \<not> up then (Some DbDown, s)
      else if list_ex (\<lambda>p. fst p = i) (sv_users (si_db s)) \<and>
        list_ex (\<lambda>p. fst p \<noteq> i \<and> snd p = email) (sv_users (si_db s)) then (Some DuplicateKey, s)
      else (None, s\<lparr>si_db := (si_db s)\<lparr>sv_users :=
              update_rows (\<lambda>p. fst p = i) (\<lambda>p. (fst p, email)) (sv_users (si_db s))\<rparr>\<rparr>))"

definition update_profile :: "bool \<Rightarrow> site \<Rightarrow> string \<Rightarrow> (UserProfile \<Rightarrow> UserProfile) \<Rightarrow> db_err option \<times> site" where
  "update_profile up s i f =
     (if \<not> up then (Some DbDown, s)
      else (None, s\<lparr>si_profiles := (si_profiles s)(i := map_option f (si_profiles s i))\<rparr>))"

definition UpdateUserRole :: "bool \<Rightarrow> site \<Rightarrow> string \<Rightarrow> string \<Rightarrow> db_err option \<times> site" where
  "UpdateUserRole up s i role = update_profile up s i (\<lambda>f. f\<lparr>pf_role := role\<rparr>)"

definition UpdateUserPicture :: "bool \<Rightarrow> site \<Rightarrow> string \<Rightarrow> string \<Rightarrow> db_err option \<times> site" where
  "UpdateUserPicture up s i picture = update_profile up s i (\<lambda>f. f\<lparr>pf_picture := Some picture\<rparr>)"

definition UpdateUserName :: "bool \<Rightarrow> site \<Rightarrow> string \<Rightarrow> string \<Rightarrow> db_err option \<times> site" where
  "UpdateUserName up s i name = update_profile up s i (\<lambda>f. f\<lparr>pf_name := Some name\<rparr>)"

definition ListAllUsers :: "bool \<Rightarrow> site \<Rightarrow> db_err + User list" where
  "ListAllUsers up s =
     (if \<not> up then Inl DbDown
      else Inr (sort_key us_created (map (scan_user s) (sv_users (si_db s)))))"

definition CountUsers :: "bool \<Rightarrow> site \<Rightarrow> db_err + nat" where
  "CountUsers up s = (if \<not> up then Inl DbDown else Inr (length (sv_users (si_db s))))"

section \<open>Anonymization (\<open>users_anonymize.go\<close>)\<close>

text \<open>Identifier and name of the workspaces; the deleted ones count too.\<close>

definition WorkspacesWhereUserIsLastOwner :: "bool \<Rightarrow> srv_db \<Rightarrow> string \<Rightarrow> db_err + (string \<times> string) list" where
  "WorkspacesWhereUserIsLastOwner up db user =
     (if \<not> up then Inl DbDown
      else Inr (concat (map (\<lambda>m. map (\<lambda>r. (ws_id r, ws_name r)) (filter (\<lambda>r. ws_id r = me_ws m) (sv_workspaces db)))
             (filter (\<lambda>m. me_user m = user \<and> me_role m = ''owner'' \<and>
                length (filter (\<lambda>n. me_ws n = me_ws m \<and> me_role n = ''owner'') (sv_members db)) = 1)
               (sv_members db)))))"

datatype user_err = UserDb db_err | UserNoRows | ErrUserAlreadyAnonymized

definition IsUserAnonymized :: "bool \<Rightarrow> site \<Rightarrow> string \<Rightarrow> user_err + bool" where
  "IsUserAnonymized up s i =
     (if \<not> up then Inl (UserDb DbDown)
      else if \<not> has_user (si_db s) i then Inl UserNoRows
      else Inr (case si_profiles s i of Some f \<Rightarrow> pf_anonymized f \<noteq> None | None \<Rightarrow> False))"

definition anonymizedPlaceholderEmail :: "string \<Rightarrow> string" where
  "anonymizedPlaceholderEmail i = ''deleted-'' @ i @ ''@anonymized.local''"

text \<open>
  One transaction: 0 the begin, 1 the reading, 2 the user, 3 credentials, 4 sessions, 5 memberships,
  6 the commit.  \<open>sha\<close> is SHA-256.
\<close>

definition AnonymizeUser ::
  "(string \<Rightarrow> string) \<Rightarrow> (nat \<Rightarrow> bool) \<Rightarrow> time \<Rightarrow> site \<Rightarrow> string \<Rightarrow> user_err option \<times> site" where
  "AnonymizeUser sha up now s i =
     (if \<not> up 0 \<or> \<not> up 1 then (Some (UserDb DbDown), s)
      else (case find (\<lambda>p. fst p = i) (sv_users (si_db s)) of
          None \<Rightarrow> (Some UserNoRows, s)
        | Some (_, email) \<Rightarrow>
     if (case si_profiles s i of Some f \<Rightarrow> pf_anonymized f \<noteq> None | None \<Rightarrow> False)
     then (Some ErrUserAlreadyAnonymized, s)
     else if \<not> up 2 then (Some (UserDb DbDown), s)
     else if list_ex (\<lambda>p. fst p \<noteq> i \<and> snd p = anonymizedPlaceholderEmail i) (sv_users (si_db s))
     then (Some (UserDb DuplicateKey), s)
     else if \<not> up 3 \<or> \<not> up 4 \<or> \<not> up 5 \<or> \<not> up 6 then (Some (UserDb DbDown), s)
     else (None, s\<lparr>si_db := (si_db s)
             \<lparr>sv_users := update_rows (\<lambda>p. fst p = i) (\<lambda>p. (fst p, anonymizedPlaceholderEmail i)) (sv_users (si_db s)),
              sv_auth := filter (\<lambda>t. tn_user t \<noteq> i) (sv_auth (si_db s)),
              sv_members := filter (\<lambda>m. me_user m \<noteq> i) (sv_members (si_db s))\<rparr>,
            si_profiles := (si_profiles s)(i := map_option (\<lambda>f. f\<lparr>pf_name := None, pf_picture := None,
              pf_emailHash := Some (hex_of (sha email)), pf_anonymized := Some now\<rparr>) (si_profiles s i)),
            si_creds := (si_creds s)(i := None)\<rparr>)))"

section \<open>Web sessions (\<open>tokens.go\<close>)\<close>

definition CreateToken :: "bool \<Rightarrow> srv_db \<Rightarrow> string \<Rightarrow> string \<Rightarrow> time \<Rightarrow> db_err option \<times> srv_db" where
  "CreateToken up db token user expiresAt =
     (if \<not> up then (Some DbDown, db)
      else if list_ex (\<lambda>t. tn_token t = token) (sv_auth db) then (Some DuplicateKey, db)
      else if \<not> has_user db user then (Some ForeignKey, db)
      else (None, db\<lparr>sv_auth := sv_auth db @
              [\<lparr>tn_token = token, tn_user = user, tn_expires = expiresAt, tn_active = None\<rparr>]\<rparr>))"

text \<open>User and active workspace; both empty when there is no such session.\<close>

definition db_ValidateTokenWithWorkspace :: "bool \<Rightarrow> time \<Rightarrow> srv_db \<Rightarrow> string \<Rightarrow> db_err + string \<times> string" where
  "db_ValidateTokenWithWorkspace up now db token =
     (if \<not> up then Inl DbDown
      else Inr (case find (\<lambda>t. tn_token t = token \<and> tn_expires t > now) (sv_auth db) of
             Some t \<Rightarrow> (tn_user t, coalesce (tn_active t)) | None \<Rightarrow> ([], [])))"

definition db_ValidateToken :: "bool \<Rightarrow> time \<Rightarrow> srv_db \<Rightarrow> string \<Rightarrow> db_err + string" where
  "db_ValidateToken up now db token = map_sum id fst (db_ValidateTokenWithWorkspace up now db token)"

datatype session_err = SessionDb db_err | SessionNoRows

definition SetTokenActiveWorkspace :: "bool \<Rightarrow> time \<Rightarrow> srv_db \<Rightarrow> string \<Rightarrow> string \<Rightarrow> session_err option \<times> srv_db" where
  "SetTokenActiveWorkspace up now db token w =
     (let P = (\<lambda>t. tn_token t = token \<and> tn_expires t > now) in
      if \<not> up then (Some (SessionDb DbDown), db)
      else if \<not> list_ex P (sv_auth db) then (Some SessionNoRows, db)
      else if w \<noteq> [] \<and> \<not> has_workspace db w then (Some (SessionDb ForeignKey), db)
      else (None, db\<lparr>sv_auth := update_rows P (\<lambda>t. t\<lparr>tn_active := nullif_empty w\<rparr>) (sv_auth db)\<rparr>))"

definition DeleteToken :: "bool \<Rightarrow> srv_db \<Rightarrow> string \<Rightarrow> db_err option \<times> srv_db" where
  "DeleteToken up db token =
     (if \<not> up then (Some DbDown, db)
      else (None, db\<lparr>sv_auth := filter (\<lambda>t. tn_token t \<noteq> token) (sv_auth db)\<rparr>))"

definition DeleteExpiredTokens :: "bool \<Rightarrow> time \<Rightarrow> srv_db \<Rightarrow> db_err option \<times> srv_db" where
  "DeleteExpiredTokens up now db =
     (if \<not> up then (Some DbDown, db)
      else (None, db\<lparr>sv_auth := filter (\<lambda>t. \<not> tn_expires t < now) (sv_auth db)\<rparr>))"

section \<open>Linked identities (\<open>oidc.go\<close>)\<close>

definition GetOIDCIdentity :: "bool \<Rightarrow> site \<Rightarrow> string \<Rightarrow> string \<Rightarrow> db_err + OIDCIdentity option" where
  "GetOIDCIdentity up s provider subject =
     (if \<not> up then Inl DbDown
      else Inr (find (\<lambda>x. oi_provider x = provider \<and> oi_subject x = subject) (si_oidc s)))"

definition CreateOIDCIdentity ::
  "bool \<Rightarrow> site \<Rightarrow> string \<Rightarrow> string \<Rightarrow> string \<Rightarrow> string option \<Rightarrow> db_err option \<times> site" where
  "CreateOIDCIdentity up s provider subject user email =
     (if \<not> up then (Some DbDown, s)
      else if list_ex (\<lambda>x. oi_provider x = provider \<and> oi_subject x = subject) (si_oidc s)
      then (Some DuplicateKey, s)
      else if \<not> has_user (si_db s) user then (Some ForeignKey, s)
      else (None, s\<lparr>si_oidc := si_oidc s @
              [\<lparr>oi_provider = provider, oi_subject = subject, oi_user = user, oi_email = email\<rparr>]\<rparr>))"

definition UpdateOIDCIdentityEmail :: "bool \<Rightarrow> site \<Rightarrow> string \<Rightarrow> string \<Rightarrow> string \<Rightarrow> db_err option \<times> site" where
  "UpdateOIDCIdentityEmail up s provider subject email =
     (if \<not> up then (Some DbDown, s)
      else (None, s\<lparr>si_oidc := update_rows (\<lambda>x. oi_provider x = provider \<and> oi_subject x = subject)
              (\<lambda>x. x\<lparr>oi_email := Some email\<rparr>) (si_oidc s)\<rparr>))"

section \<open>Invites (\<open>invites.go\<close>)\<close>

text \<open>
  \<open>errText\<close> is the text of an error of the driver; the code looks for the SQLSTATE of a unique
  violation in it.
\<close>

definition contains :: "string \<Rightarrow> string \<Rightarrow> bool" where
  "contains s sub \<longleftrightarrow> list_ex (\<lambda>i. take (length sub) (drop i s) = sub) [0..<length s + 1 - length sub]"

definition isPGUniqueViolation :: "(db_err \<Rightarrow> string) \<Rightarrow> db_err \<Rightarrow> bool" where
  "isPGUniqueViolation errText e \<longleftrightarrow> contains (errText e) ''23505''"

datatype invite_err = InviteDb db_err | ErrInviteAlreadyPending | ErrInviteAlreadyAccepted | InviteNoRows

definition insert_invite :: "bool \<Rightarrow> site \<Rightarrow> Invite \<Rightarrow> db_err option \<times> site" where
  "insert_invite up s iv =
     (if \<not> up then (Some DbDown, s)
      else if list_ex (\<lambda>x. iv_id x = iv_id iv \<or>
          (iv_ws x = iv_ws iv \<and> iv_email x = iv_email iv \<and> iv_accepted x = None)) (si_invites s)
      then (Some DuplicateKey, s)
      else if \<not> has_workspace (si_db s) (iv_ws iv) \<or> \<not> has_user (si_db s) (iv_by iv)
      then (Some ForeignKey, s)
      else (None, s\<lparr>si_invites := si_invites s @ [iv]\<rparr>))"

definition GetInviteByID :: "bool \<Rightarrow> site \<Rightarrow> string \<Rightarrow> db_err + Invite option" where
  "GetInviteByID up s i = (if \<not> up then Inl DbDown else Inr (find (\<lambda>x. iv_id x = i) (si_invites s)))"

definition CreateInvite ::
  "(db_err \<Rightarrow> string) \<Rightarrow> (nat \<Rightarrow> bool) \<Rightarrow> time \<Rightarrow> site \<Rightarrow> string \<Rightarrow> string \<Rightarrow> string \<Rightarrow> string \<Rightarrow> string \<Rightarrow> string \<Rightarrow>
     time \<Rightarrow> (invite_err + Invite option) \<times> site" where
  "CreateInvite errText up now s i w email role0 tokenHash createdBy expiresAt =
     (let role = (if role0 = [] then ''developer'' else role0) in
      case insert_invite (up 0) s
          \<lparr>iv_id = i, iv_ws = w, iv_email = email, iv_role = role, iv_hash = tokenHash, iv_expires = expiresAt,
           iv_accepted = None, iv_by = createdBy, iv_created = now\<rparr> of
        (Some e, s1) \<Rightarrow>
          (Inl (if isPGUniqueViolation errText e then ErrInviteAlreadyPending else InviteDb e), s1)
      | (None, s1) \<Rightarrow> (map_sum InviteDb id (GetInviteByID (up 1) s1 i), s1))"

definition GetPendingInviteByTokenHash :: "bool \<Rightarrow> time \<Rightarrow> site \<Rightarrow> string \<Rightarrow> db_err + Invite option" where
  "GetPendingInviteByTokenHash up now s tokenHash =
     (if \<not> up then Inl DbDown
      else Inr (find (\<lambda>x. iv_hash x = tokenHash \<and> iv_accepted x = None \<and> iv_expires x > now) (si_invites s)))"

definition MarkInviteAccepted :: "bool \<Rightarrow> time \<Rightarrow> site \<Rightarrow> string \<Rightarrow> invite_err option \<times> site" where
  "MarkInviteAccepted up now s i =
     (let P = (\<lambda>x. iv_id x = i \<and> iv_accepted x = None) in
      if \<not> up then (Some (InviteDb DbDown), s)
      else if \<not> list_ex P (si_invites s) then (Some ErrInviteAlreadyAccepted, s)
      else (None, s\<lparr>si_invites := update_rows P (\<lambda>x. x\<lparr>iv_accepted := Some now\<rparr>) (si_invites s)\<rparr>))"

definition ListInvitesByWorkspace :: "bool \<Rightarrow> site \<Rightarrow> string \<Rightarrow> db_err + Invite list" where
  "ListInvitesByWorkspace up s w =
     (if \<not> up then Inl DbDown
      else Inr (sort_key (\<lambda>x. - iv_created x) (filter (\<lambda>x. iv_ws x = w) (si_invites s))))"

definition DeleteInvite :: "bool \<Rightarrow> site \<Rightarrow> string \<Rightarrow> invite_err option \<times> site" where
  "DeleteInvite up s i =
     (let P = (\<lambda>x. iv_id x = i \<and> iv_accepted x = None) in
      if \<not> up then (Some (InviteDb DbDown), s)
      else if \<not> list_ex P (si_invites s) then (Some InviteNoRows, s)
      else (None, s\<lparr>si_invites := filter (\<lambda>x. \<not> P x) (si_invites s)\<rparr>))"

section \<open>API keys (\<open>workspace_api_keys.go\<close>)\<close>

definition CreateWorkspaceAPIKey :: "bool \<Rightarrow> time \<Rightarrow> site \<Rightarrow> WorkspaceAPIKey \<Rightarrow> db_err option \<times> site" where
  "CreateWorkspaceAPIKey up now s k =
     (if \<not> up then (Some DbDown, s)
      else if list_ex (\<lambda>x. ak_id x = ak_id k) (si_keys s) then (Some DuplicateKey, s)
      else if \<not> has_workspace (si_db s) (ak_ws k) \<or> \<not> has_user (si_db s) (ak_user k) then (Some ForeignKey, s)
      else (None, s\<lparr>si_keys := si_keys s @
              [k\<lparr>ak_created := now, ak_used := None, ak_revoked := None\<rparr>]\<rparr>))"

definition ListWorkspaceAPIKeys :: "bool \<Rightarrow> site \<Rightarrow> string \<Rightarrow> db_err + WorkspaceAPIKey list" where
  "ListWorkspaceAPIKeys up s w =
     (if \<not> up then Inl DbDown
      else Inr (map (\<lambda>x. x\<lparr>ak_hash := []\<rparr>)
             (sort_key (\<lambda>x. - ak_created x) (filter (\<lambda>x. ak_ws x = w) (si_keys s)))))"

definition RevokeWorkspaceAPIKey :: "bool \<Rightarrow> time \<Rightarrow> site \<Rightarrow> string \<Rightarrow> string \<Rightarrow> db_err option \<times> site" where
  "RevokeWorkspaceAPIKey up now s w i =
     (if \<not> up then (Some DbDown, s)
      else (None, s\<lparr>si_keys := update_rows (\<lambda>x. ak_id x = i \<and> ak_ws x = w \<and> ak_revoked x = None)
              (\<lambda>x. x\<lparr>ak_revoked := Some now\<rparr>) (si_keys s)\<rparr>))"

text \<open>\<open>KeyNoRows\<close> is \<open>sql.ErrNoRows\<close>, also for a secret that does not match.\<close>

datatype key_err = KeyDb db_err | KeyNoRows

definition ValidateWorkspaceAPIKeySecret ::
  "(string \<Rightarrow> string) \<Rightarrow> bool \<Rightarrow> time \<Rightarrow> site \<Rightarrow> string \<Rightarrow> string \<Rightarrow> key_err + WorkspaceAPIKey" where
  "ValidateWorkspaceAPIKeySecret hash up now s prefix secret =
     (if \<not> up then Inl (KeyDb DbDown)
      else (case find (\<lambda>x. ak_prefix x = prefix \<and> ak_revoked x = None \<and> ak_expires x > now) (si_keys s) of
          None \<Rightarrow> Inl KeyNoRows
        | Some k \<Rightarrow>
            if \<not> ConstantTimeMatch hash secret (ak_hash k) then Inl KeyNoRows
            else if ak_revoked k \<noteq> None then Inl KeyNoRows
            else Inr (k\<lparr>ak_hash := []\<rparr>)))"

definition TouchWorkspaceAPIKeyLastUsed :: "bool \<Rightarrow> time \<Rightarrow> site \<Rightarrow> string \<Rightarrow> db_err option \<times> site" where
  "TouchWorkspaceAPIKeyLastUsed up now s i =
     (if \<not> up then (Some DbDown, s)
      else (None, s\<lparr>si_keys := update_rows (\<lambda>x. ak_id x = i) (\<lambda>x. x\<lparr>ak_used := Some now\<rparr>) (si_keys s)\<rparr>))"

section \<open>Codex tokens (\<open>codex_tokens.go\<close>)\<close>

text \<open>The table has no references: any user and any workspace are accepted.\<close>

definition CreateCodexToken :: "bool \<Rightarrow> time \<Rightarrow> site \<Rightarrow> CodexToken \<Rightarrow> db_err option \<times> site" where
  "CreateCodexToken up now s t =
     (if \<not> up then (Some DbDown, s)
      else if list_ex (\<lambda>x. ct_id x = ct_id t) (si_codex s) then (Some DuplicateKey, s)
      else (None, s\<lparr>si_codex := si_codex s @
              [t\<lparr>ct_created := now, ct_used := None, ct_revoked := None\<rparr>]\<rparr>))"

definition GetCodexToken :: "bool \<Rightarrow> site \<Rightarrow> string \<Rightarrow> db_err + CodexToken option" where
  "GetCodexToken up s i = (if \<not> up then Inl DbDown else Inr (find (\<lambda>x. ct_id x = i) (si_codex s)))"

definition ListCodexTokensForWorkspace :: "bool \<Rightarrow> site \<Rightarrow> string \<Rightarrow> bool \<Rightarrow> db_err + CodexToken list" where
  "ListCodexTokensForWorkspace up s w includeRevoked =
     (if \<not> up then Inl DbDown
      else Inr (sort_key (\<lambda>x. - ct_created x)
             (filter (\<lambda>x. ct_ws x = w \<and> (includeRevoked \<or> ct_revoked x = None)) (si_codex s))))"

definition RevokeCodexToken :: "bool \<Rightarrow> time \<Rightarrow> site \<Rightarrow> string \<Rightarrow> db_err option \<times> site" where
  "RevokeCodexToken up now s i =
     (if \<not> up then (Some DbDown, s)
      else (None, s\<lparr>si_codex := update_rows (\<lambda>x. ct_id x = i \<and> ct_revoked x = None)
              (\<lambda>x. x\<lparr>ct_revoked := Some now\<rparr>) (si_codex s)\<rparr>))"

definition TouchCodexToken :: "bool \<Rightarrow> time \<Rightarrow> site \<Rightarrow> string \<Rightarrow> db_err option \<times> site" where
  "TouchCodexToken up now s i =
     (if \<not> up then (Some DbDown, s)
      else (None, s\<lparr>si_codex := update_rows (\<lambda>x. ct_id x = i) (\<lambda>x. x\<lparr>ct_used := Some now\<rparr>) (si_codex s)\<rparr>))"

section \<open>Connections of Codex tokens (\<open>codex_browser_sessions.go\<close>)\<close>

text \<open>Empty texts stand for empty columns; reading turns the latter into the former.\<close>

definition CreateCodexBrowserSession :: "bool \<Rightarrow> time \<Rightarrow> site \<Rightarrow> CodexBrowserSession \<Rightarrow> db_err option \<times> site" where
  "CreateCodexBrowserSession up now s b =
     (if \<not> up then (Some DbDown, s)
      else if list_ex (\<lambda>x. cb_id x = cb_id b) (si_browsers s) then (Some DuplicateKey, s)
      else if \<not> list_ex (\<lambda>x. ct_id x = cb_token b) (si_codex s) then (Some ForeignKey, s)
      else (None, s\<lparr>si_browsers := si_browsers s @ [b\<lparr>cb_connected := now, cb_disconnected := None\<rparr>]\<rparr>))"

definition keep_unless :: "string \<Rightarrow> string \<Rightarrow> string" where
  "keep_unless v old = (if v = [] then old else v)"

definition UpdateCodexBrowserSessionMeta ::
  "bool \<Rightarrow> site \<Rightarrow> string \<Rightarrow> string \<Rightarrow> string \<Rightarrow> string \<Rightarrow> db_err option \<times> site" where
  "UpdateCodexBrowserSessionMeta up s i ua version osStr =
     (if \<not> up then (Some DbDown, s)
      else (None, s\<lparr>si_browsers := update_rows (\<lambda>x. cb_id x = i)
              (\<lambda>x. x\<lparr>cb_ua := keep_unless ua (cb_ua x), cb_version := keep_unless version (cb_version x),
                    cb_os := keep_unless osStr (cb_os x)\<rparr>) (si_browsers s)\<rparr>))"

definition CloseCodexBrowserSession :: "bool \<Rightarrow> time \<Rightarrow> site \<Rightarrow> string \<Rightarrow> db_err option \<times> site" where
  "CloseCodexBrowserSession up now s i =
     (if \<not> up then (Some DbDown, s)
      else (None, s\<lparr>si_browsers := update_rows (\<lambda>x. cb_id x = i \<and> cb_disconnected x = None)
              (\<lambda>x. x\<lparr>cb_disconnected := Some now\<rparr>) (si_browsers s)\<rparr>))"

definition SweepStaleCodexBrowserSessions :: "bool \<Rightarrow> time \<Rightarrow> site \<Rightarrow> time \<Rightarrow> (db_err + nat) \<times> site" where
  "SweepStaleCodexBrowserSessions up now s olderThan =
     (let P = (\<lambda>x. cb_disconnected x = None \<and> cb_connected x < olderThan) in
      if \<not> up then (Inl DbDown, s)
      else (Inr (length (filter P (si_browsers s))),
            s\<lparr>si_browsers := update_rows P (\<lambda>x. x\<lparr>cb_disconnected := Some now\<rparr>) (si_browsers s)\<rparr>))"

text \<open>The open connections come first, then the latest.\<close>

definition LatestCodexBrowserSession :: "bool \<Rightarrow> site \<Rightarrow> string \<Rightarrow> db_err + CodexBrowserSession option" where
  "LatestCodexBrowserSession up s tokenID =
     (if \<not> up then Inl DbDown
      else Inr (case sort_key (\<lambda>x. if cb_disconnected x = None then 0 else 1 :: nat)
                       (sort_key (\<lambda>x. - cb_connected x) (filter (\<lambda>x. cb_token x = tokenID) (si_browsers s))) of
             [] \<Rightarrow> None | x # _ \<Rightarrow> Some x))"

definition CountOpenCodexBrowserSessions :: "bool \<Rightarrow> site \<Rightarrow> string \<Rightarrow> db_err + nat" where
  "CountOpenCodexBrowserSessions up s tokenID =
     (if \<not> up then Inl DbDown
      else Inr (length (filter (\<lambda>x. cb_token x = tokenID \<and> cb_disconnected x = None) (si_browsers s))))"

end
