(* ===== verification/Accounts.thy ===== *)
theory Accounts
  imports Accounts_Store
begin

text \<open>
  Sign-in: passwords, web sessions and their active workspace (\<open>internal/auth/auth.go\<close>,
  \<open>workspace_host.go\<close>), identity providers (\<open>internal/auth/oidc.go\<close>), the handlers of \<open>/api/auth\<close>
  (\<open>internal/server/server.go\<close>) and the invites (\<open>handlers_invites.go\<close>).

  Outside the repository, hence parameters: bcrypt (\<open>bhash\<close> gives the hash of a password, \<open>None\<close> when
  it refuses it; \<open>bmatch\<close> compares), SHA-256, the URL parser, and the exchange with an identity
  provider.  Random bytes are arguments, \<open>None\<close> when the source fails.  Request bodies are decoded
  values, \<open>None\<close> when they do not decode.  The audit events go to another table and are not part
  of the state.
\<close>

section \<open>Passwords and sessions\<close>

definition tokenTTL :: time where
  "tokenTTL = 7 * 24 * 3600 * 1000000000"

definition auth_Register ::
  "(string \<Rightarrow> string option) \<Rightarrow> (nat \<Rightarrow> bool) \<Rightarrow> time \<Rightarrow> string \<Rightarrow> string \<Rightarrow> string \<Rightarrow> site \<Rightarrow> bool \<times> site" where
  "auth_Register bhash up now i email password s =
     (case bhash password of
        None \<Rightarrow> (False, s)
      | Some h \<Rightarrow>
          (case CreateUser up now s i email h of (e, s1) \<Rightarrow> (e = None, s1)))"

text \<open>The statement that stores a session.\<close>

definition IssueToken :: "bool \<Rightarrow> time \<Rightarrow> string option \<Rightarrow> string \<Rightarrow> site \<Rightarrow> string option \<times> site" where
  "IssueToken up now rnd user s =
     (case RandomHex 32 rnd of
        None \<Rightarrow> (None, s)
      | Some token \<Rightarrow>
          (case on_db (\<lambda>db. CreateToken up db token user (now + tokenTTL)) s of
             (None, s1) \<Rightarrow> (Some token, s1)
           | (Some _, s1) \<Rightarrow> (None, s1)))"

text \<open>Statements: 0 the user, 1 the hash, 2 the session.  The result is the session and the user.\<close>

definition auth_Login ::
  "(string \<Rightarrow> string \<Rightarrow> bool) \<Rightarrow> (nat \<Rightarrow> bool) \<Rightarrow> time \<Rightarrow> string option \<Rightarrow> string \<Rightarrow> string \<Rightarrow> site \<Rightarrow>
     (string \<times> string) option \<times> site" where
  "auth_Login bmatch up now rnd email password s =
     (case db_GetUserByEmail (up 0) s email of
        Inr (Some user) \<Rightarrow>
          (case GetPasswordHash (up 1) s (us_id user) of
             Inr (Some h) \<Rightarrow>
               if \<not> bmatch h password then (None, s)
               else (case IssueToken (up 2) now rnd (us_id user) s of
                   (None, s1) \<Rightarrow> (None, s1)
                 | (Some token, s1) \<Rightarrow> (Some (token, us_id user), s1))
           | _ \<Rightarrow> (None, s))
      | _ \<Rightarrow> (None, s))"

text \<open>Statements: 0 the membership, 1 the session.\<close>

definition SetActiveWorkspace ::
  "(nat \<Rightarrow> bool) \<Rightarrow> time \<Rightarrow> string \<Rightarrow> string \<Rightarrow> string \<Rightarrow> site \<Rightarrow> (session_err + bool) \<times> site" where
  "SetActiveWorkspace up now token user w s =
     (let set_it = (case on_db (\<lambda>db. SetTokenActiveWorkspace (up 1) now db token w) s of
                      (Some e, s1) \<Rightarrow> (Inl e, s1) | (None, s1) \<Rightarrow> (Inr True, s1)) in
      if w \<noteq> []
      then (case IsWorkspaceMember (up 0) (si_db s) w user of
              Inl e \<Rightarrow> (Inl (SessionDb e), s)
            | Inr ok \<Rightarrow> if \<not> ok then (Inr False, s) else set_it)
      else set_it)"

definition InvalidateToken :: "bool \<Rightarrow> string \<Rightarrow> site \<Rightarrow> db_err option \<times> site" where
  "InvalidateToken up token s = on_db (\<lambda>db. DeleteToken up db token) s"

text \<open>Statements: 0 to 2 the login, 3 the slug, 4 and 5 the active workspace, 6 the removal.\<close>

definition LoginWithWorkspace ::
  "(string \<Rightarrow> string \<Rightarrow> bool) \<Rightarrow> (nat \<Rightarrow> bool) \<Rightarrow> time \<Rightarrow> string option \<Rightarrow> string \<Rightarrow> string \<Rightarrow> string \<Rightarrow> site \<Rightarrow>
     (string \<times> string) option \<times> site" where
  "LoginWithWorkspace bmatch up now rnd email password slug s =
     (case auth_Login bmatch up now rnd email password s of
        (None, s1) \<Rightarrow> (None, s1)
      | (Some (token, user), s1) \<Rightarrow>
     if slug = [] then (Some (token, user), s1)
     else (case GetWorkspaceBySlug (up 3) (si_db s1) slug of
        Inr (Some ws) \<Rightarrow>
          (case SetActiveWorkspace (\<lambda>k. up (4 + k)) now token user (w_id ws) s1 of
             (Inr True, s2) \<Rightarrow> (Some (token, user), s2)
           | (_, s2) \<Rightarrow> (None, snd (InvalidateToken (up 6) token s2)))
      | _ \<Rightarrow> (None, snd (InvalidateToken (up 6) token s1))))"

definition auth_ValidateTokenWithWorkspace :: "bool \<Rightarrow> time \<Rightarrow> string \<Rightarrow> site \<Rightarrow> (string \<times> string) option" where
  "auth_ValidateTokenWithWorkspace up now token s =
     (case db_ValidateTokenWithWorkspace up now (si_db s) token of
        Inl _ \<Rightarrow> None | Inr (user, w) \<Rightarrow> if user = [] then None else Some (user, w))"

definition auth_ValidateToken :: "bool \<Rightarrow> time \<Rightarrow> string \<Rightarrow> site \<Rightarrow> string option" where
  "auth_ValidateToken up now token s =
     (case db_ValidateToken up now (si_db s) token of
        Inl _ \<Rightarrow> None | Inr user \<Rightarrow> if user = [] then None else Some user)"

text \<open>What the middlewares put into the context of a request, or the refusal.\<close>

record web_ctx =
  cx_user :: string
  cx_token :: string
  cx_active :: string

definition auth_Middleware :: "bool \<Rightarrow> time \<Rightarrow> string option \<Rightarrow> site \<Rightarrow> (nat \<times> string) + web_ctx" where
  "auth_Middleware up now cookie s =
     (case cookie of
        None \<Rightarrow> Inl (401, ''unauthorized'')
      | Some c \<Rightarrow>
          (case auth_ValidateTokenWithWorkspace up now c s of
             None \<Rightarrow> Inl (401, ''unauthorized'')
           | Some (user, w) \<Rightarrow> Inr \<lparr>cx_user = user, cx_token = c, cx_active = w\<rparr>))"

text \<open>\<open>introspect\<close> asks the OAuth server whether a token is active, and for its subject.\<close>

definition BearerMiddleware :: "(string \<Rightarrow> (bool \<times> string) option) \<Rightarrow> string \<Rightarrow> (nat \<times> string) + web_ctx" where
  "BearerMiddleware introspect authz =
     (if \<not> HasPrefix authz ''Bearer '' then Inl (401, ''unauthorized'')
      else (case introspect (TrimPrefix authz ''Bearer '') of
          Some (active, subject) \<Rightarrow>
            if \<not> active \<or> subject = [] then Inl (401, ''unauthorized'')
            else Inr \<lparr>cx_user = subject, cx_token = [], cx_active = []\<rparr>
        | None \<Rightarrow> Inl (401, ''unauthorized'')))"

definition ValidateRequest :: "bool \<Rightarrow> time \<Rightarrow> string option \<Rightarrow> site \<Rightarrow> string option" where
  "ValidateRequest up now cookie s =
     (case cookie of None \<Rightarrow> None | Some c \<Rightarrow> auth_ValidateToken up now c s)"

section \<open>The workspace of a host name\<close>

text \<open>
  \<open>strings.LastIndex(host, ":")\<close>: the host without its port.  The server of the standard library
  rejects hosts with bytes outside ASCII, so the lower case is that of ASCII.
\<close>

definition strip_port :: "string \<Rightarrow> string" where
  "strip_port host =
     (if CHR '':'' \<in> set host then rev (tl (dropWhile (\<lambda>c. c \<noteq> CHR '':'') (rev host))) else host)"

fun slug_of_host :: "string \<Rightarrow> string \<Rightarrow> string \<Rightarrow> string list \<Rightarrow> string" where
  "slug_of_host openclaw hermes host [] = []"
| "slug_of_host openclaw hermes host (b # bs) =
     (let base = lower (TrimSpace b) in
      if base = [] then slug_of_host openclaw hermes host bs
      else if host = base \<or> host = ''www.'' @ base then []
      else if \<not> HasSuffix host (''.'' @ base) then slug_of_host openclaw hermes host bs
      else (let label = take (length host - length base - 1) host in
        if label = [] \<or> CHR ''.'' \<in> set label then []
        else if openclaw \<noteq> [] \<and> HasPrefix label (openclaw @ ''-'') then []
        else if hermes \<noteq> [] \<and> HasPrefix label (hermes @ ''-'') then []
        else label))"

record host_config =
  hc_bases :: "string list"
  hc_openclaw :: string
  hc_hermes :: string
  hc_codexAuth :: string

definition ResolveWorkspaceSlugFromHost :: "host_config \<Rightarrow> string \<Rightarrow> string" where
  "ResolveWorkspaceSlugFromHost hc h =
     (let host = lower (TrimSpace (strip_port h)) in
      if host = [] then []
      else if hc_codexAuth hc \<noteq> [] \<and> host = lower (hc_codexAuth hc) then []
      else slug_of_host (hc_openclaw hc) (hc_hermes hc) host (hc_bases hc))"

definition HostOnlySessionCookie :: "string \<Rightarrow> bool" where
  "HostOnlySessionCookie slug \<longleftrightarrow> slug \<noteq> []"

definition primaryBaseDomain :: "host_config \<Rightarrow> string" where
  "primaryBaseDomain hc = (case hc_bases hc of b # _ \<Rightarrow> b | [] \<Rightarrow> ''agentserver.local'')"

section \<open>The handlers of \<open>/api/auth\<close>\<close>

text \<open>
  The body has the address, the password and the slug.  The reply has the session for the cookie and
  whether the cookie is limited to the host.
\<close>

definition handleLogin ::
  "host_config \<Rightarrow> (string \<Rightarrow> string \<Rightarrow> bool) \<Rightarrow> (nat \<Rightarrow> bool) \<Rightarrow> time \<Rightarrow> string option \<Rightarrow> string \<Rightarrow>
     (string \<times> string \<times> string) option \<Rightarrow> site \<Rightarrow> (string \<times> bool) reply \<times> site" where
  "handleLogin hc bmatch up now rnd host body s =
     (case body of
        None \<Rightarrow> (ErrorReply 400 ''bad request'', s)
      | Some (email, password, slug0) \<Rightarrow>
          (let slug1 = TrimSpace slug0;
               slug = (if slug1 = [] then ResolveWorkspaceSlugFromHost hc host else slug1) in
           case LoginWithWorkspace bmatch up now rnd email password slug s of
             (None, s1) \<Rightarrow> (ErrorReply 401 ''invalid credentials'', s1)
           | (Some (token, _), s1) \<Rightarrow> (Reply 200 (token, HostOnlySessionCookie slug), s1)))"

text \<open>Statements: \<open>100 + k\<close> the creation, 11 the owner, 12 the undoing, 13 the namespace.\<close>

definition createDefaultWorkspace ::
  "(nat \<Rightarrow> bool) \<Rightarrow> time \<Rightarrow> string option option \<Rightarrow> string \<Rightarrow> string \<Rightarrow> srv_db \<Rightarrow> srv_db" where
  "createDefaultWorkspace up now nsm w user db =
     (case CreateWorkspace (\<lambda>k. up (100 + k)) now db w ''Default workspace'' of
        (Some _, db1) \<Rightarrow> db1
      | (None, db1) \<Rightarrow>
          (case AddWorkspaceMember (up 11) now db1 w user ''owner'' of
             (Some _, db2) \<Rightarrow> snd (DeleteWorkspace (up 12) db2 w)
           | (None, db2) \<Rightarrow>
               (case nsm of
                  Some (Some ns) \<Rightarrow> snd (SetWorkspaceNamespace (up 13) now db2 w ns)
                | _ \<Rightarrow> db2)))"

text \<open>
  Statements: 0 the lookup, 1 to 4 the transaction, 5 the count, 6 the role.  \<open>i\<close> and \<open>w\<close> are the new
  identifiers.
\<close>

definition handleRegister ::
  "(string \<Rightarrow> string option) \<Rightarrow> (nat \<Rightarrow> bool) \<Rightarrow> time \<Rightarrow> string option option \<Rightarrow> string \<Rightarrow> string \<Rightarrow>
     (string \<times> string) option \<Rightarrow> site \<Rightarrow> (string \<times> string) reply \<times> site" where
  "handleRegister bhash up now nsm i w body s =
     (case body of
        None \<Rightarrow> (ErrorReply 400 ''bad request'', s)
      | Some (email, password) \<Rightarrow>
     if email = [] \<or> password = [] then (ErrorReply 400 ''email and password required'', s)
     else (case db_GetUserByEmail (up 0) s email of
        Inl _ \<Rightarrow> (ErrorReply 500 ''internal error'', s)
      | Inr (Some _) \<Rightarrow> (ErrorReply 409 ''email already taken'', s)
      | Inr None \<Rightarrow>
          (case auth_Register bhash (\<lambda>k. up (1 + k)) now i email password s of
             (False, s1) \<Rightarrow> (ErrorReply 500 ''failed to create user'', s1)
           | (True, s1) \<Rightarrow>
               (let s2 = (if CountUsers (up 5) s1 = Inr 1 then snd (UpdateUserRole (up 6) s1 i ''admin'') else s1) in
                (Reply 201 (i, email), s2\<lparr>si_db := createDefaultWorkspace up now nsm w i (si_db s2)\<rparr>)))))"

definition handleAuthCheck :: "bool \<Rightarrow> time \<Rightarrow> string option \<Rightarrow> site \<Rightarrow> unit reply" where
  "handleAuthCheck up now cookie s =
     (case ValidateRequest up now cookie s of
        None \<Rightarrow> ErrorReply 401 ''unauthorized'' | Some _ \<Rightarrow> Reply 200 ())"

text \<open>The reply clears the cookie, with or without its domain.\<close>

definition handleLogout :: "host_config \<Rightarrow> bool \<Rightarrow> string \<Rightarrow> string option \<Rightarrow> site \<Rightarrow> bool reply \<times> site" where
  "handleLogout hc up host cookie s =
     (Reply 200 (HostOnlySessionCookie (ResolveWorkspaceSlugFromHost hc host)),
      (case cookie of
         Some c \<Rightarrow> if c = [] then s else snd (InvalidateToken up c s)
       | None \<Rightarrow> s))"

definition nonempty :: "string option \<Rightarrow> string option" where
  "nonempty v = (case v of Some [] \<Rightarrow> None | _ \<Rightarrow> v)"

text \<open>Identifier, address, role, name, picture, active workspace.\<close>

definition handleMe ::
  "bool \<Rightarrow> web_ctx \<Rightarrow> site \<Rightarrow> (string \<times> string \<times> string \<times> string option \<times> string option \<times> string option) reply" where
  "handleMe up cx s =
     (case db_GetUserByID up s (cx_user cx) of
        Inr (Some u) \<Rightarrow>
          Reply 200 (us_id u, us_email u, us_role u, nonempty (us_name u), nonempty (us_picture u),
            nullif_empty (cx_active cx))
      | _ \<Rightarrow> ErrorReply 404 ''user not found'')"

definition handleSetSessionWorkspace ::
  "(nat \<Rightarrow> bool) \<Rightarrow> time \<Rightarrow> web_ctx \<Rightarrow> string option \<Rightarrow> site \<Rightarrow> string option reply \<times> site" where
  "handleSetSessionWorkspace up now cx body s =
     (if cx_token cx = [] then (ErrorReply 401 ''no session'', s)
      else (case body of
          None \<Rightarrow> (ErrorReply 400 ''invalid request'', s)
        | Some w \<Rightarrow>
            (case SetActiveWorkspace up now (cx_token cx) (cx_user cx) w s of
               (Inl _, s1) \<Rightarrow> (ErrorReply 500 ''internal error'', s1)
             | (Inr False, s1) \<Rightarrow> (ErrorReply 403 ''not a workspace member'', s1)
             | (Inr True, s1) \<Rightarrow> (Reply 200 (nullif_empty w), s1))))"

section \<open>Identity providers\<close>

text \<open>The domains of a provider; without any it is offered on all hosts.\<close>

definition ProviderNamesForHost :: "(string \<times> string list) list \<Rightarrow> string \<Rightarrow> string list" where
  "ProviderNamesForHost providers h =
     (let host = strip_port h in
      map fst (filter (\<lambda>(_, ds). ds = [] \<or> list_ex (\<lambda>d. host = d \<or> HasSuffix host (''.'' @ d)) ds) providers))"

text \<open>
  \<open>parseURL\<close> is the scheme and the host of \<open>url.Parse\<close>, \<open>cd\<close> the cookie domain of the environment.  A
  code point below 32 or equal to 127 is a byte of that value.
\<close>

definition safeNext :: "(string \<Rightarrow> (string \<times> string) option) \<Rightarrow> string \<Rightarrow> string \<Rightarrow> string" where
  "safeNext parseURL cd next =
     (if next = [] \<or> length next > 2048 then []
      else if list_ex (\<lambda>c. byte c < 32 \<or> byte c = 127) next then []
      else if HasPrefix next ''/'' then (if HasPrefix next ''//'' then [] else next)
      else (case parseURL next of
          None \<Rightarrow> []
        | Some (scheme, host) \<Rightarrow>
            if scheme \<noteq> ''https'' \<or> host = [] then []
            else if cd = [] then []
            else if \<not> HasSuffix (''.'' @ host) cd then []
            else next))"

text \<open>The state cookie and the cookie with the destination; the redirect to the provider carries the state.\<close>

definition oidc_HandleLogin ::
  "(string \<Rightarrow> (string \<times> string) option) \<Rightarrow> string \<Rightarrow> (string \<Rightarrow> bool) \<Rightarrow> string \<Rightarrow> string \<Rightarrow> string \<Rightarrow>
     (string \<times> string option) reply" where
  "oidc_HandleLogin parseURL cd known provider stateBytes next =
     (if \<not> known provider then ErrorReply 404 ''unknown provider''
      else Reply 302 (hex_of stateBytes, nullif_empty (safeNext parseURL cd next)))"

record identity =
  id_subject :: string
  id_email :: string
  id_name :: string
  id_avatar :: string

definition set_profile :: "(nat \<Rightarrow> bool) \<Rightarrow> identity \<Rightarrow> string \<Rightarrow> site \<Rightarrow> site" where
  "set_profile up ident user s =
     (let s1 = (if id_avatar ident \<noteq> [] then snd (UpdateUserPicture (up 0) s user (id_avatar ident)) else s) in
      if id_name ident \<noteq> [] then snd (UpdateUserName (up 1) s1 user (id_name ident)) else s1)"

text \<open>
  Statements: 0 the identity, 1 to 3 the updates of a linked user, 4 the user of the address, 5 the
  link, 6 and 7 the updates, 8 to 11 the new user, 12 the count, 13 the role, 14 and 15 the updates,
  16 the link.  The result is the user and whether it is new, \<open>None\<close> on an error.
\<close>

definition resolveUser ::
  "(nat \<Rightarrow> bool) \<Rightarrow> time \<Rightarrow> string \<Rightarrow> string \<Rightarrow> identity \<Rightarrow> site \<Rightarrow> (string \<times> bool) option \<times> site" where
  "resolveUser up now i provider ident s =
     (case GetOIDCIdentity (up 0) s provider (id_subject ident) of
        Inl _ \<Rightarrow> (None, s)
      | Inr (Some oi) \<Rightarrow>
          (let s1 = set_profile (\<lambda>k. up (1 + k)) ident (oi_user oi) s;
               s2 = (if id_email ident \<noteq> []
                     then snd (UpdateOIDCIdentityEmail (up 3) s1 provider (id_subject ident) (id_email ident))
                     else s1) in
           (Some (oi_user oi, False), s2))
      | Inr None \<Rightarrow>
     (let emailPtr = nullif_empty (id_email ident);
          byEmail = (if id_email ident = [] then Inr None else db_GetUserByEmail (up 4) s (id_email ident)) in
      case byEmail of
        Inl _ \<Rightarrow> (None, s)
      | Inr (Some user) \<Rightarrow>
          (case CreateOIDCIdentity (up 5) s provider (id_subject ident) (us_id user) emailPtr of
             (Some _, s1) \<Rightarrow> (None, s1)
           | (None, s1) \<Rightarrow> (Some (us_id user, False), set_profile (\<lambda>k. up (6 + k)) ident (us_id user) s1))
      | Inr None \<Rightarrow>
          if id_email ident = [] then (None, s)
          else (case CreateUserWithEmail (\<lambda>k. up (8 + k)) now s i None (id_email ident) of
             (Some _, s1) \<Rightarrow> (None, s1)
           | (None, s1) \<Rightarrow>
               (let s2 = (if CountUsers (up 12) s1 = Inr 1 then snd (UpdateUserRole (up 13) s1 i ''admin'') else s1);
                    s3 = set_profile (\<lambda>k. up (14 + k)) ident i s2 in
                case CreateOIDCIdentity (up 16) s3 provider (id_subject ident) i emailPtr of
                  (Some _, s4) \<Rightarrow> (None, s4)
                | (None, s4) \<Rightarrow> (Some (i, True), s4)))))"

record callback_request =
  cr_stateCookie :: "string option"
  cr_nextCookie :: "string option"
  cr_state :: string
  cr_error :: string
  cr_code :: string
  cr_host :: string

text \<open>
  \<open>idp\<close> exchanges the code and asks for the identity: \<open>Inl False\<close> when the exchange fails, \<open>Inl True\<close> when
  the identity cannot be had.  Statements: 0 to 16 the user, 17 the session, 18 the slug, 19 and 20
  the active workspace, 21 the removal, from 22 on the default workspace.
\<close>

definition oidc_HandleCallback ::
  "(string \<Rightarrow> (string \<times> string) option) \<Rightarrow> string \<Rightarrow> host_config \<Rightarrow> (nat \<Rightarrow> bool) \<Rightarrow> time \<Rightarrow> string option option \<Rightarrow>
     string option \<Rightarrow> string \<Rightarrow> string \<Rightarrow> (string \<Rightarrow> bool) \<Rightarrow> (string \<Rightarrow> string \<Rightarrow> bool + identity) \<Rightarrow> string \<Rightarrow>
     callback_request \<Rightarrow> site \<Rightarrow> (string \<times> bool \<times> string) reply \<times> site" where
  "oidc_HandleCallback parseURL cd hc up now nsm rnd i w known idp provider r s =
     (if \<not> known provider then (ErrorReply 404 ''unknown provider'', s)
      else if cr_stateCookie r \<in> {None, Some []} then (ErrorReply 400 ''missing oauth state'', s)
      else if cr_state r \<noteq> the (cr_stateCookie r) then (ErrorReply 400 ''invalid oauth state'', s)
      else if cr_error r \<noteq> [] then (ErrorReply 401 (''authentication failed: '' @ cr_error r), s)
      else if cr_code r = [] then (ErrorReply 400 ''missing authorization code'', s)
      else (case idp provider (cr_code r) of
          Inl False \<Rightarrow> (ErrorReply 500 ''token exchange failed'', s)
        | Inl True \<Rightarrow> (ErrorReply 500 ''failed to get identity'', s)
        | Inr ident \<Rightarrow>
     (case resolveUser up now i provider ident s of
        (None, s1) \<Rightarrow> (ErrorReply 500 ''failed to resolve user'', s1)
      | (Some (user, isNew), s1) \<Rightarrow>
          (let s2 = (if isNew then s1\<lparr>si_db := createDefaultWorkspace (\<lambda>k. up (22 + k)) now nsm w user (si_db s1)\<rparr>
                     else s1) in
           case IssueToken (up 17) now rnd user s2 of
             (None, s3) \<Rightarrow> (ErrorReply 500 ''failed to issue token'', s3)
           | (Some token, s3) \<Rightarrow>
               (let slug = ResolveWorkspaceSlugFromHost hc (cr_host r);
                    dest = (case cr_nextCookie r of
                              Some c \<Rightarrow> if safeNext parseURL cd c = [] then ''/'' else safeNext parseURL cd c
                            | None \<Rightarrow> ''/'') in
                if slug = [] then (Reply 302 (token, False, dest), s3)
                else (case GetWorkspaceBySlug (up 18) (si_db s3) slug of
                   Inr (Some ws) \<Rightarrow>
                     (case SetActiveWorkspace (\<lambda>k. up (19 + k)) now token user (w_id ws) s3 of
                        (Inr True, s4) \<Rightarrow> (Reply 302 (token, True, dest), s4)
                      | (_, s4) \<Rightarrow> (ErrorReply 401 ''invalid credentials'', snd (InvalidateToken (up 21) token s4)))
                 | _ \<Rightarrow> (ErrorReply 401 ''invalid credentials'', snd (InvalidateToken (up 21) token s3))))))))"

text \<open>The address of a GitHub account: the public one, else the primary verified one, else any verified one.\<close>

record githubEmail =
  ge_email :: string
  ge_primary :: bool
  ge_verified :: bool

definition fetchPrimaryEmail :: "githubEmail list option \<Rightarrow> string" where
  "fetchPrimaryEmail answer =
     (case answer of
        None \<Rightarrow> []
      | Some emails \<Rightarrow>
          (case find (\<lambda>e. ge_primary e \<and> ge_verified e) emails of
             Some e \<Rightarrow> ge_email e
           | None \<Rightarrow> (case find ge_verified emails of Some e \<Rightarrow> ge_email e | None \<Rightarrow> [])))"

section \<open>Invites\<close>

definition inviteTTL :: time where
  "inviteTTL = 7 * 24 * 3600 * 1000000000"

definition hashInviteToken :: "(string \<Rightarrow> string) \<Rightarrow> string \<Rightarrow> string" where
  "hashInviteToken sha plain = hex_of (sha plain)"

definition BuildTenantURL :: "string \<Rightarrow> string \<Rightarrow> string \<Rightarrow> string" where
  "BuildTenantURL slug baseDomain path =
     ''https://'' @ (if slug \<noteq> [] then slug @ ''.'' @ baseDomain else baseDomain) @ path"

definition BuildInviteURL :: "string \<Rightarrow> string \<Rightarrow> string \<Rightarrow> string" where
  "BuildInviteURL slug baseDomain token = BuildTenantURL slug baseDomain (''/accept-invite?token='' @ token)"

text \<open>
  The body has the address and the role.  Statements: 0 the role, 1 the workspace, 2 the insertion, 3
  the reading back; a row that is gone by then is a nil pointer.  The reply has the invite, its URL
  and the slug.
\<close>

definition handleCreateInvite ::
  "(string \<Rightarrow> string) \<Rightarrow> (db_err \<Rightarrow> string) \<Rightarrow> host_config \<Rightarrow> (nat \<Rightarrow> bool) \<Rightarrow> time \<Rightarrow> string option \<Rightarrow> string \<Rightarrow>
     string \<Rightarrow> string \<Rightarrow> (string \<times> string) option \<Rightarrow> site \<Rightarrow> (Invite \<times> string \<times> string) reply \<times> site" where
  "handleCreateInvite sha errText hc up now rnd i user w body s =
     (case requireWorkspaceRole (up 0) (si_db s) user w [''owner'', ''maintainer''] of
        Some (c, msg) \<Rightarrow> (ErrorReply c msg, s)
      | None \<Rightarrow>
     (case body of
        None \<Rightarrow> (ErrorReply 400 ''bad request'', s)
      | Some (email, role0) \<Rightarrow>
     if email = [] then (ErrorReply 400 ''email required'', s)
     else (let role = (if role0 = [] then ''developer'' else role0) in
      case GetWorkspace (up 1) (si_db s) w of
        Inr (Some ws) \<Rightarrow>
          (case RandomHex 32 rnd of
             None \<Rightarrow> (ErrorReply 500 ''internal error'', s)
           | Some plain \<Rightarrow>
               (case CreateInvite errText (\<lambda>k. up (2 + k)) now s i w email role (hashInviteToken sha plain) user
                       (now + inviteTTL) of
                  (Inl ErrInviteAlreadyPending, s1) \<Rightarrow> (ErrorReply 409 ''invite already pending for this email'', s1)
                | (Inl _, s1) \<Rightarrow> (ErrorReply 500 ''internal error'', s1)
                | (Inr None, s1) \<Rightarrow> (ErrorReply 500 ''nil pointer'', s1)
                | (Inr (Some iv), s1) \<Rightarrow>
                    (Reply 201 (iv, BuildInviteURL (w_slug ws) (primaryBaseDomain hc) plain, w_slug ws), s1)))
      | _ \<Rightarrow> (ErrorReply 404 ''workspace not found'', s))))"

definition handleListInvites :: "(nat \<Rightarrow> bool) \<Rightarrow> string \<Rightarrow> string \<Rightarrow> site \<Rightarrow> Invite list reply" where
  "handleListInvites up user w s =
     (case requireWorkspaceRole (up 0) (si_db s) user w [''owner'', ''maintainer''] of
        Some (c, msg) \<Rightarrow> ErrorReply c msg
      | None \<Rightarrow>
          (case ListInvitesByWorkspace (up 1) s w of
             Inl _ \<Rightarrow> ErrorReply 500 ''internal error''
           | Inr ivs \<Rightarrow> Reply 200 ivs))"

definition handleRevokeInvite ::
  "(nat \<Rightarrow> bool) \<Rightarrow> string \<Rightarrow> string \<Rightarrow> string \<Rightarrow> site \<Rightarrow> unit reply \<times> site" where
  "handleRevokeInvite up user w inviteID s =
     (case requireWorkspaceRole (up 0) (si_db s) user w [''owner'', ''maintainer''] of
        Some (c, msg) \<Rightarrow> (ErrorReply c msg, s)
      | None \<Rightarrow>
          (case DeleteInvite (up 1) s inviteID of
             (Some _, s1) \<Rightarrow> (ErrorReply 404 ''not found'', s1)
           | (None, s1) \<Rightarrow> (Reply 204 (), s1)))"

text \<open>Name and slug of the workspace, and the invite.\<close>

definition handleGetInviteInfo ::
  "(string \<Rightarrow> string) \<Rightarrow> (nat \<Rightarrow> bool) \<Rightarrow> time \<Rightarrow> string \<Rightarrow> site \<Rightarrow> (string \<times> string \<times> Invite) reply" where
  "handleGetInviteInfo sha up now token s =
     (if token = [] then ErrorReply 404 ''invalid or expired invite''
      else (case GetPendingInviteByTokenHash (up 0) now s (hashInviteToken sha token) of
          Inr (Some iv) \<Rightarrow>
            (case GetWorkspace (up 1) (si_db s) (iv_ws iv) of
               Inr (Some ws) \<Rightarrow> Reply 200 (w_name ws, w_slug ws, iv)
             | _ \<Rightarrow> ErrorReply 404 ''invalid or expired invite'')
        | _ \<Rightarrow> ErrorReply 404 ''invalid or expired invite''))"

text \<open>
  The user who accepts: a new one, or the one of the address with the right password, or the
  refusal.  Statements: 0 the user, 1 to 4 the transaction, 5 to 7 the login, whose session stays.
\<close>

definition inviteUser ::
  "(string \<Rightarrow> string option) \<Rightarrow> (string \<Rightarrow> string \<Rightarrow> bool) \<Rightarrow> (nat \<Rightarrow> bool) \<Rightarrow> time \<Rightarrow> string option \<Rightarrow> string \<Rightarrow> string \<Rightarrow>
     string \<Rightarrow> site \<Rightarrow> ((nat \<times> string) + string) \<times> site" where
  "inviteUser bhash bmatch up now rnd i email password s =
     (case db_GetUserByEmail (up 0) s email of
        Inl _ \<Rightarrow> (Inl (500, ''internal error''), s)
      | Inr None \<Rightarrow>
          (case auth_Register bhash (\<lambda>k. up (1 + k)) now i email password s of
             (False, s1) \<Rightarrow> (Inl (500, ''internal error''), s1)
           | (True, s1) \<Rightarrow> (Inr i, s1))
      | Inr (Some user) \<Rightarrow>
          (case auth_Login bmatch (\<lambda>k. up (5 + k)) now rnd email password s of
             (None, s1) \<Rightarrow> (Inl (401, ''invalid credentials''), s1)
           | (Some _, s1) \<Rightarrow> (Inr (us_id user), s1)))"

text \<open>
  Statements: 0 the invite, 1 the workspace, 2 to 9 the user, 10 the membership, 11 its insertion, 12
  the mark, 13 to 19 the session.
\<close>

definition handleAcceptInvite ::
  "(string \<Rightarrow> string) \<Rightarrow> (string \<Rightarrow> string option) \<Rightarrow> (string \<Rightarrow> string \<Rightarrow> bool) \<Rightarrow> (nat \<Rightarrow> bool) \<Rightarrow> time \<Rightarrow>
     string option \<Rightarrow> string option \<Rightarrow> string \<Rightarrow> string \<Rightarrow> string option \<Rightarrow> site \<Rightarrow> string reply \<times> site" where
  "handleAcceptInvite sha bhash bmatch up now rnd1 rnd2 i token body s =
     (if token = [] then (ErrorReply 404 ''invalid or expired invite'', s)
      else if body \<in> {None, Some []} then (ErrorReply 400 ''bad request'', s)
      else (case GetPendingInviteByTokenHash (up 0) now s (hashInviteToken sha token) of
          Inr (Some iv) \<Rightarrow>
     (case GetWorkspace (up 1) (si_db s) (iv_ws iv) of
        Inr (Some ws) \<Rightarrow>
     (case inviteUser bhash bmatch (\<lambda>k. up (2 + k)) now rnd1 i (iv_email iv) (the body) s of
        (Inl (c, msg), s1) \<Rightarrow> (ErrorReply c msg, s1)
      | (Inr user, s1) \<Rightarrow>
     (case (if IsWorkspaceMember (up 10) (si_db s1) (iv_ws iv) user = Inr True then (None, s1)
            else on_db (\<lambda>db. AddWorkspaceMember (up 11) now db (iv_ws iv) user (iv_role iv)) s1) of
        (Some _, s2) \<Rightarrow> (ErrorReply 500 ''internal error'', s2)
      | (None, s2) \<Rightarrow>
     (case MarkInviteAccepted (up 12) now s2 (iv_id iv) of
        (_, s3) \<Rightarrow>
          (case LoginWithWorkspace bmatch (\<lambda>k. up (13 + k)) now rnd2 (iv_email iv) (the body) (w_slug ws) s3 of
             (None, s4) \<Rightarrow> (ErrorReply 500 ''internal error'', s4)
           | (Some (session, _), s4) \<Rightarrow> (Reply 200 session, s4)))))
      | _ \<Rightarrow> (ErrorReply 404 ''invalid or expired invite'', s))
        | _ \<Rightarrow> (ErrorReply 404 ''invalid or expired invite'', s)))"

end
