(* ===== verification/Credentials.thy ===== *)
theory Credentials
  imports Accounts
begin

text \<open>
  The credentials a workspace hands out: API keys (\<open>internal/server/workspace_api_keys.go\<close>,
  \<open>workspace_api_keys_internal.go\<close>, \<open>api_key_scopes.go\<close>, \<open>expiration.go\<close>), Codex tokens
  (\<open>codex_tokens.go\<close>, \<open>codex_tokens_internal.go\<close>), their connections
  (\<open>codex_browser_sessions_internal.go\<close>, \<open>codex_browsers.go\<close>), and proxy tokens
  (\<open>validate_proxy_token.go\<close>, \<open>workspace_token.go\<close>).

  \<open>parseTime\<close> is \<open>time.Parse\<close> with RFC 3339.  The notes of last use are written by goroutines after the
  reply; they are separate operations here, \<open>TouchCodexToken\<close> and \<open>TouchWorkspaceAPIKeyLastUsed\<close>.
\<close>

section \<open>Expiry and scopes\<close>

definition expirationDefaultDuration :: time where
  "expirationDefaultDuration = 90 * 24 * 3600 * 1000000000"

definition expirationMaxDuration :: time where
  "expirationMaxDuration = 365 * 24 * 3600 * 1000000000"

definition expirationClockSkew :: time where
  "expirationClockSkew = 60 * 1000000000"

definition resolveExpiresAt :: "(string \<Rightarrow> time option) \<Rightarrow> time \<Rightarrow> string \<Rightarrow> string + time" where
  "resolveExpiresAt parseTime now raw =
     (if raw = [] then Inr (now + expirationDefaultDuration)
      else (case parseTime raw of
          None \<Rightarrow> Inl ''expires_at must be an RFC3339 timestamp''
        | Some t \<Rightarrow>
            if t < now - expirationClockSkew then Inl ''expires_at is in the past''
            else if t > now + expirationMaxDuration then Inl ''expires_at is more than 365 days in the future''
            else Inr t))"

text \<open>Name and availability of the scopes.\<close>

definition apiKeyScopeCatalog :: "(string \<times> bool) list" where
  "apiKeyScopeCatalog =
     [(''turns:submit'', True), (''turns:read'', False), (''threads:create'', False), (''threads:cancel'', False),
      (''threads:read'', False), (''mailbox:read'', False), (''mailbox:send'', False)]"

definition validateScopes :: "string list \<Rightarrow> string option" where
  "validateScopes requested =
     (if requested = [] then Some ''at least one scope required''
      else (let allowed = (\<lambda>r. list_ex (\<lambda>(n, available). available \<and> n = r) apiKeyScopeCatalog) in
        map_option (\<lambda>r. ''scope not available: '' @ r) (find (\<lambda>r. \<not> allowed r) requested)))"

section \<open>API keys\<close>

definition handleListWorkspaceAPIKeys :: "(nat \<Rightarrow> bool) \<Rightarrow> string \<Rightarrow> string \<Rightarrow> site \<Rightarrow> WorkspaceAPIKey list reply" where
  "handleListWorkspaceAPIKeys up user w s =
     (case requireWorkspaceMember (up 0) (si_db s) user w of
        Inl (c, msg) \<Rightarrow> ErrorReply c msg
      | Inr _ \<Rightarrow>
          (case ListWorkspaceAPIKeys (up 1) s w of
             Inl _ \<Rightarrow> ErrorReply 500 ''internal error''
           | Inr ks \<Rightarrow> Reply 200 ks))"

text \<open>The body has the name, the scopes and the expiry.  The reply has the key and its secret.\<close>

definition handleMintWorkspaceAPIKey ::
  "(string \<Rightarrow> string) \<Rightarrow> (string \<Rightarrow> time option) \<Rightarrow> (nat \<Rightarrow> bool) \<Rightarrow> time \<Rightarrow> (nat \<Rightarrow> nat option) \<Rightarrow> (nat \<Rightarrow> nat option) \<Rightarrow>
     string \<Rightarrow> string \<Rightarrow> (string \<times> string list \<times> string) option \<Rightarrow> site \<Rightarrow>
     (WorkspaceAPIKey \<times> string) reply \<times> site" where
  "handleMintWorkspaceAPIKey hash parseTime up now d1 d2 user w body s =
     (case requireWorkspaceRole (up 0) (si_db s) user w [''owner'', ''maintainer''] of
        Some (c, msg) \<Rightarrow> (ErrorReply c msg, s)
      | None \<Rightarrow>
     (case body of
        None \<Rightarrow> (ErrorReply 400 ''invalid json'', s)
      | Some (name, scopes, expiresAt) \<Rightarrow>
     if TrimSpace name = [] then (ErrorReply 400 ''name required'', s)
     else (case validateScopes scopes of
        Some msg \<Rightarrow> (ErrorReply 400 msg, s)
      | None \<Rightarrow>
     (case resolveExpiresAt parseTime now expiresAt of
        Inl msg \<Rightarrow> (ErrorReply 422 msg, s)
      | Inr exp \<Rightarrow>
     (case MintSecret hash APIKeySpec d1 d2 of
        Inl _ \<Rightarrow> (ErrorReply 500 ''internal error'', s)
      | Inr tok \<Rightarrow>
          (let row = \<lparr>ak_id = to_id tok, ak_ws = w, ak_user = user, ak_name = name, ak_prefix = to_id tok,
                      ak_hash = to_hash tok, ak_scopes = scopes, ak_created = now, ak_expires = exp,
                      ak_used = None, ak_revoked = None\<rparr> in
           case CreateWorkspaceAPIKey (up 1) now s row of
             (Some _, s1) \<Rightarrow> (ErrorReply 500 ''internal error'', s1)
           | (None, s1) \<Rightarrow> (Reply 201 (row, to_full tok), s1)))))))"

definition handleListWorkspaceAPIKeyScopes :: "bool \<Rightarrow> string \<Rightarrow> string \<Rightarrow> site \<Rightarrow> (string \<times> bool) list reply" where
  "handleListWorkspaceAPIKeyScopes up user w s =
     (case requireWorkspaceMember up (si_db s) user w of
        Inl (c, msg) \<Rightarrow> ErrorReply c msg
      | Inr _ \<Rightarrow> Reply 200 apiKeyScopeCatalog)"

definition handleRevokeWorkspaceAPIKey ::
  "(nat \<Rightarrow> bool) \<Rightarrow> time \<Rightarrow> string \<Rightarrow> string \<Rightarrow> string \<Rightarrow> site \<Rightarrow> unit reply \<times> site" where
  "handleRevokeWorkspaceAPIKey up now user w keyID s =
     (case requireWorkspaceRole (up 0) (si_db s) user w [''owner'', ''maintainer''] of
        Some (c, msg) \<Rightarrow> (ErrorReply c msg, s)
      | None \<Rightarrow>
          (case RevokeWorkspaceAPIKey (up 1) now s w keyID of
             (Some _, s1) \<Rightarrow> (ErrorReply 500 ''internal error'', s1)
           | (None, s1) \<Rightarrow> (Reply 204 (), s1)))"

text \<open>Workspace, key and scopes.\<close>

definition handleInternalValidateAPIKey ::
  "(string \<Rightarrow> string) \<Rightarrow> bool \<Rightarrow> time \<Rightarrow> string option \<Rightarrow> site \<Rightarrow> (string \<times> string \<times> string list) reply" where
  "handleInternalValidateAPIKey hash up now body s =
     (case body of
        None \<Rightarrow> ErrorReply 400 ''invalid json''
      | Some secret \<Rightarrow>
          (case ParseSecret APIKeySpec secret of
             Inl _ \<Rightarrow> ErrorReply 401 ''unauthorized''
           | Inr (prefix, _) \<Rightarrow>
               (case ValidateWorkspaceAPIKeySecret hash up now s prefix secret of
                  Inl KeyNoRows \<Rightarrow> ErrorReply 401 ''unauthorized''
                | Inl _ \<Rightarrow> ErrorReply 500 ''internal error''
                | Inr k \<Rightarrow> Reply 200 (ak_ws k, ak_id k, ak_scopes k))))"

section \<open>Codex tokens\<close>

text \<open>The body has the workspace, the name and the expiry.\<close>

definition handleMintCodexToken ::
  "(string \<Rightarrow> string) \<Rightarrow> (string \<Rightarrow> time option) \<Rightarrow> (nat \<Rightarrow> bool) \<Rightarrow> time \<Rightarrow> (nat \<Rightarrow> nat option) \<Rightarrow> (nat \<Rightarrow> nat option) \<Rightarrow>
     string \<Rightarrow> (string \<times> string \<times> string) option \<Rightarrow> site \<Rightarrow> (CodexToken \<times> string) reply \<times> site" where
  "handleMintCodexToken hash parseTime up now d1 d2 user body s =
     (if user = [] then (ErrorReply 401 ''unauthorized'', s)
      else (case body of
          None \<Rightarrow> (ErrorReply 400 ''invalid JSON'', s)
        | Some (w, name, expiresAt) \<Rightarrow>
     if w = [] \<or> name = [] then (ErrorReply 422 ''workspace_id and name are required'', s)
     else (case resolveExpiresAt parseTime now expiresAt of
        Inl msg \<Rightarrow> (ErrorReply 422 msg, s)
      | Inr exp \<Rightarrow>
     (case GetWorkspaceMemberRole (up 0) (si_db s) w user of
        Inl _ \<Rightarrow> (ErrorReply 500 ''internal error'', s)
      | Inr role \<Rightarrow>
     if role = [] \<or> role = ''guest'' then (ErrorReply 403 ''not a member of this workspace'', s)
     else (case MintSecret hash AgentserverTokenSpec d1 d2 of
        Inl _ \<Rightarrow> (ErrorReply 500 ''internal error'', s)
      | Inr tok \<Rightarrow>
          (let row = \<lparr>ct_id = to_id tok, ct_user = user, ct_ws = w, ct_name = name, ct_hash = to_hash tok,
                      ct_created = now, ct_expires = exp, ct_used = None, ct_revoked = None\<rparr> in
           case CreateCodexToken (up 1) now s row of
             (Some _, s1) \<Rightarrow> (ErrorReply 500 ''create failed'', s1)
           | (None, s1) \<Rightarrow> (Reply 201 (row, to_full tok), s1)))))))"

definition handleListCodexTokens ::
  "(nat \<Rightarrow> bool) \<Rightarrow> string \<Rightarrow> string \<Rightarrow> string \<Rightarrow> site \<Rightarrow> CodexToken list reply" where
  "handleListCodexTokens up user w includeRevoked s =
     (if user = [] then ErrorReply 401 ''unauthorized''
      else if w = [] then ErrorReply 400 ''workspace_id required''
      else (case GetWorkspaceMemberRole (up 0) (si_db s) w user of
          Inl _ \<Rightarrow> ErrorReply 500 ''internal error''
        | Inr role \<Rightarrow>
            if role = [] then ErrorReply 403 ''not a member''
            else (case ListCodexTokensForWorkspace (up 1) s w (includeRevoked = ''true'') of
                Inl _ \<Rightarrow> ErrorReply 500 ''internal error''
              | Inr ts \<Rightarrow> Reply 200 ts)))"

definition handleRevokeCodexToken ::
  "(nat \<Rightarrow> bool) \<Rightarrow> time \<Rightarrow> string \<Rightarrow> string \<Rightarrow> site \<Rightarrow> unit reply \<times> site" where
  "handleRevokeCodexToken up now user i s =
     (if user = [] then (ErrorReply 401 ''unauthorized'', s)
      else if i = [] then (ErrorReply 400 ''id required'', s)
      else (case GetCodexToken (up 0) s i of
          Inl _ \<Rightarrow> (ErrorReply 500 ''internal error'', s)
        | Inr None \<Rightarrow> (Reply 204 (), s)
        | Inr (Some row) \<Rightarrow>
            (let role = (case GetWorkspaceMemberRole (up 1) (si_db s) (ct_ws row) user of Inl _ \<Rightarrow> [] | Inr r \<Rightarrow> r) in
             if ct_user row \<noteq> user \<and> role \<notin> {''owner'', ''maintainer''} then (ErrorReply 403 ''forbidden'', s)
             else (case RevokeCodexToken (up 2) now s i of
                 (Some _, s1) \<Rightarrow> (ErrorReply 500 ''internal error'', s1)
               | (None, s1) \<Rightarrow> (Reply 204 (), s1)))))"

text \<open>The row of a token that is accepted; every refusal is the same reply.\<close>

definition codexTokenRow ::
  "(string \<Rightarrow> string) \<Rightarrow> bool \<Rightarrow> time \<Rightarrow> string \<Rightarrow> site \<Rightarrow> CodexToken option" where
  "codexTokenRow hash up now token s =
     (case ParseSecret AgentserverTokenSpec token of
        Inl _ \<Rightarrow> None
      | Inr (i, _) \<Rightarrow>
          (case GetCodexToken up s i of
             Inr (Some row) \<Rightarrow>
               if \<not> ConstantTimeMatch hash token (ct_hash row) then None
               else if ct_revoked row \<noteq> None \<or> now > ct_expires row then None
               else Some row
           | _ \<Rightarrow> None))"

definition handleVerifyCodexToken ::
  "(string \<Rightarrow> string) \<Rightarrow> bool \<Rightarrow> time \<Rightarrow> string option \<Rightarrow> site \<Rightarrow> (string \<times> string) reply" where
  "handleVerifyCodexToken hash up now body s =
     (case body of
        None \<Rightarrow> ErrorReply 401 ''invalid_token''
      | Some token \<Rightarrow>
          (case codexTokenRow hash up now token s of
             None \<Rightarrow> ErrorReply 401 ''invalid_token''
           | Some row \<Rightarrow> Reply 200 (ct_user row, ct_ws row)))"

section \<open>Connections\<close>

definition newSessionID :: "string option \<Rightarrow> string option" where
  "newSessionID rnd = map_option (\<lambda>h. ''cbs_'' @ h) (RandomHex 16 rnd)"

record sessionOpenReq =
  sq_token :: string
  sq_ip :: string
  sq_ua :: string
  sq_version :: string
  sq_os :: string

text \<open>User, workspace and the new session.\<close>

definition handleCodexSessionOpen ::
  "(string \<Rightarrow> string) \<Rightarrow> (nat \<Rightarrow> bool) \<Rightarrow> time \<Rightarrow> string option \<Rightarrow> sessionOpenReq option \<Rightarrow> site \<Rightarrow>
     (string \<times> string \<times> string) reply \<times> site" where
  "handleCodexSessionOpen hash up now rnd body s =
     (case body of
        None \<Rightarrow> (ErrorReply 401 ''invalid_token'', s)
      | Some req \<Rightarrow>
     (case codexTokenRow hash (up 0) now (sq_token req) s of
        None \<Rightarrow> (ErrorReply 401 ''invalid_token'', s)
      | Some row \<Rightarrow>
     (case newSessionID rnd of
        None \<Rightarrow> (ErrorReply 500 ''internal error'', s)
      | Some sid \<Rightarrow>
          (case CreateCodexBrowserSession (up 1) now s
              \<lparr>cb_id = sid, cb_token = ct_id row, cb_ip = sq_ip req, cb_ua = sq_ua req, cb_version = sq_version req,
               cb_os = sq_os req, cb_connected = now, cb_disconnected = None\<rparr> of
             (Some _, s1) \<Rightarrow> (ErrorReply 500 ''internal error'', s1)
           | (None, s1) \<Rightarrow> (Reply 200 (ct_user row, ct_ws row, sid), s1)))))"

definition handleCodexSessionUpdate ::
  "bool \<Rightarrow> (string \<times> string \<times> string \<times> string) option \<Rightarrow> site \<Rightarrow> unit reply \<times> site" where
  "handleCodexSessionUpdate up body s =
     (case body of
        None \<Rightarrow> (ErrorReply 400 ''session_id required'', s)
      | Some (i, ua, version, osStr) \<Rightarrow>
          if i = [] then (ErrorReply 400 ''session_id required'', s)
          else (case UpdateCodexBrowserSessionMeta up s i ua version osStr of
              (Some _, s1) \<Rightarrow> (ErrorReply 500 ''internal error'', s1)
            | (None, s1) \<Rightarrow> (Reply 204 (), s1)))"

definition handleCodexSessionClose :: "bool \<Rightarrow> time \<Rightarrow> string option \<Rightarrow> site \<Rightarrow> unit reply \<times> site" where
  "handleCodexSessionClose up now body s =
     (if body \<in> {None, Some []} then (ErrorReply 400 ''session_id required'', s)
      else (case CloseCodexBrowserSession up now s (the body) of
          (Some _, s1) \<Rightarrow> (ErrorReply 500 ''internal error'', s1)
        | (None, s1) \<Rightarrow> (Reply 204 (), s1)))"

text \<open>
  A token, whether it is online, and its latest connection.  Statements: 0 the role, 1 the tokens,
  \<open>2 + 2 n\<close> and \<open>3 + 2 n\<close> those of token \<open>n\<close>.
\<close>

definition handleListCodexBrowsers ::
  "(nat \<Rightarrow> bool) \<Rightarrow> string \<Rightarrow> string \<Rightarrow> site \<Rightarrow> (CodexToken \<times> bool \<times> CodexBrowserSession option) list reply" where
  "handleListCodexBrowsers up user w s =
     (case requireWorkspaceMember (up 0) (si_db s) user w of
        Inl (c, msg) \<Rightarrow> ErrorReply c msg
      | Inr _ \<Rightarrow>
          (case ListCodexTokensForWorkspace (up 1) s w False of
             Inl _ \<Rightarrow> ErrorReply 500 ''internal error''
           | Inr ts \<Rightarrow>
               Reply 200 (map (\<lambda>(n, t).
                 (t,
                  (case CountOpenCodexBrowserSessions (up (2 + 2 * n)) s (ct_id t) of Inr c \<Rightarrow> c > 0 | Inl _ \<Rightarrow> False),
                  (case LatestCodexBrowserSession (up (3 + 2 * n)) s (ct_id t) of Inr l \<Rightarrow> l | Inl _ \<Rightarrow> None)))
                 (zip [0..<length ts] ts))))"

section \<open>Proxy tokens\<close>

text \<open>
  \<open>hasMS\<close> tells whether a workspace is connected to a model server, whose URL is empty when none is
  configured.  Workspace, sandbox, status, URL.
\<close>

definition handleValidateProxyToken ::
  "(string \<Rightarrow> bool) \<Rightarrow> string \<Rightarrow> (nat \<Rightarrow> bool) \<Rightarrow> string option \<Rightarrow> srv_db \<Rightarrow>
     (string \<times> (string \<times> sbx_status) option \<times> string option) reply" where
  "handleValidateProxyToken hasMS msURL up body db =
     (if body \<in> {None, Some []} then ErrorReply 400 ''bad request''
      else (case GetProxyToken (up 0) db (the body) of
          Inl _ \<Rightarrow> ErrorReply 500 ''internal error''
        | Inr None \<Rightarrow> ErrorReply 401 ''invalid token''
        | Inr (Some pt) \<Rightarrow>
            (let url = (if msURL \<noteq> [] \<and> hasMS (pt_ws pt) then Some msURL else None) in
             case pt_scope pt of
               ProxyTokenWorkspace \<Rightarrow> Reply 200 (pt_ws pt, None, url)
             | ProxyTokenSandbox i \<Rightarrow>
                 (case GetSandbox (up 1) db i of
                    Inl _ \<Rightarrow> ErrorReply 500 ''internal error''
                  | Inr None \<Rightarrow> ErrorReply 401 ''invalid token''
                  | Inr (Some sb) \<Rightarrow> Reply 200 (pt_ws pt, Some (sb_id sb, sb_status sb), url)))))"

text \<open>\<open>other\<close> is what another caller does between the lookup and the insertion.\<close>

definition handleWorkspaceProxyToken ::
  "(nat \<Rightarrow> bool) \<Rightarrow> (srv_db \<Rightarrow> srv_db) \<Rightarrow> string option \<Rightarrow> string option \<Rightarrow> srv_db \<Rightarrow> string reply \<times> srv_db" where
  "handleWorkspaceProxyToken up other fresh body db =
     (if body \<in> {None, Some []} then (ErrorReply 400 ''bad request'', db)
      else (case GetOrCreateWorkspaceToken up other fresh db (the body) of
          (Inl _, db1) \<Rightarrow> (ErrorReply 500 ''internal error'', db1)
        | (Inr tok, db1) \<Rightarrow> (Reply 200 tok, db1)))"

end
