(* ===== verification/Admin.thy ===== *)
theory Admin
  imports Credentials
begin

text \<open>
  The administration of the site: \<open>internal/server/admin.go\<close>, \<open>handlers_admin_users_delete.go\<close> and the
  listing of all workspaces in \<open>internal/db/workspaces.go\<close>.  Every route but the deletion of a user
  stands behind \<open>requireAdmin\<close>; the deletion checks the role itself.  The LLM proxy is a parameter
  of its three routes.
\<close>

section \<open>Access\<close>

definition requireAdmin :: "bool \<Rightarrow> string \<Rightarrow> site \<Rightarrow> (nat \<times> string) option" where
  "requireAdmin up user s =
     (case db_GetUserByID up s user of
        Inl _ \<Rightarrow> Some (404, ''user not found'')
      | Inr None \<Rightarrow> Some (404, ''user not found'')
      | Inr (Some u) \<Rightarrow> if us_role u \<noteq> ''admin'' then Some (403, ''forbidden'') else None)"

section \<open>Lists\<close>

definition handleAdminListUsers :: "bool \<Rightarrow> site \<Rightarrow> (string \<times> string \<times> string option \<times> string \<times> time) list reply" where
  "handleAdminListUsers up s =
     (case ListAllUsers up s of
        Inl _ \<Rightarrow> ErrorReply 500 ''failed to list users''
      | Inr us \<Rightarrow> Reply 200 (map (\<lambda>u. (us_id u, us_email u, us_name u, us_role u, us_created u)) us))"

record AdminWorkspaceInfo =
  ai_ws :: Workspace
  ai_owner :: "(string \<times> string \<times> string option \<times> string option) option"
  ai_sandboxes :: int

text \<open>The left join on the owners: a row per owner, and one without an owner when there is none.\<close>

definition owner_rows :: "site \<Rightarrow> string \<Rightarrow> (string \<times> string \<times> string option \<times> string option) option list" where
  "owner_rows s w =
     (let os = filter (\<lambda>m. me_ws m = w \<and> me_role m = ''owner'') (sv_members (si_db s)) in
      if os = [] then [None]
      else map (\<lambda>m. map_option (\<lambda>p. (let u = scan_user s p in (us_id u, us_email u, us_name u, us_picture u)))
                     (find (\<lambda>p. fst p = me_user m) (sv_users (si_db s)))) os)"

definition ListAllWorkspacesAdmin :: "bool \<Rightarrow> site \<Rightarrow> db_err + AdminWorkspaceInfo list" where
  "ListAllWorkspacesAdmin up s =
     (if \<not> up then Inl DbDown
      else Inr (concat (map (\<lambda>r. map (\<lambda>ow. \<lparr>ai_ws = scan_workspace r, ai_owner = ow,
                 ai_sandboxes = int (length (filter (\<lambda>b. sb_ws b = ws_id r) (sv_sandboxes (si_db s))))\<rparr>)
               (owner_rows s (ws_id r)))
             (sort_key ws_created (filter (\<lambda>r. ws_deleted r = None) (sv_workspaces (si_db s)))))))"

record AdminWorkspaceItem =
  aw_id :: string
  aw_name :: string
  aw_created :: time
  aw_updated :: time
  aw_owner :: "(string \<times> string \<times> string option \<times> string option) option"
  aw_sandboxes :: int
  aw_max :: int

text \<open>
  Statement 0 lists, 1 to 9 read the defaults, \<open>10 + k\<close> the override of the \<open>k\<close>-th row; an override
  that cannot be read is skipped.
\<close>

definition handleAdminListWorkspaces ::
  "(string \<Rightarrow> int \<Rightarrow> int option) \<Rightarrow> (string \<Rightarrow> int option) \<Rightarrow> (string \<Rightarrow> string) \<Rightarrow> (nat \<Rightarrow> bool) \<Rightarrow> site \<Rightarrow>
     AdminWorkspaceItem list reply" where
  "handleAdminListWorkspaces flt dur env up s =
     (case ListAllWorkspacesAdmin (up 0) s of
        Inl _ \<Rightarrow> ErrorReply 500 ''failed to list workspaces''
      | Inr wss \<Rightarrow>
          (let rd = getResourceDefaults flt dur env (\<lambda>k. up (1 + k)) (si_db s) in
           Reply 200 (map (\<lambda>(k, i).
             \<lparr>aw_id = w_id (ai_ws i), aw_name = w_name (ai_ws i), aw_created = w_created (ai_ws i),
              aw_updated = w_updated (ai_ws i), aw_owner = ai_owner i, aw_sandboxes = ai_sandboxes i,
              aw_max = (case GetWorkspaceQuota (up (10 + k)) (si_db s) (w_id (ai_ws i)) of
                 Inr (Some q) \<Rightarrow> over (q_sandboxes q) (rd_sandboxes rd)
               | _ \<Rightarrow> rd_sandboxes rd)\<rparr>) (zip [0..<length wss] wss))))"

record AdminSandboxItem =
  as_id :: string
  as_name :: string
  as_ws :: string
  as_type :: string
  as_status :: sbx_status
  as_created :: time
  as_local :: bool
  as_active :: "time option"

definition handleAdminListSandboxes :: "bool \<Rightarrow> site \<Rightarrow> AdminSandboxItem list reply" where
  "handleAdminListSandboxes up s =
     (case ListAllSandboxes up (si_db s) of
        Inl _ \<Rightarrow> ErrorReply 500 ''failed to list sandboxes''
      | Inr bs \<Rightarrow> Reply 200 (map (\<lambda>b. \<lparr>as_id = sb_id b, as_name = sb_name b, as_ws = sb_ws b, as_type = sb_type b,
          as_status = sb_status b, as_created = sb_created b, as_local = sb_local b, as_active = sb_active b\<rparr>) bs))"

section \<open>Roles\<close>

definition handleAdminUpdateUserRole :: "bool \<Rightarrow> string \<Rightarrow> string option \<Rightarrow> site \<Rightarrow> unit reply \<times> site" where
  "handleAdminUpdateUserRole up target body s =
     (if body \<in> {None, Some []} then (ErrorReply 400 ''bad request'', s)
      else if the body \<notin> {''user'', ''admin''}
      then (ErrorReply 400 (''invalid role: must be 'user' or 'admin'' @ [CHR 0x27]), s)
      else (case UpdateUserRole up s target (the body) of
          (Some _, s1) \<Rightarrow> (ErrorReply 500 ''failed to update user role'', s1)
        | (None, s1) \<Rightarrow> (Reply 204 (), s1)))"

section \<open>Defaults of the system\<close>

definition handleAdminGetQuotaDefaults ::
  "(string \<Rightarrow> int \<Rightarrow> int option) \<Rightarrow> (string \<Rightarrow> int option) \<Rightarrow> (string \<Rightarrow> string) \<Rightarrow> (nat \<Rightarrow> bool) \<Rightarrow> srv_db \<Rightarrow>
     ResourceDefaults reply" where
  "handleAdminGetQuotaDefaults flt dur env up db = Reply 200 (getResourceDefaults flt dur env up db)"

record AdminQuotaDefaultsUpdateRequest =
  dq_workspaces :: "int option"
  dq_sandboxes :: "int option"
  dq_drive :: "int option"
  dq_cpu :: "int option"
  dq_memory :: "int option"
  dq_idle :: "int option"
  dq_totalCPU :: "int option"
  dq_totalMemory :: "int option"
  dq_wsIdle :: "int option"

text \<open>The fields in the order of the code, with their keys and the message that refuses a negative value.\<close>

definition default_fields :: "AdminQuotaDefaultsUpdateRequest \<Rightarrow> (int option \<times> string \<times> string option) list" where
  "default_fields q =
     [(dq_workspaces q, ''quota_max_workspaces_per_user'', Some ''max_workspaces_per_user must be >= 0''),
      (dq_sandboxes q, ''quota_max_sandboxes_per_workspace'', Some ''max_sandboxes_per_workspace must be >= 0''),
      (dq_drive q, ''default_max_workspace_drive_size'', None),
      (dq_cpu q, ''default_max_sandbox_cpu'', None),
      (dq_memory q, ''default_max_sandbox_memory'', None),
      (dq_idle q, ''default_max_idle_timeout'', None),
      (dq_totalCPU q, ''default_ws_max_total_cpu'', None),
      (dq_totalMemory q, ''default_ws_max_total_memory'', None),
      (dq_wsIdle q, ''default_ws_max_idle_timeout'', None)]"

text \<open>The fields are saved one by one; the first refusal ends the request and keeps what was saved.\<close>

fun saveSettings ::
  "(nat \<Rightarrow> bool) \<Rightarrow> nat \<Rightarrow> (int option \<times> string \<times> string option) list \<Rightarrow> srv_db \<Rightarrow> (nat \<times> string) option \<times> srv_db" where
  "saveSettings up k [] db = (None, db)"
| "saveSettings up k ((None, _) # fs) db = saveSettings up (k + 1) fs db"
| "saveSettings up k ((Some v, key, check) # fs) db =
     (if check \<noteq> None \<and> v < 0 then (Some (400, the check), db)
      else (case SetSystemSetting (up k) db key (FormatInt v) of
          (Some _, db1) \<Rightarrow> (Some (500, ''failed to save setting''), db1)
        | (None, db1) \<Rightarrow> saveSettings up (k + 1) fs db1))"

text \<open>Statements 0 to 8 save the fields, 9 to 17 read the defaults back.\<close>

definition handleAdminSetQuotaDefaults ::
  "(string \<Rightarrow> int \<Rightarrow> int option) \<Rightarrow> (string \<Rightarrow> int option) \<Rightarrow> (string \<Rightarrow> string) \<Rightarrow> (nat \<Rightarrow> bool) \<Rightarrow>
     AdminQuotaDefaultsUpdateRequest option \<Rightarrow> srv_db \<Rightarrow> ResourceDefaults reply \<times> srv_db" where
  "handleAdminSetQuotaDefaults flt dur env up body db =
     (case body of
        None \<Rightarrow> (ErrorReply 400 ''bad request'', db)
      | Some q \<Rightarrow>
          (case saveSettings up 0 (default_fields q) db of
             (Some (c, msg), db1) \<Rightarrow> (ErrorReply c msg, db1)
           | (None, db1) \<Rightarrow> (Reply 200 (getResourceDefaults flt dur env (\<lambda>k. up (9 + k)) db1), db1)))"

section \<open>Overrides of a user\<close>

definition handleAdminGetUserQuota ::
  "(string \<Rightarrow> int \<Rightarrow> int option) \<Rightarrow> (string \<Rightarrow> int option) \<Rightarrow> (string \<Rightarrow> string) \<Rightarrow> (nat \<Rightarrow> bool) \<Rightarrow> string \<Rightarrow> srv_db \<Rightarrow>
     (int \<times> int option option) reply" where
  "handleAdminGetUserQuota flt dur env up target db =
     (let rd = getResourceDefaults flt dur env up db in
      case GetUserQuota (up 9) db target of
        Inl _ \<Rightarrow> ErrorReply 500 ''failed to get user quota''
      | Inr uq \<Rightarrow> Reply 200 (rd_workspaces rd, uq))"

text \<open>The body carries an optional limit.\<close>

definition handleAdminSetUserQuota :: "bool \<Rightarrow> string \<Rightarrow> int option option \<Rightarrow> srv_db \<Rightarrow> unit reply \<times> srv_db" where
  "handleAdminSetUserQuota up target body db =
     (case body of
        None \<Rightarrow> (ErrorReply 400 ''bad request'', db)
      | Some q \<Rightarrow>
          if (case q of Some n \<Rightarrow> n < 0 | None \<Rightarrow> False) then (ErrorReply 400 ''max_workspaces must be >= 0'', db)
          else (case SetUserQuota up db target q of
              (Some _, db1) \<Rightarrow> (ErrorReply 500 ''failed to set user quota'', db1)
            | (None, db1) \<Rightarrow> (Reply 204 (), db1)))"

definition handleAdminDeleteUserQuota :: "bool \<Rightarrow> string \<Rightarrow> srv_db \<Rightarrow> unit reply \<times> srv_db" where
  "handleAdminDeleteUserQuota up target db =
     (case DeleteUserQuota up db target of
        (Some _, db1) \<Rightarrow> (ErrorReply 500 ''failed to delete user quota'', db1)
      | (None, db1) \<Rightarrow> (Reply 204 (), db1))"

section \<open>Overrides of a workspace\<close>

text \<open>The defaults are those of a workspace without overrides.\<close>

definition handleAdminGetWorkspaceQuota ::
  "(string \<Rightarrow> int \<Rightarrow> int option) \<Rightarrow> (string \<Rightarrow> int option) \<Rightarrow> (string \<Rightarrow> string) \<Rightarrow> (nat \<Rightarrow> bool) \<Rightarrow> string \<Rightarrow> srv_db \<Rightarrow>
     (WorkspaceDefaults \<times> WorkspaceQuota option) reply" where
  "handleAdminGetWorkspaceQuota flt dur env up w db =
     (let rd = getResourceDefaults flt dur env up db in
      case GetWorkspaceQuota (up 9) db w of
        Inl _ \<Rightarrow> ErrorReply 500 ''failed to get workspace quota''
      | Inr wq \<Rightarrow> Reply 200
          (\<lparr>wd_sandboxes = rd_sandboxes rd, wd_cpu = rd_cpu rd, wd_memory = rd_memory rd, wd_idle = rd_idle rd,
            wd_totalCPU = rd_totalCPU rd, wd_totalMemory = rd_totalMemory rd, wd_drive = rd_drive rd\<rparr>, wq))"

definition or_else :: "'a option \<Rightarrow> 'a option \<Rightarrow> 'a option" where
  "or_else x y = (if x = None then y else x)"

definition mergeQuota :: "WorkspaceQuota \<Rightarrow> WorkspaceQuota option \<Rightarrow> WorkspaceQuota" where
  "mergeQuota q existing =
     (case existing of
        None \<Rightarrow> q
      | Some e \<Rightarrow>
          \<lparr>q_sandboxes = or_else (q_sandboxes q) (q_sandboxes e), q_cpu = or_else (q_cpu q) (q_cpu e),
           q_memory = or_else (q_memory q) (q_memory e), q_idle = or_else (q_idle q) (q_idle e),
           q_totalCPU = or_else (q_totalCPU q) (q_totalCPU e),
           q_totalMemory = or_else (q_totalMemory q) (q_totalMemory e),
           q_drive = or_else (q_drive q) (q_drive e)\<rparr>)"

definition handleAdminSetWorkspaceQuota ::
  "(nat \<Rightarrow> bool) \<Rightarrow> string \<Rightarrow> WorkspaceQuota option \<Rightarrow> srv_db \<Rightarrow> unit reply \<times> srv_db" where
  "handleAdminSetWorkspaceQuota up w body db =
     (case body of
        None \<Rightarrow> (ErrorReply 400 ''bad request'', db)
      | Some q \<Rightarrow>
          if (case q_sandboxes q of Some n \<Rightarrow> n < 0 | None \<Rightarrow> False) then (ErrorReply 400 ''max_sandboxes must be >= 0'', db)
          else (case GetWorkspaceQuota (up 0) db w of
              Inl _ \<Rightarrow> (ErrorReply 500 ''failed to get workspace quota'', db)
            | Inr existing \<Rightarrow>
                (case SetWorkspaceQuota (up 1) db w (mergeQuota q existing) of
                   (Some _, db1) \<Rightarrow> (ErrorReply 500 ''failed to set workspace quota'', db1)
                 | (None, db1) \<Rightarrow> (Reply 204 (), db1))))"

definition handleAdminDeleteWorkspaceQuota :: "bool \<Rightarrow> string \<Rightarrow> srv_db \<Rightarrow> unit reply \<times> srv_db" where
  "handleAdminDeleteWorkspaceQuota up w db =
     (case DeleteWorkspaceQuota up db w of
        (Some _, db1) \<Rightarrow> (ErrorReply 500 ''failed to delete workspace quota'', db1)
      | (None, db1) \<Rightarrow> (Reply 204 (), db1))"

section \<open>Limits of the language model proxy\<close>

text \<open>\<open>http\<close> is the request (method, URL, body) and its answer, \<open>None\<close> when it fails.\<close>

definition proxyLLMProxyRequest ::
  "(string \<times> string \<times> string option \<Rightarrow> (nat \<times> string) option) \<Rightarrow> string \<Rightarrow> string \<Rightarrow> string \<Rightarrow> string option \<Rightarrow> string reply" where
  "proxyLLMProxyRequest http llmURL meth path body =
     (if llmURL = [] then ErrorReply 503 ''llmproxy not configured''
      else (case http (meth, llmURL @ path, body) of
          None \<Rightarrow> ErrorReply 502 ''llmproxy unavailable''
        | Some (c, b) \<Rightarrow> Reply c b))"

definition handleAdminGetWorkspaceLLMQuota ::
  "(string \<times> string \<times> string option \<Rightarrow> (nat \<times> string) option) \<Rightarrow> string \<Rightarrow> string \<Rightarrow> string reply" where
  "handleAdminGetWorkspaceLLMQuota http llmURL w =
     proxyLLMProxyRequest http llmURL ''GET'' (''/internal/quotas/'' @ w) None"

definition handleAdminSetWorkspaceLLMQuota ::
  "(string \<times> string \<times> string option \<Rightarrow> (nat \<times> string) option) \<Rightarrow> string \<Rightarrow> string \<Rightarrow> string option \<Rightarrow> string reply" where
  "handleAdminSetWorkspaceLLMQuota http llmURL w body =
     (case body of
        None \<Rightarrow> ErrorReply 400 ''bad request''
      | Some b \<Rightarrow> proxyLLMProxyRequest http llmURL ''PUT'' (''/internal/quotas/'' @ w) (Some b))"

definition handleAdminDeleteWorkspaceLLMQuota ::
  "(string \<times> string \<times> string option \<Rightarrow> (nat \<times> string) option) \<Rightarrow> string \<Rightarrow> string \<Rightarrow> string reply" where
  "handleAdminDeleteWorkspaceLLMQuota http llmURL w =
     proxyLLMProxyRequest http llmURL ''DELETE'' (''/internal/quotas/'' @ w) None"

section \<open>Deletion of a user\<close>

text \<open>
  Statements: 0 the actor, 1 the target, 2 the flag, 3 the sole ownerships, 4 to 10 the transaction.
  The last component is the entry of the audit log.
\<close>

definition handleAdminDeleteUser ::
  "(string \<Rightarrow> string) \<Rightarrow> (nat \<Rightarrow> bool) \<Rightarrow> time \<Rightarrow> string \<Rightarrow> string \<Rightarrow> site \<Rightarrow>
     (string \<times> string) list reply \<times> site \<times> (string \<times> string) option" where
  "handleAdminDeleteUser sha up now actor target s =
     (if (case db_GetUserByID (up 0) s actor of Inr (Some u) \<Rightarrow> us_role u \<noteq> ''admin'' | _ \<Rightarrow> True)
      then (ErrorReply 403 ''forbidden'', s, None)
      else (case db_GetUserByID (up 1) s target of
          Inl _ \<Rightarrow> (ErrorReply 500 ''internal error'', s, None)
        | Inr None \<Rightarrow> (ErrorReply 404 ''user not found'', s, None)
        | Inr (Some _) \<Rightarrow>
     (case IsUserAnonymized (up 2) s target of
          Inl UserNoRows \<Rightarrow> (ErrorReply 404 ''user not found'', s, None)
        | Inl _ \<Rightarrow> (ErrorReply 500 ''internal error'', s, None)
        | Inr True \<Rightarrow> (ErrorReply 410 ''user already anonymized'', s, None)
        | Inr False \<Rightarrow>
     (case WorkspacesWhereUserIsLastOwner (up 3) (si_db s) target of
          Inl _ \<Rightarrow> (ErrorReply 500 ''internal error'', s, None)
        | Inr (w # ws) \<Rightarrow> (Reply 409 (w # ws), s, None)
        | Inr [] \<Rightarrow>
     (case AnonymizeUser sha (\<lambda>k. up (4 + k)) now s target of
          (Some UserNoRows, s1) \<Rightarrow> (ErrorReply 404 ''user not found'', s1, None)
        | (Some ErrUserAlreadyAnonymized, s1) \<Rightarrow> (ErrorReply 410 ''user already anonymized'', s1, None)
        | (Some _, s1) \<Rightarrow> (ErrorReply 500 ''internal error'', s1, None)
        | (None, s1) \<Rightarrow> (Reply 204 [], s1, Some (target, actor)))))))"

end
