(* ===== verification/Credential_Use.thy ===== *)
theory Credential_Use
  imports Admin
begin

text \<open>
  What a credential that is accepted tells about the past: it was issued, by the request and to the
  user it names, and nothing has withdrawn it since.  The argument is the same for API keys, Codex
  tokens and web sessions and is made once, in the locale \<open>credential_table\<close>, over histories of
  requests.
\<close>

section \<open>Histories\<close>

inductive cred_run :: "('s \<Rightarrow> 'e \<Rightarrow> 's \<Rightarrow> bool) \<Rightarrow> ('s \<Rightarrow> bool) \<Rightarrow> 's \<Rightarrow> 'e list \<Rightarrow> bool" for step start where
  run_start: "start s \<Longrightarrow> cred_run step start s []"
| run_more: "cred_run step start s h \<Longrightarrow> step s e s' \<Longrightarrow> cred_run step start s' (h @ [e])"

text \<open>
  \<open>live\<close> are the unchanging parts of the credentials in force; a step either keeps one that it does not
  withdraw or issues it.
\<close>

locale credential_table =
  fixes step :: "'s \<Rightarrow> 'e \<Rightarrow> 's \<Rightarrow> bool"
    and start :: "'s \<Rightarrow> bool"
    and live :: "'s \<Rightarrow> 'c set"
    and issue :: "'e \<Rightarrow> 'c \<Rightarrow> bool"
    and withdraw :: "'e \<Rightarrow> 'c \<Rightarrow> bool"
  assumes none_at_start: "start s \<Longrightarrow> live s = {}"
    and kept_or_issued: "step s e s' \<Longrightarrow> c \<in> live s' \<Longrightarrow> c \<in> live s \<and> \<not> withdraw e c \<or> issue e c"
begin

lemma issued_not_withdrawn:
  assumes "cred_run step start s h" and "c \<in> live s"
  shows "\<exists>h1 e h2. h = h1 @ e # h2 \<and> issue e c \<and> (\<forall>x \<in> set h2. \<not> withdraw x c)"
  using assms
proof (induction rule: cred_run.induct)
  case (run_start s)
  then show ?case using none_at_start by simp
next
  case (run_more s h e s')
  from kept_or_issued [OF run_more.hyps(2) run_more.prems] show ?case
  proof (elim disjE conjE)
    assume "c \<in> live s" "\<not> withdraw e c"
    with run_more.IH obtain h1 x h2 where
      h: "h = h1 @ x # h2" "issue x c" "\<forall>y \<in> set h2. \<not> withdraw y c" by blast
    then have "h @ [e] = h1 @ x # (h2 @ [e])" "\<forall>y \<in> set (h2 @ [e]). \<not> withdraw y c"
      using \<open>\<not> withdraw e c\<close> by simp_all
    with h(2) show ?thesis by blast
  next
    assume "issue e c"
    then show ?thesis by (intro exI [of _ h] exI [of _ e] exI [of _ "[]"]) simp
  qed
qed

end

section \<open>API keys\<close>

text \<open>
  A minted key with the site at that moment, its user and the text that was handed out; the revocation
  of a key; everything else.
\<close>

datatype key_event = KeyMinted site string WorkspaceAPIKey string | KeyRevoked string string | KeyQuiet

inductive key_step :: "(string \<Rightarrow> string) \<Rightarrow> site \<Rightarrow> key_event \<Rightarrow> site \<Rightarrow> bool" for hash where
  key_mint: "handleMintWorkspaceAPIKey hash parseTime up now d1 d2 user w body s = (Reply 201 (row, full), s') \<Longrightarrow>
    key_step hash s (KeyMinted s user row full) s'"
| key_refused: "handleMintWorkspaceAPIKey hash parseTime up now d1 d2 user w body s = (ErrorReply c msg, s') \<Longrightarrow>
    key_step hash s KeyQuiet s'"
| key_revoke: "handleRevokeWorkspaceAPIKey up now user w i s = (Reply 204 (), s') \<Longrightarrow> key_step hash s (KeyRevoked w i) s'"
| key_not_revoked: "handleRevokeWorkspaceAPIKey up now user w i s = (ErrorReply c msg, s') \<Longrightarrow> key_step hash s KeyQuiet s'"
| key_touch: "TouchWorkspaceAPIKeyLastUsed up now s i = (e, s') \<Longrightarrow> key_step hash s KeyQuiet s'"
| key_other: "si_keys s' = filter P (si_keys s) \<Longrightarrow> key_step hash s KeyQuiet s'"

definition no_keys :: "site \<Rightarrow> bool" where "no_keys s \<longleftrightarrow> si_keys s = []"

fun active_keys :: "WorkspaceAPIKey list \<Rightarrow> WorkspaceAPIKey set" where
  "active_keys [] = {}"
| "active_keys (k # ks) = (if ak_revoked k = None then insert (k\<lparr>ak_used := None\<rparr>) (active_keys ks) else active_keys ks)"

definition live_keys :: "site \<Rightarrow> WorkspaceAPIKey set" where
  "live_keys s = active_keys (si_keys s)"

definition managers :: "string list" where "managers = [''owner'', ''maintainer'']"

definition key_minted :: "(string \<Rightarrow> string) \<Rightarrow> key_event \<Rightarrow> WorkspaceAPIKey \<Rightarrow> bool" where
  "key_minted hash e k \<longleftrightarrow> (\<exists>s user full. e = KeyMinted s user k full \<and> ak_hash k = hash full \<and> ak_user k = user \<and>
     requireWorkspaceRole True (si_db s) user (ak_ws k) managers = None)"

definition key_revoked :: "key_event \<Rightarrow> WorkspaceAPIKey \<Rightarrow> bool" where
  "key_revoked e k \<longleftrightarrow> e = KeyRevoked (ak_ws k) (ak_id k)"

lemma requireWorkspaceRole_up: "requireWorkspaceRole up db u w rs = None \<Longrightarrow> requireWorkspaceRole True db u w rs = None"
  by (cases up) (simp_all add: requireWorkspaceRole_def requireWorkspaceMember_def GetWorkspaceMemberRole_def)

lemma active_keys_append [simp]: "active_keys (ks @ js) = active_keys ks \<union> active_keys js"
  by (induction ks) auto

lemma active_keys_used [simp]: "active_keys (update_rows P (\<lambda>x. x\<lparr>ak_used := u\<rparr>) ks) = active_keys ks"
proof (induction ks)
  case (Cons k ks)
  then show ?case by (cases "ak_revoked k") simp_all
qed simp

lemma active_keys_filter: "active_keys (filter P ks) \<subseteq> active_keys ks"
  by (induction ks) auto

lemma active_keys_revoke:
  "k \<in> active_keys (update_rows (\<lambda>x. ak_id x = i \<and> ak_ws x = w \<and> ak_revoked x = None) (\<lambda>x. x\<lparr>ak_revoked := Some t\<rparr>) ks) \<longleftrightarrow>
     k \<in> active_keys ks \<and> \<not> (ak_id k = i \<and> ak_ws k = w)"
  by (induction ks) auto

lemma active_keysI: "k \<in> set ks \<Longrightarrow> ak_revoked k = None \<Longrightarrow> k\<lparr>ak_used := None\<rparr> \<in> active_keys ks"
  by (induction ks) auto

lemma live_keysI: "k \<in> set (si_keys s) \<Longrightarrow> ak_revoked k = None \<Longrightarrow> k\<lparr>ak_used := None\<rparr> \<in> live_keys s"
  unfolding live_keys_def by (rule active_keysI)

lemma live_keys_cong: "si_keys s' = si_keys s \<Longrightarrow> live_keys s' = live_keys s"
  by (simp add: live_keys_def)

lemma Mint_hash: "MintSecret hash sp d1 d2 = Inr tok \<Longrightarrow> to_hash tok = hash (to_full tok)"
  by (auto simp: MintSecret_def Let_def split: option.splits)

lemma CreateKey_cases:
  assumes "CreateWorkspaceAPIKey up now s k = (e, s')"
  shows "si_keys s' = si_keys s \<and> e \<noteq> None \<or>
    e = None \<and> si_keys s' = si_keys s @ [k\<lparr>ak_created := now, ak_used := None, ak_revoked := None\<rparr>]"
  using assms by (auto simp: CreateWorkspaceAPIKey_def split: if_splits)

lemma key_mint_live:
  assumes m: "handleMintWorkspaceAPIKey hash parseTime up now d1 d2 user w body s = (r, s')"
  shows "(\<exists>c msg. r = ErrorReply c msg) \<and> live_keys s' = live_keys s \<or>
    (\<exists>row full. r = Reply 201 (row, full) \<and> live_keys s' = insert row (live_keys s) \<and>
       key_minted hash (KeyMinted s user row full) row)"
proof (cases "\<exists>c msg. r = ErrorReply c msg")
  case True
  then have "s' = s \<or> (\<exists>x e. CreateWorkspaceAPIKey (up 1) now s x = (Some e, s'))" using m
    by (auto simp: handleMintWorkspaceAPIKey_def Let_def split: option.splits if_splits sum.splits prod.splits)
  then have "si_keys s' = si_keys s" using CreateKey_cases by fastforce
  with True show ?thesis using live_keys_cong by blast
next
  case False
  from m False obtain tok x name scopes expAt s1 where
    role: "requireWorkspaceRole (up 0) (si_db s) user w [''owner'', ''maintainer''] = None"
    and tok: "MintSecret hash APIKeySpec d1 d2 = Inr tok"
    and row: "x = \<lparr>ak_id = to_id tok, ak_ws = w, ak_user = user, ak_name = name, ak_prefix = to_id tok,
                      ak_hash = to_hash tok, ak_scopes = scopes, ak_created = now, ak_expires = expAt,
                      ak_used = None, ak_revoked = None\<rparr>"
    and c: "CreateWorkspaceAPIKey (up 1) now s x = (None, s')" and r: "r = Reply 201 (x, to_full tok)"
    by (auto simp: handleMintWorkspaceAPIKey_def Let_def split: option.splits if_splits sum.splits prod.splits)
  have "live_keys s' = insert x (live_keys s)"
    using CreateKey_cases [OF c] by (auto simp: live_keys_def row)
  moreover have "key_minted hash (KeyMinted s user x (to_full tok)) x"
    using requireWorkspaceRole_up [OF role] Mint_hash [OF tok] by (simp add: key_minted_def row managers_def)
  ultimately show ?thesis using r by blast
qed

lemma key_revoke_live:
  assumes "handleRevokeWorkspaceAPIKey up now user w i s = (r, s')"
  shows "live_keys s' \<subseteq> live_keys s \<and> (r = Reply 204 () \<longrightarrow> (\<forall>k \<in> live_keys s'. \<not> (ak_ws k = w \<and> ak_id k = i)))"
  using assms
  by (auto simp: handleRevokeWorkspaceAPIKey_def RevokeWorkspaceAPIKey_def live_keys_def active_keys_revoke
      split: option.splits if_splits prod.splits)

interpretation api_keys: credential_table "key_step hash" no_keys live_keys "key_minted hash" key_revoked
proof
  fix s assume "no_keys s"
  then show "live_keys s = {}" by (simp add: no_keys_def live_keys_def)
next
  fix s e s' k assume "key_step hash s e s'" and k: "k \<in> live_keys s'"
  then show "k \<in> live_keys s \<and> \<not> key_revoked e k \<or> key_minted hash e k"
  proof (cases rule: key_step.cases)
    case key_mint
    then show ?thesis using key_mint_live [OF key_mint(2)] k by (auto simp: key_revoked_def)
  next
    case key_refused
    then show ?thesis using key_mint_live [OF key_refused(2)] k by (auto simp: key_revoked_def)
  next
    case key_revoke
    then show ?thesis using key_revoke_live [OF key_revoke(2)] k by (auto simp: key_revoked_def)
  next
    case key_not_revoked
    then show ?thesis using key_revoke_live [OF key_not_revoked(2)] k by (auto simp: key_revoked_def)
  next
    case key_touch
    then have "live_keys s' \<subseteq> live_keys s"
      by (auto simp: TouchWorkspaceAPIKeyLastUsed_def live_keys_def split: if_splits)
    then show ?thesis using k key_touch(1) by (auto simp: key_revoked_def)
  next
    case (key_other P)
    then show ?thesis using k active_keys_filter [of P "si_keys s"] by (auto simp: key_revoked_def live_keys_def)
  qed
qed

text \<open>What the validation finds.\<close>

lemma validate_key_row:
  assumes "handleInternalValidateAPIKey hash up now (Some secret) s = Reply 200 (w, i, scopes)"
  obtains k where "k \<in> live_keys s" "ak_ws k = w" "ak_id k = i" "ak_scopes k = scopes"
    "ak_hash k = hash secret" "now < ak_expires k"
proof -
  from assms obtain k where k: "k \<in> set (si_keys s)" "ak_revoked k = None" "now < ak_expires k"
    "hash secret = ak_hash k" "ak_ws k = w" "ak_id k = i" "ak_scopes k = scopes"
    by (auto simp: handleInternalValidateAPIKey_def ValidateWorkspaceAPIKeySecret_def ConstantTimeMatch_def
        dest!: find_Some_in split: option.splits sum.splits key_err.splits if_splits)
  show thesis by (rule that [OF live_keysI [OF k(1,2)]]) (use k in simp_all)
qed

text \<open>C31: C0: Whatever requests the server has answered, a secret that the validation endpoint accepts for a
  workspace was handed out, up to the hash, by a minting request of a user who was an owner or a
  maintainer of that workspace at the time, with the key and the scopes that the endpoint reports; it has
  not expired, and since then no revocation of that key has been confirmed.
\<close>

theorem api_key_use:
  assumes "cred_run (key_step hash) no_keys s h"
    and "handleInternalValidateAPIKey hash up now (Some secret) s = Reply 200 (w, i, scopes)"
  shows "\<exists>h1 s0 user k full h2. h = h1 @ KeyMinted s0 user k full # h2 \<and> hash full = hash secret \<and>
    ak_user k = user \<and> ak_ws k = w \<and> ak_id k = i \<and> ak_scopes k = scopes \<and> now < ak_expires k \<and>
    requireWorkspaceRole True (si_db s0) user w managers = None \<and> KeyRevoked w i \<notin> set h2"
proof -
  from validate_key_row [OF assms(2)] obtain k where
    k: "k \<in> live_keys s" "ak_ws k = w" "ak_id k = i" "ak_scopes k = scopes" "ak_hash k = hash secret"
    "now < ak_expires k" .
  from api_keys.issued_not_withdrawn [OF assms(1) k(1)] obtain h1 e h2 where
    h: "h = h1 @ e # h2" "key_minted hash e k" "\<forall>x \<in> set h2. \<not> key_revoked x k" by blast
  then have "KeyRevoked w i \<notin> set h2" using k by (auto simp: key_revoked_def)
  with h k show ?thesis unfolding key_minted_def by metis
qed

section \<open>Codex tokens\<close>

datatype codex_event = CodexMinted site string CodexToken string | CodexRevoked string | CodexQuiet

inductive codex_step :: "(string \<Rightarrow> string) \<Rightarrow> site \<Rightarrow> codex_event \<Rightarrow> site \<Rightarrow> bool" for hash where
  codex_mint: "handleMintCodexToken hash parseTime up now d1 d2 user body s = (Reply 201 (row, full), s') \<Longrightarrow>
    codex_step hash s (CodexMinted s user row full) s'"
| codex_refused: "handleMintCodexToken hash parseTime up now d1 d2 user body s = (ErrorReply c msg, s') \<Longrightarrow>
    codex_step hash s CodexQuiet s'"
| codex_revoke: "handleRevokeCodexToken up now user i s = (Reply 204 (), s') \<Longrightarrow> codex_step hash s (CodexRevoked i) s'"
| codex_not_revoked: "handleRevokeCodexToken up now user i s = (ErrorReply c msg, s') \<Longrightarrow> codex_step hash s CodexQuiet s'"
| codex_touch: "TouchCodexToken up now s i = (e, s') \<Longrightarrow> codex_step hash s CodexQuiet s'"
| codex_open: "handleCodexSessionOpen hash up now rnd body s = (r, s') \<Longrightarrow> codex_step hash s CodexQuiet s'"
| codex_other: "si_codex s' = si_codex s \<Longrightarrow> codex_step hash s CodexQuiet s'"

definition no_codex :: "site \<Rightarrow> bool" where "no_codex s \<longleftrightarrow> si_codex s = []"

fun active_codex :: "CodexToken list \<Rightarrow> CodexToken set" where
  "active_codex [] = {}"
| "active_codex (k # ks) = (if ct_revoked k = None then insert (k\<lparr>ct_used := None\<rparr>) (active_codex ks) else active_codex ks)"

definition live_codex :: "site \<Rightarrow> CodexToken set" where
  "live_codex s = active_codex (si_codex s)"

definition codex_minted :: "(string \<Rightarrow> string) \<Rightarrow> codex_event \<Rightarrow> CodexToken \<Rightarrow> bool" where
  "codex_minted hash e t \<longleftrightarrow> (\<exists>s user full role. e = CodexMinted s user t full \<and> ct_hash t = hash full \<and> ct_user t = user \<and>
     GetWorkspaceMemberRole True (si_db s) (ct_ws t) user = Inr role \<and> role \<noteq> [] \<and> role \<noteq> ''guest'')"

definition codex_revoked :: "codex_event \<Rightarrow> CodexToken \<Rightarrow> bool" where
  "codex_revoked e t \<longleftrightarrow> e = CodexRevoked (ct_id t)"

lemma GetWorkspaceMemberRole_up: "GetWorkspaceMemberRole up db w u = Inr r \<Longrightarrow> GetWorkspaceMemberRole True db w u = Inr r"
  by (cases up) (simp_all add: GetWorkspaceMemberRole_def)

lemma active_codex_append [simp]: "active_codex (ks @ js) = active_codex ks \<union> active_codex js"
  by (induction ks) auto

lemma active_codex_used [simp]: "active_codex (update_rows P (\<lambda>x. x\<lparr>ct_used := u\<rparr>) ks) = active_codex ks"
proof (induction ks)
  case (Cons k ks)
  then show ?case by (cases "ct_revoked k") simp_all
qed simp

lemma active_codex_revoke:
  "k \<in> active_codex (update_rows (\<lambda>x. ct_id x = i \<and> ct_revoked x = None) (\<lambda>x. x\<lparr>ct_revoked := Some t\<rparr>) ks) \<longleftrightarrow>
     k \<in> active_codex ks \<and> ct_id k \<noteq> i"
  by (induction ks) auto

lemma active_codexI: "k \<in> set ks \<Longrightarrow> ct_revoked k = None \<Longrightarrow> k\<lparr>ct_used := None\<rparr> \<in> active_codex ks"
  by (induction ks) auto

lemma active_codexD: "k \<in> active_codex ks \<Longrightarrow> \<exists>t \<in> set ks. ct_id t = ct_id k"
  by (induction ks) (auto split: if_splits)

lemma CreateCodex_cases:
  assumes "CreateCodexToken up now s k = (e, s')"
  shows "si_codex s' = si_codex s \<and> e \<noteq> None \<or>
    e = None \<and> si_codex s' = si_codex s @ [k\<lparr>ct_created := now, ct_used := None, ct_revoked := None\<rparr>]"
  using assms by (auto simp: CreateCodexToken_def split: if_splits)

lemma codex_mint_live:
  assumes m: "handleMintCodexToken hash parseTime up now d1 d2 user body s = (r, s')"
  shows "(\<exists>c msg. r = ErrorReply c msg) \<and> live_codex s' = live_codex s \<or>
    (\<exists>row full. r = Reply 201 (row, full) \<and> live_codex s' = insert row (live_codex s) \<and>
       codex_minted hash (CodexMinted s user row full) row)"
proof (cases "\<exists>c msg. r = ErrorReply c msg")
  case True
  then have "s' = s \<or> (\<exists>x e. CreateCodexToken (up 1) now s x = (Some e, s'))" using m
    by (auto simp: handleMintCodexToken_def Let_def split: option.splits if_splits sum.splits prod.splits)
  then have "si_codex s' = si_codex s" using CreateCodex_cases by fastforce
  with True show ?thesis by (simp add: live_codex_def)
next
  case False
  from m False obtain tok x name w role expAt where
    role: "GetWorkspaceMemberRole (up 0) (si_db s) w user = Inr role" "role \<noteq> []" "role \<noteq> ''guest''"
    and tok: "MintSecret hash AgentserverTokenSpec d1 d2 = Inr tok"
    and row: "x = \<lparr>ct_id = to_id tok, ct_user = user, ct_ws = w, ct_name = name, ct_hash = to_hash tok,
                      ct_created = now, ct_expires = expAt, ct_used = None, ct_revoked = None\<rparr>"
    and c: "CreateCodexToken (up 1) now s x = (None, s')" and r: "r = Reply 201 (x, to_full tok)"
    by (auto simp: handleMintCodexToken_def Let_def split: option.splits if_splits sum.splits prod.splits)
  have "live_codex s' = insert x (live_codex s)"
    using CreateCodex_cases [OF c] by (auto simp: live_codex_def row)
  moreover have "codex_minted hash (CodexMinted s user x (to_full tok)) x"
    using GetWorkspaceMemberRole_up [OF role(1)] role Mint_hash [OF tok] by (simp add: codex_minted_def row)
  ultimately show ?thesis using r by blast
qed

lemma codex_revoke_live:
  assumes "handleRevokeCodexToken up now user i s = (r, s')"
  shows "live_codex s' \<subseteq> live_codex s \<and> (r = Reply 204 () \<longrightarrow> (\<forall>k \<in> live_codex s'. ct_id k \<noteq> i))"
proof -
  have "live_codex s' = live_codex s \<and> find (\<lambda>x. ct_id x = i) (si_codex s) = None \<or> live_codex s' = live_codex s \<and> r \<noteq> Reply 204 () \<or>
    live_codex s' = {k \<in> live_codex s. ct_id k \<noteq> i}"
    using assms
    by (auto simp: handleRevokeCodexToken_def RevokeCodexToken_def GetCodexToken_def live_codex_def active_codex_revoke Let_def
        split: option.splits if_splits prod.splits sum.splits)
  then show ?thesis by (auto simp: find_None_iff live_codex_def dest: active_codexD)
qed

lemma codex_open_live:
  assumes "handleCodexSessionOpen hash up now rnd body s = (r, s')"
  shows "live_codex s' = live_codex s"
  using assms
  by (auto simp: handleCodexSessionOpen_def CreateCodexBrowserSession_def live_codex_def
      split: option.splits if_splits prod.splits)

interpretation codex_tokens: credential_table "codex_step hash" no_codex live_codex "codex_minted hash" codex_revoked
proof
  fix s assume "no_codex s"
  then show "live_codex s = {}" by (simp add: no_codex_def live_codex_def)
next
  fix s e s' k assume "codex_step hash s e s'" and k: "k \<in> live_codex s'"
  then show "k \<in> live_codex s \<and> \<not> codex_revoked e k \<or> codex_minted hash e k"
  proof (cases rule: codex_step.cases)
    case codex_mint
    then show ?thesis using codex_mint_live [OF codex_mint(2)] k by (auto simp: codex_revoked_def)
  next
    case codex_refused
    then show ?thesis using codex_mint_live [OF codex_refused(2)] k by (auto simp: codex_revoked_def)
  next
    case codex_revoke
    then show ?thesis using codex_revoke_live [OF codex_revoke(2)] k by (auto simp: codex_revoked_def)
  next
    case codex_not_revoked
    then show ?thesis using codex_revoke_live [OF codex_not_revoked(2)] k by (auto simp: codex_revoked_def)
  next
    case codex_touch
    then show ?thesis using k by (auto simp: TouchCodexToken_def live_codex_def codex_revoked_def split: if_splits)
  next
    case codex_open
    then show ?thesis using codex_open_live [OF codex_open(2)] k by (auto simp: codex_revoked_def)
  next
    case codex_other
    then show ?thesis using k by (auto simp: codex_revoked_def live_codex_def)
  qed
qed

text \<open>A Codex token that the verification endpoint accepts was handed out, up to the hash, to the user it
  reports, who was a member and not a guest of the reported workspace when it was minted; it has not
  expired, and since then no revocation of it has been confirmed.
\<close>

theorem codex_token_use:
  assumes "cred_run (codex_step hash) no_codex s h"
    and "handleVerifyCodexToken hash up now (Some token) s = Reply 200 (user, w)"
  shows "\<exists>h1 s0 t full role h2. h = h1 @ CodexMinted s0 user t full # h2 \<and> hash full = hash token \<and>
    ct_user t = user \<and> ct_ws t = w \<and> now \<le> ct_expires t \<and>
    GetWorkspaceMemberRole True (si_db s0) w user = Inr role \<and> role \<notin> {[], ''guest''} \<and>
    CodexRevoked (ct_id t) \<notin> set h2"
proof -
  from assms(2) obtain t0 where t0: "t0 \<in> set (si_codex s)" "ct_revoked t0 = None" "now \<le> ct_expires t0"
    "hash token = ct_hash t0" "ct_user t0 = user" "ct_ws t0 = w"
    by (auto simp: handleVerifyCodexToken_def codexTokenRow_def GetCodexToken_def ConstantTimeMatch_def
        dest!: find_Some_in split: option.splits sum.splits if_splits)
  define t where "t = t0\<lparr>ct_used := None\<rparr>"
  then have t: "t \<in> live_codex s" unfolding live_codex_def by (metis t0(1,2) active_codexI)
  from codex_tokens.issued_not_withdrawn [OF assms(1) t] obtain h1 e h2 where
    h: "h = h1 @ e # h2" "codex_minted hash e t" "\<forall>x \<in> set h2. \<not> codex_revoked x t" by blast
  then have "CodexRevoked (ct_id t) \<notin> set h2" by (auto simp: codex_revoked_def)
  moreover have "ct_user t = user" "ct_ws t = w" "now \<le> ct_expires t" "ct_hash t = hash token"
    using t0 by (simp_all add: t_def)
  moreover from h(2) obtain s0 full role where "e = CodexMinted s0 (ct_user t) t full" "ct_hash t = hash full"
    "GetWorkspaceMemberRole True (si_db s0) (ct_ws t) (ct_user t) = Inr role" "role \<notin> {[], ''guest''}"
    unfolding codex_minted_def by auto
  ultimately show ?thesis using h(1)
    by (intro exI [of _ h1] exI [of _ s0] exI [of _ t] exI [of _ full] exI [of _ role] exI [of _ h2]) simp
qed

end
