(* ===== verification/Session_Use.thy ===== *)
theory Session_Use
  imports Credential_Use
begin

text \<open>
  The same argument for web sessions: who is signed in has given the password of the account, or has been
  identified by a provider, less than seven days ago.
\<close>

section \<open>What requests do to the sessions\<close>

definition sess_of :: "srv_db \<Rightarrow> (string \<times> string \<times> time) set" where
  "sess_of db = set (map (\<lambda>t. (tn_token t, tn_user t, tn_expires t)) (sv_auth db))"

definition live_sessions :: "site \<Rightarrow> (string \<times> string \<times> time) set" where
  "live_sessions s = sess_of (si_db s)"

definition same_accounts :: "site \<Rightarrow> site \<Rightarrow> bool" where
  "same_accounts s s' \<longleftrightarrow> sv_users (si_db s') = sv_users (si_db s) \<and> si_creds s' = si_creds s"

definition password_ok :: "(string \<Rightarrow> string \<Rightarrow> bool) \<Rightarrow> site \<Rightarrow> string \<Rightarrow> string \<Rightarrow> string \<Rightarrow> bool" where
  "password_ok bmatch s email password u \<longleftrightarrow>
     (u, email) \<in> set (sv_users (si_db s)) \<and> (\<exists>h. si_creds s u = Some h \<and> bmatch h password)"

text \<open>New sessions are only for the users of \<open>P\<close>.\<close>

definition grants :: "time \<Rightarrow> (string \<Rightarrow> bool) \<Rightarrow> site \<Rightarrow> site \<Rightarrow> bool" where
  "grants now P s s' \<longleftrightarrow> live_sessions s' \<subseteq> live_sessions s \<union> {(c, u, x). P u \<and> x = now + tokenTTL}"

lemma grants_refl [simp, intro]: "grants now P s s" by (simp add: grants_def)

lemma grants_trans: "grants now P s s1 \<Longrightarrow> grants now P s1 s2 \<Longrightarrow> grants now P s s2"
  by (auto simp: grants_def)

lemma grants_mono: "grants now P s s' \<Longrightarrow> (\<And>u. P u \<Longrightarrow> Q u) \<Longrightarrow> grants now Q s s'"
  by (auto simp: grants_def)

lemma grants_less: "live_sessions s' \<subseteq> live_sessions s \<Longrightarrow> grants now P s s'"
  by (auto simp: grants_def)

lemma same_accounts_refl [simp, intro]: "same_accounts s s" by (simp add: same_accounts_def)

lemma same_accounts_trans: "same_accounts s s1 \<Longrightarrow> same_accounts s1 s2 \<Longrightarrow> same_accounts s s2"
  by (simp add: same_accounts_def)

lemma same_accounts_password: "same_accounts s s' \<Longrightarrow> password_ok bmatch s' = password_ok bmatch s"
  by (simp add: same_accounts_def password_ok_def fun_eq_iff)

lemma IssueToken_grants:
  assumes "IssueToken up now rnd u s = (r, s')"
  shows "grants now (\<lambda>v. v = u) s s' \<and> same_accounts s s'"
  using assms
  by (auto simp: IssueToken_def on_db_def CreateToken_def grants_def same_accounts_def live_sessions_def sess_of_def
      split: option.splits if_splits prod.splits)

lemma auth_Login_grants:
  assumes "auth_Login bmatch up now rnd email password s = (r, s')"
  shows "grants now (password_ok bmatch s email password) s s' \<and> same_accounts s s' \<and>
    (\<forall>c u. r = Some (c, u) \<longrightarrow> password_ok bmatch s email password u)"
proof (cases "\<exists>u h. find (\<lambda>p. snd p = email) (sv_users (si_db s)) = Some u \<and> si_creds s (fst u) = Some h \<and> bmatch h password")
  case True
  then obtain u h where u: "find (\<lambda>p. snd p = email) (sv_users (si_db s)) = Some u" "si_creds s (fst u) = Some h"
    "bmatch h password" by blast
  have ok: "password_ok bmatch s email password (fst u)"
    using find_Some_in [OF u(1)] u(2,3) by (cases u) (auto simp: password_ok_def)
  have id: "us_id (scan_user s u) = fst u" by (simp add: scan_user_def split: option.split)
  obtain q s1 where i: "IssueToken (up 2) now rnd (fst u) s = (q, s1)" by (metis surj_pair)
  have "(s' = s \<and> r = None) \<or> (s' = s1 \<and> (\<forall>c v. r = Some (c, v) \<longrightarrow> v = fst u))" using assms
    by (auto simp: auth_Login_def db_GetUserByEmail_def GetPasswordHash_def u id i split: if_splits option.splits)
  then show ?thesis using IssueToken_grants [OF i] ok by (auto intro: grants_mono)
next
  case False
  then have "s' = s \<and> r = None" using assms
    by (auto simp: auth_Login_def db_GetUserByEmail_def GetPasswordHash_def scan_user_def split: if_splits option.splits)
  then show ?thesis by simp
qed

lemma sess_of_active [simp]:
  "sess_of (db\<lparr>sv_auth := update_rows P (\<lambda>t. t\<lparr>tn_active := a\<rparr>) xs\<rparr>) = sess_of (db\<lparr>sv_auth := xs\<rparr>)"
  unfolding sess_of_def by (simp add: map_update_rows del: set_map)

lemma SetActiveWorkspace_live:
  assumes "SetActiveWorkspace up now c u w s = (r, s')"
  shows "live_sessions s' = live_sessions s \<and> same_accounts s s'"
  using assms
  by (auto simp: SetActiveWorkspace_def on_db_def SetTokenActiveWorkspace_def Let_def live_sessions_def same_accounts_def
      split: option.splits if_splits prod.splits sum.splits)

lemma InvalidateToken_live:
  "live_sessions (snd (InvalidateToken up c s)) \<subseteq> live_sessions s" "same_accounts s (snd (InvalidateToken up c s))"
  by (auto simp: InvalidateToken_def on_db_def DeleteToken_def live_sessions_def sess_of_def same_accounts_def)

lemma LoginWithWorkspace_grants:
  assumes "LoginWithWorkspace bmatch up now rnd email password slug s = (r, s')"
  shows "grants now (password_ok bmatch s email password) s s' \<and> same_accounts s s'"
proof -
  obtain q s1 where l: "auth_Login bmatch up now rnd email password s = (q, s1)" by (metis surj_pair)
  note L = auth_Login_grants [OF l]
  have "same_accounts s1 s' \<and> live_sessions s' \<subseteq> live_sessions s1"
  proof (cases "s' = s1 \<or> s' = snd (InvalidateToken (up 6) (fst (the q)) s1)")
    case True
    then show ?thesis using InvalidateToken_live by auto
  next
    case False
    with assms have "\<exists>c u w x s2. q = Some (c, u) \<and> SetActiveWorkspace (\<lambda>k. up (4 + k)) now c u w s1 = (x, s2) \<and>
        (s' = s2 \<or> s' = snd (InvalidateToken (up 6) c s2))"
      by (auto simp: LoginWithWorkspace_def l Let_def split: option.splits if_splits prod.splits sum.splits bool.splits)
    then obtain c u w x s2 where a: "SetActiveWorkspace (\<lambda>k. up (4 + k)) now c u w s1 = (x, s2)"
      and "s' = s2 \<or> s' = snd (InvalidateToken (up 6) c s2)" by blast
    moreover note SetActiveWorkspace_live [OF a] InvalidateToken_live [where up = "up 6" and c = c and s = s2]
    ultimately show ?thesis by (auto simp: same_accounts_def)
  qed
  then show ?thesis using L by (meson grants_less grants_trans same_accounts_trans)
qed

text \<open>Invites.\<close>

lemma inviteUser_grants:
  assumes "inviteUser bhash bmatch up now rnd i email password s = (r, s')"
  shows "grants now (password_ok bmatch s' email password) s s'"
proof (cases "db_GetUserByEmail (up 0) s email")
  case (Inr u)
  show ?thesis
  proof (cases u)
    case None
    obtain ok s1 where "auth_Register bhash (\<lambda>k. up (1 + k)) now i email password s = (ok, s1)" by (metis surj_pair)
    moreover have "live_sessions s1 = live_sessions s" using calculation
      by (auto simp: auth_Register_def CreateUser_def CreateUserWithEmail_def insert_user_def live_sessions_def sess_of_def
          split: option.splits if_splits prod.splits sum.splits)
    ultimately show ?thesis using assms Inr None by (auto simp: inviteUser_def intro: grants_less split: bool.splits)
  next
    case (Some v)
    obtain x s1 where a: "auth_Login bmatch (\<lambda>k. up (5 + k)) now rnd email password s = (x, s1)" by (metis surj_pair)
    then have "s' = s1" using assms Inr Some by (auto simp: inviteUser_def split: option.splits prod.splits)
    then show ?thesis using auth_Login_grants [OF a] by (auto simp: same_accounts_password)
  qed
qed (use assms in \<open>simp add: inviteUser_def\<close>)

lemma AddMember_live:
  assumes "on_db (\<lambda>db. AddWorkspaceMember up now db w u role) s = (e, s')"
  shows "live_sessions s' = live_sessions s \<and> same_accounts s s'"
  using assms by (auto simp: on_db_def AddWorkspaceMember_def live_sessions_def sess_of_def same_accounts_def split: prod.splits if_splits)

lemma MarkInvite_live:
  assumes "MarkInviteAccepted up now s i = (e, s')"
  shows "live_sessions s' = live_sessions s \<and> same_accounts s s'"
  using assms by (auto simp: MarkInviteAccepted_def live_sessions_def same_accounts_def Let_def split: if_splits)

lemma handleAcceptInvite_grants:
  assumes "handleAcceptInvite sha bhash bmatch up now rnd1 rnd2 i token (Some pw) s = (r, s')"
  shows "\<exists>email. grants now (password_ok bmatch s' email pw) s s'"
proof (cases "token = [] \<or> pw = []")
  case True
  then have "s' = s" using assms by (elim disjE) (simp_all add: handleAcceptInvite_def split: if_splits)
  then show ?thesis by simp
next
  case False
  show ?thesis
  proof (cases "\<exists>iv ws. GetPendingInviteByTokenHash (up 0) now s (hashInviteToken sha token) = Inr (Some iv) \<and>
      GetWorkspace (up 1) (si_db s) (iv_ws iv) = Inr (Some ws)")
    case True
    then obtain iv ws where iv: "GetPendingInviteByTokenHash (up 0) now s (hashInviteToken sha token) = Inr (Some iv)"
      "GetWorkspace (up 1) (si_db s) (iv_ws iv) = Inr (Some ws)" by blast
    obtain u s1 where u: "inviteUser bhash bmatch (\<lambda>k. up (2 + k)) now rnd1 i (iv_email iv) pw s = (u, s1)" by (metis surj_pair)
    note g1 = inviteUser_grants [OF u]
    show ?thesis
    proof (cases u)
      case (Inl e)
      then have "s' = s1" using assms False iv u by (auto simp: handleAcceptInvite_def split: prod.splits)
      with g1 show ?thesis by blast
    next
      case (Inr v)
      obtain e s2 where m: "(if IsWorkspaceMember (up 10) (si_db s1) (iv_ws iv) v = Inr True then (None, s1)
            else on_db (\<lambda>db. AddWorkspaceMember (up 11) now db (iv_ws iv) v (iv_role iv)) s1) = (e, s2)" by (metis surj_pair)
      obtain f s3 where k: "MarkInviteAccepted (up 12) now s2 (iv_id iv) = (f, s3)" by (metis surj_pair)
      obtain q s4 where l: "LoginWithWorkspace bmatch (\<lambda>k. up (13 + k)) now rnd2 (iv_email iv) pw (w_slug ws) s3 = (q, s4)"
        by (metis surj_pair)
      have c: "(token = []) = False" "(Some pw \<in> {None, Some []}) = False" using False by simp_all
      have "handleAcceptInvite sha bhash bmatch up now rnd1 rnd2 i token (Some pw) s = (case e of
          Some _ \<Rightarrow> (ErrorReply 500 ''internal error'', s2)
        | None \<Rightarrow> (case q of None \<Rightarrow> (ErrorReply 500 ''internal error'', s4) | Some (c, _) \<Rightarrow> (Reply 200 c, s4)))"
        unfolding handleAcceptInvite_def c if_False iv sum.case option.case option.sel u Inr prod.case m k l
        by (cases e; cases q) (simp_all split: prod.split)
      then have h: "(r, s') = (case e of Some _ \<Rightarrow> (ErrorReply 500 ''internal error'', s2)
          | None \<Rightarrow> (case q of None \<Rightarrow> (ErrorReply 500 ''internal error'', s4) | Some (c, _) \<Rightarrow> (Reply 200 c, s4)))"
        using assms by simp
      have a2: "same_accounts s1 s2" "live_sessions s2 = live_sessions s1"
        using m AddMember_live by (fastforce split: if_splits)+
      have a3: "same_accounts s2 s3" "live_sessions s3 = live_sessions s2" using MarkInvite_live [OF k] by simp_all
      note L = LoginWithWorkspace_grants [OF l]
      have "s' = s2 \<or> s' = s4" using h by (auto split: option.splits)
      then show ?thesis
      proof
        assume "s' = s2"
        then show ?thesis using g1 a2 same_accounts_password [OF a2(1)] by (auto simp: grants_def)
      next
        assume "s' = s4"
        have "same_accounts s1 s4" using a2 a3 L same_accounts_trans by blast
        then have "password_ok bmatch s4 = password_ok bmatch s1" "password_ok bmatch s4 = password_ok bmatch s3"
          using same_accounts_password L by blast+
        then show ?thesis using g1 L a2 a3 \<open>s' = s4\<close> by (auto simp: grants_def intro!: exI [of _ "iv_email iv"])
      qed
    qed
  next
    case no: False
    then have "s' = s" using assms \<open>\<not> (token = [] \<or> pw = [])\<close>
      by (auto simp: handleAcceptInvite_def split: sum.splits option.splits)
    then show ?thesis by simp
  qed
qed

text \<open>Providers.\<close>

lemma update_profile_db [simp]: "si_db (snd (update_profile up s i f)) = si_db s"
  by (simp add: update_profile_def)

lemma set_profile_db [simp]: "si_db (set_profile up ident u s) = si_db s"
  by (simp add: set_profile_def UpdateUserPicture_def UpdateUserName_def Let_def)

lemma CreateOIDC_db [simp]: "si_db (snd (CreateOIDCIdentity up s p j u m)) = si_db s"
  by (simp add: CreateOIDCIdentity_def)

lemma CreateUser_auth [simp]: "sv_auth (si_db (snd (CreateUserWithEmail up now s i h m))) = sv_auth (si_db s)"
  by (simp add: CreateUserWithEmail_def insert_user_def split: option.split sum.split)

lemma resolveUser_auth: "sv_auth (si_db (snd (resolveUser up now i p ident s))) = sv_auth (si_db s)"
proof (cases "GetOIDCIdentity (up 0) s p (id_subject ident)")
  case (Inr oi)
  show ?thesis
  proof (cases oi)
    case (Some x)
    then show ?thesis using Inr by (simp add: resolveUser_def Let_def UpdateOIDCIdentityEmail_def)
  next
    case None
    obtain e s1 where c: "CreateUserWithEmail (\<lambda>k. up (8 + k)) now s i None (id_email ident) = (e, s1)" by (metis surj_pair)
    have a: "sv_auth (si_db s1) = sv_auth (si_db s)" using CreateUser_auth c by (metis snd_conv)
    have o: "sv_auth (si_db s') = sv_auth (si_db t)" if "CreateOIDCIdentity q t p j u m = (f, s')" for q t j u m f s'
      using CreateOIDC_db that by (metis snd_conv)
    show ?thesis using Inr None a
      by (auto simp: resolveUser_def Let_def c UpdateUserRole_def split: sum.split option.split prod.split if_split dest!: o)
  qed
qed (simp add: resolveUser_def)

lemma CreateWorkspace_auth [simp]: "sv_auth (snd (CreateWorkspace up now db w n)) = sv_auth db"
  by (simp add: CreateWorkspace_def CreateWorkspaceWithSlug_def insert_workspace_def Let_def split: sum.split prod.split)

lemma createDefaultWorkspace_sess: "sess_of (createDefaultWorkspace up now nsm w u db) = sess_of db"
proof -
  have s: "sess_of db2 = sess_of db1" if "sv_auth db2 = sv_auth db1" for db1 db2 using that by (simp add: sess_of_def)
  obtain e db1 where c: "CreateWorkspace (\<lambda>k. up (100 + k)) now db w ''Default workspace'' = (e, db1)" by (metis surj_pair)
  have a: "sv_auth db1 = sv_auth db" using CreateWorkspace_auth c by (metis snd_conv)
  obtain f db2 where m: "AddWorkspaceMember (up 11) now db1 w u ''owner'' = (f, db2)" by (metis surj_pair)
  have b: "sv_auth db2 = sv_auth db1" using m by (auto simp: AddWorkspaceMember_def split: if_splits)
  have d: "sess_of (snd (DeleteWorkspace q db2 w)) = sess_of db2" for q
    by (simp add: DeleteWorkspace_def Let_def drop_sandboxes_def sess_of_def map_update_rows del: set_map)
  have n: "sess_of (snd (SetWorkspaceNamespace q now db2 w ns)) = sess_of db2" for q ns
    by (simp add: SetWorkspaceNamespace_def sess_of_def)
  show ?thesis unfolding createDefaultWorkspace_def c prod.case m using s [OF a] s [OF b] d n
    by (cases e; cases f; cases nsm) (simp_all split: option.split)
qed

lemma oidc_HandleCallback_grants:
  assumes "oidc_HandleCallback parseURL cd hc up now nsm rnd i w known idp p q s = (r, s')"
  shows "s' = s \<or> (\<exists>ident v s1. the (cr_stateCookie q) = cr_state q \<and> idp p (cr_code q) = Inr ident \<and>
    resolveUser up now i p ident s = (v, s1) \<and> grants now (\<lambda>u. \<exists>b. v = Some (u, b)) s s')"
proof (cases "s' = s")
  case False
  then obtain ident where i: "the (cr_stateCookie q) = cr_state q" "idp p (cr_code q) = Inr ident"
    using assms by (auto simp: oidc_HandleCallback_def split: if_splits sum.splits bool.splits)
  obtain v s1 where u: "resolveUser up now i p ident s = (v, s1)" by (metis surj_pair)
  have l1: "live_sessions s1 = live_sessions s"
    using resolveUser_auth [of up now i p ident s] u by (simp add: live_sessions_def sess_of_def)
  have "grants now (\<lambda>u. \<exists>b. v = Some (u, b)) s s'"
  proof (cases v)
    case None
    then have "s' = s1" using assms i u False by (auto simp: oidc_HandleCallback_def split: if_splits)
    then show ?thesis using l1 by (intro grants_less) simp
  next
    case (Some ub)
    obtain user isNew where ub: "ub = (user, isNew)" by (cases ub)
    define s2 where "s2 = (if isNew then s1\<lparr>si_db := createDefaultWorkspace (\<lambda>k. up (22 + k)) now nsm w user (si_db s1)\<rparr> else s1)"
    obtain t s3 where t: "IssueToken (up 17) now rnd user s2 = (t, s3)" by (metis surj_pair)
    have l2: "live_sessions s2 = live_sessions s1"
      by (simp add: s2_def live_sessions_def createDefaultWorkspace_sess)
    have l3: "live_sessions s3 \<subseteq> live_sessions s2 \<union> {(c, u, x). u = user \<and> x = now + tokenTTL}"
      using IssueToken_grants [OF t] by (simp add: grants_def)
    have rest: "live_sessions s' \<subseteq> live_sessions s3"
    proof (cases "s' = s3 \<or> s' = snd (InvalidateToken (up 21) (the t) s3)")
      case True
      then show ?thesis using InvalidateToken_live by auto
    next
      case other: False
      have "oidc_HandleCallback parseURL cd hc up now nsm rnd i w known idp p q s = (r, s')" by (rule assms)
      then have "\<exists>w x s4. SetActiveWorkspace (\<lambda>k. up (19 + k)) now (the t) user w s3 = (x, s4) \<and>
          (s' = s4 \<or> s' = snd (InvalidateToken (up 21) (the t) s4))"
        using i u Some ub False other unfolding oidc_HandleCallback_def
        by (auto simp: Let_def t s2_def [symmetric] split: if_splits option.splits sum.splits prod.splits bool.splits)
      then obtain w x s4 where a: "SetActiveWorkspace (\<lambda>k. up (19 + k)) now (the t) user w s3 = (x, s4)"
        and "s' = s4 \<or> s' = snd (InvalidateToken (up 21) (the t) s4)" by blast
      moreover note SetActiveWorkspace_live [OF a] InvalidateToken_live(1) [where up = "up 21" and c = "the t" and s = s4]
      ultimately show ?thesis by auto
    qed
    with l1 l2 l3 show ?thesis by (auto simp: grants_def Some ub)
  qed
  with i u show ?thesis by blast
qed simp

section \<open>Who is signed in\<close>

text \<open>
  Sign-in by password with the site after it, by an invite, or by a provider with the site before it and
  the request; sign-out; the deletion of a user; everything else.
\<close>

datatype session_event =
    PasswordLogin site time string string
  | InviteLogin site time string
  | ProviderLogin site time string callback_request
  | SignedOut string
  | UserDeleted string
  | SessionQuiet

inductive session_step ::
  "(string \<Rightarrow> string \<Rightarrow> bool) \<Rightarrow> (string \<Rightarrow> string \<Rightarrow> bool + identity) \<Rightarrow> site \<Rightarrow> session_event \<Rightarrow> site \<Rightarrow> bool"
  for bmatch idp where
  sess_login: "handleLogin hc bmatch up now rnd host (Some (email, pw, slug)) s = (r, s') \<Longrightarrow>
    session_step bmatch idp s (PasswordLogin s' now email pw) s'"
| sess_invite: "handleAcceptInvite sha bhash bmatch up now rnd1 rnd2 i token (Some pw) s = (r, s') \<Longrightarrow>
    session_step bmatch idp s (InviteLogin s' now pw) s'"
| sess_callback: "oidc_HandleCallback parseURL cd hc up now nsm rnd i w known idp p q s = (r, s') \<Longrightarrow>
    session_step bmatch idp s (ProviderLogin s now p q) s'"
| sess_logout: "handleLogout hc True host (Some c) s = (r, s') \<Longrightarrow> c \<noteq> [] \<Longrightarrow> session_step bmatch idp s (SignedOut c) s'"
| sess_logout_failed: "handleLogout hc False host cookie s = (r, s') \<Longrightarrow> session_step bmatch idp s SessionQuiet s'"
| sess_workspace: "handleSetSessionWorkspace up now cx body s = (r, s') \<Longrightarrow> session_step bmatch idp s SessionQuiet s'"
| sess_register: "handleRegister bhash up now nsm i w body s = (r, s') \<Longrightarrow> session_step bmatch idp s SessionQuiet s'"
| sess_delete: "handleAdminDeleteUser sha up now actor target s = (Reply 204 [], s', a) \<Longrightarrow>
    session_step bmatch idp s (UserDeleted target) s'"
| sess_delete_refused: "handleAdminDeleteUser sha up now actor target s = (r, s', a) \<Longrightarrow> r \<noteq> Reply 204 [] \<Longrightarrow>
    session_step bmatch idp s SessionQuiet s'"
| sess_clear: "on_db (\<lambda>db. ClearActiveWorkspace up db w) s = (e, s') \<Longrightarrow> session_step bmatch idp s SessionQuiet s'"
| sess_expire: "on_db (DeleteExpiredTokens up now) s = (e, s') \<Longrightarrow> session_step bmatch idp s SessionQuiet s'"
| sess_other: "sv_auth (si_db s') = sv_auth (si_db s) \<Longrightarrow> session_step bmatch idp s SessionQuiet s'"

definition no_sessions :: "site \<Rightarrow> bool" where "no_sessions s \<longleftrightarrow> sv_auth (si_db s) = []"

definition signed_in ::
  "(string \<Rightarrow> string \<Rightarrow> bool) \<Rightarrow> (string \<Rightarrow> string \<Rightarrow> bool + identity) \<Rightarrow> session_event \<Rightarrow> string \<times> string \<times> time \<Rightarrow> bool" where
  "signed_in bmatch idp e k =
     (case (e, k) of
        (PasswordLogin s t email pw, (c, u, x)) \<Rightarrow> x = t + tokenTTL \<and> password_ok bmatch s email pw u
      | (InviteLogin s t pw, (c, u, x)) \<Rightarrow> x = t + tokenTTL \<and> (\<exists>email. password_ok bmatch s email pw u)
      | (ProviderLogin s t p q, (c, u, x)) \<Rightarrow> x = t + tokenTTL \<and> the (cr_stateCookie q) = cr_state q \<and>
          (\<exists>ident up i b. idp p (cr_code q) = Inr ident \<and> fst (resolveUser up t i p ident s) = Some (u, b))
      | _ \<Rightarrow> False)"

definition signed_out :: "session_event \<Rightarrow> string \<times> string \<times> time \<Rightarrow> bool" where
  "signed_out e k \<longleftrightarrow> (case k of (c, u, x) \<Rightarrow> e = SignedOut c \<or> e = UserDeleted u)"

lemma handleLogin_grants:
  assumes "handleLogin hc bmatch up now rnd host (Some (email, pw, slug)) s = (r, s')"
  shows "grants now (password_ok bmatch s' email pw) s s'"
proof -
  define sl where "sl = (let slug1 = TrimSpace slug in if slug1 = [] then ResolveWorkspaceSlugFromHost hc host else slug1)"
  obtain q s1 where l: "LoginWithWorkspace bmatch up now rnd email pw sl s = (q, s1)" by (metis surj_pair)
  have "s' = s1" using assms l by (auto simp: handleLogin_def sl_def Let_def split: option.splits prod.splits)
  then show ?thesis using LoginWithWorkspace_grants [OF l] by (auto simp: same_accounts_password)
qed

lemma handleRegister_live:
  assumes "handleRegister bhash up now nsm i w body s = (r, s')"
  shows "live_sessions s' = live_sessions s"
proof (cases "s' = s")
  case False
  then obtain email pw where b: "body = Some (email, pw)" "email \<noteq> []" "pw \<noteq> []" "db_GetUserByEmail (up 0) s email = Inr None"
    using assms by (auto simp: handleRegister_def split: option.splits if_splits sum.splits)
  obtain ok s1 where g: "auth_Register bhash (\<lambda>k. up (1 + k)) now i email pw s = (ok, s1)" by (metis surj_pair)
  have l1: "live_sessions s1 = live_sessions s" using g
    by (auto simp: auth_Register_def CreateUser_def CreateUserWithEmail_def insert_user_def live_sessions_def sess_of_def
        split: option.splits if_splits prod.splits sum.splits)
  define s2 where "s2 = (if CountUsers (up 5) s1 = Inr 1 then snd (UpdateUserRole (up 6) s1 i ''admin'') else s1)"
  have u: "si_db s2 = si_db s1" by (simp add: s2_def UpdateUserRole_def)
  have c: "(email = [] \<or> pw = []) = False" using b by simp
  have "handleRegister bhash up now nsm i w body s = (if ok
      then (Reply 201 (i, email), s2\<lparr>si_db := createDefaultWorkspace up now nsm w i (si_db s2)\<rparr>)
      else (ErrorReply 500 ''failed to create user'', s1))"
    unfolding handleRegister_def b(1) option.case prod.case c if_False b(4) sum.case g s2_def Let_def
    by (cases ok) (simp_all only: bool.case if_True if_False)
  then have "s' = s1 \<or> s' = s2\<lparr>si_db := createDefaultWorkspace up now nsm w i (si_db s2)\<rparr>"
    unfolding assms by (cases ok) (simp_all only: if_True if_False prod.inject simp_thms)
  moreover have "live_sessions (s2\<lparr>si_db := createDefaultWorkspace up now nsm w i (si_db s2)\<rparr>) = live_sessions s1"
    unfolding live_sessions_def u [symmetric] by (simp add: createDefaultWorkspace_sess)
  ultimately show ?thesis using l1 by metis
qed simp

lemma handleAdminDeleteUser_cases:
  assumes "handleAdminDeleteUser sha up now actor target s = (r, s', a)"
  obtains "s' = s" "r \<noteq> Reply 204 []"
  | v u e where "db_GetUserByID (up 0) s actor = Inr (Some v)" "us_role v = ''admin''"
      "db_GetUserByID (up 1) s target = Inr (Some u)" "WorkspacesWhereUserIsLastOwner (up 3) (si_db s) target = Inr []"
      "AnonymizeUser sha (\<lambda>k. up (4 + k)) now s target = (e, s')" "r = Reply 204 [] \<longleftrightarrow> e = None"
proof -
  obtain e s1 where an: "AnonymizeUser sha (\<lambda>k. up (4 + k)) now s target = (e, s1)" by (metis surj_pair)
  note d = assms [unfolded handleAdminDeleteUser_def an prod.case]
  show thesis
  proof (cases "\<exists>v u. db_GetUserByID (up 0) s actor = Inr (Some v) \<and> us_role v = ''admin'' \<and>
      db_GetUserByID (up 1) s target = Inr (Some u) \<and> IsUserAnonymized (up 2) s target = Inr False \<and>
      WorkspacesWhereUserIsLastOwner (up 3) (si_db s) target = Inr []")
    case True
    then obtain v u where c: "db_GetUserByID (up 0) s actor = Inr (Some v)" "us_role v = ''admin''"
      "db_GetUserByID (up 1) s target = Inr (Some u)" "IsUserAnonymized (up 2) s target = Inr False"
      "WorkspacesWhereUserIsLastOwner (up 3) (si_db s) target = Inr []" by blast
    have "s' = s1" "r = Reply 204 [] \<longleftrightarrow> e = None"
      using d [unfolded c sum.case option.case bool.case list.case c(2)] by (auto split: option.splits user_err.splits)
    then show thesis using that(2) c an by blast
  next
    case False
    have "s' = s \<and> r \<noteq> Reply 204 []"
    proof (cases "\<exists>v. db_GetUserByID (up 0) s actor = Inr (Some v) \<and> us_role v = ''admin''")
      case admin: True
      then have nd: "(case db_GetUserByID (up 0) s actor of Inr (Some u) \<Rightarrow> us_role u \<noteq> ''admin'' | _ \<Rightarrow> True) = False"
        by auto
      show ?thesis
      proof (cases "\<exists>u. db_GetUserByID (up 1) s target = Inr (Some u)")
        case True
        then obtain u where u: "db_GetUserByID (up 1) s target = Inr (Some u)" ..
        show ?thesis
        proof (cases "IsUserAnonymized (up 2) s target")
          case (Inl x)
          then show ?thesis using d [unfolded nd if_False u sum.case option.case] by (cases x) auto
        next
          case (Inr b)
          then show ?thesis
          proof (cases b)
            case no: False
            then have "WorkspacesWhereUserIsLastOwner (up 3) (si_db s) target \<noteq> Inr []" using False admin u Inr by auto
            then show ?thesis using d [unfolded nd if_False u sum.case option.case] Inr no
              by (cases "WorkspacesWhereUserIsLastOwner (up 3) (si_db s) target") (auto split: list.splits)
          qed (use d [unfolded nd if_False u sum.case option.case] in auto)
        qed
      qed (use d [unfolded nd if_False] in \<open>auto split: sum.splits option.splits\<close>)
    qed (use d in \<open>auto split: if_splits sum.splits option.splits\<close>)
    then show thesis using that(1) by blast
  qed
qed

lemma AnonymizeUser_sess:
  assumes "AnonymizeUser sha up now s target = (e, s')"
  shows "s' = s \<and> e \<noteq> None \<or> sess_of (si_db s') = {(c, u, x) \<in> sess_of (si_db s). u \<noteq> target} \<and> e = None"
  using assms by (auto simp: AnonymizeUser_def sess_of_def Let_def split: option.splits if_splits prod.splits)

lemma handleAdminDeleteUser_live:
  assumes "handleAdminDeleteUser sha up now actor target s = (r, s', a)"
  shows "live_sessions s' \<subseteq> live_sessions s \<and> (r = Reply 204 [] \<longrightarrow> (\<forall>(c, u, x) \<in> live_sessions s'. u \<noteq> target))"
  by (rule handleAdminDeleteUser_cases [OF assms]) (auto simp: live_sessions_def dest!: AnonymizeUser_sess)

lemma handleLogout_live:
  assumes "handleLogout hc up host cookie s = (r, s')"
  shows "live_sessions s' \<subseteq> live_sessions s \<and>
    (\<forall>c u x. up \<and> cookie = Some c \<and> c \<noteq> [] \<longrightarrow> (c, u, x) \<notin> live_sessions s')"
  using assms by (auto simp: handleLogout_def InvalidateToken_def on_db_def DeleteToken_def live_sessions_def sess_of_def
      split: option.splits if_splits)

text \<open>
  A sign-out whose statement the database refuses is answered like any other, and the session stays: it is no
  \<open>SignedOut\<close> event.
\<close>

lemma handleLogout_failed:
  "handleLogout hc False host cookie s = (Reply 200 (HostOnlySessionCookie (ResolveWorkspaceSlugFromHost hc host)), s)"
  by (simp add: handleLogout_def InvalidateToken_def on_db_def DeleteToken_def split: option.split)

lemma handleSetSessionWorkspace_live:
  assumes "handleSetSessionWorkspace up now cx body s = (r, s')"
  shows "live_sessions s' = live_sessions s"
proof -
  have "s' = s \<or> (\<exists>w x. SetActiveWorkspace up now (cx_token cx) (cx_user cx) w s = (x, s'))"
    using assms by (auto simp: handleSetSessionWorkspace_def split: if_splits option.splits sum.splits prod.splits bool.splits)
  then show ?thesis using SetActiveWorkspace_live by blast
qed

lemma session_step_cases:
  assumes "session_step bmatch idp s e s'" and "k \<in> live_sessions s'"
  shows "k \<in> live_sessions s \<and> \<not> signed_out e k \<or> signed_in bmatch idp e k"
  using assms(1)
proof (cases rule: session_step.cases)
  case (sess_login hc up now rnd host email pw slug r)
  then show ?thesis using handleLogin_grants [OF sess_login(2)] assms(2)
    by (cases k) (auto simp: grants_def signed_out_def signed_in_def)
next
  case (sess_invite sha bhash up now rnd1 rnd2 i token pw r)
  then show ?thesis using handleAcceptInvite_grants [OF sess_invite(2)] assms(2)
    by (cases k) (auto simp: grants_def signed_out_def signed_in_def)
next
  case (sess_callback parseURL cd hc up now nsm rnd i w known p q r)
  obtain c u x where k: "k = (c, u, x)" by (cases k)
  have quiet: "\<not> signed_out e k" by (simp add: sess_callback(1) k signed_out_def)
  from oidc_HandleCallback_grants [OF sess_callback(2)] show ?thesis
  proof (elim disjE exE conjE)
    assume "s' = s"
    with quiet assms(2) show ?thesis by simp
  next
    fix ident v s1
    assume a: "the (cr_stateCookie q) = cr_state q" "idp p (cr_code q) = Inr ident"
      "resolveUser up now i p ident s = (v, s1)" "grants now (\<lambda>u. \<exists>b. v = Some (u, b)) s s'"
    show ?thesis
    proof (cases "k \<in> live_sessions s")
      case False
      then have "x = now + tokenTTL" "\<exists>b. v = Some (u, b)" using a(4) assms(2) k by (auto simp: grants_def)
      then have "\<exists>ident up i b. idp p (cr_code q) = Inr ident \<and> fst (resolveUser up now i p ident s) = Some (u, b)"
        using a(2,3) by (metis fst_conv)
      then have "signed_in bmatch idp e k" using a(1) \<open>x = now + tokenTTL\<close>
        by (simp add: sess_callback(1) k signed_in_def)
      then show ?thesis ..
    qed (use quiet in simp)
  qed
next
  case (sess_logout hc host c r)
  then show ?thesis using handleLogout_live [OF sess_logout(2)] assms(2) by (cases k) (auto simp: signed_out_def)
next
  case (sess_logout_failed hc host cookie r)
  then show ?thesis using handleLogout_live [OF sess_logout_failed(2)] assms(2) by (cases k) (auto simp: signed_out_def)
next
  case (sess_workspace up now cx body r)
  then show ?thesis using handleSetSessionWorkspace_live [OF sess_workspace(2)] assms(2) by (cases k) (auto simp: signed_out_def)
next
  case (sess_register bhash up now nsm i w body r)
  then show ?thesis using handleRegister_live [OF sess_register(2)] assms(2) by (cases k) (auto simp: signed_out_def)
next
  case (sess_delete sha up now actor target a)
  then show ?thesis using handleAdminDeleteUser_live [OF sess_delete(2)] assms(2) by (cases k) (auto simp: signed_out_def)
next
  case (sess_delete_refused sha up now actor target r a)
  then show ?thesis using handleAdminDeleteUser_live [OF sess_delete_refused(2)] assms(2) by (cases k) (auto simp: signed_out_def)
next
  case (sess_clear up w x)
  then have "live_sessions s' = live_sessions s"
    by (auto simp: on_db_def ClearActiveWorkspace_def live_sessions_def split: if_splits)
  then show ?thesis using sess_clear(1) assms(2) by (cases k) (auto simp: signed_out_def)
next
  case (sess_expire up now x)
  then have "live_sessions s' \<subseteq> live_sessions s"
    by (auto simp: on_db_def DeleteExpiredTokens_def live_sessions_def sess_of_def split: if_splits)
  then show ?thesis using sess_expire(1) assms(2) by (cases k) (auto simp: signed_out_def)
next
  case sess_other
  then show ?thesis using assms(2) by (cases k) (auto simp: signed_out_def live_sessions_def sess_of_def)
qed

interpretation web_sessions: credential_table "session_step bmatch idp" no_sessions live_sessions
  "signed_in bmatch idp" signed_out
proof
  show "no_sessions s \<Longrightarrow> live_sessions s = {}" for s by (simp add: no_sessions_def live_sessions_def sess_of_def)
  show "session_step bmatch idp s e s' \<Longrightarrow> k \<in> live_sessions s' \<Longrightarrow>
    k \<in> live_sessions s \<and> \<not> signed_out e k \<or> signed_in bmatch idp e k" for s e s' k
    by (rule session_step_cases)
qed

text \<open>C30: C0: Whatever requests the server has answered, a session cookie that is admitted was issued, less than
  seven days ago, by a request that gave the password of the user, or whose provider identified the user;
  since then nobody has signed out of the session, and the user has not been deleted.
\<close>

theorem session_use:
  assumes "cred_run (session_step bmatch idp) no_sessions s h" and "auth_Middleware up now (Some c) s = Inr cx"
  shows "\<exists>h1 e h2 x. h = h1 @ e # h2 \<and> signed_in bmatch idp e (c, cx_user cx, x) \<and> now < x \<and>
    SignedOut c \<notin> set h2 \<and> UserDeleted (cx_user cx) \<notin> set h2"
proof -
  from assms(2) obtain t where t: "t \<in> set (sv_auth (si_db s))" "tn_token t = c" "tn_user t = cx_user cx" "now < tn_expires t"
    by (auto simp: auth_Middleware_def auth_ValidateTokenWithWorkspace_def db_ValidateTokenWithWorkspace_def
        dest!: find_Some_in split: option.splits sum.splits if_splits prod.splits)
  then have "(c, cx_user cx, tn_expires t) \<in> live_sessions s" by (force simp: live_sessions_def sess_of_def)
  from web_sessions.issued_not_withdrawn [OF assms(1) this] obtain h1 e h2 where
    "h = h1 @ e # h2" "signed_in bmatch idp e (c, cx_user cx, tn_expires t)"
    "\<forall>x \<in> set h2. \<not> signed_out x (c, cx_user cx, tn_expires t)" by blast
  moreover from this(3) have "SignedOut c \<notin> set h2" "UserDeleted (cx_user cx) \<notin> set h2" by (auto simp: signed_out_def)
  ultimately show ?thesis using t(4) by blast
qed

section \<open>Examples\<close>

definition small_site :: site where
  "small_site =
     \<lparr>si_db = \<lparr>sv_users = [(''u'', ''u@x''), (''a'', ''a@x'')], sv_auth = [], sv_skill_drafts = [], sv_soul_drafts = [],
        sv_workspaces = [\<lparr>ws_id = ''w'', ws_name = ''w'', ws_slug = ''w'', ws_namespace = None, ws_routing = None,
          ws_created = 0, ws_updated = 0, ws_deleted = None\<rparr>],
        sv_members = [\<lparr>me_ws = ''w'', me_user = ''u'', me_role = ''maintainer'', me_created = 0\<rparr>,
          \<lparr>me_ws = ''w'', me_user = ''a'', me_role = ''owner'', me_created = 0\<rparr>],
        sv_sandboxes = [], sv_tokens = [], sv_codes = [], sv_settings = Map.empty, sv_user_quotas = Map.empty,
        sv_quotas = Map.empty, sv_tasks = [], sv_mail = [], sv_log = [], sv_compositions = Map.empty\<rparr>,
      si_profiles = [''u'' \<mapsto> new_profile 0, ''a'' \<mapsto> (new_profile 0)\<lparr>pf_role := ''admin''\<rparr>],
      si_creds = [''u'' \<mapsto> ''pw''],
      si_oidc = [\<lparr>oi_provider = ''github'', oi_subject = ''7'', oi_user = ''u'', oi_email = None\<rparr>],
      si_invites = [], si_keys = [], si_codex = [], si_browsers = []\<rparr>"

lemma Mint_parse:
  assumes "MintSecret hash sp d1 d2 = Inr tok" and "\<And>k j. d1 k = Some j \<Longrightarrow> j < 62" "\<And>k j. d2 k = Some j \<Longrightarrow> j < 62"
  shows "\<exists>b. ParseSecret sp (to_full tok) = Inr (to_id tok, b)"
proof -
  from assms(1) obtain a b where a: "validateSpec sp = None" "randomBase62 (se_idLen sp) d1 = Some a"
    "randomBase62 (se_secretLen sp) d2 = Some b" "to_id tok = se_prefix sp @ a"
    "to_full tok = (se_prefix sp @ a @ ''_'' @ b) @ crc32Base62 (se_prefix sp @ a @ ''_'' @ b)"
    by (auto simp: MintSecret_def Let_def split: option.splits)
  have pos: "0 < se_idLen sp" "0 < se_secretLen sp" using a(1) by (auto simp: validateSpec_def split: if_splits)
  have "length a = nat (se_idLen sp) \<and> isBase62 a" "length b = nat (se_secretLen sp) \<and> isBase62 b"
    using randomBase62_shape a(2,3) assms(2,3) by blast+
  then show ?thesis unfolding a(4,5) using ParseSecret_built [OF a(1)] pos by simp
qed

lemma some_api_key: obtains tok where "MintSecret id APIKeySpec (\<lambda>k. Some 3) (\<lambda>k. Some 2) = Inr tok"
proof -
  have "validateSpec APIKeySpec = None" by code_simp
  then have "\<exists>tok. MintSecret id APIKeySpec (\<lambda>k. Some 3) (\<lambda>k. Some 2) = Inr tok"
    by (simp add: MintSecret_def randomBase62_def Let_def list_all_iff)
  with that show thesis by blast
qed

lemma some_codex_token: obtains tok where "MintSecret id AgentserverTokenSpec (\<lambda>k. Some 3) (\<lambda>k. Some 2) = Inr tok"
proof -
  have "validateSpec AgentserverTokenSpec = None" by code_simp
  then have "\<exists>tok. MintSecret id AgentserverTokenSpec (\<lambda>k. Some 3) (\<lambda>k. Some 2) = Inr tok"
    by (simp add: MintSecret_def randomBase62_def Let_def list_all_iff)
  with that show thesis by blast
qed

theorem session_use_witness:
  "\<exists>s h c cx h1 e h2 x. cred_run (session_step (=) (\<lambda>_ _. Inl False)) no_sessions s h \<and>
     auth_Middleware True 5 (Some c) s = Inr cx \<and> h = h1 @ e # h2 \<and>
     signed_in (=) (\<lambda>_ _. Inl False) e (c, cx_user cx, x) \<and> 5 < x \<and> SignedOut c \<notin> set h2"
proof -
  let ?hc = "\<lparr>hc_bases = [], hc_openclaw = [], hc_hermes = [], hc_codexAuth = []\<rparr> :: host_config"
  let ?in = "handleLogin ?hc (=) (\<lambda>_. True) 4 (Some ''k'') ''h'' (Some (''u@x'', ''pw'', [])) small_site"
  have l: "fst ?in = Reply 200 (''6b'', False)" "auth_Middleware True 5 (Some ''6b'') (snd ?in) = Inr \<lparr>cx_user = ''u'', cx_token = ''6b'', cx_active = []\<rparr>"
    by code_simp+
  have "cred_run (session_step (=) (\<lambda>_ _. Inl False)) no_sessions small_site []"
    by (rule run_start) (simp add: no_sessions_def small_site_def)
  then have r: "cred_run (session_step (=) (\<lambda>_ _. Inl False)) no_sessions (snd ?in) ([] @ [PasswordLogin (snd ?in) 4 ''u@x'' ''pw''])"
    by (rule run_more) (rule sess_login [where r = "fst ?in"], simp)
  from session_use [OF r l(2)] r l(2) show ?thesis by blast
qed

theorem api_key_use_witness:
  "\<exists>s h secret w i scopes h1 s0 user k full h2. cred_run (key_step id) no_keys s h \<and>
     handleInternalValidateAPIKey id True 2 (Some secret) s = Reply 200 (w, i, scopes) \<and>
     h = h1 @ KeyMinted s0 user k full # h2 \<and> ak_ws k = w \<and> KeyRevoked w i \<notin> set h2"
proof -
  obtain tok where tok: "MintSecret id APIKeySpec (\<lambda>k. Some 3) (\<lambda>k. Some 2) = Inr tok" by (rule some_api_key)
  let ?row = "\<lparr>ak_id = to_id tok, ak_ws = ''w'', ak_user = ''u'', ak_name = ''k'', ak_prefix = to_id tok, ak_hash = to_hash tok,
    ak_scopes = [''turns:submit''], ak_created = 1, ak_expires = 1 + expirationDefaultDuration, ak_used = None, ak_revoked = None\<rparr>"
  let ?s = "small_site\<lparr>si_keys := [?row]\<rparr>"
  have pre: "requireWorkspaceRole True (si_db small_site) ''u'' ''w'' [''owner'', ''maintainer''] = None"
    "TrimSpace ''k'' \<noteq> []" "validateScopes [''turns:submit''] = None" "has_workspace (si_db small_site) ''w''"
    "has_user (si_db small_site) ''u''" "si_keys small_site = []" by code_simp+
  have m: "handleMintWorkspaceAPIKey id (\<lambda>_. None) (\<lambda>_. True) 1 (\<lambda>k. Some 3) (\<lambda>k. Some 2) ''u'' ''w''
      (Some (''k'', [''turns:submit''], [])) small_site = (Reply 201 (?row, to_full tok), ?s)"
    by (simp add: handleMintWorkspaceAPIKey_def pre resolveExpiresAt_def tok CreateWorkspaceAPIKey_def Let_def)
  obtain b where b: "ParseSecret APIKeySpec (to_full tok) = Inr (to_id tok, b)"
    using Mint_parse [OF tok] by auto
  have v: "handleInternalValidateAPIKey id True 2 (Some (to_full tok)) ?s = Reply 200 (''w'', to_id tok, [''turns:submit''])"
    using Mint_hash [OF tok]
    by (simp add: handleInternalValidateAPIKey_def b ValidateWorkspaceAPIKeySecret_def ConstantTimeMatch_def expirationDefaultDuration_def)
  have "cred_run (key_step id) no_keys small_site []" by (rule run_start) (simp add: no_keys_def pre)
  then have r: "cred_run (key_step id) no_keys ?s ([] @ [KeyMinted small_site ''u'' ?row (to_full tok)])"
    by (rule run_more) (rule key_mint [OF m])
  from api_key_use [OF r v] r v show ?thesis by blast
qed

theorem codex_token_use_witness:
  "\<exists>s h token user w h1 s0 t full h2. cred_run (codex_step id) no_codex s h \<and>
     handleVerifyCodexToken id True 2 (Some token) s = Reply 200 (user, w) \<and>
     h = h1 @ CodexMinted s0 user t full # h2 \<and> ct_ws t = w \<and> CodexRevoked (ct_id t) \<notin> set h2"
proof -
  obtain tok where tok: "MintSecret id AgentserverTokenSpec (\<lambda>k. Some 3) (\<lambda>k. Some 2) = Inr tok" by (rule some_codex_token)
  let ?row = "\<lparr>ct_id = to_id tok, ct_user = ''u'', ct_ws = ''w'', ct_name = ''k'', ct_hash = to_hash tok,
    ct_created = 1, ct_expires = 1 + expirationDefaultDuration, ct_used = None, ct_revoked = None\<rparr>"
  let ?s = "small_site\<lparr>si_codex := [?row]\<rparr>"
  have pre: "GetWorkspaceMemberRole True (si_db small_site) ''w'' ''u'' = Inr ''maintainer''" "si_codex small_site = []"
    by code_simp+
  have m: "handleMintCodexToken id (\<lambda>_. None) (\<lambda>_. True) 1 (\<lambda>k. Some 3) (\<lambda>k. Some 2) ''u''
      (Some (''w'', ''k'', [])) small_site = (Reply 201 (?row, to_full tok), ?s)"
    by (simp add: handleMintCodexToken_def pre resolveExpiresAt_def tok CreateCodexToken_def Let_def)
  obtain b where b: "ParseSecret AgentserverTokenSpec (to_full tok) = Inr (to_id tok, b)"
    using Mint_parse [OF tok] by auto
  have v: "handleVerifyCodexToken id True 2 (Some (to_full tok)) ?s = Reply 200 (''u'', ''w'')"
    using Mint_hash [OF tok]
    by (simp add: handleVerifyCodexToken_def codexTokenRow_def GetCodexToken_def b ConstantTimeMatch_def expirationDefaultDuration_def)
  have "cred_run (codex_step id) no_codex small_site []" by (rule run_start) (simp add: no_codex_def pre)
  then have r: "cred_run (codex_step id) no_codex ?s ([] @ [CodexMinted small_site ''u'' ?row (to_full tok)])"
    by (rule run_more) (rule codex_mint [OF m])
  from codex_token_use [OF r v] r v show ?thesis by blast
qed

end
