(* ===== verification/Account_Facts.thy ===== *)
theory Account_Facts
  imports Session_Use
begin

text \<open>
  What the administration and the invites do: the defaults that are saved are the defaults in force, the
  deletion of a user removes every way in but one, and an invite lets in the person it was sent to.
\<close>

section \<open>Defaults\<close>

text \<open>What the saved settings are, key by key.\<close>

definition saved :: "(int option \<times> string \<times> string option) list \<Rightarrow> (string \<rightharpoonup> string) \<Rightarrow> string \<Rightarrow> string option" where
  "saved fs m k =
     (case find (\<lambda>f. fst (snd f) = k \<and> fst f \<noteq> None) fs of
        Some (Some v, _) \<Rightarrow> Some (FormatInt v) | _ \<Rightarrow> m k)"

lemma saveSettings_saved:
  assumes "saveSettings (\<lambda>_. True) n fs db = (None, db')" and "distinct (map (\<lambda>f. fst (snd f)) fs)"
  shows "sv_settings db' = saved fs (sv_settings db)"
  using assms
proof (induction "\<lambda>_ :: nat. True" n fs db rule: saveSettings.induct)
  case (2 k key fs db)
  then show ?case by (auto simp: saved_def fun_eq_iff)
next
  case (3 k v key check fs db)
  let ?db = "db\<lparr>sv_settings := (sv_settings db)(key \<mapsto> FormatInt v)\<rparr>"
  have s: "saveSettings (\<lambda>_. True) (k + 1) fs ?db = (None, db')"
    using 3(2) by (auto simp: SetSystemSetting_def split: if_splits)
  have "sv_settings db' = saved fs (sv_settings ?db)"
    by (rule 3(1)) (use 3 s in \<open>auto simp: SetSystemSetting_def split: if_splits\<close>)
  moreover have n: "find (\<lambda>f. fst (snd f) = key \<and> fst f \<noteq> None) fs = None"
    using 3(3) by (force simp: find_None_iff)
  ultimately show ?case by (auto simp: saved_def fun_eq_iff split: option.split)
qed (simp add: saved_def fun_eq_iff)

lemma saveSettings_only:
  "saveSettings up n fs db = (e, db') \<Longrightarrow> db'\<lparr>sv_settings := m\<rparr> = db\<lparr>sv_settings := m\<rparr>"
proof (induction up n fs db rule: saveSettings.induct)
  case (3 up k v key check fs db)
  let ?db = "db\<lparr>sv_settings := (sv_settings db)(key \<mapsto> FormatInt v)\<rparr>"
  have "db' = db \<or> up k \<and> saveSettings up (k + 1) fs ?db = (e, db')"
    using 3(2) by (auto simp: SetSystemSetting_def split: if_splits)
  moreover have "up k \<and> \<not> (check \<noteq> None \<and> v < 0) \<Longrightarrow> saveSettings up (k + 1) fs ?db = (e, db') \<Longrightarrow>
      db'\<lparr>sv_settings := m\<rparr> = ?db\<lparr>sv_settings := m\<rparr>"
    using 3(1) by (auto simp: SetSystemSetting_def)
  ultimately show ?case using 3(2) by (cases "check \<noteq> None \<and> v < 0") auto
qed auto

definition opt64 :: "int option \<Rightarrow> bool" where "opt64 q \<longleftrightarrow> (case q of None \<Rightarrow> True | Some n \<Rightarrow> - (2 ^ 63) \<le> n \<and> n < 2 ^ 63)"

lemma FormatInt_not_Nil [simp]: "FormatInt n \<noteq> []"
  by (simp add: FormatInt_def format_nat.simps)

lemma atoi_over_saved:
  assumes "opt64 q"
  shows "atoi_over (case (case q of Some v \<Rightarrow> Some (FormatInt v) | None \<Rightarrow> old) of Some v \<Rightarrow> v | None \<Rightarrow> []) d =
    over q (atoi_over (case old of Some v \<Rightarrow> v | None \<Rightarrow> []) d)"
  using assms by (cases q) (simp_all add: atoi_over_def over_def opt64_def ParseInt_FormatInt)

lemma res_over_saved:
  assumes "opt64 q"
  shows "res_over legacy (case (case q of Some v \<Rightarrow> Some (FormatInt v) | None \<Rightarrow> old) of Some v \<Rightarrow> v | None \<Rightarrow> []) d =
    over q (res_over legacy (case old of Some v \<Rightarrow> v | None \<Rightarrow> []) d)"
  using assms by (cases q) (simp_all add: res_over_def parseResourceInt_def over_def opt64_def ParseInt_FormatInt)

lemma setting_atoi:
  assumes "sv_settings db' k = (case q of Some n \<Rightarrow> Some (FormatInt n) | None \<Rightarrow> sv_settings db k)" and "opt64 q"
  shows "atoi_over (setting True db' k) d = over q (atoi_over (setting True db k) d)"
  using atoi_over_saved [OF assms(2)] by (simp add: setting_def GetSystemSetting_def assms(1))

lemma setting_res:
  assumes "sv_settings db' k = (case q of Some n \<Rightarrow> Some (FormatInt n) | None \<Rightarrow> sv_settings db k)" and "opt64 q"
  shows "res_over legacy (setting True db' k) d = over q (res_over legacy (setting True db k) d)"
  using res_over_saved [OF assms(2)] by (simp add: setting_def GetSystemSetting_def assms(1))

definition sane_defaults :: "AdminQuotaDefaultsUpdateRequest \<Rightarrow> bool" where
  "sane_defaults q \<longleftrightarrow> list_all (\<lambda>f. opt64 (fst f)) (default_fields q)"

lemma saved_at:
  assumes "(v, k, c) \<in> set fs" and "distinct (map (\<lambda>f. fst (snd f)) fs)"
  shows "saved fs m k = (case v of Some n \<Rightarrow> Some (FormatInt n) | None \<Rightarrow> m k)"
  using assms
proof (induction fs)
  case (Cons f fs)
  show ?case
  proof (cases "f = (v, k, c)")
    case True
    then have "find (\<lambda>f. fst (snd f) = k \<and> fst f \<noteq> None) fs = None"
      using True Cons.prems(2) by (force simp: find_None_iff)
    then show ?thesis using True by (cases v) (simp_all add: saved_def)
  next
    case False
    then have "(v, k, c) \<in> set fs" using Cons.prems(1) by simp
    moreover from this have "k \<in> set (map (\<lambda>f. fst (snd f)) fs)" unfolding set_map by (rule rev_image_eqI) simp
    then have "fst (snd f) \<noteq> k" using Cons.prems(2) by auto
    ultimately show ?thesis using Cons by (simp add: saved_def)
  qed
qed simp

text \<open>Saved defaults are in force: when the server confirms the saving of the limits of the system, it
  answers with the limits that hold from now on, which are the given ones where they are given and the
  former ones elsewhere, and nothing but settings has changed.
\<close>

theorem set_defaults_roundtrip:
  assumes "handleAdminSetQuotaDefaults flt dur env (\<lambda>_. True) (Some q) db = (Reply 200 rd, db')" and "sane_defaults q"
  shows "(let old = getResourceDefaults flt dur env (\<lambda>_. True) db in
    rd = \<lparr>rd_workspaces = over (dq_workspaces q) (rd_workspaces old), rd_sandboxes = over (dq_sandboxes q) (rd_sandboxes old),
      rd_drive = over (dq_drive q) (rd_drive old), rd_cpu = over (dq_cpu q) (rd_cpu old),
      rd_memory = over (dq_memory q) (rd_memory old), rd_idle = over (dq_idle q) (rd_idle old),
      rd_totalCPU = over (dq_totalCPU q) (rd_totalCPU old), rd_totalMemory = over (dq_totalMemory q) (rd_totalMemory old),
      rd_wsIdle = over (dq_wsIdle q) (rd_wsIdle old)\<rparr>) \<and>
    handleAdminGetQuotaDefaults flt dur env (\<lambda>_. True) db' = Reply 200 rd \<and> db'\<lparr>sv_settings := sv_settings db\<rparr> = db"
proof -
  obtain e db1 where s: "saveSettings (\<lambda>_. True) 0 (default_fields q) db = (e, db1)" by (metis surj_pair)
  with assms(1) have e: "e = None" "db1 = db'" and rd: "rd = getResourceDefaults flt dur env (\<lambda>_. True) db'"
    by (auto simp: handleAdminSetQuotaDefaults_def split: option.splits)
  have d: "distinct (map (\<lambda>f. fst (snd f)) (default_fields q))" by (simp add: default_fields_def)
  have m: "sv_settings db' = saved (default_fields q) (sv_settings db)"
    by (rule saveSettings_saved [OF s [unfolded e] d])
  have at: "sv_settings db' k = (case v of Some n \<Rightarrow> Some (FormatInt n) | None \<Rightarrow> sv_settings db k)"
    if "\<exists>c. (v, k, c) \<in> set (default_fields q)" for v k unfolding m using saved_at that d by blast
  have f: "sv_settings db' ''quota_max_workspaces_per_user'' = (case dq_workspaces q of Some n \<Rightarrow> Some (FormatInt n) | None \<Rightarrow> sv_settings db ''quota_max_workspaces_per_user'')"
    "sv_settings db' ''quota_max_sandboxes_per_workspace'' = (case dq_sandboxes q of Some n \<Rightarrow> Some (FormatInt n) | None \<Rightarrow> sv_settings db ''quota_max_sandboxes_per_workspace'')"
    "sv_settings db' ''default_max_workspace_drive_size'' = (case dq_drive q of Some n \<Rightarrow> Some (FormatInt n) | None \<Rightarrow> sv_settings db ''default_max_workspace_drive_size'')"
    "sv_settings db' ''default_max_sandbox_cpu'' = (case dq_cpu q of Some n \<Rightarrow> Some (FormatInt n) | None \<Rightarrow> sv_settings db ''default_max_sandbox_cpu'')"
    "sv_settings db' ''default_max_sandbox_memory'' = (case dq_memory q of Some n \<Rightarrow> Some (FormatInt n) | None \<Rightarrow> sv_settings db ''default_max_sandbox_memory'')"
    "sv_settings db' ''default_max_idle_timeout'' = (case dq_idle q of Some n \<Rightarrow> Some (FormatInt n) | None \<Rightarrow> sv_settings db ''default_max_idle_timeout'')"
    "sv_settings db' ''default_ws_max_total_cpu'' = (case dq_totalCPU q of Some n \<Rightarrow> Some (FormatInt n) | None \<Rightarrow> sv_settings db ''default_ws_max_total_cpu'')"
    "sv_settings db' ''default_ws_max_total_memory'' = (case dq_totalMemory q of Some n \<Rightarrow> Some (FormatInt n) | None \<Rightarrow> sv_settings db ''default_ws_max_total_memory'')"
    "sv_settings db' ''default_ws_max_idle_timeout'' = (case dq_wsIdle q of Some n \<Rightarrow> Some (FormatInt n) | None \<Rightarrow> sv_settings db ''default_ws_max_idle_timeout'')"
    by (rule at, simp add: default_fields_def)+
  have o: "opt64 (dq_workspaces q)" "opt64 (dq_sandboxes q)" "opt64 (dq_drive q)" "opt64 (dq_cpu q)" "opt64 (dq_memory q)"
    "opt64 (dq_idle q)" "opt64 (dq_totalCPU q)" "opt64 (dq_totalMemory q)" "opt64 (dq_wsIdle q)"
    using assms(2) by (simp_all add: sane_defaults_def default_fields_def)
  have "db'\<lparr>sv_settings := sv_settings db\<rparr> = db" using saveSettings_only [OF s, of "sv_settings db"] e by simp
  moreover note v = setting_atoi [OF f(1) o(1)] setting_atoi [OF f(2) o(2)] setting_res [OF f(3) o(3)]
    setting_res [OF f(4) o(4)] setting_res [OF f(5) o(5)] setting_res [OF f(6) o(6)] setting_res [OF f(7) o(7)]
    setting_res [OF f(8) o(8)] setting_res [OF f(9) o(9)]
  ultimately show ?thesis
    unfolding rd handleAdminGetQuotaDefaults_def Let_def
    by (simp only: getResourceDefaults_def Let_def v ResourceDefaults.select_convs simp_thms)
qed

theorem set_defaults_roundtrip_witness:
  "\<exists>rd db'. handleAdminSetQuotaDefaults (\<lambda>_ _. None) (\<lambda>_. None) (\<lambda>_. []) (\<lambda>_. True)
      (Some \<lparr>dq_workspaces = Some 3, dq_sandboxes = None, dq_drive = None, dq_cpu = Some 500, dq_memory = None, dq_idle = None,
        dq_totalCPU = None, dq_totalMemory = None, dq_wsIdle = None\<rparr>) (si_db small_site) = (Reply 200 rd, db') \<and>
     rd_workspaces rd = 3 \<and> rd_cpu rd = 500 \<and>
     rd_sandboxes rd = rd_sandboxes (getResourceDefaults (\<lambda>_ _. None) (\<lambda>_. None) (\<lambda>_. []) (\<lambda>_. True) (si_db small_site))"
proof -
  let ?q = "\<lparr>dq_workspaces = Some 3, dq_sandboxes = None, dq_drive = None, dq_cpu = Some 500, dq_memory = None, dq_idle = None,
        dq_totalCPU = None, dq_totalMemory = None, dq_wsIdle = None\<rparr>"
  let ?db = "(si_db small_site)\<lparr>sv_settings := [''quota_max_workspaces_per_user'' \<mapsto> FormatInt 3, ''default_max_sandbox_cpu'' \<mapsto> FormatInt 500]\<rparr>"
  let ?rd = "getResourceDefaults (\<lambda>_ _. None) (\<lambda>_. None) (\<lambda>_. []) (\<lambda>_. True) ?db"
  have h: "handleAdminSetQuotaDefaults (\<lambda>_ _. None) (\<lambda>_. None) (\<lambda>_. []) (\<lambda>_. True) (Some ?q) (si_db small_site) = (Reply 200 ?rd, ?db)"
    by (simp add: handleAdminSetQuotaDefaults_def default_fields_def SetSystemSetting_def small_site_def)
  have "sane_defaults ?q" by (simp add: sane_defaults_def default_fields_def opt64_def)
  from set_defaults_roundtrip [OF h this] h show ?thesis by (auto simp: Let_def over_def)
qed

section \<open>Deletion of a user\<close>

definition owned :: "srv_db \<Rightarrow> string \<Rightarrow> bool" where
  "owned db w \<longleftrightarrow> (\<exists>m \<in> set (sv_members db). me_ws m = w \<and> me_role m = ''owner'')"

definition members_keyed :: "srv_db \<Rightarrow> bool" where
  "members_keyed db \<longleftrightarrow> distinct (map (\<lambda>m. (me_ws m, me_user m)) (sv_members db))"

lemma other_owner:
  assumes "WorkspacesWhereUserIsLastOwner up db u = Inr []" and "members_keyed db" and "has_workspace db w" and "owned db w"
  shows "\<exists>m \<in> set (sv_members db). me_ws m = w \<and> me_role m = ''owner'' \<and> me_user m \<noteq> u"
proof (rule ccontr)
  let ?own = "\<lambda>m. me_ws m = w \<and> me_role m = ''owner''"
  assume "\<not> ?thesis"
  then have only: "\<forall>m \<in> set (filter ?own (sv_members db)). (me_ws m, me_user m) = (w, u)" by auto
  have "distinct (map (\<lambda>m. (me_ws m, me_user m)) (filter ?own (sv_members db)))"
    using assms(2) by (simp add: members_keyed_def distinct_map_filter)
  moreover have "map (\<lambda>m. (me_ws m, me_user m)) (filter ?own (sv_members db)) = replicate (length (filter ?own (sv_members db))) (w, u)"
    using only by (subst map_replicate_const [symmetric]) (rule map_cong [OF refl], blast)
  ultimately have "distinct (replicate (length (filter ?own (sv_members db))) (w, u))" by simp
  then have "length (filter ?own (sv_members db)) \<le> 1"
    by (cases "length (filter ?own (sv_members db))" rule: nat.exhaust; cases "length (filter ?own (sv_members db)) - 1") auto
  moreover from assms(4) obtain m where m: "m \<in> set (sv_members db)" "?own m" by (auto simp: owned_def)
  then have "filter ?own (sv_members db) \<noteq> []" by (auto simp: filter_empty_conv)
  ultimately have one: "length (filter ?own (sv_members db)) = 1" by (cases "filter ?own (sv_members db)") auto
  have mu: "me_user m = u" using only m by auto
  from assms(3) obtain r where r: "r \<in> set (sv_workspaces db)" "ws_id r = w" by (auto simp: has_workspace_def list_ex_iff)
  from assms(1) have "\<forall>m \<in> set (filter (\<lambda>m. me_user m = u \<and> me_role m = ''owner'' \<and>
      length (filter (\<lambda>n. me_ws n = me_ws m \<and> me_role n = ''owner'') (sv_members db)) = 1) (sv_members db)).
      filter (\<lambda>r. ws_id r = me_ws m) (sv_workspaces db) = []"
    by (simp add: WorkspacesWhereUserIsLastOwner_def split: if_splits)
  then have "filter (\<lambda>r. ws_id r = w) (sv_workspaces db) = []" using m mu one by auto
  with r show False by (auto simp: filter_empty_conv)
qed

lemma AnonymizeUser_done:
  assumes "AnonymizeUser sha up now s i = (None, s')"
  shows "\<exists>email. s' = s\<lparr>si_db := (si_db s)
             \<lparr>sv_users := update_rows (\<lambda>p. fst p = i) (\<lambda>p. (fst p, anonymizedPlaceholderEmail i)) (sv_users (si_db s)),
              sv_auth := filter (\<lambda>t. tn_user t \<noteq> i) (sv_auth (si_db s)),
              sv_members := filter (\<lambda>m. me_user m \<noteq> i) (sv_members (si_db s))\<rparr>,
            si_profiles := (si_profiles s)(i := map_option (\<lambda>f. f\<lparr>pf_name := None, pf_picture := None,
              pf_emailHash := Some (hex_of (sha email)), pf_anonymized := Some now\<rparr>) (si_profiles s i)),
            si_creds := (si_creds s)(i := None)\<rparr>"
proof (cases "find (\<lambda>p. fst p = i) (sv_users (si_db s))")
  case (Some p)
  obtain j email where p: "p = (j, email)" by (cases p)
  show ?thesis
    using assms unfolding AnonymizeUser_def Some p option.case prod.case
    by (intro exI [of _ email]) (simp only: prod.inject option.distinct simp_thms split: if_split_asm)
qed (use assms in \<open>simp add: AnonymizeUser_def split: if_splits\<close>)

text \<open>A confirmed deletion of a user was asked for by an administrator. It removes the password, all
  sessions and all memberships of the user, clears name and picture and replaces the address; every
  existing workspace that had an owner keeps one; and accounts, sessions and memberships of all others
  are as before.
\<close>

theorem delete_user_effect:
  assumes "handleAdminDeleteUser sha up now actor target s = (Reply 204 [], s', a)" and "members_keyed (si_db s)"
  shows "(\<exists>v. db_GetUserByID True s actor = Inr (Some v) \<and> us_role v = ''admin'') \<and>
    si_creds s' = (si_creds s)(target := None) \<and>
    sv_auth (si_db s') = filter (\<lambda>t. tn_user t \<noteq> target) (sv_auth (si_db s)) \<and>
    sv_members (si_db s') = filter (\<lambda>m. me_user m \<noteq> target) (sv_members (si_db s)) \<and>
    sv_users (si_db s') = map (\<lambda>p. if fst p = target then (target, anonymizedPlaceholderEmail target) else p) (sv_users (si_db s)) \<and>
    (\<forall>f. si_profiles s' target = Some f \<longrightarrow> pf_name f = None \<and> pf_picture f = None \<and> pf_anonymized f = Some now) \<and>
    (\<forall>u. u \<noteq> target \<longrightarrow> si_profiles s' u = si_profiles s u) \<and>
    (\<forall>w. has_workspace (si_db s) w \<and> owned (si_db s) w \<longrightarrow> owned (si_db s') w)"
proof (rule handleAdminDeleteUser_cases [OF assms(1)])
  fix v u e
  assume c: "db_GetUserByID (up 0) s actor = Inr (Some v)" "us_role v = ''admin''"
    "WorkspacesWhereUserIsLastOwner (up 3) (si_db s) target = Inr []"
    "AnonymizeUser sha (\<lambda>k. up (4 + k)) now s target = (e, s')" "Reply 204 [] = (Reply 204 [] :: (string \<times> string) list reply) \<longleftrightarrow> e = None"
  then have "AnonymizeUser sha (\<lambda>k. up (4 + k)) now s target = (None, s')" by simp
  from AnonymizeUser_done [OF this] obtain email where
    "s' = s\<lparr>si_db := (si_db s)
             \<lparr>sv_users := update_rows (\<lambda>p. fst p = target) (\<lambda>p. (fst p, anonymizedPlaceholderEmail target)) (sv_users (si_db s)),
              sv_auth := filter (\<lambda>t. tn_user t \<noteq> target) (sv_auth (si_db s)),
              sv_members := filter (\<lambda>m. me_user m \<noteq> target) (sv_members (si_db s))\<rparr>,
            si_profiles := (si_profiles s)(target := map_option (\<lambda>f. f\<lparr>pf_name := None, pf_picture := None,
              pf_emailHash := Some (hex_of (sha email)), pf_anonymized := Some now\<rparr>) (si_profiles s target)),
            si_creds := (si_creds s)(target := None)\<rparr>" ..
  note s' = this
  have own: "owned (si_db s') w" if "has_workspace (si_db s) w" "owned (si_db s) w" for w
    using other_owner [OF c(3) assms(2) that] by (auto simp: owned_def s')
  have adm: "db_GetUserByID True s actor = Inr (Some v)" using c(1) by (auto simp: db_GetUserByID_def split: if_splits)
  have users: "sv_users (si_db s') = map (\<lambda>p. if fst p = target then (target, anonymizedPlaceholderEmail target) else p) (sv_users (si_db s))"
    by (auto simp: s' update_rows_def)
  show ?thesis
  proof (intro conjI)
    show "\<exists>v. db_GetUserByID True s actor = Inr (Some v) \<and> us_role v = ''admin''" using adm c(2) by blast
    show "\<forall>w. has_workspace (si_db s) w \<and> owned (si_db s) w \<longrightarrow> owned (si_db s') w" using own by blast
  qed (use users in \<open>auto simp: s'\<close>)
qed simp

lemma small_site_delete:
  obtains s' where "handleAdminDeleteUser (\<lambda>_. ''h'') (\<lambda>_. True) 3 ''a'' ''u'' small_site = (Reply 204 [], s', Some (''u'', ''a''))"
proof -
  let ?r = "handleAdminDeleteUser (\<lambda>_. ''h'') (\<lambda>_. True) 3 ''a'' ''u'' small_site"
  have "fst ?r = Reply 204 [] \<and> snd (snd ?r) = Some (''u'', ''a'')" by code_simp
  then have "?r = (Reply 204 [], fst (snd ?r), Some (''u'', ''a''))" by (metis prod.collapse)
  with that show thesis by blast
qed

theorem delete_user_effect_witness:
  "\<exists>s'. handleAdminDeleteUser (\<lambda>_. ''h'') (\<lambda>_. True) 3 ''a'' ''u'' small_site = (Reply 204 [], s', Some (''u'', ''a'')) \<and>
     si_creds s' ''u'' = None \<and> owned (si_db s') ''w''"
proof -
  obtain s' where d: "handleAdminDeleteUser (\<lambda>_. ''h'') (\<lambda>_. True) 3 ''a'' ''u'' small_site = (Reply 204 [], s', Some (''u'', ''a''))"
    by (rule small_site_delete)
  have "members_keyed (si_db small_site)" "has_workspace (si_db small_site) ''w''" "owned (si_db small_site) ''w''"
    by code_simp+
  with delete_user_effect [OF d] d show ?thesis by auto
qed

lemma fresh_session:
  assumes "hex_of bytes \<notin> tn_token ` set (sv_auth (si_db s))"
  shows "has_user (si_db s) u \<Longrightarrow> IssueToken True later (Some bytes) u s = (Some (hex_of bytes),
     s\<lparr>si_db := (si_db s)\<lparr>sv_auth := sv_auth (si_db s) @
        [\<lparr>tn_token = hex_of bytes, tn_user = u, tn_expires = later + tokenTTL, tn_active = None\<rparr>]\<rparr>\<rparr>)"
    and "u \<noteq> [] \<Longrightarrow> auth_Middleware True later (Some (hex_of bytes)) (s\<lparr>si_db := (si_db s)\<lparr>sv_auth := sv_auth (si_db s) @
        [\<lparr>tn_token = hex_of bytes, tn_user = u, tn_expires = later + tokenTTL, tn_active = None\<rparr>]\<rparr>\<rparr>) =
     Inr \<lparr>cx_user = u, cx_token = hex_of bytes, cx_active = []\<rparr>"
proof -
  have "\<not> list_ex (\<lambda>t. tn_token t = hex_of bytes) (sv_auth (si_db s))" using assms by (force simp: list_ex_iff)
  then show "has_user (si_db s) u \<Longrightarrow> IssueToken True later (Some bytes) u s = (Some (hex_of bytes),
     s\<lparr>si_db := (si_db s)\<lparr>sv_auth := sv_auth (si_db s) @
        [\<lparr>tn_token = hex_of bytes, tn_user = u, tn_expires = later + tokenTTL, tn_active = None\<rparr>]\<rparr>\<rparr>)"
    by (simp add: IssueToken_def RandomHex_def on_db_def CreateToken_def)
  have none: "find (\<lambda>t. tn_token t = hex_of bytes \<and> later < tn_expires t) (sv_auth (si_db s)) = None"
    using assms by (force simp: find_None_iff)
  have ap: "find P (xs @ [x]) = (case find P xs of None \<Rightarrow> if P x then Some x else None | Some y \<Rightarrow> Some y)" for P xs and x :: auth_token
    by (induction xs) auto
  show "u \<noteq> [] \<Longrightarrow> auth_Middleware True later (Some (hex_of bytes)) (s\<lparr>si_db := (si_db s)\<lparr>sv_auth := sv_auth (si_db s) @
        [\<lparr>tn_token = hex_of bytes, tn_user = u, tn_expires = later + tokenTTL, tn_active = None\<rparr>]\<rparr>\<rparr>) =
     Inr \<lparr>cx_user = u, cx_token = hex_of bytes, cx_active = []\<rparr>"
    by (simp add: auth_Middleware_def auth_ValidateTokenWithWorkspace_def db_ValidateTokenWithWorkspace_def ap none
        tokenTTL_def coalesce_def)
qed

text \<open>The deletion leaves the identities a user has linked: whoever signs in with one of them afterwards
  is signed in as the deleted user, whose name and picture are filled in again.
\<close>

theorem deleted_user_signs_in_again:
  assumes "handleAdminDeleteUser sha up now actor target s = (Reply 204 [], s1, a)" and "target \<noteq> []"
    and "find (\<lambda>x. oi_provider x = p \<and> oi_subject x = id_subject ident) (si_oidc s) = Some oi" "oi_user oi = target"
    and "known p" "idp p code = Inr ident" "code \<noteq> []" "st \<noteq> []" "id_name ident \<noteq> []"
    and "ResolveWorkspaceSlugFromHost hc host = []"
    and "hex_of bytes \<notin> tn_token ` set (sv_auth (si_db s))"
  shows "\<exists>s2. oidc_HandleCallback parseURL cd hc (\<lambda>_. True) later nsm (Some bytes) i w known idp p
      \<lparr>cr_stateCookie = Some st, cr_nextCookie = None, cr_state = st, cr_error = [], cr_code = code, cr_host = host\<rparr> s1 =
      (Reply 302 (hex_of bytes, False, ''/''), s2) \<and>
    auth_Middleware True later (Some (hex_of bytes)) s2 = Inr \<lparr>cx_user = target, cx_token = hex_of bytes, cx_active = []\<rparr> \<and>
    (si_profiles s target \<noteq> None \<longrightarrow> (\<exists>g. si_profiles s2 target = Some g \<and> pf_name g = Some (id_name ident) \<and>
       pf_anonymized g = Some now))"
proof (rule handleAdminDeleteUser_cases [OF assms(1)])
  fix v u e
  assume c: "db_GetUserByID (up 1) s target = Inr (Some u)" "AnonymizeUser sha (\<lambda>k. up (4 + k)) now s target = (e, s1)"
    "Reply 204 [] = (Reply 204 [] :: (string \<times> string) list reply) \<longleftrightarrow> e = None"
  then obtain email where s1: "s1 = s\<lparr>si_db := (si_db s)
             \<lparr>sv_users := update_rows (\<lambda>p. fst p = target) (\<lambda>p. (fst p, anonymizedPlaceholderEmail target)) (sv_users (si_db s)),
              sv_auth := filter (\<lambda>t. tn_user t \<noteq> target) (sv_auth (si_db s)),
              sv_members := filter (\<lambda>m. me_user m \<noteq> target) (sv_members (si_db s))\<rparr>,
            si_profiles := (si_profiles s)(target := map_option (\<lambda>f. f\<lparr>pf_name := None, pf_picture := None,
              pf_emailHash := Some (hex_of (sha email)), pf_anonymized := Some now\<rparr>) (si_profiles s target)),
            si_creds := (si_creds s)(target := None)\<rparr>" using AnonymizeUser_done by blast
  let ?up = "\<lambda>_ :: nat. True"
  obtain r s2 where r: "resolveUser ?up later i p ident s1 = (r, s2)" by (metis surj_pair)
  have ru: "r = Some (target, False)" "si_db s2 = si_db s1"
    "si_profiles s target \<noteq> None \<Longrightarrow> \<exists>g. si_profiles s2 target = Some g \<and> pf_name g = Some (id_name ident) \<and> pf_anonymized g = Some now"
    using r assms(3,4,9) by (auto simp: resolveUser_def GetOIDCIdentity_def s1 Let_def UpdateOIDCIdentityEmail_def set_profile_def
        UpdateUserPicture_def UpdateUserName_def update_profile_def)
  have "target \<in> fst ` set (sv_users (si_db s))"
    using c(1) by (auto simp: db_GetUserByID_def dest!: find_Some_in split: if_splits)
  then have "target \<in> set (map fst (update_rows (\<lambda>p. fst p = target) (\<lambda>p. (fst p, anonymizedPlaceholderEmail target)) (sv_users (si_db s))))"
    by (subst map_update_rows) simp_all
  then have hu: "has_user (si_db s2) target" unfolding ru(2)
    by (auto simp: s1 has_user_def list_ex_iff)
  have fresh: "hex_of bytes \<notin> tn_token ` set (sv_auth (si_db s2))"
    using assms(11) unfolding ru(2) by (force simp: s1)
  let ?s3 = "s2\<lparr>si_db := (si_db s2)\<lparr>sv_auth := sv_auth (si_db s2) @
     [\<lparr>tn_token = hex_of bytes, tn_user = target, tn_expires = later + tokenTTL, tn_active = None\<rparr>]\<rparr>\<rparr>"
  note i = fresh_session(1) [OF fresh hu] and mw = fresh_session(2) [OF fresh assms(2)]
  have cb: "oidc_HandleCallback parseURL cd hc ?up later nsm (Some bytes) i w known idp p
      \<lparr>cr_stateCookie = Some st, cr_nextCookie = None, cr_state = st, cr_error = [], cr_code = code, cr_host = host\<rparr> s1 =
      (Reply 302 (hex_of bytes, False, ''/''), ?s3)"
    using assms(5-8,10) by (simp add: oidc_HandleCallback_def r ru(1) i Let_def)
  from cb mw ru(3) show ?thesis by (intro exI [of _ ?s3]) auto
qed (simp_all)

theorem deleted_user_signs_in_again_witness:
  "\<exists>s1 s2. handleAdminDeleteUser (\<lambda>_. ''h'') (\<lambda>_. True) 3 ''a'' ''u'' small_site = (Reply 204 [], s1, Some (''u'', ''a'')) \<and>
     auth_Middleware True 4 (Some ''6b'') s2 = Inr \<lparr>cx_user = ''u'', cx_token = ''6b'', cx_active = []\<rparr>"
proof -
  let ?hc = "\<lparr>hc_bases = [], hc_openclaw = [], hc_hermes = [], hc_codexAuth = []\<rparr> :: host_config"
  let ?id = "\<lparr>id_subject = ''7'', id_email = [], id_name = ''N'', id_avatar = []\<rparr>"
  let ?oi = "\<lparr>oi_provider = ''github'', oi_subject = ''7'', oi_user = ''u'', oi_email = None\<rparr>"
  obtain s1 where d: "handleAdminDeleteUser (\<lambda>_. ''h'') (\<lambda>_. True) 3 ''a'' ''u'' small_site = (Reply 204 [], s1, Some (''u'', ''a''))"
    by (rule small_site_delete)
  have o: "find (\<lambda>x. oi_provider x = ''github'' \<and> oi_subject x = id_subject ?id) (si_oidc small_site) = Some ?oi"
    by (simp add: small_site_def)
  have h: "hex_of ''k'' = ''6b''" "ResolveWorkspaceSlugFromHost ?hc ''h'' = []" by code_simp+
  have f: "hex_of ''k'' \<notin> tn_token ` set (sv_auth (si_db small_site))" by (simp add: small_site_def)
  have n: "''u'' \<noteq> []" "''c'' \<noteq> []" "''s'' \<noteq> []" "id_name ?id \<noteq> []" "''k'' \<noteq> []" "oi_user ?oi = ''u''" by simp_all
  note deleted_user_signs_in_again [OF d n(1) o n(6), where parseURL = "\<lambda>_. None" and cd = "[]" and nsm = None and i = "''i''" and w = "''v''" and known = "\<lambda>_. True" and idp = "\<lambda>_ _. Inr ?id" and code = "''c''"
      and st = "''s''" and bytes = "''k''" and hc = ?hc and host = "''h''" and later = 4, OF TrueI refl n(2,3,4) h(2) f]
  then show ?thesis using d h(1) by metis
qed

section \<open>Invites\<close>

lemma handleAcceptInvite_success:
  assumes "handleAcceptInvite sha bhash bmatch up now rnd1 rnd2 i token (Some pw) s = (Reply 200 session, s')"
  obtains iv ws v s1 s2 f s3 u where
    "GetPendingInviteByTokenHash (up 0) now s (hashInviteToken sha token) = Inr (Some iv)"
    "GetWorkspace (up 1) (si_db s) (iv_ws iv) = Inr (Some ws)"
    "inviteUser bhash bmatch (\<lambda>k. up (2 + k)) now rnd1 i (iv_email iv) pw s = (Inr v, s1)"
    "(if IsWorkspaceMember (up 10) (si_db s1) (iv_ws iv) v = Inr True then (None, s1)
      else on_db (\<lambda>db. AddWorkspaceMember (up 11) now db (iv_ws iv) v (iv_role iv)) s1) = (None, s2)"
    "MarkInviteAccepted (up 12) now s2 (iv_id iv) = (f, s3)"
    "LoginWithWorkspace bmatch (\<lambda>k. up (13 + k)) now rnd2 (iv_email iv) pw (w_slug ws) s3 = (Some (session, u), s')"
proof -
  have c: "(token = []) = False" "(Some pw \<in> {None, Some []}) = False"
    using assms by (auto simp: handleAcceptInvite_def split: if_splits)
  note d = assms [unfolded handleAcceptInvite_def c if_False option.sel]
  from d obtain iv where iv: "GetPendingInviteByTokenHash (up 0) now s (hashInviteToken sha token) = Inr (Some iv)"
    by (auto split: sum.splits option.splits)
  note d1 = d [unfolded iv sum.case option.case]
  from d1 obtain ws where ws: "GetWorkspace (up 1) (si_db s) (iv_ws iv) = Inr (Some ws)"
    by (cases "GetWorkspace (up 1) (si_db s) (iv_ws iv)") (auto split: option.splits)
  note d2 = d1 [unfolded ws sum.case option.case]
  obtain v0 s1 where u0: "inviteUser bhash bmatch (\<lambda>k. up (2 + k)) now rnd1 i (iv_email iv) pw s = (v0, s1)" by (metis surj_pair)
  note d3 = d2 [unfolded u0 prod.case]
  from d3 obtain v where v: "v0 = Inr v" by (cases v0) auto
  note d4 = d3 [unfolded v sum.case]
  obtain e s2 where m: "(if IsWorkspaceMember (up 10) (si_db s1) (iv_ws iv) v = Inr True then (None, s1)
      else on_db (\<lambda>db. AddWorkspaceMember (up 11) now db (iv_ws iv) v (iv_role iv)) s1) = (e, s2)" by (metis surj_pair)
  note d5 = d4 [unfolded m prod.case]
  from d5 have e: "e = None" by (cases e) simp_all
  obtain f s3 where k: "MarkInviteAccepted (up 12) now s2 (iv_id iv) = (f, s3)" by (metis surj_pair)
  obtain q s4 where l: "LoginWithWorkspace bmatch (\<lambda>k. up (13 + k)) now rnd2 (iv_email iv) pw (w_slug ws) s3 = (q, s4)"
    by (metis surj_pair)
  from d5 [unfolded e option.case k l prod.case] obtain u where "q = Some (session, u)" "s4 = s'"
    by (cases q) auto
  with that [OF iv ws u0 [unfolded v] m [unfolded e] k] l show thesis by blast
qed

lemma LoginWithWorkspace_password:
  assumes "LoginWithWorkspace bmatch up now rnd email pw slug s = (Some (c, u), s')"
  shows "password_ok bmatch s email pw u"
proof -
  obtain q s1 where l: "auth_Login bmatch up now rnd email pw s = (q, s1)" by (metis surj_pair)
  have "\<exists>c. q = Some (c, u)" using assms
    by (auto simp: LoginWithWorkspace_def l split: option.splits if_splits sum.splits prod.splits bool.splits)
  then show ?thesis using auth_Login_grants [OF l] by blast
qed

definition account_rows :: "site \<Rightarrow> (string \<times> string) set" where
  "account_rows s = set (sv_users (si_db s))"

lemma inviteUser_success:
  assumes "inviteUser bhash bmatch up now rnd i email pw s = (Inr v, s1)"
  shows "sv_members (si_db s1) = sv_members (si_db s) \<and> si_invites s1 = si_invites s \<and>
    (password_ok bmatch s email pw v \<and> same_accounts s s1 \<or>
     (\<forall>w. (w, email) \<notin> account_rows s) \<and> v = i \<and> (\<forall>w. (w, email) \<in> account_rows s1 \<longrightarrow> w = i))"
proof (cases "db_GetUserByEmail (up 0) s email")
  case (Inr x)
  show ?thesis
  proof (cases x)
    case None
    then have n: "\<forall>w. (w, email) \<notin> account_rows s"
      using Inr by (auto simp: db_GetUserByEmail_def find_None_iff account_rows_def split: if_splits)
    obtain ok s2 where g: "auth_Register bhash (\<lambda>k. up (1 + k)) now i email pw s = (ok, s2)" by (metis surj_pair)
    with assms None Inr have "ok" "s1 = s2" "v = i" by (auto simp: inviteUser_def split: bool.splits)
    moreover have "ok \<longrightarrow> sv_members (si_db s2) = sv_members (si_db s) \<and> si_invites s2 = si_invites s \<and>
        account_rows s2 = insert (i, email) (account_rows s)"
      using g by (auto simp: auth_Register_def CreateUser_def CreateUserWithEmail_def insert_user_def account_rows_def
          split: option.splits if_splits prod.splits sum.splits)
    ultimately show ?thesis using n by auto
  next
    case (Some y)
    obtain q s2 where l: "auth_Login bmatch (\<lambda>k. up (5 + k)) now rnd email pw s = (q, s2)" by (metis surj_pair)
    with assms Some Inr obtain c u where q: "q = Some (c, u)" "s1 = s2" "v = us_id y"
      by (auto simp: inviteUser_def split: option.splits)
    have f: "find (\<lambda>p. snd p = email) (sv_users (si_db s)) \<noteq> None" "y = scan_user s (the (find (\<lambda>p. snd p = email) (sv_users (si_db s))))"
      using Inr Some by (auto simp: db_GetUserByEmail_def split: if_splits)
    have r: "u = us_id y \<and> sv_members (si_db s2) = sv_members (si_db s) \<and> si_invites s2 = si_invites s"
      using l q f by (auto simp: auth_Login_def db_GetUserByEmail_def IssueToken_def on_db_def CreateToken_def
          split: option.splits if_splits sum.splits prod.splits)
    with auth_Login_grants [OF l] q show ?thesis by auto
  qed
qed (use assms in \<open>simp add: inviteUser_def\<close>)

lemma LoginWithWorkspace_rest:
  assumes "LoginWithWorkspace bmatch up now rnd email pw slug s = (r, s')"
  shows "sv_members (si_db s') = sv_members (si_db s) \<and> si_invites s' = si_invites s"
proof -
  have t: "sv_members (si_db (snd (on_db f t))) = sv_members (si_db t) \<and> si_invites (snd (on_db f t)) = si_invites t"
    if "\<And>db. sv_members (snd (f db)) = sv_members db" for f :: "srv_db \<Rightarrow> 'e \<times> srv_db" and t
    using that by (simp add: on_db_def split: prod.split) (metis snd_conv)
  have i: "sv_members (si_db (snd (InvalidateToken q c t))) = sv_members (si_db t) \<and> si_invites (snd (InvalidateToken q c t)) = si_invites t" for q c t
    unfolding InvalidateToken_def by (rule t) (simp add: DeleteToken_def)
  have a: "sv_members (si_db (snd (SetActiveWorkspace q now c u w t))) = sv_members (si_db t) \<and>
      si_invites (snd (SetActiveWorkspace q now c u w t)) = si_invites t" for q c u w t
    by (auto simp: SetActiveWorkspace_def on_db_def SetTokenActiveWorkspace_def Let_def split: option.split sum.split prod.split)
  have l: "sv_members (si_db (snd (auth_Login bmatch up now rnd email pw s))) = sv_members (si_db s) \<and>
      si_invites (snd (auth_Login bmatch up now rnd email pw s)) = si_invites s"
    by (auto simp: auth_Login_def IssueToken_def on_db_def CreateToken_def split: option.split sum.split prod.split)
  obtain q s1 where l1: "auth_Login bmatch up now rnd email pw s = (q, s1)" by (metis surj_pair)
  show ?thesis
  proof (cases "s' = s1 \<or> s' = snd (InvalidateToken (up 6) (fst (the q)) s1)")
    case True
    then show ?thesis using i l l1 by auto
  next
    case False
    with assms have "\<exists>c u w x s2. q = Some (c, u) \<and> SetActiveWorkspace (\<lambda>k. up (4 + k)) now c u w s1 = (x, s2) \<and>
        (s' = s2 \<or> s' = snd (InvalidateToken (up 6) c s2))"
      by (auto simp: LoginWithWorkspace_def l1 Let_def split: option.splits if_splits prod.splits sum.splits bool.splits)
    then show ?thesis using a i l l1 by (metis snd_conv)
  qed
qed

lemma invited_password:
  assumes us: "inviteUser bhash bmatch up now rnd i email pw s = (Inr v, s1)" and acc: "same_accounts s1 s'"
    and pu: "password_ok bmatch s' email pw u"
  shows "password_ok bmatch s' email pw v"
proof (cases "password_ok bmatch s email pw v \<and> same_accounts s s1")
  case True
  then show ?thesis using acc same_accounts_password same_accounts_trans by metis
next
  case False
  then have "\<forall>w. (w, email) \<in> account_rows s1 \<longrightarrow> w = v" using inviteUser_success [OF us] by auto
  moreover have "(u, email) \<in> account_rows s1" using pu acc by (simp add: password_ok_def account_rows_def same_accounts_def)
  ultimately show ?thesis using pu by blast
qed

text \<open>C32: C0: An invite that is accepted was pending, had not expired, had the hash of the token presented and
  belonged to an existing workspace. The one person it lets in is the user of the invited address, whose
  password was given; an account that existed before is not taken over. That user is a member afterwards,
  with the role of the invite unless already a member, and unless the database failed at the last moment
  the invite is used up.
\<close>

theorem invite_acceptance:
  assumes "handleAcceptInvite sha bhash bmatch up now rnd1 rnd2 i token (Some pw) s = (Reply 200 session, s')"
  shows "\<exists>iv u. iv \<in> set (si_invites s) \<and> iv_hash iv = hashInviteToken sha token \<and> iv_accepted iv = None \<and>
    now < iv_expires iv \<and> (\<exists>r \<in> set (sv_workspaces (si_db s)). ws_id r = iv_ws iv \<and> ws_deleted r = None) \<and>
    password_ok bmatch s' (iv_email iv) pw u \<and>
    ((\<exists>w. (w, iv_email iv) \<in> account_rows s) \<longrightarrow> password_ok bmatch s (iv_email iv) pw u) \<and>
    (\<exists>m \<in> set (sv_members (si_db s')). me_ws m = iv_ws iv \<and> me_user m = u) \<and>
    set (sv_members (si_db s')) \<subseteq> insert \<lparr>me_ws = iv_ws iv, me_user = u, me_role = iv_role iv, me_created = now\<rparr>
      (set (sv_members (si_db s))) \<and>
    (up 12 \<longrightarrow> (\<forall>x \<in> set (si_invites s'). iv_id x = iv_id iv \<longrightarrow> iv_accepted x \<noteq> None))"
proof -
  from handleAcceptInvite_success [OF assms] obtain iv ws v s1 s2 f s3 u where
    iv: "GetPendingInviteByTokenHash (up 0) now s (hashInviteToken sha token) = Inr (Some iv)"
    and ws: "GetWorkspace (up 1) (si_db s) (iv_ws iv) = Inr (Some ws)"
    and us: "inviteUser bhash bmatch (\<lambda>k. up (2 + k)) now rnd1 i (iv_email iv) pw s = (Inr v, s1)"
    and mb: "(if IsWorkspaceMember (up 10) (si_db s1) (iv_ws iv) v = Inr True then (None, s1)
      else on_db (\<lambda>db. AddWorkspaceMember (up 11) now db (iv_ws iv) v (iv_role iv)) s1) = (None, s2)"
    and mk: "MarkInviteAccepted (up 12) now s2 (iv_id iv) = (f, s3)"
    and lg: "LoginWithWorkspace bmatch (\<lambda>k. up (13 + k)) now rnd2 (iv_email iv) pw (w_slug ws) s3 = (Some (session, u), s')" .
  have i: "iv \<in> set (si_invites s)" "iv_hash iv = hashInviteToken sha token" "iv_accepted iv = None" "now < iv_expires iv"
    using iv by (auto simp: GetPendingInviteByTokenHash_def dest!: find_Some_in split: if_splits)
  have w: "\<exists>r \<in> set (sv_workspaces (si_db s)). ws_id r = iv_ws iv \<and> ws_deleted r = None"
    using ws by (auto simp: GetWorkspace_def dest!: find_Some_in split: if_splits)
  note U = inviteUser_success [OF us]
  have a12: "same_accounts s1 s2" and a23: "same_accounts s2 s3" and a34: "same_accounts s3 s'"
    using mb AddMember_live MarkInvite_live [OF mk] LoginWithWorkspace_grants [OF lg] by (fastforce split: if_splits)+
  have acc: "same_accounts s1 s'" "same_accounts s1 s3" using a12 a23 a34 same_accounts_trans by blast+
  have pu: "password_ok bmatch s' (iv_email iv) pw u"
    using LoginWithWorkspace_password [OF lg] same_accounts_password [OF a34] by simp
  have pv: "password_ok bmatch s' (iv_email iv) pw v" by (rule invited_password [OF us acc(1) pu])
  have m12: "(\<exists>m \<in> set (sv_members (si_db s2)). me_ws m = iv_ws iv \<and> me_user m = v) \<and>
    set (sv_members (si_db s2)) \<subseteq> insert \<lparr>me_ws = iv_ws iv, me_user = v, me_role = iv_role iv, me_created = now\<rparr>
      (set (sv_members (si_db s1))) \<and> si_invites s2 = si_invites s1"
    using mb by (auto simp: IsWorkspaceMember_def on_db_def AddWorkspaceMember_def list_ex_iff split: if_splits prod.splits)
  have m3: "sv_members (si_db s3) = sv_members (si_db s2)"
    "up 12 \<longrightarrow> (\<forall>x \<in> set (si_invites s3). iv_id x = iv_id iv \<longrightarrow> iv_accepted x \<noteq> None)"
    using mk by (auto simp: MarkInviteAccepted_def Let_def set_update_rows list_ex_iff split: if_splits)
  have m4: "sv_members (si_db s') = sv_members (si_db s3)" "si_invites s' = si_invites s3"
    using LoginWithWorkspace_rest [OF lg] by simp_all
  show ?thesis
  proof (intro exI [of _ iv] exI [of _ v] conjI)
    show "\<exists>m \<in> set (sv_members (si_db s')). me_ws m = iv_ws iv \<and> me_user m = v" using m12 m3 m4 by simp
    show "set (sv_members (si_db s')) \<subseteq> insert \<lparr>me_ws = iv_ws iv, me_user = v, me_role = iv_role iv, me_created = now\<rparr>
      (set (sv_members (si_db s)))" using m12 m3 m4 U by simp
    show "up 12 \<longrightarrow> (\<forall>x \<in> set (si_invites s'). iv_id x = iv_id iv \<longrightarrow> iv_accepted x \<noteq> None)" using m3 m4 by simp
    show "(\<exists>w. (w, iv_email iv) \<in> account_rows s) \<longrightarrow> password_ok bmatch s (iv_email iv) pw v" using U by blast
  qed (fact i w pv)+
qed

theorem invite_acceptance_witness:
  "\<exists>s' (iv :: Invite) u. fst (handleAcceptInvite (\<lambda>_. ''h'') Some (=) (\<lambda>_. True) 5 (Some ''k'') (Some ''l'') ''j'' ''t'' (Some ''pw'')
      (small_site\<lparr>si_invites := [\<lparr>iv_id = ''i'', iv_ws = ''w'', iv_email = ''new@x'', iv_role = ''developer'', iv_hash = ''68'',
         iv_expires = 9, iv_accepted = None, iv_by = ''a'', iv_created = 0\<rparr>]\<rparr>)) = Reply 200 ''6c'' \<and>
     password_ok (=) s' (iv_email iv) ''pw'' u \<and> (\<exists>m \<in> set (sv_members (si_db s')). me_ws m = ''w'' \<and> me_user m = u)"
proof -
  let ?s = "small_site\<lparr>si_invites := [\<lparr>iv_id = ''i'', iv_ws = ''w'', iv_email = ''new@x'', iv_role = ''developer'', iv_hash = ''68'',
         iv_expires = 9, iv_accepted = None, iv_by = ''a'', iv_created = 0\<rparr>]\<rparr>"
  let ?r = "handleAcceptInvite (\<lambda>_. ''h'') Some (=) (\<lambda>_. True) 5 (Some ''k'') (Some ''l'') ''j'' ''t'' (Some ''pw'') ?s"
  have e: "fst ?r = Reply 200 ''6c''" by code_simp
  obtain s' where s': "?r = (Reply 200 ''6c'', s')" by (metis e prod.collapse)
  from invite_acceptance [OF s'] show ?thesis
  proof (elim exE conjE)
    fix iv u
    assume iv: "iv \<in> set (si_invites ?s)" and p: "password_ok (=) s' (iv_email iv) ''pw'' u"
      and m: "\<exists>m \<in> set (sv_members (si_db s')). me_ws m = iv_ws iv \<and> me_user m = u"
    from iv have "iv_ws iv = ''w''" by simp
    note m = m [unfolded this]
    show ?thesis by (intro exI [of _ s'] exI [of _ iv] exI [of _ u] conjI) (fact e p m)+
  qed
qed

end
