(* ===== verification/Memberships.thy ===== *)
theory Memberships
  imports Tenancy Account_Facts
begin

text \<open>
  Who changes the members of a workspace.  Besides the requests of \<open>Tenancy\<close> the members table is written when an
  invitation is accepted, when an account is made (its default workspace) and when a user is deleted; these are all
  writers of \<open>workspace_members\<close> in the server.
\<close>

section \<open>What leaves the members alone\<close>

abbreviation members :: "site \<Rightarrow> WorkspaceMember list" where
  "members s \<equiv> sv_members (si_db s)"

lemma account_members [simp]:
  "members (snd (UpdateUserRole u s i r)) = members s"
  "members (snd (UpdateOIDCIdentityEmail u s p j m)) = members s"
  "members (snd (IssueToken u now rnd i s)) = members s"
  "members (snd (InvalidateToken u tok s)) = members s"
  "members (snd (MarkInviteAccepted u now s i)) = members s"
  "members (snd (CreateUserWithEmail ups now s i h m)) = members s"
  by (auto simp: UpdateUserRole_def update_profile_def UpdateOIDCIdentityEmail_def IssueToken_def InvalidateToken_def
      on_db_def CreateToken_def DeleteToken_def MarkInviteAccepted_def CreateUserWithEmail_def insert_user_def Let_def
      prod.case_eq_if split: option.split sum.split)

lemma SetActive_members [simp]: "members (snd (SetActiveWorkspace ups now tok u w s)) = members s"
  by (auto simp: SetActiveWorkspace_def on_db_def prod.case_eq_if SetTokenActiveWorkspace_def Let_def
      split: option.split sum.split)

lemma auth_Register_members [simp]: "members (snd (auth_Register bhash up now i email pw s)) = members s"
  by (simp add: auth_Register_def CreateUser_def prod.case_eq_if split: option.split)

lemma auth_Login_members [simp]: "members (snd (auth_Login bmatch up now rnd email pw s)) = members s"
  by (simp add: auth_Login_def prod.case_eq_if split: option.split sum.split)

lemma LoginWithWorkspace_members [simp]: "members (snd (LoginWithWorkspace bmatch up now rnd email pw slug s)) = members s"
  by (simp add: LoginWithWorkspace_def prod.case_eq_if split: option.split sum.split bool.split)

lemma inviteUser_members [simp]: "members (snd (inviteUser bhash bmatch up now rnd i email pw s)) = members s"
  by (simp add: inviteUser_def prod.case_eq_if split: option.split sum.split bool.split)

lemma resolveUser_members [simp]: "members (snd (resolveUser up now i p ident s)) = members s"
  by (simp add: resolveUser_def Let_def prod.case_eq_if split: option.split sum.split)

lemma resolveUser_new:
  "resolveUser up now i p ident s = (Some (u, True), s') \<Longrightarrow> u = i"
  by (auto simp: resolveUser_def Let_def split: option.splits sum.splits prod.splits if_splits)

lemma resolveUser_workspaces: "sv_workspaces (si_db (snd (resolveUser up now i p ident s))) = sv_workspaces (si_db s)"
  by (simp add: resolveUser_def Let_def prod.case_eq_if CreateUserWithEmail_def insert_user_def UpdateUserRole_def
      UpdateOIDCIdentityEmail_def split: option.split sum.split)

section \<open>Default workspaces\<close>

text \<open>The default workspace gives a role to its user only, and only the role of an owner.\<close>

lemma default_role:
  assumes unused: "unused_workspace db w'"
    and change: "role_of (createDefaultWorkspace up now nsm w' u db) w v \<noteq> role_of db w v"
  shows "w = w' \<and> v = u \<and> role_of (createDefaultWorkspace up now nsm w' u db) w v = ''owner''"
proof -
  obtain e db1 where c: "CreateWorkspace (\<lambda>k. up (100 + k)) now db w' ''Default workspace'' = (e, db1)" by (metis surj_pair)
  have r1: "role_of db1 x y = role_of db x y" for x y
    using members_create(2) [of "\<lambda>k. up (100 + k)" now db w' "''Default workspace''"] c by (intro role_of_cong) simp
  obtain f db2 where m: "AddWorkspaceMember (up 11) now db1 w' u ''owner'' = (f, db2)" by (metis surj_pair)
  note r2 = role_add(1) [OF m]
  have del: "role_of (snd (DeleteWorkspace q db2 w')) w v = role_of db w v" if "f \<noteq> None" for q
  proof (cases "w = w'")
    case True
    then have "role_of db2 w' v = []" using r1 r2 unused_role [OF unused] that by simp
    from role_delete_empty [OF this, of q w] r1 r2 that show ?thesis by simp
  next
    case False
    from role_delete_workspace [OF False, of q db2 v] r1 r2 that show ?thesis by simp
  qed
  have ns: "role_of (snd (SetWorkspaceNamespace q now db2 w' n)) w v = role_of db2 w v" for q n
    by (rule role_of_cong) simp
  have e: "e = None" using change r1 by (cases e) (simp_all add: createDefaultWorkspace_def c)
  have f: "f = None" using change del by (cases f) (simp_all add: createDefaultWorkspace_def c e m)
  have "role_of (createDefaultWorkspace up now nsm w' u db) w v = role_of db2 w v"
    using ns by (simp add: createDefaultWorkspace_def c e m f split: option.split)
  with change r1 [of w v] r2 [of w v] f show ?thesis by (auto split: if_splits)
qed

section \<open>Invitations\<close>

text \<open>The account of the invited address: the one that has it, or the new one.\<close>

definition invited_account :: "site \<Rightarrow> string \<Rightarrow> string \<Rightarrow> string \<Rightarrow> bool" where
  "invited_account s email i v \<longleftrightarrow> (v, email) \<in> account_rows s \<or> (\<forall>w. (w, email) \<notin> account_rows s) \<and> v = i"

lemma scan_user_id [simp]: "us_id (scan_user s p) = fst p"
  by (simp add: scan_user_def split: option.split)

lemma inviteUser_account:
  assumes "inviteUser bhash bmatch up now rnd i email pw s = (Inr v, s1)"
  shows "invited_account s email i v"
proof (cases "db_GetUserByEmail (up 0) s email")
  case (Inr x)
  show ?thesis
  proof (cases x)
    case None
    with assms Inr have "v = i" by (auto simp: inviteUser_def prod.case_eq_if split: bool.splits)
    with Inr None show ?thesis
      by (auto simp: invited_account_def db_GetUserByEmail_def find_None_iff account_rows_def split: if_splits)
  next
    case (Some u)
    with assms Inr have "v = us_id u" by (auto simp: inviteUser_def prod.case_eq_if split: option.splits)
    with Inr Some show ?thesis
      by (auto simp: invited_account_def db_GetUserByEmail_def account_rows_def split: if_splits dest!: find_Some_in)
  qed
qed (use assms in \<open>simp add: inviteUser_def\<close>)

lemma accept_invite_members:
  assumes "handleAcceptInvite sha bhash bmatch up now rnd1 rnd2 i token body s = (r, s')"
  obtains "members s' = members s"
  | iv v e db db' u t where "GetPendingInviteByTokenHash (up 0) now s (hashInviteToken sha token) = Inr (Some iv)"
      "invited_account s (iv_email iv) i v" "sv_members db = members s"
      "AddWorkspaceMember u t db (iv_ws iv) v (iv_role iv) = (e, db')" "members s' = sv_members db'"
proof (cases "\<exists>iv ws. token \<noteq> [] \<and> body \<notin> {None, Some []} \<and>
    GetPendingInviteByTokenHash (up 0) now s (hashInviteToken sha token) = Inr (Some iv) \<and>
    GetWorkspace (up 1) (si_db s) (iv_ws iv) = Inr (Some ws)")
  case False
  then have "s' = s" using assms by (auto simp: handleAcceptInvite_def split: if_splits sum.splits option.splits)
  with that(1) show thesis by simp
next
  case True
  then obtain iv ws where c: "(token = []) = False" "(body \<in> {None, Some []}) = False"
    and iv: "GetPendingInviteByTokenHash (up 0) now s (hashInviteToken sha token) = Inr (Some iv)"
    and ws: "GetWorkspace (up 1) (si_db s) (iv_ws iv) = Inr (Some ws)" by blast
  note d = assms [unfolded handleAcceptInvite_def c if_False iv ws sum.case option.case]
  obtain u s1 where u: "inviteUser bhash bmatch (\<lambda>k. up (2 + k)) now rnd1 i (iv_email iv) (the body) s = (u, s1)"
    by (metis surj_pair)
  have m1: "members s1 = members s"
    using inviteUser_members [of bhash bmatch "\<lambda>k. up (2 + k)" now rnd1 i "iv_email iv" "the body" s]
    by (simp only: u snd_conv)
  note d1 = d [unfolded u prod.case]
  show thesis
  proof (cases u)
    case (Inl x) with d1 m1 that(1) show thesis by (cases x) auto
  next
    case (Inr v)
    obtain e s2 where m: "(if IsWorkspaceMember (up 10) (si_db s1) (iv_ws iv) v = Inr True then (None, s1)
        else on_db (\<lambda>db. AddWorkspaceMember (up 11) now db (iv_ws iv) v (iv_role iv)) s1) = (e, s2)" by (metis surj_pair)
    have s': "members s' = members s2"
      using d1 [unfolded Inr sum.case m prod.case] by (auto simp: prod.case_eq_if split: option.splits)
    show thesis
    proof (cases "IsWorkspaceMember (up 10) (si_db s1) (iv_ws iv) v = Inr True")
      case True with m s' m1 that(1) show thesis by simp
    next
      case False
      obtain x db' where a: "AddWorkspaceMember (up 11) now (si_db s1) (iv_ws iv) v (iv_role iv) = (x, db')" by (metis surj_pair)
      with False m have "members s2 = sv_members db'" by (auto simp: on_db_def)
      with that(2) [OF iv inviteUser_account [OF u [unfolded Inr]] m1 a] s' show thesis by simp
    qed
  qed
qed

section \<open>Every change of a role\<close>

text \<open>\<open>Invited\<close> has the token, the time and the identifier for a new account, \<open>SignUp\<close> the new account,
  \<open>Deletion\<close> who asks and who is deleted.\<close>

datatype member_event = Request string | Invited string time string | SignUp string | Deletion string string | Other

inductive member_step :: "(string \<Rightarrow> string) \<Rightarrow> site \<Rightarrow> member_event \<Rightarrow> site \<Rightarrow> bool" for sha where
  mem_request: "tenant_step user (si_db s) db' \<Longrightarrow> member_step sha s (Request user) (s\<lparr>si_db := db'\<rparr>)"
| mem_invite: "handleAcceptInvite sha bhash bmatch up now rnd1 rnd2 i token body s = (r, s') \<Longrightarrow>
    member_step sha s (Invited token now i) s'"
| mem_register: "unused_workspace (si_db s) w \<Longrightarrow> handleRegister bhash up now nsm i w body s = (r, s') \<Longrightarrow>
    member_step sha s (SignUp i) s'"
| mem_provider: "unused_workspace (si_db s) w \<Longrightarrow>
    oidc_HandleCallback parseURL cd hc up now nsm rnd i w known idp p q s = (r, s') \<Longrightarrow> member_step sha s (SignUp i) s'"
| mem_delete: "handleAdminDeleteUser sha up now actor target s = (r, s', x) \<Longrightarrow>
    member_step sha s (Deletion actor target) s'"
| mem_other: "members s' = members s \<Longrightarrow> member_step sha s Other s'"

text \<open>A role that exists, or comes into being, changes by one of them only.\<close>

lemma register_role:
  assumes unused: "unused_workspace (si_db s) w'" and r: "handleRegister bhash up now nsm i w' body s = (r, s')"
    and change: "role_of (si_db s') w v \<noteq> role_of (si_db s) w v"
  shows "w = w' \<and> v = i \<and> role_of (si_db s') w v = ''owner''"
proof -
  have "s' \<noteq> s" using change by auto
  then obtain email pw where b: "body = Some (email, pw)" "(email = [] \<or> pw = []) = False"
    "db_GetUserByEmail (up 0) s email = Inr None"
    using r by (auto simp: handleRegister_def split: option.splits if_splits sum.splits)
  obtain ok s1 where g: "auth_Register bhash (\<lambda>k. up (1 + k)) now i email pw s = (ok, s1)" by (metis surj_pair)
  have m1: "members s1 = members s"
    using auth_Register_members [of bhash "\<lambda>k. up (1 + k)" now i email pw s] by (simp only: g snd_conv)
  have w1: "sv_workspaces (si_db s1) = sv_workspaces (si_db s)"
    using g by (auto simp: auth_Register_def CreateUser_def CreateUserWithEmail_def insert_user_def
        split: option.splits if_splits prod.splits sum.splits)
  have same: "role_of (si_db s1) x y = role_of (si_db s) x y" for x y using m1 by (rule role_of_cong)
  have unused1: "unused_workspace (si_db s1) w'" using unused m1 w1 by (simp add: unused_workspace_def has_workspace_def)
  define s2 where "s2 = (if CountUsers (up 5) s1 = Inr 1 then snd (UpdateUserRole (up 6) s1 i ''admin'') else s1)"
  have u: "si_db s2 = si_db s1" by (simp add: s2_def UpdateUserRole_def)
  have "(r, s') = (if ok
      then (Reply 201 (i, email), s2\<lparr>si_db := createDefaultWorkspace up now nsm w' i (si_db s2)\<rparr>)
      else (ErrorReply 500 ''failed to create user'', s1))"
    unfolding r [symmetric] handleRegister_def b(1) option.case prod.case b(2,3) if_False sum.case g s2_def Let_def
    by (cases ok) (simp_all only: bool.case if_True if_False)
  then have "si_db s' = si_db s1 \<or> si_db s' = createDefaultWorkspace up now nsm w' i (si_db s1)"
    by (cases ok) (simp_all add: u)
  with change same have "si_db s' = createDefaultWorkspace up now nsm w' i (si_db s1)" by auto
  with default_role [OF unused1, of up now nsm i w v] change same show ?thesis by metis
qed

lemma provider_role:
  assumes unused: "unused_workspace (si_db s) w'"
    and r: "oidc_HandleCallback parseURL cd hc up now nsm rnd i w' known idp p q s = (r, s')"
    and change: "role_of (si_db s') w v \<noteq> role_of (si_db s) w v"
  shows "w = w' \<and> v = i \<and> role_of (si_db s') w v = ''owner''"
proof -
  have "s' \<noteq> s" using change by auto
  then obtain ident where i: "idp p (cr_code q) = Inr ident"
    using r by (auto simp: oidc_HandleCallback_def split: if_splits sum.splits bool.splits)
  obtain x s1 where u: "resolveUser up now i p ident s = (x, s1)" by (metis surj_pair)
  have m1: "members s1 = members s" using resolveUser_members [of up now i p ident s] by (simp only: u snd_conv)
  have w1: "sv_workspaces (si_db s1) = sv_workspaces (si_db s)"
    using resolveUser_workspaces [of up now i p ident s] by (simp only: u snd_conv)
  have same: "role_of (si_db s1) y z = role_of (si_db s) y z" for y z using m1 by (rule role_of_cong)
  have unused1: "unused_workspace (si_db s1) w'" using unused m1 w1 by (simp add: unused_workspace_def has_workspace_def)
  note h = oidc_HandleCallback_def [of parseURL cd hc up now nsm rnd i w' known idp p q s, unfolded i sum.case u prod.case]
  have "x \<noteq> None"
  proof
    assume "x = None"
    then have "members (snd (oidc_HandleCallback parseURL cd hc up now nsm rnd i w' known idp p q s)) = members s"
      unfolding h by (simp add: m1)
    then have "members s' = members s" by (simp only: r snd_conv)
    then have "role_of (si_db s') w v = role_of (si_db s) w v" by (rule role_of_cong)
    with change show False by simp
  qed
  then obtain user new where x: "x = Some (user, new)" by auto
  define s2 where "s2 = (if new then s1\<lparr>si_db := createDefaultWorkspace (\<lambda>k. up (22 + k)) now nsm w' user (si_db s1)\<rparr> else s1)"
  have "members (snd (oidc_HandleCallback parseURL cd hc up now nsm rnd i w' known idp p q s)) \<in> {members s, members s2}"
    unfolding h x option.case prod.case s2_def [symmetric] Let_def
    by (simp add: prod.case_eq_if split: option.split sum.split bool.split)
  then have s2: "members s' = members s \<or> members s' = members s2" by (simp add: r)
  have "members s' \<noteq> members s" using change role_of_cong [of "si_db s'" "si_db s"] by metis
  with s2 m1 have n: "x = Some (user, True)"
    and "members s' = sv_members (createDefaultWorkspace (\<lambda>k. up (22 + k)) now nsm w' user (si_db s1))"
    by (auto simp: s2_def x split: if_splits)
  with resolveUser_new [OF u [unfolded n]]
  have m': "members s' = sv_members (createDefaultWorkspace (\<lambda>k. up (22 + k)) now nsm w' i (si_db s1))" by simp
  have "role_of (si_db s') y z = role_of (createDefaultWorkspace (\<lambda>k. up (22 + k)) now nsm w' i (si_db s1)) y z" for y z
    using m' by (rule role_of_cong)
  with default_role [OF unused1, of "\<lambda>k. up (22 + k)" now nsm i w v] change same show ?thesis by metis
qed

lemma delete_role:
  assumes r: "handleAdminDeleteUser sha up now actor target s = (r, s', x)"
    and change: "role_of (si_db s') w v \<noteq> role_of (si_db s) w v"
  shows "v = target \<and> role_of (si_db s') w v = [] \<and>
    (\<exists>u. db_GetUserByID True s actor = Inr (Some u) \<and> us_role u = ''admin'')"
proof (rule handleAdminDeleteUser_cases [OF r])
  assume "s' = s" with change show ?thesis by simp
next
  fix a u e
  assume a: "db_GetUserByID (up 0) s actor = Inr (Some a)" "us_role a = ''admin''"
    and an: "AnonymizeUser sha (\<lambda>k. up (4 + k)) now s target = (e, s')"
  have "e = None"
  proof (rule ccontr)
    assume "e \<noteq> None"
    then have "s' = s" using an by (auto simp: AnonymizeUser_def split: option.splits if_splits prod.splits)
    with change show False by simp
  qed
  with AnonymizeUser_done an obtain em where "members s' = filter (\<lambda>m. me_user m \<noteq> target) (members s)" by fastforce
  then have m: "find (\<lambda>m. me_ws m = w \<and> me_user m = v) (members s') =
      find (\<lambda>m. me_user m \<noteq> target \<and> me_ws m = w \<and> me_user m = v) (members s)"
    by (simp add: find_filter_and)
  have "v = target"
  proof (rule ccontr)
    assume "v \<noteq> target"
    then have "find (\<lambda>m. me_user m \<noteq> target \<and> me_ws m = w \<and> me_user m = v) (members s) =
        find (\<lambda>m. me_ws m = w \<and> me_user m = v) (members s)" by (intro find_ext) auto
    with m change show False by (simp add: role_of_def)
  qed
  moreover from this m have "role_of (si_db s') w v = []"
    by (auto simp: role_of_def find_None_iff split: option.split dest!: find_Some_in)
  moreover have "db_GetUserByID True s actor = Inr (Some a)" using a(1) by (auto simp: db_GetUserByID_def split: if_splits)
  ultimately show ?thesis using a(2) by blast
qed

lemma invite_role:
  assumes r: "handleAcceptInvite sha bhash bmatch up now rnd1 rnd2 i token body s = (r, s')"
    and change: "role_of (si_db s') w v \<noteq> role_of (si_db s) w v"
  shows "role_of (si_db s) w v = [] \<and>
    (\<exists>iv. GetPendingInviteByTokenHash True now s (hashInviteToken sha token) = Inr (Some iv) \<and> iv_ws iv = w \<and>
       role_of (si_db s') w v = iv_role iv \<and> invited_account s (iv_email iv) i v)"
proof (rule accept_invite_members [OF r])
  assume "members s' = members s"
  then have "role_of (si_db s') w v = role_of (si_db s) w v" by (rule role_of_cong)
  with change show ?thesis by simp
next
  fix iv v' e db db' u t
  assume iv: "GetPendingInviteByTokenHash (up 0) now s (hashInviteToken sha token) = Inr (Some iv)"
    and acc: "invited_account s (iv_email iv) i v'" and m: "sv_members db = members s"
    and a: "AddWorkspaceMember u t db (iv_ws iv) v' (iv_role iv) = (e, db')" and m': "members s' = sv_members db'"
  have o: "role_of db x y = role_of (si_db s) x y" for x y using m by (rule role_of_cong)
  have n: "role_of (si_db s') x y = role_of db' x y" for x y using m' by (rule role_of_cong)
  have c: "e = None \<and> w = iv_ws iv \<and> v = v'" "role_of (si_db s') w v = iv_role iv"
    using change role_add(1) [OF a, of w v] o n by (auto split: if_splits)
  with role_add(2) [OF a] o have "role_of (si_db s) w v = []" by simp
  moreover have "GetPendingInviteByTokenHash True now s (hashInviteToken sha token) = Inr (Some iv)"
    using iv by (auto simp: GetPendingInviteByTokenHash_def split: if_splits)
  ultimately show ?thesis using c acc by blast
qed

text \<open>C20: Memberships are the owner's.  Whenever somebody's role in a workspace changes, by whatever request: a role that
  exists is changed by an owner of the workspace, or taken away when an administrator deletes the user; and somebody
  new gets a role from an owner or a maintainer, as the creator of a workspace that did not exist, as the owner of the
  default workspace of the new account, or by accepting a pending invitation to this workspace, with the role that it
  names, for the account of the invited address.
\<close>

theorem membership_guard:
  assumes "member_step sha s e s'" and "role_of (si_db s') w v \<noteq> role_of (si_db s) w v"
  shows "case e of
      Request user \<Rightarrow> role_of (si_db s) w user = ''owner'' \<or>
        (role_of (si_db s) w v = [] \<and>
           (role_of (si_db s) w user = ''maintainer'' \<or> (unused_workspace (si_db s) w \<and> v = user)))
    | Invited token now i \<Rightarrow> role_of (si_db s) w v = [] \<and>
        (\<exists>iv. GetPendingInviteByTokenHash True now s (hashInviteToken sha token) = Inr (Some iv) \<and> iv_ws iv = w \<and>
           role_of (si_db s') w v = iv_role iv \<and> invited_account s (iv_email iv) i v)
    | SignUp i \<Rightarrow> unused_workspace (si_db s) w \<and> v = i \<and> role_of (si_db s') w v = ''owner''
    | Deletion actor target \<Rightarrow> v = target \<and> role_of (si_db s') w v = [] \<and>
        (\<exists>u. db_GetUserByID True s actor = Inr (Some u) \<and> us_role u = ''admin'')
    | Other \<Rightarrow> False"
  using assms
proof (induction rule: member_step.induct)
  case (mem_request user s db')
  from tenant_step_role [OF mem_request(1)] mem_request(2) show ?case by simp
next
  case (mem_invite bhash bmatch up now rnd1 rnd2 i token body s r s')
  from invite_role [OF mem_invite] show ?case by simp
next
  case (mem_register s w' bhash up now nsm i body r s')
  from register_role [OF mem_register] mem_register(1) show ?case unfolding member_event.case by metis
next
  case (mem_provider s w' parseURL cd hc up now nsm rnd i known idp p q r s')
  from provider_role [OF mem_provider] mem_provider(1) show ?case unfolding member_event.case by metis
next
  case (mem_delete up now actor target s r s' x)
  from delete_role [OF mem_delete] show ?case unfolding member_event.case .
next
  case (mem_other s' s)
  from role_of_cong [OF mem_other(1), of w v] mem_other(2) show ?case by simp
qed

section \<open>Two changes\<close>

text \<open>The maintainer of Ann's workspace adds somebody; and an invited user joins the small site.\<close>

definition tenant_site :: site where
  "tenant_site = small_site\<lparr>si_db := tdb\<rparr>"

definition invited_site :: site where
  "invited_site = small_site\<lparr>si_invites := [\<lparr>iv_id = ''i'', iv_ws = ''w'', iv_email = ''new@x'', iv_role = ''developer'',
     iv_hash = ''68'', iv_expires = 9, iv_accepted = None, iv_by = ''a'', iv_created = 0\<rparr>]\<rparr>"

definition joined_site :: site where
  "joined_site = snd (handleAcceptInvite (\<lambda>_. ''h'') Some (=) (\<lambda>_. True) 5 (Some ''k'') (Some ''l'') ''j'' ''t''
     (Some ''pw'') invited_site)"

lemma joined_roles: "role_of (si_db joined_site) ''w'' ''j'' = ''developer''" "role_of (si_db invited_site) ''w'' ''j'' = []"
  by code_simp+

theorem membership_guard_witness:
  "(\<exists>db'. tenant_step ''bob'' tdb db' \<and> role_of db' ''w'' ''cat'' \<noteq> role_of tdb ''w'' ''cat'' \<and>
     role_of tdb ''w'' ''bob'' \<in> {''owner'', ''maintainer''}) \<and>
   (\<exists>iv. GetPendingInviteByTokenHash True 5 invited_site (hashInviteToken (\<lambda>_. ''h'') ''t'') = Inr (Some iv) \<and>
     iv_ws iv = ''w'' \<and> iv_role iv = ''developer'')"
proof -
  let ?db = "snd (handleAddMember (\<lambda>_. True) 5 ''bob'' ''w'' (Some (''c@x'', [])) tdb)"
  have s: "tenant_step ''bob'' tdb ?db" by (rule tenant_step.add)
  have r: "role_of ?db ''w'' ''cat'' \<noteq> role_of tdb ''w'' ''cat''"
    by (simp add: handleAddMember_def requireWorkspaceRole_def requireWorkspaceMember_def
        GetWorkspaceMemberRole_def AddWorkspaceMember_def tdb_simps Let_def)
  have t: "si_db tenant_site = tdb" by (simp add: tenant_site_def)
  have m: "member_step (\<lambda>_. ''h'') tenant_site (Request ''bob'') (tenant_site\<lparr>si_db := ?db\<rparr>)"
    by (rule mem_request) (simp add: t s)
  have "role_of tdb ''w'' ''bob'' \<in> {''owner'', ''maintainer''}"
    using membership_guard [OF m, of "''w''" "''cat''"] r by (simp add: t) (simp add: tdb_simps unused_workspace_def)
  moreover have j: "member_step (\<lambda>_. ''h'') invited_site (Invited ''t'' 5 ''j'') joined_site"
    unfolding joined_site_def by (rule mem_invite) (rule prod.collapse [symmetric])
  have "role_of (si_db joined_site) ''w'' ''j'' \<noteq> role_of (si_db invited_site) ''w'' ''j''" by (simp add: joined_roles)
  from membership_guard [OF j this] have "\<exists>iv. GetPendingInviteByTokenHash True 5 invited_site
      (hashInviteToken (\<lambda>_. ''h'') ''t'') = Inr (Some iv) \<and> iv_ws iv = ''w'' \<and> iv_role iv = ''developer''"
    using joined_roles(1) by auto
  ultimately show ?thesis using s r by blast
qed

end
