(* ===== verification/Sandbox_Life.thy ===== *)
theory Sandbox_Life
  imports Workspaces
begin

text \<open>
  The life of a sandbox: its provisioning (\<open>provisionSandbox\<close> and \<open>handleCreateSandbox\<close> of
  \<open>internal/server/server.go\<close>), pausing, resuming and deleting it, the watcher that pauses idle
  sandboxes (\<open>internal/sbxstore/idlewatcher.go\<close>), and the registration and the tunnel of a local
  one (\<open>internal/server/agent_register.go\<close>, \<open>internal/sandboxproxy/tunnel.go\<close>).

  A handler answers at once and leaves the slow part to a goroutine: the begin and the end of
  such an operation are separate definitions, so that other requests can act in between.  What
  the process manager does is an argument.  Statements are numbered in the order of the code.
\<close>

section \<open>Provisioning\<close>

record composition_request =
  cr_soul :: string
  cr_skills :: "string list"
  cr_config :: string
  cr_track :: bool

record provisionInput =
  pi_name :: string
  pi_type :: string
  pi_cpu :: "int option"
  pi_memory :: "int option"
  pi_idle :: "int option"
  pi_meta :: string
  pi_composition :: "composition_request option"

text \<open>\<open>ProvisionError\<close> has the code and the status; other errors are internal.\<close>

datatype provision_err = ProvisionError string nat | ProvisionInternal

definition validType :: "string \<Rightarrow> bool" where
  "validType t \<longleftrightarrow> t = ''openclaw'' \<or> t = ''hermes''"

record admitted =
  ad_name :: string
  ad_type :: string
  ad_cpu :: int
  ad_memory :: int
  ad_idle :: "int option"
  ad_namespace :: string

text \<open>
  The checks: statements 0 to 10 the number of sandboxes, 11 to 20 the defaults, 21 to 31 the
  budget, 32 the workspace.
\<close>

definition provisionCheck ::
  "(string \<Rightarrow> int \<Rightarrow> int option) \<Rightarrow> (string \<Rightarrow> int option) \<Rightarrow> (string \<Rightarrow> string) \<Rightarrow> (nat \<Rightarrow> bool) \<Rightarrow> srv_db \<Rightarrow>
     string \<Rightarrow> provisionInput \<Rightarrow> provision_err + admitted" where
  "provisionCheck flt dur env up db w inp =
     (case checkSandboxQuota flt dur env up db w of
        Inl _ \<Rightarrow> Inl ProvisionInternal
      | Inr (allowed, _, _) \<Rightarrow>
     if \<not> allowed then Inl (ProvisionError ''quota_exceeded'' 403)
     else (case effectiveWorkspaceDefaults flt dur env (\<lambda>k. up (11 + k)) db w of
        Inl _ \<Rightarrow> Inl ProvisionInternal
      | Inr wd \<Rightarrow>
     (let name = (if pi_name inp = [] then ''New Sandbox'' else pi_name inp);
          ty = (if pi_type inp = [] then ''openclaw'' else pi_type inp);
          cpu = over (pi_cpu inp) (wd_cpu wd);
          mem = over (pi_memory inp) (wd_memory wd) in
      if \<not> validType ty then Inl (ProvisionError ''invalid_type'' 400)
      else if pi_cpu inp \<noteq> None \<and> (cpu \<le> 0 \<or> cpu > wd_cpu wd) then Inl (ProvisionError ''invalid_cpu'' 400)
      else if pi_memory inp \<noteq> None \<and> (mem \<le> 0 \<or> mem > wd_memory wd)
      then Inl (ProvisionError ''invalid_memory'' 400)
      else if (case pi_idle inp of
                 Some t \<Rightarrow> t < 0 \<or> (wd_idle wd > 0 \<and> (t = 0 \<or> t > wd_idle wd)) | None \<Rightarrow> False)
      then Inl (ProvisionError ''invalid_idle_timeout'' 400)
      else (case checkWorkspaceResourceBudget flt dur env (\<lambda>k. up (21 + k)) db w cpu mem of
          Inl _ \<Rightarrow> Inl ProvisionInternal
        | Inr budgetOk \<Rightarrow>
            if \<not> budgetOk then Inl (ProvisionError ''resource_budget_exceeded'' 403)
            else (case GetWorkspace (up 32) db w of
                Inr (Some ws) \<Rightarrow>
                  Inr \<lparr>ad_name = name, ad_type = ty, ad_cpu = cpu, ad_memory = mem,
                       ad_idle = pi_idle inp, ad_namespace = coalesce (w_namespace ws)\<rparr>
              | _ \<Rightarrow> Inl (ProvisionError ''workspace_not_found'' 404))))))"

record StartOptions =
  so_namespace :: string
  so_volumes :: "string list"
  so_proxy :: string
  so_type :: string
  so_openclaw :: string
  so_cpu :: int
  so_memory :: int
  so_byok :: "(string \<times> string) option"
  so_models :: "(string \<times> string) list"

text \<open>Up to three attempts, each with a new short identifier; the last error is returned.\<close>

fun createAttempts ::
  "(nat \<Rightarrow> nat \<Rightarrow> bool) \<Rightarrow> time \<Rightarrow> nat \<Rightarrow> new_sandbox \<Rightarrow> string list \<Rightarrow> db_err \<Rightarrow> srv_db \<Rightarrow>
     (db_err + Sandbox) \<times> srv_db" where
  "createAttempts up now a n [] e db = (Inl e, db)"
| "createAttempts up now a n (sid # sids) e db =
     (case store_Create (up a) now db (n\<lparr>ns_short := sid\<rparr>) of
        (Inr s, db1) \<Rightarrow> (Inr s, db1)
      | (Inl e1, db1) \<Rightarrow> createAttempts up now (Suc a) n sids e1 db1)"

text \<open>
  What follows the checks.  \<open>msConn\<close> are the models of a connected model server, \<open>byok\<close> the
  workspace's own provider (URL, key, models); the former goes first.  \<open>proxy\<close> and \<open>openclaw\<close>
  are generated passwords, \<open>None\<close> when the random source fails; \<open>sids\<close> the generated short
  identifiers.  The attempt \<open>a\<close> has the statements \<open>33 + 4 a\<close> to \<open>36 + 4 a\<close>, 45 is the composition.
\<close>

definition provisionCreate ::
  "(nat \<Rightarrow> bool) \<Rightarrow> time \<Rightarrow> string \<Rightarrow> string list \<Rightarrow> (string \<times> string) list option \<Rightarrow>
     (string \<times> string \<times> (string \<times> string) list) option \<Rightarrow> string option \<Rightarrow> string option \<Rightarrow> string list \<Rightarrow>
     string \<Rightarrow> provisionInput \<Rightarrow> admitted \<Rightarrow> srv_db \<Rightarrow>
     (provision_err + Sandbox \<times> StartOptions) \<times> srv_db" where
  "provisionCreate up now i volumes msConn byok proxy openclaw sids w inp ad db =
     (case proxy of
        None \<Rightarrow> (Inl ProvisionInternal, db)
      | Some proxyToken \<Rightarrow>
     (case (if ad_type ad = ''openclaw'' then openclaw else Some []) of
        None \<Rightarrow> (Inl ProvisionInternal, db)
      | Some openclawToken \<Rightarrow>
     (case createAttempts (\<lambda>a k. up (33 + 4 * a + k)) now 0
             \<lparr>ns_id = i, ns_ws = w, ns_name = ad_name ad, ns_type = ad_type ad,
              ns_sandbox = ''agent-sandbox-'' @ take 8 i, ns_opencode = [], ns_proxy = proxyToken,
              ns_openclaw = openclawToken, ns_short = [], ns_cpu = ad_cpu ad,
              ns_memory = ad_memory ad, ns_idle = ad_idle ad, ns_meta = pi_meta inp\<rparr>
             (take 3 sids) DbDown db of
        (Inl _, db1) \<Rightarrow> (Inl ProvisionInternal, db1)
      | (Inr sbx, db1) \<Rightarrow>
          (let opts = \<lparr>so_namespace = ad_namespace ad, so_volumes = volumes, so_proxy = proxyToken,
                 so_type = ad_type ad, so_openclaw = openclawToken, so_cpu = ad_cpu ad,
                 so_memory = ad_memory ad,
                 so_byok = (if msConn \<noteq> None then None
                            else map_option (\<lambda>(url, key, ms). (url, key)) byok),
                 so_models = (case msConn of
                     Some ms \<Rightarrow> ms
                   | None \<Rightarrow> (case byok of Some (url, key, ms) \<Rightarrow> ms | None \<Rightarrow> []))\<rparr>;
               db2 = (case pi_composition inp of
                  None \<Rightarrow> db1
                | Some c \<Rightarrow> snd (CreateSandboxComposition (up 45) db1 i (cr_soul c) (cr_skills c)
                             (cr_config c) (cr_track c))) in
           (Inr (sbx, opts), db2)))))"

text \<open>The goroutine: \<open>started\<close> is the address of the pod, \<open>None\<close> when the start failed.\<close>

definition startEnd :: "(nat \<Rightarrow> bool) \<Rightarrow> time \<Rightarrow> string \<Rightarrow> string option \<Rightarrow> srv_db \<Rightarrow> srv_db" where
  "startEnd up now i started db =
     (case started of
        None \<Rightarrow> snd (DeleteSandbox (up 0) db i)
      | Some podIP \<Rightarrow>
          (let db1 = (if podIP \<noteq> [] then snd (UpdateSandboxPodIP (up 1) db i podIP) else db) in
           snd (UpdateSandboxStatus (up 2) now db1 i StatusRunning)))"

record provision_env =
  pe_id :: string
  pe_volumes :: "string list"
  pe_models :: "(string \<times> string) list option"
  pe_byok :: "(string \<times> string \<times> (string \<times> string) list) option"
  pe_proxy :: "string option"
  pe_openclaw :: "string option"
  pe_sids :: "string list"

definition provisionSandbox ::
  "(string \<Rightarrow> int \<Rightarrow> int option) \<Rightarrow> (string \<Rightarrow> int option) \<Rightarrow> (string \<Rightarrow> string) \<Rightarrow> (nat \<Rightarrow> bool) \<Rightarrow> time \<Rightarrow>
     provision_env \<Rightarrow> string \<Rightarrow> provisionInput \<Rightarrow> srv_db \<Rightarrow> (provision_err + Sandbox \<times> StartOptions) \<times> srv_db" where
  "provisionSandbox flt dur env up now pe w inp db =
     (case provisionCheck flt dur env up db w inp of
        Inl e \<Rightarrow> (Inl e, db)
      | Inr ad \<Rightarrow> provisionCreate up now (pe_id pe) (pe_volumes pe) (pe_models pe) (pe_byok pe) (pe_proxy pe)
                   (pe_openclaw pe) (pe_sids pe) w inp ad db)"

text \<open>Statement 46 reads the role; a body that does not decode asks for the defaults.\<close>

definition handleCreateSandbox ::
  "(string \<Rightarrow> int \<Rightarrow> int option) \<Rightarrow> (string \<Rightarrow> int option) \<Rightarrow> (string \<Rightarrow> string) \<Rightarrow> (nat \<Rightarrow> bool) \<Rightarrow> time \<Rightarrow>
     provision_env \<Rightarrow> string \<Rightarrow> string \<Rightarrow> provisionInput option \<Rightarrow> srv_db \<Rightarrow>
     Sandbox reply \<times> StartOptions option \<times> srv_db" where
  "handleCreateSandbox flt dur env up now pe user w body db =
     (case requireWorkspaceRole (up 46) db user w [''owner'', ''maintainer'', ''developer''] of
        Some (c, msg) \<Rightarrow> (ErrorReply c msg, None, db)
      | None \<Rightarrow>
          (let inp = (case body of
                 Some b \<Rightarrow> b
               | None \<Rightarrow> \<lparr>pi_name = ''New Sandbox'', pi_type = [], pi_cpu = None, pi_memory = None,
                          pi_idle = None, pi_meta = [], pi_composition = None\<rparr>) in
           case provisionSandbox flt dur env up now pe w inp db of
             (Inl (ProvisionError msg c), db1) \<Rightarrow> (ErrorReply c msg, None, db1)
           | (Inl ProvisionInternal, db1) \<Rightarrow> (ErrorReply 500 ''internal error'', None, db1)
           | (Inr (s, opts), db1) \<Rightarrow> (Reply 201 s, Some opts, db1)))"

section \<open>Reading, renaming and deleting\<close>

text \<open>The sandbox, if the user is a member of its workspace: statements 0 and 1.\<close>

definition sandboxFor ::
  "(nat \<Rightarrow> bool) \<Rightarrow> string \<Rightarrow> string \<Rightarrow> srv_db \<Rightarrow> (nat \<times> string) + Sandbox" where
  "sandboxFor up user i db =
     (case sbx_Get (up 0) db i of
        None \<Rightarrow> Inl (404, ''sandbox not found'')
      | Some s \<Rightarrow>
          (case requireWorkspaceMember (up 1) db user (x_ws s) of Inl e \<Rightarrow> Inl e | Inr _ \<Rightarrow> Inr s))"

definition handleGetSandbox :: "(nat \<Rightarrow> bool) \<Rightarrow> string \<Rightarrow> string \<Rightarrow> srv_db \<Rightarrow> Sandbox reply" where
  "handleGetSandbox up user i db =
     (case sandboxFor up user i db of Inl (c, msg) \<Rightarrow> ErrorReply c msg | Inr s \<Rightarrow> Reply 200 s)"

definition handleRenameSandbox ::
  "(nat \<Rightarrow> bool) \<Rightarrow> string \<Rightarrow> string \<Rightarrow> string option \<Rightarrow> srv_db \<Rightarrow> Sandbox reply \<times> srv_db" where
  "handleRenameSandbox up user i req db =
     (case sandboxFor up user i db of
        Inl (c, msg) \<Rightarrow> (ErrorReply c msg, db)
      | Inr s \<Rightarrow>
     if req \<in> {None, Some []} then (ErrorReply 400 ''name is required'', db)
     else (case UpdateSandboxName (up 2) db i (the req) of
        (Some _, db1) \<Rightarrow> (ErrorReply 500 ''failed to rename sandbox'', db1)
      | (None, db1) \<Rightarrow> (Reply 200 (s\<lparr>x_name := the req\<rparr>), db1)))"

text \<open>Statement 2 reads the workspace of a paused sandbox, 3 deletes.\<close>

definition handleDeleteSandbox ::
  "(nat \<Rightarrow> bool) \<Rightarrow> (string \<Rightarrow> bool) \<Rightarrow> string \<Rightarrow> string \<Rightarrow> srv_db \<Rightarrow> unit reply \<times> stop list \<times> srv_db" where
  "handleDeleteSandbox up tunnels user i db =
     (case sandboxFor up user i db of
        Inl (c, msg) \<Rightarrow> (ErrorReply c msg, [], db)
      | Inr s \<Rightarrow>
          (let ns = (case GetWorkspace (up 2) db (x_ws s) of
                       Inr (Some ws) \<Rightarrow> coalesce (w_namespace ws) | _ \<Rightarrow> []);
               stops = stop_of ns tunnels s in
           case DeleteSandbox (up 3) db i of
             (Some _, db1) \<Rightarrow> (ErrorReply 500 ''failed to delete sandbox'', stops, db1)
           | (None, db1) \<Rightarrow> (Reply 204 (), stops, db1)))"

section \<open>Pausing and resuming\<close>

text \<open>
  The check comes first and the new status is written unconditionally: another request can act
  in between.  The handler yields the reply, and whether the goroutine is started.
\<close>

definition pauseCheck :: "(nat \<Rightarrow> bool) \<Rightarrow> string \<Rightarrow> string \<Rightarrow> srv_db \<Rightarrow> (nat \<times> string) option" where
  "pauseCheck up user i db =
     (case sandboxFor up user i db of
        Inl e \<Rightarrow> Some e
      | Inr s \<Rightarrow>
          if x_local s then Some (400, ''local sandboxes cannot be paused'')
          else if \<not> ValidTransition (x_status s) StatusPausing
          then Some (409, ''sandbox cannot be paused in current state'')
          else None)"

definition handlePauseSandbox ::
  "(nat \<Rightarrow> bool) \<Rightarrow> time \<Rightarrow> string \<Rightarrow> string \<Rightarrow> srv_db \<Rightarrow> string reply \<times> bool \<times> srv_db" where
  "handlePauseSandbox up now user i db =
     (case pauseCheck up user i db of
        Some (c, msg) \<Rightarrow> (ErrorReply c msg, False, db)
      | None \<Rightarrow>
          (case UpdateSandboxStatus (up 2) now db i StatusPausing of
             (Some _, db1) \<Rightarrow> (ErrorReply 500 ''failed to update status'', False, db1)
           | (None, db1) \<Rightarrow> (Reply 200 ''pausing'', True, db1)))"

text \<open>\<open>paused\<close> tells whether the process manager's \<open>Pause\<close> succeeded.\<close>

definition pauseEnd :: "(nat \<Rightarrow> bool) \<Rightarrow> time \<Rightarrow> string \<Rightarrow> bool \<Rightarrow> srv_db \<Rightarrow> srv_db" where
  "pauseEnd up now i paused db =
     (if \<not> paused then snd (UpdateSandboxStatus (up 0) now db i StatusRunning)
      else (let db1 = snd (UpdateSandboxPodIP (up 1) db i []) in
            snd (UpdateSandboxStatus (up 2) now db1 i StatusPaused)))"

definition resumeCheck :: "(nat \<Rightarrow> bool) \<Rightarrow> string \<Rightarrow> string \<Rightarrow> srv_db \<Rightarrow> (nat \<times> string) option" where
  "resumeCheck up user i db =
     (case sandboxFor up user i db of
        Inl e \<Rightarrow> Some e
      | Inr s \<Rightarrow>
          if x_local s then Some (400, ''local sandboxes cannot be resumed from server'')
          else if \<not> ValidTransition (x_status s) StatusResuming
          then Some (409, ''sandbox cannot be resumed in current state'')
          else None)"

definition handleResumeSandbox ::
  "(nat \<Rightarrow> bool) \<Rightarrow> time \<Rightarrow> string \<Rightarrow> string \<Rightarrow> srv_db \<Rightarrow> string reply \<times> bool \<times> srv_db" where
  "handleResumeSandbox up now user i db =
     (case resumeCheck up user i db of
        Some (c, msg) \<Rightarrow> (ErrorReply c msg, False, db)
      | None \<Rightarrow>
          (case UpdateSandboxStatus (up 2) now db i StatusResuming of
             (Some _, db1) \<Rightarrow> (ErrorReply 500 ''failed to update status'', False, db1)
           | (None, db1) \<Rightarrow> (Reply 200 ''resuming'', True, db1)))"

definition resumeEnd :: "(nat \<Rightarrow> bool) \<Rightarrow> time \<Rightarrow> string \<Rightarrow> string option \<Rightarrow> srv_db \<Rightarrow> srv_db" where
  "resumeEnd up now i resumed db =
     (case resumed of
        None \<Rightarrow> snd (UpdateSandboxStatus (up 0) now db i StatusPaused)
      | Some podIP \<Rightarrow>
          (let db1 = (if podIP \<noteq> [] then snd (UpdateSandboxPodIP (up 1) db i podIP) else db);
               db2 = snd (UpdateSandboxActivity (up 2) now db1 i) in
           snd (UpdateSandboxStatus (up 3) now db2 i StatusRunning)))"

text \<open>
  What follows when a paused sandbox was woken up for a message or an automation (\<open>openclaw_turn_handler.go\<close>,
  \<open>automation_scheduler.go\<close>): the status is written without a check.
\<close>

definition wakeEnd :: "(nat \<Rightarrow> bool) \<Rightarrow> time \<Rightarrow> string \<Rightarrow> string \<Rightarrow> srv_db \<Rightarrow> srv_db" where
  "wakeEnd up now i podIP db =
     (let db1 = (if podIP \<noteq> [] then snd (UpdateSandboxPodIP (up 0) db i podIP) else db) in
      snd (UpdateSandboxStatus (up 1) now db1 i StatusRunning))"

section \<open>The idle watcher\<close>

text \<open>
  One sandbox of \<open>check\<close>: statements 0 pausing, 1 running after a failure, 2 the address,
  3 paused.
\<close>

definition pauseIdle :: "(nat \<Rightarrow> bool) \<Rightarrow> time \<Rightarrow> (string \<Rightarrow> bool) \<Rightarrow> string \<Rightarrow> srv_db \<Rightarrow> srv_db" where
  "pauseIdle up now pm i db =
     (case UpdateSandboxStatus (up 0) now db i StatusPausing of
        (Some _, db1) \<Rightarrow> db1
      | (None, db1) \<Rightarrow>
          if \<not> pm i then snd (UpdateSandboxStatus (up 1) now db1 i StatusRunning)
          else (let db2 = snd (UpdateSandboxPodIP (up 2) db1 i []) in
                snd (UpdateSandboxStatus (up 3) now db2 i StatusPaused)))"

text \<open>After its first statement it does what the goroutine of a pause does.\<close>

lemma pauseIdle_stages:
  "pauseIdle up now pm i db =
     (case UpdateSandboxStatus (up 0) now db i StatusPausing of
        (Some _, db1) \<Rightarrow> db1
      | (None, db1) \<Rightarrow> pauseEnd (\<lambda>k. up (Suc k)) now i (pm i) db1)"
  by (simp add: pauseIdle_def pauseEnd_def numeral_2_eq_2 numeral_3_eq_3 split: prod.split option.split)

fun idleLoop :: "(nat \<Rightarrow> nat \<Rightarrow> bool) \<Rightarrow> time \<Rightarrow> (string \<Rightarrow> bool) \<Rightarrow> nat \<Rightarrow> sbx_row list \<Rightarrow> srv_db \<Rightarrow> srv_db" where
  "idleLoop up now pm n [] db = db"
| "idleLoop up now pm n (r # rs) db = idleLoop up now pm (Suc n) rs (pauseIdle (up n) now pm (sb_id r) db)"

text \<open>\<open>timeout\<close> is in nanoseconds; the query takes whole seconds.\<close>

definition idleCheck :: "bool \<Rightarrow> (nat \<Rightarrow> nat \<Rightarrow> bool) \<Rightarrow> time \<Rightarrow> time \<Rightarrow> (string \<Rightarrow> bool) \<Rightarrow> srv_db \<Rightarrow> srv_db" where
  "idleCheck up ups now timeout pm db =
     (if timeout \<le> 0 then db
      else (case ListIdleSandboxes up now db (timeout div 1000000000) of
          Inl _ \<Rightarrow> db
        | Inr rs \<Rightarrow> idleLoop ups now pm 0 rs db))"

section \<open>Registration of a local sandbox\<close>

text \<open>
  \<open>handleAgentRegister\<close> (\<open>internal/server/agent_register.go\<close>).  \<open>hydra\<close> is the introspection of
  the OAuth server, \<open>None\<close> when none is configured; \<open>io_workspace\<close> is its extra claim.
\<close>

record IntrospectionResult =
  io_active :: bool
  io_subject :: string
  io_scope :: string
  io_workspace :: string

definition HasScope :: "IntrospectionResult \<Rightarrow> string \<Rightarrow> bool" where
  "HasScope r scope \<longleftrightarrow> list_ex (\<lambda>s. s = scope) (Split (CHR '' '') (io_scope r))"

fun registerAttempts ::
  "(nat \<Rightarrow> nat \<Rightarrow> bool) \<Rightarrow> time \<Rightarrow> nat \<Rightarrow> string \<Rightarrow> string \<Rightarrow> string \<Rightarrow> string \<Rightarrow> string \<Rightarrow> string \<Rightarrow>
     string list \<Rightarrow> db_err \<Rightarrow> srv_db \<Rightarrow> (db_err + string) \<times> srv_db" where
  "registerAttempts up now a i w name ty proxy tunnel [] e db = (Inl e, db)"
| "registerAttempts up now a i w name ty proxy tunnel (sid # sids) e db =
     (case CreateLocalSandbox (up a) now db i w name ty [] proxy tunnel sid of
        (None, db1) \<Rightarrow> (Inr sid, db1)
      | (Some e1, db1) \<Rightarrow> registerAttempts up now (Suc a) i w name ty proxy tunnel sids e1 db1)"

text \<open>
  The admission: the user and workspace of the token, or the error reply; statement 0 reads the
  role.
\<close>

definition registerAdmit ::
  "bool \<Rightarrow> (string \<Rightarrow> unit + IntrospectionResult) option \<Rightarrow> string \<Rightarrow> srv_db \<Rightarrow> (nat \<times> string) + string" where
  "registerAdmit up hydra authHeader db =
     (if \<not> HasPrefix authHeader ''Bearer '' then Inl (401, ''missing or invalid Authorization header'')
      else (case hydra of
        None \<Rightarrow> Inl (503, ''OAuth not configured'')
      | Some introspect \<Rightarrow>
     (case introspect (TrimPrefix authHeader ''Bearer '') of
        Inl _ \<Rightarrow> Inl (500, ''token introspection failed'')
      | Inr io \<Rightarrow>
     if \<not> io_active io then Inl (401, ''invalid or expired token'')
     else if \<not> HasScope io ''agent:register'' then Inl (403, ''insufficient scope: agent:register required'')
     else if io_workspace io = [] then Inl (400, ''token missing workspace_id claim'')
     else (case GetWorkspaceMemberRole up db (io_workspace io) (io_subject io) of
        Inl _ \<Rightarrow> Inl (500, ''internal error'')
      | Inr role \<Rightarrow>
          if role = [] \<or> role = ''guest''
          then Inl (403, ''no permission to register agent in this workspace'')
          else Inr (io_workspace io)))))"

text \<open>The reply has the sandbox, its tokens, the workspace and the short identifier.\<close>

definition handleAgentRegister ::
  "(nat \<Rightarrow> bool) \<Rightarrow> time \<Rightarrow> (string \<Rightarrow> unit + IntrospectionResult) option \<Rightarrow> string \<Rightarrow>
     (string \<times> string) option \<Rightarrow> string \<Rightarrow> string option \<Rightarrow> string option \<Rightarrow> string list \<Rightarrow> srv_db \<Rightarrow>
     (string \<times> string \<times> string \<times> string \<times> string) reply \<times> srv_db" where
  "handleAgentRegister up now hydra authHeader req i tunnel proxy sids db =
     (case registerAdmit (up 0) hydra authHeader db of
        Inl (c, msg) \<Rightarrow> (ErrorReply c msg, db)
      | Inr w \<Rightarrow>
     (case req of
        None \<Rightarrow> (ErrorReply 400 ''bad request'', db)
      | Some (name0, ty0) \<Rightarrow>
     (let name = (if name0 = [] then ''Local Agent'' else name0);
          ty = (if ty0 = [] then ''custom'' else ty0) in
      if ty \<noteq> ''custom'' then (ErrorReply 400 ''invalid type: must be custom'', db)
      else (case (tunnel, proxy) of
          (Some tunnelToken, Some proxyToken) \<Rightarrow>
            (case registerAttempts (\<lambda>a k. up (1 + 4 * a + k)) now 0 i w name ty proxyToken tunnelToken
                    (take 3 sids) DbDown db of
               (Inl _, db1) \<Rightarrow> (ErrorReply 500 ''failed to register agent'', db1)
             | (Inr sid, db1) \<Rightarrow> (Reply 201 (i, tunnelToken, proxyToken, w, sid), db1))
        | _ \<Rightarrow> (ErrorReply 500 ''internal error'', db)))))"

section \<open>The tunnel of a local sandbox\<close>

text \<open>The reply's status, or the registration; statements 0 the token, 1 the status, 2 the heartbeat.\<close>

definition tunnelConnect ::
  "(nat \<Rightarrow> bool) \<Rightarrow> time \<Rightarrow> string \<Rightarrow> string \<Rightarrow> 'c \<Rightarrow> 'c conn_table \<Rightarrow> srv_db \<Rightarrow>
     nat + ('c conn_table \<times> 'c option \<times> srv_db)" where
  "tunnelConnect up now i tok t reg db =
     (if i = [] \<or> tok = [] then Inl 400
      else (case GetSandboxByTunnelToken (up 0) db i tok of
          Inl _ \<Rightarrow> Inl 500
        | Inr None \<Rightarrow> Inl 401
        | Inr (Some s) \<Rightarrow>
            (let (reg1, old) = tunnelRegister reg i t;
                 db1 = snd (UpdateSandboxStatus (up 1) now db i StatusRunning);
                 db2 = snd (UpdateSandboxHeartbeat (up 2) now db1 i) in
             Inr (reg1, old, db2))))"

text \<open>The end of the handler, in two parts: the removal, and the status it entails.\<close>

definition tunnelLeave :: "string \<Rightarrow> 'c \<Rightarrow> 'c conn_table \<Rightarrow> 'c conn_table \<times> bool" where
  "tunnelLeave i t reg = tunnelUnregister reg i t"

definition tunnelOffline :: "bool \<Rightarrow> time \<Rightarrow> string \<Rightarrow> bool \<Rightarrow> srv_db \<Rightarrow> srv_db" where
  "tunnelOffline up now i wasActive db =
     (if wasActive then snd (UpdateSandboxStatus up now db i StatusOffline) else db)"

end
