(* ===== verification/Provisioning.thy ===== *)
theory Provisioning
  imports Sandbox_Life
begin

text \<open>
  What the creation of a sandbox does to the tables: nothing when it is refused, one new row of its workspace when it
  is accepted.  The lifecycle, the limits and the binding of channels rest on it.
\<close>

text \<open>A new row, with what the limits read of it; tasks and messages are untouched.\<close>

definition adds_row ::
  "string \<Rightarrow> string \<Rightarrow> bool \<Rightarrow> sbx_status \<Rightarrow> int option \<Rightarrow> int option \<Rightarrow> srv_db \<Rightarrow> srv_db \<Rightarrow> bool" where
  "adds_row i w l st c m db db1 \<longleftrightarrow>
     i \<notin> sb_id ` set (sv_sandboxes db) \<and>
     (\<exists>r. sv_sandboxes db1 = sv_sandboxes db @ [r] \<and> sb_id r = i \<and> sb_ws r = w \<and> sb_local r = l \<and>
        sb_status r = st \<and> sb_paused r = None \<and> sb_cpu r = c \<and> sb_memory r = m) \<and>
     sv_tasks db1 = sv_tasks db \<and> sv_mail db1 = sv_mail db"

lemma insert_sandbox_row:
  "insert_sandbox db r = Inr db1 \<Longrightarrow> sb_paused r = None \<Longrightarrow>
     adds_row (sb_id r) (sb_ws r) (sb_local r) (sb_status r) (sb_cpu r) (sb_memory r) db db1"
  by (auto simp: insert_sandbox_def sandbox_clash_def adds_row_def list_ex_iff split: if_splits)

lemma token_sandboxes [simp]:
  "sv_sandboxes (insert_sandbox_token db tok i w) = sv_sandboxes db"
  "sv_tasks (insert_sandbox_token db tok i w) = sv_tasks db"
  "sv_mail (insert_sandbox_token db tok i w) = sv_mail db"
  by (simp_all add: insert_sandbox_token_def)

lemma adds_row_token [simp]:
  "adds_row i w l st c m db (insert_sandbox_token db1 tok j v) = adds_row i w l st c m db db1"
  by (simp add: adds_row_def)

lemma CreateSandbox_ok:
  "CreateSandbox up now db n = (None, db1) \<Longrightarrow>
     adds_row (ns_id n) (ns_ws n) False StatusCreating (Some (ns_cpu n)) (Some (ns_memory n)) db db1"
  by (auto simp: CreateSandbox_def Let_def dest: insert_sandbox_row split: if_splits sum.splits)

lemma CreateSandbox_err: "CreateSandbox up now db n = (Some e, db1) \<Longrightarrow> db1 = db"
  by (auto simp: CreateSandbox_def Let_def split: if_splits sum.splits)

lemma CreateLocalSandbox_ok:
  "CreateLocalSandbox up now db i w nm ty oc px tn sh = (None, db1) \<Longrightarrow>
     adds_row i w True StatusRunning None None db db1"
  by (auto simp: CreateLocalSandbox_def dest: insert_sandbox_row split: if_splits sum.splits)

lemma CreateLocalSandbox_err: "CreateLocalSandbox up now db i w nm ty oc px tn sh = (Some e, db1) \<Longrightarrow> db1 = db"
  by (auto simp: CreateLocalSandbox_def split: if_splits sum.splits)

lemma store_Create_ok:
  assumes "store_Create up now db n = (Inr s, db1)"
  shows "adds_row (ns_id n) (ns_ws n) False StatusCreating (Some (ns_cpu n)) (Some (ns_memory n)) db db1 \<and>
     x_id s = ns_id n \<and> x_cpu s = ns_cpu n \<and> x_memory s = ns_memory n"
proof -
  obtain e d where c: "CreateSandbox up now db n = (e, d)" by (metis surj_pair)
  with assms have "e = None" by (cases e) (simp_all add: store_Create_def)
  with c assms CreateSandbox_ok [of up now db n d] show ?thesis by (auto simp: store_Create_def)
qed

lemma store_Create_err: "store_Create up now db n = (Inl e, db1) \<Longrightarrow> db1 = db"
  using CreateSandbox_err [of up now db n]
  by (auto simp: store_Create_def split: prod.splits option.splits)

lemma createAttempts_err: "createAttempts up now a n sids e db = (Inl e1, db1) \<Longrightarrow> db1 = db"
  by (induction up now a n sids e db rule: createAttempts.induct)
    (auto split: prod.splits sum.splits dest: store_Create_err)

lemma createAttempts_ok:
  "createAttempts up now a n sids e db = (Inr s, db1) \<Longrightarrow>
     adds_row (ns_id n) (ns_ws n) False StatusCreating (Some (ns_cpu n)) (Some (ns_memory n)) db db1 \<and>
     x_id s = ns_id n \<and> x_cpu s = ns_cpu n \<and> x_memory s = ns_memory n"
proof (induction up now a n sids e db rule: createAttempts.induct)
  case (2 up now a n sid sids e db)
  obtain r d where c: "store_Create (up a) now db (n\<lparr>ns_short := sid\<rparr>) = (r, d)" by (metis surj_pair)
  show ?case
  proof (cases r)
    case (Inl e1)
    with c have "d = db" by (blast dest: store_Create_err)
    with 2 Inl c show ?thesis by simp
  next
    case (Inr s1)
    with c 2(2) store_Create_ok [of "up a" now db "n\<lparr>ns_short := sid\<rparr>" s1 d] show ?thesis by simp
  qed
qed simp

lemma composition_sandboxes [simp]:
  "sv_sandboxes (snd (CreateSandboxComposition u db i so sk co tr)) = sv_sandboxes db"
  "sv_tasks (snd (CreateSandboxComposition u db i so sk co tr)) = sv_tasks db"
  "sv_mail (snd (CreateSandboxComposition u db i so sk co tr)) = sv_mail db"
  by (simp_all add: CreateSandboxComposition_def)

text \<open>A refused creation changes nothing, an accepted one adds a row that is being created.\<close>

lemma provisionCreate_cases:
  assumes "provisionCreate up now i vols ms byok proxy openclaw sids w inp ad db = (res, db1)"
  shows "case res of
       Inl _ \<Rightarrow> db1 = db
     | Inr (s, opts) \<Rightarrow>
         adds_row i w False StatusCreating (Some (ad_cpu ad)) (Some (ad_memory ad)) db db1 \<and>
         x_id s = i \<and> x_cpu s = ad_cpu ad \<and> x_memory s = ad_memory ad"
proof -
  let ?n = "\<lambda>p t. \<lparr>ns_id = i, ns_ws = w, ns_name = ad_name ad, ns_type = ad_type ad,
      ns_sandbox = ''agent-sandbox-'' @ take 8 i, ns_opencode = [], ns_proxy = p,
      ns_openclaw = t, ns_short = [], ns_cpu = ad_cpu ad, ns_memory = ad_memory ad,
      ns_idle = ad_idle ad, ns_meta = pi_meta inp\<rparr>"
  show ?thesis
  proof (cases proxy)
    case None
    with assms show ?thesis by (auto simp: provisionCreate_def)
  next
    case (Some p)
    show ?thesis
    proof (cases "if ad_type ad = ''openclaw'' then openclaw else Some []")
      case None
      with assms Some show ?thesis by (auto simp: provisionCreate_def)
    next
      case t: (Some t)
      obtain r d where c: "createAttempts (\<lambda>a k. up (33 + 4 * a + k)) now 0 (?n p t) (take 3 sids) DbDown db = (r, d)"
        by (metis surj_pair)
      show ?thesis
      proof (cases r)
        case (Inl e)
        with assms have "res = Inl ProvisionInternal \<and> db1 = d"
          unfolding provisionCreate_def Some option.case t c by auto
        with createAttempts_err c Inl show ?thesis by auto
      next
        case (Inr s)
        with assms obtain opts where "res = Inr (s, opts)" "sv_sandboxes db1 = sv_sandboxes d"
          "sv_tasks db1 = sv_tasks d" "sv_mail db1 = sv_mail d"
          unfolding provisionCreate_def Some option.case t c by (auto simp: Let_def split: option.splits)
        moreover have "adds_row i w False StatusCreating (Some (ad_cpu ad)) (Some (ad_memory ad)) db d \<and>
            x_id s = i \<and> x_cpu s = ad_cpu ad \<and> x_memory s = ad_memory ad"
          using createAttempts_ok [OF c [unfolded Inr]] by simp
        ultimately show ?thesis by (simp add: adds_row_def)
      qed
    qed
  qed
qed

lemma provisionSandbox_cases:
  assumes "provisionSandbox flt dur env up now pe w inp db = (res, db1)"
  shows "case res of
       Inl _ \<Rightarrow> db1 = db
     | Inr (s, opts) \<Rightarrow> \<exists>ad. provisionCheck flt dur env up db w inp = Inr ad \<and>
         adds_row (pe_id pe) w False StatusCreating (Some (ad_cpu ad)) (Some (ad_memory ad)) db db1 \<and>
         x_id s = pe_id pe \<and> x_cpu s = ad_cpu ad \<and> x_memory s = ad_memory ad"
proof (cases "provisionCheck flt dur env up db w inp")
  case (Inl e)
  with assms show ?thesis by (auto simp: provisionSandbox_def)
next
  case (Inr ad)
  with assms have "provisionCreate up now (pe_id pe) (pe_volumes pe) (pe_models pe) (pe_byok pe) (pe_proxy pe)
      (pe_openclaw pe) (pe_sids pe) w inp ad db = (res, db1)" by (simp add: provisionSandbox_def)
  from provisionCreate_cases [OF this] Inr show ?thesis by (auto split: sum.splits)
qed

lemma handleCreate_cases:
  assumes "handleCreateSandbox flt dur env up now pe user w body db = (rep, opts, db1)"
  shows "if opts = None then db1 = db
    else \<exists>c m. adds_row (pe_id pe) w False StatusCreating c m db db1"
proof (cases "requireWorkspaceRole (up 46) db user w [''owner'', ''maintainer'', ''developer'']")
  case None
  define inp where "inp = (case body of
       Some b \<Rightarrow> b
     | None \<Rightarrow> \<lparr>pi_name = ''New Sandbox'', pi_type = [], pi_cpu = None, pi_memory = None,
                pi_idle = None, pi_meta = [], pi_composition = None\<rparr>)"
  obtain r d where p: "provisionSandbox flt dur env up now pe w inp db = (r, d)" by (metis surj_pair)
  have e: "handleCreateSandbox flt dur env up now pe user w body db =
     (case (r, d) of
        (Inl (ProvisionError msg c), db1) \<Rightarrow> (ErrorReply c msg, None, db1)
      | (Inl ProvisionInternal, db1) \<Rightarrow> (ErrorReply 500 ''internal error'', None, db1)
      | (Inr (s, opts), db1) \<Rightarrow> (Reply 201 s, Some opts, db1))"
    unfolding handleCreateSandbox_def None option.case Let_def inp_def [symmetric] p ..
  show ?thesis
  proof (cases r)
    case (Inl er)
    with assms e provisionSandbox_cases [OF p] show ?thesis by (cases er) auto
  next
    case (Inr so)
    obtain s1 o1 where "so = (s1, o1)" by (metis surj_pair)
    with Inr assms e provisionSandbox_cases [OF p] show ?thesis by auto
  qed
qed (use assms in \<open>auto simp: handleCreateSandbox_def\<close>)

end
