(* ===== verification/Channels.thy ===== *)
theory Channels
  imports Accounts Sandbox_Life
begin

text \<open>
  The tables of the message channels and the statements on them: the channels of a workspace and their
  metadata (\<open>internal/db/im_channels.go\<close>), the junction of sandboxes and channels
  (\<open>sandbox_channel_bindings.go\<close>), the older bindings of sandboxes (\<open>im_bindings.go\<close>) and the history of
  messages, with the constraints, defaults and cascades of the migrations 010, 011, 012, 018, 027, 031, 037, 038, 048
  and 049.

  The tables refer to workspaces and sandboxes, which are the tables of \<open>srv_db\<close>; what a statement there
  deletes is deleted here by \<open>prune\<close>.
\<close>

section \<open>Tables\<close>

record channel_row =
  cr_id :: string
  cr_ws :: string
  cr_provider :: string
  cr_bot :: string
  cr_user :: string
  cr_token :: "string option"
  cr_url :: "string option"
  cr_cursor :: "string option"
  cr_mention :: bool
  cr_routing :: string
  cr_scope :: "string option"
  cr_verify :: "string option"
  cr_bound :: time

record IMChannel =
  ch_id :: string
  ch_ws :: string
  ch_provider :: string
  ch_bot :: string
  ch_user :: string
  ch_token :: string
  ch_url :: string
  ch_cursor :: string
  ch_mention :: bool
  ch_routing :: string
  ch_scope :: string
  ch_bound :: time

record channel_binding =
  cb_sandbox :: string
  cb_channel :: string
  cb_bound :: time

record im_binding_row =
  ib_id :: nat
  ib_sandbox :: string
  ib_provider :: string
  ib_bot :: string
  ib_user :: string
  ib_token :: "string option"
  ib_url :: "string option"
  ib_cursor :: "string option"
  ib_poll :: "time option"
  ib_bound :: time

record IMMessage =
  mg_id :: string
  mg_channel :: string
  mg_from :: string
  mg_direction :: string
  mg_text :: string
  mg_session :: "string option"
  mg_created :: time

record im_db =
  im_srv :: srv_db
  im_channels :: "channel_row list"
  im_meta :: "string \<times> string \<times> string \<rightharpoonup> string"
  im_bound :: "channel_binding list"
  im_bindings :: "im_binding_row list"
  im_pmeta :: "string \<times> string \<times> string \<times> string \<times> string \<rightharpoonup> string"
  im_messages :: "IMMessage list"

definition has_channel :: "im_db \<Rightarrow> string \<Rightarrow> bool" where
  "has_channel d c \<longleftrightarrow> list_ex (\<lambda>r. cr_id r = c) (im_channels d)"

text \<open>\<open>ON DELETE CASCADE\<close>: a row goes with the row it refers to; the messages refer to nothing.\<close>

definition prune :: "im_db \<Rightarrow> im_db" where
  "prune d =
     (let d1 = d\<lparr>im_channels := filter (\<lambda>r. has_workspace (im_srv d) (cr_ws r)) (im_channels d)\<rparr> in
      d1\<lparr>im_meta := (\<lambda>(c, u, k). if has_channel d1 c then im_meta d (c, u, k) else None),
         im_bound := filter (\<lambda>b. has_sandbox (im_srv d) (cb_sandbox b) \<and> has_channel d1 (cb_channel b)) (im_bound d),
         im_bindings := filter (\<lambda>b. has_sandbox (im_srv d) (ib_sandbox b)) (im_bindings d),
         im_pmeta := (\<lambda>(s, r). if has_sandbox (im_srv d) s then im_pmeta d (s, r) else None)\<rparr>)"

text \<open>A statement of another table.\<close>

definition on_srv :: "(srv_db \<Rightarrow> 'e \<times> srv_db) \<Rightarrow> im_db \<Rightarrow> 'e \<times> im_db" where
  "on_srv f d = (case f (im_srv d) of (e, s) \<Rightarrow> (e, prune (d\<lparr>im_srv := s\<rparr>)))"

section \<open>Channels (\<open>im_channels.go\<close>)\<close>

definition finishIMChannel :: "channel_row \<Rightarrow> IMChannel" where
  "finishIMChannel r =
     \<lparr>ch_id = cr_id r, ch_ws = cr_ws r, ch_provider = cr_provider r, ch_bot = cr_bot r, ch_user = cr_user r,
      ch_token = coalesce (cr_token r), ch_url = coalesce (cr_url r), ch_cursor = coalesce (cr_cursor r),
      ch_mention = cr_mention r, ch_routing = cr_routing r, ch_scope = coalesce (cr_scope r),
      ch_bound = cr_bound r\<rparr>"

text \<open>\<open>None\<close> of the statements that read one row is \<open>sql.ErrNoRows\<close>.  \<open>i\<close> is the generated identifier.\<close>

definition CreateIMChannel ::
  "bool \<Rightarrow> time \<Rightarrow> string \<Rightarrow> im_db \<Rightarrow> string \<Rightarrow> string \<Rightarrow> string \<Rightarrow> string \<Rightarrow> (db_err + string) \<times> im_db" where
  "CreateIMChannel up now i d w provider bt user =
     (let P = (\<lambda>r. cr_ws r = w \<and> cr_provider r = provider \<and> cr_bot r = bt) in
      if \<not> up then (Inl DbDown, d)
      else (case find P (im_channels d) of
          Some r \<Rightarrow> (Inr (cr_id r), d\<lparr>im_channels := update_rows P (\<lambda>r. r\<lparr>cr_bound := now\<rparr>) (im_channels d)\<rparr>)
        | None \<Rightarrow>
            if has_channel d i then (Inl DuplicateKey, d)
            else if \<not> has_workspace (im_srv d) w then (Inl ForeignKey, d)
            else (Inr i, d\<lparr>im_channels := im_channels d @
              [\<lparr>cr_id = i, cr_ws = w, cr_provider = provider, cr_bot = bt, cr_user = user, cr_token = None,
                cr_url = None, cr_cursor = Some [], cr_mention = False, cr_routing = ''codex'', cr_scope = None,
                cr_verify = None, cr_bound = now\<rparr>]\<rparr>)))"

definition update_channel :: "bool \<Rightarrow> im_db \<Rightarrow> string \<Rightarrow> (channel_row \<Rightarrow> channel_row) \<Rightarrow> db_err option \<times> im_db" where
  "update_channel up d c f =
     (if \<not> up then (Some DbDown, d)
      else (None, d\<lparr>im_channels := update_rows (\<lambda>r. cr_id r = c) f (im_channels d)\<rparr>))"

definition SaveIMChannelCredentials :: "bool \<Rightarrow> im_db \<Rightarrow> string \<Rightarrow> string \<Rightarrow> string \<Rightarrow> db_err option \<times> im_db" where
  "SaveIMChannelCredentials up d c token url =
     update_channel up d c (\<lambda>r. r\<lparr>cr_token := Some token, cr_url := Some url\<rparr>)"

definition SetIMChannelVerifyToken :: "bool \<Rightarrow> im_db \<Rightarrow> string \<Rightarrow> string \<Rightarrow> db_err option \<times> im_db" where
  "SetIMChannelVerifyToken up d c token = update_channel up d c (\<lambda>r. r\<lparr>cr_verify := Some token\<rparr>)"

definition GetIMChannelByWorkspaceAndToken ::
  "bool \<Rightarrow> im_db \<Rightarrow> string \<Rightarrow> string \<Rightarrow> db_err + IMChannel option" where
  "GetIMChannelByWorkspaceAndToken up d w token =
     (if \<not> up then Inl DbDown
      else Inr (map_option finishIMChannel (find (\<lambda>r. cr_ws r = w \<and> cr_provider r = ''whatsapp'' \<and>
             cr_verify r = Some token) (im_channels d))))"

definition GetIMChannel :: "bool \<Rightarrow> im_db \<Rightarrow> string \<Rightarrow> db_err + IMChannel option" where
  "GetIMChannel up d c =
     (if \<not> up then Inl DbDown
      else Inr (map_option finishIMChannel (find (\<lambda>r. cr_id r = c) (im_channels d))))"

definition ListIMChannels :: "bool \<Rightarrow> im_db \<Rightarrow> string \<Rightarrow> db_err + IMChannel list" where
  "ListIMChannels up d w =
     (if \<not> up then Inl DbDown
      else Inr (map finishIMChannel (sort_key cr_bound (filter (\<lambda>r. cr_ws r = w) (im_channels d)))))"

definition ListAllActiveChannels :: "bool \<Rightarrow> im_db \<Rightarrow> string \<Rightarrow> db_err + IMChannel list" where
  "ListAllActiveChannels up d provider =
     (if \<not> up then Inl DbDown
      else Inr (map finishIMChannel
             (filter (\<lambda>r. cr_provider r = provider \<and> cr_token r \<noteq> None) (im_channels d))))"

definition DispatchInboundChannel :: "bool \<Rightarrow> im_db \<Rightarrow> string \<Rightarrow> db_err + IMChannel option" where
  "DispatchInboundChannel up d c =
     (if \<not> up then Inl DbDown
      else Inr (map_option finishIMChannel (find (\<lambda>r. cr_id r = c) (im_channels d))))"

definition FindIMChannelByProviderBot :: "bool \<Rightarrow> im_db \<Rightarrow> string \<Rightarrow> string \<Rightarrow> db_err + IMChannel option" where
  "FindIMChannelByProviderBot up d provider bt =
     (if \<not> up then Inl DbDown
      else (case sort_key cr_bound (filter (\<lambda>r. cr_provider r = provider \<and> cr_bot r = bt) (im_channels d)) of
          [] \<Rightarrow> Inr None
        | r # _ \<Rightarrow> Inr (Some (finishIMChannel r))))"

definition FindIMChannelByWorkspaceAndBot ::
  "bool \<Rightarrow> im_db \<Rightarrow> string \<Rightarrow> string \<Rightarrow> string \<Rightarrow> db_err + IMChannel option" where
  "FindIMChannelByWorkspaceAndBot up d w provider bt =
     (if \<not> up then Inl DbDown
      else Inr (map_option finishIMChannel (find (\<lambda>r. cr_ws r = w \<and> cr_provider r = provider \<and> cr_bot r = bt)
             (im_channels d))))"

definition DeleteIMChannel :: "bool \<Rightarrow> im_db \<Rightarrow> string \<Rightarrow> db_err option \<times> im_db" where
  "DeleteIMChannel up d c =
     (if \<not> up then (Some DbDown, d)
      else (None, d\<lparr>im_channels := filter (\<lambda>r. cr_id r \<noteq> c) (im_channels d),
                    im_meta := (\<lambda>(c', u, k). if c' = c then None else im_meta d (c', u, k)),
                    im_bound := filter (\<lambda>b. cb_channel b \<noteq> c) (im_bound d)\<rparr>))"

definition UpdateIMChannelCursor :: "bool \<Rightarrow> im_db \<Rightarrow> string \<Rightarrow> string \<Rightarrow> db_err option \<times> im_db" where
  "UpdateIMChannelCursor up d c cursor = update_channel up d c (\<lambda>r. r\<lparr>cr_cursor := Some cursor\<rparr>)"

definition GetChannelRequireMention :: "bool \<Rightarrow> im_db \<Rightarrow> string \<Rightarrow> db_err + bool option" where
  "GetChannelRequireMention up d c =
     (if \<not> up then Inl DbDown else Inr (map_option cr_mention (find (\<lambda>r. cr_id r = c) (im_channels d))))"

definition UpdateIMChannelSettings :: "bool \<Rightarrow> im_db \<Rightarrow> string \<Rightarrow> bool \<Rightarrow> db_err option \<times> im_db" where
  "UpdateIMChannelSettings up d c mention = update_channel up d c (\<lambda>r. r\<lparr>cr_mention := mention\<rparr>)"

definition UpdateIMChannelRoutingMode :: "bool \<Rightarrow> im_db \<Rightarrow> string \<Rightarrow> string \<Rightarrow> db_err option \<times> im_db" where
  "UpdateIMChannelRoutingMode up d c mode = update_channel up d c (\<lambda>r. r\<lparr>cr_routing := mode\<rparr>)"

definition UpsertChannelMeta ::
  "bool \<Rightarrow> im_db \<Rightarrow> string \<Rightarrow> string \<Rightarrow> string \<Rightarrow> string \<Rightarrow> db_err option \<times> im_db" where
  "UpsertChannelMeta up d c user k v =
     (if \<not> up then (Some DbDown, d)
      else if \<not> has_channel d c then (Some ForeignKey, d)
      else (None, d\<lparr>im_meta := (im_meta d)((c, user, k) \<mapsto> v)\<rparr>))"

definition GetChannelMeta :: "bool \<Rightarrow> im_db \<Rightarrow> string \<Rightarrow> string \<Rightarrow> string \<Rightarrow> db_err + string option" where
  "GetChannelMeta up d c user k = (if \<not> up then Inl DbDown else Inr (im_meta d (c, user, k)))"

definition GetAllChannelMeta :: "bool \<Rightarrow> im_db \<Rightarrow> string \<Rightarrow> string \<Rightarrow> db_err + (string \<rightharpoonup> string)" where
  "GetAllChannelMeta up d c user = (if \<not> up then Inl DbDown else Inr (\<lambda>k. im_meta d (c, user, k)))"

section \<open>The junction of sandboxes and channels\<close>

definition bind_pair :: "time \<Rightarrow> im_db \<Rightarrow> string \<Rightarrow> string \<Rightarrow> db_err + im_db" where
  "bind_pair now d s c =
     (if list_ex (\<lambda>b. cb_sandbox b = s \<and> cb_channel b = c) (im_bound d) then Inr d
      else if \<not> has_sandbox (im_srv d) s \<or> \<not> has_channel d c then Inl ForeignKey
      else Inr (d\<lparr>im_bound := im_bound d @ [\<lparr>cb_sandbox = s, cb_channel = c, cb_bound = now\<rparr>]\<rparr>))"

text \<open>One transaction: 0 the begin, 1 the deletion, 2 the insertion, 3 the commit.\<close>

definition BindSandboxToChannel ::
  "(nat \<Rightarrow> bool) \<Rightarrow> time \<Rightarrow> im_db \<Rightarrow> string \<Rightarrow> string \<Rightarrow> db_err option \<times> im_db" where
  "BindSandboxToChannel up now d s c =
     (if \<not> up 0 \<or> \<not> up 1 \<or> \<not> up 2 then (Some DbDown, d)
      else (case bind_pair now (d\<lparr>im_bound := filter (\<lambda>b. cb_channel b \<noteq> c) (im_bound d)\<rparr>) s c of
          Inl e \<Rightarrow> (Some e, d)
        | Inr d1 \<Rightarrow> if \<not> up 3 then (Some DbDown, d) else (None, d1)))"

text \<open>0 the begin, 1 the deletion, 2 the commit.\<close>

definition UnbindSandboxFromChannel :: "(nat \<Rightarrow> bool) \<Rightarrow> im_db \<Rightarrow> string \<Rightarrow> db_err option \<times> im_db" where
  "UnbindSandboxFromChannel up d s =
     (if \<not> up 0 \<or> \<not> up 1 \<or> \<not> up 2 then (Some DbDown, d)
      else (None, d\<lparr>im_bound := filter (\<lambda>b. cb_sandbox b \<noteq> s) (im_bound d)\<rparr>))"

text \<open>0 the begin, 1 the commit, \<open>2 + n\<close> the insertion of the channel \<open>n\<close>.\<close>

fun bind_all :: "(nat \<Rightarrow> bool) \<Rightarrow> time \<Rightarrow> nat \<Rightarrow> string \<Rightarrow> string list \<Rightarrow> im_db \<Rightarrow> db_err + im_db" where
  "bind_all up now n s [] d = Inr d"
| "bind_all up now n s (c # cs) d =
     (if \<not> up (2 + n) then Inl DbDown
      else (case bind_pair now d s c of
          Inl e \<Rightarrow> Inl e
        | Inr d1 \<Rightarrow> bind_all up now (Suc n) s cs d1))"

definition BindSandboxChannels ::
  "(nat \<Rightarrow> bool) \<Rightarrow> time \<Rightarrow> im_db \<Rightarrow> string \<Rightarrow> string list \<Rightarrow> db_err option \<times> im_db" where
  "BindSandboxChannels up now d s cs =
     (if cs = [] then (None, d)
      else if \<not> up 0 then (Some DbDown, d)
      else (case bind_all up now 0 s cs d of
          Inl e \<Rightarrow> (Some e, d)
        | Inr d1 \<Rightarrow> if \<not> up 1 then (Some DbDown, d) else (None, d1)))"

definition UnbindSandboxChannel :: "bool \<Rightarrow> im_db \<Rightarrow> string \<Rightarrow> string \<Rightarrow> db_err option \<times> im_db" where
  "UnbindSandboxChannel up d s c =
     (if \<not> up then (Some DbDown, d)
      else (None, d\<lparr>im_bound := filter (\<lambda>b. \<not> (cb_sandbox b = s \<and> cb_channel b = c)) (im_bound d)\<rparr>))"

definition UnbindAllSandboxChannels :: "bool \<Rightarrow> im_db \<Rightarrow> string \<Rightarrow> db_err option \<times> im_db" where
  "UnbindAllSandboxChannels up d s =
     (if \<not> up then (Some DbDown, d)
      else (None, d\<lparr>im_bound := filter (\<lambda>b. cb_sandbox b \<noteq> s) (im_bound d)\<rparr>))"

text \<open>The sandboxes joined to a channel, the latest binding first.\<close>

definition bound_sandboxes :: "im_db \<Rightarrow> string \<Rightarrow> sbx_row list" where
  "bound_sandboxes d c =
     List.concat (map (\<lambda>b. filter (\<lambda>r. sb_id r = cb_sandbox b) (sv_sandboxes (im_srv d)))
       (sort_key (\<lambda>b. - cb_bound b) (filter (\<lambda>b. cb_channel b = c) (im_bound d))))"

text \<open>\<open>assistant\<close> reads the name out of the metadata.\<close>

definition GetSandboxForChannelViaBinding ::
  "(string \<Rightarrow> string) \<Rightarrow> bool \<Rightarrow> im_db \<Rightarrow> string \<Rightarrow> db_err + (string \<times> string \<times> string \<times> string) option" where
  "GetSandboxForChannelViaBinding assistant up d c =
     (if \<not> up then Inl DbDown
      else Inr (map_option (\<lambda>r. (sb_id r, the (sb_pod r), coalesce (sb_nanoclaw r), assistant (sb_meta r)))
             (find (\<lambda>r. sb_status r = StatusRunning \<and> sb_pod r \<notin> {None, Some []}) (bound_sandboxes d c))))"

definition GetSandboxForChannel ::
  "(string \<Rightarrow> string) \<Rightarrow> bool \<Rightarrow> im_db \<Rightarrow> string \<Rightarrow> db_err + (string \<times> string \<times> string \<times> string) option" where
  "GetSandboxForChannel assistant up d c = GetSandboxForChannelViaBinding assistant up d c"

definition GetPausedSandboxForChannel :: "bool \<Rightarrow> im_db \<Rightarrow> string \<Rightarrow> db_err + string option" where
  "GetPausedSandboxForChannel up d c =
     (if \<not> up then Inl DbDown
      else Inr (map_option sb_id (find (\<lambda>r. sb_status r = StatusPaused) (bound_sandboxes d c))))"

definition bound_channels :: "im_db \<Rightarrow> string \<Rightarrow> (time \<Rightarrow> time) \<Rightarrow> channel_row list" where
  "bound_channels d s dir =
     List.concat (map (\<lambda>b. filter (\<lambda>r. cr_id r = cb_channel b) (im_channels d))
       (sort_key (\<lambda>b. dir (cb_bound b)) (filter (\<lambda>b. cb_sandbox b = s) (im_bound d))))"

definition GetIMChannelForSandbox :: "bool \<Rightarrow> im_db \<Rightarrow> string \<Rightarrow> db_err + IMChannel option" where
  "GetIMChannelForSandbox up d s =
     (if \<not> up then Inl DbDown
      else (case bound_channels d s uminus of
          [] \<Rightarrow> Inr None
        | r # _ \<Rightarrow> Inr (Some (finishIMChannel r))))"

text \<open>This list leaves the scope descriptions out.\<close>

definition GetChannelsForSandbox :: "bool \<Rightarrow> im_db \<Rightarrow> string \<Rightarrow> db_err + IMChannel list" where
  "GetChannelsForSandbox up d s =
     (if \<not> up then Inl DbDown
      else Inr (map (\<lambda>r. (finishIMChannel r)\<lparr>ch_scope := []\<rparr>) (bound_channels d s id)))"

definition binding_count :: "im_db \<Rightarrow> string \<Rightarrow> nat" where
  "binding_count d s = length (filter (\<lambda>b. cb_sandbox b = s) (im_bound d))"

definition GetSharedSandbox :: "bool \<Rightarrow> im_db \<Rightarrow> string \<Rightarrow> db_err + string option" where
  "GetSharedSandbox up d w =
     (if \<not> up then Inl DbDown
      else (case sort_key (\<lambda>r. - int (binding_count d (sb_id r))) (sort_key sb_created
             (filter (\<lambda>r. sb_ws r = w \<and> sb_status r = StatusRunning \<and> binding_count d (sb_id r) > 0)
               (sv_sandboxes (im_srv d)))) of
          [] \<Rightarrow> Inr None
        | r # _ \<Rightarrow> Inr (Some (sb_id r))))"

section \<open>Messages\<close>

datatype message_err = MessageDb db_err | DirectionCheck | NegativeLimit

definition SaveIMMessage ::
  "bool \<Rightarrow> time \<Rightarrow> string \<Rightarrow> im_db \<Rightarrow> string \<Rightarrow> string \<Rightarrow> string \<Rightarrow> string \<Rightarrow> string \<Rightarrow> message_err option \<times> im_db" where
  "SaveIMMessage up now i d c user direction msg session =
     (if \<not> up then (Some (MessageDb DbDown), d)
      else if direction \<notin> {''inbound'', ''outbound''} then (Some DirectionCheck, d)
      else if list_ex (\<lambda>m. mg_id m = i) (im_messages d) then (Some (MessageDb DuplicateKey), d)
      else (None, d\<lparr>im_messages := im_messages d @
              [\<lparr>mg_id = i, mg_channel = c, mg_from = user, mg_direction = direction, mg_text = msg,
                mg_session = nullif_empty session, mg_created = now\<rparr>]\<rparr>))"

definition ListIMMessages :: "bool \<Rightarrow> im_db \<Rightarrow> string \<Rightarrow> string \<Rightarrow> int \<Rightarrow> message_err + IMMessage list" where
  "ListIMMessages up d c user limit =
     (if \<not> up then Inl (MessageDb DbDown)
      else if limit < 0 then Inl NegativeLimit
      else Inr (rev (take (nat limit) (sort_key (\<lambda>m. - mg_created m)
             (filter (\<lambda>m. mg_channel m = c \<and> (user \<noteq> [] \<longrightarrow> mg_from m = user)) (im_messages d))))))"

section \<open>Bindings of sandboxes (\<open>im_bindings.go\<close>)\<close>

definition IMBinding_key :: "im_binding_row \<Rightarrow> string \<times> string \<times> string" where
  "IMBinding_key b = (ib_sandbox b, ib_provider b, ib_bot b)"

definition CreateIMBinding ::
  "bool \<Rightarrow> time \<Rightarrow> nat \<Rightarrow> im_db \<Rightarrow> string \<Rightarrow> string \<Rightarrow> string \<Rightarrow> string \<Rightarrow> db_err option \<times> im_db" where
  "CreateIMBinding up now i d s provider bt user =
     (let P = (\<lambda>b. IMBinding_key b = (s, provider, bt)) in
      if \<not> up then (Some DbDown, d)
      else if list_ex P (im_bindings d)
      then (None, d\<lparr>im_bindings := update_rows P (\<lambda>b. b\<lparr>ib_user := user, ib_bound := now\<rparr>) (im_bindings d)\<rparr>)
      else if list_ex (\<lambda>b. ib_id b = i) (im_bindings d) then (Some DuplicateKey, d)
      else if \<not> has_sandbox (im_srv d) s then (Some ForeignKey, d)
      else (None, d\<lparr>im_bindings := im_bindings d @
              [\<lparr>ib_id = i, ib_sandbox = s, ib_provider = provider, ib_bot = bt, ib_user = user, ib_token = None,
                ib_url = None, ib_cursor = None, ib_poll = None, ib_bound = now\<rparr>]\<rparr>))"

definition update_binding ::
  "bool \<Rightarrow> im_db \<Rightarrow> string \<times> string \<times> string \<Rightarrow> (im_binding_row \<Rightarrow> im_binding_row) \<Rightarrow> db_err option \<times> im_db" where
  "update_binding up d k f =
     (if \<not> up then (Some DbDown, d)
      else (None, d\<lparr>im_bindings := update_rows (\<lambda>b. IMBinding_key b = k) f (im_bindings d)\<rparr>))"

definition SaveIMCredentials ::
  "bool \<Rightarrow> im_db \<Rightarrow> string \<Rightarrow> string \<Rightarrow> string \<Rightarrow> string \<Rightarrow> string \<Rightarrow> db_err option \<times> im_db" where
  "SaveIMCredentials up d s provider bt token url =
     update_binding up d (s, provider, bt) (\<lambda>b. b\<lparr>ib_token := Some token, ib_url := Some url\<rparr>)"

definition GetIMCredentials ::
  "bool \<Rightarrow> im_db \<Rightarrow> string \<Rightarrow> string \<Rightarrow> string \<Rightarrow> db_err + (string \<times> string) option" where
  "GetIMCredentials up d s provider bt =
     (if \<not> up then Inl DbDown
      else Inr (map_option (\<lambda>b. (coalesce (ib_token b), coalesce (ib_url b)))
             (find (\<lambda>b. IMBinding_key b = (s, provider, bt)) (im_bindings d))))"

text \<open>The list leaves credentials and cursor out.\<close>

definition ListIMBindings :: "bool \<Rightarrow> im_db \<Rightarrow> string \<Rightarrow> string \<Rightarrow> db_err + im_binding_row list" where
  "ListIMBindings up d s provider =
     (if \<not> up then Inl DbDown
      else Inr (map (\<lambda>b. b\<lparr>ib_token := Some [], ib_url := Some [], ib_cursor := Some [], ib_poll := None\<rparr>)
             (sort_key (\<lambda>b. - ib_bound b)
               (filter (\<lambda>b. ib_sandbox b = s \<and> (provider \<noteq> [] \<longrightarrow> ib_provider b = provider)) (im_bindings d)))))"

definition scan_binding :: "im_binding_row \<Rightarrow> im_binding_row" where
  "scan_binding b = b\<lparr>ib_token := Some (coalesce (ib_token b)), ib_url := Some (coalesce (ib_url b)),
     ib_cursor := Some (coalesce (ib_cursor b)), ib_poll := None\<rparr>"

definition GetActiveBindings :: "bool \<Rightarrow> im_db \<Rightarrow> string \<Rightarrow> db_err + im_binding_row list" where
  "GetActiveBindings up d provider =
     (if \<not> up then Inl DbDown
      else Inr (map scan_binding (filter (\<lambda>b. ib_provider b = provider \<and> ib_token b \<notin> {None, Some []} \<and>
             list_ex (\<lambda>r. sb_id r = ib_sandbox b \<and> sb_type r = ''nanoclaw'' \<and> sb_status r = StatusRunning)
               (sv_sandboxes (im_srv d))) (im_bindings d))))"

definition GetActiveBindingsForSandbox :: "bool \<Rightarrow> im_db \<Rightarrow> string \<Rightarrow> db_err + im_binding_row list" where
  "GetActiveBindingsForSandbox up d s =
     (if \<not> up then Inl DbDown
      else Inr (map scan_binding (filter (\<lambda>b. ib_sandbox b = s \<and> ib_token b \<notin> {None, Some []}) (im_bindings d))))"

definition UpdateCursor ::
  "bool \<Rightarrow> time \<Rightarrow> im_db \<Rightarrow> string \<Rightarrow> string \<Rightarrow> string \<Rightarrow> string \<Rightarrow> db_err option \<times> im_db" where
  "UpdateCursor up now d s provider bt cursor =
     update_binding up d (s, provider, bt) (\<lambda>b. b\<lparr>ib_cursor := Some cursor, ib_poll := Some now\<rparr>)"

definition UpsertProviderMeta ::
  "bool \<Rightarrow> im_db \<Rightarrow> string \<Rightarrow> string \<Rightarrow> string \<Rightarrow> string \<Rightarrow> string \<Rightarrow> string \<Rightarrow> db_err option \<times> im_db" where
  "UpsertProviderMeta up d s provider bt user k v =
     (if \<not> up then (Some DbDown, d)
      else if \<not> has_sandbox (im_srv d) s then (Some ForeignKey, d)
      else (None, d\<lparr>im_pmeta := (im_pmeta d)((s, provider, bt, user, k) \<mapsto> v)\<rparr>))"

definition GetProviderMeta ::
  "bool \<Rightarrow> im_db \<Rightarrow> string \<Rightarrow> string \<Rightarrow> string \<Rightarrow> string \<Rightarrow> string \<Rightarrow> db_err + string option" where
  "GetProviderMeta up d s provider bt user k =
     (if \<not> up then Inl DbDown else Inr (im_pmeta d (s, provider, bt, user, k)))"

definition GetAllProviderMeta ::
  "bool \<Rightarrow> im_db \<Rightarrow> string \<Rightarrow> string \<Rightarrow> string \<Rightarrow> string \<Rightarrow> db_err + (string \<rightharpoonup> string)" where
  "GetAllProviderMeta up d s provider bt user =
     (if \<not> up then Inl DbDown else Inr (\<lambda>k. im_pmeta d (s, provider, bt, user, k)))"

definition DeleteIMBinding :: "bool \<Rightarrow> im_db \<Rightarrow> string \<Rightarrow> string \<Rightarrow> string \<Rightarrow> db_err option \<times> im_db" where
  "DeleteIMBinding up d s provider bt =
     (if \<not> up then (Some DbDown, d)
      else (None, d\<lparr>im_bindings := filter (\<lambda>b. IMBinding_key b \<noteq> (s, provider, bt)) (im_bindings d)\<rparr>))"

end
