(* ===== verification/Life_Spec.thy ===== *)
theory Life_Spec
  imports Sandbox_Store "HOL-Library.Multiset"
begin

text \<open>
  The abstract lifecycle of sandboxes, on identifiers, kinds and statuses: what requests, the
  goroutines they leave behind, the idle watcher and the tunnels of local sandboxes may do to a
  sandbox, in any order.  Its invariants are proved here; \<open>Life_Cycle\<close> shows that the steps of the
  server refine it.
\<close>

section \<open>The abstract lifecycle\<close>

text \<open>
  What a row shows: its identifier, whether it is local, its status and the time of its pause.
\<close>

type_synonym row_view = "string \<times> bool \<times> sbx_status \<times> time option"

definition view :: "srv_db \<Rightarrow> row_view list" where
  "view db = map (\<lambda>r. (sb_id r, sb_local r, sb_status r, sb_paused r)) (sv_sandboxes db)"

text \<open>What is pending: a goroutine between two statement groups, or a handler of a tunnel.\<close>

datatype job =
    StartJob string | PauseBegin string | PauseJob string | ResumeBegin string | ResumeJob string
  | IdleScan "string list" | IdleJob string "string list" | TunnelJob string nat | OfflineJob string bool
  | WakeJob string

fun job_ids :: "job \<Rightarrow> string list" where
  "job_ids (StartJob i) = [i]"
| "job_ids (PauseBegin i) = [i]"
| "job_ids (PauseJob i) = [i]"
| "job_ids (ResumeBegin i) = [i]"
| "job_ids (ResumeJob i) = [i]"
| "job_ids (IdleScan is) = is"
| "job_ids (IdleJob i is) = i # is"
| "job_ids (TunnelJob i t) = [i]"
| "job_ids (OfflineJob i a) = [i]"
| "job_ids (WakeJob i) = [i]"

fun local_job :: "job \<Rightarrow> bool" where
  "local_job (TunnelJob i t) = True"
| "local_job (OfflineJob i a) = True"
| "local_job _ = False"

definition mark :: "string \<Rightarrow> sbx_status \<Rightarrow> time \<Rightarrow> row_view \<Rightarrow> row_view" where
  "mark i st now v =
     (case v of (j, l, s, p) \<Rightarrow>
        if j \<noteq> i then v
        else (j, l, st, case st of StatusPaused \<Rightarrow> Some now | StatusRunning \<Rightarrow> None | _ \<Rightarrow> p))"

definition fresh_id :: "string \<Rightarrow> job multiset \<Rightarrow> bool" where
  "fresh_id i J \<longleftrightarrow> (\<forall>j \<in># J. i \<notin> set (job_ids j))"

text \<open>
  One step of the abstract lifecycle.  Unless \<open>ok\<close> holds the database may fail, so that a job can end without its
  effect, and the server may be restarted, which loses all jobs.
\<close>

inductive spec_step :: "bool \<Rightarrow> row_view list \<times> job multiset \<Rightarrow> row_view list \<times> job multiset \<Rightarrow> bool"
  for ok where
  create: "i \<notin> fst ` set vs \<Longrightarrow> fresh_id i J \<Longrightarrow>
    spec_step ok (vs, J) (vs @ [(i, False, StatusCreating, None)], add_mset (StartJob i) J)"
| register: "i \<notin> fst ` set vs \<Longrightarrow> fresh_id i J \<Longrightarrow>
    spec_step ok (vs, J) (vs @ [(i, True, StatusRunning, None)], J)"
| delete: "spec_step ok (vs, J) (filter P vs, J)"
| started: "spec_step ok (vs, add_mset (StartJob i) J) (map (mark i StatusRunning now) vs, J)"
| not_started: "spec_step ok (vs, add_mset (StartJob i) J) (filter (\<lambda>v. fst v \<noteq> i) vs, J)"
| may_pause: "(i, False, StatusRunning, p) \<in> set vs \<Longrightarrow> spec_step ok (vs, J) (vs, add_mset (PauseBegin i) J)"
| pausing: "spec_step ok (vs, add_mset (PauseBegin i) J)
    (map (mark i StatusPausing now) vs, add_mset (PauseJob i) J)"
| paused: "st \<in> {StatusRunning, StatusPaused} \<Longrightarrow>
    spec_step ok (vs, add_mset (PauseJob i) J) (map (mark i st now) vs, J)"
| may_resume: "(i, False, StatusPaused, p) \<in> set vs \<Longrightarrow> spec_step ok (vs, J) (vs, add_mset (ResumeBegin i) J)"
| resuming: "spec_step ok (vs, add_mset (ResumeBegin i) J)
    (map (mark i StatusResuming now) vs, add_mset (ResumeJob i) J)"
| resumed: "st \<in> {StatusRunning, StatusPaused} \<Longrightarrow>
    spec_step ok (vs, add_mset (ResumeJob i) J) (map (mark i st now) vs, J)"
| may_wake: "(i, l, StatusPaused, p) \<in> set vs \<Longrightarrow> spec_step ok (vs, J) (vs, add_mset (WakeJob i) J)"
| woken: "spec_step ok (vs, add_mset (WakeJob i) J) (map (mark i StatusRunning now) vs, J)"
| not_woken: "spec_step ok (vs, add_mset (WakeJob i) J) (vs, J)"
| scan: "(\<And>i. i \<in> set is \<Longrightarrow> \<exists>p. (i, False, StatusRunning, p) \<in> set vs) \<Longrightarrow>
    spec_step ok (vs, J) (vs, add_mset (IdleScan is) J)"
| idle_pausing: "spec_step ok (vs, add_mset (IdleScan (i # is)) J)
    (map (mark i StatusPausing now) vs, add_mset (IdleJob i is) J)"
| idle_paused: "st \<in> {StatusRunning, StatusPaused} \<Longrightarrow>
    spec_step ok (vs, add_mset (IdleJob i is) J) (map (mark i st now) vs, add_mset (IdleScan is) J)"
| idle_done: "spec_step ok (vs, add_mset (IdleScan []) J) (vs, J)"
| connect: "(i, True, s, p) \<in> set vs \<Longrightarrow>
    spec_step ok (vs, J) (map (mark i StatusRunning now) vs, add_mset (TunnelJob i t) J)"
| leave: "spec_step ok (vs, add_mset (TunnelJob i t) J) (vs, add_mset (OfflineJob i a) J)"
| offline: "spec_step ok (vs, add_mset (OfflineJob i True) J) (map (mark i StatusOffline now) vs, J)"
| replaced: "spec_step ok (vs, add_mset (OfflineJob i False) J) (vs, J)"
| quiet: "spec_step ok x x"
| restart: "\<not> ok \<Longrightarrow> spec_step ok (vs, J) (vs, {#})"
| lost: "\<not> ok \<Longrightarrow> spec_step ok (vs, add_mset j J) (vs, J)"
| idle_lost: "\<not> ok \<Longrightarrow> spec_step ok (vs, add_mset (IdleJob i is) J) (vs, add_mset (IdleScan is) J)"
| idle_skip: "\<not> ok \<Longrightarrow> spec_step ok (vs, add_mset (IdleScan (i # is)) J) (vs, add_mset (IdleScan is) J)"
| connect_lost: "\<not> ok \<Longrightarrow> (i, True, s, p) \<in> set vs \<Longrightarrow> spec_step ok (vs, J) (vs, add_mset (TunnelJob i t) J)"

section \<open>Invariants of the abstract lifecycle\<close>

definition view_ok :: "row_view \<Rightarrow> bool" where
  "view_ok v = (case v of (i, l, st, p) \<Rightarrow>
     (if l then st \<in> {StatusRunning, StatusOffline}
      else st \<in> {StatusCreating, StatusRunning, StatusPausing, StatusPaused, StatusResuming}) \<and>
     (st = StatusPaused \<longrightarrow> p \<noteq> None) \<and> (st = StatusRunning \<longrightarrow> p = None))"

definition spec_ok :: "row_view list \<times> job multiset \<Rightarrow> bool" where
  "spec_ok x = (case x of (vs, J) \<Rightarrow>
     distinct (map fst vs) \<and> (\<forall>v \<in> set vs. view_ok v) \<and>
     (\<forall>j \<in># J. \<forall>v \<in> set vs. fst v \<in> set (job_ids j) \<longrightarrow> fst (snd v) = local_job j))"

lemma spec_okI:
  assumes "distinct (map fst vs)" and "\<And>v. v \<in> set vs \<Longrightarrow> view_ok v"
    and "\<And>j v. j \<in># J \<Longrightarrow> v \<in> set vs \<Longrightarrow> fst v \<in> set (job_ids j) \<Longrightarrow> fst (snd v) = local_job j"
  shows "spec_ok (vs, J)"
  using assms by (simp add: spec_ok_def)

lemma spec_okD:
  assumes "spec_ok (vs, J)"
  shows "distinct (map fst vs)" and "v \<in> set vs \<Longrightarrow> view_ok v"
    and "j \<in># J \<Longrightarrow> v \<in> set vs \<Longrightarrow> fst v \<in> set (job_ids j) \<Longrightarrow> fst (snd v) = local_job j"
  using assms by (simp_all add: spec_ok_def)

lemma fst_mark [simp]: "fst (mark i st now v) = fst v" "fst (snd (mark i st now v)) = fst (snd v)"
  by (simp_all add: mark_def split: prod.split)

lemma fst_o_mark [simp]: "fst \<circ> mark i st now = fst"
  by (simp add: fun_eq_iff)

text \<open>A mark is allowed where a job of the same kind names the row.\<close>

lemma view_ok_mark:
  assumes "view_ok v"
    and "fst v = i \<Longrightarrow> if fst (snd v) then st \<in> {StatusRunning, StatusOffline}
           else st \<in> {StatusRunning, StatusPausing, StatusPaused, StatusResuming}"
  shows "view_ok (mark i st now v)"
  using assms by (auto simp: view_ok_def mark_def split: prod.splits if_splits sbx_status.split)

lemma spec_ok_mark:
  assumes "spec_ok (vs, J)" and "j \<in># J" and "i \<in> set (job_ids j)"
    and "if local_job j then st \<in> {StatusRunning, StatusOffline}
         else st \<in> {StatusRunning, StatusPausing, StatusPaused, StatusResuming}"
    and "\<And>j'. j' \<in># J' \<Longrightarrow> \<exists>k \<in># J. set (job_ids j') \<subseteq> set (job_ids k) \<and> local_job j' = local_job k"
  shows "spec_ok (map (mark i st now) vs, J')"
proof (rule spec_okI)
  show "distinct (map fst (map (mark i st now) vs))" using spec_okD(1) [OF assms(1)] by simp
next
  fix v assume "v \<in> set (map (mark i st now) vs)"
  then obtain u where u: "u \<in> set vs" "v = mark i st now u" by auto
  show "view_ok v" unfolding u(2)
  proof (rule view_ok_mark)
    show "view_ok u" using spec_okD(2) [OF assms(1)] u(1) by blast
    assume "fst u = i"
    then have "fst (snd u) = local_job j" using spec_okD(3) [OF assms(1) assms(2) u(1)] assms(3) by simp
    then show "if fst (snd u) then st \<in> {StatusRunning, StatusOffline}
           else st \<in> {StatusRunning, StatusPausing, StatusPaused, StatusResuming}"
      using assms(4) by simp
  qed
next
  fix k v assume k: "k \<in># J'" "v \<in> set (map (mark i st now) vs)" "fst v \<in> set (job_ids k)"
  then obtain u where u: "u \<in> set vs" "v = mark i st now u" by auto
  from assms(5) [OF k(1)] obtain j' where "j' \<in># J" "set (job_ids k) \<subseteq> set (job_ids j')" "local_job k = local_job j'"
    by blast
  then show "fst (snd v) = local_job k" using spec_okD(3) [OF assms(1) _ u(1), of j'] k(3) u(2) by auto
qed

lemma spec_ok_filter:
  assumes "spec_ok (vs, J)"
    and "\<And>j'. j' \<in># J' \<Longrightarrow> \<exists>k \<in># J. set (job_ids j') \<subseteq> set (job_ids k) \<and> local_job j' = local_job k"
  shows "spec_ok (filter P vs, J')"
proof (rule spec_okI)
  fix k v assume k: "k \<in># J'" "v \<in> set (filter P vs)" "fst v \<in> set (job_ids k)"
  from assms(2) [OF k(1)] obtain j' where "j' \<in># J" "set (job_ids k) \<subseteq> set (job_ids j')" "local_job k = local_job j'"
    by blast
  then show "fst (snd v) = local_job k" using spec_okD(3) [OF assms(1), of j' v] k by auto
next
  show "distinct (map fst (filter P vs))" using spec_okD(1) [OF assms(1)] by (rule distinct_map_filter)
qed (use spec_okD(2) [OF assms(1)] in auto)

lemmas spec_ok_fewer = spec_ok_filter [where P = "\<lambda>_. True", simplified]

lemma spec_ok_job:
  assumes "spec_ok (vs, J)" and "\<And>v. v \<in> set vs \<Longrightarrow> fst v \<in> set (job_ids j) \<Longrightarrow> fst (snd v) = local_job j"
  shows "spec_ok (vs, add_mset j J)"
  using assms by (auto simp: spec_ok_def)

lemma spec_ok_unique:
  assumes "spec_ok (vs, J)" "v \<in> set vs" "w \<in> set vs" "fst v = fst w"
  shows "v = w"
  using distinct_map_inj_on [OF spec_okD(1) [OF assms(1)]] assms(2-) by blast

lemma spec_ok_new:
  assumes "spec_ok (vs, J)" "i \<notin> fst ` set vs" "fresh_id i J" "view_ok (i, l, st, p)"
  shows "spec_ok (vs @ [(i, l, st, p)], J)"
  using assms by (auto simp: spec_ok_def fresh_id_def)

lemma spec_ok_step:
  assumes "spec_step ok x y" and "spec_ok x"
  shows "spec_ok y"
  using assms
proof (cases rule: spec_step.cases)
  case (create i vs J)
  have "spec_ok (vs @ [(i, False, StatusCreating, None)], J)"
    using assms(2) create by (intro spec_ok_new) (auto simp: view_ok_def)
  then show ?thesis unfolding create
  proof (rule spec_ok_job)
    fix v assume "v \<in> set (vs @ [(i, False, StatusCreating, None)])" "fst v \<in> set (job_ids (StartJob i))"
    with create(3) have "v = (i, False, StatusCreating, None)" by (auto simp: image_iff)
    then show "fst (snd v) = local_job (StartJob i)" by simp
  qed
next
  case (register i vs J)
  then show ?thesis using assms(2) by (auto intro: spec_ok_new simp: view_ok_def)
next
  case (may_pause i p vs J)
  have "fst (snd v) = False" if "v \<in> set vs" "fst v = i" for v
    using spec_ok_unique [of vs J v "(i, False, StatusRunning, p)"] assms(2) may_pause that by auto
  then show ?thesis using assms(2) unfolding may_pause(1,2) by - (rule spec_ok_job, auto)
next
  case (may_resume i p vs J)
  have "fst (snd v) = False" if "v \<in> set vs" "fst v = i" for v
    using spec_ok_unique [of vs J v "(i, False, StatusPaused, p)"] assms(2) may_resume that by auto
  then show ?thesis using assms(2) unfolding may_resume(1,2) by - (rule spec_ok_job, auto)
next
  case (may_wake i l p vs J)
  from assms(2) may_wake have "view_ok (i, l, StatusPaused, p)" by (auto dest: spec_okD(2))
  then have "\<not> l" by (simp add: view_ok_def split: if_splits)
  then have "fst (snd v) = False" if "v \<in> set vs" "fst v = i" for v
    using spec_ok_unique [of vs J v "(i, l, StatusPaused, p)"] assms(2) may_wake that by auto
  then show ?thesis using assms(2) unfolding may_wake(1,2) by - (rule spec_ok_job, auto)
next
  case (woken vs i J now)
  show ?thesis using assms(2) unfolding woken(1) woken(2)
    by (rule spec_ok_mark [where j = "WakeJob i"]) auto
next
  case (not_woken vs i J)
  show ?thesis using assms(2) unfolding not_woken(1) not_woken(2)
    by (rule spec_ok_fewer) auto
next
  case (restart vs J)
  show ?thesis using assms(2) unfolding restart(1) restart(2)
    by (rule spec_ok_fewer) auto
next
  case (scan "is" vs J)
  have "fst (snd v) = False" if "v \<in> set vs" "fst v \<in> set is" for v
  proof -
    from scan(3) that(2) obtain p where "(fst v, False, StatusRunning, p) \<in> set vs" by blast
    from spec_ok_unique [OF _ that(1) this, of J] assms(2) scan(1)
    have "v = (fst v, False, StatusRunning, p)" by simp
    then have "snd v = (False, StatusRunning, p)" by (metis snd_conv)
    then show ?thesis by simp
  qed
  then show ?thesis using assms(2) unfolding scan(1,2) by - (rule spec_ok_job, auto)
next
  case (connect i s p vs J now t)
  have "fst (snd v) = True" if "v \<in> set vs" "fst v = i" for v
    using spec_ok_unique [of vs J v "(i, True, s, p)"] assms(2) connect that by auto
  then have "spec_ok (vs, add_mset (TunnelJob i t) J)"
    using assms(2) unfolding connect(1) by - (rule spec_ok_job, auto)
  then show ?thesis unfolding connect by (rule spec_ok_mark [of _ _ "TunnelJob i t"]) auto
next
  case (connect_lost i s p vs J t)
  have "fst (snd v) = True" if "v \<in> set vs" "fst v = i" for v
    using spec_ok_unique [of vs J v "(i, True, s, p)"] assms(2) connect_lost that by auto
  then show ?thesis using assms(2) unfolding connect_lost(1,2) by - (rule spec_ok_job, auto)
next
  case (delete vs J P)
  show ?thesis using assms(2) unfolding delete(1) delete(2)
    by (rule spec_ok_filter) auto
next
  case (started vs i J now)
  show ?thesis using assms(2) unfolding started(1) started(2)
    by (rule spec_ok_mark [where j = "StartJob i"]) auto
next
  case (not_started vs i J)
  show ?thesis using assms(2) unfolding not_started(1) not_started(2)
    by (rule spec_ok_filter) auto
next
  case (pausing vs i J now)
  show ?thesis using assms(2) unfolding pausing(1) pausing(2)
    by (rule spec_ok_mark [where j = "PauseBegin i"]) auto
next
  case (paused st vs i J now)
  show ?thesis using assms(2) unfolding paused(1) paused(2)
    by (rule spec_ok_mark [where j = "PauseJob i"]) (use paused(3) in auto)
next
  case (resuming vs i J now)
  show ?thesis using assms(2) unfolding resuming(1) resuming(2)
    by (rule spec_ok_mark [where j = "ResumeBegin i"]) auto
next
  case (resumed st vs i J now)
  show ?thesis using assms(2) unfolding resumed(1) resumed(2)
    by (rule spec_ok_mark [where j = "ResumeJob i"]) (use resumed(3) in auto)
next
  case (idle_pausing vs i "is" J now)
  show ?thesis using assms(2) unfolding idle_pausing(1) idle_pausing(2)
    by (rule spec_ok_mark [where j = "IdleScan (i # is)"]) auto
next
  case (idle_paused st vs i "is" J now)
  show ?thesis using assms(2) unfolding idle_paused(1) idle_paused(2)
    by (rule spec_ok_mark [where j = "IdleJob i is"]) (use idle_paused(3) in auto)
next
  case (idle_done vs J)
  show ?thesis using assms(2) unfolding idle_done(1) idle_done(2)
    by (rule spec_ok_fewer) auto
next
  case (leave vs i t J a)
  show ?thesis using assms(2) unfolding leave(1) leave(2)
    by (rule spec_ok_fewer) auto
next
  case (offline vs i J now)
  show ?thesis using assms(2) unfolding offline(1) offline(2)
    by (rule spec_ok_mark [where j = "OfflineJob i True"]) auto
next
  case (replaced vs i J)
  show ?thesis using assms(2) unfolding replaced(1) replaced(2)
    by (rule spec_ok_fewer) auto
next
  case quiet
  then show ?thesis using assms(2) by simp
next
  case (lost vs j J)
  show ?thesis using assms(2) unfolding lost(1) lost(2)
    by (rule spec_ok_fewer) auto
next
  case (idle_lost vs i "is" J)
  show ?thesis using assms(2) unfolding idle_lost(1) idle_lost(2)
    by (rule spec_ok_fewer) auto
next
  case (idle_skip vs i "is" J)
  show ?thesis using assms(2) unfolding idle_skip(1) idle_skip(2)
    by (rule spec_ok_fewer) auto
qed

text \<open>A row in a status of passage has the goroutine that ends it; \<open>end_of\<close> tells whose end it is.\<close>

fun end_of :: "job \<Rightarrow> string option" where
  "end_of (StartJob i) = Some i"
| "end_of (PauseJob i) = Some i"
| "end_of (ResumeJob i) = Some i"
| "end_of (IdleJob i is) = Some i"
| "end_of _ = None"

definition settled_status :: "sbx_status \<Rightarrow> bool" where
  "settled_status st \<longleftrightarrow> st \<in> {StatusRunning, StatusPaused, StatusOffline}"

definition pending :: "job multiset \<Rightarrow> row_view \<Rightarrow> bool" where
  "pending J v = (case v of (i, l, st, p) \<Rightarrow>
     settled_status st \<or> (\<exists>j \<in># J. end_of j = Some i))"

lemma pending_other: "pending (add_mset j J) v \<Longrightarrow> end_of j \<noteq> Some (fst v) \<Longrightarrow> pending J v"
  by (auto simp: pending_def split: prod.splits)

lemma pending_swap: "pending (add_mset j J) v \<Longrightarrow> end_of j = None \<Longrightarrow> pending (add_mset k J) v"
  by (auto simp: pending_def split: prod.splits)

lemma pending_drop: "pending (add_mset j J) v \<Longrightarrow> end_of j = None \<Longrightarrow> pending J v"
  by (auto simp: pending_def split: prod.splits)

lemma pending_add: "pending J v \<Longrightarrow> pending (add_mset j J) v"
  by (auto simp: pending_def split: prod.splits)

lemma pending_mark:
  "pending J v \<Longrightarrow> settled_status st \<or> (\<exists>j \<in># J. end_of j = Some i) \<Longrightarrow> pending J (mark i st now v)"
  by (auto simp: pending_def mark_def split: prod.splits)

lemma pending_end:
  "pending (add_mset j J) v \<Longrightarrow> end_of j = Some i \<Longrightarrow> settled_status st \<Longrightarrow> pending J (mark i st now v)"
  by (auto simp: pending_def mark_def split: prod.splits)

lemma spec_live_step:
  assumes "spec_step True x y" and "\<forall>v \<in> set (fst x). pending (snd x) v"
  shows "\<forall>v \<in> set (fst y). pending (snd y) v"
  using assms
proof (cases rule: spec_step.cases)
  case (create i vs J)
  then show ?thesis using assms(2)
    by (auto intro: pending_add) (simp add: pending_def)
next
  case (register i vs J)
  then show ?thesis using assms(2) by (auto simp: pending_def settled_status_def)
next
  case (pausing vs i J now)
  have "pending (add_mset (PauseJob i) J) v" if "v \<in> set vs" for v
    using assms(2) pausing that pending_swap [of "PauseBegin i" J v] by auto
  then show ?thesis using pausing by (auto intro!: pending_mark)
next
  case (resuming vs i J now)
  have "pending (add_mset (ResumeJob i) J) v" if "v \<in> set vs" for v
    using assms(2) resuming that pending_swap [of "ResumeBegin i" J v] by auto
  then show ?thesis using resuming by (auto intro!: pending_mark)
next
  case (idle_pausing vs i "is" J now)
  have "pending (add_mset (IdleJob i is) J) v" if "v \<in> set vs" for v
    using assms(2) idle_pausing that pending_swap [of "IdleScan (i # is)" J v] by auto
  then show ?thesis using idle_pausing by (auto intro!: pending_mark)
next
  case (not_started vs i J)
  then show ?thesis using assms(2) pending_other [of "StartJob i" J] by auto
next
  case (started vs i J now)
  then show ?thesis using assms(2) by (auto simp: settled_status_def intro!: pending_end [of "StartJob i"])
next
  case (paused st vs i J now)
  then show ?thesis using assms(2) by (auto simp: settled_status_def intro!: pending_end [of "PauseJob i"])
next
  case (resumed st vs i J now)
  then show ?thesis using assms(2) by (auto simp: settled_status_def intro!: pending_end [of "ResumeJob i"])
next
  case (idle_paused st vs i "is" J now)
  have "pending J (mark i st now v)" if "v \<in> set vs" for v
    using assms(2) idle_paused that
    by (auto simp: settled_status_def intro!: pending_end [of "IdleJob i is"])
  then show ?thesis using idle_paused by (auto intro: pending_add)
next
  case (connect i s p vs J now t)
  have "pending J (mark i StatusRunning now v)" if "v \<in> set vs" for v
    using assms(2) connect that by (auto simp: settled_status_def intro!: pending_mark)
  then show ?thesis using connect by (auto intro: pending_add)
next
  case (offline vs i J now)
  have "pending J (mark i StatusOffline now v)" if "v \<in> set vs" for v
    using assms(2) offline that pending_drop [of "OfflineJob i True" J v]
    by (auto simp: settled_status_def intro!: pending_mark)
  then show ?thesis using offline by auto
next
  case (leave vs i t J a)
  then show ?thesis using assms(2) pending_swap [of "TunnelJob i t" J] by auto
next
  case (replaced vs i J)
  then show ?thesis using assms(2) pending_drop [of "OfflineJob i False" J] by auto
next
  case (idle_done vs J)
  then show ?thesis using assms(2) pending_drop [of "IdleScan []" J] by auto
next
  case (woken vs i J now)
  have "pending J (mark i StatusRunning now v)" if "v \<in> set vs" for v
    using assms(2) woken that pending_drop [of "WakeJob i" J v]
    by (auto simp: settled_status_def intro!: pending_mark)
  then show ?thesis using woken by auto
next
  case (not_woken vs i J)
  then show ?thesis using assms(2) pending_drop [of "WakeJob i" J] by auto
qed (auto intro: pending_add)

end
