(* ===== verification/Life_Cycle.thy ===== *)
theory Life_Cycle
  imports Provisioning Channels Tenancy Life_Spec
begin

text \<open>
  The lifecycle of sandboxes under interleaving: every group of statements that runs without
  waiting is a step, and what is left to do is a job.  The steps refine the abstract lifecycle.
\<close>

section \<open>Steps\<close>

record life =
  lf_db :: srv_db
  lf_reg :: "nat conn_table"
  lf_jobs :: "job multiset"

text \<open>
  With \<open>ok\<close> every statement reaches the database and the server is not restarted; without it both can happen, and a
  restart loses the goroutines and the tunnels.  A new sandbox has an identifier that no job names; a tunnel is a
  number.  Sandboxes are created by a request or by the binding of a channel (\<open>auto_bind\<close>), and a paused sandbox is
  also woken up for a message of a bound channel or for an automation (\<open>wake_check\<close>, \<open>wake_end\<close>).
\<close>

inductive life_step :: "bool \<Rightarrow> life \<Rightarrow> life \<Rightarrow> bool" for ok where
  create: "(ok \<Longrightarrow> \<forall>k. up k) \<Longrightarrow> fresh_id (pe_id pe) J \<Longrightarrow>
    handleCreateSandbox flt dur env up now pe user w body db = (rep, None, db1) \<Longrightarrow>
    life_step ok \<lparr>lf_db = db, lf_reg = g, lf_jobs = J\<rparr> \<lparr>lf_db = db1, lf_reg = g, lf_jobs = J\<rparr>"
| created: "(ok \<Longrightarrow> \<forall>k. up k) \<Longrightarrow> fresh_id (pe_id pe) J \<Longrightarrow>
    handleCreateSandbox flt dur env up now pe user w body db = (rep, Some opts, db1) \<Longrightarrow>
    life_step ok \<lparr>lf_db = db, lf_reg = g, lf_jobs = J\<rparr>
      \<lparr>lf_db = db1, lf_reg = g, lf_jobs = add_mset (StartJob (pe_id pe)) J\<rparr>"
| auto_bind: "(ok \<Longrightarrow> \<forall>k. up k) \<Longrightarrow> fresh_id (pe_id pe) J \<Longrightarrow>
    provisionSandbox flt dur env up now pe w inp db = (res, db1) \<Longrightarrow>
    life_step ok \<lparr>lf_db = db, lf_reg = g, lf_jobs = J\<rparr>
      \<lparr>lf_db = db1, lf_reg = g, lf_jobs = (if isl res then J else add_mset (StartJob (pe_id pe)) J)\<rparr>"
| start_end: "(ok \<Longrightarrow> \<forall>k. up k) \<Longrightarrow>
    life_step ok \<lparr>lf_db = db, lf_reg = g, lf_jobs = add_mset (StartJob i) J\<rparr>
      \<lparr>lf_db = startEnd up now i started db, lf_reg = g, lf_jobs = J\<rparr>"
| rename: "(ok \<Longrightarrow> \<forall>k. up k) \<Longrightarrow>
    life_step ok \<lparr>lf_db = db, lf_reg = g, lf_jobs = J\<rparr>
      \<lparr>lf_db = snd (handleRenameSandbox up user i req db), lf_reg = g, lf_jobs = J\<rparr>"
| delete: "(ok \<Longrightarrow> \<forall>k. up k) \<Longrightarrow>
    life_step ok \<lparr>lf_db = db, lf_reg = g, lf_jobs = J\<rparr>
      \<lparr>lf_db = snd (snd (handleDeleteSandbox up tunnels user i db)), lf_reg = g, lf_jobs = J\<rparr>"
| delete_workspace: "(ok \<Longrightarrow> \<forall>k. up k) \<Longrightarrow>
    life_step ok \<lparr>lf_db = db, lf_reg = g, lf_jobs = J\<rparr>
      \<lparr>lf_db = snd (snd (handleDeleteWorkspace up now tunnels user w db)), lf_reg = g, lf_jobs = J\<rparr>"
| pause_check: "pauseCheck up user i db = None \<Longrightarrow>
    life_step ok \<lparr>lf_db = db, lf_reg = g, lf_jobs = J\<rparr>
      \<lparr>lf_db = db, lf_reg = g, lf_jobs = add_mset (PauseBegin i) J\<rparr>"
| pause_begin: "(ok \<Longrightarrow> u) \<Longrightarrow> UpdateSandboxStatus u now db i StatusPausing = (e, db1) \<Longrightarrow>
    life_step ok \<lparr>lf_db = db, lf_reg = g, lf_jobs = add_mset (PauseBegin i) J\<rparr>
      \<lparr>lf_db = db1, lf_reg = g, lf_jobs = (if e = None then add_mset (PauseJob i) J else J)\<rparr>"
| pause_end: "(ok \<Longrightarrow> \<forall>k. up k) \<Longrightarrow>
    life_step ok \<lparr>lf_db = db, lf_reg = g, lf_jobs = add_mset (PauseJob i) J\<rparr>
      \<lparr>lf_db = pauseEnd up now i paused db, lf_reg = g, lf_jobs = J\<rparr>"
| resume_check: "resumeCheck up user i db = None \<Longrightarrow>
    life_step ok \<lparr>lf_db = db, lf_reg = g, lf_jobs = J\<rparr>
      \<lparr>lf_db = db, lf_reg = g, lf_jobs = add_mset (ResumeBegin i) J\<rparr>"
| resume_begin: "(ok \<Longrightarrow> u) \<Longrightarrow> UpdateSandboxStatus u now db i StatusResuming = (e, db1) \<Longrightarrow>
    life_step ok \<lparr>lf_db = db, lf_reg = g, lf_jobs = add_mset (ResumeBegin i) J\<rparr>
      \<lparr>lf_db = db1, lf_reg = g, lf_jobs = (if e = None then add_mset (ResumeJob i) J else J)\<rparr>"
| resume_end: "(ok \<Longrightarrow> \<forall>k. up k) \<Longrightarrow>
    life_step ok \<lparr>lf_db = db, lf_reg = g, lf_jobs = add_mset (ResumeJob i) J\<rparr>
      \<lparr>lf_db = resumeEnd up now i resumed db, lf_reg = g, lf_jobs = J\<rparr>"
| wake_check: "GetPausedSandboxForChannel u d c = Inr (Some i) \<Longrightarrow>
    life_step ok \<lparr>lf_db = im_srv d, lf_reg = g, lf_jobs = J\<rparr>
      \<lparr>lf_db = im_srv d, lf_reg = g, lf_jobs = add_mset (WakeJob i) J\<rparr>"
| wake_end: "life_step ok \<lparr>lf_db = db, lf_reg = g, lf_jobs = add_mset (WakeJob i) J\<rparr>
      \<lparr>lf_db = (case resumed of None \<Rightarrow> db | Some podIP \<Rightarrow> wakeEnd up now i podIP db), lf_reg = g, lf_jobs = J\<rparr>"
| idle_scan: "ListIdleSandboxes u now db deflt = Inr rs \<Longrightarrow>
    life_step ok \<lparr>lf_db = db, lf_reg = g, lf_jobs = J\<rparr>
      \<lparr>lf_db = db, lf_reg = g, lf_jobs = add_mset (IdleScan (map sb_id rs)) J\<rparr>"
| idle_begin: "(ok \<Longrightarrow> u) \<Longrightarrow> UpdateSandboxStatus u now db i StatusPausing = (e, db1) \<Longrightarrow>
    life_step ok \<lparr>lf_db = db, lf_reg = g, lf_jobs = add_mset (IdleScan (i # is)) J\<rparr>
      \<lparr>lf_db = db1, lf_reg = g, lf_jobs = add_mset (if e = None then IdleJob i is else IdleScan is) J\<rparr>"
| idle_end: "(ok \<Longrightarrow> \<forall>k. up k) \<Longrightarrow>
    life_step ok \<lparr>lf_db = db, lf_reg = g, lf_jobs = add_mset (IdleJob i is) J\<rparr>
      \<lparr>lf_db = pauseEnd up now i paused db, lf_reg = g, lf_jobs = add_mset (IdleScan is) J\<rparr>"
| idle_finish: "life_step ok \<lparr>lf_db = db, lf_reg = g, lf_jobs = add_mset (IdleScan []) J\<rparr>
      \<lparr>lf_db = db, lf_reg = g, lf_jobs = J\<rparr>"
| agent: "(ok \<Longrightarrow> \<forall>k. up k) \<Longrightarrow> fresh_id i J \<Longrightarrow>
    life_step ok \<lparr>lf_db = db, lf_reg = g, lf_jobs = J\<rparr>
      \<lparr>lf_db = snd (handleAgentRegister up now hydra authHeader req i tunnel proxy sids db), lf_reg = g,
        lf_jobs = J\<rparr>"
| connect: "(ok \<Longrightarrow> \<forall>k. up k) \<Longrightarrow> tunnelConnect up now i tok t g db = Inr (g1, old, db1) \<Longrightarrow>
    life_step ok \<lparr>lf_db = db, lf_reg = g, lf_jobs = J\<rparr>
      \<lparr>lf_db = db1, lf_reg = g1, lf_jobs = add_mset (TunnelJob i t) J\<rparr>"
| leave: "tunnelLeave i t g = (g1, a) \<Longrightarrow>
    life_step ok \<lparr>lf_db = db, lf_reg = g, lf_jobs = add_mset (TunnelJob i t) J\<rparr>
      \<lparr>lf_db = db, lf_reg = g1, lf_jobs = add_mset (OfflineJob i a) J\<rparr>"
| offline: "(ok \<Longrightarrow> u) \<Longrightarrow>
    life_step ok \<lparr>lf_db = db, lf_reg = g, lf_jobs = add_mset (OfflineJob i a) J\<rparr>
      \<lparr>lf_db = tunnelOffline u now i a db, lf_reg = g, lf_jobs = J\<rparr>"
| restart: "\<not> ok \<Longrightarrow> life_step ok s \<lparr>lf_db = lf_db s, lf_reg = Map.empty, lf_jobs = {#}\<rparr>"
| activity: "life_step ok \<lparr>lf_db = db, lf_reg = g, lf_jobs = J\<rparr>
      \<lparr>lf_db = snd (UpdateSandboxActivity u now db i), lf_reg = g, lf_jobs = J\<rparr>"
| heartbeat: "life_step ok \<lparr>lf_db = db, lf_reg = g, lf_jobs = J\<rparr>
      \<lparr>lf_db = snd (UpdateSandboxHeartbeat u now db i), lf_reg = g, lf_jobs = J\<rparr>"

definition life_start :: "life \<Rightarrow> bool" where
  "life_start s \<longleftrightarrow> sv_sandboxes (lf_db s) = [] \<and> lf_reg s = Map.empty \<and> lf_jobs s = {#}"

definition life_reach :: "bool \<Rightarrow> life \<Rightarrow> bool" where
  "life_reach ok s \<longleftrightarrow> (\<exists>s0. life_start s0 \<and> (life_step ok)\<^sup>*\<^sup>* s0 s)"

definition abs_life :: "life \<Rightarrow> row_view list \<times> job multiset" where
  "abs_life s = (view (lf_db s), lf_jobs s)"

lemma abs_life_simp [simp]: "abs_life \<lparr>lf_db = db, lf_reg = g, lf_jobs = J\<rparr> = (view db, J)"
  by (simp add: abs_life_def)

section \<open>What the operations do to the view\<close>

lemma view_status:
  "view (snd (UpdateSandboxStatus u now db i st)) = (if u then map (mark i st now) (view db) else view db)"
  by (auto simp: UpdateSandboxStatus_def update_sandbox_def view_def update_rows_def mark_def
      split: sbx_status.split)

lemma status_error: "fst (UpdateSandboxStatus u now db i st) = (if u then None else Some DbDown)"
  by (simp add: UpdateSandboxStatus_def update_sandbox_def)

lemma view_quiet [simp]:
  "view (snd (UpdateSandboxPodIP u db i ip)) = view db"
  "view (snd (UpdateSandboxActivity u now db i)) = view db"
  "view (snd (UpdateSandboxHeartbeat u now db i)) = view db"
  "view (snd (UpdateSandboxName u db i nm)) = view db"
  by (auto simp: UpdateSandboxPodIP_def UpdateSandboxActivity_def UpdateSandboxHeartbeat_def UpdateSandboxName_def
      update_sandbox_def view_def update_rows_def)

lemma view_drop: "view (drop_sandboxes (\<lambda>r. sb_id r = i) db) = filter (\<lambda>v. fst v \<noteq> i) (view db)"
  by (simp add: drop_sandboxes_def view_def filter_map comp_def Let_def)

lemma view_delete:
  "view (snd (DeleteSandbox u db i)) = (if u then filter (\<lambda>v. fst v \<noteq> i) (view db) else view db)"
  by (simp add: DeleteSandbox_def view_drop)

lemma adds_row_view:
  "adds_row i w l st c m db db1 \<Longrightarrow> view db1 = view db @ [(i, l, st, None)] \<and> i \<notin> fst ` set (view db)"
  by (auto simp: adds_row_def view_def)

lemma registerAttempts_cases:
  "registerAttempts up now a i w nm ty px tn sids e db = (r, db1) \<Longrightarrow>
     case r of Inl _ \<Rightarrow> db1 = db | Inr _ \<Rightarrow> adds_row i w True StatusRunning None None db db1"
proof (induction up now a i w nm ty px tn sids e db rule: registerAttempts.induct)
  case (2 up now a i w nm ty px tn sid sids e db)
  obtain x d where c: "CreateLocalSandbox (up a) now db i w nm ty [] px tn sid = (x, d)" by (metis surj_pair)
  show ?case
  proof (cases x)
    case None
    with 2(2) c CreateLocalSandbox_ok [OF c [unfolded None]] show ?thesis by auto
  next
    case (Some e1)
    with c have "d = db" by (blast dest: CreateLocalSandbox_err)
    with 2 Some c show ?thesis by simp
  qed
qed auto

lemma handleAgentRegister_cases:
  "snd (handleAgentRegister up now hydra au req i tn px sids db) = db \<or>
   (\<exists>w. adds_row i w True StatusRunning None None db (snd (handleAgentRegister up now hydra au req i tn px sids db)))"
proof (cases "registerAdmit (up 0) hydra au db")
  case (Inr w)
  show ?thesis
  proof (cases "\<exists>nm t p. req = Some (nm, []) \<and> tn = Some t \<and> px = Some p \<or>
      req = Some (nm, ''custom'') \<and> tn = Some t \<and> px = Some p")
    case True
    then obtain nm ty t p where q: "req = Some (nm, ty)" "ty = [] \<or> ty = ''custom''" "tn = Some t" "px = Some p" by blast
    let ?nm = "if nm = [] then ''Local Agent'' else nm"
    obtain r d where a: "registerAttempts (\<lambda>a k. up (1 + 4 * a + k)) now 0 i w ?nm ''custom'' p t (take 3 sids)
        DbDown db = (r, d)" by (metis surj_pair)
    have "snd (handleAgentRegister up now hydra au req i tn px sids db) = d"
      using q(2) a by (cases r) (auto simp: handleAgentRegister_def Inr q(1,3,4) Let_def)
    with registerAttempts_cases [OF a] show ?thesis by (auto split: sum.splits)
  next
    case False
    then have "snd (handleAgentRegister up now hydra au req i tn px sids db) = db"
      by (auto simp: handleAgentRegister_def Inr Let_def split: option.split)
    then show ?thesis ..
  qed
qed (simp add: handleAgentRegister_def split: prod.split)

text \<open>The ends of goroutines: a status at which the sandbox rests, or nothing when the database is down.\<close>

lemma pauseEnd_view:
  "\<exists>st \<in> {StatusRunning, StatusPaused}. view (pauseEnd up now i paused db) = map (mark i st now) (view db) \<or>
     (\<exists>k. \<not> up k) \<and> view (pauseEnd up now i paused db) = view db"
  by (auto simp: pauseEnd_def view_status Let_def)

lemma resumeEnd_view:
  "\<exists>st \<in> {StatusRunning, StatusPaused}. view (resumeEnd up now i resumed db) = map (mark i st now) (view db) \<or>
     (\<exists>k. \<not> up k) \<and> view (resumeEnd up now i resumed db) = view db"
  by (auto simp: resumeEnd_def view_status Let_def split: option.split)

lemma startEnd_view:
  "view (startEnd up now i started db) = map (mark i StatusRunning now) (view db) \<or>
   view (startEnd up now i started db) = filter (\<lambda>v. fst v \<noteq> i) (view db) \<or>
   (\<exists>k. \<not> up k) \<and> view (startEnd up now i started db) = view db"
  by (auto simp: startEnd_def view_status view_delete Let_def split: option.split)

lemma wakeEnd_view:
  "view (wakeEnd up now i ip db) = (if up 1 then map (mark i StatusRunning now) (view db) else view db)"
  by (simp add: wakeEnd_def view_status Let_def)

lemma paused_row:
  "GetPausedSandboxForChannel u d c = Inr (Some i) \<Longrightarrow> \<exists>l p. (i, l, StatusPaused, p) \<in> set (view (im_srv d))"
  by (auto simp: GetPausedSandboxForChannel_def bound_sandboxes_def view_def image_iff split: if_splits dest!: find_Some_in)
    metis

lemma sandboxFor_row:
  "sandboxFor up user i db = Inr s \<Longrightarrow> (i, x_local s, x_status s, x_paused s) \<in> set (view db)"
  by (auto simp: sandboxFor_def sbx_Get_def GetSandbox_def view_def dbSandboxToSandbox_def
      dest!: find_Some_in split: option.splits sum.splits if_splits)

lemma pauseCheck_row:
  "pauseCheck up user i db = None \<Longrightarrow> \<exists>p. (i, False, StatusRunning, p) \<in> set (view db)"
  by (auto simp: pauseCheck_def ValidTransition_def dest!: sandboxFor_row split: sum.splits if_splits sbx_status.splits)

lemma resumeCheck_row:
  "resumeCheck up user i db = None \<Longrightarrow> \<exists>p. (i, False, StatusPaused, p) \<in> set (view db)"
  by (auto simp: resumeCheck_def ValidTransition_def dest!: sandboxFor_row split: sum.splits if_splits sbx_status.splits)

lemma view_row: "r \<in> set (sv_sandboxes db) \<Longrightarrow> (sb_id r, sb_local r, sb_status r, sb_paused r) \<in> set (view db)"
  by (auto simp: view_def)

lemma idle_rows:
  assumes "ListIdleSandboxes u now db deflt = Inr rs" and "i \<in> sb_id ` set rs"
  shows "\<exists>p. (i, False, StatusRunning, p) \<in> set (view db)"
proof -
  from assms obtain r where r: "r \<in> set (sv_sandboxes db)" "idle_row now deflt r" "i = sb_id r"
    by (auto simp: ListIdleSandboxes_def split: if_splits)
  with view_row [OF r(1)] show ?thesis by (auto simp: idle_row_def Let_def)
qed

lemma tunnelConnect_cases:
  assumes "tunnelConnect up now i tok t g db = Inr (g1, old, db1)"
  shows "\<exists>s p. (i, True, s, p) \<in> set (view db)"
    and "view db1 = (if up 1 then map (mark i StatusRunning now) (view db) else view db)"
proof -
  from assms obtain r where r: "r \<in> set (sv_sandboxes db)" "sb_id r = i" "sb_local r"
    and d: "db1 = snd (UpdateSandboxHeartbeat (up 2) now (snd (UpdateSandboxStatus (up 1) now db i StatusRunning)) i)"
    by (auto simp: tunnelConnect_def GetSandboxByTunnelToken_def Let_def dest!: find_Some_in
        split: if_splits sum.splits option.splits prod.splits)
  from view_row [OF r(1)] r show "\<exists>s p. (i, True, s, p) \<in> set (view db)" by auto
  show "view db1 = (if up 1 then map (mark i StatusRunning now) (view db) else view db)"
    unfolding d by (simp add: view_status)
qed

lemma tunnelOffline_view:
  "view (tunnelOffline u now i a db) = (if a \<and> u then map (mark i StatusOffline now) (view db) else view db)"
  by (simp add: tunnelOffline_def view_status)

lemma rename_view: "view (snd (handleRenameSandbox up user i req db)) = view db"
proof -
  obtain e d where u: "UpdateSandboxName (up 2) db i (the req) = (e, d)" by (metis surj_pair)
  then have "view d = view db" using view_quiet(4) [of "up 2" db i "the req"] by simp
  then show ?thesis using u by (auto simp: handleRenameSandbox_def split: sum.split option.split)
qed

lemma delete_view: "\<exists>P. view (snd (snd (handleDeleteSandbox up tunnels user i db))) = filter P (view db)"
proof -
  have k: "\<exists>P. view db = filter P (view db)" by (rule exI [of _ "\<lambda>_. True"]) simp
  obtain e d where u: "DeleteSandbox (up 3) db i = (e, d)" by (metis surj_pair)
  then have "\<exists>P. view d = filter P (view db)" using view_delete [of "up 3" db i] k by (cases "up 3") auto
  then show ?thesis using u k
    by (auto simp: handleDeleteSandbox_def Let_def split: sum.split option.split)
qed

lemma deleteSandboxes_view:
  "\<exists>P. view (snd (deleteSandboxes up ns tunnels n ss db)) = filter P (view db)"
proof (induction ss arbitrary: n db)
  case Nil
  have "view db = filter (\<lambda>_. True) (view db)" by simp
  then show ?case by (auto intro: exI [of _ "\<lambda>_. True"])
next
  case (Cons s ss)
  let ?d = "if x_local s then db else snd (DeleteSandbox (up n) db (x_id s))"
  from Cons obtain P where P: "view (snd (deleteSandboxes up ns tunnels (Suc n) ss ?d)) = filter P (view ?d)" by blast
  have "\<exists>Q. view ?d = filter Q (view db)"
    by (cases "x_local s \<or> \<not> up n") (auto simp: view_delete intro: exI [of _ "\<lambda>_. True"])
  then obtain Q where "view ?d = filter Q (view db)" by blast
  with P have "view (snd (deleteSandboxes up ns tunnels (Suc n) ss ?d)) = filter (\<lambda>v. Q v \<and> P v) (view db)"
    by simp
  moreover obtain st d where e: "deleteSandboxes up ns tunnels (Suc n) ss ?d = (st, d)" by (metis surj_pair)
  moreover have "snd (deleteSandboxes up ns tunnels n (s # ss) db) = d"
    unfolding deleteSandboxes.simps Let_def e by simp
  ultimately have "view (snd (deleteSandboxes up ns tunnels n (s # ss) db)) = filter (\<lambda>v. Q v \<and> P v) (view db)"
    by simp
  then show ?case by blast
qed

lemma delete_workspace_view:
  "\<exists>P. view (snd (snd (handleDeleteWorkspace up now tunnels user w db))) = filter P (view db)"
proof -
  have k: "\<exists>P. view db = filter P (view db)" by (rule exI [of _ "\<lambda>_. True"]) simp
  show ?thesis
  proof (cases "requireWorkspaceRole (up 0) db user w [''owner'']")
    case None
    show ?thesis
    proof (cases "\<exists>ws. GetWorkspace (up 1) db w = Inr (Some ws)")
      case True
      then obtain ws where ws: "GetWorkspace (up 1) db w = Inr (Some ws)" by blast
      obtain st d where a: "deleteSandboxes (\<lambda>n. up (7 + n)) (coalesce (w_namespace ws)) tunnels 0
          (ListByWorkspace (up 2) db w) db = (st, d)" by (metis surj_pair)
      obtain e d2 where b: "SoftDeleteWorkspace (up 3) now d w = (e, d2)" by (metis surj_pair)
      obtain f d3 where c: "DeleteWorkspaceDrafts (\<lambda>k. up (4 + k)) d2 w = (f, d3)" by (metis surj_pair)
      have "sv_sandboxes d2 = sv_sandboxes d" "sv_sandboxes d3 = sv_sandboxes d2"
        using b c by (auto simp: SoftDeleteWorkspace_def DeleteWorkspaceDrafts_def Let_def split: if_splits)
      moreover have "snd (snd (handleDeleteWorkspace up now tunnels user w db)) \<in>
          {d2, d3, snd (ClearActiveWorkspace (up 6) d3 w)}"
        unfolding handleDeleteWorkspace_def None ws option.case sum.case a Let_def prod.case b c
        by (cases e; cases f) (auto split: soft_err.split)
      moreover have "sv_sandboxes (snd (ClearActiveWorkspace (up 6) d3 w)) = sv_sandboxes d3"
        by (simp add: ClearActiveWorkspace_def)
      ultimately have "sv_sandboxes (snd (snd (handleDeleteWorkspace up now tunnels user w db))) = sv_sandboxes d"
        by auto
      then have "view (snd (snd (handleDeleteWorkspace up now tunnels user w db))) = view d" by (simp add: view_def)
      moreover from deleteSandboxes_view [of "\<lambda>n. up (7 + n)" _ tunnels 0 _ db] a
      have "\<exists>P. view d = filter P (view db)" by (metis snd_conv)
      ultimately show ?thesis by simp
    next
      case False
      then have "snd (snd (handleDeleteWorkspace up now tunnels user w db)) = db"
        by (auto simp: handleDeleteWorkspace_def None split: sum.split option.split)
      with k show ?thesis by simp
    qed
  next
    case (Some e)
    then have "snd (snd (handleDeleteWorkspace up now tunnels user w db)) = db"
      by (simp add: handleDeleteWorkspace_def split: prod.split)
    with k show ?thesis by simp
  qed
qed

section \<open>Refinement\<close>

lemma spec_step_eq: "spec_step ok x y \<Longrightarrow> y = z \<Longrightarrow> spec_step ok x z"
  by simp

lemma life_step_refines:
  assumes "life_step ok s s'"
  shows "spec_step ok (abs_life s) (abs_life s')"
  using assms
proof (cases rule: life_step.cases)
  case (create up pe J flt dur env now user w body db rep db1 g)
  then show ?thesis using handleCreate_cases [OF create(5)] by (simp add: spec_step.quiet)
next
  case (created up pe J flt dur env now user w body db rep opts db1 g)
  then show ?thesis using handleCreate_cases [OF created(5)]
    by (auto dest!: adds_row_view simp: spec_step.create)
next
  case (auto_bind up pe J flt dur env now w inp db res db1 g)
  then show ?thesis using provisionSandbox_cases [OF auto_bind(5)]
    by (cases res) (auto dest!: adds_row_view simp: spec_step.quiet spec_step.create)
next
  case (wake_check u d c i g J)
  then show ?thesis using paused_row [OF wake_check(3)] by (auto intro: spec_step.may_wake)
next
  case (wake_end db g i J resumed up now)
  then show ?thesis
    by (cases resumed; cases "up 1") (auto simp: wakeEnd_view intro: spec_step.woken spec_step.not_woken)
next
  case restart
  then show ?thesis by (cases s) (simp add: spec_step.restart)
next
  case (start_end up db g i J now started)
  have n: "\<not> ok" if "\<not> up k" for k using start_end(3) that by blast
  show ?thesis unfolding start_end(1,2) abs_life_simp
    using startEnd_view [of up now i started db]
    by (auto dest!: n intro: spec_step.started spec_step.not_started spec_step.lost)
next
  case (rename up db g J user i req)
  then show ?thesis by (simp add: rename_view spec_step.quiet)
next
  case (delete up db g J tunnels user i)
  obtain P where "view (snd (snd (handleDeleteSandbox up tunnels user i db))) = filter P (view db)"
    using delete_view by blast
  then show ?thesis unfolding delete(1,2) by (simp add: spec_step.delete)
next
  case (delete_workspace up db g J now tunnels user w)
  obtain P where "view (snd (snd (handleDeleteWorkspace up now tunnels user w db))) = filter P (view db)"
    using delete_workspace_view by blast
  then show ?thesis unfolding delete_workspace(1,2) by (simp add: spec_step.delete)
next
  case (pause_check up user i db g J)
  then show ?thesis using pauseCheck_row [OF pause_check(3)] by (auto intro: spec_step.may_pause)
next
  case (pause_begin u now db i e db1 g J)
  have "e = (if u then None else Some DbDown)" "view db1 = (if u then map (mark i StatusPausing now) (view db) else view db)"
    using status_error [of u now db i StatusPausing] view_status [of u now db i StatusPausing] pause_begin(4) by simp_all
  then show ?thesis unfolding pause_begin(1,2) using pause_begin(3)
    by (cases u) (auto intro: spec_step.pausing spec_step.lost)
next
  case (pause_end up db g i J now paused)
  have n: "\<not> ok" if "\<not> up k" for k using pause_end(3) that by blast
  show ?thesis unfolding pause_end(1,2) abs_life_simp
    using pauseEnd_view [of up now i paused db]
    by (auto dest!: n intro: spec_step.paused spec_step.lost)
next
  case (resume_check up user i db g J)
  then show ?thesis using resumeCheck_row [OF resume_check(3)] by (auto intro: spec_step.may_resume)
next
  case (resume_begin u now db i e db1 g J)
  have "e = (if u then None else Some DbDown)" "view db1 = (if u then map (mark i StatusResuming now) (view db) else view db)"
    using status_error [of u now db i StatusResuming] view_status [of u now db i StatusResuming] resume_begin(4) by simp_all
  then show ?thesis unfolding resume_begin(1,2) using resume_begin(3)
    by (cases u) (auto intro: spec_step.resuming spec_step.lost)
next
  case (resume_end up db g i J now resumed)
  have n: "\<not> ok" if "\<not> up k" for k using resume_end(3) that by blast
  show ?thesis unfolding resume_end(1,2) abs_life_simp
    using resumeEnd_view [of up now i resumed db]
    by (auto dest!: n intro: spec_step.resumed spec_step.lost)
next
  case (idle_scan u now db deflt rs g J)
  show ?thesis unfolding idle_scan(1,2) abs_life_simp
    by (rule spec_step.scan) (use idle_rows [OF idle_scan(3)] in auto)
next
  case (idle_begin u now db i e db1 g "is" J)
  have "e = (if u then None else Some DbDown)" "view db1 = (if u then map (mark i StatusPausing now) (view db) else view db)"
    using status_error [of u now db i StatusPausing] view_status [of u now db i StatusPausing] idle_begin(4) by simp_all
  then show ?thesis unfolding idle_begin(1,2) using idle_begin(3)
    by (cases u) (auto intro: spec_step.idle_pausing spec_step.idle_skip)
next
  case (idle_end up db g i "is" J now paused)
  have n: "\<not> ok" if "\<not> up k" for k using idle_end(3) that by blast
  show ?thesis unfolding idle_end(1,2) abs_life_simp
    using pauseEnd_view [of up now i paused db]
    by (auto dest!: n intro: spec_step.idle_paused spec_step.idle_lost)
next
  case (idle_finish db g J)
  then show ?thesis by (simp add: spec_step.idle_done)
next
  case (agent up i J db g now hydra authHeader req tunnel proxy sids)
  show ?thesis unfolding agent(1,2) abs_life_simp
    using handleAgentRegister_cases [of up now hydra authHeader req i tunnel proxy sids db] agent(4)
    by (auto dest!: adds_row_view intro: spec_step.quiet spec_step.register)
next
  case (connect up now i tok t g db g1 old db1 J)
  obtain s1 p where r: "(i, True, s1, p) \<in> set (view db)" using tunnelConnect_cases(1) [OF connect(4)] by blast
  show ?thesis
  proof (cases "up 1")
    case True
    with tunnelConnect_cases(2) [OF connect(4)] show ?thesis unfolding connect(1,2) abs_life_simp
      by (simp add: spec_step.connect [OF r])
  next
    case False
    with tunnelConnect_cases(2) [OF connect(4)] connect(3) show ?thesis unfolding connect(1,2) abs_life_simp
      by (auto intro: spec_step.connect_lost [OF _ r])
  qed
next
  case (leave i t g g1 a db J)
  then show ?thesis by (simp add: spec_step.leave)
next
  case (offline u db g i a J now)
  show ?thesis unfolding offline(1,2) abs_life_simp tunnelOffline_view using offline(3)
    by (cases a) (auto intro: spec_step.offline spec_step.replaced spec_step.lost)
next
  case (activity db g J u now i)
  then show ?thesis by (simp add: spec_step.quiet)
next
  case (heartbeat db g J u now i)
  then show ?thesis by (simp add: spec_step.quiet)
qed

section \<open>What holds of every reachable state\<close>

lemma life_reach_induct [consumes 1, case_names start step]:
  assumes "life_reach ok s" and "\<And>s. life_start s \<Longrightarrow> P s"
    and "\<And>s s'. life_reach ok s \<Longrightarrow> P s \<Longrightarrow> life_step ok s s' \<Longrightarrow> P s'"
  shows "P s"
proof -
  from assms(1) obtain s0 where s0: "life_start s0" "(life_step ok)\<^sup>*\<^sup>* s0 s" by (auto simp: life_reach_def)
  from s0(2) have "life_reach ok s \<and> P s"
  proof (induction rule: rtranclp_induct)
    case base
    with s0(1) assms(2) show ?case by (auto simp: life_reach_def)
  next
    case (step y z)
    then have "life_reach ok z" using s0(1) by (auto simp: life_reach_def intro: rtranclp.rtrancl_into_rtrancl)
    with step assms(3) show ?case by blast
  qed
  then show ?thesis ..
qed

lemma life_reach_step: "life_reach ok s \<Longrightarrow> life_step ok s s' \<Longrightarrow> life_reach ok s'"
  unfolding life_reach_def by (meson rtranclp.rtrancl_into_rtrancl)

lemma life_reach_start: "life_start s \<Longrightarrow> life_reach ok s"
  by (auto simp: life_reach_def)

lemma life_ok: "life_reach ok s \<Longrightarrow> spec_ok (abs_life s)"
proof (induction rule: life_reach_induct)
  case (start s)
  then show ?case by (simp add: life_start_def abs_life_def view_def spec_ok_def)
qed (auto dest: life_step_refines spec_ok_step)

lemma life_live: "life_reach True s \<Longrightarrow> \<forall>v \<in> set (view (lf_db s)). pending (lf_jobs s) v"
proof (induction rule: life_reach_induct)
  case (start s)
  then show ?case by (simp add: life_start_def view_def)
next
  case (step s s')
  from spec_live_step [OF life_step_refines [OF step(2)]] step(3) show ?case by (simp add: abs_life_def)
qed

text \<open>C25: the steps of the server on sandboxes -- requests, the binding of channels, goroutines, the idle watcher, tunnels,
  and the wake-up of a paused sandbox for a message or an automation -- refine the abstract lifecycle, whatever their
  order, also when the database fails and when the server is restarted.\<close>

theorem lifecycle_refines:
  assumes "life_step ok s s'"
  shows "spec_step ok (abs_life s) (abs_life s')"
  using assms by (rule life_step_refines)

text \<open>C23: in every reachable state, failures of the database and restarts included, a local sandbox is running or
  offline and never paused; a sandbox of the platform is never offline, and no step sets the status \<open>deleting\<close>, which
  the documentation of the API names (rows are deleted at once); the time of the pause is set when a sandbox is paused
  and cleared when it runs.\<close>

theorem lifecycle_consistent:
  assumes "life_reach ok s" and "r \<in> set (sv_sandboxes (lf_db s))"
  shows "(sb_local r \<longrightarrow> sb_status r \<in> {StatusRunning, StatusOffline}) \<and>
     (\<not> sb_local r \<longrightarrow> sb_status r \<notin> {StatusOffline, StatusDeleting}) \<and>
     (sb_status r = StatusPaused \<longrightarrow> sb_paused r \<noteq> None) \<and>
     (sb_status r = StatusRunning \<longrightarrow> sb_paused r = None) \<and>
     (\<forall>q \<in> set (sv_sandboxes (lf_db s)). sb_id q = sb_id r \<longrightarrow> q = r)"
proof -
  have ok: "spec_ok (view (lf_db s), lf_jobs s)" using life_ok [OF assms(1)] by (simp add: abs_life_def)
  have "view_ok (sb_id r, sb_local r, sb_status r, sb_paused r)"
    using spec_okD(2) [OF ok view_row [OF assms(2)]] .
  moreover have "distinct (map sb_id (sv_sandboxes (lf_db s)))"
    using spec_okD(1) [OF ok] by (simp add: view_def comp_def)
  then have "\<forall>q \<in> set (sv_sandboxes (lf_db s)). sb_id q = sb_id r \<longrightarrow> q = r"
    using distinct_map_inj_on assms(2) by metis
  ultimately show ?thesis by (auto simp: view_ok_def split: if_splits)
qed

section \<open>Every sandbox settles\<close>

text \<open>
  Nothing happens but that the goroutines which are pending end, each as the process manager answers: the pod starts
  or not, with an address or without, pausing and resuming succeed or fail.
\<close>

inductive finish_step :: "life \<Rightarrow> life \<Rightarrow> bool" where
  finish_start: "finish_step \<lparr>lf_db = db, lf_reg = g, lf_jobs = add_mset (StartJob i) J\<rparr>
      \<lparr>lf_db = startEnd (\<lambda>_. True) now i started db, lf_reg = g, lf_jobs = J\<rparr>"
| finish_pause: "finish_step \<lparr>lf_db = db, lf_reg = g, lf_jobs = add_mset (PauseJob i) J\<rparr>
      \<lparr>lf_db = pauseEnd (\<lambda>_. True) now i paused db, lf_reg = g, lf_jobs = J\<rparr>"
| finish_resume: "finish_step \<lparr>lf_db = db, lf_reg = g, lf_jobs = add_mset (ResumeJob i) J\<rparr>
      \<lparr>lf_db = resumeEnd (\<lambda>_. True) now i resumed db, lf_reg = g, lf_jobs = J\<rparr>"
| finish_idle: "finish_step \<lparr>lf_db = db, lf_reg = g, lf_jobs = add_mset (IdleJob i is) J\<rparr>
      \<lparr>lf_db = pauseEnd (\<lambda>_. True) now i paused db, lf_reg = g, lf_jobs = add_mset (IdleScan is) J\<rparr>"

definition ends :: "job multiset \<Rightarrow> nat" where
  "ends J = size (filter_mset (\<lambda>j. end_of j \<noteq> None) J)"

lemma finish_life: "finish_step s s' \<Longrightarrow> life_step True s s'"
  by (induction rule: finish_step.induct) (auto intro: life_step.intros)

lemma finish_ends: "finish_step s s' \<Longrightarrow> Suc (ends (lf_jobs s')) = ends (lf_jobs s)"
  by (induction rule: finish_step.induct) (simp_all add: ends_def)

lemma finish_possible:
  assumes "0 < ends (lf_jobs s)" shows "\<exists>s'. finish_step s s'"
proof -
  have "filter_mset (\<lambda>j. end_of j \<noteq> None) (lf_jobs s) \<noteq> {#}"
    using assms unfolding ends_def by (metis less_irrefl size_empty)
  then obtain j where "j \<in># filter_mset (\<lambda>j. end_of j \<noteq> None) (lf_jobs s)" by (rule multiset_nonemptyE)
  then have j: "j \<in># lf_jobs s" "end_of j \<noteq> None" by simp_all
  obtain J where J: "lf_jobs s = add_mset j J" using j(1) by (metis insert_DiffM)
  have s: "s = \<lparr>lf_db = lf_db s, lf_reg = lf_reg s, lf_jobs = add_mset j J\<rparr>" using J by (cases s) simp
  show ?thesis
  proof (cases j)
    case (StartJob i) with s finish_start show ?thesis by metis
  next
    case (PauseJob i) with s finish_pause show ?thesis by metis
  next
    case (ResumeJob i) with s finish_resume show ?thesis by metis
  next
    case (IdleJob i "is") with s finish_idle show ?thesis by metis
  qed (use j(2) in simp_all)
qed

text \<open>Only a sandbox whose start fails is gone afterwards.\<close>

lemma finish_kept:
  assumes "finish_step s s'" and "r \<in> set (sv_sandboxes (lf_db s))"
  shows "sb_id r \<in> sb_id ` set (sv_sandboxes (lf_db s')) \<or> StartJob (sb_id r) \<in># lf_jobs s"
proof -
  have m: "sb_id r \<in> fst ` set (map (mark i st now) (view db))" if "r \<in> set (sv_sandboxes db)" for i st now db
    using view_row [OF that] by (force simp: image_iff)
  have v: "sb_id ` set (sv_sandboxes db) = fst ` set (view db)" for db by (auto simp: view_def image_iff)
  show ?thesis using assms
  proof (induction rule: finish_step.induct)
    case (finish_start db g i J now started)
    then show ?case using startEnd_view [of "\<lambda>_. True" now i started db] m [of db i StatusRunning now] view_row [of r db]
      by (cases "sb_id r = i") (force simp: v image_iff)+
  next
    case (finish_pause db g i J now paused)
    then show ?case using pauseEnd_view [of "\<lambda>_. True" now i paused db] m [of db] by (auto simp: v)
  next
    case (finish_resume db g i J now resumed)
    then show ?case using resumeEnd_view [of "\<lambda>_. True" now i resumed db] m [of db] by (auto simp: v)
  next
    case (finish_idle db g i "is" J now paused)
    then show ?case using pauseEnd_view [of "\<lambda>_. True" now i paused db] m [of db] by (auto simp: v)
  qed
qed

lemma finish_jobs: "finish_step s s' \<Longrightarrow> StartJob i \<in># lf_jobs s' \<Longrightarrow> StartJob i \<in># lf_jobs s"
  by (induction rule: finish_step.induct) auto

lemma finish_run:
  assumes "finish_step\<^sup>*\<^sup>* s s'" and "life_reach True s"
  shows "life_reach True s' \<and> (\<forall>i. StartJob i \<in># lf_jobs s' \<longrightarrow> StartJob i \<in># lf_jobs s) \<and>
    (\<forall>r \<in> set (sv_sandboxes (lf_db s)).
       sb_id r \<in> sb_id ` set (sv_sandboxes (lf_db s')) \<or> StartJob (sb_id r) \<in># lf_jobs s)"
  using assms
proof (induction rule: rtranclp_induct)
  case base then show ?case by simp
next
  case (step t u)
  note ih = step.IH [OF step.prems]
  have "sb_id r \<in> sb_id ` set (sv_sandboxes (lf_db u)) \<or> StartJob (sb_id r) \<in># lf_jobs s"
    if r: "r \<in> set (sv_sandboxes (lf_db s))" for r
  proof (cases "StartJob (sb_id r) \<in># lf_jobs s")
    case False
    with ih r obtain q where q: "q \<in> set (sv_sandboxes (lf_db t))" "sb_id q = sb_id r" by (metis imageE)
    from finish_kept [OF step.hyps(2) q(1)] ih False q(2) show ?thesis by metis
  qed simp
  moreover have "StartJob i \<in># lf_jobs s" if "StartJob i \<in># lf_jobs u" for i
    using finish_jobs [OF step.hyps(2) that] ih by blast
  ultimately show ?case using ih life_reach_step [OF _ finish_life [OF step.hyps(2)]] by blast
qed

text \<open>C24: While the database answers and the server is not restarted no sandbox is stuck, whatever the process manager
  answers: from every reachable state the goroutines that are pending can end, each end is one fewer, and whenever all
  of them have ended every sandbox is running, paused or offline.  Nothing else happens on the way: no sandbox is gone
  but one whose start was pending.
\<close>

theorem lifecycle_settles:
  assumes "life_reach True s"
  shows "(\<exists>s'. finish_step\<^sup>*\<^sup>* s s' \<and> ends (lf_jobs s') = 0) \<and>
    (\<forall>t u. finish_step\<^sup>*\<^sup>* s t \<and> finish_step t u \<longrightarrow> Suc (ends (lf_jobs u)) = ends (lf_jobs t)) \<and>
    (\<forall>s'. finish_step\<^sup>*\<^sup>* s s' \<and> ends (lf_jobs s') = 0 \<longrightarrow>
       (\<forall>r \<in> set (sv_sandboxes (lf_db s')). sb_status r \<in> {StatusRunning, StatusPaused, StatusOffline}) \<and>
       (\<forall>r \<in> set (sv_sandboxes (lf_db s)).
          sb_id r \<in> sb_id ` set (sv_sandboxes (lf_db s')) \<or> StartJob (sb_id r) \<in># lf_jobs s))"
proof (intro conjI allI impI)
  show "\<exists>s'. finish_step\<^sup>*\<^sup>* s s' \<and> ends (lf_jobs s') = 0"
  proof (induction "ends (lf_jobs s)" arbitrary: s)
    case 0 then show ?case by (metis rtranclp.rtrancl_refl)
  next
    case (Suc n)
    then obtain t where t: "finish_step s t" using finish_possible [of s] by auto
    with finish_ends [OF t] Suc.hyps(2) have "n = ends (lf_jobs t)" by simp
    from Suc.hyps(1) [OF this] t show ?case by (meson converse_rtranclp_into_rtranclp)
  qed
next
  fix t u assume "finish_step\<^sup>*\<^sup>* s t \<and> finish_step t u"
  then show "Suc (ends (lf_jobs u)) = ends (lf_jobs t)" using finish_ends by blast
next
  fix s' assume s': "finish_step\<^sup>*\<^sup>* s s' \<and> ends (lf_jobs s') = 0"
  note run = finish_run [OF s' [THEN conjunct1] assms]
  show "\<forall>r \<in> set (sv_sandboxes (lf_db s)).
      sb_id r \<in> sb_id ` set (sv_sandboxes (lf_db s')) \<or> StartJob (sb_id r) \<in># lf_jobs s" using run by blast
  have e: "\<forall>j \<in># lf_jobs s'. end_of j = None" using s' by (auto simp: ends_def)
  show "\<forall>r \<in> set (sv_sandboxes (lf_db s')). sb_status r \<in> {StatusRunning, StatusPaused, StatusOffline}"
    using life_live [OF run [THEN conjunct1]] view_row e by (fastforce simp: pending_def settled_status_def)
qed

text \<open>
  A restart loses the goroutines: a sandbox whose goroutine was pending keeps its status of passage, and a request to
  pause or to resume it is refused.
\<close>

lemma restart_strands:
  assumes "r \<in> set (sv_sandboxes (lf_db s))" and "sb_status r \<in> {StatusCreating, StatusPausing, StatusResuming}"
  shows "life_step False s (s\<lparr>lf_reg := Map.empty, lf_jobs := {#}\<rparr>)"
    and "\<not> pending (lf_jobs (s\<lparr>lf_reg := Map.empty, lf_jobs := {#}\<rparr>)) (sb_id r, sb_local r, sb_status r, sb_paused r)"
    and "\<not> ValidTransition (sb_status r) StatusPausing" and "\<not> ValidTransition (sb_status r) StatusResuming"
proof -
  show "life_step False s (s\<lparr>lf_reg := Map.empty, lf_jobs := {#}\<rparr>)" using restart [of False s] by (cases s) simp
qed (use assms(2) in \<open>auto simp: pending_def settled_status_def ValidTransition_def\<close>)

end
