(* ===== verification/Sandbox_Limits.thy ===== *)
theory Sandbox_Limits
  imports Life_Cycle
begin

text \<open>
  What single operations on sandboxes do: a provisioning keeps the limits of its workspace, but two
  of them at once do not; the idle watcher pauses exactly the idle sandboxes; a deletion during
  a start leaves the process behind; a late end of a tunnel hides its successor.
\<close>

section \<open>Limits of a provisioning\<close>

definition sandbox_count :: "srv_db \<Rightarrow> string \<Rightarrow> int" where
  "sandbox_count db w = int (length (filter (\<lambda>r. sb_ws r = w) (sv_sandboxes db)))"

lemma count_sandboxes: "CountSandboxesByWorkspace True db w = Inr (sandbox_count db w)"
  by (simp add: CountSandboxesByWorkspace_def sandbox_count_def)

lemma adds_row_count: "adds_row i w l st c m db db1 \<Longrightarrow> sandbox_count db1 w = sandbox_count db w + 1"
  by (auto simp: adds_row_def sandbox_count_def)

lemma adds_row_sum:
  "adds_row i w False StatusCreating (Some a) (Some b) db db1 \<Longrightarrow>
     SumWorkspaceSandboxResources True db w = Inr (c, m) \<Longrightarrow>
     SumWorkspaceSandboxResources True db1 w = Inr (c + a, m + b)"
  by (auto simp: adds_row_def SumWorkspaceSandboxResources_def Let_def)

text \<open>What the checks establish.\<close>

lemma provisionCheck_ok:
  assumes "provisionCheck flt dur env (\<lambda>_. True) db w inp = Inr ad"
  obtains wd where "effectiveWorkspaceDefaults flt dur env (\<lambda>_. True) db w = Inr wd"
    and "wd_sandboxes wd = 0 \<or> sandbox_count db w < wd_sandboxes wd"
    and "checkWorkspaceResourceBudget flt dur env (\<lambda>_. True) db w (ad_cpu ad) (ad_memory ad) = Inr True"
    and "pi_cpu inp = None \<and> ad_cpu ad = wd_cpu wd \<or> pi_cpu inp = Some (ad_cpu ad) \<and> 0 < ad_cpu ad \<and> ad_cpu ad \<le> wd_cpu wd"
    and "pi_memory inp = None \<and> ad_memory ad = wd_memory wd \<or>
      pi_memory inp = Some (ad_memory ad) \<and> 0 < ad_memory ad \<and> ad_memory ad \<le> wd_memory wd"
proof -
  have nq: "checkSandboxQuota flt dur env (\<lambda>_. True) db w \<noteq> Inl e" for e
    using assms by (auto simp: provisionCheck_def)
  then obtain wd where wd: "effectiveWorkspaceDefaults flt dur env (\<lambda>_. True) db w = Inr wd"
    by (cases "effectiveWorkspaceDefaults flt dur env (\<lambda>_. True) db w") (auto simp: checkSandboxQuota_def)
  have q: "checkSandboxQuota flt dur env (\<lambda>_. True) db w =
      (if wd_sandboxes wd = 0 then Inr (True, sandbox_count db w, 0)
       else Inr (sandbox_count db w < wd_sandboxes wd, sandbox_count db w, wd_sandboxes wd))"
    by (simp add: checkSandboxQuota_def wd count_sandboxes)
  have lim: "wd_sandboxes wd = 0 \<or> sandbox_count db w < wd_sandboxes wd"
    using assms unfolding provisionCheck_def q by (auto split: if_splits)
  then have q2: "\<exists>a b. checkSandboxQuota flt dur env (\<lambda>_. True) db w = Inr (True, a, b)" using q by auto
  define cpu where "cpu = over (pi_cpu inp) (wd_cpu wd)"
  define mem where "mem = over (pi_memory inp) (wd_memory wd)"
  from q2 obtain a b where ab: "checkSandboxQuota flt dur env (\<lambda>_. True) db w = Inr (True, a, b)" by blast
  have c: "pi_cpu inp = None \<or> 0 < cpu \<and> cpu \<le> wd_cpu wd" and m: "pi_memory inp = None \<or> 0 < mem \<and> mem \<le> wd_memory wd"
    and b: "checkWorkspaceResourceBudget flt dur env (\<lambda>_. True) db w cpu mem = Inr True"
    and ad: "ad_cpu ad = cpu" "ad_memory ad = mem"
    using assms unfolding provisionCheck_def ab wd Let_def cpu_def [symmetric] mem_def [symmetric] sum.case prod.case
    by (simp_all split: if_split_asm sum.split_asm option.split_asm) auto
  show thesis
    by (rule that [OF wd lim])
      (use b c m in \<open>auto simp: ad cpu_def mem_def over_def split: option.splits\<close>)
qed

text \<open>C26: a request that provisions a sandbox keeps the limits, if the database answers, no other request
  writes between its check and its insertion, and the sums of the resources fit into an \<open>int64\<close>.  The sandbox is
  counted, the number of sandboxes of its workspace stays within the limit, the resources stay within the budget, and a
  requested share is the one asked for and within the maximum.  Without the second condition the limit can be passed:
  \<open>provision_race\<close>.\<close>

theorem provision_within_limits:
  assumes "provisionSandbox flt dur env (\<lambda>_. True) now pe w inp db = (Inr (s, opts), db')"
    and "SumWorkspaceSandboxResources True db w = Inr (c, m)"
    and "0 \<le> c + x_cpu s" and "c + x_cpu s < 2 ^ 63" and "0 \<le> m + x_memory s" and "m + x_memory s < 2 ^ 63"
  shows "\<exists>wd n. effectiveWorkspaceDefaults flt dur env (\<lambda>_. True) db w = Inr wd \<and>
     CountSandboxesByWorkspace True db w = Inr n \<and> CountSandboxesByWorkspace True db' w = Inr (n + 1) \<and>
     (wd_sandboxes wd = 0 \<or> n + 1 \<le> wd_sandboxes wd) \<and>
     SumWorkspaceSandboxResources True db' w = Inr (c + x_cpu s, m + x_memory s) \<and>
     (wd_totalCPU wd \<le> 0 \<or> c + x_cpu s \<le> wd_totalCPU wd) \<and>
     (wd_totalMemory wd \<le> 0 \<or> m + x_memory s \<le> wd_totalMemory wd) \<and>
     x_cpu s \<le> wd_cpu wd \<and> x_memory s \<le> wd_memory wd \<and>
     x_cpu s = over (pi_cpu inp) (wd_cpu wd) \<and> x_memory s = over (pi_memory inp) (wd_memory wd)"
proof -
  from provisionSandbox_cases [OF assms(1)] obtain ad
    where ad: "provisionCheck flt dur env (\<lambda>_. True) db w inp = Inr ad"
      "adds_row (pe_id pe) w False StatusCreating (Some (ad_cpu ad)) (Some (ad_memory ad)) db db'"
      "x_cpu s = ad_cpu ad" "x_memory s = ad_memory ad" by auto
  from provisionCheck_ok [OF ad(1)] obtain wd
    where wd: "effectiveWorkspaceDefaults flt dur env (\<lambda>_. True) db w = Inr wd"
      "wd_sandboxes wd = 0 \<or> sandbox_count db w < wd_sandboxes wd"
      "checkWorkspaceResourceBudget flt dur env (\<lambda>_. True) db w (ad_cpu ad) (ad_memory ad) = Inr True"
      "pi_cpu inp = None \<and> ad_cpu ad = wd_cpu wd \<or> pi_cpu inp = Some (ad_cpu ad) \<and> 0 < ad_cpu ad \<and> ad_cpu ad \<le> wd_cpu wd"
      "pi_memory inp = None \<and> ad_memory ad = wd_memory wd \<or>
        pi_memory inp = Some (ad_memory ad) \<and> 0 < ad_memory ad \<and> ad_memory ad \<le> wd_memory wd" .
  have fit: "int64 (c + ad_cpu ad) = c + ad_cpu ad" "int64 (m + ad_memory ad) = m + ad_memory ad"
    using assms(3-6) ad(3,4) by (simp_all add: int64_small)
  have "(wd_totalCPU wd \<le> 0 \<or> c + ad_cpu ad \<le> wd_totalCPU wd) \<and>
      (wd_totalMemory wd \<le> 0 \<or> m + ad_memory ad \<le> wd_totalMemory wd)"
    using wd(3) fit assms(2) by (auto simp: checkWorkspaceResourceBudget_def wd(1) split: if_splits)
  then show ?thesis
    using wd(2,4,5) ad(3,4) adds_row_count [OF ad(2)] adds_row_sum [OF ad(2) assms(2)]
    by (auto simp: wd(1) count_sandboxes over_def)
qed

text \<open>The check and the insertion are separate statements: two requests that are checked
  before either inserts its row are both served, and the workspace exceeds its limit.\<close>

theorem provision_race:
  assumes "provisionCheck flt dur env (\<lambda>_. True) db w inp1 = Inr ad1"
    and "provisionCheck flt dur env (\<lambda>_. True) db w inp2 = Inr ad2"
    and "effectiveWorkspaceDefaults flt dur env (\<lambda>_. True) db w = Inr wd"
    and "CountSandboxesByWorkspace True db w = Inr (wd_sandboxes wd - 1)"
    and "provisionCreate up1 now1 i1 vols1 ms1 byok1 proxy1 openclaw1 sids1 w inp1 ad1 db = (Inr x1, db1)"
    and "provisionCreate up2 now2 i2 vols2 ms2 byok2 proxy2 openclaw2 sids2 w inp2 ad2 db1 = (Inr x2, db2)"
  shows "CountSandboxesByWorkspace True db2 w = Inr (wd_sandboxes wd + 1)"
proof -
  from provisionCreate_cases [OF assms(5)] have "sandbox_count db1 w = sandbox_count db w + 1"
    by (auto dest: adds_row_count split: prod.splits)
  moreover from provisionCreate_cases [OF assms(6)] have "sandbox_count db2 w = sandbox_count db1 w + 1"
    by (auto dest: adds_row_count split: prod.splits)
  ultimately show ?thesis using assms(4) by (simp add: count_sandboxes)
qed

section \<open>The idle watcher\<close>

definition idle_result :: "time \<Rightarrow> bool \<Rightarrow> sbx_row \<Rightarrow> sbx_row" where
  "idle_result now paused r =
     (if paused then r\<lparr>sb_status := StatusPaused, sb_paused := Some now, sb_pod := None\<rparr>
      else r\<lparr>sb_status := StatusRunning, sb_paused := None\<rparr>)"

lemma pauseIdle_all:
  "pauseIdle (\<lambda>_. True) now pm i db =
     db\<lparr>sv_sandboxes := update_rows (\<lambda>r. sb_id r = i) (idle_result now (pm i)) (sv_sandboxes db)\<rparr>"
  by (cases "pm i")
    (simp_all add: pauseIdle_def UpdateSandboxStatus_def UpdateSandboxPodIP_def update_sandbox_def idle_result_def
      update_rows_def Let_def comp_def cong: if_cong)

lemma idleLoop_all:
  "idleLoop (\<lambda>_ _. True) now pm n rs db =
     db\<lparr>sv_sandboxes := fold (\<lambda>r. update_rows (\<lambda>x. sb_id x = sb_id r) (idle_result now (pm (sb_id r)))) rs
        (sv_sandboxes db)\<rparr>"
  by (induction rs arbitrary: n db) (simp_all add: pauseIdle_all)

lemma idle_result_id [simp]: "sb_id (idle_result now b r) = sb_id r"
  by (simp add: idle_result_def)

lemma idle_result_twice [simp]: "idle_result now b (idle_result now b r) = idle_result now b r"
  by (simp add: idle_result_def)

lemma fold_rows:
  "fold (\<lambda>r. update_rows (\<lambda>x. sb_id x = sb_id r) (idle_result now (pm (sb_id r)))) rs xs =
     map (\<lambda>x. if sb_id x \<in> sb_id ` set rs then idle_result now (pm (sb_id x)) x else x) xs"
proof (induction rs arbitrary: xs)
  case (Cons r rs)
  show ?case unfolding fold_Cons comp_apply Cons by (auto simp: update_rows_def)
qed simp

text \<open>A round of the idle watcher pauses exactly the idle sandboxes, or has them running
  again when the pause fails, and changes nothing else.\<close>

theorem idleCheck_exact:
  assumes "distinct (map sb_id (sv_sandboxes db))"
  shows "idleCheck True (\<lambda>_ _. True) now timeout pm db =
     db\<lparr>sv_sandboxes := map (\<lambda>r. if 0 < timeout \<and> idle_row now (timeout div 1000000000) r
        then idle_result now (pm (sb_id r)) r else r) (sv_sandboxes db)\<rparr>"
proof (cases "0 < timeout")
  case True
  let ?idle = "idle_row now (timeout div 1000000000)"
  have "(sb_id x \<in> sb_id ` set (filter ?idle (sv_sandboxes db))) = ?idle x" if "x \<in> set (sv_sandboxes db)" for x
    using distinct_map_inj_on [OF assms that] that by auto
  then have "map (\<lambda>x. if sb_id x \<in> sb_id ` set (filter ?idle (sv_sandboxes db)) then idle_result now (pm (sb_id x)) x else x)
      (sv_sandboxes db) = map (\<lambda>r. if ?idle r then idle_result now (pm (sb_id r)) r else r) (sv_sandboxes db)"
    by (intro map_cong refl) presburger
  with True show ?thesis by (simp add: idleCheck_def ListIdleSandboxes_def idleLoop_all fold_rows)
qed (simp add: idleCheck_def)

section \<open>Two gaps\<close>

lemma update_missing:
  assumes "\<And>r. r \<in> set (sv_sandboxes db) \<Longrightarrow> sb_id r \<noteq> i"
  shows "snd (update_sandbox u db i f) = db"
  using update_rows_none [of "sv_sandboxes db" "\<lambda>r. sb_id r = i" f] assms by (simp add: update_sandbox_def)

text \<open>A sandbox that is being created, paused or resumed can be deleted: nothing is stopped,
  and when the start that is under way succeeds its process runs without a row.\<close>

theorem deleted_while_starting:
  assumes "r \<in> set (sv_sandboxes db)" and "distinct (map sb_id (sv_sandboxes db))" and "\<not> sb_local r"
    and "sb_status r \<in> {StatusCreating, StatusPausing, StatusResuming}" and "role_of db (sb_ws r) user \<noteq> []"
  shows "\<exists>db'. handleDeleteSandbox (\<lambda>_. True) tunnels user (sb_id r) db = (Reply 204 (), [], db') \<and>
     \<not> has_sandbox db' (sb_id r) \<and>
     startEnd up now (sb_id r) (Some podIP) db' = db' \<and> resumeEnd up now (sb_id r) (Some podIP) db' = db'"
proof -
  let ?db = "drop_sandboxes (\<lambda>x. sb_id x = sb_id r) db"
  have f: "find (\<lambda>x. sb_id x = sb_id r) (sv_sandboxes db) = Some r" using find_key_unique [OF assms(2,1)] .
  have "sandboxFor (\<lambda>_. True) user (sb_id r) db = Inr (dbSandboxToSandbox r)"
    using assms(5) by (auto simp: sandboxFor_def sbx_Get_def GetSandbox_def f requireWorkspaceMember_def
        GetWorkspaceMemberRole_def role_of_def dbSandboxToSandbox_def split: option.splits)
  then have d: "handleDeleteSandbox (\<lambda>_. True) tunnels user (sb_id r) db = (Reply 204 (), [], ?db)"
    using assms(3,4) by (auto simp: handleDeleteSandbox_def stop_of_def dbSandboxToSandbox_def DeleteSandbox_def
        Let_def split: sum.split option.split)
  have g: "x \<in> set (sv_sandboxes ?db) \<Longrightarrow> sb_id x \<noteq> sb_id r" for x
    by (simp add: drop_sandboxes_def Let_def)
  then have "\<not> has_sandbox ?db (sb_id r)" by (auto simp: has_sandbox_def list_ex_iff)
  moreover have m: "snd (update_sandbox u ?db (sb_id r) h) = ?db" for u h using g by (rule update_missing)
  have "startEnd up now (sb_id r) (Some podIP) ?db = ?db"
    by (simp add: startEnd_def UpdateSandboxPodIP_def UpdateSandboxStatus_def Let_def m)
  moreover have "resumeEnd up now (sb_id r) (Some podIP) ?db = ?db"
    by (simp add: resumeEnd_def UpdateSandboxPodIP_def UpdateSandboxStatus_def UpdateSandboxActivity_def Let_def m)
  ultimately show ?thesis using d by blast
qed

text \<open>The handler of a closed tunnel removes it and then writes the status.  When the agent
  connects again in between, its live tunnel is registered and its sandbox is offline.\<close>

theorem tunnel_offline_race:
  assumes "tunnelLeave i t reg = (reg1, True)"
    and "tunnelConnect (\<lambda>_. True) now i tok t2 reg1 db = Inr (reg2, old, db1)"
  shows "tunnelGet reg2 i = Some t2 \<and> has_sandbox db i \<and>
     (\<forall>r \<in> set (sv_sandboxes (tunnelOffline True later i True db1)). sb_id r \<noteq> i \<or> sb_status r = StatusOffline)"
proof -
  from assms(2) have "tunnelRegister reg1 i t2 = (reg2, old)"
    by (auto simp: tunnelConnect_def Let_def split: if_splits sum.splits option.splits prod.splits)
  then have "tunnelGet reg2 i = Some t2"
    by (auto simp: tunnelRegister_def tunnelGet_def Register_def Lookup_def)
  moreover from tunnelConnect_cases(1) [OF assms(2)] have "has_sandbox db i"
    by (auto simp: view_def has_sandbox_def list_ex_iff)
  moreover have e: "sv_sandboxes (tunnelOffline True later i True db1) =
      update_rows (\<lambda>r. sb_id r = i) (\<lambda>r. r\<lparr>sb_status := StatusOffline\<rparr>) (sv_sandboxes db1)"
    by (simp add: tunnelOffline_def UpdateSandboxStatus_def update_sandbox_def)
  moreover have "sb_id r \<noteq> i \<or> sb_status r = StatusOffline"
    if "r \<in> set (sv_sandboxes (tunnelOffline True later i True db1))" for r
    using that unfolding e set_update_rows by (elim imageE) (simp split: if_splits)
  ultimately show ?thesis by blast
qed

section \<open>A run\<close>

text \<open>Ann's workspace, limited to two sandboxes, with the local agent of \<open>tdb\<close>.\<close>

definition qdb :: srv_db where
  "qdb = tdb\<lparr>sv_quotas := [''w'' \<mapsto> \<lparr>q_sandboxes = Some 2, q_cpu = None, q_memory = None, q_idle = None,
     q_totalCPU = Some 4000, q_totalMemory = None, q_drive = None\<rparr>]\<rparr>"

definition winput :: provisionInput where
  "winput = \<lparr>pi_name = ''A'', pi_type = [], pi_cpu = Some 500, pi_memory = None, pi_idle = None, pi_meta = [],
     pi_composition = None\<rparr>"

definition wenv :: provision_env where
  "wenv = \<lparr>pe_id = ''n'', pe_volumes = [], pe_models = None, pe_byok = None, pe_proxy = Some ''p'',
     pe_openclaw = Some ''o'', pe_sids = [''a1'']\<rparr>"

definition wad :: admitted where
  "wad = \<lparr>ad_name = ''A'', ad_type = ''openclaw'', ad_cpu = 500, ad_memory = 2147483648, ad_idle = None,
     ad_namespace = []\<rparr>"

lemma qdb_defaults:
  "effectiveWorkspaceDefaults (\<lambda>_ _. None) (\<lambda>_. None) (\<lambda>_. []) (\<lambda>_. True) qdb ''w'' =
     Inr \<lparr>wd_sandboxes = 2, wd_cpu = 2000, wd_memory = 2147483648, wd_idle = 1800, wd_totalCPU = 4000,
          wd_totalMemory = 0, wd_drive = 10737418240\<rparr>"
  by (simp add: effectiveWorkspaceDefaults_def getResourceDefaults_def hard_defaults_def atoi_over_def
      res_over_def setting_def GetSystemSetting_def GetWorkspaceQuota_def qdb_def tdb_def over_def Let_def)

lemma qdb_count: "sandbox_count qdb ''w'' = 1"
  by (simp add: sandbox_count_def qdb_def tdb_def)

lemma qdb_sum: "SumWorkspaceSandboxResources True qdb ''w'' = Inr (0, 0)"
  by (simp add: SumWorkspaceSandboxResources_def qdb_def tdb_def)

lemma qdb_workspace: "\<exists>ws. GetWorkspace True qdb ''w'' = Inr (Some ws) \<and> w_namespace ws = None"
  by (simp add: GetWorkspace_def qdb_def tdb_def scan_workspace_def)

lemma qdb_check:
  "provisionCheck (\<lambda>_ _. None) (\<lambda>_. None) (\<lambda>_. []) (\<lambda>_. True) qdb ''w'' winput = Inr wad"
proof -
  from qdb_workspace obtain ws where ws: "GetWorkspace True qdb ''w'' = Inr (Some ws)" "w_namespace ws = None" by blast
  show ?thesis
    by (simp add: provisionCheck_def checkSandboxQuota_def qdb_defaults count_sandboxes qdb_count winput_def wad_def
        Let_def validType_def over_def checkWorkspaceResourceBudget_def qdb_sum int64_def ws coalesce_def)
qed

lemma wcreate:
  assumes "\<not> sandbox_clash db i (Some sid)" "has_workspace db ''w''" "sid \<noteq> []"
  shows "\<exists>s opts db1. provisionCreate (\<lambda>_. True) now i [] None None (Some p) (Some t) [sid] ''w'' winput wad db =
     (Inr (s, opts), db1) \<and> x_cpu s = 500 \<and> x_memory s = 2147483648"
  using assms by (simp add: provisionCreate_def wad_def winput_def store_Create_def CreateSandbox_def
      insert_sandbox_def nullif_empty_def Let_def)

lemma wprovision:
  "\<exists>s opts db1. provisionSandbox (\<lambda>_ _. None) (\<lambda>_. None) (\<lambda>_. []) (\<lambda>_. True) now wenv ''w'' winput qdb =
     (Inr (s, opts), db1) \<and> x_cpu s = 500 \<and> x_memory s = 2147483648"
  using wcreate [of qdb "''n''" "''a1''" now "''p''" "''o''"]
  by (simp add: provisionSandbox_def qdb_check wenv_def)
     (simp add: sandbox_clash_def has_workspace_def qdb_def tdb_def)

theorem provision_within_limits_witness:
  "\<exists>s opts db1. provisionSandbox (\<lambda>_ _. None) (\<lambda>_. None) (\<lambda>_. []) (\<lambda>_. True) 3 wenv ''w'' winput qdb =
     (Inr (s, opts), db1) \<and> CountSandboxesByWorkspace True db1 ''w'' = Inr 2 \<and>
     SumWorkspaceSandboxResources True db1 ''w'' = Inr (500, 2147483648)"
proof -
  from wprovision obtain s opts db1
    where p: "provisionSandbox (\<lambda>_ _. None) (\<lambda>_. None) (\<lambda>_. []) (\<lambda>_. True) 3 wenv ''w'' winput qdb =
      (Inr (s, opts), db1)" "x_cpu s = 500" "x_memory s = 2147483648" by blast
  from provision_within_limits [OF p(1) qdb_sum] p(2,3) count_sandboxes [of qdb "''w''"] qdb_count
  show ?thesis using p(1) by auto
qed

lemma lower_ids: "lower ''a1'' \<noteq> lower ''a2''"
  by code_simp

theorem provision_race_witness:
  "\<exists>x1 db1 x2 db2.
     provisionCreate (\<lambda>_. True) 3 ''n'' [] None None (Some ''p'') (Some ''t'') [''a1''] ''w'' winput wad qdb = (Inr x1, db1) \<and>
     provisionCreate (\<lambda>_. True) 3 ''m'' [] None None (Some ''q'') (Some ''t'') [''a2''] ''w'' winput wad db1 = (Inr x2, db2) \<and>
     CountSandboxesByWorkspace True db2 ''w'' = Inr 3"
proof -
  have 1: "\<not> sandbox_clash qdb ''n'' (Some ''a1'')" "has_workspace qdb ''w''"
    by (simp_all add: sandbox_clash_def has_workspace_def qdb_def tdb_def)
  from wcreate [OF 1, of 3 "''p''" "''t''"] obtain x1 db1
    where a: "provisionCreate (\<lambda>_. True) 3 ''n'' [] None None (Some ''p'') (Some ''t'') [''a1''] ''w'' winput wad qdb =
      (Inr x1, db1)" by auto
  have 2: "\<not> sandbox_clash db1 ''m'' (Some ''a2'')" "has_workspace db1 ''w''"
    using a by (auto simp: provisionCreate_def wad_def winput_def store_Create_def CreateSandbox_def
        insert_sandbox_def nullif_empty_def Let_def 1 insert_sandbox_token_def sandbox_clash_def lower_ids
        qdb_def tdb_def has_workspace_def split: if_splits)
  from wcreate [OF 2, of 3 "''q''" "''t''"] obtain x2 db2
    where b: "provisionCreate (\<lambda>_. True) 3 ''m'' [] None None (Some ''q'') (Some ''t'') [''a2''] ''w'' winput wad db1 =
      (Inr x2, db2)" by auto
  have "CountSandboxesByWorkspace True db2 ''w'' = Inr 3"
    using provision_race [OF qdb_check qdb_check qdb_defaults _ a b] by (simp add: count_sandboxes qdb_count)
  with a b show ?thesis by blast
qed

theorem idleCheck_exact_witness:
  "\<exists>r. sv_sandboxes (idleCheck True (\<lambda>_ _. True) 4000000000000 1800000000000 (\<lambda>_. True)
       (qdb\<lparr>sv_sandboxes := [(hd (sv_sandboxes tdb))\<lparr>sb_local := False, sb_active := Some 0\<rparr>]\<rparr>)) = [r] \<and>
     sb_status r = StatusPaused"
  by (subst idleCheck_exact) (simp_all add: idle_row_def idle_result_def tdb_def Let_def)

theorem deleted_while_starting_witness:
  "\<exists>db'. handleDeleteSandbox (\<lambda>_. True) (\<lambda>_. False) ''ann'' ''s''
       (qdb\<lparr>sv_sandboxes := [(hd (sv_sandboxes tdb))\<lparr>sb_local := False, sb_status := StatusCreating\<rparr>]\<rparr>) =
     (Reply 204 (), [], db') \<and> startEnd (\<lambda>_. True) 5 ''s'' (Some ''ip'') db' = db'"
  using deleted_while_starting [of "(hd (sv_sandboxes tdb))\<lparr>sb_local := False, sb_status := StatusCreating\<rparr>"
      "qdb\<lparr>sv_sandboxes := [(hd (sv_sandboxes tdb))\<lparr>sb_local := False, sb_status := StatusCreating\<rparr>]\<rparr>"
      "''ann''" "\<lambda>_. False" "\<lambda>_. True" 5 "''ip''"]
  by (simp add: role_of_def qdb_def) (auto simp: tdb_def)

theorem tunnel_offline_race_witness:
  "\<exists>reg1 reg2 old db1. tunnelLeave ''s'' (1::nat) [''s'' \<mapsto> 1] = (reg1, True) \<and>
     tunnelConnect (\<lambda>_. True) 5 ''s'' ''tt'' 2 reg1 tdb = Inr (reg2, old, db1) \<and>
     tunnelGet reg2 ''s'' = Some 2 \<and>
     (\<forall>r \<in> set (sv_sandboxes (tunnelOffline True 6 ''s'' True db1)). sb_id r \<noteq> ''s'' \<or> sb_status r = StatusOffline)"
proof -
  have a: "tunnelLeave ''s'' (1::nat) [''s'' \<mapsto> 1] = (Map.empty, True)"
    by (simp add: tunnelLeave_def tunnelUnregister_def)
  obtain reg2 old db1 where b: "tunnelConnect (\<lambda>_. True) 5 ''s'' ''tt'' (2::nat) Map.empty tdb = Inr (reg2, old, db1)"
    by (simp add: tunnelConnect_def GetSandboxByTunnelToken_def tdb_def Let_def tunnelRegister_def)
  from tunnel_offline_race [OF a b] a b show ?thesis by blast
qed

section \<open>A run of the lifecycle\<close>

lemma wlife:
  obtains s0 s1 r where "life_start s0" "life_step True s0 s1" "r \<in> set (sv_sandboxes (lf_db s1))"
    "sb_status r = StatusCreating" "lf_jobs s1 = {#StartJob ''n''#}"
proof -
  let ?db = "qdb\<lparr>sv_sandboxes := []\<rparr>"
  have check: "provisionCheck (\<lambda>_ _. None) (\<lambda>_. None) (\<lambda>_. []) (\<lambda>_. True) ?db ''w'' winput = Inr wad"
  proof -
    have "effectiveWorkspaceDefaults (\<lambda>_ _. None) (\<lambda>_. None) (\<lambda>_. []) (\<lambda>_. True) ?db ''w'' =
        effectiveWorkspaceDefaults (\<lambda>_ _. None) (\<lambda>_. None) (\<lambda>_. []) (\<lambda>_. True) qdb ''w''"
      by (simp add: effectiveWorkspaceDefaults_def getResourceDefaults_def setting_def GetSystemSetting_def
          GetWorkspaceQuota_def)
    moreover have "GetWorkspace True ?db ''w'' = GetWorkspace True qdb ''w''" by (simp add: GetWorkspace_def)
    moreover obtain ws where ws: "GetWorkspace True qdb ''w'' = Inr (Some ws)" "w_namespace ws = None"
      using qdb_workspace by blast
    ultimately show ?thesis
      by (simp add: provisionCheck_def checkSandboxQuota_def qdb_defaults count_sandboxes sandbox_count_def winput_def
          wad_def Let_def validType_def over_def checkWorkspaceResourceBudget_def SumWorkspaceSandboxResources_def
          int64_def coalesce_def)
  qed
  have "\<exists>s opts db1. provisionSandbox (\<lambda>_ _. None) (\<lambda>_. None) (\<lambda>_. []) (\<lambda>_. True) 3 wenv ''w'' winput ?db = (Inr (s, opts), db1)"
  proof -
    have "\<not> sandbox_clash ?db ''n'' (Some ''a1'')" "has_workspace ?db ''w''"
      by (simp_all add: sandbox_clash_def has_workspace_def qdb_def tdb_def)
    from wcreate [OF this, of 3 "''p''" "''o''"] show ?thesis
      by (auto simp: provisionSandbox_def check wenv_def)
  qed
  then obtain s opts db1 where
    p: "provisionSandbox (\<lambda>_ _. None) (\<lambda>_. None) (\<lambda>_. []) (\<lambda>_. True) 3 wenv ''w'' winput ?db = (Inr (s, opts), db1)" by blast
  have "requireWorkspaceRole True ?db ''ann'' ''w'' [''owner'', ''maintainer'', ''developer''] = None"
    by (simp add: requireWorkspaceRole_def requireWorkspaceMember_def GetWorkspaceMemberRole_def qdb_def tdb_def)
  then have h: "handleCreateSandbox (\<lambda>_ _. None) (\<lambda>_. None) (\<lambda>_. []) (\<lambda>_. True) 3 wenv ''ann'' ''w'' (Some winput) ?db =
      (Reply 201 s, Some opts, db1)" by (simp add: handleCreateSandbox_def p)
  from handleCreate_cases [OF h] have "view db1 = [(''n'', False, StatusCreating, None)]"
    by (auto dest!: adds_row_view simp: view_def wenv_def)
  then obtain r where r: "r \<in> set (sv_sandboxes db1)" "sb_status r = StatusCreating" by (auto simp: view_def)
  have "life_step True \<lparr>lf_db = ?db, lf_reg = Map.empty, lf_jobs = {#}\<rparr>
      \<lparr>lf_db = db1, lf_reg = Map.empty, lf_jobs = add_mset (StartJob (pe_id wenv)) {#}\<rparr>"
    by (rule life_step.created [OF _ _ h]) (simp_all add: fresh_id_def)
  then show thesis
    by (rule that [rotated]) (use r in \<open>simp_all add: life_start_def wenv_def\<close>)
qed

theorem lifecycle_refines_witness:
  "\<exists>s0 s1. life_step True s0 s1 \<and> spec_step True (abs_life s0) (abs_life s1) \<and> abs_life s1 \<noteq> abs_life s0"
proof -
  from wlife obtain s0 s1 r where w: "life_start s0" "life_step True s0 s1" "lf_jobs s1 = {#StartJob ''n''#}" by metis
  then have "abs_life s1 \<noteq> abs_life s0" by (auto simp: abs_life_def life_start_def)
  with lifecycle_refines [OF w(2)] w(2) show ?thesis by blast
qed

theorem lifecycle_consistent_witness:
  "\<exists>s r. life_reach True s \<and> r \<in> set (sv_sandboxes (lf_db s)) \<and> \<not> sb_local r"
proof -
  from wlife obtain s0 s1 r where w: "life_start s0" "life_step True s0 s1" "r \<in> set (sv_sandboxes (lf_db s1))"
    "sb_status r = StatusCreating" by metis
  have l: "life_reach True s1" using life_reach_step [OF life_reach_start [OF w(1)] w(2)] .
  from lifecycle_consistent [OF l w(3)] w(4) have "\<not> sb_local r" by auto
  with l w(3) show ?thesis by blast
qed

text \<open>The goroutine that creates the sandbox can end, and then it runs, or its row is gone.\<close>

theorem lifecycle_settles_witness:
  "\<exists>s s'. life_reach True s \<and> (\<exists>r. r \<in> set (sv_sandboxes (lf_db s)) \<and> sb_status r = StatusCreating) \<and>
     finish_step\<^sup>*\<^sup>* s s' \<and> ends (lf_jobs s') = 0 \<and>
     list_all (\<lambda>r. sb_status r \<in> {StatusRunning, StatusPaused, StatusOffline}) (sv_sandboxes (lf_db s'))"
proof -
  from wlife obtain s0 s1 r where w: "life_start s0" "life_step True s0 s1" "r \<in> set (sv_sandboxes (lf_db s1))"
    "sb_status r = StatusCreating" by metis
  have l: "life_reach True s1" using life_reach_step [OF life_reach_start [OF w(1)] w(2)] .
  note t = lifecycle_settles [OF l]
  from t obtain s' where s': "finish_step\<^sup>*\<^sup>* s1 s'" "ends (lf_jobs s') = 0" by blast
  with t have "list_all (\<lambda>r. sb_status r \<in> {StatusRunning, StatusPaused, StatusOffline}) (sv_sandboxes (lf_db s'))"
    by (simp add: list_all_iff)
  with l w(3,4) s' show ?thesis by blast
qed

end
