(* ===== verification/Agent_Work.thy ===== *)
theory Agent_Work
  imports Sandbox_Life
begin

text \<open>
  What agents do with each other: delegated tasks (\<open>internal/db/agent_tasks.go\<close>,
  \<open>internal/server/agent_tasks.go\<close>), the mailbox (\<open>agent_mailbox.go\<close> of both packages), and the audit
  trail (\<open>agent_interactions.go\<close> of both), with the authentication by proxy token
  (\<open>agent_proxy_routes.go\<close>).

  Request bodies are decoded values, \<open>None\<close> when they do not decode.  The order of rows with equal
  times is that of their insertion; the database leaves it open.  A number outside the range of its
  column is an error of the database in the code and is not modelled.
\<close>

section \<open>Statements on tasks\<close>

definition db_CreateAgentTask :: "bool \<Rightarrow> time \<Rightarrow> srv_db \<Rightarrow> task_row \<Rightarrow> db_err option \<times> srv_db" where
  "db_CreateAgentTask up now db t =
     (if \<not> up then (Some DbDown, db)
      else if list_ex (\<lambda>r. tk_id r = tk_id t) (sv_tasks db) then (Some DuplicateKey, db)
      else if \<not> has_workspace db (tk_ws t) \<or> \<not> has_sandbox db (tk_target t) \<or>
        (case tk_requester t of Some i \<Rightarrow> \<not> has_sandbox db i | None \<Rightarrow> False)
      then (Some ForeignKey, db)
      else (None, db\<lparr>sv_tasks := sv_tasks db @
              [t\<lparr>tk_status := TaskPending, tk_result := None, tk_failure := None, tk_cost := None,
                tk_turns := 0, tk_created := now, tk_accepted := None, tk_completed := None\<rparr>]\<rparr>))"

definition db_GetAgentTask :: "bool \<Rightarrow> srv_db \<Rightarrow> string \<Rightarrow> db_err + task_row option" where
  "db_GetAgentTask up db i =
     (if \<not> up then Inl DbDown else Inr (find (\<lambda>r. tk_id r = i) (sv_tasks db)))"

definition ListAgentTasksByWorkspace :: "bool \<Rightarrow> srv_db \<Rightarrow> string \<Rightarrow> nat \<Rightarrow> db_err + task_row list" where
  "ListAgentTasksByWorkspace up db w limit =
     (if \<not> up then Inl DbDown
      else Inr (take limit (sort_key (\<lambda>r. - tk_created r) (filter (\<lambda>r. tk_ws r = w) (sv_tasks db)))))"

definition update_task :: "bool \<Rightarrow> srv_db \<Rightarrow> string \<Rightarrow> (task_row \<Rightarrow> task_row) \<Rightarrow> db_err option \<times> srv_db" where
  "update_task up db i f =
     (if \<not> up then (Some DbDown, db)
      else (None, db\<lparr>sv_tasks := update_rows (\<lambda>r. tk_id r = i) f (sv_tasks db)\<rparr>))"

definition UpdateAgentTaskStatus ::
  "bool \<Rightarrow> time \<Rightarrow> srv_db \<Rightarrow> string \<Rightarrow> task_status \<Rightarrow> db_err option \<times> srv_db" where
  "UpdateAgentTaskStatus up now db i st =
     update_task up db i
       (\<lambda>r. if st \<in> {TaskAssigned, TaskRunning}
            then r\<lparr>tk_status := st, tk_accepted := (case tk_accepted r of Some t \<Rightarrow> Some t | None \<Rightarrow> Some now)\<rparr>
            else if st \<in> {TaskCompleted, TaskFailed, TaskCancelled}
            then r\<lparr>tk_status := st, tk_completed := Some now\<rparr>
            else r\<lparr>tk_status := st\<rparr>)"

definition UpdateAgentTaskResult ::
  "bool \<Rightarrow> time \<Rightarrow> srv_db \<Rightarrow> string \<Rightarrow> string \<Rightarrow> string option \<Rightarrow> int \<Rightarrow> db_err option \<times> srv_db" where
  "UpdateAgentTaskResult up now db i result cost turns =
     update_task up db i
       (\<lambda>r. r\<lparr>tk_result := Some result, tk_cost := cost, tk_turns := turns, tk_status := TaskCompleted,
             tk_completed := Some now\<rparr>)"

definition FailAgentTask :: "bool \<Rightarrow> time \<Rightarrow> srv_db \<Rightarrow> string \<Rightarrow> string \<Rightarrow> db_err option \<times> srv_db" where
  "FailAgentTask up now db i reason =
     update_task up db i
       (\<lambda>r. r\<lparr>tk_status := TaskFailed, tk_failure := Some reason, tk_completed := Some now\<rparr>)"

text \<open>One statement picks the oldest pending tasks and marks them; it returns the marked rows.\<close>

definition pending_tasks :: "srv_db \<Rightarrow> string \<Rightarrow> nat \<Rightarrow> task_row list" where
  "pending_tasks db target limit =
     take limit (sort_key tk_created
       (filter (\<lambda>r. tk_target r = target \<and> tk_status r = TaskPending) (sv_tasks db)))"

definition assign :: "time \<Rightarrow> task_row \<Rightarrow> task_row" where
  "assign now r = r\<lparr>tk_status := TaskAssigned, tk_accepted := Some now\<rparr>"

definition ListPendingAgentTasksByTarget ::
  "bool \<Rightarrow> time \<Rightarrow> srv_db \<Rightarrow> string \<Rightarrow> nat \<Rightarrow> (db_err + task_row list) \<times> srv_db" where
  "ListPendingAgentTasksByTarget up now db target limit =
     (if \<not> up then (Inl DbDown, db)
      else (let ids = map tk_id (pending_tasks db target limit);
                P = (\<lambda>r. tk_id r \<in> set ids) in
        (Inr (map (assign now) (filter P (sv_tasks db))),
         db\<lparr>sv_tasks := update_rows P (assign now) (sv_tasks db)\<rparr>)))"

section \<open>Statements on messages and the audit trail\<close>

definition SendMessage :: "bool \<Rightarrow> time \<Rightarrow> srv_db \<Rightarrow> AgentMessage \<Rightarrow> db_err option \<times> srv_db" where
  "SendMessage up now db m =
     (if \<not> up then (Some DbDown, db)
      else if list_ex (\<lambda>r. ms_id r = ms_id m) (sv_mail db) then (Some DuplicateKey, db)
      else if \<not> has_workspace db (ms_ws m) \<or> \<not> has_sandbox db (ms_from m) \<or> \<not> has_sandbox db (ms_to m)
      then (Some ForeignKey, db)
      else (None, db\<lparr>sv_mail := sv_mail db @ [m\<lparr>ms_created := now, ms_read := None\<rparr>]\<rparr>))"

definition unread :: "srv_db \<Rightarrow> string \<Rightarrow> nat \<Rightarrow> AgentMessage list" where
  "unread db i limit =
     take limit (sort_key ms_created (filter (\<lambda>m. ms_to m = i \<and> ms_read m = None) (sv_mail db)))"

definition ReadInbox ::
  "bool \<Rightarrow> time \<Rightarrow> srv_db \<Rightarrow> string \<Rightarrow> nat \<Rightarrow> (db_err + AgentMessage list) \<times> srv_db" where
  "ReadInbox up now db i limit =
     (if \<not> up then (Inl DbDown, db)
      else (let ids = map ms_id (unread db i limit);
                P = (\<lambda>m. ms_id m \<in> set ids); f = (\<lambda>m. m\<lparr>ms_read := Some now\<rparr>) in
        (Inr (map f (filter P (sv_mail db))), db\<lparr>sv_mail := update_rows P f (sv_mail db)\<rparr>)))"

text \<open>An entry that violates a reference is dropped; the caller does not see it.\<close>

definition LogInteraction :: "bool \<Rightarrow> time \<Rightarrow> srv_db \<Rightarrow> AgentInteraction \<Rightarrow> srv_db" where
  "LogInteraction up now db e =
     (if \<not> up \<or> \<not> has_workspace db (in_ws e) \<or>
        (case in_actor e of Some i \<Rightarrow> \<not> has_sandbox db i | None \<Rightarrow> False) then db
      else db\<lparr>sv_log := sv_log db @ [e\<lparr>in_created := now\<rparr>]\<rparr>)"

definition ListInteractions ::
  "bool \<Rightarrow> srv_db \<Rightarrow> string \<Rightarrow> nat \<Rightarrow> nat \<Rightarrow> db_err + AgentInteraction list" where
  "ListInteractions up db w limit offset =
     (if \<not> up then Inl DbDown
      else Inr (take limit (drop offset
             (sort_key (\<lambda>e. - in_created e) (filter (\<lambda>e. in_ws e = w) (sv_log db))))))"

definition logInteraction ::
  "bool \<Rightarrow> time \<Rightarrow> string \<Rightarrow> string option \<Rightarrow> string \<Rightarrow> string \<Rightarrow> string \<Rightarrow> srv_db \<Rightarrow> srv_db" where
  "logInteraction up now w actor action targetID targetType db =
     LogInteraction up now db
       \<lparr>in_ws = w, in_actor = actor, in_action = action, in_target = targetID, in_type = targetType,
        in_created = now\<rparr>"

section \<open>Task handlers\<close>

text \<open>The sandbox of the bearer token, or the error reply: statements 0 and 1.\<close>

definition bearer_of :: "string \<Rightarrow> string option" where
  "bearer_of h = (if length h > 7 \<and> take 7 h = ''Bearer '' then Some (drop 7 h) else None)"

definition extractProxyTokenSandbox ::
  "(nat \<Rightarrow> bool) \<Rightarrow> string \<Rightarrow> srv_db \<Rightarrow> (nat \<times> string) + sbx_row" where
  "extractProxyTokenSandbox up header db =
     (case bearer_of header of
        None \<Rightarrow> Inl (401, ''missing authorization'')
      | Some tok \<Rightarrow>
          (case GetSandboxByAnyToken up db tok of
             Inr (Some s) \<Rightarrow> Inr s | _ \<Rightarrow> Inl (401, ''unauthorized'')))"

record delegation_request =
  rq_target :: string
  rq_skill :: string
  rq_prompt :: string
  rq_context :: string
  rq_maxTurns :: int
  rq_maxBudget :: string
  rq_timeout :: int
  rq_chain :: "string list"
  rq_requester :: string

text \<open>
  Statements: 2 the target, 3 the insertion, 4 the audit entry.  \<open>u\<close> is the new UUID.  The reply
  has the identifier and the status.
\<close>

definition handleCreateTaskForWorkspace ::
  "(nat \<Rightarrow> bool) \<Rightarrow> time \<Rightarrow> string \<Rightarrow> string \<Rightarrow> delegation_request option \<Rightarrow> srv_db \<Rightarrow> (string \<times> string) reply \<times> srv_db" where
  "handleCreateTaskForWorkspace up now w u body db =
     (case body of
        None \<Rightarrow> (ErrorReply 400 ''bad request'', db)
      | Some req \<Rightarrow>
     if rq_target req = [] \<or> rq_prompt req = [] then (ErrorReply 400 ''target_id and prompt required'', db)
     else (case GetSandbox (up 2) db (rq_target req) of
        Inr (Some t) \<Rightarrow>
          if sb_ws t \<noteq> w then (ErrorReply 403 ''target agent not in workspace'', db)
          else (let taskID = ''task_'' @ u;
                    timeout = (if rq_timeout req \<le> 0 then 300 else rq_timeout req) in
            case db_CreateAgentTask (up 3) now db
                \<lparr>tk_id = taskID, tk_ws = w, tk_requester = nullif_empty (rq_requester req),
                 tk_target = rq_target req, tk_session = None, tk_skill = nullif_empty (rq_skill req),
                 tk_prompt = rq_prompt req, tk_context = nullif_empty (rq_context req),
                 tk_status = TaskPending, tk_result = None, tk_failure = None, tk_timeout = timeout,
                 tk_chain = rq_chain req, tk_cost = None, tk_turns = 0, tk_created = now,
                 tk_accepted = None, tk_completed = None\<rparr> of
              (Some _, db1) \<Rightarrow> (ErrorReply 500 ''internal error'', db1)
            | (None, db1) \<Rightarrow>
                (Reply 201 (taskID, ''pending''),
                 logInteraction (up 4) now w (nullif_empty (rq_requester req)) ''task_created'' taskID ''task'' db1))
      | _ \<Rightarrow> (ErrorReply 404 ''target agent not found'', db)))"

text \<open>The route for users takes the workspace from the path, the one for agents from the token.\<close>

definition handleCreateTask ::
  "(nat \<Rightarrow> bool) \<Rightarrow> time \<Rightarrow> string \<Rightarrow> string \<Rightarrow> delegation_request option \<Rightarrow> srv_db \<Rightarrow> (string \<times> string) reply \<times> srv_db" where
  "handleCreateTask up now wid u body db = handleCreateTaskForWorkspace up now wid u body db"

definition handleAgentCreateTask ::
  "(nat \<Rightarrow> bool) \<Rightarrow> time \<Rightarrow> string \<Rightarrow> string \<Rightarrow> delegation_request option \<Rightarrow> srv_db \<Rightarrow> (string \<times> string) reply \<times> srv_db" where
  "handleAgentCreateTask up now header u body db =
     (case extractProxyTokenSandbox up header db of
        Inl (c, msg) \<Rightarrow> (ErrorReply c msg, db)
      | Inr s \<Rightarrow> handleCreateTaskForWorkspace up now (sb_ws s) u body db)"

definition handleListTasks :: "bool \<Rightarrow> string \<Rightarrow> srv_db \<Rightarrow> task_row list reply" where
  "handleListTasks up wid db =
     (case ListAgentTasksByWorkspace up db wid 100 of
        Inl _ \<Rightarrow> ErrorReply 500 ''internal error'' | Inr ts \<Rightarrow> Reply 200 ts)"

text \<open>The events of the task's session belong to another table and are not part of the reply here.\<close>

definition handleGetTask :: "bool \<Rightarrow> string \<Rightarrow> srv_db \<Rightarrow> task_row reply" where
  "handleGetTask up i db =
     (case db_GetAgentTask up db i of
        Inl _ \<Rightarrow> ErrorReply 500 ''internal error''
      | Inr None \<Rightarrow> ErrorReply 404 ''not found''
      | Inr (Some t) \<Rightarrow> Reply 200 t)"

definition handleAgentGetTask :: "(nat \<Rightarrow> bool) \<Rightarrow> string \<Rightarrow> string \<Rightarrow> srv_db \<Rightarrow> task_row reply" where
  "handleAgentGetTask up header i db =
     (case extractProxyTokenSandbox up header db of
        Inl (c, msg) \<Rightarrow> ErrorReply c msg
      | Inr _ \<Rightarrow> handleGetTask (up 2) i db)"

record poll_item =
  pl_id :: string
  pl_prompt :: string
  pl_context :: string
  pl_maxTurns :: int
  pl_maxBudget :: string
  pl_session :: string

definition poll_item_of :: "task_row \<Rightarrow> poll_item" where
  "poll_item_of t =
     \<lparr>pl_id = tk_id t, pl_prompt = tk_prompt t, pl_context = coalesce (tk_context t), pl_maxTurns = 0,
      pl_maxBudget = ''0'', pl_session = coalesce (tk_session t)\<rparr>"

text \<open>\<open>q\<close> is the query parameter \<open>sandbox_id\<close>.\<close>

definition handlePollTasks ::
  "(nat \<Rightarrow> bool) \<Rightarrow> time \<Rightarrow> string \<Rightarrow> string \<Rightarrow> srv_db \<Rightarrow> poll_item list reply \<times> srv_db" where
  "handlePollTasks up now header q db =
     (case extractProxyTokenSandbox up header db of
        Inl (c, msg) \<Rightarrow> (ErrorReply c msg, db)
      | Inr s \<Rightarrow>
          (let sandboxID = (if q = [] then sb_id s else q) in
           if sandboxID \<noteq> sb_id s then (ErrorReply 403 ''forbidden'', db)
           else (case ListPendingAgentTasksByTarget (up 2) now db sandboxID 5 of
               (Inl _, db1) \<Rightarrow> (ErrorReply 500 ''internal error'', db1)
             | (Inr ts, db1) \<Rightarrow> (Reply 200 (map poll_item_of ts), db1))))"

record status_request =
  sr_status :: string
  sr_failure :: string
  sr_result :: string
  sr_cost :: "string option"
  sr_turns :: int

definition task_status_of :: "string \<Rightarrow> task_status option" where
  "task_status_of s =
     (if s = ''running'' then Some TaskRunning
      else if s = ''completed'' then Some TaskCompleted
      else if s = ''failed'' then Some TaskFailed
      else if s = ''cancelled'' then Some TaskCancelled
      else None)"

text \<open>The errors of the update are ignored.\<close>

definition handleUpdateTaskStatus ::
  "(nat \<Rightarrow> bool) \<Rightarrow> time \<Rightarrow> string \<Rightarrow> string \<Rightarrow> status_request option \<Rightarrow> srv_db \<Rightarrow> unit reply \<times> srv_db" where
  "handleUpdateTaskStatus up now header i body db =
     (case extractProxyTokenSandbox up header db of
        Inl (c, msg) \<Rightarrow> (ErrorReply c msg, db)
      | Inr s \<Rightarrow>
     (case body of
        None \<Rightarrow> (ErrorReply 400 ''bad request'', db)
      | Some req \<Rightarrow>
     (case task_status_of (sr_status req) of
        None \<Rightarrow> (ErrorReply 400 ''invalid status'', db)
      | Some st \<Rightarrow>
          (let db1 = snd (if st = TaskFailed \<and> sr_failure req \<noteq> [] then FailAgentTask (up 2) now db i (sr_failure req)
                 else if st = TaskCompleted \<and> sr_result req \<noteq> []
                 then UpdateAgentTaskResult (up 2) now db i (sr_result req) (sr_cost req) (sr_turns req)
                 else UpdateAgentTaskStatus (up 2) now db i st) in
           (Reply 200 (),
            logInteraction (up 3) now (sb_ws s) (Some (sb_id s)) ''task_status_changed'' i ''task'' db1)))))"

definition handleCancelTask ::
  "(nat \<Rightarrow> bool) \<Rightarrow> time \<Rightarrow> string \<Rightarrow> srv_db \<Rightarrow> string reply \<times> srv_db" where
  "handleCancelTask up now i db =
     (case db_GetAgentTask (up 0) db i of
        Inr (Some t) \<Rightarrow>
          if tk_status t \<in> {TaskCompleted, TaskFailed, TaskCancelled}
          then (ErrorReply 409 ''task already finished'', db)
          else (case UpdateAgentTaskStatus (up 1) now db i TaskCancelled of
              (Some _, db1) \<Rightarrow> (ErrorReply 500 ''internal error'', db1)
            | (None, db1) \<Rightarrow>
                (Reply 200 ''cancelled'',
                 logInteraction (up 2) now (tk_ws t) None ''task_cancelled'' i ''task'' db1))
      | _ \<Rightarrow> (ErrorReply 404 ''not found'', db))"

section \<open>Mailbox handlers\<close>

text \<open>The body has the addressee, the text and the kind.  Statements: 2 the addressee, 3 the
  insertion, 4 the audit entry.\<close>

definition handleSendMessage ::
  "(nat \<Rightarrow> bool) \<Rightarrow> time \<Rightarrow> string \<Rightarrow> string \<Rightarrow> (string \<times> string \<times> string) option \<Rightarrow> srv_db \<Rightarrow>
     (string \<times> string) reply \<times> srv_db" where
  "handleSendMessage up now header u body db =
     (case extractProxyTokenSandbox up header db of
        Inl (c, msg) \<Rightarrow> (ErrorReply c msg, db)
      | Inr s \<Rightarrow>
     (case body of
        None \<Rightarrow> (ErrorReply 400 ''bad request'', db)
      | Some (to, txt, kind) \<Rightarrow>
     if to = [] \<or> txt = [] then (ErrorReply 400 ''to and text required'', db)
     else (case GetSandbox (up 2) db to of
        Inr (Some t) \<Rightarrow>
          if sb_ws t \<noteq> sb_ws s then (ErrorReply 403 ''target not in same workspace'', db)
          else (let msgID = ''msg_'' @ u in
            case SendMessage (up 3) now db
                \<lparr>ms_id = msgID, ms_ws = sb_ws s, ms_from = sb_id s, ms_to = to, ms_text = txt,
                 ms_type = (if kind = [] then ''text'' else kind), ms_created = now, ms_read = None\<rparr> of
              (Some _, db1) \<Rightarrow> (ErrorReply 500 ''internal error'', db1)
            | (None, db1) \<Rightarrow>
                (Reply 201 (msgID, ''sent''),
                 logInteraction (up 4) now (sb_ws s) (Some (sb_id s)) ''message_sent'' msgID ''message'' db1))
      | _ \<Rightarrow> (ErrorReply 404 ''target agent not found'', db))))"

text \<open>\<open>q\<close> is the query parameter \<open>limit\<close>.\<close>

definition inbox_limit :: "string \<Rightarrow> nat" where
  "inbox_limit q =
     (if q = [] then 10 else (case ParseInt q of Some n \<Rightarrow> if n > 0 then nat n else 10 | None \<Rightarrow> 10))"

definition handleReadInbox ::
  "(nat \<Rightarrow> bool) \<Rightarrow> time \<Rightarrow> string \<Rightarrow> string \<Rightarrow> srv_db \<Rightarrow> AgentMessage list reply \<times> srv_db" where
  "handleReadInbox up now header q db =
     (case extractProxyTokenSandbox up header db of
        Inl (c, msg) \<Rightarrow> (ErrorReply c msg, db)
      | Inr s \<Rightarrow>
          (case ReadInbox (up 2) now db (sb_id s) (inbox_limit q) of
             (Inl _, db1) \<Rightarrow> (ErrorReply 500 ''internal error'', db1)
           | (Inr ms, db1) \<Rightarrow> (Reply 200 ms, db1)))"

section \<open>The audit trail\<close>

definition page_limit :: "string \<Rightarrow> nat" where
  "page_limit q =
     (if q = [] then 50 else (case ParseInt q of Some n \<Rightarrow> if 0 < n \<and> n \<le> 200 then nat n else 50 | None \<Rightarrow> 50))"

definition page_offset :: "string \<Rightarrow> nat" where
  "page_offset q =
     (if q = [] then 0 else (case ParseInt q of Some n \<Rightarrow> if 0 \<le> n then nat n else 0 | None \<Rightarrow> 0))"

definition handleListInteractions ::
  "(nat \<Rightarrow> bool) \<Rightarrow> string \<Rightarrow> string \<Rightarrow> string \<Rightarrow> string \<Rightarrow> srv_db \<Rightarrow> AgentInteraction list reply" where
  "handleListInteractions up user wid ql qo db =
     (case requireWorkspaceMember (up 0) db user wid of
        Inl (c, msg) \<Rightarrow> ErrorReply c msg
      | Inr _ \<Rightarrow>
          (case ListInteractions (up 1) db wid (page_limit ql) (page_offset qo) of
             Inl _ \<Rightarrow> ErrorReply 500 ''internal error''
           | Inr es \<Rightarrow> Reply 200 es))"

end
