(* ===== verification/Work_Flow.thy ===== *)
theory Work_Flow
  imports Agent_Work Sandbox_Limits "HOL-Library.Sublist"
begin

text \<open>
  Tasks and messages under any history of requests: both are queues whose entries are handed to
  their addressee at most once, and both stay within a workspace.  The interface of such a
  queue is a locale; the tables of tasks and of messages are its two instances.
\<close>

section \<open>Queues that hand out once\<close>

text \<open>
  \<open>key\<close>, \<open>dest\<close> and \<open>opn\<close> read a row; \<open>used\<close> are the keys ever given, \<open>handed\<close> the pairs of key and
  addressee handed out so far.
\<close>

definition queue_ok ::
  "('r \<Rightarrow> string) \<Rightarrow> ('r \<Rightarrow> string) \<Rightarrow> ('r \<Rightarrow> bool) \<Rightarrow> string set \<Rightarrow> (string \<times> string) list \<Rightarrow> 'r list \<Rightarrow> bool" where
  "queue_ok key dest opn used handed rows \<longleftrightarrow>
     distinct (map key rows) \<and> distinct (map fst handed) \<and>
     (\<forall>r \<in> set rows. key r \<in> used) \<and> (\<forall>p \<in> set handed. fst p \<in> used) \<and>
     (\<forall>r \<in> set rows. \<forall>d. (key r, d) \<in> set handed \<longrightarrow> \<not> opn r \<and> d = dest r)"

lemma queue_okI:
  assumes "distinct (map key rows)" and "distinct (map fst handed)"
    and "\<And>r. r \<in> set rows \<Longrightarrow> key r \<in> used" and "\<And>k d. (k, d) \<in> set handed \<Longrightarrow> k \<in> used"
    and "\<And>r d. r \<in> set rows \<Longrightarrow> (key r, d) \<in> set handed \<Longrightarrow> \<not> opn r \<and> d = dest r"
  shows "queue_ok key dest opn used handed rows"
  unfolding queue_ok_def using assms(1-3,5) assms(4) [of "fst p" "snd p" for p] by simp

lemma queue_okD:
  assumes "queue_ok key dest opn used handed rows"
  shows "distinct (map key rows)" and "distinct (map fst handed)"
    and "r \<in> set rows \<Longrightarrow> key r \<in> used" and "(k, d) \<in> set handed \<Longrightarrow> k \<in> used"
    and "r \<in> set rows \<Longrightarrow> (key r, d) \<in> set handed \<Longrightarrow> \<not> opn r \<and> d = dest r"
  using assms by (auto simp: queue_ok_def)

lemma subseq_distinct: "subseq xs ys \<Longrightarrow> distinct ys \<Longrightarrow> distinct xs"
  by (auto simp: subseq_conv_nths)

lemma subseq_set: "subseq xs ys \<Longrightarrow> set xs \<subseteq> set ys"
  by (metis notin_set_nthsI subseq_conv_nths subsetI)

locale handout_queue =
  fixes key :: "'r \<Rightarrow> string" and dest :: "'r \<Rightarrow> string" and opn :: "'r \<Rightarrow> bool"
    and made :: "'r \<Rightarrow> int" and mk :: "int \<Rightarrow> 'r \<Rightarrow> 'r"
  assumes mk_key: "key (mk now r) = key r"
    and mk_dest: "dest (mk now r) = dest r"
    and mk_closed: "\<not> opn (mk now r)"
begin

lemma rows_kept:
  assumes "queue_ok key dest opn used handed rows"
    and "subseq (map key rows') (map key rows)"
    and "\<And>r'. r' \<in> set rows' \<Longrightarrow> \<exists>r \<in> set rows. key r' = key r \<and> dest r' = dest r \<and> (opn r' \<longrightarrow> opn r)"
  shows "queue_ok key dest opn used handed rows'"
proof (rule queue_okI)
  show "distinct (map key rows')" by (rule subseq_distinct [OF assms(2) queue_okD(1) [OF assms(1)]])
  show "distinct (map fst handed)" using queue_okD(2) [OF assms(1)] .
next
  fix r' assume "r' \<in> set rows'"
  then show "key r' \<in> used" using assms(3) queue_okD(3) [OF assms(1)] by metis
next
  fix k d assume "(k, d) \<in> set handed"
  then show "k \<in> used" using queue_okD(4) [OF assms(1)] by blast
next
  fix r' d assume "r' \<in> set rows'" and h: "(key r', d) \<in> set handed"
  then obtain r where "r \<in> set rows" "key r' = key r" "dest r' = dest r" "opn r' \<longrightarrow> opn r" using assms(3) by blast
  with queue_okD(5) [OF assms(1)] h show "\<not> opn r' \<and> d = dest r'" by metis
qed

lemma added:
  assumes "queue_ok key dest opn used handed rows" and "key r \<notin> used" and "used \<subseteq> used'" and "key r \<in> used'"
  shows "queue_ok key dest opn used' handed (rows @ [r])"
proof (rule queue_okI)
  show "distinct (map key (rows @ [r]))" using queue_okD(1,3) [OF assms(1)] assms(2) by auto
  show "distinct (map fst handed)" using queue_okD(2) [OF assms(1)] .
next
  fix q assume "q \<in> set (rows @ [r])"
  then show "key q \<in> used'" using queue_okD(3) [OF assms(1)] assms(3,4) by auto
next
  fix k d assume "(k, d) \<in> set handed"
  then show "k \<in> used'" using queue_okD(4) [OF assms(1)] assms(3) by blast
next
  fix q d assume q: "q \<in> set (rows @ [r])" "(key q, d) \<in> set handed"
  then have "q \<in> set rows" using queue_okD(4) [OF assms(1) q(2)] assms(2) by auto
  then show "\<not> opn q \<and> d = dest q" using queue_okD(5) [OF assms(1)] q(2) by blast
qed

lemma used_mono:
  assumes "queue_ok key dest opn used handed rows" and "used \<subseteq> used'"
  shows "queue_ok key dest opn used' handed rows"
  using assms by (simp add: queue_ok_def subset_iff)

lemma picked_rows:
  assumes "distinct (map key rows)"
    and "r \<in> set rows" and "key r \<in> key ` set (take n (sort_key made (filter (\<lambda>r. dest r = d \<and> opn r) rows)))"
  shows "opn r \<and> dest r = d"
proof -
  from assms(3) obtain q where q: "q \<in> set (take n (sort_key made (filter (\<lambda>r. dest r = d \<and> opn r) rows)))" "key r = key q"
    by auto
  from in_set_takeD [OF q(1)] have "q \<in> set rows" "dest q = d" "opn q" by simp_all
  moreover from this(1) have "r = q" using distinct_map_inj_on [OF assms(1) assms(2) _ q(2)] by blast
  ultimately show ?thesis by simp
qed

lemma picked_oldest:
  assumes "q \<in> set (take n (sort_key made xs))" and "p \<in> set xs" and "p \<notin> set (take n (sort_key made xs))"
  shows "made q \<le> made p"
proof -
  let ?ys = "sort_key made xs"
  have "p \<in> set (take n ?ys @ drop n ?ys)" using assms(2) by simp
  then have "p \<in> set (drop n ?ys)" using assms(3) unfolding set_append by blast
  moreover have "sorted (map made (take n ?ys) @ map made (drop n ?ys))"
    unfolding map_append [symmetric] by simp
  ultimately show ?thesis using assms(1) by (auto simp: sorted_append)
qed

lemma picked_set:
  assumes "distinct (map key rows)"
    and "\<And>r. P r \<longleftrightarrow> key r \<in> key ` set (take n (sort_key made (filter (\<lambda>r. dest r = d \<and> opn r) rows)))"
  shows "set (filter P rows) = set (take n (sort_key made (filter (\<lambda>r. dest r = d \<and> opn r) rows)))"
    and "length (filter P rows) = min n (length (filter (\<lambda>r. dest r = d \<and> opn r) rows))"
proof -
  let ?xs = "take n (sort_key made (filter (\<lambda>r. dest r = d \<and> opn r) rows))"
  have sub: "r \<in> set rows" if "r \<in> set ?xs" for r using in_set_takeD [OF that] by simp
  show e: "set (filter P rows) = set ?xs"
  proof (intro equalityI subsetI)
    fix r assume "r \<in> set (filter P rows)"
    then obtain q where q: "r \<in> set rows" "q \<in> set ?xs" "key r = key q" unfolding assms(2) by auto
    have "r = q" by (rule distinct_map_inj_on [OF assms(1) q(1) sub [OF q(2)] q(3)])
    then show "r \<in> set ?xs" using q(2) by (rule ssubst)
  next
    fix r assume "r \<in> set ?xs"
    then show "r \<in> set (filter P rows)" unfolding set_filter mem_Collect_eq assms(2) using sub by blast
  qed
  have "distinct rows" using assms(1) by (simp add: distinct_map)
  then have "length (filter P rows) = card (set ?xs)" unfolding e [symmetric] by (metis distinct_card distinct_filter)
  also have "\<dots> = length ?xs" using \<open>distinct rows\<close> by (intro distinct_card distinct_take) simp
  finally show "length (filter P rows) = min n (length (filter (\<lambda>r. dest r = d \<and> opn r) rows))"
    by (simp add: min.commute)
qed

lemma handed_out:
  assumes "queue_ok key dest opn used handed rows"
    and "\<And>r. P r \<longleftrightarrow> key r \<in> key ` set (take n (sort_key made (filter (\<lambda>r. dest r = d \<and> opn r) rows)))"
  shows "queue_ok key dest opn used (handed @ map (\<lambda>r. (key r, d)) (filter P rows)) (update_rows P (mk now) rows)"
proof -
  have dk: "distinct (map key rows)" using queue_okD(1) [OF assms(1)] .
  have P: "opn r \<and> dest r = d" if "r \<in> set rows" "P r" for r
    using picked_rows [OF dk that(1)] that(2) unfolding assms(2) by blast
  have nh: "(key r, e) \<notin> set handed" if "r \<in> set rows" "P r" for r e
    using queue_okD(5) [OF assms(1) that(1), of e] P [OF that] by blast
  have same: "P r" if "r \<in> set rows" "q \<in> set rows" "P q" "key r = key q" for r q
    using distinct_map_inj_on [OF dk that(1,2)] that(3,4) by blast
  show ?thesis
  proof (rule queue_okI)
    show "distinct (map key (update_rows P (mk now) rows))" using dk by (simp add: map_update_rows mk_key)
    have "fst ` set handed \<inter> key ` set (filter P rows) = {}" using nh by force
    then show "distinct (map fst (handed @ map (\<lambda>r. (key r, d)) (filter P rows)))"
      using queue_okD(2) [OF assms(1)] dk by (simp add: comp_def distinct_map_filter image_image)
  next
    fix r assume "r \<in> set (update_rows P (mk now) rows)"
    then obtain q where "q \<in> set rows" "key r = key q" unfolding set_update_rows by (elim imageE) (auto simp: mk_key)
    then show "key r \<in> used" using queue_okD(3) [OF assms(1)] by simp
  next
    fix k e assume "(k, e) \<in> set (handed @ map (\<lambda>r. (key r, d)) (filter P rows))"
    then show "k \<in> used" using queue_okD(3,4) [OF assms(1)] by auto
  next
    fix r e assume r: "r \<in> set (update_rows P (mk now) rows)"
      "(key r, e) \<in> set (handed @ map (\<lambda>r. (key r, d)) (filter P rows))"
    from r(1) obtain q where q: "q \<in> set rows" "r = (if P q then mk now q else q)"
      unfolding set_update_rows by blast
    then have k: "key r = key q" by (simp add: mk_key)
    show "\<not> opn r \<and> e = dest r"
    proof (cases "P q")
      case True
      with nh [OF q(1)] k r(2) have "e = d" by auto
      with P [OF q(1) True] q(2) True show ?thesis by (simp add: mk_dest mk_closed)
    next
      case False
      then have "(key r, e) \<in> set handed" using r(2) same [OF q(1)] k by auto
      with queue_okD(5) [OF assms(1) q(1)] q(2) False show ?thesis by simp
    qed
  qed
qed

end

interpretation task_queue: handout_queue tk_id tk_target "\<lambda>t. tk_status t = TaskPending" tk_created assign
  by unfold_locales (simp_all add: assign_def)

interpretation mail_queue: handout_queue ms_id ms_to "\<lambda>m. ms_read m = None" ms_created
  "\<lambda>now m. m\<lparr>ms_read := Some now\<rparr>"
  by unfold_locales simp_all

section \<open>What the handlers do to tasks and messages\<close>

text \<open>The tables that matter here, and the audit entry that leaves them alone.\<close>

lemma log_frame [simp]:
  "sv_tasks (logInteraction u now w a act i ty db) = sv_tasks db"
  "sv_mail (logInteraction u now w a act i ty db) = sv_mail db"
  "sv_sandboxes (logInteraction u now w a act i ty db) = sv_sandboxes db"
  by (simp_all add: logInteraction_def LogInteraction_def)

lemma createTask_cases:
  assumes "snd (handleCreateTaskForWorkspace up now w u body db) = db1"
  shows "sv_mail db1 = sv_mail db \<and> sv_sandboxes db1 = sv_sandboxes db \<and>
    (sv_tasks db1 = sv_tasks db \<or>
     (\<exists>t. sv_tasks db1 = sv_tasks db @ [t] \<and> tk_id t = ''task_'' @ u \<and> tk_ws t = w \<and>
        (\<exists>r \<in> set (sv_sandboxes db). sb_id r = tk_target t \<and> sb_ws r = w)))"
  using assms
  by (auto simp: handleCreateTaskForWorkspace_def db_CreateAgentTask_def GetSandbox_def Let_def
      dest!: find_Some_in split: option.splits sum.splits if_splits)

lemma agentCreateTask_cases:
  "snd (handleAgentCreateTask up now h u body db) = db \<or>
   (\<exists>w. snd (handleAgentCreateTask up now h u body db) = snd (handleCreateTaskForWorkspace up now w u body db))"
  by (auto simp: handleAgentCreateTask_def split: sum.split)

definition closes :: "(task_row \<Rightarrow> task_row) \<Rightarrow> bool" where
  "closes f \<longleftrightarrow> (\<forall>t. tk_id (f t) = tk_id t \<and> tk_target (f t) = tk_target t \<and> tk_ws (f t) = tk_ws t \<and>
     tk_status (f t) \<noteq> TaskPending)"

lemma closes_none: "\<exists>P f. ts = update_rows P f ts \<and> closes f"
  by (rule exI [of _ "\<lambda>_. False"], rule exI [of _ "\<lambda>t. t\<lparr>tk_status := TaskFailed\<rparr>"])
    (simp add: closes_def update_rows_none)

lemma update_task_frame:
  "sv_mail (snd (update_task b db i g)) = sv_mail db"
  "sv_sandboxes (snd (update_task b db i g)) = sv_sandboxes db"
  "closes g \<Longrightarrow> \<exists>P f. sv_tasks (snd (update_task b db i g)) = update_rows P f (sv_tasks db) \<and> closes f"
  using closes_none [of "sv_tasks db"] by (auto simp: update_task_def)

lemma status_closes:
  "st \<noteq> TaskPending \<Longrightarrow> \<exists>g. UpdateAgentTaskStatus u now db i st = update_task u db i g \<and> closes g"
  by (rule exI, rule conjI, rule UpdateAgentTaskStatus_def) (auto simp: closes_def)

lemma updateTask_stmt:
  assumes "st \<noteq> TaskPending"
  shows "\<exists>g. (if st = TaskFailed \<and> a then FailAgentTask u now db i x
       else if st = TaskCompleted \<and> b then UpdateAgentTaskResult u now db i y c n
       else UpdateAgentTaskStatus u now db i st) = update_task u db i g \<and> closes g"
proof -
  have "\<exists>g. FailAgentTask u now db i x = update_task u db i g \<and> closes g"
    by (rule exI, rule conjI, rule FailAgentTask_def) (simp add: closes_def)
  moreover have "\<exists>g. UpdateAgentTaskResult u now db i y c n = update_task u db i g \<and> closes g"
    by (rule exI, rule conjI, rule UpdateAgentTaskResult_def) (simp add: closes_def)
  ultimately show ?thesis using status_closes [OF assms, of u now db i] by auto
qed

lemma task_status_of_closed: "task_status_of s = Some st \<Longrightarrow> st \<noteq> TaskPending"
  by (auto simp: task_status_of_def split: if_splits)

lemma updateTask_cases:
  "sv_mail (snd (handleUpdateTaskStatus up now h i body db)) = sv_mail db \<and>
   sv_sandboxes (snd (handleUpdateTaskStatus up now h i body db)) = sv_sandboxes db \<and>
   (\<exists>P f. sv_tasks (snd (handleUpdateTaskStatus up now h i body db)) = update_rows P f (sv_tasks db) \<and> closes f)"
proof (cases "\<exists>s req st. extractProxyTokenSandbox up h db = Inr s \<and> body = Some req \<and>
    task_status_of (sr_status req) = Some st")
  case True
  then obtain s req st where c: "extractProxyTokenSandbox up h db = Inr s" "body = Some req"
    "task_status_of (sr_status req) = Some st" by blast
  obtain g where g: "(if st = TaskFailed \<and> sr_failure req \<noteq> [] then FailAgentTask (up 2) now db i (sr_failure req)
      else if st = TaskCompleted \<and> sr_result req \<noteq> []
      then UpdateAgentTaskResult (up 2) now db i (sr_result req) (sr_cost req) (sr_turns req)
      else UpdateAgentTaskStatus (up 2) now db i st) = update_task (up 2) db i g" "closes g"
    using updateTask_stmt [OF task_status_of_closed [OF c(3)]] by blast
  show ?thesis
    unfolding handleUpdateTaskStatus_def c sum.case option.case Let_def g(1)
    using update_task_frame(1,2) [of "up 2" db i g] update_task_frame(3) [OF g(2), of "up 2" db i] by simp
next
  case False
  then have "snd (handleUpdateTaskStatus up now h i body db) = db"
    by (auto simp: handleUpdateTaskStatus_def split: sum.split option.split)
  with closes_none show ?thesis by simp
qed

lemma cancelTask_cases:
  "sv_mail (snd (handleCancelTask up now i db)) = sv_mail db \<and>
   sv_sandboxes (snd (handleCancelTask up now i db)) = sv_sandboxes db \<and>
   (\<exists>P f. sv_tasks (snd (handleCancelTask up now i db)) = update_rows P f (sv_tasks db) \<and> closes f)"
proof -
  obtain g where g: "UpdateAgentTaskStatus (up 1) now db i TaskCancelled = update_task (up 1) db i g" "closes g"
    using status_closes [of TaskCancelled] by blast
  obtain e d where u: "update_task (up 1) db i g = (e, d)" by (metis surj_pair)
  have d: "sv_mail d = sv_mail db" "sv_sandboxes d = sv_sandboxes db"
    "\<exists>P f. sv_tasks d = update_rows P f (sv_tasks db) \<and> closes f"
    using update_task_frame(1,2) [of "up 1" db i g] update_task_frame(3) [OF g(2), of "up 1" db i] u by simp_all
  then show ?thesis
    unfolding handleCancelTask_def g(1) u using closes_none [of "sv_tasks db"]
    by (simp split: sum.split option.split)
qed

definition handed_by :: "('a \<Rightarrow> string) \<Rightarrow> 'a list reply \<Rightarrow> string \<Rightarrow> (string \<times> string) list" where
  "handed_by key rep d = (case rep of Reply _ xs \<Rightarrow> map (\<lambda>x. (key x, d)) xs | ErrorReply _ _ \<Rightarrow> [])"

definition caller :: "(nat \<Rightarrow> bool) \<Rightarrow> string \<Rightarrow> srv_db \<Rightarrow> string" where
  "caller up header db = (case extractProxyTokenSandbox up header db of Inr s \<Rightarrow> sb_id s | Inl _ \<Rightarrow> [])"

definition poll_pick :: "srv_db \<Rightarrow> string \<Rightarrow> task_row \<Rightarrow> bool" where
  "poll_pick db d r \<longleftrightarrow> tk_id r \<in> tk_id ` set (pending_tasks db d 5)"

definition mail_pick :: "srv_db \<Rightarrow> string \<Rightarrow> nat \<Rightarrow> AgentMessage \<Rightarrow> bool" where
  "mail_pick db d n r \<longleftrightarrow> ms_id r \<in> ms_id ` set (unread db d n)"

lemma task_poll_ok:
  assumes "extractProxyTokenSandbox up header db = Inr s" and "up 2" and "q = [] \<or> q = sb_id s"
  shows "handlePollTasks up now header q db =
     (Reply 200 (map (\<lambda>r. poll_item_of (assign now r)) (filter (poll_pick db (sb_id s)) (sv_tasks db))),
      db\<lparr>sv_tasks := update_rows (poll_pick db (sb_id s)) (assign now) (sv_tasks db)\<rparr>)"
  using assms by (auto simp: handlePollTasks_def ListPendingAgentTasksByTarget_def Let_def poll_pick_def [abs_def] comp_def)

lemma poll_cases:
  assumes "handlePollTasks up now header q db = (rep, db1)" and "d = caller up header db"
  shows "db1 = db \<and> handed_by pl_id rep d = [] \<or>
       db1 = db\<lparr>sv_tasks := update_rows (poll_pick db d) (assign now) (sv_tasks db)\<rparr> \<and>
       handed_by pl_id rep d = map (\<lambda>r. (tk_id r, d)) (filter (poll_pick db d) (sv_tasks db))"
proof (cases "\<exists>s. extractProxyTokenSandbox up header db = Inr s \<and> up 2 \<and> (q = [] \<or> q = sb_id s)")
  case True
  then obtain s where s: "extractProxyTokenSandbox up header db = Inr s" "up 2" "q = [] \<or> q = sb_id s" by blast
  have d: "d = sb_id s" using assms(2) by (simp add: caller_def s(1))
  have i: "pl_id \<circ> (\<lambda>r. poll_item_of (assign now r)) = tk_id"
    by (simp add: fun_eq_iff poll_item_of_def assign_def)
  have r: "rep = Reply 200 (map (\<lambda>r. poll_item_of (assign now r)) (filter (poll_pick db d) (sv_tasks db)))"
    "db1 = db\<lparr>sv_tasks := update_rows (poll_pick db d) (assign now) (sv_tasks db)\<rparr>"
    using task_poll_ok [OF s, of now] assms(1) unfolding d by simp_all
  have "handed_by pl_id rep d = map (\<lambda>r. (tk_id r, d)) (filter (poll_pick db d) (sv_tasks db))"
    unfolding r handed_by_def using fun_cong [OF i] by (simp add: comp_def)
  with r show ?thesis by blast
next
  case False
  have "db1 = db \<and> handed_by pl_id rep d = []"
  proof (cases "extractProxyTokenSandbox up header db")
    case (Inl e)
    with assms(1) show ?thesis by (cases e) (auto simp: handlePollTasks_def handed_by_def)
  next
    case (Inr s)
    with False have "\<not> (up 2 \<and> (q = [] \<or> q = sb_id s))" by blast
    with assms(1) show ?thesis unfolding handlePollTasks_def Inr sum.case Let_def
      by (cases "up 2"; cases "q = []")
        (auto simp: ListPendingAgentTasksByTarget_def handed_by_def split: if_splits)
  qed
  then show ?thesis ..
qed

lemma read_cases:
  assumes "handleReadInbox up now header q db = (rep, db1)"
  shows "db1 = db \<and> handed_by ms_id rep (caller up header db) = [] \<or>
    (\<exists>n. let d = caller up header db in
       db1 = db\<lparr>sv_mail := update_rows (mail_pick db d n) (\<lambda>m. m\<lparr>ms_read := Some now\<rparr>) (sv_mail db)\<rparr> \<and>
       handed_by ms_id rep d = map (\<lambda>r. (ms_id r, d)) (filter (mail_pick db d n) (sv_mail db)))"
proof (cases "\<exists>s. extractProxyTokenSandbox up header db = Inr s \<and> up 2")
  case True
  then obtain s where s: "extractProxyTokenSandbox up header db = Inr s" "up 2" by blast
  with assms show ?thesis
    by (auto simp: handleReadInbox_def ReadInbox_def Let_def caller_def handed_by_def mail_pick_def [abs_def] comp_def)
next
  case False
  have "db1 = db \<and> handed_by ms_id rep (caller up header db) = []"
  proof (cases "extractProxyTokenSandbox up header db")
    case (Inl e)
    with assms show ?thesis by (cases e) (auto simp: handleReadInbox_def handed_by_def)
  next
    case (Inr s)
    with False have "\<not> up 2" by blast
    with assms Inr show ?thesis by (auto simp: handleReadInbox_def ReadInbox_def handed_by_def)
  qed
  then show ?thesis ..
qed

lemma send_cases:
  assumes "snd (handleSendMessage up now header u body db) = db1"
  shows "sv_tasks db1 = sv_tasks db \<and> sv_sandboxes db1 = sv_sandboxes db \<and>
    (sv_mail db1 = sv_mail db \<or>
     (\<exists>m r q. sv_mail db1 = sv_mail db @ [m] \<and> ms_id m = ''msg_'' @ u \<and>
        r \<in> set (sv_sandboxes db) \<and> sb_id r = ms_to m \<and> sb_ws r = ms_ws m \<and>
        q \<in> set (sv_sandboxes db) \<and> sb_id q = ms_from m \<and> sb_ws q = ms_ws m))"
proof (cases "\<exists>s dst body1 knd t. extractProxyTokenSandbox up header db = Inr s \<and> body = Some (dst, body1, knd) \<and>
    \<not> (dst = [] \<or> body1 = []) \<and> GetSandbox (up 2) db dst = Inr (Some t) \<and> sb_ws t = sb_ws s")
  case True
  then obtain s dst body1 knd t where c: "extractProxyTokenSandbox up header db = Inr s" "body = Some (dst, body1, knd)"
    "dst \<noteq> []" "body1 \<noteq> []" "GetSandbox (up 2) db dst = Inr (Some t)" "sb_ws t = sb_ws s" by blast
  have s: "s \<in> set (sv_sandboxes db)"
    using c(1) by (auto simp: extractProxyTokenSandbox_def GetSandboxByAnyToken_def GetSandboxByProxyToken_def
        dest: find_Some_in split: option.splits sum.splits if_splits)
  have t: "t \<in> set (sv_sandboxes db)" "sb_id t = dst"
    using c(5) by (auto simp: GetSandbox_def dest!: find_Some_in split: if_splits)
  obtain e d where m: "SendMessage (up 3) now db
      \<lparr>ms_id = ''msg_'' @ u, ms_ws = sb_ws s, ms_from = sb_id s, ms_to = dst, ms_text = body1,
       ms_type = (if knd = [] then ''text'' else knd), ms_created = now, ms_read = None\<rparr> = (e, d)" by (metis surj_pair)
  have d: "sv_tasks d = sv_tasks db \<and> sv_sandboxes d = sv_sandboxes db \<and>
    (sv_mail d = sv_mail db \<or> (\<exists>m. sv_mail d = sv_mail db @ [m] \<and> ms_id m = ''msg_'' @ u \<and> ms_to m = dst \<and>
       ms_ws m = sb_ws s \<and> ms_from m = sb_id s))"
    using m by (auto simp: SendMessage_def split: if_splits)
  have "db1 = d \<or> (\<exists>e. db1 = logInteraction (up 4) now (sb_ws s) (Some (sb_id s)) ''message_sent'' (''msg_'' @ u) ''message'' d)"
    using assms c unfolding handleSendMessage_def c sum.case option.case prod.case Let_def m by (cases e) simp_all
  then have "sv_tasks db1 = sv_tasks d \<and> sv_sandboxes db1 = sv_sandboxes d \<and> sv_mail db1 = sv_mail d" by auto
  with d s t c(6) show ?thesis by metis
next
  case False
  then have "db1 = db"
    using assms by (auto simp: handleSendMessage_def split: sum.splits option.splits if_splits)
  then show ?thesis by simp
qed

section \<open>What the rest of the server does to them\<close>

text \<open>Every task and message of the database stays within one workspace.\<close>

definition placed :: "srv_db \<Rightarrow> string \<Rightarrow> string \<Rightarrow> bool" where
  "placed db i w \<longleftrightarrow> (i, w) \<in> (\<lambda>r. (sb_id r, sb_ws r)) ` set (sv_sandboxes db)"

lemma placed_iff: "placed db i w \<longleftrightarrow> (\<exists>r \<in> set (sv_sandboxes db). sb_id r = i \<and> sb_ws r = w)"
  by (auto simp: placed_def)

definition in_place :: "srv_db \<Rightarrow> bool" where
  "in_place db \<longleftrightarrow>
     (\<forall>t \<in> set (sv_tasks db). placed db (tk_target t) (tk_ws t)) \<and>
     (\<forall>m \<in> set (sv_mail db). placed db (ms_from m) (ms_ws m) \<and> placed db (ms_to m) (ms_ws m))"

lemma in_placeI:
  assumes "\<And>t. t \<in> set (sv_tasks db) \<Longrightarrow> placed db (tk_target t) (tk_ws t)"
    and "\<And>m. m \<in> set (sv_mail db) \<Longrightarrow> placed db (ms_from m) (ms_ws m)"
    and "\<And>m. m \<in> set (sv_mail db) \<Longrightarrow> placed db (ms_to m) (ms_ws m)"
  shows "in_place db"
  using assms by (simp add: in_place_def)

lemma in_placeD:
  assumes "in_place db"
  shows "t \<in> set (sv_tasks db) \<Longrightarrow> placed db (tk_target t) (tk_ws t)"
    and "m \<in> set (sv_mail db) \<Longrightarrow> placed db (ms_from m) (ms_ws m)"
    and "m \<in> set (sv_mail db) \<Longrightarrow> placed db (ms_to m) (ms_ws m)"
  using assms by (simp_all add: in_place_def)

text \<open>Tasks without the column that a deletion clears.\<close>

definition task_core :: "task_row \<Rightarrow> string \<times> string \<times> string \<times> task_status" where
  "task_core t = (tk_id t, tk_target t, tk_ws t, tk_status t)"

definition gentle :: "srv_db \<Rightarrow> srv_db \<Rightarrow> bool" where
  "gentle db db1 \<longleftrightarrow> subseq (map task_core (sv_tasks db1)) (map task_core (sv_tasks db)) \<and>
     subseq (sv_mail db1) (sv_mail db) \<and> (in_place db \<longrightarrow> in_place db1)"

lemma gentle_refl [intro, simp]: "gentle db db"
  by (simp add: gentle_def)

lemma gentle_trans [trans]: "gentle a b \<Longrightarrow> gentle b c \<Longrightarrow> gentle a c"
  unfolding gentle_def by (metis subseq_order.order_trans)

lemma gentle_more:
  assumes "sv_tasks db1 = sv_tasks db" and "sv_mail db1 = sv_mail db"
    and "(\<lambda>r. (sb_id r, sb_ws r)) ` set (sv_sandboxes db) \<subseteq> (\<lambda>r. (sb_id r, sb_ws r)) ` set (sv_sandboxes db1)"
  shows "gentle db db1"
proof -
  have p: "placed db i w \<Longrightarrow> placed db1 i w" for i w using assms(3) by (auto simp: placed_def)
  have "in_place db1" if "in_place db"
    by (rule in_placeI) (use assms(1,2) p in_placeD [OF that] in simp_all)
  with assms(1,2) show ?thesis by (simp add: gentle_def)
qed

lemma gentle_drop: "gentle db (drop_sandboxes P db)"
proof -
  let ?gone = "\<lambda>i. list_ex (\<lambda>r. sb_id r = i \<and> P r) (sv_sandboxes db)"
  let ?db = "drop_sandboxes P db"
  have t: "sv_tasks ?db = update_rows (\<lambda>t. case tk_requester t of Some j \<Rightarrow> ?gone j | None \<Rightarrow> False)
      (\<lambda>t. t\<lparr>tk_requester := None\<rparr>) (filter (\<lambda>t. \<not> ?gone (tk_target t)) (sv_tasks db))"
    by (simp add: drop_sandboxes_def Let_def)
  have c: "map task_core (sv_tasks ?db) = map task_core (filter (\<lambda>t. \<not> ?gone (tk_target t)) (sv_tasks db))"
    unfolding t by (rule map_update_rows) (simp add: task_core_def)
  have p: "placed ?db i w" if "placed db i w" "\<not> ?gone i" for i w
    using that by (auto simp: placed_def drop_sandboxes_def Let_def list_ex_iff)
  have "in_place ?db" if "in_place db"
  proof (rule in_placeI)
    fix t assume "t \<in> set (sv_tasks ?db)"
    then have "task_core t \<in> set (map task_core (filter (\<lambda>t. \<not> ?gone (tk_target t)) (sv_tasks db)))"
      unfolding c [symmetric] by simp
    then obtain t0 where "t0 \<in> set (sv_tasks db)" "\<not> ?gone (tk_target t0)" "tk_target t = tk_target t0" "tk_ws t = tk_ws t0"
      by (auto simp: task_core_def)
    then show "placed ?db (tk_target t) (tk_ws t)" using p in_placeD(1) [OF that] by simp
  next
    fix m assume "m \<in> set (sv_mail ?db)"
    then have "m \<in> set (sv_mail db)" "\<not> ?gone (ms_from m)" "\<not> ?gone (ms_to m)"
      by (simp_all add: drop_sandboxes_def Let_def)
    with p in_placeD(2,3) [OF that] show "placed ?db (ms_from m) (ms_ws m)" "placed ?db (ms_to m) (ms_ws m)" by blast+
  qed
  moreover have "subseq (sv_mail ?db) (sv_mail db)" by (simp add: drop_sandboxes_def Let_def)
  ultimately show ?thesis unfolding gentle_def c by (simp add: subseq_map)
qed

lemma gentle_update:
  assumes "\<And>r. sb_id (f r) = sb_id r \<and> sb_ws (f r) = sb_ws r"
  shows "gentle db (snd (update_sandbox u db i f))"
proof -
  let ?k = "\<lambda>r. (sb_id r, sb_ws r)"
  have "map ?k (update_rows (\<lambda>r. sb_id r = i) f rs) = map ?k rs" for rs
    by (rule map_update_rows) (simp add: assms)
  then have "map ?k (sv_sandboxes (snd (update_sandbox u db i f))) = map ?k (sv_sandboxes db)"
    by (simp add: update_sandbox_def)
  then have "?k ` set (sv_sandboxes (snd (update_sandbox u db i f))) = ?k ` set (sv_sandboxes db)"
    by (metis set_map)
  then show ?thesis by (intro gentle_more) (simp_all add: update_sandbox_def)
qed

lemma gentle_status: "gentle db (snd (UpdateSandboxStatus u now db i st))"
  unfolding UpdateSandboxStatus_def by (rule gentle_update) (simp split: sbx_status.split)

lemma gentle_pod: "gentle db (snd (UpdateSandboxPodIP u db i ip))"
  unfolding UpdateSandboxPodIP_def by (auto intro!: gentle_update)

lemma gentle_activity: "gentle db (snd (UpdateSandboxActivity u now db i))"
  unfolding UpdateSandboxActivity_def by (rule gentle_update) simp

lemma gentle_beat: "gentle db (snd (UpdateSandboxHeartbeat u now db i))"
  unfolding UpdateSandboxHeartbeat_def by (rule gentle_update) simp

lemma gentle_name: "gentle db (snd (UpdateSandboxName u db i nm))"
  unfolding UpdateSandboxName_def by (rule gentle_update) simp

lemma gentle_row: "gentle db (snd (DeleteSandbox u db i))"
  by (simp add: DeleteSandbox_def gentle_drop)

lemma gentle_add: "adds_row i w l st c m db db1 \<Longrightarrow> gentle db db1"
  by (rule gentle_more) (auto simp: adds_row_def)

lemma gentle_ends:
  "gentle db (startEnd up now i started db)"
  "gentle db (pauseEnd up now i paused db)"
  "gentle db (resumeEnd up now i resumed db)"
  "gentle db (tunnelOffline u now i a db)"
proof -
  have p: "gentle db (if b then snd (UpdateSandboxPodIP u db i ip) else db)" for b u ip by (simp add: gentle_pod)
  show "gentle db (startEnd up now i started db)"
    unfolding startEnd_def Let_def
    by (cases started) (use p in \<open>simp_all add: gentle_row gentle_trans [OF _ gentle_status]\<close>)
  show "gentle db (pauseEnd up now i paused db)"
    unfolding pauseEnd_def Let_def by (simp add: gentle_status gentle_trans [OF gentle_pod gentle_status])
  show "gentle db (resumeEnd up now i resumed db)"
    unfolding resumeEnd_def Let_def
    by (cases started; cases resumed)
      (simp_all only: option.case gentle_status gentle_trans [OF gentle_trans [OF p gentle_activity] gentle_status])
  show "gentle db (tunnelOffline u now i a db)" by (simp add: tunnelOffline_def gentle_status)
qed

lemma gentle_wake: "gentle db (wakeEnd up now i ip db)"
proof -
  have "gentle db (if ip \<noteq> [] then snd (UpdateSandboxPodIP (up 0) db i ip) else db)" by (simp add: gentle_pod)
  then show ?thesis unfolding wakeEnd_def Let_def by (rule gentle_trans [OF _ gentle_status])
qed

lemma gentle_connect:
  assumes "tunnelConnect up now i tok t g db = Inr (g1, old, db1)"
  shows "gentle db db1"
proof -
  have "db1 = snd (UpdateSandboxHeartbeat (up 2) now (snd (UpdateSandboxStatus (up 1) now db i StatusRunning)) i)"
    using assms by (auto simp: tunnelConnect_def Let_def split: if_splits sum.splits option.splits prod.splits)
  then show ?thesis by (simp add: gentle_trans [OF gentle_status gentle_beat])
qed

lemma gentle_rename: "gentle db (snd (handleRenameSandbox up user i req db))"
proof -
  obtain e d where u: "UpdateSandboxName (up 2) db i (the req) = (e, d)" by (metis surj_pair)
  then have "gentle db d" using gentle_name [of db "up 2" i "the req"] by simp
  then show ?thesis using u by (auto simp: handleRenameSandbox_def split: sum.split option.split)
qed

lemma gentle_delete: "gentle db (snd (snd (handleDeleteSandbox up tunnels user i db)))"
proof -
  obtain e d where u: "DeleteSandbox (up 3) db i = (e, d)" by (metis surj_pair)
  then have "gentle db d" using gentle_row [of db "up 3" i] by simp
  then show ?thesis using u by (auto simp: handleDeleteSandbox_def Let_def split: sum.split option.split)
qed

lemma gentle_deleteSandboxes: "gentle db (snd (deleteSandboxes up ns tunnels n ss db))"
proof (induction ss arbitrary: n db)
  case (Cons s ss)
  let ?d = "if x_local s then db else snd (DeleteSandbox (up n) db (x_id s))"
  have "gentle db ?d" by (simp add: gentle_row)
  moreover have "snd (deleteSandboxes up ns tunnels n (s # ss) db) = snd (deleteSandboxes up ns tunnels (Suc n) ss ?d)"
    by (simp add: Let_def split: prod.split)
  ultimately show ?case using gentle_trans [OF _ Cons] by metis
qed simp

lemma gentle_delete_workspace: "gentle db (snd (snd (handleDeleteWorkspace up now tunnels user w db)))"
proof (cases "requireWorkspaceRole (up 0) db user w [''owner''] = None \<and> (\<exists>ws. GetWorkspace (up 1) db w = Inr (Some ws))")
  case True
  then obtain ws where r: "requireWorkspaceRole (up 0) db user w [''owner''] = None"
    and ws: "GetWorkspace (up 1) db w = Inr (Some ws)" by blast
  obtain st d where a: "deleteSandboxes (\<lambda>n. up (7 + n)) (coalesce (w_namespace ws)) tunnels 0
      (ListByWorkspace (up 2) db w) db = (st, d)" by (metis surj_pair)
  obtain e d2 where b: "SoftDeleteWorkspace (up 3) now d w = (e, d2)" by (metis surj_pair)
  obtain f d3 where c: "DeleteWorkspaceDrafts (\<lambda>k. up (4 + k)) d2 w = (f, d3)" by (metis surj_pair)
  have "gentle db d"
    using gentle_deleteSandboxes [of db "\<lambda>n. up (7 + n)" "coalesce (w_namespace ws)" tunnels 0
        "ListByWorkspace (up 2) db w"] a by simp
  also have "gentle d d2" by (rule gentle_more) (use b in \<open>auto simp: SoftDeleteWorkspace_def Let_def split: if_splits\<close>)
  finally have g2: "gentle db d2" .
  also have "gentle d2 d3" by (rule gentle_more) (use c in \<open>auto simp: DeleteWorkspaceDrafts_def Let_def split: if_splits\<close>)
  finally have g3: "gentle db d3" .
  also have "gentle d3 (snd (ClearActiveWorkspace (up 6) d3 w))"
    by (rule gentle_more) (simp_all add: ClearActiveWorkspace_def)
  finally have g4: "gentle db (snd (ClearActiveWorkspace (up 6) d3 w))" .
  have "snd (snd (handleDeleteWorkspace up now tunnels user w db)) \<in>
      {d2, d3, snd (ClearActiveWorkspace (up 6) d3 w)}"
    unfolding handleDeleteWorkspace_def r ws option.case sum.case a Let_def prod.case b c
    by (cases e; cases f) (auto split: soft_err.split)
  with g2 g3 g4 show ?thesis by (elim insertE emptyE) simp_all
next
  case False
  then have "snd (snd (handleDeleteWorkspace up now tunnels user w db)) = db"
    by (auto simp: handleDeleteWorkspace_def split: sum.split option.split)
  then show ?thesis by simp
qed

lemma life_step_gentle:
  assumes "life_step ok s s'"
  shows "gentle (lf_db s) (lf_db s')"
  using assms
proof cases
  case (create up pe J flt dur env now user w body db rep db1 g)
  with handleCreate_cases [OF create(5)] show ?thesis by simp
next
  case (created up pe J flt dur env now user w body db rep opts db1 g)
  with handleCreate_cases [OF created(5)] show ?thesis by (auto intro: gentle_add)
next
  case (auto_bind up pe J flt dur env now w inp db res db1 g)
  with provisionSandbox_cases [OF auto_bind(5)] show ?thesis by (cases res) (auto intro: gentle_add)
next
  case (wake_end db g i J resumed up now)
  then show ?thesis by (cases resumed) (simp_all add: gentle_wake)
next
  case (agent up i J db g now hydra authHeader req tunnel proxy sids)
  with handleAgentRegister_cases [of up now hydra authHeader req i tunnel proxy sids db]
  show ?thesis by (auto intro: gentle_add)
next
  case (connect up now i tok t g db g1 old db1 J)
  with gentle_connect [OF connect(4)] show ?thesis by simp
next
  case (pause_begin u now db i e db1 g J)
  with gentle_status [of db u now i StatusPausing] show ?thesis by simp
next
  case (resume_begin u now db i e db1 g J)
  with gentle_status [of db u now i StatusResuming] show ?thesis by simp
next
  case (idle_begin u now db i e db1 g "is" J)
  with gentle_status [of db u now i StatusPausing] show ?thesis by simp
qed (simp_all add: gentle_ends gentle_rename gentle_delete gentle_delete_workspace gentle_activity gentle_beat)

section \<open>Any history\<close>

text \<open>
  The life of the sandboxes with their tasks and messages.  \<open>wk_used\<close> are the UUIDs given to tasks and
  messages so far, a new one is fresh; \<open>wk_polled\<close> and \<open>wk_read\<close> are what the replies handed out, with
  the sandbox that asked.
\<close>

record work =
  wk_life :: life
  wk_used :: "string set"
  wk_polled :: "(string \<times> string) list"
  wk_read :: "(string \<times> string) list"

abbreviation wk_db :: "work \<Rightarrow> srv_db" where
  "wk_db s \<equiv> lf_db (wk_life s)"

definition put_db :: "srv_db \<Rightarrow> work \<Rightarrow> work" where
  "put_db db s = s\<lparr>wk_life := (wk_life s)\<lparr>lf_db := db\<rparr>\<rparr>"

lemma put_db_simps [simp]:
  "wk_db (put_db db s) = db" "wk_used (put_db db s) = wk_used s"
  "wk_polled (put_db db s) = wk_polled s" "wk_read (put_db db s) = wk_read s"
  by (simp_all add: put_db_def)

inductive work_step :: "work \<Rightarrow> work \<Rightarrow> bool" where
  sandboxes: "life_step False (wk_life s) l \<Longrightarrow> work_step s (s\<lparr>wk_life := l\<rparr>)"
| user_task: "u \<notin> wk_used s \<Longrightarrow> snd (handleCreateTask up now w u body (wk_db s)) = db1 \<Longrightarrow>
    work_step s ((put_db db1 s)\<lparr>wk_used := insert u (wk_used s)\<rparr>)"
| agent_task: "u \<notin> wk_used s \<Longrightarrow> snd (handleAgentCreateTask up now header u body (wk_db s)) = db1 \<Longrightarrow>
    work_step s ((put_db db1 s)\<lparr>wk_used := insert u (wk_used s)\<rparr>)"
| update: "snd (handleUpdateTaskStatus up now header i req (wk_db s)) = db1 \<Longrightarrow> work_step s (put_db db1 s)"
| cancel: "snd (handleCancelTask up now i (wk_db s)) = db1 \<Longrightarrow> work_step s (put_db db1 s)"
| poll: "handlePollTasks up now header q (wk_db s) = (rep, db1) \<Longrightarrow>
    work_step s ((put_db db1 s)\<lparr>wk_polled := wk_polled s @ handed_by pl_id rep (caller up header (wk_db s))\<rparr>)"
| send: "u \<notin> wk_used s \<Longrightarrow> snd (handleSendMessage up now header u msg (wk_db s)) = db1 \<Longrightarrow>
    work_step s ((put_db db1 s)\<lparr>wk_used := insert u (wk_used s)\<rparr>)"
| read: "handleReadInbox up now header q (wk_db s) = (reply, db1) \<Longrightarrow>
    work_step s ((put_db db1 s)\<lparr>wk_read := wk_read s @ handed_by ms_id reply (caller up header (wk_db s))\<rparr>)"

definition work_start :: "work \<Rightarrow> bool" where
  "work_start s \<longleftrightarrow> life_start (wk_life s) \<and> sv_tasks (wk_db s) = [] \<and> sv_mail (wk_db s) = [] \<and>
     wk_polled s = [] \<and> wk_read s = []"

definition work_reach :: "work \<Rightarrow> bool" where
  "work_reach s \<longleftrightarrow> (\<exists>s0. work_start s0 \<and> work_step\<^sup>*\<^sup>* s0 s)"

definition work_ok :: "work \<Rightarrow> bool" where
  "work_ok s \<longleftrightarrow>
     queue_ok tk_id tk_target (\<lambda>t. tk_status t = TaskPending) ((@) ''task_'' ` wk_used s) (wk_polled s)
       (sv_tasks (wk_db s)) \<and>
     queue_ok ms_id ms_to (\<lambda>m. ms_read m = None) ((@) ''msg_'' ` wk_used s) (wk_read s) (sv_mail (wk_db s)) \<and>
     in_place (wk_db s)"

lemma work_okI:
  assumes "queue_ok tk_id tk_target (\<lambda>t. tk_status t = TaskPending) ((@) ''task_'' ` wk_used s) (wk_polled s)
       (sv_tasks (wk_db s))"
    and "queue_ok ms_id ms_to (\<lambda>m. ms_read m = None) ((@) ''msg_'' ` wk_used s) (wk_read s) (sv_mail (wk_db s))"
    and "in_place (wk_db s)"
  shows "work_ok s"
  using assms by (simp add: work_ok_def)

lemma work_okD:
  assumes "work_ok s"
  shows "queue_ok tk_id tk_target (\<lambda>t. tk_status t = TaskPending) ((@) ''task_'' ` wk_used s) (wk_polled s)
       (sv_tasks (wk_db s))"
    and "queue_ok ms_id ms_to (\<lambda>m. ms_read m = None) ((@) ''msg_'' ` wk_used s) (wk_read s) (sv_mail (wk_db s))"
    and "in_place (wk_db s)"
  using assms by (simp_all add: work_ok_def)

lemma tasks_kept:
  assumes "queue_ok tk_id tk_target (\<lambda>t. tk_status t = TaskPending) used handed ts"
    and "subseq (map task_core ts1) (map task_core ts)"
  shows "queue_ok tk_id tk_target (\<lambda>t. tk_status t = TaskPending) used handed ts1"
proof (rule task_queue.rows_kept [OF assms(1)])
  have c: "map fst (map task_core xs) = map tk_id xs" for xs by (simp add: task_core_def)
  show "subseq (map tk_id ts1) (map tk_id ts)" using subseq_map [OF assms(2), of fst] unfolding c .
next
  fix t assume "t \<in> set ts1"
  then have "task_core t \<in> set (map task_core ts)" using subseq_set [OF assms(2)] by auto
  then show "\<exists>q \<in> set ts. tk_id t = tk_id q \<and> tk_target t = tk_target q \<and>
      (tk_status t = TaskPending \<longrightarrow> tk_status q = TaskPending)" by (auto simp: task_core_def)
qed

lemma tasks_closed:
  assumes "queue_ok tk_id tk_target (\<lambda>t. tk_status t = TaskPending) used handed ts" and "closes f"
  shows "queue_ok tk_id tk_target (\<lambda>t. tk_status t = TaskPending) used handed (update_rows P f ts)"
proof (rule task_queue.rows_kept [OF assms(1)])
  have "map tk_id (update_rows P f ts) = map tk_id ts"
    by (rule map_update_rows) (use assms(2) in \<open>simp add: closes_def\<close>)
  then show "subseq (map tk_id (update_rows P f ts)) (map tk_id ts)" by simp
next
  fix t assume "t \<in> set (update_rows P f ts)"
  then obtain q where "q \<in> set ts" "t = (if P q then f q else q)" unfolding set_update_rows by blast
  with assms(2) show "\<exists>q \<in> set ts. tk_id t = tk_id q \<and> tk_target t = tk_target q \<and>
      (tk_status t = TaskPending \<longrightarrow> tk_status q = TaskPending)"
    by (intro bexI [of _ q]) (auto simp: closes_def)
qed

lemma mail_kept:
  assumes "queue_ok ms_id ms_to (\<lambda>m. ms_read m = None) used handed ms" and "subseq ms1 ms"
  shows "queue_ok ms_id ms_to (\<lambda>m. ms_read m = None) used handed ms1"
proof (rule mail_queue.rows_kept [OF assms(1)])
  show "subseq (map ms_id ms1) (map ms_id ms)" by (rule subseq_map [OF assms(2)])
next
  fix m assume "m \<in> set ms1"
  then have "m \<in> set ms" using subseq_set [OF assms(2)] by blast
  then show "\<exists>q \<in> set ms. ms_id m = ms_id q \<and> ms_to m = ms_to q \<and> (ms_read m = None \<longrightarrow> ms_read q = None)" by blast
qed

lemma in_place_same:
  assumes "in_place db" and "sv_sandboxes db1 = sv_sandboxes db"
    and "\<And>t. t \<in> set (sv_tasks db1) \<Longrightarrow> \<exists>q \<in> set (sv_tasks db). tk_target q = tk_target t \<and> tk_ws q = tk_ws t"
    and "\<And>m. m \<in> set (sv_mail db1) \<Longrightarrow>
      \<exists>q \<in> set (sv_mail db). ms_from q = ms_from m \<and> ms_to q = ms_to m \<and> ms_ws q = ms_ws m"
  shows "in_place db1"
proof -
  have p: "placed db1 i w \<longleftrightarrow> placed db i w" for i w by (simp add: placed_def assms(2))
  show ?thesis
  proof (rule in_placeI)
    fix t assume "t \<in> set (sv_tasks db1)"
    then show "placed db1 (tk_target t) (tk_ws t)" using assms(3) in_placeD(1) [OF assms(1)] p by metis
  next
    fix m assume "m \<in> set (sv_mail db1)"
    then show "placed db1 (ms_from m) (ms_ws m)" "placed db1 (ms_to m) (ms_ws m)"
      using assms(4) in_placeD(2,3) [OF assms(1)] p by metis+
  qed
qed

lemma work_ok_tasks:
  assumes "work_ok s" and "sv_mail db1 = sv_mail (wk_db s)" and "sv_sandboxes db1 = sv_sandboxes (wk_db s)"
    and "\<exists>P f. sv_tasks db1 = update_rows P f (sv_tasks (wk_db s)) \<and> closes f"
  shows "work_ok (put_db db1 s)"
proof -
  obtain P f where f: "sv_tasks db1 = update_rows P f (sv_tasks (wk_db s))" "closes f" using assms(4) by blast
  have "in_place db1"
  proof (rule in_place_same [OF work_okD(3) [OF assms(1)] assms(3)])
    fix t assume "t \<in> set (sv_tasks db1)"
    then obtain q where "q \<in> set (sv_tasks (wk_db s))" "t = (if P q then f q else q)"
      unfolding f(1) set_update_rows by blast
    with f(2) show "\<exists>q \<in> set (sv_tasks (wk_db s)). tk_target q = tk_target t \<and> tk_ws q = tk_ws t"
      by (intro bexI [of _ q]) (auto simp: closes_def)
  qed (use assms(2) in auto)
  with assms(2) f(1) tasks_closed [OF work_okD(1) [OF assms(1)] f(2)] work_okD(2) [OF assms(1)]
  show ?thesis by (intro work_okI) simp_all
qed

lemma work_ok_gentle:
  assumes "work_ok s" and "gentle (wk_db s) (lf_db l)"
  shows "work_ok (s\<lparr>wk_life := l\<rparr>)"
  by (rule work_okI)
    (use assms(2) tasks_kept [OF work_okD(1) [OF assms(1)]] mail_kept [OF work_okD(2) [OF assms(1)]]
      work_okD(3) [OF assms(1)] in \<open>simp_all add: gentle_def\<close>)

lemma work_ok_new:
  assumes "work_ok s" and "u \<notin> wk_used s" and "sv_sandboxes db1 = sv_sandboxes (wk_db s)"
    and "sv_tasks db1 = sv_tasks (wk_db s) \<or>
      (\<exists>t. sv_tasks db1 = sv_tasks (wk_db s) @ [t] \<and> tk_id t = ''task_'' @ u \<and> placed (wk_db s) (tk_target t) (tk_ws t))"
    and "sv_mail db1 = sv_mail (wk_db s) \<or>
      (\<exists>m. sv_mail db1 = sv_mail (wk_db s) @ [m] \<and> ms_id m = ''msg_'' @ u \<and>
         placed (wk_db s) (ms_from m) (ms_ws m) \<and> placed (wk_db s) (ms_to m) (ms_ws m))"
  shows "work_ok ((put_db db1 s)\<lparr>wk_used := insert u (wk_used s)\<rparr>)"
proof (rule work_okI)
  let ?q = "queue_ok tk_id tk_target (\<lambda>t. tk_status t = TaskPending) ((@) ''task_'' ` insert u (wk_used s)) (wk_polled s)"
  have "?q (sv_tasks (wk_db s))" by (rule task_queue.used_mono [OF work_okD(1) [OF assms(1)]]) (rule image_mono, rule subset_insertI)
  moreover have "?q (sv_tasks (wk_db s) @ [t])" if "tk_id t = ''task_'' @ u" for t
    by (rule task_queue.added [OF work_okD(1) [OF assms(1)]]) (use that assms(2) in auto)
  ultimately show "queue_ok tk_id tk_target (\<lambda>t. tk_status t = TaskPending)
      ((@) ''task_'' ` wk_used ((put_db db1 s)\<lparr>wk_used := insert u (wk_used s)\<rparr>))
      (wk_polled ((put_db db1 s)\<lparr>wk_used := insert u (wk_used s)\<rparr>))
      (sv_tasks (wk_db ((put_db db1 s)\<lparr>wk_used := insert u (wk_used s)\<rparr>)))"
    using assms(4) by (elim disjE exE) simp_all
next
  let ?q = "queue_ok ms_id ms_to (\<lambda>m. ms_read m = None) ((@) ''msg_'' ` insert u (wk_used s)) (wk_read s)"
  have "?q (sv_mail (wk_db s))" by (rule mail_queue.used_mono [OF work_okD(2) [OF assms(1)]]) (rule image_mono, rule subset_insertI)
  moreover have "?q (sv_mail (wk_db s) @ [m])" if "ms_id m = ''msg_'' @ u" for m
    by (rule mail_queue.added [OF work_okD(2) [OF assms(1)]]) (use that assms(2) in auto)
  ultimately show "queue_ok ms_id ms_to (\<lambda>m. ms_read m = None)
      ((@) ''msg_'' ` wk_used ((put_db db1 s)\<lparr>wk_used := insert u (wk_used s)\<rparr>))
      (wk_read ((put_db db1 s)\<lparr>wk_used := insert u (wk_used s)\<rparr>))
      (sv_mail (wk_db ((put_db db1 s)\<lparr>wk_used := insert u (wk_used s)\<rparr>)))"
    using assms(5) by (elim disjE exE) simp_all
next
  have p: "placed db1 i w = placed (wk_db s) i w" for i w by (simp add: placed_def assms(3))
  note d = in_placeD [OF work_okD(3) [OF assms(1)]]
  have "placed (wk_db s) (tk_target t) (tk_ws t)" if "t \<in> set (sv_tasks db1)" for t
    using assms(4) that d(1) [of t] by (elim disjE exE conjE) auto
  moreover have "placed (wk_db s) (ms_from m) (ms_ws m) \<and> placed (wk_db s) (ms_to m) (ms_ws m)"
    if "m \<in> set (sv_mail db1)" for m
    using assms(5) that d(2,3) [of m] by (elim disjE exE conjE) auto
  ultimately have "in_place db1" by (intro in_placeI) (simp_all add: p)
  then show "in_place (wk_db ((put_db db1 s)\<lparr>wk_used := insert u (wk_used s)\<rparr>))" by simp
qed

lemma work_ok_poll:
  assumes "work_ok s" and "handlePollTasks up now header q (wk_db s) = (rep, db1)"
  shows "work_ok ((put_db db1 s)\<lparr>wk_polled := wk_polled s @ handed_by pl_id rep (caller up header (wk_db s))\<rparr>)"
proof -
  let ?db = "wk_db s" let ?d = "caller up header (wk_db s)"
  from poll_cases [OF assms(2) refl] consider
      (none) "db1 = ?db" "handed_by pl_id rep ?d = []"
    | (some) "db1 = ?db\<lparr>sv_tasks := update_rows (poll_pick ?db ?d) (assign now) (sv_tasks ?db)\<rparr>"
        "handed_by pl_id rep ?d = map (\<lambda>r. (tk_id r, ?d)) (filter (poll_pick ?db ?d) (sv_tasks ?db))" by blast
  then show ?thesis
  proof cases
    case none
    then show ?thesis using work_okD [OF assms(1)] by (intro work_okI) simp_all
  next
    case some
    have "in_place db1"
    proof (rule in_place_same [OF work_okD(3) [OF assms(1)]])
      fix t assume "t \<in> set (sv_tasks db1)"
      then obtain r where "r \<in> set (sv_tasks ?db)" "t = (if poll_pick ?db ?d r then assign now r else r)"
        unfolding some(1) by (auto simp: set_update_rows)
      then show "\<exists>q \<in> set (sv_tasks ?db). tk_target q = tk_target t \<and> tk_ws q = tk_ws t"
        by (intro bexI [of _ r]) (auto simp: assign_def)
    qed (use some(1) in auto)
    moreover have "queue_ok tk_id tk_target (\<lambda>t. tk_status t = TaskPending) ((@) ''task_'' ` wk_used s)
        (wk_polled s @ map (\<lambda>r. (tk_id r, ?d)) (filter (poll_pick ?db ?d) (sv_tasks ?db)))
        (update_rows (poll_pick ?db ?d) (assign now) (sv_tasks ?db))"
      by (rule task_queue.handed_out [OF work_okD(1) [OF assms(1)]]) (simp add: poll_pick_def pending_tasks_def)
    ultimately show ?thesis using some work_okD(2) [OF assms(1)] by (intro work_okI) simp_all
  qed
qed

lemma work_ok_read:
  assumes "work_ok s" and "handleReadInbox up now header q (wk_db s) = (rep, db1)"
  shows "work_ok ((put_db db1 s)\<lparr>wk_read := wk_read s @ handed_by ms_id rep (caller up header (wk_db s))\<rparr>)"
proof -
  let ?db = "wk_db s" let ?d = "caller up header (wk_db s)" let ?f = "\<lambda>m. m\<lparr>ms_read := Some now\<rparr>"
  from read_cases [OF assms(2)] consider
      (none) "db1 = ?db" "handed_by ms_id rep ?d = []"
    | (some) n where "db1 = ?db\<lparr>sv_mail := update_rows (mail_pick ?db ?d n) ?f (sv_mail ?db)\<rparr>"
        "handed_by ms_id rep ?d = map (\<lambda>r. (ms_id r, ?d)) (filter (mail_pick ?db ?d n) (sv_mail ?db))"
    unfolding Let_def by blast
  then show ?thesis
  proof cases
    case none
    then show ?thesis using work_okD [OF assms(1)] by (intro work_okI) simp_all
  next
    case some
    have "in_place db1"
    proof (rule in_place_same [OF work_okD(3) [OF assms(1)]])
      fix m assume "m \<in> set (sv_mail db1)"
      then obtain r where "r \<in> set (sv_mail ?db)" "m = (if mail_pick ?db ?d n r then ?f r else r)"
        unfolding some(1) by (auto simp: set_update_rows)
      then show "\<exists>q \<in> set (sv_mail ?db). ms_from q = ms_from m \<and> ms_to q = ms_to m \<and> ms_ws q = ms_ws m"
        by (intro bexI [of _ r]) auto
    qed (use some(1) in auto)
    moreover have "queue_ok ms_id ms_to (\<lambda>m. ms_read m = None) ((@) ''msg_'' ` wk_used s)
        (wk_read s @ map (\<lambda>r. (ms_id r, ?d)) (filter (mail_pick ?db ?d n) (sv_mail ?db)))
        (update_rows (mail_pick ?db ?d n) ?f (sv_mail ?db))"
      by (rule mail_queue.handed_out [OF work_okD(2) [OF assms(1)]]) (simp add: mail_pick_def unread_def)
    ultimately show ?thesis using some work_okD(1) [OF assms(1)] by (intro work_okI) simp_all
  qed
qed

lemma work_step_ok:
  assumes "work_step s s'" and "work_ok s"
  shows "work_ok s'"
  using assms(1)
proof cases
  case (sandboxes l)
  then show ?thesis using work_ok_gentle [OF assms(2) life_step_gentle] by simp
next
  case (user_task u up now w body db1)
  from createTask_cases [OF user_task(3) [unfolded handleCreateTask_def]]
  show ?thesis unfolding user_task(1)
    by (intro work_ok_new [OF assms(2) user_task(2)]) (auto simp: placed_iff)
next
  case (agent_task u up now header body db1)
  from agentCreateTask_cases [of up now header u body "wk_db s"] agent_task(3)
  have "db1 = wk_db s \<or> (\<exists>w. snd (handleCreateTaskForWorkspace up now w u body (wk_db s)) = db1)" by auto
  then have "sv_mail db1 = sv_mail (wk_db s)" "sv_sandboxes db1 = sv_sandboxes (wk_db s)"
    "sv_tasks db1 = sv_tasks (wk_db s) \<or>
     (\<exists>t. sv_tasks db1 = sv_tasks (wk_db s) @ [t] \<and> tk_id t = ''task_'' @ u \<and> placed (wk_db s) (tk_target t) (tk_ws t))"
    unfolding placed_iff
    by (elim disjE exE; fastforce dest: createTask_cases)+
  then show ?thesis unfolding agent_task(1) by (intro work_ok_new [OF assms(2) agent_task(2)]) simp_all
next
  case (update up now header i req db1)
  then show ?thesis using updateTask_cases [of up now header i req "wk_db s"] work_ok_tasks [OF assms(2)] by simp
next
  case (cancel up now i db1)
  then show ?thesis using cancelTask_cases [of up now i "wk_db s"] work_ok_tasks [OF assms(2)] by simp
next
  case (poll up now header q rep db1)
  then show ?thesis using work_ok_poll [OF assms(2)] by simp
next
  case (send u up now header msg db1)
  from send_cases [OF send(3)]
  show ?thesis unfolding send(1)
    by (intro work_ok_new [OF assms(2) send(2)]) (auto simp: placed_iff)
next
  case (read up now header q reply db1)
  then show ?thesis using work_ok_read [OF assms(2)] by simp
qed

lemma work_reach_ok:
  assumes "work_reach s"
  shows "work_ok s"
proof -
  obtain s0 where s0: "work_start s0" "work_step\<^sup>*\<^sup>* s0 s" using assms by (auto simp: work_reach_def)
  from s0(2) show ?thesis
  proof (induction rule: rtranclp_induct)
    case base
    from s0(1) show ?case by (simp add: work_start_def work_ok_def queue_ok_def in_place_def)
  qed (rule work_step_ok)
qed

text \<open>C27: C0: Under any history of requests on sandboxes, tasks and messages, whatever fails, no two polls hand
  out the same task and no two reads of an inbox the same message; a task is handed only to its
  target and is not pending afterwards, a message only to its addressee and is read afterwards.
\<close>

theorem work_handed_once:
  assumes "work_reach s"
  shows "distinct (map fst (wk_polled s)) \<and> distinct (map fst (wk_read s)) \<and>
    (\<forall>t \<in> set (sv_tasks (wk_db s)). \<forall>d. (tk_id t, d) \<in> set (wk_polled s) \<longrightarrow>
       d = tk_target t \<and> tk_status t \<noteq> TaskPending) \<and>
    (\<forall>m \<in> set (sv_mail (wk_db s)). \<forall>d. (ms_id m, d) \<in> set (wk_read s) \<longrightarrow>
       d = ms_to m \<and> ms_read m \<noteq> None)"
  using queue_okD(2,5) [OF work_okD(1) [OF work_reach_ok [OF assms]]]
    queue_okD(2,5) [OF work_okD(2) [OF work_reach_ok [OF assms]]] by blast

text \<open>The requester of a task is the one the request names, of whatever workspace it is.\<close>

lemma requester_unchecked:
  assumes "GetSandbox (up 2) db (rq_target req) = Inr (Some t)" and "rq_target req \<noteq> []" and "rq_prompt req \<noteq> []"
    and "up 3" and "has_workspace db (sb_ws t)" and "\<not> list_ex (\<lambda>x. tk_id x = ''task_'' @ u) (sv_tasks db)"
    and "rq_requester req = sb_id q" and "q \<in> set (sv_sandboxes db)" and "sb_id q \<noteq> []"
  shows "\<exists>x \<in> set (sv_tasks (snd (handleCreateTaskForWorkspace up now (sb_ws t) u (Some req) db))).
    tk_ws x = sb_ws t \<and> tk_requester x = Some (sb_id q)"
proof -
  have h: "has_sandbox db (rq_target req)" "has_sandbox db (sb_id q)"
    using assms(1,8) by (auto simp: GetSandbox_def has_sandbox_def list_ex_iff find_Some_iff split: if_splits)
  have l: "sv_tasks (logInteraction b now w a ac i ty d) = sv_tasks d" for b w a ac i ty and d :: srv_db
    by (simp add: logInteraction_def LogInteraction_def)
  from h assms(2-7,9) show ?thesis
    by (simp add: handleCreateTaskForWorkspace_def db_CreateAgentTask_def Let_def l nullif_empty_def assms(1))
qed

text \<open>C28: Under the same histories, deletions of sandboxes included, the target of every task and both
  ends of every message are sandboxes that exist, of the workspace of the task or message.  Nothing is said of the
  requester of a task: the request names it and the code does not check it (\<open>requester_unchecked\<close>).
\<close>

theorem work_stays_in_workspace:
  assumes "work_reach s"
  shows "(\<forall>t \<in> set (sv_tasks (wk_db s)). \<exists>r \<in> set (sv_sandboxes (wk_db s)). sb_id r = tk_target t \<and> sb_ws r = tk_ws t) \<and>
    (\<forall>m \<in> set (sv_mail (wk_db s)).
       (\<exists>r \<in> set (sv_sandboxes (wk_db s)). sb_id r = ms_from m \<and> sb_ws r = ms_ws m) \<and>
       (\<exists>r \<in> set (sv_sandboxes (wk_db s)). sb_id r = ms_to m \<and> sb_ws r = ms_ws m))"
proof -
  have p: "placed db i w \<longleftrightarrow> (\<exists>r \<in> set (sv_sandboxes db). sb_id r = i \<and> sb_ws r = w)" for db i w
    by (auto simp: placed_iff)
  from work_okD(3) [OF work_reach_ok [OF assms]] show ?thesis unfolding in_place_def p .
qed

text \<open>A poll of a sandbox answers with its five oldest pending tasks (all of them when there are
  fewer), marks exactly these as assigned, and changes nothing else.
\<close>

theorem poll_oldest_first:
  assumes "extractProxyTokenSandbox up header db = Inr s" and "up 2" and "q = [] \<or> q = sb_id s"
    and "distinct (map tk_id (sv_tasks db))"
  shows "\<exists>ts. handlePollTasks up now header q db =
      (Reply 200 (map poll_item_of (map (assign now) ts)),
       db\<lparr>sv_tasks := map (\<lambda>t. if t \<in> set ts then assign now t else t) (sv_tasks db)\<rparr>) \<and>
    set ts \<subseteq> {t \<in> set (sv_tasks db). tk_target t = sb_id s \<and> tk_status t = TaskPending} \<and> distinct ts \<and>
    length ts = min 5 (length (filter (\<lambda>t. tk_target t = sb_id s \<and> tk_status t = TaskPending) (sv_tasks db))) \<and>
    (\<forall>t \<in> set ts. \<forall>p \<in> set (sv_tasks db). tk_target p = sb_id s \<and> tk_status p = TaskPending \<and> p \<notin> set ts \<longrightarrow>
       tk_created t \<le> tk_created p)"
proof -
  let ?pend = "filter (\<lambda>t. tk_target t = sb_id s \<and> tk_status t = TaskPending) (sv_tasks db)"
  let ?ts = "filter (poll_pick db (sb_id s)) (sv_tasks db)"
  have P: "poll_pick db (sb_id s) r \<longleftrightarrow> tk_id r \<in> tk_id ` set (take 5 (sort_key tk_created ?pend))" for r
    by (simp add: poll_pick_def pending_tasks_def)
  note set = task_queue.picked_set [OF assms(4) P]
  have "update_rows (poll_pick db (sb_id s)) (assign now) (sv_tasks db) =
      map (\<lambda>t. if t \<in> set ?ts then assign now t else t) (sv_tasks db)"
    by (simp add: update_rows_def)
  then have "handlePollTasks up now header q db = (Reply 200 (map poll_item_of (map (assign now) ?ts)),
       db\<lparr>sv_tasks := map (\<lambda>t. if t \<in> set ?ts then assign now t else t) (sv_tasks db)\<rparr>)"
    using task_poll_ok [OF assms(1-3), of now] by (simp add: comp_def)
  moreover have "set ?ts \<subseteq> {t \<in> set (sv_tasks db). tk_target t = sb_id s \<and> tk_status t = TaskPending}"
    unfolding set(1) by (auto dest: in_set_takeD)
  moreover have "distinct ?ts" using assms(4) by (simp add: distinct_map)
  moreover have "\<forall>t \<in> set ?ts. \<forall>p \<in> set (sv_tasks db).
      tk_target p = sb_id s \<and> tk_status p = TaskPending \<and> p \<notin> set ?ts \<longrightarrow> tk_created t \<le> tk_created p"
    unfolding set(1) using task_queue.picked_oldest [of _ 5 ?pend] by simp
  ultimately show ?thesis using set(2) by blast
qed

section \<open>A run\<close>

text \<open>An agent registers, gets a task and a message to itself, and asks for both.\<close>

definition wdb0 :: srv_db where
  "wdb0 = tdb\<lparr>sv_sandboxes := []\<rparr>"

definition wagent :: sbx_row where
  "wagent = \<lparr>sb_id = ''n'', sb_ws = ''w'', sb_name = ''A'', sb_type = ''custom'', sb_status = StatusRunning,
     sb_local = True, sb_short = Some ''a1'', sb_sandbox = None, sb_pod = None, sb_proxy = Some ''p'',
     sb_opencode = Some [], sb_openclaw = None, sb_tunnel = Some ''t'', sb_nanoclaw = None,
     sb_active = Some 1, sb_created = 1, sb_paused = None, sb_beat = Some 1, sb_cpu = None,
     sb_memory = None, sb_idle = None, sb_meta = ''{}''\<rparr>"

definition wdb1 :: srv_db where
  "wdb1 = wdb0\<lparr>sv_sandboxes := [wagent],
     sv_tokens := [\<lparr>pt_token = ''p'', pt_scope = ProxyTokenSandbox ''n'', pt_ws = ''w''\<rparr>]\<rparr>"

definition wintro :: "string \<Rightarrow> unit + IntrospectionResult" where
  "wintro _ = Inr \<lparr>io_active = True, io_subject = ''ann'', io_scope = ''agent:register'', io_workspace = ''w''\<rparr>"

lemma wadmit: "registerAdmit True (Some wintro) ''Bearer x'' wdb0 = Inr ''w''"
proof -
  have "HasPrefix ''Bearer x'' ''Bearer ''" "Split (CHR '' '') ''agent:register'' = [''agent:register'']"
    by code_simp+
  then show ?thesis
    by (simp add: registerAdmit_def wintro_def HasScope_def GetWorkspaceMemberRole_def wdb0_def tdb_def)
qed

lemma wregister:
  "snd (handleAgentRegister (\<lambda>_. True) 1 (Some wintro) ''Bearer x'' (Some (''A'', [])) ''n'' (Some ''t'') (Some ''p'')
     [''a1''] wdb0) = wdb1"
  unfolding handleAgentRegister_def wadmit
  by (simp add: CreateLocalSandbox_def insert_sandbox_def sandbox_clash_def has_workspace_def insert_sandbox_token_def
      nullif_empty_def wdb0_def wdb1_def wagent_def tdb_def)

definition wreq :: delegation_request where
  "wreq = \<lparr>rq_target = ''n'', rq_skill = [], rq_prompt = ''do'', rq_context = [], rq_maxTurns = 0, rq_maxBudget = [],
     rq_timeout = 0, rq_chain = [], rq_requester = []\<rparr>"

definition wtask :: task_row where
  "wtask = \<lparr>tk_id = ''task_1'', tk_ws = ''w'', tk_requester = None, tk_target = ''n'', tk_session = None,
     tk_skill = None, tk_prompt = ''do'', tk_context = None, tk_status = TaskPending, tk_result = None,
     tk_failure = None, tk_timeout = 300, tk_chain = [], tk_cost = None, tk_turns = 0, tk_created = 2,
     tk_accepted = None, tk_completed = None\<rparr>"

definition wdb2 :: srv_db where
  "wdb2 = wdb1\<lparr>sv_tasks := [wtask],
     sv_log := [\<lparr>in_ws = ''w'', in_actor = None, in_action = ''task_created'', in_target = ''task_1'',
       in_type = ''task'', in_created = 2\<rparr>]\<rparr>"

lemmas wdb_simps = wdb0_def wdb1_def wdb2_def tdb_def wagent_def wtask_def

lemma wcreate_task: "snd (handleCreateTask (\<lambda>_. True) 2 ''w'' ''1'' (Some wreq) wdb1) = wdb2"
  by (simp add: handleCreateTask_def handleCreateTaskForWorkspace_def wreq_def GetSandbox_def db_CreateAgentTask_def
      has_workspace_def has_sandbox_def nullif_empty_def logInteraction_def LogInteraction_def Let_def wdb_simps)

lemma wtoken:
  assumes "sv_tokens db = sv_tokens wdb1" and "sv_sandboxes db = [wagent]"
  shows "extractProxyTokenSandbox (\<lambda>_. True) ''Bearer p'' db = Inr wagent"
  using assms
  by (simp add: extractProxyTokenSandbox_def bearer_of_def GetSandboxByAnyToken_def GetSandboxByProxyToken_def
      wdb1_def wagent_def)

lemma wpoll:
  "handlePollTasks (\<lambda>_. True) 3 ''Bearer p'' [] wdb2 =
     (Reply 200 [poll_item_of (assign 3 wtask)], wdb2\<lparr>sv_tasks := [assign 3 wtask]\<rparr>)"
proof -
  have "extractProxyTokenSandbox (\<lambda>_. True) ''Bearer p'' wdb2 = Inr wagent"
    by (rule wtoken) (simp_all add: wdb2_def wdb1_def)
  then show ?thesis
    by (simp add: handlePollTasks_def ListPendingAgentTasksByTarget_def pending_tasks_def Let_def wdb2_def wtask_def
        wagent_def)
qed

lemma wsend:
  "\<exists>m. sv_mail (snd (handleSendMessage (\<lambda>_. True) 4 ''Bearer p'' ''2'' (Some (''n'', ''hi'', [])) (wdb2\<lparr>sv_tasks := ts\<rparr>))) = [m] \<and>
     ms_id m = ''msg_2'' \<and> ms_to m = ''n'' \<and> ms_read m = None"
  "sv_sandboxes (snd (handleSendMessage (\<lambda>_. True) 4 ''Bearer p'' ''2'' (Some (''n'', ''hi'', [])) (wdb2\<lparr>sv_tasks := ts\<rparr>))) = [wagent]"
  "sv_tokens (snd (handleSendMessage (\<lambda>_. True) 4 ''Bearer p'' ''2'' (Some (''n'', ''hi'', [])) (wdb2\<lparr>sv_tasks := ts\<rparr>))) = sv_tokens wdb1"
  "sv_tasks (snd (handleSendMessage (\<lambda>_. True) 4 ''Bearer p'' ''2'' (Some (''n'', ''hi'', [])) (wdb2\<lparr>sv_tasks := ts\<rparr>))) = ts"
proof -
  let ?db = "wdb2\<lparr>sv_tasks := ts\<rparr>"
  have x: "extractProxyTokenSandbox (\<lambda>_. True) ''Bearer p'' ?db = Inr wagent"
    by (rule wtoken) (simp_all add: wdb2_def wdb1_def)
  have g: "GetSandbox True ?db ''n'' = Inr (Some wagent)" by (simp add: GetSandbox_def wdb2_def wdb1_def wagent_def)
  show "\<exists>m. sv_mail (snd (handleSendMessage (\<lambda>_. True) 4 ''Bearer p'' ''2'' (Some (''n'', ''hi'', [])) ?db)) = [m] \<and>
     ms_id m = ''msg_2'' \<and> ms_to m = ''n'' \<and> ms_read m = None"
    "sv_sandboxes (snd (handleSendMessage (\<lambda>_. True) 4 ''Bearer p'' ''2'' (Some (''n'', ''hi'', [])) ?db)) = [wagent]"
    "sv_tokens (snd (handleSendMessage (\<lambda>_. True) 4 ''Bearer p'' ''2'' (Some (''n'', ''hi'', [])) ?db)) = sv_tokens wdb1"
    "sv_tasks (snd (handleSendMessage (\<lambda>_. True) 4 ''Bearer p'' ''2'' (Some (''n'', ''hi'', [])) ?db)) = ts"
    unfolding handleSendMessage_def x g sum.case option.case prod.case
    by (simp_all add: SendMessage_def has_workspace_def has_sandbox_def logInteraction_def LogInteraction_def
      wdb2_def wdb1_def wdb0_def tdb_def wagent_def Let_def)
qed

lemma wread:
  assumes "sv_tokens db = sv_tokens wdb1" and "sv_sandboxes db = [wagent]" and "sv_mail db = [m]"
    and "ms_to m = ''n''" and "ms_read m = None"
  shows "handleReadInbox (\<lambda>_. True) 5 ''Bearer p'' [] db =
     (Reply 200 [m\<lparr>ms_read := Some 5\<rparr>], db\<lparr>sv_mail := [m\<lparr>ms_read := Some 5\<rparr>]\<rparr>)"
  using assms(3-5) wtoken [OF assms(1,2)]
  by (simp add: handleReadInbox_def ReadInbox_def unread_def Let_def inbox_limit_def wagent_def)

lemma work_run:
  obtains s t m where "work_reach s" "sv_tasks (wk_db s) = [t]" "tk_target t = ''n''" "tk_status t = TaskAssigned"
    "wk_polled s = [(tk_id t, ''n'')]" "sv_mail (wk_db s) = [m]" "ms_to m = ''n''" "ms_read m = Some 5"
    "wk_read s = [(ms_id m, ''n'')]"
proof -
  define life where "life = (\<lambda>db. \<lparr>lf_db = db, lf_reg = Map.empty, lf_jobs = {#}\<rparr> :: life)"
  define st where "st = (\<lambda>db u p r. \<lparr>wk_life = life db, wk_used = u, wk_polled = p, wk_read = r\<rparr>)"
  let ?up = "\<lambda>_::nat. True"
  let ?db3 = "wdb2\<lparr>sv_tasks := [assign 3 wtask]\<rparr>"
  let ?msg = "Some (''n'', ''hi'', []) :: (string \<times> string \<times> string) option"
  define db4 where "db4 = snd (handleSendMessage ?up 4 ''Bearer p'' ''2'' ?msg ?db3)"
  obtain m where m: "sv_mail db4 = [m]" "ms_id m = ''msg_2''" "ms_to m = ''n''" "ms_read m = None"
    and d4: "sv_sandboxes db4 = [wagent]" "sv_tokens db4 = sv_tokens wdb1" "sv_tasks db4 = [assign 3 wtask]"
    using wsend [of "[assign 3 wtask]"] unfolding db4_def by blast
  let ?m = "m\<lparr>ms_read := Some 5\<rparr>"
  let ?db5 = "db4\<lparr>sv_mail := [?m]\<rparr>"
  have "work_step (st wdb0 {} [] []) (st wdb1 {} [] [])"
    using work_step.sandboxes [of "st wdb0 {} [] []" "life wdb1"]
      life_step.agent [of False ?up "''n''" "{#}" wdb0 Map.empty 1 "Some wintro" "''Bearer x''"
        "Some (''A'', [])" "Some ''t''" "Some ''p''" "[''a1'']"]
    by (simp add: st_def life_def wregister fresh_id_def)
  moreover have "work_step (st wdb1 {} [] []) (st wdb2 {''1''} [] [])"
    using work_step.user_task [of "''1''" "st wdb1 {} [] []" ?up 2 "''w''" "Some wreq" wdb2]
    by (simp add: st_def life_def put_db_def wcreate_task)
  moreover have "caller ?up ''Bearer p'' wdb2 = ''n''" "caller ?up ''Bearer p'' db4 = ''n''"
    by (simp_all add: caller_def wtoken d4 wdb2_def wdb1_def) (simp_all add: wagent_def)
  moreover have "work_step (st wdb2 {''1''} [] []) (st ?db3 {''1''} [(''task_1'', ''n'')] [])"
    using work_step.poll [of ?up 3 "''Bearer p''" "[]" "st wdb2 {''1''} [] []"] wpoll \<open>caller ?up ''Bearer p'' wdb2 = ''n''\<close>
    by (simp add: st_def life_def put_db_def handed_by_def poll_item_of_def assign_def wtask_def)
  moreover have "work_step (st ?db3 {''1''} [(''task_1'', ''n'')] []) (st db4 {''2'', ''1''} [(''task_1'', ''n'')] [])"
    using work_step.send [of "''2''" "st ?db3 {''1''} [(''task_1'', ''n'')] []" ?up 4 "''Bearer p''" ?msg db4]
    by (simp add: st_def life_def put_db_def db4_def)
  moreover have "work_step (st db4 {''2'', ''1''} [(''task_1'', ''n'')] [])
      (st ?db5 {''2'', ''1''} [(''task_1'', ''n'')] [(''msg_2'', ''n'')])"
    using work_step.read [of ?up 5 "''Bearer p''" "[]" "st db4 {''2'', ''1''} [(''task_1'', ''n'')] []"]
      wread [OF d4(2,1) m(1,3,4)] \<open>caller ?up ''Bearer p'' db4 = ''n''\<close> m(2)
    by (simp add: st_def life_def put_db_def handed_by_def)
  moreover have "work_start (st wdb0 {} [] [])"
    by (simp add: st_def life_def work_start_def life_start_def wdb0_def tdb_def)
  ultimately have "work_reach (st ?db5 {''2'', ''1''} [(''task_1'', ''n'')] [(''msg_2'', ''n'')])"
    unfolding work_reach_def by (meson rtranclp.rtrancl_into_rtrancl rtranclp.rtrancl_refl)
  then show thesis
    by (rule that [of _ "assign 3 wtask" ?m]) (use d4 m in \<open>simp_all add: st_def life_def assign_def wtask_def\<close>)
qed

theorem work_handed_once_witness:
  "\<exists>s t m. work_reach s \<and> t \<in> set (sv_tasks (wk_db s)) \<and> (tk_id t, tk_target t) \<in> set (wk_polled s) \<and>
     tk_status t \<noteq> TaskPending \<and> m \<in> set (sv_mail (wk_db s)) \<and> (ms_id m, ms_to m) \<in> set (wk_read s) \<and>
     ms_read m \<noteq> None \<and> distinct (map fst (wk_polled s)) \<and> distinct (map fst (wk_read s))"
proof -
  obtain s t m where s: "work_reach s" "sv_tasks (wk_db s) = [t]" "tk_target t = ''n''"
    "wk_polled s = [(tk_id t, ''n'')]" "sv_mail (wk_db s) = [m]" "ms_to m = ''n''" "wk_read s = [(ms_id m, ''n'')]"
    by (rule work_run)
  from work_handed_once [OF s(1)] have "tk_status t \<noteq> TaskPending" "ms_read m \<noteq> None"
    "distinct (map fst (wk_polled s))" "distinct (map fst (wk_read s))"
    unfolding s by simp_all
  with s show ?thesis by (intro exI [of _ s] exI [of _ t] exI [of _ m]) simp
qed

theorem work_stays_in_workspace_witness:
  "\<exists>s t r. work_reach s \<and> t \<in> set (sv_tasks (wk_db s)) \<and> r \<in> set (sv_sandboxes (wk_db s)) \<and>
     sb_id r = tk_target t \<and> sb_ws r = tk_ws t"
proof -
  obtain s t where s: "work_reach s" "sv_tasks (wk_db s) = [t]" by (rule work_run)
  from work_stays_in_workspace [OF s(1)] s show ?thesis by fastforce
qed

theorem poll_oldest_first_witness:
  "\<exists>ts. handlePollTasks (\<lambda>_. True) 3 ''Bearer p'' [] wdb2 =
      (Reply 200 (map poll_item_of (map (assign 3) ts)),
       wdb2\<lparr>sv_tasks := map (\<lambda>t. if t \<in> set ts then assign 3 t else t) (sv_tasks wdb2)\<rparr>) \<and>
     length ts = 1 \<and> wtask \<in> set ts"
proof -
  have x: "extractProxyTokenSandbox (\<lambda>_. True) ''Bearer p'' wdb2 = Inr wagent"
    by (rule wtoken) (simp_all add: wdb2_def wdb1_def)
  have t: "sv_tasks wdb2 = [wtask]" "tk_target wtask = ''n''" "tk_status wtask = TaskPending" "sb_id wagent = ''n''"
    by (simp_all add: wdb2_def wtask_def wagent_def)
  from poll_oldest_first [OF x, of "[]" 3] obtain ts where
    ts: "handlePollTasks (\<lambda>_. True) 3 ''Bearer p'' [] wdb2 =
      (Reply 200 (map poll_item_of (map (assign 3) ts)),
       wdb2\<lparr>sv_tasks := map (\<lambda>t. if t \<in> set ts then assign 3 t else t) (sv_tasks wdb2)\<rparr>)"
    "set ts \<subseteq> {t \<in> set (sv_tasks wdb2). tk_target t = sb_id wagent \<and> tk_status t = TaskPending}" "length ts = 1"
    by (auto simp: t)
  from ts(2,3) have "wtask \<in> set ts" unfolding t by (cases ts) auto
  with ts show ?thesis by blast
qed

end
