(* ===== verification/Bridge.thy ===== *)
theory Bridge
  imports Channels
begin

text \<open>
  The bridge between messengers and agents: content guardrails (\<open>internal/imbridge/guardrails.go\<close>), the
  WhatsApp sender (\<open>whatsapp_provider.go\<close>), the table of pollers and the poll loop (\<open>bridge.go\<close>), the
  forwarding of messages (\<open>bridge.go\<close>, \<open>openclaw_forward.go\<close>) and the restoring of pollers
  (\<open>internal/imbridgesvc/lifecycle.go\<close>).

  Requests to other systems are parameters; the calls a handler makes to a messenger or an agent are recorded
  as events, in order.
\<close>

section \<open>Providers and messages (\<open>provider.go\<close>)\<close>

record im_credentials =
  cd_channel :: string
  cd_ws :: string
  cd_bot :: string
  cd_token :: string
  cd_url :: string
  cd_scope :: string

record InboundMessage =
  ib_from :: string
  ib_sender :: string
  ib_text :: string
  ib_metadata :: "(string \<times> string) list"
  ib_media :: string
  ib_mediaType :: string
  ib_qtext :: string
  ib_qmedia :: string
  ib_qmediaType :: string
  ib_qsender :: string

text \<open>Which of the optional interfaces a provider implements, and its default URL (empty if it has none).\<close>

record im_provider =
  pv_name :: string
  pv_suffix :: string
  pv_typing :: bool
  pv_lifecycle :: bool
  pv_image :: bool
  pv_config :: bool
  pv_disconnect :: bool
  pv_crypto :: bool
  pv_default :: string

record BridgeBinding =
  bb_provider :: im_provider
  bb_creds :: im_credentials
  bb_channel :: string
  bb_cursor :: string
  bb_ws :: string
  bb_routing :: string

section \<open>Guardrails\<close>

record GuardrailDecision =
  gd_allowed :: bool
  gd_reason :: string

record ScopeGuardrails =
  sg_scope :: string
  sg_ws :: string
  sg_url :: string
  sg_tokens :: bool
  sg_model :: string
  sg_cache :: "string \<rightharpoonup> bool \<times> time"

datatype GuardrailsChecker = NoopGuardrails | Scoped ScopeGuardrails

definition TrimSlash :: "string \<Rightarrow> string" where "TrimSlash s = TrimRight s ''/''"

text \<open>\<open>model\<close> is the variable \<open>IM_GUARDRAILS_MODEL\<close>, \<open>hasTokens\<close> whether there is a source of tokens.\<close>

definition GuardrailsForChannel :: "string \<Rightarrow> bool \<Rightarrow> string \<Rightarrow> (string \<times> string) option \<Rightarrow> GuardrailsChecker" where
  "GuardrailsForChannel model hasTokens url ch =
     (case ch of
        None \<Rightarrow> NoopGuardrails
      | Some (w, scope) \<Rightarrow>
          if TrimSpace scope = [] \<or> TrimSpace url = [] then NoopGuardrails
          else Scoped \<lparr>sg_scope = TrimSpace scope, sg_ws = w, sg_url = TrimSlash (TrimSpace url),
                       sg_tokens = hasTokens, sg_model = (if model = [] then ''claude-sonnet-4-6'' else model),
                       sg_cache = Map.empty\<rparr>)"

definition CheckerForCredentials :: "string \<Rightarrow> bool \<Rightarrow> string \<Rightarrow> im_credentials option \<Rightarrow> GuardrailsChecker" where
  "CheckerForCredentials model hasTokens url creds =
     (case creds of
        None \<Rightarrow> NoopGuardrails
      | Some c \<Rightarrow> GuardrailsForChannel model hasTokens url (Some (cd_ws c, cd_scope c)))"

text \<open>\<open>ctx\<close> is the checker in the context, \<open>run\<close> the URL and tokens of the service.\<close>

definition EffectiveOutboundGuardrails ::
  "string \<Rightarrow> string \<times> bool \<Rightarrow> GuardrailsChecker option \<Rightarrow> string \<Rightarrow> bool \<Rightarrow> im_credentials option \<Rightarrow>
     GuardrailsChecker" where
  "EffectiveOutboundGuardrails model run ctx url hasTokens creds =
     (case ctx of
        Some (Scoped g) \<Rightarrow> Scoped g
      | _ \<Rightarrow> CheckerForCredentials model (hasTokens \<or> snd run) (if url = [] then fst run else url) creds)"

text \<open>Brazilian tax numbers: \<open>\b\d{3}\.?\d{3}\.?\d{3}-?\d{2}\b\<close>; the matcher returns what follows.\<close>

definition word_char :: "char \<Rightarrow> bool" where
  "word_char c \<longleftrightarrow> alnum c \<or> (65 \<le> byte c \<and> byte c \<le> 90) \<or> c = CHR ''_''"

fun take_digits :: "nat \<Rightarrow> string \<Rightarrow> string option" where
  "take_digits 0 s = Some s"
| "take_digits (Suc n) [] = None"
| "take_digits (Suc n) (c # s) = (if is_digit c then take_digits n s else None)"

definition drop_opt :: "char \<Rightarrow> string \<Rightarrow> string" where
  "drop_opt c s = (case s of [] \<Rightarrow> [] | x # xs \<Rightarrow> if x = c then xs else s)"

definition cpf_here :: "string \<Rightarrow> bool" where
  "cpf_here s =
     (case take_digits 3 s of None \<Rightarrow> False | Some s1 \<Rightarrow>
     (case take_digits 3 (drop_opt (CHR ''.'') s1) of None \<Rightarrow> False | Some s2 \<Rightarrow>
     (case take_digits 3 (drop_opt (CHR ''.'') s2) of None \<Rightarrow> False | Some s3 \<Rightarrow>
     (case take_digits 2 (drop_opt (CHR ''-'') s3) of None \<Rightarrow> False | Some s4 \<Rightarrow>
        s4 = [] \<or> \<not> word_char (hd s4)))))"

fun cpf_in :: "bool \<Rightarrow> string \<Rightarrow> bool" where
  "cpf_in inWord [] = False"
| "cpf_in inWord (c # s) = ((\<not> inWord \<and> cpf_here (c # s)) \<or> cpf_in (word_char c) s)"

definition brazilCPFRegex :: "string \<Rightarrow> bool" where
  "brazilCPFRegex s = cpf_in False s"

text \<open>
  The classification by a model: \<open>tok\<close> is what the source of tokens yields for the workspace, \<open>ask\<close> the
  status and the joined text of the reply (\<open>None\<close> when the request fails), \<open>inScope\<close> the decoding of a JSON
  object.  \<open>None\<close> is the error.
\<close>

record llm =
  lm_token :: "string \<Rightarrow> string option"
  lm_ask :: "string \<Rightarrow> string \<Rightarrow> string \<Rightarrow> string \<Rightarrow> string \<Rightarrow> (nat \<times> string option) option"
  lm_inScope :: "string \<Rightarrow> bool option"

definition json_object :: "string \<Rightarrow> string" where
  "json_object s =
     (case (filter (\<lambda>i. s ! i = CHR ''{'') [0..<length s], filter (\<lambda>i. s ! i = CHR ''}'') [0..<length s]) of
        (a # _, b # bs) \<Rightarrow> if last (b # bs) > a then take (last (b # bs) + 1 - a) (drop a s) else s
      | _ \<Rightarrow> s)"

definition parseInScopeJSON :: "llm \<Rightarrow> string \<Rightarrow> bool option" where
  "parseInScopeJSON l s = lm_inScope l (json_object (TrimSpace s))"

definition classifyScopeLLM :: "llm \<Rightarrow> string \<Rightarrow> string \<Rightarrow> string \<Rightarrow> string \<Rightarrow> string \<Rightarrow> bool option" where
  "classifyScopeLLM l url w scope msg model =
     (case lm_token l w of
        None \<Rightarrow> None
      | Some token \<Rightarrow>
          if token = [] then None
          else (case lm_ask l (TrimSlash url @ ''/v1/messages'') token scope msg model of
              None \<Rightarrow> None
            | Some (c, body) \<Rightarrow>
                if c \<ge> 400 then None
                else (case body of
                    None \<Rightarrow> None
                  | Some answer \<Rightarrow>
                      (case parseInScopeJSON l answer of None \<Rightarrow> Some True | Some v \<Rightarrow> Some v))))"

definition classifyCacheKey :: "(string \<Rightarrow> string) \<Rightarrow> string \<Rightarrow> string \<Rightarrow> string \<Rightarrow> string" where
  "classifyCacheKey sha w scope msg =
     w @ '':'' @ hex_of (take 8 (sha scope)) @ '':'' @ hex_of (take 4 (sha (lower (TrimSpace msg))))"

text \<open>The verdict, \<open>None\<close> on an error, and the checker with its cache.\<close>

definition classify ::
  "(string \<Rightarrow> string) \<Rightarrow> llm \<Rightarrow> time \<Rightarrow> ScopeGuardrails \<Rightarrow> string \<Rightarrow> bool option \<times> ScopeGuardrails" where
  "classify sha l now g msg =
     (if \<not> sg_tokens g \<or> sg_ws g = [] \<or> sg_url g = [] then (Some True, g)
      else (let key = classifyCacheKey sha (sg_ws g) (sg_scope g) msg;
                ask = (\<lambda>g. case classifyScopeLLM l (sg_url g) (sg_ws g) (sg_scope g) msg (sg_model g) of
                    None \<Rightarrow> (None, g)
                  | Some v \<Rightarrow> (Some v, g\<lparr>sg_cache := (sg_cache g)(key \<mapsto> (v, now + 60))\<rparr>)) in
        case sg_cache g key of
          Some (v, expiry) \<Rightarrow>
            if now < expiry then (Some v, g) else ask (g\<lparr>sg_cache := (sg_cache g)(key := None)\<rparr>)
        | None \<Rightarrow> ask g))"

definition verdict :: "bool option \<Rightarrow> GuardrailDecision" where
  "verdict v =
     (case v of
        None \<Rightarrow> \<lparr>gd_allowed = True, gd_reason = ''infra_allow''\<rparr>
      | Some True \<Rightarrow> \<lparr>gd_allowed = True, gd_reason = ''in_scope''\<rparr>
      | Some False \<Rightarrow> \<lparr>gd_allowed = False, gd_reason = ''out_of_scope''\<rparr>)"

definition CheckInbound ::
  "(string \<Rightarrow> string) \<Rightarrow> llm \<Rightarrow> time \<Rightarrow> GuardrailsChecker \<Rightarrow> string \<Rightarrow> GuardrailDecision" where
  "CheckInbound sha l now ck msg =
     (case ck of
        NoopGuardrails \<Rightarrow> \<lparr>gd_allowed = True, gd_reason = ''noop''\<rparr>
      | Scoped g \<Rightarrow>
          if TrimSpace msg = [] then \<lparr>gd_allowed = True, gd_reason = ''empty''\<rparr>
          else verdict (fst (classify sha l now g msg)))"

definition CheckOutbound ::
  "(string \<Rightarrow> string) \<Rightarrow> llm \<Rightarrow> time \<Rightarrow> GuardrailsChecker \<Rightarrow> string \<Rightarrow> GuardrailDecision" where
  "CheckOutbound sha l now ck msg =
     (case ck of
        NoopGuardrails \<Rightarrow> \<lparr>gd_allowed = True, gd_reason = ''noop''\<rparr>
      | Scoped g \<Rightarrow>
          if TrimSpace msg = [] then \<lparr>gd_allowed = True, gd_reason = ''empty''\<rparr>
          else if brazilCPFRegex msg then \<lparr>gd_allowed = False, gd_reason = ''pii''\<rparr>
          else verdict (fst (classify sha l now g msg)))"

text \<open>
  The WhatsApp sender: the recipient and URL of the request it makes, or the reason why it makes none.
  \<open>allowed\<close> is the outbound check.
\<close>

datatype wa_err = WaMissing string | WaBlocked string | WaFailed nat

definition TrimSuffix :: "string \<Rightarrow> string \<Rightarrow> string" where
  "TrimSuffix s suf = (if HasSuffix s suf then take (length s - length suf) s else s)"

definition wa_Send ::
  "(string \<Rightarrow> GuardrailDecision) \<Rightarrow> (string \<Rightarrow> string \<Rightarrow> string \<Rightarrow> string \<Rightarrow> nat option) \<Rightarrow>
     im_credentials option \<Rightarrow> string \<Rightarrow> string \<Rightarrow> wa_err option" where
  "wa_Send check post creds toUser msg =
     (case creds of
        None \<Rightarrow> Some (WaMissing ''bot'')
      | Some c \<Rightarrow>
     (if cd_bot c = [] then Some (WaMissing ''bot'')
      else if cd_token c = [] then Some (WaMissing ''token'')
      else if msg = [] then Some (WaMissing ''text'')
      else if \<not> gd_allowed (check msg) then Some (WaBlocked (gd_reason (check msg)))
      else (let rcpt = TrimPrefix (TrimSuffix toUser ''@wa'') ''+'';
                base = (if cd_url c = [] then ''https://graph.facebook.com/v18.0'' else cd_url c) in
        if rcpt = [] then Some (WaMissing ''recipient'')
        else (case post (TrimSlash base @ ''/'' @ cd_bot c @ ''/messages'') (cd_token c) rcpt msg of
            None \<Rightarrow> Some (WaFailed 0)
          | Some st \<Rightarrow> if st \<ge> 400 then Some (WaFailed st) else None))))"

section \<open>The table of pollers (\<open>bridge.go\<close>)\<close>

text \<open>
  A poller runs in a context of its own, here a number; \<open>bg_cancelled\<close> are the cancelled ones.  The hooks
  of providers and the typing indicators run in goroutines of their own; they are the events.
\<close>

record bridge =
  bg_pollers :: "string \<rightharpoonup> nat \<times> BridgeBinding"
  bg_next :: nat
  bg_cancelled :: "nat list"
  bg_mention :: "string \<rightharpoonup> bool"
  bg_routing :: "string \<rightharpoonup> string"
  bg_typing :: "(string \<times> nat) list"

datatype hook = OnPollerStart BridgeBinding | OnPollerStop BridgeBinding

definition invokeOnPollerStart :: "BridgeBinding \<Rightarrow> hook list" where
  "invokeOnPollerStart b = (if pv_lifecycle (bb_provider b) then [OnPollerStart b] else [])"

definition invokeOnPollerStop :: "BridgeBinding \<Rightarrow> hook list" where
  "invokeOnPollerStop b = (if pv_lifecycle (bb_provider b) then [OnPollerStop b] else [])"

definition NewBridge :: bridge where
  "NewBridge = \<lparr>bg_pollers = Map.empty, bg_next = 0, bg_cancelled = [], bg_mention = Map.empty,
     bg_routing = Map.empty, bg_typing = []\<rparr>"

definition GetProvider :: "im_provider list \<Rightarrow> string \<Rightarrow> im_provider option" where
  "GetProvider ps name = find (\<lambda>p. pv_name p = name) ps"

definition FindProviderByJID :: "im_provider list \<Rightarrow> string \<Rightarrow> im_provider option" where
  "FindProviderByJID ps jid = find (\<lambda>p. HasSuffix jid (pv_suffix p)) ps"

definition StartPoller :: "BridgeBinding \<Rightarrow> bridge \<Rightarrow> hook list \<times> bridge" where
  "StartPoller b g =
     (let key = bb_channel b; ctx = bg_next g;
          g1 = g\<lparr>bg_routing := (bg_routing g)(key \<mapsto> bb_routing b),
                 bg_pollers := (bg_pollers g)(key \<mapsto> (ctx, b)), bg_next := Suc ctx\<rparr> in
      case bg_pollers g key of
        Some (c, prev) \<Rightarrow>
          (invokeOnPollerStop prev @ invokeOnPollerStart b, g1\<lparr>bg_cancelled := c # bg_cancelled g1\<rparr>)
      | None \<Rightarrow> (invokeOnPollerStart b, g1))"

definition StopPoller :: "string \<Rightarrow> bridge \<Rightarrow> hook list \<times> bridge" where
  "StopPoller c g =
     (case bg_pollers g c of
        Some (ctx, b) \<Rightarrow>
          (invokeOnPollerStop b,
           g\<lparr>bg_pollers := (bg_pollers g)(c := None), bg_cancelled := ctx # bg_cancelled g\<rparr>)
      | None \<Rightarrow> ([], g))"

text \<open>\<open>cs\<close> is the order in which the map is walked.\<close>

fun StopAllPollers :: "string list \<Rightarrow> bridge \<Rightarrow> hook list \<times> bridge" where
  "StopAllPollers [] g = ([], g\<lparr>bg_cancelled := map snd (bg_typing g) @ bg_cancelled g, bg_typing := []\<rparr>)"
| "StopAllPollers (c # cs) g =
     (case StopPoller c g of (h, g1) \<Rightarrow> (case StopAllPollers cs g1 of (hs, g2) \<Rightarrow> (h @ hs, g2)))"

definition typingKey :: "string \<Rightarrow> string \<Rightarrow> string" where
  "typingKey c user = c @ '':'' @ user"

definition startTypingForUser :: "BridgeBinding \<Rightarrow> InboundMessage \<Rightarrow> bridge \<Rightarrow> bridge" where
  "startTypingForUser b m g =
     (if \<not> pv_typing (bb_provider b) then g
      else (let key = typingKey (bb_channel b) (ib_from m) in
        g\<lparr>bg_cancelled := map snd (filter (\<lambda>(k, _). k = key) (bg_typing g)) @ bg_cancelled g,
          bg_typing := (key, bg_next g) # filter (\<lambda>(k, _). k \<noteq> key) (bg_typing g),
          bg_next := Suc (bg_next g)\<rparr>))"

definition StopTyping :: "string \<Rightarrow> string \<Rightarrow> bridge \<Rightarrow> bridge" where
  "StopTyping c user g =
     (let key = typingKey c user;
          gone = (if list_ex (\<lambda>(k, _). k = key) (bg_typing g) then (\<lambda>k. k = key)
                  else (\<lambda>k. HasPrefix k (c @ '':''))) in
      g\<lparr>bg_cancelled := map snd (filter (\<lambda>(k, _). gone k) (bg_typing g)) @ bg_cancelled g,
        bg_typing := filter (\<lambda>(k, _). \<not> gone k) (bg_typing g)\<rparr>)"

definition SetChannelRequireMention :: "string \<Rightarrow> bool \<Rightarrow> bridge \<Rightarrow> bridge" where
  "SetChannelRequireMention c v g = g\<lparr>bg_mention := (bg_mention g)(c \<mapsto> v)\<rparr>"

definition getChannelRequireMention :: "string \<Rightarrow> bridge \<Rightarrow> bool" where
  "getChannelRequireMention c g = (bg_mention g c = Some True)"

definition SetChannelRoutingMode :: "string \<Rightarrow> string \<Rightarrow> bridge \<Rightarrow> bridge" where
  "SetChannelRoutingMode c mode g = g\<lparr>bg_routing := (bg_routing g)(c \<mapsto> mode)\<rparr>"

definition getChannelRoutingMode :: "string \<Rightarrow> bridge \<Rightarrow> string" where
  "getChannelRoutingMode c g = coalesce (bg_routing g c)"

section \<open>Forwarding\<close>

record codex_inbound =
  cx_channel :: string
  cx_ws :: string
  cx_user :: string
  cx_sender :: string
  cx_text :: string
  cx_qtext :: string
  cx_qsender :: string
  cx_media :: "(string \<times> string) option"
  cx_qmedia :: "(string \<times> string) option"

record openclaw_turn =
  ot_channel :: string
  ot_from :: string
  ot_text :: string
  ot_session :: string

datatype forward_event =
    ToCodex codex_inbound
  | ToOpenclaw openclaw_turn
  | SendText im_credentials string string

text \<open>
  The other side: \<open>fw_codex\<close> the status of the agent server's inbound route, \<open>fw_openclaw\<close> the status of its
  turn route and the decoded reply, \<open>fw_send\<close> whether a message is delivered.
\<close>

record forwarding =
  fw_codex :: "codex_inbound \<Rightarrow> nat option"
  fw_openclaw :: "openclaw_turn \<Rightarrow> (nat \<times> string option) option"
  fw_send :: "im_credentials \<Rightarrow> string \<Rightarrow> string \<Rightarrow> bool"

definition media_of :: "(string \<Rightarrow> string) \<Rightarrow> string \<Rightarrow> string \<Rightarrow> (string \<times> string) option" where
  "media_of enc bytes kind = (if bytes = [] then None else Some (enc bytes, kind))"

text \<open>The result of forwarding is whether the message was handed over; an error is \<open>Inl\<close>.\<close>

definition forwardToCodex ::
  "(string \<Rightarrow> string) \<Rightarrow> forwarding \<Rightarrow> BridgeBinding \<Rightarrow> InboundMessage \<Rightarrow> (unit + bool) \<times> forward_event list" where
  "forwardToCodex enc fw b m =
     (let p = \<lparr>cx_channel = bb_channel b, cx_ws = bb_ws b, cx_user = ib_from m, cx_sender = ib_sender m,
               cx_text = ib_text m, cx_qtext = ib_qtext m, cx_qsender = ib_qsender m,
               cx_media = media_of enc (ib_media m) (ib_mediaType m),
               cx_qmedia = media_of enc (ib_qmedia m) (ib_qmediaType m)\<rparr> in
      (if fw_codex fw p = Some 202 then Inr True else Inl (), [ToCodex p]))"

definition openclawSessionID :: "(string \<Rightarrow> string) \<Rightarrow> string \<Rightarrow> string \<Rightarrow> string" where
  "openclawSessionID sha c user = ''im-'' @ hex_of (take 16 (sha (c @ [CHR 0x00] @ user)))"

definition forwardToOpenclaw ::
  "(string \<Rightarrow> string) \<Rightarrow> forwarding \<Rightarrow> BridgeBinding \<Rightarrow> InboundMessage \<Rightarrow> (unit + bool) \<times> forward_event list" where
  "forwardToOpenclaw sha fw b m =
     (let p = \<lparr>ot_channel = bb_channel b, ot_from = ib_from m, ot_text = ib_text m,
               ot_session = openclawSessionID sha (bb_channel b) (ib_from m)\<rparr> in
      case fw_openclaw fw p of
        Some (st, Some answer) \<Rightarrow>
          if st \<noteq> 200 \<or> answer = [] then (Inl (), [ToOpenclaw p])
          else (if fw_send fw (bb_creds b) (ib_from m) answer then Inr True else Inl (),
                [ToOpenclaw p, SendText (bb_creds b) (ib_from m) answer])
      | _ \<Rightarrow> (Inl (), [ToOpenclaw p]))"

definition effectiveMode :: "BridgeBinding \<Rightarrow> bridge \<Rightarrow> string" where
  "effectiveMode b g =
     (let mode0 = getChannelRoutingMode (bb_channel b) g;
          mode = (if mode0 = [] then bb_routing b else mode0) in
      if mode = ''nanoclaw'' then ''codex'' else mode)"

text \<open>\<open>sha\<close> is SHA-256, \<open>enc\<close> the standard encoding in base 64.\<close>

definition forwardMessage ::
  "(string \<Rightarrow> string) \<Rightarrow> (string \<Rightarrow> string) \<Rightarrow> forwarding \<Rightarrow> bridge \<Rightarrow> BridgeBinding \<Rightarrow> InboundMessage \<Rightarrow>
     (unit + bool) \<times> forward_event list" where
  "forwardMessage sha enc fw g b m =
     (if effectiveMode b g = ''openclaw'' then forwardToOpenclaw sha fw b m
      else forwardToCodex enc fw b m)"

definition channel_creds :: "IMChannel \<Rightarrow> im_credentials" where
  "channel_creds c = \<lparr>cd_channel = ch_id c, cd_ws = ch_ws c, cd_bot = ch_bot c, cd_token = ch_token c,
     cd_url = ch_url c, cd_scope = ch_scope c\<rparr>"

definition DispatchInbound ::
  "(string \<Rightarrow> string) \<Rightarrow> (string \<Rightarrow> string) \<Rightarrow> forwarding \<Rightarrow> im_provider list \<Rightarrow> bool \<Rightarrow> im_db \<Rightarrow> bridge \<Rightarrow>
     string \<Rightarrow> InboundMessage \<Rightarrow> (unit + bool) \<times> forward_event list" where
  "DispatchInbound sha enc fw ps up d g c m =
     (case DispatchInboundChannel up d c of
        Inl _ \<Rightarrow> (Inl (), [])
      | Inr None \<Rightarrow> (Inl (), [])
      | Inr (Some ch) \<Rightarrow>
          (case GetProvider ps (ch_provider ch) of
             None \<Rightarrow> (Inl (), [])
           | Some p \<Rightarrow> forwardMessage sha enc fw g
               \<lparr>bb_provider = p, bb_creds = channel_creds ch, bb_channel = c, bb_cursor = [], bb_ws = ch_ws ch,
                bb_routing = ch_routing ch\<rparr> m))"

section \<open>The poll loop\<close>

datatype poll_result = PollError | PollBackoff int | PollResult "InboundMessage list" string

datatype pause_kind = NoPause | RetryDelay | BackoffDelay | ProviderDelay int

definition maxConsecutiveFailures :: nat where "maxConsecutiveFailures = 3"

record poll_state =
  po_db :: im_db
  po_bridge :: bridge
  po_cursor :: string
  po_failures :: nat
  po_events :: "forward_event list"

text \<open>
  What \<open>pollLoop\<close> does with the result of a poll is a list of actions; the process may die between any two of them.
  The cursor is advanced and saved first; then come, message by message, the entries of its metadata and the
  forwarding.
\<close>

datatype poll_action =
    SaveCursor string
  | SaveMeta nat nat string string string
  | ForwardMsg nat InboundMessage

definition message_actions :: "nat \<times> InboundMessage \<Rightarrow> poll_action list" where
  "message_actions x =
     map (\<lambda>(k, a, v). SaveMeta (fst x) k (ib_from (snd x)) a v) (List.enumerate 0 (ib_metadata (snd x))) @
     [ForwardMsg (fst x) (snd x)]"

definition poll_actions :: "string \<Rightarrow> InboundMessage list \<Rightarrow> string \<Rightarrow> poll_action list" where
  "poll_actions cursor ms new =
     (if new \<noteq> [] \<and> new \<noteq> cursor then [SaveCursor new] else []) @
     concat (map message_actions (List.enumerate 0 ms))"

text \<open>
  An action: \<open>upCursor\<close> says whether the database takes the cursor, \<open>up n k\<close> whether it takes the entry \<open>k\<close> of the
  message \<open>n\<close>, and \<open>fw n\<close> what the other side does with the message.
\<close>

definition run_action ::
  "(string \<Rightarrow> string) \<Rightarrow> (string \<Rightarrow> string) \<Rightarrow> (nat \<Rightarrow> forwarding) \<Rightarrow> bool \<Rightarrow> (nat \<Rightarrow> nat \<Rightarrow> bool) \<Rightarrow> BridgeBinding \<Rightarrow>
     poll_action \<Rightarrow> poll_state \<Rightarrow> poll_state" where
  "run_action sha enc fw upCursor up b a s =
     (case a of
        SaveCursor new \<Rightarrow>
          s\<lparr>po_cursor := new, po_db := snd (UpdateIMChannelCursor upCursor (po_db s) (bb_channel b) new)\<rparr>
      | SaveMeta n k user key v \<Rightarrow>
          s\<lparr>po_db := snd (UpsertChannelMeta (up n k) (po_db s) (bb_channel b) user key v)\<rparr>
      | ForwardMsg n m \<Rightarrow>
          (case forwardMessage sha enc (fw n) (po_bridge s) b m of
             (r, es) \<Rightarrow>
               s\<lparr>po_events := po_events s @ es,
                 po_bridge := (if r = Inr True then startTypingForUser b m (po_bridge s) else po_bridge s)\<rparr>))"

text \<open>One round of \<open>pollLoop\<close>: what it waits for afterwards, and the state.\<close>

definition poll_round ::
  "(string \<Rightarrow> string) \<Rightarrow> (string \<Rightarrow> string) \<Rightarrow> (nat \<Rightarrow> forwarding) \<Rightarrow> bool \<Rightarrow> (nat \<Rightarrow> nat \<Rightarrow> bool) \<Rightarrow> BridgeBinding \<Rightarrow>
     poll_result \<Rightarrow> poll_state \<Rightarrow> pause_kind \<times> poll_state" where
  "poll_round sha enc fw upCursor up b res s =
     (case res of
        PollError \<Rightarrow>
          if Suc (po_failures s) \<ge> maxConsecutiveFailures then (BackoffDelay, s\<lparr>po_failures := 0\<rparr>)
          else (RetryDelay, s\<lparr>po_failures := Suc (po_failures s)\<rparr>)
      | PollBackoff d \<Rightarrow> (ProviderDelay d, s)
      | PollResult ms new \<Rightarrow>
          (NoPause, fold (run_action sha enc fw upCursor up b) (poll_actions (po_cursor s) ms new)
             (s\<lparr>po_failures := 0\<rparr>)))"

section \<open>Restoring pollers (\<open>lifecycle.go\<close>)\<close>

text \<open>The bindings of restored pollers carry neither the workspace nor the scope in their credentials.\<close>

definition restored_binding :: "im_provider \<Rightarrow> IMChannel \<Rightarrow> BridgeBinding" where
  "restored_binding p ch =
     \<lparr>bb_provider = p, bb_creds = \<lparr>cd_channel = ch_id ch, cd_ws = [], cd_bot = ch_bot ch, cd_token = ch_token ch,
        cd_url = ch_url ch, cd_scope = []\<rparr>,
      bb_channel = ch_id ch, bb_cursor = ch_cursor ch, bb_ws = ch_ws ch, bb_routing = ch_routing ch\<rparr>"

fun restore_channels :: "im_provider \<Rightarrow> IMChannel list \<Rightarrow> bridge \<Rightarrow> hook list \<times> bridge" where
  "restore_channels p [] g = ([], g)"
| "restore_channels p (ch # chs) g =
     (case StartPoller (restored_binding p ch) (SetChannelRequireMention (ch_id ch) (ch_mention ch) g) of
        (h, g1) \<Rightarrow> (case restore_channels p chs g1 of (hs, g2) \<Rightarrow> (h @ hs, g2)))"

fun RestorePollers :: "(nat \<Rightarrow> bool) \<Rightarrow> im_db \<Rightarrow> nat \<Rightarrow> im_provider list \<Rightarrow> bridge \<Rightarrow> hook list \<times> bridge" where
  "RestorePollers up d n [] g = ([], g)"
| "RestorePollers up d n (p # ps) g =
     (case ListAllActiveChannels (up n) d (pv_name p) of
        Inl _ \<Rightarrow> RestorePollers up d (Suc n) ps g
      | Inr chs \<Rightarrow>
          (case restore_channels p chs g of (h, g1) \<Rightarrow>
             (case RestorePollers up d (Suc n) ps g1 of (hs, g2) \<Rightarrow> (h @ hs, g2))))"

definition restorePollerForSandbox :: "im_provider list \<Rightarrow> bool \<Rightarrow> im_db \<Rightarrow> string \<Rightarrow> bridge \<Rightarrow> hook list \<times> bridge" where
  "restorePollerForSandbox ps up d s g =
     (case GetIMChannelForSandbox up d s of
        Inr (Some ch) \<Rightarrow>
          (case GetProvider ps (ch_provider ch) of
             None \<Rightarrow> ([], g)
           | Some p \<Rightarrow> StartPoller (restored_binding p ch) g)
      | _ \<Rightarrow> ([], g))"

end
