(* ===== verification/Im_Handlers.thy ===== *)
theory Im_Handlers
  imports Bridge
begin

text \<open>
  The handlers of the bridge service (\<open>internal/imbridgesvc/handlers.go\<close>, \<open>lifecycle.go\<close>, \<open>guardrails_runtime.go\<close>):
  sending to users, logins of messenger accounts, the channels of a workspace and their sandboxes, and the
  webhooks of WhatsApp.  The sessions of a login by QR code are those of \<open>internal/weixin/ilink.go\<close>.
\<close>

section \<open>State and environment\<close>

record qr_session =
  qs_code :: string
  qs_image :: string
  qs_base :: string
  qs_started :: time

record imw =
  iw_db :: im_db
  iw_bridge :: bridge
  iw_qr :: "string \<rightharpoonup> qr_session"

datatype im_effect =
    Hook hook
  | Forwarded forward_event
  | SentText string im_credentials string string "(string \<rightharpoonup> string)"
  | SentImage string im_credentials string string string "(string \<rightharpoonup> string)"
  | Disconnected string string string
  | ConfiguredE2EE im_credentials string

text \<open>
  The environment: hashes and encodings, the model behind the guardrails with its URL and name, the
  registered providers, what messengers answer, and the variables of the process.  \<open>lm_token\<close> of the model is
  the result of \<open>GetOrCreateWorkspaceToken\<close>, whose table is not one of those here.
\<close>

record im_env =
  ev_sha :: "string \<Rightarrow> string"
  ev_hmac :: "string \<Rightarrow> string \<Rightarrow> string"
  ev_enc :: "string \<Rightarrow> string"
  ev_dec :: "string \<Rightarrow> string + string"
  ev_llm :: llm
  ev_llmURL :: string
  ev_model :: string
  ev_providers :: "im_provider list"
  ev_forward :: "string \<Rightarrow> forwarding"
  ev_send :: "string \<Rightarrow> im_credentials \<Rightarrow> string \<Rightarrow> string \<Rightarrow> (string \<rightharpoonup> string) \<Rightarrow> bool"
  ev_image :: "string \<Rightarrow> im_credentials \<Rightarrow> string \<Rightarrow> string \<Rightarrow> string \<Rightarrow> (string \<rightharpoonup> string) \<Rightarrow> bool"
  ev_validate :: "string \<Rightarrow> string \<Rightarrow> string \<Rightarrow> string + string"
  ev_secret :: string
  ev_appSecret :: string
  ev_hmacRequired :: string
  ev_verifyToken :: string
  ev_domain :: string

definition checkerForChannel :: "im_env \<Rightarrow> IMChannel \<Rightarrow> GuardrailsChecker" where
  "checkerForChannel ev ch = GuardrailsForChannel (ev_model ev) True (ev_llmURL ev) (Some (ch_ws ch, ch_scope ch))"

definition internal_ok :: "im_env \<Rightarrow> string \<Rightarrow> bool" where
  "internal_ok ev header \<longleftrightarrow> ev_secret ev = [] \<or> header = ev_secret ev"

text \<open>The sandbox of a path and the membership of the user: statements 0 and 1.\<close>

definition sandboxGate :: "(nat \<Rightarrow> bool) \<Rightarrow> im_db \<Rightarrow> string \<Rightarrow> string \<Rightarrow> (nat \<times> string) + Sandbox" where
  "sandboxGate up d user i =
     (case sbx_Get (up 0) (im_srv d) i of
        None \<Rightarrow> Inl (404, ''sandbox not found'')
      | Some x \<Rightarrow>
          (case requireWorkspaceMember (up 1) (im_srv d) user (x_ws x) of
             Inl e \<Rightarrow> Inl e
           | Inr _ \<Rightarrow> Inr x))"

section \<open>Sending to users\<close>

datatype send_status = Sent | Blocked string

definition OutboundBlockMessage :: string where
  "OutboundBlockMessage =
     ''I can't send that reply because it may contain sensitive information or content outside my scope.''"

definition meta_or_none :: "'e + (string \<rightharpoonup> string) \<Rightarrow> (string \<rightharpoonup> string)" where
  "meta_or_none r = (case r of Inr m \<Rightarrow> m | Inl _ \<Rightarrow> Map.empty)"

text \<open>The request is channel, recipient, text.  Statements: 0 the channel, 1 the metadata.\<close>

definition handleImbridgeDirectSend ::
  "im_env \<Rightarrow> (nat \<Rightarrow> bool) \<Rightarrow> time \<Rightarrow> string \<Rightarrow> (string \<times> string \<times> string) option \<Rightarrow> imw \<Rightarrow>
     send_status reply \<times> im_effect list \<times> imw" where
  "handleImbridgeDirectSend ev up now header body s =
     (if \<not> internal_ok ev header then (ErrorReply 401 ''unauthorized'', [], s)
      else (case body of
          None \<Rightarrow> (ErrorReply 400 ''invalid request body'', [], s)
        | Some (c, user, msg) \<Rightarrow>
     (if c = [] \<or> user = [] \<or> msg = []
      then (ErrorReply 400 ''channel_id, to_user_id, and text are required'', [], s)
      else (case GetIMChannel (up 0) (iw_db s) c of
          Inl _ \<Rightarrow> (ErrorReply 404 ''channel not found'', [], s)
        | Inr None \<Rightarrow> (ErrorReply 404 ''channel not found'', [], s)
        | Inr (Some ch) \<Rightarrow>
     (case GetProvider (ev_providers ev) (ch_provider ch) of
        None \<Rightarrow> (ErrorReply 400 (''unknown IM provider: '' @ ch_provider ch), [], s)
      | Some p \<Rightarrow>
          (let meta = meta_or_none (GetAllChannelMeta (up 1) (iw_db s) (ch_id ch) user);
               s1 = s\<lparr>iw_bridge := StopTyping (ch_id ch) user (iw_bridge s)\<rparr>;
               dec = CheckOutbound (ev_sha ev) (ev_llm ev) now (checkerForChannel ev ch) msg in
           if \<not> gd_allowed dec then (Reply 200 (Blocked OutboundBlockMessage), [], s1)
           else (if ev_send ev (pv_name p) (channel_creds ch) user msg meta then Reply 200 Sent
                 else ErrorReply 502 ''failed to send message'',
                 [SentText (pv_name p) (channel_creds ch) user msg meta], s1)))))))"

definition maxDirectSendImageBytes :: nat where "maxDirectSendImageBytes = 20 * 2 ^ 20"

text \<open>
  The request is channel, recipient, encoded image, caption; a body above the limit of the reader does not
  decode.  The decoder of base 64 (\<open>ev_dec\<close>) yields the image or the text of its error.
\<close>

definition handleImbridgeDirectSendImage ::
  "im_env \<Rightarrow> (nat \<Rightarrow> bool) \<Rightarrow> time \<Rightarrow> string \<Rightarrow> (string \<times> string \<times> string \<times> string) option \<Rightarrow> imw \<Rightarrow>
     send_status reply \<times> im_effect list \<times> imw" where
  "handleImbridgeDirectSendImage ev up now header body s =
     (if \<not> internal_ok ev header then (ErrorReply 401 ''unauthorized'', [], s)
      else (case body of
          None \<Rightarrow> (ErrorReply 400 ''invalid or oversized request body'', [], s)
        | Some (c, user, img, caption) \<Rightarrow>
     (if c = [] \<or> user = [] \<or> img = []
      then (ErrorReply 400 ''channel_id, to_user_id, and image_base64 are required'', [], s)
      else (case ev_dec ev img of
          Inl e \<Rightarrow> (ErrorReply 400 (''invalid image_base64: '' @ e), [], s)
        | Inr bytes \<Rightarrow>
     (if length bytes > maxDirectSendImageBytes then (ErrorReply 413 ''image exceeds 20 MiB limit'', [], s)
      else (case GetIMChannel (up 0) (iw_db s) c of
          Inl _ \<Rightarrow> (ErrorReply 404 ''channel not found'', [], s)
        | Inr None \<Rightarrow> (ErrorReply 404 ''channel not found'', [], s)
        | Inr (Some ch) \<Rightarrow>
     (case GetProvider (ev_providers ev) (ch_provider ch) of
        None \<Rightarrow> (ErrorReply 400 (''unknown IM provider: '' @ ch_provider ch), [], s)
      | Some p \<Rightarrow>
     (if \<not> pv_image p then (ErrorReply 501 (''image sending not supported for provider: '' @ pv_name p), [], s)
      else
          (let s1 = s\<lparr>iw_bridge := StopTyping (ch_id ch) user (iw_bridge s)\<rparr>;
               dec = CheckOutbound (ev_sha ev) (ev_llm ev) now (checkerForChannel ev ch)
                       (if caption = [] then ''[image]'' else caption);
               meta = meta_or_none (GetAllChannelMeta (up 1) (iw_db s) (ch_id ch) user) in
           if \<not> gd_allowed dec then (Reply 200 (Blocked OutboundBlockMessage), [], s1)
           else (if ev_image ev (pv_name p) (channel_creds ch) user bytes caption meta then Reply 200 Sent
                 else ErrorReply 502 ''failed to send image'',
                 [SentImage (pv_name p) (channel_creds ch) user bytes caption meta], s1))))))))))"

section \<open>Logins by QR code\<close>

definition sessionTTL :: int where "sessionTTL = 600"

definition purgeExpired :: "time \<Rightarrow> (string \<rightharpoonup> qr_session) \<Rightarrow> (string \<rightharpoonup> qr_session)" where
  "purgeExpired now m = map_delete_if (\<lambda>q. now - qs_started q > sessionTTL) m"

definition SetSession :: "time \<Rightarrow> string \<Rightarrow> qr_session \<Rightarrow> (string \<rightharpoonup> qr_session) \<Rightarrow> (string \<rightharpoonup> qr_session)" where
  "SetSession now k q m = (purgeExpired now m)(k \<mapsto> q)"

definition GetSession ::
  "time \<Rightarrow> string \<Rightarrow> (string \<rightharpoonup> qr_session) \<Rightarrow> qr_session option \<times> (string \<rightharpoonup> qr_session)" where
  "GetSession now k m = (let m1 = purgeExpired now m in (m1 k, m1))"

definition TakeSession :: "string \<Rightarrow> (string \<rightharpoonup> qr_session) \<Rightarrow> qr_session option \<times> (string \<rightharpoonup> qr_session)" where
  "TakeSession k m = (m k, m(k := None))"

definition ClearSession :: "string \<Rightarrow> (string \<rightharpoonup> qr_session) \<Rightarrow> (string \<rightharpoonup> qr_session)" where
  "ClearSession k m = m(k := None)"

record qr_result =
  qr_status :: string
  qr_token :: string
  qr_bot :: string
  qr_base :: string
  qr_user :: string
  qr_redirect :: string

datatype qr_reply =
    QRStarted string
  | QRConnected string string
  | QRWaiting string
  | QRRenewed string
  | QRAlready

definition normalizeAccountID :: "string \<Rightarrow> string" where
  "normalizeAccountID raw = map (\<lambda>c. if alnum c \<or> (65 \<le> byte c \<and> byte c \<le> 90) \<or> c = CHR ''-'' \<or> c = CHR ''_''
     then c else CHR ''-'') raw"

text \<open>\<open>start\<close> is the new login of the messenger, \<open>None\<close> when the request fails.\<close>

definition qrStart :: "time \<Rightarrow> qr_session option \<Rightarrow> string \<Rightarrow> imw \<Rightarrow> qr_reply reply \<times> imw" where
  "qrStart now start k s =
     (case start of
        None \<Rightarrow> (ErrorReply 502 ''failed to start weixin login'', s)
      | Some q \<Rightarrow> (Reply 200 (QRStarted (qs_image q)), s\<lparr>iw_qr := SetSession now k q (iw_qr s)\<rparr>))"

text \<open>
  What a poll of the login leads to, but for a confirmed one: \<open>again\<close> is the renewed login.
\<close>

definition qrUnconfirmed ::
  "time \<Rightarrow> qr_session option \<Rightarrow> string \<Rightarrow> qr_session \<Rightarrow> qr_result \<Rightarrow> imw \<Rightarrow> qr_reply reply \<times> imw" where
  "qrUnconfirmed now again k q r s =
     (if qr_status r = ''expired'' then
        (case again of
           None \<Rightarrow> (ErrorReply 502 ''QR code expired and refresh failed'', s\<lparr>iw_qr := ClearSession k (iw_qr s)\<rparr>)
         | Some q1 \<Rightarrow> (Reply 200 (QRRenewed (qs_image q1)), s\<lparr>iw_qr := SetSession now k q1 (iw_qr s)\<rparr>))
      else if qr_status r = ''scaned_but_redirect'' then
        (Reply 200 (QRWaiting ''scaned''),
         if qr_redirect r = [] then s
         else s\<lparr>iw_qr := SetSession now k (q\<lparr>qs_base := ''https://'' @ qr_redirect r\<rparr>) (iw_qr s)\<rparr>)
      else if qr_status r = ''binded_redirect'' then
        (Reply 200 QRAlready, s\<lparr>iw_qr := snd (TakeSession k (iw_qr s))\<rparr>)
      else if qr_status r = ''verify_code_blocked'' then
        (Reply 200 (QRWaiting ''verify_code_blocked''), s\<lparr>iw_qr := ClearSession k (iw_qr s)\<rparr>)
      else (Reply 200 (QRWaiting (qr_status r)), s))"

text \<open>The older logins of a sandbox.\<close>

definition openclawGate :: "(nat \<Rightarrow> bool) \<Rightarrow> im_db \<Rightarrow> string \<Rightarrow> string \<Rightarrow> (nat \<times> string) + Sandbox" where
  "openclawGate up d user i =
     (case sandboxGate up d user i of
        Inl e \<Rightarrow> Inl e
      | Inr x \<Rightarrow>
          if x_type x \<noteq> ''openclaw'' then Inl (400, ''weixin login is only available for openclaw sandboxes'')
          else if x_status x \<noteq> StatusRunning then Inl (409, ''sandbox is not running'')
          else Inr x)"

definition handleIMWeixinQRStart ::
  "(nat \<Rightarrow> bool) \<Rightarrow> time \<Rightarrow> qr_session option \<Rightarrow> string \<Rightarrow> string \<Rightarrow> imw \<Rightarrow> qr_reply reply \<times> imw" where
  "handleIMWeixinQRStart up now start user i s =
     (case openclawGate up (iw_db s) user i of
        Inl (c, msg) \<Rightarrow> (ErrorReply c msg, s)
      | Inr _ \<Rightarrow> qrStart now start i s)"

text \<open>\<open>n\<close> is the serial number of a new row; \<open>base\<close> the default URL.  Statements 2 to 4; two failures are only logged.\<close>

definition saveWeixinCredentials ::
  "(nat \<Rightarrow> bool) \<Rightarrow> time \<Rightarrow> nat \<Rightarrow> string \<Rightarrow> string \<Rightarrow> qr_result \<Rightarrow> im_db \<Rightarrow> bool \<times> im_db" where
  "saveWeixinCredentials up now n base i r d =
     (let acc = normalizeAccountID (qr_bot r) in
      if acc = [] then (False, d)
      else if sbx_Get (up 2) (im_srv d) i = None then (False, d)
      else (let d1 = snd (CreateIMBinding (up 3) now n d i ''weixin'' acc (qr_user r)) in
        (True, snd (SaveIMCredentials (up 4) d1 i ''weixin'' acc (qr_token r)
                 (if qr_base r = [] then base else qr_base r)))))"

text \<open>
  \<open>poll\<close> is the status of the login, asked at the host of the session, \<open>others\<close> what other requests do to the
  sessions in the meantime.
\<close>

definition handleIMWeixinQRWait ::
  "(nat \<Rightarrow> bool) \<Rightarrow> time \<Rightarrow> nat \<Rightarrow> string \<Rightarrow> (qr_session \<Rightarrow> qr_result option) \<Rightarrow>
     ((string \<rightharpoonup> qr_session) \<Rightarrow> (string \<rightharpoonup> qr_session)) \<Rightarrow> qr_session option \<Rightarrow> string \<Rightarrow> string \<Rightarrow> imw \<Rightarrow>
     qr_reply reply \<times> imw" where
  "handleIMWeixinQRWait up now n base poll others again user i s =
     (case openclawGate up (iw_db s) user i of
        Inl (c, msg) \<Rightarrow> (ErrorReply c msg, s)
      | Inr _ \<Rightarrow>
     (case GetSession now i (iw_qr s) of
        (None, m) \<Rightarrow> (ErrorReply 400 ''no active weixin login session'', s\<lparr>iw_qr := m\<rparr>)
      | (Some q, m0) \<Rightarrow>
     (let m = others m0 in
      case poll q of
        None \<Rightarrow> (ErrorReply 502 ''poll failed'', s\<lparr>iw_qr := m\<rparr>)
      | Some r \<Rightarrow>
          if qr_status r \<noteq> ''confirmed'' then qrUnconfirmed now again i q r (s\<lparr>iw_qr := m\<rparr>)
          else (case TakeSession i m of
              (None, m1) \<Rightarrow> (ErrorReply 409 ''login already processed'', s\<lparr>iw_qr := m1\<rparr>)
            | (Some _, m1) \<Rightarrow>
                (case saveWeixinCredentials up now n base i r (iw_db s) of
                   (False, d) \<Rightarrow>
                     (ErrorReply 500 ''login succeeded but failed to save credentials'', s\<lparr>iw_qr := m1, iw_db := d\<rparr>)
                 | (True, d) \<Rightarrow>
                     (Reply 200 (QRConnected (normalizeAccountID (qr_bot r)) (qr_user r)),
                      s\<lparr>iw_qr := m1, iw_db := d\<rparr>))))))"

section \<open>Channels of a workspace\<close>

text \<open>
  What the configuration handlers share: the channel and its credentials, statements 2 and 3.  \<open>i\<close> is the
  generated identifier.
\<close>

definition saveChannel ::
  "(nat \<Rightarrow> bool) \<Rightarrow> time \<Rightarrow> string \<Rightarrow> string \<Rightarrow> string \<Rightarrow> string \<Rightarrow> string \<Rightarrow> string \<Rightarrow> string \<Rightarrow> string \<Rightarrow> im_db \<Rightarrow>
     ((nat \<times> string) + string) \<times> im_db" where
  "saveChannel up now i failed w provider bt user token url d =
     (case CreateIMChannel (up 2) now i d w provider bt user of
        (Inl _, d1) \<Rightarrow> (Inl (500, failed), d1)
      | (Inr c, d1) \<Rightarrow>
          (case SaveIMChannelCredentials (up 3) d1 c token url of
             (Some _, d2) \<Rightarrow> (Inl (500, ''failed to save credentials''), d2)
           | (None, d2) \<Rightarrow> (Inr c, d2)))"

definition new_binding :: "im_provider \<Rightarrow> string \<Rightarrow> string \<Rightarrow> string \<Rightarrow> string \<Rightarrow> string \<Rightarrow> BridgeBinding" where
  "new_binding p w c bt token url =
     \<lparr>bb_provider = p, bb_creds = \<lparr>cd_channel = c, cd_ws = [], cd_bot = bt, cd_token = token, cd_url = url,
        cd_scope = []\<rparr>, bb_channel = c, bb_cursor = [], bb_ws = w, bb_routing = []\<rparr>"

definition startBinding :: "BridgeBinding \<Rightarrow> imw \<Rightarrow> im_effect list \<times> imw" where
  "startBinding b s =
     (case StartPoller b (iw_bridge s) of (hs, g) \<Rightarrow> (map Hook hs, s\<lparr>iw_bridge := g\<rparr>))"

text \<open>The provider and the name of the account behind the credentials.\<close>

definition validated ::
  "im_env \<Rightarrow> string \<Rightarrow> string \<Rightarrow> string \<Rightarrow> string \<Rightarrow> string \<Rightarrow> (nat \<times> string) + (im_provider \<times> string)" where
  "validated ev name unsupported invalid url token =
     (case GetProvider (ev_providers ev) name of
        None \<Rightarrow> Inl (500, unsupported)
      | Some p \<Rightarrow>
          if \<not> pv_config p then Inl (500, unsupported)
          else (case ev_validate ev name url token of
              Inl e \<Rightarrow> Inl (400, invalid @ e)
            | Inr bt \<Rightarrow> Inr (p, bt)))"

text \<open>
  The older configuration of a sandbox: its channel is created and bound to it (statements 4 to 7).
\<close>

definition bindNew ::
  "(nat \<Rightarrow> bool) \<Rightarrow> time \<Rightarrow> string \<Rightarrow> string \<Rightarrow> string \<Rightarrow> string \<Rightarrow> string \<Rightarrow> string \<Rightarrow> string \<Rightarrow> imw \<Rightarrow>
     ((nat \<times> string) + string) \<times> imw" where
  "bindNew up now i sandbox w provider bt token url s =
     (case saveChannel up now i ''failed to save channel'' w provider bt [] token url (iw_db s) of
        (Inl e, d) \<Rightarrow> (Inl e, s\<lparr>iw_db := d\<rparr>)
      | (Inr c, d) \<Rightarrow>
          (case BindSandboxToChannel (\<lambda>k. up (4 + k)) now d sandbox c of
             (Some _, d1) \<Rightarrow> (Inl (500, ''failed to bind sandbox''), s\<lparr>iw_db := d1\<rparr>)
           | (None, d1) \<Rightarrow> (Inr c, s\<lparr>iw_db := d1\<rparr>)))"

definition telegramBindAllowedType :: "string \<Rightarrow> bool" where
  "telegramBindAllowedType t \<longleftrightarrow> t \<in> {''openclaw'', ''nanoclaw''}"

definition handleIMTelegramConfigure ::
  "im_env \<Rightarrow> (nat \<Rightarrow> bool) \<Rightarrow> time \<Rightarrow> string \<Rightarrow> string \<Rightarrow> string \<Rightarrow> string option \<Rightarrow> imw \<Rightarrow>
     string reply \<times> im_effect list \<times> imw" where
  "handleIMTelegramConfigure ev up now i user sandbox body s =
     (case sandboxGate up (iw_db s) user sandbox of
        Inl (c, msg) \<Rightarrow> (ErrorReply c msg, [], s)
      | Inr x \<Rightarrow>
     (if \<not> telegramBindAllowedType (x_type x)
      then (ErrorReply 400 ''telegram binding requires an openclaw or nanoclaw sandbox'', [], s)
      else if x_status x \<noteq> StatusRunning then (ErrorReply 409 ''sandbox is not running'', [], s)
      else (case body of
          None \<Rightarrow> (ErrorReply 400 ''invalid request body'', [], s)
        | Some token \<Rightarrow>
     (if token = [] then (ErrorReply 400 ''bot_token is required'', [], s)
      else (case validated ev ''telegram'' ''telegram provider does not support configuration''
              ''invalid bot token: '' [] token of
          Inl (c, msg) \<Rightarrow> (ErrorReply c msg, [], s)
        | Inr (p, bt) \<Rightarrow>
     (case bindNew up now i sandbox (x_ws x) ''telegram'' bt token (pv_default p) s of
        (Inl (c, msg), s1) \<Rightarrow> (ErrorReply c msg, [], s1)
      | (Inr c, s1) \<Rightarrow>
          (case startBinding (new_binding p (x_ws x) c bt token (pv_default p)) s1 of
             (es, s2) \<Rightarrow> (Reply 200 bt, es, s2))))))))"

text \<open>The channel of a sandbox, if it is of the provider; statement 2.\<close>

definition boundTo :: "(nat \<Rightarrow> bool) \<Rightarrow> string \<Rightarrow> string \<Rightarrow> im_db \<Rightarrow> IMChannel option" where
  "boundTo up provider sandbox d =
     (case GetIMChannelForSandbox (up 2) d sandbox of
        Inr (Some ch) \<Rightarrow> if ch_provider ch = provider then Some ch else None
      | _ \<Rightarrow> None)"

text \<open>Statements 3 to 5 the binding, 6 the channel; their failures are ignored.\<close>

definition disconnectChannel ::
  "(nat \<Rightarrow> bool) \<Rightarrow> im_effect list \<Rightarrow> string \<Rightarrow> IMChannel \<Rightarrow> imw \<Rightarrow> unit reply \<times> im_effect list \<times> imw" where
  "disconnectChannel up es sandbox ch s =
     (case StopPoller (ch_id ch) (iw_bridge s) of
        (hs, g) \<Rightarrow>
          (let d1 = snd (UnbindSandboxFromChannel (\<lambda>k. up (3 + k)) (iw_db s) sandbox);
               d2 = snd (DeleteIMChannel (up 6) d1 (ch_id ch)) in
           (Reply 200 (), map Hook hs @ es, s\<lparr>iw_bridge := g, iw_db := d2\<rparr>)))"

definition handleIMTelegramDisconnect ::
  "(nat \<Rightarrow> bool) \<Rightarrow> string \<Rightarrow> string \<Rightarrow> imw \<Rightarrow> unit reply \<times> im_effect list \<times> imw" where
  "handleIMTelegramDisconnect up user sandbox s =
     (case sandboxGate up (iw_db s) user sandbox of
        Inl (c, msg) \<Rightarrow> (ErrorReply c msg, [], s)
      | Inr x \<Rightarrow>
          (case boundTo up ''telegram'' sandbox (iw_db s) of
             None \<Rightarrow> (ErrorReply 404 ''no telegram binding found for this sandbox'', [], s)
           | Some ch \<Rightarrow> disconnectChannel up [] sandbox ch s))"

definition e2ee :: "im_provider \<Rightarrow> string \<Rightarrow> string \<Rightarrow> string \<Rightarrow> string \<Rightarrow> string \<Rightarrow> im_effect list" where
  "e2ee p c bt token url key =
     (if pv_crypto p \<and> key \<noteq> []
      then [ConfiguredE2EE \<lparr>cd_channel = c, cd_ws = [], cd_bot = bt, cd_token = token, cd_url = url, cd_scope = []\<rparr> key]
      else [])"

text \<open>The request is the server, the token and the recovery key.\<close>

definition handleIMMatrixConfigure ::
  "im_env \<Rightarrow> (nat \<Rightarrow> bool) \<Rightarrow> time \<Rightarrow> string \<Rightarrow> string \<Rightarrow> string \<Rightarrow> (string \<times> string \<times> string) option \<Rightarrow> imw \<Rightarrow>
     string reply \<times> im_effect list \<times> imw" where
  "handleIMMatrixConfigure ev up now i user sandbox body s =
     (case sandboxGate up (iw_db s) user sandbox of
        Inl (c, msg) \<Rightarrow> (ErrorReply c msg, [], s)
      | Inr x \<Rightarrow>
     (if x_type x \<noteq> ''nanoclaw''
      then (ErrorReply 400 ''matrix binding is only available for nanoclaw sandboxes'', [], s)
      else if x_status x \<noteq> StatusRunning then (ErrorReply 409 ''sandbox is not running'', [], s)
      else (case body of
          None \<Rightarrow> (ErrorReply 400 ''invalid request body'', [], s)
        | Some (url, token, key) \<Rightarrow>
     (if url = [] then (ErrorReply 400 ''homeserver_url is required'', [], s)
      else if token = [] then (ErrorReply 400 ''access_token is required'', [], s)
      else (case validated ev ''matrix'' ''matrix provider does not support configuration''
              ''invalid credentials: '' url token of
          Inl (c, msg) \<Rightarrow> (ErrorReply c msg, [], s)
        | Inr (p, bt) \<Rightarrow>
     (case bindNew up now i sandbox (x_ws x) ''matrix'' bt token url s of
        (Inl (c, msg), s1) \<Rightarrow> (ErrorReply c msg, [], s1)
      | (Inr c, s1) \<Rightarrow>
          (case startBinding (new_binding p (x_ws x) c bt token url) s1 of
             (es, s2) \<Rightarrow> (Reply 200 bt, e2ee p c bt token url key @ es, s2))))))))"

definition handleIMMatrixDisconnect ::
  "im_env \<Rightarrow> (nat \<Rightarrow> bool) \<Rightarrow> string \<Rightarrow> string \<Rightarrow> imw \<Rightarrow> unit reply \<times> im_effect list \<times> imw" where
  "handleIMMatrixDisconnect ev up user sandbox s =
     (case sandboxGate up (iw_db s) user sandbox of
        Inl (c, msg) \<Rightarrow> (ErrorReply c msg, [], s)
      | Inr x \<Rightarrow>
          (case boundTo up ''matrix'' sandbox (iw_db s) of
             None \<Rightarrow> (ErrorReply 404 ''no matrix binding found for this sandbox'', [], s)
           | Some ch \<Rightarrow>
               disconnectChannel up
                 (case GetProvider (ev_providers ev) ''matrix'' of
                    Some p \<Rightarrow> if pv_disconnect p then [Disconnected ''matrix'' sandbox (ch_bot ch)] else []
                  | None \<Rightarrow> []) sandbox ch s))"

end
