(* ===== verification/Im_Channels.thy ===== *)
theory Im_Channels
  imports Im_Handlers
begin

text \<open>
  The channels of a workspace (\<open>internal/imbridgesvc/handlers.go\<close>): their listing, settings and deletion, the
  sandboxes bound to them, the configuration of WeChat, Telegram, Matrix and WhatsApp accounts, and the
  webhooks through which WhatsApp delivers messages.
\<close>

section \<open>Sandboxes and their channels\<close>

definition handleListIMBindings :: "(nat \<Rightarrow> bool) \<Rightarrow> string \<Rightarrow> string \<Rightarrow> im_db \<Rightarrow> IMChannel list reply" where
  "handleListIMBindings up user sandbox d =
     (case sandboxGate up d user sandbox of
        Inl (c, msg) \<Rightarrow> ErrorReply c msg
      | Inr _ \<Rightarrow>
          (case GetIMChannelForSandbox (up 2) d sandbox of
             Inr (Some ch) \<Rightarrow> Reply 200 [ch]
           | _ \<Rightarrow> Reply 200 []))"

text \<open>Statements: 2 the channel, 3 to 6 the binding, 7 the routing mode, whose failure is ignored.\<close>

definition handleBindSandboxToChannel ::
  "(nat \<Rightarrow> bool) \<Rightarrow> time \<Rightarrow> string \<Rightarrow> string \<Rightarrow> string option \<Rightarrow> imw \<Rightarrow> unit reply \<times> imw" where
  "handleBindSandboxToChannel up now user sandbox body s =
     (case sandboxGate up (iw_db s) user sandbox of
        Inl (c, msg) \<Rightarrow> (ErrorReply c msg, s)
      | Inr x \<Rightarrow>
     (if body \<in> {None, Some []} then (ErrorReply 400 ''channel_id is required'', s)
      else (case GetIMChannel (up 2) (iw_db s) (the body) of
          Inl _ \<Rightarrow> (ErrorReply 404 ''channel not found in this workspace'', s)
        | Inr None \<Rightarrow> (ErrorReply 404 ''channel not found in this workspace'', s)
        | Inr (Some ch) \<Rightarrow>
     (if ch_ws ch \<noteq> x_ws x then (ErrorReply 404 ''channel not found in this workspace'', s)
      else (case BindSandboxToChannel (\<lambda>k. up (3 + k)) now (iw_db s) sandbox (the body) of
          (Some _, d1) \<Rightarrow> (ErrorReply 500 ''failed to bind channel'', s\<lparr>iw_db := d1\<rparr>)
        | (None, d1) \<Rightarrow>
            (Reply 200 (),
             if x_type x \<noteq> ''openclaw'' then s\<lparr>iw_db := d1\<rparr>
             else s\<lparr>iw_db := snd (UpdateIMChannelRoutingMode (up 7) d1 (the body) ''openclaw''),
                    iw_bridge := SetChannelRoutingMode (the body) ''openclaw'' (iw_bridge s)\<rparr>))))))"

text \<open>
  Binding by the routing strategy of the workspace (\<open>handleChannelAutoBind\<close> in \<open>internal/server/server.go\<close>): the
  shared sandbox, or a new one.  The name of a new sandbox has an em dash in UTF-8; \<open>body\<close> are the type and the name
  that were decoded.
\<close>

definition autoBindInput :: "IMChannel \<Rightarrow> string \<times> string \<Rightarrow> provisionInput" where
  "autoBindInput ch body =
     \<lparr>pi_name = (if snd body = []
        then ''Channel agent '' @ [CHR 0xE2, CHR 0x80, CHR 0x94] @ '' '' @ ch_provider ch @ '' '' @ ch_bot ch
        else snd body),
      pi_type = (if fst body = [] then ''openclaw'' else fst body), pi_cpu = None, pi_memory = None,
      pi_idle = None, pi_meta = [], pi_composition = None\<rparr>"

definition autoBindSandbox ::
  "(string \<Rightarrow> int \<Rightarrow> int option) \<Rightarrow> (string \<Rightarrow> int option) \<Rightarrow> (string \<Rightarrow> string) \<Rightarrow> (nat \<Rightarrow> bool) \<Rightarrow> time \<Rightarrow>
     provision_env \<Rightarrow> string \<Rightarrow> provisionInput \<Rightarrow> string \<Rightarrow> im_db \<Rightarrow>
     ((nat \<times> string) + string \<times> StartOptions option) \<times> im_db" where
  "autoBindSandbox flt dur env up now pe w inp shared d =
     (if shared \<noteq> [] then (Inr (shared, None), d)
      else (case provisionSandbox flt dur env up now pe w inp (im_srv d) of
          (Inl (ProvisionError msg c), db1) \<Rightarrow> (Inl (c, msg), d\<lparr>im_srv := db1\<rparr>)
        | (Inl ProvisionInternal, db1) \<Rightarrow> (Inl (500, ''failed to provision sandbox''), d\<lparr>im_srv := db1\<rparr>)
        | (Inr (x, opts), db1) \<Rightarrow> (Inr (x_id x, Some opts), d\<lparr>im_srv := db1\<rparr>)))"

text \<open>\<open>per_agent\<close> displaces what held the channel, \<open>shared\<close> adds a binding.\<close>

definition autoBindChannel ::
  "(nat \<Rightarrow> bool) \<Rightarrow> time \<Rightarrow> string \<Rightarrow> string \<Rightarrow> string \<Rightarrow> im_db \<Rightarrow> db_err option \<times> im_db" where
  "autoBindChannel up now strategy sandbox c d =
     (if strategy = ''per_agent'' then BindSandboxToChannel up now d sandbox c
      else BindSandboxChannels up now d sandbox [c])"

text \<open>
  Statements: 0 the role, 1 the channel, 2 the workspace, 3 the shared sandbox, 4 onwards the new one, 60 onwards the
  binding.  The reply names the sandbox, the channel, the strategy and whether the sandbox existed; a new sandbox is
  started with the options.
\<close>

definition handleChannelAutoBind ::
  "(string \<Rightarrow> int \<Rightarrow> int option) \<Rightarrow> (string \<Rightarrow> int option) \<Rightarrow> (string \<Rightarrow> string) \<Rightarrow> (nat \<Rightarrow> bool) \<Rightarrow> time \<Rightarrow>
     provision_env \<Rightarrow> string \<Rightarrow> string \<Rightarrow> string \<Rightarrow> string \<times> string \<Rightarrow> im_db \<Rightarrow>
     (string \<times> string \<times> string \<times> bool) reply \<times> StartOptions option \<times> im_db" where
  "handleChannelAutoBind flt dur env up now pe user w c body d =
     (case requireWorkspaceRole (up 0) (im_srv d) user w [''owner'', ''maintainer'', ''developer''] of
        Some (code, msg) \<Rightarrow> (ErrorReply code msg, None, d)
      | None \<Rightarrow>
     (case GetIMChannel (up 1) d c of
        Inr (Some ch) \<Rightarrow>
     if ch_ws ch \<noteq> w then (ErrorReply 404 ''channel not found in workspace'', None, d)
     else (case GetWorkspace (up 2) (im_srv d) w of
        Inr (Some ws) \<Rightarrow>
     (let strategy = (if w_routing ws = [] then ''shared'' else w_routing ws);
          shared = (if strategy = ''shared''
                    then (case GetSharedSandbox (up 3) d w of Inr (Some i) \<Rightarrow> i | _ \<Rightarrow> []) else []) in
      if strategy = ''hybrid''
      then (ErrorReply 409 ''auto-bind not supported in hybrid mode; use /im/bind or /im/bind-multi'', None, d)
      else if strategy \<noteq> ''shared'' \<and> strategy \<noteq> ''per_agent''
      then (ErrorReply 400 (''unknown routing strategy: '' @ strategy), None, d)
      else (case autoBindSandbox flt dur env (\<lambda>k. up (4 + k)) now pe w (autoBindInput ch body) shared d of
          (Inl (code, msg), d1) \<Rightarrow> (ErrorReply code msg, None, d1)
        | (Inr (sandbox, opts), d1) \<Rightarrow>
            (case autoBindChannel (\<lambda>k. up (60 + k)) now strategy sandbox c d1 of
               (Some _, d2) \<Rightarrow> (ErrorReply 500 ''bind failed'', opts, d2)
             | (None, d2) \<Rightarrow> (Reply 200 (sandbox, c, strategy, shared \<noteq> []), opts, d2))))
      | _ \<Rightarrow> (ErrorReply 404 ''workspace not found'', None, d))
      | _ \<Rightarrow> (ErrorReply 404 ''channel not found in workspace'', None, d)))"

definition handleUnbindSandboxFromChannel ::
  "(nat \<Rightarrow> bool) \<Rightarrow> string \<Rightarrow> string \<Rightarrow> imw \<Rightarrow> unit reply \<times> imw" where
  "handleUnbindSandboxFromChannel up user sandbox s =
     (case sandboxGate up (iw_db s) user sandbox of
        Inl (c, msg) \<Rightarrow> (ErrorReply c msg, s)
      | Inr _ \<Rightarrow>
          (case UnbindSandboxFromChannel (\<lambda>k. up (2 + k)) (iw_db s) sandbox of
             (Some _, d) \<Rightarrow> (ErrorReply 500 ''failed to unbind channel'', s\<lparr>iw_db := d\<rparr>)
           | (None, d) \<Rightarrow> (Reply 200 (), s\<lparr>iw_db := d\<rparr>)))"

text \<open>The first channel of the request that is not one of the workspace; statement \<open>n\<close> and following.\<close>

fun foreign_channel :: "(nat \<Rightarrow> bool) \<Rightarrow> nat \<Rightarrow> im_db \<Rightarrow> string \<Rightarrow> string list \<Rightarrow> string option" where
  "foreign_channel up n d w [] = None"
| "foreign_channel up n d w (c # cs) =
     (case GetIMChannel (up n) d c of
        Inr (Some ch) \<Rightarrow> if ch_ws ch = w then foreign_channel up (Suc n) d w cs else Some c
      | _ \<Rightarrow> Some c)"

text \<open>Statements: \<open>3 + 2 n\<close> the channel \<open>n\<close>, \<open>2 + 2 k\<close> those of the binding.\<close>

definition handleBindSandboxChannelsMulti ::
  "(nat \<Rightarrow> bool) \<Rightarrow> time \<Rightarrow> string \<Rightarrow> string \<Rightarrow> string list option \<Rightarrow> imw \<Rightarrow> string list reply \<times> imw" where
  "handleBindSandboxChannelsMulti up now user sandbox body s =
     (case sandboxGate up (iw_db s) user sandbox of
        Inl (c, msg) \<Rightarrow> (ErrorReply c msg, s)
      | Inr x \<Rightarrow>
     (if body \<in> {None, Some []} then (ErrorReply 400 ''channel_ids is required'', s)
      else (case foreign_channel (\<lambda>n. up (3 + 2 * n)) 0 (iw_db s) (x_ws x) (the body) of
          Some c \<Rightarrow> (ErrorReply 400 (''channel '' @ c @ '' not found in this workspace''), s)
        | None \<Rightarrow>
            (case BindSandboxChannels (\<lambda>k. up (2 + 2 * k)) now (iw_db s) sandbox (the body) of
               (Some _, d) \<Rightarrow> (ErrorReply 500 ''failed to bind channels'', s\<lparr>iw_db := d\<rparr>)
             | (None, d) \<Rightarrow> (Reply 200 (the body), s\<lparr>iw_db := d\<rparr>)))))"

section \<open>Listing, settings, deletion\<close>

definition memberGate :: "(nat \<Rightarrow> bool) \<Rightarrow> im_db \<Rightarrow> string \<Rightarrow> string \<Rightarrow> (nat \<times> string) option" where
  "memberGate up d user w =
     (case requireWorkspaceMember (up 0) (im_srv d) user w of Inl e \<Rightarrow> Some e | Inr _ \<Rightarrow> None)"

definition handleListWorkspaceIMChannels :: "(nat \<Rightarrow> bool) \<Rightarrow> string \<Rightarrow> string \<Rightarrow> im_db \<Rightarrow> IMChannel list reply" where
  "handleListWorkspaceIMChannels up user w d =
     (case memberGate up d user w of
        Some (c, msg) \<Rightarrow> ErrorReply c msg
      | None \<Rightarrow>
          (case ListIMChannels (up 1) d w of
             Inl _ \<Rightarrow> ErrorReply 500 ''failed to list channels''
           | Inr chs \<Rightarrow> Reply 200 chs))"

text \<open>The member and the channel of the path, statements 0 and 1.\<close>

definition channelGate :: "(nat \<Rightarrow> bool) \<Rightarrow> im_db \<Rightarrow> string \<Rightarrow> string \<Rightarrow> string \<Rightarrow> (nat \<times> string) + IMChannel" where
  "channelGate up d user w c =
     (case memberGate up d user w of
        Some e \<Rightarrow> Inl e
      | None \<Rightarrow>
          (case GetIMChannel (up 1) d c of
             Inl _ \<Rightarrow> Inl (404, ''channel not found'')
           | Inr None \<Rightarrow> Inl (404, ''channel not found'')
           | Inr (Some ch) \<Rightarrow> if ch_ws ch \<noteq> w then Inl (404, ''channel not found'') else Inr ch))"

definition handleDeleteWorkspaceIMChannel ::
  "im_env \<Rightarrow> (nat \<Rightarrow> bool) \<Rightarrow> string \<Rightarrow> string \<Rightarrow> string \<Rightarrow> imw \<Rightarrow> unit reply \<times> im_effect list \<times> imw" where
  "handleDeleteWorkspaceIMChannel ev up user w c s =
     (case channelGate up (iw_db s) user w c of
        Inl (code, msg) \<Rightarrow> (ErrorReply code msg, [], s)
      | Inr ch \<Rightarrow>
     (case StopPoller c (iw_bridge s) of
        (hs, g) \<Rightarrow>
          (let es = map Hook hs @
                 (case GetProvider (ev_providers ev) (ch_provider ch) of
                    Some p \<Rightarrow> if pv_disconnect p then [Disconnected (pv_name p) [] (ch_bot ch)] else []
                  | None \<Rightarrow> []) in
           case DeleteIMChannel (up 2) (iw_db s) c of
             (Some _, d) \<Rightarrow> (ErrorReply 500 ''failed to delete channel'', es, s\<lparr>iw_bridge := g, iw_db := d\<rparr>)
           | (None, d) \<Rightarrow> (Reply 204 (), es, s\<lparr>iw_bridge := g, iw_db := d\<rparr>))))"

text \<open>The request is the two optional settings.  Statement 2 the mention, 3 the routing mode.\<close>

definition updateMention :: "(nat \<Rightarrow> bool) \<Rightarrow> string \<Rightarrow> bool option \<Rightarrow> imw \<Rightarrow> bool \<times> imw" where
  "updateMention up c mention s =
     (case mention of
        None \<Rightarrow> (True, s)
      | Some v \<Rightarrow>
          (case UpdateIMChannelSettings (up 2) (iw_db s) c v of
             (Some _, d) \<Rightarrow> (False, s\<lparr>iw_db := d\<rparr>)
           | (None, d) \<Rightarrow>
               (True, s\<lparr>iw_db := d, iw_bridge := SetChannelRequireMention c v (iw_bridge s)\<rparr>)))"

definition handleUpdateWorkspaceIMChannel ::
  "(nat \<Rightarrow> bool) \<Rightarrow> string \<Rightarrow> string \<Rightarrow> string \<Rightarrow> (bool option \<times> string option) option \<Rightarrow> imw \<Rightarrow>
     unit reply \<times> imw" where
  "handleUpdateWorkspaceIMChannel up user w c body s =
     (case channelGate up (iw_db s) user w c of
        Inl (code, msg) \<Rightarrow> (ErrorReply code msg, s)
      | Inr _ \<Rightarrow>
     (case body of
        None \<Rightarrow> (ErrorReply 400 ''invalid request body'', s)
      | Some (mention, routing) \<Rightarrow>
     (case updateMention up c mention s of
        (False, s1) \<Rightarrow> (ErrorReply 500 ''failed to update channel'', s1)
      | (True, s1) \<Rightarrow>
     (case routing of
        None \<Rightarrow> (Reply 200 (), s1)
      | Some mode \<Rightarrow>
          if mode \<notin> {''codex'', ''openclaw''}
          then (ErrorReply 400 ''invalid routing_mode: must be codex or openclaw'', s1)
          else (case UpdateIMChannelRoutingMode (up 3) (iw_db s1) c mode of
              (Some _, d) \<Rightarrow> (ErrorReply 500 ''failed to update channel'', s1\<lparr>iw_db := d\<rparr>)
            | (None, d) \<Rightarrow>
                (Reply 200 (),
                 s1\<lparr>iw_db := d, iw_bridge := SetChannelRoutingMode c mode (iw_bridge s1)\<rparr>))))))"

definition handleGetWorkspaceRoutingStrategy :: "(nat \<Rightarrow> bool) \<Rightarrow> string \<Rightarrow> string \<Rightarrow> im_db \<Rightarrow> string reply" where
  "handleGetWorkspaceRoutingStrategy up user w d =
     (case memberGate up d user w of
        Some (c, msg) \<Rightarrow> ErrorReply c msg
      | None \<Rightarrow>
          (case GetWorkspace (up 1) (im_srv d) w of
             Inr (Some x) \<Rightarrow> Reply 200 (if w_routing x = [] then ''shared'' else w_routing x)
           | _ \<Rightarrow> ErrorReply 404 ''workspace not found''))"

text \<open>\<open>errText\<close> is the text of the error of the statement.\<close>

definition handleUpdateWorkspaceRoutingStrategy ::
  "(routing_err \<Rightarrow> string) \<Rightarrow> (nat \<Rightarrow> bool) \<Rightarrow> time \<Rightarrow> string \<Rightarrow> string \<Rightarrow> string option \<Rightarrow> imw \<Rightarrow> string reply \<times> imw" where
  "handleUpdateWorkspaceRoutingStrategy errText up now user w body s =
     (case memberGate up (iw_db s) user w of
        Some (c, msg) \<Rightarrow> (ErrorReply c msg, s)
      | None \<Rightarrow>
     (case body of
        None \<Rightarrow> (ErrorReply 400 ''invalid body'', s)
      | Some strategy \<Rightarrow>
          (case on_srv (\<lambda>db. UpdateWorkspaceRoutingStrategy (up 1) now db w strategy) (iw_db s) of
             (Some e, d) \<Rightarrow> (ErrorReply 400 (errText e), s\<lparr>iw_db := d\<rparr>)
           | (None, d) \<Rightarrow> (Reply 200 strategy, s\<lparr>iw_db := d\<rparr>))))"

section \<open>WeChat, Telegram, Matrix\<close>

definition handleWorkspaceWeixinQRStart ::
  "(nat \<Rightarrow> bool) \<Rightarrow> time \<Rightarrow> qr_session option \<Rightarrow> string \<Rightarrow> string \<Rightarrow> imw \<Rightarrow> qr_reply reply \<times> imw" where
  "handleWorkspaceWeixinQRStart up now start user w s =
     (case memberGate up (iw_db s) user w of
        Some (c, msg) \<Rightarrow> (ErrorReply c msg, s)
      | None \<Rightarrow> qrStart now start w s)"

text \<open>A confirmed login: its session is taken, then the channel is created and polled.  \<open>p\<close> is the WeChat provider.\<close>

definition qrConfirmed ::
  "im_provider \<Rightarrow> (nat \<Rightarrow> bool) \<Rightarrow> time \<Rightarrow> string \<Rightarrow> string \<Rightarrow> qr_result \<Rightarrow> imw \<Rightarrow>
     qr_reply reply \<times> im_effect list \<times> imw" where
  "qrConfirmed p up now i w r s =
     (case TakeSession w (iw_qr s) of
        (None, m) \<Rightarrow> (ErrorReply 409 ''login already processed'', [], s\<lparr>iw_qr := m\<rparr>)
      | (Some _, m) \<Rightarrow>
          (let s1 = s\<lparr>iw_qr := m\<rparr>; acc = normalizeAccountID (qr_bot r);
               url = (if qr_base r = [] then pv_default p else qr_base r) in
           if acc = [] then (ErrorReply 500 ''empty bot ID'', [], s1)
           else (case saveChannel up now i ''failed to save channel'' w ''weixin'' acc (qr_user r) (qr_token r) url
                   (iw_db s1) of
               (Inl (c, msg), d) \<Rightarrow> (ErrorReply c msg, [], s1\<lparr>iw_db := d\<rparr>)
             | (Inr c, d) \<Rightarrow>
                 (case startBinding (new_binding p w c acc (qr_token r) url) (s1\<lparr>iw_db := d\<rparr>) of
                    (es, s2) \<Rightarrow> (Reply 200 (QRConnected acc []), es, s2)))))"

definition handleWorkspaceWeixinQRWait ::
  "im_provider \<Rightarrow> (nat \<Rightarrow> bool) \<Rightarrow> time \<Rightarrow> string \<Rightarrow> (qr_session \<Rightarrow> qr_result option) \<Rightarrow>
     ((string \<rightharpoonup> qr_session) \<Rightarrow> (string \<rightharpoonup> qr_session)) \<Rightarrow> qr_session option \<Rightarrow> string \<Rightarrow> string \<Rightarrow> imw \<Rightarrow>
     qr_reply reply \<times> im_effect list \<times> imw" where
  "handleWorkspaceWeixinQRWait p up now i poll others again user w s =
     (case memberGate up (iw_db s) user w of
        Some (c, msg) \<Rightarrow> (ErrorReply c msg, [], s)
      | None \<Rightarrow>
     (case GetSession now w (iw_qr s) of
        (None, m) \<Rightarrow> (ErrorReply 400 ''no active weixin login session'', [], s\<lparr>iw_qr := m\<rparr>)
      | (Some q, m) \<Rightarrow>
     (let s1 = s\<lparr>iw_qr := others m\<rparr> in
      case poll q of
        None \<Rightarrow> (ErrorReply 502 ''poll failed'', [], s1)
      | Some r \<Rightarrow>
          if qr_status r = ''confirmed'' then qrConfirmed p up now i w r s1
          else (case qrUnconfirmed now again w q r s1 of (rep, s2) \<Rightarrow> (rep, [], s2)))))"

text \<open>The account and its channel.\<close>

definition handleWorkspaceTelegramConfigure ::
  "im_env \<Rightarrow> (nat \<Rightarrow> bool) \<Rightarrow> time \<Rightarrow> string \<Rightarrow> string \<Rightarrow> string \<Rightarrow> string option \<Rightarrow> imw \<Rightarrow>
     (string \<times> string) reply \<times> im_effect list \<times> imw" where
  "handleWorkspaceTelegramConfigure ev up now i user w body s =
     (case memberGate up (iw_db s) user w of
        Some (c, msg) \<Rightarrow> (ErrorReply c msg, [], s)
      | None \<Rightarrow>
     (if body \<in> {None, Some []} then (ErrorReply 400 ''bot_token is required'', [], s)
      else (case validated ev ''telegram'' ''telegram provider does not support configuration''
              ''invalid bot token: '' [] (the body) of
          Inl (c, msg) \<Rightarrow> (ErrorReply c msg, [], s)
        | Inr (p, bt) \<Rightarrow>
     (case saveChannel up now i ''failed to save channel'' w ''telegram'' bt [] (the body) (pv_default p) (iw_db s) of
        (Inl (c, msg), d) \<Rightarrow> (ErrorReply c msg, [], s\<lparr>iw_db := d\<rparr>)
      | (Inr c, d) \<Rightarrow>
          (case startBinding (new_binding p w c bt (the body) (pv_default p)) (s\<lparr>iw_db := d\<rparr>) of
             (es, s1) \<Rightarrow> (Reply 200 (bt, c), es, s1))))))"

definition handleWorkspaceMatrixConfigure ::
  "im_env \<Rightarrow> (nat \<Rightarrow> bool) \<Rightarrow> time \<Rightarrow> string \<Rightarrow> string \<Rightarrow> string \<Rightarrow> (string \<times> string \<times> string) option \<Rightarrow> imw \<Rightarrow>
     string reply \<times> im_effect list \<times> imw" where
  "handleWorkspaceMatrixConfigure ev up now i user w body s =
     (case memberGate up (iw_db s) user w of
        Some (c, msg) \<Rightarrow> (ErrorReply c msg, [], s)
      | None \<Rightarrow>
     (case body of
        None \<Rightarrow> (ErrorReply 400 ''invalid request body'', [], s)
      | Some (url, token, key) \<Rightarrow>
     (if url = [] \<or> token = [] then (ErrorReply 400 ''homeserver_url and access_token are required'', [], s)
      else (case validated ev ''matrix'' ''matrix provider does not support configuration''
              ''invalid credentials: '' url token of
          Inl (c, msg) \<Rightarrow> (ErrorReply c msg, [], s)
        | Inr (p, bt) \<Rightarrow>
     (case saveChannel up now i ''failed to save channel'' w ''matrix'' bt [] token url (iw_db s) of
        (Inl (c, msg), d) \<Rightarrow> (ErrorReply c msg, [], s\<lparr>iw_db := d\<rparr>)
      | (Inr c, d) \<Rightarrow>
          (case startBinding (new_binding p w c bt token url) (s\<lparr>iw_db := d\<rparr>) of
             (es, s1) \<Rightarrow> (Reply 200 bt, e2ee p c bt token url key @ es, s1)))))))"

section \<open>WhatsApp\<close>

record wa_configured =
  wc_channel :: string
  wc_bot :: string
  wc_webhook :: string
  wc_verify :: string

text \<open>
  The request is number, token and base URL; \<open>fresh\<close> are sixteen random bytes, \<open>None\<close> when the source
  fails; \<open>host\<close> is the host of the request.  Statement 4 the token for the handshake.
\<close>

definition handleWorkspaceWhatsAppConfigure ::
  "im_env \<Rightarrow> (nat \<Rightarrow> bool) \<Rightarrow> time \<Rightarrow> string \<Rightarrow> string option \<Rightarrow> string \<Rightarrow> string \<Rightarrow> string \<Rightarrow>
     (string \<times> string \<times> string) option \<Rightarrow> imw \<Rightarrow> wa_configured reply \<times> imw" where
  "handleWorkspaceWhatsAppConfigure ev up now i fresh host user w body s =
     (case memberGate up (iw_db s) user w of
        Some (c, msg) \<Rightarrow> (ErrorReply c msg, s)
      | None \<Rightarrow>
     (case body of
        None \<Rightarrow> (ErrorReply 400 ''phone_number_id and access_token are required'', s)
      | Some (phone, token, base) \<Rightarrow>
     (if phone = [] \<or> token = [] then (ErrorReply 400 ''phone_number_id and access_token are required'', s)
      else (case saveChannel up now i ''failed to create channel'' w ''whatsapp'' phone [] token
              (if TrimSlash base = [] then ''https://graph.facebook.com/v18.0'' else TrimSlash base) (iw_db s) of
          (Inl (c, msg), d) \<Rightarrow> (ErrorReply c msg, s\<lparr>iw_db := d\<rparr>)
        | (Inr c, d) \<Rightarrow>
     (case fresh of
        None \<Rightarrow> (ErrorReply 500 ''failed to generate verify token'', s\<lparr>iw_db := d\<rparr>)
      | Some bytes \<Rightarrow>
          (case SetIMChannelVerifyToken (up 4) d c (hex_of bytes) of
             (Some _, d1) \<Rightarrow> (ErrorReply 500 ''failed to save verify token'', s\<lparr>iw_db := d1\<rparr>)
           | (None, d1) \<Rightarrow>
               (Reply 200 \<lparr>wc_channel = c, wc_bot = phone,
                  wc_webhook = ''https://'' @ (if host = [] then ev_domain ev else host) @
                    ''/webhook/whatsapp/'' @ w,
                  wc_verify = hex_of bytes\<rparr>, s\<lparr>iw_db := d1\<rparr>)))))))"

text \<open>The handshake: mode, token, challenge.\<close>

definition handleWhatsAppWebhookVerify :: "im_env \<Rightarrow> string \<Rightarrow> string \<Rightarrow> string \<Rightarrow> string reply" where
  "handleWhatsAppWebhookVerify ev mode token challenge =
     (if mode \<noteq> ''subscribe'' \<or> ev_verifyToken ev = [] \<or> token \<noteq> ev_verifyToken ev
      then ErrorReply 403 ''verification failed'' else Reply 200 challenge)"

definition handleWhatsAppWebhookVerifyPerWorkspace ::
  "bool \<Rightarrow> im_db \<Rightarrow> string \<Rightarrow> string \<Rightarrow> string \<Rightarrow> string \<Rightarrow> string reply" where
  "handleWhatsAppWebhookVerifyPerWorkspace up d w mode token challenge =
     (if mode \<noteq> ''subscribe'' \<or> token = [] then ErrorReply 403 ''verification failed''
      else (case GetIMChannelByWorkspaceAndToken up d w token of
          Inr (Some _) \<Rightarrow> Reply 200 challenge
        | _ \<Rightarrow> ErrorReply 403 ''verification failed''))"

definition hex_value :: "char \<Rightarrow> nat option" where
  "hex_value c =
     (if 48 \<le> byte c \<and> byte c \<le> 57 then Some (byte c - 48)
      else if 97 \<le> byte c \<and> byte c \<le> 102 then Some (byte c - 87)
      else if 65 \<le> byte c \<and> byte c \<le> 70 then Some (byte c - 55) else None)"

fun hex_DecodeString :: "string \<Rightarrow> string option" where
  "hex_DecodeString [] = Some []"
| "hex_DecodeString [c] = None"
| "hex_DecodeString (a # b # s) =
     (case (hex_value a, hex_value b, hex_DecodeString s) of
        (Some x, Some y, Some r) \<Rightarrow> Some (char_of (16 * x + y) # r)
      | _ \<Rightarrow> None)"

definition whatsappHMACRequired :: "im_env \<Rightarrow> bool" where
  "whatsappHMACRequired ev \<longleftrightarrow> lower (TrimSpace (ev_hmacRequired ev)) \<in> {''1'', ''true'', ''yes''}"

definition verifyWhatsAppSignature :: "(string \<Rightarrow> string \<Rightarrow> string) \<Rightarrow> string \<Rightarrow> string \<Rightarrow> string \<Rightarrow> bool" where
  "verifyWhatsAppSignature hmac header body appSecret =
     (if appSecret = [] then True
      else if \<not> HasPrefix header ''sha256='' then False
      else (case hex_DecodeString (drop 7 header) of
          None \<Rightarrow> False
        | Some want \<Rightarrow> hmac appSecret body = want))"

record wa_message =
  wm_from :: string
  wm_type :: string
  wm_body :: string

record wa_change =
  wh_field :: string
  wh_phone :: string
  wh_contacts :: "string list"
  wh_messages :: "wa_message list"

definition sendWhatsAppDirectText :: "im_env \<Rightarrow> IMChannel \<Rightarrow> string \<Rightarrow> string \<Rightarrow> im_effect list" where
  "sendWhatsAppDirectText ev ch toUser msg =
     (if msg = [] \<or> toUser = [] \<or> GetProvider (ev_providers ev) ''whatsapp'' = None then []
      else [SentText ''whatsapp'' (channel_creds ch) toUser msg Map.empty])"

definition InboundRedirectMessage :: string where
  "InboundRedirectMessage =
     ''I can only help with topics related to this assistant's scope. Please ask something within that scope.''"

text \<open>One message; \<open>up\<close> the statement that reads the channel again.\<close>

definition dispatchWhatsAppInbound ::
  "im_env \<Rightarrow> bool \<Rightarrow> time \<Rightarrow> im_db \<Rightarrow> bridge \<Rightarrow> IMChannel \<Rightarrow> string \<Rightarrow> string \<Rightarrow> string \<Rightarrow> im_effect list" where
  "dispatchWhatsAppInbound ev up now d g ch sender from msg =
     (if msg = [] then []
      else if \<not> gd_allowed (CheckInbound (ev_sha ev) (ev_llm ev) now (checkerForChannel ev ch) msg)
      then sendWhatsAppDirectText ev ch from InboundRedirectMessage
      else map Forwarded (snd (DispatchInbound (ev_sha ev) (ev_enc ev) (ev_forward ev msg) (ev_providers ev) up d g
             (ch_id ch)
             \<lparr>ib_from = from, ib_sender = sender, ib_text = msg, ib_metadata = [], ib_media = [],
              ib_mediaType = [], ib_qtext = [], ib_qmedia = [], ib_qmediaType = [], ib_qsender = []\<rparr>)))"

text \<open>
  The changes of a delivery: \<open>lookup\<close> finds the channel of a number.  \<open>up n 0\<close> is the lookup for change \<open>n\<close>,
  \<open>up n (Suc k)\<close> the statement for its message \<open>k\<close>.
\<close>

definition waChange ::
  "im_env \<Rightarrow> (nat \<Rightarrow> bool) \<Rightarrow> time \<Rightarrow> im_db \<Rightarrow> bridge \<Rightarrow> (bool \<Rightarrow> string \<Rightarrow> db_err + IMChannel option) \<Rightarrow> wa_change \<Rightarrow>
     im_effect list" where
  "waChange ev up now d g lookup ch =
     (if wh_field ch \<noteq> ''messages'' \<or> wh_phone ch = [] then []
      else (case lookup (up 0) (wh_phone ch) of
          Inr (Some c) \<Rightarrow>
            List.concat (map (\<lambda>(k, m).
              if wm_type m \<noteq> ''text'' \<or> wm_body m = [] then []
              else dispatchWhatsAppInbound ev (up (Suc k)) now d g c
                     (case wh_contacts ch of [] \<Rightarrow> [] | n # _ \<Rightarrow> n) (wm_from m @ ''@wa'') (wm_body m))
              (zip [0..<length (wh_messages ch)] (wh_messages ch)))
        | _ \<Rightarrow> []))"

text \<open>
  The body of a delivery is its text and what it decodes to; \<open>None\<close> outside when it cannot be read, inside
  when it does not decode.
\<close>

definition waInbound ::
  "im_env \<Rightarrow> (nat \<Rightarrow> nat \<Rightarrow> bool) \<Rightarrow> time \<Rightarrow> (bool \<Rightarrow> string \<Rightarrow> db_err + IMChannel option) \<Rightarrow> string \<Rightarrow>
     (string \<times> wa_change list list option) option \<Rightarrow> imw \<Rightarrow> unit reply \<times> im_effect list" where
  "waInbound ev up now lookup header body s =
     (case body of
        None \<Rightarrow> (ErrorReply 400 ''bad body'', [])
      | Some (raw, decoded) \<Rightarrow>
     (if whatsappHMACRequired ev \<and> ev_appSecret ev = []
      then (ErrorReply 503 ''WhatsApp HMAC required but server secret not configured'', [])
      else if ev_appSecret ev \<noteq> [] \<and> \<not> verifyWhatsAppSignature (ev_hmac ev) header raw (ev_appSecret ev)
      then (ErrorReply 401 ''invalid signature'', [])
      else (case decoded of
          None \<Rightarrow> (Reply 200 (), [])
        | Some entries \<Rightarrow>
            (Reply 200 (),
             List.concat (map (\<lambda>(n, ch). waChange ev (up n) now (iw_db s) (iw_bridge s) lookup ch)
               (zip [0..<length (List.concat entries)] (List.concat entries)))))))"

definition handleWhatsAppWebhookInboundPerWorkspace ::
  "im_env \<Rightarrow> (nat \<Rightarrow> nat \<Rightarrow> bool) \<Rightarrow> time \<Rightarrow> string \<Rightarrow> string \<Rightarrow> (string \<times> wa_change list list option) option \<Rightarrow> imw \<Rightarrow>
     unit reply \<times> im_effect list" where
  "handleWhatsAppWebhookInboundPerWorkspace ev up now w header body s =
     waInbound ev up now (\<lambda>u phone. FindIMChannelByWorkspaceAndBot u (iw_db s) w ''whatsapp'' phone) header body s"

definition handleWhatsAppWebhookInbound ::
  "im_env \<Rightarrow> (nat \<Rightarrow> nat \<Rightarrow> bool) \<Rightarrow> time \<Rightarrow> string \<Rightarrow> (string \<times> wa_change list list option) option \<Rightarrow> imw \<Rightarrow>
     unit reply \<times> im_effect list" where
  "handleWhatsAppWebhookInbound ev up now header body s =
     waInbound ev up now (\<lambda>u phone. FindIMChannelByProviderBot u (iw_db s) ''whatsapp'' phone) header body s"

section \<open>Routes for the agent server\<close>

text \<open>Neither route asks for a secret.\<close>

definition handleRestorePollers :: "im_env \<Rightarrow> bool \<Rightarrow> string \<Rightarrow> imw \<Rightarrow> unit reply \<times> im_effect list \<times> imw" where
  "handleRestorePollers ev up sandbox s =
     (case restorePollerForSandbox (ev_providers ev) up (iw_db s) sandbox (iw_bridge s) of
        (hs, g) \<Rightarrow> (Reply 204 (), map Hook hs, s\<lparr>iw_bridge := g\<rparr>))"

definition handleStopPoller :: "string \<Rightarrow> imw \<Rightarrow> unit reply \<times> im_effect list \<times> imw" where
  "handleStopPoller c s =
     (case StopPoller c (iw_bridge s) of
        (hs, g) \<Rightarrow> (Reply 204 (), map Hook hs, s\<lparr>iw_bridge := g\<rparr>))"

end
