(* ===== verification/Im_Facts.thy ===== *)
theory Im_Facts
  imports Im_Channels Provisioning
begin

text \<open>
  What the bridge guarantees: a sandbox is only ever bound to channels of its own workspace, the webhook of a
  workspace reaches nothing outside it, and a message of a messenger is forwarded at most once.
\<close>

section \<open>The invariant of the tables\<close>

definition chan_key :: "channel_row \<Rightarrow> string \<times> string \<times> string" where
  "chan_key r = (cr_ws r, cr_provider r, cr_bot r)"

definition chan_ws :: "im_db \<Rightarrow> string \<Rightarrow> string option" where
  "chan_ws d c = map_option cr_ws (find (\<lambda>r. cr_id r = c) (im_channels d))"

definition sbx_ws :: "im_db \<Rightarrow> string \<Rightarrow> string option" where
  "sbx_ws d s = map_option sb_ws (find (\<lambda>r. sb_id r = s) (sv_sandboxes (im_srv d)))"

definition same_ws :: "im_db \<Rightarrow> string \<Rightarrow> string \<Rightarrow> bool" where
  "same_ws d s c \<longleftrightarrow> sbx_ws d s \<noteq> None \<and> sbx_ws d s = chan_ws d c"

definition channels_ok :: "im_db \<Rightarrow> bool" where
  "channels_ok d \<longleftrightarrow>
     distinct (map cr_id (im_channels d)) \<and> distinct (map chan_key (im_channels d)) \<and>
     distinct (map sb_id (sv_sandboxes (im_srv d))) \<and>
     list_all (\<lambda>b. same_ws d (cb_sandbox b) (cb_channel b)) (im_bound d)"

lemma channels_ok_other_tables [simp]:
  "channels_ok (d\<lparr>im_meta := m\<rparr>) = channels_ok d"
  "channels_ok (d\<lparr>im_bindings := bs\<rparr>) = channels_ok d"
  "channels_ok (d\<lparr>im_pmeta := pm\<rparr>) = channels_ok d"
  "channels_ok (d\<lparr>im_messages := ms\<rparr>) = channels_ok d"
  by (simp_all add: channels_ok_def same_ws_def chan_ws_def sbx_ws_def)

lemma map_update_rows_chan:
  assumes "\<And>r. cr_id (f r) = cr_id r" and "\<And>r. chan_key (f r) = chan_key r"
  shows "map cr_id (update_rows P f rs) = map cr_id rs" and "map chan_key (update_rows P f rs) = map chan_key rs"
  using assms by (simp_all add: map_update_rows)

lemma find_update_ws:
  assumes "\<And>r. cr_id (f r) = cr_id r" and "\<And>r. chan_key (f r) = chan_key r"
  shows "map_option cr_ws (find (\<lambda>r. cr_id r = c) (update_rows P f rs)) = map_option cr_ws (find (\<lambda>r. cr_id r = c) rs)"
proof -
  have "cr_ws (f r) = cr_ws r" for r using assms(2) [of r] by (simp add: chan_key_def)
  with assms(1) show ?thesis by (induction rs) auto
qed

lemma channels_ok_update_rows:
  assumes "channels_ok d" and "\<And>r. cr_id (f r) = cr_id r" and "\<And>r. chan_key (f r) = chan_key r"
  shows "channels_ok (d\<lparr>im_channels := update_rows P f (im_channels d)\<rparr>)"
  using assms(1) unfolding channels_ok_def same_ws_def chan_ws_def sbx_ws_def
  by (simp add: map_update_rows_chan [OF assms(2,3)] find_update_ws [OF assms(2,3)])

lemma channels_ok_update_channel:
  assumes "channels_ok d" and "\<And>r. cr_id (f r) = cr_id r" and "\<And>r. chan_key (f r) = chan_key r"
  shows "channels_ok (snd (update_channel up d c f))"
  using channels_ok_update_rows [OF assms] assms(1) by (simp add: update_channel_def)

lemma chan_ws_update_channel:
  assumes "\<And>r. cr_id (f r) = cr_id r" and "\<And>r. chan_key (f r) = chan_key r"
  shows "chan_ws (snd (update_channel up d c' f)) c = chan_ws d c"
  by (simp add: update_channel_def chan_ws_def find_update_ws [OF assms])

lemma channels_ok_statements [simp]:
  assumes "channels_ok d"
  shows "channels_ok (snd (SaveIMChannelCredentials up d c tok url))"
    and "channels_ok (snd (SetIMChannelVerifyToken up d c tok))"
    and "channels_ok (snd (UpdateIMChannelCursor up d c cur))"
    and "channels_ok (snd (UpdateIMChannelSettings up d c mention))"
    and "channels_ok (snd (UpdateIMChannelRoutingMode up d c mode))"
  unfolding SaveIMChannelCredentials_def SetIMChannelVerifyToken_def UpdateIMChannelCursor_def
    UpdateIMChannelSettings_def UpdateIMChannelRoutingMode_def
  by (rule channels_ok_update_channel [OF assms]; simp add: chan_key_def)+

lemma channels_ok_meta [simp]: "channels_ok (snd (UpsertChannelMeta up d c user k v)) = channels_ok d"
  by (simp add: UpsertChannelMeta_def)

lemma channels_ok_bindings [simp]:
  "channels_ok (snd (CreateIMBinding up now i d s provider bt user)) = channels_ok d"
  "channels_ok (snd (SaveIMCredentials up d s provider bt tok url)) = channels_ok d"
  by (simp_all add: CreateIMBinding_def Let_def SaveIMCredentials_def update_binding_def)

lemma channels_ok_delete [simp]:
  assumes "channels_ok d" shows "channels_ok (snd (DeleteIMChannel up d c))"
  using assms
  by (auto simp: DeleteIMChannel_def channels_ok_def same_ws_def chan_ws_def sbx_ws_def list_all_iff
      find_filter_key distinct_map_filter)

lemma channels_ok_filter:
  assumes "channels_ok d" shows "channels_ok (d\<lparr>im_bound := filter P (im_bound d)\<rparr>)"
  using assms by (auto simp: channels_ok_def same_ws_def chan_ws_def sbx_ws_def list_all_iff)

lemma channels_ok_unbind [simp]:
  assumes "channels_ok d" shows "channels_ok (snd (UnbindSandboxFromChannel up d s))"
  using channels_ok_filter [OF assms] assms by (simp add: UnbindSandboxFromChannel_def)

lemma same_ws_bound [simp]: "same_ws (d\<lparr>im_bound := bs\<rparr>) s c = same_ws d s c"
  by (simp add: same_ws_def chan_ws_def sbx_ws_def)

lemma bind_pair_ok:
  assumes "channels_ok d" and "same_ws d s c" and "bind_pair now d s c = Inr d'"
  shows "channels_ok d' \<and> same_ws d' = same_ws d"
  using assms
  by (auto simp: bind_pair_def channels_ok_def same_ws_def chan_ws_def sbx_ws_def fun_eq_iff split: if_splits)

lemma bind_all_ok:
  assumes "channels_ok d" and "\<And>c. c \<in> set cs \<Longrightarrow> same_ws d s c" and "bind_all up now n s cs d = Inr d'"
  shows "channels_ok d'"
  using assms
proof (induction up now n s cs d rule: bind_all.induct)
  case (1 up now n s d) then show ?case by simp
next
  case (2 up now n s c cs d)
  from 2(4) obtain d1 where u: "up (2 + n)" and b: "bind_pair now d s c = Inr d1"
    and a: "bind_all up now (Suc n) s cs d1 = Inr d'"
    by (auto split: if_splits sum.splits)
  have "channels_ok d1 \<and> same_ws d1 = same_ws d"
    by (rule bind_pair_ok [OF 2(2) _ b]) (simp add: 2(3))
  with 2(1) [OF _ b _ _ a] u 2(3) show ?case by simp
qed

lemma BindSandboxToChannel_ok:
  assumes "channels_ok d" and "same_ws d s c"
  shows "channels_ok (snd (BindSandboxToChannel up now d s c))"
proof -
  let ?d = "d\<lparr>im_bound := filter (\<lambda>b. cb_channel b \<noteq> c) (im_bound d)\<rparr>"
  have "bind_pair now ?d s c = Inr d' \<Longrightarrow> channels_ok d'" for d'
    using bind_pair_ok [OF channels_ok_filter [OF assms(1)], of _ s c now d'] assms(2) by simp
  with assms(1) show ?thesis by (simp add: BindSandboxToChannel_def split: sum.split)
qed

lemma BindSandboxChannels_ok:
  assumes "channels_ok d" and "\<And>c. c \<in> set cs \<Longrightarrow> same_ws d s c"
  shows "channels_ok (snd (BindSandboxChannels up now d s cs))"
  using bind_all_ok [OF assms] assms(1) by (simp add: BindSandboxChannels_def split: sum.split)

text \<open>Creating a channel.\<close>

lemma CreateIMChannel_ok:
  assumes ok: "channels_ok d" and r: "CreateIMChannel up now i d w provider bt user = (r, d')"
  shows "channels_ok d' \<and> (\<forall>c. r = Inr c \<longrightarrow> chan_ws d' c = Some w) \<and> im_srv d' = im_srv d"
proof -
  let ?P = "\<lambda>r. cr_ws r = w \<and> cr_provider r = provider \<and> cr_bot r = bt"
  note def = r [unfolded CreateIMChannel_def Let_def]
  consider (down) "\<not> up" | (old) x where up "find ?P (im_channels d) = Some x"
    | (fresh) up "find ?P (im_channels d) = None" by (cases "find ?P (im_channels d)") auto
  then show ?thesis
  proof cases
    case down with def ok show ?thesis by auto
  next
    case old
    have x: "x \<in> set (im_channels d)" "cr_ws x = w" using find_Some_in [OF old(2)] by auto
    have "find (\<lambda>r. cr_id r = cr_id x) (im_channels d) = Some x"
      using ok x(1) by (intro find_key_unique) (simp add: channels_ok_def)
    then have "chan_ws (d\<lparr>im_channels := update_rows ?P (\<lambda>r. r\<lparr>cr_bound := now\<rparr>) (im_channels d)\<rparr>) (cr_id x) = Some w"
      using x(2) by (simp add: chan_ws_def find_update_ws chan_key_def)
    with old def ok show ?thesis by (auto intro!: channels_ok_update_rows simp: chan_key_def)
  next
    case fresh
    from fresh(2) have nk: "(w, provider, bt) \<notin> chan_key ` set (im_channels d)"
      by (auto simp: chan_key_def find_None_iff)
    show ?thesis
    proof (cases "has_channel d i \<or> \<not> has_workspace (im_srv d) w")
      case True with fresh def ok show ?thesis by (auto split: if_splits)
    next
      case False
      then have ni: "find (\<lambda>r. cr_id r = i) (im_channels d) = None" "i \<notin> cr_id ` set (im_channels d)"
        by (auto simp: has_channel_def list_ex_iff find_None_iff)
      define new where "new = \<lparr>cr_id = i, cr_ws = w, cr_provider = provider, cr_bot = bt, cr_user = user,
        cr_token = None, cr_url = None, cr_cursor = Some [], cr_mention = False, cr_routing = ''codex'',
        cr_scope = None, cr_verify = None, cr_bound = now\<rparr>"
      from False fresh def have "d' = d\<lparr>im_channels := im_channels d @ [new]\<rparr>" "r = Inr i"
        by (simp_all add: new_def)
      then obtain row where row: "cr_id row = i" "cr_ws row = w" "chan_key row = (w, provider, bt)"
        and d': "d' = d\<lparr>im_channels := im_channels d @ [row]\<rparr>" and res: "r = Inr i"
        using that [of new] by (simp add: new_def chan_key_def)
      have cw: "chan_ws d' c = (case chan_ws d c of Some v \<Rightarrow> Some v | None \<Rightarrow> if c = i then Some w else None)" for c
        using row unfolding d' by (auto simp: chan_ws_def find_append split: option.split)
      have keep: "same_ws d s c \<Longrightarrow> same_ws d' s c" for s c
        unfolding same_ws_def cw by (cases "chan_ws d c") (auto simp: sbx_ws_def d')
      have "channels_ok d'"
        using ok nk ni(2) row keep by (auto simp: channels_ok_def list_all_iff d')
      moreover have "chan_ws d' i = Some w" using ni(1) unfolding cw by (simp add: chan_ws_def)
      ultimately show ?thesis by (simp add: res d')
    qed
  qed
qed

text \<open>Another handler changes sandboxes and workspaces: a sandbox keeps its workspace and identifiers stay unique.\<close>

definition srv_change :: "srv_db \<Rightarrow> srv_db \<Rightarrow> bool" where
  "srv_change a b \<longleftrightarrow> distinct (map sb_id (sv_sandboxes b)) \<and>
     (\<forall>x y. x \<in> set (sv_sandboxes a) \<and> y \<in> set (sv_sandboxes b) \<and> sb_id x = sb_id y \<longrightarrow> sb_ws x = sb_ws y)"

lemma find_filter_id:
  "distinct (map k rs) \<Longrightarrow> r \<in> set rs \<Longrightarrow> P r \<Longrightarrow> find (\<lambda>x. k x = k r) (filter P rs) = Some r"
  by (rule find_key_unique) (auto intro: distinct_map_filter)

lemma channels_ok_prune:
  assumes ok: "channels_ok d" and ch: "srv_change (im_srv d) s'"
  shows "channels_ok (prune (d\<lparr>im_srv := s'\<rparr>))"
proof -
  let ?cs = "filter (\<lambda>r. has_workspace s' (cr_ws r)) (im_channels d)"
  have "same_ws (prune (d\<lparr>im_srv := s'\<rparr>)) (cb_sandbox b) (cb_channel b)"
    if b: "b \<in> set (im_bound d)" and s: "has_sandbox s' (cb_sandbox b)"
      and c: "list_ex (\<lambda>r. cr_id r = cb_channel b) ?cs" for b
  proof -
    from ok b have "same_ws d (cb_sandbox b) (cb_channel b)" by (simp add: channels_ok_def list_all_iff)
    then obtain w where "sbx_ws d (cb_sandbox b) = Some w" "chan_ws d (cb_channel b) = Some w"
      by (metis same_ws_def not_None_eq)
    then obtain x r where x: "find (\<lambda>r. sb_id r = cb_sandbox b) (sv_sandboxes (im_srv d)) = Some x"
      and r: "find (\<lambda>r. cr_id r = cb_channel b) (im_channels d) = Some r" and xr: "sb_ws x = cr_ws r"
      by (auto simp: chan_ws_def sbx_ws_def)
    from s obtain y where y: "y \<in> set (sv_sandboxes s')" "sb_id y = cb_sandbox b"
      by (auto simp: has_sandbox_def list_ex_iff)
    from c obtain q where q: "q \<in> set (im_channels d)" "cr_id q = cb_channel b" "has_workspace s' (cr_ws q)"
      by (auto simp: list_ex_iff)
    have "q = r" using ok q find_Some_in [OF r] by (intro distinct_map_inj_on [of cr_id]) (auto simp: channels_ok_def)
    have fy: "find (\<lambda>r. sb_id r = cb_sandbox b) (sv_sandboxes s') = Some y"
      using find_key_unique [of sb_id "sv_sandboxes s'" y] y ch by (simp add: srv_change_def)
    have fr: "find (\<lambda>r. cr_id r = cb_channel b) ?cs = Some q"
      using find_filter_id [of cr_id "im_channels d" q] ok q by (simp add: channels_ok_def)
    have "sb_ws y = sb_ws x" using ch y find_Some_in [OF x] by (metis srv_change_def)
    with fy fr xr \<open>q = r\<close> show ?thesis by (simp add: same_ws_def sbx_ws_def chan_ws_def prune_def Let_def)
  qed
  moreover have "distinct (map cr_id ?cs)" "distinct (map chan_key ?cs)"
    using ok by (simp_all add: channels_ok_def distinct_map_filter)
  moreover have "distinct (map sb_id (sv_sandboxes s'))" using ch by (simp add: srv_change_def)
  ultimately show ?thesis
    by (auto simp: channels_ok_def list_all_iff prune_def Let_def has_channel_def)
qed

section \<open>Every handler keeps the invariant\<close>

lemma sandboxGate_ws: "sandboxGate up d user i = Inr x \<Longrightarrow> sbx_ws d i = Some (x_ws x)"
  by (auto simp: sandboxGate_def sbx_Get_def GetSandbox_def sbx_ws_def dbSandboxToSandbox_def
      split: option.splits sum.splits if_splits)

lemma GetIMChannel_ws: "GetIMChannel up d c = Inr (Some ch) \<Longrightarrow> chan_ws d c = Some (ch_ws ch) \<and> ch_id ch = c"
  by (auto simp: GetIMChannel_def chan_ws_def finishIMChannel_def dest: find_Some_in split: if_splits)

lemma foreign_channel_ws:
  "foreign_channel up n d w cs = None \<Longrightarrow> c \<in> set cs \<Longrightarrow> chan_ws d c = Some w"
proof (induction up n d w cs rule: foreign_channel.induct)
  case (2 up n d w c' cs)
  then obtain ch where ch: "GetIMChannel (up n) d c' = Inr (Some ch)" "ch_ws ch = w"
    and rest: "foreign_channel up (Suc n) d w cs = None"
    by (auto split: sum.splits option.splits if_splits)
  with 2 GetIMChannel_ws [OF ch(1)] show ?case by auto
qed simp

lemma bind_keeps:
  assumes ok: "channels_ok (iw_db s)"
  shows "channels_ok (iw_db (snd (handleBindSandboxToChannel up now user sandbox body s)))"
proof (cases "sandboxGate up (iw_db s) user sandbox")
  case (Inl e) with ok show ?thesis by (cases e) (simp add: handleBindSandboxToChannel_def)
next
  case (Inr x)
  show ?thesis
  proof (cases "\<exists>ch. GetIMChannel (up 2) (iw_db s) (the body) = Inr (Some ch) \<and> ch_ws ch = x_ws x \<and> body \<notin> {None, Some []}")
    case False
    with ok Inr show ?thesis
      by (auto simp: handleBindSandboxToChannel_def split: sum.split option.split)
  next
    case True
    then obtain ch where ch: "GetIMChannel (up 2) (iw_db s) (the body) = Inr (Some ch)" "ch_ws ch = x_ws x"
      and b: "body \<notin> {None, Some []}" by blast
    have "same_ws (iw_db s) sandbox (the body)"
      using sandboxGate_ws [OF Inr] GetIMChannel_ws [OF ch(1)] ch(2) by (simp add: same_ws_def)
    from BindSandboxToChannel_ok [OF ok this] ok
    show ?thesis
      by (simp add: handleBindSandboxToChannel_def Inr ch b prod.case_eq_if option.case_eq_if)
  qed
qed

lemma multi_keeps:
  assumes ok: "channels_ok (iw_db s)"
  shows "channels_ok (iw_db (snd (handleBindSandboxChannelsMulti up now user sandbox body s)))"
proof (cases "sandboxGate up (iw_db s) user sandbox")
  case (Inl e) with ok show ?thesis by (cases e) (simp add: handleBindSandboxChannelsMulti_def)
next
  case (Inr x)
  show ?thesis
  proof (cases "body \<in> {None, Some []} \<or> foreign_channel (\<lambda>n. up (3 + 2 * n)) 0 (iw_db s) (x_ws x) (the body) \<noteq> None")
    case True with ok Inr show ?thesis by (auto simp: handleBindSandboxChannelsMulti_def)
  next
    case False
    then have "c \<in> set (the body) \<Longrightarrow> same_ws (iw_db s) sandbox c" for c
      using foreign_channel_ws sandboxGate_ws [OF Inr] by (auto simp: same_ws_def)
    from BindSandboxChannels_ok [OF ok this] False Inr show ?thesis
      by (auto simp: handleBindSandboxChannelsMulti_def prod.case_eq_if option.case_eq_if)
  qed
qed

lemma unbind_keeps:
  "channels_ok (iw_db s) \<Longrightarrow> channels_ok (iw_db (snd (handleUnbindSandboxFromChannel up user sandbox s)))"
  by (auto simp: handleUnbindSandboxFromChannel_def prod.case_eq_if option.case_eq_if split: sum.split)

lemma delete_keeps:
  "channels_ok (iw_db s) \<Longrightarrow> channels_ok (iw_db (snd (snd (handleDeleteWorkspaceIMChannel ev up user w c s))))"
  by (auto simp: handleDeleteWorkspaceIMChannel_def Let_def prod.case_eq_if option.case_eq_if split: sum.split)

lemma updateMention_keeps: "channels_ok (iw_db s) \<Longrightarrow> channels_ok (iw_db (snd (updateMention up c mention s)))"
  by (auto simp: updateMention_def prod.case_eq_if split: option.split)

lemma update_keeps:
  "channels_ok (iw_db s) \<Longrightarrow> channels_ok (iw_db (snd (handleUpdateWorkspaceIMChannel up user w c body s)))"
  using updateMention_keeps [of s up c]
  by (auto simp: handleUpdateWorkspaceIMChannel_def prod.case_eq_if option.case_eq_if split: sum.split bool.split)

lemma saveChannel_ok:
  assumes ok: "channels_ok d" and r: "saveChannel up now i failed w provider bt user token url d = (r, d')"
  shows "channels_ok d' \<and> (\<forall>c. r = Inr c \<longrightarrow> chan_ws d' c = Some w) \<and> im_srv d' = im_srv d"
proof (cases "CreateIMChannel (up 2) now i d w provider bt user")
  case (Pair e d1)
  note c = CreateIMChannel_ok [OF ok Pair]
  have k: "chan_ws (snd (SaveIMChannelCredentials u d1 c token url)) c' = chan_ws d1 c'" for u c c'
    unfolding SaveIMChannelCredentials_def by (rule chan_ws_update_channel) (simp_all add: chan_key_def)
  have m: "im_srv (snd (SaveIMChannelCredentials u d1 c token url)) = im_srv d1" for u c
    by (simp add: SaveIMChannelCredentials_def update_channel_def)
  show ?thesis
  proof (cases e)
    case Inl with r Pair c show ?thesis by (auto simp: saveChannel_def)
  next
    case (Inr ch)
    with r Pair have "d' = snd (SaveIMChannelCredentials (up 3) d1 ch token url)" and "\<forall>c. r = Inr c \<longrightarrow> c = ch"
      by (auto simp: saveChannel_def split: prod.splits option.splits)
    with c Inr k m show ?thesis by auto
  qed
qed

lemma saveChannel_keeps [simp]:
  "channels_ok d \<Longrightarrow> channels_ok (snd (saveChannel up now i failed w provider bt user token url d))"
  using saveChannel_ok [of d up now i failed w provider bt user token url] by (metis prod.collapse)

lemma startBinding_db [simp]: "iw_db (snd (startBinding b s)) = iw_db s"
  by (simp add: startBinding_def prod.case_eq_if)

lemma bindNew_keeps:
  assumes ok: "channels_ok (iw_db s)" and w: "sbx_ws (iw_db s) sandbox = Some w"
  shows "channels_ok (iw_db (snd (bindNew up now i sandbox w provider bt token url s)))"
proof (cases "saveChannel up now i ''failed to save channel'' w provider bt [] token url (iw_db s)")
  case (Pair r d)
  note k = saveChannel_ok [OF ok Pair]
  show ?thesis
  proof (cases r)
    case Inl with Pair k show ?thesis by (simp add: bindNew_def)
  next
    case (Inr c)
    with k have "chan_ws d c = Some w" and srv: "im_srv d = im_srv (iw_db s)" by simp_all
    moreover have "sbx_ws d sandbox = Some w" using w by (simp only: sbx_ws_def srv)
    ultimately have "same_ws d sandbox c" by (simp add: same_ws_def)
    from BindSandboxToChannel_ok [OF _ this] k Pair Inr show ?thesis
      by (simp add: bindNew_def prod.case_eq_if option.case_eq_if)
  qed
qed

lemma telegram_keeps:
  "channels_ok (iw_db s) \<Longrightarrow> channels_ok (iw_db (snd (snd (handleIMTelegramConfigure ev up now i user sandbox body s))))"
  using bindNew_keeps [OF _ sandboxGate_ws, of s up user sandbox]
  by (auto simp: handleIMTelegramConfigure_def prod.case_eq_if split: sum.split option.split)

lemma matrix_keeps:
  "channels_ok (iw_db s) \<Longrightarrow> channels_ok (iw_db (snd (snd (handleIMMatrixConfigure ev up now i user sandbox body s))))"
  using bindNew_keeps [OF _ sandboxGate_ws, of s up user sandbox]
  by (auto simp: handleIMMatrixConfigure_def prod.case_eq_if split: sum.split option.split)

lemma disconnect_keeps: "channels_ok (iw_db s) \<Longrightarrow> channels_ok (iw_db (snd (snd (disconnectChannel up es sandbox ch s))))"
  by (simp add: disconnectChannel_def Let_def prod.case_eq_if)

lemma disconnects_keep:
  assumes "channels_ok (iw_db s)"
  shows "channels_ok (iw_db (snd (snd (handleIMTelegramDisconnect up user sandbox s))))"
    and "channels_ok (iw_db (snd (snd (handleIMMatrixDisconnect ev up user sandbox s))))"
  using assms disconnect_keeps
  by (auto simp: handleIMTelegramDisconnect_def handleIMMatrixDisconnect_def split: sum.split option.split)

lemma qr_db [simp]:
  "iw_db (snd (qrStart now start k s)) = iw_db s"
  "iw_db (snd (qrUnconfirmed now again k q r s)) = iw_db s"
  by (simp_all add: qrStart_def qrUnconfirmed_def split: option.split)

lemma saveWeixin_keeps [simp]:
  "channels_ok (snd (saveWeixinCredentials up now n base i r d)) = channels_ok d"
  by (simp add: saveWeixinCredentials_def Let_def)

lemma weixin_keeps:
  assumes ok: "channels_ok (iw_db s)"
  shows "channels_ok (iw_db (snd (handleIMWeixinQRStart up now start user i s)))"
    and "channels_ok (iw_db (snd (handleIMWeixinQRWait up now n base poll others again user i s)))"
    and "channels_ok (iw_db (snd (handleWorkspaceWeixinQRStart up now start user w s)))"
proof -
  have k: "channels_ok (snd (saveWeixinCredentials up now n base i r (iw_db s)))" for r using ok by simp
  show "channels_ok (iw_db (snd (handleIMWeixinQRWait up now n base poll others again user i s)))"
    using ok k unfolding handleIMWeixinQRWait_def
    by (auto simp: prod.case_eq_if Let_def bool.case_eq_if split: sum.split option.split)
qed (use ok in \<open>auto simp: handleIMWeixinQRStart_def handleWorkspaceWeixinQRStart_def
       split: sum.split option.split\<close>)

lemma qrConfirmed_keeps:
  assumes ok: "channels_ok (iw_db s)"
  shows "channels_ok (iw_db (snd (snd (qrConfirmed p up now i w r s))))"
proof -
  have k: "channels_ok (snd (saveChannel up now i f w pv bt us tk ul (iw_db s)))" for f pv bt us tk ul
    using ok by simp
  show ?thesis using ok k unfolding qrConfirmed_def Let_def prod.case_eq_if
    by (simp split: option.split sum.split)
qed

lemma weixin_wait_keeps:
  "channels_ok (iw_db s) \<Longrightarrow>
     channels_ok (iw_db (snd (snd (handleWorkspaceWeixinQRWait p up now i poll others again user w s))))"
  by (simp add: handleWorkspaceWeixinQRWait_def Let_def prod.case_eq_if qrConfirmed_keeps split: option.split)

lemma configure_keeps:
  assumes ok: "channels_ok (iw_db s)"
  shows "channels_ok (iw_db (snd (snd (handleWorkspaceTelegramConfigure ev up now i user w body s))))"
    and "channels_ok (iw_db (snd (snd (handleWorkspaceMatrixConfigure ev up now i user w body' s))))"
    and "channels_ok (iw_db (snd (handleWorkspaceWhatsAppConfigure ev up now i fresh host user w body' s)))"
proof -
  have k: "channels_ok (snd (saveChannel up now i f w pv bt us tk ul (iw_db s)))" for f pv bt us tk ul
    using ok by simp
  show "channels_ok (iw_db (snd (snd (handleWorkspaceTelegramConfigure ev up now i user w body s))))"
    using ok k unfolding handleWorkspaceTelegramConfigure_def prod.case_eq_if by (simp split: option.split sum.split)
  show "channels_ok (iw_db (snd (snd (handleWorkspaceMatrixConfigure ev up now i user w body' s))))"
    using ok k unfolding handleWorkspaceMatrixConfigure_def prod.case_eq_if by (simp split: option.split sum.split)
  show "channels_ok (iw_db (snd (handleWorkspaceWhatsAppConfigure ev up now i fresh host user w body' s)))"
    using ok k unfolding handleWorkspaceWhatsAppConfigure_def prod.case_eq_if by (simp split: option.split sum.split)
qed

lemma run_actions_keep:
  "channels_ok (po_db s) \<Longrightarrow> channels_ok (po_db (fold (run_action sha enc fw upC up b) acts s))"
  by (induction acts arbitrary: s) (simp_all add: run_action_def prod.case_eq_if split: poll_action.split)

lemma poll_round_keeps:
  "channels_ok (po_db s) \<Longrightarrow> channels_ok (po_db (snd (poll_round sha enc fw upC up b res s)))"
  by (simp add: poll_round_def run_actions_keep split: poll_result.split)

text \<open>Binding by strategy: the shared sandbox is one of the workspace, a new one is created in it.\<close>

lemma GetSharedSandbox_ws:
  assumes "channels_ok d" and "GetSharedSandbox up d w = Inr (Some i)" shows "sbx_ws d i = Some w"
proof -
  let ?rs = "filter (\<lambda>r. sb_ws r = w \<and> sb_status r = StatusRunning \<and> binding_count d (sb_id r) > 0)
    (sv_sandboxes (im_srv d))"
  let ?k = "sort_key (\<lambda>r. - int (binding_count d (sb_id r))) (sort_key sb_created ?rs)"
  from assms(2) obtain r rest where r: "?k = r # rest" "i = sb_id r"
    by (auto simp: GetSharedSandbox_def split: if_splits list.splits)
  have "r \<in> set ?k" using r(1) by simp
  then have "r \<in> set (sv_sandboxes (im_srv d))" "sb_ws r = w" by auto
  with assms(1) r(2) find_key_unique [of sb_id "sv_sandboxes (im_srv d)" r] show ?thesis
    by (simp add: sbx_ws_def channels_ok_def)
qed

lemma adds_row_ok:
  assumes ok: "channels_ok d" and add: "adds_row i w l st c m (im_srv d) db1"
  shows "channels_ok (d\<lparr>im_srv := db1\<rparr>) \<and> sbx_ws (d\<lparr>im_srv := db1\<rparr>) i = Some w"
proof -
  from add obtain r where r: "sv_sandboxes db1 = sv_sandboxes (im_srv d) @ [r]" "sb_id r = i" "sb_ws r = w"
    and new: "i \<notin> sb_id ` set (sv_sandboxes (im_srv d))" by (auto simp: adds_row_def)
  have "find (\<lambda>x. sb_id x = i) (sv_sandboxes (im_srv d)) = None" using new by (auto simp: find_None_iff)
  then have "sbx_ws (d\<lparr>im_srv := db1\<rparr>) i = Some w" using r by (simp add: sbx_ws_def find_append)
  moreover have "same_ws (d\<lparr>im_srv := db1\<rparr>) s c" if "same_ws d s c" for s c
    using that r(1) by (auto simp: same_ws_def sbx_ws_def chan_ws_def find_append)
  ultimately show ?thesis using ok r new by (auto simp: channels_ok_def list_all_iff)
qed

lemma autoBindSandbox_ok:
  assumes ok: "channels_ok d" and r: "autoBindSandbox flt dur env up now pe w inp shared d = (res, d1)"
    and shared: "shared \<noteq> [] \<Longrightarrow> sbx_ws d shared = Some w"
  shows "channels_ok d1 \<and> im_channels d1 = im_channels d \<and> (\<forall>i opts. res = Inr (i, opts) \<longrightarrow> sbx_ws d1 i = Some w)"
proof (cases "shared = []")
  case False with assms show ?thesis by (auto simp: autoBindSandbox_def)
next
  case True
  obtain p db1 where p: "provisionSandbox flt dur env up now pe w inp (im_srv d) = (p, db1)" by (metis surj_pair)
  note c = provisionSandbox_cases [OF p]
  show ?thesis
  proof (cases p)
    case (Inl e) with ok c r True p show ?thesis by (cases e) (auto simp: autoBindSandbox_def)
  next
    case (Inr so)
    obtain x opts where so: "so = (x, opts)" by (metis surj_pair)
    from c Inr so obtain a b where "adds_row (pe_id pe) w False StatusCreating a b (im_srv d) db1" "x_id x = pe_id pe"
      by auto
    with adds_row_ok [OF ok this(1)] r True p Inr so show ?thesis by (auto simp: autoBindSandbox_def)
  qed
qed

lemma autobind_keeps:
  assumes ok: "channels_ok d"
  shows "channels_ok (snd (snd (handleChannelAutoBind flt dur env up now pe user w c body d)))"
proof (cases "requireWorkspaceRole (up 0) (im_srv d) user w [''owner'', ''maintainer'', ''developer'']")
  case (Some e) with ok show ?thesis by (cases e) (simp add: handleChannelAutoBind_def)
next
  case None
  show ?thesis
  proof (cases "\<exists>ch ws. GetIMChannel (up 1) d c = Inr (Some ch) \<and> ch_ws ch = w \<and> GetWorkspace (up 2) (im_srv d) w = Inr (Some ws)")
    case False
    with None ok show ?thesis by (auto simp: handleChannelAutoBind_def split: sum.split option.split)
  next
    case True
    then obtain ch ws where g: "GetIMChannel (up 1) d c = Inr (Some ch)" "ch_ws ch = w"
      "GetWorkspace (up 2) (im_srv d) w = Inr (Some ws)" by blast
    have cw: "chan_ws d c = Some w" using GetIMChannel_ws [OF g(1)] g(2) by simp
    define strategy where "strategy = (if w_routing ws = [] then ''shared'' else w_routing ws)"
    define shared where "shared = (if strategy = ''shared''
      then (case GetSharedSandbox (up 3) d w of Inr (Some i) \<Rightarrow> i | _ \<Rightarrow> []) else [])"
    have sh: "shared \<noteq> [] \<Longrightarrow> sbx_ws d shared = Some w"
      using GetSharedSandbox_ws [OF ok, of "up 3" w] by (auto simp: shared_def split: if_splits sum.splits option.splits)
    obtain res d1 where a: "autoBindSandbox flt dur env (\<lambda>k. up (4 + k)) now pe w (autoBindInput ch body) shared d = (res, d1)"
      by (metis surj_pair)
    note k = autoBindSandbox_ok [OF ok a sh]
    have b: "channels_ok (snd (autoBindChannel u now st i c d1))" if "res = Inr (i, opts)" for u st i opts
    proof -
      have "chan_ws d1 c = Some w" using k cw by (simp add: chan_ws_def)
      with k that have s: "same_ws d1 i c" by (simp add: same_ws_def)
      with k show ?thesis by (auto simp: autoBindChannel_def intro!: BindSandboxToChannel_ok BindSandboxChannels_ok)
    qed
    show ?thesis using ok k b
      unfolding handleChannelAutoBind_def None g option.case sum.case Let_def strategy_def [symmetric]
        shared_def [symmetric] a prod.case
      by (cases res) (auto simp: prod.case_eq_if option.case_eq_if)
  qed
qed

section \<open>Histories\<close>

text \<open>
  A step is a request to the bridge service, a round of a poller, or a change of the tables of the agent server
  by anyone else.
\<close>

inductive im_step :: "imw \<Rightarrow> imw \<Rightarrow> bool" where
  im_bind: "im_step s (snd (handleBindSandboxToChannel up now user sandbox body s))"
| im_multi: "im_step s (snd (handleBindSandboxChannelsMulti up now user sandbox cs s))"
| im_unbind: "im_step s (snd (handleUnbindSandboxFromChannel up user sandbox s))"
| im_autobind: "im_step s (s\<lparr>iw_db := snd (snd (handleChannelAutoBind flt dur env up now pe user w c body (iw_db s)))\<rparr>)"
| im_delete: "im_step s (snd (snd (handleDeleteWorkspaceIMChannel ev up user w c s)))"
| im_update: "im_step s (snd (handleUpdateWorkspaceIMChannel up user w c settings s))"
| im_telegram: "im_step s (snd (snd (handleIMTelegramConfigure ev up now i user sandbox body s)))"
| im_matrix: "im_step s (snd (snd (handleIMMatrixConfigure ev up now i user sandbox creds s)))"
| im_telegram_off: "im_step s (snd (snd (handleIMTelegramDisconnect up user sandbox s)))"
| im_matrix_off: "im_step s (snd (snd (handleIMMatrixDisconnect ev up user sandbox s)))"
| im_qr_start: "im_step s (snd (handleIMWeixinQRStart up now start user sandbox s))"
| im_qr_wait: "im_step s (snd (handleIMWeixinQRWait up now n base poll others again user sandbox s))"
| im_ws_qr_start: "im_step s (snd (handleWorkspaceWeixinQRStart up now start user w s))"
| im_ws_qr_wait: "im_step s (snd (snd (handleWorkspaceWeixinQRWait p up now i poll others again user w s)))"
| im_ws_telegram: "im_step s (snd (snd (handleWorkspaceTelegramConfigure ev up now i user w body s)))"
| im_ws_matrix: "im_step s (snd (snd (handleWorkspaceMatrixConfigure ev up now i user w creds s)))"
| im_ws_whatsapp: "im_step s (snd (handleWorkspaceWhatsAppConfigure ev up now i fresh host user w creds s))"
| im_send: "im_step s (snd (snd (handleImbridgeDirectSend ev up now header msg s)))"
| im_image: "im_step s (snd (snd (handleImbridgeDirectSendImage ev up now header img s)))"
| im_restore: "im_step s (snd (snd (handleRestorePollers ev one sandbox s)))"
| im_stop: "im_step s (snd (snd (handleStopPoller c s)))"
| im_poll: "po_db q = iw_db s \<Longrightarrow> po_bridge q = iw_bridge s \<Longrightarrow>
    q' = snd (poll_round sha enc fw upC ups b res q) \<Longrightarrow>
    im_step s (s\<lparr>iw_db := po_db q', iw_bridge := po_bridge q'\<rparr>)"
| im_server: "srv_change (im_srv (iw_db s)) db \<Longrightarrow> im_step s (s\<lparr>iw_db := prune ((iw_db s)\<lparr>im_srv := db\<rparr>)\<rparr>)"

inductive im_reach :: "imw \<Rightarrow> bool" where
  im_start: "im_bound (iw_db s) = [] \<Longrightarrow> im_channels (iw_db s) = [] \<Longrightarrow>
    distinct (map sb_id (sv_sandboxes (im_srv (iw_db s)))) \<Longrightarrow> im_reach s"
| im_more: "im_reach s \<Longrightarrow> im_step s s' \<Longrightarrow> im_reach s'"

lemma sends_db [simp]:
  "iw_db (snd (snd (handleImbridgeDirectSend ev up now header msg s))) = iw_db s"
  "iw_db (snd (snd (handleImbridgeDirectSendImage ev up now header img s))) = iw_db s"
  "iw_db (snd (snd (handleRestorePollers ev one sandbox s))) = iw_db s"
  "iw_db (snd (snd (handleStopPoller c s))) = iw_db s"
  by (simp_all add: handleImbridgeDirectSend_def handleImbridgeDirectSendImage_def handleRestorePollers_def
      handleStopPoller_def Let_def prod.case_eq_if split: option.split sum.split)

lemma im_step_keeps: "im_step s s' \<Longrightarrow> channels_ok (iw_db s) \<Longrightarrow> channels_ok (iw_db s')"
proof (induction rule: im_step.induct)
  case (im_poll q s q' sha enc fw upC ups b res)
  then show ?case using poll_round_keeps [of q sha enc fw upC ups b res] by simp
next
  case (im_server s db) then show ?case by (simp add: channels_ok_prune)
qed (simp_all add: bind_keeps multi_keeps unbind_keeps autobind_keeps delete_keeps update_keeps telegram_keeps matrix_keeps
    disconnects_keep weixin_keeps weixin_wait_keeps configure_keeps)

lemma im_reach_ok: "im_reach s \<Longrightarrow> channels_ok (iw_db s)"
proof (induction rule: im_reach.induct)
  case (im_start s) then show ?case by (simp add: channels_ok_def)
next
  case (im_more s s') then show ?case using im_step_keeps by blast
qed

section \<open>The sandbox of a channel\<close>

lemma bound_sandboxes_ws:
  assumes ok: "channels_ok d" and x: "x \<in> set (bound_sandboxes d c)"
  shows "x \<in> set (sv_sandboxes (im_srv d)) \<and> chan_ws d c = Some (sb_ws x)"
proof -
  from x obtain b where b: "b \<in> set (im_bound d)" "cb_channel b = c"
    and xs: "x \<in> set (sv_sandboxes (im_srv d))" "sb_id x = cb_sandbox b"
    by (auto simp: bound_sandboxes_def)
  have "find (\<lambda>r. sb_id r = sb_id x) (sv_sandboxes (im_srv d)) = Some x"
    using ok xs(1) by (intro find_key_unique) (simp_all add: channels_ok_def)
  moreover have "same_ws d (cb_sandbox b) (cb_channel b)" using ok b(1) by (simp add: channels_ok_def list_all_iff)
  ultimately show ?thesis using xs b(2) by (simp add: same_ws_def sbx_ws_def)
qed

text \<open>C33: Whatever requests were made, in whatever order and with whatever failures of the database: the sandbox
  to which the messages of a channel go, running or to be resumed, belongs to the workspace of the channel.\<close>

theorem bound_sandbox_of_workspace:
  assumes "im_reach s"
    and "GetSandboxForChannel assistant up (iw_db s) c = Inr (Some (i, r)) \<or>
         GetPausedSandboxForChannel up (iw_db s) c = Inr (Some i)"
  shows "\<exists>x\<in>set (sv_sandboxes (im_srv (iw_db s))). sb_id x = i \<and> chan_ws (iw_db s) c = Some (sb_ws x)"
proof -
  from assms(2) obtain x where x: "x \<in> set (bound_sandboxes (iw_db s) c)" "sb_id x = i"
    by (auto simp: GetSandboxForChannel_def GetSandboxForChannelViaBinding_def GetPausedSandboxForChannel_def
        split: if_splits dest!: find_Some_in)
  from bound_sandboxes_ws [OF im_reach_ok [OF assms(1)] x(1)] x(2) show ?thesis by blast
qed

section \<open>The webhook of a workspace\<close>

definition effect_channel :: "im_effect \<Rightarrow> string" where
  "effect_channel e =
     (case e of
        Forwarded (ToCodex p) \<Rightarrow> cx_channel p
      | Forwarded (ToOpenclaw p) \<Rightarrow> ot_channel p
      | Forwarded (SendText cd _ _) \<Rightarrow> cd_channel cd
      | SentText _ cd _ _ _ \<Rightarrow> cd_channel cd
      | SentImage _ cd _ _ _ _ \<Rightarrow> cd_channel cd
      | ConfiguredE2EE cd _ \<Rightarrow> cd_channel cd
      | Hook (OnPollerStart b) \<Rightarrow> bb_channel b
      | Hook (OnPollerStop b) \<Rightarrow> bb_channel b
      | Disconnected _ _ _ \<Rightarrow> [])"

definition effect_ws :: "im_effect \<Rightarrow> string \<Rightarrow> bool" where
  "effect_ws e w =
     (case e of
        Forwarded (ToCodex p) \<Rightarrow> cx_ws p = w
      | Forwarded (SendText cd _ _) \<Rightarrow> cd_ws cd = w
      | SentText _ cd _ _ _ \<Rightarrow> cd_ws cd = w
      | _ \<Rightarrow> True)"

lemma forwardMessage_channel:
  assumes "e \<in> set (snd (forwardMessage sha enc fw g b m))" and "cd_channel (bb_creds b) = bb_channel b"
    and "cd_ws (bb_creds b) = bb_ws b"
  shows "effect_channel (Forwarded e) = bb_channel b \<and> effect_ws (Forwarded e) (bb_ws b)"
  using assms
  by (auto simp: forwardMessage_def forwardToCodex_def forwardToOpenclaw_def Let_def effect_channel_def effect_ws_def
      split: if_splits option.splits)

lemma DispatchInbound_channel:
  assumes e: "e \<in> set (snd (DispatchInbound sha enc fw ps up d g c m))" and w: "chan_ws d c = Some w"
  shows "effect_channel (Forwarded e) = c \<and> effect_ws (Forwarded e) w"
proof -
  from e obtain ch p where ch: "DispatchInboundChannel up d c = Inr (Some ch)"
    and ev: "e \<in> set (snd (forwardMessage sha enc fw g \<lparr>bb_provider = p, bb_creds = channel_creds ch,
      bb_channel = c, bb_cursor = [], bb_ws = ch_ws ch, bb_routing = ch_routing ch\<rparr> m))"
    by (auto simp: DispatchInbound_def split: sum.splits option.splits)
  from ch w have "ch_id ch = c" "ch_ws ch = w"
    by (auto simp: DispatchInboundChannel_def chan_ws_def finishIMChannel_def dest: find_Some_in split: if_splits)
  with forwardMessage_channel [OF ev] show ?thesis by (simp add: channel_creds_def)
qed

lemma dispatchWhatsAppInbound_channel:
  assumes e: "e \<in> set (dispatchWhatsAppInbound ev up now d g ch sender from msg)"
    and w: "chan_ws d (ch_id ch) = Some (ch_ws ch)"
  shows "effect_channel e = ch_id ch \<and> effect_ws e (ch_ws ch)"
  using e DispatchInbound_channel [OF _ w]
  by (auto simp: dispatchWhatsAppInbound_def sendWhatsAppDirectText_def effect_channel_def effect_ws_def channel_creds_def
      split: if_splits)

lemma waChange_channel:
  assumes e: "e \<in> set (waChange ev up now d g lookup ch)"
  obtains c where "lookup (up 0) (wh_phone ch) = Inr (Some c)"
    and "chan_ws d (ch_id c) = Some (ch_ws c) \<longrightarrow> effect_channel e = ch_id c \<and> effect_ws e (ch_ws c)"
proof -
  obtain c where c: "lookup (up 0) (wh_phone ch) = Inr (Some c)"
  proof (cases "lookup (up 0) (wh_phone ch)")
    case Inl with e show thesis by (simp add: waChange_def split: if_splits)
  next
    case (Inr co) with e that show thesis by (cases co) (simp_all add: waChange_def split: if_splits)
  qed
  with e dispatchWhatsAppInbound_channel show thesis
    by (intro that [OF c]) (auto simp: waChange_def split: if_splits)
qed

lemma FindIMChannelByWorkspaceAndBot_ws:
  assumes ok: "channels_ok d" and f: "FindIMChannelByWorkspaceAndBot up d w provider bt = Inr (Some c)"
  shows "ch_ws c = w \<and> chan_ws d (ch_id c) = Some w"
proof -
  from f obtain r where r: "r \<in> set (im_channels d)" "cr_ws r = w" "c = finishIMChannel r"
    by (auto simp: FindIMChannelByWorkspaceAndBot_def split: if_splits dest!: find_Some_in)
  have "find (\<lambda>x. cr_id x = cr_id r) (im_channels d) = Some r"
    using ok r(1) by (intro find_key_unique) (simp_all add: channels_ok_def)
  with r show ?thesis by (simp add: chan_ws_def finishIMChannel_def)
qed

text \<open>C13: Whatever a delivery to the webhook of a workspace contains: it has an effect only if its signature is
  valid (when a secret is configured, which it is when signatures are required), and every effect concerns a
  channel of that workspace.\<close>

theorem whatsapp_webhook_isolated:
  assumes "im_reach s"
    and "e \<in> set (snd (handleWhatsAppWebhookInboundPerWorkspace ev up now w header (Some (raw, decoded)) s))"
  shows "(whatsappHMACRequired ev \<longrightarrow> ev_appSecret ev \<noteq> []) \<and>
    (ev_appSecret ev \<noteq> [] \<longrightarrow> verifyWhatsAppSignature (ev_hmac ev) header raw (ev_appSecret ev)) \<and>
    chan_ws (iw_db s) (effect_channel e) = Some w \<and> effect_ws e w"
proof -
  let ?l = "\<lambda>u phone. FindIMChannelByWorkspaceAndBot u (iw_db s) w ''whatsapp'' phone"
  from assms(2) obtain n ch where c: "e \<in> set (waChange ev (up n) now (iw_db s) (iw_bridge s) ?l ch)"
    and g: "whatsappHMACRequired ev \<longrightarrow> ev_appSecret ev \<noteq> []"
      "ev_appSecret ev \<noteq> [] \<longrightarrow> verifyWhatsAppSignature (ev_hmac ev) header raw (ev_appSecret ev)"
    by (auto simp: handleWhatsAppWebhookInboundPerWorkspace_def waInbound_def split: if_splits option.splits)
  from waChange_channel [OF c] obtain x where x: "?l (up n 0) (wh_phone ch) = Inr (Some x)"
    and i: "chan_ws (iw_db s) (ch_id x) = Some (ch_ws x) \<longrightarrow> effect_channel e = ch_id x \<and> effect_ws e (ch_ws x)"
    by blast
  from FindIMChannelByWorkspaceAndBot_ws [OF im_reach_ok [OF assms(1)] x] i g show ?thesis by simp
qed

section \<open>At most once\<close>

text \<open>
  The messenger keeps the messages of an account in order, in \<open>log\<close>; \<open>pos\<close> is the place in it that a cursor stands
  for, and a poll answers with the next messages.  The process may die between any two actions of the poller, before
  or after the cursor is saved and between two messages; a new poller then starts from the saved cursor.  The events
  of \<open>po_events\<close> are what really left the poller, over all restarts.  One poller runs at a time: the two that overlap
  while \<open>StartPoller\<close> replaces a poller are not covered.
\<close>

definition saved_cursor :: "im_db \<Rightarrow> string \<Rightarrow> string" where
  "saved_cursor d c = (case find (\<lambda>r. cr_id r = c) (im_channels d) of Some r \<Rightarrow> coalesce (cr_cursor r) | None \<Rightarrow> [])"

text \<open>The messages that a poll may return, with the cursor that comes with them.\<close>

definition next_batch ::
  "(string \<Rightarrow> nat) \<Rightarrow> InboundMessage list \<Rightarrow> string \<Rightarrow> InboundMessage list \<Rightarrow> string \<Rightarrow> bool" where
  "next_batch pos log cursor ms new \<longleftrightarrow>
     ms = take (length ms) (drop (pos cursor) log) \<and> pos new = pos cursor + length ms \<and> (ms = [] \<or> new \<noteq> [])"

inductive poll_step ::
  "(string \<Rightarrow> string) \<Rightarrow> (string \<Rightarrow> string) \<Rightarrow> (string \<Rightarrow> nat) \<Rightarrow> InboundMessage list \<Rightarrow> BridgeBinding \<Rightarrow>
     poll_state \<Rightarrow> poll_state \<Rightarrow> bool"
  for sha enc pos log b where
  poll_quiet: "res = PollError \<or> res = PollBackoff dl \<Longrightarrow>
    poll_step sha enc pos log b s (snd (poll_round sha enc fw True ups b res s))"
| poll_batch: "next_batch pos log (po_cursor s) ms new \<Longrightarrow>
    poll_step sha enc pos log b s (snd (poll_round sha enc fw True ups b (PollResult ms new) s))"
| poll_crash: "next_batch pos log (po_cursor s) ms new \<Longrightarrow>
    s' = fold (run_action sha enc fw True ups b) (take j (poll_actions (po_cursor s) ms new)) s \<Longrightarrow>
    poll_step sha enc pos log b s
      (s'\<lparr>po_cursor := saved_cursor (po_db s') (bb_channel b), po_failures := 0, po_bridge := g\<rparr>)"
| poll_other: "has_channel (po_db s') (bb_channel b) \<Longrightarrow>
    saved_cursor (po_db s') (bb_channel b) = saved_cursor (po_db s) (bb_channel b) \<Longrightarrow>
    po_cursor s' = po_cursor s \<Longrightarrow> po_events s' = po_events s \<Longrightarrow> poll_step sha enc pos log b s s'"

inductive polls ::
  "(string \<Rightarrow> string) \<Rightarrow> (string \<Rightarrow> string) \<Rightarrow> (string \<Rightarrow> nat) \<Rightarrow> InboundMessage list \<Rightarrow> BridgeBinding \<Rightarrow>
     poll_state \<Rightarrow> bool"
  for sha enc pos log b where
  polls_start: "has_channel (po_db s) (bb_channel b) \<Longrightarrow> po_cursor s = saved_cursor (po_db s) (bb_channel b) \<Longrightarrow>
    po_events s = [] \<Longrightarrow> polls sha enc pos log b s"
| polls_more: "polls sha enc pos log b s \<Longrightarrow> poll_step sha enc pos log b s s' \<Longrightarrow> polls sha enc pos log b s'"

text \<open>The events are those of forwarding the messages at the given places of the log, one after the other.\<close>

inductive forwards ::
  "(string \<Rightarrow> string) \<Rightarrow> (string \<Rightarrow> string) \<Rightarrow> InboundMessage list \<Rightarrow> BridgeBinding \<Rightarrow> nat list \<Rightarrow> forward_event list \<Rightarrow> bool"
  for sha enc log b where
  forwards_none: "forwards sha enc log b [] []"
| forwards_more: "forwards sha enc log b ps es \<Longrightarrow> p < length log \<Longrightarrow>
    es' = snd (forwardMessage sha enc fw g b (log ! p)) \<Longrightarrow> forwards sha enc log b (ps @ [p]) (es @ es')"

definition action_msgs :: "poll_action list \<Rightarrow> InboundMessage list" where
  "action_msgs acts = concat (map (\<lambda>a. case a of ForwardMsg n m \<Rightarrow> [m] | _ \<Rightarrow> []) acts)"

definition saves :: "poll_action list \<Rightarrow> bool" where
  "saves acts \<longleftrightarrow> list_ex (\<lambda>a. case a of SaveCursor c \<Rightarrow> True | _ \<Rightarrow> False) acts"

lemma action_msgs_simps [simp]:
  "action_msgs [] = []"
  "action_msgs (a # acts) = (case a of ForwardMsg n m \<Rightarrow> [m] | _ \<Rightarrow> []) @ action_msgs acts"
  "action_msgs (acts @ acts') = action_msgs acts @ action_msgs acts'"
  by (simp_all add: action_msgs_def)

lemma action_msgs_metas [simp]: "action_msgs (map (\<lambda>(k, a, v). SaveMeta n k u a v) kvs) = []"
  by (induction kvs) auto

lemma action_msgs_concat: "action_msgs (concat (map message_actions (List.enumerate n ms))) = ms"
  by (induction ms arbitrary: n) (simp_all add: message_actions_def)

lemma saves_messages: "\<not> saves (take j (concat (map message_actions xs)))"
proof
  assume "saves (take j (concat (map message_actions xs)))"
  then show False
    by (auto simp: saves_def list_ex_iff message_actions_def dest!: in_set_takeD split: poll_action.splits)
qed

lemma action_msgs_take: "\<exists>i. action_msgs (take j acts) = take i (action_msgs acts)"
proof -
  have "action_msgs acts = action_msgs (take j acts) @ action_msgs (drop j acts)"
    by (metis action_msgs_simps(3) append_take_drop_id)
  then show ?thesis by (metis append_eq_conv_conj)
qed

text \<open>Actions without a save forward their messages and leave the cursors.\<close>

lemma run_actions_forward:
  assumes "\<not> saves acts" and "forwards sha enc log b ps (po_events s)"
    and "action_msgs acts = map ((!) log) qs" and "\<And>q. q \<in> set qs \<Longrightarrow> q < length log"
    and "t = fold (run_action sha enc fw up ups b) acts s"
  shows "forwards sha enc log b (ps @ qs) (po_events t) \<and> po_cursor t = po_cursor s \<and>
    im_channels (po_db t) = im_channels (po_db s)"
  using assms
proof (induction acts arbitrary: s ps qs)
  case Nil then show ?case by simp
next
  case (Cons a acts)
  let ?s = "run_action sha enc fw up ups b a s"
  have t: "t = fold (run_action sha enc fw up ups b) acts ?s" using Cons.prems(5) by simp
  have na: "\<not> saves acts" using Cons.prems(1) by (simp add: saves_def)
  show ?case
  proof (cases a)
    case (SaveCursor c) with Cons.prems(1) show ?thesis by (simp add: saves_def)
  next
    case (SaveMeta n k user key v)
    have s': "po_events ?s = po_events s" "po_cursor ?s = po_cursor s"
      "im_channels (po_db ?s) = im_channels (po_db s)"
      by (simp_all add: SaveMeta run_action_def UpsertChannelMeta_def)
    with Cons.IH [OF na, of ps ?s qs, OF _ _ Cons.prems(4) t] Cons.prems(2,3) SaveMeta show ?thesis by simp
  next
    case (ForwardMsg n m)
    with Cons.prems(3) obtain q rest where q: "qs = q # rest" "m = log ! q" "action_msgs acts = map ((!) log) rest"
      by (cases qs) auto
    have s': "po_events ?s = po_events s @ snd (forwardMessage sha enc (fw n) (po_bridge s) b (log ! q))"
      "po_cursor ?s = po_cursor s" "po_db ?s = po_db s"
      by (simp_all add: ForwardMsg run_action_def q(2) prod.case_eq_if)
    have "forwards sha enc log b (ps @ [q]) (po_events ?s)"
      unfolding s'(1) by (rule forwards_more [OF Cons.prems(2) _ refl]) (simp add: Cons.prems(4) q(1))
    from Cons.IH [OF na this q(3) _ t] Cons.prems(4) q(1) s'(2,3) show ?thesis by simp
  qed
qed

lemma save_cursor_state:
  assumes c: "has_channel (po_db s) (bb_channel b)" and t: "t = run_action sha enc fw True ups b (SaveCursor new) s"
  shows "has_channel (po_db t) (bb_channel b) \<and> po_cursor t = new \<and>
    saved_cursor (po_db t) (bb_channel b) = new \<and> po_events t = po_events s"
proof -
  have u: "find (\<lambda>r. cr_id r = x) (update_rows (\<lambda>r. cr_id r = x) (\<lambda>r. r\<lparr>cr_cursor := v\<rparr>) rs) =
      map_option (\<lambda>r. r\<lparr>cr_cursor := v\<rparr>) (find (\<lambda>r. cr_id r = x) rs)" for x v and rs :: "channel_row list"
    by (induction rs) auto
  have h: "list_ex (\<lambda>r. cr_id r = x) (update_rows (\<lambda>r. cr_id r = y) (\<lambda>r. r\<lparr>cr_cursor := v\<rparr>) rs) =
      list_ex (\<lambda>r. cr_id r = x) rs" for x y v and rs :: "channel_row list"
    by (induction rs) auto
  from c obtain r where r: "find (\<lambda>r. cr_id r = bb_channel b) (im_channels (po_db s)) = Some r"
    by (cases "find (\<lambda>r. cr_id r = bb_channel b) (im_channels (po_db s))")
       (auto simp: has_channel_def list_ex_iff find_None_iff)
  show ?thesis using c r
    by (simp add: t run_action_def saved_cursor_def has_channel_def UpdateIMChannelCursor_def
        update_channel_def u h coalesce_def)
qed

definition polls_inv ::
  "(string \<Rightarrow> string) \<Rightarrow> (string \<Rightarrow> string) \<Rightarrow> (string \<Rightarrow> nat) \<Rightarrow> InboundMessage list \<Rightarrow> BridgeBinding \<Rightarrow> poll_state \<Rightarrow> bool"
  where
  "polls_inv sha enc pos log b s \<longleftrightarrow>
     has_channel (po_db s) (bb_channel b) \<and> po_cursor s = saved_cursor (po_db s) (bb_channel b) \<and>
     (\<exists>ps. forwards sha enc log b ps (po_events s) \<and> sorted_wrt (<) ps \<and> list_all (\<lambda>p. p < pos (po_cursor s)) ps)"

lemma polls_inv_frame:
  assumes "polls_inv sha enc pos log b s" and "po_events t = po_events s" and "has_channel (po_db t) (bb_channel b)"
    and "po_cursor t = saved_cursor (po_db t) (bb_channel b)" and "pos (po_cursor t) = pos (po_cursor s)"
  shows "polls_inv sha enc pos log b t"
  using assms unfolding polls_inv_def by metis

lemma batch_places:
  assumes "ms = take (length ms) (drop p log)"
  obtains q where "take i ms = map ((!) log) [p..<q]" and "p \<le> q" and "q \<le> p + length ms" and "q \<le> max p (length log)"
proof
  have "length ms \<le> length log - p" using assms by (metis length_drop length_take min.cobounded1)
  moreover have "take i ms = take (length (take i ms)) (drop p log)"
    by (subst assms) (simp add: min.commute)
  moreover have "take n (drop p log) = map ((!) log) [p..<p + n]" if "n \<le> length log - p" for n
    using that by (intro nth_equalityI) auto
  ultimately show "take i ms = map ((!) log) [p..<p + length (take i ms)]" by simp
  show "p + length (take i ms) \<le> max p (length log)" using \<open>length ms \<le> length log - p\<close> by auto
qed simp_all

text \<open>Any number of the actions of a round, the cursor being saved first when there are messages.\<close>

lemma polls_inv_prefix:
  assumes inv: "polls_inv sha enc pos log b s" and nb: "next_batch pos log (po_cursor s) ms new"
    and t: "t = fold (run_action sha enc fw True ups b) (take j (poll_actions (po_cursor s) ms new)) s"
  shows "has_channel (po_db t) (bb_channel b) \<and> po_cursor t = saved_cursor (po_db t) (bb_channel b) \<and>
    polls_inv sha enc pos log b t"
proof (cases "take j (poll_actions (po_cursor s) ms new)")
  case Nil
  then have "t = s" unfolding t by (simp only: fold_simps)
  with inv show ?thesis unfolding polls_inv_def by metis
next
  case (Cons a acts)
  then obtain j' where j: "j = Suc j'" by (cases j) auto
  from inv obtain ps where ps: "forwards sha enc log b ps (po_events s)" "sorted_wrt (<) ps"
    "list_all (\<lambda>p. p < pos (po_cursor s)) ps" and h: "has_channel (po_db s) (bb_channel b)"
    by (auto simp: polls_inv_def)
  let ?all = "concat (map message_actions (List.enumerate 0 ms))"
  have "ms \<noteq> [] \<Longrightarrow> new \<noteq> [] \<and> new \<noteq> po_cursor s" using nb by (auto simp: next_batch_def)
  moreover have "ms = [] \<Longrightarrow> ?all = []" by simp
  ultimately have acts: "a = SaveCursor new" "acts = take j' ?all"
    using Cons j by (cases "new \<noteq> [] \<and> new \<noteq> po_cursor s"; fastforce simp: poll_actions_def)+
  define s1 where "s1 = run_action sha enc fw True ups b (SaveCursor new) s"
  note c1 = save_cursor_state [OF h s1_def]
  obtain i where i: "action_msgs acts = take i ms"
    using action_msgs_take [of j' ?all] by (auto simp: acts action_msgs_concat)
  have ms: "ms = take (length ms) (drop (pos (po_cursor s)) log)" using nb by (simp add: next_batch_def)
  obtain q where q: "action_msgs acts = map ((!) log) [pos (po_cursor s)..<q]"
    "q \<le> pos (po_cursor s) + length ms" "q \<le> max (pos (po_cursor s)) (length log)"
    using batch_places [OF ms, of i] i by metis
  have "fold (run_action sha enc fw True ups b) acts s1 = t" by (simp add: t Cons acts(1) s1_def)
  moreover have "\<not> saves acts" using saves_messages acts(2) by simp
  moreover have "forwards sha enc log b ps (po_events s1)" using ps(1) c1 by simp
  moreover have "p < length log" if "p \<in> set [pos (po_cursor s)..<q]" for p using that q(3) by auto
  ultimately have "forwards sha enc log b (ps @ [pos (po_cursor s)..<q]) (po_events t) \<and> po_cursor t = po_cursor s1 \<and>
      im_channels (po_db t) = im_channels (po_db s1)"
    using run_actions_forward [OF _ _ q(1)] by metis
  with c1 have f: "forwards sha enc log b (ps @ [pos (po_cursor s)..<q]) (po_events t)" "po_cursor t = new"
    "im_channels (po_db t) = im_channels (po_db s1)"
    by simp_all
  then have c: "has_channel (po_db t) (bb_channel b)" "po_cursor t = saved_cursor (po_db t) (bb_channel b)"
    using c1 by (simp_all add: has_channel_def saved_cursor_def)
  have "pos new = pos (po_cursor s) + length ms" using nb by (simp add: next_batch_def)
  with ps q(2) have "sorted_wrt (<) (ps @ [pos (po_cursor s)..<q])"
    "list_all (\<lambda>p. p < pos new) (ps @ [pos (po_cursor s)..<q])"
    by (fastforce simp: sorted_wrt_append list_all_iff)+
  with c f show ?thesis unfolding polls_inv_def by metis
qed

lemma polls_inv_step: "poll_step sha enc pos log b s t \<Longrightarrow> polls_inv sha enc pos log b s \<Longrightarrow> polls_inv sha enc pos log b t"
proof (induction rule: poll_step.induct)
  case (poll_quiet res dl s fw ups)
  then show ?case by (intro polls_inv_frame [OF poll_quiet.prems]) (auto simp: polls_inv_def poll_round_def)
next
  case (poll_batch s ms new fw ups)
  let ?s = "s\<lparr>po_failures := 0\<rparr>"
  have "polls_inv sha enc pos log b ?s" by (rule polls_inv_frame [OF poll_batch.prems]) (use poll_batch.prems in \<open>simp_all add: polls_inv_def\<close>)
  from polls_inv_prefix [OF this, of ms new _ fw ups "length (poll_actions (po_cursor s) ms new)", OF _ refl] poll_batch.hyps
  show ?case by (simp add: poll_round_def)
next
  case (poll_crash s ms new s' fw ups j g)
  note i = polls_inv_prefix [OF poll_crash.prems poll_crash.hyps]
  then show ?case by (intro polls_inv_frame [OF i [THEN conjunct2, THEN conjunct2]]) simp_all
next
  case (poll_other s' s)
  then show ?case by (intro polls_inv_frame [OF poll_other.prems]) (auto simp: polls_inv_def)
qed

text \<open>C35: As long as the database takes the cursor: whatever the messenger answers and wherever the process dies and is
  started again, also between the save of the cursor and the forwarding, the events that left the poller are those of
  forwarding messages of the messenger's log in their order, none of them twice, all of them before the saved cursor.
\<close>

theorem poll_at_most_once:
  assumes "polls sha enc pos log b s"
  shows "\<exists>ps. forwards sha enc log b ps (po_events s) \<and> sorted_wrt (<) ps \<and>
    list_all (\<lambda>p. p < pos (saved_cursor (po_db s) (bb_channel b))) ps"
proof -
  have "polls_inv sha enc pos log b s" using assms
  proof (induction rule: polls.induct)
    case (polls_start s)
    have "forwards sha enc log b [] (po_events s)" unfolding polls_start(3) by (rule forwards_none)
    moreover have "sorted_wrt (<) ([] :: nat list)" "list_all (\<lambda>p. p < pos (po_cursor s)) []" by simp_all
    ultimately show ?case using polls_start(1,2) unfolding polls_inv_def by blast
  next
    case (polls_more s s') then show ?case using polls_inv_step by blast
  qed
  then show ?thesis unfolding polls_inv_def by metis
qed

section \<open>Single requests\<close>

text \<open>A configuration starts its poller without a routing mode: what was chosen before is overridden by the default.\<close>

lemma configure_forgets_routing:
  "bb_routing b = [] \<Longrightarrow> (\<forall>m. fst (forwardMessage sha enc fw (snd (StartPoller b g)) b m) = fst (forwardToCodex enc fw b m))"
  by (auto simp: forwardMessage_def effectiveMode_def getChannelRoutingMode_def StartPoller_def Let_def coalesce_def
      split: option.split prod.split)

text \<open>The credentials of a restored poller have no scope: nothing sent with them is checked.\<close>

lemma restored_binding_unguarded:
  "CheckerForCredentials model toks url (Some (bb_creds (restored_binding p ch))) = NoopGuardrails"
proof -
  have "TrimSpace [] = []" by code_simp
  then show ?thesis by (simp add: CheckerForCredentials_def GuardrailsForChannel_def restored_binding_def)
qed

text \<open>A login by QR code is used up by the first request that sees it confirmed.\<close>

lemma qr_login_once:
  assumes "fst (qrConfirmed p up now i w r s) = Reply 200 x"
  shows "fst (qrConfirmed p' up' now' i' w r' (snd (snd (qrConfirmed p up now i w r s)))) =
    ErrorReply 409 ''login already processed''"
proof -
  have "iw_qr (snd (snd (qrConfirmed p up now i w r s))) w = None"
    using assms
    by (auto simp: qrConfirmed_def TakeSession_def Let_def prod.case_eq_if startBinding_def split: option.splits sum.splits)
  then show ?thesis by (simp add: qrConfirmed_def TakeSession_def)
qed

text \<open>With a scope configured no tax number is sent.\<close>

lemma direct_send_guarded:
  assumes "SentText n cd user msg meta \<in> set (fst (snd (handleImbridgeDirectSend ev up now header body s)))"
    and "TrimSpace (cd_scope cd) \<noteq> []" and "TrimSpace (ev_llmURL ev) \<noteq> []"
  shows "\<not> brazilCPFRegex msg \<or> TrimSpace msg = []"
proof -
  from assms(1) obtain ch where "cd = channel_creds ch"
    and "gd_allowed (CheckOutbound (ev_sha ev) (ev_llm ev) now (checkerForChannel ev ch) msg)"
    by (auto simp: handleImbridgeDirectSend_def Let_def split: option.splits sum.splits if_splits)
  with assms(2,3) show ?thesis
    by (auto simp: checkerForChannel_def GuardrailsForChannel_def channel_creds_def CheckOutbound_def split: if_splits)
qed

section \<open>A small site\<close>

definition small_srv :: srv_db where
  "small_srv =
     \<lparr>sv_users = [(''u'', ''u@x'')], sv_auth = [], sv_skill_drafts = [], sv_soul_drafts = [],
      sv_workspaces = [\<lparr>ws_id = ''w'', ws_name = ''w'', ws_slug = ''w'', ws_namespace = None, ws_routing = None,
        ws_created = 0, ws_updated = 0, ws_deleted = None\<rparr>],
      sv_members = [\<lparr>me_ws = ''w'', me_user = ''u'', me_role = ''developer'', me_created = 0\<rparr>],
      sv_sandboxes = [\<lparr>sb_id = ''s'', sb_ws = ''w'', sb_name = ''s'', sb_type = ''openclaw'', sb_status = StatusRunning,
        sb_local = False, sb_short = None, sb_sandbox = None, sb_pod = Some ''p'', sb_proxy = None, sb_opencode = None,
        sb_openclaw = None, sb_tunnel = None, sb_nanoclaw = None, sb_active = None, sb_created = 0, sb_paused = None,
        sb_beat = None, sb_cpu = None, sb_memory = None, sb_idle = None, sb_meta = []\<rparr>],
      sv_tokens = [], sv_codes = [], sv_settings = Map.empty, sv_user_quotas = Map.empty,
      sv_quotas = Map.empty, sv_tasks = [], sv_mail = [], sv_log = [], sv_compositions = Map.empty\<rparr>"

definition small_imw :: imw where
  "small_imw =
     \<lparr>iw_db = \<lparr>im_srv = small_srv, im_channels = [], im_meta = Map.empty, im_bound = [], im_bindings = [],
        im_pmeta = Map.empty, im_messages = []\<rparr>, iw_bridge = NewBridge, iw_qr = Map.empty\<rparr>"

definition small_provider :: "string \<Rightarrow> im_provider" where
  "small_provider n = \<lparr>pv_name = n, pv_suffix = [], pv_typing = True, pv_lifecycle = False, pv_image = False,
     pv_config = True, pv_disconnect = False, pv_crypto = False, pv_default = []\<rparr>"

definition small_env :: im_env where
  "small_env =
     \<lparr>ev_sha = id, ev_hmac = (\<lambda>k m. k @ m), ev_enc = id, ev_dec = Inr,
      ev_llm = \<lparr>lm_token = (\<lambda>_. None), lm_ask = (\<lambda>_ _ _ _ _. None), lm_inScope = (\<lambda>_. None)\<rparr>, ev_llmURL = [],
      ev_model = [], ev_providers = [small_provider ''whatsapp''],
      ev_forward = (\<lambda>_. \<lparr>fw_codex = (\<lambda>_. Some 202), fw_openclaw = (\<lambda>_. None), fw_send = (\<lambda>_ _ _. True)\<rparr>),
      ev_send = (\<lambda>_ _ _ _ _. True), ev_image = (\<lambda>_ _ _ _ _ _. True), ev_validate = (\<lambda>_ _ t. Inr t),
      ev_secret = [], ev_appSecret = ''k'', ev_hmacRequired = ''true'', ev_verifyToken = [], ev_domain = []\<rparr>"

text \<open>A member configures the number 1 and binds the sandbox to it.\<close>

definition small_imw1 :: imw where
  "small_imw1 = snd (handleWorkspaceWhatsAppConfigure small_env (\<lambda>_. True) 1 ''c'' (Some ''x'') ''h'' ''u'' ''w''
     (Some (''1'', ''t'', [])) small_imw)"

definition small_imw2 :: imw where
  "small_imw2 = snd (handleBindSandboxToChannel (\<lambda>_. True) 2 ''u'' ''s'' (Some ''c'') small_imw1)"

lemma small_imw_reach: "im_reach small_imw" "im_reach small_imw1" "im_reach small_imw2"
proof -
  show a: "im_reach small_imw" by (rule im_start) (simp_all add: small_imw_def small_srv_def)
  show b: "im_reach small_imw1" unfolding small_imw1_def by (rule im_more [OF a im_ws_whatsapp])
  show "im_reach small_imw2" unfolding small_imw2_def by (rule im_more [OF b im_bind])
qed

lemma small_bound: "GetSandboxForChannel id True (iw_db small_imw2) ''c'' = Inr (Some (''s'', ''p'', [], []))"
  by code_simp

theorem bound_sandbox_of_workspace_witness:
  "\<exists>x\<in>set (sv_sandboxes (im_srv (iw_db small_imw2))). sb_id x = ''s'' \<and> chan_ws (iw_db small_imw2) ''c'' = Some (sb_ws x)"
  by (rule bound_sandbox_of_workspace [OF small_imw_reach(3)]) (rule disjI1, rule small_bound)

definition small_delivery :: "(string \<times> wa_change list list option)" where
  "small_delivery = (''b'', Some [[\<lparr>wh_field = ''messages'', wh_phone = ''1'', wh_contacts = [],
     wh_messages = [\<lparr>wm_from = ''7'', wm_type = ''text'', wm_body = ''hi''\<rparr>]\<rparr>]])"

definition small_header :: string where "small_header = ''sha256='' @ hex_of ''kb''"

lemma small_effects:
  "map effect_channel (snd (handleWhatsAppWebhookInboundPerWorkspace small_env (\<lambda>_ _. True) 3 ''w'' small_header
     (Some small_delivery) small_imw1)) = [''c'']"
  by code_simp

theorem whatsapp_webhook_isolated_witness:
  "\<exists>e\<in>set (snd (handleWhatsAppWebhookInboundPerWorkspace small_env (\<lambda>_ _. True) 3 ''w'' small_header
      (Some small_delivery) small_imw1)).
     verifyWhatsAppSignature (ev_hmac small_env) small_header (fst small_delivery) (ev_appSecret small_env) \<and>
     chan_ws (iw_db small_imw1) (effect_channel e) = Some ''w''"
proof -
  let ?es = "snd (handleWhatsAppWebhookInboundPerWorkspace small_env (\<lambda>_ _. True) 3 ''w'' small_header
      (Some small_delivery) small_imw1)"
  from small_effects obtain e where e: "e \<in> set ?es" by (cases ?es) auto
  have r: "ev_appSecret small_env \<noteq> []" by (simp add: small_env_def)
  have d: "small_delivery = (fst small_delivery, snd small_delivery)" by simp
  note i = whatsapp_webhook_isolated [OF small_imw_reach(2), of e small_env "\<lambda>_ _. True" 3 "''w''" small_header
      "fst small_delivery" "snd small_delivery"]
  from i [folded prod.collapse] e r show ?thesis by auto
qed

text \<open>A poller of the channel reads one message.\<close>

definition small_binding :: BridgeBinding where
  "small_binding = new_binding (small_provider ''telegram'') ''w'' ''c'' ''b'' ''t'' []"

definition small_message :: InboundMessage where
  "small_message = \<lparr>ib_from = ''7'', ib_sender = [], ib_text = ''hi'', ib_metadata = [], ib_media = [],
     ib_mediaType = [], ib_qtext = [], ib_qmedia = [], ib_qmediaType = [], ib_qsender = []\<rparr>"

definition small_poll :: poll_state where
  "small_poll = \<lparr>po_db = iw_db small_imw1, po_bridge = NewBridge, po_cursor = [], po_failures = 0, po_events = []\<rparr>"

text \<open>The process dies after the first of two messages, and the new poller goes on behind both.\<close>

definition small_crash :: poll_state where
  "small_crash =
     (let s = fold (run_action id id (\<lambda>_. ev_forward small_env []) True (\<lambda>_ _. True) small_binding)
        (take 2 (poll_actions [] [small_message, small_message] ''12'')) small_poll in
      s\<lparr>po_cursor := saved_cursor (po_db s) (bb_channel small_binding), po_failures := 0, po_bridge := NewBridge\<rparr>)"

theorem poll_at_most_once_witness:
  "\<exists>ps. forwards id id [small_message, small_message] small_binding ps (po_events small_crash) \<and>
     sorted_wrt (<) ps \<and> list_all (\<lambda>p. p < length (saved_cursor (po_db small_crash) (bb_channel small_binding))) ps \<and>
     length (po_events small_crash) = 1 \<and> po_cursor small_crash = ''12''"
proof -
  have "polls id id length [small_message, small_message] small_binding small_poll"
  proof (rule polls_start)
    show "has_channel (po_db small_poll) (bb_channel small_binding)" by code_simp
    show "po_cursor small_poll = saved_cursor (po_db small_poll) (bb_channel small_binding)" by code_simp
    show "po_events small_poll = []" by code_simp
  qed
  moreover have "next_batch length [small_message, small_message] (po_cursor small_poll)
      [small_message, small_message] ''12''"
    by (simp add: next_batch_def small_poll_def)
  moreover have "po_cursor small_poll = []" by (simp add: small_poll_def)
  ultimately have "polls id id length [small_message, small_message] small_binding small_crash"
    unfolding small_crash_def Let_def by (metis polls_more poll_crash)
  note p = poll_at_most_once [OF this]
  moreover have "length (po_events small_crash) = 1 \<and> po_cursor small_crash = ''12''" by code_simp
  ultimately show ?thesis by blast
qed

text \<open>Two workspaces may name the same number; the route without a workspace goes to the one that named it first.\<close>

definition rival_imw :: imw where
  "rival_imw = small_imw\<lparr>iw_db := (iw_db small_imw)\<lparr>im_channels :=
     [\<lparr>cr_id = ''c1'', cr_ws = ''first'', cr_provider = ''whatsapp'', cr_bot = ''1'', cr_user = [], cr_token = Some [],
       cr_url = Some [], cr_cursor = Some [], cr_mention = False, cr_routing = ''codex'', cr_scope = None,
       cr_verify = None, cr_bound = 1\<rparr>,
      \<lparr>cr_id = ''c2'', cr_ws = ''w'', cr_provider = ''whatsapp'', cr_bot = ''1'', cr_user = [], cr_token = Some [],
       cr_url = Some [], cr_cursor = Some [], cr_mention = False, cr_routing = ''codex'', cr_scope = None,
       cr_verify = None, cr_bound = 2\<rparr>]\<rparr>\<rparr>"

lemma global_route_first_workspace:
  "map effect_channel (snd (handleWhatsAppWebhookInbound small_env (\<lambda>_ _. True) 3 small_header
     (Some small_delivery) rival_imw)) = [''c1'']"
  by code_simp

end
