(* ===== verification/Agent_Sessions.thy ===== *)
theory Agent_Sessions
  imports Im_Facts
begin

text \<open>
  The sessions of agents and their event logs (\<open>internal/db/agent_sessions.go\<close>) with the constraints of the
  migrations 014, 019, 020, 021 and 024, and the automations (\<open>internal/db/automations.go\<close>, migrations 046
  and 047), which refer to workspaces and channels.
\<close>

section \<open>Tables\<close>

record AgentSession =
  as_id :: string
  as_sandbox :: "string option"
  as_ws :: string
  as_title :: string
  as_status :: string
  as_epoch :: int
  as_tags :: "string list"
  as_channel :: "string option"
  as_created :: time
  as_updated :: time
  as_archived :: "time option"
  as_type :: string
  as_creator :: "string option"
  as_model :: "string option"
  as_mode :: string
  as_executor :: "string option"
  as_responder :: "string option"
  as_attached :: "time option"
  as_turn :: "string option"
  as_thread :: "string option"
  as_external :: "string option"
  as_source :: string

record AgentSessionEvent =
  ae_id :: nat
  ae_session :: string
  ae_event :: string
  ae_type :: string
  ae_source :: string
  ae_epoch :: int
  ae_payload :: string
  ae_ephemeral :: bool
  ae_created :: time

record AgentSessionWorker =
  aw_session :: string
  aw_epoch :: int
  aw_state :: string
  aw_meta :: "string option"
  aw_details :: "string option"
  aw_beat :: time
  aw_registered :: time

record internal_event =
  ie_id :: nat
  ie_session :: string
  ie_type :: string
  ie_payload :: string
  ie_compaction :: bool
  ie_agent :: "string option"
  ie_created :: time

record Automation =
  au_id :: string
  au_ws :: string
  au_name :: string
  au_skill :: string
  au_cron :: string
  au_channel :: string
  au_config :: string
  au_enabled :: bool
  au_last :: "time option"
  au_next :: "time option"
  au_error :: "string option"
  au_locked :: "time option"
  au_created :: time
  au_updated :: time

text \<open>\<open>ag_seq\<close> and \<open>ag_iseq\<close> are the sequences behind the two logs; a failed statement uses a number up.\<close>

record agent_db =
  ag_im :: im_db
  ag_sessions :: "AgentSession list"
  ag_events :: "AgentSessionEvent list"
  ag_seq :: nat
  ag_workers :: "AgentSessionWorker list"
  ag_internal :: "internal_event list"
  ag_iseq :: nat
  ag_autos :: "Automation list"

definition has_session :: "agent_db \<Rightarrow> string \<Rightarrow> bool" where
  "has_session a s \<longleftrightarrow> list_ex (\<lambda>r. as_id r = s) (ag_sessions a)"

text \<open>What goes with workspaces, sandboxes and channels that are deleted.\<close>

definition prune_agent :: "agent_db \<Rightarrow> agent_db" where
  "prune_agent a =
     (let srv = im_srv (ag_im a);
          a1 = a\<lparr>ag_sessions := filter (\<lambda>r. has_workspace srv (as_ws r) \<and>
                 (case as_sandbox r of Some i \<Rightarrow> has_sandbox srv i | None \<Rightarrow> True)) (ag_sessions a)\<rparr> in
      a1\<lparr>ag_events := filter (\<lambda>e. has_session a1 (ae_session e)) (ag_events a),
         ag_workers := filter (\<lambda>x. has_session a1 (aw_session x)) (ag_workers a),
         ag_internal := filter (\<lambda>e. has_session a1 (ie_session e)) (ag_internal a),
         ag_autos := filter (\<lambda>x. has_workspace srv (au_ws x) \<and> has_channel (ag_im a) (au_channel x)) (ag_autos a)\<rparr>)"

definition on_im :: "(im_db \<Rightarrow> 'e \<times> im_db) \<Rightarrow> agent_db \<Rightarrow> 'e \<times> agent_db" where
  "on_im f a = (case f (ag_im a) of (e, d) \<Rightarrow> (e, prune_agent (a\<lparr>ag_im := d\<rparr>)))"

section \<open>Sessions\<close>

text \<open>A new row; a session has at most one row per workspace and external identifier.\<close>

definition insert_session :: "agent_db \<Rightarrow> AgentSession \<Rightarrow> db_err option \<times> agent_db" where
  "insert_session a r =
     (if has_session a (as_id r) then (Some DuplicateKey, a)
      else if as_external r \<noteq> None \<and>
        list_ex (\<lambda>x. as_ws x = as_ws r \<and> as_external x = as_external r) (ag_sessions a) then (Some DuplicateKey, a)
      else if \<not> has_workspace (im_srv (ag_im a)) (as_ws r) \<or>
        (case as_sandbox r of Some i \<Rightarrow> \<not> has_sandbox (im_srv (ag_im a)) i | None \<Rightarrow> False) then (Some ForeignKey, a)
      else (None, a\<lparr>ag_sessions := ag_sessions a @ [r]\<rparr>))"

definition new_session :: "time \<Rightarrow> string \<Rightarrow> string option \<Rightarrow> string \<Rightarrow> string \<Rightarrow> AgentSession" where
  "new_session now i sandbox w title =
     \<lparr>as_id = i, as_sandbox = sandbox, as_ws = w, as_title = title, as_status = ''active'', as_epoch = 0,
      as_tags = [], as_channel = None, as_created = now, as_updated = now, as_archived = None, as_type = ''im'',
      as_creator = None, as_model = None, as_mode = ''bypass'', as_executor = None, as_responder = None,
      as_attached = None, as_turn = None, as_thread = None, as_external = None, as_source = ''agent''\<rparr>"

text \<open>No tags (\<open>None\<close>) are an empty list.\<close>

definition CreateAgentSession ::
  "bool \<Rightarrow> time \<Rightarrow> agent_db \<Rightarrow> string \<Rightarrow> string option \<Rightarrow> string \<Rightarrow> string \<Rightarrow> string list option \<Rightarrow>
     db_err option \<times> agent_db" where
  "CreateAgentSession up now a i sandbox w title tags =
     (if \<not> up then (Some DbDown, a)
      else insert_session a ((new_session now i sandbox w title)\<lparr>as_tags := (case tags of None \<Rightarrow> [] | Some ts \<Rightarrow> ts)\<rparr>))"

text \<open>The struct has no field for the external identifier and the source.\<close>

definition scan_session :: "AgentSession \<Rightarrow> AgentSession" where
  "scan_session r = r\<lparr>as_external := None, as_source := []\<rparr>"

definition GetAgentSession :: "bool \<Rightarrow> agent_db \<Rightarrow> string \<Rightarrow> db_err + AgentSession option" where
  "GetAgentSession up a i =
     (if \<not> up then Inl DbDown
      else Inr (map_option scan_session (find (\<lambda>r. as_id r = i) (ag_sessions a))))"

definition update_sessions ::
  "bool \<Rightarrow> agent_db \<Rightarrow> (AgentSession \<Rightarrow> bool) \<Rightarrow> (AgentSession \<Rightarrow> AgentSession) \<Rightarrow> db_err option \<times> agent_db" where
  "update_sessions up a P f =
     (if \<not> up then (Some DbDown, a)
      else (None, a\<lparr>ag_sessions := update_rows P f (ag_sessions a)\<rparr>))"

datatype session_stmt_err = AgentDb db_err | SessionNotActive string | SessionNotFound string

definition BumpAgentSessionEpoch ::
  "bool \<Rightarrow> time \<Rightarrow> agent_db \<Rightarrow> string \<Rightarrow> (session_stmt_err + int) \<times> agent_db" where
  "BumpAgentSessionEpoch up now a i =
     (let P = (\<lambda>r. as_id r = i \<and> as_status r = ''active'') in
      if \<not> up then (Inl (AgentDb DbDown), a)
      else (case find P (ag_sessions a) of
          None \<Rightarrow> (Inl (SessionNotActive i), a)
        | Some r \<Rightarrow>
            (Inr (as_epoch r + 1), a\<lparr>ag_sessions :=
               update_rows P (\<lambda>r. r\<lparr>as_epoch := as_epoch r + 1, as_updated := now\<rparr>) (ag_sessions a)\<rparr>)))"

definition GetAgentSessionEpoch :: "bool \<Rightarrow> agent_db \<Rightarrow> string \<Rightarrow> session_stmt_err + int" where
  "GetAgentSessionEpoch up a i =
     (if \<not> up then Inl (AgentDb DbDown)
      else (case find (\<lambda>r. as_id r = i) (ag_sessions a) of
          None \<Rightarrow> Inl (SessionNotFound i) | Some r \<Rightarrow> Inr (as_epoch r)))"

definition ArchiveAgentSession :: "bool \<Rightarrow> time \<Rightarrow> agent_db \<Rightarrow> string \<Rightarrow> db_err option \<times> agent_db" where
  "ArchiveAgentSession up now a i =
     update_sessions up a (\<lambda>r. as_id r = i)
       (\<lambda>r. r\<lparr>as_status := ''archived'', as_archived := Some now, as_updated := now\<rparr>)"

definition GetSessionByExternalID :: "bool \<Rightarrow> agent_db \<Rightarrow> string \<Rightarrow> string \<Rightarrow> db_err + AgentSession option" where
  "GetSessionByExternalID up a w ext =
     (if \<not> up then Inl DbDown
      else Inr (map_option scan_session (find (\<lambda>r. as_ws r = w \<and> as_external r = Some ext) (ag_sessions a))))"

definition SetSessionExternalID :: "bool \<Rightarrow> agent_db \<Rightarrow> string \<Rightarrow> string \<Rightarrow> db_err option \<times> agent_db" where
  "SetSessionExternalID up a i ext =
     (if \<not> up then (Some DbDown, a)
      else (case find (\<lambda>r. as_id r = i) (ag_sessions a) of
          None \<Rightarrow> (None, a)
        | Some r \<Rightarrow>
            if list_ex (\<lambda>x. as_id x \<noteq> i \<and> as_ws x = as_ws r \<and> as_external x = Some ext) (ag_sessions a)
            then (Some DuplicateKey, a)
            else (None, a\<lparr>ag_sessions :=
              update_rows (\<lambda>r. as_id r = i) (\<lambda>r. r\<lparr>as_external := Some ext\<rparr>) (ag_sessions a)\<rparr>)))"

definition SetSessionIMChannel :: "bool \<Rightarrow> agent_db \<Rightarrow> string \<Rightarrow> string \<Rightarrow> db_err option \<times> agent_db" where
  "SetSessionIMChannel up a i c = update_sessions up a (\<lambda>r. as_id r = i) (\<lambda>r. r\<lparr>as_channel := Some c\<rparr>)"

record tui_params =
  tp_id :: string
  tp_ws :: string
  tp_external :: string
  tp_title :: string
  tp_creator :: string
  tp_mode :: string
  tp_executor :: string
  tp_model :: string

definition CreateAgentSessionTUI :: "bool \<Rightarrow> time \<Rightarrow> agent_db \<Rightarrow> tui_params \<Rightarrow> db_err option \<times> agent_db" where
  "CreateAgentSessionTUI up now a p =
     (if \<not> up then (Some DbDown, a)
      else insert_session a ((new_session now (tp_id p) None (tp_ws p) (tp_title p))
        \<lparr>as_source := ''tui'', as_type := ''tui'', as_external := Some (tp_external p),
         as_creator := Some (tp_creator p), as_mode := (if tp_mode p = [] then ''ask'' else tp_mode p),
         as_executor := nullif_empty (tp_executor p), as_model := nullif_empty (tp_model p)\<rparr>))"

text \<open>The turn that holds a session.\<close>

definition ClaimActiveTurn :: "bool \<Rightarrow> time \<Rightarrow> agent_db \<Rightarrow> string \<Rightarrow> string \<Rightarrow> (db_err + bool) \<times> agent_db" where
  "ClaimActiveTurn up now a i turn =
     (let P = (\<lambda>r. as_id r = i \<and> as_turn r = None) in
      if \<not> up then (Inl DbDown, a)
      else (Inr (length (filter P (ag_sessions a)) = 1),
            a\<lparr>ag_sessions := update_rows P (\<lambda>r. r\<lparr>as_turn := Some turn, as_updated := now\<rparr>) (ag_sessions a)\<rparr>))"

definition GetActiveTurn :: "bool \<Rightarrow> agent_db \<Rightarrow> string \<Rightarrow> db_err + string" where
  "GetActiveTurn up a i =
     (if \<not> up then Inl DbDown
      else Inr (case find (\<lambda>r. as_id r = i) (ag_sessions a) of Some r \<Rightarrow> coalesce (as_turn r) | None \<Rightarrow> []))"

definition ClearActiveTurn :: "bool \<Rightarrow> time \<Rightarrow> agent_db \<Rightarrow> string \<Rightarrow> string \<Rightarrow> db_err option \<times> agent_db" where
  "ClearActiveTurn up now a i turn =
     update_sessions up a (\<lambda>r. as_id r = i \<and> as_turn r = Some turn)
       (\<lambda>r. r\<lparr>as_turn := None, as_updated := now\<rparr>)"

text \<open>The responder of a session: the previous responder and preferred executor, and the change.\<close>

definition AttachResponder ::
  "bool \<Rightarrow> time \<Rightarrow> agent_db \<Rightarrow> string \<Rightarrow> string \<Rightarrow> bool \<Rightarrow> (db_err + (string \<times> string)) \<times> agent_db" where
  "AttachResponder up now a i executor preferred =
     (if \<not> up then (Inl DbDown, a)
      else (Inr (case find (\<lambda>r. as_id r = i) (ag_sessions a) of
               Some r \<Rightarrow> (coalesce (as_responder r), coalesce (as_executor r)) | None \<Rightarrow> ([], [])),
            a\<lparr>ag_sessions := update_rows (\<lambda>r. as_id r = i)
              (\<lambda>r. r\<lparr>as_responder := Some executor,
                     as_executor := (if preferred then Some executor else as_executor r),
                     as_attached := Some now, as_updated := now\<rparr>) (ag_sessions a)\<rparr>))"

definition ClearResponder :: "bool \<Rightarrow> time \<Rightarrow> agent_db \<Rightarrow> string \<Rightarrow> db_err option \<times> agent_db" where
  "ClearResponder up now a i =
     update_sessions up a (\<lambda>r. as_id r = i)
       (\<lambda>r. r\<lparr>as_responder := None, as_attached := None, as_updated := now\<rparr>)"

definition SetSessionCodexThreadID :: "bool \<Rightarrow> agent_db \<Rightarrow> string \<Rightarrow> string option \<Rightarrow> db_err option \<times> agent_db" where
  "SetSessionCodexThreadID up a i thread = update_sessions up a (\<lambda>r. as_id r = i) (\<lambda>r. r\<lparr>as_thread := thread\<rparr>)"

definition ListStaleResponders :: "bool \<Rightarrow> agent_db \<Rightarrow> time \<Rightarrow> db_err + string list" where
  "ListStaleResponders up a cutoff =
     (if \<not> up then Inl DbDown
      else Inr (map as_id (filter (\<lambda>r. as_responder r \<noteq> None \<and>
             (case as_attached r of Some t \<Rightarrow> t < cutoff | None \<Rightarrow> False)) (ag_sessions a))))"

definition ListStaleActiveTurns :: "bool \<Rightarrow> agent_db \<Rightarrow> time \<Rightarrow> db_err + (string \<times> string) list" where
  "ListStaleActiveTurns up a cutoff =
     (if \<not> up then Inl DbDown
      else Inr (map (\<lambda>r. (as_id r, the (as_turn r)))
             (filter (\<lambda>r. as_turn r \<noteq> None \<and> as_updated r < cutoff) (ag_sessions a))))"

text \<open>\<open>LIKE ... ESCAPE '\'\<close>, and the escaping of a text.\<close>

fun like :: "string \<Rightarrow> string \<Rightarrow> bool" where
  "like [] t = (t = [])"
| "like (c # p) t =
     (if c = CHR ''%'' then (case t of [] \<Rightarrow> like p [] | x # xs \<Rightarrow> like p t \<or> like (c # p) xs)
      else (case t of
          [] \<Rightarrow> False
        | x # xs \<Rightarrow>
            if c = CHR 0x5C then (case p of [] \<Rightarrow> False | e # q \<Rightarrow> x = e \<and> like q xs)
            else (c = CHR ''_'' \<or> x = c) \<and> like p xs))"

definition like_escape :: "string \<Rightarrow> string" where
  "like_escape s = List.concat (map (\<lambda>c. if c = CHR 0x5C \<or> c = CHR ''%'' \<or> c = CHR ''_'' then [CHR 0x5C, c] else [c]) s)"

record SessionListItem =
  sl_id :: string
  sl_external :: string
  sl_title :: string
  sl_activity :: time
  sl_responder :: "string option"

definition ListSessionsByChannel ::
  "bool \<Rightarrow> agent_db \<Rightarrow> string \<Rightarrow> string \<Rightarrow> string \<Rightarrow> int \<Rightarrow> db_err + SessionListItem list" where
  "ListSessionsByChannel up a w kind executor limit0 =
     (let limit = (if limit0 \<le> 0 \<or> limit0 > 100 then 20 else limit0);
          pattern = like_escape kind @ '':'' @ like_escape executor @ '':%'' in
      if \<not> up then Inl DbDown
      else Inr (map (\<lambda>r. \<lparr>sl_id = as_id r, sl_external = coalesce (as_external r), sl_title = as_title r,
                         sl_activity = as_updated r, sl_responder = as_responder r\<rparr>)
             (take (nat limit) (sort_key (\<lambda>r. - as_updated r)
               (filter (\<lambda>r. as_ws r = w \<and> as_type r = kind \<and> as_archived r = None \<and>
                  (case as_external r of Some e \<Rightarrow> like pattern e | None \<Rightarrow> False)) (ag_sessions a))))))"

section \<open>Events\<close>

text \<open>
  One insertion: the number it got, \<open>Inr None\<close> for an event that is already there.  The number is taken before
  the conflict is seen.
\<close>

definition insert_event ::
  "time \<Rightarrow> string \<Rightarrow> AgentSessionEvent \<Rightarrow> agent_db \<Rightarrow> (db_err + nat option) \<times> agent_db" where
  "insert_event now s e a =
     (let n = ag_seq a; a1 = a\<lparr>ag_seq := Suc n\<rparr> in
      if list_ex (\<lambda>x. ae_event x = ae_event e) (ag_events a) then (Inr None, a1)
      else if \<not> has_session a s then (Inl ForeignKey, a1)
      else (Inr (Some n), a1\<lparr>ag_events := ag_events a @ [e\<lparr>ae_id := n, ae_session := s, ae_created := now\<rparr>]\<rparr>))"

text \<open>\<open>up n\<close> is the insertion of the event \<open>n\<close>.\<close>

fun insert_events ::
  "(nat \<Rightarrow> bool) \<Rightarrow> time \<Rightarrow> nat \<Rightarrow> string \<Rightarrow> AgentSessionEvent list \<Rightarrow> agent_db \<Rightarrow>
     (db_err + (nat \<times> AgentSessionEvent) list) \<times> agent_db" where
  "insert_events up now n s [] a = (Inr [], a)"
| "insert_events up now n s (e # es) a =
     (if \<not> up n then (Inl DbDown, a)
      else (case insert_event now s e a of
          (Inl x, a1) \<Rightarrow> (Inl x, a1)
        | (Inr k, a1) \<Rightarrow>
            (case insert_events up now (Suc n) s es a1 of
               (Inl x, a2) \<Rightarrow> (Inl x, a2)
             | (Inr ks, a2) \<Rightarrow> (Inr (case k of Some i \<Rightarrow> (i, e) # ks | None \<Rightarrow> ks), a2))))"

text \<open>One transaction: 0 the begin, 1 the preparation, 2 the commit, \<open>3 + n\<close> the event \<open>n\<close>; the sequence is not rolled back.\<close>

definition InsertAgentSessionEvents ::
  "(nat \<Rightarrow> bool) \<Rightarrow> time \<Rightarrow> agent_db \<Rightarrow> string \<Rightarrow> AgentSessionEvent list \<Rightarrow>
     (db_err + (nat \<times> AgentSessionEvent) list) \<times> agent_db" where
  "InsertAgentSessionEvents up now a s es =
     (if \<not> up 0 \<or> \<not> up 1 then (Inl DbDown, a)
      else (case insert_events (\<lambda>n. up (3 + n)) now 0 s es a of
          (Inl e, a1) \<Rightarrow> (Inl e, a\<lparr>ag_seq := ag_seq a1\<rparr>)
        | (Inr ks, a1) \<Rightarrow> if \<not> up 2 then (Inl DbDown, a\<lparr>ag_seq := ag_seq a1\<rparr>) else (Inr ks, a1)))"

definition GetAgentSessionEventsTail :: "bool \<Rightarrow> agent_db \<Rightarrow> string \<Rightarrow> int \<Rightarrow> db_err + AgentSessionEvent list" where
  "GetAgentSessionEventsTail up a s n0 =
     (let n = (if n0 \<le> 0 \<or> n0 > 1000 then 200 else n0) in
      if \<not> up then Inl DbDown
      else Inr (rev (take (nat n) (rev (sort_key ae_id (filter (\<lambda>e. ae_session e = s) (ag_events a)))))))"

text \<open>A negative limit is an error of the database.\<close>

definition GetAgentSessionEventsSince ::
  "bool \<Rightarrow> agent_db \<Rightarrow> string \<Rightarrow> int \<Rightarrow> int \<Rightarrow> message_err + AgentSessionEvent list" where
  "GetAgentSessionEventsSince up a s since limit =
     (if \<not> up then Inl (MessageDb DbDown)
      else if limit < 0 then Inl NegativeLimit
      else Inr (take (nat limit) (sort_key ae_id
             (filter (\<lambda>e. ae_session e = s \<and> int (ae_id e) > since) (ag_events a)))))"

section \<open>Workers\<close>

definition is_worker :: "string \<Rightarrow> int \<Rightarrow> AgentSessionWorker \<Rightarrow> bool" where
  "is_worker s epoch x \<longleftrightarrow> aw_session x = s \<and> aw_epoch x = epoch"

definition UpsertAgentSessionWorker :: "bool \<Rightarrow> time \<Rightarrow> agent_db \<Rightarrow> string \<Rightarrow> int \<Rightarrow> db_err option \<times> agent_db" where
  "UpsertAgentSessionWorker up now a s epoch =
     (if \<not> up then (Some DbDown, a)
      else if list_ex (is_worker s epoch) (ag_workers a)
      then (None, a\<lparr>ag_workers := update_rows (is_worker s epoch) (\<lambda>x. x\<lparr>aw_beat := now\<rparr>) (ag_workers a)\<rparr>)
      else if \<not> has_session a s then (Some ForeignKey, a)
      else (None, a\<lparr>ag_workers := ag_workers a @
              [\<lparr>aw_session = s, aw_epoch = epoch, aw_state = ''idle'', aw_meta = None, aw_details = None,
                aw_beat = now, aw_registered = now\<rparr>]\<rparr>))"

definition UpdateAgentSessionWorkerState ::
  "bool \<Rightarrow> time \<Rightarrow> agent_db \<Rightarrow> string \<Rightarrow> int \<Rightarrow> string \<Rightarrow> string option \<Rightarrow> string option \<Rightarrow> db_err option \<times> agent_db" where
  "UpdateAgentSessionWorkerState up now a s epoch state meta details =
     (if \<not> up then (Some DbDown, a)
      else (None, a\<lparr>ag_workers := update_rows (is_worker s epoch)
              (\<lambda>x. x\<lparr>aw_state := state, aw_meta := (case meta of None \<Rightarrow> aw_meta x | Some m \<Rightarrow> Some m),
                     aw_details := details, aw_beat := now\<rparr>) (ag_workers a)\<rparr>))"

definition UpdateAgentSessionWorkerHeartbeat ::
  "bool \<Rightarrow> time \<Rightarrow> agent_db \<Rightarrow> string \<Rightarrow> int \<Rightarrow> db_err option \<times> agent_db" where
  "UpdateAgentSessionWorkerHeartbeat up now a s epoch =
     (if \<not> up then (Some DbDown, a)
      else (None, a\<lparr>ag_workers := update_rows (is_worker s epoch) (\<lambda>x. x\<lparr>aw_beat := now\<rparr>) (ag_workers a)\<rparr>))"

definition GetAgentSessionWorker :: "bool \<Rightarrow> agent_db \<Rightarrow> string \<Rightarrow> int \<Rightarrow> db_err + AgentSessionWorker option" where
  "GetAgentSessionWorker up a s epoch =
     (if \<not> up then Inl DbDown else Inr (find (is_worker s epoch) (ag_workers a)))"

section \<open>Internal events\<close>

record internal_input =
  ii_type :: string
  ii_payload :: string
  ii_compaction :: bool
  ii_agent :: string

fun insert_internal ::
  "(nat \<Rightarrow> bool) \<Rightarrow> time \<Rightarrow> nat \<Rightarrow> string \<Rightarrow> internal_input list \<Rightarrow> agent_db \<Rightarrow> db_err option \<times> agent_db" where
  "insert_internal up now n s [] a = (None, a)"
| "insert_internal up now n s (e # es) a =
     (if \<not> up n then (Some DbDown, a)
      else (let a1 = a\<lparr>ag_iseq := Suc (ag_iseq a)\<rparr> in
        if \<not> has_session a s then (Some ForeignKey, a1)
        else insert_internal up now (Suc n) s es (a1\<lparr>ag_internal := ag_internal a @
          [\<lparr>ie_id = ag_iseq a, ie_session = s, ie_type = ii_type e, ie_payload = ii_payload e,
            ie_compaction = ii_compaction e, ie_agent = nullif_empty (ii_agent e), ie_created = now\<rparr>]\<rparr>)))"

definition InsertAgentSessionInternalEvents ::
  "(nat \<Rightarrow> bool) \<Rightarrow> time \<Rightarrow> agent_db \<Rightarrow> string \<Rightarrow> internal_input list \<Rightarrow> db_err option \<times> agent_db" where
  "InsertAgentSessionInternalEvents up now a s es =
     (if \<not> up 0 \<or> \<not> up 1 then (Some DbDown, a)
      else (case insert_internal (\<lambda>n. up (3 + n)) now 0 s es a of
          (Some e, a1) \<Rightarrow> (Some e, a\<lparr>ag_iseq := ag_iseq a1\<rparr>)
        | (None, a1) \<Rightarrow> if \<not> up 2 then (Some DbDown, a\<lparr>ag_iseq := ag_iseq a1\<rparr>) else (None, a1)))"

definition GetAgentSessionInternalEventsSince ::
  "bool \<Rightarrow> agent_db \<Rightarrow> string \<Rightarrow> int \<Rightarrow> int \<Rightarrow> message_err + internal_event list" where
  "GetAgentSessionInternalEventsSince up a s since limit =
     (if \<not> up then Inl (MessageDb DbDown)
      else if limit < 0 then Inl NegativeLimit
      else Inr (map (\<lambda>e. e\<lparr>ie_agent := Some (coalesce (ie_agent e))\<rparr>) (take (nat limit) (sort_key ie_id
             (filter (\<lambda>e. ie_session e = s \<and> int (ie_id e) > since) (ag_internal a))))))"

section \<open>Facts\<close>

text \<open>The escaped text stands for itself.\<close>

lemma like_any: "like ''%'' t"
  by (induction t) auto

lemma like_escape_append: "like (like_escape s @ p) t \<longleftrightarrow> HasPrefix t s \<and> like p (drop (length s) t)"
proof (induction s arbitrary: t)
  case Nil then show ?case by (simp add: like_escape_def HasPrefix_def)
next
  case (Cons c s)
  have e: "like_escape (c # s) = (if c = CHR 0x5C \<or> c = CHR ''%'' \<or> c = CHR ''_'' then [CHR 0x5C, c] else [c]) @ like_escape s"
    by (simp add: like_escape_def)
  show ?case
  proof (cases t)
    case Nil then show ?thesis by (simp add: e HasPrefix_def)
  next
    case (Cons x xs) then show ?thesis using Cons.IH [of xs] by (auto simp: e HasPrefix_def)
  qed
qed

text \<open>The sessions a client lists are those whose external identifier begins with its channel and executor,
  whatever characters these contain.\<close>

lemma HasPrefix_split: "HasPrefix t (a @ b) \<longleftrightarrow> HasPrefix t a \<and> HasPrefix (drop (length a) t) b"
proof
  assume "HasPrefix t (a @ b)"
  then obtain r where "t = (a @ b) @ r" by (metis HasPrefix_def append_take_drop_id)
  then show "HasPrefix t a \<and> HasPrefix (drop (length a) t) b" by (simp add: HasPrefix_def)
next
  assume "HasPrefix t a \<and> HasPrefix (drop (length a) t) b"
  then show "HasPrefix t (a @ b)" by (auto simp: HasPrefix_def take_add)
qed

lemma like_session_pattern:
  "like (like_escape kind @ '':'' @ like_escape executor @ '':%'') e \<longleftrightarrow> HasPrefix e (kind @ '':'' @ executor @ '':'')"
proof -
  have colon: "like (CHR '':'' # p) t \<longleftrightarrow> HasPrefix t '':'' \<and> like p (drop 1 t)" for p t
    by (cases t) (auto simp: HasPrefix_def)
  show ?thesis
    using like_any HasPrefix_split [of e "kind @ '':'' @ executor" "'':''"] HasPrefix_split [of e "kind @ '':''" executor]
      HasPrefix_split [of e kind "'':''"]
    by (simp add: like_escape_append colon add.commute del: like.simps(2))
qed

text \<open>A turn is claimed only while no other holds the session.\<close>

lemma ClaimActiveTurn_excludes:
  assumes "fst (ClaimActiveTurn up now a i t) = Inr True"
  shows "fst (ClaimActiveTurn up' now' (snd (ClaimActiveTurn up now a i t)) i t') \<noteq> Inr True"
proof -
  have f: "filter (\<lambda>r. as_id r = i \<and> as_turn r = None)
      (update_rows (\<lambda>r. as_id r = i \<and> as_turn r = None) (\<lambda>r. r\<lparr>as_turn := Some t, as_updated := now\<rparr>) rs) = []" for rs
    by (induction rs) auto
  show ?thesis
    using assms by (simp add: ClaimActiveTurn_def Let_def f split: if_splits)
qed

text \<open>A batch that is sent again changes nothing.\<close>

lemma insert_event_there:
  assumes "insert_event now s e a = (Inr k, a1)"
  shows "ae_event e \<in> ae_event ` set (ag_events a1) \<and> set (ag_events a) \<subseteq> set (ag_events a1)"
proof (cases "list_ex (\<lambda>x. ae_event x = ae_event e) (ag_events a)")
  case True
  then obtain x where "x \<in> set (ag_events a)" "ae_event e = ae_event x" by (auto simp: list_ex_iff)
  with True assms show ?thesis by (auto simp: insert_event_def Let_def)
next
  case False
  with assms show ?thesis by (auto simp: insert_event_def Let_def split: if_splits)
qed

lemma insert_events_all:
  assumes "insert_events up now n s es a = (Inr ks, a')"
  shows "(\<forall>e\<in>set es. ae_event e \<in> ae_event ` set (ag_events a')) \<and> set (ag_events a) \<subseteq> set (ag_events a')"
  using assms
proof (induction up now n s es a arbitrary: ks rule: insert_events.induct)
  case (2 up now n s e es a)
  from 2(2) obtain k a1 ks' where i: "insert_event now s e a = (Inr k, a1)" and u: "up n"
    and r: "insert_events up now (Suc n) s es a1 = (Inr ks', a')"
    by (auto split: if_splits prod.splits sum.splits)
  from 2(1) [OF _ i [symmetric] refl r] u have IH: "(\<forall>e\<in>set es. ae_event e \<in> ae_event ` set (ag_events a')) \<and>
      set (ag_events a1) \<subseteq> set (ag_events a')" by simp
  from i have "ae_event e \<in> ae_event ` set (ag_events a1) \<and> set (ag_events a) \<subseteq> set (ag_events a1)"
    by (rule insert_event_there)
  with IH show ?case by auto
qed simp

lemma insert_events_again:
  assumes "\<forall>e\<in>set es. ae_event e \<in> ae_event ` set (ag_events a)" and "insert_events up now n s es a = (Inr ks, a')"
  shows "ks = [] \<and> ag_events a' = ag_events a"
  using assms
proof (induction up now n s es a arbitrary: ks rule: insert_events.induct)
  case (2 up now n s e es a)
  from 2(3) obtain k a1 ks' where i: "insert_event now s e a = (Inr k, a1)" and u: "up n"
    and r: "insert_events up now (Suc n) s es a1 = (Inr ks', a')" and ks: "ks = (case k of Some i \<Rightarrow> (i, e) # ks' | None \<Rightarrow> ks')"
    by (auto split: if_splits prod.splits sum.splits)
  from i 2(2) have k: "k = None" "ag_events a1 = ag_events a"
    by (auto simp: insert_event_def Let_def list_ex_iff image_iff split: if_splits)
  from 2(1) [OF _ i [symmetric] refl _ r] u 2(2) k ks show ?case by simp
qed simp

lemma events_idempotent:
  assumes "InsertAgentSessionEvents up now a s es = (Inr ks, a1)"
    and "InsertAgentSessionEvents up' now' a1 s' es = (Inr ks', a2)"
  shows "ks' = [] \<and> ag_events a2 = ag_events a1"
proof -
  from assms(1) have "insert_events (\<lambda>n. up (3 + n)) now 0 s es a = (Inr ks, a1)"
    by (auto simp: InsertAgentSessionEvents_def split: if_splits prod.splits sum.splits)
  moreover from assms(2) have "insert_events (\<lambda>n. up' (3 + n)) now' 0 s' es a1 = (Inr ks', a2)"
    by (auto simp: InsertAgentSessionEvents_def split: if_splits prod.splits sum.splits)
  ultimately show ?thesis using insert_events_all insert_events_again by metis
qed

end
