(* ===== verification/Im_Turns.thy ===== *)
theory Im_Turns
  imports Agent_Sessions
begin

text \<open>
  The turns of agents that messages start: the handler behind the Codex route and its queues
  (\<open>internal/server/codex_im_inbound.go\<close>, \<open>codex_client.go\<close>) and the turn of OpenClaw in the sandbox of a channel
  (\<open>openclaw_turn_handler.go\<close>).  The gateway, the bridge and the pod answer as parameters; texts are bytes.
\<close>

section \<open>Requests and answers\<close>

record codex_request =
  cq_channel :: string
  cq_ws :: string
  cq_user :: string
  cq_sender :: string
  cq_text :: string
  cq_quoted :: string
  cq_quoter :: string
  cq_media :: string
  cq_data :: string
  cq_qmedia :: string
  cq_qdata :: string

datatype input_item = InputText string | InputImage string

record CodexTurnRequest =
  tr_ws :: string
  tr_thread :: "string option"
  tr_params :: "input_item list"

record CodexTransportError =
  te_code :: string
  te_message :: string

record CodexTurnResponse =
  cs_thread :: string
  cs_turn :: string
  cs_transport :: "CodexTransportError option"

text \<open>The decoded turn: status, items, and the message and kind of its error.\<close>

record codex_turn =
  ct_status :: string
  ct_items :: "string list"
  ct_error :: "(string \<times> string option) option"

text \<open>\<open>http\<close> is the transport: an error, or status and body.\<close>

definition RunTurn ::
  "(CodexTurnRequest \<Rightarrow> string + (nat \<times> string)) \<Rightarrow> (string \<Rightarrow> string + CodexTurnResponse) \<Rightarrow> CodexTurnRequest \<Rightarrow>
     string + CodexTurnResponse option" where
  "RunTurn http decode req =
     (case http req of
        Inl e \<Rightarrow> Inl (''cxg: '' @ e)
      | Inr (code, body) \<Rightarrow>
          if code \<noteq> 200 then Inl (''cxg /api/turns status='' @ FormatInt (int code) @ '' body='' @ body)
          else (case decode body of
              Inl e \<Rightarrow> Inl (''decode: '' @ e @ '' body='' @ body)
            | Inr r \<Rightarrow> Inr (Some r)))"

text \<open>The URL of the gateway, from two variables.\<close>

definition resolveCodexGatewayRESTURL :: "string \<Rightarrow> string \<Rightarrow> string" where
  "resolveCodexGatewayRESTURL rest url =
     (let v = TrimSpace rest; u = TrimSpace url;
          u1 = TrimRight (TrimSuffix u ''/notebook/ws'') ''/'' in
      if v \<noteq> [] then TrimRight v ''/''
      else if u = [] then []
      else if HasPrefix u1 ''ws://'' then ''http://'' @ TrimPrefix u1 ''ws://''
      else if HasPrefix u1 ''wss://'' then ''https://'' @ TrimPrefix u1 ''wss://''
      else if HasPrefix u1 ''http://'' \<or> HasPrefix u1 ''https://'' then u1
      else [])"

section \<open>Texts\<close>

definition msg_internal :: string where
  "msg_internal =
     [CHR 0xE2, CHR 0x9A, CHR 0xA0, CHR 0xEF, CHR 0xB8, CHR 0x8F]
     @ '' ''
     @ [CHR 0xE5, CHR 0x86, CHR 0x85, CHR 0xE9, CHR 0x83, CHR 0xA8, CHR 0xE9, CHR 0x94, CHR 0x99, CHR 0xE8,
       CHR 0xAF, CHR 0xAF, CHR 0xEF, CHR 0xBC, CHR 0x8C, CHR 0xE8, CHR 0xAF, CHR 0xB7, CHR 0xE9, CHR 0x87,
       CHR 0x8D, CHR 0xE8, CHR 0xAF, CHR 0x95]"

definition msg_failed_retry :: string where
  "msg_failed_retry =
     [CHR 0xE2, CHR 0x9A, CHR 0xA0, CHR 0xEF, CHR 0xB8, CHR 0x8F]
     @ '' Falha ao processar mensagem. Tente novamente.''"

definition msg_no_response :: string where
  "msg_no_response =
     [CHR 0xE2, CHR 0x9A, CHR 0xA0, CHR 0xEF, CHR 0xB8, CHR 0x8F]
     @ '' Servi''
     @ [CHR 0xC3, CHR 0xA7]
     @ ''o sem resposta. Tente novamente.''"

definition msg_format :: string where
  "msg_format =
     [CHR 0xE2, CHR 0x9A, CHR 0xA0, CHR 0xEF, CHR 0xB8, CHR 0x8F]
     @ '' Codex ''
     @ [CHR 0xE8, CHR 0xBF, CHR 0x94, CHR 0xE5, CHR 0x9B, CHR 0x9E, CHR 0xE6, CHR 0xA0, CHR 0xBC, CHR 0xE5,
       CHR 0xBC, CHR 0x8F, CHR 0xE5, CHR 0xBC, CHR 0x82, CHR 0xE5, CHR 0xB8, CHR 0xB8]"

definition msg_no_text :: string where
  "msg_no_text =
     [CHR 0xE2, CHR 0x9A, CHR 0xA0, CHR 0xEF, CHR 0xB8, CHR 0x8F]
     @ '' Codex ''
     @ [CHR 0xE6, CHR 0xB2, CHR 0xA1, CHR 0xE6, CHR 0x9C, CHR 0x89, CHR 0xE8, CHR 0xBF, CHR 0x94, CHR 0xE5,
       CHR 0x9B, CHR 0x9E, CHR 0xE6, CHR 0x96, CHR 0x87, CHR 0xE6, CHR 0x9C, CHR 0xAC, CHR 0xE5, CHR 0x86,
       CHR 0x85, CHR 0xE5, CHR 0xAE, CHR 0xB9]"

definition msg_context :: string where
  "msg_context =
     [CHR 0xE2, CHR 0x9A, CHR 0xA0, CHR 0xEF, CHR 0xB8, CHR 0x8F]
     @ '' Limite de contexto atingido. Inicie uma nova conversa.''"

definition msg_usage :: string where
  "msg_usage =
     [CHR 0xE2, CHR 0x9A, CHR 0xA0, CHR 0xEF, CHR 0xB8, CHR 0x8F]
     @ '' Limite de uso atingido. Tente mais tarde.''"

definition msg_busy :: string where
  "msg_busy =
     [CHR 0xE2, CHR 0x9A, CHR 0xA0, CHR 0xEF, CHR 0xB8, CHR 0x8F]
     @ '' Servi''
     @ [CHR 0xC3, CHR 0xA7]
     @ ''o ocupado. Tente novamente em instantes.''"

definition msg_reset :: string where
  "msg_reset =
     [CHR 0xE2, CHR 0x9A, CHR 0xA0, CHR 0xEF, CHR 0xB8, CHR 0x8F]
     @ '' ''
     @ [CHR 0xE4, CHR 0xBC, CHR 0x9A, CHR 0xE8, CHR 0xAF, CHR 0x9D, CHR 0xE5, CHR 0xB7, CHR 0xB2, CHR 0xE9,
       CHR 0x87, CHR 0x8D, CHR 0xE7, CHR 0xBD, CHR 0xAE, CHR 0xEF, CHR 0xBC, CHR 0x8C, CHR 0xE8, CHR 0xAF,
       CHR 0xB7, CHR 0xE9, CHR 0x87, CHR 0x8D, CHR 0xE5, CHR 0x8F, CHR 0x91, CHR 0xE6, CHR 0xB6, CHR 0x88,
       CHR 0xE6, CHR 0x81, CHR 0xAF]"

definition msg_failed :: string where
  "msg_failed =
     [CHR 0xE2, CHR 0x9A, CHR 0xA0, CHR 0xEF, CHR 0xB8, CHR 0x8F] @ '' Falha ao processar mensagem.''"

definition msg_cancelled :: string where
  "msg_cancelled =
     [CHR 0xE2, CHR 0x9A, CHR 0xA0, CHR 0xEF, CHR 0xB8, CHR 0x8F]
     @ '' ''
     @ [CHR 0xE5, CHR 0xA4, CHR 0x84, CHR 0xE7, CHR 0x90, CHR 0x86, CHR 0xE5, CHR 0xB7, CHR 0xB2, CHR 0xE5,
       CHR 0x8F, CHR 0x96, CHR 0xE6, CHR 0xB6, CHR 0x88, CHR 0xEF, CHR 0xBC, CHR 0x8C, CHR 0xE8, CHR 0xAF,
       CHR 0xB7, CHR 0xE9, CHR 0x87, CHR 0x8D, CHR 0xE5, CHR 0x8F, CHR 0x91]"

definition msg_status :: string where
  "msg_status =
     [CHR 0xE2, CHR 0x9A, CHR 0xA0, CHR 0xEF, CHR 0xB8, CHR 0x8F]
     @ '' Codex ''
     @ [CHR 0xE8, CHR 0xBF, CHR 0x94, CHR 0xE5, CHR 0x9B, CHR 0x9E, CHR 0xE5, CHR 0xBC, CHR 0x82, CHR 0xE5,
       CHR 0xB8, CHR 0xB8, CHR 0xE7, CHR 0x8A, CHR 0xB6, CHR 0xE6, CHR 0x80, CHR 0x81]"

definition msg_timeout :: string where
  "msg_timeout =
     [CHR 0xE2, CHR 0x9A, CHR 0xA0, CHR 0xEF, CHR 0xB8, CHR 0x8F]
     @ '' Tempo limite de resposta atingido. Tente novamente.''"

definition transportToUserMessage :: "CodexTransportError \<Rightarrow> string" where
  "transportToUserMessage t = (if te_code t = ''brokerTimeout'' then msg_timeout else msg_failed_retry)"

definition isThreadNotFoundErr :: "string \<Rightarrow> bool" where
  "isThreadNotFoundErr msg =
     (let lo = lower msg in
      Contains lo ''no rollout found for thread id'' \<or> Contains lo ''no rollout found for conversation id'' \<or>
      Contains lo ''thread'' \<and>
        (Contains lo ''not found'' \<or> Contains lo ''unknown'' \<or> Contains lo ''missing''))"

text \<open>\<open>item\<close> decodes the type and the text of an item.\<close>

definition lastAgentMessageText :: "(string \<Rightarrow> (string \<times> string) option) \<Rightarrow> string list \<Rightarrow> string" where
  "lastAgentMessageText item items =
     (case find (\<lambda>raw. case item raw of Some (ty, t) \<Rightarrow> ty = ''agentMessage'' \<and> t \<noteq> [] | None \<Rightarrow> False) (rev items) of
        Some raw \<Rightarrow> snd (the (item raw)) | None \<Rightarrow> [])"

definition formatQuoteMarker :: "string \<Rightarrow> string \<Rightarrow> string \<Rightarrow> string" where
  "formatQuoteMarker sender msg mediaType =
     (let quoter = (if sender = [] then [CHR 0xE4, CHR 0xB9, CHR 0x8B, CHR 0xE5, CHR 0x89, CHR 0x8D, CHR 0xE7, CHR 0x9A, CHR 0x84, CHR 0xE6, CHR 0xB6, CHR 0x88, CHR 0xE6, CHR 0x81, CHR 0xAF] else sender) in
      if msg \<noteq> [] then ''['' @ [CHR 0xE5, CHR 0xBC, CHR 0x95, CHR 0xE7, CHR 0x94, CHR 0xA8] @ '' '' @ quoter @ ''] '' @ msg
      else if mediaType = ''image'' then ''['' @ [CHR 0xE5, CHR 0xBC, CHR 0x95, CHR 0xE7, CHR 0x94, CHR 0xA8] @ '' '' @ quoter @ '' '' @ [CHR 0xE5, CHR 0x8F, CHR 0x91, CHR 0xE9, CHR 0x80, CHR 0x81, CHR 0xE7, CHR 0x9A, CHR 0x84, CHR 0xE5, CHR 0x9B, CHR 0xBE, CHR 0xE7, CHR 0x89, CHR 0x87] @ '']''
      else [])"

text \<open>The images among the signatures of \<open>http.DetectContentType\<close>; no other signature is a prefix of these.\<close>

definition sniffImage :: "string \<Rightarrow> string option" where
  "sniffImage raw =
     (if HasPrefix raw [CHR 0x00, CHR 0x00, CHR 0x01, CHR 0x00] \<or> HasPrefix raw [CHR 0x00, CHR 0x00, CHR 0x02, CHR 0x00]
      then Some ''image/x-icon''
      else if HasPrefix raw ''BM'' then Some ''image/bmp''
      else if HasPrefix raw ''GIF87a'' \<or> HasPrefix raw ''GIF89a'' then Some ''image/gif''
      else if HasPrefix raw ''RIFF'' \<and> HasPrefix (drop 8 raw) ''WEBPVP'' then Some ''image/webp''
      else if HasPrefix raw ([CHR 0x89] @ ''PNG'' @ [CHR 0x0D, CHR 0x0A, CHR 0x1A, CHR 0x0A]) then Some ''image/png''
      else if HasPrefix raw [CHR 0xFF, CHR 0xD8, CHR 0xFF] then Some ''image/jpeg''
      else None)"

text \<open>\<open>dec\<close> decodes base 64.\<close>

definition imageInputItem :: "(string \<Rightarrow> string option) \<Rightarrow> string \<Rightarrow> string \<Rightarrow> input_item option" where
  "imageInputItem dec mediaType data =
     (if mediaType \<noteq> ''image'' \<or> data = [] then None
      else (case dec data of
          None \<Rightarrow> None
        | Some raw \<Rightarrow>
            if raw = [] then None
            else (case sniffImage raw of
                None \<Rightarrow> None
              | Some mime \<Rightarrow> Some (InputImage (''data:'' @ mime @ '';base64,'' @ data)))))"

definition text_item :: "string \<Rightarrow> input_item list" where
  "text_item t = (if t = [] then [] else [InputText t])"

definition image_item :: "input_item option \<Rightarrow> input_item list" where
  "image_item x = (case x of None \<Rightarrow> [] | Some i \<Rightarrow> [i])"

definition buildCodexInput :: "(string \<Rightarrow> string option) \<Rightarrow> codex_request \<Rightarrow> input_item list" where
  "buildCodexInput dec req =
     image_item (imageInputItem dec (cq_qmedia req) (cq_qdata req)) @
     text_item (formatQuoteMarker (cq_quoter req) (cq_quoted req) (cq_qmedia req)) @
     image_item (imageInputItem dec (cq_media req) (cq_data req)) @
     text_item (cq_text req)"

section \<open>Sessions of a messenger's user\<close>

text \<open>\<open>dbSessionStore\<close>: the identifier of the session and its thread.\<close>

datatype turn_err =
    TurnDb db_err
  | CreateFailed db_err
  | ExternalIdFailed db_err
  | CodexCall string
  | NilResponse
  | NilRetryResponse
  | TransportFailed string
  | TurnFormat string
  | NoAgentText
  | NotSent string
  | NotSentStatus nat string
  | ContextWindowExceeded
  | UsageLimitExceeded
  | ServerOverloaded
  | ThreadLost
  | TurnFailed string
  | TurnInterrupted
  | OddStatus string

text \<open>The text of an error; \<open>dbt\<close> is that of the database's, \<open>quote\<close> the verb \<open>%q\<close>.\<close>

fun turn_err_text :: "(db_err \<Rightarrow> string) \<Rightarrow> (string \<Rightarrow> string) \<Rightarrow> turn_err \<Rightarrow> string" where
  "turn_err_text dbt quote (TurnDb e) = dbt e"
| "turn_err_text dbt quote (CreateFailed e) = ''create session: '' @ dbt e"
| "turn_err_text dbt quote (ExternalIdFailed e) = ''set external_id: '' @ dbt e"
| "turn_err_text dbt quote (CodexCall e) = e"
| "turn_err_text dbt quote NilResponse = ''nil codex response''"
| "turn_err_text dbt quote NilRetryResponse = ''nil codex retry response''"
| "turn_err_text dbt quote (TransportFailed m) = ''codex transport: '' @ m"
| "turn_err_text dbt quote (TurnFormat e) = e"
| "turn_err_text dbt quote NoAgentText = ''codex turn completed with no agent text''"
| "turn_err_text dbt quote (NotSent e) = ''imbridge send POST: '' @ e"
| "turn_err_text dbt quote (NotSentStatus n body) =
     ''imbridge send status='' @ FormatInt (int n) @ '' body='' @ body"
| "turn_err_text dbt quote ContextWindowExceeded = ''codex context window exceeded''"
| "turn_err_text dbt quote UsageLimitExceeded = ''codex usage limit exceeded''"
| "turn_err_text dbt quote ServerOverloaded = ''codex server overloaded''"
| "turn_err_text dbt quote ThreadLost = ''codex thread not found''"
| "turn_err_text dbt quote (TurnFailed m) = ''codex turn failed: '' @ m"
| "turn_err_text dbt quote TurnInterrupted = ''codex turn interrupted''"
| "turn_err_text dbt quote (OddStatus x) = ''codex unexpected status '' @ quote x"

type_synonym session_view = "(string \<times> string option)"

definition store_GetSession :: "bool \<Rightarrow> agent_db \<Rightarrow> string \<Rightarrow> string \<Rightarrow> turn_err + session_view" where
  "store_GetSession up a w ext =
     (case GetSessionByExternalID up a w ext of
        Inl e \<Rightarrow> Inl (TurnDb e)
      | Inr None \<Rightarrow> Inr ([], None)
      | Inr (Some r) \<Rightarrow> Inr (as_id r, as_thread r))"

text \<open>Statements: 1 the session, 2 its external identifier, 3 its channel; \<open>uuid\<close> is fresh.\<close>

definition store_CreateSession ::
  "(nat \<Rightarrow> bool) \<Rightarrow> time \<Rightarrow> string \<Rightarrow> agent_db \<Rightarrow> string \<Rightarrow> string \<Rightarrow> string \<Rightarrow> string \<Rightarrow>
     (turn_err + session_view) \<times> agent_db" where
  "store_CreateSession up now uuid a w ext title c =
     (let i = ''cse_'' @ uuid in
      case CreateAgentSession (up 1) now a i None w title None of
        (Some e, a1) \<Rightarrow> (Inl (CreateFailed e), a1)
      | (None, a1) \<Rightarrow>
          (case SetSessionExternalID (up 2) a1 i ext of
             (Some e, a2) \<Rightarrow> (Inl (ExternalIdFailed e), a2)
           | (None, a2) \<Rightarrow>
               (Inr (i, None), if c \<noteq> [] then snd (SetSessionIMChannel (up 3) a2 i c) else a2)))"

section \<open>One turn\<close>

datatype turn_effect = Ran CodexTurnRequest | Posted string string string

text \<open>
  The other sides: \<open>tv_run n\<close> the gateway at call \<open>n\<close>, the decoders of a turn, an item and base 64, and what
  the bridge answers to a message.
\<close>

record turn_env =
  tv_run :: "nat \<Rightarrow> CodexTurnRequest \<Rightarrow> string + CodexTurnResponse option"
  tv_turn :: "string \<Rightarrow> string + codex_turn"
  tv_item :: "string \<Rightarrow> (string \<times> string) option"
  tv_b64 :: "string \<Rightarrow> string option"
  tv_send :: "string \<times> string \<times> string \<Rightarrow> string + (nat \<times> string)"

definition postSend :: "turn_env \<Rightarrow> codex_request \<Rightarrow> string \<Rightarrow> turn_err option \<times> turn_effect" where
  "postSend ev req msg =
     ((case tv_send ev (cq_channel req, cq_user req, msg) of
         Inl e \<Rightarrow> Some (NotSent e)
       | Inr (code, body) \<Rightarrow> if code \<ge> 400 then Some (NotSentStatus code body) else None),
      Posted (cq_channel req) (cq_user req) msg)"

text \<open>An error: the user is told, whether this arrives or not.\<close>

definition fail_turn ::
  "turn_env \<Rightarrow> codex_request \<Rightarrow> turn_err \<Rightarrow> string \<Rightarrow> turn_effect list \<Rightarrow> agent_db \<Rightarrow>
     turn_err option \<times> turn_effect list \<times> agent_db" where
  "fail_turn ev req e msg es a = (Some e, es @ [snd (postSend ev req msg)], a)"

text \<open>The end of a turn.  Statement 6: the thread that is forgotten.\<close>

definition finishTurn ::
  "turn_env \<Rightarrow> bool \<Rightarrow> codex_request \<Rightarrow> string \<Rightarrow> codex_turn \<Rightarrow> turn_effect list \<Rightarrow> agent_db \<Rightarrow>
     turn_err option \<times> turn_effect list \<times> agent_db" where
  "finishTurn ev up req s turn es a =
     (let forget = snd (SetSessionCodexThreadID up a s None);
          msg = (case ct_error turn of Some (m, _) \<Rightarrow> m | None \<Rightarrow> []);
          kind = (case ct_error turn of Some (_, k) \<Rightarrow> k | None \<Rightarrow> None) in
      if ct_status turn = ''completed'' then
        (let t = lastAgentMessageText (tv_item ev) (ct_items turn) in
         if t = [] then fail_turn ev req NoAgentText msg_no_text es a
         else (fst (postSend ev req t), es @ [snd (postSend ev req t)], a))
      else if ct_status turn = ''failed'' then
        (if kind = Some ''contextWindowExceeded'' then fail_turn ev req ContextWindowExceeded msg_context es forget
         else if kind = Some ''usageLimitExceeded'' then fail_turn ev req UsageLimitExceeded msg_usage es a
         else if kind = Some ''serverOverloaded'' then fail_turn ev req ServerOverloaded msg_busy es a
         else if isThreadNotFoundErr msg then fail_turn ev req ThreadLost msg_reset es forget
         else fail_turn ev req (TurnFailed msg) msg_failed es a)
      else if ct_status turn = ''interrupted'' then fail_turn ev req TurnInterrupted msg_cancelled es a
      else fail_turn ev req (OddStatus (ct_status turn)) msg_status es a)"

text \<open>The answer of the gateway once no further attempt is made.  Statement 5: the new thread.\<close>

definition answerTurn ::
  "turn_env \<Rightarrow> (nat \<Rightarrow> bool) \<Rightarrow> codex_request \<Rightarrow> session_view \<Rightarrow> CodexTurnResponse \<Rightarrow> turn_effect list \<Rightarrow> agent_db \<Rightarrow>
     turn_err option \<times> turn_effect list \<times> agent_db" where
  "answerTurn ev up req sess r es a =
     (case cs_transport r of
        Some t \<Rightarrow> fail_turn ev req (TransportFailed (te_message t)) (transportToUserMessage t) es a
      | None \<Rightarrow>
          (let a1 = (if cs_thread r \<noteq> [] \<and> snd sess \<noteq> Some (cs_thread r)
                     then snd (SetSessionCodexThreadID (up 5) a (fst sess) (Some (cs_thread r))) else a) in
           (case tv_turn ev (cs_turn r) of
              Inl e \<Rightarrow> fail_turn ev req (TurnFormat e) msg_format es a1
            | Inr turn \<Rightarrow> finishTurn ev (up 6) req (fst sess) turn es a1)))"

text \<open>The turn of a session: a thread the gateway has lost is given up once.  Statement 4: the lost thread.\<close>

definition sessionTurn ::
  "turn_env \<Rightarrow> (nat \<Rightarrow> bool) \<Rightarrow> codex_request \<Rightarrow> session_view \<Rightarrow> agent_db \<Rightarrow>
     turn_err option \<times> turn_effect list \<times> agent_db" where
  "sessionTurn ev up req sess a =
     (let params = buildCodexInput (tv_b64 ev) req;
          call = (\<lambda>t. \<lparr>tr_ws = cq_ws req, tr_thread = t, tr_params = params\<rparr>);
          r1 = call (snd sess); r2 = call None in
      (case tv_run ev 0 r1 of
         Inl e \<Rightarrow> fail_turn ev req (CodexCall e) msg_failed_retry [Ran r1] a
       | Inr None \<Rightarrow> fail_turn ev req NilResponse msg_no_response [Ran r1] a
       | Inr (Some r) \<Rightarrow>
           if snd sess \<noteq> None \<and> (case cs_transport r of Some t \<Rightarrow> isThreadNotFoundErr (te_message t) | None \<Rightarrow> False)
           then (let a1 = snd (SetSessionCodexThreadID (up 4) a (fst sess) None) in
             (case tv_run ev 1 r2 of
                Inl e \<Rightarrow> fail_turn ev req (CodexCall e) msg_failed_retry [Ran r1, Ran r2] a1
              | Inr None \<Rightarrow> fail_turn ev req NilRetryResponse msg_no_response [Ran r1, Ran r2] a1
              | Inr (Some q) \<Rightarrow> answerTurn ev up req (fst sess, None) q [Ran r1, Ran r2] a1))
           else answerTurn ev up req sess r [Ran r1] a))"

text \<open>Statement 0: the session of the user.\<close>

definition runTurnSync ::
  "turn_env \<Rightarrow> (nat \<Rightarrow> bool) \<Rightarrow> time \<Rightarrow> string \<Rightarrow> codex_request \<Rightarrow> agent_db \<Rightarrow>
     turn_err option \<times> turn_effect list \<times> agent_db" where
  "runTurnSync ev up now uuid req a =
     (case store_GetSession (up 0) a (cq_ws req) (cq_user req) of
        Inl e \<Rightarrow> fail_turn ev req e msg_internal [] a
      | Inr sess \<Rightarrow>
          if fst sess = [] then
            (case store_CreateSession up now uuid a (cq_ws req) (cq_user req)
                    (''IM: '' @ (if cq_sender req = [] then cq_user req else cq_sender req)) (cq_channel req) of
               (Inl e, a1) \<Rightarrow> fail_turn ev req e msg_internal [] a1
             | (Inr new, a1) \<Rightarrow> sessionTurn ev up req new a1)
          else sessionTurn ev up req sess a)"

text \<open>The route: the reply and the request that is put into the queues.\<close>

definition codex_ServeHTTP ::
  "im_env \<Rightarrow> string \<Rightarrow> codex_request option \<Rightarrow> bool reply \<times> codex_request option" where
  "codex_ServeHTTP ev header body =
     (if \<not> internal_ok ev header then (ErrorReply 401 ''unauthorized'', None)
      else (case body of
          None \<Rightarrow> (ErrorReply 400 ''invalid json'', None)
        | Some req \<Rightarrow>
            if cq_channel req = [] \<or> cq_ws req = [] \<or> cq_user req = []
            then (ErrorReply 400 ''channel_id, workspace_id, wechat_user_id required'', None)
            else (Reply 202 True, Some req)))"

section \<open>The turn of OpenClaw\<close>

datatype pod_effect = Resumed string | Executed string "string list"

text \<open>\<open>pe_exec\<close> runs a command, \<open>pe_resume\<close> wakes a pod and yields its address; either may fail with a text.\<close>

record pod_env =
  pe_assistant :: "string \<Rightarrow> string"
  pe_exec :: "string \<Rightarrow> string list \<Rightarrow> string + string"
  pe_resume :: "string \<Rightarrow> string + string"
  pe_stdout :: "string \<Rightarrow> string + (string \<times> string list)"

text \<open>\<open>pe_stdout\<close> decodes the status and the texts of the payloads.\<close>

definition parseOpenclawStdout :: "(string \<Rightarrow> string + (string \<times> string list)) \<Rightarrow> string \<Rightarrow> string + string" where
  "parseOpenclawStdout decode out =
     (if TrimSpace out = [] then Inl ''openclaw agent: empty stdout''
      else (case decode (TrimSpace out) of
          Inl e \<Rightarrow> Inl (''openclaw agent: json: '' @ e)
        | Inr (st, payloads) \<Rightarrow>
            (let parts = filter (\<lambda>t. t \<noteq> []) (map TrimSpace payloads) in
             if parts = [] then Inl (''openclaw agent: no payload text (status='' @ st @ '')'')
             else Inr (Join parts [CHR 0x0A, CHR 0x0A]))))"

datatype sandbox_miss = NoSandbox | ResumeFailed string string

text \<open>
  The sandbox of a channel, woken up when it is paused.  Statements: 0 the running one, 1 the paused one, 2 its
  address, 3 its status.
\<close>

definition turnSandbox ::
  "pod_env \<Rightarrow> (nat \<Rightarrow> bool) \<Rightarrow> time \<Rightarrow> string \<Rightarrow> im_db \<Rightarrow> (sandbox_miss + string) \<times> pod_effect list \<times> im_db" where
  "turnSandbox pe up now c d =
     (case GetSandboxForChannel (pe_assistant pe) (up 0) d c of
        Inr (Some (i, _)) \<Rightarrow> (Inr i, [], d)
      | _ \<Rightarrow>
          (case GetPausedSandboxForChannel (up 1) d c of
             Inr (Some p) \<Rightarrow>
               (case pe_resume pe p of
                  Inl e \<Rightarrow> (Inl (ResumeFailed p e), [Resumed p], d)
                | Inr ip \<Rightarrow>
                    (Inr p, [Resumed p], snd (on_srv (\<lambda>s. ((), wakeEnd (\<lambda>k. up (2 + k)) now p ip s)) d)))
           | _ \<Rightarrow> (Inl NoSandbox, [], d)))"

definition openclaw_cmd :: "string \<Rightarrow> string \<Rightarrow> string list" where
  "openclaw_cmd msg session =
     [''node'', ''openclaw.mjs'', ''agent'', ''--message'', msg, ''--json'', ''--session-id'', session]"

text \<open>
  The request is that of the bridge (\<open>openclaw_turn\<close>); \<open>pe\<close> is \<open>None\<close> when no sandboxes are configured.
  Statements: 0 to 3 the sandbox, 4 and 5 the two messages, which are stored after the reply.
\<close>

definition handleOpenclawTurn ::
  "im_env \<Rightarrow> pod_env option \<Rightarrow> (nat \<Rightarrow> bool) \<Rightarrow> time \<Rightarrow> (nat \<Rightarrow> string) \<Rightarrow> string \<Rightarrow> openclaw_turn option \<Rightarrow> im_db \<Rightarrow>
     string reply \<times> pod_effect list \<times> im_db" where
  "handleOpenclawTurn ev pod up now fresh header body d =
     (if \<not> internal_ok ev header then (ErrorReply 401 ''unauthorized'', [], d)
      else (case pod of
          None \<Rightarrow> (ErrorReply 503 ''openclaw exec not configured'', [], d)
        | Some pe \<Rightarrow>
     (case body of
        None \<Rightarrow> (ErrorReply 400 ''bad request'', [], d)
      | Some req \<Rightarrow>
     (if ot_channel req = [] \<or> ot_text req = [] then (ErrorReply 400 ''bad request'', [], d)
      else (case turnSandbox pe up now (ot_channel req) d of
          (Inl NoSandbox, es, d1) \<Rightarrow> (ErrorReply 404 ''no running sandbox for channel'', es, d1)
        | (Inl (ResumeFailed _ _), es, d1) \<Rightarrow> (ErrorReply 503 ''sandbox resume failed'', es, d1)
        | (Inr s, es, d1) \<Rightarrow>
            (let cmd = openclaw_cmd (ot_text req) (if ot_session req = [] then ''im-default'' else ot_session req);
                 es1 = es @ [Executed s cmd] in
             (case pe_exec pe s cmd of
                Inl e \<Rightarrow> (ErrorReply 500 (''exec failed: '' @ e), es1, d1)
              | Inr out \<Rightarrow>
             (case parseOpenclawStdout (pe_stdout pe) out of
                Inl e \<Rightarrow> (ErrorReply 500 (''parse failed: '' @ e), es1, d1)
              | Inr answer \<Rightarrow>
                  (let d2 = snd (SaveIMMessage (up 4) now (fresh 0) d1 (ot_channel req) (ot_from req) ''inbound''
                                   (ot_text req) (ot_session req));
                       d3 = snd (SaveIMMessage (up 5) now (fresh 1) d2 (ot_channel req) (ot_from req) ''outbound''
                                   answer (ot_session req)) in
                   (Reply 200 answer, es1, d3))))))))))"

section \<open>Every turn is answered\<close>

definition answered :: "turn_env \<Rightarrow> codex_request \<Rightarrow> turn_effect list \<Rightarrow> bool" where
  "answered ev req es \<longleftrightarrow>
     (\<exists>ts msg. es = map (\<lambda>t. Ran \<lparr>tr_ws = cq_ws req, tr_thread = t, tr_params = buildCodexInput (tv_b64 ev) req\<rparr>) ts @
        [Posted (cq_channel req) (cq_user req) msg] \<and> length ts \<le> 2)"

lemma answeredI:
  assumes "es = map (\<lambda>t. Ran \<lparr>tr_ws = cq_ws req, tr_thread = t, tr_params = buildCodexInput (tv_b64 ev) req\<rparr>) ts"
    and "length ts \<le> 2"
  shows "answered ev req (es @ [snd (postSend ev req msg)])"
  using assms by (auto simp: answered_def postSend_def)

lemma finishTurn_posts: "\<exists>msg. fst (snd (finishTurn ev up req s turn es a)) = es @ [snd (postSend ev req msg)]"
  by (auto simp: finishTurn_def fail_turn_def Let_def)

lemma answerTurn_posts: "\<exists>msg. fst (snd (answerTurn ev up req sess r es a)) = es @ [snd (postSend ev req msg)]"
  using finishTurn_posts by (auto simp: answerTurn_def fail_turn_def Let_def split: option.split sum.split)

lemma sessionTurn_answers: "answered ev req (fst (snd (sessionTurn ev up req sess a)))"
proof -
  let ?call = "\<lambda>t. Ran \<lparr>tr_ws = cq_ws req, tr_thread = t, tr_params = buildCodexInput (tv_b64 ev) req\<rparr>"
  have one: "answered ev req ([?call (snd sess)] @ [snd (postSend ev req msg)])" for msg
    by (rule answeredI [where ts = "[snd sess]"]) simp_all
  have two: "answered ev req ([?call (snd sess), ?call None] @ [snd (postSend ev req msg)])" for msg
    by (rule answeredI [where ts = "[snd sess, None]"]) simp_all
  have "answered ev req (fst (snd (answerTurn ev up req se r [?call (snd sess)] b)))"
    and "answered ev req (fst (snd (answerTurn ev up req se r [?call (snd sess), ?call None] b)))" for se r b
    using answerTurn_posts [of ev up req se r _ b] one two by metis+
  then show ?thesis
    using one two by (auto simp: sessionTurn_def fail_turn_def Let_def split: sum.split option.split)
qed

lemma runTurnSync_answers: "answered ev req (fst (snd (runTurnSync ev up now uuid req a)))"
proof -
  have none: "answered ev req [snd (postSend ev req msg)]" for msg
    using answeredI [of "[]" req ev "[]" msg] by simp
  show ?thesis
    using none sessionTurn_answers
    by (auto simp: runTurnSync_def fail_turn_def split: sum.split prod.split)
qed

text \<open>C36: Every turn, however it ends, asks the gateway at most twice, for the workspace and the content of the
  request, and then sends exactly one message, to the user and the channel of the request.\<close>

theorem turn_answers_once:
  "\<exists>ts msg. fst (snd (runTurnSync ev up now uuid req a)) =
      map (\<lambda>t. Ran \<lparr>tr_ws = cq_ws req, tr_thread = t, tr_params = buildCodexInput (tv_b64 ev) req\<rparr>) ts @
      [Posted (cq_channel req) (cq_user req) msg] \<and> length ts \<le> 2"
  using runTurnSync_answers by (simp add: answered_def)

section \<open>A conversation goes on\<close>

lemma find_update_rows_key:
  assumes "\<And>r. P (f r) = P r"
  shows "find P (update_rows Q f rs) = map_option (\<lambda>r. if Q r then f r else r) (find P rs)"
  using assms by (induction rs) auto

lemma store_GetSession_set:
  assumes "s \<noteq> []"
  shows "store_GetSession True (snd (SetSessionCodexThreadID True a s t)) w u =
    (case store_GetSession True a w u of Inl e \<Rightarrow> Inl e | Inr (i, th) \<Rightarrow> Inr (i, if i = s then t else th))"
  using assms
  by (auto simp: store_GetSession_def GetSessionByExternalID_def SetSessionCodexThreadID_def update_sessions_def
      find_update_rows_key scan_session_def split: option.split)

lemma find_external_new:
  assumes "find (\<lambda>r. as_ws r = w \<and> as_external r = Some u) rs = None" and "\<not> list_ex (\<lambda>r. as_id r = i) rs"
    and "as_id x = i" and "as_ws x = w"
  shows "find (\<lambda>r. as_ws r = w \<and> as_external r = Some u)
      (update_rows (\<lambda>r. as_id r = i) (\<lambda>r. r\<lparr>as_external := Some u\<rparr>) (rs @ [x])) = Some (x\<lparr>as_external := Some u\<rparr>)"
  using assms by (induction rs) (auto split: if_splits)

lemma insert_session_ok:
  "insert_session a r = (None, a') \<Longrightarrow> \<not> has_session a (as_id r) \<and> a' = a\<lparr>ag_sessions := ag_sessions a @ [r]\<rparr>"
  by (auto simp: insert_session_def split: if_splits)

lemma CreateAgentSession_ok:
  assumes "CreateAgentSession up now a i sandbox w title tags = (None, a')"
  obtains r where "\<not> has_session a i" and "a' = a\<lparr>ag_sessions := ag_sessions a @ [r]\<rparr>"
    and "as_id r = i" and "as_ws r = w" and "as_external r = None" and "as_thread r = None"
proof -
  let ?r = "(new_session now i sandbox w title)\<lparr>as_tags := (case tags of None \<Rightarrow> [] | Some ts \<Rightarrow> ts)\<rparr>"
  from assms have "insert_session a ?r = (None, a')" by (simp add: CreateAgentSession_def split: if_splits)
  from insert_session_ok [OF this] show ?thesis by (intro that [of ?r]) (simp_all add: new_session_def)
qed

lemma SetSessionExternalID_ok:
  assumes "SetSessionExternalID up a i u = (None, a')" and "find (\<lambda>r. as_id r = i) (ag_sessions a) = Some x"
  shows "\<not> list_ex (\<lambda>r. as_id r \<noteq> i \<and> as_ws r = as_ws x \<and> as_external r = Some u) (ag_sessions a) \<and>
    ag_sessions a' = update_rows (\<lambda>r. as_id r = i) (\<lambda>r. r\<lparr>as_external := Some u\<rparr>) (ag_sessions a)"
  using assms by (auto simp: SetSessionExternalID_def split: if_splits)

lemma store_CreateSession_found:
  assumes "store_CreateSession up now uuid a w u title c = (Inr new, a')"
  shows "store_GetSession True a' w u = Inr new \<and> fst new \<noteq> []"
proof -
  let ?i = "''cse_'' @ uuid"
  let ?P = "\<lambda>r. as_ws r = w \<and> as_external r = Some u"
  from assms obtain a1 a2 where one: "CreateAgentSession (up 1) now a ?i None w title None = (None, a1)"
    and two: "SetSessionExternalID (up 2) a1 ?i u = (None, a2)"
    and a': "a' = (if c \<noteq> [] then snd (SetSessionIMChannel (up 3) a2 ?i c) else a2)" and new: "new = (?i, None)"
    by (auto simp: store_CreateSession_def Let_def split: prod.splits option.splits)
  from one obtain x where fresh: "\<not> has_session a ?i" and a1: "a1 = a\<lparr>ag_sessions := ag_sessions a @ [x]\<rparr>"
    and x: "as_id x = ?i" "as_ws x = w" "as_external x = None" "as_thread x = None"
    by (rule CreateAgentSession_ok)
  have fx: "find (\<lambda>r. as_id r = ?i) (ag_sessions a1) = Some x"
    using fresh x(1) by (auto simp: a1 find_append has_session_def list_ex_iff find_None_iff split: option.split dest: find_Some_in)
  note s = SetSessionExternalID_ok [OF two fx]
  have "find ?P (ag_sessions a) = None"
    using s fresh x(2) by (auto simp: a1 find_None_iff list_ex_iff has_session_def)
  from find_external_new [OF this _ x(1,2)] fresh s
  have "find ?P (ag_sessions a2) = Some (x\<lparr>as_external := Some u\<rparr>)" by (simp add: has_session_def a1)
  then have "\<exists>y. find ?P (ag_sessions a') = Some y \<and> as_id y = ?i \<and> as_thread y = None"
    unfolding a' using x by (simp add: SetSessionIMChannel_def update_sessions_def find_update_rows_key)
  then obtain y where "find ?P (ag_sessions a') = Some y" "as_id y = ?i" "as_thread y = None" by blast
  then show ?thesis
    by (simp add: store_GetSession_def GetSessionByExternalID_def scan_session_def new)
qed

text \<open>A turn that succeeds keeps the thread of its answer.\<close>

lemma finishTurn_ok: "finishTurn ev up req s turn es a = (None, es', a') \<Longrightarrow> a' = a"
  by (auto simp: finishTurn_def fail_turn_def Let_def split: if_splits)

lemma answerTurn_ok:
  assumes "answerTurn ev up req sess r es a = (None, es', a')" and "store_GetSession True a w u = Inr sess"
    and "fst sess \<noteq> []" and "up 5"
  shows "store_GetSession True a' w u = Inr (fst sess, if cs_thread r \<noteq> [] then Some (cs_thread r) else snd sess)"
proof -
  obtain i th where s: "sess = (i, th)" by (cases sess)
  from assms(1) have "a' = (if cs_thread r \<noteq> [] \<and> snd sess \<noteq> Some (cs_thread r)
      then snd (SetSessionCodexThreadID (up 5) a (fst sess) (Some (cs_thread r))) else a)"
    by (auto simp: answerTurn_def fail_turn_def Let_def dest: finishTurn_ok split: option.splits sum.splits)
  with assms(2-4) s show ?thesis by (auto simp: store_GetSession_set)
qed

lemma answerTurn_effects:
  "answerTurn ev up req sess r es a = (e, es', a') \<Longrightarrow> \<exists>msg. es' = es @ [snd (postSend ev req msg)]"
  using answerTurn_posts [of ev up req sess r es a] by auto

lemma sessionTurn_thread:
  assumes "sessionTurn ev up req sess a = (None, rs @ [Ran q, Posted c u' msg], a')"
    and "store_GetSession True a w u = Inr sess" and "fst sess \<noteq> []" and "\<And>n. up n"
    and "tv_run ev (length rs) q = Inr (Some r)" and "cs_thread r \<noteq> []"
  shows "\<exists>i. i \<noteq> [] \<and> store_GetSession True a' w u = Inr (i, Some (cs_thread r))"
proof -
  let ?call = "\<lambda>t. \<lparr>tr_ws = cq_ws req, tr_thread = t, tr_params = buildCodexInput (tv_b64 ev) req\<rparr>"
  from assms(1) obtain r0 where r0: "tv_run ev 0 (?call (snd sess)) = Inr (Some r0)"
    by (auto simp: sessionTurn_def fail_turn_def Let_def split: sum.splits option.splits)
  show ?thesis
  proof (cases "snd sess \<noteq> None \<and> (case cs_transport r0 of Some t \<Rightarrow> isThreadNotFoundErr (te_message t) | None \<Rightarrow> False)")
    case True
    let ?a1 = "snd (SetSessionCodexThreadID True a (fst sess) None)"
    from assms(1,4) r0 True obtain r1 where r1: "tv_run ev 1 (?call None) = Inr (Some r1)"
      and ans: "answerTurn ev up req (fst sess, None) r1 [Ran (?call (snd sess)), Ran (?call None)] ?a1 =
        (None, rs @ [Ran q, Posted c u' msg], a')"
      by (auto simp: sessionTurn_def fail_turn_def Let_def split: sum.splits option.splits)
    from answerTurn_effects [OF ans] have "rs = [Ran (?call (snd sess))]" "q = ?call None" by auto
    with assms(5) r1 have "r1 = r" by simp
    moreover have "store_GetSession True ?a1 w u = Inr (fst sess, None)"
      using assms(2,3) by (cases sess) (simp add: store_GetSession_set)
    ultimately show ?thesis using answerTurn_ok [OF ans] assms(3,4,6) by auto
  next
    case False
    with assms(1) r0 have ans: "answerTurn ev up req sess r0 [Ran (?call (snd sess))] a =
        (None, rs @ [Ran q, Posted c u' msg], a')"
      by (auto simp: sessionTurn_def fail_turn_def Let_def)
    from answerTurn_effects [OF ans] have "rs = []" "q = ?call (snd sess)" by (auto simp: append_eq_Cons_conv)
    with assms(5) r0 have "r0 = r" by simp
    with answerTurn_ok [OF ans assms(2,3) assms(4)] assms(3,6) show ?thesis by auto
  qed
qed

lemma runTurnSync_known:
  assumes "store_GetSession (up 0) a (cq_ws req) (cq_user req) = Inr (i, th)" and "i \<noteq> []"
  shows "\<exists>es. fst (snd (runTurnSync ev up now uuid req a)) =
    Ran \<lparr>tr_ws = cq_ws req, tr_thread = th, tr_params = buildCodexInput (tv_b64 ev) req\<rparr> # es"
proof -
  have "\<exists>msg. fst (snd (answerTurn ev up req se r es b)) = es @ [snd (postSend ev req msg)]" for se r es b
    by (rule answerTurn_posts)
  then have "\<exists>xs. fst (snd (answerTurn ev up req se r (x # es) b)) = x # xs" for se r x es b
    by (metis append_Cons)
  with assms show ?thesis
    by (simp add: runTurnSync_def sessionTurn_def fail_turn_def Let_def split: sum.split option.split)
qed

text \<open>C37: When a turn of a user has succeeded on a thread, the next turn of this user in the workspace, on whatever
  channel, is asked for on that thread.\<close>

theorem turn_continues:
  assumes "runTurnSync ev up now uuid req a = (None, rs @ [Ran q, Posted c u msg], a1)"
    and "tv_run ev (length rs) q = Inr (Some r)" and "cs_thread r \<noteq> []"
    and "\<And>n. up n" and "up' 0" and "cq_ws req' = cq_ws req" and "cq_user req' = cq_user req"
  shows "\<exists>es. fst (snd (runTurnSync ev' up' now' uuid' req' a1)) =
    Ran \<lparr>tr_ws = cq_ws req', tr_thread = Some (cs_thread r), tr_params = buildCodexInput (tv_b64 ev') req'\<rparr> # es"
proof -
  have "\<exists>i. i \<noteq> [] \<and> store_GetSession True a1 (cq_ws req) (cq_user req) = Inr (i, Some (cs_thread r))"
  proof (cases "store_GetSession (up 0) a (cq_ws req) (cq_user req)")
    case Inl with assms(1) show ?thesis by (simp add: runTurnSync_def fail_turn_def)
  next
    case (Inr sess)
    show ?thesis
    proof (cases "fst sess = []")
      case False
      with Inr assms(1) have "sessionTurn ev up req sess a = (None, rs @ [Ran q, Posted c u msg], a1)"
        by (simp add: runTurnSync_def)
      from sessionTurn_thread [OF this _ False assms(4,2,3)] Inr assms(4) show ?thesis by simp
    next
      case True
      with Inr assms(1) obtain new b where
        n: "store_CreateSession up now uuid a (cq_ws req) (cq_user req)
            (''IM: '' @ (if cq_sender req = [] then cq_user req else cq_sender req)) (cq_channel req) = (Inr new, b)"
        and "sessionTurn ev up req new b = (None, rs @ [Ran q, Posted c u msg], a1)"
        by (auto simp: runTurnSync_def fail_turn_def split: prod.splits sum.splits)
      from sessionTurn_thread [OF this(2) _ _ assms(4,2,3)] store_CreateSession_found [OF n] show ?thesis by blast
    qed
  qed
  with assms(5-7) runTurnSync_known [of up' a1 req'] show ?thesis by (metis (full_types))
qed

section \<open>A small conversation\<close>

definition small_request :: "string \<Rightarrow> codex_request" where
  "small_request t = \<lparr>cq_channel = ''c'', cq_ws = ''w'', cq_user = ''u'', cq_sender = [], cq_text = t, cq_quoted = [],
     cq_quoter = [], cq_media = [], cq_data = [], cq_qmedia = [], cq_qdata = []\<rparr>"

definition small_turn_env :: turn_env where
  "small_turn_env =
     \<lparr>tv_run = (\<lambda>_ _. Inr (Some \<lparr>cs_thread = ''t'', cs_turn = [], cs_transport = None\<rparr>)),
      tv_turn = (\<lambda>_. Inr \<lparr>ct_status = ''completed'', ct_items = [''x''], ct_error = None\<rparr>),
      tv_item = (\<lambda>_. Some (''agentMessage'', ''hi'')), tv_b64 = Some, tv_send = (\<lambda>_. Inr (200, []))\<rparr>"

definition small_agent :: agent_db where
  "small_agent = \<lparr>ag_im = iw_db small_imw2, ag_sessions = [], ag_events = [], ag_seq = 0, ag_workers = [],
     ag_internal = [], ag_iseq = 0, ag_autos = []\<rparr>"

definition small_turn :: "turn_err option \<times> turn_effect list \<times> agent_db" where
  "small_turn = runTurnSync small_turn_env (\<lambda>_. True) 1 ''i'' (small_request ''a'') small_agent"

lemma small_turn_result:
  "fst small_turn = None \<and> fst (snd small_turn) =
     [Ran \<lparr>tr_ws = ''w'', tr_thread = None, tr_params = [InputText ''a'']\<rparr>, Posted ''c'' ''u'' ''hi'']"
  by code_simp

theorem turn_continues_witness:
  "\<exists>es. fst (snd (runTurnSync small_turn_env (\<lambda>_. True) 2 ''j'' (small_request ''b'') (snd (snd small_turn)))) =
     Ran \<lparr>tr_ws = ''w'', tr_thread = Some ''t'', tr_params = [InputText ''b'']\<rparr> # es"
proof -
  let ?q = "\<lparr>tr_ws = ''w'', tr_thread = None, tr_params = [InputText ''a'']\<rparr>"
  let ?r = "\<lparr>cs_thread = ''t'', cs_turn = [], cs_transport = None\<rparr>"
  have "runTurnSync small_turn_env (\<lambda>_. True) 1 ''i'' (small_request ''a'') small_agent =
      (None, [] @ [Ran ?q, Posted ''c'' ''u'' ''hi''], snd (snd small_turn))"
    using small_turn_result by (simp add: small_turn_def prod_eq_iff)
  from turn_continues [OF this, of ?r "\<lambda>_. True" "small_request ''b''" small_turn_env]
  show ?thesis
    by (simp add: small_turn_env_def small_request_def buildCodexInput_def image_item_def text_item_def
        imageInputItem_def formatQuoteMarker_def)
qed

end
