(* ===== verification/Turn_Queue.thy ===== *)
theory Turn_Queue
  imports Im_Turns "HOL-Library.Sublist" "HOL-Library.Multiset"
begin

text \<open>
  The queues in front of the Codex turns (\<open>codexDispatcher\<close> in \<open>internal/server/codex_im_inbound.go\<close>): one channel
  and one worker per messenger user of an IM channel.  An operation is what one goroutine does between two points
  where another may run; it answers with what it did.  A run collects these events, and the theorem compares them.
\<close>

section \<open>State\<close>

text \<open>A call of \<open>Enqueue\<close> that found its slot: about to send, or about to drain because the channel was full.\<close>

datatype sender = Sending codex_request | Draining codex_request

text \<open>The channel, whether its worker has started, what the worker processes, and the calls that are not done.\<close>

record dispatcherSlot =
  ds_ch :: "codex_request list"
  ds_ready :: bool
  ds_busy :: "codex_request option"
  ds_senders :: "sender list"

text \<open>Slots stay while a goroutine refers to them; \<open>workers\<close> is emptied by \<open>Stop\<close>, which closes all channels.\<close>

record codexDispatcher =
  cd_cap :: nat
  cd_slots :: "string \<Rightarrow> dispatcherSlot option"
  cd_stopped :: bool
  cd_panicked :: bool

definition newCodexDispatcher :: "nat \<Rightarrow> codexDispatcher" where
  "newCodexDispatcher n = \<lparr>cd_cap = n, cd_slots = (\<lambda>_. None), cd_stopped = False, cd_panicked = False\<rparr>"

definition dispatcherKey :: "codex_request \<Rightarrow> string" where
  "dispatcherKey req = cq_channel req @ '':'' @ cq_user req"

definition put_slot :: "string \<Rightarrow> dispatcherSlot \<Rightarrow> codexDispatcher \<Rightarrow> codexDispatcher" where
  "put_slot k s d = d\<lparr>cd_slots := (cd_slots d)(k \<mapsto> s)\<rparr>"

text \<open>
  What happens to a request: \<open>Enqueue\<close> is called with it on a running dispatcher, it is put into the channel,
  drained from it for another one, received by the worker, and processed.
\<close>

datatype queue_kind = Called | Queued | Drained | Taken | Finished

type_synonym queue_event = "queue_kind \<times> codex_request"

section \<open>Operations\<close>

text \<open>\<open>Enqueue\<close> up to the release of the lock; for a new slot with its worker, which the call then waits for.\<close>

definition Enqueue_locked :: "codex_request \<Rightarrow> codexDispatcher \<Rightarrow> queue_event list \<times> codexDispatcher" where
  "Enqueue_locked req d =
     (let k = dispatcherKey req in
      if cd_stopped d then ([], d)
      else (case cd_slots d k of
          None \<Rightarrow> ([(Called, req), (Queued, req)],
            put_slot k \<lparr>ds_ch = [req], ds_ready = False, ds_busy = None, ds_senders = []\<rparr> d)
        | Some s \<Rightarrow> ([(Called, req)], put_slot k (s\<lparr>ds_senders := ds_senders s @ [Sending req]\<rparr>) d)))"

text \<open>
  The sender \<open>n\<close> of a slot takes a step: it sends and returns, finds the channel full, or drops the oldest request.
  A send on a closed channel is a panic, which ends the process.
\<close>

definition Enqueue_try :: "string \<Rightarrow> nat \<Rightarrow> codexDispatcher \<Rightarrow> queue_event list \<times> codexDispatcher" where
  "Enqueue_try k n d =
     (case cd_slots d k of
        None \<Rightarrow> ([], d)
      | Some s \<Rightarrow>
          if n \<ge> length (ds_senders s) then ([], d)
          else (case ds_senders s ! n of
              Sending req \<Rightarrow>
                if cd_stopped d then ([], d\<lparr>cd_panicked := True\<rparr>)
                else if length (ds_ch s) < cd_cap d
                then ([(Queued, req)], put_slot k (s\<lparr>ds_ch := ds_ch s @ [req],
                       ds_senders := take n (ds_senders s) @ drop (Suc n) (ds_senders s)\<rparr>) d)
                else ([], put_slot k (s\<lparr>ds_senders := (ds_senders s)[n := Draining req]\<rparr>) d)
            | Draining req \<Rightarrow>
                (let s1 = s\<lparr>ds_senders := (ds_senders s)[n := Sending req]\<rparr> in
                 case ds_ch s of
                     [] \<Rightarrow> ([], put_slot k s1 d)
                   | x # xs \<Rightarrow> ([(Drained, x)], put_slot k (s1\<lparr>ds_ch := xs\<rparr>) d))))"

text \<open>The worker takes the next request, also from a closed channel; with the first one the slot is ready.\<close>

definition worker_take :: "string \<Rightarrow> codexDispatcher \<Rightarrow> queue_event list \<times> codexDispatcher" where
  "worker_take k d =
     (case cd_slots d k of
        None \<Rightarrow> ([], d)
      | Some s \<Rightarrow>
          (case (ds_busy s, ds_ch s) of
             (None, x # xs) \<Rightarrow> ([(Taken, x)], put_slot k (s\<lparr>ds_ch := xs, ds_busy := Some x, ds_ready := True\<rparr>) d)
           | _ \<Rightarrow> ([], d)))"

definition worker_done :: "string \<Rightarrow> codexDispatcher \<Rightarrow> queue_event list \<times> codexDispatcher" where
  "worker_done k d =
     (case cd_slots d k of
        None \<Rightarrow> ([], d)
      | Some s \<Rightarrow>
          (case ds_busy s of
             None \<Rightarrow> ([], d)
           | Some x \<Rightarrow> ([(Finished, x)], put_slot k (s\<lparr>ds_busy := None\<rparr>) d)))"

definition Stop_dispatcher :: "codexDispatcher \<Rightarrow> codexDispatcher" where
  "Stop_dispatcher d = d\<lparr>cd_stopped := True\<rparr>"

inductive queue_step :: "codexDispatcher \<Rightarrow> queue_event list \<times> codexDispatcher \<Rightarrow> bool" where
  q_enqueue: "queue_step d (Enqueue_locked req d)"
| q_send: "queue_step d (Enqueue_try k n d)"
| q_take: "queue_step d (worker_take k d)"
| q_done: "queue_step d (worker_done k d)"
| q_stop: "queue_step d ([], Stop_dispatcher d)"

text \<open>A run of a dispatcher of some capacity, with the events of its operations in order.\<close>

inductive queue_run :: "nat \<Rightarrow> queue_event list \<Rightarrow> codexDispatcher \<Rightarrow> bool" for cap where
  q_start: "queue_run cap [] (newCodexDispatcher cap)"
| q_more: "queue_run cap evs d \<Longrightarrow> queue_step d r \<Longrightarrow> queue_run cap (evs @ fst r) (snd r)"

section \<open>Order and capacity\<close>

text \<open>The requests of one queue to which something happened.\<close>

definition events_of :: "queue_kind \<Rightarrow> string \<Rightarrow> queue_event list \<Rightarrow> codex_request list" where
  "events_of x k evs = map snd (filter (\<lambda>e. fst e = x \<and> dispatcherKey (snd e) = k) evs)"

definition sender_req :: "sender \<Rightarrow> codex_request" where
  "sender_req x = (case x of Sending r \<Rightarrow> r | Draining r \<Rightarrow> r)"

definition busy_list :: "dispatcherSlot \<Rightarrow> codex_request list" where
  "busy_list s = (case ds_busy s of None \<Rightarrow> [] | Some x \<Rightarrow> [x])"

definition slot_ok :: "nat \<Rightarrow> string \<Rightarrow> queue_event list \<Rightarrow> dispatcherSlot \<Rightarrow> bool" where
  "slot_ok cap k evs s \<longleftrightarrow>
     length (ds_ch s) \<le> cap \<and>
     events_of Taken k evs = events_of Finished k evs @ busy_list s \<and>
     subseq (events_of Finished k evs @ busy_list s @ ds_ch s) (events_of Queued k evs) \<and>
     mset (events_of Queued k evs) = mset (events_of Taken k evs) + mset (ds_ch s) + mset (events_of Drained k evs) \<and>
     mset (events_of Called k evs) = mset (events_of Queued k evs) + mset (map sender_req (ds_senders s))"

definition queue_ok :: "nat \<Rightarrow> queue_event list \<Rightarrow> codexDispatcher \<Rightarrow> bool" where
  "queue_ok cap evs d \<longleftrightarrow> cd_cap d = cap \<and>
     (\<forall>k. case cd_slots d k of None \<Rightarrow> \<forall>x. events_of x k evs = [] | Some s \<Rightarrow> slot_ok cap k evs s)"

lemma events_of_simps [simp]:
  "events_of x k [] = []"
  "events_of x k (e # evs) = (if fst e = x \<and> dispatcherKey (snd e) = k then [snd e] else []) @ events_of x k evs"
  "events_of x k (evs @ evs') = events_of x k evs @ events_of x k evs'"
  by (simp_all add: events_of_def)

lemma events_of_key: "r \<in> set (events_of x k evs) \<Longrightarrow> dispatcherKey r = k"
  by (auto simp: events_of_def)

lemma queue_ok_slot: "queue_ok cap evs d \<Longrightarrow> cd_slots d k = Some s \<Longrightarrow> slot_ok cap k evs s"
  unfolding queue_ok_def by (metis option.simps(5))

lemma queue_ok_put:
  assumes "queue_ok cap evs d" and "\<And>e. e \<in> set new \<Longrightarrow> dispatcherKey (snd e) = k"
    and "slot_ok cap k (evs @ new) s"
  shows "queue_ok cap (evs @ new) (put_slot k s d)"
proof -
  have other: "events_of x k' (evs @ new) = events_of x k' evs" if "k' \<noteq> k" for x k'
    using assms(2) that by (auto simp: events_of_def)
  have "slot_ok cap k' (evs @ new) t" if "k' \<noteq> k" "slot_ok cap k' evs t" for k' t
    using that(2) unfolding slot_ok_def other [OF that(1)] .
  note same = this
  have "case cd_slots (put_slot k s d) k' of None \<Rightarrow> \<forall>x. events_of x k' (evs @ new) = []
      | Some t \<Rightarrow> slot_ok cap k' (evs @ new) t" for k'
  proof (cases "k' = k")
    case True with assms(3) show ?thesis by (simp add: put_slot_def)
  next
    case False
    have "case cd_slots d k' of None \<Rightarrow> \<forall>x. events_of x k' evs = [] | Some t \<Rightarrow> slot_ok cap k' evs t"
      using assms(1) by (simp only: queue_ok_def)
    with False same [OF False] show ?thesis
      by (cases "cd_slots d k'") (simp_all add: put_slot_def other [OF False] del: events_of_simps(3))
  qed
  with assms(1) show ?thesis by (simp add: queue_ok_def put_slot_def)
qed

lemma slot_ok_senders:
  assumes "slot_ok cap k evs s" and "map sender_req xs = map sender_req (ds_senders s)"
  shows "slot_ok cap k evs (s\<lparr>ds_senders := xs\<rparr>)"
  using assms(1) arg_cong [OF assms(2), of mset] by (simp add: slot_ok_def busy_list_def)

lemma slot_ch_key: "slot_ok cap k evs s \<Longrightarrow> r \<in> set (ds_ch s) \<Longrightarrow> dispatcherKey r = k"
  using events_of_key [of r Queued k evs] unfolding slot_ok_def
  by (metis set_mset_mset union_iff)

lemma slot_busy_key: "slot_ok cap k evs s \<Longrightarrow> ds_busy s = Some r \<Longrightarrow> dispatcherKey r = k"
  using events_of_key [of r Taken k evs] by (simp add: slot_ok_def busy_list_def)

lemma slot_sender_key:
  assumes "slot_ok cap k evs s" and "n < length (ds_senders s)"
  shows "dispatcherKey (sender_req (ds_senders s ! n)) = k"
proof -
  have "sender_req (ds_senders s ! n) \<in> set (map sender_req (ds_senders s))" using assms(2) by simp
  then have "sender_req (ds_senders s ! n) \<in> set (events_of Called k evs)"
    using assms(1) unfolding slot_ok_def by (metis set_mset_mset union_iff)
  then show ?thesis by (rule events_of_key)
qed

lemma subseq_drop_middle: "subseq (xs @ y # ys) zs \<Longrightarrow> subseq (xs @ ys) zs"
  by (meson subseq_Cons' subseq_append' subseq_order.trans subseq_order.refl)

lemma sender_same:
  assumes "n < length xs" and "sender_req y = sender_req (xs ! n)"
  shows "map sender_req (xs[n := y]) = map sender_req xs"
  using assms by (intro nth_equalityI) (auto simp: nth_list_update)

lemma sender_gone:
  assumes "n < length xs"
  shows "mset (map sender_req xs) = add_mset (sender_req (xs ! n)) (mset (map sender_req (take n xs @ drop (Suc n) xs)))"
  by (subst id_take_nth_drop [OF assms]) simp

lemma try_keeps:
  assumes ok: "queue_ok cap evs d" and r: "r = Enqueue_try k n d"
  shows "queue_ok cap (evs @ fst r) (snd r)"
proof (cases "\<exists>s. cd_slots d k = Some s \<and> n < length (ds_senders s)")
  case False with ok r show ?thesis by (auto simp: Enqueue_try_def split: option.split)
next
  case True
  then obtain s where s: "cd_slots d k = Some s" "n < length (ds_senders s)" by blast
  note sok = queue_ok_slot [OF ok s(1)] and key = slot_sender_key [OF queue_ok_slot [OF ok s(1)] s(2)]
  have cap: "cd_cap d = cap" using ok by (simp add: queue_ok_def)
  show ?thesis
  proof (cases "ds_senders s ! n")
    case (Sending req)
    have k: "dispatcherKey req = k" using key Sending by (simp add: sender_req_def)
    have full: "slot_ok cap k evs (s\<lparr>ds_senders := (ds_senders s)[n := Draining req]\<rparr>)"
      by (rule slot_ok_senders [OF sok sender_same [OF s(2)]]) (simp add: Sending sender_req_def)
    have sent: "slot_ok cap k (evs @ [(Queued, req)]) (s\<lparr>ds_ch := ds_ch s @ [req],
        ds_senders := take n (ds_senders s) @ drop (Suc n) (ds_senders s)\<rparr>)" if "length (ds_ch s) < cap"
      using sok sender_gone [OF s(2)] Sending k that
        list_emb_append_mono [of "(=)" "events_of Finished k evs @ busy_list s @ ds_ch s" "events_of Queued k evs" "[req]" "[req]"]
      by (simp add: slot_ok_def busy_list_def sender_req_def)
    show ?thesis
      using ok s Sending cap k queue_ok_put [OF ok _ sent, simplified] queue_ok_put [OF ok, of "[]", simplified, OF full]
      by (simp add: r Enqueue_try_def) (simp add: queue_ok_def)
  next
    case (Draining req)
    have same: "slot_ok cap k evs (s\<lparr>ds_senders := (ds_senders s)[n := Sending req]\<rparr>)"
      by (rule slot_ok_senders [OF sok sender_same [OF s(2)]]) (simp add: Draining sender_req_def)
    show ?thesis
    proof (cases "ds_ch s")
      case Nil with s Draining queue_ok_put [OF ok, of "[]", simplified, OF same] show ?thesis
        by (simp add: r Enqueue_try_def)
    next
      case (Cons x xs)
      have "slot_ok cap k (evs @ [(Drained, x)]) (s\<lparr>ds_senders := (ds_senders s)[n := Sending req], ds_ch := xs\<rparr>)"
        using same Cons slot_ch_key [OF sok, of x] subseq_drop_middle [of "events_of Finished k evs @ busy_list s" x xs]
        by (simp add: slot_ok_def busy_list_def)
      with s Draining Cons queue_ok_put [OF ok, of "[(Drained, x)]" k] slot_ch_key [OF sok, of x] show ?thesis
        by (simp add: r Enqueue_try_def)
    qed
  qed
qed

lemma locked_keeps:
  assumes ok: "queue_ok cap evs d" and "0 < cap" and r: "r = Enqueue_locked req d"
  shows "queue_ok cap (evs @ fst r) (snd r)"
proof (cases "cd_slots d (dispatcherKey req)")
  case None
  from ok have "case cd_slots d (dispatcherKey req) of None \<Rightarrow> \<forall>x. events_of x (dispatcherKey req) evs = []
      | Some s \<Rightarrow> slot_ok cap (dispatcherKey req) evs s" by (simp only: queue_ok_def)
  with None have "slot_ok cap (dispatcherKey req) (evs @ [(Called, req), (Queued, req)])
      \<lparr>ds_ch = [req], ds_ready = False, ds_busy = None, ds_senders = []\<rparr>"
    using assms(2) by (simp add: slot_ok_def busy_list_def)
  then have "queue_ok cap (evs @ [(Called, req), (Queued, req)]) (put_slot (dispatcherKey req)
      \<lparr>ds_ch = [req], ds_ready = False, ds_busy = None, ds_senders = []\<rparr> d)"
    by (intro queue_ok_put [OF ok]) auto
  with ok None show ?thesis by (simp add: r Enqueue_locked_def Let_def)
next
  case (Some s)
  from queue_ok_slot [OF ok Some]
  have "slot_ok cap (dispatcherKey req) (evs @ [(Called, req)]) (s\<lparr>ds_senders := ds_senders s @ [Sending req]\<rparr>)"
    by (simp add: slot_ok_def busy_list_def sender_req_def)
  then have "queue_ok cap (evs @ [(Called, req)]) (put_slot (dispatcherKey req) (s\<lparr>ds_senders := ds_senders s @ [Sending req]\<rparr>) d)"
    by (intro queue_ok_put [OF ok]) auto
  with ok Some show ?thesis by (simp add: r Enqueue_locked_def Let_def)
qed

lemma take_keeps:
  assumes ok: "queue_ok cap evs d" and r: "r = worker_take k d"
  shows "queue_ok cap (evs @ fst r) (snd r)"
proof (cases "\<exists>s x xs. cd_slots d k = Some s \<and> ds_busy s = None \<and> ds_ch s = x # xs")
  case True
  then obtain s x xs where s: "cd_slots d k = Some s" "ds_busy s = None" "ds_ch s = x # xs" by blast
  note sok = queue_ok_slot [OF ok s(1)]
  have "slot_ok cap k (evs @ [(Taken, x)]) (s\<lparr>ds_ch := xs, ds_busy := Some x, ds_ready := True\<rparr>)"
    using sok s slot_ch_key [OF sok, of x] by (simp add: slot_ok_def busy_list_def)
  with s queue_ok_put [OF ok, of "[(Taken, x)]" k] slot_ch_key [OF sok, of x] show ?thesis
    by (simp add: r worker_take_def)
next
  case False with ok r show ?thesis by (auto simp: worker_take_def split: option.split list.split)
qed

lemma done_keeps:
  assumes ok: "queue_ok cap evs d" and r: "r = worker_done k d"
  shows "queue_ok cap (evs @ fst r) (snd r)"
proof (cases "\<exists>s x. cd_slots d k = Some s \<and> ds_busy s = Some x")
  case True
  then obtain s x where s: "cd_slots d k = Some s" "ds_busy s = Some x" by blast
  note sok = queue_ok_slot [OF ok s(1)]
  have "slot_ok cap k (evs @ [(Finished, x)]) (s\<lparr>ds_busy := None\<rparr>)"
    using sok s slot_busy_key [OF sok s(2)] by (simp add: slot_ok_def busy_list_def)
  with s queue_ok_put [OF ok, of "[(Finished, x)]" k] slot_busy_key [OF sok s(2)] show ?thesis
    by (simp add: r worker_done_def)
next
  case False with ok r show ?thesis by (auto simp: worker_done_def split: option.split)
qed

lemma queue_run_ok: "queue_run cap evs d \<Longrightarrow> 0 < cap \<Longrightarrow> queue_ok cap evs d"
proof (induction rule: queue_run.induct)
  case q_start then show ?case by (simp add: newCodexDispatcher_def queue_ok_def)
next
  case (q_more evs d r)
  note ok = q_more.IH [OF q_more.prems]
  from q_more.hyps(2) show ?case
  proof cases
    case (q_enqueue req) then show ?thesis by (rule locked_keeps [OF ok q_more.prems])
  next
    case (q_send k n) then show ?thesis by (rule try_keeps [OF ok])
  next
    case (q_take k) then show ?thesis by (rule take_keeps [OF ok])
  next
    case (q_done k) then show ?thesis by (rule done_keeps [OF ok])
  next
    case q_stop with ok show ?thesis by (simp add: Stop_dispatcher_def queue_ok_def)
  qed
qed

text \<open>C38: For every messenger user of a channel, in every run of the queues: the worker processes one message at a time,
  in the order in which the calls of \<open>Enqueue\<close> put them into the channel; each call puts its message into the channel
  exactly once or still tries to; each message put there is processed, in process, waiting or was drained for a newer
  one, none twice; and at most the capacity waits.  A user who writes on two channels has a queue for each.
\<close>

theorem turns_in_order:
  assumes "queue_run cap evs d" and "0 < cap" and "cd_slots d k = Some s"
  shows "length (ds_ch s) \<le> cap \<and>
    events_of Taken k evs = events_of Finished k evs @ (case ds_busy s of None \<Rightarrow> [] | Some x \<Rightarrow> [x]) \<and>
    subseq (events_of Taken k evs @ ds_ch s) (events_of Queued k evs) \<and>
    mset (events_of Queued k evs) = mset (events_of Taken k evs) + mset (ds_ch s) + mset (events_of Drained k evs) \<and>
    mset (events_of Called k evs) = mset (events_of Queued k evs) + mset (map sender_req (ds_senders s))"
  using queue_ok_slot [OF queue_run_ok [OF assms(1,2)] assms(3)]
  by (auto simp: slot_ok_def busy_list_def split: option.splits)

section \<open>A small history\<close>

lemma queue_run_ops:
  "queue_run cap evs d \<Longrightarrow> queue_run cap (evs @ fst (Enqueue_locked req d)) (snd (Enqueue_locked req d))"
  "queue_run cap evs d \<Longrightarrow> queue_run cap (evs @ fst (Enqueue_try k n d)) (snd (Enqueue_try k n d))"
  "queue_run cap evs d \<Longrightarrow> queue_run cap (evs @ fst (worker_take k d)) (snd (worker_take k d))"
  "queue_run cap evs d \<Longrightarrow> queue_run cap evs (Stop_dispatcher d)"
  using q_more [of cap evs d "([], Stop_dispatcher d)"]
  by (auto intro: queue_run.intros queue_step.intros)

text \<open>Capacity one: the second request is dropped for the third while the first is processed.\<close>

lemma small_key [simp]: "dispatcherKey (small_request t) = ''c:u''"
  by (simp add: dispatcherKey_def small_request_def)

definition small_slot :: "string list \<Rightarrow> sender list \<Rightarrow> dispatcherSlot" where
  "small_slot ch xs = \<lparr>ds_ch = map small_request ch, ds_ready = True, ds_busy = Some (small_request ''1''),
     ds_senders = xs\<rparr>"

definition small_queue :: "string list \<Rightarrow> sender list \<Rightarrow> codexDispatcher" where
  "small_queue ch xs = put_slot ''c:u'' (small_slot ch xs) (newCodexDispatcher 1)"

lemmas queue_ops = newCodexDispatcher_def Enqueue_locked_def Enqueue_try_def worker_take_def put_slot_def Let_def
  small_queue_def small_slot_def

definition small_events :: "queue_event list" where
  "small_events = [(Called, small_request ''1''), (Queued, small_request ''1''), (Taken, small_request ''1''),
     (Called, small_request ''2''), (Queued, small_request ''2''), (Called, small_request ''3''),
     (Drained, small_request ''2''), (Queued, small_request ''3'')]"

lemma small_run1: "queue_run 1 (take 3 small_events) (small_queue [] [])"
proof -
  note a = queue_run_ops(1) [OF q_start, of 1 "small_request ''1''"]
  from queue_run_ops(3) [OF a, of "''c:u''"] show ?thesis by (simp add: queue_ops small_events_def)
qed

lemma small_run2: "queue_run 1 (take 4 small_events) (small_queue [] [Sending (small_request ''2'')])"
  using queue_run_ops(1) [OF small_run1, of "small_request ''2''"] by (simp add: queue_ops small_events_def)

lemma small_run3: "queue_run 1 (take 6 small_events) (small_queue [''2''] [Sending (small_request ''3'')])"
proof -
  note a = queue_run_ops(2) [OF small_run2, of "''c:u''" 0]
  from queue_run_ops(1) [OF a, of "small_request ''3''"] show ?thesis by (simp add: queue_ops small_events_def)
qed

lemma small_run4: "queue_run 1 (take 7 small_events) (small_queue [] [Sending (small_request ''3'')])"
proof -
  note a = queue_run_ops(2) [OF small_run3, of "''c:u''" 0]
  from queue_run_ops(2) [OF a, of "''c:u''" 0] show ?thesis by (simp add: queue_ops small_events_def)
qed

lemma small_run: "queue_run 1 small_events (small_queue [''3''] [])"
  using queue_run_ops(2) [OF small_run4, of "''c:u''" 0] by (simp add: queue_ops small_events_def)

theorem turns_in_order_witness:
  "events_of Taken ''c:u'' small_events = [small_request ''1''] \<and>
   events_of Queued ''c:u'' small_events = [small_request ''1'', small_request ''2'', small_request ''3''] \<and>
   subseq [small_request ''1'', small_request ''3''] (events_of Queued ''c:u'' small_events)"
  using turns_in_order [OF small_run, of "''c:u''" "small_slot [''3''] []"]
  by (simp add: small_queue_def put_slot_def small_slot_def) (simp add: small_events_def)

text \<open>A request that arrives while the server stops can end in a send on a closed channel.\<close>

lemma stop_panics: "\<exists>evs d. queue_run 1 evs d \<and> cd_panicked d"
proof -
  note a = queue_run_ops(2) [OF queue_run_ops(4) [OF small_run2], of "''c:u''" 0]
  moreover have "cd_panicked (snd (Enqueue_try ''c:u'' 0 (Stop_dispatcher (small_queue [] [Sending (small_request ''2'')]))))"
    by (simp add: queue_ops Stop_dispatcher_def)
  ultimately show ?thesis by blast
qed

end
