(* ===== verification/Automations.thy ===== *)
theory Automations
  imports Turn_Queue
begin

text \<open>
  The automations of a workspace: their table (\<open>internal/db/automations.go\<close>), the requests of its members
  (\<open>internal/server/automation_handlers.go\<close>, \<open>automation_catalog.go\<close>) and the scheduler that runs them
  (\<open>automation_scheduler.go\<close>).  The parser of cron expressions and JSON are parameters.
\<close>

section \<open>Statements\<close>

text \<open>The zero of Go's times, which the cron library yields when a schedule has no further time.\<close>

definition zero_time :: time where "zero_time = - 62135596800"

record auto_config =
  ac_channel :: string
  ac_ws :: string
  ac_user :: string
  ac_prompt :: string

text \<open>
  \<open>oe_sched\<close> parses an expression; \<open>oe_enc\<close> and \<open>oe_dec\<close> write and read the configuration, \<open>oe_quote\<close> is the
  verb \<open>%q\<close>, \<open>oe_dbt\<close> the text of an error of the database, \<open>oe_fmt\<close> prints a time.
\<close>

record auto_env =
  oe_sched :: "string \<Rightarrow> string + (time \<Rightarrow> time)"
  oe_enc :: "auto_config \<Rightarrow> string"
  oe_dec :: "string \<Rightarrow> string + auto_config"
  oe_quote :: "string \<Rightarrow> string"
  oe_dbt :: "db_err \<Rightarrow> string"
  oe_fmt :: "time \<Rightarrow> string"

definition ComputeNextRun :: "auto_env \<Rightarrow> string \<Rightarrow> time \<Rightarrow> string + time" where
  "ComputeNextRun oe cron from' =
     (case oe_sched oe cron of
        Inl e \<Rightarrow> Inl (''parse cron '' @ oe_quote oe cron @ '': '' @ e)
      | Inr next' \<Rightarrow> Inr (next' from'))"

definition due :: "time \<Rightarrow> Automation \<Rightarrow> bool" where
  "due now x \<longleftrightarrow> au_enabled x \<and> (case au_next x of Some t \<Rightarrow> t \<le> now | None \<Rightarrow> False) \<and>
     (case au_locked x of None \<Rightarrow> True | Some t \<Rightarrow> t < now)"

definition by_next :: "Automation list \<Rightarrow> Automation list" where
  "by_next = sort_key (\<lambda>x. the (au_next x))"

text \<open>No struct has a field for the lock.\<close>

definition scanAutomation :: "Automation \<Rightarrow> Automation" where
  "scanAutomation x = x\<lparr>au_locked := None\<rparr>"

definition ScanDueAutomations :: "bool \<Rightarrow> time \<Rightarrow> agent_db \<Rightarrow> db_err + Automation list" where
  "ScanDueAutomations up now a =
     (if \<not> up then Inl DbDown else Inr (map scanAutomation (by_next (filter (due now) (ag_autos a)))))"

text \<open>
  \<open>busy\<close> are the rows other transactions hold, which are skipped.  The statement yields its rows in the order of
  the table.
\<close>

definition ClaimDueAutomations ::
  "bool \<Rightarrow> time \<Rightarrow> (string \<Rightarrow> bool) \<Rightarrow> agent_db \<Rightarrow> int \<Rightarrow> int \<Rightarrow> (db_err + Automation list) \<times> agent_db" where
  "ClaimDueAutomations up now busy a lease limit0 =
     (let limit = (if limit0 \<le> 0 then 50 else limit0);
          ids = map au_id (take (nat limit) (filter (\<lambda>x. \<not> busy (au_id x)) (by_next (filter (due now) (ag_autos a)))));
          claim = (\<lambda>x. x\<lparr>au_locked := Some (now + lease), au_updated := now\<rparr>) in
      if \<not> up then (Inl DbDown, a)
      else (Inr (map (scanAutomation \<circ> claim) (filter (\<lambda>x. au_id x \<in> set ids) (ag_autos a))),
            a\<lparr>ag_autos := update_rows (\<lambda>x. au_id x \<in> set ids) claim (ag_autos a)\<rparr>))"

definition update_auto :: "bool \<Rightarrow> agent_db \<Rightarrow> string \<Rightarrow> (Automation \<Rightarrow> Automation) \<Rightarrow> db_err option \<times> agent_db" where
  "update_auto up a i f =
     (if \<not> up then (Some DbDown, a)
      else (None, a\<lparr>ag_autos := update_rows (\<lambda>x. au_id x = i) f (ag_autos a)\<rparr>))"

definition MarkAutomationRun ::
  "bool \<Rightarrow> time \<Rightarrow> agent_db \<Rightarrow> string \<Rightarrow> time \<Rightarrow> string option \<Rightarrow> time \<Rightarrow> db_err option \<times> agent_db" where
  "MarkAutomationRun up now a i runAt lastErr nextRun =
     update_auto up a i (\<lambda>x. x\<lparr>au_last := Some runAt, au_error := lastErr,
       au_next := (if nextRun = zero_time then None else Some nextRun), au_locked := None, au_updated := now\<rparr>)"

text \<open>The columns the statement does not name have their defaults.\<close>

definition CreateAutomation :: "bool \<Rightarrow> time \<Rightarrow> agent_db \<Rightarrow> Automation \<Rightarrow> db_err option \<times> agent_db" where
  "CreateAutomation up now a x =
     (if \<not> up then (Some DbDown, a)
      else if list_ex (\<lambda>y. au_id y = au_id x) (ag_autos a) then (Some DuplicateKey, a)
      else if \<not> has_workspace (im_srv (ag_im a)) (au_ws x) \<or> \<not> has_channel (ag_im a) (au_channel x)
      then (Some ForeignKey, a)
      else (None, a\<lparr>ag_autos := ag_autos a @ [x\<lparr>au_last := None, au_error := None, au_locked := None,
              au_created := now, au_updated := now\<rparr>]\<rparr>))"

definition DeleteAutomation :: "bool \<Rightarrow> agent_db \<Rightarrow> string \<Rightarrow> db_err option \<times> agent_db" where
  "DeleteAutomation up a i =
     (if \<not> up then (Some DbDown, a) else (None, a\<lparr>ag_autos := filter (\<lambda>x. au_id x \<noteq> i) (ag_autos a)\<rparr>))"

text \<open>\<open>rank\<close> orders names as the collation of the database does.\<close>

definition ListAutomations :: "bool \<Rightarrow> (string \<Rightarrow> nat) \<Rightarrow> agent_db \<Rightarrow> string \<Rightarrow> db_err + Automation list" where
  "ListAutomations up rank a w =
     (if \<not> up then Inl DbDown
      else Inr (map scanAutomation (sort_key (\<lambda>x. rank (au_name x)) (filter (\<lambda>x. au_ws x = w) (ag_autos a)))))"

definition GetAutomation :: "bool \<Rightarrow> agent_db \<Rightarrow> string \<Rightarrow> db_err + Automation option" where
  "GetAutomation up a i =
     (if \<not> up then Inl DbDown
      else Inr (map_option scanAutomation (find (\<lambda>x. au_id x = i) (ag_autos a))))"

datatype auto_err = AutoDb db_err | AutoCron string

definition UpdateAutomation :: "auto_env \<Rightarrow> bool \<Rightarrow> time \<Rightarrow> agent_db \<Rightarrow> Automation \<Rightarrow> auto_err option \<times> agent_db" where
  "UpdateAutomation oe up now a x =
     (let set_row = (\<lambda>n. case update_auto up a (au_id x)
             (\<lambda>y. y\<lparr>au_name := au_name x, au_skill := au_skill x, au_cron := au_cron x, au_channel := au_channel x,
                    au_config := au_config x, au_enabled := au_enabled x, au_next := n, au_updated := now\<rparr>) of
             (e, a1) \<Rightarrow> (map_option AutoDb e, a1)) in
      if au_enabled x then
        (case ComputeNextRun oe (au_cron x) now of Inl e \<Rightarrow> (Some (AutoCron e), a) | Inr t \<Rightarrow> set_row (Some t))
      else set_row None)"

section \<open>Requests\<close>

record AutomationResponse =
  ar_id :: string
  ar_ws :: string
  ar_name :: string
  ar_skill :: string
  ar_cron :: string
  ar_channel :: string
  ar_enabled :: bool
  ar_config :: string
  ar_last :: "string option"
  ar_next :: "string option"
  ar_error :: "string option"
  ar_created :: string
  ar_updated :: string

definition automationToResponse :: "(time \<Rightarrow> string) \<Rightarrow> Automation \<Rightarrow> AutomationResponse" where
  "automationToResponse fmt x =
     \<lparr>ar_id = au_id x, ar_ws = au_ws x, ar_name = au_name x, ar_skill = au_skill x, ar_cron = au_cron x,
      ar_channel = au_channel x, ar_enabled = au_enabled x, ar_config = au_config x,
      ar_last = map_option fmt (au_last x), ar_next = map_option fmt (au_next x), ar_error = au_error x,
      ar_created = fmt (au_created x), ar_updated = fmt (au_updated x)\<rparr>"

definition buildAutomationConfig :: "auto_env \<Rightarrow> string \<Rightarrow> string \<Rightarrow> string \<Rightarrow> string \<Rightarrow> string" where
  "buildAutomationConfig oe c w user prompt =
     oe_enc oe \<lparr>ac_channel = c, ac_ws = w, ac_user = user, ac_prompt = prompt\<rparr>"

definition parseAutomationConfig :: "auto_env \<Rightarrow> string \<Rightarrow> string + auto_config" where
  "parseAutomationConfig oe raw =
     (if raw = [] then Inr \<lparr>ac_channel = [], ac_ws = [], ac_user = [], ac_prompt = []\<rparr> else oe_dec oe raw)"

text \<open>The channel, or the error reply.\<close>

definition validateAutomationChannel :: "bool \<Rightarrow> im_db \<Rightarrow> string \<Rightarrow> string \<Rightarrow> (nat \<times> string) + IMChannel" where
  "validateAutomationChannel up d w c =
     (case GetIMChannel up d c of
        Inl _ \<Rightarrow> Inl (500, ''internal error'')
      | Inr None \<Rightarrow> Inl (400, ''channel not found in workspace'')
      | Inr (Some ch) \<Rightarrow> if ch_ws ch \<noteq> w then Inl (400, ''channel not found in workspace'') else Inr ch)"

definition validateCron :: "auto_env \<Rightarrow> time \<Rightarrow> string \<Rightarrow> bool" where
  "validateCron oe now cron = (case ComputeNextRun oe cron now of Inl _ \<Rightarrow> False | Inr _ \<Rightarrow> True)"

definition handleListAutomations ::
  "auto_env \<Rightarrow> (nat \<Rightarrow> bool) \<Rightarrow> (string \<Rightarrow> nat) \<Rightarrow> string \<Rightarrow> string \<Rightarrow> agent_db \<Rightarrow> AutomationResponse list reply" where
  "handleListAutomations oe up rank user w a =
     (case requireWorkspaceRole (up 0) (im_srv (ag_im a)) user w [''owner'', ''maintainer'', ''developer'', ''viewer''] of
        Some (c, msg) \<Rightarrow> ErrorReply c msg
      | None \<Rightarrow>
          (case ListAutomations (up 1) rank a w of
             Inl _ \<Rightarrow> ErrorReply 500 ''internal error''
           | Inr xs \<Rightarrow> Reply 200 (map (automationToResponse (oe_fmt oe)) xs)))"

record AutomationCreateRequest =
  aq_name :: string
  aq_skill :: string
  aq_cron :: string
  aq_channel :: string
  aq_enabled :: "bool option"
  aq_prompt :: string
  aq_user :: string

text \<open>The reply to a request whose row has been written.\<close>

definition automation_written ::
  "auto_env \<Rightarrow> bool \<Rightarrow> nat \<Rightarrow> string \<Rightarrow> agent_db \<Rightarrow> AutomationResponse reply \<times> agent_db" where
  "automation_written oe up code i a =
     ((case GetAutomation up a i of
         Inr (Some x) \<Rightarrow> Reply code (automationToResponse (oe_fmt oe) x)
       | _ \<Rightarrow> ErrorReply 500 ''internal error''), a)"

text \<open>Statements: 0 the role, 1 the channel, 2 the row, 3 its reading; \<open>i\<close> is the new identifier.\<close>

definition handleCreateAutomation ::
  "auto_env \<Rightarrow> (nat \<Rightarrow> bool) \<Rightarrow> time \<Rightarrow> string \<Rightarrow> string \<Rightarrow> string \<Rightarrow> AutomationCreateRequest option \<Rightarrow> agent_db \<Rightarrow>
     AutomationResponse reply \<times> agent_db" where
  "handleCreateAutomation oe up now i user w body a =
     (case requireWorkspaceRole (up 0) (im_srv (ag_im a)) user w [''owner'', ''maintainer''] of
        Some (c, msg) \<Rightarrow> (ErrorReply c msg, a)
      | None \<Rightarrow>
     (case body of
        None \<Rightarrow> (ErrorReply 400 ''bad request'', a)
      | Some req \<Rightarrow>
          (let name = TrimSpace (aq_name req); skill = TrimSpace (aq_skill req); cron = TrimSpace (aq_cron req);
               chan = TrimSpace (aq_channel req); prompt = TrimSpace (aq_prompt req) in
     (if name = [] \<or> skill = [] \<or> cron = [] \<or> chan = [] \<or> prompt = []
      then (ErrorReply 400 ''name, skill_ref, cron, channel_id, and prompt are required'', a)
      else (case ComputeNextRun oe cron now of
          Inl _ \<Rightarrow> (ErrorReply 400 ''invalid cron expression'', a)
        | Inr next' \<Rightarrow>
     (case validateAutomationChannel (up 1) (ag_im a) w chan of
        Inl (c, msg) \<Rightarrow> (ErrorReply c msg, a)
      | Inr ch \<Rightarrow>
          (let to_user = (if aq_user req = [] then ch_user ch else aq_user req);
               x = \<lparr>au_id = i, au_ws = w, au_name = name, au_skill = skill, au_cron = cron, au_channel = chan,
                    au_config = buildAutomationConfig oe chan w to_user prompt,
                    au_enabled = (case aq_enabled req of None \<Rightarrow> True | Some b \<Rightarrow> b), au_last = None,
                    au_next = Some next', au_error = None, au_locked = None, au_created = now, au_updated = now\<rparr> in
           (case CreateAutomation (up 2) now a x of
              (Some _, a1) \<Rightarrow> (ErrorReply 500 ''internal error'', a1)
            | (None, a1) \<Rightarrow> automation_written oe (up 3) 201 i a1))))))))"

text \<open>The automation of a path: the error reply or the row.\<close>

definition ownAutomation :: "bool \<Rightarrow> agent_db \<Rightarrow> string \<Rightarrow> string \<Rightarrow> (nat \<times> string) + Automation" where
  "ownAutomation up a w i =
     (case GetAutomation up a i of
        Inl _ \<Rightarrow> Inl (500, ''internal error'')
      | Inr None \<Rightarrow> Inl (404, ''not found'')
      | Inr (Some x) \<Rightarrow> if au_ws x \<noteq> w then Inl (404, ''not found'') else Inr x)"

definition handleGetAutomation ::
  "auto_env \<Rightarrow> (nat \<Rightarrow> bool) \<Rightarrow> string \<Rightarrow> string \<Rightarrow> string \<Rightarrow> agent_db \<Rightarrow> AutomationResponse reply" where
  "handleGetAutomation oe up user w i a =
     (case requireWorkspaceRole (up 0) (im_srv (ag_im a)) user w [''owner'', ''maintainer'', ''developer'', ''viewer''] of
        Some (c, msg) \<Rightarrow> ErrorReply c msg
      | None \<Rightarrow>
          (case ownAutomation (up 1) a w i of
             Inl (c, msg) \<Rightarrow> ErrorReply c msg
           | Inr x \<Rightarrow> Reply 200 (automationToResponse (oe_fmt oe) x)))"

record AutomationPatchRequest =
  ap_name :: "string option"
  ap_skill :: "string option"
  ap_cron :: "string option"
  ap_channel :: "string option"
  ap_enabled :: "bool option"
  ap_prompt :: "string option"

text \<open>A field that is given must not be blank: the trimmed value, or the old one.\<close>

definition patch_field :: "string \<Rightarrow> string option \<Rightarrow> string \<Rightarrow> (nat \<times> string) + string" where
  "patch_field name given old =
     (case given of
        None \<Rightarrow> Inr old
      | Some v \<Rightarrow> if TrimSpace v = [] then Inl (400, name @ '' cannot be empty'') else Inr (TrimSpace v))"

text \<open>The fields in front of the channel.\<close>

definition patchFields :: "auto_env \<Rightarrow> time \<Rightarrow> AutomationPatchRequest \<Rightarrow> Automation \<Rightarrow> (nat \<times> string) + Automation" where
  "patchFields oe now req x =
     (case patch_field ''name'' (ap_name req) (au_name x) of Inl e \<Rightarrow> Inl e | Inr name \<Rightarrow>
     (case patch_field ''skill_ref'' (ap_skill req) (au_skill x) of Inl e \<Rightarrow> Inl e | Inr skill \<Rightarrow>
     (case patch_field ''cron'' (ap_cron req) (au_cron x) of Inl e \<Rightarrow> Inl e | Inr cron \<Rightarrow>
     (if ap_cron req \<noteq> None \<and> \<not> validateCron oe now cron then Inl (400, ''invalid cron expression'')
      else (case patch_field ''channel_id'' (ap_channel req) (au_channel x) of Inl e \<Rightarrow> Inl e | Inr chan \<Rightarrow>
        Inr (x\<lparr>au_name := name, au_skill := skill, au_cron := cron, au_channel := chan,
               au_enabled := (case ap_enabled req of None \<Rightarrow> au_enabled x | Some b \<Rightarrow> b)\<rparr>))))))"

text \<open>Statements: 0 the role, 1 the row, 2 the channel, 3 the update, 4 the reading.\<close>

definition handlePatchAutomation ::
  "auto_env \<Rightarrow> (nat \<Rightarrow> bool) \<Rightarrow> time \<Rightarrow> string \<Rightarrow> string \<Rightarrow> string \<Rightarrow> AutomationPatchRequest option \<Rightarrow> agent_db \<Rightarrow>
     AutomationResponse reply \<times> agent_db" where
  "handlePatchAutomation oe up now user w i body a =
     (case requireWorkspaceRole (up 0) (im_srv (ag_im a)) user w [''owner'', ''maintainer''] of
        Some (c, msg) \<Rightarrow> (ErrorReply c msg, a)
      | None \<Rightarrow>
     (case body of
        None \<Rightarrow> (ErrorReply 400 ''bad request'', a)
      | Some req \<Rightarrow>
     (case ownAutomation (up 1) a w i of
        Inl (c, msg) \<Rightarrow> (ErrorReply c msg, a)
      | Inr old \<Rightarrow>
     (case parseAutomationConfig oe (au_config old) of
        Inl _ \<Rightarrow> (ErrorReply 500 ''internal error'', a)
      | Inr cfg \<Rightarrow>
     (case patchFields oe now req old of
        Inl (c, msg) \<Rightarrow> (ErrorReply c msg, a)
      | Inr x \<Rightarrow>
     (case validateAutomationChannel (up 2) (ag_im a) w (au_channel x) of
        Inl (c, msg) \<Rightarrow> (ErrorReply c msg, a)
      | Inr ch \<Rightarrow>
     (case patch_field ''prompt'' (ap_prompt req) (ac_prompt cfg) of
        Inl (c, msg) \<Rightarrow> (ErrorReply c msg, a)
      | Inr prompt \<Rightarrow>
          (let to_user = (if ch_user ch \<noteq> [] then ch_user ch else ac_user cfg);
               y = x\<lparr>au_config := buildAutomationConfig oe (au_channel x) w to_user prompt\<rparr> in
           (case UpdateAutomation oe (up 3) now a y of
              (Some (AutoCron _), a1) \<Rightarrow> (ErrorReply 400 ''invalid cron expression'', a1)
            | (Some (AutoDb _), a1) \<Rightarrow> (ErrorReply 500 ''internal error'', a1)
            | (None, a1) \<Rightarrow> automation_written oe (up 4) 200 i a1)))))))))"

definition handleDeleteAutomation ::
  "(nat \<Rightarrow> bool) \<Rightarrow> string \<Rightarrow> string \<Rightarrow> string \<Rightarrow> agent_db \<Rightarrow> unit reply \<times> agent_db" where
  "handleDeleteAutomation up user w i a =
     (case requireWorkspaceRole (up 0) (im_srv (ag_im a)) user w [''owner'', ''maintainer''] of
        Some (c, msg) \<Rightarrow> (ErrorReply c msg, a)
      | None \<Rightarrow>
          (case ownAutomation (up 1) a w i of
             Inl (c, msg) \<Rightarrow> (ErrorReply c msg, a)
           | Inr _ \<Rightarrow>
               (case DeleteAutomation (up 2) a i of
                  (Some _, a1) \<Rightarrow> (ErrorReply 500 ''internal error'', a1)
                | (None, a1) \<Rightarrow> (Reply 204 (), a1))))"

section \<open>The scheduler\<close>

datatype fire_effect = Pod pod_effect | Turn turn_effect | Delivered string string string

datatype claw_err = ClawSandbox sandbox_miss | ClawExec string | ClawParse string | ClawSend string | ClawStatus nat string

text \<open>
  The turn in the sandbox of the channel and its delivery; \<open>sha\<close> hashes, \<open>post\<close> is the answer of the bridge.
  Statements: 0 to 3 the sandbox, 4 the message.
\<close>

definition fireAutomationOpenClaw ::
  "(string \<Rightarrow> string) \<Rightarrow> pod_env \<Rightarrow> (string \<times> string \<times> string \<Rightarrow> string + (nat \<times> string)) \<Rightarrow> (nat \<Rightarrow> bool) \<Rightarrow> time \<Rightarrow>
     string \<Rightarrow> string \<Rightarrow> string \<Rightarrow> string \<Rightarrow> im_db \<Rightarrow> claw_err option \<times> fire_effect list \<times> im_db" where
  "fireAutomationOpenClaw sha pe post up now fresh c user prompt d =
     (case turnSandbox pe up now c d of
        (Inl e, es, d1) \<Rightarrow> (Some (ClawSandbox e), map Pod es, d1)
      | (Inr s, es, d1) \<Rightarrow>
          (let session = openclawSessionID sha c user; cmd = openclaw_cmd prompt session;
               es1 = map Pod (es @ [Executed s cmd]) in
           (case pe_exec pe s cmd of
              Inl e \<Rightarrow> (Some (ClawExec e), es1, d1)
            | Inr out \<Rightarrow>
           (case parseOpenclawStdout (pe_stdout pe) out of
              Inl e \<Rightarrow> (Some (ClawParse e), es1, d1)
            | Inr answer \<Rightarrow>
                (let d2 = snd (SaveIMMessage (up 4) now fresh d1 c user ''outbound'' answer session) in
                 ((case post (c, user, answer) of
                     Inl e \<Rightarrow> Some (ClawSend e)
                   | Inr (code, body) \<Rightarrow> if code = 200 then None else Some (ClawStatus code body)),
                  es1 @ [Delivered c user answer], d2))))))"

record fire_env =
  fe_auto :: auto_env
  fe_sha :: "string \<Rightarrow> string"
  fe_pod :: "pod_env option"
  fe_codex :: "turn_env option"
  fe_post :: "string \<times> string \<times> string \<Rightarrow> string + (nat \<times> string)"

definition msg_no_backend :: string where
  "msg_no_backend =
     ''no turn backend configured (set CODEX_APP_GATEWAY_REST_URL or ensure openclaw sandbox is running)''"

definition msg_incomplete :: string where
  "msg_incomplete = ''automation config missing channel_id, workspace_id, wechat_user_id, or prompt''"

text \<open>The record of a run and the next one; a cron expression that does not parse ends the automation.\<close>

definition mark_next :: "auto_env \<Rightarrow> bool \<Rightarrow> time \<Rightarrow> time \<Rightarrow> Automation \<Rightarrow> string option \<Rightarrow> agent_db \<Rightarrow> agent_db" where
  "mark_next oe up now runAt x err a =
     (case ComputeNextRun oe (au_cron x) runAt of
        Inl e \<Rightarrow> snd (MarkAutomationRun up now a (au_id x) runAt (Some e) zero_time)
      | Inr t \<Rightarrow> snd (MarkAutomationRun up now a (au_id x) runAt err t))"

text \<open>
  One automation: first the turn in the sandbox, then, when this fails or there are no sandboxes, the turn of
  Codex.  Statements: 0 to 4 the first, \<open>10 + n\<close> the second, 20 the record.  \<open>fresh 0\<close> and \<open>fresh 1\<close> are new
  identifiers; the run is recorded at \<open>finish\<close>.
\<close>

definition fireAutomation ::
  "fire_env \<Rightarrow> (nat \<Rightarrow> bool) \<Rightarrow> time \<Rightarrow> time \<Rightarrow> (nat \<Rightarrow> string) \<Rightarrow> Automation \<Rightarrow> agent_db \<Rightarrow> fire_effect list \<times> agent_db" where
  "fireAutomation fe up runAt finish fresh x a =
     (let oe = fe_auto fe; give_up = (\<lambda>e. snd (MarkAutomationRun (up 20) finish a (au_id x) runAt (Some e) zero_time)) in
      case oe_dec oe (au_config x) of
        Inl e \<Rightarrow> ([], give_up (''invalid automation config: '' @ e))
      | Inr cfg \<Rightarrow>
     (if ac_channel cfg = [] \<or> ac_ws cfg = [] \<or> ac_user cfg = [] \<or> ac_prompt cfg = [] then ([], give_up msg_incomplete)
      else
        (let (err1, es1, a1) =
           (case fe_pod fe of
              None \<Rightarrow> (True, [], a)
            | Some pe \<Rightarrow>
                (case fireAutomationOpenClaw (fe_sha fe) pe (fe_post fe) up runAt (fresh 0) (ac_channel cfg)
                        (ac_user cfg) (ac_prompt cfg) (ag_im a) of
                   (e, es, d) \<Rightarrow> (e \<noteq> None, es, snd (on_im (\<lambda>_. ((), d)) a)))) in
         if \<not> err1 then (es1, mark_next oe (up 20) finish runAt x None a1)
         else (case fe_codex fe of
             None \<Rightarrow> (es1, mark_next oe (up 20) finish runAt x (Some msg_no_backend) a1)
           | Some ev \<Rightarrow>
               (case runTurnSync ev (\<lambda>n. up (10 + n)) runAt (fresh 1)
                       \<lparr>cq_channel = ac_channel cfg, cq_ws = ac_ws cfg, cq_user = ac_user cfg, cq_sender = [],
                        cq_text = ac_prompt cfg, cq_quoted = [], cq_quoter = [], cq_media = [], cq_data = [],
                        cq_qmedia = [], cq_qdata = []\<rparr> a1 of
                  (e, es2, a2) \<Rightarrow>
                    (es1 @ map Turn es2,
                     mark_next oe (up 20) finish runAt x (map_option (turn_err_text (oe_dbt oe) (oe_quote oe)) e) a2))))))"

definition automationClaimLease :: int where "automationClaimLease = 300"
definition automationClaimBatch :: int where "automationClaimBatch = 50"

text \<open>\<open>at n\<close> and \<open>ups n\<close> are times and statements of the automation \<open>n\<close> of a round; it ends at \<open>at (Suc n)\<close>.\<close>

fun fireAll ::
  "fire_env \<Rightarrow> (nat \<Rightarrow> nat \<Rightarrow> bool) \<Rightarrow> (nat \<Rightarrow> time) \<Rightarrow> (nat \<Rightarrow> nat \<Rightarrow> string) \<Rightarrow> nat \<Rightarrow> Automation list \<Rightarrow> agent_db \<Rightarrow>
     fire_effect list \<times> agent_db" where
  "fireAll fe ups at fresh n [] a = ([], a)"
| "fireAll fe ups at fresh n (x # xs) a =
     (case fireAutomation fe (ups n) (at n) (at (Suc n)) (fresh n) x a of
        (es, a1) \<Rightarrow> (case fireAll fe ups at fresh (Suc n) xs a1 of (es', a2) \<Rightarrow> (es @ es', a2)))"

definition runDueAutomations ::
  "fire_env \<Rightarrow> bool \<Rightarrow> (nat \<Rightarrow> nat \<Rightarrow> bool) \<Rightarrow> time \<Rightarrow> (nat \<Rightarrow> time) \<Rightarrow> (string \<Rightarrow> bool) \<Rightarrow> (nat \<Rightarrow> nat \<Rightarrow> string) \<Rightarrow> agent_db \<Rightarrow>
     fire_effect list \<times> agent_db" where
  "runDueAutomations fe up ups now at busy fresh a =
     (case ClaimDueAutomations up now busy a automationClaimLease automationClaimBatch of
        (Inl _, a1) \<Rightarrow> ([], a1)
      | (Inr xs, a1) \<Rightarrow> fireAll fe ups at fresh 0 xs a1)"

section \<open>The catalogue\<close>

record AutomationCatalogEntry =
  ce_key :: string
  ce_title :: string
  ce_description :: string
  ce_cron :: string
  ce_prompt :: string
  ce_skill :: string

definition automationCatalog :: "AutomationCatalogEntry list" where
  "automationCatalog =
     [\<lparr>ce_key = ''daily-followup'', ce_title = ''Daily follow-up'',
       ce_description = ''Weekday morning digest of open items and suggested next steps for the channel.'',
       ce_cron = ''0 9 * * 1-5'',
       ce_prompt = ''Review open tasks and recent channel context. Send a concise daily follow-up: what needs attention today, blockers, and one recommended next action.'',
       ce_skill = ''playground''\<rparr>,
      \<lparr>ce_key = ''weekly-report'', ce_title = ''Weekly report'',
       ce_description = ''Monday morning summary of the past week for stakeholders on this channel.'',
       ce_cron = ''0 8 * * 1'',
       ce_prompt = ''Summarize the past week: completed work, in-progress items, risks, and priorities for the coming week. Keep it brief and scannable.'',
       ce_skill = ''playground''\<rparr>,
      \<lparr>ce_key = ''lead-triage'', ce_title = ''Lead triage'',
       ce_description = ''Hourly check for new leads or urgent messages that need a quick response.'',
       ce_cron = ''@hourly'',
       ce_prompt = ''Check for new inbound leads or urgent messages. If anything needs a human reply within the hour, summarize it with suggested responses; otherwise reply NO_REPLY.'',
       ce_skill = ''playground''\<rparr>]"

definition handleGetAutomationCatalog :: "AutomationCatalogEntry list reply" where
  "handleGetAutomationCatalog = Reply 200 automationCatalog"

end
