(* ===== verification/Automation_Facts.thy ===== *)
theory Automation_Facts
  imports Automations
begin

text \<open>
  Automations under any history of requests, rounds of schedulers, and changes of channels and sandboxes: they
  stay in their workspace, and a claimed one is not claimed again before its lease ends.
\<close>

declare One_nat_def [simp del]

section \<open>A channel keeps its workspace\<close>

definition ws_kept :: "im_db \<Rightarrow> im_db \<Rightarrow> bool" where
  "ws_kept d d' \<longleftrightarrow> (\<forall>c w v. chan_ws d c = Some w \<and> chan_ws d' c = Some v \<longrightarrow> v = w)"

lemma ws_kept_same [simp]: "ws_kept d d"
  by (auto simp: ws_kept_def)

lemma ws_keptI: "chan_ws d' = chan_ws d \<Longrightarrow> ws_kept d d'"
  by (auto simp: ws_kept_def)

lemma ws_kept_eq: "chan_ws d' = chan_ws d \<Longrightarrow> ws_kept d'' d = ws_kept d'' d'"
  by (simp add: ws_kept_def)

lemma chan_ws_statements [simp]:
  "chan_ws (snd (SaveIMChannelCredentials up d c tok url)) = chan_ws d"
  "chan_ws (snd (SetIMChannelVerifyToken up d c tok)) = chan_ws d"
  "chan_ws (snd (UpdateIMChannelCursor up d c cur)) = chan_ws d"
  "chan_ws (snd (UpdateIMChannelSettings up d c mention)) = chan_ws d"
  "chan_ws (snd (UpdateIMChannelRoutingMode up d c mode)) = chan_ws d"
  unfolding SaveIMChannelCredentials_def SetIMChannelVerifyToken_def UpdateIMChannelCursor_def
    UpdateIMChannelSettings_def UpdateIMChannelRoutingMode_def
  by (rule ext, rule chan_ws_update_channel; simp add: chan_key_def)+

lemma ws_kept_token [simp]: "ws_kept d (snd (SetIMChannelVerifyToken up d' c tok)) = ws_kept d d'"
  by (simp add: ws_kept_def)

lemma chan_ws_bound [simp]: "chan_ws (d\<lparr>im_bound := bs\<rparr>) = chan_ws d"
  by (simp add: chan_ws_def fun_eq_iff)

lemma bind_pair_ws: "bind_pair now d s c = Inr d' \<Longrightarrow> chan_ws d' = chan_ws d"
  by (auto simp: bind_pair_def chan_ws_def fun_eq_iff split: if_splits)

lemma bind_all_ws: "bind_all up now n s cs d = Inr d' \<Longrightarrow> chan_ws d' = chan_ws d"
proof (induction up now n s cs d arbitrary: d' rule: bind_all.induct)
  case (2 up now n s c cs d)
  then show ?case by (auto dest: bind_pair_ws split: if_splits sum.splits)
qed simp

lemma chan_ws_other [simp]:
  "chan_ws (snd (BindSandboxToChannel u now d s c)) = chan_ws d"
  "chan_ws (snd (BindSandboxChannels up now d s cs)) = chan_ws d"
  "chan_ws (snd (UnbindSandboxFromChannel up d s)) = chan_ws d"
  "chan_ws (snd (UpsertChannelMeta v d c user k x)) = chan_ws d"
  "chan_ws (snd (CreateIMBinding v now n d s provider bt user)) = chan_ws d"
  "chan_ws (snd (SaveIMCredentials v d s provider bt tok url)) = chan_ws d"
  by (auto simp: BindSandboxToChannel_def BindSandboxChannels_def UnbindSandboxFromChannel_def UpsertChannelMeta_def
      CreateIMBinding_def SaveIMCredentials_def update_binding_def Let_def fun_eq_iff chan_ws_def
      dest: bind_pair_ws bind_all_ws split: sum.split)

lemma find_after_update:
  assumes "\<And>r. cr_id (f r) = cr_id r" and "\<And>r. cr_ws (f r) = cr_ws r"
  shows "map_option cr_ws (find (\<lambda>r. cr_id r = c) (update_rows P f rs)) = map_option cr_ws (find (\<lambda>r. cr_id r = c) rs)"
  using assms by (induction rs) auto

lemma rebound_ws: "chan_ws (d\<lparr>im_channels := update_rows P (cr_bound_update (\<lambda>_. now)) (im_channels d)\<rparr>) = chan_ws d"
  by (simp add: chan_ws_def fun_eq_iff find_after_update)

lemma appended_ws: "ws_kept d (d\<lparr>im_channels := im_channels d @ [r]\<rparr>)"
  by (auto simp: ws_kept_def chan_ws_def find_append split: option.splits)

lemma CreateIMChannel_ws: "ws_kept d (snd (CreateIMChannel up now i d w provider bt user))"
  using appended_ws by (auto simp: CreateIMChannel_def Let_def intro!: ws_keptI rebound_ws split: option.split)

lemma DeleteIMChannel_ws: "distinct (map cr_id (im_channels d)) \<Longrightarrow> ws_kept d (snd (DeleteIMChannel up d c))"
  unfolding ws_kept_def DeleteIMChannel_def chan_ws_def
  by (auto simp: find_filter_key)

lemma saveChannel_ws [simp]: "ws_kept d (snd (saveChannel up now i failed w provider bt user token url d))"
  using CreateIMChannel_ws [of d "up 2" now i w provider bt user]
  by (simp add: saveChannel_def ws_kept_def prod.case_eq_if split: sum.split option.split)

lemma bindNew_ws [simp]: "ws_kept (iw_db s) (iw_db (snd (bindNew up now i sandbox w provider bt token url s)))"
  using saveChannel_ws [of "iw_db s" up now i "''failed to save channel''" w provider bt "[]" token url]
  by (simp add: bindNew_def ws_kept_def prod.case_eq_if split: sum.split option.split)

lemma disconnect_ws [simp]:
  assumes "distinct (map cr_id (im_channels d))"
  shows "ws_kept d (snd (DeleteIMChannel u (snd (UnbindSandboxFromChannel up d sandbox)) c))"
proof -
  have "im_channels (snd (UnbindSandboxFromChannel up d sandbox)) = im_channels d"
    by (simp add: UnbindSandboxFromChannel_def)
  with DeleteIMChannel_ws [of "snd (UnbindSandboxFromChannel up d sandbox)" u c] assms
  show ?thesis by (simp add: ws_kept_def)
qed

lemma saveWeixin_ws [simp]: "chan_ws (snd (saveWeixinCredentials up now n base i r d)) = chan_ws d"
  by (simp add: saveWeixinCredentials_def Let_def prod.case_eq_if)

lemma updateMention_ws [simp]: "chan_ws (iw_db (snd (updateMention up c mention s))) = chan_ws (iw_db s)"
  by (simp add: updateMention_def prod.case_eq_if split: option.split)

lemma qrConfirmed_ws [simp]: "iw_db s = d \<Longrightarrow> ws_kept d (iw_db (snd (snd (qrConfirmed p up now i w r s))))"
  by (auto simp: qrConfirmed_def Let_def prod.case_eq_if split: option.split sum.split)

lemma run_action_ws [simp]: "chan_ws (po_db (run_action sha enc fw up ups b a s)) = chan_ws (po_db s)"
  by (simp add: run_action_def prod.case_eq_if split: poll_action.split)

lemma run_actions_ws [simp]: "chan_ws (po_db (fold (run_action sha enc fw up ups b) acts s)) = chan_ws (po_db s)"
  by (induction acts arbitrary: s) simp_all

lemma chan_ws_srv [simp]: "chan_ws (d\<lparr>im_srv := db\<rparr>) = chan_ws d"
  by (simp add: chan_ws_def fun_eq_iff)

lemma autoBind_ws [simp]:
  "chan_ws (snd (autoBindSandbox flt dur env up now pe w inp shared d)) = chan_ws d"
  "chan_ws (snd (autoBindChannel up now strategy sandbox c d)) = chan_ws d"
  by (auto simp: autoBindSandbox_def autoBindChannel_def prod.case_eq_if split: sum.split provision_err.split)

lemma find_filtered:
  assumes "distinct (map k rs)" and "find (\<lambda>r. k r = c) (filter P rs) = Some x"
  shows "find (\<lambda>r. k r = c) rs = Some x"
  using assms find_key_unique [of k rs x] find_Some_in [OF assms(2)] by auto

lemma prune_ws: "distinct (map cr_id (im_channels d)) \<Longrightarrow> ws_kept d (prune (d\<lparr>im_srv := db\<rparr>))"
  by (auto simp: ws_kept_def prune_def Let_def chan_ws_def dest: find_filtered)

lemma im_step_ws: "im_step s s' \<Longrightarrow> distinct (map cr_id (im_channels (iw_db s))) \<Longrightarrow> ws_kept (iw_db s) (iw_db s')"
proof (induction rule: im_step.induct)
  case (im_bind s up now user sandbox body)
  then show ?case by (intro ws_keptI) (simp add: handleBindSandboxToChannel_def prod.case_eq_if split: sum.split option.split)
next
  case (im_multi s up now user sandbox cs)
  then show ?case by (intro ws_keptI) (simp add: handleBindSandboxChannelsMulti_def prod.case_eq_if split: sum.split option.split)
next
  case (im_unbind s up user sandbox)
  then show ?case by (intro ws_keptI) (simp add: handleUnbindSandboxFromChannel_def prod.case_eq_if split: sum.split option.split)
next
  case (im_autobind s flt dur env up now pe user w c body)
  then show ?case by (intro ws_keptI)
    (simp add: handleChannelAutoBind_def Let_def prod.case_eq_if split: sum.split option.split)
next
  case (im_delete s ev up user w c)
  then show ?case by (simp add: handleDeleteWorkspaceIMChannel_def Let_def prod.case_eq_if DeleteIMChannel_ws split: sum.split option.split)
next
  case (im_update s up user w c settings)
  then show ?case by (intro ws_keptI) (simp add: handleUpdateWorkspaceIMChannel_def prod.case_eq_if split: sum.split option.split bool.split)
next
  case (im_telegram s ev up now i user sandbox body)
  then show ?case by (simp add: handleIMTelegramConfigure_def prod.case_eq_if split: sum.split option.split)
next
  case (im_matrix s ev up now i user sandbox creds)
  then show ?case by (simp add: handleIMMatrixConfigure_def prod.case_eq_if split: sum.split option.split)
next
  case (im_telegram_off s up user sandbox)
  then show ?case by (simp add: handleIMTelegramDisconnect_def disconnectChannel_def Let_def prod.case_eq_if
      split: sum.split option.split)
next
  case (im_matrix_off s ev up user sandbox)
  then show ?case by (simp add: handleIMMatrixDisconnect_def disconnectChannel_def Let_def prod.case_eq_if
      split: sum.split option.split)
next
  case (im_qr_start s up now start user sandbox)
  then show ?case by (simp add: handleIMWeixinQRStart_def prod.case_eq_if split: sum.split option.split)
next
  case (im_qr_wait s up now n base poll others again user sandbox)
  then show ?case by (intro ws_keptI) (simp add: handleIMWeixinQRWait_def Let_def prod.case_eq_if split: sum.split option.split bool.split)
next
  case (im_ws_qr_start s up now start user w)
  then show ?case by (simp add: handleWorkspaceWeixinQRStart_def prod.case_eq_if split: sum.split option.split)
next
  case (im_ws_qr_wait s p up now i poll others again user w)
  then show ?case by (simp add: handleWorkspaceWeixinQRWait_def Let_def prod.case_eq_if split: option.split)
next
  case (im_ws_telegram s ev up now i user w body)
  then show ?case by (simp add: handleWorkspaceTelegramConfigure_def prod.case_eq_if split: sum.split option.split)
next
  case (im_ws_matrix s ev up now i user w creds)
  then show ?case by (simp add: handleWorkspaceMatrixConfigure_def prod.case_eq_if split: sum.split option.split)
next
  case (im_ws_whatsapp s ev up now i fresh host user w creds)
  then show ?case by (simp add: handleWorkspaceWhatsAppConfigure_def prod.case_eq_if split: sum.split option.split)
next
  case (im_poll q s q' sha enc fw upC ups b res)
  then show ?case by (intro ws_keptI) (simp add: poll_round_def Let_def split: poll_result.split)
next
  case (im_server s db) then show ?case by (simp add: prune_ws)
qed simp_all

section \<open>Automations stay in their workspace\<close>

definition auto_ok :: "auto_env \<Rightarrow> im_db \<Rightarrow> Automation \<Rightarrow> bool" where
  "auto_ok oe d x \<longleftrightarrow> chan_ws d (au_channel x) = Some (au_ws x) \<and>
     (\<exists>cfg. oe_dec oe (au_config x) = Inr cfg \<and> ac_channel cfg = au_channel x \<and> ac_ws cfg = au_ws x)"

definition autos_ok :: "auto_env \<Rightarrow> agent_db \<Rightarrow> bool" where
  "autos_ok oe a \<longleftrightarrow> channels_ok (ag_im a) \<and> distinct (map au_id (ag_autos a)) \<and>
     list_all (auto_ok oe (ag_im a)) (ag_autos a)"

lemma auto_ok_cong: "chan_ws d' = chan_ws d \<Longrightarrow> auto_ok oe d' = auto_ok oe d"
  by (simp add: auto_ok_def fun_eq_iff)

lemma list_all_update:
  "(\<And>r. r \<in> set rs \<Longrightarrow> Q r \<Longrightarrow> P r \<Longrightarrow> Q (f r)) \<Longrightarrow> list_all Q rs \<Longrightarrow> list_all Q (update_rows P f rs)"
  by (induction rs) auto

lemma autos_ok_update:
  assumes "autos_ok oe a" and "\<And>x. au_id (f x) = au_id x"
    and "\<And>x. auto_ok oe (ag_im a) x \<Longrightarrow> P x \<Longrightarrow> auto_ok oe (ag_im a) (f x)"
  shows "autos_ok oe (a\<lparr>ag_autos := update_rows P f (ag_autos a)\<rparr>)"
  using assms list_all_update [of "ag_autos a" "auto_ok oe (ag_im a)" P f] by (simp add: autos_ok_def map_update_rows)

lemma claim_keeps: "autos_ok oe a \<Longrightarrow> autos_ok oe (snd (ClaimDueAutomations up now busy a lease limit))"
  unfolding ClaimDueAutomations_def Let_def by (auto intro!: autos_ok_update simp: auto_ok_def)

lemma mark_keeps: "autos_ok oe a \<Longrightarrow> autos_ok oe (snd (MarkAutomationRun up now a i runAt e t))"
  unfolding MarkAutomationRun_def update_auto_def by (auto intro!: autos_ok_update simp: auto_ok_def)

lemma delete_auto_keeps: "autos_ok oe a \<Longrightarrow> autos_ok oe (snd (handleDeleteAutomation up user w i a))"
  by (auto simp: handleDeleteAutomation_def DeleteAutomation_def autos_ok_def distinct_map_filter list_all_iff
      split: option.split sum.split)

lemma validate_ws:
  "validateAutomationChannel up d w c = Inr ch \<Longrightarrow> chan_ws d c = Some w"
  by (auto simp: validateAutomationChannel_def dest: GetIMChannel_ws split: sum.splits option.splits if_splits)

lemma create_row_keeps:
  assumes "autos_ok oe a" and "auto_ok oe (ag_im a) x"
  shows "autos_ok oe (snd (CreateAutomation up now a x))"
proof (cases "\<not> up \<or> list_ex (\<lambda>y. au_id y = au_id x) (ag_autos a)")
  case True with assms show ?thesis by (simp add: CreateAutomation_def)
next
  case False
  then have "au_id x \<notin> au_id ` set (ag_autos a)" by (auto simp: list_ex_iff)
  with assms False show ?thesis by (auto simp: CreateAutomation_def autos_ok_def auto_ok_def)
qed

lemma create_auto_keeps:
  assumes "autos_ok oe a" and "\<And>c. oe_dec oe (oe_enc oe c) = Inr c"
  shows "autos_ok oe (snd (handleCreateAutomation oe up now i user w body a))"
proof -
  have key: "autos_ok oe (snd (CreateAutomation u now a x))"
    if "validateAutomationChannel (up 1) (ag_im a) w (au_channel x) = Inr ch" and "au_ws x = w"
      and "au_config x = buildAutomationConfig oe (au_channel x) w to_user prompt" for u x ch to_user prompt
    by (rule create_row_keeps [OF assms(1)])
       (use that validate_ws [OF that(1)] assms(2) in \<open>simp add: auto_ok_def buildAutomationConfig_def\<close>)
  note defs = handleCreateAutomation_def Let_def automation_written_def prod.case_eq_if
  show ?thesis
  proof (cases body)
    case None with assms(1) show ?thesis unfolding defs by (simp split: option.split)
  next
    case body: (Some req)
    show ?thesis
    proof (cases "validateAutomationChannel (up 1) (ag_im a) w (TrimSpace (aq_channel req))")
      case Inl with assms(1) body show ?thesis unfolding defs by (simp split: option.split sum.split)
    next
      case (Inr ch)
      have "autos_ok oe (snd (CreateAutomation u now a \<lparr>au_id = i, au_ws = w, au_name = n, au_skill = sk, au_cron = cr,
          au_channel = TrimSpace (aq_channel req), au_config = buildAutomationConfig oe (TrimSpace (aq_channel req)) w tu pr,
          au_enabled = en, au_last = None, au_next = nx, au_error = None, au_locked = None, au_created = now,
          au_updated = now\<rparr>))" for u n sk cr tu pr en nx
        by (rule key) (simp_all add: Inr)
      then show ?thesis using assms(1) body Inr unfolding defs by (simp split: option.split sum.split)
    qed
  qed
qed

lemma ownAutomation_row:
  "ownAutomation up a w i = Inr x \<Longrightarrow> \<exists>y. find (\<lambda>r. au_id r = i) (ag_autos a) = Some y \<and> au_ws y = w \<and> x = scanAutomation y"
  by (auto simp: ownAutomation_def GetAutomation_def scanAutomation_def split: if_splits sum.splits option.splits)

lemma patchFields_id: "patchFields oe now req x = Inr y \<Longrightarrow> au_id y = au_id x \<and> au_ws y = au_ws x"
  by (auto simp: patchFields_def split: sum.splits if_splits)

lemma update_row_keeps:
  assumes ok: "autos_ok oe a" and row: "find (\<lambda>r. au_id r = au_id x) (ag_autos a) = Some y"
    and x: "auto_ok oe (ag_im a) x" and w: "au_ws x = au_ws y"
  shows "autos_ok oe (snd (UpdateAutomation oe up now a x))"
proof -
  let ?f = "\<lambda>n r. r\<lparr>au_name := au_name x, au_skill := au_skill x, au_cron := au_cron x, au_channel := au_channel x,
     au_config := au_config x, au_enabled := au_enabled x, au_next := n, au_updated := now\<rparr>"
  have "z = y" if "z \<in> set (ag_autos a)" "au_id z = au_id x" for z
    using that find_Some_in [OF row] ok by (intro distinct_map_inj_on [of au_id]) (auto simp: autos_ok_def)
  then have ws: "au_ws z = au_ws x" if "z \<in> set (ag_autos a)" "au_id z = au_id x" for z
    using that w by auto
  have "autos_ok oe (a\<lparr>ag_autos := update_rows (\<lambda>r. au_id r = au_id x) (?f n) (ag_autos a)\<rparr>)" for n
  proof -
    have "list_all (auto_ok oe (ag_im a)) (update_rows (\<lambda>r. au_id r = au_id x) (?f n) (ag_autos a))"
    proof (rule list_all_update)
      fix r assume "r \<in> set (ag_autos a)" "auto_ok oe (ag_im a) r" "au_id r = au_id x"
      with ws [of r] x show "auto_ok oe (ag_im a) (?f n r)" by (simp add: auto_ok_def)
    qed (use ok in \<open>simp add: autos_ok_def\<close>)
    with ok show ?thesis by (simp add: autos_ok_def map_update_rows)
  qed
  with ok show ?thesis
    unfolding UpdateAutomation_def update_auto_def Let_def by (auto split: sum.split)
qed

lemma auto_err_pair [simp]:
  "snd (case e of AutoDb x \<Rightarrow> (f x, v) | AutoCron y \<Rightarrow> (g y, v)) = v"
  by (cases e) simp_all

lemma patch_auto_keeps:
  assumes ok: "autos_ok oe a" and rt: "\<And>c. oe_dec oe (oe_enc oe c) = Inr c"
  shows "autos_ok oe (snd (handlePatchAutomation oe up now user w i body a))"
proof -
  have key: "autos_ok oe (snd (UpdateAutomation oe u now a (x\<lparr>au_config := buildAutomationConfig oe (au_channel x) w to_user prompt\<rparr>)))"
    if own: "ownAutomation (up 1) a w i = Inr old" and pf: "patchFields oe now req old = Inr x"
      and ch: "validateAutomationChannel (up 2) (ag_im a) w (au_channel x) = Inr ch" for old req x ch to_user prompt u
  proof -
    from ownAutomation_row [OF own] obtain y where y: "find (\<lambda>r. au_id r = i) (ag_autos a) = Some y"
      "au_ws y = w" "old = scanAutomation y" by blast
    with patchFields_id [OF pf] find_Some_in [OF y(1)] have "au_id x = i" "au_ws x = w" by (auto simp: scanAutomation_def)
    with y validate_ws [OF ch] rt show ?thesis
      by (intro update_row_keeps [OF ok, where y = y]) (simp_all add: auto_ok_def buildAutomationConfig_def)
  qed
  note defs = handlePatchAutomation_def Let_def automation_written_def prod.case_eq_if
  show ?thesis
  proof (cases "\<exists>req old x ch. body = Some req \<and> ownAutomation (up 1) a w i = Inr old \<and>
      patchFields oe now req old = Inr x \<and> validateAutomationChannel (up 2) (ag_im a) w (au_channel x) = Inr ch")
    case False
    with ok show ?thesis unfolding defs by (simp split: option.split sum.split) blast
  next
    case True
    then obtain req old x ch where b: "body = Some req" and o: "ownAutomation (up 1) a w i = Inr old"
      and p: "patchFields oe now req old = Inr x"
      and c: "validateAutomationChannel (up 2) (ag_im a) w (au_channel x) = Inr ch" by blast
    from ok key [OF o p c] show ?thesis unfolding defs by (simp add: b o p c split: option.split sum.split)
  qed
qed

section \<open>Running an automation\<close>

text \<open>A turn changes sessions only.\<close>

lemma thread_tables [simp]:
  "ag_autos (snd (SetSessionCodexThreadID up a s t)) = ag_autos a"
  "ag_im (snd (SetSessionCodexThreadID up a s t)) = ag_im a"
  "ag_autos (snd (SetSessionIMChannel up a s c)) = ag_autos a"
  "ag_im (snd (SetSessionIMChannel up a s c)) = ag_im a"
  "ag_autos (snd (SetSessionExternalID up a s u)) = ag_autos a"
  "ag_im (snd (SetSessionExternalID up a s u)) = ag_im a"
  by (simp_all add: SetSessionCodexThreadID_def SetSessionIMChannel_def SetSessionExternalID_def update_sessions_def
      split: option.split)

lemma insert_session_tables [simp]:
  "ag_autos (snd (insert_session a r)) = ag_autos a"
  "ag_im (snd (insert_session a r)) = ag_im a"
  by (simp_all add: insert_session_def)

lemma CreateAgentSession_tables [simp]:
  "ag_autos (snd (CreateAgentSession up now a i sandbox w title tags)) = ag_autos a"
  "ag_im (snd (CreateAgentSession up now a i sandbox w title tags)) = ag_im a"
  by (simp_all add: CreateAgentSession_def)

lemma finishTurn_tables [simp]:
  "ag_autos (snd (snd (finishTurn ev up req s turn es a))) = ag_autos a"
  "ag_im (snd (snd (finishTurn ev up req s turn es a))) = ag_im a"
  by (simp_all add: finishTurn_def fail_turn_def Let_def)

lemma answerTurn_tables [simp]:
  "ag_autos (snd (snd (answerTurn ev up req sess r es a))) = ag_autos a"
  "ag_im (snd (snd (answerTurn ev up req sess r es a))) = ag_im a"
  by (simp_all add: answerTurn_def fail_turn_def Let_def split: option.split sum.split)

lemma sessionTurn_tables [simp]:
  "ag_autos (snd (snd (sessionTurn ev up req sess a))) = ag_autos a"
  "ag_im (snd (snd (sessionTurn ev up req sess a))) = ag_im a"
  by (auto simp: sessionTurn_def fail_turn_def Let_def split: sum.split option.split)

lemma store_CreateSession_tables [simp]:
  "ag_autos (snd (store_CreateSession up now uuid a w u title c)) = ag_autos a"
  "ag_im (snd (store_CreateSession up now uuid a w u title c)) = ag_im a"
  by (simp_all add: store_CreateSession_def Let_def prod.case_eq_if split: option.split)

lemma runTurnSync_tables [simp]:
  "ag_autos (snd (snd (runTurnSync ev up now uuid req a))) = ag_autos a"
  "ag_im (snd (snd (runTurnSync ev up now uuid req a))) = ag_im a"
  by (simp_all add: runTurnSync_def fail_turn_def prod.case_eq_if split: sum.split)

text \<open>Waking a sandbox changes no workspace.\<close>

definition ws_sub :: "im_db \<Rightarrow> im_db \<Rightarrow> bool" where
  "ws_sub d d' \<longleftrightarrow> (\<forall>c v. chan_ws d' c = Some v \<longrightarrow> chan_ws d c = Some v)"

lemma ws_sub_kept: "ws_sub d d' \<Longrightarrow> ws_kept d d'"
  by (auto simp: ws_sub_def ws_kept_def)

definition same_ids :: "srv_db \<Rightarrow> srv_db \<Rightarrow> bool" where
  "same_ids a b \<longleftrightarrow>
     map (\<lambda>r. (sb_id r, sb_ws r)) (sv_sandboxes b) = map (\<lambda>r. (sb_id r, sb_ws r)) (sv_sandboxes a)"

lemma same_ids_update:
  assumes "\<And>r. sb_id (f r) = sb_id r" and "\<And>r. sb_ws (f r) = sb_ws r"
  shows "same_ids db (snd (update_sandbox u db i f))"
  using assms by (simp add: same_ids_def update_sandbox_def map_update_rows)

lemma wakeEnd_ids: "same_ids db (wakeEnd up now i ip db)"
proof -
  have st: "same_ids e (snd (UpdateSandboxStatus u now e i StatusRunning))" for u e
    unfolding UpdateSandboxStatus_def by (rule same_ids_update) simp_all
  have "same_ids db (if ip \<noteq> [] then snd (UpdateSandboxPodIP (up 0) db i ip) else db)"
    unfolding UpdateSandboxPodIP_def using same_ids_update by (simp add: same_ids_def)
  with st show ?thesis unfolding wakeEnd_def Let_def same_ids_def by metis
qed

lemma same_ids_change:
  assumes "same_ids a b" and "distinct (map sb_id (sv_sandboxes a))" shows "srv_change a b"
proof -
  have m: "map sb_id (sv_sandboxes b) = map sb_id (sv_sandboxes a)"
    using arg_cong [OF assms(1) [unfolded same_ids_def], of "map fst"] by (simp add: comp_def)
  have "sb_ws x = sb_ws y" if x: "x \<in> set (sv_sandboxes a)" and y: "y \<in> set (sv_sandboxes b)" and "sb_id x = sb_id y" for x y
  proof -
    have "(sb_id y, sb_ws y) \<in> set (map (\<lambda>r. (sb_id r, sb_ws r)) (sv_sandboxes a))"
      using y assms(1) unfolding same_ids_def by (metis (mono_tags) image_eqI list.set_map)
    then obtain z where z: "z \<in> set (sv_sandboxes a)" "sb_id z = sb_id y" "sb_ws z = sb_ws y" by auto
    with x that(3) have "z = x" using distinct_map_inj_on [OF assms(2), of z x] by simp
    with z show ?thesis by simp
  qed
  with m assms(2) show ?thesis by (auto simp: srv_change_def)
qed

lemma on_srv_keeps:
  assumes ok: "channels_ok d" and "srv_change (im_srv d) (snd (f (im_srv d)))"
  shows "channels_ok (snd (on_srv f d)) \<and> ws_sub d (snd (on_srv f d))"
proof -
  let ?s = "snd (f (im_srv d))"
  have "snd (on_srv f d) = prune (d\<lparr>im_srv := ?s\<rparr>)"
    by (simp add: on_srv_def prod.case_eq_if)
  moreover have "channels_ok (prune (d\<lparr>im_srv := ?s\<rparr>))" by (rule channels_ok_prune [OF assms])
  moreover have "ws_sub d (prune (d\<lparr>im_srv := ?s\<rparr>))"
    using ok by (auto simp: ws_sub_def prune_def Let_def chan_ws_def channels_ok_def dest: find_filtered)
  ultimately show ?thesis by simp
qed

lemma turnSandbox_keeps:
  assumes ok: "channels_ok d"
  shows "channels_ok (snd (snd (turnSandbox pe up now c d))) \<and> ws_sub d (snd (snd (turnSandbox pe up now c d)))"
proof -
  have "distinct (map sb_id (sv_sandboxes (im_srv d)))" using ok by (simp add: channels_ok_def)
  then have "channels_ok (snd (on_srv (\<lambda>s. ((), wakeEnd u t p ip s)) d)) \<and>
      ws_sub d (snd (on_srv (\<lambda>s. ((), wakeEnd u t p ip s)) d))" for u t p ip
    by (intro on_srv_keeps [OF ok]) (simp add: same_ids_change wakeEnd_ids)
  moreover have "ws_sub d d" by (simp add: ws_sub_def)
  ultimately show ?thesis using ok
    unfolding turnSandbox_def Let_def by (simp split: sum.split option.split)
qed

lemma chan_ws_messages [simp]: "chan_ws (snd (SaveIMMessage u now i d c user dir msg session)) = chan_ws d"
  by (simp add: SaveIMMessage_def chan_ws_def fun_eq_iff)

lemma channels_ok_messages [simp]: "channels_ok (snd (SaveIMMessage u now i d c user dir msg session)) = channels_ok d"
  by (simp add: SaveIMMessage_def)

lemma openClaw_keeps:
  assumes "channels_ok d"
  shows "channels_ok (snd (snd (fireAutomationOpenClaw sha pe post up now fresh c user prompt d))) \<and>
    ws_kept d (snd (snd (fireAutomationOpenClaw sha pe post up now fresh c user prompt d)))"
  using turnSandbox_keeps [OF assms, of pe up now c] ws_sub_kept [of d "snd (snd (turnSandbox pe up now c d))"]
  unfolding fireAutomationOpenClaw_def Let_def
  by (simp add: prod.case_eq_if ws_kept_def split: sum.split)

text \<open>What a change of channels and sandboxes does to the automations.\<close>

lemma has_channel_ws: "has_channel d c \<longleftrightarrow> chan_ws d c \<noteq> None"
  by (auto simp: has_channel_def chan_ws_def list_ex_iff find_None_iff)

lemma prune_agent_keeps:
  assumes "autos_ok oe a" and "channels_ok d" and "ws_kept (ag_im a) d"
  shows "autos_ok oe (prune_agent (a\<lparr>ag_im := d\<rparr>))"
proof -
  have "auto_ok oe d x" if x: "x \<in> set (ag_autos a)" and c: "has_channel d (au_channel x)" for x
  proof -
    from assms(1) x have ok: "auto_ok oe (ag_im a) x" by (simp add: autos_ok_def list_all_iff)
    from c obtain v where "chan_ws d (au_channel x) = Some v" by (auto simp: has_channel_ws)
    with ok assms(3) have "chan_ws d (au_channel x) = Some (au_ws x)" by (auto simp: auto_ok_def ws_kept_def)
    with ok show ?thesis by (simp add: auto_ok_def)
  qed
  with assms(1,2) show ?thesis
    by (auto simp: autos_ok_def prune_agent_def Let_def list_all_iff distinct_map_filter)
qed

lemma mark_next_keeps: "autos_ok oe a \<Longrightarrow> autos_ok oe (mark_next oe' up now runAt x e a)"
  by (simp add: mark_next_def mark_keeps split: sum.split)

lemma autos_ok_tables:
  "ag_autos b = ag_autos a \<Longrightarrow> ag_im b = ag_im a \<Longrightarrow> autos_ok oe b = autos_ok oe a"
  by (simp add: autos_ok_def)

lemma fire_keeps:
  assumes "autos_ok oe a"
  shows "autos_ok oe (snd (fireAutomation fe up runAt fin fresh x a))"
proof -
  have claw: "autos_ok oe (prune_agent (a\<lparr>ag_im :=
      snd (snd (fireAutomationOpenClaw sha pe post up runAt i c user prompt (ag_im a)))\<rparr>))" for sha pe post i c user prompt
    by (rule prune_agent_keeps [OF assms]) (use assms openClaw_keeps in \<open>simp_all add: autos_ok_def\<close>)
  have turn: "autos_ok oe b \<Longrightarrow> autos_ok oe (snd (snd (runTurnSync ev u t uuid req b)))" for b ev u t uuid req
    using autos_ok_tables [of "snd (snd (runTurnSync ev u t uuid req b))" b] by simp
  show ?thesis
    unfolding fireAutomation_def Let_def on_im_def prod.case_eq_if
    by (simp add: assms mark_keeps mark_next_keeps claw turn split: sum.split option.split)
qed

section \<open>Histories\<close>

text \<open>
  A request, a claim of a scheduler, the run of one automation, or a change of channels and sandboxes; the label
  says which automation is made or run.
\<close>

datatype auto_label = Made string | Fired string | Silent

inductive auto_step :: "auto_env \<Rightarrow> agent_db \<Rightarrow> auto_label \<Rightarrow> agent_db \<Rightarrow> bool" for oe where
  as_create: "auto_step oe a (Made i) (snd (handleCreateAutomation oe up now i user w body a))"
| as_patch: "auto_step oe a Silent (snd (handlePatchAutomation oe up now user w i patch a))"
| as_delete: "auto_step oe a Silent (snd (handleDeleteAutomation up user w i a))"
| as_claim: "auto_step oe a Silent (snd (ClaimDueAutomations u now busy a automationClaimLease limit))"
| as_fire: "fe_auto fe = oe \<Longrightarrow> auto_step oe a (Fired (au_id x)) (snd (fireAutomation fe up runAt fin fresh x a))"
| as_im: "im_step s s' \<Longrightarrow> iw_db s = ag_im a \<Longrightarrow> auto_step oe a Silent (snd (on_im (\<lambda>_. ((), iw_db s')) a))"

inductive auto_reach :: "auto_env \<Rightarrow> agent_db \<Rightarrow> bool" for oe where
  ar_start: "im_reach s \<Longrightarrow> iw_db s = ag_im a \<Longrightarrow> ag_autos a = [] \<Longrightarrow> auto_reach oe a"
| ar_more: "auto_reach oe a \<Longrightarrow> auto_step oe a l a' \<Longrightarrow> auto_reach oe a'"

lemma auto_step_keeps:
  assumes "auto_step oe a l a'" and "autos_ok oe a" and "\<And>c. oe_dec oe (oe_enc oe c) = Inr c"
  shows "autos_ok oe a'"
  using assms(1,2)
proof (induction rule: auto_step.induct)
  case as_create then show ?case by (simp add: create_auto_keeps assms(3))
next
  case as_patch then show ?case by (simp add: patch_auto_keeps assms(3))
next
  case as_delete then show ?case by (simp add: delete_auto_keeps)
next
  case as_claim then show ?case by (simp add: claim_keeps)
next
  case as_fire then show ?case by (simp add: fire_keeps)
next
  case (as_im s s' a)
  then have "channels_ok (iw_db s)" by (simp add: autos_ok_def)
  then have "channels_ok (iw_db s')" "ws_kept (iw_db s) (iw_db s')"
    using im_step_keeps [OF as_im(1)] im_step_ws [OF as_im(1)] by (simp_all add: channels_ok_def)
  with as_im show ?case by (simp add: on_im_def prune_agent_keeps)
qed

lemma auto_reach_ok:
  assumes "auto_reach oe a" and "\<And>c. oe_dec oe (oe_enc oe c) = Inr c" shows "autos_ok oe a"
  using assms(1)
proof (induction rule: auto_reach.induct)
  case (ar_start s a) then show ?case using im_reach_ok [of s] by (simp add: autos_ok_def)
next
  case (ar_more a l a') then show ?case using auto_step_keeps assms(2) by blast
qed

section \<open>What an automation can reach\<close>

text \<open>The effects stay in the workspace \<open>w\<close> and the channel \<open>c\<close>.\<close>

definition effect_within :: "im_db \<Rightarrow> string \<Rightarrow> string \<Rightarrow> fire_effect \<Rightarrow> bool" where
  "effect_within d c w e =
     (case e of
        Pod (Resumed s) \<Rightarrow> sbx_ws d s = Some w
      | Pod (Executed s _) \<Rightarrow> sbx_ws d s = Some w
      | Turn (Ran q) \<Rightarrow> tr_ws q = w
      | Turn (Posted c' _ _) \<Rightarrow> c' = c
      | Delivered c' _ _ \<Rightarrow> c' = c)"

lemma bound_same_ws:
  assumes ok: "channels_ok d" and x: "x \<in> set (bound_sandboxes d c)"
  shows "same_ws d (sb_id x) c"
proof -
  from bound_sandboxes_ws [OF assms] have "x \<in> set (sv_sandboxes (im_srv d))" "chan_ws d c = Some (sb_ws x)" by simp_all
  moreover from this ok have "find (\<lambda>r. sb_id r = sb_id x) (sv_sandboxes (im_srv d)) = Some x"
    by (intro find_key_unique) (simp_all add: channels_ok_def)
  ultimately show ?thesis by (simp add: same_ws_def sbx_ws_def)
qed

lemma GetSandboxForChannel_same:
  "channels_ok d \<Longrightarrow> GetSandboxForChannel f up d c = Inr (Some (i, r)) \<Longrightarrow> same_ws d i c"
  by (auto simp: GetSandboxForChannel_def GetSandboxForChannelViaBinding_def split: if_splits
      dest!: find_Some_in intro: bound_same_ws)

lemma GetPausedSandboxForChannel_same:
  "channels_ok d \<Longrightarrow> GetPausedSandboxForChannel up d c = Inr (Some i) \<Longrightarrow> same_ws d i c"
  by (auto simp: GetPausedSandboxForChannel_def split: if_splits dest!: find_Some_in intro: bound_same_ws)

lemma turnSandbox_within:
  assumes "channels_ok d" and "\<And>v. chan_ws d c = Some v \<Longrightarrow> v = w" and "turnSandbox pe up now c d = (r, es, d')"
  shows "(\<forall>e\<in>set es. effect_within d c w (Pod e)) \<and> (\<forall>s. r = Inr s \<longrightarrow> sbx_ws d s = Some w)"
proof -
  have w: "sbx_ws d s = Some w" if "same_ws d s c" for s using that assms(2) by (cases "chan_ws d c") (auto simp: same_ws_def)
  show ?thesis
    using assms(3) w [OF GetSandboxForChannel_same [OF assms(1)]] w [OF GetPausedSandboxForChannel_same [OF assms(1)]]
    by (auto simp: turnSandbox_def effect_within_def Let_def split: sum.splits option.splits prod.splits)
qed

lemma openClaw_within:
  assumes "channels_ok d" and "\<And>v. chan_ws d c = Some v \<Longrightarrow> v = w"
  shows "list_all (effect_within d c w) (fst (snd (fireAutomationOpenClaw sha pe post up now fresh c user prompt d)))"
proof -
  obtain r es d' where t: "turnSandbox pe up now c d = (r, es, d')" by (metis prod_cases3)
  from turnSandbox_within [OF assms t] show ?thesis
    by (auto simp: fireAutomationOpenClaw_def t Let_def list_all_iff effect_within_def split: sum.split)
qed

lemma turn_within:
  "cq_channel req = c \<Longrightarrow> cq_ws req = w \<Longrightarrow>
     list_all (\<lambda>e. effect_within d c w (Turn e)) (fst (snd (runTurnSync ev up now uuid req a)))"
  using runTurnSync_answers [of ev req up now uuid a]
  by (auto simp: answered_def list_all_iff effect_within_def)

lemma fire_within:
  assumes "channels_ok (ag_im b)" and "oe_dec (fe_auto fe) (au_config x) = Inr cfg"
    and "\<And>v. chan_ws (ag_im b) (ac_channel cfg) = Some v \<Longrightarrow> v = ac_ws cfg"
  shows "list_all (effect_within (ag_im b) (ac_channel cfg) (ac_ws cfg)) (fst (fireAutomation fe up runAt fin fresh x b))"
proof -
  have t: "list_all (\<lambda>e. effect_within (ag_im b) (ac_channel cfg) (ac_ws cfg) (Turn e)) (fst (snd (runTurnSync ev u t uuid
      \<lparr>cq_channel = ac_channel cfg, cq_ws = ac_ws cfg, cq_user = ac_user cfg, cq_sender = [], cq_text = ac_prompt cfg,
       cq_quoted = [], cq_quoter = [], cq_media = [], cq_data = [], cq_qmedia = [], cq_qdata = []\<rparr> a)))" for ev u t uuid a
    by (rule turn_within) simp_all
  with openClaw_within [OF assms(1,3)] show ?thesis
    unfolding fireAutomation_def Let_def prod.case_eq_if list_all_iff assms(2) by (simp split: option.split) blast
qed

lemma claim_cases:
  assumes "ClaimDueAutomations up now busy a lease limit = (Inr xs, a')"
  obtains A where "\<And>i. i \<in> A \<Longrightarrow> \<exists>y\<in>set (ag_autos a). au_id y = i \<and> due now y"
    and "xs = map (scanAutomation \<circ> (\<lambda>x. x\<lparr>au_locked := Some (now + lease), au_updated := now\<rparr>))
      (filter (\<lambda>x. au_id x \<in> A) (ag_autos a))"
    and "ag_autos a' = update_rows (\<lambda>x. au_id x \<in> A) (\<lambda>x. x\<lparr>au_locked := Some (now + lease), au_updated := now\<rparr>) (ag_autos a)"
proof -
  let ?A = "set (map au_id (take (nat (if limit \<le> 0 then 50 else limit)) (filter (\<lambda>x. \<not> busy (au_id x)) (by_next (filter (due now) (ag_autos a))))))"
  have "\<exists>y\<in>set (ag_autos a). au_id y = i \<and> due now y" if "i \<in> ?A" for i
    using that by (auto simp: by_next_def dest!: in_set_takeD split: if_splits)
  moreover have "up" using assms by (auto simp: ClaimDueAutomations_def Let_def split: if_splits)
  ultimately show ?thesis using assms by (intro that [of ?A]) (clarsimp simp: ClaimDueAutomations_def Let_def)+
qed

lemma claimed_row:
  assumes "ClaimDueAutomations up now busy a lease limit = (Inr xs, a')" and "x \<in> set xs"
  shows "\<exists>y\<in>set (ag_autos a). au_id y = au_id x \<and> au_config y = au_config x \<and> au_channel y = au_channel x \<and>
    au_ws y = au_ws x"
proof (rule claim_cases [OF assms(1)])
  fix A assume "xs = map (scanAutomation \<circ> (\<lambda>x. x\<lparr>au_locked := Some (now + lease), au_updated := now\<rparr>))
      (filter (\<lambda>x. au_id x \<in> A) (ag_autos a))"
  with assms(2) obtain y where "y \<in> set (ag_autos a)" "x = scanAutomation (y\<lparr>au_locked := Some (now + lease), au_updated := now\<rparr>)"
    by auto
  then show ?thesis by (intro bexI [of _ y]) (simp_all add: scanAutomation_def)
qed

text \<open>
  Any number of steps during which no channel with the identifier \<open>c\<close> is created (identifiers are random): it stays,
  or it is deleted for good.
\<close>

inductive auto_run :: "auto_env \<Rightarrow> string \<Rightarrow> agent_db \<Rightarrow> agent_db \<Rightarrow> bool" for oe c a where
  run_none: "auto_run oe c a a"
| run_more: "auto_run oe c a b \<Longrightarrow> auto_step oe b l b' \<Longrightarrow>
    (has_channel (ag_im b') c \<Longrightarrow> has_channel (ag_im b) c) \<Longrightarrow> auto_run oe c a b'"

lemma auto_step_ws:
  assumes "auto_step oe a l a'" and "channels_ok (ag_im a)"
  shows "ws_kept (ag_im a) (ag_im a')"
  using assms
proof (induction rule: auto_step.induct)
  case as_create then show ?case
    by (simp add: handleCreateAutomation_def CreateAutomation_def Let_def automation_written_def prod.case_eq_if
        split: option.split sum.split)
next
  case as_patch then show ?case
    by (simp add: handlePatchAutomation_def UpdateAutomation_def update_auto_def Let_def automation_written_def prod.case_eq_if
        split: option.split sum.split)
next
  case as_delete then show ?case
    by (simp add: handleDeleteAutomation_def DeleteAutomation_def split: option.split sum.split)
next
  case as_claim then show ?case by (simp add: ClaimDueAutomations_def Let_def)
next
  case (as_fire fe a x up runAt fin fresh)
  then have claw: "ws_kept (ag_im a) (snd (snd (fireAutomationOpenClaw sha pe post u t i c user prompt (ag_im a))))"
    for sha pe post u t i c user prompt using openClaw_keeps by blast
  show ?case
    unfolding fireAutomation_def Let_def on_im_def prod.case_eq_if
    by (simp add: claw mark_next_def MarkAutomationRun_def update_auto_def prune_agent_def Let_def split: sum.split option.split)
next
  case (as_im s s' a)
  then show ?case using im_step_ws [OF as_im(1)] by (simp add: on_im_def prune_agent_def Let_def channels_ok_def)
qed

lemma auto_run_ws:
  assumes "auto_run oe c a b" and "auto_reach oe a" and "\<And>x. oe_dec oe (oe_enc oe x) = Inr x"
    and "\<And>v. chan_ws (ag_im a) c = Some v \<Longrightarrow> v = w"
  shows "auto_reach oe b \<and> (\<forall>v. chan_ws (ag_im b) c = Some v \<longrightarrow> v = w)"
  using assms(1)
proof (induction rule: auto_run.induct)
  case run_none with assms(2,4) show ?case by blast
next
  case (run_more b l b')
  then have "autos_ok oe b" using auto_reach_ok [of oe b] assms(3) by blast
  then have "channels_ok (ag_im b)" by (simp add: autos_ok_def)
  with auto_step_ws run_more have "ws_kept (ag_im b) (ag_im b')" by blast
  moreover have "chan_ws (ag_im b') c \<noteq> None \<Longrightarrow> chan_ws (ag_im b) c \<noteq> None" using run_more(3) by (simp add: has_channel_ws)
  ultimately show ?case using run_more(2,4) ar_more by (auto simp: ws_kept_def)
qed

text \<open>C39: Whatever has been requested, changed or run before: an automation that a scheduler has claimed belongs to the
  workspace of its channel, and whenever it is run after that, whatever has happened since, it prompts only agents of its
  workspace, wakes and runs only sandboxes of its workspace, and sends messages to its channel only.\<close>

theorem automation_in_workspace:
  assumes "auto_reach oe a" and "\<And>c. oe_dec oe (oe_enc oe c) = Inr c" and "fe_auto fe = oe"
    and "ClaimDueAutomations u now busy a automationClaimLease limit = (Inr xs, a')" and "x \<in> set xs"
    and "auto_run oe (au_channel x) a' b"
  shows "chan_ws (ag_im a) (au_channel x) = Some (au_ws x) \<and>
    list_all (effect_within (ag_im b) (au_channel x) (au_ws x)) (fst (fireAutomation fe up runAt fin fresh x b))"
proof -
  from claimed_row [OF assms(4,5)] auto_reach_ok [OF assms(1,2)]
  have "auto_ok oe (ag_im a) x" by (auto simp: autos_ok_def list_all_iff auto_ok_def)
  then obtain cfg where c: "chan_ws (ag_im a) (au_channel x) = Some (au_ws x)" "oe_dec oe (au_config x) = Inr cfg"
    "ac_channel cfg = au_channel x" "ac_ws cfg = au_ws x" by (auto simp: auto_ok_def)
  have a': "auto_reach oe a'" using ar_more [OF assms(1) as_claim, of u now busy limit] assms(4) by simp
  have "ag_im a' = ag_im a" using assms(4) by (auto simp: ClaimDueAutomations_def Let_def split: if_splits)
  with c(1) auto_run_ws [OF assms(6) a' assms(2), of "au_ws x"]
  have b: "auto_reach oe b" "\<And>v. chan_ws (ag_im b) (au_channel x) = Some v \<Longrightarrow> v = au_ws x" by auto
  have "channels_ok (ag_im b)" using auto_reach_ok [OF b(1) assms(2)] by (simp add: autos_ok_def)
  from fire_within [OF this, of fe x cfg up runAt fin fresh] c b(2) assms(3) show ?thesis by simp
qed

section \<open>The lease\<close>

text \<open>The rows of an automation are locked at least until \<open>t\<close>.\<close>

definition locked_until :: "time \<Rightarrow> string \<Rightarrow> agent_db \<Rightarrow> bool" where
  "locked_until t i a \<longleftrightarrow>
     list_all (\<lambda>x. au_id x = i \<longrightarrow> (case au_locked x of Some u \<Rightarrow> t \<le> u | None \<Rightarrow> False)) (ag_autos a)"

lemma locked_until_subset:
  "set (ag_autos a') \<subseteq> set (ag_autos a) \<Longrightarrow> locked_until t i a \<Longrightarrow> locked_until t i a'"
  by (auto simp: locked_until_def list_all_iff)

lemma locked_until_update:
  assumes "locked_until t i a" and "\<And>x. au_id (f x) = au_id x"
    and "\<And>x. au_id x = i \<Longrightarrow> P x \<Longrightarrow> (case au_locked x of Some u \<Rightarrow> t \<le> u | None \<Rightarrow> False) \<Longrightarrow>
      (case au_locked (f x) of Some u \<Rightarrow> t \<le> u | None \<Rightarrow> False)"
  shows "locked_until t i (a\<lparr>ag_autos := update_rows P f (ag_autos a)\<rparr>)"
  using assms(1) list_all_update [of "ag_autos a" "\<lambda>x. au_id x = i \<longrightarrow> (case au_locked x of Some u \<Rightarrow> t \<le> u | None \<Rightarrow> False)" P f]
    assms(2,3) by (simp add: locked_until_def)

lemma mark_other_locked:
  "locked_until t i a \<Longrightarrow> j \<noteq> i \<Longrightarrow> locked_until t i (snd (MarkAutomationRun up now a j runAt e n))"
  unfolding MarkAutomationRun_def update_auto_def by (auto intro!: locked_until_update)

lemma mark_next_locked:
  "locked_until t i a \<Longrightarrow> au_id x \<noteq> i \<Longrightarrow> locked_until t i (mark_next oe up now runAt x e a)"
  by (simp add: mark_next_def mark_other_locked split: sum.split)

lemma prune_agent_locked: "locked_until t i a \<Longrightarrow> locked_until t i (prune_agent (a\<lparr>ag_im := d\<rparr>))"
  by (rule locked_until_subset [of _ a]) (auto simp: prune_agent_def Let_def)

lemma fire_other_locked:
  assumes "locked_until t i a" and "au_id x \<noteq> i"
  shows "locked_until t i (snd (fireAutomation fe up runAt fin fresh x a))"
proof -
  have turn: "locked_until t i b \<Longrightarrow> locked_until t i (snd (snd (runTurnSync ev u s uuid req b)))" for b ev u s uuid req
    by (simp add: locked_until_def)
  show ?thesis
    unfolding fireAutomation_def Let_def on_im_def prod.case_eq_if
    by (simp add: assms mark_other_locked mark_next_locked prune_agent_locked turn split: sum.split option.split)
qed

lemma claim_locked:
  assumes "locked_until t i a" and "0 \<le> lease"
  shows "locked_until t i (snd (ClaimDueAutomations up now busy a lease limit))"
proof -
  let ?ids = "map au_id (take (nat (if limit \<le> 0 then 50 else limit)) (filter (\<lambda>x. \<not> busy (au_id x)) (by_next (filter (due now) (ag_autos a)))))"
  have "t \<le> now + lease" if x: "i \<in> set ?ids"
  proof -
    from x obtain y where y: "y \<in> set (ag_autos a)" "due now y" "au_id y = i"
      by (auto simp: by_next_def dest!: in_set_takeD)
    with assms(1) have "case au_locked y of Some u \<Rightarrow> t \<le> u | None \<Rightarrow> False" by (simp add: locked_until_def list_all_iff)
    with y(2) assms(2) show ?thesis by (auto simp: due_def split: option.splits)
  qed
  with assms(1) show ?thesis
    unfolding ClaimDueAutomations_def Let_def by (auto intro!: locked_until_update)
qed

lemma create_locked:
  assumes "locked_until t i a" and "j \<noteq> i"
  shows "locked_until t i (snd (handleCreateAutomation oe up now j user w body a))"
proof -
  have "au_id x = j \<Longrightarrow> locked_until t i (snd (CreateAutomation u now a x))" for u x
    using assms by (simp add: CreateAutomation_def locked_until_def)
  with assms(1) show ?thesis
    unfolding handleCreateAutomation_def Let_def automation_written_def prod.case_eq_if
    by (simp split: option.split sum.split)
qed

lemma update_locked: "locked_until t i a \<Longrightarrow> locked_until t i (snd (UpdateAutomation oe up now a x))"
  unfolding UpdateAutomation_def update_auto_def Let_def
  by (auto intro!: locked_until_update split: sum.split)

lemma auto_step_locked:
  assumes "auto_step oe a l a'" and "locked_until t i a" and "l \<noteq> Made i" and "l \<noteq> Fired i"
  shows "locked_until t i a'"
  using assms
proof (induction rule: auto_step.induct)
  case as_create then show ?case by (simp add: create_locked)
next
  case as_patch then show ?case
    unfolding handlePatchAutomation_def Let_def automation_written_def prod.case_eq_if
    by (simp add: update_locked split: option.split sum.split)
next
  case as_delete then show ?case
    by (auto simp: handleDeleteAutomation_def DeleteAutomation_def intro: locked_until_subset split: option.split sum.split)
next
  case as_claim then show ?case by (simp add: claim_locked automationClaimLease_def)
next
  case as_fire then show ?case by (simp add: fire_other_locked)
next
  case as_im then show ?case by (simp add: on_im_def prune_agent_locked)
qed

text \<open>Any number of steps that neither make nor run an automation.\<close>

inductive quiet :: "auto_env \<Rightarrow> string \<Rightarrow> agent_db \<Rightarrow> agent_db \<Rightarrow> bool" for oe i where
  quiet_none: "quiet oe i a a"
| quiet_more: "quiet oe i a b \<Longrightarrow> auto_step oe b l c \<Longrightarrow> l \<noteq> Made i \<Longrightarrow> l \<noteq> Fired i \<Longrightarrow> quiet oe i a c"

lemma quiet_locked: "quiet oe i a b \<Longrightarrow> locked_until t i a \<Longrightarrow> locked_until t i b"
  by (induction rule: quiet.induct) (auto intro: auto_step_locked)

lemma claimed_due:
  assumes "ClaimDueAutomations up now busy a lease limit = (Inr xs, a')" and "x \<in> set xs"
  shows "(\<exists>y\<in>set (ag_autos a). au_id y = au_id x \<and> due now y) \<and> locked_until (now + lease) (au_id x) a'"
proof (rule claim_cases [OF assms(1)])
  fix A assume due: "\<And>i. i \<in> A \<Longrightarrow> \<exists>y\<in>set (ag_autos a). au_id y = i \<and> due now y"
    and xs: "xs = map (scanAutomation \<circ> (\<lambda>x. x\<lparr>au_locked := Some (now + lease), au_updated := now\<rparr>))
      (filter (\<lambda>x. au_id x \<in> A) (ag_autos a))"
    and a': "ag_autos a' = update_rows (\<lambda>x. au_id x \<in> A) (\<lambda>x. x\<lparr>au_locked := Some (now + lease), au_updated := now\<rparr>) (ag_autos a)"
  have A: "au_id x \<in> A" using assms(2) by (auto simp: xs scanAutomation_def)
  have "list_all (\<lambda>x. au_id x \<in> A \<longrightarrow> au_locked x = Some v) (update_rows (\<lambda>x. au_id x \<in> A) (\<lambda>x. x\<lparr>au_locked := Some v, au_updated := w\<rparr>) rs)"
    for v w rs by (induction rs) auto
  with A have "locked_until (now + lease) (au_id x) a'" by (fastforce simp: locked_until_def a' list_all_iff)
  with due [OF A] show ?thesis by blast
qed

text \<open>C40: Once a scheduler has claimed an automation, no scheduler claims it again before the lease of five minutes has
  ended, unless it is run or made anew in between, whatever else happens.\<close>

theorem claims_apart:
  assumes "ClaimDueAutomations u now busy a automationClaimLease limit = (Inr xs, b)" and "x \<in> set xs"
    and "quiet oe (au_id x) b c"
    and "ClaimDueAutomations u' now' busy' c lease' limit' = (Inr ys, d)" and "y \<in> set ys" and "au_id y = au_id x"
  shows "now + 300 < now'"
proof -
  have "locked_until (now + 300) (au_id x) c"
    using quiet_locked [OF assms(3) conjunct2 [OF claimed_due [OF assms(1,2)]]] by (simp add: automationClaimLease_def)
  moreover from claimed_due [OF assms(4,5)] obtain z where "z \<in> set (ag_autos c)" "au_id z = au_id x" "due now' z"
    using assms(6) by auto
  ultimately show ?thesis by (auto simp: locked_until_def list_all_iff due_def split: option.splits)
qed

section \<open>A small history\<close>

fun small_cut :: "string \<Rightarrow> string \<times> string" where
  "small_cut (x # c # r) = (if x = CHR ''x'' then (case small_cut r of (s, t) \<Rightarrow> (c # s, t)) else ([], c # r))"
| "small_cut _ = ([], [])"

definition small_text :: "string \<Rightarrow> string" where
  "small_text s = List.concat (map (\<lambda>c. [CHR ''x'', c]) s) @ ''.''"

lemma small_cut_text: "small_cut (small_text s @ t) = (s, t)"
proof (induction s)
  case Nil then show ?case by (cases t) (simp_all add: small_text_def)
next
  case (Cons c s) then show ?case by (simp add: small_text_def)
qed

definition small_auto_env :: auto_env where
  "small_auto_env =
     \<lparr>oe_sched = (\<lambda>_. Inr (\<lambda>t. t + 60)),
      oe_enc = (\<lambda>c. small_text (ac_channel c) @ small_text (ac_ws c) @ small_text (ac_user c) @ small_text (ac_prompt c)),
      oe_dec = (\<lambda>s. case small_cut s of (c, s1) \<Rightarrow> (case small_cut s1 of (w, s2) \<Rightarrow>
        (case small_cut s2 of (u, s3) \<Rightarrow> (case small_cut s3 of (p, _) \<Rightarrow>
           Inr \<lparr>ac_channel = c, ac_ws = w, ac_user = u, ac_prompt = p\<rparr>)))),
      oe_quote = id, oe_dbt = (\<lambda>_. []), oe_fmt = (\<lambda>_. [])\<rparr>"

lemma small_auto_roundtrip: "oe_dec small_auto_env (oe_enc small_auto_env c) = Inr c"
  using small_cut_text [of "ac_prompt c" "[]"] by (simp add: small_auto_env_def small_cut_text)

text \<open>The member of the small site becomes an owner and makes an automation.\<close>

definition small_owner :: imw where
  "small_owner = small_imw2\<lparr>iw_db := prune ((iw_db small_imw2)\<lparr>im_srv := (im_srv (iw_db small_imw2))\<lparr>sv_members :=
     [\<lparr>me_ws = ''w'', me_user = ''u'', me_role = ''owner'', me_created = 0\<rparr>]\<rparr>\<rparr>)\<rparr>"

lemma small_owner_reach: "im_reach small_owner"
proof -
  have ok: "channels_ok (iw_db small_imw2)" by (rule im_reach_ok [OF small_imw_reach(3)])
  have "srv_change (im_srv (iw_db small_imw2)) ((im_srv (iw_db small_imw2))\<lparr>sv_members :=
      [\<lparr>me_ws = ''w'', me_user = ''u'', me_role = ''owner'', me_created = 0\<rparr>]\<rparr>)"
    using ok distinct_map_inj_on [of sb_id] by (auto simp: srv_change_def channels_ok_def)
  from im_more [OF small_imw_reach(3) im_server [OF this]] show ?thesis by (simp add: small_owner_def)
qed

definition small_autos0 :: agent_db where
  "small_autos0 = small_agent\<lparr>ag_im := iw_db small_owner\<rparr>"

definition small_autos :: agent_db where
  "small_autos = snd (handleCreateAutomation small_auto_env (\<lambda>_. True) 100 ''a'' ''u'' ''w''
     (Some \<lparr>aq_name = ''n'', aq_skill = ''k'', aq_cron = ''@hourly'', aq_channel = ''c'', aq_enabled = None, aq_prompt = ''p'',
            aq_user = ''7''\<rparr>) small_autos0)"

lemma small_autos_reach: "auto_reach small_auto_env small_autos"
proof -
  have "auto_reach small_auto_env small_autos0"
    by (rule ar_start [OF small_owner_reach]) (simp_all add: small_autos0_def small_agent_def)
  from ar_more [OF this as_create] show ?thesis unfolding small_autos_def by blast
qed

definition small_claim :: "(db_err + Automation list) \<times> agent_db" where
  "small_claim = ClaimDueAutomations True 200 (\<lambda>_. False) small_autos automationClaimLease 50"

lemma small_claim_ids: "map_sum id (map au_id) (fst small_claim) = Inr [''a'']"
  by code_simp

lemma small_claim_again:
  "map_sum id (map au_id) (fst (ClaimDueAutomations True 501 (\<lambda>_. False) (snd small_claim) 300 50)) = Inr [''a'']"
  by code_simp

definition small_fire_env :: fire_env where
  "small_fire_env =
     \<lparr>fe_auto = small_auto_env, fe_sha = id,
      fe_pod = Some \<lparr>pe_assistant = id, pe_exec = (\<lambda>_ _. Inr ''ok''), pe_resume = Inr, pe_stdout = (\<lambda>s. Inr ([], [s]))\<rparr>,
      fe_codex = Some small_turn_env, fe_post = (\<lambda>_. Inr (500, []))\<rparr>"

lemma claim_one:
  assumes "map_sum id (map au_id) (fst r) = Inr [i]"
  obtains x b where "r = (Inr [x], b)" and "au_id x = i"
proof -
  obtain e b where r: "r = (e, b)" by (cases r)
  with assms obtain xs where "e = Inr xs" "map au_id xs = [i]" by (cases e) auto
  then obtain x where "e = Inr [x]" "au_id x = i" by auto
  with r show ?thesis using that by blast
qed

definition fire_kind :: "fire_effect \<Rightarrow> string" where
  "fire_kind e = (case e of Pod (Resumed s) \<Rightarrow> s | Pod (Executed s _) \<Rightarrow> s | Turn (Ran q) \<Rightarrow> tr_ws q
     | Turn (Posted c _ _) \<Rightarrow> c | Delivered c _ _ \<Rightarrow> c)"

definition small_fire :: "Automation \<Rightarrow> agent_db \<Rightarrow> fire_effect list" where
  "small_fire x b = fst (fireAutomation small_fire_env (\<lambda>_. True) 210 220 (\<lambda>n. replicate n CHR ''i'') x b)"

lemma small_fire_effects:
  "map_sum id (map (\<lambda>x. map fire_kind (small_fire x (snd small_claim)))) (fst small_claim) =
     Inr [[''s'', ''c'', ''w'', ''c'']]"
  by code_simp

text \<open>
  The claimed automation runs its prompt in the sandbox of its workspace; the answer is not delivered, and so Codex
  is asked, and its answer posted.
\<close>

theorem automation_in_workspace_witness:
  "\<exists>x b. small_claim = (Inr [x], b) \<and> map fire_kind (small_fire x b) = [''s'', ''c'', ''w'', ''c''] \<and>
    list_all (effect_within (ag_im b) (au_channel x) (au_ws x)) (small_fire x b)"
proof -
  from small_claim_ids obtain x b where s: "small_claim = (Inr [x], b)" "au_id x = ''a''" by (rule claim_one)
  then have c: "ClaimDueAutomations True 200 (\<lambda>_. False) small_autos automationClaimLease 50 = (Inr [x], b)"
    by (simp add: small_claim_def)
  have f: "fe_auto small_fire_env = small_auto_env" by (simp add: small_fire_env_def)
  have x: "x \<in> set [x]" by simp
  have "list_all (effect_within (ag_im b) (au_channel x) (au_ws x)) (small_fire x b)"
    unfolding small_fire_def
    by (rule automation_in_workspace [OF small_autos_reach small_auto_roundtrip f c x run_none, THEN conjunct2])
  moreover from small_fire_effects have "map fire_kind (small_fire x b) = [''s'', ''c'', ''w'', ''c'']"
    unfolding s(1) fst_conv snd_conv by (simp only: map_sum.simps list.map sum.inject list.inject)
  ultimately show ?thesis by (intro exI [of _ x] exI [of _ b] conjI s(1))
qed

theorem claims_apart_witness:
  "\<exists>x b y d. ClaimDueAutomations True 200 (\<lambda>_. False) small_autos automationClaimLease 50 = (Inr [x], b) \<and>
     ClaimDueAutomations True 501 (\<lambda>_. False) b 300 50 = (Inr [y], d) \<and> au_id y = au_id x \<and> (200 :: time) + 300 < 501"
proof -
  from small_claim_ids obtain x b where c: "small_claim = (Inr [x], b)" "au_id x = ''a''" by (rule claim_one)
  from small_claim_again obtain y d
    where d: "ClaimDueAutomations True 501 (\<lambda>_. False) (snd small_claim) 300 50 = (Inr [y], d)" "au_id y = ''a''"
    by (rule claim_one)
  have one: "ClaimDueAutomations True 200 (\<lambda>_. False) small_autos automationClaimLease 50 = (Inr [x], b)"
    using c(1) by (simp add: small_claim_def)
  have two: "ClaimDueAutomations True 501 (\<lambda>_. False) b 300 50 = (Inr [y], d)" using d(1) by (simp only: c(1) snd_conv)
  have "(200 :: time) + 300 < 501"
    by (rule claims_apart [where x = x and y = y, OF one _ quiet_none two]) (simp_all add: c(2) d(2))
  with one two c(2) d(2) show ?thesis by metis
qed

end
