(* ===== verification/Spec2Isabelle.thy ===== *)
theory Spec2Isabelle
  imports Apply_Patch Registries Revoked_Set Exec_Gateway Env_Tools Sessions Relay Login
    Memberships Sandbox_Limits Work_Flow
    Account_Facts Automation_Facts
begin

text \<open>
  Verification of agentserver, a Go server that hosts coding agents in sandboxes and lets them run
  commands on executors that connect from outside.

  \<^bold>\<open>The program.\<close>  The agent server (\<open>internal/server\<close> over the tables of \<open>internal/db\<close>) keeps users,
  workspaces, members, sandboxes, delegated tasks, messages, channels and automations.  The login service
  (\<open>internal/codexauth\<close>) issues the tokens with which an executor registers at the exec gateway
  (\<open>internal/codexexecgateway\<close>).  The env tools (\<open>internal/envtools\<close>) dial the gateway with a capability
  token and run shell commands, sessions and patches on the executor.  The IM bridge
  (\<open>internal/imbridgesvc\<close>, \<open>internal/imbridge\<close>) connects messengers to sandboxes and agents.

  \<^bold>\<open>Conventions.\<close>  A Go struct is a record, a table the list of its rows (or a map, where the code only
  looks rows up by key), a statement a function from the table to its result and the new table, with the
  constraints, defaults and cascades of the migrations.  A statement takes a flag that says whether the
  database answers it, so that every error path is a branch.  A handler is one function from the decoded
  request to its reply and the new state; its early returns are the branches, in the order of the code.
  \<open>time.Now()\<close> is an argument.  Goroutines, timers and other handlers are steps of an inductive relation, and
  what holds at all times is an invariant of its reachable states.  Functions that are not under
  \<open>src/\<close>, or that only format or transport (HMAC, SHA-256, password hashing, random bytes, JSON, HTTP calls,
  the process manager) are arguments of the definitions that use them; what a property needs of them is a
  hypothesis of its statement.

  \<^bold>\<open>Theories.\<close>
  \<^item> \<open>Prelude\<close>, \<open>Go_Strings\<close>, \<open>Go_Encoding\<close>: shared types and list lemmas, the functions of \<open>strings\<close>,
    \<open>strconv\<close> and \<open>encoding/base64\<close>.
  \<^item> \<open>Apply_Patch\<close> (\<open>apply_patch_core.go\<close>, \<open>apply_patch.go\<close>): grammar, parser, hunk engine and file
    operations; the engine refines an abstract edit of lines, and the parser inverts a printer.
  \<^item> \<open>Registries\<close> (\<open>codexexecgateway/multiplex.go\<close>, \<open>tunnel/registry.go\<close>): a locale of guarded registries and its three
    instances.  \<open>Revoked_Set\<close> (\<open>revocation.go\<close>): a linked list with index refines a bounded list.
  \<^item> \<open>Exec_Store\<close>, \<open>Exec_Auth\<close>, \<open>Exec_Admission\<close>, \<open>Exec_Gateway\<close>: executors and bindings, capability tokens
    and tickets, who is admitted, and the multiplexed connections as a step relation.
  \<^item> \<open>Sessions\<close>, \<open>Env_Tools\<close>: output rings, their tables, the pool of connections and the process tools.
    The read loops have the bound of the code (\<open>maxCycles\<close>), which is the fuel.
  \<^item> \<open>Relay\<close> (\<open>relay/relay.go\<close>, \<open>handlers_relay.go\<close>): uploads paired with downloads as a step relation.
  \<^item> \<open>Auth_Store\<close>, \<open>Code_Auth\<close>, \<open>Login\<close> (\<open>internal/codexauth\<close>): grants, device login, refresh families, histories.
  \<^item> \<open>Server_Store\<close>, \<open>Workspaces\<close>, \<open>Quotas\<close>, \<open>Tenancy\<close>: tables of the server, slugs, members, limits, and what the
    handlers guarantee about them.  \<open>Memberships\<close>: every way in which a role in a workspace changes, by requests,
    invites, sign-up and deletion of users.
  \<^item> \<open>Sandbox_Store\<close>, \<open>Sandbox_Life\<close>, \<open>Provisioning\<close>, \<open>Life_Spec\<close>, \<open>Life_Cycle\<close>, \<open>Sandbox_Limits\<close>: sandboxes, what
    provisioning adds, their lifecycle (with wake-ups, automatic binding and restarts of the server) as a refinement of
    an abstract one, limits and races.
  \<^item> \<open>Agent_Work\<close>, \<open>Work_Flow\<close>: tasks and messages as instances of a locale of queues.
  \<^item> \<open>Secrets\<close>, \<open>Accounts_Store\<close>, \<open>Accounts\<close>, \<open>Credentials\<close>, \<open>Admin\<close>: credentials with check digits, sign-in,
    sessions, invites, API keys, administration; \<open>Credential_Use\<close> and \<open>Session_Use\<close> trace every accepted
    credential back to its issue with one locale, \<open>Account_Facts\<close> has the facts on single requests.
  \<^item> \<open>Channels\<close>, \<open>Bridge\<close>, \<open>Im_Handlers\<close>, \<open>Im_Channels\<close>, \<open>Im_Facts\<close> (\<open>internal/db/im_*.go\<close>, \<open>internal/imbridge\<close>,
    \<open>internal/imbridgesvc\<close>): channels of messengers, guardrails, pollers and forwarding, the handlers of the bridge,
    and which sandbox, workspace and messages a channel can reach.  A round of a poller is the list of its single
    actions, so that a crash can fall between any two of them.
  \<^item> \<open>Agent_Sessions\<close> (\<open>internal/db/agent_sessions.go\<close>): sessions, their events, workers and turns.
  \<^item> \<open>Im_Turns\<close>, \<open>Turn_Queue\<close> (\<open>codex_im_inbound.go\<close>, \<open>codex_client.go\<close>, \<open>openclaw_turn_handler.go\<close>): the turn of an
    agent that a message starts and its answer, and the queues in front of it as a step relation whose operations
    report what happens to each message.
  \<^item> \<open>Automations\<close>, \<open>Automation_Facts\<close> (\<open>internal/db/automations.go\<close>, \<open>automation_handlers.go\<close>,
    \<open>automation_scheduler.go\<close>): scheduled prompts, their lease and their workspace.

  \<^bold>\<open>Bounds.\<close>  Searches that the code bounds keep its bound (a thousand slugs, \<open>maxCycles\<close> reads); loops that
  consume their input are structural or have a measure.  No other fuel is used.  Numbers are words where
  the width matters (ring offsets, limits of the relay, check sums) and unbounded elsewhere.

  \<^bold>\<open>Not modelled.\<close>  Drivers of other systems that mostly build requests or configuration for them: the
  process managers (\<open>internal/sandbox\<close>, \<open>internal/container\<close>, \<open>internal/namespace\<close>), the messenger
  clients (\<open>internal/weixin\<close>, the providers of \<open>internal/imbridge\<close>, its cryptography), object storage, mail, the
  proxy of language models and its accounting, the Kubernetes credential proxy and its bindings, the log of
  operations, the broker of the app gateway, protobuf code, the SDK, the
  command-line programs, and the browser bundle.  The remaining handlers of the server that are not listed in
  the theories above, and the SQL of the playground's listings, are read-only views.

  \<^bold>\<open>What the properties leave open.\<close>  Each names its conditions.  The limits of a workspace hold for a request that no
  other interrupts (\<open>provision_race\<close> shows the other case); a revocation holds until the set evicts it; a channel has
  one poller at a time; and a restart of the server while a sandbox starts, pauses or resumes strands it
  (\<open>restart_strands\<close>).
\<close>

end
